(* ===== verification/Prelude.thy ===== *)
theory Prelude
  imports Main "HOL-Library.Word"
begin

text \<open>
  What the components of the firmware model share: the C integer types as words, arrays as
  lists updated in place, the two loop shapes of the C sources (a scan that returns the first
  match, and a counted loop that rewrites the state), and the collections of hints the
  component theories extend.
\<close>

unbundle bit_operations_syntax

section \<open>Machine integers\<close>

type_synonym u8 = "8 word"
type_synonym u16 = "16 word"
type_synonym u32 = "32 word"

text \<open>
  Millisecond clocks are unsigned 32-bit counters that wrap.  The sources compare them by the
  sign of the difference, \<open>(int32_t)(a - b) >= 0\<close>.
\<close>

definition ms_reached :: "u32 \<Rightarrow> u32 \<Rightarrow> bool" where
  "ms_reached now deadline \<longleftrightarrow> 0 \<le> sint (now - deadline)"

lemma ms_reached_refl [simp]: "ms_reached t t"
  by (simp add: ms_reached_def)

text \<open>A deadline of zero means ``not armed'', so an armed one is stamped with 1 instead.\<close>

definition never_zero :: "u32 \<Rightarrow> u32" where
  "never_zero t = (if t = 0 then 1 else t)"

lemma never_zero_nonzero [simp]: "never_zero t \<noteq> 0"
  by (simp add: never_zero_def)

section \<open>Scans: the first index that matches\<close>

fun find_idx :: "('a \<Rightarrow> bool) \<Rightarrow> 'a list \<Rightarrow> nat option" where
  "find_idx P [] = None"
| "find_idx P (x # xs) = (if P x then Some 0 else map_option Suc (find_idx P xs))"

lemma find_idx_SomeD: "find_idx P xs = Some i \<Longrightarrow> i < length xs \<and> P (xs ! i)"
  by (induction xs arbitrary: i) (auto split: if_splits)

lemma find_idx_first: "find_idx P xs = Some i \<Longrightarrow> j < i \<Longrightarrow> \<not> P (xs ! j)"
proof (induction xs arbitrary: i j)
  case (Cons x xs)
  then show ?case by (cases j) (auto split: if_splits)
qed simp

lemma find_idx_None_iff: "find_idx P xs = None \<longleftrightarrow> (\<forall>x \<in> set xs. \<not> P x)"
  by (induction xs) auto

lemma find_idx_None_nth: "find_idx P xs = None \<Longrightarrow> i < length xs \<Longrightarrow> \<not> P (xs ! i)"
  by (simp add: find_idx_None_iff)

lemma find_idx_unique:
  assumes "i < length xs" and "P (xs ! i)"
    and "\<And>j. j < length xs \<Longrightarrow> P (xs ! j) \<Longrightarrow> j = i"
  shows "find_idx P xs = Some i"
proof (cases "find_idx P xs")
  case None
  with assms(1,2) show ?thesis by (auto simp: find_idx_None_iff)
next
  case (Some k)
  then show ?thesis using find_idx_SomeD [OF Some] assms(3) by blast
qed

lemma find_idx_cong:
  "length xs = length ys \<Longrightarrow> (\<And>i. i < length xs \<Longrightarrow> P (xs ! i) = Q (ys ! i))
   \<Longrightarrow> find_idx P xs = find_idx Q ys"
proof (induction xs ys rule: list_induct2')
  case (4 x xs y ys)
  have "P x = Q y" using 4(3) [of 0] by simp
  moreover have "find_idx P xs = find_idx Q ys"
    using 4(2) 4(3) [of "Suc _"] by (intro 4(1)) auto
  ultimately show ?case by simp
qed auto

lemma filter_singleton: "filter P xs = [x] \<Longrightarrow> x \<in> set xs \<and> P x"
  by (drule arg_cong [where f = set]) auto

section \<open>Counted loops\<close>

text \<open>\<open>for_each n f s\<close> is \<open>for (i = 0; i < n; i++) s = f(i, s)\<close>.\<close>

definition for_each :: "nat \<Rightarrow> (nat \<Rightarrow> 's \<Rightarrow> 's) \<Rightarrow> 's \<Rightarrow> 's" where
  "for_each n f s = fold f [0..<n] s"

lemma for_each_0 [simp]: "for_each 0 f s = s"
  by (simp add: for_each_def)

lemma for_each_Suc: "for_each (Suc n) f s = f n (for_each n f s)"
  by (simp add: for_each_def)

text \<open>The invariant rule: what every iteration keeps, the loop keeps.\<close>

lemma for_each_inv:
  assumes "P s" and "\<And>i s. i < n \<Longrightarrow> P s \<Longrightarrow> P (f i s)"
  shows "P (for_each n f s)"
  using assms by (induction n) (auto simp: for_each_Suc)

lemma for_each_frame:
  assumes "\<And>i s. i < n \<Longrightarrow> g (f i s) = g s"
  shows "g (for_each n f s) = g s"
  using assms by (induction n) (auto simp: for_each_Suc)

text \<open>A relation that every iteration satisfies and that composes holds across the loop.\<close>

lemma for_each_rel:
  assumes "\<And>s. R s s" and "\<And>a b c. R a b \<Longrightarrow> R b c \<Longrightarrow> R a c"
    and "\<And>i s. i < n \<Longrightarrow> R s (f i s)"
  shows "R s (for_each n f s)"
  using assms(3)
proof (induction n)
  case (Suc n)
  then have "R s (for_each n f s)" by simp
  then show ?case using Suc.prems [of n] by (auto simp: for_each_Suc intro: assms(2))
qed (simp add: assms(1))

text \<open>What iteration \<open>k\<close> establishes and the later ones keep holds after the loop.\<close>

lemma for_each_establish:
  assumes "k < n" and "\<And>s. I s \<Longrightarrow> Q (f k s)" and "I s"
    and "\<And>i s. i < n \<Longrightarrow> I s \<Longrightarrow> I (f i s)"
    and "\<And>i s. k < i \<Longrightarrow> i < n \<Longrightarrow> I s \<Longrightarrow> Q s \<Longrightarrow> Q (f i s)"
  shows "Q (for_each n f s)"
  using assms
proof (induction n)
  case (Suc n)
  have inv: "I (for_each n f s)"
    by (rule for_each_inv) (use Suc.prems(3,4) in auto)
  show ?case
  proof (cases "k = n")
    case True
    then show ?thesis using inv Suc.prems(2) by (simp add: for_each_Suc)
  next
    case False
    with Suc.prems have "k < n" by simp
    with Suc have "Q (for_each n f s)" by simp
    with inv \<open>k < n\<close> Suc.prems(5) show ?thesis by (simp add: for_each_Suc)
  qed
qed simp

section \<open>Arrays\<close>

definition upd_nth :: "nat \<Rightarrow> ('a \<Rightarrow> 'a) \<Rightarrow> 'a list \<Rightarrow> 'a list" where
  "upd_nth i f xs = xs[i := f (xs ! i)]"

lemma length_upd_nth [simp]: "length (upd_nth i f xs) = length xs"
  by (simp add: upd_nth_def)

lemma nth_upd_nth: "j < length xs \<Longrightarrow> upd_nth i f xs ! j = (if i = j then f (xs ! j) else xs ! j)"
  by (auto simp: upd_nth_def nth_list_update)

lemma nth_upd_nth_eq [simp]: "i < length xs \<Longrightarrow> upd_nth i f xs ! i = f (xs ! i)"
  by (simp add: nth_upd_nth)

lemma nth_upd_nth_neq [simp]: "i \<noteq> j \<Longrightarrow> upd_nth i f xs ! j = xs ! j"
  by (simp add: upd_nth_def)

lemma all_set_nth: "(\<forall>x \<in> set xs. P x) \<longleftrightarrow> (\<forall>i < length xs. P (xs ! i))"
  by (simp add: all_set_conv_all_nth)

section \<open>Hint collections\<close>

named_theorems frame_simps
  \<open>what an operation leaves unchanged, as rewrite rules\<close>

named_theorems inv_intros
  \<open>an operation preserves a component invariant\<close>

end
