(* ===== verification/Call_Types.thy ===== *)
theory Call_Types
  imports Prelude
begin

text \<open>
  The data of the CLCC call model: the neutral enums of \<open>include/services/call_types.h\<close> and the
  structs of \<open>include/services/modem_call_model.h\<close>, field by field.  Conventions:

  \<^item> A C array with its count (\<open>baseline_ids/gens/count\<close>, \<open>release_queue/count\<close>,
    \<open>journal/count\<close>, \<open>shadow/count\<close>, \<open>absent_ids/gens/count\<close>,
    \<open>hangup_setup_tokens/count\<close>) is the list of its live prefix; the code never reads past the
    count, and every append of the code is guarded by the capacity, which the model repeats.
  \<^item> The slot tables \<open>legs[7]\<close>, \<open>txns[12]\<close> and \<open>gen_next[8]\<close> are lists of fixed length; a
    pointer into one is the index.
  \<^item> A \<open>char[33]\<close> number is the string before its terminator.
\<close>

section \<open>Enums\<close>

datatype modem_call_state =
  MODEM_CALL_IDLE | MODEM_CALL_RINGING | MODEM_CALL_DIALING
| MODEM_CALL_ANSWERING | MODEM_CALL_ACTIVE | MODEM_CALL_ENDING

datatype modem_call_result =
  MODEM_CALL_RESULT_NONE | MODEM_CALL_RESULT_CONNECTED | MODEM_CALL_RESULT_NO_CARRIER
| MODEM_CALL_RESULT_BUSY | MODEM_CALL_RESULT_NO_ANSWER | MODEM_CALL_RESULT_NO_DIALTONE

datatype call_leg_state =
  CALL_LEG_UNKNOWN | CALL_LEG_ACTIVE | CALL_LEG_HELD | CALL_LEG_DIALING
| CALL_LEG_ALERTING | CALL_LEG_INCOMING | CALL_LEG_WAITING | CALL_LEG_RELEASING

datatype call_direction = CALL_DIR_UNKNOWN | CALL_DIR_MO | CALL_DIR_MT

datatype call_mode = CALL_MODE_UNKNOWN | CALL_MODE_VOICE | CALL_MODE_DATA

datatype call_txn_kind =
  CALL_TXN_NONE | CALL_TXN_DIAL | CALL_TXN_ANSWER | CALL_TXN_HOLD | CALL_TXN_SWAP
| CALL_TXN_WAIT_ANSWER | CALL_TXN_WAIT_REJECT | CALL_TXN_RELEASE_ACTIVE
| CALL_TXN_RELEASE_LEG | CALL_TXN_HANGUP

datatype call_txn_state =
  TXN_PENDING | TXN_DISPATCHED | TXN_BOUND | TXN_UNCERTAIN
| TXN_SUCCEEDED | TXN_FAILED | TXN_CANCELLED

text \<open>The code compares transaction states by their enum values.\<close>

fun txn_state_val :: "call_txn_state \<Rightarrow> nat" where
  "txn_state_val TXN_PENDING = 0"
| "txn_state_val TXN_DISPATCHED = 1"
| "txn_state_val TXN_BOUND = 2"
| "txn_state_val TXN_UNCERTAIN = 3"
| "txn_state_val TXN_SUCCEEDED = 4"
| "txn_state_val TXN_FAILED = 5"
| "txn_state_val TXN_CANCELLED = 6"

lemma txn_state_val_inj: "txn_state_val a = txn_state_val b \<Longrightarrow> a = b"
  by (cases a; cases b) simp_all

instantiation call_txn_state :: linorder
begin

definition less_eq_call_txn_state :: "call_txn_state \<Rightarrow> call_txn_state \<Rightarrow> bool" where
  "less_eq_call_txn_state a b \<longleftrightarrow> txn_state_val a \<le> txn_state_val b"

definition less_call_txn_state :: "call_txn_state \<Rightarrow> call_txn_state \<Rightarrow> bool" where
  "less_call_txn_state a b \<longleftrightarrow> txn_state_val a < txn_state_val b"

instance
  by standard (auto simp: less_eq_call_txn_state_def less_call_txn_state_def
      intro: txn_state_val_inj)

end

datatype modem_cmd_status = CMD_OK | CMD_ERROR | CMD_TIMEOUT

datatype call_dispatch_guard =
  CALL_DISPATCH_SEND | CALL_DISPATCH_ALREADY_SATISFIED | CALL_DISPATCH_STALE

datatype call_result_sink =
  RESULT_SINK_PRIMARY_LATCH | RESULT_SINK_SECOND_MO_LATCH
| RESULT_SINK_JOURNAL_ONLY | RESULT_SINK_OUTPUT_FREE

datatype call_resolution_epoch =
  EPOCH_UNSET | EPOCH_AT_ADMISSION | EPOCH_AT_DISPATCH | EPOCH_PENDING_MT_EPISODE

section \<open>Constants\<close>

abbreviation MODEM_PHONE_MAX :: nat where "MODEM_PHONE_MAX \<equiv> 32"
abbreviation MODEM_MAX_CALL_LEGS :: nat where "MODEM_MAX_CALL_LEGS \<equiv> 7"
abbreviation MODEM_MAX_CALL_TRANSACTIONS :: nat where "MODEM_MAX_CALL_TRANSACTIONS \<equiv> 12"
abbreviation MODEM_HANGUP_SETUP_OWNERS :: nat where "MODEM_HANGUP_SETUP_OWNERS \<equiv> 2"
abbreviation MODEM_TXN_HANGUP_SLOT :: nat where "MODEM_TXN_HANGUP_SLOT \<equiv> 0"
abbreviation MODEM_CLCC_BACKOFF_MAX_SHIFT :: u8 where "MODEM_CLCC_BACKOFF_MAX_SHIFT \<equiv> 4"
abbreviation MODEM_RING_TIMEOUT_MS :: u32 where "MODEM_RING_TIMEOUT_MS \<equiv> 120000"
abbreviation MODEM_MT_METADATA_TIMEOUT_MS :: u32 where "MODEM_MT_METADATA_TIMEOUT_MS \<equiv> 10000"

text \<open>The reconcile reason bits.\<close>

abbreviation CALL_RC_COARSE_FINAL :: u32 where "CALL_RC_COARSE_FINAL \<equiv> 1"
abbreviation CALL_RC_UNBINDABLE_URC :: u32 where "CALL_RC_UNBINDABLE_URC \<equiv> 2"
abbreviation CALL_RC_UNCERTAIN_TXN :: u32 where "CALL_RC_UNCERTAIN_TXN \<equiv> 4"
abbreviation CALL_RC_PENDING_REMOVAL :: u32 where "CALL_RC_PENDING_REMOVAL \<equiv> 8"
abbreviation CALL_RC_OVERFLOW :: u32 where "CALL_RC_OVERFLOW \<equiv> 16"
abbreviation CALL_RC_PENDING_MT :: u32 where "CALL_RC_PENDING_MT \<equiv> 32"

section \<open>Structs\<close>

text \<open>\<open>call_leg_t\<close>.\<close>

record call_leg =
  lg_in_use :: bool
  lg_id :: u8
  lg_gen :: u8
  lg_state :: call_leg_state
  lg_dir :: call_direction
  lg_mode :: call_mode
  lg_mpty :: bool
  lg_meta_valid :: bool
  lg_cli_withheld :: bool
  lg_incoming_diverted :: bool
  lg_mt_cli_valid :: bool
  lg_pending_removal :: bool
  lg_was_answered :: bool
  lg_published_role :: call_leg_state
  lg_mt_episode :: u32
  lg_first_removal_ms :: u32
  lg_first_seen_ms :: u32
  lg_last_seen_ms :: u32
  lg_number :: string

text \<open>\<open>call_txn_t\<close>; the transaction pool's element.\<close>

record call_txn =
  tx_in_use :: bool
  tx_token :: u32
  tx_hangup_setups :: "u32 list"
  tx_kind :: call_txn_kind
  tx_state :: call_txn_state
  tx_target_id :: u8
  tx_target_gen :: u8
  tx_held_id :: u8
  tx_held_gen :: u8
  tx_baseline :: "(u8 \<times> u8) list"
  tx_bound_id :: u8
  tx_bound_gen :: u8
  tx_dir_confirmed :: bool
  tx_witnessed_active :: bool
  tx_at_accepted :: bool
  tx_second_mo :: bool
  tx_baseline_target_held :: bool
  tx_ever_dispatched :: bool
  tx_is_tombstone :: bool
  tx_output_resolved :: bool
  tx_cleanup_confirmed :: bool
  tx_policy_deadline_ms :: u32
  tx_abandon_deadline_ms :: u32
  tx_tombstone_deadline_ms :: u32
  tx_mt_episode :: u32
  tx_result :: modem_call_result

text \<open>\<open>call_pending_mt_t\<close>; the incoming episode seen before any call id.\<close>

record call_pending_mt =
  mt_active :: bool
  mt_alert_observed :: bool
  mt_incoming_diverted :: bool
  mt_number :: string
  mt_cli_validity :: u8
  mt_bound_id :: u8
  mt_bound_gen :: u8
  mt_bound_valid :: bool
  mt_generation :: u32
  mt_clcc_absent_snapshots :: u8
  mt_first_ring_ms :: u32
  mt_last_ring_ms :: u32
  mt_diverted_observed_ms :: u32

text \<open>\<open>call_projection_t\<close>; the published flat status.\<close>

record call_projection =
  pr_call_state :: modem_call_state
  pr_active_call_id :: u8
  pr_call_on_hold :: bool
  pr_second_call_held :: bool
  pr_waiting_call :: bool
  pr_ring_active :: bool
  pr_caller_id_withheld :: bool
  pr_incoming_diverted :: bool
  pr_incoming_number :: string
  pr_last_call_result :: modem_call_result
  pr_second_call_result :: modem_call_result

text \<open>\<open>call_terminal_t\<close>; one departed leg.\<close>

record call_terminal =
  je_in_use :: bool
  je_id :: u8
  je_gen :: u8
  je_dir :: call_direction
  je_was_answered :: bool
  je_is_second_mo :: bool
  je_result :: modem_call_result
  je_number :: string
  je_token :: u32

text \<open>\<open>call_cleanup_release_t\<close>; one queued teardown intent.\<close>

record call_cleanup_release =
  cr_id :: u8
  cr_gen :: u8
  cr_recover_held :: bool

record call_timing =
  clcc_keepalive_ms :: u32
  clcc_confirm_ms :: u32
  leg_limbo_ms :: u32
  txn_policy_ms :: u32
  txn_abandon_ms :: u32

record call_op_descriptor =
  od_epoch :: call_resolution_epoch
  od_sink :: call_result_sink

record modem_cmd_result =
  cmd_status :: modem_cmd_status
  cmd_has_call_result :: bool
  cmd_call_result :: modem_call_result

text \<open>\<open>call_model_t\<close>.\<close>

record call_model =
  legs :: "call_leg list"
  txns :: "call_txn list"
  pending_mt :: call_pending_mt
  semantic_revision :: u32
  overflow :: bool
  reconcile_reasons :: u32
  published :: call_projection
  pending_terminal :: modem_call_result
  pt_owner_id :: u8
  pt_owner_gen :: u8
  pt_owner_token :: u32
  journal :: "call_terminal list"
  journal_incomplete :: bool
  gen_next :: "u8 list"
  shadow_invalidated :: bool
  shadow :: "call_leg list"
  shadow_open :: bool
  shadow_transport_at_begin :: u32
  absent :: "(u8 \<times> u8) list"
  candidate_revision :: u32
  removal_armed :: bool
  clcc_backoff_shift :: u8
  next_clcc_ms :: u32
  fast_clcc_until_ms :: u32
  release_queue :: "call_cleanup_release list"
  next_token :: u32
  mt_episode_next :: u32
  timing :: call_timing
  now_ms :: u32

section \<open>Zeroed records (\<open>memset(x, 0, sizeof *x)\<close>)\<close>

definition leg_zero :: call_leg where
  "leg_zero =
    \<lparr>lg_in_use = False, lg_id = 0, lg_gen = 0, lg_state = CALL_LEG_UNKNOWN,
     lg_dir = CALL_DIR_UNKNOWN, lg_mode = CALL_MODE_UNKNOWN, lg_mpty = False,
     lg_meta_valid = False, lg_cli_withheld = False, lg_incoming_diverted = False,
     lg_mt_cli_valid = False, lg_pending_removal = False, lg_was_answered = False,
     lg_published_role = CALL_LEG_UNKNOWN, lg_mt_episode = 0, lg_first_removal_ms = 0,
     lg_first_seen_ms = 0, lg_last_seen_ms = 0, lg_number = ''''\<rparr>"

definition txn_zero :: call_txn where
  "txn_zero =
    \<lparr>tx_in_use = False, tx_token = 0, tx_hangup_setups = [], tx_kind = CALL_TXN_NONE,
     tx_state = TXN_PENDING, tx_target_id = 0, tx_target_gen = 0, tx_held_id = 0,
     tx_held_gen = 0, tx_baseline = [], tx_bound_id = 0, tx_bound_gen = 0,
     tx_dir_confirmed = False, tx_witnessed_active = False, tx_at_accepted = False,
     tx_second_mo = False, tx_baseline_target_held = False, tx_ever_dispatched = False,
     tx_is_tombstone = False, tx_output_resolved = False, tx_cleanup_confirmed = False,
     tx_policy_deadline_ms = 0, tx_abandon_deadline_ms = 0, tx_tombstone_deadline_ms = 0,
     tx_mt_episode = 0, tx_result = MODEM_CALL_RESULT_NONE\<rparr>"

definition mt_zero :: call_pending_mt where
  "mt_zero =
    \<lparr>mt_active = False, mt_alert_observed = False, mt_incoming_diverted = False,
     mt_number = '''', mt_cli_validity = 0, mt_bound_id = 0, mt_bound_gen = 0,
     mt_bound_valid = False, mt_generation = 0, mt_clcc_absent_snapshots = 0,
     mt_first_ring_ms = 0, mt_last_ring_ms = 0, mt_diverted_observed_ms = 0\<rparr>"

definition projection_zero :: call_projection where
  "projection_zero =
    \<lparr>pr_call_state = MODEM_CALL_IDLE, pr_active_call_id = 0, pr_call_on_hold = False,
     pr_second_call_held = False, pr_waiting_call = False, pr_ring_active = False,
     pr_caller_id_withheld = False, pr_incoming_diverted = False, pr_incoming_number = '''',
     pr_last_call_result = MODEM_CALL_RESULT_NONE,
     pr_second_call_result = MODEM_CALL_RESULT_NONE\<rparr>"

definition timing_zero :: call_timing where
  "timing_zero =
    \<lparr>clcc_keepalive_ms = 0, clcc_confirm_ms = 0, leg_limbo_ms = 0,
     txn_policy_ms = 0, txn_abandon_ms = 0\<rparr>"

text \<open>The bench-qualified Telit profile (\<open>call_timing_telit.h\<close>).\<close>

definition call_timing_telit :: call_timing where
  "call_timing_telit =
    \<lparr>clcc_keepalive_ms = 4000, clcc_confirm_ms = 300, leg_limbo_ms = 8000,
     txn_policy_ms = 40000, txn_abandon_ms = 120000\<rparr>"

section \<open>In-place updates of the slot tables\<close>

definition upd_leg :: "nat \<Rightarrow> (call_leg \<Rightarrow> call_leg) \<Rightarrow> call_model \<Rightarrow> call_model" where
  "upd_leg i f m = m\<lparr>legs := upd_nth i f (legs m)\<rparr>"

definition upd_txn :: "nat \<Rightarrow> (call_txn \<Rightarrow> call_txn) \<Rightarrow> call_model \<Rightarrow> call_model" where
  "upd_txn i f m = m\<lparr>txns := upd_nth i f (txns m)\<rparr>"

definition upd_mt :: "(call_pending_mt \<Rightarrow> call_pending_mt) \<Rightarrow> call_model \<Rightarrow> call_model" where
  "upd_mt f m = m\<lparr>pending_mt := f (pending_mt m)\<rparr>"

definition upd_pub :: "(call_projection \<Rightarrow> call_projection) \<Rightarrow> call_model \<Rightarrow> call_model" where
  "upd_pub f m = m\<lparr>published := f (published m)\<rparr>"

definition leg_at :: "call_model \<Rightarrow> nat \<Rightarrow> call_leg" where
  "leg_at m i = legs m ! i"

definition txn_at :: "call_model \<Rightarrow> nat \<Rightarrow> call_txn" where
  "txn_at m i = txns m ! i"

end
