(* ===== verification/Call_Register.thy ===== *)
theory Call_Register
  imports Call_Types
begin

text \<open>
  The primitives every part of the call model goes through: the edge-triggered reconcile
  reasons, the shadow invalidation, the predicates on legs and transactions, and the register
  that holds the provisional cause of a bare final until its owner consumes it
  (\<open>src/services/modem_call_model.c\<close>, first part).
\<close>

section \<open>Reasons and shadow invalidation\<close>

definition cm_raise_reason :: "call_model \<Rightarrow> u32 \<Rightarrow> call_model" where
  "cm_raise_reason m b =
     (if reconcile_reasons m AND b = 0
      then m\<lparr>reconcile_reasons := reconcile_reasons m OR b, next_clcc_ms := now_ms m\<rparr>
      else m)"

definition cm_touch_shadow :: "call_model \<Rightarrow> call_model" where
  "cm_touch_shadow m = (if shadow_open m then m\<lparr>shadow_invalidated := True\<rparr> else m)"

section \<open>Predicates on legs and transactions\<close>

definition cm_leg_is_transient :: "call_leg \<Rightarrow> bool" where
  "cm_leg_is_transient l \<longleftrightarrow> lg_pending_removal l \<or> lg_state l = CALL_LEG_RELEASING"

fun cm_txn_state_open :: "call_txn_state \<Rightarrow> bool" where
  "cm_txn_state_open TXN_PENDING = True"
| "cm_txn_state_open TXN_DISPATCHED = True"
| "cm_txn_state_open TXN_BOUND = True"
| "cm_txn_state_open TXN_UNCERTAIN = True"
| "cm_txn_state_open _ = False"

definition cm_txn_is_open :: "call_txn \<Rightarrow> bool" where
  "cm_txn_is_open t = cm_txn_state_open (tx_state t)"

definition txn_is_terminal :: "call_txn \<Rightarrow> bool" where
  "txn_is_terminal t \<longleftrightarrow>
     tx_state t = TXN_SUCCEEDED \<or> tx_state t = TXN_FAILED \<or> tx_state t = TXN_CANCELLED"

lemma txn_is_terminal_iff: "txn_is_terminal t \<longleftrightarrow> \<not> cm_txn_is_open t"
  by (cases "tx_state t") (auto simp: txn_is_terminal_def cm_txn_is_open_def)

definition cm_pending_mt_unbound :: "call_model \<Rightarrow> bool" where
  "cm_pending_mt_unbound m \<longleftrightarrow> mt_active (pending_mt m) \<and> \<not> mt_bound_valid (pending_mt m)"

text \<open>The leg a transaction is about: \<open>bound_id\<close> for a DIAL, the target for a targeted
  operation, none (0) for HOLD, SWAP and HANGUP.\<close>

definition cm_txn_owner_ref :: "call_txn \<Rightarrow> u8 \<times> u8" where
  "cm_txn_owner_ref t =
     (case tx_kind t of
        CALL_TXN_DIAL \<Rightarrow> (tx_bound_id t, tx_bound_gen t)
      | CALL_TXN_ANSWER \<Rightarrow> (tx_target_id t, tx_target_gen t)
      | CALL_TXN_WAIT_ANSWER \<Rightarrow> (tx_target_id t, tx_target_gen t)
      | CALL_TXN_WAIT_REJECT \<Rightarrow> (tx_target_id t, tx_target_gen t)
      | CALL_TXN_RELEASE_ACTIVE \<Rightarrow> (tx_target_id t, tx_target_gen t)
      | CALL_TXN_RELEASE_LEG \<Rightarrow> (tx_target_id t, tx_target_gen t)
      | _ \<Rightarrow> (0, 0))"

definition txn_baseline_contains :: "call_txn \<Rightarrow> u8 \<Rightarrow> u8 \<Rightarrow> bool" where
  "txn_baseline_contains t i g = list_ex (\<lambda>p. p = (i, g)) (tx_baseline t)"

lemma txn_baseline_contains_iff: "txn_baseline_contains t i g \<longleftrightarrow> (i, g) \<in> set (tx_baseline t)"
  by (auto simp: txn_baseline_contains_def list_ex_iff)

section \<open>Finders\<close>

definition txn_with_token :: "call_model \<Rightarrow> u32 \<Rightarrow> nat option" where
  "txn_with_token m tok = find_idx (\<lambda>t. tx_in_use t \<and> tx_token t = tok) (txns m)"

definition txn_by_token :: "call_model \<Rightarrow> u32 \<Rightarrow> nat option" where
  "txn_by_token m tok = (if tok = 0 then None else txn_with_token m tok)"

text \<open>Generation-qualified, so a stale reference never acts on a reused call id.\<close>

definition cm_find_leg :: "call_model \<Rightarrow> u8 \<Rightarrow> u8 \<Rightarrow> nat option" where
  "cm_find_leg m i g = find_idx (\<lambda>l. lg_in_use l \<and> lg_id l = i \<and> lg_gen l = g) (legs m)"

definition cm_has_leg :: "call_model \<Rightarrow> u8 \<Rightarrow> u8 \<Rightarrow> bool" where
  "cm_has_leg m i g = list_ex (\<lambda>l. lg_in_use l \<and> lg_id l = i \<and> lg_gen l = g) (legs m)"

definition cm_find_leg_by_id :: "call_model \<Rightarrow> u8 \<Rightarrow> nat option" where
  "cm_find_leg_by_id m i = find_idx (\<lambda>l. lg_in_use l \<and> lg_id l = i) (legs m)"

definition txn_find_role :: "call_model \<Rightarrow> call_leg_state \<Rightarrow> nat option" where
  "txn_find_role m st = find_idx (\<lambda>l. lg_in_use l \<and> lg_state l = st) (legs m)"

lemma cm_has_leg_iff: "cm_has_leg m i g \<longleftrightarrow> cm_find_leg m i g \<noteq> None"
  by (auto simp: cm_has_leg_def cm_find_leg_def list_ex_iff find_idx_None_iff
      simp del: not_None_eq)

lemma cm_find_leg_SomeD:
  "cm_find_leg m i g = Some k \<Longrightarrow>
     k < length (legs m) \<and> lg_in_use (legs m ! k) \<and> lg_id (legs m ! k) = i \<and>
     lg_gen (legs m ! k) = g"
  by (auto simp: cm_find_leg_def dest: find_idx_SomeD)

lemma cm_find_leg_by_id_SomeD:
  "cm_find_leg_by_id m i = Some k \<Longrightarrow>
     k < length (legs m) \<and> lg_in_use (legs m ! k) \<and> lg_id (legs m ! k) = i"
  by (auto simp: cm_find_leg_by_id_def dest: find_idx_SomeD)

lemma txn_find_role_SomeD:
  "txn_find_role m st = Some k \<Longrightarrow>
     k < length (legs m) \<and> lg_in_use (legs m ! k) \<and> lg_state (legs m ! k) = st"
  by (auto simp: txn_find_role_def dest: find_idx_SomeD)

lemma txn_by_token_SomeD:
  "txn_by_token m tok = Some k \<Longrightarrow>
     k < length (txns m) \<and> tx_in_use (txns m ! k) \<and> tx_token (txns m ! k) = tok \<and> tok \<noteq> 0"
  by (auto simp: txn_by_token_def txn_with_token_def dest: find_idx_SomeD split: if_splits)

section \<open>The provisional cause register\<close>

definition cm_reset_pending_terminal :: "call_model \<Rightarrow> call_model" where
  "cm_reset_pending_terminal m =
     m\<lparr>pending_terminal := MODEM_CALL_RESULT_NONE, pt_owner_id := 0, pt_owner_gen := 0,
       pt_owner_token := 0\<rparr>"

definition cm_clear_pending_terminal_for_token :: "call_model \<Rightarrow> u32 \<Rightarrow> call_model" where
  "cm_clear_pending_terminal_for_token m tok =
     (if tok \<noteq> 0 \<and> pt_owner_token m = tok then cm_reset_pending_terminal m else m)"

definition cm_pending_terminal_owned_by_live_txn :: "call_model \<Rightarrow> u8 \<Rightarrow> u8 \<Rightarrow> bool" where
  "cm_pending_terminal_owned_by_live_txn m i g =
     (if pt_owner_token m = 0 then False
      else (case txn_with_token m (pt_owner_token m) of
              None \<Rightarrow> False
            | Some k \<Rightarrow>
                (let t = txn_at m k; (oid, ogen) = cm_txn_owner_ref t
                 in cm_txn_is_open t \<and> \<not> (oid \<noteq> 0 \<and> oid = i \<and> ogen = g))))"

definition cm_pending_terminal_has_live_owner :: "call_model \<Rightarrow> bool" where
  "cm_pending_terminal_has_live_owner m =
     (if pt_owner_token m = 0 then False
      else (case txn_with_token m (pt_owner_token m) of
              None \<Rightarrow> False
            | Some k \<Rightarrow> cm_txn_is_open (txn_at m k)))"

definition cm_clear_pending_terminal :: "call_model \<Rightarrow> u8 \<Rightarrow> u8 \<Rightarrow> call_model" where
  "cm_clear_pending_terminal m i g =
     (if pending_terminal m = MODEM_CALL_RESULT_NONE then m
      else if pt_owner_token m \<noteq> 0 \<and> cm_pending_terminal_owned_by_live_txn m i g then m
      else if pt_owner_id m = 0 \<or> (i \<noteq> 0 \<and> pt_owner_id m = i \<and> pt_owner_gen m = g)
      then cm_reset_pending_terminal m
      else m)"

text \<open>An eviction consumes the departing leg's own cause, and only that.\<close>

definition cm_take_owned :: "call_model \<Rightarrow> u8 \<Rightarrow> u8 \<Rightarrow> modem_call_result \<times> call_model" where
  "cm_take_owned m i g =
     (if pt_owner_id m = 0 \<or> (pt_owner_id m = i \<and> pt_owner_gen m = g)
      then (pending_terminal m, cm_reset_pending_terminal m)
      else (MODEM_CALL_RESULT_NONE, m))"

definition cm_take_pending_terminal ::
    "call_model \<Rightarrow> u8 \<Rightarrow> u8 \<Rightarrow> modem_call_result \<times> call_model" where
  "cm_take_pending_terminal m i g =
     (if pt_owner_token m \<noteq> 0 then
        (case txn_with_token m (pt_owner_token m) of
           None \<Rightarrow> (MODEM_CALL_RESULT_NONE, cm_reset_pending_terminal m)
         | Some k \<Rightarrow>
             (if \<not> cm_txn_is_open (txn_at m k)
              then (MODEM_CALL_RESULT_NONE, cm_reset_pending_terminal m)
              else (let (oid, ogen) = cm_txn_owner_ref (txn_at m k)
                    in if oid = 0 \<or> oid \<noteq> i \<or> ogen \<noteq> g
                       then (MODEM_CALL_RESULT_NONE, m)
                       else cm_take_owned m i g)))
      else cm_take_owned m i g)"

end
