(* ===== verification/Call_Leg_Table.thy ===== *)
theory Call_Leg_Table
  imports Call_Register
begin

text \<open>
  The leg table and the pre-id incoming episode: allocation, generation history, the binding
  between the two, positive removal, the teardown queue, result routing, the terminal journal
  and the CLCC eviction primitive.
\<close>

section \<open>Allocation and generations\<close>

definition cm_generation_after :: "u8 \<Rightarrow> u8" where
  "cm_generation_after g = (let n = g + 1 in if n \<noteq> 0 then n else 1)"

definition cm_alloc_leg :: "call_model \<Rightarrow> u8 \<Rightarrow> call_model \<times> nat option" where
  "cm_alloc_leg m i =
     (case find_idx (\<lambda>l. \<not> lg_in_use l) (legs m) of
        Some k \<Rightarrow>
          (let m1 = cm_touch_shadow m in
           (upd_leg k (\<lambda>_. leg_zero
              \<lparr>lg_in_use := True, lg_id := i, lg_gen := gen_next m1 ! unat i,
               lg_state := CALL_LEG_UNKNOWN, lg_dir := CALL_DIR_UNKNOWN,
               lg_mode := CALL_MODE_UNKNOWN, lg_published_role := CALL_LEG_UNKNOWN,
               lg_was_answered := False, lg_first_seen_ms := now_ms m1,
               lg_last_seen_ms := now_ms m1\<rparr>) m1, Some k))
      | None \<Rightarrow>
          (m\<lparr>overflow := True,
             reconcile_reasons := reconcile_reasons m OR CALL_RC_OVERFLOW\<rparr>, None))"

section \<open>The pre-id incoming episode\<close>

definition cm_unbind_pending_mt :: "call_model \<Rightarrow> u8 \<Rightarrow> u8 \<Rightarrow> call_model" where
  "cm_unbind_pending_mt m i g =
     (if mt_bound_valid (pending_mt m) \<and> mt_bound_id (pending_mt m) = i \<and>
         mt_bound_gen (pending_mt m) = g
      then upd_mt (\<lambda>p. p\<lparr>mt_active := False, mt_bound_valid := False\<rparr>) m
      else m)"

definition cm_retire_compat_cli_owner :: "call_model \<Rightarrow> nat \<Rightarrow> call_model" where
  "cm_retire_compat_cli_owner m k =
     (if \<not> lg_mt_cli_valid (leg_at m k) then m
      else upd_pub (\<lambda>p. p\<lparr>pr_incoming_number := ''''\<rparr>)
             (upd_leg k (\<lambda>l. l\<lparr>lg_mt_cli_valid := False\<rparr>) m))"

text \<open>The scan keeps the last surviving owner and gives up when an incoming leg remains.\<close>

definition promoted_cli_owner :: "call_model \<Rightarrow> nat \<Rightarrow> nat option" where
  "promoted_cli_owner m dep =
     (let others = filter (\<lambda>i. i \<noteq> dep \<and> lg_in_use (leg_at m i)) [0..<MODEM_MAX_CALL_LEGS]
      in if list_ex (\<lambda>i. lg_state (leg_at m i) = CALL_LEG_INCOMING \<or>
                         lg_state (leg_at m i) = CALL_LEG_WAITING) others
         then None
         else (case filter (\<lambda>i. lg_mt_cli_valid (leg_at m i) \<and>
                      (lg_state (leg_at m i) = CALL_LEG_ACTIVE \<or>
                       lg_state (leg_at m i) = CALL_LEG_HELD)) others of
                 [] \<Rightarrow> None
               | c # cs \<Rightarrow> Some (last (c # cs))))"

definition cm_retire_promoted_compat_cli :: "call_model \<Rightarrow> nat \<Rightarrow> call_model" where
  "cm_retire_promoted_compat_cli m dep =
     (if mt_active (pending_mt m) then m
      else (case promoted_cli_owner m dep of
              None \<Rightarrow> m
            | Some k \<Rightarrow> cm_retire_compat_cli_owner m k))"

definition episode_txn_matches :: "call_txn \<Rightarrow> call_leg \<Rightarrow> bool" where
  "episode_txn_matches t l =
     (let active_mt = (lg_state l = CALL_LEG_ACTIVE \<and> lg_dir l \<noteq> CALL_DIR_MO);
          fresh_active = (active_mt \<and> \<not> txn_baseline_contains t (lg_id l) (lg_gen l))
      in if tx_is_tombstone t
         then (tx_kind t = CALL_TXN_ANSWER \<or> tx_kind t = CALL_TXN_WAIT_ANSWER) \<and> fresh_active
         else if cm_txn_is_open t then
           (case tx_kind t of
              CALL_TXN_ANSWER \<Rightarrow> lg_state l = CALL_LEG_INCOMING \<or> fresh_active
            | CALL_TXN_WAIT_ANSWER \<Rightarrow> lg_state l = CALL_LEG_WAITING \<or> fresh_active
            | CALL_TXN_WAIT_REJECT \<Rightarrow> lg_state l = CALL_LEG_WAITING
            | CALL_TXN_HANGUP \<Rightarrow> lg_state l = CALL_LEG_INCOMING \<or>
                lg_state l = CALL_LEG_WAITING \<or> active_mt
            | _ \<Rightarrow> False)
         else False)"

definition episode_txn_binds :: "call_model \<Rightarrow> call_leg \<Rightarrow> call_txn \<Rightarrow> bool" where
  "episode_txn_binds m l t \<longleftrightarrow>
     tx_in_use t \<and> tx_target_id t = 0 \<and> tx_mt_episode t \<noteq> 0 \<and>
     tx_mt_episode t = mt_generation (pending_mt m) \<and> episode_txn_matches t l"

definition cm_bind_episode_observation :: "call_model \<Rightarrow> nat \<Rightarrow> call_model" where
  "cm_bind_episode_observation m k =
     (if \<not> mt_active (pending_mt m) then m
      else
        let l = leg_at m k;
            bind = (\<lambda>t. if episode_txn_binds m l t
                        then t\<lparr>tx_target_id := lg_id l, tx_target_gen := lg_gen l\<rparr> else t);
            consumed_active =
              (lg_state l = CALL_LEG_ACTIVE \<and> list_ex (episode_txn_binds m l) (txns m));
            m1 = m\<lparr>txns := map bind (txns m)\<rparr>
        in if consumed_active
           then upd_mt (\<lambda>p. p\<lparr>mt_bound_id := lg_id l, mt_bound_gen := lg_gen l,
                             mt_bound_valid := True\<rparr>) m1
           else m1)"

definition cm_pending_mt_copy_metadata :: "call_model \<Rightarrow> nat \<Rightarrow> call_model" where
  "cm_pending_mt_copy_metadata m k =
     (let p = pending_mt m in
      if \<not> mt_active p then m
      else
        let m1 = upd_leg k (\<lambda>l. l\<lparr>lg_mt_episode := mt_generation p\<rparr>) m;
            m2 = (if mt_alert_observed p
                  then upd_leg k
                         (\<lambda>l. l\<lparr>lg_number := mt_number p, lg_meta_valid := True,
                               lg_cli_withheld := (mt_cli_validity p \<noteq> 0),
                               lg_mt_cli_valid := True\<rparr>)
                         (m1\<lparr>legs := map (\<lambda>l. l\<lparr>lg_mt_cli_valid := False\<rparr>) (legs m1)\<rparr>)
                  else m1)
        in upd_leg k (\<lambda>l. l\<lparr>lg_incoming_diverted := mt_incoming_diverted p,
                          lg_dir := CALL_DIR_MT\<rparr>) m2)"

definition mt_bind_leg :: "call_model \<Rightarrow> nat \<Rightarrow> call_model" where
  "mt_bind_leg m k =
     upd_mt (\<lambda>p. p\<lparr>mt_bound_id := lg_id (leg_at m k), mt_bound_gen := lg_gen (leg_at m k),
                  mt_bound_valid := True\<rparr>) m"

definition cm_pending_mt_track :: "call_model \<Rightarrow> nat \<Rightarrow> call_model" where
  "cm_pending_mt_track m k =
     (let l = leg_at m k; p = pending_mt m in
      if lg_state l = CALL_LEG_INCOMING \<or> lg_state l = CALL_LEG_WAITING then
        (if mt_active p then mt_bind_leg (cm_pending_mt_copy_metadata m k) k else m)
      else if lg_state l = CALL_LEG_ACTIVE then
        (if mt_bound_valid p \<and> mt_bound_id p = lg_id l \<and> mt_bound_gen p = lg_gen l
         then upd_mt (\<lambda>p. p\<lparr>mt_active := False, mt_bound_valid := False\<rparr>)
                (cm_pending_mt_copy_metadata m k)
         else m)
      else m)"

definition mt_bind_candidates :: "call_model \<Rightarrow> nat list" where
  "mt_bind_candidates m =
     filter (\<lambda>i. let l = leg_at m i in
               lg_in_use l \<and> \<not> cm_leg_is_transient l \<and> lg_dir l \<noteq> CALL_DIR_MO \<and>
               (lg_state l = CALL_LEG_INCOMING \<or> lg_state l = CALL_LEG_WAITING))
       [0..<MODEM_MAX_CALL_LEGS]"

definition cm_pending_mt_bind_existing :: "call_model \<Rightarrow> call_model" where
  "cm_pending_mt_bind_existing m =
     (if \<not> mt_active (pending_mt m) \<or> mt_bound_valid (pending_mt m) then m
      else (case mt_bind_candidates m of
              [k] \<Rightarrow> mt_bind_leg (cm_pending_mt_copy_metadata m k) k
            | _ \<Rightarrow> m))"

section \<open>Removal and the teardown queue\<close>

definition cm_remove_leg :: "call_model \<Rightarrow> nat \<Rightarrow> call_model" where
  "cm_remove_leg m k =
     (let m1 = cm_retire_compat_cli_owner (cm_touch_shadow m) k;
          l = leg_at m1 k;
          m2 = cm_unbind_pending_mt m1 (lg_id l) (lg_gen l);
          m3 = m2\<lparr>gen_next := (gen_next m2)[unat (lg_id l) := cm_generation_after (lg_gen l)]\<rparr>;
          m4 = upd_leg k (\<lambda>l. l\<lparr>lg_in_use := False, lg_state := CALL_LEG_UNKNOWN,
                               lg_pending_removal := False\<rparr>) m3
      in m4\<lparr>semantic_revision := semantic_revision m4 + 1\<rparr>)"

definition cm_queue_release :: "call_model \<Rightarrow> u8 \<Rightarrow> u8 \<Rightarrow> bool \<Rightarrow> call_model" where
  "cm_queue_release m i g rec =
     (if i = 0 then m
      else (case find_idx (\<lambda>q. cr_id q = i \<and> cr_gen q = g) (release_queue m) of
              Some k \<Rightarrow>
                m\<lparr>release_queue := upd_nth k
                    (\<lambda>q. q\<lparr>cr_recover_held := cr_recover_held q \<or> rec\<rparr>) (release_queue m)\<rparr>
            | None \<Rightarrow>
                (if length (release_queue m) < MODEM_MAX_CALL_LEGS
                 then m\<lparr>release_queue := release_queue m @
                          [\<lparr>cr_id = i, cr_gen = g, cr_recover_held = rec\<rparr>]\<rparr>
                 else m)))"

definition leg_start_teardown :: "u32 \<Rightarrow> call_leg \<Rightarrow> call_leg" where
  "leg_start_teardown now l =
     (let l1 = l\<lparr>lg_state := CALL_LEG_RELEASING\<rparr>
      in if lg_pending_removal l1 then l1
         else l1\<lparr>lg_pending_removal := True, lg_first_removal_ms := never_zero now\<rparr>)"

definition cm_abandon_leg :: "call_model \<Rightarrow> nat \<Rightarrow> call_model" where
  "cm_abandon_leg m ti =
     (let t = txn_at m ti; (oid, ogen) = cm_txn_owner_ref t in
      case (if oid \<noteq> 0 then cm_find_leg m oid ogen else None) of
        None \<Rightarrow> m
      | Some k \<Rightarrow>
          (let m1 = cm_touch_shadow m;
               m2 = (if lg_state (leg_at m1 k) \<noteq> CALL_LEG_RELEASING
                     then m1\<lparr>semantic_revision := semantic_revision m1 + 1\<rparr> else m1);
               m3 = upd_leg k (leg_start_teardown (now_ms m2)) m2;
               m4 = cm_unbind_pending_mt m3 oid ogen
           in cm_queue_release m4 oid ogen
                (tx_kind t = CALL_TXN_RELEASE_ACTIVE \<or>
                 (tx_kind t = CALL_TXN_DIAL \<and> tx_second_mo t))))"

section \<open>Result routing\<close>

definition cm_op_descriptor :: "call_txn \<Rightarrow> call_op_descriptor" where
  "cm_op_descriptor t =
     (let setup_sink = (if tx_second_mo t then RESULT_SINK_SECOND_MO_LATCH
                        else RESULT_SINK_PRIMARY_LATCH)
      in case tx_kind t of
           CALL_TXN_DIAL \<Rightarrow> \<lparr>od_epoch = EPOCH_AT_DISPATCH, od_sink = setup_sink\<rparr>
         | CALL_TXN_ANSWER \<Rightarrow> \<lparr>od_epoch = EPOCH_PENDING_MT_EPISODE, od_sink = setup_sink\<rparr>
         | CALL_TXN_WAIT_ANSWER \<Rightarrow>
             \<lparr>od_epoch = EPOCH_PENDING_MT_EPISODE, od_sink = RESULT_SINK_OUTPUT_FREE\<rparr>
         | CALL_TXN_WAIT_REJECT \<Rightarrow>
             \<lparr>od_epoch = EPOCH_PENDING_MT_EPISODE, od_sink = RESULT_SINK_OUTPUT_FREE\<rparr>
         | CALL_TXN_HOLD \<Rightarrow> \<lparr>od_epoch = EPOCH_AT_ADMISSION, od_sink = RESULT_SINK_OUTPUT_FREE\<rparr>
         | CALL_TXN_SWAP \<Rightarrow> \<lparr>od_epoch = EPOCH_AT_ADMISSION, od_sink = RESULT_SINK_OUTPUT_FREE\<rparr>
         | CALL_TXN_RELEASE_ACTIVE \<Rightarrow>
             \<lparr>od_epoch = EPOCH_AT_ADMISSION, od_sink = RESULT_SINK_OUTPUT_FREE\<rparr>
         | CALL_TXN_RELEASE_LEG \<Rightarrow>
             \<lparr>od_epoch = EPOCH_AT_ADMISSION, od_sink = RESULT_SINK_OUTPUT_FREE\<rparr>
         | CALL_TXN_HANGUP \<Rightarrow> \<lparr>od_epoch = EPOCH_AT_ADMISSION, od_sink = RESULT_SINK_OUTPUT_FREE\<rparr>
         | CALL_TXN_NONE \<Rightarrow> \<lparr>od_epoch = EPOCH_UNSET, od_sink = RESULT_SINK_OUTPUT_FREE\<rparr>)"

definition cm_route_result ::
    "call_model \<Rightarrow> call_result_sink \<Rightarrow> modem_call_result \<Rightarrow> call_model" where
  "cm_route_result m sink r =
     (if r = MODEM_CALL_RESULT_NONE then m
      else (case sink of
              RESULT_SINK_PRIMARY_LATCH \<Rightarrow> upd_pub (\<lambda>p. p\<lparr>pr_last_call_result := r\<rparr>) m
            | RESULT_SINK_SECOND_MO_LATCH \<Rightarrow> upd_pub (\<lambda>p. p\<lparr>pr_second_call_result := r\<rparr>) m
            | RESULT_SINK_JOURNAL_ONLY \<Rightarrow> m
            | RESULT_SINK_OUTPUT_FREE \<Rightarrow> m))"

definition cm_hangup_setup_txn :: "call_model \<Rightarrow> call_txn \<Rightarrow> nat \<Rightarrow> nat option" where
  "cm_hangup_setup_txn m h k =
     (if length (tx_hangup_setups h) \<le> k \<or> MODEM_HANGUP_SETUP_OWNERS \<le> k then None
      else
        let tok = tx_hangup_setups h ! k
        in if tok = 0 then None
           else find_idx (\<lambda>c. tx_in_use c \<and> tx_kind c = CALL_TXN_DIAL \<and> tx_token c = tok) (txns m))"

definition hangup_setup_range :: "call_txn \<Rightarrow> nat list" where
  "hangup_setup_range h = [0..<min (length (tx_hangup_setups h)) MODEM_HANGUP_SETUP_OWNERS]"

definition cm_hangup_owns_leg :: "call_model \<Rightarrow> call_txn \<Rightarrow> u8 \<Rightarrow> u8 \<Rightarrow> bool" where
  "cm_hangup_owns_leg m t i g \<longleftrightarrow>
     (tx_target_id t = i \<and> tx_target_gen t = g) \<or> txn_baseline_contains t i g \<or>
     list_ex (\<lambda>k. case cm_hangup_setup_txn m t k of
                    None \<Rightarrow> False
                  | Some d \<Rightarrow> tx_bound_id (txn_at m d) = i \<and> tx_bound_gen (txn_at m d) = g)
       (hangup_setup_range t)"

definition cm_hangup_has_live_obligation :: "call_model \<Rightarrow> call_txn \<Rightarrow> bool" where
  "cm_hangup_has_live_obligation m t \<longleftrightarrow>
     list_ex (\<lambda>l. lg_in_use l \<and> cm_hangup_owns_leg m t (lg_id l) (lg_gen l)) (legs m) \<or>
     list_ex (\<lambda>k. case cm_hangup_setup_txn m t k of
                    None \<Rightarrow> False
                  | Some d \<Rightarrow> tx_ever_dispatched (txn_at m d) \<and> cm_txn_is_open (txn_at m d) \<and>
                              tx_bound_id (txn_at m d) = 0)
       (hangup_setup_range t) \<or>
     (tx_mt_episode t \<noteq> 0 \<and> mt_active (pending_mt m) \<and>
      mt_generation (pending_mt m) = tx_mt_episode t)"

definition teardown_owns_leg :: "call_model \<Rightarrow> u8 \<Rightarrow> u8 \<Rightarrow> call_txn \<Rightarrow> bool" where
  "teardown_owns_leg m i g t \<longleftrightarrow>
     tx_in_use t \<and> tx_state t \<noteq> TXN_CANCELLED \<and> tx_state t \<noteq> TXN_FAILED \<and>
     (case tx_kind t of
        CALL_TXN_HANGUP \<Rightarrow> cm_hangup_owns_leg m t i g
      | CALL_TXN_RELEASE_ACTIVE \<Rightarrow>
          tx_target_id t = i \<and> (tx_target_gen t = g \<or> tx_target_gen t = 0)
      | CALL_TXN_RELEASE_LEG \<Rightarrow>
          tx_target_id t = i \<and> (tx_target_gen t = g \<or> tx_target_gen t = 0)
      | CALL_TXN_WAIT_REJECT \<Rightarrow>
          tx_target_id t = i \<and> (tx_target_gen t = g \<or> tx_target_gen t = 0)
      | _ \<Rightarrow> False)"

definition cm_leg_local_teardown :: "call_model \<Rightarrow> u8 \<Rightarrow> u8 \<Rightarrow> bool" where
  "cm_leg_local_teardown m i g = list_ex (teardown_owns_leg m i g) (txns m)"

definition cm_any_surviving_active_or_held :: "call_model \<Rightarrow> u8 \<Rightarrow> u8 \<Rightarrow> bool" where
  "cm_any_surviving_active_or_held m i g =
     list_ex (\<lambda>l. lg_in_use l \<and> \<not> (lg_id l = i \<and> lg_gen l = g) \<and>
                  (lg_state l = CALL_LEG_ACTIVE \<or> lg_state l = CALL_LEG_HELD)) (legs m)"

definition cm_route_setup_result ::
    "call_model \<Rightarrow> call_txn \<Rightarrow> modem_call_result \<Rightarrow> call_model" where
  "cm_route_setup_result m t r =
     (let sink = od_sink (cm_op_descriptor t)
      in if sink = RESULT_SINK_PRIMARY_LATCH \<and> cm_any_surviving_active_or_held m 0 0 then m
         else cm_route_result m sink r)"

definition cm_primary_departure_result :: "call_model \<Rightarrow> call_leg \<Rightarrow> modem_call_result" where
  "cm_primary_departure_result m l =
     (if \<not> lg_was_answered l then MODEM_CALL_RESULT_NONE
      else if cm_leg_local_teardown m (lg_id l) (lg_gen l) then MODEM_CALL_RESULT_NONE
      else if cm_any_surviving_active_or_held m (lg_id l) (lg_gen l) then MODEM_CALL_RESULT_NONE
      else MODEM_CALL_RESULT_NO_CARRIER)"

section \<open>The terminal-result transition\<close>

text \<open>What the owner scan of \<open>cm_latch_terminal\<close> accumulates; the last owner wins.\<close>

record latch_owner =
  lo_is_second :: bool
  lo_tombstone :: bool
  lo_output_resolved :: bool
  lo_token :: u32
  lo_result :: modem_call_result

definition latch_owner_step :: "call_leg \<Rightarrow> call_txn \<Rightarrow> latch_owner \<Rightarrow> latch_owner" where
  "latch_owner_step l t o1 =
     (let (oid, ogen) =
            (if tx_in_use t \<and> (tx_kind t = CALL_TXN_DIAL \<or> tx_kind t = CALL_TXN_ANSWER)
             then cm_txn_owner_ref t else (0, 0))
      in if oid = lg_id l \<and> ogen = lg_gen l
         then \<lparr>lo_is_second = (if tx_second_mo t then True else lo_is_second o1),
               lo_tombstone = (if tx_is_tombstone t then True else lo_tombstone o1),
               lo_output_resolved = tx_output_resolved t,
               lo_token = tx_token t,
               lo_result = (if tx_second_mo t \<or> tx_is_tombstone t then tx_result t
                            else lo_result o1)\<rparr>
         else o1)"

definition latch_owner_scan :: "call_model \<Rightarrow> call_leg \<Rightarrow> latch_owner" where
  "latch_owner_scan m l =
     fold (latch_owner_step l) (txns m)
       \<lparr>lo_is_second = False, lo_tombstone = False, lo_output_resolved = False, lo_token = 0,
        lo_result = MODEM_CALL_RESULT_NONE\<rparr>"

definition second_became_primary :: "call_model \<Rightarrow> call_leg \<Rightarrow> bool" where
  "second_became_primary m l \<longleftrightarrow>
     (let o1 = latch_owner_scan m l
      in lo_is_second o1 \<and> lo_output_resolved o1 \<and> lg_was_answered l \<and>
         \<not> cm_any_surviving_active_or_held m (lg_id l) (lg_gen l))"

text \<open>The journalled outcome of the departure.\<close>

definition latch_journal_result :: "call_model \<Rightarrow> call_leg \<Rightarrow> modem_call_result \<Rightarrow> modem_call_result" where
  "latch_journal_result m l r =
     (let o1 = latch_owner_scan m l;
          local = (\<not> lo_tombstone o1 \<and> cm_leg_local_teardown m (lg_id l) (lg_gen l))
      in if local then MODEM_CALL_RESULT_NONE
         else if r \<noteq> MODEM_CALL_RESULT_NONE then r
         else if lo_result o1 \<noteq> MODEM_CALL_RESULT_NONE \<and>
                 lo_result o1 \<noteq> MODEM_CALL_RESULT_CONNECTED then lo_result o1
         else if lo_is_second o1 then
           (if lg_was_answered l then MODEM_CALL_RESULT_NO_CARRIER
            else MODEM_CALL_RESULT_NO_ANSWER)
         else cm_primary_departure_result m l)"

text \<open>The flat latch additionally reads a clean last teardown as NO CARRIER.\<close>

definition latch_projected_result :: "call_model \<Rightarrow> call_leg \<Rightarrow> modem_call_result \<Rightarrow> modem_call_result" where
  "latch_projected_result m l result =
     (let o1 = latch_owner_scan m l
      in if result = MODEM_CALL_RESULT_NONE \<and>
            (\<not> lo_is_second o1 \<or> second_became_primary m l) \<and> \<not> lo_tombstone o1 \<and>
            \<not> cm_any_surviving_active_or_held m (lg_id l) (lg_gen l) \<and>
            (pr_last_call_result (published m) = MODEM_CALL_RESULT_NONE \<or>
             pr_last_call_result (published m) = MODEM_CALL_RESULT_CONNECTED)
         then MODEM_CALL_RESULT_NO_CARRIER else result)"

definition latch_route :: "call_model \<Rightarrow> call_leg \<Rightarrow> modem_call_result \<Rightarrow> call_model" where
  "latch_route m l projected =
     (let o1 = latch_owner_scan m l
      in if projected \<noteq> MODEM_CALL_RESULT_NONE \<and> \<not> lo_tombstone o1 \<and>
            (\<not> (lo_is_second o1 \<and> lo_output_resolved o1) \<or> second_became_primary m l)
         then cm_route_result m
                (if lo_is_second o1 \<and> \<not> second_became_primary m l
                 then RESULT_SINK_SECOND_MO_LATCH else RESULT_SINK_PRIMARY_LATCH) projected
         else m)"

definition cm_latch_terminal :: "call_model \<Rightarrow> call_leg \<Rightarrow> modem_call_result \<Rightarrow> call_model" where
  "cm_latch_terminal m l r =
     (let o1 = latch_owner_scan m l;
          result = latch_journal_result m l r;
          m1 = latch_route m l (latch_projected_result m l result)
      in if MODEM_MAX_CALL_LEGS \<le> length (journal m1) then m1\<lparr>journal_incomplete := True\<rparr>
         else m1\<lparr>journal := journal m1 @
                [\<lparr>je_in_use = True, je_id = lg_id l, je_gen = lg_gen l, je_dir = lg_dir l,
                  je_was_answered = lg_was_answered l, je_is_second_mo = lo_is_second o1,
                  je_result = result, je_number = lg_number l, je_token = lo_token o1\<rparr>]\<rparr>)"

section \<open>The CLCC eviction primitive\<close>

definition clcc_bump_rev :: "call_model \<Rightarrow> call_model" where
  "clcc_bump_rev m = m\<lparr>semantic_revision := semantic_revision m + 1\<rparr>"

definition clcc_evict_leg :: "call_model \<Rightarrow> nat \<Rightarrow> call_model" where
  "clcc_evict_leg m k =
     (let m0 = cm_touch_shadow m;
          l = leg_at m0 k;
          (cause, m1) = cm_take_pending_terminal m0 (lg_id l) (lg_gen l);
          m2 = cm_latch_terminal m1 l cause;
          m3 = (if lg_state l = CALL_LEG_ACTIVE then cm_retire_promoted_compat_cli m2 k else m2);
          m4 = cm_retire_compat_cli_owner m3 k;
          m5 = cm_unbind_pending_mt m4 (lg_id l) (lg_gen l);
          m6 = m5\<lparr>gen_next := (gen_next m5)[unat (lg_id l) := cm_generation_after (lg_gen l)]\<rparr>;
          m7 = upd_leg k (\<lambda>l. l\<lparr>lg_in_use := False, lg_pending_removal := False,
                               lg_state := CALL_LEG_UNKNOWN\<rparr>) m6
      in clcc_bump_rev m7)"

end
