(* ===== verification/Call_Txn.thy ===== *)
theory Call_Txn
  imports Call_Leg_Table
begin

text \<open>
  The transaction engine: binding a dispatched operation to the leg it created, resolving every
  open operation against its postcondition, the policy and abandon deadlines, the two-axis
  retirement, the cancellation tombstones and \<open>model_reconcile_txns\<close>, which runs the passes in
  the order of the code.
\<close>

section \<open>Ownership and episodes\<close>

definition cm_leg_owned_by_other_txn :: "call_model \<Rightarrow> nat \<Rightarrow> u8 \<Rightarrow> u8 \<Rightarrow> bool" where
  "cm_leg_owned_by_other_txn m self i g =
     list_ex (\<lambda>k. k \<noteq> self \<and> tx_in_use (txn_at m k) \<and>
                 ((tx_bound_id (txn_at m k) = i \<and> tx_bound_gen (txn_at m k) = g) \<or>
                  (tx_target_id (txn_at m k) = i \<and> tx_target_gen (txn_at m k) = g)))
       [0..<MODEM_MAX_CALL_TRANSACTIONS]"

definition cm_txn_episode_stale :: "call_model \<Rightarrow> call_txn \<Rightarrow> bool" where
  "cm_txn_episode_stale m t =
     (if tx_mt_episode t = 0 then tx_target_id t = 0
      else \<not> mt_active (pending_mt m) \<or> mt_generation (pending_mt m) \<noteq> tx_mt_episode t)"

text \<open>Some ACTIVE leg may only be the tentative binding of a DIAL whose direction is unknown.\<close>

definition tentative_dial_of :: "call_leg \<Rightarrow> call_txn \<Rightarrow> bool" where
  "tentative_dial_of l t \<longleftrightarrow>
     tx_in_use t \<and> tx_kind t = CALL_TXN_DIAL \<and>
     \<not> (tx_state t = TXN_SUCCEEDED \<or> tx_state t = TXN_FAILED \<or> tx_state t = TXN_CANCELLED) \<and>
     tx_bound_id t = lg_id l \<and> tx_bound_gen t = lg_gen l \<and> \<not> tx_dir_confirmed t"

definition proj_leg_is_tentative_dial :: "call_model \<Rightarrow> call_leg \<Rightarrow> bool" where
  "proj_leg_is_tentative_dial m l = list_ex (tentative_dial_of l) (txns m)"

section \<open>Binding\<close>

definition dial_candidate :: "call_model \<Rightarrow> nat \<Rightarrow> call_leg \<Rightarrow> bool" where
  "dial_candidate m ti l \<longleftrightarrow>
     lg_in_use l \<and> \<not> txn_baseline_contains (txn_at m ti) (lg_id l) (lg_gen l) \<and>
     \<not> cm_leg_owned_by_other_txn m ti (lg_id l) (lg_gen l) \<and>
     lg_dir l \<noteq> CALL_DIR_MT \<and>
     (lg_state l = CALL_LEG_DIALING \<or> lg_state l = CALL_LEG_ALERTING \<or>
      lg_state l = CALL_LEG_ACTIVE)"

definition txn_bind_dial :: "nat \<Rightarrow> call_model \<Rightarrow> call_model" where
  "txn_bind_dial ti m =
     (let t = txn_at m ti in
      if \<not> tx_in_use t \<or> tx_kind t \<noteq> CALL_TXN_DIAL then m
      else if tx_state t \<noteq> TXN_DISPATCHED \<and> tx_state t \<noteq> TXN_UNCERTAIN then m
      else if tx_bound_id t \<noteq> 0 then m
      else (case filter (dial_candidate m ti) (legs m) of
              [] \<Rightarrow> m
            | [c] \<Rightarrow>
                (let m1 = upd_txn ti (\<lambda>t. t\<lparr>tx_bound_id := lg_id c, tx_bound_gen := lg_gen c,
                                           tx_state := TXN_BOUND\<rparr>) m
                 in if lg_state c = CALL_LEG_ACTIVE then
                      (if lg_dir c = CALL_DIR_MO
                       then upd_txn ti (\<lambda>t. t\<lparr>tx_dir_confirmed := True,
                                             tx_witnessed_active := True\<rparr>) m1
                       else cm_raise_reason
                              (upd_txn ti (\<lambda>t. t\<lparr>tx_dir_confirmed := False\<rparr>) m1)
                              CALL_RC_UNCERTAIN_TXN)
                    else upd_txn ti (\<lambda>t. t\<lparr>tx_dir_confirmed := True\<rparr>) m1)
            | _ \<Rightarrow> cm_raise_reason m CALL_RC_UNCERTAIN_TXN))"

definition txn_bind_dials :: "call_model \<Rightarrow> call_model" where
  "txn_bind_dials m = for_each MODEM_MAX_CALL_TRANSACTIONS txn_bind_dial m"

definition txn_confirm_one :: "nat \<Rightarrow> call_model \<Rightarrow> call_model" where
  "txn_confirm_one ti m =
     (let t = txn_at m ti in
      if \<not> tx_in_use t \<or> tx_kind t \<noteq> CALL_TXN_DIAL then m
      else if tx_bound_id t = 0 \<or> tx_dir_confirmed t then m
      else (case cm_find_leg m (tx_bound_id t) (tx_bound_gen t) of
              None \<Rightarrow> m
            | Some k \<Rightarrow>
                (let l = leg_at m k in
                 if lg_dir l = CALL_DIR_MO then
                   upd_txn ti (\<lambda>t. t\<lparr>tx_dir_confirmed := True,
                     tx_witnessed_active :=
                       (if lg_state l = CALL_LEG_ACTIVE then True else tx_witnessed_active t)\<rparr>) m
                 else if lg_dir l = CALL_DIR_MT then
                   cm_raise_reason
                     (upd_txn ti (\<lambda>t. t\<lparr>tx_bound_id := 0, tx_bound_gen := 0,
                                       tx_state := TXN_UNCERTAIN\<rparr>) m)
                     CALL_RC_UNCERTAIN_TXN
                 else m)))"

definition txn_confirm_tentative :: "call_model \<Rightarrow> call_model" where
  "txn_confirm_tentative m = for_each MODEM_MAX_CALL_TRANSACTIONS txn_confirm_one m"

definition txn_bind_target :: "nat \<Rightarrow> call_model \<Rightarrow> call_model" where
  "txn_bind_target ti m =
     (let t = txn_at m ti in
      if \<not> tx_in_use t \<or> tx_target_id t \<noteq> 0 then m
      else if tx_state t \<noteq> TXN_DISPATCHED \<and> tx_state t \<noteq> TXN_UNCERTAIN then m
      else
        (let want = (if tx_kind t = CALL_TXN_ANSWER then Some CALL_LEG_INCOMING
                     else if tx_kind t = CALL_TXN_WAIT_ANSWER \<or> tx_kind t = CALL_TXN_WAIT_REJECT
                     then Some CALL_LEG_WAITING else None)
         in case want of
              None \<Rightarrow> m
            | Some st \<Rightarrow>
                (if cm_txn_episode_stale m t then m
                 else (case txn_find_role m st of
                         None \<Rightarrow> m
                       | Some k \<Rightarrow>
                           upd_txn ti (\<lambda>t. t\<lparr>tx_target_id := lg_id (leg_at m k),
                                            tx_target_gen := lg_gen (leg_at m k)\<rparr>) m))))"

definition txn_bind_targets :: "call_model \<Rightarrow> call_model" where
  "txn_bind_targets m = for_each MODEM_MAX_CALL_TRANSACTIONS txn_bind_target m"

section \<open>Postconditions\<close>

text \<open>\<open>if (t->result == NONE) t->result = r\<close>.\<close>

definition default_result :: "modem_call_result \<Rightarrow> call_txn \<Rightarrow> call_txn" where
  "default_result r t =
     (if tx_result t = MODEM_CALL_RESULT_NONE then t\<lparr>tx_result := r\<rparr> else t)"

definition find_leg_at :: "call_model \<Rightarrow> u8 \<Rightarrow> u8 \<Rightarrow> call_leg option" where
  "find_leg_at m i g = map_option (leg_at m) (cm_find_leg m i g)"

definition resolve_dial :: "nat \<Rightarrow> call_model \<Rightarrow> call_model" where
  "resolve_dial ti m =
     (let t = txn_at m ti in
      if tx_bound_id t = 0 then m
      else
        (let l = find_leg_at m (tx_bound_id t) (tx_bound_gen t);
             failed = upd_txn ti (\<lambda>t. default_result
                        (if tx_witnessed_active t then MODEM_CALL_RESULT_NO_CARRIER
                         else MODEM_CALL_RESULT_NO_ANSWER)
                        (t\<lparr>tx_state := TXN_FAILED, tx_output_resolved := True\<rparr>)) m
         in case l of
              None \<Rightarrow> failed
            | Some l \<Rightarrow>
                (if lg_state l = CALL_LEG_ACTIVE then
                   (if tx_dir_confirmed t
                    then upd_txn ti (\<lambda>t. default_result MODEM_CALL_RESULT_CONNECTED
                           (t\<lparr>tx_witnessed_active := True, tx_state := TXN_SUCCEEDED,
                             tx_output_resolved := True\<rparr>)) m
                    else m)
                 else if lg_state l = CALL_LEG_RELEASING then failed
                 else m)))"

definition resolve_answer :: "nat \<Rightarrow> call_model \<Rightarrow> call_model" where
  "resolve_answer ti m =
     (let t = txn_at m ti in
      if tx_target_id t = 0 then
        (if mt_active (pending_mt m) \<and> \<not> cm_txn_episode_stale m t then m
         else
           (let m1 = upd_txn ti (\<lambda>t. default_result MODEM_CALL_RESULT_NO_ANSWER
                       (t\<lparr>tx_state := TXN_FAILED\<rparr>)) m;
                m2 = cm_route_setup_result m1 (txn_at m1 ti) (tx_result (txn_at m1 ti))
            in upd_txn ti (\<lambda>t. t\<lparr>tx_output_resolved := True\<rparr>) m2))
      else
        (let failed = upd_txn ti (\<lambda>t. default_result MODEM_CALL_RESULT_NO_ANSWER
                        (t\<lparr>tx_state := TXN_FAILED, tx_output_resolved := True\<rparr>)) m
         in case find_leg_at m (tx_target_id t) (tx_target_gen t) of
              None \<Rightarrow> failed
            | Some l \<Rightarrow>
                (if lg_state l = CALL_LEG_ACTIVE
                 then upd_txn ti (\<lambda>t. default_result MODEM_CALL_RESULT_CONNECTED
                        (t\<lparr>tx_state := TXN_SUCCEEDED, tx_output_resolved := True\<rparr>)) m
                 else if lg_state l = CALL_LEG_RELEASING then failed
                 else m)))"

definition set_txn_state :: "nat \<Rightarrow> call_txn_state \<Rightarrow> call_model \<Rightarrow> call_model" where
  "set_txn_state ti st m = upd_txn ti (\<lambda>t. t\<lparr>tx_state := st\<rparr>) m"

definition resolve_hold :: "nat \<Rightarrow> call_model \<Rightarrow> call_model" where
  "resolve_hold ti m =
     (let t = txn_at m ti in
      case find_leg_at m (tx_target_id t) (tx_target_gen t) of
        Some l \<Rightarrow> (if (lg_state l = CALL_LEG_HELD) \<noteq> tx_baseline_target_held t
                   then set_txn_state ti TXN_SUCCEEDED m else m)
      | None \<Rightarrow> set_txn_state ti TXN_FAILED m)"

definition resolve_swap :: "nat \<Rightarrow> call_model \<Rightarrow> call_model" where
  "resolve_swap ti m =
     (let t = txn_at m ti in
      case (find_leg_at m (tx_target_id t) (tx_target_gen t),
            find_leg_at m (tx_held_id t) (tx_held_gen t)) of
        (Some a, Some h) \<Rightarrow>
          (if (if tx_baseline_target_held t then lg_state a = CALL_LEG_ACTIVE
               else lg_state a = CALL_LEG_HELD) \<and>
              (if tx_baseline_target_held t then lg_state h = CALL_LEG_HELD
               else lg_state h = CALL_LEG_ACTIVE)
           then set_txn_state ti TXN_SUCCEEDED m else m)
      | _ \<Rightarrow> m)"

definition resolve_wait_answer :: "nat \<Rightarrow> call_model \<Rightarrow> call_model" where
  "resolve_wait_answer ti m =
     (let t = txn_at m ti in
      if tx_target_id t = 0 then
        (if mt_active (pending_mt m) \<and> \<not> cm_txn_episode_stale m t then m
         else upd_txn ti (\<lambda>t. default_result MODEM_CALL_RESULT_NO_ANSWER
                (t\<lparr>tx_state := TXN_FAILED, tx_output_resolved := True\<rparr>)) m)
      else
        (case find_leg_at m (tx_target_id t) (tx_target_gen t) of
           Some w \<Rightarrow>
             (if lg_state w = CALL_LEG_ACTIVE \<and>
                 (case find_leg_at m (tx_held_id t) (tx_held_gen t) of
                    None \<Rightarrow> True | Some a \<Rightarrow> lg_state a = CALL_LEG_HELD)
              then set_txn_state ti TXN_SUCCEEDED m else m)
         | None \<Rightarrow> m))"

definition resolve_wait_reject :: "nat \<Rightarrow> call_model \<Rightarrow> call_model" where
  "resolve_wait_reject ti m =
     (let t = txn_at m ti in
      if tx_target_id t = 0 then
        (if mt_active (pending_mt m) \<and> \<not> cm_txn_episode_stale m t then m
         else set_txn_state ti TXN_SUCCEEDED m)
      else if cm_find_leg m (tx_target_id t) (tx_target_gen t) = None
      then set_txn_state ti TXN_SUCCEEDED m else m)"

definition resolve_release_active :: "nat \<Rightarrow> call_model \<Rightarrow> call_model" where
  "resolve_release_active ti m =
     (let t = txn_at m ti in
      if cm_find_leg m (tx_target_id t) (tx_target_gen t) = None \<and>
         (tx_held_id t = 0 \<or>
          (case find_leg_at m (tx_held_id t) (tx_held_gen t) of
             None \<Rightarrow> False | Some h \<Rightarrow> lg_state h = CALL_LEG_ACTIVE))
      then set_txn_state ti TXN_SUCCEEDED m else m)"

definition resolve_release_leg :: "nat \<Rightarrow> call_model \<Rightarrow> call_model" where
  "resolve_release_leg ti m =
     (let t = txn_at m ti in
      if cm_find_leg m (tx_target_id t) (tx_target_gen t) = None
      then set_txn_state ti TXN_SUCCEEDED m else m)"

definition resolve_hangup :: "nat \<Rightarrow> call_model \<Rightarrow> call_model" where
  "resolve_hangup ti m =
     (if \<not> cm_hangup_has_live_obligation m (txn_at m ti)
      then set_txn_state ti TXN_SUCCEEDED m else m)"

definition txn_resolve_one :: "nat \<Rightarrow> call_model \<Rightarrow> call_model" where
  "txn_resolve_one ti m =
     (let t = txn_at m ti in
      if \<not> tx_in_use t \<or> txn_is_terminal t \<or> tx_state t = TXN_PENDING then m
      else
        (let m1 = (case tx_kind t of
                     CALL_TXN_DIAL \<Rightarrow> resolve_dial ti m
                   | CALL_TXN_ANSWER \<Rightarrow> resolve_answer ti m
                   | CALL_TXN_HOLD \<Rightarrow> resolve_hold ti m
                   | CALL_TXN_SWAP \<Rightarrow> resolve_swap ti m
                   | CALL_TXN_WAIT_ANSWER \<Rightarrow> resolve_wait_answer ti m
                   | CALL_TXN_WAIT_REJECT \<Rightarrow> resolve_wait_reject ti m
                   | CALL_TXN_RELEASE_ACTIVE \<Rightarrow> resolve_release_active ti m
                   | CALL_TXN_RELEASE_LEG \<Rightarrow> resolve_release_leg ti m
                   | CALL_TXN_HANGUP \<Rightarrow> resolve_hangup ti m
                   | CALL_TXN_NONE \<Rightarrow> m)
         in if txn_is_terminal (txn_at m1 ti)
            then cm_clear_pending_terminal_for_token m1 (tx_token (txn_at m1 ti))
            else m1))"

definition txn_resolve :: "call_model \<Rightarrow> call_model" where
  "txn_resolve m = for_each MODEM_MAX_CALL_TRANSACTIONS txn_resolve_one m"

section \<open>Cancellation\<close>

text \<open>Which kinds may still surface a late leg after the cancel.\<close>

definition cancel_leaves_cleanup :: "call_txn_kind \<Rightarrow> bool" where
  "cancel_leaves_cleanup k =
     (case k of
        CALL_TXN_DIAL \<Rightarrow> True | CALL_TXN_ANSWER \<Rightarrow> True | CALL_TXN_WAIT_ANSWER \<Rightarrow> True
      | CALL_TXN_WAIT_REJECT \<Rightarrow> True | CALL_TXN_RELEASE_ACTIVE \<Rightarrow> True
      | CALL_TXN_RELEASE_LEG \<Rightarrow> True | _ \<Rightarrow> False)"

definition tombstone_txn :: "u32 \<Rightarrow> call_txn \<Rightarrow> call_txn" where
  "tombstone_txn deadline t =
     t\<lparr>tx_state := TXN_CANCELLED, tx_is_tombstone := True, tx_output_resolved := True,
       tx_cleanup_confirmed := \<not> cancel_leaves_cleanup (tx_kind t),
       tx_tombstone_deadline_ms := never_zero deadline\<rparr>"

definition cm_cancel_txn :: "call_model \<Rightarrow> nat \<Rightarrow> call_model" where
  "cm_cancel_txn m ti =
     (let m1 = cm_clear_pending_terminal_for_token (cm_touch_shadow m) (tx_token (txn_at m ti))
      in if \<not> tx_ever_dispatched (txn_at m ti) then upd_txn ti (\<lambda>_. txn_zero) m1
         else
           (let m2 = cm_abandon_leg m1 ti;
                m3 = upd_txn ti (tombstone_txn (now_ms m2 + txn_abandon_ms (timing m2))) m2
            in cm_raise_reason m3 CALL_RC_COARSE_FINAL))"

section \<open>Deadlines\<close>

definition txn_in_setup :: "call_model \<Rightarrow> call_txn \<Rightarrow> bool" where
  "txn_in_setup m t =
     (if tx_bound_id t = 0 then True
      else (case find_leg_at m (tx_bound_id t) (tx_bound_gen t) of
              None \<Rightarrow> False
            | Some l \<Rightarrow> lg_state l = CALL_LEG_DIALING \<or> lg_state l = CALL_LEG_ALERTING \<or>
                 lg_state l = CALL_LEG_INCOMING \<or> lg_state l = CALL_LEG_WAITING \<or>
                 (lg_state l = CALL_LEG_ACTIVE \<and> \<not> tx_dir_confirmed t)))"

text \<open>The hard abandon of one transaction: publish a setup failure, then turn it into a
  cleanup tombstone.\<close>

definition txn_hard_abandon :: "nat \<Rightarrow> call_model \<Rightarrow> call_model" where
  "txn_hard_abandon ti m =
     (let sink = od_sink (cm_op_descriptor (txn_at m ti));
          m1 = (if sink = RESULT_SINK_PRIMARY_LATCH \<or> sink = RESULT_SINK_SECOND_MO_LATCH then
                  (let ma = upd_txn ti (\<lambda>t. default_result
                               (if tx_witnessed_active t then MODEM_CALL_RESULT_NO_CARRIER
                                else MODEM_CALL_RESULT_NO_ANSWER) t) m
                   in if \<not> (sink = RESULT_SINK_PRIMARY_LATCH \<and>
                            cm_any_surviving_active_or_held ma 0 0)
                      then cm_route_result ma sink (tx_result (txn_at ma ti)) else ma)
                else m);
          m2 = upd_txn ti (\<lambda>t. t\<lparr>tx_output_resolved := True\<rparr>) m1;
          m3 = cm_touch_shadow (cm_clear_pending_terminal_for_token m2 (tx_token (txn_at m2 ti)));
          m4 = upd_txn ti (\<lambda>t. t\<lparr>tx_ever_dispatched := True\<rparr>) m3;
          m5 = cm_cancel_txn m4 ti;
          m6 = set_txn_state ti TXN_FAILED m5
      in cm_raise_reason m6 CALL_RC_UNCERTAIN_TXN)"

definition txn_deadline_one :: "nat \<Rightarrow> call_model \<Rightarrow> call_model" where
  "txn_deadline_one ti m =
     (let t = txn_at m ti in
      if \<not> tx_in_use t \<or> txn_is_terminal t then m
      else if tx_state t = TXN_PENDING then m
      else if tx_abandon_deadline_ms t \<noteq> 0 \<and> ms_reached (now_ms m) (tx_abandon_deadline_ms t)
      then txn_hard_abandon ti m
      else if tx_policy_deadline_ms t \<noteq> 0 \<and> ms_reached (now_ms m) (tx_policy_deadline_ms t) \<and>
              txn_in_setup m t
      then cm_raise_reason (set_txn_state ti TXN_UNCERTAIN m) CALL_RC_UNCERTAIN_TXN
      else m)"

definition txn_deadlines :: "call_model \<Rightarrow> call_model" where
  "txn_deadlines m = for_each MODEM_MAX_CALL_TRANSACTIONS txn_deadline_one m"

section \<open>Two-axis retirement\<close>

definition cm_txn_output_resolved :: "call_txn \<Rightarrow> bool" where
  "cm_txn_output_resolved t =
     (if od_sink (cm_op_descriptor t) = RESULT_SINK_OUTPUT_FREE then True
      else if tx_is_tombstone t then True
      else tx_output_resolved t)"

definition cm_txn_cleanup_resolved :: "call_model \<Rightarrow> call_txn \<Rightarrow> bool" where
  "cm_txn_cleanup_resolved m t =
     (let failed_live = (tx_state t = TXN_FAILED \<and> \<not> tx_is_tombstone t);
          target_gone = (cm_find_leg m (tx_target_id t) (tx_target_gen t) = None)
      in if tx_cleanup_confirmed t then True
         else (case tx_kind t of
                 CALL_TXN_DIAL \<Rightarrow>
                   (if tx_bound_id t \<noteq> 0
                    then cm_find_leg m (tx_bound_id t) (tx_bound_gen t) = None
                    else if tx_is_tombstone t then tx_cleanup_confirmed t else True)
               | CALL_TXN_ANSWER \<Rightarrow>
                   (if failed_live then True
                    else if tx_target_id t \<noteq> 0 then target_gone
                    else if tx_is_tombstone t then tx_cleanup_confirmed t else True)
               | CALL_TXN_HANGUP \<Rightarrow>
                   (if tx_state t = TXN_FAILED then True
                    else \<not> cm_hangup_has_live_obligation m t)
               | CALL_TXN_RELEASE_ACTIVE \<Rightarrow>
                   (if failed_live then True else tx_target_id t = 0 \<or> target_gone)
               | CALL_TXN_RELEASE_LEG \<Rightarrow>
                   (if failed_live then True else tx_target_id t = 0 \<or> target_gone)
               | CALL_TXN_WAIT_REJECT \<Rightarrow>
                   (if failed_live then True else tx_target_id t = 0 \<or> target_gone)
               | _ \<Rightarrow> True))"

definition cm_txn_retirement_eligible :: "call_model \<Rightarrow> call_txn \<Rightarrow> bool" where
  "cm_txn_retirement_eligible m t \<longleftrightarrow>
     txn_is_terminal t \<and> cm_txn_output_resolved t \<and> cm_txn_cleanup_resolved m t"

definition cm_retire_one :: "nat \<Rightarrow> call_model \<Rightarrow> call_model" where
  "cm_retire_one i m =
     (if tx_in_use (txn_at m i) \<and> cm_txn_retirement_eligible m (txn_at m i)
      then upd_txn i (\<lambda>_. txn_zero) m else m)"

definition cm_retire_terminal_txns :: "call_model \<Rightarrow> call_model" where
  "cm_retire_terminal_txns m = for_each MODEM_MAX_CALL_TRANSACTIONS cm_retire_one m"

section \<open>Tombstones\<close>

definition tombstone_candidate :: "call_model \<Rightarrow> nat \<Rightarrow> call_leg \<Rightarrow> bool" where
  "tombstone_candidate m ti l \<longleftrightarrow>
     lg_in_use l \<and> \<not> cm_leg_is_transient l \<and>
     \<not> txn_baseline_contains (txn_at m ti) (lg_id l) (lg_gen l) \<and>
     lg_dir l \<noteq> CALL_DIR_MT \<and>
     (lg_state l = CALL_LEG_DIALING \<or> lg_state l = CALL_LEG_ALERTING \<or>
      lg_state l = CALL_LEG_ACTIVE) \<and>
     \<not> (lg_state l = CALL_LEG_ACTIVE \<and> lg_dir l \<noteq> CALL_DIR_MO) \<and>
     \<not> cm_leg_owned_by_other_txn m ti (lg_id l) (lg_gen l)"

definition cm_bind_tombstone :: "nat \<Rightarrow> call_model \<Rightarrow> call_model" where
  "cm_bind_tombstone ti m =
     (let t = txn_at m ti in
      if \<not> tx_in_use t \<or> \<not> tx_is_tombstone t then m
      else if tx_kind t = CALL_TXN_ANSWER \<or> tx_kind t = CALL_TXN_WAIT_ANSWER then
        (if tx_target_id t \<noteq> 0 then
           (case find_leg_at m (tx_target_id t) (tx_target_gen t) of
              None \<Rightarrow> m
            | Some l \<Rightarrow> (if lg_state l = CALL_LEG_ACTIVE then cm_abandon_leg m ti else m))
         else m)
      else if tx_kind t \<noteq> CALL_TXN_DIAL \<or> tx_bound_id t \<noteq> 0 then m
      else (case filter (tombstone_candidate m ti) (legs m) of
              [c] \<Rightarrow> cm_abandon_leg
                       (upd_txn ti (\<lambda>t. t\<lparr>tx_bound_id := lg_id c, tx_bound_gen := lg_gen c\<rparr>) m) ti
            | _ \<Rightarrow> m))"

definition cm_bind_tombstones :: "call_model \<Rightarrow> call_model" where
  "cm_bind_tombstones m = for_each MODEM_MAX_CALL_TRANSACTIONS cm_bind_tombstone m"

definition tombstone_counts :: "call_txn \<Rightarrow> call_leg \<Rightarrow> bool" where
  "tombstone_counts t l \<longleftrightarrow>
     lg_in_use l \<and> \<not> cm_leg_is_transient l \<and> \<not> txn_baseline_contains t (lg_id l) (lg_gen l) \<and>
     (if tx_kind t = CALL_TXN_DIAL then
        lg_dir l \<noteq> CALL_DIR_MT \<and>
        (lg_state l = CALL_LEG_DIALING \<or> lg_state l = CALL_LEG_ALERTING \<or>
         (lg_state l = CALL_LEG_ACTIVE \<and> lg_dir l = CALL_DIR_MO))
      else if tx_kind t = CALL_TXN_ANSWER \<or> tx_kind t = CALL_TXN_WAIT_ANSWER then
        lg_state l = CALL_LEG_ACTIVE \<and> lg_dir l \<noteq> CALL_DIR_MO
      else False)"

definition cm_tombstone_candidate_count :: "call_model \<Rightarrow> call_txn \<Rightarrow> nat" where
  "cm_tombstone_candidate_count m t = length (filter (tombstone_counts t) (legs m))"

definition txn_unbound :: "call_txn \<Rightarrow> bool" where
  "txn_unbound t = (if tx_kind t = CALL_TXN_DIAL then tx_bound_id t = 0 else tx_target_id t = 0)"

definition cm_tombstone_deadline_one :: "nat \<Rightarrow> call_model \<Rightarrow> call_model" where
  "cm_tombstone_deadline_one i m =
     (let t = txn_at m i in
      if \<not> tx_in_use t \<or> \<not> tx_is_tombstone t \<or> tx_cleanup_confirmed t then m
      else if txn_unbound t \<and> tx_tombstone_deadline_ms t \<noteq> 0 \<and>
              ms_reached (now_ms m) (tx_tombstone_deadline_ms t)
      then upd_txn i (\<lambda>t. t\<lparr>tx_cleanup_confirmed := True\<rparr>) m
      else m)"

definition cm_advance_tombstone_deadlines :: "call_model \<Rightarrow> call_model" where
  "cm_advance_tombstone_deadlines m =
     for_each MODEM_MAX_CALL_TRANSACTIONS cm_tombstone_deadline_one m"

section \<open>The engine\<close>

definition model_reconcile_txns :: "call_model \<Rightarrow> call_model" where
  "model_reconcile_txns m =
     cm_bind_tombstones (txn_deadlines (txn_resolve (txn_confirm_tentative
       (txn_bind_targets (txn_bind_dials m)))))"

end
