(* ===== verification/Call_Request.thy ===== *)
theory Call_Request
  imports Call_Txn
begin

text \<open>
  The request side of the transaction pool: tokens, admission with its slot reservation and
  supersession, the dispatch guard, dispatch, command results and cancellation.  The model pointer
  is never NULL here, and neither are the out parameters.
\<close>

section \<open>Tokens\<close>

definition cm_token_live :: "call_model \<Rightarrow> u32 \<Rightarrow> bool" where
  "cm_token_live m tok = list_ex (\<lambda>t. tx_in_use t \<and> tx_token t = tok) (txns m)"

fun cm_alloc_token_loop :: "nat \<Rightarrow> call_model \<Rightarrow> u32 \<times> call_model" where
  "cm_alloc_token_loop 0 m = (next_token m, m\<lparr>next_token := next_token m + 1\<rparr>)"
| "cm_alloc_token_loop (Suc guard) m =
     (let cand = next_token m;
          m1 = m\<lparr>next_token := (if cand + 1 = 0 then 1 else cand + 1)\<rparr>
      in if cand = 0 then cm_alloc_token_loop guard m1
         else if \<not> cm_token_live m1 cand then (cand, m1)
         else cm_alloc_token_loop guard m1)"

definition cm_alloc_token :: "call_model \<Rightarrow> u32 \<times> call_model" where
  "cm_alloc_token m = cm_alloc_token_loop (MODEM_MAX_CALL_TRANSACTIONS + 2) m"

section \<open>Queries on the topology\<close>

definition call_model_hold_toggle_available :: "call_model \<Rightarrow> bool" where
  "call_model_hold_toggle_available m =
     (if mt_active (pending_mt m) then False
      else (case filter lg_in_use (legs m) of
              [l] \<Rightarrow> \<not> lg_pending_removal l \<and>
                     (lg_state l = CALL_LEG_ACTIVE \<or> lg_state l = CALL_LEG_HELD)
            | _ \<Rightarrow> False))"

definition new_call_tombstone :: "call_txn \<Rightarrow> bool" where
  "new_call_tombstone t \<longleftrightarrow>
     tx_in_use t \<and> tx_kind t = CALL_TXN_DIAL \<and> tx_second_mo t \<and> tx_is_tombstone t"

text \<open>The second component is \<open>*target_id_out\<close>.\<close>

definition call_model_new_call_cleanup_pending :: "call_model \<Rightarrow> bool \<times> u8" where
  "call_model_new_call_cleanup_pending m =
     (case find_idx (\<lambda>t. new_call_tombstone t \<and>
              (if tx_bound_id t = 0 then \<not> tx_cleanup_confirmed t
               else cm_has_leg m (tx_bound_id t) (tx_bound_gen t))) (txns m) of
        None \<Rightarrow> (False, 0)
      | Some k \<Rightarrow> (True, tx_bound_id (txn_at m k)))"

section \<open>Admission\<close>

definition leg_refs :: "call_model \<Rightarrow> (u8 \<times> u8) list" where
  "leg_refs m = map (\<lambda>l. (lg_id l, lg_gen l)) (filter lg_in_use (legs m))"

definition cm_capture_baseline :: "call_model \<Rightarrow> nat \<Rightarrow> call_model" where
  "cm_capture_baseline m ti =
     upd_txn ti (\<lambda>t. t\<lparr>tx_baseline := take MODEM_MAX_CALL_LEGS (leg_refs m)\<rparr>) m"

definition capture_hangup_setup :: "nat \<Rightarrow> nat \<Rightarrow> call_model \<Rightarrow> call_model" where
  "capture_hangup_setup h i m =
     (let d = txn_at m i in
      if i = h \<or> \<not> tx_in_use d \<or> tx_kind d \<noteq> CALL_TXN_DIAL \<or> \<not> cm_txn_is_open d then m
      else if \<not> tx_ever_dispatched d then cm_cancel_txn m i
      else if tx_bound_id d \<noteq> 0 \<and> cm_find_leg m (tx_bound_id d) (tx_bound_gen d) \<noteq> None then m
      else if length (tx_hangup_setups (txn_at m h)) < MODEM_HANGUP_SETUP_OWNERS
      then upd_txn h (\<lambda>t. t\<lparr>tx_hangup_setups := tx_hangup_setups t @ [tx_token d]\<rparr>) m
      else m)"

definition cm_capture_hangup_setups :: "call_model \<Rightarrow> nat \<Rightarrow> call_model" where
  "cm_capture_hangup_setups m h =
     for_each MODEM_MAX_CALL_TRANSACTIONS (capture_hangup_setup h)
       (upd_txn h (\<lambda>t. t\<lparr>tx_hangup_setups := []\<rparr>) m)"

text \<open>A same-role setup attempt that a new DIAL would supersede.\<close>

definition same_role_dial :: "bool \<Rightarrow> call_txn \<Rightarrow> bool" where
  "same_role_dial second t \<longleftrightarrow>
     tx_in_use t \<and> tx_kind t = CALL_TXN_DIAL \<and> tx_second_mo t = second \<and> cm_txn_is_open t"

definition supersede_one :: "bool \<Rightarrow> nat \<Rightarrow> call_model \<Rightarrow> call_model" where
  "supersede_one second i m = (if same_role_dial second (txn_at m i) then cm_cancel_txn m i else m)"

definition request_supersede :: "call_model \<Rightarrow> bool \<Rightarrow> call_model option" where
  "request_supersede m second =
     (let old = filter (same_role_dial second) (txns m);
          blocked = list_ex (\<lambda>t. tx_bound_id t \<noteq> 0 \<and>
                      cm_find_leg m (tx_bound_id t) (tx_bound_gen t) \<noteq> None) old;
          frees = list_ex (\<lambda>t. \<not> tx_ever_dispatched t) old;
          capacity = list_ex (\<lambda>t. \<not> tx_in_use t \<or> cm_txn_retirement_eligible m t)
                       (drop (MODEM_TXN_HANGUP_SLOT + 1) (txns m))
      in if blocked then None
         else if old \<noteq> [] \<and> \<not> frees \<and> \<not> capacity then None
         else Some (for_each MODEM_MAX_CALL_TRANSACTIONS (supersede_one second) m))"

text \<open>HANGUP owns slot 0; the other kinds share the rest, reclaiming retired slots lazily.\<close>

definition reclaim_general :: "nat \<Rightarrow> call_model \<times> nat option \<Rightarrow> call_model \<times> nat option" where
  "reclaim_general i s =
     (let (m, slot) = s; m1 = cm_retire_one i m
      in (m1, if slot = None \<and> \<not> tx_in_use (txn_at m1 i) then Some i else slot))"

definition request_slot :: "call_model \<Rightarrow> call_txn_kind \<Rightarrow> call_model \<times> nat option" where
  "request_slot m kind =
     (if kind = CALL_TXN_HANGUP then
        (let m1 = cm_retire_one MODEM_TXN_HANGUP_SLOT m
         in (m1, if \<not> tx_in_use (txn_at m1 MODEM_TXN_HANGUP_SLOT)
                 then Some MODEM_TXN_HANGUP_SLOT else None))
      else fold reclaim_general [MODEM_TXN_HANGUP_SLOT + 1..<MODEM_MAX_CALL_TRANSACTIONS] (m, None))"

text \<open>The participant a target id of 0 stands for.\<close>

definition leg_ref_at :: "call_model \<Rightarrow> nat option \<Rightarrow> u8 \<times> u8" where
  "leg_ref_at m k = (case k of None \<Rightarrow> (0, 0) | Some k \<Rightarrow> (lg_id (leg_at m k), lg_gen (leg_at m k)))"

definition request_target :: "call_model \<Rightarrow> call_txn_kind \<Rightarrow> u8 \<Rightarrow> u8 \<times> u8" where
  "request_target m kind target =
     (if target \<noteq> 0 then
        (target, (case cm_find_leg_by_id m target of None \<Rightarrow> 0 | Some k \<Rightarrow> lg_gen (leg_at m k)))
      else case kind of
             CALL_TXN_HOLD \<Rightarrow>
               leg_ref_at m (case txn_find_role m CALL_LEG_ACTIVE of
                               None \<Rightarrow> txn_find_role m CALL_LEG_HELD | Some k \<Rightarrow> Some k)
           | CALL_TXN_ANSWER \<Rightarrow> leg_ref_at m (txn_find_role m CALL_LEG_INCOMING)
           | CALL_TXN_SWAP \<Rightarrow> leg_ref_at m (txn_find_role m CALL_LEG_ACTIVE)
           | CALL_TXN_RELEASE_ACTIVE \<Rightarrow> leg_ref_at m (txn_find_role m CALL_LEG_ACTIVE)
           | CALL_TXN_WAIT_ANSWER \<Rightarrow> leg_ref_at m (txn_find_role m CALL_LEG_WAITING)
           | CALL_TXN_WAIT_REJECT \<Rightarrow> leg_ref_at m (txn_find_role m CALL_LEG_WAITING)
           | _ \<Rightarrow> (0, 0))"

definition request_held :: "call_model \<Rightarrow> call_txn_kind \<Rightarrow> u8 \<times> u8" where
  "request_held m kind =
     (case kind of
        CALL_TXN_SWAP \<Rightarrow> leg_ref_at m (txn_find_role m CALL_LEG_HELD)
      | CALL_TXN_RELEASE_ACTIVE \<Rightarrow> leg_ref_at m (txn_find_role m CALL_LEG_HELD)
      | CALL_TXN_WAIT_ANSWER \<Rightarrow> leg_ref_at m (txn_find_role m CALL_LEG_ACTIVE)
      | _ \<Rightarrow> (0, 0))"

definition request_episode :: "call_model \<Rightarrow> call_txn_kind \<Rightarrow> u32" where
  "request_episode m kind =
     (if kind \<in> {CALL_TXN_ANSWER, CALL_TXN_WAIT_ANSWER, CALL_TXN_WAIT_REJECT, CALL_TXN_HANGUP}
      then (if mt_active (pending_mt m) then mt_generation (pending_mt m) else 0) else 0)"

text \<open>An accepted DIAL starts its result latch afresh.\<close>

definition dial_accept_reset :: "call_model \<Rightarrow> bool \<Rightarrow> call_model" where
  "dial_accept_reset m second =
     (let m1 = upd_pub (\<lambda>p. p\<lparr>pr_second_call_result := MODEM_CALL_RESULT_NONE\<rparr>) m
      in if second then m1
         else cm_clear_pending_terminal
                (upd_pub (\<lambda>p. p\<lparr>pr_last_call_result := MODEM_CALL_RESULT_NONE\<rparr>) m1) 0 0)"

definition request_target_override :: "call_model \<Rightarrow> call_txn_kind \<Rightarrow> u8 \<times> u8 \<Rightarrow> u8 \<times> u8" where
  "request_target_override m kind tg =
     (if kind = CALL_TXN_HANGUP \<and> mt_bound_valid (pending_mt m)
      then (mt_bound_id (pending_mt m), mt_bound_gen (pending_mt m)) else tg)"

definition request_admit ::
    "call_model \<Rightarrow> call_txn_kind \<Rightarrow> u8 \<Rightarrow> bool \<Rightarrow> nat \<Rightarrow> call_model \<times> u32" where
  "request_admit m kind target second slot =
     (let m1 = upd_txn slot (\<lambda>_. txn_zero) m;
          (token, m2) = cm_alloc_token m1;
          m3 = upd_txn slot (\<lambda>t. t\<lparr>tx_in_use := True, tx_token := token, tx_kind := kind,
                                  tx_state := TXN_PENDING, tx_second_mo := second,
                                  tx_result := MODEM_CALL_RESULT_NONE\<rparr>) m2;
          m4 = (if kind = CALL_TXN_DIAL then dial_accept_reset m3 second else m3);
          (tid, tgen) = request_target_override m4 kind (request_target m4 kind target);
          (hid, hgen) = request_held m4 kind;
          m5 = upd_txn slot (\<lambda>t. t\<lparr>tx_target_id := tid, tx_target_gen := tgen,
                                  tx_held_id := hid, tx_held_gen := hgen,
                                  tx_mt_episode := request_episode m4 kind\<rparr>) m4;
          m6 = (if kind = CALL_TXN_HANGUP
                then cm_capture_baseline (cm_capture_hangup_setups m5 slot) slot else m5)
      in (m6, token))"

definition call_model_request ::
    "call_model \<Rightarrow> call_txn_kind \<Rightarrow> u8 \<Rightarrow> bool \<Rightarrow> call_model \<times> u32" where
  "call_model_request m kind target second =
     (if kind = CALL_TXN_NONE then (m, 0)
      else if kind \<noteq> CALL_TXN_DIAL \<and> kind \<noteq> CALL_TXN_HANGUP \<and> 7 < target then (m, 0)
      else
        (let target1 = (if kind = CALL_TXN_DIAL \<or> kind = CALL_TXN_HANGUP then 0 else target)
         in case (if kind = CALL_TXN_DIAL then request_supersede m second else Some m) of
              None \<Rightarrow> (m, 0)
            | Some m1 \<Rightarrow>
                (case request_slot m1 kind of
                   (m2, None) \<Rightarrow> (m2, 0)
                 | (m2, Some slot) \<Rightarrow> request_admit m2 kind target1 second slot)))"

section \<open>Dispatch\<close>

definition dispatch_baseline :: "call_model \<Rightarrow> nat \<Rightarrow> call_model" where
  "dispatch_baseline m ti =
     (let t = txn_at m ti in
      if od_epoch (cm_op_descriptor t) = EPOCH_AT_DISPATCH
      then dial_accept_reset (cm_capture_baseline m ti) (tx_second_mo t)
      else if tx_kind t = CALL_TXN_ANSWER \<or> tx_kind t = CALL_TXN_WAIT_ANSWER
      then cm_capture_baseline m ti
      else m)"

definition call_model_txn_dispatched :: "call_model \<Rightarrow> u32 \<Rightarrow> call_model" where
  "call_model_txn_dispatched m token =
     (case txn_by_token m token of
        None \<Rightarrow> m
      | Some ti \<Rightarrow>
          (if txn_is_terminal (txn_at m ti) then m
           else
             (let m1 = dispatch_baseline m ti;
                  t = txn_at m1 ti;
                  held = (case find_leg_at m1 (tx_target_id t) (tx_target_gen t) of
                            None \<Rightarrow> False | Some l \<Rightarrow> lg_state l = CALL_LEG_HELD);
                  m2 = (if tx_kind t = CALL_TXN_HOLD \<or> tx_kind t = CALL_TXN_SWAP
                        then upd_txn ti (\<lambda>t. t\<lparr>tx_baseline_target_held := held\<rparr>) m1 else m1)
              in upd_txn ti (\<lambda>t. t\<lparr>
                   tx_policy_deadline_ms := never_zero (now_ms m2 + txn_policy_ms (timing m2)),
                   tx_abandon_deadline_ms := never_zero (now_ms m2 + txn_abandon_ms (timing m2)),
                   tx_ever_dispatched := True, tx_state := TXN_DISPATCHED\<rparr>) m2)))"

section \<open>Command results\<close>

definition txn_command_error :: "call_model \<Rightarrow> nat \<Rightarrow> modem_call_result \<Rightarrow> call_model" where
  "txn_command_error m ti cause =
     (let m1 = upd_txn ti (\<lambda>t. t\<lparr>tx_result := cause\<rparr>) (cm_touch_shadow m);
          m2 = cm_route_result m1 (od_sink (cm_op_descriptor (txn_at m1 ti))) cause;
          m3 = upd_txn ti (\<lambda>t. t\<lparr>tx_output_resolved := True, tx_state := TXN_FAILED\<rparr>) m2
      in model_reconcile_txns
           (cm_clear_pending_terminal_for_token m3 (tx_token (txn_at m3 ti))))"

definition txn_command_timeout :: "call_model \<Rightarrow> nat \<Rightarrow> call_model" where
  "txn_command_timeout m ti =
     (let m1 = cm_raise_reason (set_txn_state ti TXN_UNCERTAIN (cm_touch_shadow m))
                 CALL_RC_UNCERTAIN_TXN
      in model_reconcile_txns (m1\<lparr>next_clcc_ms := now_ms m1\<rparr>))"

definition call_model_txn_command_result ::
    "call_model \<Rightarrow> u32 \<Rightarrow> modem_cmd_result \<Rightarrow> call_model" where
  "call_model_txn_command_result m token r =
     (case txn_by_token m token of
        None \<Rightarrow> m
      | Some ti \<Rightarrow>
          (if txn_is_terminal (txn_at m ti) then m
           else (case cmd_status r of
                   CMD_OK \<Rightarrow> upd_txn ti (\<lambda>t. t\<lparr>tx_at_accepted := True\<rparr>) m
                 | CMD_ERROR \<Rightarrow>
                     txn_command_error m ti
                       (if cmd_has_call_result r then cmd_call_result r
                        else MODEM_CALL_RESULT_NO_CARRIER)
                 | CMD_TIMEOUT \<Rightarrow> txn_command_timeout m ti)))"

section \<open>The dispatch guard\<close>

definition guard_verdict :: "call_model \<Rightarrow> call_txn \<Rightarrow> call_dispatch_guard" where
  "guard_verdict m t =
     (let target = find_leg_at m (tx_target_id t) (tx_target_gen t);
          no_episode = (\<not> mt_active (pending_mt m) \<or> cm_txn_episode_stale m t);
          cleanup = fst (call_model_new_call_cleanup_pending m)
      in case tx_kind t of
           CALL_TXN_DIAL \<Rightarrow> CALL_DISPATCH_SEND
         | CALL_TXN_ANSWER \<Rightarrow>
             (if tx_target_id t \<noteq> 0 then
                (case target of
                   None \<Rightarrow> CALL_DISPATCH_STALE
                 | Some l \<Rightarrow> (if lg_state l = CALL_LEG_ACTIVE
                             then CALL_DISPATCH_ALREADY_SATISFIED else CALL_DISPATCH_SEND))
              else if no_episode then CALL_DISPATCH_STALE else CALL_DISPATCH_SEND)
         | CALL_TXN_HOLD \<Rightarrow>
             (if target = None \<or> cleanup \<or> \<not> call_model_hold_toggle_available m
              then CALL_DISPATCH_STALE else CALL_DISPATCH_SEND)
         | CALL_TXN_SWAP \<Rightarrow>
             (if cleanup \<or> target = None \<or> cm_find_leg m (tx_held_id t) (tx_held_gen t) = None
              then CALL_DISPATCH_STALE else CALL_DISPATCH_SEND)
         | CALL_TXN_WAIT_ANSWER \<Rightarrow>
             (if cleanup then CALL_DISPATCH_STALE
              else if tx_target_id t \<noteq> 0 then
                (if target = None then CALL_DISPATCH_STALE else CALL_DISPATCH_SEND)
              else if no_episode then CALL_DISPATCH_STALE else CALL_DISPATCH_SEND)
         | CALL_TXN_WAIT_REJECT \<Rightarrow>
             (if tx_target_id t \<noteq> 0 then
                (if target = None then CALL_DISPATCH_ALREADY_SATISFIED else CALL_DISPATCH_SEND)
              else if no_episode then CALL_DISPATCH_ALREADY_SATISFIED else CALL_DISPATCH_SEND)
         | CALL_TXN_RELEASE_ACTIVE \<Rightarrow>
             (if tx_target_id t = 0 \<or> target = None
              then CALL_DISPATCH_ALREADY_SATISFIED else CALL_DISPATCH_SEND)
         | CALL_TXN_RELEASE_LEG \<Rightarrow>
             (if tx_target_id t = 0 \<or> target = None
              then CALL_DISPATCH_ALREADY_SATISFIED else CALL_DISPATCH_SEND)
         | CALL_TXN_HANGUP \<Rightarrow>
             (if cm_hangup_has_live_obligation m t then CALL_DISPATCH_SEND
              else CALL_DISPATCH_ALREADY_SATISFIED)
         | CALL_TXN_NONE \<Rightarrow> CALL_DISPATCH_SEND)"

definition cm_guard_resolve :: "call_model \<Rightarrow> nat \<Rightarrow> call_dispatch_guard \<Rightarrow> call_model" where
  "cm_guard_resolve m ti v =
     (let m1 = upd_txn ti (\<lambda>t. t\<lparr>tx_state :=
                   (case v of CALL_DISPATCH_ALREADY_SATISFIED \<Rightarrow> TXN_SUCCEEDED
                            | CALL_DISPATCH_STALE \<Rightarrow> TXN_FAILED
                            | CALL_DISPATCH_SEND \<Rightarrow> tx_state t),
                 tx_output_resolved := True, tx_cleanup_confirmed := True\<rparr>) m
      in cm_touch_shadow (cm_clear_pending_terminal_for_token m1 (tx_token (txn_at m1 ti))))"

definition call_model_txn_dispatch_guard ::
    "call_model \<Rightarrow> u32 \<Rightarrow> call_model \<times> call_dispatch_guard" where
  "call_model_txn_dispatch_guard m token =
     (case txn_by_token m token of
        None \<Rightarrow> (m, CALL_DISPATCH_STALE)
      | Some ti \<Rightarrow>
          (if txn_is_terminal (txn_at m ti) then (m, CALL_DISPATCH_STALE)
           else
             (let v = guard_verdict m (txn_at m ti)
              in if v = CALL_DISPATCH_SEND then (m, v) else (cm_guard_resolve m ti v, v))))"

section \<open>Cancellation by token and the New-call abandon\<close>

definition call_model_txn_cancel :: "call_model \<Rightarrow> u32 \<Rightarrow> call_model" where
  "call_model_txn_cancel m token =
     (case txn_by_token m token of
        None \<Rightarrow> m
      | Some ti \<Rightarrow> (if txn_is_terminal (txn_at m ti) then m else cm_cancel_txn m ti))"

definition call_model_new_call_abandoned :: "call_model \<Rightarrow> call_model" where
  "call_model_new_call_abandoned m =
     (let m1 = upd_pub (\<lambda>p. p\<lparr>pr_second_call_result := MODEM_CALL_RESULT_NONE\<rparr>) m
      in case find_idx (\<lambda>t. tx_in_use t \<and> \<not> txn_is_terminal t \<and> tx_kind t = CALL_TXN_DIAL \<and>
                             tx_second_mo t) (txns m1) of
           None \<Rightarrow> m1
         | Some ti \<Rightarrow> cm_cancel_txn m1 ti)"

end
