(* ===== verification/Call_Clcc.thy ===== *)
theory Call_Clcc
  imports Call_Request
begin

text \<open>
  The AT+CLCC shadow: rows are collected in an isolated shadow table and committed to the live
  table only by a clean OK.  An omitted leg is first only suspected (\<open>pending_removal\<close>), and
  removed when a second clean snapshot reproduces the same absent set, or by the limbo clock.
\<close>

section \<open>Poll interval\<close>

definition cm_clcc_interval_ms :: "call_model \<Rightarrow> u32" where
  "cm_clcc_interval_ms m =
     (let shift = (if MODEM_CLCC_BACKOFF_MAX_SHIFT < clcc_backoff_shift m
                   then MODEM_CLCC_BACKOFF_MAX_SHIFT else clcc_backoff_shift m)
      in if sint (now_ms m - fast_clcc_until_ms m) < 0
         then push_bit (unat shift) (clcc_confirm_ms (timing m))
         else push_bit (unat shift) (clcc_keepalive_ms (timing m)))"

section \<open>Feeding the shadow\<close>

definition clcc_id_in_shadow :: "call_model \<Rightarrow> u8 \<Rightarrow> bool" where
  "clcc_id_in_shadow m i = list_ex (\<lambda>r. lg_id r = i) (shadow m)"

definition clcc_elapsed :: "u32 \<Rightarrow> u32 \<Rightarrow> u32" where
  "clcc_elapsed now since = now - since"

definition call_model_clcc_begin :: "call_model \<Rightarrow> u32 \<Rightarrow> call_model" where
  "call_model_clcc_begin m tc =
     (let m1 = m\<lparr>shadow_open := True, shadow_invalidated := False, shadow := [],
                 shadow_transport_at_begin := tc, overflow := False\<rparr>
      in m1\<lparr>next_clcc_ms := now_ms m1 + cm_clcc_interval_ms m1\<rparr>)"

definition call_model_clcc_row ::
    "call_model \<Rightarrow> u8 \<Rightarrow> call_direction \<Rightarrow> call_mode \<Rightarrow> u8 \<Rightarrow> call_leg_state \<Rightarrow> string option
     \<Rightarrow> call_model" where
  "call_model_clcc_row m i dir mode mpty st number =
     (if \<not> shadow_open m then m
      else if i = 0 \<or> 7 < i then m\<lparr>overflow := True\<rparr>
      else if MODEM_MAX_CALL_LEGS \<le> length (shadow m) then m\<lparr>overflow := True\<rparr>
      else if clcc_id_in_shadow m i then m\<lparr>overflow := True\<rparr>
      else m\<lparr>shadow := shadow m @
             [leg_zero\<lparr>lg_in_use := True, lg_id := i, lg_dir := dir, lg_mode := mode,
                       lg_mpty := (mpty \<noteq> 0), lg_state := st, lg_meta_valid := True,
                       lg_number := (case number of None \<Rightarrow> ''''
                                     | Some s \<Rightarrow> take MODEM_PHONE_MAX s)\<rparr>]\<rparr>)"

definition clcc_back_off :: "call_model \<Rightarrow> call_model" where
  "clcc_back_off m =
     (let m1 = (if clcc_backoff_shift m < 8
                then m\<lparr>clcc_backoff_shift := clcc_backoff_shift m + 1\<rparr> else m)
      in m1\<lparr>next_clcc_ms := now_ms m1 + cm_clcc_interval_ms m1\<rparr>)"

definition call_model_clcc_error :: "call_model \<Rightarrow> call_model" where
  "call_model_clcc_error m = clcc_back_off (m\<lparr>shadow_open := False, shadow := []\<rparr>)"

section \<open>The merge\<close>

text \<open>The leg a row updates: the live one, or a fresh slot.  \<open>None\<close> is a table overflow.\<close>

definition clcc_row_leg :: "call_model \<Rightarrow> u8 \<Rightarrow> call_model \<times> nat option" where
  "clcc_row_leg m i =
     (case cm_find_leg_by_id m i of
        Some k \<Rightarrow> (m, Some k)
      | None \<Rightarrow> (case cm_alloc_leg m i of
                    (m1, None) \<Rightarrow> (m1, None)
                  | (m1, Some k) \<Rightarrow> (clcc_bump_rev m1, Some k)))"

definition clcc_row_state :: "call_leg \<Rightarrow> nat \<Rightarrow> call_model \<Rightarrow> call_model" where
  "clcc_row_state row k m =
     (let entered = (lg_state row = CALL_LEG_ACTIVE \<and> lg_state (leg_at m k) \<noteq> CALL_LEG_ACTIVE);
          m1 = (if lg_state (leg_at m k) \<noteq> lg_state row
                then clcc_bump_rev (upd_leg k (\<lambda>l. l\<lparr>lg_state := lg_state row\<rparr>) m) else m)
      in if lg_state row = CALL_LEG_ACTIVE then
           (let m2 = upd_leg k (\<lambda>l. l\<lparr>lg_was_answered := True\<rparr>) m1;
                m3 = (if entered then upd_pub (\<lambda>p. p\<lparr>pr_last_call_result :=
                        MODEM_CALL_RESULT_CONNECTED\<rparr>) m2 else m2)
            in cm_clear_pending_terminal m3 (lg_id (leg_at m3 k)) (lg_gen (leg_at m3 k)))
         else m1)"

definition clcc_row_meta :: "call_leg \<Rightarrow> bool \<Rightarrow> u32 \<Rightarrow> call_leg \<Rightarrow> call_leg" where
  "clcc_row_meta row releasing now l =
     (let l1 = l\<lparr>lg_dir := (if lg_dir row \<noteq> CALL_DIR_UNKNOWN then lg_dir row else lg_dir l),
                 lg_mode := (if lg_mode row \<noteq> CALL_MODE_UNKNOWN then lg_mode row else lg_mode l),
                 lg_mpty := lg_mpty row, lg_meta_valid := True,
                 lg_number := (if lg_number row \<noteq> '''' then lg_number row else lg_number l),
                 lg_last_seen_ms := now\<rparr>
      in if releasing then l1 else l1\<lparr>lg_pending_removal := False, lg_first_removal_ms := 0\<rparr>)"

definition clcc_merge_row :: "call_leg \<Rightarrow> call_model \<Rightarrow> call_model" where
  "clcc_merge_row row m =
     (case clcc_row_leg m (lg_id row) of
        (m1, None) \<Rightarrow> m1
      | (m1, Some k) \<Rightarrow>
          (let releasing = (lg_state (leg_at m1 k) = CALL_LEG_RELEASING);
               m2 = (if releasing then m1 else clcc_row_state row k m1);
               m3 = upd_leg k (clcc_row_meta row releasing (now_ms m2)) m2
           in cm_pending_mt_track (cm_bind_episode_observation m3 k) k))"

definition clcc_merge :: "call_model \<Rightarrow> call_model" where
  "clcc_merge m = fold clcc_merge_row (shadow m) m"

text \<open>Two clean snapshots without a compatible leg clear a stale unbound episode.\<close>

definition clcc_confirm_episode :: "call_model \<Rightarrow> call_model" where
  "clcc_confirm_episode m =
     (let p = pending_mt m in
      if mt_active p \<and> \<not> mt_bound_valid p then
        (if list_ex (\<lambda>l. lg_in_use l \<and> (lg_state l = CALL_LEG_INCOMING \<or>
                                        lg_state l = CALL_LEG_WAITING)) (legs m)
         then upd_mt (\<lambda>p. p\<lparr>mt_clcc_absent_snapshots := 0\<rparr>) m
         else
           (let n = mt_clcc_absent_snapshots p + 1;
                m1 = upd_mt (\<lambda>p. p\<lparr>mt_clcc_absent_snapshots := n\<rparr>) m
            in if 2 \<le> n \<and> (mt_alert_observed p \<or> \<not> mt_incoming_diverted p)
               then m1\<lparr>pending_mt := mt_zero\<rparr> else m1))
      else m)"

section \<open>Absences\<close>

text \<open>One live leg missing from the shadow: force-evicted when its limbo clock ran out, else a
  member of the absent set.\<close>

definition clcc_absent_step ::
    "nat \<Rightarrow> call_model \<times> (u8 \<times> u8) list \<Rightarrow> call_model \<times> (u8 \<times> u8) list" where
  "clcc_absent_step i s =
     (let (m, ab) = s; l = leg_at m i in
      if \<not> lg_in_use l then (m, ab)
      else if clcc_id_in_shadow m (lg_id l) then (m, ab)
      else if lg_first_removal_ms l \<noteq> 0 \<and>
              leg_limbo_ms (timing m) \<le> clcc_elapsed (now_ms m) (lg_first_removal_ms l)
      then (clcc_evict_leg m i, ab)
      else (m, ab @ [(lg_id l, lg_gen l)]))"

definition clcc_absent_set :: "call_model \<Rightarrow> call_model \<times> (u8 \<times> u8) list" where
  "clcc_absent_set m = fold clcc_absent_step [0..<MODEM_MAX_CALL_LEGS] (m, [])"

definition clcc_disarm :: "call_model \<Rightarrow> call_model" where
  "clcc_disarm m =
     m\<lparr>removal_armed := False, absent := [],
       reconcile_reasons := reconcile_reasons m AND NOT CALL_RC_PENDING_REMOVAL\<rparr>"

definition clcc_evict_ref :: "u8 \<times> u8 \<Rightarrow> call_model \<Rightarrow> call_model" where
  "clcc_evict_ref r m =
     (case cm_find_leg_by_id m (fst r) of
        None \<Rightarrow> m
      | Some k \<Rightarrow> (if lg_gen (leg_at m k) = snd r then clcc_evict_leg m k else m))"

definition clcc_suspect_ref :: "u8 \<times> u8 \<Rightarrow> call_model \<Rightarrow> call_model" where
  "clcc_suspect_ref r m =
     (case cm_find_leg_by_id m (fst r) of
        None \<Rightarrow> m
      | Some k \<Rightarrow>
          upd_leg k (\<lambda>l. l\<lparr>lg_pending_removal := True,
            lg_first_removal_ms := (if lg_first_removal_ms l = 0 then never_zero (now_ms m)
                                    else lg_first_removal_ms l)\<rparr>) m)"

definition clcc_rearm :: "call_model \<Rightarrow> (u8 \<times> u8) list \<Rightarrow> call_model" where
  "clcc_rearm m ab =
     (let m1 = fold clcc_suspect_ref ab m
      in cm_raise_reason
           (m1\<lparr>absent := ab, candidate_revision := semantic_revision m1, removal_armed := True\<rparr>)
           CALL_RC_PENDING_REMOVAL)"

definition clcc_removals :: "call_model \<Rightarrow> u32 \<Rightarrow> call_model" where
  "clcc_removals m rev_before =
     (let (m1, ab) = clcc_absent_set m in
      if ab = [] then clcc_disarm m1
      else if removal_armed m1 \<and> absent m1 = ab \<and> rev_before = candidate_revision m1
      then clcc_disarm (fold clcc_evict_ref ab m1)
      else clcc_rearm m1 ab)"

section \<open>Commit\<close>

definition clcc_accept :: "call_model \<Rightarrow> call_model" where
  "clcc_accept m =
     (let m1 = m\<lparr>clcc_backoff_shift := 0\<rparr>
      in m1\<lparr>next_clcc_ms := now_ms m1 + cm_clcc_interval_ms m1,
            reconcile_reasons := reconcile_reasons m1 AND NOT CALL_RC_OVERFLOW\<rparr>)"

text \<open>The result is the model and whether the snapshot was clean.\<close>

definition clcc_ok_commit :: "call_model \<Rightarrow> u32 \<Rightarrow> call_model \<times> bool" where
  "clcc_ok_commit m tc =
     (if \<not> shadow_open m then (m, False)
      else
        (let m1 = m\<lparr>shadow_open := False\<rparr> in
         if tc \<noteq> shadow_transport_at_begin m1 \<or> overflow m1 then
           (let m2 = clcc_back_off (m1\<lparr>shadow := []\<rparr>)
            in (if overflow m2
                then m2\<lparr>reconcile_reasons := reconcile_reasons m2 OR CALL_RC_OVERFLOW\<rparr>
                else m2, False))
         else
           (let m2 = clcc_accept m1;
                m3 = clcc_merge m2
            in if overflow m3
               then (m3\<lparr>reconcile_reasons := reconcile_reasons m3 OR CALL_RC_OVERFLOW\<rparr>, False)
               else (clcc_removals (clcc_confirm_episode m3) (semantic_revision m2), True))))"

section \<open>What a clean snapshot resolves\<close>

definition no_leg_resolve_one :: "nat \<Rightarrow> call_model \<Rightarrow> call_model" where
  "no_leg_resolve_one i m =
     (let t = txn_at m i;
          leg = (if tx_kind t = CALL_TXN_DIAL
                 then (if tx_bound_id t \<noteq> 0 then cm_find_leg m (tx_bound_id t) (tx_bound_gen t)
                       else None)
                 else (if tx_target_id t \<noteq> 0 then cm_find_leg m (tx_target_id t) (tx_target_gen t)
                       else None))
      in if \<not> tx_in_use t then m
         else if tx_kind t \<noteq> CALL_TXN_DIAL \<and> tx_kind t \<noteq> CALL_TXN_ANSWER then m
         else if tx_state t \<noteq> TXN_DISPATCHED \<and> tx_state t \<noteq> TXN_BOUND \<and>
                 tx_state t \<noteq> TXN_UNCERTAIN then m
         else if tx_result t = MODEM_CALL_RESULT_NONE then m
         else if leg \<noteq> None then m
         else if od_sink (cm_op_descriptor t) = RESULT_SINK_PRIMARY_LATCH \<and>
                 cm_any_surviving_active_or_held m 0 0 then m
         else
           cm_clear_pending_terminal_for_token
             (upd_txn i (\<lambda>t. t\<lparr>tx_output_resolved := True, tx_state := TXN_FAILED\<rparr>)
                (cm_route_setup_result m t (tx_result t))) (tx_token t))"

definition cm_resolve_no_leg_after_clcc :: "call_model \<Rightarrow> call_model" where
  "cm_resolve_no_leg_after_clcc m =
     (let m1 = for_each MODEM_MAX_CALL_TRANSACTIONS no_leg_resolve_one m
      in if pending_terminal m1 \<noteq> MODEM_CALL_RESULT_NONE \<and> pt_owner_id m1 = 0 \<and>
            pt_owner_token m1 = 0 \<and> \<not> list_ex lg_in_use (legs m1)
         then cm_clear_pending_terminal
                (upd_pub (\<lambda>p. p\<lparr>pr_last_call_result := pending_terminal m1\<rparr>) m1) 0 0
         else m1)"

definition tombstone_resolve_one :: "nat \<Rightarrow> call_model \<Rightarrow> call_model" where
  "tombstone_resolve_one i m =
     (let t = txn_at m i in
      if \<not> tx_in_use t \<or> \<not> tx_is_tombstone t \<or> tx_cleanup_confirmed t then m
      else if (tx_kind t = CALL_TXN_ANSWER \<or> tx_kind t = CALL_TXN_WAIT_ANSWER) \<and>
              tx_mt_episode t \<noteq> 0 \<and> mt_active (pending_mt m) \<and>
              mt_generation (pending_mt m) = tx_mt_episode t then m
      else if txn_unbound t \<and> cm_tombstone_candidate_count m t = 0
      then upd_txn i (\<lambda>t. t\<lparr>tx_cleanup_confirmed := True\<rparr>) m
      else m)"

definition cm_resolve_tombstones_after_clcc :: "call_model \<Rightarrow> call_model" where
  "cm_resolve_tombstones_after_clcc m =
     for_each MODEM_MAX_CALL_TRANSACTIONS tombstone_resolve_one m"

definition call_model_clcc_ok :: "call_model \<Rightarrow> u32 \<Rightarrow> call_model" where
  "call_model_clcc_ok m tc =
     (if shadow_invalidated m then
        (let m1 = cm_raise_reason
                    (m\<lparr>shadow_open := False, shadow := [], shadow_invalidated := False\<rparr>)
                    CALL_RC_COARSE_FINAL
         in m1\<lparr>next_clcc_ms := now_ms m1\<rparr>)
      else
        (let (m1, clean) = clcc_ok_commit m tc;
             m2 = model_reconcile_txns m1
         in if clean
            then cm_resolve_tombstones_after_clcc (cm_resolve_no_leg_after_clcc m2)
            else m2))"

end
