(* ===== verification/Call_Events.thy ===== *)
theory Call_Events
  imports Call_Clcc
begin

text \<open>
  The unsolicited inputs: id-bearing call events, RING, CLIP, the redirected-call indication and
  the id-blind bare finals.
\<close>

section \<open>Id-bearing events\<close>

definition promote_held :: "call_model \<Rightarrow> call_model" where
  "promote_held m =
     (case txn_find_role m CALL_LEG_HELD of
        None \<Rightarrow> m
      | Some k \<Rightarrow>
          clcc_bump_rev
            (upd_pub (\<lambda>p. p\<lparr>pr_last_call_result := MODEM_CALL_RESULT_CONNECTED\<rparr>)
              (upd_leg k (\<lambda>l. l\<lparr>lg_state := CALL_LEG_ACTIVE\<rparr>) m)))"

definition on_event_released :: "call_model \<Rightarrow> u8 \<Rightarrow> call_model" where
  "on_event_released m i =
     (case cm_find_leg_by_id m i of
        None \<Rightarrow> m
      | Some k \<Rightarrow>
          (let snapshot = leg_at m k;
               was_active = (lg_state snapshot = CALL_LEG_ACTIVE);
               (cause, m1) = cm_take_pending_terminal m (lg_id snapshot) (lg_gen snapshot);
               m2 = cm_latch_terminal m1 snapshot cause;
               m3 = (if was_active then cm_retire_promoted_compat_cli m2 k else m2);
               m4 = cm_remove_leg m3 k;
               m5 = (if was_active then promote_held m4 else m4)
           in model_reconcile_txns (cm_raise_reason m5 CALL_RC_COARSE_FINAL)))"

text \<open>The update of a leg that is not tearing down.  The second component says whether the state
  changed.\<close>

definition event_touch_leg :: "call_leg_state \<Rightarrow> call_direction \<Rightarrow> u32 \<Rightarrow> call_leg \<Rightarrow> call_leg" where
  "event_touch_leg st dir now l =
     l\<lparr>lg_state := st, lg_dir := (if dir \<noteq> CALL_DIR_UNKNOWN then dir else lg_dir l),
       lg_last_seen_ms := now\<rparr>"

definition event_connected :: "nat \<Rightarrow> call_model \<Rightarrow> call_model" where
  "event_connected k m =
     (let m1 = upd_pub (\<lambda>p. p\<lparr>pr_last_call_result := MODEM_CALL_RESULT_CONNECTED\<rparr>)
                 (upd_leg k (\<lambda>l. l\<lparr>lg_was_answered := True\<rparr>) m)
      in cm_clear_pending_terminal m1 (lg_id (leg_at m1 k)) (lg_gen (leg_at m1 k)))"

definition on_event_update ::
    "nat \<Rightarrow> call_leg_state \<Rightarrow> call_direction \<Rightarrow> call_model \<Rightarrow> call_model \<times> bool" where
  "on_event_update k st dir m =
     (let l = leg_at m k in
      if lg_state l = CALL_LEG_RELEASING then (m, False)
      else
        (let m1 = (if lg_pending_removal l
                   then cm_raise_reason (upd_leg k (\<lambda>l. l\<lparr>lg_pending_removal := False\<rparr>) m)
                          CALL_RC_PENDING_REMOVAL
                   else m);
             m2 = upd_leg k (event_touch_leg st dir (now_ms m1)) m1;
             m3 = cm_pending_mt_track (cm_bind_episode_observation m2 k) k;
             m4 = (if st = CALL_LEG_ACTIVE then event_connected k m3 else m3)
         in (m4, lg_state l \<noteq> st)))"

definition on_event_live ::
    "call_model \<Rightarrow> u8 \<Rightarrow> call_leg_state \<Rightarrow> call_direction \<Rightarrow> call_model" where
  "on_event_live m i st dir =
     (let (m1, slot, fresh) =
            (case cm_find_leg_by_id m i of
               Some k \<Rightarrow> (m, Some k, False)
             | None \<Rightarrow> (case cm_alloc_leg m i of (m1, k) \<Rightarrow> (m1, k, True)))
      in case slot of
           None \<Rightarrow> m1
         | Some k \<Rightarrow>
             (let (m2, changed) = on_event_update k st dir m1;
                  m3 = (if fresh \<or> changed then clcc_bump_rev m2 else m2)
              in model_reconcile_txns m3))"

definition call_model_on_event ::
    "call_model \<Rightarrow> u8 \<Rightarrow> bool \<Rightarrow> call_leg_state \<Rightarrow> call_direction \<Rightarrow> call_model" where
  "call_model_on_event m i id_valid st dir =
     (if \<not> id_valid then cm_raise_reason (cm_touch_shadow m) CALL_RC_COARSE_FINAL
      else if i = 0 \<or> 7 < i then m
      else
        (let m1 = cm_touch_shadow m in
         if st = CALL_LEG_UNKNOWN then m1
         else if st = CALL_LEG_RELEASING then on_event_released m1 i
         else on_event_live m1 i st dir))"

section \<open>Incoming indications\<close>

text \<open>The next episode generation, never 0.\<close>

definition cm_alloc_episode_gen :: "call_model \<Rightarrow> u32 \<times> call_model" where
  "cm_alloc_episode_gen m =
     (let g = mt_episode_next m;
          n = (if g + 1 = 0 then 1 else g + 1)
      in if g = 0 then (n, m\<lparr>mt_episode_next := n + 1\<rparr>)
         else (g, m\<lparr>mt_episode_next := n\<rparr>))"

text \<open>\<open>if (!p->active)\<close>: a fresh episode with a new generation.\<close>

definition mt_open_episode :: "(call_pending_mt \<Rightarrow> call_pending_mt) \<Rightarrow> call_model \<Rightarrow> call_model" where
  "mt_open_episode f m =
     (if mt_active (pending_mt m) then m
      else
        (let (g, m1) = cm_alloc_episode_gen m
         in m1\<lparr>pending_mt := f (mt_zero\<lparr>mt_active := True, mt_generation := g\<rparr>),
               reconcile_reasons := reconcile_reasons m1 OR CALL_RC_PENDING_MT\<rparr>))"

definition incoming_result_reset :: "call_model \<Rightarrow> call_model" where
  "incoming_result_reset m =
     cm_clear_pending_terminal
       (upd_pub (\<lambda>p. p\<lparr>pr_last_call_result := MODEM_CALL_RESULT_NONE\<rparr>) m) 0 0"

definition call_model_on_ring :: "call_model \<Rightarrow> call_model" where
  "call_model_on_ring m =
     (let m1 = mt_open_episode (\<lambda>p. p\<lparr>mt_cli_validity := 0, mt_first_ring_ms := now_ms m\<rparr>)
                 (cm_touch_shadow m);
          m2 = upd_mt (\<lambda>p. p\<lparr>mt_alert_observed := True, mt_last_ring_ms := now_ms m,
                            mt_clcc_absent_snapshots := 0\<rparr>) m1
      in incoming_result_reset m2)"

definition call_model_on_clip :: "call_model \<Rightarrow> string option \<Rightarrow> u8 \<Rightarrow> call_model" where
  "call_model_on_clip m number cli =
     (let m1 = mt_open_episode (\<lambda>p. p\<lparr>mt_first_ring_ms := now_ms m\<rparr>) (cm_touch_shadow m);
          m2 = upd_mt (\<lambda>p. p\<lparr>mt_alert_observed := True,
                 mt_number := (case number of None \<Rightarrow> '''' | Some s \<Rightarrow> take MODEM_PHONE_MAX s),
                 mt_cli_validity := cli, mt_last_ring_ms := now_ms m,
                 mt_clcc_absent_snapshots := 0\<rparr>) m1
      in cm_pending_mt_bind_existing (incoming_result_reset m2))"

definition call_model_on_incoming_diverted :: "call_model \<Rightarrow> call_model" where
  "call_model_on_incoming_diverted m =
     (let m1 = mt_open_episode (\<lambda>p. p\<lparr>mt_cli_validity := 0, mt_first_ring_ms := now_ms m,
                                    mt_last_ring_ms := now_ms m\<rparr>) (cm_touch_shadow m);
          m2 = upd_mt (\<lambda>p. p\<lparr>mt_incoming_diverted := True, mt_diverted_observed_ms := now_ms m,
                            mt_clcc_absent_snapshots := 0\<rparr>) m1
      in cm_pending_mt_bind_existing m2)"

section \<open>Bare finals\<close>

definition bare_final_eligible :: "call_txn \<Rightarrow> bool" where
  "bare_final_eligible t \<longleftrightarrow>
     tx_in_use t \<and> \<not> (tx_state t < TXN_DISPATCHED \<or> TXN_SUCCEEDED \<le> tx_state t) \<and>
     (case tx_kind t of
        CALL_TXN_DIAL \<Rightarrow> True | CALL_TXN_ANSWER \<Rightarrow> True | CALL_TXN_HANGUP \<Rightarrow> True
      | CALL_TXN_RELEASE_ACTIVE \<Rightarrow> True | CALL_TXN_RELEASE_LEG \<Rightarrow> True | _ \<Rightarrow> False)"

text \<open>Exactly one eligible owner, or none at all.\<close>

definition bare_final_match :: "call_model \<Rightarrow> nat option" where
  "bare_final_match m =
     (case filter (\<lambda>i. bare_final_eligible (txn_at m i)) [0..<MODEM_MAX_CALL_TRANSACTIONS] of
        [i] \<Rightarrow> Some i
      | _ \<Rightarrow> None)"

definition bare_final_record :: "call_model \<Rightarrow> modem_call_result \<Rightarrow> call_model" where
  "bare_final_record m r =
     (case bare_final_match m of
        Some ti \<Rightarrow>
          (let m1 = upd_txn ti (\<lambda>t. t\<lparr>tx_result := r, tx_state := TXN_UNCERTAIN\<rparr>) m;
               (oid, ogen) = cm_txn_owner_ref (txn_at m1 ti)
           in m1\<lparr>pending_terminal := r, pt_owner_id := oid, pt_owner_gen := ogen,
                 pt_owner_token := tx_token (txn_at m1 ti)\<rparr>)
      | None \<Rightarrow>
          (if \<not> cm_pending_terminal_has_live_owner m
           then m\<lparr>pending_terminal := r, pt_owner_id := 0, pt_owner_gen := 0,
                  pt_owner_token := 0\<rparr>
           else m))"

definition call_model_on_bare_final :: "call_model \<Rightarrow> modem_call_result \<Rightarrow> bool \<Rightarrow> call_model" where
  "call_model_on_bare_final m r in_supp =
     (let m1 = cm_touch_shadow m in
      if r = MODEM_CALL_RESULT_CONNECTED then
        cm_clear_pending_terminal
          (upd_pub (\<lambda>p. p\<lparr>pr_last_call_result := MODEM_CALL_RESULT_CONNECTED\<rparr>) m1) 0 0
      else
        (let m2 = cm_raise_reason m1 CALL_RC_COARSE_FINAL
         in if in_supp then m2 else bare_final_record m2 r))"

end
