(* ===== verification/Call_Projector.thy ===== *)
theory Call_Projector
  imports Call_Txn
begin

text \<open>
  The projector: the leg table is reduced to counted roles in two passes (genuine legs first,
  then the retained roles of suspected or departing legs), an impossible multiset holds the last
  published projection, and otherwise exactly one row of the table R1..R10 is published.
\<close>

section \<open>Roles\<close>

datatype counted_role = ROLE_NONE | ROLE_ACTIVE | ROLE_HELD

definition proj_copy_number :: "string \<Rightarrow> string" where
  "proj_copy_number s = take MODEM_PHONE_MAX s"

definition proj_retained_role :: "call_leg \<Rightarrow> counted_role" where
  "proj_retained_role l =
     (if lg_published_role l = CALL_LEG_ACTIVE then ROLE_ACTIVE
      else if lg_published_role l = CALL_LEG_HELD then ROLE_HELD
      else ROLE_NONE)"

definition proj_txn_in_setup :: "call_txn \<Rightarrow> bool" where
  "proj_txn_in_setup t \<longleftrightarrow>
     tx_in_use t \<and> (tx_state t = TXN_PENDING \<or> tx_state t = TXN_DISPATCHED \<or>
                    tx_state t = TXN_BOUND \<or> tx_state t = TXN_UNCERTAIN)"

definition proj_find_newcall_setup :: "call_model \<Rightarrow> call_txn option" where
  "proj_find_newcall_setup m =
     List.find (\<lambda>t. proj_txn_in_setup t \<and> tx_second_mo t \<and>
                    (tx_kind t = CALL_TXN_ANSWER \<or>
                     (tx_kind t = CALL_TXN_DIAL \<and> tx_dir_confirmed t))) (txns m)"

definition proj_find_dial_setup :: "call_model \<Rightarrow> bool" where
  "proj_find_dial_setup m =
     list_ex (\<lambda>t. proj_txn_in_setup t \<and> tx_kind t = CALL_TXN_DIAL) (txns m)"

definition proj_find_answer_setup :: "call_model \<Rightarrow> bool" where
  "proj_find_answer_setup m =
     list_ex (\<lambda>t. proj_txn_in_setup t \<and> tx_kind t = CALL_TXN_ANSWER) (txns m)"

definition proj_fill_incoming :: "call_model \<Rightarrow> call_projection \<Rightarrow> call_projection" where
  "proj_fill_incoming m out =
     (let p = pending_mt m in
      if mt_active p \<and> mt_alert_observed p then
        out\<lparr>pr_incoming_number := proj_copy_number (mt_number p),
            pr_caller_id_withheld := (mt_cli_validity p \<noteq> 0),
            pr_incoming_diverted := mt_incoming_diverted p\<rparr>
      else
        (case List.find (\<lambda>l. lg_in_use l \<and> (lg_state l = CALL_LEG_WAITING \<or>
                                            lg_state l = CALL_LEG_INCOMING)) (legs m) of
           Some l \<Rightarrow>
             out\<lparr>pr_incoming_number := proj_copy_number (lg_number l),
                 pr_caller_id_withheld := lg_cli_withheld l,
                 pr_incoming_diverted := lg_incoming_diverted l\<rparr>
         | None \<Rightarrow>
             (case List.find (\<lambda>l. lg_in_use l \<and> lg_mt_cli_valid l \<and> lg_dir l = CALL_DIR_MT \<and>
                       (lg_state l = CALL_LEG_ACTIVE \<or> lg_state l = CALL_LEG_HELD)) (legs m) of
                Some l \<Rightarrow>
                  out\<lparr>pr_incoming_number := proj_copy_number (lg_number l),
                      pr_caller_id_withheld := lg_cli_withheld l,
                      pr_incoming_diverted := False\<rparr>
              | None \<Rightarrow> out)))"

section \<open>The two counting passes\<close>

record proj_acc =
  pa_active_count :: nat
  pa_held_count :: nat
  pa_retained_active :: nat
  pa_retained_held :: nat
  pa_active_id :: u8
  pa_held_id :: u8
  pa_waiting :: bool
  pa_incoming_leg :: bool
  pa_dialing_leg :: bool
  pa_transient :: bool

definition proj_acc_init :: proj_acc where
  "proj_acc_init =
     \<lparr>pa_active_count = 0, pa_held_count = 0, pa_retained_active = 0, pa_retained_held = 0,
      pa_active_id = 0, pa_held_id = 0, pa_waiting = False, pa_incoming_leg = False,
      pa_dialing_leg = False, pa_transient = False\<rparr>"

definition proj_pass1 :: "call_model \<Rightarrow> call_leg \<Rightarrow> proj_acc \<Rightarrow> proj_acc" where
  "proj_pass1 m l a =
     (if \<not> lg_in_use l \<or> cm_leg_is_transient l then a
      else (case lg_state l of
              CALL_LEG_ACTIVE \<Rightarrow>
                (if proj_leg_is_tentative_dial m l then a
                 else a\<lparr>pa_active_count := pa_active_count a + 1, pa_active_id := lg_id l\<rparr>)
            | CALL_LEG_HELD \<Rightarrow>
                a\<lparr>pa_held_count := pa_held_count a + 1, pa_held_id := lg_id l\<rparr>
            | CALL_LEG_WAITING \<Rightarrow> a\<lparr>pa_waiting := True, pa_incoming_leg := True\<rparr>
            | CALL_LEG_INCOMING \<Rightarrow> a\<lparr>pa_waiting := True, pa_incoming_leg := True\<rparr>
            | CALL_LEG_DIALING \<Rightarrow> a\<lparr>pa_dialing_leg := True\<rparr>
            | CALL_LEG_ALERTING \<Rightarrow> a\<lparr>pa_dialing_leg := True\<rparr>
            | _ \<Rightarrow> a))"

definition proj_pass2 :: "call_leg \<Rightarrow> proj_acc \<Rightarrow> proj_acc" where
  "proj_pass2 l a0 =
     (if \<not> lg_in_use l \<or> \<not> cm_leg_is_transient l then a0
      else
        (let a = a0\<lparr>pa_transient := True\<rparr> in
         case proj_retained_role l of
           ROLE_ACTIVE \<Rightarrow>
             (let b = a\<lparr>pa_retained_active := pa_retained_active a + 1\<rparr>
              in if pa_active_count b = 0
                 then b\<lparr>pa_active_count := pa_active_count b + 1, pa_active_id := lg_id l\<rparr> else b)
         | ROLE_HELD \<Rightarrow>
             (let b = a\<lparr>pa_retained_held := pa_retained_held a + 1\<rparr>
              in if pa_held_count b = 0
                 then b\<lparr>pa_held_count := pa_held_count b + 1, pa_held_id := lg_id l\<rparr> else b)
         | ROLE_NONE \<Rightarrow>
             (if lg_published_role l = CALL_LEG_WAITING \<or> lg_published_role l = CALL_LEG_INCOMING
              then a\<lparr>pa_waiting := True, pa_incoming_leg := True\<rparr> else a)))"

definition proj_genuine :: "call_model \<Rightarrow> proj_acc" where
  "proj_genuine m = fold (proj_pass1 m) (legs m) proj_acc_init"

definition proj_counts :: "call_model \<Rightarrow> proj_acc" where
  "proj_counts m =
     (let a = fold proj_pass2 (legs m) (proj_genuine m)
      in if mt_active (pending_mt m) \<and> mt_alert_observed (pending_mt m)
         then a\<lparr>pa_waiting := True\<rparr> else a)"

text \<open>The consistency gate.\<close>

definition proj_inconsistent :: "call_model \<Rightarrow> bool" where
  "proj_inconsistent m \<longleftrightarrow>
     (let g = proj_genuine m; a = proj_counts m
      in 1 < pa_active_count a \<or> 1 < pa_held_count a \<or>
         (pa_active_count g = 0 \<and> 1 < pa_retained_active a) \<or>
         (pa_held_count g = 0 \<and> 1 < pa_retained_held a))"

section \<open>The rows\<close>

definition proj_base :: "call_model \<Rightarrow> call_projection" where
  "proj_base m =
     (proj_fill_incoming m
        (projection_zero
           \<lparr>pr_last_call_result := pr_last_call_result (published m),
            pr_second_call_result := pr_second_call_result (published m),
            pr_caller_id_withheld := pr_caller_id_withheld (published m),
            pr_incoming_number := proj_copy_number (pr_incoming_number (published m))\<rparr>))
     \<lparr>pr_incoming_diverted := False\<rparr>"

text \<open>Rows R5..R10: some ACTIVE or HELD role is counted.\<close>

definition proj_connected_row :: "call_model \<Rightarrow> proj_acc \<Rightarrow> call_projection" where
  "proj_connected_row m a =
     (let act = (pa_active_count a = 1); held = (pa_held_count a = 1);
          aid = (if act then pa_active_id a else pa_held_id a);
          r = proj_base m
      in case proj_find_newcall_setup m of
           Some t \<Rightarrow>
             r\<lparr>pr_call_state := (if tx_kind t = CALL_TXN_ANSWER then MODEM_CALL_ANSWERING
                                else MODEM_CALL_DIALING),
               pr_active_call_id := aid\<rparr>
         | None \<Rightarrow>
             (let r1 = r\<lparr>pr_call_state := MODEM_CALL_ACTIVE, pr_active_call_id := aid,
                         pr_call_on_hold := (held \<and> \<not> act), pr_second_call_held := (act \<and> held),
                         pr_waiting_call := pa_waiting a, pr_ring_active := pa_waiting a\<rparr>
              in if pa_waiting a then proj_fill_incoming m r1 else r1))"

text \<open>Rows R1..R4: no counted role.  \<open>None\<close> is the transient floor, which holds the last
  published projection.\<close>

definition proj_idle_row :: "call_model \<Rightarrow> proj_acc \<Rightarrow> call_projection option" where
  "proj_idle_row m a =
     (let r = proj_base m in
      if proj_find_answer_setup m then Some (r\<lparr>pr_call_state := MODEM_CALL_ANSWERING\<rparr>)
      else if (mt_active (pending_mt m) \<and> mt_alert_observed (pending_mt m)) \<or> pa_incoming_leg a
      then Some (proj_fill_incoming m
                   (r\<lparr>pr_call_state := MODEM_CALL_RINGING, pr_ring_active := True,
                      pr_waiting_call := False\<rparr>))
      else if proj_find_dial_setup m \<or> pa_dialing_leg a
      then Some (r\<lparr>pr_call_state := MODEM_CALL_DIALING\<rparr>)
      else if pa_transient a then None
      else Some (r\<lparr>pr_call_state := MODEM_CALL_IDLE, pr_incoming_number := '''',
                  pr_second_call_result := MODEM_CALL_RESULT_NONE\<rparr>))"

definition proj_row :: "call_model \<Rightarrow> call_projection option" where
  "proj_row m =
     (let a = proj_counts m
      in if pa_active_count a = 1 \<or> pa_held_count a = 1 then Some (proj_connected_row m a)
         else proj_idle_row m a)"

section \<open>Publishing\<close>

definition proj_leg_role :: "call_model \<Rightarrow> proj_acc \<Rightarrow> call_leg \<Rightarrow> call_leg_state" where
  "proj_leg_role m a l =
     (if pa_active_count a = 1 \<and> lg_id l = pa_active_id a \<and> lg_state l = CALL_LEG_ACTIVE \<and>
         \<not> proj_leg_is_tentative_dial m l then CALL_LEG_ACTIVE
      else if pa_held_count a = 1 \<and> lg_id l = pa_held_id a \<and> lg_state l = CALL_LEG_HELD
      then CALL_LEG_HELD
      else if lg_state l = CALL_LEG_WAITING \<or> lg_state l = CALL_LEG_INCOMING then lg_state l
      else if lg_state l = CALL_LEG_DIALING \<or> lg_state l = CALL_LEG_ALERTING
      then CALL_LEG_DIALING
      else CALL_LEG_UNKNOWN)"

definition proj_publish_leg :: "call_model \<Rightarrow> proj_acc \<Rightarrow> call_leg \<Rightarrow> call_leg" where
  "proj_publish_leg m a l =
     (if \<not> lg_in_use l \<or> cm_leg_is_transient l then l
      else l\<lparr>lg_published_role := proj_leg_role m a l\<rparr>)"

definition call_model_project :: "call_model \<Rightarrow> call_model \<times> call_projection" where
  "call_model_project m0 =
     (let m = m0\<lparr>journal := []\<rparr> in
      if proj_inconsistent m
      then (cm_raise_reason m CALL_RC_UNBINDABLE_URC, published m)
      else (case proj_row m of
              None \<Rightarrow> (m, published m)
            | Some r \<Rightarrow>
                (m\<lparr>legs := map (proj_publish_leg m (proj_counts m)) (legs m), published := r\<rparr>, r)))"

end
