(* ===== verification/Call_Schedule.thy ===== *)
theory Call_Schedule
  imports Call_Events Call_Projector
begin

text \<open>
  Initialisation, the session summaries the transport reads, the tick with its bounded-drain
  timers, the poll schedule and the teardown queue's consumer side.
\<close>

section \<open>Lifecycle\<close>

definition call_model_init :: "call_timing option \<Rightarrow> call_model" where
  "call_model_init t =
     \<lparr>legs = replicate MODEM_MAX_CALL_LEGS leg_zero,
      txns = replicate MODEM_MAX_CALL_TRANSACTIONS txn_zero,
      pending_mt = mt_zero, semantic_revision = 0, overflow = False, reconcile_reasons = 0,
      published = projection_zero, pending_terminal = MODEM_CALL_RESULT_NONE,
      pt_owner_id = 0, pt_owner_gen = 0, pt_owner_token = 0, journal = [],
      journal_incomplete = False, gen_next = replicate (MODEM_MAX_CALL_LEGS + 1) 1,
      shadow_invalidated = False, shadow = [], shadow_open = False,
      shadow_transport_at_begin = 0, absent = [], candidate_revision = 0,
      removal_armed = False, clcc_backoff_shift = 0, next_clcc_ms = 0, fast_clcc_until_ms = 0,
      release_queue = [], next_token = 1, mt_episode_next = 1,
      timing = (case t of None \<Rightarrow> timing_zero | Some v \<Rightarrow> v), now_ms = 0\<rparr>"

definition call_model_set_now :: "call_model \<Rightarrow> u32 \<Rightarrow> call_model" where
  "call_model_set_now m now = m\<lparr>now_ms := now\<rparr>"

section \<open>Session summaries\<close>

definition mt_presenting :: "call_model \<Rightarrow> bool" where
  "mt_presenting m \<longleftrightarrow> mt_active (pending_mt m) \<and> mt_alert_observed (pending_mt m)"

definition call_model_control_pending :: "call_model \<Rightarrow> bool" where
  "call_model_control_pending m \<longleftrightarrow>
     mt_presenting m \<or>
     list_ex (\<lambda>t. tx_in_use t \<and> cm_txn_is_open t) (txns m) \<or>
     list_ex (\<lambda>l. lg_in_use l \<and>
                  (lg_pending_removal l \<or>
                   (lg_state l \<noteq> CALL_LEG_ACTIVE \<and> lg_state l \<noteq> CALL_LEG_HELD))) (legs m)"

definition call_model_release_active_pending :: "call_model \<Rightarrow> bool" where
  "call_model_release_active_pending m =
     list_ex (\<lambda>t. tx_in_use t \<and> tx_kind t = CALL_TXN_RELEASE_ACTIVE \<and> cm_txn_is_open t) (txns m)"

definition call_model_background_work_blocked :: "call_model \<Rightarrow> bool" where
  "call_model_background_work_blocked m \<longleftrightarrow>
     mt_presenting m \<or>
     list_ex (\<lambda>l. lg_in_use l \<and>
                  (lg_pending_removal l \<or> lg_state l = CALL_LEG_INCOMING \<or>
                   lg_state l = CALL_LEG_WAITING \<or> lg_state l = CALL_LEG_RELEASING)) (legs m) \<or>
     list_ex (\<lambda>t. tx_in_use t \<and> cm_txn_is_open t \<and>
                  (case tx_kind t of
                     CALL_TXN_ANSWER \<Rightarrow> True | CALL_TXN_WAIT_ANSWER \<Rightarrow> True
                   | CALL_TXN_WAIT_REJECT \<Rightarrow> True | CALL_TXN_HANGUP \<Rightarrow> True | _ \<Rightarrow> False)) (txns m)"

definition call_model_session_active :: "call_model \<Rightarrow> bool" where
  "call_model_session_active m \<longleftrightarrow>
     mt_active (pending_mt m) \<or> list_ex lg_in_use (legs m) \<or> call_model_control_pending m"

definition cm_model_has_activity :: "call_model \<Rightarrow> bool" where
  "cm_model_has_activity m \<longleftrightarrow>
     call_model_session_active m \<or>
     list_ex (\<lambda>t. tx_in_use t \<and> tx_is_tombstone t \<and> \<not> tx_cleanup_confirmed t \<and> txn_unbound t)
       (txns m)"

definition cm_txn_in_flight :: "call_model \<Rightarrow> bool" where
  "cm_txn_in_flight m =
     list_ex (\<lambda>t. tx_in_use t \<and> tx_state t = TXN_DISPATCHED \<and> \<not> tx_at_accepted t) (txns m)"

section \<open>Consistency\<close>

definition count_legs :: "(call_leg \<Rightarrow> bool) \<Rightarrow> call_model \<Rightarrow> nat" where
  "count_legs P m = length (filter (\<lambda>l. lg_in_use l \<and> P l) (legs m))"

definition cm_roles_possible :: "call_model \<Rightarrow> bool" where
  "cm_roles_possible m =
     (let genuine_active = count_legs (\<lambda>l. \<not> cm_leg_is_transient l \<and>
            lg_state l = CALL_LEG_ACTIVE \<and> \<not> proj_leg_is_tentative_dial m l) m;
          genuine_held = count_legs (\<lambda>l. \<not> cm_leg_is_transient l \<and> lg_state l = CALL_LEG_HELD) m;
          retained_active = count_legs (\<lambda>l. cm_leg_is_transient l \<and>
            lg_published_role l = CALL_LEG_ACTIVE) m;
          retained_held = count_legs (\<lambda>l. cm_leg_is_transient l \<and>
            lg_published_role l = CALL_LEG_HELD) m
      in \<not> (1 < genuine_active \<or> 1 < genuine_held \<or>
            (genuine_active = 0 \<and> 1 < retained_active) \<or> (genuine_held = 0 \<and> 1 < retained_held)))"

definition cm_model_is_consistent :: "call_model \<Rightarrow> bool" where
  "cm_model_is_consistent m \<longleftrightarrow>
     \<not> overflow m \<and>
     \<not> list_ex (\<lambda>l. lg_in_use l \<and> cm_leg_is_transient l) (legs m) \<and>
     \<not> list_ex (\<lambda>t. tx_in_use t \<and> cm_txn_is_open t) (txns m) \<and>
     \<not> cm_pending_mt_unbound m \<and>
     cm_roles_possible m"

section \<open>Bounded-drain timers\<close>

definition removal_limbo_one :: "nat \<Rightarrow> call_model \<Rightarrow> call_model" where
  "removal_limbo_one i m =
     (let l = leg_at m i in
      if lg_in_use l \<and> lg_first_removal_ms l \<noteq> 0 \<and>
         ms_reached (now_ms m) (lg_first_removal_ms l + leg_limbo_ms (timing m))
      then clcc_evict_leg (cm_touch_shadow m) i else m)"

definition cm_advance_removal_limbo :: "call_model \<Rightarrow> call_model" where
  "cm_advance_removal_limbo m = for_each MODEM_MAX_CALL_LEGS removal_limbo_one m"

definition cm_advance_pending_mt :: "call_model \<Rightarrow> call_model" where
  "cm_advance_pending_mt m =
     (let p = pending_mt m in
      if \<not> cm_pending_mt_unbound m then m
      else if \<not> mt_alert_observed p \<and> mt_incoming_diverted p then
        (if ms_reached (now_ms m) (mt_diverted_observed_ms p + MODEM_MT_METADATA_TIMEOUT_MS)
         then m\<lparr>pending_mt := mt_zero\<rparr> else m)
      else if ms_reached (now_ms m) (mt_last_ring_ms p + MODEM_RING_TIMEOUT_MS)
      then m\<lparr>pending_mt := mt_zero\<rparr> else m)"

text \<open>The fast window: the latest live policy deadline of an uncertain transaction, extended to
  one confirm interval while a removal is armed or a coarse final is unresolved.\<close>

definition later_until :: "u32 option \<Rightarrow> u32 \<Rightarrow> u32 option" where
  "later_until acc d =
     (case acc of None \<Rightarrow> Some d | Some u \<Rightarrow> if sint (u - d) < 0 then Some d else Some u)"

definition fast_window_until :: "call_model \<Rightarrow> u32 option" where
  "fast_window_until m =
     (let a = fold (\<lambda>t acc.
                 if tx_in_use t \<and> tx_state t = TXN_UNCERTAIN \<and> tx_policy_deadline_ms t \<noteq> 0 \<and>
                    sint (now_ms m - tx_policy_deadline_ms t) < 0
                 then later_until acc (tx_policy_deadline_ms t) else acc) (txns m) None
      in if removal_armed m \<or> reconcile_reasons m AND CALL_RC_COARSE_FINAL \<noteq> 0
         then later_until a (now_ms m + clcc_confirm_ms (timing m)) else a)"

definition cm_recompute_fast_window :: "call_model \<Rightarrow> call_model" where
  "cm_recompute_fast_window m =
     m\<lparr>fast_clcc_until_ms :=
         (case fast_window_until m of None \<Rightarrow> now_ms m | Some u \<Rightarrow> u)\<rparr>"

section \<open>Schedule and tick\<close>

definition call_model_wants_clcc :: "call_model \<Rightarrow> bool" where
  "call_model_wants_clcc m =
     (if \<not> cm_model_has_activity m then False
      else if shadow_open m then False
      else if cm_txn_in_flight m then False
      else ms_reached (now_ms m) (next_clcc_ms m))"

definition tick_clamp_schedule :: "call_model \<Rightarrow> call_model" where
  "tick_clamp_schedule m =
     (if sint (now_ms m - fast_clcc_until_ms m) < 0 then
        (let fast_next = now_ms m + cm_clcc_interval_ms m
         in if sint (fast_next - next_clcc_ms m) < 0 then m\<lparr>next_clcc_ms := fast_next\<rparr> else m)
      else m)"

definition call_model_tick :: "call_model \<Rightarrow> call_model" where
  "call_model_tick m =
     (let m1 = cm_retire_terminal_txns (cm_advance_tombstone_deadlines m);
          m2 = cm_advance_pending_mt (cm_advance_removal_limbo (model_reconcile_txns m1));
          m3 = (if cm_model_is_consistent m2 then m2\<lparr>reconcile_reasons := 0\<rparr> else m2)
      in tick_clamp_schedule (cm_recompute_fast_window m3))"

section \<open>The teardown queue's consumer\<close>

fun pop_release_loop ::
    "call_model \<Rightarrow> call_cleanup_release list \<Rightarrow> call_model \<times> call_cleanup_release option" where
  "pop_release_loop m [] = (m\<lparr>release_queue := []\<rparr>, None)"
| "pop_release_loop m (r # rs) =
     (if cm_find_leg m (cr_id r) (cr_gen r) \<noteq> None
      then (m\<lparr>release_queue := rs\<rparr>, Some r)
      else pop_release_loop m rs)"

definition call_model_pop_release :: "call_model \<Rightarrow> call_model \<times> call_cleanup_release option" where
  "call_model_pop_release m = pop_release_loop m (release_queue m)"

definition call_model_requeue_release ::
    "call_model \<Rightarrow> call_cleanup_release \<Rightarrow> call_model \<times> bool" where
  "call_model_requeue_release m r =
     (if cr_id r = 0 then (m, False)
      else if cm_find_leg m (cr_id r) (cr_gen r) = None then (m, False)
      else
        (let m1 = cm_queue_release m (cr_id r) (cr_gen r) (cr_recover_held r)
         in (m1, length (release_queue m1) \<noteq> length (release_queue m) \<or>
                 list_ex (\<lambda>q. cr_id q = cr_id r \<and> cr_gen q = cr_gen r) (release_queue m1))))"

end
