(* ===== verification/Call_Frame.thy ===== *)
theory Call_Frame
  imports Call_Schedule
begin

text \<open>
  What the primitives of the call model leave alone.  The identity of a leg is its key (slot
  occupancy, call id, generation); all references of the model are resolved through the keys, so
  an operation that keeps the keys keeps every lookup.
\<close>

section \<open>Slot access\<close>

lemma txn_at_upd_txn:
  "i < length (txns m) \<Longrightarrow>
     txn_at (upd_txn j f m) i = (if i = j then f (txn_at m i) else txn_at m i)"
  by (simp add: txn_at_def upd_txn_def nth_upd_nth)

lemma txn_at_upd_txn_neq [simp]: "i \<noteq> j \<Longrightarrow> txn_at (upd_txn j f m) i = txn_at m i"
  by (simp add: txn_at_def upd_txn_def)

lemma txn_at_upd_txn_field:
  assumes "\<And>t. g (f t) = g t"
  shows "g (txn_at (upd_txn j f m) i) = g (txn_at m i)"
  using assms by (cases "j < length (txns m)"; cases "i = j")
    (simp_all add: txn_at_def upd_txn_def upd_nth_def list_update_beyond)

lemma leg_at_upd_leg:
  "i < length (legs m) \<Longrightarrow>
     leg_at (upd_leg j f m) i = (if i = j then f (leg_at m i) else leg_at m i)"
  by (simp add: leg_at_def upd_leg_def nth_upd_nth)

lemma leg_at_upd_leg_neq [simp]: "i \<noteq> j \<Longrightarrow> leg_at (upd_leg j f m) i = leg_at m i"
  by (simp add: leg_at_def upd_leg_def)

lemma length_slots [simp]:
  "length (txns (upd_txn j f m)) = length (txns m)"
  "length (legs (upd_leg j g m)) = length (legs m)"
  by (simp_all add: upd_txn_def upd_leg_def)

lemma upd_txn_other [simp]:
  "legs (upd_txn j f m) = legs m" "gen_next (upd_txn j f m) = gen_next m"
  "pending_mt (upd_txn j f m) = pending_mt m" "now_ms (upd_txn j f m) = now_ms m"
  "timing (upd_txn j f m) = timing m" "published (upd_txn j f m) = published m"
  "leg_at (upd_txn j f m) i = leg_at m i" "release_queue (upd_txn j f m) = release_queue m"
  "journal (upd_txn j f m) = journal m" "shadow (upd_txn j f m) = shadow m"
  "absent (upd_txn j f m) = absent m" "next_token (upd_txn j f m) = next_token m"
  "mt_episode_next (upd_txn j f m) = mt_episode_next m"
  by (simp_all add: upd_txn_def leg_at_def)

lemma upd_leg_other [simp]:
  "txns (upd_leg j g m) = txns m" "gen_next (upd_leg j g m) = gen_next m"
  "pending_mt (upd_leg j g m) = pending_mt m" "now_ms (upd_leg j g m) = now_ms m"
  "timing (upd_leg j g m) = timing m" "published (upd_leg j g m) = published m"
  "txn_at (upd_leg j g m) i = txn_at m i" "release_queue (upd_leg j g m) = release_queue m"
  "journal (upd_leg j g m) = journal m" "shadow (upd_leg j g m) = shadow m"
  "absent (upd_leg j g m) = absent m" "next_token (upd_leg j g m) = next_token m"
  "mt_episode_next (upd_leg j g m) = mt_episode_next m"
  by (simp_all add: upd_leg_def txn_at_def)

lemma upd_mt_other [simp]:
  "legs (upd_mt h m) = legs m" "txns (upd_mt h m) = txns m" "gen_next (upd_mt h m) = gen_next m"
  "now_ms (upd_mt h m) = now_ms m" "timing (upd_mt h m) = timing m"
  "published (upd_mt h m) = published m" "release_queue (upd_mt h m) = release_queue m"
  "journal (upd_mt h m) = journal m" "shadow (upd_mt h m) = shadow m"
  "absent (upd_mt h m) = absent m" "next_token (upd_mt h m) = next_token m"
  "mt_episode_next (upd_mt h m) = mt_episode_next m"
  "pending_mt (upd_mt h m) = h (pending_mt m)"
  by (simp_all add: upd_mt_def)

lemma upd_pub_other [simp]:
  "legs (upd_pub h m) = legs m" "txns (upd_pub h m) = txns m"
  "gen_next (upd_pub h m) = gen_next m" "pending_mt (upd_pub h m) = pending_mt m"
  "now_ms (upd_pub h m) = now_ms m" "timing (upd_pub h m) = timing m"
  "release_queue (upd_pub h m) = release_queue m" "journal (upd_pub h m) = journal m"
  "shadow (upd_pub h m) = shadow m" "absent (upd_pub h m) = absent m"
  "next_token (upd_pub h m) = next_token m" "mt_episode_next (upd_pub h m) = mt_episode_next m"
  "published (upd_pub h m) = h (published m)"
  by (simp_all add: upd_pub_def)

section \<open>Quiet updates\<close>

text \<open>\<open>quiet m m'\<close>: the tables, the episode, the queues, the published status, the counters and
  the clock are the same; only the register, the reasons, the revision, the poll schedule and the
  shadow flags may differ.\<close>

definition quiet :: "call_model \<Rightarrow> call_model \<Rightarrow> bool" where
  "quiet m m' \<longleftrightarrow>
     legs m' = legs m \<and> txns m' = txns m \<and> gen_next m' = gen_next m \<and>
     pending_mt m' = pending_mt m \<and> now_ms m' = now_ms m \<and> timing m' = timing m \<and>
     published m' = published m \<and> release_queue m' = release_queue m \<and>
     journal m' = journal m \<and> shadow m' = shadow m \<and> shadow_open m' = shadow_open m \<and>
     absent m' = absent m \<and> next_token m' = next_token m \<and>
     mt_episode_next m' = mt_episode_next m"

lemma quiet_refl [simp]: "quiet m m"
  by (simp add: quiet_def)

lemma quiet_touch: "quiet m (cm_touch_shadow m)"
  and quiet_raise: "quiet m (cm_raise_reason m b)"
  and quiet_reset: "quiet m (cm_reset_pending_terminal m)"
  and quiet_clear_token: "quiet m (cm_clear_pending_terminal_for_token m tok)"
  and quiet_clear: "quiet m (cm_clear_pending_terminal m i g)"
  and quiet_bump: "quiet m (clcc_bump_rev m)"
  by (simp_all add: quiet_def cm_touch_shadow_def cm_raise_reason_def
      cm_reset_pending_terminal_def cm_clear_pending_terminal_for_token_def
      cm_clear_pending_terminal_def clcc_bump_rev_def)

lemma quiet_take: "quiet m (snd (cm_take_pending_terminal m i g))"
  by (simp add: quiet_def cm_take_pending_terminal_def cm_take_owned_def
      cm_reset_pending_terminal_def Let_def split: option.split prod.split)

lemmas quiets = quiet_touch quiet_raise quiet_reset quiet_clear_token quiet_clear quiet_bump
  quiet_take

lemma quiet_fields:
  assumes "quiet m m'"
  shows "legs m' = legs m" "txns m' = txns m" "gen_next m' = gen_next m"
    "pending_mt m' = pending_mt m" "now_ms m' = now_ms m" "timing m' = timing m"
    "published m' = published m" "release_queue m' = release_queue m" "journal m' = journal m"
    "shadow m' = shadow m" "absent m' = absent m" "next_token m' = next_token m"
    "mt_episode_next m' = mt_episode_next m" "txn_at m' = txn_at m" "leg_at m' = leg_at m"
    "shadow_open m' = shadow_open m"
  using assms by (auto simp: quiet_def txn_at_def leg_at_def fun_eq_iff)

lemmas quiet_simps [simp] = quiets [THEN quiet_fields(1)] quiets [THEN quiet_fields(2)]
  quiets [THEN quiet_fields(3)] quiets [THEN quiet_fields(4)] quiets [THEN quiet_fields(5)]
  quiets [THEN quiet_fields(6)] quiets [THEN quiet_fields(7)] quiets [THEN quiet_fields(8)]
  quiets [THEN quiet_fields(9)] quiets [THEN quiet_fields(10)] quiets [THEN quiet_fields(11)]
  quiets [THEN quiet_fields(12)] quiets [THEN quiet_fields(13)] quiets [THEN quiet_fields(14)]
  quiets [THEN quiet_fields(15)] quiets [THEN quiet_fields(16)]

lemma pub_slots [simp]: "txn_at (upd_pub h m) i = txn_at m i" "leg_at (upd_pub h m) i = leg_at m i"
  by (simp_all add: txn_at_def leg_at_def)

lemma mt_slots [simp]: "txn_at (upd_mt h m) i = txn_at m i" "leg_at (upd_mt h m) i = leg_at m i"
  by (simp_all add: txn_at_def leg_at_def)

text \<open>Routing a result is at most an update of one latch.\<close>

definition latch_only :: "(call_projection \<Rightarrow> call_projection) \<Rightarrow> bool" where
  "latch_only h \<longleftrightarrow>
     (\<forall>p. h p = p\<lparr>pr_last_call_result := pr_last_call_result (h p),
                   pr_second_call_result := pr_second_call_result (h p),
                   pr_incoming_number := pr_incoming_number (h p)\<rparr> \<and>
          (pr_incoming_number (h p) = pr_incoming_number p \<or> pr_incoming_number (h p) = ''''))"

lemma latch_only_updates [simp]:
  "latch_only (\<lambda>p. p\<lparr>pr_last_call_result := r\<rparr>)" "latch_only (\<lambda>p. p\<lparr>pr_second_call_result := r\<rparr>)"
  "latch_only (\<lambda>p. p\<lparr>pr_incoming_number := ''''\<rparr>)" "latch_only (\<lambda>p. p)"
  by (simp_all add: latch_only_def)

definition sink_update :: "call_result_sink \<Rightarrow> modem_call_result \<Rightarrow> call_projection \<Rightarrow> call_projection" where
  "sink_update s r p =
     (if r = MODEM_CALL_RESULT_NONE then p
      else case s of
             RESULT_SINK_PRIMARY_LATCH \<Rightarrow> p\<lparr>pr_last_call_result := r\<rparr>
           | RESULT_SINK_SECOND_MO_LATCH \<Rightarrow> p\<lparr>pr_second_call_result := r\<rparr>
           | _ \<Rightarrow> p)"

lemma route_as_pub: "cm_route_result m s r = upd_pub (sink_update s r) m"
  by (cases s) (simp_all add: cm_route_result_def sink_update_def upd_pub_def)

lemma latch_only_sink [simp]: "latch_only (sink_update s r)"
  by (cases s) (simp_all add: latch_only_def sink_update_def)

lemma route_other [simp]:
  "legs (cm_route_result m s r) = legs m" "txns (cm_route_result m s r) = txns m"
  "txn_at (cm_route_result m s r) i = txn_at m i" "leg_at (cm_route_result m s r) i = leg_at m i"
  "gen_next (cm_route_result m s r) = gen_next m" "now_ms (cm_route_result m s r) = now_ms m"
  "timing (cm_route_result m s r) = timing m"
  by (simp_all add: route_as_pub)

lemma route_setup_other [simp]:
  "legs (cm_route_setup_result m t r) = legs m" "txns (cm_route_setup_result m t r) = txns m"
  "txn_at (cm_route_setup_result m t r) i = txn_at m i"
  "leg_at (cm_route_setup_result m t r) i = leg_at m i"
  "gen_next (cm_route_setup_result m t r) = gen_next m"
  by (simp_all add: cm_route_setup_result_def Let_def)

lemma unbind_other [simp]:
  "legs (cm_unbind_pending_mt m j g) = legs m" "txns (cm_unbind_pending_mt m j g) = txns m"
  "gen_next (cm_unbind_pending_mt m j g) = gen_next m"
  "now_ms (cm_unbind_pending_mt m j g) = now_ms m"
  "timing (cm_unbind_pending_mt m j g) = timing m"
  "txn_at (cm_unbind_pending_mt m j g) i = txn_at m i"
  "leg_at (cm_unbind_pending_mt m j g) i = leg_at m i"
  by (simp_all add: cm_unbind_pending_mt_def leg_at_def txn_at_def)

lemma queue_release_other [simp]:
  "legs (cm_queue_release m j g b) = legs m" "txns (cm_queue_release m j g b) = txns m"
  "gen_next (cm_queue_release m j g b) = gen_next m"
  "pending_mt (cm_queue_release m j g b) = pending_mt m"
  "now_ms (cm_queue_release m j g b) = now_ms m" "timing (cm_queue_release m j g b) = timing m"
  "txn_at (cm_queue_release m j g b) i = txn_at m i"
  "leg_at (cm_queue_release m j g b) i = leg_at m i"
  by (simp_all add: cm_queue_release_def leg_at_def txn_at_def split: option.split)

lemma txn_at_rev [simp]: "txn_at (m\<lparr>semantic_revision := v\<rparr>) i = txn_at m i"
  by (simp add: txn_at_def)

lemma abandon_leg_other [simp]:
  "txns (cm_abandon_leg m ti) = txns m" "gen_next (cm_abandon_leg m ti) = gen_next m"
  "now_ms (cm_abandon_leg m ti) = now_ms m" "timing (cm_abandon_leg m ti) = timing m"
  "txn_at (cm_abandon_leg m ti) i = txn_at m i"
  by (simp_all add: cm_abandon_leg_def Let_def split: option.split prod.split)

section \<open>Leg keys\<close>

definition leg_key :: "call_leg \<Rightarrow> bool \<times> u8 \<times> u8" where
  "leg_key l = (lg_in_use l, lg_id l, lg_gen l)"

definition leg_keys :: "call_model \<Rightarrow> (bool \<times> u8 \<times> u8) list" where
  "leg_keys m = map leg_key (legs m)"

lemma leg_keys_cong: "legs m' = legs m \<Longrightarrow> leg_keys m' = leg_keys m"
  by (simp add: leg_keys_def)

lemma leg_keys_upd_leg:
  "(\<And>l. leg_key (f l) = leg_key l) \<Longrightarrow> leg_keys (upd_leg k f m) = leg_keys m"
  by (simp add: leg_keys_def upd_leg_def list_eq_iff_nth_eq nth_upd_nth)

lemma leg_keys_length: "leg_keys m' = leg_keys m \<Longrightarrow> length (legs m') = length (legs m)"
  unfolding leg_keys_def by (metis length_map)

lemma leg_keys_nth:
  assumes "leg_keys m' = leg_keys m" and "i < length (legs m)"
  shows "leg_key (legs m' ! i) = leg_key (legs m ! i)"
proof -
  have "i < length (legs m')" using assms leg_keys_length by metis
  then show ?thesis using assms unfolding leg_keys_def by (metis nth_map)
qed

lemma find_idx_leg_keys:
  assumes "leg_keys m' = leg_keys m" and "\<And>l l'. leg_key l = leg_key l' \<Longrightarrow> P l = P l'"
  shows "find_idx P (legs m') = find_idx P (legs m)"
proof (rule find_idx_cong)
  show len: "length (legs m') = length (legs m)" by (rule leg_keys_length [OF assms(1)])
  fix i assume "i < length (legs m')"
  then have "leg_key (legs m' ! i) = leg_key (legs m ! i)"
    by (intro leg_keys_nth [OF assms(1)]) (simp only: len)
  then show "P (legs m' ! i) = P (legs m ! i)" by (rule assms(2))
qed

lemma cm_find_leg_keys: "leg_keys m' = leg_keys m \<Longrightarrow> cm_find_leg m' i g = cm_find_leg m i g"
  unfolding cm_find_leg_def by (erule find_idx_leg_keys) (simp add: leg_key_def)

lemma cm_find_leg_by_id_keys:
  "leg_keys m' = leg_keys m \<Longrightarrow> cm_find_leg_by_id m' i = cm_find_leg_by_id m i"
  unfolding cm_find_leg_by_id_def by (erule find_idx_leg_keys) (simp add: leg_key_def)

lemma cm_has_leg_keys: "leg_keys m' = leg_keys m \<Longrightarrow> cm_has_leg m' i g = cm_has_leg m i g"
  unfolding cm_has_leg_iff by (drule cm_find_leg_keys) (rule arg_cong)

lemma leg_key_teardown [simp]: "leg_key (leg_start_teardown now l) = leg_key l"
  by (simp add: leg_start_teardown_def leg_key_def Let_def)

section \<open>Leg edits\<close>

text \<open>An edit keeps the key, never takes a leg out of RELEASING, and keeps the number inside its
  buffer.\<close>

definition leg_edit :: "call_leg \<Rightarrow> call_leg \<Rightarrow> bool" where
  "leg_edit l l' \<longleftrightarrow>
     leg_key l' = leg_key l \<and>
     (lg_state l = CALL_LEG_RELEASING \<longrightarrow> lg_state l' = CALL_LEG_RELEASING) \<and>
     (length (lg_number l) \<le> MODEM_PHONE_MAX \<longrightarrow> length (lg_number l') \<le> MODEM_PHONE_MAX)"

lemma leg_edit_refl [simp]: "leg_edit l l"
  by (simp add: leg_edit_def)

lemma leg_edit_trans: "leg_edit a b \<Longrightarrow> leg_edit b c \<Longrightarrow> leg_edit a c"
  by (simp add: leg_edit_def)

lemma leg_edit_teardown [simp]: "leg_edit l (leg_start_teardown now l)"
  by (simp add: leg_edit_def) (simp add: leg_start_teardown_def Let_def)

section \<open>Episode edits\<close>

definition mt_ok :: "call_pending_mt \<Rightarrow> bool" where
  "mt_ok p \<longleftrightarrow>
     (mt_active p \<longrightarrow> mt_generation p \<noteq> 0) \<and> (mt_bound_valid p \<longrightarrow> mt_active p) \<and>
     length (mt_number p) \<le> MODEM_PHONE_MAX"

text \<open>An edit never starts an episode and never renames a running one.\<close>

definition mt_edit :: "call_pending_mt \<Rightarrow> call_pending_mt \<Rightarrow> bool" where
  "mt_edit p p' \<longleftrightarrow>
     (mt_ok p \<longrightarrow> mt_ok p') \<and>
     (mt_active p' \<longrightarrow> mt_active p \<and> mt_generation p' = mt_generation p)"

lemma mt_edit_refl [simp]: "mt_edit p p"
  by (simp add: mt_edit_def)

lemma mt_edit_zero [simp]: "mt_edit p mt_zero"
  by (simp add: mt_edit_def mt_ok_def mt_zero_def)

lemma mt_edit_close [simp]: "mt_edit p (p\<lparr>mt_active := False, mt_bound_valid := False\<rparr>)"
  by (simp add: mt_edit_def mt_ok_def)

lemma mt_edit_bound: "mt_active p \<Longrightarrow>
    mt_edit p (p\<lparr>mt_bound_id := i, mt_bound_gen := g, mt_bound_valid := True\<rparr>)"
  by (simp add: mt_edit_def mt_ok_def)

end
