(* ===== verification/Call_Engine.thy ===== *)
theory Call_Engine
  imports Call_Frame
begin

text \<open>
  The transaction engine as a client of a small interface.  Everything the engine does to the
  model is one of seven effects: a quiet update, a latch update, an edit of the incoming episode,
  an entry in the teardown queue, an edit of a leg, an edit of a transaction, and freeing a
  transaction slot.  The locale \<open>call_engine\<close> fixes a property of the model and assumes that the
  effects keep it; its lemmas conclude that every pass, and the whole reconcile, keeps it.  The
  locale is interpreted on the model's own invariants and relations.
\<close>

section \<open>Well-formed transactions\<close>

text \<open>An occupied slot has a token and a kind, bounded lists, and consistent dispatch bookkeeping:
  what has left the queue has both deadlines armed.\<close>

definition txn_flight :: "call_txn_state \<Rightarrow> bool" where
  "txn_flight s \<longleftrightarrow> s = TXN_DISPATCHED \<or> s = TXN_BOUND \<or> s = TXN_UNCERTAIN"

definition txn_ok :: "call_txn \<Rightarrow> bool" where
  "txn_ok t \<longleftrightarrow>
     (tx_in_use t \<longrightarrow>
        tx_token t \<noteq> 0 \<and> tx_kind t \<noteq> CALL_TXN_NONE \<and>
        length (tx_baseline t) \<le> MODEM_MAX_CALL_LEGS \<and>
        length (tx_hangup_setups t) \<le> MODEM_HANGUP_SETUP_OWNERS \<and>
        (tx_kind t = CALL_TXN_DIAL \<longrightarrow> tx_target_id t = 0 \<and> tx_mt_episode t = 0) \<and>
        (tx_kind t \<noteq> CALL_TXN_DIAL \<longrightarrow> tx_bound_id t = 0) \<and>
        (tx_bound_id t \<noteq> 0 \<longrightarrow> tx_ever_dispatched t) \<and>
        (txn_flight (tx_state t) \<longrightarrow> tx_ever_dispatched t) \<and>
        (tx_is_tombstone t \<longrightarrow> tx_ever_dispatched t) \<and>
        (tx_ever_dispatched t \<longrightarrow> tx_policy_deadline_ms t \<noteq> 0 \<and> tx_abandon_deadline_ms t \<noteq> 0 \<and>
           tx_state t \<noteq> TXN_PENDING))"

lemma txn_zero_fields [simp]:
  "tx_in_use txn_zero = False" "tx_token txn_zero = 0" "tx_kind txn_zero = CALL_TXN_NONE"
  "tx_bound_id txn_zero = 0" "tx_target_id txn_zero = 0" "tx_state txn_zero = TXN_PENDING"
  "tx_is_tombstone txn_zero = False" "tx_ever_dispatched txn_zero = False"
  by (simp_all add: txn_zero_def)

lemma txn_ok_zero [simp]: "txn_ok txn_zero"
  by (simp add: txn_ok_def)

lemma in_flight_iff: "txn_flight s \<longleftrightarrow> cm_txn_state_open s \<and> s \<noteq> TXN_PENDING"
  by (cases s) (simp_all add: txn_flight_def)

text \<open>An edit keeps the identity of the transaction, never forgets a dispatch or a tombstone, keeps
  it well formed, and never re-opens a settled transaction other than a DIAL.\<close>

definition txn_edit :: "call_txn \<Rightarrow> call_txn \<Rightarrow> bool" where
  "txn_edit t t' \<longleftrightarrow>
     tx_in_use t' = tx_in_use t \<and> tx_token t' = tx_token t \<and> tx_kind t' = tx_kind t \<and>
     tx_second_mo t' = tx_second_mo t \<and>
     (tx_ever_dispatched t \<longrightarrow> tx_ever_dispatched t') \<and>
     (tx_is_tombstone t \<longrightarrow> tx_is_tombstone t') \<and>
     (txn_ok t \<longrightarrow> txn_ok t') \<and>
     (txn_is_terminal t \<and> tx_kind t \<noteq> CALL_TXN_DIAL \<longrightarrow> txn_is_terminal t')"

lemma txn_edit_refl [simp]: "txn_edit t t"
  by (simp add: txn_edit_def)

lemma txn_edit_trans: "txn_edit a b \<Longrightarrow> txn_edit b c \<Longrightarrow> txn_edit a c"
  by (simp add: txn_edit_def)

text \<open>Flag edits are always allowed.\<close>

lemma txn_edit_flags [simp]:
  "txn_edit t (t\<lparr>tx_dir_confirmed := b\<rparr>)" "txn_edit t (t\<lparr>tx_witnessed_active := b\<rparr>)"
  "txn_edit t (t\<lparr>tx_dir_confirmed := b, tx_witnessed_active := b'\<rparr>)"
  "txn_edit t (t\<lparr>tx_output_resolved := b\<rparr>)" "txn_edit t (t\<lparr>tx_cleanup_confirmed := b\<rparr>)"
  "txn_edit t (t\<lparr>tx_at_accepted := b\<rparr>)" "txn_edit t (t\<lparr>tx_result := r\<rparr>)"
  "txn_edit t (t\<lparr>tx_baseline_target_held := b\<rparr>)" "txn_edit t (default_result r t)"
  by (simp_all add: txn_edit_def txn_ok_def txn_is_terminal_def default_result_def)

text \<open>Settling a transaction is an edit, whatever else is recorded with it.\<close>

lemma txn_edit_settle:
  assumes "s = TXN_SUCCEEDED \<or> s = TXN_FAILED"
  shows "txn_edit t (t\<lparr>tx_state := s\<rparr>)"
  using assms by (auto simp: txn_edit_def txn_ok_def txn_flight_def txn_is_terminal_def)

lemma txn_edit_settle_output:
  assumes "s = TXN_SUCCEEDED \<or> s = TXN_FAILED"
  shows "txn_edit t (default_result r (t\<lparr>tx_state := s, tx_output_resolved := True\<rparr>))"
    and "txn_edit t (default_result r (t\<lparr>tx_witnessed_active := True, tx_state := s,
           tx_output_resolved := True\<rparr>))"
    and "txn_edit t (default_result r (t\<lparr>tx_state := s\<rparr>))"
    and "txn_edit t (t\<lparr>tx_output_resolved := True, tx_state := s\<rparr>)"
    and "txn_edit t (t\<lparr>tx_state := s, tx_output_resolved := True, tx_cleanup_confirmed := True\<rparr>)"
  using assms
  by (auto simp: txn_edit_def txn_ok_def txn_flight_def txn_is_terminal_def default_result_def)

lemma txn_edit_uncertain:
  assumes "tx_state t \<noteq> TXN_PENDING" and "\<not> txn_is_terminal t"
  shows "txn_edit t (t\<lparr>tx_state := TXN_UNCERTAIN\<rparr>)"
  using assms by (cases "tx_state t") (auto simp: txn_edit_def txn_ok_def txn_flight_def txn_is_terminal_def)

lemma txn_edit_bind:
  assumes "tx_kind t = CALL_TXN_DIAL" and "txn_flight (tx_state t)"
  shows "txn_edit t (t\<lparr>tx_bound_id := i, tx_bound_gen := g, tx_state := TXN_BOUND\<rparr>)"
  using assms by (simp add: txn_edit_def txn_ok_def txn_flight_def)

lemma txn_edit_bind_tombstone:
  assumes "tx_kind t = CALL_TXN_DIAL" and "tx_is_tombstone t"
  shows "txn_edit t (t\<lparr>tx_bound_id := i, tx_bound_gen := g\<rparr>)"
  using assms by (simp add: txn_edit_def txn_ok_def)

lemma txn_edit_unbind:
  assumes "tx_kind t = CALL_TXN_DIAL" and "tx_bound_id t \<noteq> 0"
  shows "txn_edit t (t\<lparr>tx_bound_id := 0, tx_bound_gen := 0, tx_state := TXN_UNCERTAIN\<rparr>)"
  using assms by (simp add: txn_edit_def txn_ok_def txn_flight_def)

lemma txn_edit_target:
  assumes "tx_kind t \<noteq> CALL_TXN_DIAL"
  shows "txn_edit t (t\<lparr>tx_target_id := i, tx_target_gen := g\<rparr>)"
  using assms by (simp add: txn_edit_def txn_ok_def txn_is_terminal_def)

lemma txn_edit_tombstone:
  assumes "tx_ever_dispatched t"
  shows "txn_edit t (tombstone_txn d t)"
  using assms by (auto simp: txn_edit_def txn_ok_def tombstone_txn_def txn_flight_def txn_is_terminal_def)

lemma txn_edit_ever:
  assumes "txn_flight (tx_state t)"
  shows "txn_edit t (t\<lparr>tx_ever_dispatched := True\<rparr>)"
  using assms by (simp add: txn_edit_def txn_ok_def txn_is_terminal_def)

text \<open>A transaction may only become bound to a leg no other transaction owns.\<close>

definition bind_fresh :: "call_model \<Rightarrow> nat \<Rightarrow> call_txn \<Rightarrow> bool" where
  "bind_fresh m ti t' \<longleftrightarrow>
     (tx_bound_id t' = tx_bound_id (txn_at m ti) \<and> tx_bound_gen t' = tx_bound_gen (txn_at m ti)) \<or>
     tx_bound_id t' = 0 \<or>
     \<not> cm_leg_owned_by_other_txn m ti (tx_bound_id t') (tx_bound_gen t')"

lemma bind_fresh_same [simp]:
  "tx_bound_id t' = tx_bound_id (txn_at m ti) \<Longrightarrow> tx_bound_gen t' = tx_bound_gen (txn_at m ti) \<Longrightarrow>
     bind_fresh m ti t'"
  by (simp add: bind_fresh_def)

lemma default_result_bound [simp]:
  "tx_bound_id (default_result r t) = tx_bound_id t"
  "tx_bound_gen (default_result r t) = tx_bound_gen t"
  "tx_bound_id (tombstone_txn d t) = tx_bound_id t"
  "tx_bound_gen (tombstone_txn d t) = tx_bound_gen t"
  by (simp_all add: default_result_def tombstone_txn_def)

lemma bind_fresh_unowned:
  "\<not> cm_leg_owned_by_other_txn m ti i g \<Longrightarrow> tx_bound_id t' = i \<Longrightarrow> tx_bound_gen t' = g \<Longrightarrow>
     bind_fresh m ti t'"
  by (simp add: bind_fresh_def)

section \<open>The interface\<close>

locale call_engine =
  fixes I :: "call_model \<Rightarrow> bool"
  assumes quiet: "I m \<Longrightarrow> quiet m m' \<Longrightarrow> I m'"
    and latch: "I m \<Longrightarrow> latch_only h \<Longrightarrow> I (upd_pub h m)"
    and episode: "I m \<Longrightarrow> mt_edit (pending_mt m) (h' (pending_mt m)) \<Longrightarrow> I (upd_mt h' m)"
    and queue: "I m \<Longrightarrow> I (cm_queue_release m i g rec)"
    and leg: "I m \<Longrightarrow> leg_edit (leg_at m k) (lf (leg_at m k)) \<Longrightarrow> I (upd_leg k lf m)"
    and edit: "I m \<Longrightarrow> txn_edit (txn_at m ti) (tf (txn_at m ti)) \<Longrightarrow>
                 bind_fresh m ti (tf (txn_at m ti)) \<Longrightarrow> I (upd_txn ti tf m)"
    and drop: "I m \<Longrightarrow> \<not> tx_in_use (txn_at m ti) \<or> \<not> tx_ever_dispatched (txn_at m ti) \<Longrightarrow>
                 I (upd_txn ti (\<lambda>_. txn_zero) m)"
begin

lemma touch: "I m \<Longrightarrow> I (cm_touch_shadow m)"
  and raise: "I m \<Longrightarrow> I (cm_raise_reason m b)"
  and reset: "I m \<Longrightarrow> I (cm_reset_pending_terminal m)"
  and clear_for_token: "I m \<Longrightarrow> I (cm_clear_pending_terminal_for_token m tok)"
  and clear: "I m \<Longrightarrow> I (cm_clear_pending_terminal m i g)"
  and bump_rev: "I m \<Longrightarrow> I (clcc_bump_rev m)"
  and take_cause: "I m \<Longrightarrow> I (snd (cm_take_pending_terminal m i g))"
  by (erule quiet, rule quiets)+

lemma bump: "I m \<Longrightarrow> I (m\<lparr>semantic_revision := semantic_revision m + 1\<rparr>)"
  using bump_rev by (simp add: clcc_bump_rev_def)

lemma route: "I m \<Longrightarrow> I (cm_route_result m s r)"
  by (simp add: route_as_pub latch)

lemma route_setup: "I m \<Longrightarrow> I (cm_route_setup_result m t r)"
  by (simp add: cm_route_setup_result_def Let_def route)

lemma unbind: "I m \<Longrightarrow> I (cm_unbind_pending_mt m i g)"
  by (simp add: cm_unbind_pending_mt_def episode)

lemma teardown: "I m \<Longrightarrow> I (upd_leg k (leg_start_teardown now) m)"
  by (simp add: leg)

lemma abandon_leg: "I m \<Longrightarrow> I (cm_abandon_leg m ti)"
  by (simp add: cm_abandon_leg_def Let_def touch bump teardown unbind queue
      split: option.split prod.split)

lemmas effects = touch raise reset route bump unbind queue teardown clear_for_token clear
  route_setup abandon_leg

lemma bind_dial:
  assumes I: "I m" shows "I (txn_bind_dial ti m)"
proof (cases "filter (dial_candidate m ti) (legs m)" rule: remdups_adj.cases)
  case (2 c)
  let ?t = "txn_at m ti"
  define m1 where "m1 = upd_txn ti (\<lambda>t. t\<lparr>tx_bound_id := lg_id c, tx_bound_gen := lg_gen c,
                                tx_state := TXN_BOUND\<rparr>) m"
  have "\<not> cm_leg_owned_by_other_txn m ti (lg_id c) (lg_gen c)"
    using filter_singleton [OF 2] by (simp add: dial_candidate_def)
  then have "I m1" if "tx_kind ?t = CALL_TXN_DIAL" "txn_flight (tx_state ?t)"
    unfolding m1_def using that by (intro edit txn_edit_bind I bind_fresh_unowned) simp_all
  then show ?thesis using I 2
    by (auto simp: txn_bind_dial_def Let_def txn_flight_def intro!: effects edit simp flip: m1_def)
qed (use I in \<open>simp_all add: txn_bind_dial_def Let_def raise\<close>)

lemma confirm_one: "I m \<Longrightarrow> I (txn_confirm_one ti m)"
  by (auto simp: txn_confirm_one_def Let_def split: option.split
      intro!: effects edit txn_edit_unbind) (simp_all add: bind_fresh_def)

lemma bind_target: "I m \<Longrightarrow> I (txn_bind_target ti m)"
  by (auto simp: txn_bind_target_def Let_def split: option.split intro!: edit txn_edit_target)

lemma set_settled: "I m \<Longrightarrow> s = TXN_SUCCEEDED \<or> s = TXN_FAILED \<Longrightarrow> I (set_txn_state ti s m)"
  unfolding set_txn_state_def by (intro edit txn_edit_settle) simp_all

lemma resolve_cases:
  assumes "I m"
  shows "I (resolve_dial ti m)" and "I (resolve_hold ti m)" and "I (resolve_swap ti m)"
    and "I (resolve_wait_answer ti m)" and "I (resolve_wait_reject ti m)"
    and "I (resolve_release_active ti m)" and "I (resolve_release_leg ti m)"
    and "I (resolve_hangup ti m)"
  using assms
  by (auto simp: resolve_dial_def resolve_hold_def resolve_swap_def resolve_wait_answer_def
      resolve_wait_reject_def resolve_release_active_def resolve_release_leg_def
      resolve_hangup_def Let_def split: option.split
      intro!: edit set_settled txn_edit_settle_output)

lemma resolve_answer: "I m \<Longrightarrow> I (resolve_answer ti m)"
  unfolding resolve_answer_def Let_def
  by (auto split: option.split intro!: effects edit txn_edit_settle_output)

lemma resolve_one:
  assumes "I m" shows "I (txn_resolve_one ti m)"
proof -
  define m1 where "m1 = (case tx_kind (txn_at m ti) of
                     CALL_TXN_DIAL \<Rightarrow> resolve_dial ti m
                   | CALL_TXN_ANSWER \<Rightarrow> resolve_answer ti m
                   | CALL_TXN_HOLD \<Rightarrow> resolve_hold ti m
                   | CALL_TXN_SWAP \<Rightarrow> resolve_swap ti m
                   | CALL_TXN_WAIT_ANSWER \<Rightarrow> resolve_wait_answer ti m
                   | CALL_TXN_WAIT_REJECT \<Rightarrow> resolve_wait_reject ti m
                   | CALL_TXN_RELEASE_ACTIVE \<Rightarrow> resolve_release_active ti m
                   | CALL_TXN_RELEASE_LEG \<Rightarrow> resolve_release_leg ti m
                   | CALL_TXN_HANGUP \<Rightarrow> resolve_hangup ti m
                   | CALL_TXN_NONE \<Rightarrow> m)"
  have "I m1"
    unfolding m1_def
    by (cases "tx_kind (txn_at m ti)") (simp_all add: assms resolve_cases resolve_answer)
  then show ?thesis
    using assms by (simp add: txn_resolve_one_def Let_def clear_for_token flip: m1_def)
qed

lemma cancel: "I m \<Longrightarrow> I (cm_cancel_txn m ti)"
proof -
  assume I: "I m"
  let ?m1 = "cm_clear_pending_terminal_for_token (cm_touch_shadow m) (tx_token (txn_at m ti))"
  have 1: "I ?m1" by (intro effects I)
  show ?thesis
  proof (cases "tx_ever_dispatched (txn_at m ti)")
    case False
    then have "I (upd_txn ti (\<lambda>_. txn_zero) ?m1)" using 1 by (intro drop) simp_all
    then show ?thesis using False by (simp add: cm_cancel_txn_def Let_def)
  next
    case True
    then have "txn_edit (txn_at (cm_abandon_leg ?m1 ti) ti)
        (tombstone_txn d (txn_at (cm_abandon_leg ?m1 ti) ti))" for d
      by (intro txn_edit_tombstone) simp
    then show ?thesis using True 1
      by (simp add: cm_cancel_txn_def Let_def raise edit abandon_leg)
  qed
qed

lemma hard_abandon:
  assumes I: "I m" and flight: "txn_flight (tx_state (txn_at m ti))"
  shows "I (txn_hard_abandon ti m)"
proof -
  define sink where "sink = od_sink (cm_op_descriptor (txn_at m ti))"
  define ma where "ma = upd_txn ti (\<lambda>t. default_result
      (if tx_witnessed_active t then MODEM_CALL_RESULT_NO_CARRIER
       else MODEM_CALL_RESULT_NO_ANSWER) t) m"
  define m1 where "m1 = (if sink = RESULT_SINK_PRIMARY_LATCH \<or> sink = RESULT_SINK_SECOND_MO_LATCH
      then (if \<not> (sink = RESULT_SINK_PRIMARY_LATCH \<and> cm_any_surviving_active_or_held ma 0 0)
            then cm_route_result ma sink (tx_result (txn_at ma ti)) else ma) else m)"
  define m2 where "m2 = upd_txn ti (\<lambda>t. t\<lparr>tx_output_resolved := True\<rparr>) m1"
  define m3 where "m3 = cm_touch_shadow (cm_clear_pending_terminal_for_token m2 (tx_token (txn_at m2 ti)))"
  have "I ma" unfolding ma_def by (intro edit I) simp_all
  then have "I m1" unfolding m1_def using I by (simp add: route)
  then have "I m3" unfolding m3_def m2_def by (intro effects edit) simp_all
  have "tx_state (txn_at ma ti) = tx_state (txn_at m ti)"
    unfolding ma_def by (rule txn_at_upd_txn_field) (simp add: default_result_def)
  then have "tx_state (txn_at m1 ti) = tx_state (txn_at m ti)"
    unfolding m1_def by simp
  then have "tx_state (txn_at m3 ti) = tx_state (txn_at m ti)"
    unfolding m3_def m2_def by (simp add: txn_at_upd_txn_field [of tx_state])
  then have "I (upd_txn ti (\<lambda>t. t\<lparr>tx_ever_dispatched := True\<rparr>) m3)"
    using \<open>I m3\<close> flight by (intro edit txn_edit_ever) simp_all
  then show ?thesis
    unfolding txn_hard_abandon_def Let_def
    by (fold sink_def, fold ma_def, fold m1_def, fold m2_def, fold m3_def)
      (intro raise set_settled cancel, simp_all)
qed

lemma deadline_one: "I m \<Longrightarrow> I (txn_deadline_one ti m)"
  by (auto simp: txn_deadline_one_def Let_def in_flight_iff txn_is_terminal_iff cm_txn_is_open_def
      set_txn_state_def intro!: raise hard_abandon edit txn_edit_uncertain)

lemma bind_tombstone:
  assumes I: "I m" shows "I (cm_bind_tombstone ti m)"
proof (cases "filter (tombstone_candidate m ti) (legs m)" rule: remdups_adj.cases)
  case (2 c)
  let ?t = "txn_at m ti"
  have "\<not> cm_leg_owned_by_other_txn m ti (lg_id c) (lg_gen c)"
    using filter_singleton [OF 2] by (simp add: tombstone_candidate_def)
  then have "I (upd_txn ti (\<lambda>t. t\<lparr>tx_bound_id := lg_id c, tx_bound_gen := lg_gen c\<rparr>) m)"
    if "tx_kind ?t = CALL_TXN_DIAL" "tx_is_tombstone ?t"
    using that by (intro edit txn_edit_bind_tombstone I bind_fresh_unowned) simp_all
  then show ?thesis using I 2
    by (auto simp: cm_bind_tombstone_def Let_def intro!: abandon_leg split: option.split)
qed (use I in \<open>auto simp: cm_bind_tombstone_def Let_def intro!: abandon_leg split: option.split\<close>)

lemma tombstone_deadline_one: "I m \<Longrightarrow> I (cm_tombstone_deadline_one i m)"
  by (auto simp: cm_tombstone_deadline_one_def Let_def intro!: edit)

lemma passes:
  assumes "I m"
  shows "I (txn_bind_dials m)" and "I (txn_confirm_tentative m)" and "I (txn_bind_targets m)"
    and "I (txn_resolve m)" and "I (txn_deadlines m)" and "I (cm_bind_tombstones m)"
    and "I (cm_advance_tombstone_deadlines m)"
  unfolding txn_bind_dials_def txn_confirm_tentative_def txn_bind_targets_def txn_resolve_def
    txn_deadlines_def cm_bind_tombstones_def cm_advance_tombstone_deadlines_def
  by (rule for_each_inv; rule assms bind_dial confirm_one bind_target resolve_one deadline_one
      bind_tombstone tombstone_deadline_one; assumption)+

lemma reconcile: "I m \<Longrightarrow> I (model_reconcile_txns m)"
  unfolding model_reconcile_txns_def by (intro passes)

end

section \<open>Retirement\<close>

locale call_retirement = call_engine +
  assumes retire: "I m \<Longrightarrow> cm_txn_retirement_eligible m (txn_at m ti) \<Longrightarrow>
                     I (upd_txn ti (\<lambda>_. txn_zero) m)"
begin

lemma retire_one: "I m \<Longrightarrow> I (cm_retire_one i m)"
  by (simp add: cm_retire_one_def retire)

lemma retire_all: "I m \<Longrightarrow> I (cm_retire_terminal_txns m)"
  unfolding cm_retire_terminal_txns_def by (rule for_each_inv [where P = I]) (simp_all add: retire_one)

end

end
