(* ===== verification/Call_Client.thy ===== *)
theory Call_Client
  imports Call_Engine
begin

text \<open>
  The request side over the interface of the engine: token allocation never repeats a live token,
  and whatever the engine's effects, token allocation and admission keep is kept by
  \<open>call_model_request\<close>, dispatch, the dispatch guard, command results and cancellation.
\<close>

section \<open>Token allocation\<close>

definition token_succ :: "u32 \<Rightarrow> u32" where
  "token_succ c = (if c + 1 = 0 then 1 else c + 1)"

lemma token_succ_nonzero [simp]: "token_succ c \<noteq> 0"
  by (simp add: token_succ_def)

lemma token_iter_nonzero: "c \<noteq> 0 \<Longrightarrow> (token_succ ^^ n) c \<noteq> 0"
  by (cases n) simp_all

text \<open>On the nonzero tokens the successor is a step of the cycle of length \<open>2^32 - 1\<close>.\<close>

lemma token_succ_unat:
  assumes "c \<noteq> 0"
  shows "unat (token_succ c) = unat c mod (2 ^ 32 - 1) + 1"
proof -
  have lt: "unat c < 2 ^ 32" using unsigned_less [of c] by simp
  have pos: "0 < unat c" using assms by (simp add: unat_gt_0)
  show ?thesis
  proof (cases "c + 1 = 0")
    case True
    then have "c = - 1" by (simp add: eq_neg_iff_add_eq_0)
    then have "unat c = 2 ^ 32 - 1" by (simp add: unsigned_minus_1_eq_mask mask_eq_exp_minus_1)
    then show ?thesis using True by (simp add: token_succ_def)
  next
    case False
    then have "unat (c + 1) = unat c + 1" by (metis Suc_eq_plus1 unatSuc add.commute)
    moreover have "unat c < 2 ^ 32 - 1"
      using calculation unsigned_less [of "c + 1", where ?'a = nat] by simp
    ultimately show ?thesis using False by (simp add: token_succ_def)
  qed
qed

lemma token_iter_unat:
  assumes "c \<noteq> 0"
  shows "unat ((token_succ ^^ n) c) = (unat c - 1 + n) mod (2 ^ 32 - 1) + 1"
proof (induction n)
  case 0
  have "unat c < 2 ^ 32" "0 < unat c"
    using unsigned_less [of c] assms by (simp_all add: unat_gt_0)
  then show ?case by simp
next
  case (Suc n)
  have "unat ((token_succ ^^ Suc n) c) = unat ((token_succ ^^ n) c) mod (2 ^ 32 - 1) + 1"
    by (simp add: token_succ_unat token_iter_nonzero assms)
  also have "\<dots> = ((unat c - 1 + n) mod (2 ^ 32 - 1) + 1) mod (2 ^ 32 - 1) + 1"
    by (simp add: Suc)
  also have "\<dots> = (unat c - 1 + Suc n) mod (2 ^ 32 - 1) + 1"
    by (simp add: mod_Suc_eq)
  finally show ?case .
qed

lemma mod_shift_inj:
  fixes i j :: nat
  assumes "(a + i) mod n = (a + j) mod n" and "i < n" and "j < n"
  shows "i = j"
proof -
  have *: "j = i" if "i \<le> j" "(a + i) mod n = (a + j) mod n" "j < n" for i j :: nat
  proof -
    have "n dvd (a + j) - (a + i)" using that by (metis add_le_cancel_left mod_eq_dvd_iff_nat)
    then have "n dvd j - i" by simp
    then show ?thesis using that by (metis diff_is_0_eq' dvd_imp_le le_antisym less_imp_diff_less
          linorder_not_le zero_less_diff)
  qed
  show ?thesis using assms * [of i j] * [of j i] by (metis nat_le_linear)
qed

lemma token_iter_inj:
  assumes "c \<noteq> 0" "i < 2 ^ 32 - 1" "j < 2 ^ 32 - 1" "(token_succ ^^ i) c = (token_succ ^^ j) c"
  shows "i = j"
  by (rule mod_shift_inj [where a = "unat c - 1" and n = "2 ^ 32 - 1"])
    (use assms token_iter_unat [of c i] token_iter_unat [of c j] in simp_all)

text \<open>The loop returns the first candidate that is not live, if there is one within the guard.\<close>

lemma token_loop_spec:
  assumes "next_token m = c" "c \<noteq> 0" and "i < n" "\<not> cm_token_live m ((token_succ ^^ i) c)"
  shows "\<exists>j \<le> i. \<not> cm_token_live m ((token_succ ^^ j) c) \<and>
           cm_alloc_token_loop n m =
             ((token_succ ^^ j) c, m\<lparr>next_token := (token_succ ^^ Suc j) c\<rparr>)"
  using assms
proof (induction n arbitrary: m c i)
  case (Suc n)
  let ?m1 = "m\<lparr>next_token := token_succ c\<rparr>"
  have live: "cm_token_live ?m1 t = cm_token_live m t" for t by (simp add: cm_token_live_def)
  show ?case
  proof (cases "cm_token_live m c")
    case False
    then show ?thesis using Suc.prems live
      by (intro exI [of _ 0]) (simp add: Let_def flip: token_succ_def)
  next
    case True
    then obtain i' where i: "i = Suc i'" using Suc.prems(4) by (cases i) auto
    have "\<exists>j \<le> i'. \<not> cm_token_live ?m1 ((token_succ ^^ j) (token_succ c)) \<and>
           cm_alloc_token_loop n ?m1 = ((token_succ ^^ j) (token_succ c),
             ?m1\<lparr>next_token := (token_succ ^^ Suc j) (token_succ c)\<rparr>)"
      by (rule Suc.IH) (use Suc.prems i live in \<open>simp_all add: funpow_swap1\<close>)
    then obtain j where j: "j \<le> i'" "\<not> cm_token_live m ((token_succ ^^ j) (token_succ c))"
      "cm_alloc_token_loop n ?m1 = ((token_succ ^^ j) (token_succ c),
             ?m1\<lparr>next_token := (token_succ ^^ Suc j) (token_succ c)\<rparr>)"
      using live by auto
    show ?thesis
      by (rule exI [of _ "Suc j"])
        (use j True i Suc.prems live in \<open>simp add: Let_def funpow_swap1 flip: token_succ_def\<close>)
  qed
qed simp

definition live_tokens :: "call_model \<Rightarrow> u32 set" where
  "live_tokens m = tx_token ` {t \<in> set (txns m). tx_in_use t}"

lemma token_live_iff: "cm_token_live m t \<longleftrightarrow> t \<in> live_tokens m"
  by (auto simp: cm_token_live_def live_tokens_def list_ex_iff)

lemma live_tokens_card: "card (live_tokens m) \<le> length (txns m)"
proof -
  have "card (live_tokens m) \<le> card {t \<in> set (txns m). tx_in_use t}"
    unfolding live_tokens_def by (rule card_image_le) simp
  also have "\<dots> \<le> card (set (txns m))" by (rule card_mono) auto
  also have "\<dots> \<le> length (txns m)" by (rule card_length)
  finally show ?thesis .
qed

text \<open>Pigeonhole: among one more candidates than slots, one is free.\<close>

lemma token_free_candidate:
  assumes "c \<noteq> 0" "length (txns m) < 2 ^ 32 - 1"
  shows "\<exists>i \<le> length (txns m). \<not> cm_token_live m ((token_succ ^^ i) c)"
proof (rule ccontr)
  assume "\<not> ?thesis"
  then have sub: "(\<lambda>i. (token_succ ^^ i) c) ` {..length (txns m)} \<subseteq> live_tokens m"
    by (auto simp: token_live_iff)
  have "inj_on (\<lambda>i. (token_succ ^^ i) c) {..length (txns m)}"
    using assms by (intro inj_onI token_iter_inj) auto
  then have "Suc (length (txns m)) = card ((\<lambda>i. (token_succ ^^ i) c) ` {..length (txns m)})"
    by (simp add: card_image)
  also have "\<dots> \<le> card (live_tokens m)"
    by (rule card_mono [OF _ sub]) (simp add: live_tokens_def)
  finally show False using live_tokens_card [of m] by simp
qed

lemma token_loop_fresh:
  assumes "length (txns m) < n" "length (txns m) < 2 ^ 32 - 1" "next_token m \<noteq> 0"
  shows "\<exists>tok nxt. cm_alloc_token_loop n m = (tok, m\<lparr>next_token := nxt\<rparr>) \<and> tok \<noteq> 0 \<and> nxt \<noteq> 0 \<and>
           \<not> cm_token_live m tok"
proof -
  obtain i where "i \<le> length (txns m)" "\<not> cm_token_live m ((token_succ ^^ i) (next_token m))"
    using token_free_candidate assms by blast
  then obtain j where "cm_alloc_token_loop n m =
      ((token_succ ^^ j) (next_token m), m\<lparr>next_token := (token_succ ^^ Suc j) (next_token m)\<rparr>)"
    "\<not> cm_token_live m ((token_succ ^^ j) (next_token m))"
    using token_loop_spec [OF refl assms(3), of i n] assms(1) by force
  then show ?thesis using token_iter_nonzero [OF assms(3)]
    by (intro exI conjI) (assumption | simp)+
qed

lemma alloc_token_fresh:
  assumes "length (txns m) = MODEM_MAX_CALL_TRANSACTIONS"
  shows "\<exists>tok nxt. cm_alloc_token m = (tok, m\<lparr>next_token := nxt\<rparr>) \<and> tok \<noteq> 0 \<and> nxt \<noteq> 0 \<and>
           \<not> cm_token_live m tok"
proof (cases "next_token m = 0")
  case False
  then show ?thesis unfolding cm_alloc_token_def
    by (intro token_loop_fresh) (simp_all add: assms)
next
  case True
  let ?m1 = "m\<lparr>next_token := 1\<rparr>"
  have "cm_alloc_token m = cm_alloc_token_loop (MODEM_MAX_CALL_TRANSACTIONS + 1) ?m1"
    using True by (simp add: cm_alloc_token_def Let_def numeral_eq_Suc)
  moreover have "\<exists>tok nxt. cm_alloc_token_loop (MODEM_MAX_CALL_TRANSACTIONS + 1) ?m1 =
      (tok, ?m1\<lparr>next_token := nxt\<rparr>) \<and> tok \<noteq> 0 \<and> nxt \<noteq> 0 \<and> \<not> cm_token_live ?m1 tok"
    by (intro token_loop_fresh) (simp_all add: assms)
  ultimately show ?thesis by (auto simp: cm_token_live_def)
qed

lemma alloc_token_loop_other: "snd (cm_alloc_token_loop n m) = m\<lparr>next_token := next_token (snd (cm_alloc_token_loop n m))\<rparr>"
proof (induction n arbitrary: m)
  case (Suc n)
  show ?case using Suc [of "m\<lparr>next_token := v\<rparr>" for v] by (auto simp: Let_def)
qed simp

lemma alloc_token_other:
  "txns (snd (cm_alloc_token m)) = txns m" "legs (snd (cm_alloc_token m)) = legs m"
  "gen_next (snd (cm_alloc_token m)) = gen_next m"
  "pending_mt (snd (cm_alloc_token m)) = pending_mt m"
  "published (snd (cm_alloc_token m)) = published m"
  "shadow_open (snd (cm_alloc_token m)) = shadow_open m"
  "release_queue (snd (cm_alloc_token m)) = release_queue m"
  by (subst cm_alloc_token_def, subst alloc_token_loop_other, simp)+

lemma upd_txn_beyond: "length (txns m) \<le> i \<Longrightarrow> upd_txn i f m = m"
  by (simp add: upd_txn_def upd_nth_def list_update_beyond)

section \<open>Edits of the request side\<close>

lemma txn_edit_baseline: "length xs \<le> MODEM_MAX_CALL_LEGS \<Longrightarrow> txn_edit t (t\<lparr>tx_baseline := xs\<rparr>)"
  by (simp add: txn_edit_def txn_ok_def txn_is_terminal_def)

lemma txn_edit_setups:
  "length xs \<le> MODEM_HANGUP_SETUP_OWNERS \<Longrightarrow> txn_edit t (t\<lparr>tx_hangup_setups := xs\<rparr>)"
  by (simp add: txn_edit_def txn_ok_def txn_is_terminal_def)

lemma txn_edit_dispatch:
  assumes "\<not> txn_is_terminal t" and "p \<noteq> 0" and "a \<noteq> 0"
  shows "txn_edit t (t\<lparr>tx_policy_deadline_ms := p, tx_abandon_deadline_ms := a,
                       tx_ever_dispatched := True, tx_state := TXN_DISPATCHED\<rparr>)"
  using assms by (simp add: txn_edit_def txn_ok_def)

lemma txn_edit_resolve_target:
  assumes "tx_kind t = CALL_TXN_DIAL \<Longrightarrow> i = 0 \<and> e = 0"
  shows "txn_edit t (t\<lparr>tx_target_id := i, tx_target_gen := g, tx_held_id := h, tx_held_gen := hg,
                       tx_mt_episode := e\<rparr>)"
  using assms by (simp add: txn_edit_def txn_ok_def txn_is_terminal_def)

section \<open>Slot reservation\<close>

lemma reclaim_general_pair:
  "reclaim_general i (m, slot) =
     (cm_retire_one i m,
      if slot = None \<and> \<not> tx_in_use (txn_at (cm_retire_one i m) i) then Some i else slot)"
  by (simp add: reclaim_general_def Let_def)

lemma retire_one_other: "i \<noteq> n \<Longrightarrow> txn_at (cm_retire_one n m) i = txn_at m i"
  by (simp add: cm_retire_one_def)

lemma reclaim_fold:
  "fold reclaim_general [1..<Suc n] (m, None) = (m', Some i) \<Longrightarrow>
     1 \<le> i \<and> i \<le> n \<and> \<not> tx_in_use (txn_at m' i)"
proof (induction n arbitrary: m' i)
  case (Suc n)
  obtain m1 s1 where f: "fold reclaim_general [1..<Suc n] (m, None) = (m1, s1)" by fastforce
  then have "reclaim_general (Suc n) (m1, s1) = (m', Some i)" using Suc.prems by simp
  then have eq: "m' = cm_retire_one (Suc n) m1"
    "(if s1 = None \<and> \<not> tx_in_use (txn_at m' (Suc n)) then Some (Suc n) else s1) = Some i"
    unfolding reclaim_general_pair by auto
  show ?case
  proof (cases s1)
    case None
    then show ?thesis using eq(2) by (auto split: if_splits)
  next
    case (Some k)
    then have "i = k" using eq(2) by simp
    moreover have "1 \<le> k \<and> k \<le> n \<and> \<not> tx_in_use (txn_at m1 k)"
      using f Some by (intro Suc.IH) simp
    ultimately show ?thesis using eq(1) by (simp add: retire_one_other)
  qed
qed simp

text \<open>HANGUP is admitted to slot 0 and nothing else is; the reserved slot is free.\<close>

lemma request_slot_free:
  assumes "request_slot m kind = (m', Some slot)"
  shows "slot < MODEM_MAX_CALL_TRANSACTIONS \<and> (kind = CALL_TXN_HANGUP \<longleftrightarrow> slot = 0) \<and>
         \<not> tx_in_use (txn_at m' slot)"
proof (cases "kind = CALL_TXN_HANGUP")
  case True
  then show ?thesis using assms by (auto simp: request_slot_def Let_def split: if_splits)
next
  case False
  then have "fold reclaim_general [1..<Suc 11] (m, None) = (m', Some slot)"
    using assms by (simp add: request_slot_def)
  from reclaim_fold [OF this] False show ?thesis by simp
qed

section \<open>What the engine's interface gives\<close>

context call_engine
begin

lemma baseline: "I m \<Longrightarrow> I (cm_capture_baseline m ti)"
  unfolding cm_capture_baseline_def by (intro edit txn_edit_baseline) simp_all

lemma capture_setup: "I m \<Longrightarrow> I (capture_hangup_setup h i m)"
  by (auto simp: capture_hangup_setup_def Let_def intro!: cancel edit txn_edit_setups)

lemma capture_setups: "I m \<Longrightarrow> I (cm_capture_hangup_setups m h)"
  unfolding cm_capture_hangup_setups_def
  by (rule for_each_inv [where P = I]) (simp_all add: edit txn_edit_setups capture_setup)

lemma dial_reset: "I m \<Longrightarrow> I (dial_accept_reset m second)"
  by (simp add: dial_accept_reset_def Let_def clear latch)

lemma supersede: "I m \<Longrightarrow> request_supersede m second = Some m' \<Longrightarrow> I m'"
  by (auto simp: request_supersede_def Let_def supersede_one_def split: if_splits
      intro!: for_each_inv [where P = I] cancel)

lemma dispatched: "I m \<Longrightarrow> I (call_model_txn_dispatched m tok)"
proof (cases "txn_by_token m tok")
  case (Some ti)
  assume I: "I m"
  define m1 where "m1 = dispatch_baseline m ti"
  define m2 where "m2 = (if tx_kind (txn_at m1 ti) = CALL_TXN_HOLD \<or> tx_kind (txn_at m1 ti) = CALL_TXN_SWAP
      then upd_txn ti (\<lambda>t. t\<lparr>tx_baseline_target_held :=
         (case find_leg_at m1 (tx_target_id (txn_at m1 ti)) (tx_target_gen (txn_at m1 ti)) of
            None \<Rightarrow> False | Some l \<Rightarrow> lg_state l = CALL_LEG_HELD)\<rparr>) m1 else m1)"
  have "I m1" unfolding m1_def dispatch_baseline_def Let_def using I
    by (simp add: dial_reset baseline)
  then have "I m2" unfolding m2_def by (simp add: edit)
  have "txns (dispatch_baseline m ti) = txns m \<or>
        txns (dispatch_baseline m ti) = txns (cm_capture_baseline m ti)"
    by (simp add: dispatch_baseline_def dial_accept_reset_def Let_def)
  then have "tx_state (txn_at m1 ti) = tx_state (txn_at m ti)"
    unfolding m1_def cm_capture_baseline_def
    using txn_at_upd_txn_field [of tx_state "\<lambda>t. t\<lparr>tx_baseline := take MODEM_MAX_CALL_LEGS (leg_refs m)\<rparr>"]
    by (auto simp: txn_at_def)
  then have "tx_state (txn_at m2 ti) = tx_state (txn_at m ti)"
    unfolding m2_def by (simp add: txn_at_upd_txn_field [of tx_state])
  then have "\<not> txn_is_terminal (txn_at m ti) \<Longrightarrow> \<not> txn_is_terminal (txn_at m2 ti)"
    by (simp add: txn_is_terminal_def)
  then show ?thesis
    using \<open>I m2\<close> I Some
    by (simp add: call_model_txn_dispatched_def Let_def edit txn_edit_dispatch
        flip: m1_def m2_def)
qed (simp add: call_model_txn_dispatched_def)

lemma command_result:
  assumes "I m" and "cmd_status r = CMD_TIMEOUT \<Longrightarrow>
    \<forall>ti. txn_by_token m tok = Some ti \<longrightarrow> tx_state (txn_at m ti) \<noteq> TXN_PENDING"
  shows "I (call_model_txn_command_result m tok r)"
proof (cases "txn_by_token m tok")
  case (Some ti)
  have err: "I (txn_command_error m ti c)" for c
    unfolding txn_command_error_def Let_def
    by (intro reconcile effects edit assms(1) txn_edit_flags txn_edit_settle_output) simp_all
  have time: "I (txn_command_timeout m ti)"
    if "\<not> txn_is_terminal (txn_at m ti)" "tx_state (txn_at m ti) \<noteq> TXN_PENDING"
  proof -
    have "I (cm_raise_reason (set_txn_state ti TXN_UNCERTAIN (cm_touch_shadow m)) CALL_RC_UNCERTAIN_TXN)"
      unfolding set_txn_state_def
      by (intro effects edit assms(1) txn_edit_uncertain) (use that in simp_all)
    then show ?thesis unfolding txn_command_timeout_def Let_def
      by (intro reconcile) (erule quiet, simp add: quiet_def)
  qed
  show ?thesis using Some assms err time
    by (auto simp: call_model_txn_command_result_def edit split: modem_cmd_status.split)
qed (simp add: call_model_txn_command_result_def assms)

lemma dispatch_guard: "I m \<Longrightarrow> I (fst (call_model_txn_dispatch_guard m tok))"
proof -
  assume I: "I m"
  have "I (cm_guard_resolve m ti v)" if "v \<noteq> CALL_DISPATCH_SEND" for ti v
    unfolding cm_guard_resolve_def Let_def
    by (intro effects edit I txn_edit_settle_output(5))
      (use that in \<open>cases v; simp\<close>)+
  then show ?thesis using I
    by (auto simp: call_model_txn_dispatch_guard_def Let_def split: option.split)
qed

lemma cancel_token: "I m \<Longrightarrow> I (call_model_txn_cancel m tok)"
  by (auto simp: call_model_txn_cancel_def cancel split: option.split)

lemma new_call_abandoned: "I m \<Longrightarrow> I (call_model_new_call_abandoned m)"
  by (auto simp: call_model_new_call_abandoned_def Let_def cancel latch split: option.split)

end

section \<open>The interface of admission\<close>

locale call_admit = call_engine +
  assumes token: "I m \<Longrightarrow> I (snd (cm_alloc_token m))"
    and admit: "I m \<Longrightarrow> slot < MODEM_MAX_CALL_TRANSACTIONS \<Longrightarrow>
      (slot < length (txns m) \<Longrightarrow> txn_at m slot = txn_zero) \<Longrightarrow> kind \<noteq> CALL_TXN_NONE \<Longrightarrow>
      (kind = CALL_TXN_HANGUP \<longleftrightarrow> slot = 0) \<Longrightarrow>
      (length (txns m) = MODEM_MAX_CALL_TRANSACTIONS \<Longrightarrow> tok \<noteq> 0 \<and> \<not> cm_token_live m tok) \<Longrightarrow>
      I (upd_txn slot (\<lambda>t. t\<lparr>tx_in_use := True, tx_token := tok, tx_kind := kind,
                            tx_state := TXN_PENDING, tx_second_mo := second,
                            tx_result := MODEM_CALL_RESULT_NONE\<rparr>) m)"
begin

lemma request_admit:
  assumes I: "I m" and slot: "slot < MODEM_MAX_CALL_TRANSACTIONS" "\<not> tx_in_use (txn_at m slot)"
    and kind: "kind \<noteq> CALL_TXN_NONE" "kind = CALL_TXN_HANGUP \<longleftrightarrow> slot = 0"
    and target: "kind = CALL_TXN_DIAL \<Longrightarrow> target = 0"
  shows "I (fst (request_admit m kind target second slot))"
proof -
  define m1 where "m1 = upd_txn slot (\<lambda>_. txn_zero) m"
  obtain tok m2 where al: "cm_alloc_token m1 = (tok, m2)" by fastforce
  define m3 where "m3 = upd_txn slot (\<lambda>t. t\<lparr>tx_in_use := True, tx_token := tok, tx_kind := kind,
      tx_state := TXN_PENDING, tx_second_mo := second, tx_result := MODEM_CALL_RESULT_NONE\<rparr>) m2"
  define m4 where "m4 = (if kind = CALL_TXN_DIAL then dial_accept_reset m3 second else m3)"
  define m5 where "m5 = upd_txn slot
      (\<lambda>t. t\<lparr>tx_target_id := fst (request_target_override m4 kind (request_target m4 kind target)),
            tx_target_gen := snd (request_target_override m4 kind (request_target m4 kind target)),
            tx_held_id := fst (request_held m4 kind), tx_held_gen := snd (request_held m4 kind),
            tx_mt_episode := request_episode m4 kind\<rparr>) m4"
  have I1: "I m1" unfolding m1_def by (rule drop) (use I slot in simp_all)
  have I2: "I m2" using token [OF I1] al by simp
  have tx: "txns m2 = txns m1" using alloc_token_other(1) [of m1] al by simp
  have I3: "I m3" unfolding m3_def
  proof (rule admit [OF I2 slot(1) _ kind])
    show "txn_at m2 slot = txn_zero" if "slot < length (txns m2)"
      using that by (simp add: txn_at_def tx m1_def upd_txn_def)
    show "tok \<noteq> 0 \<and> \<not> cm_token_live m2 tok" if "length (txns m2) = MODEM_MAX_CALL_TRANSACTIONS"
      using alloc_token_fresh [of m1] al that tx by (auto simp: cm_token_live_def)
  qed
  have I4: "I m4" unfolding m4_def using I3 by (simp add: dial_reset)
  have "txns m4 = txns m3" by (simp add: m4_def dial_accept_reset_def Let_def)
  then have kind4: "slot < length (txns m4) \<Longrightarrow> tx_kind (txn_at m4 slot) = kind"
    by (simp add: txn_at_def m3_def upd_txn_def)
  have I5: "I m5"
  proof (cases "slot < length (txns m4)")
    case True
    show ?thesis unfolding m5_def
      by (intro edit [OF I4] txn_edit_resolve_target)
        (use target kind4 [OF True] in \<open>simp_all add: request_target_def
           request_target_override_def request_episode_def\<close>)
  qed (simp add: m5_def upd_txn_beyond I4)
  have "fst (request_admit m kind target second slot) =
      (if kind = CALL_TXN_HANGUP
       then cm_capture_baseline (cm_capture_hangup_setups m5 slot) slot else m5)"
    by (simp add: request_admit_def m5_def m4_def m3_def al Let_def case_prod_unfold flip: m1_def)
  then show ?thesis using I5 by (simp add: baseline capture_setups)
qed

end

text \<open>A request also retires what it reclaims the slot of.\<close>

locale call_admission = call_retirement I + call_admit I for I :: "call_model \<Rightarrow> bool"
begin

lemma reclaim: "I (fst s) \<Longrightarrow> I (fst (reclaim_general i s))"
  by (cases s) (simp add: reclaim_general_pair retire_one)

lemma reclaim_all: "I (fst s) \<Longrightarrow> I (fst (fold reclaim_general xs s))"
  by (induction xs arbitrary: s) (simp_all add: reclaim)

lemma slot: "I m \<Longrightarrow> I (fst (request_slot m kind))"
  using reclaim_all [of "(m, None)"] by (simp add: request_slot_def Let_def retire_one)

lemma request: "I m \<Longrightarrow> I (fst (call_model_request m kind target second))"
proof -
  assume I: "I m"
  define tg where "tg = (if kind = CALL_TXN_DIAL \<or> kind = CALL_TXN_HANGUP then 0 else target)"
  define sup where "sup = (if kind = CALL_TXN_DIAL then request_supersede m second else Some m)"
  have sup: "sup = Some m1 \<Longrightarrow> I m1" for m1
    using I supersede by (auto simp: sup_def split: if_splits)
  have "I (fst (case request_slot m1 kind of (m2, None) \<Rightarrow> (m2, 0)
          | (m2, Some s) \<Rightarrow> request_admit m2 kind tg second s))"
    if "I m1" "kind \<noteq> CALL_TXN_NONE" for m1
  proof (cases "request_slot m1 kind")
    case (Pair m2 s)
    have "I m2" using slot [OF that(1), of kind] Pair by simp
    then show ?thesis
    proof (cases s)
      case (Some k)
      with request_slot_free Pair have "k < MODEM_MAX_CALL_TRANSACTIONS"
        "kind = CALL_TXN_HANGUP \<longleftrightarrow> k = 0" "\<not> tx_in_use (txn_at m2 k)" by blast+
      then show ?thesis using \<open>I m2\<close> Some Pair that(2)
        by (auto intro!: request_admit simp: tg_def)
    qed (simp add: Pair)
  qed
  then show ?thesis using I sup
    by (auto simp: call_model_request_def Let_def split: option.split simp flip: tg_def sup_def)
qed

end

end
