(* ===== verification/Call_Inputs.thy ===== *)
theory Call_Inputs
  imports Call_Client
begin

text \<open>
  The inputs over the interfaces.  \<open>call_incoming\<close> adds the effects of the id-less indications: a
  new incoming episode and a rewrite of all legs or transactions by edits.  \<open>call_observe\<close> adds the
  allocation of a leg, \<open>call_departure\<close> vacating a leg slot and journalling it, \<open>call_session\<close> the
  shadow, the clock, the projection and the teardown queue.  Which of them an operation needs is
  the point of the split: only an id-bearing event and a CLCC commit need \<open>call_observe\<close>, only a
  released event, a CLCC commit and the limbo clock need \<open>call_departure\<close>, and only the tick and an
  admission need \<open>call_retirement\<close>.
\<close>

section \<open>Vacating a slot\<close>

definition leg_vacate :: "nat \<Rightarrow> call_model \<Rightarrow> call_model" where
  "leg_vacate k m =
     upd_leg k (\<lambda>l. l\<lparr>lg_in_use := False, lg_state := CALL_LEG_UNKNOWN, lg_pending_removal := False\<rparr>)
       (m\<lparr>gen_next := (gen_next m)[unat (lg_id (leg_at m k)) :=
            cm_generation_after (lg_gen (leg_at m k))]\<rparr>)"

lemma retire_owner_key [simp]:
  "lg_id (leg_at (cm_retire_compat_cli_owner m j) k) = lg_id (leg_at m k)"
  "lg_gen (leg_at (cm_retire_compat_cli_owner m j) k) = lg_gen (leg_at m k)"
  "lg_in_use (leg_at (cm_retire_compat_cli_owner m j) k) = lg_in_use (leg_at m k)"
  "lg_state (leg_at (cm_retire_compat_cli_owner m j) k) = lg_state (leg_at m k)"
  "length (legs (cm_retire_compat_cli_owner m j)) = length (legs m)"
  "txns (cm_retire_compat_cli_owner m j) = txns m"
  "gen_next (cm_retire_compat_cli_owner m j) = gen_next m"
  by (cases "k < length (legs m)";
      cases "j < length (legs m)";
      simp add: cm_retire_compat_cli_owner_def leg_at_def upd_leg_def upd_nth_def nth_list_update
        list_update_beyond)+

lemma retire_promoted_key [simp]:
  "lg_id (leg_at (cm_retire_promoted_compat_cli m j) k) = lg_id (leg_at m k)"
  "lg_gen (leg_at (cm_retire_promoted_compat_cli m j) k) = lg_gen (leg_at m k)"
  "lg_in_use (leg_at (cm_retire_promoted_compat_cli m j) k) = lg_in_use (leg_at m k)"
  "length (legs (cm_retire_promoted_compat_cli m j)) = length (legs m)"
  "txns (cm_retire_promoted_compat_cli m j) = txns m"
  by (simp_all add: cm_retire_promoted_compat_cli_def split: option.split)

lemma remove_leg_vacate:
  "cm_remove_leg m k =
     (let m1 = cm_retire_compat_cli_owner (cm_touch_shadow m) k
      in clcc_bump_rev (leg_vacate k
           (cm_unbind_pending_mt m1 (lg_id (leg_at m1 k)) (lg_gen (leg_at m1 k)))))"
  by (simp add: cm_remove_leg_def leg_vacate_def clcc_bump_rev_def Let_def)

lemma evict_leg_vacate:
  "clcc_evict_leg m k =
     (let m0 = cm_touch_shadow m; l = leg_at m0 k;
          m2 = cm_latch_terminal (snd (cm_take_pending_terminal m0 (lg_id l) (lg_gen l))) l
                 (fst (cm_take_pending_terminal m0 (lg_id l) (lg_gen l)));
          m3 = (if lg_state l = CALL_LEG_ACTIVE then cm_retire_promoted_compat_cli m2 k else m2);
          m5 = cm_unbind_pending_mt (cm_retire_compat_cli_owner m3 k) (lg_id l) (lg_gen l)
      in clcc_bump_rev (leg_vacate k m5))"
proof -
  have latch: "leg_at (cm_latch_terminal m' l c) = leg_at m'" for m' l c
    by (simp add: cm_latch_terminal_def latch_route_def Let_def fun_eq_iff)
      (simp add: leg_at_def)
  have eq: "(\<lambda>l. l\<lparr>lg_in_use := False, lg_pending_removal := False, lg_state := CALL_LEG_UNKNOWN\<rparr>) =
            (\<lambda>l. l\<lparr>lg_in_use := False, lg_state := CALL_LEG_UNKNOWN, lg_pending_removal := False\<rparr>)"
    by (rule ext, rule call_leg.equality) simp_all
  show ?thesis
    by (simp add: clcc_evict_leg_def leg_vacate_def Let_def case_prod_unfold eq latch)
qed

section \<open>Observations\<close>

definition row_ok :: "call_leg \<Rightarrow> bool" where
  "row_ok r \<longleftrightarrow> 1 \<le> lg_id r \<and> lg_id r \<le> 7 \<and> length (lg_number r) \<le> MODEM_PHONE_MAX"

text \<open>What a function of the episode record may do to a fresh episode.\<close>

definition mt_shape :: "(call_pending_mt \<Rightarrow> call_pending_mt) \<Rightarrow> bool" where
  "mt_shape f \<longleftrightarrow>
     (\<forall>p. mt_active (f p) = mt_active p \<and> mt_generation (f p) = mt_generation p \<and>
          mt_bound_valid (f p) = mt_bound_valid p \<and>
          (length (mt_number p) \<le> MODEM_PHONE_MAX \<longrightarrow>
           length (mt_number (f p)) \<le> MODEM_PHONE_MAX))"

lemma mt_edit_shape: "mt_shape f \<Longrightarrow> mt_edit p (f p)"
  by (simp add: mt_shape_def mt_edit_def mt_ok_def)

lemma leg_edit_simps [simp]:
  "leg_edit l (l\<lparr>lg_mt_cli_valid := b\<rparr>)" "leg_edit l (l\<lparr>lg_was_answered := b\<rparr>)"
  "leg_edit l (l\<lparr>lg_mt_episode := e\<rparr>)" "leg_edit l (l\<lparr>lg_pending_removal := b\<rparr>)"
  "leg_edit l (l\<lparr>lg_incoming_diverted := b, lg_dir := d\<rparr>)"
  "leg_edit l (l\<lparr>lg_published_role := s\<rparr>)"
  "leg_edit l (l\<lparr>lg_pending_removal := b, lg_first_removal_ms := t\<rparr>)"
  by (simp_all add: leg_edit_def leg_key_def)

lemma leg_edit_state:
  "lg_state l \<noteq> CALL_LEG_RELEASING \<Longrightarrow> leg_edit l (l\<lparr>lg_state := s\<rparr>)"
  "lg_state l \<noteq> CALL_LEG_RELEASING \<Longrightarrow> leg_edit l (event_touch_leg s d now l)"
  by (simp_all add: leg_edit_def leg_key_def event_touch_leg_def)

lemma leg_edit_cli:
  "length n \<le> MODEM_PHONE_MAX \<Longrightarrow>
     leg_edit l (l\<lparr>lg_number := n, lg_meta_valid := b, lg_cli_withheld := c, lg_mt_cli_valid := d\<rparr>)"
  by (simp add: leg_edit_def leg_key_def)

lemma leg_edit_meta: "row_ok row \<Longrightarrow> leg_edit l (clcc_row_meta row releasing now l)"
  by (simp add: leg_edit_def leg_key_def clcc_row_meta_def row_ok_def Let_def)

locale call_incoming = call_engine +
  assumes edit_all: "I m \<Longrightarrow> (\<And>t. txn_edit t (tf t)) \<Longrightarrow>
      (\<And>t. tx_bound_id (tf t) = tx_bound_id t \<and> tx_bound_gen (tf t) = tx_bound_gen t) \<Longrightarrow>
      I (m\<lparr>txns := map tf (txns m)\<rparr>)"
    and leg_all: "I m \<Longrightarrow> (\<And>l. leg_edit l (lf l)) \<Longrightarrow> I (m\<lparr>legs := map lf (legs m)\<rparr>)"
    and open_episode: "I m \<Longrightarrow> mt_shape h' \<Longrightarrow> I (mt_open_episode h' m)"
    and number: "I m \<Longrightarrow> length (mt_number (pending_mt m)) \<le> MODEM_PHONE_MAX"
begin

lemma retire_owner: "I m \<Longrightarrow> I (cm_retire_compat_cli_owner m k)"
  by (simp add: cm_retire_compat_cli_owner_def latch leg)

lemma retire_promoted: "I m \<Longrightarrow> I (cm_retire_promoted_compat_cli m k)"
  by (simp add: cm_retire_promoted_compat_cli_def retire_owner split: option.split)

lemma bind_observation: "I m \<Longrightarrow> I (cm_bind_episode_observation m k)"
proof -
  assume I: "I m"
  let ?l = "leg_at m k"
  let ?b = "\<lambda>t. if episode_txn_binds m ?l t
     then t\<lparr>tx_target_id := lg_id ?l, tx_target_gen := lg_gen ?l\<rparr> else t"
  have "txn_edit t (?b t)" for t
    by (auto simp: episode_txn_binds_def episode_txn_matches_def Let_def intro!: txn_edit_target
        split: if_splits call_txn_kind.splits)
  then have "I (m\<lparr>txns := map ?b (txns m)\<rparr>)" by (rule edit_all [OF I]) simp
  then show ?thesis using I
    by (simp add: cm_bind_episode_observation_def Let_def episode mt_edit_bound)
qed

lemma bind_leg: "I m \<Longrightarrow> mt_active (pending_mt m) \<Longrightarrow> I (mt_bind_leg m k)"
  by (simp add: mt_bind_leg_def episode mt_edit_bound)

lemma copy_metadata: "I m \<Longrightarrow> I (cm_pending_mt_copy_metadata m k)"
proof -
  assume I: "I m"
  let ?m1 = "upd_leg k (\<lambda>l. l\<lparr>lg_mt_episode := mt_generation (pending_mt m)\<rparr>) m"
  have 1: "I ?m1" by (simp add: leg I)
  then have "I (?m1\<lparr>legs := map (\<lambda>l. l\<lparr>lg_mt_cli_valid := False\<rparr>) (legs ?m1)\<rparr>)"
    by (rule leg_all) simp
  then show ?thesis using I 1 number [OF I]
    by (simp add: cm_pending_mt_copy_metadata_def Let_def leg leg_edit_cli)
qed

lemma copy_metadata_mt [simp]: "pending_mt (cm_pending_mt_copy_metadata m k) = pending_mt m"
  by (simp add: cm_pending_mt_copy_metadata_def Let_def)

lemma track: "I m \<Longrightarrow> I (cm_pending_mt_track m k)"
  by (simp add: cm_pending_mt_track_def Let_def bind_leg copy_metadata episode)

lemma bind_existing: "I m \<Longrightarrow> I (cm_pending_mt_bind_existing m)"
  by (auto simp: cm_pending_mt_bind_existing_def bind_leg copy_metadata split: list.split)

lemma promote: "I m \<Longrightarrow> I (promote_held m)"
proof (cases "txn_find_role m CALL_LEG_HELD")
  case (Some k)
  assume "I m"
  have "lg_state (leg_at m k) = CALL_LEG_HELD"
    using txn_find_role_SomeD [OF Some] by (simp add: leg_at_def)
  then have "I (upd_leg k (\<lambda>l. l\<lparr>lg_state := CALL_LEG_ACTIVE\<rparr>) m)"
    by (intro leg \<open>I m\<close> leg_edit_state) simp
  then show ?thesis by (simp add: promote_held_def Some bump_rev latch)
qed (simp add: promote_held_def)

lemma connected: "I m \<Longrightarrow> I (event_connected k m)"
  by (simp add: event_connected_def Let_def clear latch leg)

lemma event_update: "I m \<Longrightarrow> I (fst (on_event_update k st dir m))"
proof -
  assume I: "I m"
  define m1 where "m1 = (if lg_pending_removal (leg_at m k)
      then cm_raise_reason (upd_leg k (\<lambda>l. l\<lparr>lg_pending_removal := False\<rparr>) m) CALL_RC_PENDING_REMOVAL
      else m)"
  have "I m1" unfolding m1_def using I by (simp add: raise leg)
  have "lg_state (leg_at m1 k) = lg_state (leg_at m k)"
    by (cases "k < length (legs m)")
      (simp_all add: m1_def leg_at_def upd_leg_def upd_nth_def list_update_beyond)
  then have "lg_state (leg_at m k) \<noteq> CALL_LEG_RELEASING \<Longrightarrow>
      I (upd_leg k (event_touch_leg st dir (now_ms m1)) m1)"
    using \<open>I m1\<close> by (intro leg leg_edit_state) simp_all
  then have "lg_state (leg_at m k) \<noteq> CALL_LEG_RELEASING \<Longrightarrow>
      I (cm_pending_mt_track (cm_bind_episode_observation
           (upd_leg k (event_touch_leg st dir (now_ms m1)) m1) k) k)"
    by (intro track bind_observation)
  then show ?thesis using I
    by (auto simp: on_event_update_def Let_def connected simp flip: m1_def)
qed

lemma row_state: "I m \<Longrightarrow> lg_state (leg_at m k) \<noteq> CALL_LEG_RELEASING \<Longrightarrow> I (clcc_row_state row k m)"
  by (simp add: clcc_row_state_def Let_def clear latch leg bump_rev leg_edit_state)

lemma confirm_episode: "I m \<Longrightarrow> I (clcc_confirm_episode m)"
proof -
  assume I: "I m"
  have ed: "mt_edit p (p\<lparr>mt_clcc_absent_snapshots := n\<rparr>)" for p n
    by (simp add: mt_edit_def mt_ok_def)
  have "I (upd_mt (\<lambda>_. mt_zero) m')" if "I m'" for m' by (intro episode that) simp
  then have "I m' \<Longrightarrow> I (m'\<lparr>pending_mt := mt_zero\<rparr>)" for m' by (simp add: upd_mt_def)
  then show ?thesis using I ed by (auto simp: clcc_confirm_episode_def Let_def intro!: episode)
qed

lemma no_leg_resolve:
  "I m \<Longrightarrow> I (cm_resolve_no_leg_after_clcc m)"
proof -
  assume I: "I m"
  have "I m' \<Longrightarrow> I (no_leg_resolve_one i m')" for m' i
    by (auto simp: no_leg_resolve_one_def Let_def
        intro!: clear_for_token edit route_setup txn_edit_settle_output(4))
  then have "I (for_each MODEM_MAX_CALL_TRANSACTIONS no_leg_resolve_one m)"
    by (intro for_each_inv [where P = I] I)
  then show ?thesis by (simp add: cm_resolve_no_leg_after_clcc_def Let_def clear latch)
qed

lemma tombstone_resolve: "I m \<Longrightarrow> I (cm_resolve_tombstones_after_clcc m)"
  unfolding cm_resolve_tombstones_after_clcc_def
  by (rule for_each_inv [where P = I]) (auto simp: tombstone_resolve_one_def Let_def intro!: edit)

lemma incoming_reset: "I m \<Longrightarrow> I (incoming_result_reset m)"
  by (simp add: incoming_result_reset_def clear latch)

lemma ring: "I m \<Longrightarrow> I (call_model_on_ring m)"
  unfolding call_model_on_ring_def Let_def
  by (intro incoming_reset episode open_episode touch mt_edit_shape) (simp_all add: mt_shape_def)

lemma clip: "I m \<Longrightarrow> I (call_model_on_clip m number cli)"
  unfolding call_model_on_clip_def Let_def
  by (intro bind_existing incoming_reset episode open_episode touch mt_edit_shape)
    (simp_all add: mt_shape_def split: option.split)

lemma diverted: "I m \<Longrightarrow> I (call_model_on_incoming_diverted m)"
  unfolding call_model_on_incoming_diverted_def Let_def
  by (intro bind_existing episode open_episode touch mt_edit_shape) (simp_all add: mt_shape_def)

lemma bare_final: "I m \<Longrightarrow> I (call_model_on_bare_final m r supp)"
proof -
  assume I: "I m"
  have rec: "I (bare_final_record m' r)" if "I m'" for m'
  proof (cases "bare_final_match m'")
    case None
    then show ?thesis using that
      by (simp add: bare_final_record_def) (intro impI, erule quiet, simp add: quiet_def)
  next
    case (Some ti)
    then have "bare_final_eligible (txn_at m' ti)"
      by (auto simp: bare_final_match_def split: list.splits dest!: arg_cong [where f = set])
    then have "txn_edit (txn_at m' ti)
        ((\<lambda>t. t\<lparr>tx_result := r, tx_state := TXN_UNCERTAIN\<rparr>) (txn_at m' ti))"
      by (cases "tx_state (txn_at m' ti)")
        (auto simp: bare_final_eligible_def less_call_txn_state_def less_eq_call_txn_state_def
          txn_edit_def txn_ok_def txn_flight_def txn_is_terminal_def)
    then have "I (upd_txn ti (\<lambda>t. t\<lparr>tx_result := r, tx_state := TXN_UNCERTAIN\<rparr>) m')"
      by (intro edit that) simp_all
    then show ?thesis using Some
      by (simp add: bare_final_record_def Let_def case_prod_unfold)
        (erule quiet, simp add: quiet_def)
  qed
  show ?thesis unfolding call_model_on_bare_final_def Let_def
    by (auto intro!: I clear latch touch raise rec)
qed

end

locale call_observe = call_incoming +
  assumes alloc: "I m \<Longrightarrow> 1 \<le> i \<Longrightarrow> i \<le> 7 \<Longrightarrow> cm_find_leg_by_id m i = None \<Longrightarrow>
      I (fst (cm_alloc_leg m i))"
    and rows: "I m \<Longrightarrow> r \<in> set (shadow m) \<Longrightarrow> row_ok r"
begin

lemma event_live: "I m \<Longrightarrow> 1 \<le> i \<Longrightarrow> i \<le> 7 \<Longrightarrow> I (on_event_live m i st dir)"
proof -
  assume a: "I m" "1 \<le> i" "i \<le> 7"
  have step: "I (let (m2, changed) = on_event_update k st dir m1;
                 m3 = (if fresh \<or> changed then clcc_bump_rev m2 else m2)
             in model_reconcile_txns m3)" if "I m1" for m1 k fresh
    using event_update [OF that, of k st dir]
    by (simp add: Let_def case_prod_unfold reconcile bump_rev)
  show ?thesis
  proof (cases "cm_find_leg_by_id m i")
    case None
    then have "I (fst (cm_alloc_leg m i))" using a by (intro alloc)
    then show ?thesis using None step [of "fst (cm_alloc_leg m i)" _ True]
      by (cases "cm_alloc_leg m i") (simp add: on_event_live_def split: option.split)
  next
    case (Some k)
    then show ?thesis using step [OF a(1), of k False] by (simp add: on_event_live_def)
  qed
qed

lemma row_leg: "I m \<Longrightarrow> 1 \<le> i \<Longrightarrow> i \<le> 7 \<Longrightarrow> I (fst (clcc_row_leg m i))"
  using alloc [of m i] bump_rev
  by (auto simp: clcc_row_leg_def split: option.split prod.split)

lemma merge_row: "I m \<Longrightarrow> row_ok row \<Longrightarrow> I (clcc_merge_row row m)"
proof -
  assume a: "I m" "row_ok row"
  obtain m1 slot where r: "clcc_row_leg m (lg_id row) = (m1, slot)" by fastforce
  have "I m1" using row_leg [OF a(1), of "lg_id row"] a(2) r by (simp add: row_ok_def)
  then have "I (if lg_state (leg_at m1 k) = CALL_LEG_RELEASING then m1 else clcc_row_state row k m1)"
    for k by (simp add: row_state)
  then show ?thesis using \<open>I m1\<close> a(2) r
    by (cases slot)
      (simp_all add: clcc_merge_row_def Let_def track bind_observation leg leg_edit_meta)
qed

lemma merge: "I m \<Longrightarrow> I (clcc_merge m)"
proof -
  assume I: "I m"
  have "I m' \<Longrightarrow> (\<And>r. r \<in> set rs \<Longrightarrow> row_ok r) \<Longrightarrow> I (fold clcc_merge_row rs m')" for rs m'
    by (induction rs arbitrary: m') (simp_all add: merge_row)
  then show ?thesis unfolding clcc_merge_def using I rows by blast
qed

end

section \<open>Departures\<close>

locale call_departure = call_incoming +
  assumes vacate: "I m \<Longrightarrow> lg_in_use (leg_at m k) \<Longrightarrow>
      k < length (legs m) \<or> k < MODEM_MAX_CALL_LEGS \<Longrightarrow> I (leg_vacate k m)"
    and journal: "I m \<Longrightarrow> length (journal m) < MODEM_MAX_CALL_LEGS \<Longrightarrow> je_in_use e \<Longrightarrow>
      I (m\<lparr>journal := journal m @ [e]\<rparr>)"
    and absences: "I m \<Longrightarrow> I (m\<lparr>absent := ab\<rparr>)"
begin

lemma latch_terminal: "I m \<Longrightarrow> I (cm_latch_terminal m l r)"
proof -
  assume I: "I m"
  have q: "I m' \<Longrightarrow> I (m'\<lparr>journal_incomplete := True\<rparr>)" for m'
    by (erule quiet) (simp add: quiet_def)
  have "I (latch_route m l p)" for p by (simp add: latch_route_def Let_def I route)
  then show ?thesis by (simp add: cm_latch_terminal_def Let_def q journal)
qed

lemma latch_terminal_leg [simp]:
  "leg_at (cm_latch_terminal m l r) k = leg_at m k" "legs (cm_latch_terminal m l r) = legs m"
  by (simp_all add: cm_latch_terminal_def latch_route_def Let_def leg_at_def)

lemma remove_leg:
  "I m \<Longrightarrow> lg_in_use (leg_at m k) \<Longrightarrow> k < length (legs m) \<or> k < MODEM_MAX_CALL_LEGS \<Longrightarrow>
     I (cm_remove_leg m k)"
  by (simp add: remove_leg_vacate Let_def bump_rev vacate unbind retire_owner touch)

lemma evict_leg:
  "I m \<Longrightarrow> lg_in_use (leg_at m k) \<Longrightarrow> k < length (legs m) \<or> k < MODEM_MAX_CALL_LEGS \<Longrightarrow>
     I (clcc_evict_leg m k)"
  by (simp add: evict_leg_vacate Let_def bump_rev vacate unbind retire_owner retire_promoted
      latch_terminal take_cause touch)

lemma absent_step: "i < MODEM_MAX_CALL_LEGS \<Longrightarrow> I (fst s) \<Longrightarrow> I (fst (clcc_absent_step i s))"
  by (cases s) (simp add: clcc_absent_step_def Let_def evict_leg)

lemma absent_set: "I m \<Longrightarrow> I (fst (clcc_absent_set m))"
proof -
  have "(\<forall>i \<in> set xs. i < MODEM_MAX_CALL_LEGS) \<Longrightarrow> I (fst s) \<Longrightarrow> I (fst (fold clcc_absent_step xs s))"
    for xs s by (induction xs arbitrary: s) (simp_all add: absent_step)
  then show "I m \<Longrightarrow> I (fst (clcc_absent_set m))" by (simp add: clcc_absent_set_def)
qed

lemma evict_refs: "I m \<Longrightarrow> I (fold clcc_evict_ref rs m)"
proof (induction rs arbitrary: m)
  case (Cons r rs)
  have "I (clcc_evict_ref r m)"
    using Cons.prems evict_leg
    by (auto simp: clcc_evict_ref_def leg_at_def dest: cm_find_leg_by_id_SomeD split: option.split)
  then show ?case by (simp add: Cons.IH)
qed simp

lemma suspect_refs: "I m \<Longrightarrow> I (fold clcc_suspect_ref rs m)"
  by (induction rs arbitrary: m) (simp_all add: clcc_suspect_ref_def leg split: option.split)

lemma removals: "I m \<Longrightarrow> I (clcc_removals m rv)"
proof -
  assume I: "I m"
  obtain m1 ab where r: "clcc_absent_set m = (m1, ab)" by fastforce
  have "I m1" using absent_set [OF I] r by simp
  have dis: "I m' \<Longrightarrow> I (clcc_disarm m')" for m'
    using quiet [OF absences [of m' "[]"]] by (simp add: clcc_disarm_def quiet_def)
  have rearm: "I m' \<Longrightarrow> I (clcc_rearm m' ab)" for m'
    unfolding clcc_rearm_def Let_def
    by (rule raise, rule quiet [OF absences [where ab = ab], OF suspect_refs])
      (simp_all add: quiet_def)
  show ?thesis using \<open>I m1\<close> dis rearm evict_refs by (simp add: clcc_removals_def r)
qed

lemma limbo: "I m \<Longrightarrow> I (cm_advance_removal_limbo m)"
  unfolding cm_advance_removal_limbo_def
  by (rule for_each_inv [where P = I])
    (simp_all add: removal_limbo_one_def Let_def evict_leg touch)

lemma released: "I m \<Longrightarrow> I (on_event_released m i)"
proof (cases "cm_find_leg_by_id m i")
  case (Some k)
  assume I: "I m"
  let ?l = "leg_at m k"
  let ?m2 = "cm_latch_terminal (snd (cm_take_pending_terminal m (lg_id ?l) (lg_gen ?l))) ?l
      (fst (cm_take_pending_terminal m (lg_id ?l) (lg_gen ?l)))"
  let ?m3 = "if lg_state ?l = CALL_LEG_ACTIVE then cm_retire_promoted_compat_cli ?m2 k else ?m2"
  have k: "k < length (legs m)" "lg_in_use (leg_at m k)"
    using cm_find_leg_by_id_SomeD [OF Some] by (simp_all add: leg_at_def)
  have "I ?m3" using I by (simp add: retire_promoted latch_terminal take_cause)
  then have "I (cm_remove_leg ?m3 k)" by (rule remove_leg) (use k in simp_all)
  then show ?thesis
    by (cases "lg_state ?l = CALL_LEG_ACTIVE")
      (simp_all add: on_event_released_def Some Let_def case_prod_unfold reconcile raise promote)
qed (simp add: on_event_released_def)

end

section \<open>The session inputs\<close>

locale call_session = call_incoming +
  assumes clock: "I m \<Longrightarrow> I (m\<lparr>now_ms := t\<rparr>)"
    and shadow_drop: "I m \<Longrightarrow> I (m\<lparr>shadow_open := b, shadow := []\<rparr>)"
    and shadow_row: "I m \<Longrightarrow> shadow_open m \<Longrightarrow> length (shadow m) < MODEM_MAX_CALL_LEGS \<Longrightarrow>
      row_ok r \<Longrightarrow> \<not> clcc_id_in_shadow m (lg_id r) \<Longrightarrow> I (m\<lparr>shadow := shadow m @ [r]\<rparr>)"
    and queue_drop: "I m \<Longrightarrow> I (m\<lparr>release_queue := drop n (release_queue m)\<rparr>)"
begin

lemma clcc_begin: "I m \<Longrightarrow> I (call_model_clcc_begin m tc)"
  by (drule shadow_drop [where b = True], erule quiet)
    (simp add: call_model_clcc_begin_def Let_def quiet_def)

lemma clcc_row: "I m \<Longrightarrow> I (call_model_clcc_row m i dir mode mpty st n)"
proof -
  assume I: "I m"
  have over: "I (m\<lparr>overflow := True\<rparr>)" using I by (rule quiet) (simp add: quiet_def)
  have id: "1 \<le> i \<and> i \<le> 7" if "\<not> (i = 0 \<or> 7 < i)"
    using that by (simp add: word_le_nat_alt word_less_nat_alt unat_gt_0 Suc_le_eq)
  show ?thesis using I over
    by (auto simp: call_model_clcc_row_def row_ok_def id
        intro!: shadow_row split: option.split)
qed

lemma back_off: "I m \<Longrightarrow> I (clcc_back_off m)"
  by (erule quiet) (simp add: clcc_back_off_def Let_def quiet_def)

lemma clcc_error: "I m \<Longrightarrow> I (call_model_clcc_error m)"
  unfolding call_model_clcc_error_def by (intro back_off shadow_drop)

lemma pop_release: "I m \<Longrightarrow> I (fst (call_model_pop_release m))"
proof -
  assume I: "I m"
  have "\<exists>n. fst (pop_release_loop m rs) = m\<lparr>release_queue := drop n rs\<rparr>" for rs
  proof (induction rs)
    case (Cons r rs)
    have "\<exists>n. m\<lparr>release_queue := rs\<rparr> = m\<lparr>release_queue := drop n (r # rs)\<rparr>"
      by (rule exI [of _ 1]) simp
    moreover have "\<exists>n. fst (pop_release_loop m rs) = m\<lparr>release_queue := drop n (r # rs)\<rparr>"
      using Cons by (metis drop_Suc_Cons)
    ultimately show ?case by simp
  qed simp
  then show ?thesis using queue_drop [OF I] by (metis call_model_pop_release_def)
qed

lemma requeue_release: "I m \<Longrightarrow> I (fst (call_model_requeue_release m r))"
  by (simp add: call_model_requeue_release_def Let_def queue)

end

section \<open>The projector\<close>

locale call_publish = call_incoming +
  assumes journal_drop: "I m \<Longrightarrow> I (m\<lparr>journal := []\<rparr>)"
    and publish: "I m \<Longrightarrow> \<not> proj_inconsistent m \<Longrightarrow> proj_row m = Some pr \<Longrightarrow>
      I (m\<lparr>legs := map (proj_publish_leg m (proj_counts m)) (legs m), published := pr\<rparr>)"
begin

lemma project: "I m \<Longrightarrow> I (fst (call_model_project m))"
proof -
  assume "I m"
  then have I: "I (m\<lparr>journal := []\<rparr>)" by (rule journal_drop)
  show ?thesis using publish [OF I] raise [OF I] I
    by (simp add: call_model_project_def Let_def split: option.split)
qed

end

section \<open>Snapshots\<close>

locale call_snapshot = call_session I + call_observe I for I :: "call_model \<Rightarrow> bool" +
  assumes shadow_close: "I m \<Longrightarrow> I (m\<lparr>shadow_open := False\<rparr>)"
begin

lemma ok_commit_cases:
  "I m \<Longrightarrow> I (fst (clcc_ok_commit m tc)) \<or>
     (\<exists>X rv. I X \<and> fst (clcc_ok_commit m tc) = clcc_removals X rv)"
proof -
  assume I: "I m"
  let ?m1 = "m\<lparr>shadow_open := False\<rparr>"
  let ?m2 = "clcc_accept ?m1"
  have "I ?m1" using I by (rule shadow_close)
  have "I (?m1\<lparr>shadow := []\<rparr>)" using shadow_drop [OF I, of False] by simp
  then have "I (clcc_back_off (?m1\<lparr>shadow := []\<rparr>))" by (rule back_off)
  then have fail: "I (if overflow (clcc_back_off (?m1\<lparr>shadow := []\<rparr>))
      then (clcc_back_off (?m1\<lparr>shadow := []\<rparr>))\<lparr>reconcile_reasons := v\<rparr>
      else clcc_back_off (?m1\<lparr>shadow := []\<rparr>))" for v
    by (simp, intro impI) (erule quiet, simp add: quiet_def)
  have "I ?m2" using \<open>I ?m1\<close> by (rule quiet) (simp add: clcc_accept_def Let_def quiet_def)
  then have mg: "I (clcc_merge ?m2)" by (rule merge)
  then have "I ((clcc_merge ?m2)\<lparr>reconcile_reasons := v\<rparr>)" for v
    by (rule quiet) (simp add: quiet_def)
  then show ?thesis using I fail confirm_episode [OF mg]
    by (auto simp: clcc_ok_commit_def Let_def)
qed

end

section \<open>The tick\<close>

text \<open>What the tick does after it retired the settled transactions.\<close>

definition tick_tail :: "call_model \<Rightarrow> call_model" where
  "tick_tail m1 =
     (let m2 = cm_advance_pending_mt (cm_advance_removal_limbo (model_reconcile_txns m1));
          m3 = (if cm_model_is_consistent m2 then m2\<lparr>reconcile_reasons := 0\<rparr> else m2)
      in tick_clamp_schedule (cm_recompute_fast_window m3))"

lemma tick_split: "call_model_tick m = tick_tail (cm_retire_terminal_txns (cm_advance_tombstone_deadlines m))"
  by (simp add: call_model_tick_def tick_tail_def Let_def)

context call_departure
begin

lemma tick_tail: "I m \<Longrightarrow> I (tick_tail m)"
proof -
  assume I: "I m"
  have zero: "I m' \<Longrightarrow> I (m'\<lparr>pending_mt := mt_zero\<rparr>)" for m'
    using episode [of m' "\<lambda>_. mt_zero"] by (simp add: upd_mt_def)
  have q: "I m' \<Longrightarrow> I (tick_clamp_schedule (cm_recompute_fast_window m'))"
    "I m' \<Longrightarrow> I (m'\<lparr>reconcile_reasons := v\<rparr>)" for m' v
    by (erule quiet, simp add: quiet_def tick_clamp_schedule_def cm_recompute_fast_window_def Let_def)+
  have "I (cm_advance_pending_mt (cm_advance_removal_limbo (model_reconcile_txns m)))" (is "I ?m2")
    by (simp add: cm_advance_pending_mt_def Let_def zero I limbo reconcile)
  then show ?thesis using q by (simp add: tick_tail_def Let_def)
qed

end

locale call_leave = call_retirement I + call_departure I for I :: "call_model \<Rightarrow> bool"
begin

lemma tick: "I m \<Longrightarrow> I (call_model_tick m)"
  by (simp add: tick_split tick_tail retire_all passes)

end

section \<open>The whole API\<close>

locale call_frontend = call_session I + call_admission I for I :: "call_model \<Rightarrow> bool"

locale call_evidence = call_snapshot I + call_departure I for I :: "call_model \<Rightarrow> bool"
begin

lemma event: "I m \<Longrightarrow> I (call_model_on_event m i valid st dir)"
proof -
  assume I: "I m"
  have "1 \<le> i \<and> i \<le> 7" if "i \<noteq> 0" "\<not> 7 < i"
    using that by (simp add: word_le_nat_alt word_less_nat_alt unat_gt_0 Suc_le_eq)
  then show ?thesis using I
    by (simp add: call_model_on_event_def Let_def raise touch released event_live)
qed

lemma ok_commit: "I m \<Longrightarrow> I (fst (clcc_ok_commit m tc))"
  using ok_commit_cases removals by metis

lemma clcc_ok: "I m \<Longrightarrow> I (call_model_clcc_ok m tc)"
proof -
  assume I: "I m"
  have "I (m\<lparr>shadow_open := False, shadow := [], shadow_invalidated := False\<rparr>)"
    by (rule quiet [OF shadow_drop [OF I, of False]]) (simp add: quiet_def)
  then have "I (cm_raise_reason (m\<lparr>shadow_open := False, shadow := [],
      shadow_invalidated := False\<rparr>) CALL_RC_COARSE_FINAL)" by (rule raise)
  then have bad: "I ((cm_raise_reason (m\<lparr>shadow_open := False, shadow := [],
      shadow_invalidated := False\<rparr>) CALL_RC_COARSE_FINAL)\<lparr>next_clcc_ms := v\<rparr>)" for v
    by (rule quiet) (simp add: quiet_def)
  show ?thesis using I bad ok_commit [OF I, of tc]
    by (simp add: call_model_clcc_ok_def Let_def case_prod_unfold reconcile no_leg_resolve
        tombstone_resolve)
qed

end

locale call_client = call_frontend I + call_publish I for I :: "call_model \<Rightarrow> bool"

locale call_recorder = call_evidence I + call_publish I for I :: "call_model \<Rightarrow> bool"

locale call_unpublished = call_evidence I + call_leave I + call_frontend I
  for I :: "call_model \<Rightarrow> bool"

locale call_api = call_unpublished I + call_publish I for I :: "call_model \<Rightarrow> bool"

end
