(* ===== verification/Call_Invariant.thy ===== *)
theory Call_Invariant
  imports Call_Inputs
begin

text \<open>
  The structural invariant of the call model, shown to be kept by every operation by interpreting
  the interfaces on it, and the model as a transition system: its inputs, the runs and the
  reachable states.
\<close>

section \<open>The invariant\<close>

text \<open>The leg table: seven slots, call ids 1..7 used at most once, and the generation of a live leg
  is the current generation of its id, so the pair names at most one live leg.\<close>

definition wf_legs :: "call_leg list \<Rightarrow> u8 list \<Rightarrow> bool" where
  "wf_legs ls gs \<longleftrightarrow>
     length ls = MODEM_MAX_CALL_LEGS \<and> length gs = MODEM_MAX_CALL_LEGS + 1 \<and>
     (\<forall>i < length gs. gs ! i \<noteq> 0) \<and>
     (\<forall>k < length ls. lg_in_use (ls ! k) \<longrightarrow>
        1 \<le> lg_id (ls ! k) \<and> lg_id (ls ! k) \<le> 7 \<and> lg_gen (ls ! k) = gs ! unat (lg_id (ls ! k))) \<and>
     (\<forall>j < length ls. \<forall>k < length ls. lg_in_use (ls ! j) \<longrightarrow> lg_in_use (ls ! k) \<longrightarrow>
        lg_id (ls ! j) = lg_id (ls ! k) \<longrightarrow> j = k) \<and>
     (\<forall>k < length ls. length (lg_number (ls ! k)) \<le> MODEM_PHONE_MAX)"

text \<open>The transaction pool: twelve slots, distinct live tokens, slot 0 reserved for HANGUP.\<close>

definition wf_pool :: "call_txn list \<Rightarrow> bool" where
  "wf_pool ts \<longleftrightarrow>
     length ts = MODEM_MAX_CALL_TRANSACTIONS \<and> (\<forall>i < length ts. txn_ok (ts ! i)) \<and>
     (\<forall>i < length ts. \<forall>j < length ts. tx_in_use (ts ! i) \<longrightarrow> tx_in_use (ts ! j) \<longrightarrow>
        tx_token (ts ! i) = tx_token (ts ! j) \<longrightarrow> i = j) \<and>
     (\<forall>i < length ts. tx_in_use (ts ! i) \<longrightarrow> (tx_kind (ts ! i) = CALL_TXN_HANGUP \<longleftrightarrow> i = 0))"

definition wf_queue :: "call_cleanup_release list \<Rightarrow> bool" where
  "wf_queue q \<longleftrightarrow>
     length q \<le> MODEM_MAX_CALL_LEGS \<and> distinct (map (\<lambda>r. (cr_id r, cr_gen r)) q) \<and>
     (\<forall>r \<in> set q. cr_id r \<noteq> 0)"

definition wf_shadow :: "call_leg list \<Rightarrow> bool" where
  "wf_shadow s \<longleftrightarrow>
     length s \<le> MODEM_MAX_CALL_LEGS \<and> distinct (map lg_id s) \<and> (\<forall>r \<in> set s. row_ok r)"

definition wf_model :: "call_model \<Rightarrow> bool" where
  "wf_model m \<longleftrightarrow>
     wf_legs (legs m) (gen_next m) \<and> wf_pool (txns m) \<and> mt_ok (pending_mt m) \<and>
     mt_episode_next m \<noteq> 0 \<and> next_token m \<noteq> 0 \<and> wf_queue (release_queue m) \<and>
     wf_shadow (shadow m) \<and>
     length (journal m) \<le> MODEM_MAX_CALL_LEGS \<and> (\<forall>e \<in> set (journal m). je_in_use e)"

section \<open>Each effect keeps its part\<close>

lemma generation_after_nonzero [simp]: "cm_generation_after g \<noteq> 0"
  by (simp add: cm_generation_after_def Let_def)

lemma generation_after_neq: "cm_generation_after g \<noteq> g"
  by (auto simp: cm_generation_after_def Let_def)

lemma wf_legs_edit:
  assumes "wf_legs ls gs" and "leg_edit (ls ! k) (f (ls ! k))"
  shows "wf_legs (upd_nth k f ls) gs"
proof (cases "k < length ls")
  case True
  have key: "leg_key (upd_nth k f ls ! i) = leg_key (ls ! i)" if "i < length ls" for i
    using assms(2) that by (cases "k = i") (simp_all add: nth_upd_nth leg_edit_def)
  have num: "length (lg_number (upd_nth k f ls ! i)) \<le> MODEM_PHONE_MAX" if "i < length ls" for i
    using assms that by (cases "k = i") (simp_all add: nth_upd_nth leg_edit_def wf_legs_def)
  show ?thesis using assms(1) key num by (simp add: wf_legs_def leg_key_def)
next
  case False
  then show ?thesis using assms(1) by (simp add: upd_nth_def list_update_beyond)
qed

lemma wf_legs_map:
  assumes "wf_legs ls gs" and "\<And>l. leg_edit l (f l)"
  shows "wf_legs (map f ls) gs"
proof -
  have key: "leg_key (f l) = leg_key l" for l using assms(2) by (simp add: leg_edit_def)
  have "length (lg_number l) \<le> MODEM_PHONE_MAX \<Longrightarrow> length (lg_number (f l)) \<le> MODEM_PHONE_MAX" for l
    using assms(2) by (simp add: leg_edit_def)
  then show ?thesis using assms(1) key by (simp add: wf_legs_def leg_key_def)
qed

lemma id_unat_less: "(i::u8) \<le> 7 \<Longrightarrow> unat i < 8"
  by (simp add: word_le_nat_alt)

lemma wf_legs_alloc:
  assumes wf: "wf_legs ls gs" and free: "k < length ls" and id: "1 \<le> i" "i \<le> 7"
    and new: "\<forall>l \<in> set ls. \<not> (lg_in_use l \<and> lg_id l = i)"
    and l: "lg_in_use l" "lg_id l = i" "lg_gen l = gs ! unat i" "lg_number l = ''''"
  shows "wf_legs (upd_nth k (\<lambda>_. l) ls) gs"
  using assms by (auto simp: wf_legs_def nth_upd_nth)

lemma wf_legs_vacate:
  assumes wf: "wf_legs ls gs" and k: "k < length ls" "lg_in_use (ls ! k)"
    and f: "\<And>l. \<not> lg_in_use (f l) \<and> lg_number (f l) = lg_number l"
  shows "wf_legs (upd_nth k f ls)
           (gs[unat (lg_id (ls ! k)) := cm_generation_after (lg_gen (ls ! k))])"
proof -
  have id: "unat (lg_id (ls ! j)) \<noteq> unat (lg_id (ls ! k))"
    if "j < length ls" "j \<noteq> k" "lg_in_use (ls ! j)" for j
    using wf k that unfolding wf_legs_def by (metis word_unat_eq_iff)
  let ?gs = "gs[unat (lg_id (ls ! k)) := cm_generation_after (lg_gen (ls ! k))]"
  have "?gs ! i \<noteq> 0" if "i < length gs" for i
    using wf that by (cases "unat (lg_id (ls ! k)) = i") (simp_all add: wf_legs_def)
  moreover have "gs ! unat (lg_id (ls ! j)) = ?gs ! unat (lg_id (ls ! j))"
    if "j < length ls" "j \<noteq> k" "lg_in_use (ls ! j)" for j
    using id [OF that] by simp
  ultimately show ?thesis using wf k f by (auto simp: wf_legs_def nth_upd_nth)
qed

lemma wf_pool_edit:
  assumes "wf_pool ts" and "txn_edit (ts ! k) (f (ts ! k))"
  shows "wf_pool (upd_nth k f ts)"
proof (cases "k < length ts")
  case True
  have "txn_edit (ts ! i) (upd_nth k f ts ! i)" if "i < length ts" for i
    using assms(2) that by (cases "k = i") (simp_all add: nth_upd_nth)
  then show ?thesis using assms(1) by (simp add: wf_pool_def txn_edit_def)
next
  case False
  then show ?thesis using assms(1) by (simp add: upd_nth_def list_update_beyond)
qed

lemma wf_pool_map: "wf_pool ts \<Longrightarrow> (\<And>t. txn_edit t (f t)) \<Longrightarrow> wf_pool (map f ts)"
  by (simp add: wf_pool_def txn_edit_def)

lemma wf_pool_drop: "wf_pool ts \<Longrightarrow> wf_pool (upd_nth k (\<lambda>_. txn_zero) ts)"
  by (auto simp: wf_pool_def nth_upd_nth)

lemma wf_pool_admit:
  assumes "wf_pool ts" and "k < length ts" and "\<forall>t \<in> set ts. \<not> (tx_in_use t \<and> tx_token t = tok)"
    and "tx_in_use t" "tx_token t = tok" "tx_kind t = CALL_TXN_HANGUP \<longleftrightarrow> k = 0" "txn_ok t"
  shows "wf_pool (upd_nth k (\<lambda>_. t) ts)"
  using assms by (auto simp: wf_pool_def nth_upd_nth)

lemma wf_queue_release:
  assumes "wf_queue (release_queue m)"
  shows "wf_queue (release_queue (cm_queue_release m i g rec))"
proof (cases "find_idx (\<lambda>q. cr_id q = i \<and> cr_gen q = g) (release_queue m)")
  case None
  have "\<forall>q \<in> set (release_queue m). \<not> (cr_id q = i \<and> cr_gen q = g)"
    using None by (simp add: find_idx_None_iff)
  then show ?thesis using assms
    by (auto simp: cm_queue_release_def wf_queue_def None)
next
  case (Some k)
  let ?f = "\<lambda>q. q\<lparr>cr_recover_held := cr_recover_held q \<or> rec\<rparr>"
  have "map (\<lambda>r. (cr_id r, cr_gen r)) (upd_nth k ?f q) = map (\<lambda>r. (cr_id r, cr_gen r)) q"
    for q :: "call_cleanup_release list"
    by (simp add: list_eq_iff_nth_eq nth_upd_nth)
  moreover have "(\<forall>r \<in> set (upd_nth k ?f q). cr_id r \<noteq> 0)" if "\<forall>r \<in> set q. cr_id r \<noteq> 0"
    for q :: "call_cleanup_release list"
    using that by (simp add: all_set_nth nth_upd_nth)
  ultimately show ?thesis using assms Some
    by (simp add: cm_queue_release_def wf_queue_def) blast
qed

lemma wf_queue_drop: "wf_queue q \<Longrightarrow> wf_queue (drop n q)"
  by (auto simp: wf_queue_def drop_map [symmetric] dest: in_set_dropD)

section \<open>The interfaces on the invariant\<close>

lemma open_episode_wf:
  assumes "mt_ok (pending_mt m)" "mt_episode_next m \<noteq> 0" "mt_shape h"
  shows "mt_ok (pending_mt (mt_open_episode h m)) \<and> mt_episode_next (mt_open_episode h m) \<noteq> 0"
  using assms
  by (auto simp: mt_open_episode_def cm_alloc_episode_gen_def Let_def mt_shape_def mt_ok_def mt_zero_def)

lemma open_episode_other [simp]:
  "legs (mt_open_episode h m) = legs m" "txns (mt_open_episode h m) = txns m"
  "gen_next (mt_open_episode h m) = gen_next m"
  "release_queue (mt_open_episode h m) = release_queue m"
  "journal (mt_open_episode h m) = journal m" "shadow (mt_open_episode h m) = shadow m"
  "next_token (mt_open_episode h m) = next_token m"
  "published (mt_open_episode h m) = published m"
  by (simp_all add: mt_open_episode_def cm_alloc_episode_gen_def Let_def)

lemma alloc_token_nonzero: "length (txns m) = MODEM_MAX_CALL_TRANSACTIONS \<Longrightarrow>
    \<exists>nxt. nxt \<noteq> 0 \<and> snd (cm_alloc_token m) = m\<lparr>next_token := nxt\<rparr>"
  using alloc_token_fresh [of m] by auto

lemma alloc_leg_wf:
  assumes "wf_model m" "1 \<le> i" "i \<le> 7" "cm_find_leg_by_id m i = None"
  shows "wf_model (fst (cm_alloc_leg m i))"
proof (cases "find_idx (\<lambda>l. \<not> lg_in_use l) (legs m)")
  case None
  then show ?thesis using assms(1) by (simp add: cm_alloc_leg_def wf_model_def)
next
  case (Some k)
  have "\<forall>l \<in> set (legs m). \<not> (lg_in_use l \<and> lg_id l = i)"
    using assms(4) by (simp add: cm_find_leg_by_id_def find_idx_None_iff)
  moreover have "k < length (legs m)" using find_idx_SomeD [OF Some] by simp
  ultimately show ?thesis using assms Some
    by (simp add: cm_alloc_leg_def wf_model_def Let_def upd_leg_def)
      (rule wf_legs_alloc, simp_all add: leg_zero_def)
qed

lemma admit_wf:
  assumes "wf_model m" "slot < MODEM_MAX_CALL_TRANSACTIONS" "txn_at m slot = txn_zero"
    and "kind \<noteq> CALL_TXN_NONE" "kind = CALL_TXN_HANGUP \<longleftrightarrow> slot = 0" "tok \<noteq> 0"
    and "\<not> cm_token_live m tok"
  shows "wf_model (upd_txn slot (\<lambda>t. t\<lparr>tx_in_use := True, tx_token := tok, tx_kind := kind,
           tx_state := TXN_PENDING, tx_second_mo := second,
           tx_result := MODEM_CALL_RESULT_NONE\<rparr>) m)"
proof -
  let ?t = "txn_zero\<lparr>tx_in_use := True, tx_token := tok, tx_kind := kind,
           tx_state := TXN_PENDING, tx_second_mo := second, tx_result := MODEM_CALL_RESULT_NONE\<rparr>"
  have len: "slot < length (txns m)" using assms(1,2) by (simp add: wf_model_def wf_pool_def)
  have "wf_pool (upd_nth slot (\<lambda>_. ?t) (txns m))"
  proof (rule wf_pool_admit)
    show "wf_pool (txns m)" using assms(1) by (simp add: wf_model_def)
    show "\<forall>t \<in> set (txns m). \<not> (tx_in_use t \<and> tx_token t = tok)"
      using assms(7) by (auto simp: cm_token_live_def list_ex_iff)
    show "txn_ok ?t" using assms(4,6) by (simp add: txn_ok_def txn_flight_def txn_zero_def)
  qed (use assms len in simp_all)
  moreover have "upd_nth slot (\<lambda>_. ?t) (txns m) = upd_nth slot (\<lambda>t. t\<lparr>tx_in_use := True,
      tx_token := tok, tx_kind := kind, tx_state := TXN_PENDING, tx_second_mo := second,
      tx_result := MODEM_CALL_RESULT_NONE\<rparr>) (txns m)"
    using assms(3) by (simp add: upd_nth_def txn_at_def)
  ultimately show ?thesis using assms(1) by (simp add: wf_model_def upd_txn_def)
qed

lemma wf_vacate:
  "wf_model m \<Longrightarrow> lg_in_use (leg_at m k) \<Longrightarrow> k < length (legs m) \<Longrightarrow> wf_model (leg_vacate k m)"
  unfolding leg_vacate_def upd_leg_def leg_at_def wf_model_def
  by (simp add: wf_legs_vacate)

interpretation wf: call_api wf_model
proof unfold_locales
  fix m m' :: call_model and h :: "call_projection \<Rightarrow> call_projection"
    and h' :: "call_pending_mt \<Rightarrow> call_pending_mt" and lf :: "call_leg \<Rightarrow> call_leg"
    and tf :: "call_txn \<Rightarrow> call_txn" and i g :: u8 and rec k ti slot kind tok second ab t n r e b
    and pr :: call_projection
  assume wf: "wf_model m"
  show "quiet m m' \<Longrightarrow> wf_model m'" using wf by (simp add: wf_model_def quiet_fields)
  show "latch_only h \<Longrightarrow> wf_model (upd_pub h m)" using wf by (simp add: wf_model_def)
  show "mt_edit (pending_mt m) (h' (pending_mt m)) \<Longrightarrow> wf_model (upd_mt h' m)"
    using wf by (simp add: wf_model_def mt_edit_def)
  show "wf_model (cm_queue_release m i g rec)"
    using wf wf_queue_release [of m i g rec]
    by (simp add: wf_model_def) (simp add: cm_queue_release_def split: option.split)
  show "leg_edit (leg_at m k) (lf (leg_at m k)) \<Longrightarrow> wf_model (upd_leg k lf m)"
    using wf by (simp add: wf_model_def upd_leg_def leg_at_def wf_legs_edit)
  show "txn_edit (txn_at m ti) (tf (txn_at m ti)) \<Longrightarrow> wf_model (upd_txn ti tf m)"
    using wf by (simp add: wf_model_def upd_txn_def txn_at_def wf_pool_edit)
  show zero: "wf_model (upd_txn ti (\<lambda>_. txn_zero) m)"
    using wf by (simp add: wf_model_def upd_txn_def wf_pool_drop)
  show "cm_txn_retirement_eligible m (txn_at m ti) \<Longrightarrow> wf_model (upd_txn ti (\<lambda>_. txn_zero) m)"
    by (rule zero)
  show "wf_model (snd (cm_alloc_token m))"
    using wf alloc_token_nonzero [of m] by (auto simp: wf_model_def wf_pool_def)
  show "wf_model (upd_txn slot (\<lambda>t. t\<lparr>tx_in_use := True, tx_token := tok, tx_kind := kind,
           tx_state := TXN_PENDING, tx_second_mo := second,
           tx_result := MODEM_CALL_RESULT_NONE\<rparr>) m)"
    if "slot < MODEM_MAX_CALL_TRANSACTIONS" "slot < length (txns m) \<Longrightarrow> txn_at m slot = txn_zero"
      "kind \<noteq> CALL_TXN_NONE" "kind = CALL_TXN_HANGUP \<longleftrightarrow> slot = 0"
      "length (txns m) = MODEM_MAX_CALL_TRANSACTIONS \<Longrightarrow> tok \<noteq> 0 \<and> \<not> cm_token_live m tok"
    by (rule admit_wf) (use wf that in \<open>simp_all add: wf_model_def wf_pool_def\<close>)
  show "1 \<le> i \<Longrightarrow> i \<le> 7 \<Longrightarrow> cm_find_leg_by_id m i = None \<Longrightarrow> wf_model (fst (cm_alloc_leg m i))"
    by (rule alloc_leg_wf [OF wf])
  show "wf_model (m\<lparr>txns := map tf (txns m)\<rparr>)" if "\<And>t. txn_edit t (tf t)"
    using wf that by (simp add: wf_model_def wf_pool_map)
  show "wf_model (m\<lparr>legs := map lf (legs m)\<rparr>)" if "\<And>l. leg_edit l (lf l)"
    using wf that by (simp add: wf_model_def wf_legs_map)
  show "mt_shape h' \<Longrightarrow> wf_model (mt_open_episode h' m)"
    using wf open_episode_wf [of m h'] by (simp add: wf_model_def)
  show "length (mt_number (pending_mt m)) \<le> MODEM_PHONE_MAX"
    using wf by (simp add: wf_model_def mt_ok_def)
  show "r \<in> set (shadow m) \<Longrightarrow> row_ok r" using wf by (simp add: wf_model_def wf_shadow_def)
  show "lg_in_use (leg_at m k) \<Longrightarrow> k < length (legs m) \<or> k < MODEM_MAX_CALL_LEGS \<Longrightarrow>
      wf_model (leg_vacate k m)"
    using wf by (intro wf_vacate) (auto simp: wf_model_def wf_legs_def)
  show "length (journal m) < MODEM_MAX_CALL_LEGS \<Longrightarrow> je_in_use e \<Longrightarrow>
      wf_model (m\<lparr>journal := journal m @ [e]\<rparr>)"
    using wf by (auto simp: wf_model_def)
  show "wf_model (m\<lparr>absent := ab\<rparr>)" "wf_model (m\<lparr>now_ms := t\<rparr>)" "wf_model (m\<lparr>journal := []\<rparr>)"
    using wf by (simp_all add: wf_model_def)
  show "wf_model (m\<lparr>shadow_open := b, shadow := []\<rparr>)" "wf_model (m\<lparr>shadow_open := False\<rparr>)"
    using wf by (simp_all add: wf_model_def wf_shadow_def)
  show "length (shadow m) < MODEM_MAX_CALL_LEGS \<Longrightarrow> row_ok r \<Longrightarrow> \<not> clcc_id_in_shadow m (lg_id r) \<Longrightarrow>
      wf_model (m\<lparr>shadow := shadow m @ [r]\<rparr>)"
    using wf by (auto simp: wf_model_def wf_shadow_def clcc_id_in_shadow_def list_ex_iff)
  show "wf_model (m\<lparr>legs := map (proj_publish_leg m (proj_counts m)) (legs m), published := pr\<rparr>)"
    using wf by (simp add: wf_model_def wf_legs_map proj_publish_leg_def)
  show "wf_model (m\<lparr>release_queue := drop n (release_queue m)\<rparr>)"
    using wf by (simp add: wf_model_def wf_queue_drop)
qed

end
