(* ===== verification/Call_System.thy ===== *)
theory Call_System
  imports Call_Invariant
begin

text \<open>
  The call model as a transition system.  \<open>call_input\<close> lists the entry points of the component
  with their arguments, \<open>call_apply\<close> runs one, and \<open>call_step\<close> is one admissible step.  The only
  obligation of the caller is the one \<open>modem_service.c\<close> meets by construction: a command can only
  time out after it was sent, so a timeout is reported for a dispatched transaction
  (\<open>send_model_command\<close> reports the dispatch right after the write, \<open>process_timeout\<close> fires for
  the active command only).
\<close>

section \<open>Inputs and steps\<close>

datatype call_input =
  In_Set_Now u32
| In_Request call_txn_kind u8 bool
| In_Dispatched u32
| In_Command_Result u32 modem_cmd_result
| In_Dispatch_Guard u32
| In_Cancel u32
| In_New_Call_Abandoned
| In_Event u8 bool call_leg_state call_direction
| In_Ring
| In_Clip "string option" u8
| In_Diverted
| In_Bare_Final modem_call_result bool
| In_Clcc_Begin u32
| In_Clcc_Row u8 call_direction call_mode u8 call_leg_state "string option"
| In_Clcc_Ok u32
| In_Clcc_Error
| In_Tick
| In_Project
| In_Pop_Release
| In_Requeue_Release call_cleanup_release

fun call_apply :: "call_input \<Rightarrow> call_model \<Rightarrow> call_model" where
  "call_apply (In_Set_Now t) m = call_model_set_now m t"
| "call_apply (In_Request k t s) m = fst (call_model_request m k t s)"
| "call_apply (In_Dispatched tok) m = call_model_txn_dispatched m tok"
| "call_apply (In_Command_Result tok r) m = call_model_txn_command_result m tok r"
| "call_apply (In_Dispatch_Guard tok) m = fst (call_model_txn_dispatch_guard m tok)"
| "call_apply (In_Cancel tok) m = call_model_txn_cancel m tok"
| "call_apply In_New_Call_Abandoned m = call_model_new_call_abandoned m"
| "call_apply (In_Event i v st d) m = call_model_on_event m i v st d"
| "call_apply In_Ring m = call_model_on_ring m"
| "call_apply (In_Clip n c) m = call_model_on_clip m n c"
| "call_apply In_Diverted m = call_model_on_incoming_diverted m"
| "call_apply (In_Bare_Final r s) m = call_model_on_bare_final m r s"
| "call_apply (In_Clcc_Begin tc) m = call_model_clcc_begin m tc"
| "call_apply (In_Clcc_Row i d md mp st n) m = call_model_clcc_row m i d md mp st n"
| "call_apply (In_Clcc_Ok tc) m = call_model_clcc_ok m tc"
| "call_apply In_Clcc_Error m = call_model_clcc_error m"
| "call_apply In_Tick m = call_model_tick m"
| "call_apply In_Project m = fst (call_model_project m)"
| "call_apply In_Pop_Release m = fst (call_model_pop_release m)"
| "call_apply (In_Requeue_Release r) m = fst (call_model_requeue_release m r)"

fun call_admissible :: "call_input \<Rightarrow> call_model \<Rightarrow> bool" where
  "call_admissible (In_Command_Result tok r) m =
     (cmd_status r = CMD_TIMEOUT \<longrightarrow>
      (case txn_by_token m tok of None \<Rightarrow> True
       | Some ti \<Rightarrow> tx_state (txn_at m ti) \<noteq> TXN_PENDING))"
| "call_admissible _ m = True"

inductive call_step :: "call_model \<Rightarrow> call_model \<Rightarrow> bool" where
  step: "call_admissible a m \<Longrightarrow> call_step m (call_apply a m)"

inductive reachable :: "call_model \<Rightarrow> bool" where
  init: "reachable (call_model_init t)"
| step: "reachable m \<Longrightarrow> call_step m m' \<Longrightarrow> reachable m'"

text \<open>Executable runs; an inadmissible input stops the run.\<close>

fun call_run :: "call_input list \<Rightarrow> call_model \<Rightarrow> call_model option" where
  "call_run [] m = Some m"
| "call_run (a # as) m = (if call_admissible a m then call_run as (call_apply a m) else None)"

lemma call_run_reachable: "call_run as m = Some m' \<Longrightarrow> reachable m \<Longrightarrow> reachable m'"
  by (induction as arbitrary: m) (auto intro: reachable.step call_step.intros split: if_splits)

inductive_cases call_stepE: "call_step m m'"

text \<open>The inputs that carry evidence about the set of legs: an event with a call id, the end of a
  CLCC snapshot, and the clock of the tick.\<close>

fun leg_evidence :: "call_input \<Rightarrow> bool" where
  "leg_evidence (In_Event i v st d) = v"
| "leg_evidence (In_Clcc_Ok tc) = True"
| "leg_evidence In_Tick = True"
| "leg_evidence _ = False"

fun is_request :: "call_input \<Rightarrow> bool" where
  "is_request (In_Request k t s) = True"
| "is_request _ = False"

section \<open>What the interface gives for steps\<close>

context call_session
begin

lemma command_input:
  "I m \<Longrightarrow> call_admissible (In_Command_Result tok r) m \<Longrightarrow> I (call_model_txn_command_result m tok r)"
  by (rule command_result) (auto split: option.splits)

lemma apply_session:
  "I m \<Longrightarrow> call_admissible a m \<Longrightarrow> \<not> leg_evidence a \<Longrightarrow> \<not> is_request a \<Longrightarrow> a \<noteq> In_Project \<Longrightarrow>
     I (call_apply a m)"
  by (cases a)
    (simp_all only: call_apply.simps call_model_set_now_def clock dispatched
      command_input dispatch_guard cancel_token new_call_abandoned call_model_on_event_def
      leg_evidence.simps is_request.simps if_True simp_thms raise touch ring clip diverted
      bare_final clcc_begin clcc_row clcc_error pop_release requeue_release)

end

context call_client
begin

lemma apply_client:
  "I m \<Longrightarrow> call_admissible a m \<Longrightarrow> \<not> leg_evidence a \<Longrightarrow> I (call_apply a m)"
  by (cases "is_request a \<or> a = In_Project")
    (auto intro: apply_session simp: request project elim!: is_request.elims)

end

context call_evidence
begin

lemma apply_evidence:
  "I m \<Longrightarrow> call_admissible a m \<Longrightarrow> \<not> is_request a \<Longrightarrow> a \<noteq> In_Tick \<Longrightarrow> a \<noteq> In_Project \<Longrightarrow>
     I (call_apply a m)"
  by (cases "leg_evidence a", cases a) (simp_all add: event clcc_ok apply_session)

end

context call_recorder
begin

lemma apply_recorder:
  "I m \<Longrightarrow> call_admissible a m \<Longrightarrow> \<not> is_request a \<Longrightarrow> a \<noteq> In_Tick \<Longrightarrow> I (call_apply a m)"
  by (cases "a = In_Project") (simp_all add: project apply_evidence)

end

context call_unpublished
begin

lemma apply_unpublished:
  "I m \<Longrightarrow> call_admissible a m \<Longrightarrow> a \<noteq> In_Project \<Longrightarrow> I (call_apply a m)"
  by (cases "is_request a \<or> a = In_Tick")
    (auto intro: apply_evidence simp: tick request elim!: is_request.elims)

end

context call_api
begin

lemma apply_input: "I m \<Longrightarrow> call_admissible a m \<Longrightarrow> I (call_apply a m)"
  by (cases "a = In_Project") (simp_all add: project apply_unpublished)

lemma step_kept: "I m \<Longrightarrow> call_step m m' \<Longrightarrow> I m'"
  by (auto elim!: call_stepE intro: apply_input)

lemma reachable_kept: "reachable m \<Longrightarrow> (\<And>t. I (call_model_init t)) \<Longrightarrow> I m"
  by (induction rule: reachable.induct) (auto intro: step_kept)

end

section \<open>Every reachable model is well formed\<close>

lemma init_wf: "wf_model (call_model_init t)"
  by (simp add: wf_model_def call_model_init_def wf_legs_def wf_pool_def wf_queue_def
      wf_shadow_def mt_ok_def mt_zero_def leg_zero_def nth_Cons' less_Suc_eq numeral_eq_Suc)

end
