(* ===== verification/Call_Eval.thy ===== *)
theory Call_Eval
  imports Call_System
begin

text \<open>
  Evaluation of the call model on concrete inputs by rewriting: \<open>call_eval\<close> unfolds every
  definition of the model, so that \<open>simp add: call_eval upt_rec cong: let_weak_cong\<close> runs it.  The
  sample models below are the inputs of the witnesses.
\<close>

lemmas call_eval =
  for_each_def upd_nth_def ms_reached_def never_zero_def less_eq_call_txn_state_def
  less_call_txn_state_def leg_zero_def txn_zero_def mt_zero_def projection_zero_def
  timing_zero_def call_timing_telit_def upd_leg_def upd_txn_def upd_mt_def upd_pub_def
  leg_at_def txn_at_def cm_raise_reason_def cm_touch_shadow_def cm_leg_is_transient_def
  cm_txn_is_open_def txn_is_terminal_def cm_pending_mt_unbound_def cm_txn_owner_ref_def
  txn_baseline_contains_def txn_with_token_def txn_by_token_def cm_find_leg_def cm_has_leg_def
  cm_find_leg_by_id_def txn_find_role_def cm_reset_pending_terminal_def
  cm_clear_pending_terminal_for_token_def cm_pending_terminal_owned_by_live_txn_def
  cm_pending_terminal_has_live_owner_def cm_clear_pending_terminal_def cm_take_owned_def
  cm_take_pending_terminal_def cm_generation_after_def cm_alloc_leg_def cm_unbind_pending_mt_def
  cm_retire_compat_cli_owner_def promoted_cli_owner_def cm_retire_promoted_compat_cli_def
  episode_txn_matches_def episode_txn_binds_def cm_bind_episode_observation_def
  cm_pending_mt_copy_metadata_def mt_bind_leg_def cm_pending_mt_track_def mt_bind_candidates_def
  cm_pending_mt_bind_existing_def cm_remove_leg_def cm_queue_release_def leg_start_teardown_def
  cm_abandon_leg_def cm_op_descriptor_def cm_route_result_def cm_hangup_setup_txn_def
  hangup_setup_range_def cm_hangup_owns_leg_def cm_hangup_has_live_obligation_def
  teardown_owns_leg_def cm_leg_local_teardown_def cm_any_surviving_active_or_held_def
  cm_route_setup_result_def cm_primary_departure_result_def latch_owner_step_def
  latch_owner_scan_def second_became_primary_def latch_journal_result_def
  latch_projected_result_def latch_route_def cm_latch_terminal_def clcc_bump_rev_def
  clcc_evict_leg_def cm_leg_owned_by_other_txn_def cm_txn_episode_stale_def
  tentative_dial_of_def proj_leg_is_tentative_dial_def dial_candidate_def txn_bind_dial_def
  txn_bind_dials_def txn_confirm_one_def txn_confirm_tentative_def txn_bind_target_def
  txn_bind_targets_def default_result_def find_leg_at_def resolve_dial_def resolve_answer_def
  set_txn_state_def resolve_hold_def resolve_swap_def resolve_wait_answer_def
  resolve_wait_reject_def resolve_release_active_def resolve_release_leg_def resolve_hangup_def
  txn_resolve_one_def txn_resolve_def cancel_leaves_cleanup_def tombstone_txn_def
  cm_cancel_txn_def txn_in_setup_def txn_hard_abandon_def txn_deadline_one_def txn_deadlines_def
  cm_txn_output_resolved_def cm_txn_cleanup_resolved_def cm_txn_retirement_eligible_def
  cm_retire_one_def cm_retire_terminal_txns_def tombstone_candidate_def cm_bind_tombstone_def
  cm_bind_tombstones_def tombstone_counts_def cm_tombstone_candidate_count_def txn_unbound_def
  cm_tombstone_deadline_one_def cm_advance_tombstone_deadlines_def model_reconcile_txns_def
  cm_token_live_def cm_alloc_token_def call_model_hold_toggle_available_def
  new_call_tombstone_def call_model_new_call_cleanup_pending_def leg_refs_def
  cm_capture_baseline_def capture_hangup_setup_def cm_capture_hangup_setups_def
  same_role_dial_def supersede_one_def request_supersede_def reclaim_general_def
  request_slot_def leg_ref_at_def request_target_def request_held_def request_episode_def
  dial_accept_reset_def request_target_override_def request_admit_def call_model_request_def
  dispatch_baseline_def call_model_txn_dispatched_def txn_command_error_def
  txn_command_timeout_def call_model_txn_command_result_def guard_verdict_def
  cm_guard_resolve_def call_model_txn_dispatch_guard_def call_model_txn_cancel_def
  call_model_new_call_abandoned_def cm_clcc_interval_ms_def clcc_id_in_shadow_def
  clcc_elapsed_def call_model_clcc_begin_def call_model_clcc_row_def clcc_back_off_def
  call_model_clcc_error_def clcc_row_leg_def clcc_row_state_def clcc_row_meta_def
  clcc_merge_row_def clcc_merge_def clcc_confirm_episode_def clcc_absent_step_def
  clcc_absent_set_def clcc_disarm_def clcc_evict_ref_def clcc_suspect_ref_def clcc_rearm_def
  clcc_removals_def clcc_accept_def clcc_ok_commit_def no_leg_resolve_one_def
  cm_resolve_no_leg_after_clcc_def tombstone_resolve_one_def
  cm_resolve_tombstones_after_clcc_def call_model_clcc_ok_def promote_held_def
  on_event_released_def event_touch_leg_def event_connected_def on_event_update_def
  on_event_live_def call_model_on_event_def cm_alloc_episode_gen_def mt_open_episode_def
  incoming_result_reset_def call_model_on_ring_def call_model_on_clip_def
  call_model_on_incoming_diverted_def bare_final_eligible_def bare_final_match_def
  bare_final_record_def call_model_on_bare_final_def proj_copy_number_def proj_retained_role_def
  proj_txn_in_setup_def proj_find_newcall_setup_def proj_find_dial_setup_def
  proj_find_answer_setup_def proj_fill_incoming_def proj_acc_init_def proj_pass1_def
  proj_pass2_def proj_genuine_def proj_counts_def proj_inconsistent_def proj_base_def
  proj_connected_row_def proj_idle_row_def proj_row_def proj_leg_role_def proj_publish_leg_def
  call_model_project_def call_model_init_def call_model_set_now_def mt_presenting_def
  call_model_control_pending_def call_model_release_active_pending_def
  call_model_background_work_blocked_def call_model_session_active_def cm_model_has_activity_def
  cm_txn_in_flight_def count_legs_def cm_roles_possible_def cm_model_is_consistent_def
  removal_limbo_one_def cm_advance_removal_limbo_def cm_advance_pending_mt_def later_until_def
  fast_window_until_def cm_recompute_fast_window_def call_model_wants_clcc_def
  tick_clamp_schedule_def call_model_tick_def call_model_pop_release_def
  call_model_requeue_release_def

text \<open>One leg that is being torn down, and nothing else.\<close>

definition sample_leg :: "call_leg_state \<Rightarrow> call_leg" where
  "sample_leg st = leg_zero\<lparr>lg_in_use := True, lg_id := 1, lg_gen := 1, lg_state := st\<rparr>"

definition sample_model :: "call_leg_state \<Rightarrow> call_model" where
  "sample_model st = (call_model_init (Some call_timing_telit))
     \<lparr>legs := sample_leg st # replicate 6 leg_zero\<rparr>"

lemma sample_wf: "wf_model (sample_model st)"
  by (simp add: wf_model_def sample_model_def sample_leg_def call_model_init_def wf_legs_def
      wf_pool_def wf_queue_def wf_shadow_def mt_ok_def mt_zero_def leg_zero_def nth_Cons')

text \<open>With an empty pool the engine has nothing to do.\<close>

lemma for_each_id: "(\<And>i. i < n \<Longrightarrow> f i s = s) \<Longrightarrow> for_each n f s = s"
  by (induction n) (simp_all add: for_each_Suc)

lemma reconcile_idle:
  assumes "\<And>i. i < MODEM_MAX_CALL_TRANSACTIONS \<Longrightarrow> \<not> tx_in_use (txn_at m i)"
  shows "model_reconcile_txns m = m"
  using assms
  by (simp add: model_reconcile_txns_def txn_bind_dials_def txn_bind_targets_def
      txn_confirm_tentative_def txn_resolve_def txn_deadlines_def cm_bind_tombstones_def
      for_each_id txn_bind_dial_def txn_bind_target_def txn_confirm_one_def txn_resolve_one_def
      txn_deadline_one_def cm_bind_tombstone_def Let_def)

lemma sample_reconcile [simp]: "model_reconcile_txns (sample_model st) = sample_model st"
  by (rule reconcile_idle) (simp add: sample_model_def call_model_init_def txn_at_def txn_zero_def)

lemma sample_find [simp]: "cm_find_leg_by_id (sample_model st) 1 = Some 0"
  by (simp add: sample_model_def sample_leg_def cm_find_leg_by_id_def)

lemma sample_touch [simp]: "cm_touch_shadow (sample_model st) = sample_model st"
  by (simp add: sample_model_def cm_touch_shadow_def call_model_init_def)

lemma sample_at [simp]: "leg_at (sample_model st) 0 = sample_leg st"
  by (simp add: sample_model_def leg_at_def)

text \<open>A late ACTIVE event for a leg that is being torn down changes nothing.\<close>

lemma sample_late_active:
  "call_apply (In_Event 1 True CALL_LEG_ACTIVE CALL_DIR_MO) (sample_model CALL_LEG_RELEASING) =
     sample_model CALL_LEG_RELEASING"
  by (simp add: call_model_on_event_def on_event_live_def on_event_update_def sample_leg_def Let_def)

text \<open>A dial that is requested, dispatched, observed and connected, and the model it leads to.\<close>

definition sample_run :: "call_input list" where
  "sample_run =
     [In_Request CALL_TXN_DIAL 0 False, In_Dispatched 1,
      In_Event 1 True CALL_LEG_DIALING CALL_DIR_MO, In_Event 1 True CALL_LEG_ACTIVE CALL_DIR_MO,
      In_Tick, In_Project]"

definition sample_end :: call_model where
  "sample_end = fold call_apply sample_run (call_model_init (Some call_timing_telit))"

lemma sample_end_reachable: "reachable sample_end"
proof -
  have "call_run sample_run (call_model_init (Some call_timing_telit)) = Some sample_end"
    by (simp add: sample_run_def sample_end_def)
  then show ?thesis by (rule call_run_reachable) (rule reachable.init)
qed

end
