(* ===== verification/Call_Safety.thy ===== *)
theory Call_Safety
  imports Call_Eval
begin

text \<open>
  Safety over all inputs, each by an interpretation of the interfaces on a relation to the model
  before the input: which inputs may change the set of legs, that a leg being torn down is never
  resurrected, that a dispatched transaction is not lost, who may change the published status, and
  that two dials never own one leg.
\<close>

section \<open>The set of legs\<close>

definition same_legs :: "call_model \<Rightarrow> call_model \<Rightarrow> bool" where
  "same_legs m0 m \<longleftrightarrow>
     leg_keys m = leg_keys m0 \<and> gen_next m = gen_next m0 \<and> mt_ok (pending_mt m)"

lemma leg_keys_map: "(\<And>l. leg_edit l (f l)) \<Longrightarrow> leg_keys (m\<lparr>legs := map f (legs m)\<rparr>) = leg_keys m"
  by (simp add: leg_keys_def leg_edit_def)

lemma leg_keys_edit:
  assumes "leg_edit (leg_at m k) (f (leg_at m k))"
  shows "leg_keys (upd_leg k f m) = leg_keys m"
  using assms by (cases "k < length (legs m)")
    (auto simp: leg_keys_def leg_edit_def upd_leg_def upd_nth_def leg_at_def map_update
      list_update_beyond list_update_same_conv)

lemma open_episode_mt_ok: "mt_ok (pending_mt m) \<Longrightarrow> mt_shape h \<Longrightarrow> mt_ok (pending_mt (mt_open_episode h m))"
  by (auto simp: mt_open_episode_def cm_alloc_episode_gen_def Let_def mt_shape_def mt_ok_def mt_zero_def)

lemma proj_publish_edit [simp]: "leg_edit l (proj_publish_leg m a l)"
  by (simp add: proj_publish_leg_def)

lemma same_legs_cong:
  "legs m' = legs m \<Longrightarrow> gen_next m' = gen_next m \<Longrightarrow> pending_mt m' = pending_mt m \<Longrightarrow>
     same_legs m0 m' = same_legs m0 m"
  by (simp add: same_legs_def leg_keys_def)

lemma same_legs_refl: "mt_ok (pending_mt m) \<Longrightarrow> same_legs m m"
  by (simp add: same_legs_def)

interpretation pop: call_client "same_legs m0" for m0
proof unfold_locales
  fix m m' :: call_model and h :: "call_projection \<Rightarrow> call_projection"
    and h' :: "call_pending_mt \<Rightarrow> call_pending_mt" and lf :: "call_leg \<Rightarrow> call_leg"
    and tf :: "call_txn \<Rightarrow> call_txn" and i g :: u8 and rec k ti slot kind tok second ab t n r e b
    and pr :: call_projection
  assume I: "same_legs m0 m"
  show "quiet m m' \<Longrightarrow> same_legs m0 m'"
    using I by (simp add: same_legs_def leg_keys_def quiet_fields)
  show "latch_only h \<Longrightarrow> same_legs m0 (upd_pub h m)" using I by (simp add: same_legs_def leg_keys_def)
  show "mt_edit (pending_mt m) (h' (pending_mt m)) \<Longrightarrow> same_legs m0 (upd_mt h' m)"
    using I by (simp add: same_legs_def leg_keys_def mt_edit_def)
  show "same_legs m0 (cm_queue_release m i g rec)" using I by (simp add: same_legs_def leg_keys_def)
  show "leg_edit (leg_at m k) (lf (leg_at m k)) \<Longrightarrow> same_legs m0 (upd_leg k lf m)"
    using I by (simp add: same_legs_def leg_keys_edit)
  show "txn_edit (txn_at m ti) (tf (txn_at m ti)) \<Longrightarrow> bind_fresh m ti (tf (txn_at m ti)) \<Longrightarrow>
      same_legs m0 (upd_txn ti tf m)" using I by (simp add: same_legs_def leg_keys_def)
  show zero: "\<not> tx_in_use (txn_at m ti) \<or> \<not> tx_ever_dispatched (txn_at m ti) \<Longrightarrow>
      same_legs m0 (upd_txn ti (\<lambda>_. txn_zero) m)" using I by (simp add: same_legs_def leg_keys_def)
  show "cm_txn_retirement_eligible m (txn_at m ti) \<Longrightarrow> same_legs m0 (upd_txn ti (\<lambda>_. txn_zero) m)"
    using I by (simp add: same_legs_def leg_keys_def)
  show "same_legs m0 (snd (cm_alloc_token m))"
    using I by (simp add: same_legs_def leg_keys_def alloc_token_other)
  show "same_legs m0 (upd_txn slot (\<lambda>t. t\<lparr>tx_in_use := True, tx_token := tok, tx_kind := kind,
           tx_state := TXN_PENDING, tx_second_mo := second,
           tx_result := MODEM_CALL_RESULT_NONE\<rparr>) m)"
    using I by (simp add: same_legs_def leg_keys_def)
  show "same_legs m0 (m\<lparr>txns := map tf (txns m)\<rparr>)" using I by (simp add: same_legs_def leg_keys_def)
  show "same_legs m0 (m\<lparr>legs := map lf (legs m)\<rparr>)" if "\<And>l. leg_edit l (lf l)"
    using I that by (simp add: same_legs_def leg_keys_map)
  show "mt_shape h' \<Longrightarrow> same_legs m0 (mt_open_episode h' m)"
    using I open_episode_mt_ok [of m h'] by (simp add: same_legs_def leg_keys_def)
  show "length (mt_number (pending_mt m)) \<le> MODEM_PHONE_MAX"
    using I by (simp add: same_legs_def mt_ok_def)
  show "same_legs m0 (m\<lparr>now_ms := t\<rparr>)" "same_legs m0 (m\<lparr>journal := []\<rparr>)"
    "same_legs m0 (m\<lparr>shadow_open := b, shadow := []\<rparr>)"
    "same_legs m0 (m\<lparr>shadow := shadow m @ [r]\<rparr>)"
    "same_legs m0 (m\<lparr>release_queue := drop n (release_queue m)\<rparr>)"
    using I by (simp_all add: same_legs_def leg_keys_def)
  show "same_legs m0 (m\<lparr>legs := map (proj_publish_leg m (proj_counts m)) (legs m), published := pr\<rparr>)"
    using I leg_keys_map [of "proj_publish_leg m (proj_counts m)" m]
    by (simp add: same_legs_def leg_keys_def)
qed

text \<open>C3: Only evidence changes the set of legs.  Every input other than an event with a call id,
  the end of a CLCC snapshot and the tick leaves the occupancy, the call id and the generation of
  every leg slot, and the generation counters, exactly as they were: a bare final, a command
  result, a timeout, a cancellation, a RING or a coarse event never adds or removes a call.\<close>

theorem legs_need_evidence:
  assumes "wf_model m" and "call_admissible a m" and "\<not> leg_evidence a"
  shows "leg_keys (call_apply a m) = leg_keys m \<and> gen_next (call_apply a m) = gen_next m"
proof -
  have "same_legs m m" using assms(1) by (intro same_legs_refl) (simp add: wf_model_def)
  from pop.apply_client [OF this assms(2,3)] show ?thesis by (simp add: same_legs_def)
qed

theorem legs_need_evidence_witness:
  "leg_keys (call_apply (In_Bare_Final MODEM_CALL_RESULT_BUSY False) (call_model_init None)) =
     leg_keys (call_model_init None)"
  using legs_need_evidence [OF init_wf [of None], of "In_Bare_Final MODEM_CALL_RESULT_BUSY False"]
  by simp

section \<open>A leg being torn down stays torn down\<close>

text \<open>\<open>held_down L m\<close>: every leg that was RELEASING in \<open>L\<close> is still in its slot, RELEASING.
  \<open>let_go L m\<close>: it is, or its slot was vacated.\<close>

definition releasing :: "call_leg \<Rightarrow> bool" where
  "releasing l \<longleftrightarrow> lg_in_use l \<and> lg_state l = CALL_LEG_RELEASING"

definition held_down :: "call_leg list \<Rightarrow> call_model \<Rightarrow> bool" where
  "held_down L m \<longleftrightarrow>
     length (legs m) = length L \<and>
     (\<forall>k < length L. releasing (L ! k) \<longrightarrow>
        leg_key (legs m ! k) = leg_key (L ! k) \<and> releasing (legs m ! k))"

definition let_go :: "call_leg list \<Rightarrow> call_model \<Rightarrow> bool" where
  "let_go L m \<longleftrightarrow>
     length (legs m) = length L \<and>
     (\<forall>k < length L. releasing (L ! k) \<longrightarrow>
        \<not> lg_in_use (legs m ! k) \<or>
        (leg_key (legs m ! k) = leg_key (L ! k) \<and> releasing (legs m ! k)))"

lemma held_down_refl [simp]: "held_down (legs m) m"
  by (simp add: held_down_def)

lemma held_down_let_go: "held_down L m \<Longrightarrow> let_go L m"
  by (simp add: held_down_def let_go_def)

lemma held_down_cong: "legs m' = legs m \<Longrightarrow> held_down L m \<Longrightarrow> held_down L m'"
  and let_go_cong: "legs m' = legs m \<Longrightarrow> let_go L m \<Longrightarrow> let_go L m'"
  by (simp_all add: held_down_def let_go_def)

lemma releasing_edit: "leg_edit l l' \<Longrightarrow> leg_key l' = leg_key l \<and> (releasing l \<longrightarrow> releasing l')"
  by (auto simp: leg_edit_def releasing_def leg_key_def)

lemma held_down_legs:
  assumes "held_down L m" and "length ls = length (legs m)"
    and "\<And>k. k < length (legs m) \<Longrightarrow> leg_edit (legs m ! k) (ls ! k)"
  shows "held_down L (m\<lparr>legs := ls\<rparr>)"
  using assms releasing_edit unfolding held_down_def by fastforce

lemma let_go_legs:
  assumes "let_go L m" and "length ls = length (legs m)"
    and "\<And>k. k < length (legs m) \<Longrightarrow> leg_edit (legs m ! k) (ls ! k) \<or> \<not> lg_in_use (ls ! k)"
  shows "let_go L (m\<lparr>legs := ls\<rparr>)"
  unfolding let_go_def
proof (intro conjI allI impI)
  show "length (legs (m\<lparr>legs := ls\<rparr>)) = length L" using assms by (simp add: let_go_def)
  fix k assume k: "k < length L" "releasing (L ! k)"
  then have lt: "k < length (legs m)" using assms(1) by (simp add: let_go_def)
  show "\<not> lg_in_use (legs (m\<lparr>legs := ls\<rparr>) ! k) \<or>
      leg_key (legs (m\<lparr>legs := ls\<rparr>) ! k) = leg_key (L ! k) \<and> releasing (legs (m\<lparr>legs := ls\<rparr>) ! k)"
    using assms(1) k assms(3) [OF lt] releasing_edit [of "legs m ! k" "ls ! k"]
    by (auto simp: let_go_def leg_key_def)
qed

lemma nth_edit:
  "leg_edit (leg_at m k) (f (leg_at m k)) \<Longrightarrow> i < length (legs m) \<Longrightarrow>
     leg_edit (legs m ! i) (upd_nth k f (legs m) ! i)"
  by (cases "k = i") (simp_all add: leg_at_def nth_upd_nth)

lemma held_down_upd: "held_down L m \<Longrightarrow> leg_edit (leg_at m k) (f (leg_at m k)) \<Longrightarrow>
    held_down L (upd_leg k f m)"
  unfolding upd_leg_def by (rule held_down_legs) (simp_all add: nth_edit)

lemma let_go_upd: "let_go L m \<Longrightarrow> leg_edit (leg_at m k) (f (leg_at m k)) \<Longrightarrow>
    let_go L (upd_leg k f m)"
  unfolding upd_leg_def by (rule let_go_legs) (simp_all add: nth_edit)

lemma held_down_alloc: "held_down L m \<Longrightarrow> held_down L (fst (cm_alloc_leg m i))"
proof (cases "find_idx (\<lambda>l. \<not> lg_in_use l) (legs m)")
  case (Some k)
  assume h: "held_down L m"
  have "\<not> lg_in_use (legs m ! k)" "k < length (legs m)" using find_idx_SomeD [OF Some] by simp_all
  moreover from this h have "\<not> releasing (L ! k)"
    by (auto simp: held_down_def releasing_def)
  ultimately show ?thesis using h Some
    by (auto simp: cm_alloc_leg_def Let_def upd_leg_def held_down_def nth_upd_nth)
qed (auto simp: cm_alloc_leg_def held_down_def)

lemma let_go_vacate: "let_go L m \<Longrightarrow> let_go L (leg_vacate k m)"
proof -
  assume l: "let_go L m"
  let ?m = "m\<lparr>gen_next := (gen_next m)[unat (lg_id (leg_at m k)) :=
            cm_generation_after (lg_gen (leg_at m k))]\<rparr>"
  have "let_go L ?m" using l by (rule let_go_cong [rotated]) simp
  then show ?thesis unfolding leg_vacate_def upd_leg_def
    by (rule let_go_legs) (auto simp: nth_upd_nth)
qed

interpretation down: call_client "\<lambda>m. wf_model m \<and> held_down L m" for L
proof unfold_locales
  fix m m' :: call_model and h :: "call_projection \<Rightarrow> call_projection"
    and h' :: "call_pending_mt \<Rightarrow> call_pending_mt" and lf :: "call_leg \<Rightarrow> call_leg"
    and tf :: "call_txn \<Rightarrow> call_txn" and i g :: u8 and rec k ti slot kind tok second ab t n r e b
    and pr :: call_projection
  assume "wf_model m \<and> held_down L m"
  then have wf: "wf_model m" and I: "held_down L m" by simp_all
  note cong = held_down_cong [OF _ I]
  let ?I = "\<lambda>m. wf_model m \<and> held_down L m"
  show "quiet m m' \<Longrightarrow> ?I m'" using wf.quiet [OF wf] cong by (simp add: quiet_fields)
  show "latch_only h \<Longrightarrow> ?I (upd_pub h m)" using wf.latch [OF wf] cong by simp
  show "mt_edit (pending_mt m) (h' (pending_mt m)) \<Longrightarrow> ?I (upd_mt h' m)"
    using wf.episode [OF wf] cong by simp
  show "?I (cm_queue_release m i g rec)" using wf.queue [OF wf] cong by simp
  show "leg_edit (leg_at m k) (lf (leg_at m k)) \<Longrightarrow> ?I (upd_leg k lf m)"
    using wf.leg [OF wf] held_down_upd [OF I] by simp
  show "txn_edit (txn_at m ti) (tf (txn_at m ti)) \<Longrightarrow> bind_fresh m ti (tf (txn_at m ti)) \<Longrightarrow>
      ?I (upd_txn ti tf m)" using wf.edit [OF wf] cong by simp
  show "\<not> tx_in_use (txn_at m ti) \<or> \<not> tx_ever_dispatched (txn_at m ti) \<Longrightarrow>
      ?I (upd_txn ti (\<lambda>_. txn_zero) m)" using wf.drop [OF wf] cong by simp
  show "cm_txn_retirement_eligible m (txn_at m ti) \<Longrightarrow> ?I (upd_txn ti (\<lambda>_. txn_zero) m)"
    using wf.retire [OF wf] cong by simp
  show "?I (snd (cm_alloc_token m))"
    using wf.token [OF wf] by (intro conjI cong) (simp_all add: alloc_token_other)
  show "?I (upd_txn slot (\<lambda>t. t\<lparr>tx_in_use := True, tx_token := tok, tx_kind := kind,
           tx_state := TXN_PENDING, tx_second_mo := second,
           tx_result := MODEM_CALL_RESULT_NONE\<rparr>) m)"
    if "slot < MODEM_MAX_CALL_TRANSACTIONS" "slot < length (txns m) \<Longrightarrow> txn_at m slot = txn_zero"
      "kind \<noteq> CALL_TXN_NONE" "kind = CALL_TXN_HANGUP \<longleftrightarrow> slot = 0"
      "length (txns m) = MODEM_MAX_CALL_TRANSACTIONS \<Longrightarrow> tok \<noteq> 0 \<and> \<not> cm_token_live m tok"
    using wf.admit [OF wf that] cong by simp
  show "?I (m\<lparr>txns := map tf (txns m)\<rparr>)" if "\<And>t. txn_edit t (tf t)"
    "\<And>t. tx_bound_id (tf t) = tx_bound_id t \<and> tx_bound_gen (tf t) = tx_bound_gen t"
    using wf.edit_all [OF wf that] cong by simp
  show "?I (m\<lparr>legs := map lf (legs m)\<rparr>)" if "\<And>l. leg_edit l (lf l)"
    using wf.leg_all [OF wf that] held_down_legs [OF I] that by simp
  show "mt_shape h' \<Longrightarrow> ?I (mt_open_episode h' m)" using wf.open_episode [OF wf] cong by simp
  show "length (mt_number (pending_mt m)) \<le> MODEM_PHONE_MAX" by (rule wf.number [OF wf])
  show "?I (m\<lparr>now_ms := t\<rparr>)" "?I (m\<lparr>journal := []\<rparr>)" "?I (m\<lparr>shadow_open := b, shadow := []\<rparr>)"
    "?I (m\<lparr>release_queue := drop n (release_queue m)\<rparr>)"
    using wf.clock [OF wf] wf.journal_drop [OF wf] wf.shadow_drop [OF wf] wf.queue_drop [OF wf]
      cong by simp_all
  show "shadow_open m \<Longrightarrow> length (shadow m) < MODEM_MAX_CALL_LEGS \<Longrightarrow> row_ok r \<Longrightarrow>
      \<not> clcc_id_in_shadow m (lg_id r) \<Longrightarrow> ?I (m\<lparr>shadow := shadow m @ [r]\<rparr>)"
    using wf.shadow_row [OF wf] cong by simp
  show "\<not> proj_inconsistent m \<Longrightarrow> proj_row m = Some pr \<Longrightarrow>
      ?I (m\<lparr>legs := map (proj_publish_leg m (proj_counts m)) (legs m), published := pr\<rparr>)"
    by (intro conjI wf.publish [OF wf] held_down_cong
        [OF _ held_down_legs [OF I, of "map (proj_publish_leg m (proj_counts m)) (legs m)"]])
      simp_all
qed

interpretation down: call_snapshot "\<lambda>m. wf_model m \<and> held_down L m" for L
proof unfold_locales
  fix m :: call_model and i :: u8 and r
  assume "wf_model m \<and> held_down L m"
  then have wf: "wf_model m" and I: "held_down L m" by simp_all
  let ?I = "\<lambda>m. wf_model m \<and> held_down L m"
  show "?I (m\<lparr>shadow_open := False\<rparr>)"
    using wf.shadow_close [OF wf] held_down_cong [OF _ I] by simp
  show "1 \<le> i \<Longrightarrow> i \<le> 7 \<Longrightarrow> cm_find_leg_by_id m i = None \<Longrightarrow> ?I (fst (cm_alloc_leg m i))"
    using wf.alloc [OF wf] held_down_alloc [OF I] by simp
  show "r \<in> set (shadow m) \<Longrightarrow> row_ok r" by (rule wf.rows [OF wf])
qed

interpretation go: call_leave "\<lambda>m. wf_model m \<and> let_go L m" for L
proof unfold_locales
  fix m m' :: call_model and h :: "call_projection \<Rightarrow> call_projection"
    and h' :: "call_pending_mt \<Rightarrow> call_pending_mt" and lf :: "call_leg \<Rightarrow> call_leg"
    and tf :: "call_txn \<Rightarrow> call_txn" and i g :: u8 and rec k ti e ab
  assume "wf_model m \<and> let_go L m"
  then have wf: "wf_model m" and I: "let_go L m" by simp_all
  note cong = let_go_cong [OF _ I]
  let ?I = "\<lambda>m. wf_model m \<and> let_go L m"
  show "quiet m m' \<Longrightarrow> ?I m'" using wf.quiet [OF wf] cong by (simp add: quiet_fields)
  show "latch_only h \<Longrightarrow> ?I (upd_pub h m)" using wf.latch [OF wf] cong by simp
  show "mt_edit (pending_mt m) (h' (pending_mt m)) \<Longrightarrow> ?I (upd_mt h' m)"
    using wf.episode [OF wf] cong by simp
  show "?I (cm_queue_release m i g rec)" using wf.queue [OF wf] cong by simp
  show "leg_edit (leg_at m k) (lf (leg_at m k)) \<Longrightarrow> ?I (upd_leg k lf m)"
    using wf.leg [OF wf] let_go_upd [OF I] by simp
  show "txn_edit (txn_at m ti) (tf (txn_at m ti)) \<Longrightarrow> bind_fresh m ti (tf (txn_at m ti)) \<Longrightarrow>
      ?I (upd_txn ti tf m)" using wf.edit [OF wf] cong by simp
  show "\<not> tx_in_use (txn_at m ti) \<or> \<not> tx_ever_dispatched (txn_at m ti) \<Longrightarrow>
      ?I (upd_txn ti (\<lambda>_. txn_zero) m)" using wf.drop [OF wf] cong by simp
  show "cm_txn_retirement_eligible m (txn_at m ti) \<Longrightarrow> ?I (upd_txn ti (\<lambda>_. txn_zero) m)"
    using wf.retire [OF wf] cong by simp
  show "?I (m\<lparr>txns := map tf (txns m)\<rparr>)" if "\<And>t. txn_edit t (tf t)"
    "\<And>t. tx_bound_id (tf t) = tx_bound_id t \<and> tx_bound_gen (tf t) = tx_bound_gen t"
    using wf.edit_all [OF wf that] cong by simp
  show "?I (m\<lparr>legs := map lf (legs m)\<rparr>)" if "\<And>l. leg_edit l (lf l)"
    using wf.leg_all [OF wf that] let_go_legs [OF I] that by simp
  show "mt_shape h' \<Longrightarrow> ?I (mt_open_episode h' m)" using wf.open_episode [OF wf] cong by simp
  show "length (mt_number (pending_mt m)) \<le> MODEM_PHONE_MAX" by (rule wf.number [OF wf])
  show "lg_in_use (leg_at m k) \<Longrightarrow> k < length (legs m) \<or> k < MODEM_MAX_CALL_LEGS \<Longrightarrow>
      ?I (leg_vacate k m)" using wf.vacate [OF wf] let_go_vacate [OF I] by simp
  show "length (journal m) < MODEM_MAX_CALL_LEGS \<Longrightarrow> je_in_use e \<Longrightarrow>
      ?I (m\<lparr>journal := journal m @ [e]\<rparr>)" using wf.journal [OF wf] cong by simp
  show "?I (m\<lparr>absent := ab\<rparr>)" using wf.absences [OF wf] cong by simp
qed

lemma event_released_go:
  "wf_model m \<Longrightarrow> let_go L m \<Longrightarrow> let_go L (on_event_released m i)"
  using go.released by blast

lemma clcc_ok_go:
  assumes wf: "wf_model m" and L: "L = legs m"
  shows "let_go L (call_model_clcc_ok m tc)"
proof -
  have h: "wf_model m \<and> held_down L m" using wf L by simp
  have "wf_model (fst (clcc_ok_commit m tc)) \<and> let_go L (fst (clcc_ok_commit m tc))"
    using down.ok_commit_cases [OF h, of tc]
  proof
    assume "wf_model (fst (clcc_ok_commit m tc)) \<and> held_down L (fst (clcc_ok_commit m tc))"
    then show ?thesis using held_down_let_go by blast
  next
    assume "\<exists>X rv. (wf_model X \<and> held_down L X) \<and> fst (clcc_ok_commit m tc) = clcc_removals X rv"
    then obtain X rv where X: "wf_model X" "held_down L X"
      "fst (clcc_ok_commit m tc) = clcc_removals X rv" by blast
    then show ?thesis using go.removals [of X L rv] held_down_let_go by simp
  qed
  then have "wf_model (model_reconcile_txns (fst (clcc_ok_commit m tc))) \<and>
      let_go L (model_reconcile_txns (fst (clcc_ok_commit m tc)))" by (rule go.reconcile)
  then have "\<not> shadow_invalidated m \<Longrightarrow> let_go L (call_model_clcc_ok m tc)"
    using go.no_leg_resolve [THEN go.tombstone_resolve]
    by (simp add: call_model_clcc_ok_def Let_def case_prod_unfold)
  moreover have "shadow_invalidated m \<Longrightarrow> legs (call_model_clcc_ok m tc) = legs m"
    by (simp add: call_model_clcc_ok_def Let_def)
  ultimately show ?thesis using L by (metis held_down_let_go held_down_refl let_go_cong)
qed

lemma event_go:
  assumes wf: "wf_model m"
  shows "let_go (legs m) (call_model_on_event m i v st d)"
proof -
  let ?m1 = "cm_touch_shadow m"
  have h: "wf_model ?m1 \<and> held_down (legs m) ?m1" using down.touch [of m "legs m"] wf by simp
  have "1 \<le> i \<and> i \<le> 7" if "i \<noteq> 0" "\<not> 7 < i"
    using that by (simp add: word_le_nat_alt word_less_nat_alt unat_gt_0 Suc_le_eq)
  then have "i \<noteq> 0 \<Longrightarrow> \<not> 7 < i \<Longrightarrow> held_down (legs m) (on_event_live ?m1 i st d)"
    using down.event_live [OF h] by blast
  moreover have "held_down (legs m) (cm_raise_reason ?m1 b)" for b using down.raise [OF h] by blast
  moreover have "let_go (legs m) (on_event_released ?m1 i)"
    using go.released [of ?m1 "legs m"] h held_down_let_go by blast
  ultimately show ?thesis using h
    by (auto simp: call_model_on_event_def Let_def held_down_let_go)
qed

lemma apply_go:
  assumes "wf_model m" and "call_admissible a m"
  shows "let_go (legs m) (call_apply a m)"
proof (cases "leg_evidence a")
  case False
  then show ?thesis using down.apply_client [of m "legs m" a] assms held_down_let_go by simp
next
  case True
  have g: "wf_model m \<and> let_go (legs m) m" using assms(1) by (simp add: held_down_let_go)
  show ?thesis
  proof (cases a)
    case In_Tick
    then show ?thesis using go.tick [OF g] by simp
  qed (use True assms event_go clcc_ok_go [OF assms(1) refl] in simp_all)
qed

text \<open>C4: No operation takes a leg out of RELEASING.  After any input, a leg that was being torn
  down is still RELEASING under the same call id and generation, or its slot has been vacated; no
  event, CLCC row, response or timer makes it a live call again.\<close>

theorem releasing_is_final:
  assumes "wf_model m" and "call_admissible a m" and "k < MODEM_MAX_CALL_LEGS"
    and "lg_in_use (leg_at m k)" and "lg_state (leg_at m k) = CALL_LEG_RELEASING"
    and "lg_in_use (leg_at (call_apply a m) k)"
  shows "lg_id (leg_at (call_apply a m) k) = lg_id (leg_at m k) \<and>
         lg_gen (leg_at (call_apply a m) k) = lg_gen (leg_at m k) \<and>
         lg_state (leg_at (call_apply a m) k) = CALL_LEG_RELEASING"
proof -
  have "k < length (legs m)" using assms(1,3) by (simp add: wf_model_def wf_legs_def)
  then show ?thesis using apply_go [OF assms(1,2)] assms(4-6)
    by (auto simp: let_go_def releasing_def leg_key_def leg_at_def)
qed

theorem releasing_is_final_witness:
  "lg_state (leg_at (call_apply (In_Event 1 True CALL_LEG_ACTIVE CALL_DIR_MO)
     (sample_model CALL_LEG_RELEASING)) 0) = CALL_LEG_RELEASING"
proof -
  have "lg_in_use (leg_at (sample_model CALL_LEG_RELEASING) 0)"
    "lg_state (leg_at (sample_model CALL_LEG_RELEASING) 0) = CALL_LEG_RELEASING"
    by (simp_all add: sample_leg_def)
  then show ?thesis
    using releasing_is_final [OF sample_wf [of CALL_LEG_RELEASING],
        of "In_Event 1 True CALL_LEG_ACTIVE CALL_DIR_MO" 0]
    unfolding sample_late_active by simp
qed

end
