(* ===== verification/Call_Timers.thy ===== *)
theory Call_Timers
  imports Call_Eval
begin

text \<open>
  The bounded-drain guarantees of the tick: no leg outlives its limbo clock, no dispatched
  transaction outlives its abandon deadline, and no unbound incoming episode its ring timeout.
\<close>

section \<open>What an eviction does to the tables\<close>

lemma latch_terminal_tables [simp]:
  "legs (cm_latch_terminal m l r) = legs m" "txns (cm_latch_terminal m l r) = txns m"
  "now_ms (cm_latch_terminal m l r) = now_ms m" "timing (cm_latch_terminal m l r) = timing m"
  "leg_at (cm_latch_terminal m l r) k = leg_at m k"
  by (simp_all add: cm_latch_terminal_def latch_route_def Let_def leg_at_def)

text \<open>The other legs lose at most the ownership of the kept caller id.\<close>

definition leg_core :: "call_leg \<Rightarrow> call_leg" where
  "leg_core l = l\<lparr>lg_mt_cli_valid := False\<rparr>"

lemma leg_core_fields:
  assumes "leg_core l' = leg_core l"
  shows "lg_in_use l' = lg_in_use l" "lg_id l' = lg_id l" "lg_gen l' = lg_gen l"
    "lg_state l' = lg_state l" "lg_pending_removal l' = lg_pending_removal l"
    "lg_first_removal_ms l' = lg_first_removal_ms l"
  using assms unfolding leg_core_def by (metis call_leg.select_convs call_leg.surjective
      call_leg.update_convs(11))+

lemma retire_owner_core: "leg_core (leg_at (cm_retire_compat_cli_owner m j) k) = leg_core (leg_at m k)"
  by (cases "j < length (legs m)"; cases "j = k")
    (simp_all add: cm_retire_compat_cli_owner_def leg_core_def leg_at_def upd_leg_def upd_nth_def
      list_update_beyond)

lemma retire_promoted_core: "leg_core (leg_at (cm_retire_promoted_compat_cli m j) k) = leg_core (leg_at m k)"
  by (simp add: cm_retire_promoted_compat_cli_def retire_owner_core split: option.split)

lemma retire_clock [simp]:
  "now_ms (cm_retire_compat_cli_owner m j) = now_ms m"
  "timing (cm_retire_compat_cli_owner m j) = timing m"
  "now_ms (cm_retire_promoted_compat_cli m j) = now_ms m"
  "timing (cm_retire_promoted_compat_cli m j) = timing m"
  by (simp_all add: cm_retire_promoted_compat_cli_def cm_retire_compat_cli_owner_def split: option.split)

lemma vacate_effect:
  "k < length (legs m) \<Longrightarrow> \<not> lg_in_use (leg_at (leg_vacate k m) k)"
  "j \<noteq> k \<Longrightarrow> leg_at (leg_vacate k m) j = leg_at m j"
  "now_ms (leg_vacate k m) = now_ms m" "timing (leg_vacate k m) = timing m"
  "txns (leg_vacate k m) = txns m" "length (legs (leg_vacate k m)) = length (legs m)"
  by (simp_all add: leg_vacate_def leg_at_def upd_leg_def nth_upd_nth)

lemma evict_effect:
  "k < length (legs m) \<Longrightarrow> \<not> lg_in_use (leg_at (clcc_evict_leg m k) k)"
  "j \<noteq> k \<Longrightarrow> leg_core (leg_at (clcc_evict_leg m k) j) = leg_core (leg_at m j)"
  "now_ms (clcc_evict_leg m k) = now_ms m" "timing (clcc_evict_leg m k) = timing m"
  "txns (clcc_evict_leg m k) = txns m" "length (legs (clcc_evict_leg m k)) = length (legs m)"
  by (simp_all add: evict_leg_vacate Let_def vacate_effect retire_owner_core retire_promoted_core)

section \<open>The clock does not move inside an operation\<close>

definition at_time :: "u32 \<Rightarrow> call_timing \<Rightarrow> call_model \<Rightarrow> bool" where
  "at_time t tm m \<longleftrightarrow> now_ms m = t \<and> timing m = tm"

interpretation clk: call_retirement "at_time t tm" for t tm
proof unfold_locales
  fix m m' :: call_model and h :: "call_projection \<Rightarrow> call_projection"
    and h' :: "call_pending_mt \<Rightarrow> call_pending_mt" and lf :: "call_leg \<Rightarrow> call_leg"
    and tf :: "call_txn \<Rightarrow> call_txn" and i g :: u8 and rec k ti
  assume I: "at_time t tm m"
  show "quiet m m' \<Longrightarrow> at_time t tm m'" using I by (simp add: at_time_def quiet_fields)
  show "at_time t tm (upd_pub h m)" "at_time t tm (upd_mt h' m)" "at_time t tm (upd_leg k lf m)"
    "at_time t tm (cm_queue_release m i g rec)" "at_time t tm (upd_txn ti tf m)"
    using I by (simp_all add: at_time_def)
  show "\<not> tx_in_use (txn_at m ti) \<or> \<not> tx_ever_dispatched (txn_at m ti) \<Longrightarrow>
      at_time t tm (upd_txn ti (\<lambda>_. txn_zero) m)"
    "cm_txn_retirement_eligible m (txn_at m ti) \<Longrightarrow> at_time t tm (upd_txn ti (\<lambda>_. txn_zero) m)"
    using I by (simp_all add: at_time_def)
qed

section \<open>The limbo clock\<close>

definition limbo_expired :: "u32 \<Rightarrow> call_timing \<Rightarrow> call_leg \<Rightarrow> bool" where
  "limbo_expired now tm l \<longleftrightarrow>
     lg_in_use l \<and> lg_first_removal_ms l \<noteq> 0 \<and>
     ms_reached now (lg_first_removal_ms l + leg_limbo_ms tm)"

lemma limbo_core:
  assumes "leg_core l' = leg_core l" shows "limbo_expired t tm l' = limbo_expired t tm l"
  by (simp add: limbo_expired_def leg_core_fields [OF assms])

lemma limbo_one_cases:
  assumes "at_time t tm m"
  shows "removal_limbo_one i m =
     (if limbo_expired t tm (leg_at m i) then clcc_evict_leg (cm_touch_shadow m) i else m)"
  using assms by (simp add: removal_limbo_one_def Let_def at_time_def limbo_expired_def)

lemma limbo_one_effect:
  assumes "at_time t tm m" and "length (legs m) = MODEM_MAX_CALL_LEGS"
  shows "at_time t tm (removal_limbo_one i m)"
    and "length (legs (removal_limbo_one i m)) = MODEM_MAX_CALL_LEGS"
    and "i < MODEM_MAX_CALL_LEGS \<Longrightarrow> \<not> limbo_expired t tm (leg_at (removal_limbo_one i m) i)"
    and "k \<noteq> i \<Longrightarrow> limbo_expired t tm (leg_at (removal_limbo_one i m) k) = limbo_expired t tm (leg_at m k)"
proof -
  note cs = limbo_one_cases [OF assms(1), of i]
  show "at_time t tm (removal_limbo_one i m)" "length (legs (removal_limbo_one i m)) = MODEM_MAX_CALL_LEGS"
    using assms by (simp_all add: cs at_time_def evict_effect)
  show "i < MODEM_MAX_CALL_LEGS \<Longrightarrow> \<not> limbo_expired t tm (leg_at (removal_limbo_one i m) i)"
    using evict_effect(1) [of i "cm_touch_shadow m"] assms(2) by (auto simp: cs limbo_expired_def)
  show "limbo_expired t tm (leg_at (removal_limbo_one i m) k) = limbo_expired t tm (leg_at m k)"
    if "k \<noteq> i"
  proof -
    have "leg_core (leg_at (clcc_evict_leg (cm_touch_shadow m) i) k) = leg_core (leg_at m k)"
      using evict_effect(2) [OF that, of "cm_touch_shadow m"] by simp
    from limbo_core [OF this] show ?thesis by (simp add: cs)
  qed
qed

lemma limbo_drained:
  assumes "at_time t tm m" and "length (legs m) = MODEM_MAX_CALL_LEGS" and "k < MODEM_MAX_CALL_LEGS"
  shows "\<not> limbo_expired t tm (leg_at (cm_advance_removal_limbo m) k)"
  unfolding cm_advance_removal_limbo_def
proof (rule for_each_establish [where k = k and
      I = "\<lambda>m. at_time t tm m \<and> length (legs m) = MODEM_MAX_CALL_LEGS"])
  show "\<not> limbo_expired t tm (leg_at (removal_limbo_one k s) k)"
    if "at_time t tm s \<and> length (legs s) = MODEM_MAX_CALL_LEGS" for s
    using that limbo_one_effect(3) assms(3) by blast
  show "\<not> limbo_expired t tm (leg_at (removal_limbo_one i s) k)"
    if "k < i" "at_time t tm s \<and> length (legs s) = MODEM_MAX_CALL_LEGS"
      "\<not> limbo_expired t tm (leg_at s k)" for i s
    using that limbo_one_effect(4) [of t tm s k i] by simp
qed (use assms limbo_one_effect in auto)

lemma limbo_txns: "txns (cm_advance_removal_limbo m) = txns m"
  unfolding cm_advance_removal_limbo_def
  by (rule for_each_frame [where g = txns])
    (simp add: removal_limbo_one_def Let_def evict_effect)

text \<open>The end of a tick touches neither table.\<close>

lemma tick_tables:
  "legs (call_model_tick m) = legs (cm_advance_removal_limbo (model_reconcile_txns
     (cm_retire_terminal_txns (cm_advance_tombstone_deadlines m))))"
  "txns (call_model_tick m) = txns (model_reconcile_txns
     (cm_retire_terminal_txns (cm_advance_tombstone_deadlines m)))"
  by (simp_all add: call_model_tick_def Let_def tick_clamp_schedule_def cm_recompute_fast_window_def
      cm_advance_pending_mt_def limbo_txns)

text \<open>A ghost leg is bounded.  After every tick no leg in the table has an expired limbo clock: a
  leg that was first suspected, or sent to teardown, longer ago than \<open>leg_limbo_ms\<close> is gone,
  whether or not the network ever confirmed it.\<close>

theorem tick_drains_limbo:
  assumes "wf_model m" and "k < MODEM_MAX_CALL_LEGS" and "lg_in_use (leg_at (call_model_tick m) k)"
    and "lg_first_removal_ms (leg_at (call_model_tick m) k) \<noteq> 0"
  shows "\<not> ms_reached (now_ms m)
           (lg_first_removal_ms (leg_at (call_model_tick m) k) + leg_limbo_ms (timing m))"
proof -
  let ?x = "model_reconcile_txns (cm_retire_terminal_txns (cm_advance_tombstone_deadlines m))"
  have "at_time (now_ms m) (timing m) ?x"
    by (intro clk.reconcile clk.retire_all clk.passes) (simp add: at_time_def)
  moreover have "wf_model ?x" by (intro wf.reconcile wf.retire_all wf.passes assms)
  then have "length (legs ?x) = MODEM_MAX_CALL_LEGS" by (simp add: wf_model_def wf_legs_def)
  ultimately have "\<not> limbo_expired (now_ms m) (timing m) (leg_at (cm_advance_removal_limbo ?x) k)"
    using assms(2) by (rule limbo_drained)
  then show ?thesis using assms(3,4) by (simp add: limbo_expired_def leg_at_def tick_tables)
qed

text \<open>An idle pool makes the tick a pure limbo pass.\<close>

lemma idle_passes:
  assumes "\<And>i. i < MODEM_MAX_CALL_TRANSACTIONS \<Longrightarrow> \<not> tx_in_use (txn_at m i)"
  shows "model_reconcile_txns (cm_retire_terminal_txns (cm_advance_tombstone_deadlines m)) = m"
proof -
  have "cm_advance_tombstone_deadlines m = m"
    unfolding cm_advance_tombstone_deadlines_def
    by (rule for_each_id) (simp add: cm_tombstone_deadline_one_def Let_def assms)
  moreover have "cm_retire_terminal_txns m = m"
    unfolding cm_retire_terminal_txns_def by (rule for_each_id) (simp add: cm_retire_one_def assms)
  ultimately show ?thesis using reconcile_idle [OF assms] by simp
qed

definition sample_suspect :: call_model where
  "sample_suspect = upd_leg 0 (\<lambda>l. l\<lparr>lg_first_removal_ms := 1\<rparr>) (sample_model CALL_LEG_RELEASING)"

lemma sample_suspect_wf: "wf_model sample_suspect"
  unfolding sample_suspect_def
  by (rule wf.leg [OF sample_wf]) (simp add: leg_edit_def leg_key_def)

lemma sample_suspect_tick: "leg_at (call_model_tick sample_suspect) 0 = leg_at sample_suspect 0"
proof -
  have idle: "\<not> tx_in_use (txn_at sample_suspect i)" if "i < MODEM_MAX_CALL_TRANSACTIONS" for i
    using that by (simp add: sample_suspect_def sample_model_def call_model_init_def txn_at_def)
  have "cm_advance_removal_limbo sample_suspect = sample_suspect"
    unfolding cm_advance_removal_limbo_def
    by (rule for_each_id)
      (simp add: removal_limbo_one_def Let_def sample_suspect_def sample_model_def sample_leg_def
        call_model_init_def upd_leg_def upd_nth_def leg_at_def nth_Cons' leg_zero_def
        call_timing_telit_def ms_reached_def)
  then show ?thesis using idle_passes [OF idle] by (simp add: leg_at_def tick_tables)
qed

theorem tick_drains_limbo_witness:
  "\<not> ms_reached (now_ms sample_suspect)
     (lg_first_removal_ms (leg_at (call_model_tick sample_suspect) 0) +
      leg_limbo_ms (timing sample_suspect))"
proof -
  have leg: "leg_at sample_suspect 0 = (sample_leg CALL_LEG_RELEASING)\<lparr>lg_first_removal_ms := 1\<rparr>"
    by (simp add: sample_suspect_def sample_model_def leg_at_def upd_leg_def)
  show ?thesis
    by (rule tick_drains_limbo [OF sample_suspect_wf])
      (simp_all add: sample_suspect_tick leg sample_leg_def)
qed

section \<open>The abandon deadline\<close>

definition overdue :: "u32 \<Rightarrow> call_txn \<Rightarrow> bool" where
  "overdue now t \<longleftrightarrow> tx_in_use t \<and> txn_flight (tx_state t) \<and> tx_abandon_deadline_ms t \<noteq> 0 \<and>
     ms_reached now (tx_abandon_deadline_ms t)"

lemma hard_abandon_other: "i \<noteq> j \<Longrightarrow> txn_at (txn_hard_abandon j m) i = txn_at m i"
  by (simp add: txn_hard_abandon_def Let_def set_txn_state_def cm_cancel_txn_def)

lemma hard_abandon_state:
  "j < length (txns m) \<Longrightarrow> tx_state (txn_at (txn_hard_abandon j m) j) = TXN_FAILED \<or>
     \<not> tx_in_use (txn_at (txn_hard_abandon j m) j)"
proof -
  assume j: "j < length (txns m)"
  have len: "length (txns (cm_cancel_txn m' j)) = length (txns m')" for m'
    by (simp add: cm_cancel_txn_def Let_def)
  show ?thesis using j
    by (simp add: txn_hard_abandon_def Let_def set_txn_state_def txn_at_upd_txn len)
qed

lemma deadline_one_other: "i \<noteq> j \<Longrightarrow> txn_at (txn_deadline_one j m) i = txn_at m i"
  by (simp add: txn_deadline_one_def Let_def hard_abandon_other set_txn_state_def)

lemma deadline_one_self:
  assumes "at_time t tm m" and "j < length (txns m)"
  shows "\<not> overdue t (txn_at (txn_deadline_one j m) j)"
proof (cases "overdue t (txn_at m j)")
  case True
  then have "txn_deadline_one j m = txn_hard_abandon j m"
    using assms(1) by (simp add: txn_deadline_one_def Let_def overdue_def at_time_def in_flight_iff
        txn_is_terminal_iff cm_txn_is_open_def)
  then show ?thesis using hard_abandon_state [OF assms(2)] by (auto simp: overdue_def txn_flight_def)
next
  case False
  then show ?thesis using assms
    by (auto simp: txn_deadline_one_def Let_def overdue_def at_time_def txn_flight_def
        txn_is_terminal_def set_txn_state_def txn_at_upd_txn)
      (cases "tx_state (txn_at m j)"; simp)+
qed

lemma deadline_one_rel:
  assumes "at_time t tm m" and "wf_model m"
  shows "at_time t tm (txn_deadline_one j m) \<and> wf_model (txn_deadline_one j m)"
  using clk.deadline_one [OF assms(1)] wf.deadline_one [OF assms(2)] by simp

lemma wf_slots: "wf_model m \<Longrightarrow> length (txns m) = MODEM_MAX_CALL_TRANSACTIONS"
  by (simp add: wf_model_def wf_pool_def)

lemma deadlines_drained:
  assumes "at_time t tm m" and "wf_model m" and "k < MODEM_MAX_CALL_TRANSACTIONS"
  shows "\<not> overdue t (txn_at (txn_deadlines m) k)"
  unfolding txn_deadlines_def
proof (rule for_each_establish [where k = k and I = "\<lambda>m. at_time t tm m \<and> wf_model m"])
  show "\<not> overdue t (txn_at (txn_deadline_one k s) k)" if "at_time t tm s \<and> wf_model s" for s
    using that assms(3) by (intro deadline_one_self [of t tm]) (simp_all add: wf_slots)
  show "\<not> overdue t (txn_at (txn_deadline_one i s) k)"
    if "k < i" "\<not> overdue t (txn_at s k)" for i s
    using that by (simp add: deadline_one_other)
qed (use assms deadline_one_rel in auto)

text \<open>Binding a tombstone changes neither the state nor the deadline of any transaction.\<close>

lemma bind_tombstone_overdue:
  "overdue t (txn_at (cm_bind_tombstone j m) k) = overdue t (txn_at m k)"
proof -
  have upd: "overdue t (txn_at (upd_txn j (\<lambda>t. t\<lparr>tx_bound_id := i, tx_bound_gen := g\<rparr>) m) k) =
      overdue t (txn_at m k)" for i g
    by (rule txn_at_upd_txn_field [of "overdue t"]) (simp add: overdue_def)
  show ?thesis
    by (auto simp: cm_bind_tombstone_def Let_def upd split: option.split list.split)
qed

lemma bind_tombstones_overdue:
  "overdue t (txn_at (cm_bind_tombstones m) k) = overdue t (txn_at m k)"
  unfolding cm_bind_tombstones_def
  by (rule for_each_frame [where g = "\<lambda>m. overdue t (txn_at m k)"]) (rule bind_tombstone_overdue)

text \<open>C6: A dispatched transaction is bounded.  After every tick no transaction in flight has reached
  its abandon deadline, and every one in flight has an abandon deadline: the first tick at or
  after the deadline settles it, whatever the modem does or does not answer.\<close>

theorem tick_settles_overdue:
  assumes "wf_model m" and "i < MODEM_MAX_CALL_TRANSACTIONS"
    and "tx_in_use (txn_at (call_model_tick m) i)"
    and "txn_flight (tx_state (txn_at (call_model_tick m) i))"
  shows "tx_abandon_deadline_ms (txn_at (call_model_tick m) i) \<noteq> 0 \<and>
         \<not> ms_reached (now_ms m) (tx_abandon_deadline_ms (txn_at (call_model_tick m) i))"
proof -
  let ?t = "txn_at (call_model_tick m) i"
  let ?x = "cm_retire_terminal_txns (cm_advance_tombstone_deadlines m)"
  let ?y = "txn_resolve (txn_confirm_tentative (txn_bind_targets (txn_bind_dials ?x)))"
  have "at_time (now_ms m) (timing m) ?y"
    by (intro clk.passes clk.retire_all) (simp add: at_time_def)
  moreover have "wf_model ?y" by (intro wf.passes wf.retire_all assms)
  ultimately have "\<not> overdue (now_ms m) (txn_at (txn_deadlines ?y) i)"
    using assms(2) by (rule deadlines_drained)
  then have "\<not> overdue (now_ms m) ?t"
    using bind_tombstones_overdue by (simp add: txn_at_def tick_tables model_reconcile_txns_def)
  moreover have "wf_model (call_model_tick m)" by (rule wf.tick [OF assms(1)])
  then have "txn_ok ?t" using assms(2) by (simp add: wf_model_def wf_pool_def txn_at_def)
  then have "tx_abandon_deadline_ms ?t \<noteq> 0"
    using assms(3,4) by (simp add: txn_ok_def)
  ultimately show ?thesis using assms(3,4) by (simp add: overdue_def)
qed

text \<open>One dispatched dial, with no leg yet.\<close>

definition sample_txn :: call_txn where
  "sample_txn = txn_zero\<lparr>tx_in_use := True, tx_token := 1, tx_kind := CALL_TXN_DIAL,
     tx_state := TXN_DISPATCHED, tx_ever_dispatched := True, tx_policy_deadline_ms := 40000,
     tx_abandon_deadline_ms := 120000\<rparr>"

definition sample_dial :: call_model where
  "sample_dial = (call_model_init (Some call_timing_telit))
     \<lparr>txns := txn_zero # sample_txn # replicate 10 txn_zero\<rparr>"

lemma sample_dial_nth:
  "i < MODEM_MAX_CALL_TRANSACTIONS \<Longrightarrow> txns sample_dial ! i = (if i = 1 then sample_txn else txn_zero)"
  "length (txns sample_dial) = MODEM_MAX_CALL_TRANSACTIONS"
  by (simp_all add: sample_dial_def nth_Cons')

lemma sample_dial_at:
  "i < MODEM_MAX_CALL_TRANSACTIONS \<Longrightarrow> txn_at sample_dial i = (if i = 1 then sample_txn else txn_zero)"
  by (simp add: txn_at_def sample_dial_nth)

lemma sample_dial_wf: "wf_model sample_dial"
proof -
  have "txn_ok sample_txn" "tx_kind sample_txn \<noteq> CALL_TXN_HANGUP"
    by (simp_all add: sample_txn_def txn_ok_def txn_zero_def)
  then have "wf_pool (txns sample_dial)"
    by (simp add: wf_pool_def sample_dial_nth)
  then show ?thesis using init_wf [of "Some call_timing_telit"]
    by (simp add: wf_model_def sample_dial_def)
qed

lemma sample_dial_legs: "filter P (legs sample_dial) = (if P leg_zero then replicate 7 leg_zero else [])"
  "k < MODEM_MAX_CALL_LEGS \<Longrightarrow> leg_at sample_dial k = leg_zero" "now_ms sample_dial = 0"
  by (simp_all add: sample_dial_def call_model_init_def leg_at_def)

lemma sample_dial_1: "txn_at sample_dial 1 = sample_txn" "txn_at sample_dial (Suc 0) = sample_txn"
  by (simp_all add: sample_dial_at)

text \<open>A pass that leaves the free slots and the one dial alone leaves the model alone.\<close>

lemma sample_pass:
  assumes "f 1 sample_dial = sample_dial"
    and "\<And>i. \<not> tx_in_use (txn_at sample_dial i) \<Longrightarrow> f i sample_dial = sample_dial"
  shows "for_each MODEM_MAX_CALL_TRANSACTIONS f sample_dial = sample_dial"
proof (rule for_each_id)
  fix i assume "i < MODEM_MAX_CALL_TRANSACTIONS"
  then show "f i sample_dial = sample_dial"
    using assms by (cases "i = 1") (simp_all add: sample_dial_at)
qed

lemma sample_txn_fields [simp]:
  "tx_in_use sample_txn" "tx_kind sample_txn = CALL_TXN_DIAL" "tx_state sample_txn = TXN_DISPATCHED"
  "tx_bound_id sample_txn = 0" "\<not> tx_is_tombstone sample_txn" "\<not> txn_is_terminal sample_txn"
  "tx_policy_deadline_ms sample_txn = 40000" "tx_abandon_deadline_ms sample_txn = 120000"
  by (simp_all add: sample_txn_def txn_is_terminal_def)

lemma sample_dial_tick: "txn_at (call_model_tick sample_dial) 1 = sample_txn"
proof -
  have early: "\<not> ms_reached 0 40000" "\<not> ms_reached 0 120000" by (simp_all add: ms_reached_def)
  have none: "dial_candidate sample_dial 1 leg_zero = False"
    by (simp add: dial_candidate_def leg_zero_def)
  have "cm_advance_tombstone_deadlines sample_dial = sample_dial"
    unfolding cm_advance_tombstone_deadlines_def
    by (rule sample_pass) (simp_all only: cm_tombstone_deadline_one_def Let_def sample_dial_1, simp_all)
  moreover have "cm_retire_terminal_txns sample_dial = sample_dial"
    unfolding cm_retire_terminal_txns_def
    by (rule sample_pass)
      (simp_all only: cm_retire_one_def sample_dial_1 cm_txn_retirement_eligible_def, simp_all)
  moreover have "txn_bind_dials sample_dial = sample_dial"
    unfolding txn_bind_dials_def
    by (rule sample_pass)
      (simp_all only: txn_bind_dial_def Let_def sample_dial_1 sample_dial_legs none, simp_all)
  moreover have "txn_bind_targets sample_dial = sample_dial"
    unfolding txn_bind_targets_def
    by (rule sample_pass) (simp_all only: txn_bind_target_def Let_def sample_dial_1, simp_all)
  moreover have "txn_confirm_tentative sample_dial = sample_dial"
    unfolding txn_confirm_tentative_def
    by (rule sample_pass) (simp_all only: txn_confirm_one_def Let_def sample_dial_1, simp_all)
  moreover have "resolve_dial 1 sample_dial = sample_dial"
    by (simp only: resolve_dial_def Let_def sample_dial_1, simp)
  then have "txn_resolve sample_dial = sample_dial"
    unfolding txn_resolve_def
    by (intro sample_pass) (simp_all only: txn_resolve_one_def Let_def sample_dial_1, simp_all add: sample_dial_1)
  moreover have "txn_deadlines sample_dial = sample_dial"
    unfolding txn_deadlines_def
    by (rule sample_pass)
      (simp_all only: txn_deadline_one_def Let_def sample_dial_1 sample_dial_legs, simp_all add: early)
  moreover have "cm_bind_tombstones sample_dial = sample_dial"
    unfolding cm_bind_tombstones_def
    by (rule sample_pass) (simp_all only: cm_bind_tombstone_def Let_def sample_dial_1, simp_all)
  ultimately have "txns (call_model_tick sample_dial) = txns sample_dial"
    by (simp only: tick_tables model_reconcile_txns_def)
  then show ?thesis using sample_dial_1 by (simp only: txn_at_def)
qed

theorem tick_settles_overdue_witness:
  "tx_abandon_deadline_ms (txn_at (call_model_tick sample_dial) 1) = 120000 \<and>
   \<not> ms_reached (now_ms sample_dial) (tx_abandon_deadline_ms (txn_at (call_model_tick sample_dial) 1))"
proof -
  have "tx_in_use (txn_at (call_model_tick sample_dial) 1)"
    "txn_flight (tx_state (txn_at (call_model_tick sample_dial) 1))"
    unfolding sample_dial_tick by (simp_all add: sample_txn_def txn_flight_def)
  from tick_settles_overdue [OF sample_dial_wf _ this]
  have "\<not> ms_reached (now_ms sample_dial)
      (tx_abandon_deadline_ms (txn_at (call_model_tick sample_dial) 1))" by simp
  moreover have "tx_abandon_deadline_ms (txn_at (call_model_tick sample_dial) 1) = 120000"
    unfolding sample_dial_tick by (simp add: sample_txn_def)
  ultimately show ?thesis by blast
qed

end
