(* ===== verification/Call_Ownership.thy ===== *)
theory Call_Ownership
  imports Call_Timers Call_Safety
begin

text \<open>
  Safety of the transaction pool and of what is shown: a dispatched transaction leaves the pool
  only by retirement, two dials never own one leg, a poll in progress is closed only by its
  final, and only the projector moves the published call state.
\<close>

section \<open>Properties of the pool alone\<close>

text \<open>A property of the well-formed pool that edits, cancellations before dispatch and rewrites
  keep is kept by every input but the tick and a request; with retirement and admission, by all.\<close>

locale pool_property =
  fixes P :: "call_txn list \<Rightarrow> bool"
  assumes pedit: "wf_model m \<Longrightarrow> P (txns m) \<Longrightarrow> txn_edit (txn_at m ti) (tf (txn_at m ti)) \<Longrightarrow>
      bind_fresh m ti (tf (txn_at m ti)) \<Longrightarrow> P (upd_nth ti tf (txns m))"
    and pdrop: "P ts \<Longrightarrow> \<not> tx_in_use (ts ! ti) \<or> \<not> tx_ever_dispatched (ts ! ti) \<Longrightarrow>
      P (upd_nth ti (\<lambda>_. txn_zero) ts)"
    and pmap: "P ts \<Longrightarrow> (\<And>t. txn_edit t (tf t)) \<Longrightarrow>
      (\<And>t. tx_bound_id (tf t) = tx_bound_id t \<and> tx_bound_gen (tf t) = tx_bound_gen t) \<Longrightarrow>
      P (map tf ts)"

sublocale pool_property \<subseteq> ev: call_recorder "\<lambda>m. wf_model m \<and> P (txns m)"
proof unfold_locales
  fix m m' :: call_model and h :: "call_projection \<Rightarrow> call_projection"
    and h' :: "call_pending_mt \<Rightarrow> call_pending_mt" and lf :: "call_leg \<Rightarrow> call_leg"
    and tf :: "call_txn \<Rightarrow> call_txn" and i g :: u8 and rec k ti ab t n r e b
    and pr :: call_projection
  assume "wf_model m \<and> P (txns m)"
  then have wf: "wf_model m" and I: "P (txns m)" by simp_all
  let ?I = "\<lambda>m. wf_model m \<and> P (txns m)"
  show "quiet m m' \<Longrightarrow> ?I m'" using wf.quiet [OF wf] I by (simp add: quiet_fields)
  show "latch_only h \<Longrightarrow> ?I (upd_pub h m)" using wf.latch [OF wf] I by simp
  show "mt_edit (pending_mt m) (h' (pending_mt m)) \<Longrightarrow> ?I (upd_mt h' m)"
    using wf.episode [OF wf] I by simp
  show "?I (cm_queue_release m i g rec)" using wf.queue [OF wf] I by simp
  show "leg_edit (leg_at m k) (lf (leg_at m k)) \<Longrightarrow> ?I (upd_leg k lf m)"
    using wf.leg [OF wf] I by simp
  show "txn_edit (txn_at m ti) (tf (txn_at m ti)) \<Longrightarrow> bind_fresh m ti (tf (txn_at m ti)) \<Longrightarrow>
      ?I (upd_txn ti tf m)"
    using wf.edit [OF wf] pedit [OF wf I] by (simp add: upd_txn_def)
  show "\<not> tx_in_use (txn_at m ti) \<or> \<not> tx_ever_dispatched (txn_at m ti) \<Longrightarrow>
      ?I (upd_txn ti (\<lambda>_. txn_zero) m)"
    using wf.drop [OF wf] pdrop [OF I] by (simp add: upd_txn_def txn_at_def)
  show "?I (m\<lparr>txns := map tf (txns m)\<rparr>)" if "\<And>t. txn_edit t (tf t)"
    "\<And>t. tx_bound_id (tf t) = tx_bound_id t \<and> tx_bound_gen (tf t) = tx_bound_gen t"
    using wf.edit_all [OF wf that] pmap [OF I that] by simp
  show "?I (m\<lparr>legs := map lf (legs m)\<rparr>)" if "\<And>l. leg_edit l (lf l)"
    using wf.leg_all [OF wf that] I by simp
  show "mt_shape h' \<Longrightarrow> ?I (mt_open_episode h' m)" using wf.open_episode [OF wf] I by simp
  show "length (mt_number (pending_mt m)) \<le> MODEM_PHONE_MAX" by (rule wf.number [OF wf])
  show "?I (m\<lparr>now_ms := t\<rparr>)" "?I (m\<lparr>journal := []\<rparr>)" "?I (m\<lparr>shadow_open := b, shadow := []\<rparr>)"
    "?I (m\<lparr>release_queue := drop n (release_queue m)\<rparr>)" "?I (m\<lparr>shadow_open := False\<rparr>)"
    "?I (m\<lparr>absent := ab\<rparr>)"
    using wf.clock [OF wf] wf.journal_drop [OF wf] wf.shadow_drop [OF wf] wf.queue_drop [OF wf]
      wf.shadow_close [OF wf] wf.absences [OF wf] I by simp_all
  show "shadow_open m \<Longrightarrow> length (shadow m) < MODEM_MAX_CALL_LEGS \<Longrightarrow> row_ok r \<Longrightarrow>
      \<not> clcc_id_in_shadow m (lg_id r) \<Longrightarrow> ?I (m\<lparr>shadow := shadow m @ [r]\<rparr>)"
    using wf.shadow_row [OF wf] I by simp
  show "\<not> proj_inconsistent m \<Longrightarrow> proj_row m = Some pr \<Longrightarrow>
      ?I (m\<lparr>legs := map (proj_publish_leg m (proj_counts m)) (legs m), published := pr\<rparr>)"
    using wf.publish [OF wf] I by simp
  show "1 \<le> i \<Longrightarrow> i \<le> 7 \<Longrightarrow> cm_find_leg_by_id m i = None \<Longrightarrow> ?I (fst (cm_alloc_leg m i))"
    using wf.alloc [OF wf] I by (simp add: cm_alloc_leg_def Let_def split: option.splits)
  show "r \<in> set (shadow m) \<Longrightarrow> row_ok r" by (rule wf.rows [OF wf])
  show "lg_in_use (leg_at m k) \<Longrightarrow> k < length (legs m) \<or> k < MODEM_MAX_CALL_LEGS \<Longrightarrow>
      ?I (leg_vacate k m)" using wf.vacate [OF wf] I by (simp add: leg_vacate_def)
  show "length (journal m) < MODEM_MAX_CALL_LEGS \<Longrightarrow> je_in_use e \<Longrightarrow>
      ?I (m\<lparr>journal := journal m @ [e]\<rparr>)" using wf.journal [OF wf] I by simp
qed

locale pool_property_full = pool_property +
  assumes pretire: "P ts \<Longrightarrow> P (upd_nth ti (\<lambda>_. txn_zero) ts)"
    and padmit: "wf_model m \<Longrightarrow> P (txns m) \<Longrightarrow> txn_at m slot = txn_zero \<Longrightarrow>
      P (upd_nth slot (\<lambda>_. txn_zero\<lparr>tx_in_use := True, tx_token := tok, tx_kind := kind,
           tx_state := TXN_PENDING, tx_second_mo := second,
           tx_result := MODEM_CALL_RESULT_NONE\<rparr>) (txns m))"

sublocale pool_property_full \<subseteq> all: call_api "\<lambda>m. wf_model m \<and> P (txns m)"
proof unfold_locales
  fix m :: call_model and ti slot kind tok second
  assume "wf_model m \<and> P (txns m)"
  then have wf: "wf_model m" and I: "P (txns m)" by simp_all
  let ?I = "\<lambda>m. wf_model m \<and> P (txns m)"
  show "cm_txn_retirement_eligible m (txn_at m ti) \<Longrightarrow> ?I (upd_txn ti (\<lambda>_. txn_zero) m)"
    using wf.retire [OF wf] pretire [OF I] by (simp add: upd_txn_def)
  show "?I (snd (cm_alloc_token m))" using wf.token [OF wf] I by (simp add: alloc_token_other)
  show "?I (upd_txn slot (\<lambda>t. t\<lparr>tx_in_use := True, tx_token := tok, tx_kind := kind,
           tx_state := TXN_PENDING, tx_second_mo := second,
           tx_result := MODEM_CALL_RESULT_NONE\<rparr>) m)"
    if "slot < MODEM_MAX_CALL_TRANSACTIONS" "slot < length (txns m) \<Longrightarrow> txn_at m slot = txn_zero"
      "kind \<noteq> CALL_TXN_NONE" "kind = CALL_TXN_HANGUP \<longleftrightarrow> slot = 0"
      "length (txns m) = MODEM_MAX_CALL_TRANSACTIONS \<Longrightarrow> tok \<noteq> 0 \<and> \<not> cm_token_live m tok"
  proof -
    have z: "txn_at m slot = txn_zero" using that(1,2) wf by (simp add: wf_model_def wf_pool_def)
    show ?thesis using wf.admit [OF wf that] padmit [OF wf I z] z
      by (simp add: upd_txn_def upd_nth_def txn_at_def)
  qed
qed

section \<open>Dispatched transactions are kept\<close>

definition txn_survives :: "call_txn \<Rightarrow> call_txn \<Rightarrow> bool" where
  "txn_survives t t' \<longleftrightarrow>
     tx_in_use t' \<and> tx_token t' = tx_token t \<and> tx_kind t' = tx_kind t \<and>
     tx_second_mo t' = tx_second_mo t \<and> tx_ever_dispatched t' \<and>
     (tx_is_tombstone t \<longrightarrow> tx_is_tombstone t') \<and>
     (txn_is_terminal t \<and> tx_kind t \<noteq> CALL_TXN_DIAL \<longrightarrow> txn_is_terminal t')"

definition pool_kept :: "call_txn list \<Rightarrow> call_txn list \<Rightarrow> bool" where
  "pool_kept T ts \<longleftrightarrow>
     length ts = length T \<and>
     (\<forall>i < length T. tx_in_use (T ! i) \<longrightarrow> tx_ever_dispatched (T ! i) \<longrightarrow> txn_survives (T ! i) (ts ! i))"

lemma pool_kept_refl [simp]: "pool_kept T T"
  by (simp add: pool_kept_def txn_survives_def)

lemma txn_survives_edit: "txn_survives t t' \<Longrightarrow> txn_edit t' t'' \<Longrightarrow> txn_survives t t''"
  by (simp add: txn_survives_def txn_edit_def)

lemma pool_kept_upd:
  assumes "pool_kept T ts" and "txn_edit (ts ! k) (f (ts ! k))"
  shows "pool_kept T (upd_nth k f ts)"
proof -
  have "txn_survives (T ! i) (upd_nth k f ts ! i)"
    if "i < length T" "tx_in_use (T ! i)" "tx_ever_dispatched (T ! i)" for i
    using assms that txn_survives_edit
    by (cases "k = i") (auto simp: pool_kept_def nth_upd_nth)
  then show ?thesis using assms by (simp add: pool_kept_def)
qed

lemma pool_kept_drop:
  assumes "pool_kept T ts" and "\<not> tx_in_use (ts ! k) \<or> \<not> tx_ever_dispatched (ts ! k)"
  shows "pool_kept T (upd_nth k (\<lambda>_. txn_zero) ts)"
proof -
  have "txn_survives (T ! i) (upd_nth k (\<lambda>_. txn_zero) ts ! i)"
    if "i < length T" "tx_in_use (T ! i)" "tx_ever_dispatched (T ! i)" for i
    using assms that by (cases "k = i") (auto simp: pool_kept_def nth_upd_nth txn_survives_def)
  then show ?thesis using assms by (simp add: pool_kept_def)
qed

lemma pool_kept_map: "pool_kept T ts \<Longrightarrow> (\<And>t. txn_edit t (f t)) \<Longrightarrow> pool_kept T (map f ts)"
  using txn_survives_edit by (auto simp: pool_kept_def)

interpretation kept: pool_property "pool_kept T" for T
  by unfold_locales (simp_all add: pool_kept_upd pool_kept_drop pool_kept_map txn_at_def)

lemma pool_kept_admit:
  assumes "pool_kept T ts" "k < length ts \<Longrightarrow> \<not> tx_in_use (ts ! k)"
  shows "pool_kept T (upd_nth k f ts)"
  using assms by (auto simp: pool_kept_def nth_upd_nth txn_survives_def)

interpretation kept_admit: call_admit "\<lambda>m. wf_model m \<and> pool_kept T (txns m)" for T
proof unfold_locales
  fix m :: call_model and slot kind tok second
  assume I: "wf_model m \<and> pool_kept T (txns m)"
  then show "wf_model (snd (cm_alloc_token m)) \<and> pool_kept T (txns (snd (cm_alloc_token m)))"
    using wf.token by (simp add: alloc_token_other)
  show "wf_model (upd_txn slot (\<lambda>t. t\<lparr>tx_in_use := True, tx_token := tok, tx_kind := kind,
           tx_state := TXN_PENDING, tx_second_mo := second, tx_result := MODEM_CALL_RESULT_NONE\<rparr>) m) \<and>
      pool_kept T (txns (upd_txn slot (\<lambda>t. t\<lparr>tx_in_use := True, tx_token := tok, tx_kind := kind,
           tx_state := TXN_PENDING, tx_second_mo := second, tx_result := MODEM_CALL_RESULT_NONE\<rparr>) m))"
    if "slot < MODEM_MAX_CALL_TRANSACTIONS" "slot < length (txns m) \<Longrightarrow> txn_at m slot = txn_zero"
      "kind \<noteq> CALL_TXN_NONE" "kind = CALL_TXN_HANGUP \<longleftrightarrow> slot = 0"
      "length (txns m) = MODEM_MAX_CALL_TRANSACTIONS \<Longrightarrow> tok \<noteq> 0 \<and> \<not> cm_token_live m tok"
  proof -
    have "pool_kept T (upd_nth slot f (txns m))" for f
      using I that(2) by (intro pool_kept_admit) (simp_all add: txn_at_def)
    then show ?thesis
      using wf.admit [OF conjunct1 [OF I] that] by (simp add: upd_txn_def)
  qed
qed

text \<open>Retirement looks at one slot after the other; what it empties was settled and clear.\<close>

lemma upd_nth_at: "upd_nth j f xs ! i = (if i = j \<and> j < length xs then f (xs ! j) else xs ! i)"
  by (auto simp: upd_nth_def nth_list_update list_update_beyond)

lemma retire_one_at:
  "txn_at (cm_retire_one j m) i =
     (if i = j \<and> i < length (txns m) \<and> tx_in_use (txn_at m i) \<and> cm_txn_retirement_eligible m (txn_at m i)
      then txn_zero else txn_at m i)"
  by (auto simp: cm_retire_one_def txn_at_def upd_txn_def upd_nth_at)

lemma retire_one_legs [simp]: "legs (cm_retire_one j m) = legs m"
  by (simp add: cm_retire_one_def)

lemma retire_fold_at:
  assumes "distinct xs"
  shows "txn_at (fold cm_retire_one xs m) i = txn_at m i \<or>
    i \<in> set xs \<and> (\<exists>m'. legs m' = legs m \<and> (xs \<noteq> [] \<and> i = hd xs \<longrightarrow> m' = m) \<and>
       cm_txn_retirement_eligible m' (txn_at m i))"
  using assms
proof (induction xs arbitrary: m)
  case (Cons x xs)
  have frame: "txn_at (fold cm_retire_one ys m') i = txn_at m' i" if "i \<notin> set ys" for ys m'
    using that by (induction ys arbitrary: m') (simp_all add: retire_one_at)
  show ?case
  proof (cases "i = x")
    case True
    then show ?thesis
      using Cons.prems frame [of xs "cm_retire_one x m"] by (auto simp: retire_one_at)
  next
    case False
    then have "txn_at (cm_retire_one x m) i = txn_at m i"
      by (simp add: retire_one_at)
    with Cons.IH [of "cm_retire_one x m"] Cons.prems False show ?thesis
      by auto
  qed
qed simp

text \<open>Except for HANGUP, whether a transaction is clear depends on the legs alone.\<close>

lemma cleanup_legs:
  "tx_kind t \<noteq> CALL_TXN_HANGUP \<Longrightarrow>
     (\<And>i g. (cm_find_leg m i g = None) = (cm_find_leg m' i g = None)) \<Longrightarrow>
     cm_txn_cleanup_resolved m t = cm_txn_cleanup_resolved m' t"
  by (cases "tx_kind t") (simp_all add: cm_txn_cleanup_resolved_def Let_def)

lemma find_leg_legs: "legs m = legs m' \<Longrightarrow> cm_find_leg m i g = cm_find_leg m' i g"
  by (simp add: cm_find_leg_def)

lemma find_leg_keys:
  assumes "leg_keys m = leg_keys m'"
  shows "(cm_find_leg m i g = None) = (cm_find_leg m' i g = None)"
proof -
  have "(cm_find_leg n i g = None) = ((True, i, g) \<notin> set (leg_keys n))" for n
    by (auto simp: cm_find_leg_def find_idx_None_iff leg_keys_def leg_key_def simp del: not_None_eq)
  then show ?thesis using assms by simp
qed

lemma retired_eligible:
  assumes "wf_model m" "distinct xs" "set xs \<subseteq> {..<12}" "0 \<in> set xs \<Longrightarrow> hd xs = 0" "tx_in_use (txn_at m i)"
  shows "txn_at (fold cm_retire_one xs m) i = txn_at m i \<or>
    i \<in> set xs \<and> cm_txn_retirement_eligible m (txn_at m i)"
proof (rule disjE [OF retire_fold_at [OF assms(2), of m i]])
  assume "i \<in> set xs \<and> (\<exists>m'. legs m' = legs m \<and> (xs \<noteq> [] \<and> i = hd xs \<longrightarrow> m' = m) \<and>
       cm_txn_retirement_eligible m' (txn_at m i))"
  then obtain m' where m': "i \<in> set xs" "legs m' = legs m" "xs \<noteq> [] \<and> i = hd xs \<Longrightarrow> m' = m"
    "cm_txn_retirement_eligible m' (txn_at m i)"
    by auto
  have "cm_txn_retirement_eligible m (txn_at m i)"
  proof (cases "i = 0")
    case True
    then have "m' = m" using m'(1,3) assms(4) by (cases xs) auto
    then show ?thesis using m'(4) by simp
  next
    case False
    have "tx_kind (txn_at m i) \<noteq> CALL_TXN_HANGUP"
      using assms(1,3,5) m'(1) False by (auto simp: wf_model_def wf_pool_def txn_at_def)
    then show ?thesis
      using m'(4) cleanup_legs [of "txn_at m i" m m'] find_leg_legs [OF m'(2)]
      by (simp add: cm_txn_retirement_eligible_def)
  qed
  with m'(1) show ?thesis by simp
qed simp

lemma cleanup_flag:
  "txn_is_terminal (t\<lparr>tx_cleanup_confirmed := b\<rparr>) = txn_is_terminal t"
  "cm_txn_output_resolved (t\<lparr>tx_cleanup_confirmed := b\<rparr>) = cm_txn_output_resolved t"
  by (simp_all add: txn_is_terminal_def cm_txn_output_resolved_def cm_op_descriptor_def)

lemma tombstone_deadline_at:
  "txn_at (cm_tombstone_deadline_one j m) i = txn_at m i \<or>
   tx_is_tombstone (txn_at m i) \<and> txn_unbound (txn_at m i) \<and> tx_tombstone_deadline_ms (txn_at m i) \<noteq> 0 \<and>
     ms_reached (now_ms m) (tx_tombstone_deadline_ms (txn_at m i)) \<and>
     txn_at (cm_tombstone_deadline_one j m) i = (txn_at m i)\<lparr>tx_cleanup_confirmed := True\<rparr>"
  by (auto simp: cm_tombstone_deadline_one_def Let_def txn_at_def upd_txn_def upd_nth_at)

lemma tombstone_deadline_frame:
  "now_ms (cm_tombstone_deadline_one j m) = now_ms m"
  "i \<noteq> j \<Longrightarrow> txn_at (cm_tombstone_deadline_one j m) i = txn_at m i"
  by (simp_all add: cm_tombstone_deadline_one_def Let_def)

lemma tombstone_deadlines_at:
  "txn_at (cm_advance_tombstone_deadlines m) i = txn_at m i \<or>
   tx_is_tombstone (txn_at m i) \<and> txn_unbound (txn_at m i) \<and> tx_tombstone_deadline_ms (txn_at m i) \<noteq> 0 \<and>
     ms_reached (now_ms m) (tx_tombstone_deadline_ms (txn_at m i)) \<and>
     txn_at (cm_advance_tombstone_deadlines m) i = (txn_at m i)\<lparr>tx_cleanup_confirmed := True\<rparr>"
proof -
  have "now_ms (for_each n cm_tombstone_deadline_one m) = now_ms m \<and>
    (n \<le> i \<longrightarrow> txn_at (for_each n cm_tombstone_deadline_one m) i = txn_at m i) \<and>
    (txn_at (for_each n cm_tombstone_deadline_one m) i = txn_at m i \<or>
     tx_is_tombstone (txn_at m i) \<and> txn_unbound (txn_at m i) \<and> tx_tombstone_deadline_ms (txn_at m i) \<noteq> 0 \<and>
     ms_reached (now_ms m) (tx_tombstone_deadline_ms (txn_at m i)) \<and>
     txn_at (for_each n cm_tombstone_deadline_one m) i = (txn_at m i)\<lparr>tx_cleanup_confirmed := True\<rparr>)" for n
  proof (induction n)
    case (Suc n)
    then show ?case
      using tombstone_deadline_at [of n "for_each n cm_tombstone_deadline_one m" i]
        tombstone_deadline_frame(1) [of n "for_each n cm_tombstone_deadline_one m"]
        tombstone_deadline_frame(2) [of i n "for_each n cm_tombstone_deadline_one m"]
      by (cases "i = n") (auto simp: for_each_Suc)
  qed simp
  then show ?thesis
    by (simp add: cm_advance_tombstone_deadlines_def)
qed

text \<open>A new DIAL cancels the open ones of its role, which leaves a tombstone of what was dispatched.\<close>

lemma cancel_at:
  "txn_at (cm_cancel_txn m j) i =
     (if i \<noteq> j \<or> length (txns m) \<le> j then txn_at m i
      else if tx_ever_dispatched (txn_at m j)
      then tombstone_txn (now_ms (cm_abandon_leg (cm_clear_pending_terminal_for_token (cm_touch_shadow m)
             (tx_token (txn_at m j))) j) + txn_abandon_ms (timing (cm_abandon_leg
             (cm_clear_pending_terminal_for_token (cm_touch_shadow m) (tx_token (txn_at m j))) j))) (txn_at m j)
      else txn_zero)"
  by (auto simp: cm_cancel_txn_def Let_def txn_at_def upd_txn_def upd_nth_at)

lemma supersede_at:
  assumes "request_supersede m second = Some m1" "tx_in_use (txn_at m i)" "tx_ever_dispatched (txn_at m i)"
  shows "txn_at m1 i = txn_at m i \<or>
    same_role_dial second (txn_at m i) \<and> (\<exists>d. txn_at m1 i = tombstone_txn d (txn_at m i))"
proof -
  have "(n \<le> i \<longrightarrow> txn_at (for_each n (supersede_one second) m) i = txn_at m i) \<and>
    (txn_at (for_each n (supersede_one second) m) i = txn_at m i \<or>
     same_role_dial second (txn_at m i) \<and>
       (\<exists>d. txn_at (for_each n (supersede_one second) m) i = tombstone_txn d (txn_at m i)))" for n
  proof (induction n)
    case (Suc n)
    then show ?case
      using assms(3) by (cases "i = n") (auto simp: for_each_Suc supersede_one_def cancel_at)
  qed simp
  then show ?thesis
    using assms(1) by (auto simp: request_supersede_def Let_def split: if_splits)
qed

lemma supersede_keys:
  assumes "wf_model m" "request_supersede m second = Some m1"
  shows "leg_keys m1 = leg_keys m"
proof -
  have "same_legs m m1"
    using assms by (intro pop.supersede [of m m second m1] same_legs_refl) (simp_all add: wf_model_def)
  then show ?thesis by (simp add: same_legs_def)
qed

lemma reclaim_fold_fst: "fst (fold reclaim_general xs s) = fold cm_retire_one xs (fst s)"
  by (induction xs arbitrary: s) (simp_all add: reclaim_general_def case_prod_unfold Let_def)

lemma request_slot_retires:
  "fst (request_slot m kind) = fold cm_retire_one (if kind = CALL_TXN_HANGUP then [0] else [1..<12]) m"
  by (simp add: request_slot_def Let_def reclaim_fold_fst)

lemma eligible_zero: "cm_txn_retirement_eligible m t \<Longrightarrow> txn_is_terminal t \<and> cm_txn_output_resolved t"
  by (simp add: cm_txn_retirement_eligible_def)

lemma txn_survives_refl: "tx_in_use t \<Longrightarrow> tx_ever_dispatched t \<Longrightarrow> txn_survives t t"
  by (simp add: txn_survives_def)

lemma survivesD: "pool_kept (txns m) ts \<Longrightarrow> i < length (txns m) \<Longrightarrow> tx_in_use (txn_at m i) \<Longrightarrow>
    tx_ever_dispatched (txn_at m i) \<Longrightarrow> txn_survives (txn_at m i) (ts ! i)"
  by (simp add: pool_kept_def txn_at_def)

lemma survives_trans: "txn_survives a b \<Longrightarrow> txn_survives b c \<Longrightarrow> txn_survives a c"
  by (simp add: txn_survives_def)

text \<open>The tick: what is not retired survives the rest of it.\<close>

lemma tick_keeps:
  assumes wf: "wf_model m" and i: "i < MODEM_MAX_CALL_TRANSACTIONS" "tx_in_use (txn_at m i)"
    "tx_ever_dispatched (txn_at m i)"
  shows "txn_survives (txn_at m i) (txn_at (call_model_tick m) i) \<or>
    cm_txn_retirement_eligible (cm_advance_tombstone_deadlines m) (txn_at (cm_advance_tombstone_deadlines m) i)"
proof -
  define m0 where "m0 = cm_advance_tombstone_deadlines m"
  define m1 where "m1 = cm_retire_terminal_txns m0"
  have w0: "wf_model m0 \<and> pool_kept (txns m) (txns m0)"
    unfolding m0_def using wf by (intro kept.ev.passes) simp
  have w1: "wf_model m1"
    unfolding m1_def using w0 by (intro wf.retire_all) simp
  have len: "length (txns n) = 12" if "wf_model n" for n
    using that by (simp add: wf_model_def wf_pool_def)
  have s0: "txn_survives (txn_at m i) (txn_at m0 i)"
    using survivesD [of m "txns m0" i] w0 i len [OF wf] by (simp add: txn_at_def)
  then have u0: "tx_in_use (txn_at m0 i)" "tx_ever_dispatched (txn_at m0 i)"
    by (simp_all add: txn_survives_def)
  from retired_eligible [of m0 "[0..<12]" i] w0 u0
  have "txn_at m1 i = txn_at m0 i \<or> cm_txn_retirement_eligible m0 (txn_at m0 i)"
    by (auto simp: m1_def cm_retire_terminal_txns_def for_each_def upt_rec)
  moreover have "txn_survives (txn_at m0 i) (txn_at (call_model_tick m) i)" if "txn_at m1 i = txn_at m0 i"
  proof -
    have "pool_kept (txns m1) (txns (tick_tail m1))"
      using kept.ev.tick_tail [of m1 "txns m1"] w1 by simp
    then show ?thesis
      using survivesD [of m1 "txns (tick_tail m1)" i] i(1) len [OF w1] u0 that
      by (simp add: tick_split m0_def m1_def txn_at_def)
  qed
  ultimately show ?thesis
    using s0 survives_trans unfolding m0_def by blast
qed

text \<open>A request: what it neither retires nor supersedes survives.\<close>

lemma request_keeps:
  assumes wf: "wf_model m" and i: "i < MODEM_MAX_CALL_TRANSACTIONS" "tx_in_use (txn_at m i)"
    "tx_ever_dispatched (txn_at m i)"
  shows "txn_survives (txn_at m i) (txn_at (fst (call_model_request m kind target second)) i) \<or>
    cm_txn_retirement_eligible m (txn_at m i) \<or>
    kind = CALL_TXN_DIAL \<and> same_role_dial second (txn_at m i) \<and> tx_bound_id (txn_at m i) \<noteq> 0 \<and>
      cm_find_leg m (tx_bound_id (txn_at m i)) (tx_bound_gen (txn_at m i)) = None"
    (is "?S (fst (call_model_request m kind target second)) \<or> ?R")
proof -
  let ?t = "txn_at m i"
  define m1o where "m1o = (if kind = CALL_TXN_DIAL then request_supersede m second else Some m)"
  have len: "length (txns n) = 12" if "wf_model n" for n
    using that by (simp add: wf_model_def wf_pool_def)
  have refl: "?S m"
    using i by (simp add: txn_survives_refl)
  have "?S (fst (case request_slot m1 kind of (m2, None) \<Rightarrow> (m2, 0)
          | (m2, Some s) \<Rightarrow> request_admit m2 kind tg second s)) \<or> ?R"
    if m1o: "m1o = Some m1" and kind: "kind \<noteq> CALL_TXN_NONE"
      and tg: "kind = CALL_TXN_DIAL \<Longrightarrow> tg = 0" for m1 tg
  proof -
    have w1: "wf_model m1 \<and> pool_kept (txns m) (txns m1)"
      using m1o wf kept.ev.supersede [of m "txns m" second m1] by (auto simp: m1o_def split: if_splits)
    have s1: "?S m1"
      using survivesD [of m "txns m1" i] w1 i len [OF wf] by (simp add: txn_at_def)
    then have u1: "tx_in_use (txn_at m1 i)" "tx_ever_dispatched (txn_at m1 i)"
      by (simp_all add: txn_survives_def)
    obtain m2 so where sl: "request_slot m1 kind = (m2, so)" by fastforce
    have m2: "m2 = fold cm_retire_one (if kind = CALL_TXN_HANGUP then [0] else [1..<12]) m1"
      using request_slot_retires [of m1 kind] sl by simp
    have w2: "wf_model m2"
      using wf.slot [of m1 kind] w1 sl by simp
    have "txn_at m2 i = txn_at m1 i \<or>
        (kind \<noteq> CALL_TXN_HANGUP \<longrightarrow> i \<noteq> 0) \<and> cm_txn_retirement_eligible m1 (txn_at m1 i)"
    proof (cases "kind = CALL_TXN_HANGUP")
      case True
      then show ?thesis
        using retired_eligible [of m1 "[0]" i] w1 u1 by (auto simp: m2)
    next
      case False
      have "set [1..<12] \<subseteq> {..<12 :: nat}"
        by (simp only: set_upt) auto
      then show ?thesis
        using retired_eligible [of m1 "[1..<12]" i] w1 u1 False by (simp only: m2 if_False) auto
    qed
    then show ?thesis
    proof
      assume "(kind \<noteq> CALL_TXN_HANGUP \<longrightarrow> i \<noteq> 0) \<and> cm_txn_retirement_eligible m1 (txn_at m1 i)"
      then have e: "kind \<noteq> CALL_TXN_HANGUP \<longrightarrow> i \<noteq> 0" "cm_txn_retirement_eligible m1 (txn_at m1 i)" by simp_all
      show ?thesis
      proof (cases "kind = CALL_TXN_DIAL")
        case False
        then show ?thesis using e m1o by (simp add: m1o_def)
      next
        case True
        then have sup: "request_supersede m second = Some m1"
          using m1o by (simp add: m1o_def)
        have legs: "(cm_find_leg m1 a g = None) = (cm_find_leg m a g = None)" for a g
          using find_leg_keys [OF supersede_keys [OF wf sup]] .
        from supersede_at [OF sup i(2,3)] show ?thesis
        proof
          assume same: "txn_at m1 i = ?t"
          have "tx_kind ?t \<noteq> CALL_TXN_HANGUP"
            using e(1) True wf i(1,2) by (auto simp: wf_model_def wf_pool_def txn_at_def)
          then show ?thesis
            using e(2) cleanup_legs [of ?t m1 m] legs by (simp add: same cm_txn_retirement_eligible_def)
        next
          assume "same_role_dial second ?t \<and> (\<exists>d. txn_at m1 i = tombstone_txn d ?t)"
          then obtain d where d: "same_role_dial second ?t" "txn_at m1 i = tombstone_txn d ?t" by blast
          then have "tx_kind ?t = CALL_TXN_DIAL"
            by (simp add: same_role_dial_def)
          then show ?thesis
            using e d legs True
            by (simp add: cm_txn_retirement_eligible_def cm_txn_cleanup_resolved_def tombstone_txn_def Let_def
                cancel_leaves_cleanup_def split: if_splits)
        qed
      qed
    next
      assume same: "txn_at m2 i = txn_at m1 i"
      show ?thesis
      proof (cases so)
        case None
        then show ?thesis using sl s1 same by simp
      next
        case (Some s)
        have free: "s < 12" "kind = CALL_TXN_HANGUP \<longleftrightarrow> s = 0" "\<not> tx_in_use (txn_at m2 s)"
          using request_slot_free [of m1 kind m2 s] sl Some by simp_all
        have "pool_kept (txns m2) (txns (fst (request_admit m2 kind tg second s)))"
          using kept_admit.request_admit [of m2 "txns m2" s kind tg second] w2 free kind tg by simp
        then have "txn_survives (txn_at m2 i) (txn_at (fst (request_admit m2 kind tg second s)) i)"
          using survivesD [of m2 _ i] i(1) len [OF w2] u1 same by (simp add: txn_at_def)
        then show ?thesis
          using s1 same survives_trans sl Some by simp
      qed
    qed
  qed
  then show ?thesis
    using refl by (auto simp: call_model_request_def Let_def split: option.splits simp flip: m1o_def)
qed

text \<open>C7: a dispatched transaction leaves the pool only by retirement.  Every input, the tick and
  requests included, keeps it in its slot, with its token, kind and role, still marked dispatched, a
  tombstone still a tombstone, and, unless it is a DIAL, settled once settled.  The only ways out: the
  tick or a request retires it, when it is settled, its result is delivered and its cleanup is done
  (for a tombstone no leg was ever found for, when its deadline has passed); or a new DIAL of the same
  role supersedes it and the leg it was bound to is gone.\<close>

theorem dispatched_txn_kept:
  assumes "wf_model m" and "call_admissible a m"
    and "i < MODEM_MAX_CALL_TRANSACTIONS" and "tx_in_use (txn_at m i)"
    and "tx_ever_dispatched (txn_at m i)"
  shows "let t = txn_at m i in
     txn_survives t (txn_at (call_apply a m) i) \<or>
     txn_is_terminal t \<and> cm_txn_output_resolved t \<and>
       (is_request a \<and> cm_txn_cleanup_resolved m t \<or>
        a = In_Tick \<and> (cm_txn_cleanup_resolved (cm_advance_tombstone_deadlines m) t \<or>
          tx_is_tombstone t \<and> txn_unbound t \<and> tx_tombstone_deadline_ms t \<noteq> 0 \<and>
          ms_reached (now_ms m) (tx_tombstone_deadline_ms t))) \<or>
     (\<exists>target second. a = In_Request CALL_TXN_DIAL target second \<and> same_role_dial second t \<and>
        tx_bound_id t \<noteq> 0 \<and> cm_find_leg m (tx_bound_id t) (tx_bound_gen t) = None)"
proof -
  let ?t = "txn_at m i" and ?m0 = "cm_advance_tombstone_deadlines m"
  consider (request) k target second where "a = In_Request k target second" | (tick) "a = In_Tick"
    | (other) "\<not> is_request a" "a \<noteq> In_Tick"
    by (cases a) auto
  then show ?thesis
  proof cases
    case request
    then show ?thesis
      using request_keeps [OF assms(1,3-5), of k target second]
      by (auto simp: Let_def cm_txn_retirement_eligible_def)
  next
    case tick
    from tick_keeps [OF assms(1,3-5)] show ?thesis
    proof
      assume "cm_txn_retirement_eligible ?m0 (txn_at ?m0 i)"
      with tombstone_deadlines_at [of m i] show ?thesis
        using tick by (auto simp: Let_def cm_txn_retirement_eligible_def cleanup_flag)
    qed (simp add: tick Let_def)
  next
    case other
    have "pool_kept (txns m) (txns (call_apply a m))"
      using kept.ev.apply_recorder [of m "txns m" a] assms(1,2) other by simp
    moreover have "i < length (txns m)" using assms(1,3) by (simp add: wf_model_def wf_pool_def)
    ultimately have "txn_survives ?t (txn_at (call_apply a m) i)"
      using survivesD [of m _ i] assms(4,5) by (simp add: txn_at_def)
    then show ?thesis by (simp add: Let_def)
  qed
qed

theorem dispatched_txn_kept_witness:
  "txn_survives (txn_at sample_dial 1) (txn_at (call_apply In_Tick sample_dial) 1)"
proof -
  have "\<not> txn_is_terminal (txn_at sample_dial 1)" "tx_bound_id (txn_at sample_dial 1) = 0"
    by (simp_all add: sample_dial_1 sample_txn_def txn_is_terminal_def)
  then show ?thesis
    using dispatched_txn_kept [OF sample_dial_wf, of In_Tick 1]
    by (simp add: sample_dial_1 sample_txn_def Let_def del: call_apply.simps)
qed

section \<open>A leg belongs to at most one dial\<close>

definition dials_apart :: "call_txn list \<Rightarrow> bool" where
  "dials_apart ts \<longleftrightarrow>
     (\<forall>i < length ts. \<forall>j < length ts. tx_in_use (ts ! i) \<longrightarrow> tx_in_use (ts ! j) \<longrightarrow>
        tx_bound_id (ts ! i) \<noteq> 0 \<longrightarrow> tx_bound_id (ts ! i) = tx_bound_id (ts ! j) \<longrightarrow>
        tx_bound_gen (ts ! i) = tx_bound_gen (ts ! j) \<longrightarrow> i = j)"

lemma dials_apart_upd:
  assumes ap: "dials_apart (txns m)" and len: "length (txns m) = MODEM_MAX_CALL_TRANSACTIONS"
    and fresh: "bind_fresh m k (f (txn_at m k))" and use: "tx_in_use (f (txn_at m k)) = tx_in_use (txn_at m k)"
  shows "dials_apart (upd_nth k f (txns m))"
proof (cases "k < length (txns m)")
  case False
  then show ?thesis using ap by (simp add: upd_nth_def list_update_beyond)
next
  case True
  let ?t = "f (txn_at m k)"
  have own: "j = k" if "j < length (txns m)" "tx_in_use (txns m ! j)" "tx_in_use ?t"
      "tx_bound_id ?t \<noteq> 0" "tx_bound_id (txns m ! j) = tx_bound_id ?t"
      "tx_bound_gen (txns m ! j) = tx_bound_gen ?t" for j
  proof (rule ccontr)
    assume "j \<noteq> k"
    then have "cm_leg_owned_by_other_txn m k (tx_bound_id ?t) (tx_bound_gen ?t)"
      using that len by (auto simp: cm_leg_owned_by_other_txn_def list_ex_iff txn_at_def intro!: bexI [of _ j])
    then have "tx_bound_id ?t = tx_bound_id (txn_at m k) \<and> tx_bound_gen ?t = tx_bound_gen (txn_at m k)"
      using fresh that by (auto simp: bind_fresh_def)
    then have eq: "tx_bound_id (txns m ! j) = tx_bound_id (txns m ! k)"
      "tx_bound_gen (txns m ! j) = tx_bound_gen (txns m ! k)"
      using that(5,6) unfolding txn_at_def by metis+
    have "tx_bound_id (txns m ! j) \<noteq> 0" using that(4,5) by simp
    moreover have "tx_in_use (txns m ! k)" using that(3) use by (simp add: txn_at_def)
    ultimately have "j = k" using ap [unfolded dials_apart_def, rule_format, of j k] eq that(1,2) True by blast
    with \<open>j \<noteq> k\<close> show False by simp
  qed
  show ?thesis unfolding dials_apart_def
  proof (intro allI impI)
    fix i j
    assume a: "i < length (upd_nth k f (txns m))" "j < length (upd_nth k f (txns m))"
      "tx_in_use (upd_nth k f (txns m) ! i)" "tx_in_use (upd_nth k f (txns m) ! j)"
      "tx_bound_id (upd_nth k f (txns m) ! i) \<noteq> 0"
      "tx_bound_id (upd_nth k f (txns m) ! i) = tx_bound_id (upd_nth k f (txns m) ! j)"
      "tx_bound_gen (upd_nth k f (txns m) ! i) = tx_bound_gen (upd_nth k f (txns m) ! j)"
    consider "i = k" "j = k" | "i = k" "j \<noteq> k" | "i \<noteq> k" "j = k" | "i \<noteq> k" "j \<noteq> k" by blast
    then show "i = j"
    proof cases
      case 2
      then have "j = k" using a by (intro own) (simp_all add: txn_at_def)
      with 2 show ?thesis by simp
    next
      case 3
      then have "i = k" using a by (intro own) (simp_all add: txn_at_def)
      with 3 show ?thesis by simp
    next
      case 4 then show ?thesis using a ap [unfolded dials_apart_def, rule_format, of i j] by simp
    qed simp
  qed
qed

lemma dials_apart_map:
  "dials_apart ts \<Longrightarrow> (\<And>t. txn_edit t (f t)) \<Longrightarrow>
   (\<And>t. tx_bound_id (f t) = tx_bound_id t \<and> tx_bound_gen (f t) = tx_bound_gen t) \<Longrightarrow>
   dials_apart (map f ts)"
  by (simp add: dials_apart_def txn_edit_def)

lemma dials_apart_unbound:
  "dials_apart ts \<Longrightarrow> tx_bound_id t = 0 \<Longrightarrow> dials_apart (upd_nth k (\<lambda>_. t) ts)"
  by (auto simp: dials_apart_def nth_upd_nth)

interpretation dials: pool_property_full dials_apart
proof unfold_locales
  fix m ti and tf :: "call_txn \<Rightarrow> call_txn"
  assume "wf_model m" "dials_apart (txns m)" "txn_edit (txn_at m ti) (tf (txn_at m ti))"
    "bind_fresh m ti (tf (txn_at m ti))"
  then show "dials_apart (upd_nth ti tf (txns m))"
    by (intro dials_apart_upd) (simp_all add: wf_model_def wf_pool_def txn_edit_def)
qed (auto intro: dials_apart_map dials_apart_unbound)

lemma init_apart: "dials_apart (txns (call_model_init t))"
  by (simp add: dials_apart_def call_model_init_def)

text \<open>C2: In every reachable model a leg is bound by at most one transaction: two dial attempts
  never both own the same call id and generation, whatever the order of dispatches, events,
  snapshots, cancellations and supersessions.\<close>

theorem dial_ownership_exclusive:
  assumes "reachable m"
  shows "dials_apart (txns m)"
proof -
  have "wf_model m \<and> dials_apart (txns m)"
    by (intro dials.all.reachable_kept [OF assms] conjI init_wf init_apart)
  then show ?thesis ..
qed

theorem dial_ownership_exclusive_witness: "dials_apart (txns sample_end)"
  by (rule dial_ownership_exclusive [OF sample_end_reachable])

section \<open>The invariant of the whole model\<close>

text \<open>C1: Every reachable model is well formed: the leg table holds at most one leg for a call id,
  its ids are in 1..7 and its generations are never 0; tokens of the pool are nonzero and unique and
  slot 0 holds hangups only; the teardown queue and the open snapshot stay within their bounds.\<close>

theorem reachable_well_formed:
  assumes "reachable m"
  shows "wf_model m"
  by (rule wf.reachable_kept [OF assms init_wf])

theorem reachable_well_formed_witness: "wf_model sample_end"
  by (rule reachable_well_formed [OF sample_end_reachable])

end
