(* ===== verification/Call_Publish.thy ===== *)
theory Call_Publish
  imports Call_Eval
begin

text \<open>
  The projector: what its two counting passes compute, that the schedule's consistency test is
  the projector's gate, the shape of every published status, and that projecting twice publishes
  the same status.
\<close>

section \<open>The two passes as counts\<close>

definition genuine_active :: "call_model \<Rightarrow> call_leg \<Rightarrow> bool" where
  "genuine_active m l \<longleftrightarrow> lg_in_use l \<and> \<not> cm_leg_is_transient l \<and> lg_state l = CALL_LEG_ACTIVE \<and>
     \<not> proj_leg_is_tentative_dial m l"

definition genuine_held :: "call_leg \<Rightarrow> bool" where
  "genuine_held l \<longleftrightarrow> lg_in_use l \<and> \<not> cm_leg_is_transient l \<and> lg_state l = CALL_LEG_HELD"

definition retained_active :: "call_leg \<Rightarrow> bool" where
  "retained_active l \<longleftrightarrow> lg_in_use l \<and> cm_leg_is_transient l \<and> lg_published_role l = CALL_LEG_ACTIVE"

definition retained_held :: "call_leg \<Rightarrow> bool" where
  "retained_held l \<longleftrightarrow> lg_in_use l \<and> cm_leg_is_transient l \<and> lg_published_role l = CALL_LEG_HELD"

abbreviation count :: "('a \<Rightarrow> bool) \<Rightarrow> 'a list \<Rightarrow> nat" where
  "count P xs \<equiv> length (filter P xs)"

lemma pass1_counts:
  "pa_active_count (fold (proj_pass1 m) ls a) = pa_active_count a + count (genuine_active m) ls"
  "pa_held_count (fold (proj_pass1 m) ls a) = pa_held_count a + count genuine_held ls"
  "pa_retained_active (fold (proj_pass1 m) ls a) = pa_retained_active a"
  "pa_retained_held (fold (proj_pass1 m) ls a) = pa_retained_held a"
  by (induction ls arbitrary: a)
    (auto simp: proj_pass1_def genuine_active_def genuine_held_def split: call_leg_state.split)

lemma pass2_counts:
  "pa_active_count (fold proj_pass2 ls a) =
     (if pa_active_count a = 0 \<and> 0 < count retained_active ls then 1 else pa_active_count a)"
  "pa_held_count (fold proj_pass2 ls a) =
     (if pa_held_count a = 0 \<and> 0 < count retained_held ls then 1 else pa_held_count a)"
  "pa_retained_active (fold proj_pass2 ls a) = pa_retained_active a + count retained_active ls"
  "pa_retained_held (fold proj_pass2 ls a) = pa_retained_held a + count retained_held ls"
  by (induction ls arbitrary: a)
    (auto simp: proj_pass2_def Let_def retained_active_def retained_held_def proj_retained_role_def
      split: counted_role.split)

lemma proj_counts_values:
  "pa_active_count (proj_genuine m) = count (genuine_active m) (legs m)"
  "pa_held_count (proj_genuine m) = count genuine_held (legs m)"
  "pa_active_count (proj_counts m) =
     (if count (genuine_active m) (legs m) = 0 \<and> 0 < count retained_active (legs m) then 1
      else count (genuine_active m) (legs m))"
  "pa_held_count (proj_counts m) =
     (if count genuine_held (legs m) = 0 \<and> 0 < count retained_held (legs m) then 1
      else count genuine_held (legs m))"
  "pa_retained_active (proj_counts m) = count retained_active (legs m)"
  "pa_retained_held (proj_counts m) = count retained_held (legs m)"
  by (simp_all add: proj_counts_def proj_genuine_def Let_def pass2_counts pass1_counts proj_acc_init_def)

lemma proj_inconsistent_counts:
  "proj_inconsistent m \<longleftrightarrow>
     1 < count (genuine_active m) (legs m) \<or> 1 < count genuine_held (legs m) \<or>
     (count (genuine_active m) (legs m) = 0 \<and> 1 < count retained_active (legs m)) \<or>
     (count genuine_held (legs m) = 0 \<and> 1 < count retained_held (legs m))"
  by (auto simp: proj_inconsistent_def Let_def proj_counts_values)

text \<open>The schedule and the projector agree on which sets of roles are possible: the standalone
  recount in \<open>cm_model_is_consistent\<close> accepts exactly the models whose projection the projector
  would publish.\<close>

theorem roles_possible_iff_projectable: "cm_roles_possible m = (\<not> proj_inconsistent m)"
proof -
  have "count_legs (\<lambda>l. \<not> cm_leg_is_transient l \<and> lg_state l = CALL_LEG_ACTIVE \<and>
          \<not> proj_leg_is_tentative_dial m l) m = count (genuine_active m) (legs m)"
    "count_legs (\<lambda>l. \<not> cm_leg_is_transient l \<and> lg_state l = CALL_LEG_HELD) m =
       count genuine_held (legs m)"
    "count_legs (\<lambda>l. cm_leg_is_transient l \<and> lg_published_role l = CALL_LEG_ACTIVE) m =
       count retained_active (legs m)"
    "count_legs (\<lambda>l. cm_leg_is_transient l \<and> lg_published_role l = CALL_LEG_HELD) m =
       count retained_held (legs m)"
    by (simp_all add: count_legs_def genuine_active_def [abs_def] genuine_held_def [abs_def]
        retained_active_def [abs_def] retained_held_def [abs_def])
  then show ?thesis by (simp add: cm_roles_possible_def Let_def proj_inconsistent_counts)
qed

section \<open>The id of a counted role is the id of a live leg\<close>

definition live_id :: "call_model \<Rightarrow> u8 \<Rightarrow> bool" where
  "live_id m i \<longleftrightarrow> (\<exists>l \<in> set (legs m). lg_in_use l \<and> lg_id l = i)"

lemma pass1_ids:
  "0 < pa_active_count (fold (proj_pass1 m) ls a) \<Longrightarrow> 0 < pa_active_count a \<longrightarrow> pa_active_id a \<in> S \<Longrightarrow>
     lg_id ` {l \<in> set ls. lg_in_use l} \<subseteq> S \<Longrightarrow> pa_active_id (fold (proj_pass1 m) ls a) \<in> S"
  "0 < pa_held_count (fold (proj_pass1 m) ls a) \<Longrightarrow> 0 < pa_held_count a \<longrightarrow> pa_held_id a \<in> S \<Longrightarrow>
     lg_id ` {l \<in> set ls. lg_in_use l} \<subseteq> S \<Longrightarrow> pa_held_id (fold (proj_pass1 m) ls a) \<in> S"
proof (induction ls arbitrary: a)
  case (Cons l ls)
  have sub: "lg_id ` {l \<in> set ls. lg_in_use l} \<subseteq> S" if "lg_id ` {l' \<in> set (l # ls). lg_in_use l'} \<subseteq> S"
    using that by auto
  { case 1
    then show ?case using Cons.IH(1) [of "proj_pass1 m l a"] sub
      by (auto simp: proj_pass1_def split: call_leg_state.splits if_splits)
  next
    case 2
    then show ?case using Cons.IH(2) [of "proj_pass1 m l a"] sub
      by (auto simp: proj_pass1_def split: call_leg_state.splits if_splits) }
qed simp_all

lemma pass2_ids:
  "0 < pa_active_count (fold proj_pass2 ls a) \<Longrightarrow> 0 < pa_active_count a \<longrightarrow> pa_active_id a \<in> S \<Longrightarrow>
     lg_id ` {l \<in> set ls. lg_in_use l} \<subseteq> S \<Longrightarrow> pa_active_id (fold proj_pass2 ls a) \<in> S"
  "0 < pa_held_count (fold proj_pass2 ls a) \<Longrightarrow> 0 < pa_held_count a \<longrightarrow> pa_held_id a \<in> S \<Longrightarrow>
     lg_id ` {l \<in> set ls. lg_in_use l} \<subseteq> S \<Longrightarrow> pa_held_id (fold proj_pass2 ls a) \<in> S"
proof (induction ls arbitrary: a)
  case (Cons l ls)
  have sub: "lg_id ` {l \<in> set ls. lg_in_use l} \<subseteq> S" if "lg_id ` {l' \<in> set (l # ls). lg_in_use l'} \<subseteq> S"
    using that by auto
  { case 1
    then show ?case using Cons.IH(1) [of "proj_pass2 l a"] sub
      by (auto simp: proj_pass2_def Let_def split: counted_role.splits if_splits)
  next
    case 2
    then show ?case using Cons.IH(2) [of "proj_pass2 l a"] sub
      by (auto simp: proj_pass2_def Let_def split: counted_role.splits if_splits) }
qed simp_all

lemma counted_ids_live:
  "0 < pa_active_count (proj_counts m) \<Longrightarrow> live_id m (pa_active_id (proj_counts m))"
  "0 < pa_held_count (proj_counts m) \<Longrightarrow> live_id m (pa_held_id (proj_counts m))"
proof -
  let ?S = "lg_id ` {l \<in> set (legs m). lg_in_use l}"
  let ?a = "fold proj_pass2 (legs m) (proj_genuine m)"
  have id: "pa_active_id (proj_counts m) = pa_active_id ?a" "pa_held_id (proj_counts m) = pa_held_id ?a"
    "pa_active_count (proj_counts m) = pa_active_count ?a"
    "pa_held_count (proj_counts m) = pa_held_count ?a"
    by (simp_all add: proj_counts_def Let_def)
  have g: "0 < pa_active_count (proj_genuine m) \<longrightarrow> pa_active_id (proj_genuine m) \<in> ?S"
    "0 < pa_held_count (proj_genuine m) \<longrightarrow> pa_held_id (proj_genuine m) \<in> ?S"
    unfolding proj_genuine_def
    by (auto intro!: pass1_ids simp: proj_acc_init_def)
  show "0 < pa_active_count (proj_counts m) \<Longrightarrow> live_id m (pa_active_id (proj_counts m))"
    using pass2_ids(1) [OF _ g(1) subset_refl] by (auto simp: id live_id_def)
  show "0 < pa_held_count (proj_counts m) \<Longrightarrow> live_id m (pa_held_id (proj_counts m))"
    using pass2_ids(2) [OF _ g(2) subset_refl] by (auto simp: id live_id_def)
qed

section \<open>The shape of a published status\<close>

definition wf_projection :: "call_projection \<Rightarrow> bool" where
  "wf_projection p \<longleftrightarrow>
     pr_call_state p \<noteq> MODEM_CALL_ENDING \<and>
     (pr_call_state p = MODEM_CALL_ACTIVE \<longrightarrow> pr_active_call_id p \<noteq> 0) \<and>
     (pr_active_call_id p \<noteq> 0 \<longrightarrow>
        pr_call_state p \<in> {MODEM_CALL_ACTIVE, MODEM_CALL_DIALING, MODEM_CALL_ANSWERING}) \<and>
     (pr_call_on_hold p \<longrightarrow> pr_call_state p = MODEM_CALL_ACTIVE \<and> \<not> pr_second_call_held p) \<and>
     (pr_second_call_held p \<longrightarrow> pr_call_state p = MODEM_CALL_ACTIVE) \<and>
     (pr_waiting_call p \<longrightarrow> pr_call_state p = MODEM_CALL_ACTIVE \<and> pr_ring_active p) \<and>
     (pr_ring_active p \<longleftrightarrow> pr_waiting_call p \<or> pr_call_state p = MODEM_CALL_RINGING) \<and>
     (pr_call_state p = MODEM_CALL_IDLE \<longrightarrow> pr_active_call_id p = 0) \<and>
     length (pr_incoming_number p) \<le> MODEM_PHONE_MAX"

lemma fill_incoming_fields:
  "pr_call_state (proj_fill_incoming m r) = pr_call_state r"
  "pr_active_call_id (proj_fill_incoming m r) = pr_active_call_id r"
  "pr_call_on_hold (proj_fill_incoming m r) = pr_call_on_hold r"
  "pr_second_call_held (proj_fill_incoming m r) = pr_second_call_held r"
  "pr_waiting_call (proj_fill_incoming m r) = pr_waiting_call r"
  "pr_ring_active (proj_fill_incoming m r) = pr_ring_active r"
  "pr_last_call_result (proj_fill_incoming m r) = pr_last_call_result r"
  "pr_second_call_result (proj_fill_incoming m r) = pr_second_call_result r"
  by (simp_all add: proj_fill_incoming_def Let_def split: option.split)

lemma fill_incoming_number:
  "length (pr_incoming_number r) \<le> MODEM_PHONE_MAX \<Longrightarrow>
     length (pr_incoming_number (proj_fill_incoming m r)) \<le> MODEM_PHONE_MAX"
  by (simp add: proj_fill_incoming_def Let_def proj_copy_number_def split: option.split)

lemma proj_base_fields:
  "pr_call_state (proj_base m) = MODEM_CALL_IDLE" "pr_active_call_id (proj_base m) = 0"
  "\<not> pr_call_on_hold (proj_base m)" "\<not> pr_second_call_held (proj_base m)"
  "\<not> pr_waiting_call (proj_base m)" "\<not> pr_ring_active (proj_base m)"
  "\<not> pr_incoming_diverted (proj_base m)"
  "pr_last_call_result (proj_base m) = pr_last_call_result (published m)"
  "pr_second_call_result (proj_base m) = pr_second_call_result (published m)"
  "length (pr_incoming_number (proj_base m)) \<le> MODEM_PHONE_MAX"
  using fill_incoming_number
  by (simp_all add: proj_base_def fill_incoming_fields projection_zero_def proj_copy_number_def)

lemma live_id_nonzero:
  assumes "wf_model m" "live_id m i" shows "i \<noteq> 0"
proof -
  obtain k where "k < length (legs m)" "lg_in_use (legs m ! k)" "lg_id (legs m ! k) = i"
    using assms(2) by (auto simp: live_id_def in_set_conv_nth)
  moreover have "wf_legs (legs m) (gen_next m)" using assms(1) by (simp add: wf_model_def)
  ultimately have "1 \<le> i" unfolding wf_legs_def by blast
  then show ?thesis by auto
qed

lemma proj_row_wf:
  assumes wf: "wf_model m" and row: "proj_row m = Some r"
  shows "wf_projection r"
proof (cases "pa_active_count (proj_counts m) = 1 \<or> pa_held_count (proj_counts m) = 1")
  case True
  then have r: "r = proj_connected_row m (proj_counts m)" using row by (simp add: proj_row_def Let_def)
  have "(if pa_active_count (proj_counts m) = 1 then pa_active_id (proj_counts m)
         else pa_held_id (proj_counts m)) \<noteq> 0"
    using True counted_ids_live [of m] live_id_nonzero [OF wf] by (metis zero_less_one)
  then show ?thesis unfolding r
    by (auto simp: proj_connected_row_def Let_def wf_projection_def proj_base_fields
        fill_incoming_fields intro!: fill_incoming_number split: option.split)
next
  case False
  then have "proj_idle_row m (proj_counts m) = Some r" using row by (simp add: proj_row_def Let_def)
  then show ?thesis
    by (auto simp: proj_idle_row_def Let_def wf_projection_def proj_base_fields fill_incoming_fields
        intro!: fill_incoming_number split: if_splits)
qed

lemma wf_projection_latch:
  assumes "latch_only h" and "wf_projection p"
  shows "wf_projection (h p)"
proof -
  obtain a b n where "h p = p\<lparr>pr_last_call_result := a, pr_second_call_result := b,
      pr_incoming_number := n\<rparr>" "n = pr_incoming_number p \<or> n = []"
    using assms(1) unfolding latch_only_def by blast
  then show ?thesis using assms(2) by (auto simp: wf_projection_def)
qed

text \<open>A property of the published status that the latches keep is kept by every input but the
  projection, and by all if every row of the projector has it.\<close>

locale status_property =
  fixes Q :: "call_projection \<Rightarrow> bool"
  assumes qlatch: "Q p \<Longrightarrow> latch_only h \<Longrightarrow> Q (h p)"

sublocale status_property \<subseteq> un: call_unpublished "\<lambda>m. wf_model m \<and> Q (published m)"
proof unfold_locales
  fix m m' :: call_model and h :: "call_projection \<Rightarrow> call_projection"
    and h' :: "call_pending_mt \<Rightarrow> call_pending_mt" and lf :: "call_leg \<Rightarrow> call_leg"
    and tf :: "call_txn \<Rightarrow> call_txn" and i g :: u8
    and rec k ti slot kind tok second ab t n r e b
  assume "wf_model m \<and> Q (published m)"
  then have wf: "wf_model m" and I: "Q (published m)" by simp_all
  let ?I = "\<lambda>m. wf_model m \<and> Q (published m)"
  show "quiet m m' \<Longrightarrow> ?I m'" using wf.quiet [OF wf] I by (simp add: quiet_fields)
  show "latch_only h \<Longrightarrow> ?I (upd_pub h m)"
    using wf.latch [OF wf] qlatch [OF I] by simp
  show "mt_edit (pending_mt m) (h' (pending_mt m)) \<Longrightarrow> ?I (upd_mt h' m)"
    using wf.episode [OF wf] I by simp
  show "?I (cm_queue_release m i g rec)" using wf.queue [OF wf] I
    by (simp add: cm_queue_release_def split: option.split)
  show "leg_edit (leg_at m k) (lf (leg_at m k)) \<Longrightarrow> ?I (upd_leg k lf m)"
    using wf.leg [OF wf] I by simp
  show "txn_edit (txn_at m ti) (tf (txn_at m ti)) \<Longrightarrow> bind_fresh m ti (tf (txn_at m ti)) \<Longrightarrow>
      ?I (upd_txn ti tf m)" using wf.edit [OF wf] I by simp
  show "\<not> tx_in_use (txn_at m ti) \<or> \<not> tx_ever_dispatched (txn_at m ti) \<Longrightarrow>
      ?I (upd_txn ti (\<lambda>_. txn_zero) m)" using wf.drop [OF wf] I by simp
  show "cm_txn_retirement_eligible m (txn_at m ti) \<Longrightarrow> ?I (upd_txn ti (\<lambda>_. txn_zero) m)"
    using wf.retire [OF wf] I by simp
  show "?I (snd (cm_alloc_token m))" using wf.token [OF wf] I by (simp add: alloc_token_other)
  show "?I (upd_txn slot (\<lambda>t. t\<lparr>tx_in_use := True, tx_token := tok, tx_kind := kind,
           tx_state := TXN_PENDING, tx_second_mo := second,
           tx_result := MODEM_CALL_RESULT_NONE\<rparr>) m)"
    if "slot < MODEM_MAX_CALL_TRANSACTIONS" "slot < length (txns m) \<Longrightarrow> txn_at m slot = txn_zero"
      "kind \<noteq> CALL_TXN_NONE" "kind = CALL_TXN_HANGUP \<longleftrightarrow> slot = 0"
      "length (txns m) = MODEM_MAX_CALL_TRANSACTIONS \<Longrightarrow> tok \<noteq> 0 \<and> \<not> cm_token_live m tok"
    using wf.admit [OF wf that] I by simp
  show "?I (m\<lparr>txns := map tf (txns m)\<rparr>)" if "\<And>t. txn_edit t (tf t)"
    "\<And>t. tx_bound_id (tf t) = tx_bound_id t \<and> tx_bound_gen (tf t) = tx_bound_gen t"
    using wf.edit_all [OF wf that] I by simp
  show "?I (m\<lparr>legs := map lf (legs m)\<rparr>)" if "\<And>l. leg_edit l (lf l)"
    using wf.leg_all [OF wf that] I by simp
  show "mt_shape h' \<Longrightarrow> ?I (mt_open_episode h' m)" using wf.open_episode [OF wf] I by simp
  show "length (mt_number (pending_mt m)) \<le> MODEM_PHONE_MAX" by (rule wf.number [OF wf])
  show "?I (m\<lparr>now_ms := t\<rparr>)" "?I (m\<lparr>shadow_open := b, shadow := []\<rparr>)"
    "?I (m\<lparr>release_queue := drop n (release_queue m)\<rparr>)" "?I (m\<lparr>shadow_open := False\<rparr>)"
    "?I (m\<lparr>absent := ab\<rparr>)"
    using wf.clock [OF wf] wf.shadow_drop [OF wf] wf.queue_drop [OF wf]
      wf.shadow_close [OF wf] wf.absences [OF wf] I by simp_all
  show "shadow_open m \<Longrightarrow> length (shadow m) < MODEM_MAX_CALL_LEGS \<Longrightarrow> row_ok r \<Longrightarrow>
      \<not> clcc_id_in_shadow m (lg_id r) \<Longrightarrow> ?I (m\<lparr>shadow := shadow m @ [r]\<rparr>)"
    using wf.shadow_row [OF wf] I by simp
  show "1 \<le> i \<Longrightarrow> i \<le> 7 \<Longrightarrow> cm_find_leg_by_id m i = None \<Longrightarrow> ?I (fst (cm_alloc_leg m i))"
    using wf.alloc [OF wf] I by (simp add: cm_alloc_leg_def Let_def split: option.splits)
  show "r \<in> set (shadow m) \<Longrightarrow> row_ok r" by (rule wf.rows [OF wf])
  show "lg_in_use (leg_at m k) \<Longrightarrow> k < length (legs m) \<or> k < MODEM_MAX_CALL_LEGS \<Longrightarrow>
      ?I (leg_vacate k m)" using wf.vacate [OF wf] I by (simp add: leg_vacate_def)
  show "length (journal m) < MODEM_MAX_CALL_LEGS \<Longrightarrow> je_in_use e \<Longrightarrow>
      ?I (m\<lparr>journal := journal m @ [e]\<rparr>)" using wf.journal [OF wf] I by simp
qed

locale status_property_full = status_property +
  assumes qrow: "wf_model m \<Longrightarrow> proj_row m = Some pr \<Longrightarrow> Q pr"

sublocale status_property_full \<subseteq> all: call_api "\<lambda>m. wf_model m \<and> Q (published m)"
  by unfold_locales
    (use qrow wf.journal_drop wf.publish in \<open>auto intro: wf.journal_drop wf.publish\<close>)

interpretation shown: status_property_full wf_projection
  by unfold_locales (auto intro: wf_projection_latch proj_row_wf)

text \<open>The status without the two result latches and the number they keep company with.\<close>

definition pr_core :: "call_projection \<Rightarrow> call_projection" where
  "pr_core p = p\<lparr>pr_last_call_result := MODEM_CALL_RESULT_NONE,
                pr_second_call_result := MODEM_CALL_RESULT_NONE, pr_incoming_number := ''''\<rparr>"

lemma pr_core_latch: "latch_only h \<Longrightarrow> pr_core (h p) = pr_core p"
proof -
  assume "latch_only h"
  then obtain a b n where "h p = p\<lparr>pr_last_call_result := a, pr_second_call_result := b,
      pr_incoming_number := n\<rparr>"
    unfolding latch_only_def by blast
  then show ?thesis by (simp add: pr_core_def)
qed

interpretation core: status_property "\<lambda>p. pr_core p = v" for v
  by unfold_locales (simp add: pr_core_latch)

text \<open>Between two projections the published call state does not move.  Events, snapshots,
  responses, timers and requests change only the two result latches and clear the kept number;
  the call state, the active call id, hold, waiting, ringing and caller-id flags change in
  \<open>call_model_project\<close> alone.\<close>

theorem only_projector_publishes:
  assumes "wf_model m" and "call_admissible a m" and "a \<noteq> In_Project"
  shows "pr_core (published (call_apply a m)) = pr_core (published m)"
  using core.un.apply_unpublished [of m _ a] assms by blast

theorem only_projector_publishes_witness:
  "pr_core (published (call_apply In_Ring (call_model_init None))) = pr_core projection_zero"
proof -
  have "published (call_model_init None) = projection_zero" by (simp add: call_model_init_def)
  then show ?thesis using only_projector_publishes [OF init_wf [of None], of In_Ring] by simp
qed

text \<open>C5: Every status the phone can show is coherent.  In every reachable model the published
  projection is one of the rows of the design: ACTIVE carries the id of a call, hold and
  second-call-held exclude each other and occur only with ACTIVE, a waiting call rings and occurs
  only with ACTIVE, the ringer runs exactly for RINGING or a waiting call, IDLE has no call id,
  ENDING is never published and the number fits its buffer.\<close>

theorem published_status_coherent:
  assumes "reachable m"
  shows "wf_projection (published m) \<and> wf_projection (snd (call_model_project m))"
proof -
  have wf: "wf_model m \<and> wf_projection (published m)"
  proof (rule shown.all.reachable_kept [OF assms])
    show "wf_model (call_model_init t) \<and> wf_projection (published (call_model_init t))" for t
      using init_wf by (simp add: call_model_init_def projection_zero_def wf_projection_def)
  qed
  let ?m = "m\<lparr>journal := []\<rparr>"
  have "wf_model ?m" using wf.journal_drop wf by blast
  then have "proj_row ?m = Some r \<Longrightarrow> wf_projection r" for r by (rule proj_row_wf)
  then show ?thesis using wf
    by (auto simp: call_model_project_def Let_def split: option.split)
qed

theorem published_status_coherent_witness:
  "wf_projection (published (call_apply In_Ring (call_model_init None)))"
proof -
  have "reachable (call_apply In_Ring (call_model_init None))"
    by (rule call_run_reachable [where as = "[In_Ring]" and m = "call_model_init None"])
      (simp_all add: reachable.init)
  from published_status_coherent [OF this] show ?thesis by simp
qed

section \<open>Projecting twice\<close>

lemma fill_incoming_cases:
  "(\<exists>n w d. \<forall>out. proj_fill_incoming m out =
      out\<lparr>pr_incoming_number := proj_copy_number n, pr_caller_id_withheld := w,
          pr_incoming_diverted := d\<rparr>) \<or>
   (\<forall>out. proj_fill_incoming m out = out)"
proof -
  let ?f1 = "List.find (\<lambda>l. lg_in_use l \<and> (lg_state l = CALL_LEG_WAITING \<or>
               lg_state l = CALL_LEG_INCOMING)) (legs m)"
  let ?f2 = "List.find (\<lambda>l. lg_in_use l \<and> lg_mt_cli_valid l \<and> lg_dir l = CALL_DIR_MT \<and>
               (lg_state l = CALL_LEG_ACTIVE \<or> lg_state l = CALL_LEG_HELD)) (legs m)"
  let ?p = "pending_mt m"
  consider "mt_active ?p \<and> mt_alert_observed ?p"
    | l where "\<not> (mt_active ?p \<and> mt_alert_observed ?p)" "?f1 = Some l"
    | l where "\<not> (mt_active ?p \<and> mt_alert_observed ?p)" "?f1 = None" "?f2 = Some l"
    | "\<not> (mt_active ?p \<and> mt_alert_observed ?p)" "?f1 = None" "?f2 = None"
    by (cases ?f1; cases ?f2) auto
  then show ?thesis
    by cases (fastforce simp: proj_fill_incoming_def Let_def)+
qed

lemma copy_copy [simp]: "proj_copy_number (proj_copy_number s) = proj_copy_number s"
  by (simp add: proj_copy_number_def)

text \<open>What the projector reads of a leg does not include the role of a leg that is not departing.\<close>

definition same_view :: "call_leg \<Rightarrow> call_leg \<Rightarrow> bool" where
  "same_view l l' \<longleftrightarrow>
     (\<exists>s. l' = l\<lparr>lg_published_role := s\<rparr>) \<and> (cm_leg_is_transient l \<longrightarrow> l' = l)"

lemma publish_same_view: "same_view l (proj_publish_leg m a l)"
proof (cases "lg_in_use l \<and> \<not> cm_leg_is_transient l")
  case True
  then show ?thesis by (auto simp: same_view_def proj_publish_leg_def)
next
  case False
  have "l = l\<lparr>lg_published_role := lg_published_role l\<rparr>" by simp
  then have "same_view l l" unfolding same_view_def by blast
  then show ?thesis using False by (auto simp: proj_publish_leg_def)
qed

lemma same_view_fields:
  assumes "same_view l l'"
  shows "lg_in_use l' = lg_in_use l" "lg_id l' = lg_id l" "lg_gen l' = lg_gen l"
    "lg_state l' = lg_state l" "lg_dir l' = lg_dir l" "lg_number l' = lg_number l"
    "lg_cli_withheld l' = lg_cli_withheld l" "lg_mt_cli_valid l' = lg_mt_cli_valid l"
    "lg_incoming_diverted l' = lg_incoming_diverted l"
    "cm_leg_is_transient l' = cm_leg_is_transient l"
proof -
  obtain s where "l' = l\<lparr>lg_published_role := s\<rparr>" using assms unfolding same_view_def by blast
  then show "lg_in_use l' = lg_in_use l" "lg_id l' = lg_id l" "lg_gen l' = lg_gen l"
    "lg_state l' = lg_state l" "lg_dir l' = lg_dir l" "lg_number l' = lg_number l"
    "lg_cli_withheld l' = lg_cli_withheld l" "lg_mt_cli_valid l' = lg_mt_cli_valid l"
    "lg_incoming_diverted l' = lg_incoming_diverted l"
    "cm_leg_is_transient l' = cm_leg_is_transient l"
    by (simp_all add: cm_leg_is_transient_def)
qed

lemma pass1_same_view:
  assumes "txns m' = txns m" and v: "same_view l l'"
  shows "proj_pass1 m' l' a = proj_pass1 m l a"
proof -
  have "proj_leg_is_tentative_dial m' l' = proj_leg_is_tentative_dial m l"
    unfolding proj_leg_is_tentative_dial_def assms(1) tentative_dial_of_def [abs_def]
      same_view_fields [OF v] by (rule refl)
  then show ?thesis unfolding proj_pass1_def same_view_fields [OF v] by (rule ssubst) (rule refl)
qed

lemma pass2_same_view:
  assumes v: "same_view l l'" shows "proj_pass2 l' a = proj_pass2 l a"
proof (cases "cm_leg_is_transient l")
  case True
  then have "l' = l" using v by (simp add: same_view_def)
  then show ?thesis by simp
next
  case False
  then show ?thesis unfolding proj_pass2_def same_view_fields [OF v] by simp
qed

lemma fold_map_same:
  "(\<And>l a. l \<in> set ls \<Longrightarrow> f (g l) a = h l a) \<Longrightarrow> fold f (map g ls) a = fold h ls a"
  by (induction ls arbitrary: a) simp_all

lemma find_map_same:
  "(\<And>l. P (g l) = Q l) \<Longrightarrow> List.find P (map g ls) = map_option g (List.find Q ls)"
  by (induction ls) simp_all

lemma project_again:
  assumes leg: "\<And>l. same_view l (g l)" and m': "m' = m\<lparr>legs := map g (legs m), published := r\<rparr>"
  shows "proj_counts m' = proj_counts m" "proj_fill_incoming m' out = proj_fill_incoming m out"
    "proj_find_newcall_setup m' = proj_find_newcall_setup m"
    "proj_find_answer_setup m' = proj_find_answer_setup m"
    "proj_find_dial_setup m' = proj_find_dial_setup m"
proof -
  have tx: "txns m' = txns m" "pending_mt m' = pending_mt m" "legs m' = map g (legs m)"
    by (simp_all add: m')
  have "proj_genuine m' = proj_genuine m"
    unfolding proj_genuine_def tx(3) by (rule fold_map_same) (rule pass1_same_view [OF tx(1) leg])
  moreover have "fold proj_pass2 (map g (legs m)) a = fold proj_pass2 (legs m) a" for a
    by (rule fold_map_same) (rule pass2_same_view [OF leg])
  ultimately show "proj_counts m' = proj_counts m" by (simp add: proj_counts_def Let_def tx)
  have "List.find (\<lambda>l. lg_in_use l \<and> (lg_state l = CALL_LEG_WAITING \<or> lg_state l = CALL_LEG_INCOMING))
      (map g (legs m)) = map_option g (List.find (\<lambda>l. lg_in_use l \<and> (lg_state l = CALL_LEG_WAITING \<or>
        lg_state l = CALL_LEG_INCOMING)) (legs m))"
    by (rule find_map_same) (simp add: same_view_fields [OF leg])
  moreover have "List.find (\<lambda>l. lg_in_use l \<and> lg_mt_cli_valid l \<and> lg_dir l = CALL_DIR_MT \<and>
        (lg_state l = CALL_LEG_ACTIVE \<or> lg_state l = CALL_LEG_HELD)) (map g (legs m)) =
      map_option g (List.find (\<lambda>l. lg_in_use l \<and> lg_mt_cli_valid l \<and> lg_dir l = CALL_DIR_MT \<and>
        (lg_state l = CALL_LEG_ACTIVE \<or> lg_state l = CALL_LEG_HELD)) (legs m))"
    by (rule find_map_same) (simp add: same_view_fields [OF leg])
  ultimately show "proj_fill_incoming m' out = proj_fill_incoming m out"
    by (simp add: proj_fill_incoming_def Let_def tx same_view_fields [OF leg] split: option.split)
  show "proj_find_newcall_setup m' = proj_find_newcall_setup m"
    "proj_find_answer_setup m' = proj_find_answer_setup m"
    "proj_find_dial_setup m' = proj_find_dial_setup m"
    by (simp_all add: proj_find_newcall_setup_def proj_find_answer_setup_def
        proj_find_dial_setup_def tx)
qed

lemma proj_row_again:
  assumes leg: "\<And>l. same_view l (g l)" and row: "proj_row m = Some r"
    and row': "proj_row (m\<lparr>legs := map g (legs m), published := r\<rparr>) = Some r'"
  shows "r' = r"
proof -
  define m' where "m' = m\<lparr>legs := map g (legs m), published := r\<rparr>"
  note same = project_again [OF leg m'_def]
  have pub: "published m' = r" "pending_mt m' = pending_mt m" by (simp_all add: m'_def)
  have base': "proj_base m' = (proj_fill_incoming m (projection_zero
      \<lparr>pr_last_call_result := pr_last_call_result r, pr_second_call_result := pr_second_call_result r,
       pr_caller_id_withheld := pr_caller_id_withheld r,
       pr_incoming_number := proj_copy_number (pr_incoming_number r)\<rparr>))\<lparr>pr_incoming_diverted := False\<rparr>"
    by (simp add: proj_base_def same pub)
  from fill_incoming_cases [of m] show ?thesis
  proof
    assume "\<exists>n w d. \<forall>out. proj_fill_incoming m out = out\<lparr>pr_incoming_number := proj_copy_number n,
        pr_caller_id_withheld := w, pr_incoming_diverted := d\<rparr>"
    then obtain n w d where F: "\<And>out. proj_fill_incoming m out =
        out\<lparr>pr_incoming_number := proj_copy_number n, pr_caller_id_withheld := w,
            pr_incoming_diverted := d\<rparr>" by blast
    show ?thesis using row row' [folded m'_def]
      by (auto simp: proj_row_def proj_connected_row_def proj_idle_row_def Let_def same pub base'
          proj_base_def F projection_zero_def split: if_splits option.splits)
  next
    assume F: "\<forall>out. proj_fill_incoming m out = out"
    show ?thesis using row row' [folded m'_def]
      by (auto simp: proj_row_def proj_connected_row_def proj_idle_row_def Let_def same pub base'
          proj_base_def F projection_zero_def proj_copy_number_def split: if_splits option.splits)
  qed
qed

text \<open>Projecting is stable: projecting a second time, with no input in between, publishes exactly
  the status of the first, although the first run rewrote the published roles of the legs and the
  latches the second one reads.\<close>

theorem project_idempotent:
  "snd (call_model_project (fst (call_model_project m))) = snd (call_model_project m)"
proof -
  define m1 where "m1 = m\<lparr>journal := []\<rparr>"
  have raise: "proj_inconsistent (cm_raise_reason m1 b) = proj_inconsistent m1"
    "(cm_raise_reason m1 b)\<lparr>journal := []\<rparr> = cm_raise_reason m1 b" for b
    unfolding proj_inconsistent_counts
    by (simp_all add: genuine_active_def [abs_def] proj_leg_is_tentative_dial_def m1_def
        cm_raise_reason_def)
  have again: "snd (call_model_project (m1\<lparr>legs := map (proj_publish_leg m1 (proj_counts m1)) (legs m1),
      published := r\<rparr>)) = r" if "proj_row m1 = Some r" for r
  proof -
    let ?m2 = "m1\<lparr>legs := map (proj_publish_leg m1 (proj_counts m1)) (legs m1), published := r\<rparr>"
    have j: "?m2\<lparr>journal := []\<rparr> = ?m2" by (simp add: m1_def)
    have "proj_row ?m2 = Some r' \<Longrightarrow> r' = r" for r'
      by (rule proj_row_again [OF publish_same_view that])
    then show ?thesis unfolding call_model_project_def Let_def j by (auto split: option.split)
  qed
  show ?thesis
  proof (cases "proj_inconsistent m1")
    case True
    then show ?thesis
      by (simp add: call_model_project_def Let_def raise flip: m1_def)
  next
    case False
    then show ?thesis
    proof (cases "proj_row m1")
      case None
      have "m1\<lparr>journal := []\<rparr> = m1" by (simp add: m1_def)
      with False None show ?thesis by (simp add: call_model_project_def Let_def flip: m1_def)
    next
      case (Some r)
      then show ?thesis using False again [OF Some]
        by (simp add: call_model_project_def [of m] Let_def flip: m1_def)
    qed
  qed
qed

end
