(* ===== verification/Call_Contracts.thy ===== *)
theory Call_Contracts
  imports Call_Timers
begin

text \<open>
  Contracts of single operations of the call model: admission, dispatch, the dispatch guard,
  cancellation, the teardown queue, the bare final and the register of its cause.
\<close>

section \<open>Admission\<close>

text \<open>What an admission has put into the slot, whatever it does to the other slots afterwards.\<close>

definition admitted :: "call_txn_kind \<Rightarrow> bool \<Rightarrow> u32 \<Rightarrow> call_txn \<Rightarrow> bool" where
  "admitted kind second tok t \<longleftrightarrow>
     tx_in_use t \<and> tx_token t = tok \<and> tx_kind t = kind \<and> tx_state t = TXN_PENDING \<and>
     tx_second_mo t = second \<and> \<not> tx_ever_dispatched t \<and> \<not> tx_is_tombstone t \<and>
     tx_result t = MODEM_CALL_RESULT_NONE"

lemma cancel_other: "i \<noteq> j \<Longrightarrow> txn_at (cm_cancel_txn m j) i = txn_at m i"
  by (simp add: cm_cancel_txn_def Let_def)

lemma capture_setup_admitted:
  "admitted k s tok (txn_at (capture_hangup_setup h i m) h) = admitted k s tok (txn_at m h)"
proof -
  have "admitted k s tok (txn_at (upd_txn h (\<lambda>t. t\<lparr>tx_hangup_setups := tx_hangup_setups t @ xs\<rparr>) m) h)
      = admitted k s tok (txn_at m h)" for xs
    by (rule txn_at_upd_txn_field [of "admitted k s tok"]) (simp add: admitted_def)
  then show ?thesis by (simp add: capture_hangup_setup_def Let_def cancel_other)
qed

lemma capture_setups_admitted:
  "admitted k s tok (txn_at (cm_capture_hangup_setups m h) h) = admitted k s tok (txn_at m h)"
proof -
  have "admitted k s tok (txn_at (upd_txn h (\<lambda>t. t\<lparr>tx_hangup_setups := []\<rparr>) m) h)
      = admitted k s tok (txn_at m h)"
    by (rule txn_at_upd_txn_field [of "admitted k s tok"]) (simp add: admitted_def)
  moreover have "admitted k s tok (txn_at (for_each n (capture_hangup_setup h) m') h) =
      admitted k s tok (txn_at m' h)" for n m'
    by (rule for_each_frame [where g = "\<lambda>m. admitted k s tok (txn_at m h)"])
      (rule capture_setup_admitted)
  ultimately show ?thesis by (simp add: cm_capture_hangup_setups_def)
qed

lemma baseline_admitted:
  "admitted k s tok (txn_at (cm_capture_baseline m h) h) = admitted k s tok (txn_at m h)"
  unfolding cm_capture_baseline_def
  by (rule txn_at_upd_txn_field [of "admitted k s tok"]) (simp add: admitted_def)

lemma request_admit_admitted:
  assumes "length (txns m) = MODEM_MAX_CALL_TRANSACTIONS" and "slot < MODEM_MAX_CALL_TRANSACTIONS"
    and "request_admit m kind target second slot = (m', tok)"
  shows "admitted kind second tok (txn_at m' slot) \<and> tok \<noteq> 0"
proof -
  define m1 where "m1 = upd_txn slot (\<lambda>_. txn_zero) m"
  obtain t m2 where al: "cm_alloc_token m1 = (t, m2)" by fastforce
  define m3 where "m3 = upd_txn slot (\<lambda>u. u\<lparr>tx_in_use := True, tx_token := t, tx_kind := kind,
      tx_state := TXN_PENDING, tx_second_mo := second, tx_result := MODEM_CALL_RESULT_NONE\<rparr>) m2"
  define m4 where "m4 = (if kind = CALL_TXN_DIAL then dial_accept_reset m3 second else m3)"
  define m5 where "m5 = upd_txn slot
      (\<lambda>t. t\<lparr>tx_target_id := fst (request_target_override m4 kind (request_target m4 kind target)),
            tx_target_gen := snd (request_target_override m4 kind (request_target m4 kind target)),
            tx_held_id := fst (request_held m4 kind), tx_held_gen := snd (request_held m4 kind),
            tx_mt_episode := request_episode m4 kind\<rparr>) m4"
  have len1: "length (txns m1) = MODEM_MAX_CALL_TRANSACTIONS" using assms(1) by (simp add: m1_def)
  have "t \<noteq> 0" using alloc_token_fresh [OF len1] al by auto
  have tx: "txns m2 = txns m1" using alloc_token_other(1) [of m1] al by simp
  have "admitted kind second t (txn_at m3 slot)"
    using assms(1,2) by (simp add: m3_def txn_at_def upd_txn_def tx m1_def admitted_def txn_zero_def)
  moreover have "txns m4 = txns m3" by (simp add: m4_def dial_accept_reset_def Let_def)
  ultimately have "admitted kind second t (txn_at m4 slot)" by (simp add: txn_at_def)
  then have "admitted kind second t (txn_at m5 slot)"
    unfolding m5_def by (subst txn_at_upd_txn_field [of "admitted kind second t"])
      (simp_all add: admitted_def)
  moreover have "request_admit m kind target second slot =
      (if kind = CALL_TXN_HANGUP
       then cm_capture_baseline (cm_capture_hangup_setups m5 slot) slot else m5, t)"
    by (simp add: request_admit_def m5_def m4_def m3_def al Let_def case_prod_unfold flip: m1_def)
  ultimately show ?thesis using assms(3) \<open>t \<noteq> 0\<close>
    by (auto simp: baseline_admitted capture_setups_admitted split: if_splits)
qed

lemma request_slot_length:
  "wf_model m \<Longrightarrow> request_slot m kind = (m', s) \<Longrightarrow> length (txns m') = MODEM_MAX_CALL_TRANSACTIONS"
  using wf.slot [of m kind] by (simp add: wf_slots)

text \<open>An accepted request owns a slot.  When \<open>call_model_request\<close> returns a nonzero token, exactly
  one transaction of the new pool carries it: the requested kind and role, PENDING, never
  dispatched, in slot 0 exactly when it is a HANGUP, so a full general pool cannot displace a
  hangup nor a hangup a dial.\<close>

theorem request_owns_slot:
  assumes wf: "wf_model m" and req: "call_model_request m kind target second = (m', tok)" and "tok \<noteq> 0"
  shows "\<exists>i < MODEM_MAX_CALL_TRANSACTIONS. admitted kind second tok (txn_at m' i) \<and>
           (kind = CALL_TXN_HANGUP \<longleftrightarrow> i = 0) \<and>
           (\<forall>j < MODEM_MAX_CALL_TRANSACTIONS. tx_in_use (txn_at m' j) \<longrightarrow> tx_token (txn_at m' j) = tok \<longrightarrow> j = i)"
proof -
  obtain m1 m2 s tg where sup: "(if kind = CALL_TXN_DIAL then request_supersede m second else Some m) = Some m1"
    and slot: "request_slot m1 kind = (m2, Some s)"
    and adm: "request_admit m2 kind tg second s = (m', tok)"
    using req \<open>tok \<noteq> 0\<close>
    by (auto simp: call_model_request_def Let_def split: if_splits option.splits prod.splits)
  have "wf_model m1" using sup wf wf.supersede by (auto split: if_splits)
  then have len: "length (txns m2) = MODEM_MAX_CALL_TRANSACTIONS" using slot by (rule request_slot_length)
  have s: "s < MODEM_MAX_CALL_TRANSACTIONS" "kind = CALL_TXN_HANGUP \<longleftrightarrow> s = 0"
    using request_slot_free [OF slot] by simp_all
  have ad: "admitted kind second tok (txn_at m' s)" using request_admit_admitted [OF len s(1) adm] by simp
  have "wf_model m'" using wf.request [OF wf, of kind target second] req by simp
  then have "tx_in_use (txn_at m' j) \<Longrightarrow> tx_token (txn_at m' j) = tok \<Longrightarrow>
      j < MODEM_MAX_CALL_TRANSACTIONS \<Longrightarrow> j = s" for j
    using ad s(1) by (auto simp: wf_model_def wf_pool_def admitted_def txn_at_def)
  then show ?thesis using ad s by blast
qed

lemma request_admit_token: "snd (request_admit m kind target second slot) =
    fst (cm_alloc_token (upd_txn slot (\<lambda>_. txn_zero) m))"
  by (simp add: request_admit_def Let_def case_prod_unfold)

lemma sample_slot:
  "request_slot (call_model_init None) CALL_TXN_HANGUP = (call_model_init None, Some 0)"
  by (simp add: request_slot_def cm_retire_one_def cm_txn_retirement_eligible_def call_model_init_def
      txn_at_def txn_zero_def Let_def)

lemma alloc_token_first:
  "next_token m \<noteq> 0 \<Longrightarrow> \<not> cm_token_live m (next_token m) \<Longrightarrow> fst (cm_alloc_token m) = next_token m"
  using cm_alloc_token_loop.simps(2) [of "MODEM_MAX_CALL_TRANSACTIONS + 1" m]
  by (simp add: cm_alloc_token_def cm_token_live_def Let_def)

lemma sample_token:
  "fst (cm_alloc_token (upd_txn 0 (\<lambda>_. txn_zero) (call_model_init None))) = 1"
  by (subst alloc_token_first)
    (auto simp: call_model_init_def upd_txn_def upd_nth_def cm_token_live_def list_ex_iff in_set_conv_nth
      nth_list_update txn_zero_def split: if_splits)

lemma sample_request_token: "snd (call_model_request (call_model_init None) CALL_TXN_HANGUP 0 False) = 1"
  by (simp add: call_model_request_def sample_slot request_admit_token sample_token)

theorem request_owns_slot_witness:
  "\<exists>i < MODEM_MAX_CALL_TRANSACTIONS. admitted CALL_TXN_HANGUP False 1
     (txn_at (fst (call_model_request (call_model_init None) CALL_TXN_HANGUP 0 False)) i)"
proof -
  have "call_model_request (call_model_init None) CALL_TXN_HANGUP 0 False =
      (fst (call_model_request (call_model_init None) CALL_TXN_HANGUP 0 False), 1)"
    using sample_request_token by (simp add: prod_eq_iff)
  from request_owns_slot [OF init_wf this zero_neq_one [symmetric]] show ?thesis by blast
qed

section \<open>Dispatch\<close>

lemma dispatch_baseline_slots:
  "txns (dispatch_baseline m ti) = txns m \<or>
   txns (dispatch_baseline m ti) = txns (cm_capture_baseline m ti)"
  "now_ms (dispatch_baseline m ti) = now_ms m" "timing (dispatch_baseline m ti) = timing m"
  by (simp_all add: dispatch_baseline_def dial_accept_reset_def cm_capture_baseline_def Let_def)

text \<open>Dispatch arms both deadlines.  Reporting the dispatch of an open transaction moves it to
  DISPATCHED and stamps its policy and abandon deadlines from the current clock, and an armed
  deadline is never the zero that means ``not armed'', even when the clock is about to wrap.\<close>

theorem dispatch_arms_deadlines:
  assumes wf: "wf_model m" and tok: "txn_by_token m tok = Some ti" and "\<not> txn_is_terminal (txn_at m ti)"
  shows "tx_state (txn_at (call_model_txn_dispatched m tok) ti) = TXN_DISPATCHED \<and>
     tx_ever_dispatched (txn_at (call_model_txn_dispatched m tok) ti) \<and>
     tx_policy_deadline_ms (txn_at (call_model_txn_dispatched m tok) ti) =
       never_zero (now_ms m + txn_policy_ms (timing m)) \<and>
     tx_abandon_deadline_ms (txn_at (call_model_txn_dispatched m tok) ti) =
       never_zero (now_ms m + txn_abandon_ms (timing m)) \<and>
     tx_policy_deadline_ms (txn_at (call_model_txn_dispatched m tok) ti) \<noteq> 0 \<and>
     tx_abandon_deadline_ms (txn_at (call_model_txn_dispatched m tok) ti) \<noteq> 0"
proof -
  define m1 where "m1 = dispatch_baseline m ti"
  define m2 where "m2 = (if tx_kind (txn_at m1 ti) = CALL_TXN_HOLD \<or> tx_kind (txn_at m1 ti) = CALL_TXN_SWAP
      then upd_txn ti (\<lambda>t. t\<lparr>tx_baseline_target_held :=
         (case find_leg_at m1 (tx_target_id (txn_at m1 ti)) (tx_target_gen (txn_at m1 ti)) of
            None \<Rightarrow> False | Some l \<Rightarrow> lg_state l = CALL_LEG_HELD)\<rparr>) m1 else m1)"
  have "length (txns m1) = length (txns m)" "now_ms m1 = now_ms m" "timing m1 = timing m"
    using dispatch_baseline_slots [of m ti] by (auto simp: m1_def cm_capture_baseline_def)
  then have "ti < length (txns m2)" "now_ms m2 = now_ms m" "timing m2 = timing m"
    using txn_by_token_SomeD [OF tok] by (simp_all add: m2_def)
  moreover have "call_model_txn_dispatched m tok = upd_txn ti (\<lambda>t. t\<lparr>
       tx_policy_deadline_ms := never_zero (now_ms m2 + txn_policy_ms (timing m2)),
       tx_abandon_deadline_ms := never_zero (now_ms m2 + txn_abandon_ms (timing m2)),
       tx_ever_dispatched := True, tx_state := TXN_DISPATCHED\<rparr>) m2"
    using assms by (simp add: call_model_txn_dispatched_def Let_def flip: m1_def m2_def)
  ultimately show ?thesis by (simp add: txn_at_upd_txn)
qed

lemma sample_dial_token: "txn_by_token sample_dial 1 = Some 1"
  by (simp add: txn_by_token_def txn_with_token_def sample_dial_def) (simp add: sample_txn_def)

theorem dispatch_arms_deadlines_witness:
  "tx_abandon_deadline_ms (txn_at (call_model_txn_dispatched sample_dial 1) 1) = 120000"
proof -
  have "timing sample_dial = call_timing_telit"
    by (simp add: sample_dial_def call_model_init_def)
  then show ?thesis
    using dispatch_arms_deadlines [OF sample_dial_wf sample_dial_token] sample_dial_legs(3)
    by (simp add: sample_dial_1 call_timing_telit_def never_zero_def)
qed

section \<open>The dispatch guard\<close>

text \<open>What the header promises of each kind, over the legs themselves: the participants the
  request captured are still there (\<open>participants_live\<close>), and a teardown or an answer still has
  something to do (\<open>goal_open\<close>).\<close>

definition leg_there :: "call_model \<Rightarrow> u8 \<Rightarrow> u8 \<Rightarrow> bool" where
  "leg_there m i g \<longleftrightarrow> (\<exists>l \<in> set (legs m). lg_in_use l \<and> lg_id l = i \<and> lg_gen l = g)"

definition own_episode :: "call_model \<Rightarrow> call_txn \<Rightarrow> bool" where
  "own_episode m t \<longleftrightarrow> mt_active (pending_mt m) \<and> \<not> cm_txn_episode_stale m t"

definition target_there :: "call_model \<Rightarrow> call_txn \<Rightarrow> bool" where
  "target_there m t \<longleftrightarrow>
     (if tx_target_id t \<noteq> 0 then leg_there m (tx_target_id t) (tx_target_gen t) else own_episode m t)"

text \<open>A constructive command may go out only with its participants, and, where it re-arranges calls,
  only when no cancelled call is still being taken down.\<close>

definition participants_live :: "call_model \<Rightarrow> call_txn \<Rightarrow> bool" where
  "participants_live m t \<longleftrightarrow>
     (case tx_kind t of
        CALL_TXN_ANSWER \<Rightarrow> target_there m t
      | CALL_TXN_WAIT_ANSWER \<Rightarrow> target_there m t \<and> \<not> fst (call_model_new_call_cleanup_pending m)
      | CALL_TXN_HOLD \<Rightarrow> leg_there m (tx_target_id t) (tx_target_gen t) \<and>
          call_model_hold_toggle_available m \<and> \<not> fst (call_model_new_call_cleanup_pending m)
      | CALL_TXN_SWAP \<Rightarrow> leg_there m (tx_target_id t) (tx_target_gen t) \<and>
          leg_there m (tx_held_id t) (tx_held_gen t) \<and> \<not> fst (call_model_new_call_cleanup_pending m)
      | _ \<Rightarrow> True)"

definition goal_open :: "call_model \<Rightarrow> call_txn \<Rightarrow> bool" where
  "goal_open m t \<longleftrightarrow>
     (case tx_kind t of
        CALL_TXN_ANSWER \<Rightarrow> tx_target_id t \<noteq> 0 \<longrightarrow>
          (\<forall>k. cm_find_leg m (tx_target_id t) (tx_target_gen t) = Some k \<longrightarrow> lg_state (leg_at m k) \<noteq> CALL_LEG_ACTIVE)
      | CALL_TXN_WAIT_REJECT \<Rightarrow> target_there m t
      | CALL_TXN_RELEASE_ACTIVE \<Rightarrow> tx_target_id t \<noteq> 0 \<and> leg_there m (tx_target_id t) (tx_target_gen t)
      | CALL_TXN_RELEASE_LEG \<Rightarrow> tx_target_id t \<noteq> 0 \<and> leg_there m (tx_target_id t) (tx_target_gen t)
      | CALL_TXN_HANGUP \<Rightarrow> cm_hangup_has_live_obligation m t
      | _ \<Rightarrow> True)"

lemma leg_there_iff: "leg_there m i g \<longleftrightarrow> cm_find_leg m i g \<noteq> None"
  by (auto simp: leg_there_def cm_find_leg_def find_idx_None_iff simp del: not_None_eq)

lemma guard_verdict_spec:
  "guard_verdict m t =
     (if \<not> participants_live m t then CALL_DISPATCH_STALE
      else if \<not> goal_open m t then CALL_DISPATCH_ALREADY_SATISFIED else CALL_DISPATCH_SEND)"
  by (cases "tx_kind t")
    (auto simp: guard_verdict_def Let_def participants_live_def goal_open_def target_there_def own_episode_def
      leg_there_iff find_leg_at_def split: option.splits)

lemma guard_resolve_at:
  assumes "ti < length (txns m)"
  shows "txn_at (cm_guard_resolve m ti v) ti = (txn_at m ti)\<lparr>tx_state :=
      (case v of CALL_DISPATCH_ALREADY_SATISFIED \<Rightarrow> TXN_SUCCEEDED | CALL_DISPATCH_STALE \<Rightarrow> TXN_FAILED
       | CALL_DISPATCH_SEND \<Rightarrow> tx_state (txn_at m ti)), tx_output_resolved := True, tx_cleanup_confirmed := True\<rparr>"
    and "j \<noteq> ti \<Longrightarrow> txn_at (cm_guard_resolve m ti v) j = txn_at m j"
    and "legs (cm_guard_resolve m ti v) = legs m"
  using assms by (cases v; simp add: cm_guard_resolve_def Let_def txn_at_def upd_txn_def nth_upd_nth)+

text \<open>C8: the last check before a command is written.  A command goes out exactly when its captured
  participants are still there and its goal is not met yet, and then the model is untouched.  If a
  participant is gone the transaction fails, if the goal is met it succeeds; either way nothing else
  changes and the guard never lets that transaction out again.\<close>

theorem dispatch_guard_gate:
  assumes wf: "wf_model m" and tok: "txn_by_token m tok = Some ti" "\<not> txn_is_terminal (txn_at m ti)"
    and g: "call_model_txn_dispatch_guard m tok = (m', v)"
  shows "(v = CALL_DISPATCH_SEND \<longleftrightarrow> participants_live m (txn_at m ti) \<and> goal_open m (txn_at m ti)) \<and>
    (v = CALL_DISPATCH_SEND \<longrightarrow> m' = m) \<and>
    (v = CALL_DISPATCH_STALE \<longrightarrow> \<not> participants_live m (txn_at m ti) \<and> tx_state (txn_at m' ti) = TXN_FAILED) \<and>
    (v = CALL_DISPATCH_ALREADY_SATISFIED \<longrightarrow> \<not> goal_open m (txn_at m ti) \<and>
       tx_state (txn_at m' ti) = TXN_SUCCEEDED) \<and>
    (v \<noteq> CALL_DISPATCH_SEND \<longrightarrow> legs m' = legs m \<and> (\<forall>j. j \<noteq> ti \<longrightarrow> txn_at m' j = txn_at m j) \<and>
       call_model_txn_dispatch_guard m' tok = (m', CALL_DISPATCH_STALE))"
proof (cases "guard_verdict m (txn_at m ti) = CALL_DISPATCH_SEND")
  case True
  then have "v = CALL_DISPATCH_SEND" "m' = m"
    using g tok by (simp_all add: call_model_txn_dispatch_guard_def Let_def)
  then show ?thesis
    using True by (simp add: guard_verdict_spec split: if_splits)
next
  case False
  then have m': "m' = cm_guard_resolve m ti v" "v = guard_verdict m (txn_at m ti)"
    using g tok by (auto simp: call_model_txn_dispatch_guard_def Let_def)
  have ti: "ti < length (txns m)" using txn_by_token_SomeD [OF tok(1)] by simp
  note at = guard_resolve_at(1) [OF ti, of v, folded m'(1)]
  have others: "txn_at m' j = txn_at m j" if "j \<noteq> ti" for j
    using guard_resolve_at(2) [OF ti that] m'(1) by simp
  have legs: "legs m' = legs m"
    using guard_resolve_at(3) [OF ti] m'(1) by simp
  have "txn_by_token m' tok = Some ti"
  proof -
    have "length (txns m') = length (txns m)"
      by (simp add: m'(1) cm_guard_resolve_def Let_def upd_txn_def)
    moreover have "tx_in_use (txns m' ! j) = tx_in_use (txns m ! j) \<and> tx_token (txns m' ! j) = tx_token (txns m ! j)" for j
      using at others [of j] by (cases "j = ti") (simp_all add: txn_at_def)
    ultimately have "find_idx (\<lambda>t. tx_in_use t \<and> tx_token t = tok) (txns m') =
          find_idx (\<lambda>t. tx_in_use t \<and> tx_token t = tok) (txns m)"
      by (intro find_idx_cong) auto
    then show ?thesis using tok(1) by (simp add: txn_by_token_def txn_with_token_def split: if_splits)
  qed
  moreover have "txn_is_terminal (txn_at m' ti)"
    using False m'(2) by (cases v) (simp_all add: at txn_is_terminal_def)
  ultimately have "call_model_txn_dispatch_guard m' tok = (m', CALL_DISPATCH_STALE)"
    by (simp add: call_model_txn_dispatch_guard_def)
  then show ?thesis
    using False m'(2) others legs by (auto simp: at guard_verdict_spec split: if_splits)
qed

text \<open>A release that was queued for a leg which is gone is settled, not sent.\<close>

definition late_release :: call_model where
  "late_release = fst (call_model_request (call_model_init None) CALL_TXN_RELEASE_LEG 3 False)"

theorem dispatch_guard_gate_witness:
  "let (m', v) = call_model_txn_dispatch_guard late_release 1
   in v = CALL_DISPATCH_ALREADY_SATISFIED \<and> tx_state (txn_at m' 1) = TXN_SUCCEEDED \<and>
      call_model_txn_dispatch_guard m' 1 = (m', CALL_DISPATCH_STALE)"
proof -
  have wf: "wf_model late_release"
    unfolding late_release_def by (rule wf.request [OF init_wf])
  have s: "txn_by_token late_release 1 = Some 1" "\<not> txn_is_terminal (txn_at late_release 1)"
    "snd (call_model_txn_dispatch_guard late_release 1) = CALL_DISPATCH_ALREADY_SATISFIED"
    by code_simp+
  show ?thesis
    using dispatch_guard_gate [OF wf s(1,2) prod.collapse [symmetric]] s(3) by (simp add: case_prod_unfold Let_def)
qed

end
