(* ===== verification/Event_Queue.thy ===== *)
theory Event_Queue
  imports Prelude
begin

text \<open>
  The input event queue of \<open>services/event_queue.c\<close>: a ring of 32 slots with head, tail and count,
  and the static statistics beside it.  The interface \<open>bounded_fifo\<close> states what the event loop
  relies on, and the ring is shown to provide it.  The queue pointer is never NULL in the code.
\<close>

section \<open>Data\<close>

datatype event_type = EVENT_NONE | EVENT_KEY_DOWN | EVENT_KEY_UP | EVENT_KEY_HOLD | EVENT_SERVICE

record input_event =
  ev_type :: event_type
  ev_code :: u16
  ev_arg :: u16
  ev_when_ms :: u32

abbreviation "EVENT_QUEUE_CAPACITY \<equiv> 32 :: nat"

record event_queue =
  eq_items :: "input_event list"
  eq_head :: u8
  eq_tail :: u8
  eq_count :: u8

record event_queue_stats =
  es_depth :: u8
  es_high_water :: u8
  es_dropped :: u32

type_synonym event_state = "event_queue \<times> event_queue_stats"

section \<open>Operations\<close>

definition event_queue_init :: "event_queue \<Rightarrow> event_state" where
  "event_queue_init q =
     (q\<lparr>eq_head := 0, eq_tail := 0, eq_count := 0\<rparr>,
      \<lparr>es_depth = 0, es_high_water = 0, es_dropped = 0\<rparr>)"

text \<open>\<open>(uint8_t)((i + 1u) % EVENT_QUEUE_CAPACITY)\<close>; the sum is computed in 32 bits.\<close>

definition ring_next :: "u8 \<Rightarrow> u8" where
  "ring_next i = of_nat ((unat i + 1) mod EVENT_QUEUE_CAPACITY)"

definition event_queue_push :: "event_state \<Rightarrow> input_event \<Rightarrow> event_state \<times> bool" where
  "event_queue_push s e =
     (let (q, st) = s in
      if EVENT_QUEUE_CAPACITY \<le> unat (eq_count q) then
        ((q, if es_dropped st \<noteq> - 1 then st\<lparr>es_dropped := es_dropped st + 1\<rparr> else st), False)
      else
        (let q1 = q\<lparr>eq_items := (eq_items q)[unat (eq_tail q) := e],
                     eq_tail := ring_next (eq_tail q), eq_count := eq_count q + 1\<rparr>;
             st1 = st\<lparr>es_depth := eq_count q1\<rparr>;
             st2 = (if es_high_water st1 < eq_count q1
                    then st1\<lparr>es_high_water := eq_count q1\<rparr> else st1)
         in ((q1, st2), True)))"

definition event_queue_pop :: "event_state \<Rightarrow> event_state \<times> input_event option" where
  "event_queue_pop s =
     (let (q, st) = s in
      if eq_count q = 0 then ((q, st), None)
      else
        (let q1 = q\<lparr>eq_head := ring_next (eq_head q), eq_count := eq_count q - 1\<rparr>
         in ((q1, st\<lparr>es_depth := eq_count q1\<rparr>), Some (eq_items q ! unat (eq_head q)))))"

definition event_queue_empty :: "event_state \<Rightarrow> bool" where
  "event_queue_empty s \<longleftrightarrow> eq_count (fst s) = 0"

definition event_queue_get_stats :: "event_state \<Rightarrow> event_queue_stats" where
  "event_queue_get_stats s = snd s"

section \<open>The interface of a bounded queue\<close>

text \<open>\<open>content\<close> is the queue the client sees; a push is refused exactly when it is full.\<close>

locale bounded_fifo =
  fixes push :: "'s \<Rightarrow> 'e \<Rightarrow> 's \<times> bool"
    and pop :: "'s \<Rightarrow> 's \<times> 'e option"
    and inv :: "'s \<Rightarrow> bool"
    and content :: "'s \<Rightarrow> 'e list"
    and cap :: nat
  assumes push_inv: "inv s \<Longrightarrow> inv (fst (push s e))"
    and push_content: "inv s \<Longrightarrow> content (fst (push s e)) =
      (if length (content s) < cap then content s @ [e] else content s)"
    and push_result: "inv s \<Longrightarrow> snd (push s e) \<longleftrightarrow> length (content s) < cap"
    and pop_inv: "inv s \<Longrightarrow> inv (fst (pop s))"
    and pop_content: "inv s \<Longrightarrow> content (fst (pop s)) = tl (content s)"
    and pop_result: "inv s \<Longrightarrow> snd (pop s) = (if content s = [] then None else Some (hd (content s)))"

text \<open>A run of the queue: \<open>Inl e\<close> pushes, \<open>Inr ()\<close> pops; the two lists collect what was accepted and
  what was delivered.\<close>

fun queue_run :: "('s \<Rightarrow> 'e \<Rightarrow> 's \<times> bool) \<Rightarrow> ('s \<Rightarrow> 's \<times> 'e option) \<Rightarrow> ('e + unit) list \<Rightarrow> 's \<Rightarrow>
    's \<times> 'e list \<times> 'e list" where
  "queue_run psh pp [] s = (s, [], [])"
| "queue_run psh pp (Inl e # ops) s =
     (let (s1, ok) = psh s e; (s2, acc, out) = queue_run psh pp ops s1
      in (s2, if ok then e # acc else acc, out))"
| "queue_run psh pp (Inr u # ops) s =
     (let (s1, r) = pp s; (s2, acc, out) = queue_run psh pp ops s1
      in (s2, acc, case r of None \<Rightarrow> out | Some e \<Rightarrow> e # out))"

context bounded_fifo
begin

lemma run_inv: "inv s \<Longrightarrow> inv (fst (queue_run push pop ops s))"
proof (induction ops arbitrary: s)
  case (Cons a ops)
  then show ?case
    by (cases a) (simp_all add: split_beta push_inv pop_inv)
qed simp

lemma run_fifo:
  "inv s \<Longrightarrow> queue_run push pop ops s = (s', acc, out) \<Longrightarrow> content s @ acc = out @ content s'"
proof (induction ops arbitrary: s s' acc out)
  case (Cons a ops)
  show ?case
  proof (cases a)
    case (Inl e)
    obtain s1 ok where p: "push s e = (s1, ok)" by fastforce
    obtain acc1 where r: "queue_run push pop ops s1 = (s', acc1, out)" "acc = (if ok then e # acc1 else acc1)"
      using Cons.prems(2) p Inl by (auto split: prod.splits)
    have "inv s1" "content s1 = (if ok then content s @ [e] else content s)"
      using push_inv [OF Cons.prems(1), of e] push_content [OF Cons.prems(1), of e]
        push_result [OF Cons.prems(1), of e] p by simp_all
    with Cons.IH [OF _ r(1)] r(2) show ?thesis by (auto split: if_splits)
  next
    case (Inr u)
    obtain s1 x where p: "pop s = (s1, x)" by fastforce
    obtain out1 where r: "queue_run push pop ops s1 = (s', acc, out1)"
        "out = (case x of None \<Rightarrow> out1 | Some e \<Rightarrow> e # out1)"
      using Cons.prems(2) p Inr by (auto split: prod.splits)
    have "inv s1" "content s1 = tl (content s)"
      "x = (if content s = [] then None else Some (hd (content s)))"
      using pop_inv [OF Cons.prems(1)] pop_content [OF Cons.prems(1)]
        pop_result [OF Cons.prems(1)] p by simp_all
    with Cons.IH [OF _ r(1)] r(2) show ?thesis
      by (cases "content s") (auto split: if_splits)
  qed
qed simp

end

section \<open>The ring provides it\<close>

definition ring_inv :: "event_state \<Rightarrow> bool" where
  "ring_inv s \<longleftrightarrow>
     (let q = fst s in
      length (eq_items q) = EVENT_QUEUE_CAPACITY \<and> unat (eq_head q) < EVENT_QUEUE_CAPACITY \<and>
      unat (eq_count q) \<le> EVENT_QUEUE_CAPACITY \<and>
      unat (eq_tail q) = (unat (eq_head q) + unat (eq_count q)) mod EVENT_QUEUE_CAPACITY)"

definition ring_content :: "event_state \<Rightarrow> input_event list" where
  "ring_content s =
     (let q = fst s in
      map (\<lambda>i. eq_items q ! ((unat (eq_head q) + i) mod EVENT_QUEUE_CAPACITY)) [0..<unat (eq_count q)])"

lemma unat_ring_next: "unat (ring_next i) = (unat i + 1) mod EVENT_QUEUE_CAPACITY"
  by (simp add: ring_next_def unat_of_nat)

lemma unat_count_succ: "unat c < EVENT_QUEUE_CAPACITY \<Longrightarrow> unat (c + 1 :: u8) = unat c + 1"
  by (simp add: unat_word_ariths)

lemma unat_count_pred: "c \<noteq> 0 \<Longrightarrow> unat (c - 1 :: u8) = unat c - 1"
  by (simp add: unat_minus_one)

lemma length_ring_content: "length (ring_content s) = unat (eq_count (fst s))"
  by (simp add: ring_content_def Let_def)

lemma ring_offset_apart:
  "i < n \<Longrightarrow> n < EVENT_QUEUE_CAPACITY \<Longrightarrow>
   (h + i) mod EVENT_QUEUE_CAPACITY \<noteq> (h + n) mod EVENT_QUEUE_CAPACITY"
  using mod_eq_dvd_iff_nat [of "h + i" "h + n" EVENT_QUEUE_CAPACITY]
    nat_dvd_not_less [of "n - i" EVENT_QUEUE_CAPACITY]
  by (auto dest: sym)

lemma ring_push:
  assumes "ring_inv s"
  shows "ring_inv (fst (event_queue_push s e)) \<and>
    ring_content (fst (event_queue_push s e)) =
      (if length (ring_content s) < EVENT_QUEUE_CAPACITY then ring_content s @ [e] else ring_content s) \<and>
    (snd (event_queue_push s e) \<longleftrightarrow> length (ring_content s) < EVENT_QUEUE_CAPACITY)"
proof (cases "unat (eq_count (fst s)) < EVENT_QUEUE_CAPACITY")
  case False
  then show ?thesis using assms
    by (simp add: event_queue_push_def split_beta length_ring_content ring_inv_def ring_content_def Let_def)
next
  case True
  obtain q st where s: "s = (q, st)" by fastforce
  note I = assms [unfolded ring_inv_def s fst_conv Let_def]
  let ?n = "unat (eq_count q)" and ?h = "unat (eq_head q)"
  have n: "?n < EVENT_QUEUE_CAPACITY" using True s by simp
  have "(eq_items q)[(?h + ?n) mod EVENT_QUEUE_CAPACITY := e] ! ((?h + i) mod EVENT_QUEUE_CAPACITY) =
      eq_items q ! ((?h + i) mod EVENT_QUEUE_CAPACITY)" if "i < ?n" for i
    using ring_offset_apart [OF that n, of ?h] by simp
  then have "map (\<lambda>i. (eq_items q)[(?h + ?n) mod EVENT_QUEUE_CAPACITY := e] !
        ((?h + i) mod EVENT_QUEUE_CAPACITY)) [0..<?n] =
      map (\<lambda>i. eq_items q ! ((?h + i) mod EVENT_QUEUE_CAPACITY)) [0..<?n]"
    by simp
  moreover have "(?h + ?n) mod EVENT_QUEUE_CAPACITY < length (eq_items q)" using I by simp
  ultimately show ?thesis using I n unfolding s
    by (simp add: event_queue_push_def Let_def ring_inv_def ring_content_def unat_ring_next
        unat_count_succ mod_Suc_eq)
qed

lemma ring_pop:
  assumes "ring_inv s"
  shows "ring_inv (fst (event_queue_pop s)) \<and>
    ring_content (fst (event_queue_pop s)) = tl (ring_content s) \<and>
    snd (event_queue_pop s) = (if ring_content s = [] then None else Some (hd (ring_content s)))"
proof (cases "eq_count (fst s) = 0")
  case True
  then show ?thesis using assms
    by (simp add: event_queue_pop_def split_beta ring_content_def Let_def)
next
  case False
  obtain q st where s: "s = (q, st)" by fastforce
  note I = assms [unfolded ring_inv_def s fst_conv Let_def]
  have c: "eq_count q \<noteq> 0" using False s by simp
  then obtain n where n: "unat (eq_count q) = Suc n"
    by (metis not0_implies_Suc unat_eq_zero)
  let ?h = "unat (eq_head q)"
  have "map (\<lambda>i. eq_items q ! ((?h + i) mod EVENT_QUEUE_CAPACITY)) [0..<Suc n] =
      eq_items q ! (?h mod EVENT_QUEUE_CAPACITY) #
      map (\<lambda>i. eq_items q ! ((Suc ?h mod EVENT_QUEUE_CAPACITY + i) mod EVENT_QUEUE_CAPACITY)) [0..<n]"
    by (simp add: upt_conv_Cons map_Suc_upt [symmetric] mod_add_left_eq del: upt_Suc)
  moreover have "(Suc ?h mod EVENT_QUEUE_CAPACITY + n) mod EVENT_QUEUE_CAPACITY =
      (?h + Suc n) mod EVENT_QUEUE_CAPACITY"
    by (simp add: mod_add_left_eq)
  ultimately show ?thesis using I c n unfolding s
    by (simp add: event_queue_pop_def Let_def ring_inv_def ring_content_def unat_ring_next
        unat_count_pred del: upt_Suc)
qed

interpretation events: bounded_fifo event_queue_push event_queue_pop ring_inv ring_content
  EVENT_QUEUE_CAPACITY
  by unfold_locales (simp_all add: ring_push ring_pop)

lemma init_ring: "length (eq_items q) = EVENT_QUEUE_CAPACITY \<Longrightarrow>
    ring_inv (event_queue_init q) \<and> ring_content (event_queue_init q) = []"
  by (simp add: event_queue_init_def ring_inv_def ring_content_def)

text \<open>C17: The event queue is a bounded first-in first-out queue.  From initialisation on, along any
  interleaving of pushes and pops, the accepted events are exactly the delivered ones followed by
  the ones still stored, in order: none is lost, duplicated or reordered, across every wrap of the
  ring.  Only a push at 32 stored events is refused.\<close>

theorem event_queue_fifo:
  assumes "length (eq_items q) = EVENT_QUEUE_CAPACITY"
    and "queue_run event_queue_push event_queue_pop ops (event_queue_init q) = (s, acc, out)"
  shows "acc = out @ ring_content s \<and> length (ring_content s) \<le> EVENT_QUEUE_CAPACITY \<and>
    (snd (event_queue_push s e) \<longleftrightarrow> length (ring_content s) < EVENT_QUEUE_CAPACITY)"
proof -
  note i = init_ring [OF assms(1)]
  have "ring_inv s" using events.run_inv [of "event_queue_init q" ops] i assms(2) by simp
  then show ?thesis using events.run_fifo [OF conjunct1 [OF i] assms(2)] i ring_push [of s e]
    by (simp add: length_ring_content ring_inv_def Let_def)
qed

definition sample_event :: "u16 \<Rightarrow> input_event" where
  "sample_event c = \<lparr>ev_type = EVENT_KEY_DOWN, ev_code = c, ev_arg = 0, ev_when_ms = 5\<rparr>"

definition sample_queue :: event_queue where
  "sample_queue = \<lparr>eq_items = replicate 32 (sample_event 0), eq_head = 9, eq_tail = 3, eq_count = 7\<rparr>"

theorem event_queue_fifo_witness:
  "snd (snd (queue_run event_queue_push event_queue_pop
     [Inl (sample_event 1), Inl (sample_event 2), Inr (), Inr (), Inr ()]
     (event_queue_init sample_queue))) = [sample_event 1, sample_event 2]"
proof -
  let ?ops = "[Inl (sample_event 1), Inl (sample_event 2), Inr (), Inr (), Inr ()]"
  obtain s acc out where r: "queue_run event_queue_push event_queue_pop ?ops
      (event_queue_init sample_queue) = (s, acc, out)" by (metis prod_cases3)
  have "acc = [sample_event 1, sample_event 2]" "eq_count (fst s) = 0"
    using r by (auto simp: event_queue_init_def event_queue_push_def event_queue_pop_def Let_def
        sample_queue_def)
  then show ?thesis using event_queue_fifo [OF _ r, of "sample_event 3"] r
    by (simp add: sample_queue_def ring_content_def)
qed

end
