(* ===== verification/Line_Framer.thy ===== *)
theory Line_Framer
  imports Prelude
begin

text \<open>
  The modem line framer of \<open>services/modem_line_framer.c\<close>: bytes from the UART in, complete text
  lines out, with one state word that holds the buffered length or the discard-until-LF mark.  A
  reference framer on whole lines is the specification.  The framer pointer is never NULL here.
\<close>

section \<open>Data and operations\<close>

abbreviation "MODEM_LINE_FRAMER_CAP \<equiv> 512 :: nat"
abbreviation "MODEM_LINE_LENGTH_MASK \<equiv> 0x01ff :: u16"
abbreviation "MODEM_LINE_OVERFLOW \<equiv> 0x8000 :: u16"
abbreviation "BYTE_CR \<equiv> 13 :: u8"
abbreviation "BYTE_LF \<equiv> 10 :: u8"

datatype modem_line_framer_event =
  MODEM_LINE_FRAMER_NONE | MODEM_LINE_FRAMER_LINE | MODEM_LINE_FRAMER_DROPPED

record modem_line_framer =
  lf_line :: "u8 list"
  lf_state :: u16

definition modem_line_framer_reset :: "modem_line_framer \<Rightarrow> modem_line_framer" where
  "modem_line_framer_reset f = f\<lparr>lf_state := 0\<rparr>"

text \<open>\<open>byte < 128u ? byte : '?'\<close>\<close>

definition framer_char :: "u8 \<Rightarrow> u8" where
  "framer_char b = (if b < 128 then b else 63)"

definition framer_store :: "modem_line_framer \<Rightarrow> u8 \<Rightarrow> modem_line_framer" where
  "framer_store f b =
     (let n = lf_state f AND MODEM_LINE_LENGTH_MASK
      in if unat n + 1 < MODEM_LINE_FRAMER_CAP
         then f\<lparr>lf_line := (lf_line f)[unat n := framer_char b], lf_state := n + 1\<rparr>
         else f\<lparr>lf_state := MODEM_LINE_OVERFLOW\<rparr>)"

definition framer_newline :: "modem_line_framer \<Rightarrow> modem_line_framer \<times> modem_line_framer_event" where
  "framer_newline f =
     (let n = lf_state f AND MODEM_LINE_LENGTH_MASK
      in if lf_state f AND MODEM_LINE_OVERFLOW \<noteq> 0
         then (f\<lparr>lf_state := 0\<rparr>, MODEM_LINE_FRAMER_DROPPED)
         else if n \<noteq> 0
         then (f\<lparr>lf_line := (lf_line f)[unat n := 0], lf_state := 0\<rparr>, MODEM_LINE_FRAMER_LINE)
         else (f, MODEM_LINE_FRAMER_NONE))"

definition modem_line_framer_feed ::
    "modem_line_framer \<Rightarrow> u8 \<Rightarrow> modem_line_framer \<times> modem_line_framer_event" where
  "modem_line_framer_feed f b =
     (if b = BYTE_CR then (f, MODEM_LINE_FRAMER_NONE)
      else if b = BYTE_LF then framer_newline f
      else if lf_state f AND MODEM_LINE_OVERFLOW \<noteq> 0 then (f, MODEM_LINE_FRAMER_NONE)
      else (framer_store f b, MODEM_LINE_FRAMER_NONE))"

text \<open>The C string at \<open>framer->line\<close>: up to the first NUL.\<close>

definition modem_line_framer_line :: "modem_line_framer \<Rightarrow> u8 list" where
  "modem_line_framer_line f = takeWhile (\<lambda>c. c \<noteq> 0) (lf_line f)"

definition modem_line_framer_pending :: "modem_line_framer \<Rightarrow> bool" where
  "modem_line_framer_pending f \<longleftrightarrow> lf_state f \<noteq> 0"

definition modem_line_framer_overflowed :: "modem_line_framer \<Rightarrow> bool" where
  "modem_line_framer_overflowed f \<longleftrightarrow> lf_state f AND MODEM_LINE_OVERFLOW \<noteq> 0"

text \<open>The loop of the caller: it reads the line as soon as it is reported; \<open>None\<close> is a dropped one.\<close>

fun framer_run :: "modem_line_framer \<Rightarrow> u8 list \<Rightarrow> modem_line_framer \<times> u8 list option list" where
  "framer_run f [] = (f, [])"
| "framer_run f (b # bs) =
     (let (f1, ev) = modem_line_framer_feed f b; (f2, out) = framer_run f1 bs
      in (f2, case ev of MODEM_LINE_FRAMER_NONE \<Rightarrow> out
                | MODEM_LINE_FRAMER_LINE \<Rightarrow> Some (modem_line_framer_line f1) # out
                | MODEM_LINE_FRAMER_DROPPED \<Rightarrow> None # out))"

section \<open>The reference framer\<close>

definition frame_text :: "u8 list \<Rightarrow> u8 list" where
  "frame_text bs = map framer_char (filter (\<lambda>b. b \<noteq> BYTE_CR) bs)"

definition frame_line :: "u8 list \<Rightarrow> u8 list option list" where
  "frame_line bs =
     (let t = frame_text bs
      in if t = [] then [] else if length t < MODEM_LINE_FRAMER_CAP
         then [Some (takeWhile (\<lambda>c. c \<noteq> 0) t)] else [None])"

text \<open>What the framer holds after the bytes of a line that is not complete yet.\<close>

definition framer_holds :: "u8 list \<Rightarrow> modem_line_framer \<Rightarrow> bool" where
  "framer_holds bs f \<longleftrightarrow>
     length (lf_line f) = MODEM_LINE_FRAMER_CAP \<and>
     (if length (frame_text bs) < MODEM_LINE_FRAMER_CAP
      then lf_state f = of_nat (length (frame_text bs)) \<and>
           take (length (frame_text bs)) (lf_line f) = frame_text bs
      else lf_state f = MODEM_LINE_OVERFLOW)"

lemma length_state_bits:
  assumes "n < MODEM_LINE_FRAMER_CAP"
  shows "(of_nat n :: u16) AND MODEM_LINE_OVERFLOW = 0"
    and "(of_nat n :: u16) AND MODEM_LINE_LENGTH_MASK = of_nat n"
    and "unat (of_nat n :: u16) = n"
proof -
  show u: "unat (of_nat n :: u16) = n" using assms by (simp add: unat_of_nat)
  have "\<not> bit (of_nat n :: u16) 15"
    using assms by (simp add: bit_of_nat_iff) (simp add: bit_iff_odd)
  then show "(of_nat n :: u16) AND MODEM_LINE_OVERFLOW = 0"
    using and_exp_eq_0_iff_not_bit [of "of_nat n :: u16" 15] by simp
  have "take_bit 9 (of_nat n :: u16) = of_nat n"
    using assms by (simp add: take_bit_nat_eq_self flip: of_nat_take_bit)
  then show "(of_nat n :: u16) AND MODEM_LINE_LENGTH_MASK = of_nat n"
    by (simp add: take_bit_eq_mask mask_eq_exp_minus_1)
qed

lemma overflow_bits: "MODEM_LINE_OVERFLOW AND MODEM_LINE_OVERFLOW \<noteq> 0"
  by simp

section \<open>The framer implements the reference\<close>

lemma frame_text_snoc:
  "frame_text (bs @ [b]) = (if b = BYTE_CR then frame_text bs else frame_text bs @ [framer_char b])"
  by (simp add: frame_text_def)

lemma take_list_update_snoc: "n < length xs \<Longrightarrow> take (Suc n) (xs[n := x]) = take n xs @ [x]"
  by (simp add: take_Suc_conv_app_nth)

lemma holds_reset:
  "length (lf_line f) = MODEM_LINE_FRAMER_CAP \<Longrightarrow> lf_state f = 0 \<Longrightarrow> framer_holds [] f"
  by (simp add: framer_holds_def frame_text_def)

lemma feed_text:
  assumes h: "framer_holds bs f" and b: "b \<noteq> BYTE_LF"
  shows "framer_holds (bs @ [b]) (fst (modem_line_framer_feed f b)) \<and>
    snd (modem_line_framer_feed f b) = MODEM_LINE_FRAMER_NONE"
proof (cases "b = BYTE_CR \<or> MODEM_LINE_FRAMER_CAP \<le> length (frame_text bs)")
  case True
  then show ?thesis using h b
    by (auto simp: modem_line_framer_feed_def framer_holds_def frame_text_snoc)
next
  case False
  let ?n = "length (frame_text bs)"
  have n: "?n < MODEM_LINE_FRAMER_CAP" using False by simp
  note bits = length_state_bits [OF n]
  have st: "lf_state f = of_nat ?n" "take ?n (lf_line f) = frame_text bs"
    "length (lf_line f) = MODEM_LINE_FRAMER_CAP" using h n by (simp_all add: framer_holds_def)
  have "snd (modem_line_framer_feed f b) = MODEM_LINE_FRAMER_NONE"
    "fst (modem_line_framer_feed f b) = framer_store f b"
    using False b bits(1) st(1) by (simp_all add: modem_line_framer_feed_def)
  moreover have "framer_holds (bs @ [b]) (framer_store f b)"
    using False n st bits(2,3)
    by (auto simp: framer_store_def framer_holds_def frame_text_snoc Let_def take_list_update_snoc
        add.commute)
  ultimately show ?thesis by simp
qed

lemma takeWhile_terminated:
  "n < length xs \<Longrightarrow> takeWhile (\<lambda>c. c \<noteq> 0) (xs[n := 0]) = takeWhile (\<lambda>c. c \<noteq> 0) (take n xs)"
  for xs :: "u8 list"
proof (induction xs arbitrary: n)
  case (Cons x xs)
  then show ?case by (cases n) simp_all
qed simp

lemma feed_newline:
  assumes h: "framer_holds bs f"
  shows "framer_holds [] (fst (modem_line_framer_feed f BYTE_LF)) \<and>
    (case snd (modem_line_framer_feed f BYTE_LF) of
       MODEM_LINE_FRAMER_NONE \<Rightarrow> frame_line bs = []
     | MODEM_LINE_FRAMER_LINE \<Rightarrow>
         frame_line bs = [Some (modem_line_framer_line (fst (modem_line_framer_feed f BYTE_LF)))]
     | MODEM_LINE_FRAMER_DROPPED \<Rightarrow> frame_line bs = [None])"
proof (cases "length (frame_text bs) < MODEM_LINE_FRAMER_CAP")
  case False
  then have "lf_state f = MODEM_LINE_OVERFLOW" "length (lf_line f) = MODEM_LINE_FRAMER_CAP"
    "frame_line bs = [None]" using h by (auto simp: framer_holds_def frame_line_def Let_def)
  then show ?thesis
    by (simp add: modem_line_framer_feed_def framer_newline_def holds_reset)
next
  case True
  let ?n = "length (frame_text bs)"
  note bits = length_state_bits [OF True]
  have st: "lf_state f = of_nat ?n" "take ?n (lf_line f) = frame_text bs"
    "length (lf_line f) = MODEM_LINE_FRAMER_CAP" using h True by (simp_all add: framer_holds_def)
  have z: "(of_nat ?n :: u16) = 0 \<longleftrightarrow> ?n = 0" by (simp only: bits(3) flip: unat_eq_zero)
  have line: "takeWhile (\<lambda>c. c \<noteq> 0) ((lf_line f)[?n := 0]) = takeWhile (\<lambda>c. c \<noteq> 0) (frame_text bs)"
    using takeWhile_terminated [of ?n "lf_line f"] True st by simp
  show ?thesis
  proof (cases "?n = 0")
    case True
    then show ?thesis using st
      by (simp add: modem_line_framer_feed_def framer_newline_def frame_line_def holds_reset)
  next
    case False
    then have "modem_line_framer_feed f BYTE_LF =
        (f\<lparr>lf_line := (lf_line f)[?n := 0], lf_state := 0\<rparr>, MODEM_LINE_FRAMER_LINE)"
      using st bits z by (simp add: modem_line_framer_feed_def framer_newline_def Let_def)
    moreover have "frame_text bs \<noteq> []" using False by auto
    ultimately show ?thesis using st True line
      by (simp add: holds_reset frame_line_def modem_line_framer_line_def)
  qed
qed

lemma run_text:
  "framer_holds bs f \<Longrightarrow> BYTE_LF \<notin> set cs \<Longrightarrow>
   \<exists>f'. framer_holds (bs @ cs) f' \<and> framer_run f (cs @ ds) = framer_run f' ds"
proof (induction cs arbitrary: bs f)
  case (Cons c cs)
  have "framer_holds (bs @ [c]) (fst (modem_line_framer_feed f c))"
    "snd (modem_line_framer_feed f c) = MODEM_LINE_FRAMER_NONE"
    using feed_text [OF Cons.prems(1), of c] Cons.prems(2) by auto
  moreover from Cons.IH [OF this(1)] Cons.prems(2) obtain f' where
    "framer_holds (bs @ c # cs) f'"
    "framer_run (fst (modem_line_framer_feed f c)) (cs @ ds) = framer_run f' ds" by auto
  ultimately show ?case by (auto simp: split_beta)
qed auto

lemma run_newline:
  "framer_holds bs f \<Longrightarrow>
   \<exists>f'. framer_holds [] f' \<and> framer_run f (BYTE_LF # ds) =
     (fst (framer_run f' ds), frame_line bs @ snd (framer_run f' ds))"
  using feed_newline [of bs f]
  by (intro exI [of _ "fst (modem_line_framer_feed f BYTE_LF)"])
    (auto simp: split_beta split: modem_line_framer_event.splits)

text \<open>C18: The framer is the reference framer.  Fed any sequence of LF-terminated lines, from the
  reset state, it reports exactly what splitting the stream gives: nothing for a line that is empty
  or only CRs, the text with CRs removed and bytes above 127 replaced by a question mark for a line
  of at most 511 characters, and one drop for every longer line, after which the next line is
  intact again.  An unterminated rest reports nothing.\<close>

theorem framer_reports_lines:
  assumes "length (lf_line f) = MODEM_LINE_FRAMER_CAP"
    and "\<forall>l \<in> set ls. BYTE_LF \<notin> set l" and "BYTE_LF \<notin> set rest"
  shows "snd (framer_run (modem_line_framer_reset f) (concat (map (\<lambda>l. l @ [BYTE_LF]) ls) @ rest)) =
    concat (map frame_line ls)"
proof -
  have "framer_holds [] g \<Longrightarrow> \<forall>l \<in> set ls. BYTE_LF \<notin> set l \<Longrightarrow>
      snd (framer_run g (concat (map (\<lambda>l. l @ [BYTE_LF]) ls) @ rest)) = concat (map frame_line ls)" for g
  proof (induction ls arbitrary: g)
    case Nil
    then show ?case using run_text [of "[]" g rest "[]"] assms(3) by auto
  next
    case (Cons l ls)
    let ?more = "concat (map (\<lambda>l. l @ [BYTE_LF]) ls) @ rest"
    obtain g1 where g1: "framer_holds l g1"
      "framer_run g (l @ BYTE_LF # ?more) = framer_run g1 (BYTE_LF # ?more)"
      using run_text [of "[]" g l "BYTE_LF # ?more"] Cons.prems by auto
    obtain g2 where g2: "framer_holds [] g2" "framer_run g1 (BYTE_LF # ?more) =
        (fst (framer_run g2 ?more), frame_line l @ snd (framer_run g2 ?more))"
      using run_newline [OF g1(1)] by blast
    have "snd (framer_run g2 ?more) = concat (map frame_line ls)"
      using Cons.IH [OF g2(1)] Cons.prems(2) by simp
    then show ?case using g1(2) g2(2) by simp
  qed
  then show ?thesis using assms holds_reset [of "modem_line_framer_reset f"]
    by (simp add: modem_line_framer_reset_def)
qed

theorem framer_reports_lines_witness:
  "snd (framer_run (modem_line_framer_reset \<lparr>lf_line = replicate 512 7, lf_state = 0x8000\<rparr>)
     [79, 75, 13, 10, 13, 10, 200, 10, 65]) = [Some [79, 75], Some [63]]"
  using framer_reports_lines [of "\<lparr>lf_line = replicate 512 7, lf_state = 0x8000\<rparr>"
      "[[79, 75, 13], [13], [200]]" "[65]"]
  by (simp add: frame_line_def frame_text_def framer_char_def del: framer_run.simps)

end
