(* ===== verification/Storage_Bytes.thy ===== *)
theory Storage_Bytes
  imports Prelude
begin

text \<open>
  The little-endian helpers of \<open>storage/storage_bytes.h\<close>.  A source pointer is the list of bytes
  from it on, a write of fixed width is the list of bytes it stores.  The bounded field writers
  keep the destination buffer and the position; \<open>size_t\<close> is a natural number, since a position
  never exceeds the capacity of a buffer.
\<close>

type_synonym u64 = "64 word"

section \<open>Integers\<close>

definition read_u16 :: "u8 list \<Rightarrow> u16" where
  "read_u16 src = ucast (src ! 0) OR push_bit 8 (ucast (src ! 1))"

definition read_u32 :: "u8 list \<Rightarrow> u32" where
  "read_u32 src = ucast (src ! 0) OR push_bit 8 (ucast (src ! 1)) OR
     push_bit 16 (ucast (src ! 2)) OR push_bit 24 (ucast (src ! 3))"

definition read_u64 :: "u8 list \<Rightarrow> u64" where
  "read_u64 src = ucast (read_u32 src) OR push_bit 32 (ucast (read_u32 (drop 4 src)))"

definition read_i32 :: "u8 list \<Rightarrow> int" where
  "read_i32 src = sint (read_u32 src)"

definition read_i64 :: "u8 list \<Rightarrow> int" where
  "read_i64 src = sint (read_u64 src)"

definition write_u16 :: "u16 \<Rightarrow> u8 list" where
  "write_u16 v = [ucast v, ucast (drop_bit 8 v)]"

definition write_u32 :: "u32 \<Rightarrow> u8 list" where
  "write_u32 v = [ucast v, ucast (drop_bit 8 v), ucast (drop_bit 16 v), ucast (drop_bit 24 v)]"

definition write_u64 :: "u64 \<Rightarrow> u8 list" where
  "write_u64 v = write_u32 (ucast v) @ write_u32 (ucast (drop_bit 32 v))"

section \<open>Bounded fields\<close>

definition write_bytes :: "u8 list \<Rightarrow> nat \<Rightarrow> nat \<Rightarrow> u8 list \<Rightarrow> (u8 list \<times> nat) option" where
  "write_bytes dst cap pos src =
     (if cap < pos + length src then None
      else Some (take pos dst @ src @ drop (pos + length src) dst, pos + length src))"

definition write_u8_field :: "u8 list \<Rightarrow> nat \<Rightarrow> nat \<Rightarrow> u8 \<Rightarrow> (u8 list \<times> nat) option" where
  "write_u8_field dst cap pos v = write_bytes dst cap pos [v]"

definition write_u16_field :: "u8 list \<Rightarrow> nat \<Rightarrow> nat \<Rightarrow> u16 \<Rightarrow> (u8 list \<times> nat) option" where
  "write_u16_field dst cap pos v = write_bytes dst cap pos (write_u16 v)"

definition write_u32_field :: "u8 list \<Rightarrow> nat \<Rightarrow> nat \<Rightarrow> u32 \<Rightarrow> (u8 list \<times> nat) option" where
  "write_u32_field dst cap pos v = write_bytes dst cap pos (write_u32 v)"

definition write_i32_field :: "u8 list \<Rightarrow> nat \<Rightarrow> nat \<Rightarrow> int \<Rightarrow> (u8 list \<times> nat) option" where
  "write_i32_field dst cap pos v = write_u32_field dst cap pos (of_int v)"

definition write_i64_field :: "u8 list \<Rightarrow> nat \<Rightarrow> nat \<Rightarrow> int \<Rightarrow> (u8 list \<times> nat) option" where
  "write_i64_field dst cap pos v = write_bytes dst cap pos (write_u64 (of_int v))"

section \<open>Round trips\<close>

lemma length_writes [simp]:
  "length (write_u16 v) = 2" "length (write_u32 w) = 4" "length (write_u64 x) = 8"
  by (simp_all add: write_u16_def write_u32_def write_u64_def)

lemma read_write_u16 [simp]: "read_u16 (write_u16 v @ bs) = v"
  unfolding read_u16_def write_u16_def
  by (rule bit_word_eqI) (auto simp: bit_simps)

lemma read_write_u32 [simp]: "read_u32 (write_u32 v @ bs) = v"
proof (rule bit_word_eqI)
  fix n assume "n < LENGTH(32)"
  then consider "n < 8" | k where "n = 8 + k" "k < 8" | k where "n = 16 + k" "k < 8"
    | k where "n = 24 + k" "k < 8"
    using le_Suc_ex [of 8 n] le_Suc_ex [of 16 n] le_Suc_ex [of 24 n] by fastforce
  then show "bit (read_u32 (write_u32 v @ bs)) n = bit v n"
    by cases (auto simp: read_u32_def write_u32_def bit_simps)
qed

lemma read_write_u64 [simp]: "read_u64 (write_u64 v @ bs) = v"
  unfolding read_u64_def write_u64_def
  by (rule bit_word_eqI) (auto simp: bit_simps)

lemma u8_high: "8 \<le> n \<Longrightarrow> \<not> bit (b :: u8) n"
  using bit_imp_le_length [of b n] by auto

lemma write_read_u32: "4 \<le> length bs \<Longrightarrow> write_u32 (read_u32 bs) = take 4 bs"
proof -
  assume "4 \<le> length bs"
  then obtain a b c d es where bs: "bs = a # b # c # d # es"
    by (auto simp: numeral_eq_Suc Suc_le_length_iff)
  show ?thesis unfolding bs read_u32_def write_u32_def
    by (auto intro!: bit_word_eqI simp: bit_simps u8_high)
qed

lemma write_bytes_ok:
  "cap = length dst \<Longrightarrow> write_bytes dst cap pos src = Some (dst', pos') \<Longrightarrow>
   length dst' = length dst \<and> pos' = pos + length src \<and> pos' \<le> cap \<and>
   take pos dst' = take pos dst \<and> take (length src) (drop pos dst') = src"
  by (auto simp: write_bytes_def split: if_splits)

text \<open>Stored integers read back.  Whatever follows in the buffer, reading what a writer of 16, 32
  or 64 bits stored gives the value, signed values survive the cast through the unsigned word, and
  writing back a word that was read restores the four bytes: the two directions of the on-flash
  byte order are inverse.\<close>

theorem storage_integers_roundtrip:
  "read_u16 (write_u16 a @ bs) = a \<and> read_u32 (write_u32 b @ bs) = b \<and>
   read_u64 (write_u64 c @ bs) = c \<and>
   read_i32 (write_u32 (of_int (sint b)) @ bs) = sint b \<and>
   read_i64 (write_u64 (of_int (sint c)) @ bs) = sint c \<and>
   write_u32 (read_u32 [x0, x1, x2, x3]) = [x0, x1, x2, x3]"
  by (simp add: read_i32_def read_i64_def write_read_u32)

text \<open>Field writers are bounded and independent.  Writing two fields one after the other either
  fails, and then the buffer has not been extended past its capacity, or both fields read back at
  their positions and everything before them is untouched.\<close>

theorem field_writes_independent:
  fixes w :: u64
  assumes "write_u32_field dst (length dst) pos v = Some (d1, p1)"
    and "write_i64_field d1 (length d1) p1 (sint w) = Some (d2, p2)"
  shows "length d2 = length dst \<and> p2 = pos + 12 \<and> p2 \<le> length dst \<and> take pos d2 = take pos dst \<and>
    read_u32 (drop pos d2) = v \<and> read_i64 (drop p1 d2) = sint w"
proof -
  note a = write_bytes_ok [OF refl assms(1) [unfolded write_u32_field_def]]
  note b = write_bytes_ok [OF refl assms(2) [unfolded write_i64_field_def]]
  have "read_u32 (drop pos d2) = v"
  proof -
    have "take 4 (drop pos d2) = drop pos (take p1 d2)" using a by (simp add: drop_take)
    also have "\<dots> = drop pos (take p1 d1)" using b by simp
    also have "\<dots> = take 4 (drop pos d1)" using a by (simp add: drop_take)
    finally have "take 4 (drop pos d2) = write_u32 v" using a by simp
    then obtain r where "drop pos d2 = write_u32 v @ r" by (metis append_take_drop_id)
    then show ?thesis by simp
  qed
  moreover have "read_i64 (drop p1 d2) = sint w"
  proof -
    have "take 8 (drop p1 d2) = write_u64 (of_int (sint w))" using b by simp
    then obtain r where "drop p1 d2 = write_u64 (of_int (sint w)) @ r"
      by (metis append_take_drop_id)
    then show ?thesis by (simp add: read_i64_def)
  qed
  moreover have "take pos d2 = take pos dst"
    using a b by (metis min.absorb1 le_add1 take_take)
  ultimately show ?thesis using a b by simp
qed

theorem field_writes_independent_witness:
  "read_u32 (drop 1 [9, 1, 2, 0, 0, 255, 255, 255, 255, 255, 255, 255, 255, 7]) = 513 \<and>
   read_i64 (drop 5 [9, 1, 2, 0, 0, 255, 255, 255, 255, 255, 255, 255, 255, 7]) = - 1"
proof -
  have a: "write_u32_field [9, 7, 7, 7, 7, 7, 7, 7, 7, 7, 7, 7, 7, 7]
      (length [9, 7, 7, 7, 7, 7, 7, 7, 7, 7, 7, 7, 7, 7 :: u8]) 1 513 =
      Some ([9, 1, 2, 0, 0, 7, 7, 7, 7, 7, 7, 7, 7, 7], 5)"
    by code_simp
  have b: "write_i64_field [9, 1, 2, 0, 0, 7, 7, 7, 7, 7, 7, 7, 7, 7]
      (length [9, 1, 2, 0, 0, 7, 7, 7, 7, 7, 7, 7, 7, 7 :: u8]) 5 (sint (- 1 :: u64)) =
      Some ([9, 1, 2, 0, 0, 255, 255, 255, 255, 255, 255, 255, 255, 7], 13)"
    by code_simp
  show ?thesis using field_writes_independent [OF a b] by (simp add: numeral_eq_Suc)
qed

end
