(* ===== verification/Storage_Journal.thy ===== *)
theory Storage_Journal
  imports Storage_Bytes
begin

text \<open>
  The two-slot journal of \<open>storage/storage_journal.c\<close> over the block device of \<open>storage/nvm_hal.h\<close>.
  A device is a record of functions, as the code has function pointers; its state is threaded
  explicitly.  Record pointers are never NULL.  \<open>nvm_contract\<close> is what the header documents of a
  device; \<open>cell\<close> reads the stored byte at an offset.
\<close>

section \<open>The device\<close>

datatype nvm_status =
  NVM_STATUS_OK | NVM_STATUS_INVALID_ARGUMENT | NVM_STATUS_OUT_OF_RANGE | NVM_STATUS_ALIGNMENT
| NVM_STATUS_NOT_PRESENT | NVM_STATUS_IO_ERROR | NVM_STATUS_BUSY

record 'd nvm_hal =
  nvm_capacity :: u32
  nvm_erase_block :: u32
  nvm_write_block :: u32
  nvm_erase_required :: bool
  nvm_read :: "'d \<Rightarrow> u32 \<Rightarrow> nat \<Rightarrow> nvm_status \<times> u8 list"
  nvm_erase :: "'d \<Rightarrow> u32 \<Rightarrow> nat \<Rightarrow> 'd \<times> nvm_status"
  nvm_write :: "'d \<Rightarrow> u32 \<Rightarrow> u8 list \<Rightarrow> 'd \<times> nvm_status"

section \<open>The journal\<close>

abbreviation "STORAGE_JOURNAL_SLOT_SIZE \<equiv> 4096 :: u32"
abbreviation "STORAGE_JOURNAL_HEADER_SIZE \<equiv> 32 :: nat"
abbreviation "JOURNAL_MAGIC \<equiv> 0x4e333231 :: u32"
abbreviation "JOURNAL_VERSION \<equiv> 1 :: u16"
abbreviation "JOURNAL_COMMITTED \<equiv> 0x43544d21 :: u32"

record 'd storage_journal =
  sj_hal :: "'d nvm_hal"
  sj_base_offset :: u32
  sj_slot_size :: u32
  sj_unit_id :: u16

record slot_state =
  ss_valid :: bool
  ss_sequence :: u32
  ss_payload_len :: u32

datatype storage_journal_write_result =
  STORAGE_JOURNAL_WRITE_OK | STORAGE_JOURNAL_WRITE_ERROR | STORAGE_JOURNAL_WRITE_BUSY

definition storage_journal_init ::
    "'d nvm_hal \<Rightarrow> u16 \<Rightarrow> u32 \<Rightarrow> u32 \<Rightarrow> 'd storage_journal option" where
  "storage_journal_init hal unit_id base slot_size =
     (if slot_size = 0 \<or> STORAGE_JOURNAL_SLOT_SIZE < slot_size then None
      else if slot_size < 32 \<or> nvm_capacity hal < base + slot_size * 2 then None
      else if nvm_erase_required hal \<and>
              (slot_size mod nvm_erase_block hal \<noteq> 0 \<or> base mod nvm_erase_block hal \<noteq> 0) then None
      else if nvm_write_block hal \<noteq> 0 \<and>
              (slot_size mod nvm_write_block hal \<noteq> 0 \<or> base mod nvm_write_block hal \<noteq> 0) then None
      else Some \<lparr>sj_hal = hal, sj_base_offset = base, sj_slot_size = slot_size,
                 sj_unit_id = unit_id\<rparr>)"

text \<open>Modular comparison of sequence numbers.\<close>

definition seq_after :: "u32 \<Rightarrow> u32 \<Rightarrow> bool" where
  "seq_after x y \<longleftrightarrow> 0 < sint (x - y)"

definition crc32_bit :: "u32 \<Rightarrow> u32" where
  "crc32_bit crc = drop_bit 1 crc XOR (0xedb88320 AND (0 - (crc AND 1)))"

definition crc32_byte :: "u8 \<Rightarrow> u32 \<Rightarrow> u32" where
  "crc32_byte b crc = (crc32_bit ^^ 8) (crc XOR ucast b)"

definition crc32_update :: "u32 \<Rightarrow> u8 list \<Rightarrow> u32" where
  "crc32_update crc data = fold crc32_byte data crc"

text \<open>The payload is read and summed in chunks of at most 64 bytes; a failed read ends the scan.\<close>

function crc32_slot :: "'d nvm_hal \<Rightarrow> 'd \<Rightarrow> u32 \<Rightarrow> nat \<Rightarrow> u32 \<Rightarrow> u32 option" where
  "crc32_slot hal d off remaining crc =
     (if remaining = 0 then Some crc
      else
        (let n = (if 64 < remaining then 64 else remaining);
             (st, chunk) = nvm_read hal d off n
         in if st \<noteq> NVM_STATUS_OK then None
            else crc32_slot hal d (off + of_nat n) (remaining - n) (crc32_update crc chunk)))"
  by pat_completeness auto
termination by (relation "measure (\<lambda>(hal, d, off, remaining, crc). remaining)") auto

declare crc32_slot.simps [simp del]

definition slot_offset :: "'d storage_journal \<Rightarrow> nat \<Rightarrow> u32" where
  "slot_offset j slot = sj_base_offset j + of_nat slot * sj_slot_size j"

definition header_ok :: "'d storage_journal \<Rightarrow> u8 list \<Rightarrow> bool" where
  "header_ok j h \<longleftrightarrow>
     read_u32 h = JOURNAL_MAGIC \<and> read_u16 (drop 4 h) = JOURNAL_VERSION \<and>
     read_u16 (drop 6 h) = 32 \<and> read_u16 (drop 8 h) = sj_unit_id j \<and>
     read_u32 (drop 24 h) = JOURNAL_COMMITTED"

abbreviation "slot_invalid \<equiv> \<lparr>ss_valid = False, ss_sequence = 0, ss_payload_len = 0\<rparr>"

text \<open>\<open>None\<close> is a read that failed, an invalid state a slot without a committed record.\<close>

definition read_slot :: "'d storage_journal \<Rightarrow> 'd \<Rightarrow> nat \<Rightarrow> slot_state option" where
  "read_slot j d slot =
     (let off = slot_offset j slot;
          (st, h) = nvm_read (sj_hal j) d off STORAGE_JOURNAL_HEADER_SIZE
      in if st \<noteq> NVM_STATUS_OK then None
         else if \<not> header_ok j h then Some slot_invalid
         else if sj_slot_size j - 32 < read_u32 (drop 16 h) then Some slot_invalid
         else (case crc32_slot (sj_hal j) d (off + 32) (unat (read_u32 (drop 16 h))) (- 1) of
                 None \<Rightarrow> None
               | Some crc \<Rightarrow>
                   (if crc XOR - 1 \<noteq> read_u32 (drop 20 h) then Some slot_invalid
                    else Some \<lparr>ss_valid = True, ss_sequence = read_u32 (drop 12 h),
                               ss_payload_len = read_u32 (drop 16 h)\<rparr>)))"

definition read_slot_payload ::
    "'d storage_journal \<Rightarrow> 'd \<Rightarrow> nat \<Rightarrow> nat \<Rightarrow> (u8 list \<times> u32) option" where
  "read_slot_payload j d slot cap =
     (case read_slot j d slot of
        None \<Rightarrow> None
      | Some s \<Rightarrow>
          (if \<not> ss_valid s \<or> cap < unat (ss_payload_len s) then None
           else (case nvm_read (sj_hal j) d (slot_offset j slot + 32) (unat (ss_payload_len s)) of
                   (st, p) \<Rightarrow> if st \<noteq> NVM_STATUS_OK then None else Some (p, ss_sequence s))))"

text \<open>The slot whose record is the newest one.\<close>

definition newest_slot :: "slot_state \<Rightarrow> slot_state \<Rightarrow> nat" where
  "newest_slot a b =
     (if \<not> ss_valid a \<or> (ss_valid b \<and> seq_after (ss_sequence b) (ss_sequence a)) then 1 else 0)"

definition storage_journal_read_latest ::
    "'d storage_journal \<Rightarrow> 'd \<Rightarrow> nat \<Rightarrow> (u8 list \<times> u32) option" where
  "storage_journal_read_latest j d cap =
     (case (read_slot j d 0, read_slot j d 1) of
        (Some a, Some b) \<Rightarrow>
          (if \<not> ss_valid a \<and> \<not> ss_valid b then None
           else read_slot_payload j d (newest_slot a b) cap)
      | _ \<Rightarrow> None)"

text \<open>The slot to overwrite and the sequence number of the new record.\<close>

definition journal_target :: "slot_state \<Rightarrow> slot_state \<Rightarrow> nat \<times> u32" where
  "journal_target a b =
     (let (slot, q) =
        (if ss_valid a \<and> (\<not> ss_valid b \<or> \<not> seq_after (ss_sequence b) (ss_sequence a))
         then (1, ss_sequence a + 1)
         else if ss_valid b then (0, ss_sequence b + 1) else (0, 1))
      in (slot, if q = 0 then 1 else q))"

definition journal_image :: "'d storage_journal \<Rightarrow> u32 \<Rightarrow> u8 list \<Rightarrow> u8 list" where
  "journal_image j q payload =
     write_u32 JOURNAL_MAGIC @ write_u16 JOURNAL_VERSION @ write_u16 32 @ write_u16 (sj_unit_id j) @
     write_u16 0 @ write_u32 q @ write_u32 (of_nat (length payload)) @
     write_u32 (crc32_update (- 1) payload XOR - 1) @ write_u32 JOURNAL_COMMITTED @ write_u32 (- 1) @
     payload @ replicate (unat (sj_slot_size j) - STORAGE_JOURNAL_HEADER_SIZE - length payload) 0xff"

definition write_status :: "nvm_status \<Rightarrow> storage_journal_write_result" where
  "write_status st =
     (if st = NVM_STATUS_BUSY then STORAGE_JOURNAL_WRITE_BUSY else STORAGE_JOURNAL_WRITE_ERROR)"

definition journal_commit ::
    "'d storage_journal \<Rightarrow> 'd \<Rightarrow> nat \<Rightarrow> u32 \<Rightarrow> u8 list \<Rightarrow> 'd \<times> storage_journal_write_result" where
  "journal_commit j d slot q payload =
     (let hal = sj_hal j; off = slot_offset j slot; size = unat (sj_slot_size j);
          (d1, st1) = (if nvm_erase_required hal then nvm_erase hal d off size else (d, NVM_STATUS_OK))
      in if st1 \<noteq> NVM_STATUS_OK then (d1, write_status st1)
         else
           (let (d2, st2) = nvm_write hal d1 off (journal_image j q payload)
            in if st2 \<noteq> NVM_STATUS_OK then (d2, write_status st2)
               else (d2, case read_slot j d2 slot of
                           Some v \<Rightarrow> (if ss_valid v \<and> ss_sequence v = q
                                      then STORAGE_JOURNAL_WRITE_OK else STORAGE_JOURNAL_WRITE_ERROR)
                         | None \<Rightarrow> STORAGE_JOURNAL_WRITE_ERROR)))"

definition storage_journal_write_detailed ::
    "'d storage_journal \<Rightarrow> 'd \<Rightarrow> u8 list \<Rightarrow> 'd \<times> storage_journal_write_result" where
  "storage_journal_write_detailed j d payload =
     (if unat (sj_slot_size j - 32) < length payload then (d, STORAGE_JOURNAL_WRITE_ERROR)
      else (case (read_slot j d 0, read_slot j d 1) of
              (Some a, Some b) \<Rightarrow>
                (case journal_target a b of (slot, q) \<Rightarrow> journal_commit j d slot q payload)
            | _ \<Rightarrow> (d, STORAGE_JOURNAL_WRITE_ERROR)))"

definition storage_journal_write :: "'d storage_journal \<Rightarrow> 'd \<Rightarrow> u8 list \<Rightarrow> 'd \<times> bool" where
  "storage_journal_write j d payload =
     (case storage_journal_write_detailed j d payload of
        (d1, r) \<Rightarrow> (d1, r = STORAGE_JOURNAL_WRITE_OK))"

section \<open>What a device promises\<close>

text \<open>Reads in range succeed; an erase or a write touches no byte outside its range whatever its
  status, a successful erase leaves the erased value and a successful write of an erased range (of
  any range, where erasing is not required) the data.\<close>

definition nvm_contract :: "'d nvm_hal \<Rightarrow> ('d \<Rightarrow> nat \<Rightarrow> u8) \<Rightarrow> bool" where
  "nvm_contract hal cell \<longleftrightarrow>
     (\<forall>d off n. unat off + n \<le> unat (nvm_capacity hal) \<longrightarrow>
        nvm_read hal d off n = (NVM_STATUS_OK, map (cell d) [unat off..<unat off + n])) \<and>
     (\<forall>d off n i. i < unat off \<or> unat off + n \<le> i \<longrightarrow>
        cell (fst (nvm_erase hal d off n)) i = cell d i) \<and>
     (\<forall>d off n i. snd (nvm_erase hal d off n) = NVM_STATUS_OK \<longrightarrow> unat off \<le> i \<longrightarrow> i < unat off + n \<longrightarrow>
        cell (fst (nvm_erase hal d off n)) i = 0xff) \<and>
     (\<forall>d off bs i. i < unat off \<or> unat off + length bs \<le> i \<longrightarrow>
        cell (fst (nvm_write hal d off bs)) i = cell d i) \<and>
     (\<forall>d off bs. snd (nvm_write hal d off bs) = NVM_STATUS_OK \<longrightarrow>
        (nvm_erase_required hal \<longrightarrow>
           (\<forall>i. unat off \<le> i \<longrightarrow> i < unat off + length bs \<longrightarrow> cell d i = 0xff)) \<longrightarrow>
        (\<forall>k < length bs. cell (fst (nvm_write hal d off bs)) (unat off + k) = bs ! k))"

text \<open>Both slots lie in the device, as \<open>storage_journal_init\<close> checks.\<close>

definition journal_fits :: "'d storage_journal \<Rightarrow> bool" where
  "journal_fits j \<longleftrightarrow>
     32 \<le> unat (sj_slot_size j) \<and> unat (sj_slot_size j) \<le> 4096 \<and>
     unat (sj_base_offset j) + 2 * unat (sj_slot_size j) \<le> unat (nvm_capacity (sj_hal j))"

section \<open>A slot as a block of bytes\<close>

definition slot_bytes :: "'d storage_journal \<Rightarrow> ('d \<Rightarrow> nat \<Rightarrow> u8) \<Rightarrow> 'd \<Rightarrow> nat \<Rightarrow> u8 list" where
  "slot_bytes j cell d slot =
     map (cell d) [unat (slot_offset j slot)..<unat (slot_offset j slot) + unat (sj_slot_size j)]"

definition slot_payload :: "u8 list \<Rightarrow> u8 list" where
  "slot_payload bs = take (unat (read_u32 (drop 16 bs))) (drop STORAGE_JOURNAL_HEADER_SIZE bs)"

definition decode_slot :: "'d storage_journal \<Rightarrow> u8 list \<Rightarrow> slot_state" where
  "decode_slot j bs =
     (if header_ok j bs \<and> read_u32 (drop 16 bs) \<le> sj_slot_size j - 32 \<and>
         crc32_update (- 1) (slot_payload bs) XOR - 1 = read_u32 (drop 20 bs)
      then \<lparr>ss_valid = True, ss_sequence = read_u32 (drop 12 bs),
             ss_payload_len = read_u32 (drop 16 bs)\<rparr>
      else slot_invalid)"

lemma word_unat_bound: "unat (w :: u32) < 2 ^ 32"
  using unsigned_less [of w] by simp

lemma slot_place:
  assumes "journal_fits j" and "slot \<le> 1"
  shows "unat (slot_offset j slot) = unat (sj_base_offset j) + slot * unat (sj_slot_size j)"
    and "unat (slot_offset j slot) + unat (sj_slot_size j) \<le> unat (nvm_capacity (sj_hal j))"
proof -
  have b: "unat (sj_base_offset j) + slot * unat (sj_slot_size j) + unat (sj_slot_size j) \<le>
      unat (nvm_capacity (sj_hal j))" "unat (nvm_capacity (sj_hal j)) < 2 ^ 32"
    using assms word_unat_bound [of "nvm_capacity (sj_hal j)"] by (auto simp: journal_fits_def le_Suc_eq)
  have "unat (of_nat slot * sj_slot_size j) = slot * unat (sj_slot_size j)"
    using assms by (auto simp: le_Suc_eq)
  then show o: "unat (slot_offset j slot) = unat (sj_base_offset j) + slot * unat (sj_slot_size j)"
    using b by (simp add: slot_offset_def unat_word_ariths)
  show "unat (slot_offset j slot) + unat (sj_slot_size j) \<le> unat (nvm_capacity (sj_hal j))"
    unfolding o using b by simp
qed

lemma unat_offset_add:
  "unat (a :: u32) + n \<le> unat (c :: u32) \<Longrightarrow> unat (a + of_nat n) = unat a + n"
  using word_unat_bound [of c] by (simp add: unat_word_ariths unat_of_nat)

lemma contract_read:
  "nvm_contract hal cell \<Longrightarrow> unat off + n \<le> unat (nvm_capacity hal) \<Longrightarrow>
   nvm_read hal d off n = (NVM_STATUS_OK, map (cell d) [unat off..<unat off + n])"
  by (simp add: nvm_contract_def)

lemma crc32_slot_bytes:
  "nvm_contract hal cell \<Longrightarrow> unat off + n \<le> unat (nvm_capacity hal) \<Longrightarrow>
   crc32_slot hal d off n crc = Some (crc32_update crc (map (cell d) [unat off..<unat off + n]))"
proof (induction hal d off n crc rule: crc32_slot.induct)
  case (1 hal d off remaining crc)
  show ?case
  proof (cases "remaining = 0")
    case True
    then show ?thesis by (simp add: crc32_slot.simps [of hal d off] crc32_update_def)
  next
    case False
    define n where "n = (if 64 < remaining then 64 else remaining)"
    have n: "n \<le> remaining" by (simp add: n_def)
    have rd: "nvm_read hal d off n = (NVM_STATUS_OK, map (cell d) [unat off..<unat off + n])"
      using 1(2,3) n by (intro contract_read) auto
    have o: "unat (off + of_nat n) = unat off + n"
      using 1(3) n unat_offset_add [of off n "nvm_capacity hal"] by simp
    have "crc32_slot hal d (off + of_nat n) (remaining - n)
        (crc32_update crc (map (cell d) [unat off..<unat off + n])) =
      Some (crc32_update (crc32_update crc (map (cell d) [unat off..<unat off + n]))
        (map (cell d) [unat off + n..<unat off + remaining]))"
      using 1(1) [OF False n_def rd [symmetric] refl _ 1(2)] 1(3) n o by simp
    then show ?thesis using False n
      using upt_add_eq_append [of "unat off" "unat off + n" "remaining - n"]
      by (subst crc32_slot.simps) (simp add: Let_def rd crc32_update_def flip: n_def)
  qed
qed

lemma length_slot_bytes [simp]: "length (slot_bytes j cell d slot) = unat (sj_slot_size j)"
  by (simp add: slot_bytes_def)

lemma slot_range:
  "a + n \<le> unat (sj_slot_size j) \<Longrightarrow>
   take n (drop a (slot_bytes j cell d slot)) =
     map (cell d) [unat (slot_offset j slot) + a..<unat (slot_offset j slot) + a + n]"
  by (simp add: slot_bytes_def take_map drop_map)

lemma read_header:
  "STORAGE_JOURNAL_HEADER_SIZE \<le> length bs \<Longrightarrow> k + 4 \<le> STORAGE_JOURNAL_HEADER_SIZE \<Longrightarrow>
   read_u32 (drop k (take STORAGE_JOURNAL_HEADER_SIZE bs)) = read_u32 (drop k bs) \<and>
   read_u16 (drop k (take STORAGE_JOURNAL_HEADER_SIZE bs)) = read_u16 (drop k bs)"
  by (simp add: read_u32_def read_u16_def)

lemma header_ok_take:
  "STORAGE_JOURNAL_HEADER_SIZE \<le> length bs \<Longrightarrow>
   header_ok j (take STORAGE_JOURNAL_HEADER_SIZE bs) = header_ok j bs"
  using read_header [of bs 0] read_header [of bs 4] read_header [of bs 6] read_header [of bs 8]
    read_header [of bs 24]
  by (simp add: header_ok_def)

lemma payload_size:
  "journal_fits j \<Longrightarrow> n \<le> sj_slot_size j - 32 \<longleftrightarrow>
   STORAGE_JOURNAL_HEADER_SIZE + unat n \<le> unat (sj_slot_size j)"
  by (auto simp: journal_fits_def word_le_nat_alt unat_sub)

text \<open>The scan of a slot is the decoder applied to its bytes.\<close>

lemma read_slot_decodes:
  assumes c: "nvm_contract (sj_hal j) cell" and f: "journal_fits j" and s: "slot \<le> 1"
  shows "read_slot j d slot = Some (decode_slot j (slot_bytes j cell d slot))"
proof -
  let ?off = "slot_offset j slot" and ?bs = "slot_bytes j cell d slot"
  have place: "unat ?off + unat (sj_slot_size j) \<le> unat (nvm_capacity (sj_hal j))"
    using slot_place [OF f s] by simp
  have big: "STORAGE_JOURNAL_HEADER_SIZE \<le> unat (sj_slot_size j)" using f by (simp add: journal_fits_def)
  have head: "nvm_read (sj_hal j) d ?off STORAGE_JOURNAL_HEADER_SIZE =
      (NVM_STATUS_OK, take STORAGE_JOURNAL_HEADER_SIZE ?bs)"
    using contract_read [OF c, of ?off STORAGE_JOURNAL_HEADER_SIZE d] place big
      slot_range [of 0 STORAGE_JOURNAL_HEADER_SIZE j cell d slot] by simp
  have pay: "crc32_slot (sj_hal j) d (?off + 32) (unat (read_u32 (drop 16 ?bs))) (- 1) =
      Some (crc32_update (- 1) (slot_payload ?bs))" if "read_u32 (drop 16 ?bs) \<le> sj_slot_size j - 32"
  proof -
    have le: "STORAGE_JOURNAL_HEADER_SIZE + unat (read_u32 (drop 16 ?bs)) \<le> unat (sj_slot_size j)"
      using that payload_size [OF f] by simp
    have "unat (?off + 32) = unat ?off + 32"
      using unat_offset_add [of ?off 32 "nvm_capacity (sj_hal j)"] place big by simp
    then show ?thesis
      using crc32_slot_bytes [OF c, of "?off + 32" "unat (read_u32 (drop 16 ?bs))" d "- 1"] place le
        slot_range [OF le, of cell d slot] by (simp add: slot_payload_def)
  qed
  have len: "STORAGE_JOURNAL_HEADER_SIZE \<le> length ?bs" using big by simp
  note fields = read_header [OF len, of 16] read_header [OF len, of 20] read_header [OF len, of 12]
  show ?thesis
    using pay fields header_ok_take [OF len, of j]
    by (auto simp: read_slot_def head decode_slot_def Let_def not_less split: option.splits)
qed

lemma read_payload_decodes:
  assumes c: "nvm_contract (sj_hal j) cell" and f: "journal_fits j" and s: "slot \<le> 1"
    and v: "ss_valid (decode_slot j (slot_bytes j cell d slot))"
    and cap: "unat (sj_slot_size j - 32) \<le> cap"
  shows "read_slot_payload j d slot cap =
    Some (slot_payload (slot_bytes j cell d slot), ss_sequence (decode_slot j (slot_bytes j cell d slot)))"
proof -
  let ?off = "slot_offset j slot" and ?bs = "slot_bytes j cell d slot"
  have place: "unat ?off + unat (sj_slot_size j) \<le> unat (nvm_capacity (sj_hal j))"
    using slot_place [OF f s] by simp
  have l: "ss_payload_len (decode_slot j ?bs) = read_u32 (drop 16 ?bs)"
    "read_u32 (drop 16 ?bs) \<le> sj_slot_size j - 32" using v by (auto simp: decode_slot_def split: if_splits)
  then have le: "STORAGE_JOURNAL_HEADER_SIZE + unat (read_u32 (drop 16 ?bs)) \<le> unat (sj_slot_size j)"
    using payload_size [OF f] by simp
  have "unat (?off + 32) = unat ?off + 32"
    using unat_offset_add [of ?off 32 "nvm_capacity (sj_hal j)"] place le by simp
  then have "nvm_read (sj_hal j) d (?off + 32) (unat (read_u32 (drop 16 ?bs))) =
      (NVM_STATUS_OK, slot_payload ?bs)"
    using contract_read [OF c, of "?off + 32" _ d] place le slot_range [OF le, of cell d slot]
    by (simp add: slot_payload_def)
  moreover have "unat (read_u32 (drop 16 ?bs)) \<le> cap"
    using l(2) cap by (simp add: word_le_nat_alt)
  ultimately show ?thesis
    using v l(1) by (simp add: read_slot_payload_def read_slot_decodes [OF c f s])
qed

section \<open>The image of a record\<close>

lemma journal_image_fields:
  assumes f: "journal_fits j" and p: "STORAGE_JOURNAL_HEADER_SIZE + length p \<le> unat (sj_slot_size j)"
  shows "length (journal_image j q p) = unat (sj_slot_size j)"
    and "decode_slot j (journal_image j q p) =
      \<lparr>ss_valid = True, ss_sequence = q, ss_payload_len = of_nat (length p)\<rparr>"
    and "slot_payload (journal_image j q p) = p"
proof -
  show "length (journal_image j q p) = unat (sj_slot_size j)" using p by (simp add: journal_image_def)
  have n: "unat (of_nat (length p) :: u32) = length p"
    using p word_unat_bound [of "sj_slot_size j"] by (simp add: unat_of_nat)
  have d16: "read_u32 (drop 16 (journal_image j q p)) = of_nat (length p)"
    "read_u32 (drop 12 (journal_image j q p)) = q"
    "read_u32 (drop 20 (journal_image j q p)) = crc32_update (- 1) p XOR - 1"
    by (simp_all add: journal_image_def)
  show pay: "slot_payload (journal_image j q p) = p"
    unfolding slot_payload_def d16 n by (simp add: journal_image_def)
  have "header_ok j (journal_image j q p)"
    by (simp add: header_ok_def journal_image_def)
  moreover have "(of_nat (length p) :: u32) \<le> sj_slot_size j - 32"
    using payload_size [OF f, of "of_nat (length p)"] p n by simp
  ultimately show "decode_slot j (journal_image j q p) =
      \<lparr>ss_valid = True, ss_sequence = q, ss_payload_len = of_nat (length p)\<rparr>"
    by (simp add: decode_slot_def d16 pay)
qed

section \<open>A write touches one slot only\<close>

definition outside_slot :: "'d storage_journal \<Rightarrow> ('d \<Rightarrow> nat \<Rightarrow> u8) \<Rightarrow> nat \<Rightarrow> 'd \<Rightarrow> 'd \<Rightarrow> bool" where
  "outside_slot j cell slot d d' \<longleftrightarrow>
     (\<forall>i. i < unat (slot_offset j slot) \<or> unat (slot_offset j slot) + unat (sj_slot_size j) \<le> i \<longrightarrow>
        cell d' i = cell d i)"

lemma outside_slot_trans:
  "outside_slot j cell s a b \<Longrightarrow> outside_slot j cell s b c \<Longrightarrow> outside_slot j cell s a c"
  by (simp add: outside_slot_def)

lemma outside_slot_bytes:
  assumes "journal_fits j" and "s \<le> 1" and "t \<le> 1" and "s \<noteq> t" and "outside_slot j cell t d d'"
  shows "slot_bytes j cell d' s = slot_bytes j cell d s"
proof -
  have "cell d' i = cell d i" if "unat (slot_offset j s) \<le> i"
      "i < unat (slot_offset j s) + unat (sj_slot_size j)" for i
    using assms that slot_place(1) [OF assms(1,2)] slot_place(1) [OF assms(1,3)]
    by (auto simp: outside_slot_def le_Suc_eq)
  then show ?thesis by (simp add: slot_bytes_def)
qed

lemma image_written:
  assumes c: "nvm_contract (sj_hal j) cell" and len: "length bs = unat (sj_slot_size j)"
    and ok: "snd (nvm_write (sj_hal j) d (slot_offset j t) bs) = NVM_STATUS_OK"
    and e: "nvm_erase_required (sj_hal j) \<Longrightarrow>
      \<exists>d0. d = fst (nvm_erase (sj_hal j) d0 (slot_offset j t) (unat (sj_slot_size j))) \<and>
           snd (nvm_erase (sj_hal j) d0 (slot_offset j t) (unat (sj_slot_size j))) = NVM_STATUS_OK"
  shows "slot_bytes j cell (fst (nvm_write (sj_hal j) d (slot_offset j t) bs)) t = bs"
proof -
  have "nvm_erase_required (sj_hal j) \<longrightarrow> (\<forall>i. unat (slot_offset j t) \<le> i \<longrightarrow>
      i < unat (slot_offset j t) + length bs \<longrightarrow> cell d i = 0xff)"
  proof
    assume "nvm_erase_required (sj_hal j)"
    then obtain d0 where
      "d = fst (nvm_erase (sj_hal j) d0 (slot_offset j t) (unat (sj_slot_size j)))"
      "snd (nvm_erase (sj_hal j) d0 (slot_offset j t) (unat (sj_slot_size j))) = NVM_STATUS_OK"
      using e by blast
    then show "\<forall>i. unat (slot_offset j t) \<le> i \<longrightarrow>
        i < unat (slot_offset j t) + length bs \<longrightarrow> cell d i = 0xff"
      using c len by (simp add: nvm_contract_def)
  qed
  then have "\<forall>k < length bs. cell (fst (nvm_write (sj_hal j) d (slot_offset j t) bs))
      (unat (slot_offset j t) + k) = bs ! k"
    using c ok unfolding nvm_contract_def by blast
  then show ?thesis using len by (simp add: slot_bytes_def list_eq_iff_nth_eq)
qed

lemma commit_outside:
  assumes c: "nvm_contract (sj_hal j) cell" and f: "journal_fits j"
    and p: "STORAGE_JOURNAL_HEADER_SIZE + length p \<le> unat (sj_slot_size j)"
  shows "outside_slot j cell t d (fst (journal_commit j d t q p))"
proof -
  have er: "outside_slot j cell t d0 (fst (nvm_erase (sj_hal j) d0 (slot_offset j t) (unat (sj_slot_size j))))" for d0
    using c by (simp add: outside_slot_def nvm_contract_def)
  have wr: "outside_slot j cell t d0 (fst (nvm_write (sj_hal j) d0 (slot_offset j t) (journal_image j q p)))" for d0
    using c journal_image_fields(1) [OF f p, of q] by (simp add: outside_slot_def nvm_contract_def)
  have refl: "outside_slot j cell t d d" by (simp add: outside_slot_def)
  have "fst (journal_commit j d t q p) \<in>
      {d, fst (nvm_erase (sj_hal j) d (slot_offset j t) (unat (sj_slot_size j))),
       fst (nvm_write (sj_hal j) d (slot_offset j t) (journal_image j q p)),
       fst (nvm_write (sj_hal j) (fst (nvm_erase (sj_hal j) d (slot_offset j t) (unat (sj_slot_size j))))
         (slot_offset j t) (journal_image j q p))}"
    by (auto simp: journal_commit_def Let_def case_prod_unfold)
  then show ?thesis
    by (elim insertE emptyE) (simp_all only: er wr refl outside_slot_trans [OF er wr])
qed

text \<open>The device takes both operations of a write: the erase of the slot, where erasing is required, and
  the program of the whole image.\<close>

definition device_accepts :: "'d storage_journal \<Rightarrow> 'd \<Rightarrow> nat \<Rightarrow> u32 \<Rightarrow> u8 list \<Rightarrow> bool" where
  "device_accepts j d slot q payload \<longleftrightarrow>
     (let hal = sj_hal j; off = slot_offset j slot; size = unat (sj_slot_size j);
          d1 = (if nvm_erase_required hal then fst (nvm_erase hal d off size) else d)
      in (nvm_erase_required hal \<longrightarrow> snd (nvm_erase hal d off size) = NVM_STATUS_OK) \<and>
         snd (nvm_write hal d1 off (journal_image j q payload)) = NVM_STATUS_OK)"

lemma commit_result:
  assumes c: "nvm_contract (sj_hal j) cell" and f: "journal_fits j" and t: "t \<le> 1"
    and p: "STORAGE_JOURNAL_HEADER_SIZE + length p \<le> unat (sj_slot_size j)"
  shows "snd (journal_commit j d t q p) = STORAGE_JOURNAL_WRITE_OK \<longleftrightarrow> device_accepts j d t q p"
    and "device_accepts j d t q p \<Longrightarrow>
      slot_bytes j cell (fst (journal_commit j d t q p)) t = journal_image j q p"
proof -
  let ?d1 = "if nvm_erase_required (sj_hal j)
    then fst (nvm_erase (sj_hal j) d (slot_offset j t) (unat (sj_slot_size j))) else d"
  let ?d2 = "fst (nvm_write (sj_hal j) ?d1 (slot_offset j t) (journal_image j q p))"
  have no: "snd (journal_commit j d t q p) \<noteq> STORAGE_JOURNAL_WRITE_OK" if "\<not> device_accepts j d t q p"
    using that
    by (cases "nvm_erase (sj_hal j) d (slot_offset j t) (unat (sj_slot_size j))")
      (auto simp: journal_commit_def device_accepts_def write_status_def Let_def case_prod_unfold)
  have yes: "snd (journal_commit j d t q p) = STORAGE_JOURNAL_WRITE_OK \<and>
      slot_bytes j cell (fst (journal_commit j d t q p)) t = journal_image j q p"
    if ok: "device_accepts j d t q p"
  proof -
    have er: "nvm_erase_required (sj_hal j) \<Longrightarrow>
        snd (nvm_erase (sj_hal j) d (slot_offset j t) (unat (sj_slot_size j))) = NVM_STATUS_OK"
      and wr: "snd (nvm_write (sj_hal j) ?d1 (slot_offset j t) (journal_image j q p)) = NVM_STATUS_OK"
      using ok by (simp_all add: device_accepts_def Let_def)
    have img: "slot_bytes j cell ?d2 t = journal_image j q p"
      by (rule image_written [OF c journal_image_fields(1) [OF f p] wr]) (use er in auto)
    have v: "read_slot j ?d2 t =
        Some \<lparr>ss_valid = True, ss_sequence = q, ss_payload_len = of_nat (length p)\<rparr>"
      using read_slot_decodes [OF c f t, of ?d2] img journal_image_fields(2) [OF f p] by simp
    have "journal_commit j d t q p = (?d2, STORAGE_JOURNAL_WRITE_OK)"
      using er wr v by (auto simp: journal_commit_def Let_def case_prod_unfold split: if_splits)
    then show ?thesis using img by simp
  qed
  show "snd (journal_commit j d t q p) = STORAGE_JOURNAL_WRITE_OK \<longleftrightarrow> device_accepts j d t q p"
    using no yes by blast
  show "device_accepts j d t q p \<Longrightarrow>
      slot_bytes j cell (fst (journal_commit j d t q p)) t = journal_image j q p"
    using yes by blast
qed

section \<open>Round trip and power loss\<close>

lemma seq_next:
  "seq_after (if s + 1 = 0 then 1 else s + 1) s \<and> \<not> seq_after s (if s + 1 = 0 then 1 else s + 1)"
proof -
  have "s = - 1" if "s + 1 = 0" using that by (simp add: eq_neg_iff_add_eq_0)
  moreover have "s - (s + 1) = - 1" "s + 1 - s = 1" by simp_all
  ultimately show ?thesis by (auto simp: seq_after_def)
qed

lemma journal_target_newest:
  assumes "journal_target a b = (t, q)"
  shows "t = 1 - newest_slot a b" "t \<le> 1" "q \<noteq> 0"
    and "t = 1 \<Longrightarrow> ss_valid a \<and> q = (if ss_sequence a + 1 = 0 then 1 else ss_sequence a + 1)"
    and "t = 0 \<Longrightarrow> ss_valid b \<Longrightarrow> q = (if ss_sequence b + 1 = 0 then 1 else ss_sequence b + 1)"
  using assms by (auto simp: journal_target_def newest_slot_def Let_def split: if_splits)

lemma newest_after_write:
  assumes "journal_target a b = (t, q)" and "ss_valid r" and "ss_sequence r = q"
  shows "t = 0 \<Longrightarrow> newest_slot r b = 0" and "t = 1 \<Longrightarrow> newest_slot a r = 1"
  using assms(2,3) journal_target_newest(4,5) [OF assms(1)] seq_next [of "ss_sequence a"]
    seq_next [of "ss_sequence b"]
  by (auto simp: newest_slot_def simp del: split_paired_All)

text \<open>The slot the next write replaces.\<close>

definition journal_victim :: "'d storage_journal \<Rightarrow> ('d \<Rightarrow> nat \<Rightarrow> u8) \<Rightarrow> 'd \<Rightarrow> nat" where
  "journal_victim j cell d =
     fst (journal_target (decode_slot j (slot_bytes j cell d 0)) (decode_slot j (slot_bytes j cell d 1)))"

lemma read_latest_decodes:
  assumes c: "nvm_contract (sj_hal j) cell" and f: "journal_fits j"
    and cap: "unat (sj_slot_size j - 32) \<le> cap"
  shows "storage_journal_read_latest j d cap =
    (let n = newest_slot (decode_slot j (slot_bytes j cell d 0)) (decode_slot j (slot_bytes j cell d 1));
         bs = slot_bytes j cell d n
     in if ss_valid (decode_slot j bs) then Some (slot_payload bs, ss_sequence (decode_slot j bs)) else None)"
proof -
  let ?a = "decode_slot j (slot_bytes j cell d 0)" and ?b = "decode_slot j (slot_bytes j cell d 1)"
  have r: "read_slot j d 0 = Some ?a" "read_slot j d 1 = Some ?b"
    by (rule read_slot_decodes [OF c f]; simp)+
  have n: "newest_slot ?a ?b \<le> 1" by (simp add: newest_slot_def)
  have "ss_valid (decode_slot j (slot_bytes j cell d (newest_slot ?a ?b))) \<longleftrightarrow> ss_valid ?a \<or> ss_valid ?b"
    by (auto simp: newest_slot_def)
  then show ?thesis
    using read_payload_decodes [OF c f n _ cap, of d]
    by (cases "ss_valid ?a \<or> ss_valid ?b")
      (auto simp: storage_journal_read_latest_def r [unfolded One_nat_def] Let_def simp del: de_Morgan_disj)
qed

lemma write_detailed_commits:
  assumes c: "nvm_contract (sj_hal j) cell" and f: "journal_fits j"
    and p: "STORAGE_JOURNAL_HEADER_SIZE + length p \<le> unat (sj_slot_size j)"
  shows "storage_journal_write_detailed j d p =
    (case journal_target (decode_slot j (slot_bytes j cell d 0)) (decode_slot j (slot_bytes j cell d 1)) of
       (t, q) \<Rightarrow> journal_commit j d t q p)"
proof -
  have "unat (sj_slot_size j - 32) = unat (sj_slot_size j) - 32"
    using f by (simp add: journal_fits_def unat_sub word_le_nat_alt)
  then have "\<not> unat (sj_slot_size j - 32) < length p" using p by simp
  then show ?thesis using read_slot_decodes [OF c f, of 0] read_slot_decodes [OF c f, of 1]
    by (simp add: storage_journal_write_detailed_def)
qed

text \<open>C14: What is written is read back.  On any device that keeps its contract, a write of a payload that
  fits reports success exactly when the device took the erase of the one slot it replaces and the
  program of the record's image, and after a success the next read of the latest record returns
  exactly that payload, under a sequence number that is not 0, whatever the two slots held before
  and also when the sequence counter wraps.\<close>

theorem journal_write_read:
  assumes c: "nvm_contract (sj_hal j) cell" and f: "journal_fits j"
    and p: "STORAGE_JOURNAL_HEADER_SIZE + length p \<le> unat (sj_slot_size j)"
  shows "\<exists>t q. t \<le> 1 \<and> q \<noteq> 0 \<and> (snd (storage_journal_write j d p) \<longleftrightarrow> device_accepts j d t q p) \<and>
    (snd (storage_journal_write j d p) \<longrightarrow>
       storage_journal_read_latest j (fst (storage_journal_write j d p)) (unat (sj_slot_size j - 32)) =
         Some (p, q))"
proof -
  let ?a = "decode_slot j (slot_bytes j cell d 0)" and ?b = "decode_slot j (slot_bytes j cell d 1)"
  obtain t q where tq: "journal_target ?a ?b = (t, q)" by fastforce
  note nt = journal_target_newest [OF tq]
  let ?r = "journal_commit j d t q p"
  have w: "storage_journal_write_detailed j d p = ?r"
    using write_detailed_commits [OF c f p, of d] tq by simp
  note res = commit_result [OF c f nt(2) p, of d q]
  have "storage_journal_read_latest j (fst ?r) (unat (sj_slot_size j - 32)) = Some (p, q)"
    if ok: "device_accepts j d t q p"
  proof -
    have rec: "decode_slot j (slot_bytes j cell (fst ?r) t) =
        \<lparr>ss_valid = True, ss_sequence = q, ss_payload_len = of_nat (length p)\<rparr>"
      "slot_payload (slot_bytes j cell (fst ?r) t) = p"
      using res(2) [OF ok] journal_image_fields(2,3) [OF f p, of q] by simp_all
    have out: "outside_slot j cell t d (fst ?r)" by (rule commit_outside [OF c f p])
    have new: "newest_slot (decode_slot j (slot_bytes j cell (fst ?r) 0))
        (decode_slot j (slot_bytes j cell (fst ?r) 1)) = t"
    proof (cases "t = 0")
      case True
      then have "slot_bytes j cell (fst ?r) 1 = slot_bytes j cell d 1"
        using outside_slot_bytes [OF f _ nt(2) _ out, of 1] by simp
      then show ?thesis using newest_after_write(1) [OF tq _ _ True] rec(1) True by simp
    next
      case False
      then have t: "t = 1" using nt(2) by simp
      then have "slot_bytes j cell (fst ?r) 0 = slot_bytes j cell d 0"
        using outside_slot_bytes [OF f _ nt(2) _ out, of 0] by simp
      then show ?thesis using newest_after_write(2) [OF tq _ _ t] rec(1) t by simp
    qed
    show ?thesis
      unfolding read_latest_decodes [OF c f order_refl] Let_def new by (simp add: rec)
  qed
  then show ?thesis using res(1) nt(2,3)
    by (intro exI [of _ t] exI [of _ q]) (auto simp: storage_journal_write_def w case_prod_unfold)
qed

text \<open>C15: A write that is cut short loses nothing.  A write, whatever its outcome, changes only the slot
  that does not hold the latest record; and on any device state that differs from the one before
  only inside that slot - a power loss in the middle of the erase or of the program, or a failed
  write - the latest record still reads back unchanged, unless that slot itself holds a complete
  committed record with a matching CRC, which is then the one that is read.\<close>

theorem journal_survives_torn_write:
  assumes c: "nvm_contract (sj_hal j) cell" and f: "journal_fits j"
    and old: "storage_journal_read_latest j d (unat (sj_slot_size j - 32)) = Some old"
  shows "outside_slot j cell (journal_victim j cell d) d (fst (storage_journal_write_detailed j d p)) \<and>
    (\<forall>d'. outside_slot j cell (journal_victim j cell d) d d' \<longrightarrow>
       storage_journal_read_latest j d' (unat (sj_slot_size j - 32)) = Some old \<or>
       (\<exists>s. read_slot j d' (journal_victim j cell d) = Some s \<and> ss_valid s \<and>
            storage_journal_read_latest j d' (unat (sj_slot_size j - 32)) =
              Some (slot_payload (slot_bytes j cell d' (journal_victim j cell d)), ss_sequence s)))"
proof -
  let ?dec = "\<lambda>d k. decode_slot j (slot_bytes j cell d k)"
  obtain t q where tq: "journal_target (?dec d 0) (?dec d 1) = (t, q)" by fastforce
  note nt = journal_target_newest [OF tq]
  have v: "journal_victim j cell d = t" using tq by (simp add: journal_victim_def)
  let ?n = "newest_slot (?dec d 0) (?dec d 1)"
  have n: "?n \<le> 1" "?n \<noteq> t" using nt(1) by (auto simp: newest_slot_def split: if_splits)
  have val: "ss_valid (?dec d ?n)" and o: "old = (slot_payload (slot_bytes j cell d ?n), ss_sequence (?dec d ?n))"
    using old by (auto simp: read_latest_decodes [OF c f order_refl] Let_def split: if_splits)
  have "outside_slot j cell t d (fst (storage_journal_write_detailed j d p))"
  proof (cases "STORAGE_JOURNAL_HEADER_SIZE + length p \<le> unat (sj_slot_size j)")
    case True
    then show ?thesis using write_detailed_commits [OF c f True, of d] commit_outside [OF c f True] tq by simp
  next
    case False
    then have "unat (sj_slot_size j - 32) < length p"
      using f by (auto simp: journal_fits_def unat_sub word_le_nat_alt)
    then show ?thesis by (simp add: storage_journal_write_detailed_def outside_slot_def)
  qed
  moreover have "storage_journal_read_latest j d' (unat (sj_slot_size j - 32)) = Some old \<or>
      (\<exists>s. read_slot j d' t = Some s \<and> ss_valid s \<and>
         storage_journal_read_latest j d' (unat (sj_slot_size j - 32)) =
           Some (slot_payload (slot_bytes j cell d' t), ss_sequence s))"
    if out: "outside_slot j cell t d d'" for d'
  proof -
    have same: "slot_bytes j cell d' ?n = slot_bytes j cell d ?n"
      by (rule outside_slot_bytes [OF f n(1) nt(2) n(2) out])
    let ?n' = "newest_slot (?dec d' 0) (?dec d' 1)"
    have "?n' \<le> 1" by (simp add: newest_slot_def)
    then consider "?n' = ?n" | "?n' = t" using n nt(2) by linarith
    then show ?thesis
    proof cases
      case 1
      then show ?thesis using val o same by (simp add: read_latest_decodes [OF c f order_refl] Let_def)
    next
      case 2
      have "ss_valid (?dec d' ?n)" using val same by simp
      then have "ss_valid (?dec d' 0) \<or> ss_valid (?dec d' 1)"
        using n(1) by (auto simp: le_Suc_eq)
      then have "ss_valid (?dec d' t)" using 2 by (auto simp: newest_slot_def split: if_splits)
      then show ?thesis
        using 2 read_slot_decodes [OF c f nt(2)] by (simp add: read_latest_decodes [OF c f order_refl] Let_def)
    qed
  qed
  ultimately show ?thesis unfolding v by blast
qed

section \<open>A device that keeps the contract\<close>

definition ram_hal :: "(nat \<Rightarrow> u8) nvm_hal" where
  "ram_hal = \<lparr>nvm_capacity = 8192, nvm_erase_block = 4096, nvm_write_block = 256,
     nvm_erase_required = True,
     nvm_read = (\<lambda>d off n. if unat off + n \<le> 8192
        then (NVM_STATUS_OK, map d [unat off..<unat off + n]) else (NVM_STATUS_OUT_OF_RANGE, [])),
     nvm_erase = (\<lambda>d off n. (\<lambda>i. if unat off \<le> i \<and> i < unat off + n then 0xff else d i, NVM_STATUS_OK)),
     nvm_write = (\<lambda>d off bs. (\<lambda>i. if unat off \<le> i \<and> i < unat off + length bs
        then d i AND bs ! (i - unat off) else d i, NVM_STATUS_OK))\<rparr>"

definition ram_journal :: "(nat \<Rightarrow> u8) storage_journal" where
  "ram_journal = \<lparr>sj_hal = ram_hal, sj_base_offset = 0, sj_slot_size = 4096, sj_unit_id = 7\<rparr>"

lemma erased_and: "(0xff :: u8) AND x = x"
proof -
  have "(0xff :: u8) = - 1" by simp
  then show ?thesis by (simp only: and.left_neutral)
qed

lemma ram_contract: "nvm_contract (sj_hal ram_journal) (\<lambda>d. d)"
  by (simp add: nvm_contract_def ram_journal_def ram_hal_def erased_and)

lemma ram_fits: "journal_fits ram_journal"
  by (simp add: journal_fits_def ram_journal_def ram_hal_def)

text \<open>One record in slot 0, slot 1 erased.\<close>

definition ram_sample :: "nat \<Rightarrow> u8" where
  "ram_sample = (\<lambda>i. if i < 4096 then journal_image ram_journal 5 [9] ! i else 0xff)"

lemma read_u32_replicate: "4 \<le> n \<Longrightarrow> read_u32 (replicate n b) = read_u32 [b, b, b, b]"
  by (simp add: read_u32_def)

lemma erased_magic: "read_u32 [0xff, 0xff, 0xff, 0xff] \<noteq> JOURNAL_MAGIC"
  by code_simp

lemma erased_header: "4 \<le> n \<Longrightarrow> \<not> header_ok j (replicate n 0xff)"
  by (simp only: header_ok_def read_u32_replicate erased_magic simp_thms not_False_eq_True)

lemma ram_sample_latest:
  "storage_journal_read_latest ram_journal ram_sample (unat (sj_slot_size ram_journal - 32)) =
     Some ([9], 5)"
proof -
  have off: "unat (slot_offset ram_journal 0) = 0" "unat (slot_offset ram_journal 1) = 4096"
    "unat (sj_slot_size ram_journal) = 4096"
    by (simp_all add: slot_offset_def ram_journal_def)
  note img = journal_image_fields [OF ram_fits, of "[9]" 5, unfolded off(3)]
  have s0: "slot_bytes ram_journal (\<lambda>d. d) ram_sample 0 = journal_image ram_journal 5 [9]"
    using img(1) by (simp add: slot_bytes_def off ram_sample_def list_eq_iff_nth_eq)
  have s1: "slot_bytes ram_journal (\<lambda>d. d) ram_sample 1 = map (\<lambda>_. 0xff) [4096..<4096 + 4096]"
    unfolding slot_bytes_def off
  proof (rule map_cong [OF refl])
    fix i :: nat assume "i \<in> set [4096..<4096 + 4096]"
    then have "4096 \<le> i" by (simp only: set_upt atLeastLessThan_iff)
    then show "ram_sample i = 0xff" by (simp add: ram_sample_def)
  qed
  have "\<not> header_ok ram_journal (slot_bytes ram_journal (\<lambda>d. d) ram_sample 1)"
    unfolding s1 map_replicate_const length_upt by (rule erased_header) linarith
  then have "\<not> ss_valid (decode_slot ram_journal (slot_bytes ram_journal (\<lambda>d. d) ram_sample 1))"
    by (simp add: decode_slot_def)
  then have "newest_slot (decode_slot ram_journal (slot_bytes ram_journal (\<lambda>d. d) ram_sample 0))
      (decode_slot ram_journal (slot_bytes ram_journal (\<lambda>d. d) ram_sample 1)) = 0"
    using img(2) unfolding s0 by (simp add: newest_slot_def)
  then show ?thesis
    using img(2,3) unfolding read_latest_decodes [OF ram_contract ram_fits order_refl] Let_def
    by (simp only: s0) simp
qed

theorem journal_survives_torn_write_witness:
  "outside_slot ram_journal (\<lambda>d. d) (journal_victim ram_journal (\<lambda>d. d) ram_sample) ram_sample
     (fst (storage_journal_write_detailed ram_journal ram_sample [1, 2]))"
  using journal_survives_torn_write [OF ram_contract ram_fits ram_sample_latest, of "[1, 2]"] by blast

text \<open>C16: The geometry check of \<open>storage_journal_init\<close> is a 32-bit sum.  A base so high that base plus two
  slots wraps is accepted although the slots do not lie in the device; with a base that leaves room
  below the wrap, acceptance does put both slots inside.\<close>

theorem journal_init_geometry:
  "(\<exists>base. storage_journal_init ram_hal 7 base 4096 \<noteq> None \<and>
      unat (nvm_capacity ram_hal) < unat base + 2 * 4096) \<and>
   (\<forall>hal unit base size j. unat base + 2 * unat size < 2 ^ 32 \<longrightarrow>
      storage_journal_init hal unit base size = Some j \<longrightarrow> journal_fits j)"
proof -
  have "storage_journal_init ram_hal 7 0xfffff000 4096 \<noteq> None"
    by (simp add: storage_journal_init_def ram_hal_def)
  moreover have "journal_fits j" if "unat base + 2 * unat size < 2 ^ 32"
    "storage_journal_init hal unit base size = Some j" for hal :: "'a nvm_hal" and unit base size j
  proof -
    have "unat (base + size * 2) = unat base + unat size * 2"
      using that(1) by (simp add: unat_word_ariths)
    then show ?thesis using that(2)
      by (auto simp: storage_journal_init_def journal_fits_def not_less word_le_nat_alt
          word_less_nat_alt split: if_splits)
  qed
  ultimately show ?thesis by (auto simp: ram_hal_def intro!: exI [of _ "0xfffff000"])
qed

theorem journal_init_geometry_witness: "journal_fits ram_journal"
proof -
  have "storage_journal_init ram_hal 7 0 4096 = Some ram_journal"
    by (simp add: storage_journal_init_def ram_hal_def ram_journal_def)
  moreover have "unat (0 :: u32) + 2 * unat (4096 :: u32) < 2 ^ 32" by simp
  ultimately show ?thesis using journal_init_geometry by blast
qed

end
