(* ===== verification/Charge_Types.thy ===== *)
theory Charge_Types
  imports Storage_Bytes
begin

text \<open>
  The data of the charge supervisor: the enums and structs of
  \<open>services/battery_charge_supervisor_logic.h\<close>, \<open>services/battery_charge_logic.h\<close> and the
  confidence enums of \<open>services/battery_learning_logic.h\<close>.  Signed C integers are \<open>int\<close>, with the
  saturation the code writes out; the sums the code forms in them stay far inside 64 bits.  The
  enums are closed, so the code's range checks of enum values hold by typing.
\<close>

section \<open>Enums\<close>

datatype battery_charger_state =
  BATTERY_CHARGER_DETACHED | BATTERY_CHARGER_ACTIVE | BATTERY_CHARGER_FULL | BATTERY_CHARGER_FAULT

datatype battery_capacity_confidence =
  BATTERY_CAPACITY_CONFIDENCE_PRIOR | BATTERY_CAPACITY_CONFIDENCE_OBSERVED
| BATTERY_CAPACITY_CONFIDENCE_LEARNED | BATTERY_CAPACITY_CONFIDENCE_CONFLICTED

datatype battery_soc_provenance =
  BATTERY_SOC_PROVENANCE_UNKNOWN | BATTERY_SOC_PROVENANCE_BOOTSTRAP_VOLTAGE
| BATTERY_SOC_PROVENANCE_TRACKED | BATTERY_SOC_PROVENANCE_ANCHORED_FULL
| BATTERY_SOC_PROVENANCE_ANCHORED_EMPTY

datatype battery_soc_confidence =
  BATTERY_SOC_CONFIDENCE_NONE | BATTERY_SOC_CONFIDENCE_PROVISIONAL | BATTERY_SOC_CONFIDENCE_ANCHORED

datatype charge_policy =
  BATTERY_CHARGE_POLICY_OBSERVE | BATTERY_CHARGE_POLICY_ENFORCE_ANCHORED
| BATTERY_CHARGE_POLICY_ENFORCE_BOOTSTRAP

datatype charge_chemistry =
  BATTERY_CHARGE_CHEMISTRY_UNKNOWN | BATTERY_CHARGE_CHEMISTRY_NIMH_2S
| BATTERY_CHARGE_CHEMISTRY_LI_ION_1S

datatype charge_phase =
  BATTERY_CHARGE_PHASE_DETACHED | BATTERY_CHARGE_PHASE_QUALIFYING | BATTERY_CHARGE_PHASE_CHARGING
| BATTERY_CHARGE_PHASE_COMPLETE_BQ | BATTERY_CHARGE_PHASE_COMPLETE_SOFTWARE
| BATTERY_CHARGE_PHASE_STOPPED_SAFETY | BATTERY_CHARGE_PHASE_FAULT
| BATTERY_CHARGE_PHASE_DEGRADED | BATTERY_CHARGE_PHASE_STOPPING

datatype charge_terminal =
  BATTERY_CHARGE_TERMINAL_NONE | BATTERY_CHARGE_TERMINAL_BQ_COMPLETE_AFTER_ACTIVE
| BATTERY_CHARGE_TERMINAL_BQ_ALREADY_FULL_AT_ATTACH
| BATTERY_CHARGE_TERMINAL_SOFTWARE_COULOMB_FULL | BATTERY_CHARGE_TERMINAL_SOFTWARE_CURVE_FULL
| BATTERY_CHARGE_TERMINAL_SOFTWARE_COULOMB_AND_CURVE_FULL
| BATTERY_CHARGE_TERMINAL_SAFETY_CHARGE_LIMIT | BATTERY_CHARGE_TERMINAL_SAFETY_TIME_LIMIT
| BATTERY_CHARGE_TERMINAL_BOARD_TEMPERATURE_LIMIT | BATTERY_CHARGE_TERMINAL_BQ_FAULT
| BATTERY_CHARGE_TERMINAL_CONTROL_READBACK_FAILED
| BATTERY_CHARGE_TERMINAL_GAUGE_CONTINUITY_LOST | BATTERY_CHARGE_TERMINAL_MANUAL_DEBUG_STOP
| BATTERY_CHARGE_TERMINAL_DETACHED | BATTERY_CHARGE_TERMINAL_BQ_FAULT_AFTER_COULOMB_FULL
| BATTERY_CHARGE_TERMINAL_MAINTENANCE_REARM

datatype charge_candidate =
  BATTERY_CHARGE_CANDIDATE_NONE | BATTERY_CHARGE_CANDIDATE_BQ_COMPLETE
| BATTERY_CHARGE_CANDIDATE_SOFTWARE_COULOMB_FULL

section \<open>Bits\<close>

abbreviation "CHARGE_RESULT_ATTACHED \<equiv> 1 :: u32"
abbreviation "CHARGE_RESULT_ADMITTED \<equiv> 2 :: u32"
abbreviation "CHARGE_RESULT_DETACHED \<equiv> 4 :: u32"
abbreviation "CHARGE_RESULT_BQ_COMPLETE \<equiv> 8 :: u32"
abbreviation "CHARGE_RESULT_TERMINAL \<equiv> 0x10 :: u32"
abbreviation "CHARGE_RESULT_DEGRADED \<equiv> 0x20 :: u32"
abbreviation "CHARGE_RESULT_MINUTE \<equiv> 0x40 :: u32"
abbreviation "CHARGE_RESULT_STOP_REQUESTED \<equiv> 0x100 :: u32"
abbreviation "CHARGE_RESULT_SOFTWARE_STOPPED \<equiv> 0x200 :: u32"
abbreviation "CHARGE_RESULT_FULL_QUALIFIED \<equiv> 0x400 :: u32"

abbreviation "CHARGE_BLOCK_POLICY_OBSERVE \<equiv> 1 :: u32"
abbreviation "CHARGE_BLOCK_NOT_ADMITTED \<equiv> 2 :: u32"
abbreviation "CHARGE_BLOCK_SAMPLE_INVALID \<equiv> 4 :: u32"
abbreviation "CHARGE_BLOCK_CURRENT_INVALID \<equiv> 8 :: u32"
abbreviation "CHARGE_BLOCK_CONTINUITY_LOST \<equiv> 0x10 :: u32"
abbreviation "CHARGE_BLOCK_NON_AUTHORITATIVE \<equiv> 0x20 :: u32"
abbreviation "CHARGE_BLOCK_CONTROL_UNCONFIRMED \<equiv> 0x40 :: u32"
abbreviation "CHARGE_BLOCK_CHEMISTRY \<equiv> 0x80 :: u32"
abbreviation "CHARGE_BLOCK_HARDWARE_PROFILE \<equiv> 0x100 :: u32"
abbreviation "CHARGE_BLOCK_UNKNOWN_DEFICIT \<equiv> 0x200 :: u32"
abbreviation "CHARGE_BLOCK_CAPACITY_CONFIDENCE \<equiv> 0x400 :: u32"
abbreviation "CHARGE_BLOCK_FACTOR_UNLEARNED \<equiv> 0x800 :: u32"
abbreviation "CHARGE_BLOCK_CURVE_UNCALIBRATED \<equiv> 0x1000 :: u32"
abbreviation "CHARGE_BLOCK_NO_ACTIVE_HISTORY \<equiv> 0x2000 :: u32"
abbreviation "CHARGE_BLOCK_STATUS_INVALID \<equiv> 0x4000 :: u32"
abbreviation "CHARGE_BLOCK_SOC_CONFIDENCE \<equiv> 0x8000 :: u32"
abbreviation "CHARGE_BLOCK_STALE_ADMISSION \<equiv> 0x10000 :: u32"

abbreviation "CHARGE_MINUTE_SAMPLE_CAP \<equiv> 64 :: nat"
abbreviation "CHARGE_TRACE_INTERVAL_MS \<equiv> 60000 :: u32"
abbreviation "NANOAMP_HOURS_PER_MILLIAMP_HOUR \<equiv> 1000000 :: u64"
abbreviation "SAMPLE_GAP_MAX_MS \<equiv> 10000 :: u32"
abbreviation "ATTACH_BOUNCE_REUSE_MS \<equiv> 500 :: u32"
abbreviation "CHARGE_FACTOR_MIN_PERMILLE \<equiv> 1000 :: u16"
abbreviation "CHARGE_FACTOR_MAX_PERMILLE \<equiv> 2000 :: u16"

section \<open>Structs\<close>

record charge_profile =
  cp_chemistry :: charge_chemistry
  cp_hardware_profile_id :: u8
  cp_nominal_charge_current_ua :: u32
  cp_nominal_backup_timer_ms :: u32
  cp_charge_factor_prior_permille :: u16
  cp_admission_current_min_ma :: u16
  cp_completion_confirm_ms :: u32
  cp_safety_input_factor_permille :: u16
  cp_control_confirm_ms :: u32

record charge_admission =
  ca_source_current :: bool
  ca_capacity_valid :: bool
  ca_capacity_mah :: u16
  ca_capacity_confidence :: battery_capacity_confidence
  ca_remaining_valid :: bool
  ca_remaining_mah :: u16
  ca_remaining_nah :: u64
  ca_soc_provenance :: battery_soc_provenance
  ca_soc_confidence :: battery_soc_confidence
  ca_natural_empty_start :: bool
  ca_resistance_valid :: bool
  ca_resistance_mohm :: u16
  ca_pack_generation :: u32
  ca_charge_factor_permille :: u16
  ca_charge_factor_confident :: bool

record charge_observation =
  co_now_ms :: u32
  co_sample_sequence :: u32
  co_gauge_session :: u32
  co_acr_raw :: u32
  co_session_delta_nah :: int
  co_terminal_mv :: u16
  co_reference_mv :: u16
  co_current_ua :: int
  co_temperature_mdegc :: int
  co_sample_valid :: bool
  co_reference_valid :: bool
  co_current_valid :: bool
  co_continuity_valid :: bool
  co_authoritative :: bool
  co_charger_present :: bool
  co_charger_input_mv :: u32
  co_status_valid :: bool
  co_charger_state :: battery_charger_state
  co_enable_requested :: bool
  co_enable_readback :: bool
  co_enable_valid :: bool
  co_inhibit_owner_mask :: u8
  co_supervisor_inhibit_active :: bool
  co_chemistry :: charge_chemistry
  co_hardware_profile_id :: u8
  co_admission :: charge_admission

record charge_minute =
  mi_at_ms :: u32
  mi_elapsed_ms :: u32
  mi_terminal_median_mv :: u16
  mi_compensated_median_mv :: u16
  mi_current_average_ua :: int
  mi_temperature_average_mdegc :: int
  mi_net_input_nah :: int

record charge_snapshot =
  cs_policy :: charge_policy
  cs_phase :: charge_phase
  cs_terminal_reason :: charge_terminal
  cs_candidate :: charge_candidate
  cs_blockers :: u32
  cs_charge_generation :: u32
  cs_pack_generation :: u32
  cs_gauge_session :: u32
  cs_hardware_profile_id :: u8
  cs_chemistry :: charge_chemistry
  cs_attached :: bool
  cs_admitted :: bool
  cs_session_authoritative :: bool
  cs_full_candidate :: bool
  cs_full_qualified :: bool
  cs_elapsed_ms :: u32
  cs_start_acr_raw :: u32
  cs_start_session_delta_nah :: int
  cs_net_input_nah :: int
  cs_positive_crosscheck_nah :: u64
  cs_negative_crosscheck_nah :: u64
  cs_frozen_capacity_valid :: bool
  cs_frozen_capacity_mah :: u16
  cs_frozen_capacity_confidence :: battery_capacity_confidence
  cs_frozen_remaining_valid :: bool
  cs_frozen_remaining_mah :: u16
  cs_frozen_remaining_nah :: u64
  cs_frozen_soc_provenance :: battery_soc_provenance
  cs_frozen_soc_confidence :: battery_soc_confidence
  cs_frozen_resistance_valid :: bool
  cs_frozen_resistance_mohm :: u16
  cs_deficit_valid :: bool
  cs_deficit_mah :: u16
  cs_deficit_nah :: u64
  cs_charge_factor_permille :: u16
  cs_charge_factor_confident :: bool
  cs_target_valid :: bool
  cs_target_full_capacity :: bool
  cs_target_input_nah :: u64
  cs_safety_input_nah :: u64
  cs_stop_requested :: bool
  cs_stop_reason :: charge_terminal
  cs_terminal_mv :: u16
  cs_compensated_mv :: u16
  cs_current_ua :: int
  cs_temperature_mdegc :: int
  cs_curve_valid :: bool
  cs_curve_peak_mv :: u16
  cs_curve_drop_mv :: u16
  cs_curve_slope_mv_per_min :: int
  cs_minute_count :: u32
  cs_latest_minute :: charge_minute

text \<open>The sample arrays of a minute with their count are the lists of the samples taken.\<close>

record charge_state =
  ct_snapshot :: charge_snapshot
  ct_physically_attached :: bool
  ct_detach_generation_reusable :: bool
  ct_generation_authoritative :: bool
  ct_had_active :: bool
  ct_full_pending :: bool
  ct_stop_control_seen :: bool
  ct_sample_seen :: bool
  ct_integration_sample_valid :: bool
  ct_previous_minute_valid :: bool
  ct_detached_at_ms :: u32
  ct_attached_at_ms :: u32
  ct_admitted_at_ms :: u32
  ct_full_since_ms :: u32
  ct_stop_requested_ms :: u32
  ct_last_sample_sequence :: u32
  ct_last_sample_ms :: u32
  ct_last_current_ua :: int
  ct_minute_started_ms :: u32
  ct_minute_terminal_mv :: "u16 list"
  ct_minute_compensated_mv :: "u16 list"
  ct_minute_current_sum_ua :: int
  ct_minute_temperature_sum_mdegc :: int
  ct_previous_minute_compensated_mv :: u16

record charge_persisted =
  pe_hardware_profile_id :: u8
  pe_chemistry :: charge_chemistry
  pe_charge_generation :: u32
  pe_active_session_valid :: bool
  pe_pack_generation :: u32
  pe_gauge_session :: u32
  pe_start_acr_raw :: u32
  pe_start_session_delta_nah :: int
  pe_frozen_capacity_valid :: bool
  pe_frozen_capacity_mah :: u16
  pe_frozen_capacity_confidence :: battery_capacity_confidence
  pe_frozen_remaining_valid :: bool
  pe_frozen_remaining_mah :: u16
  pe_frozen_remaining_nah :: u64
  pe_frozen_soc_provenance :: battery_soc_provenance
  pe_frozen_soc_confidence :: battery_soc_confidence
  pe_frozen_resistance_valid :: bool
  pe_frozen_resistance_mohm :: u16
  pe_deficit_valid :: bool
  pe_deficit_mah :: u16
  pe_deficit_nah :: u64
  pe_charge_factor_permille :: u16
  pe_charge_factor_confident :: bool
  pe_target_valid :: bool
  pe_target_input_nah :: u64
  pe_safety_input_nah :: u64
  pe_configured_policy :: charge_policy
  pe_configured_charge_factor_permille :: u16
  pe_configured_charge_factor_confident :: bool
  pe_inhibit_latched :: bool
  pe_latched_stop_reason :: charge_terminal
  pe_maintenance_rearm_pending :: bool
  pe_completion_rearm_used :: bool
  pe_last_terminal_valid :: bool
  pe_last_terminal_full_qualified :: bool
  pe_last_terminal_net_input_valid :: bool
  pe_last_terminal_voltage_valid :: bool
  pe_last_terminal_trace_complete :: bool
  pe_last_terminal_reason :: charge_terminal
  pe_last_terminal_generation :: u32
  pe_last_terminal_elapsed_ms :: u32
  pe_last_terminal_net_input_nah :: int
  pe_last_terminal_mv :: u16
  pe_last_curve_peak_mv :: u16
  pe_last_curve_drop_mv :: u16
  pe_last_curve_slope_mv_per_min :: int

section \<open>Zeroed structs\<close>

definition minute_zero :: charge_minute where
  "minute_zero = \<lparr>mi_at_ms = 0, mi_elapsed_ms = 0, mi_terminal_median_mv = 0,
     mi_compensated_median_mv = 0, mi_current_average_ua = 0, mi_temperature_average_mdegc = 0,
     mi_net_input_nah = 0\<rparr>"

definition snapshot_zero :: charge_snapshot where
  "snapshot_zero = \<lparr>cs_policy = BATTERY_CHARGE_POLICY_OBSERVE,
     cs_phase = BATTERY_CHARGE_PHASE_DETACHED, cs_terminal_reason = BATTERY_CHARGE_TERMINAL_NONE,
     cs_candidate = BATTERY_CHARGE_CANDIDATE_NONE, cs_blockers = 0, cs_charge_generation = 0,
     cs_pack_generation = 0, cs_gauge_session = 0, cs_hardware_profile_id = 0,
     cs_chemistry = BATTERY_CHARGE_CHEMISTRY_UNKNOWN, cs_attached = False, cs_admitted = False,
     cs_session_authoritative = False, cs_full_candidate = False, cs_full_qualified = False,
     cs_elapsed_ms = 0, cs_start_acr_raw = 0, cs_start_session_delta_nah = 0, cs_net_input_nah = 0,
     cs_positive_crosscheck_nah = 0, cs_negative_crosscheck_nah = 0,
     cs_frozen_capacity_valid = False, cs_frozen_capacity_mah = 0,
     cs_frozen_capacity_confidence = BATTERY_CAPACITY_CONFIDENCE_PRIOR,
     cs_frozen_remaining_valid = False, cs_frozen_remaining_mah = 0, cs_frozen_remaining_nah = 0,
     cs_frozen_soc_provenance = BATTERY_SOC_PROVENANCE_UNKNOWN,
     cs_frozen_soc_confidence = BATTERY_SOC_CONFIDENCE_NONE, cs_frozen_resistance_valid = False,
     cs_frozen_resistance_mohm = 0, cs_deficit_valid = False, cs_deficit_mah = 0, cs_deficit_nah = 0,
     cs_charge_factor_permille = 0, cs_charge_factor_confident = False, cs_target_valid = False,
     cs_target_full_capacity = False, cs_target_input_nah = 0, cs_safety_input_nah = 0,
     cs_stop_requested = False, cs_stop_reason = BATTERY_CHARGE_TERMINAL_NONE, cs_terminal_mv = 0,
     cs_compensated_mv = 0, cs_current_ua = 0, cs_temperature_mdegc = 0, cs_curve_valid = False,
     cs_curve_peak_mv = 0, cs_curve_drop_mv = 0, cs_curve_slope_mv_per_min = 0, cs_minute_count = 0,
     cs_latest_minute = minute_zero\<rparr>"

definition state_zero :: charge_state where
  "state_zero = \<lparr>ct_snapshot = snapshot_zero, ct_physically_attached = False,
     ct_detach_generation_reusable = False, ct_generation_authoritative = False,
     ct_had_active = False, ct_full_pending = False, ct_stop_control_seen = False,
     ct_sample_seen = False, ct_integration_sample_valid = False, ct_previous_minute_valid = False,
     ct_detached_at_ms = 0, ct_attached_at_ms = 0, ct_admitted_at_ms = 0, ct_full_since_ms = 0,
     ct_stop_requested_ms = 0, ct_last_sample_sequence = 0, ct_last_sample_ms = 0,
     ct_last_current_ua = 0, ct_minute_started_ms = 0, ct_minute_terminal_mv = [],
     ct_minute_compensated_mv = [], ct_minute_current_sum_ua = 0,
     ct_minute_temperature_sum_mdegc = 0, ct_previous_minute_compensated_mv = 0\<rparr>"

definition persisted_zero :: charge_persisted where
  "persisted_zero = \<lparr>pe_hardware_profile_id = 0, pe_chemistry = BATTERY_CHARGE_CHEMISTRY_UNKNOWN,
     pe_charge_generation = 0, pe_active_session_valid = False, pe_pack_generation = 0,
     pe_gauge_session = 0, pe_start_acr_raw = 0, pe_start_session_delta_nah = 0,
     pe_frozen_capacity_valid = False, pe_frozen_capacity_mah = 0,
     pe_frozen_capacity_confidence = BATTERY_CAPACITY_CONFIDENCE_PRIOR,
     pe_frozen_remaining_valid = False, pe_frozen_remaining_mah = 0, pe_frozen_remaining_nah = 0,
     pe_frozen_soc_provenance = BATTERY_SOC_PROVENANCE_UNKNOWN,
     pe_frozen_soc_confidence = BATTERY_SOC_CONFIDENCE_NONE, pe_frozen_resistance_valid = False,
     pe_frozen_resistance_mohm = 0, pe_deficit_valid = False, pe_deficit_mah = 0, pe_deficit_nah = 0,
     pe_charge_factor_permille = 0, pe_charge_factor_confident = False, pe_target_valid = False,
     pe_target_input_nah = 0, pe_safety_input_nah = 0,
     pe_configured_policy = BATTERY_CHARGE_POLICY_OBSERVE, pe_configured_charge_factor_permille = 0,
     pe_configured_charge_factor_confident = False, pe_inhibit_latched = False,
     pe_latched_stop_reason = BATTERY_CHARGE_TERMINAL_NONE, pe_maintenance_rearm_pending = False,
     pe_completion_rearm_used = False, pe_last_terminal_valid = False,
     pe_last_terminal_full_qualified = False, pe_last_terminal_net_input_valid = False,
     pe_last_terminal_voltage_valid = False, pe_last_terminal_trace_complete = False,
     pe_last_terminal_reason = BATTERY_CHARGE_TERMINAL_NONE, pe_last_terminal_generation = 0,
     pe_last_terminal_elapsed_ms = 0, pe_last_terminal_net_input_nah = 0, pe_last_terminal_mv = 0,
     pe_last_curve_peak_mv = 0, pe_last_curve_drop_mv = 0, pe_last_curve_slope_mv_per_min = 0\<rparr>"

definition REVB2_PROFILE :: charge_profile where
  "REVB2_PROFILE = \<lparr>cp_chemistry = BATTERY_CHARGE_CHEMISTRY_NIMH_2S, cp_hardware_profile_id = 3,
     cp_nominal_charge_current_ua = 273000, cp_nominal_backup_timer_ms = 8 * 60 * 60 * 1000,
     cp_charge_factor_prior_permille = 1224, cp_admission_current_min_ma = 1,
     cp_completion_confirm_ms = 2000, cp_safety_input_factor_permille = 1750,
     cp_control_confirm_ms = 5000\<rparr>"

text \<open>Field updates inside the snapshot.\<close>

definition upd_snap :: "(charge_snapshot \<Rightarrow> charge_snapshot) \<Rightarrow> charge_state \<Rightarrow> charge_state" where
  "upd_snap f s = s\<lparr>ct_snapshot := f (ct_snapshot s)\<rparr>"

end
