(* ===== verification/Charge_Supervisor.thy ===== *)
theory Charge_Supervisor
  imports Charge_Types
begin

text \<open>
  The pure charge-session policy of \<open>services/battery_charge_supervisor_logic.c\<close>: one update per
  observation, in the stages the function has, each a definition from state to state and result
  bits.  The state and observation pointers are never NULL; a NULL profile is \<open>None\<close>.
\<close>

section \<open>Arithmetic helpers\<close>

definition next_nonzero_u32 :: "u32 \<Rightarrow> u32" where
  "next_nonzero_u32 v = (if v + 1 = 0 then 1 else v + 1)"

abbreviation "INT64_MIN \<equiv> - (2 ^ 63) :: int"
abbreviation "INT64_MAX \<equiv> 2 ^ 63 - 1 :: int"

definition saturating_sub_i64 :: "int \<Rightarrow> int \<Rightarrow> int" where
  "saturating_sub_i64 a b =
     (if 0 < b \<and> a < INT64_MIN + b then INT64_MIN
      else if b < 0 \<and> INT64_MAX + b < a then INT64_MAX else a - b)"

definition saturating_add_u64 :: "u64 \<Rightarrow> u64 \<Rightarrow> u64" where
  "saturating_add_u64 a b = (if - 1 - b < a then - 1 else a + b)"

definition rounded_nah_to_mah :: "u64 \<Rightarrow> u16" where
  "rounded_nah_to_mah v =
     (let r = v div NANOAMP_HOURS_PER_MILLIAMP_HOUR;
          r1 = (if NANOAMP_HOURS_PER_MILLIAMP_HOUR div 2 \<le> v mod NANOAMP_HOURS_PER_MILLIAMP_HOUR
                then r + 1 else r)
      in if 0xffff < r1 then 0xffff else ucast r1)"

definition scaled_nah :: "u64 \<Rightarrow> u16 \<Rightarrow> u64" where
  "scaled_nah v factor =
     (if factor = 0 then 0
      else if (- 1) div ucast factor < v then - 1 else v * ucast factor div 1000)"

text \<open>C division truncates towards zero.\<close>

definition trunc_div :: "int \<Rightarrow> nat \<Rightarrow> int" where
  "trunc_div a n = (if a < 0 then - ((- a) div int n) else a div int n)"

text \<open>The insertion sort of \<open>median_u16\<close>: the inner loop moves the larger elements of the sorted
  prefix up and puts the value behind the last one that is not larger.\<close>

definition insert_sorted :: "u16 \<Rightarrow> u16 list \<Rightarrow> u16 list" where
  "insert_sorted v xs =
     rev (dropWhile (\<lambda>x. v < x) (rev xs)) @ v # rev (takeWhile (\<lambda>x. v < x) (rev xs))"

definition median_u16 :: "u16 list \<Rightarrow> u16" where
  "median_u16 xs =
     (if xs = [] \<or> CHARGE_MINUTE_SAMPLE_CAP < length xs then 0
      else fold insert_sorted xs [] ! (length xs div 2))"

section \<open>Evidence\<close>

definition target_uses_full_capacity :: "charge_snapshot \<Rightarrow> bool" where
  "target_uses_full_capacity s \<longleftrightarrow>
     cs_target_valid s \<and> cs_frozen_capacity_valid s \<and> cs_deficit_valid s \<and>
     cs_deficit_nah s = ucast (cs_frozen_capacity_mah s) * NANOAMP_HOURS_PER_MILLIAMP_HOUR"

definition terminal_qualifies_full :: "charge_terminal \<Rightarrow> bool" where
  "terminal_qualifies_full t \<longleftrightarrow>
     t = BATTERY_CHARGE_TERMINAL_BQ_COMPLETE_AFTER_ACTIVE \<or>
     t = BATTERY_CHARGE_TERMINAL_SOFTWARE_COULOMB_FULL \<or>
     t = BATTERY_CHARGE_TERMINAL_SOFTWARE_CURVE_FULL \<or>
     t = BATTERY_CHARGE_TERMINAL_SOFTWARE_COULOMB_AND_CURVE_FULL \<or>
     t = BATTERY_CHARGE_TERMINAL_BQ_FAULT_AFTER_COULOMB_FULL"

definition expected_stop_control :: "charge_state \<Rightarrow> charge_observation \<Rightarrow> bool" where
  "expected_stop_control s ob \<longleftrightarrow>
     cs_phase (ct_snapshot s) = BATTERY_CHARGE_PHASE_STOPPING \<and> cs_stop_requested (ct_snapshot s) \<and>
     co_supervisor_inhibit_active ob \<and> co_enable_valid ob \<and>
     \<not> co_enable_requested ob \<and> \<not> co_enable_readback ob"

definition compensated_voltage_mv :: "charge_observation \<Rightarrow> charge_snapshot \<Rightarrow> u16" where
  "compensated_voltage_mv ob s =
     (if \<not> cs_admitted s \<or> \<not> cs_session_authoritative s \<or> \<not> co_current_valid ob \<or>
         co_current_ua ob \<le> 0 \<or> \<not> cs_frozen_resistance_valid s then co_terminal_mv ob
      else
        (let drop_mv = (co_current_ua ob * uint (cs_frozen_resistance_mohm s) + 500000) div 1000000
         in if drop_mv \<le> 0 then co_terminal_mv ob
            else if uint (co_terminal_mv ob) \<le> drop_mv then 0
            else of_int (uint (co_terminal_mv ob) - drop_mv)))"

definition coulomb_full_evidence :: "charge_state \<Rightarrow> charge_observation \<Rightarrow> bool" where
  "coulomb_full_evidence st ob \<longleftrightarrow>
     (let s = ct_snapshot st in
      \<not> (\<not> ct_had_active st \<or> \<not> cs_admitted s \<or> \<not> cs_session_authoritative s \<or> \<not> cs_target_valid s \<or>
         cs_net_input_nah s < 0 \<or> (of_int (cs_net_input_nah s) :: u64) < cs_target_input_nah s \<or>
         \<not> cs_frozen_capacity_valid s \<or>
         (\<not> target_uses_full_capacity s \<and>
          (cs_frozen_capacity_confidence s = BATTERY_CAPACITY_CONFIDENCE_PRIOR \<or>
           cs_frozen_capacity_confidence s = BATTERY_CAPACITY_CONFIDENCE_CONFLICTED)) \<or>
         (\<not> cs_charge_factor_confident s \<and> \<not> target_uses_full_capacity s)) \<and>
      co_sample_valid ob \<and> co_current_valid ob \<and> co_continuity_valid ob \<and> co_authoritative ob \<and>
      co_gauge_session ob = cs_gauge_session s \<and> ca_source_current (co_admission ob) \<and>
      ca_pack_generation (co_admission ob) = cs_pack_generation s)"

definition enable_confirmed :: "charge_observation \<Rightarrow> bool" where
  "enable_confirmed ob \<longleftrightarrow> co_enable_valid ob \<and> co_enable_requested ob \<and> co_enable_readback ob"

definition when_bit :: "bool \<Rightarrow> u32 \<Rightarrow> u32" where
  "when_bit b m = (if b then m else 0)"

definition blockers_for_observation ::
    "charge_state \<Rightarrow> charge_profile \<Rightarrow> charge_observation \<Rightarrow> u32" where
  "blockers_for_observation st p ob =
     (let s = ct_snapshot st in
      when_bit (cs_policy s = BATTERY_CHARGE_POLICY_OBSERVE) CHARGE_BLOCK_POLICY_OBSERVE OR
      when_bit (\<not> cs_admitted s) CHARGE_BLOCK_NOT_ADMITTED OR
      when_bit (\<not> ca_source_current (co_admission ob)) CHARGE_BLOCK_STALE_ADMISSION OR
      when_bit (\<not> co_sample_valid ob) CHARGE_BLOCK_SAMPLE_INVALID OR
      when_bit (\<not> co_current_valid ob) CHARGE_BLOCK_CURRENT_INVALID OR
      when_bit (\<not> co_continuity_valid ob) CHARGE_BLOCK_CONTINUITY_LOST OR
      when_bit (\<not> co_authoritative ob \<or> (cs_admitted s \<and> \<not> cs_session_authoritative s))
        CHARGE_BLOCK_NON_AUTHORITATIVE OR
      when_bit (\<not> enable_confirmed ob \<and> \<not> expected_stop_control st ob)
        CHARGE_BLOCK_CONTROL_UNCONFIRMED OR
      when_bit (co_chemistry ob \<noteq> cp_chemistry p) CHARGE_BLOCK_CHEMISTRY OR
      when_bit (co_hardware_profile_id ob \<noteq> cp_hardware_profile_id p) CHARGE_BLOCK_HARDWARE_PROFILE OR
      when_bit (\<not> cs_deficit_valid s) CHARGE_BLOCK_UNKNOWN_DEFICIT OR
      when_bit (\<not> cs_frozen_capacity_valid s \<or>
          cs_frozen_capacity_confidence s = BATTERY_CAPACITY_CONFIDENCE_PRIOR \<or>
          cs_frozen_capacity_confidence s = BATTERY_CAPACITY_CONFIDENCE_CONFLICTED)
        CHARGE_BLOCK_CAPACITY_CONFIDENCE OR
      when_bit ((cs_policy s = BATTERY_CHARGE_POLICY_ENFORCE_ANCHORED \<and>
            cs_frozen_soc_confidence s \<noteq> BATTERY_SOC_CONFIDENCE_ANCHORED \<and>
            \<not> target_uses_full_capacity s) \<or>
          (cs_policy s = BATTERY_CHARGE_POLICY_ENFORCE_BOOTSTRAP \<and>
            cs_frozen_soc_confidence s = BATTERY_SOC_CONFIDENCE_NONE \<and>
            \<not> target_uses_full_capacity s))
        CHARGE_BLOCK_SOC_CONFIDENCE OR
      when_bit (\<not> cs_charge_factor_confident s) CHARGE_BLOCK_FACTOR_UNLEARNED OR
      when_bit (\<not> ct_had_active st) CHARGE_BLOCK_NO_ACTIVE_HISTORY OR
      when_bit (\<not> co_status_valid ob) CHARGE_BLOCK_STATUS_INVALID)"

section \<open>Session life cycle\<close>

definition reset_minute_window :: "u32 \<Rightarrow> charge_state \<Rightarrow> charge_state" where
  "reset_minute_window now s =
     s\<lparr>ct_minute_started_ms := now, ct_minute_terminal_mv := [], ct_minute_compensated_mv := [],
       ct_minute_current_sum_ua := 0, ct_minute_temperature_sum_mdegc := 0\<rparr>"

definition detached_snapshot :: "charge_policy \<Rightarrow> u32 \<Rightarrow> charge_snapshot" where
  "detached_snapshot policy generation =
     snapshot_zero\<lparr>cs_policy := policy, cs_phase := BATTERY_CHARGE_PHASE_DETACHED,
       cs_terminal_reason := BATTERY_CHARGE_TERMINAL_DETACHED, cs_charge_generation := generation,
       cs_blockers := when_bit (policy = BATTERY_CHARGE_POLICY_OBSERVE) CHARGE_BLOCK_POLICY_OBSERVE OR
         CHARGE_BLOCK_NOT_ADMITTED\<rparr>"

definition reset_session_fields :: "charge_state \<Rightarrow> charge_state" where
  "reset_session_fields s =
     s\<lparr>ct_snapshot := detached_snapshot (cs_policy (ct_snapshot s)) (cs_charge_generation (ct_snapshot s)),
       ct_had_active := False, ct_full_pending := False, ct_stop_control_seen := False,
       ct_sample_seen := False, ct_integration_sample_valid := False,
       ct_previous_minute_valid := False, ct_minute_terminal_mv := [],
       ct_minute_compensated_mv := [], ct_minute_current_sum_ua := 0,
       ct_minute_temperature_sum_mdegc := 0\<rparr>"

definition battery_charge_supervisor_init :: "charge_policy \<Rightarrow> charge_state" where
  "battery_charge_supervisor_init policy = state_zero\<lparr>ct_snapshot := detached_snapshot policy 0\<rparr>"

text \<open>The frozen evidence of an admission, in the three steps of \<open>freeze_admission\<close>.\<close>

definition freeze_identity ::
    "charge_state \<Rightarrow> charge_profile \<Rightarrow> charge_observation \<Rightarrow> charge_snapshot \<Rightarrow> charge_snapshot" where
  "freeze_identity st p ob s =
     (let a = co_admission ob in
      s\<lparr>cs_phase := BATTERY_CHARGE_PHASE_CHARGING, cs_admitted := True,
        cs_session_authoritative := ct_generation_authoritative st \<and> co_authoritative ob,
        cs_pack_generation := ca_pack_generation a, cs_gauge_session := co_gauge_session ob,
        cs_hardware_profile_id := co_hardware_profile_id ob, cs_chemistry := co_chemistry ob,
        cs_start_acr_raw := co_acr_raw ob, cs_start_session_delta_nah := co_session_delta_nah ob,
        cs_frozen_capacity_valid := ca_capacity_valid a, cs_frozen_capacity_mah := ca_capacity_mah a,
        cs_frozen_capacity_confidence := ca_capacity_confidence a,
        cs_frozen_remaining_valid := ca_remaining_valid a,
        cs_frozen_remaining_mah := ca_remaining_mah a, cs_frozen_remaining_nah := ca_remaining_nah a,
        cs_frozen_soc_provenance := ca_soc_provenance a,
        cs_frozen_soc_confidence := ca_soc_confidence a,
        cs_frozen_resistance_valid := ca_resistance_valid a,
        cs_frozen_resistance_mohm := ca_resistance_mohm a,
        cs_charge_factor_permille := (if ca_charge_factor_permille a \<noteq> 0
          then ca_charge_factor_permille a else cp_charge_factor_prior_permille p),
        cs_charge_factor_confident := ca_charge_factor_confident a\<rparr>)"

definition capacity_nah :: "charge_snapshot \<Rightarrow> u64" where
  "capacity_nah s = ucast (cs_frozen_capacity_mah s) * NANOAMP_HOURS_PER_MILLIAMP_HOUR"

definition freeze_deficit :: "charge_snapshot \<Rightarrow> charge_snapshot" where
  "freeze_deficit s =
     (if cs_frozen_capacity_valid s \<and> cs_frozen_remaining_valid s \<and>
         cs_frozen_remaining_nah s \<le> capacity_nah s
      then (let d = capacity_nah s - cs_frozen_remaining_nah s
            in s\<lparr>cs_deficit_nah := d, cs_deficit_mah := rounded_nah_to_mah d, cs_deficit_valid := True\<rparr>)
      else if cs_frozen_capacity_valid s
      then s\<lparr>cs_deficit_mah := cs_frozen_capacity_mah s, cs_deficit_nah := capacity_nah s,
             cs_deficit_valid := True\<rparr>
      else s)"

definition freeze_target :: "charge_profile \<Rightarrow> charge_snapshot \<Rightarrow> charge_snapshot" where
  "freeze_target p s =
     (let s1 = (if cs_deficit_valid s
           then (let s0 = s\<lparr>cs_target_input_nah := scaled_nah (cs_deficit_nah s) (cs_charge_factor_permille s),
                          cs_target_valid := True\<rparr>
                 in s0\<lparr>cs_target_full_capacity := target_uses_full_capacity s0\<rparr>)
           else s)
      in if cs_frozen_capacity_valid s1
         then s1\<lparr>cs_safety_input_nah := scaled_nah (capacity_nah s1) (cp_safety_input_factor_permille p)\<rparr>
         else s1)"

definition freeze_admission ::
    "charge_profile \<Rightarrow> charge_observation \<Rightarrow> charge_state \<Rightarrow> charge_state" where
  "freeze_admission p ob st =
     reset_minute_window (co_now_ms ob)
       ((upd_snap (freeze_target p \<circ> freeze_deficit \<circ> freeze_identity st p ob) st)
          \<lparr>ct_admitted_at_ms := co_now_ms ob, ct_had_active := True, ct_stop_control_seen := False,
           ct_integration_sample_valid := False\<rparr>)"

definition mark_degraded :: "charge_terminal \<Rightarrow> charge_state \<Rightarrow> charge_state" where
  "mark_degraded reason st =
     (upd_snap (\<lambda>s. s\<lparr>cs_phase := BATTERY_CHARGE_PHASE_DEGRADED, cs_terminal_reason := reason,
                      cs_session_authoritative := False, cs_full_qualified := False\<rparr>) st)
       \<lparr>ct_full_pending := False\<rparr>"

section \<open>Samples and minutes\<close>

definition sample_delta_nah :: "int \<Rightarrow> u32 \<Rightarrow> u64" where
  "sample_delta_nah current elapsed = of_int \<bar>current\<bar> * ucast elapsed div 3600"

definition integrate_distinct_sample :: "charge_observation \<Rightarrow> charge_state \<Rightarrow> charge_state" where
  "integrate_distinct_sample ob st =
     (if \<not> cs_admitted (ct_snapshot st) \<or> \<not> co_sample_valid ob \<or> \<not> co_current_valid ob \<or>
         \<not> co_continuity_valid ob
      then st\<lparr>ct_integration_sample_valid := False\<rparr>
      else
        (let elapsed = co_now_ms ob - ct_last_sample_ms st;
             d = sample_delta_nah (ct_last_current_ua st) elapsed;
             st1 = (if \<not> ct_integration_sample_valid st then st
                    else if SAMPLE_GAP_MAX_MS < elapsed then reset_minute_window (co_now_ms ob) st
                    else if 0 \<le> ct_last_current_ua st
                    then upd_snap (\<lambda>s. s\<lparr>cs_positive_crosscheck_nah :=
                           saturating_add_u64 (cs_positive_crosscheck_nah s) d\<rparr>) st
                    else upd_snap (\<lambda>s. s\<lparr>cs_negative_crosscheck_nah :=
                           saturating_add_u64 (cs_negative_crosscheck_nah s) d\<rparr>) st)
         in st1\<lparr>ct_last_sample_ms := co_now_ms ob, ct_last_current_ua := co_current_ua ob,
                ct_integration_sample_valid := True\<rparr>))"

definition minute_of :: "charge_observation \<Rightarrow> charge_state \<Rightarrow> charge_minute" where
  "minute_of ob st =
     (let n = length (ct_minute_terminal_mv st) in
      \<lparr>mi_at_ms = co_now_ms ob, mi_elapsed_ms = co_now_ms ob - ct_admitted_at_ms st,
       mi_terminal_median_mv = median_u16 (ct_minute_terminal_mv st),
       mi_compensated_median_mv = median_u16 (ct_minute_compensated_mv st),
       mi_current_average_ua = trunc_div (ct_minute_current_sum_ua st) n,
       mi_temperature_average_mdegc = trunc_div (ct_minute_temperature_sum_mdegc st) n,
       mi_net_input_nah = cs_net_input_nah (ct_snapshot st)\<rparr>)"

definition curve_after_minute :: "charge_minute \<Rightarrow> charge_state \<Rightarrow> charge_snapshot \<Rightarrow> charge_snapshot" where
  "curve_after_minute mi st s =
     (let c = mi_compensated_median_mv mi;
          s1 = s\<lparr>cs_latest_minute := mi, cs_minute_count := next_nonzero_u32 (cs_minute_count s)\<rparr>;
          s2 = (if \<not> ct_previous_minute_valid st \<or> cs_curve_peak_mv s1 < c
                then s1\<lparr>cs_curve_peak_mv := c\<rparr> else s1);
          s3 = s2\<lparr>cs_curve_drop_mv := (if c \<le> cs_curve_peak_mv s2 then cs_curve_peak_mv s2 - c else 0)\<rparr>;
          slope = uint c - uint (ct_previous_minute_compensated_mv st)
      in if ct_previous_minute_valid st
         then s3\<lparr>cs_curve_slope_mv_per_min := max (- 32768) (min 32767 slope), cs_curve_valid := True\<rparr>
         else s3)"

definition close_minute :: "charge_observation \<Rightarrow> charge_state \<Rightarrow> charge_state" where
  "close_minute ob st =
     (let mi = minute_of ob st
      in reset_minute_window (co_now_ms ob)
           ((upd_snap (curve_after_minute mi st) st)
              \<lparr>ct_previous_minute_compensated_mv := mi_compensated_median_mv mi,
               ct_previous_minute_valid := True\<rparr>))"

definition store_minute_sample :: "charge_observation \<Rightarrow> charge_state \<Rightarrow> charge_state" where
  "store_minute_sample ob st =
     (if length (ct_minute_terminal_mv st) < CHARGE_MINUTE_SAMPLE_CAP
      then st\<lparr>ct_minute_terminal_mv := ct_minute_terminal_mv st @ [co_terminal_mv ob],
              ct_minute_compensated_mv := ct_minute_compensated_mv st @ [cs_compensated_mv (ct_snapshot st)],
              ct_minute_current_sum_ua := ct_minute_current_sum_ua st + co_current_ua ob,
              ct_minute_temperature_sum_mdegc := ct_minute_temperature_sum_mdegc st + co_temperature_mdegc ob\<rparr>
      else st)"

definition observe_minute :: "charge_observation \<Rightarrow> charge_state \<Rightarrow> charge_state \<times> u32" where
  "observe_minute ob st =
     (if \<not> cs_admitted (ct_snapshot st) \<or> \<not> co_sample_valid ob \<or> \<not> co_current_valid ob \<or>
         \<not> co_continuity_valid ob then (st, 0)
      else
        (let due = (CHARGE_TRACE_INTERVAL_MS \<le> co_now_ms ob - ct_minute_started_ms st \<and>
                    ct_minute_terminal_mv st \<noteq> [])
         in (store_minute_sample ob (if due then close_minute ob st else st),
             when_bit due CHARGE_RESULT_MINUTE)))"

section \<open>The stages of an update\<close>

type_synonym charge_step = "charge_state \<times> u32"

text \<open>The charger is gone.\<close>

definition supervise_detach :: "charge_observation \<Rightarrow> charge_state \<Rightarrow> charge_step" where
  "supervise_detach ob st =
     (if ct_physically_attached st
      then (reset_session_fields
              (st\<lparr>ct_physically_attached := False, ct_detach_generation_reusable := True,
                  ct_detached_at_ms := co_now_ms ob\<rparr>),
            CHARGE_RESULT_DETACHED OR CHARGE_RESULT_TERMINAL)
      else (st, 0))"

text \<open>A new attachment; within half a second of a detach it is a bounce and keeps the generation.\<close>

definition attach_generation :: "charge_observation \<Rightarrow> charge_state \<Rightarrow> u32" where
  "attach_generation ob st =
     (let g = cs_charge_generation (ct_snapshot st)
      in if ct_detach_generation_reusable st \<and>
            co_now_ms ob - ct_detached_at_ms st \<le> ATTACH_BOUNCE_REUSE_MS
         then g else next_nonzero_u32 g)"

definition supervise_attach :: "charge_observation \<Rightarrow> charge_state \<Rightarrow> charge_step" where
  "supervise_attach ob st =
     (if ct_physically_attached st then (st, 0)
      else
        ((upd_snap (\<lambda>s. s\<lparr>cs_charge_generation := attach_generation ob st,
             cs_phase := BATTERY_CHARGE_PHASE_QUALIFYING,
             cs_terminal_reason := BATTERY_CHARGE_TERMINAL_NONE, cs_attached := True,
             cs_chemistry := co_chemistry ob, cs_hardware_profile_id := co_hardware_profile_id ob,
             cs_session_authoritative := co_authoritative ob\<rparr>) st)
           \<lparr>ct_detach_generation_reusable := False, ct_physically_attached := True,
            ct_attached_at_ms := co_now_ms ob,
            ct_generation_authoritative := co_authoritative ob \<and> co_inhibit_owner_mask ob = 0 \<and>
              (\<not> co_enable_valid ob \<or> (co_enable_requested ob \<and> co_enable_readback ob)),
            ct_full_pending := False\<rparr>,
         CHARGE_RESULT_ATTACHED))"

definition session_live :: "charge_state \<Rightarrow> bool" where
  "session_live st \<longleftrightarrow>
     cs_phase (ct_snapshot st) \<in> {BATTERY_CHARGE_PHASE_QUALIFYING, BATTERY_CHARGE_PHASE_CHARGING,
       BATTERY_CHARGE_PHASE_STOPPING}"

definition control_revoked :: "charge_observation \<Rightarrow> bool" where
  "control_revoked ob \<longleftrightarrow>
     co_enable_valid ob \<and> (\<not> co_enable_requested ob \<or> \<not> co_enable_readback ob)"

definition supervise_view :: "bool \<Rightarrow> charge_observation \<Rightarrow> charge_state \<Rightarrow> charge_state" where
  "supervise_view live ob st =
     (let st0 = upd_snap (\<lambda>s. s\<lparr>cs_attached := True\<rparr>) st in
      if \<not> live then st0
      else
        (let st1 = upd_snap (\<lambda>s. s\<lparr>cs_terminal_mv := co_terminal_mv ob, cs_current_ua := co_current_ua ob,
                cs_temperature_mdegc := co_temperature_mdegc ob,
                cs_elapsed_ms := (if cs_admitted s then co_now_ms ob - ct_admitted_at_ms st
                                  else co_now_ms ob - ct_attached_at_ms st)\<rparr>) st0
         in if \<not> co_authoritative ob \<or>
               (\<not> expected_stop_control st1 ob \<and> (co_inhibit_owner_mask ob \<noteq> 0 \<or> control_revoked ob))
            then (upd_snap (\<lambda>s. s\<lparr>cs_session_authoritative := False\<rparr>) st1)
                   \<lparr>ct_generation_authoritative := False\<rparr>
            else st1))"

definition distinct_sample :: "bool \<Rightarrow> charge_observation \<Rightarrow> charge_state \<Rightarrow> bool" where
  "distinct_sample live ob st \<longleftrightarrow>
     live \<and> (\<not> ct_sample_seen st \<or> ct_last_sample_sequence st \<noteq> co_sample_sequence ob)"

definition supervise_input :: "bool \<Rightarrow> charge_observation \<Rightarrow> charge_state \<Rightarrow> charge_state" where
  "supervise_input live ob st =
     (let st1 = (if distinct_sample live ob st
                 then st\<lparr>ct_sample_seen := True, ct_last_sample_sequence := co_sample_sequence ob\<rparr>
                 else st)
      in if live \<and> cs_admitted (ct_snapshot st1) \<and> co_sample_valid ob \<and> co_continuity_valid ob
         then upd_snap (\<lambda>s. s\<lparr>cs_net_input_nah :=
                saturating_sub_i64 (co_session_delta_nah ob) (cs_start_session_delta_nah s)\<rparr>) st1
         else st1)"

definition charging :: "charge_state \<Rightarrow> bool" where
  "charging st \<longleftrightarrow> cs_phase (ct_snapshot st) = BATTERY_CHARGE_PHASE_CHARGING"

definition degrade :: "charge_terminal \<Rightarrow> charge_state \<Rightarrow> charge_step" where
  "degrade reason st = (mark_degraded reason st, CHARGE_RESULT_DEGRADED OR CHARGE_RESULT_TERMINAL)"

definition supervise_fault :: "bool \<Rightarrow> charge_observation \<Rightarrow> charge_state \<Rightarrow> charge_step" where
  "supervise_fault live ob st =
     (if live \<and> co_status_valid ob \<and> co_charger_state ob = BATTERY_CHARGER_FAULT then
        (if coulomb_full_evidence st ob
         then ((upd_snap (\<lambda>s. s\<lparr>cs_phase := BATTERY_CHARGE_PHASE_COMPLETE_BQ,
                  cs_terminal_reason := BATTERY_CHARGE_TERMINAL_BQ_FAULT_AFTER_COULOMB_FULL,
                  cs_candidate := BATTERY_CHARGE_CANDIDATE_SOFTWARE_COULOMB_FULL,
                  cs_full_candidate := True, cs_full_qualified := True\<rparr>) st)\<lparr>ct_full_pending := False\<rparr>,
               CHARGE_RESULT_FULL_QUALIFIED OR CHARGE_RESULT_TERMINAL)
         else ((upd_snap (\<lambda>s. s\<lparr>cs_phase := BATTERY_CHARGE_PHASE_FAULT,
                  cs_terminal_reason := BATTERY_CHARGE_TERMINAL_BQ_FAULT,
                  cs_full_qualified := False\<rparr>) st)\<lparr>ct_full_pending := False\<rparr>,
               CHARGE_RESULT_TERMINAL))
      else if charging st \<and>
              (\<not> co_continuity_valid ob \<or> co_gauge_session ob \<noteq> cs_gauge_session (ct_snapshot st) \<or>
               \<not> ca_source_current (co_admission ob) \<or>
               ca_pack_generation (co_admission ob) \<noteq> cs_pack_generation (ct_snapshot st))
      then degrade BATTERY_CHARGE_TERMINAL_GAUGE_CONTINUITY_LOST st
      else if charging st \<and> co_sample_valid ob \<and> \<not> co_current_valid ob
      then degrade BATTERY_CHARGE_TERMINAL_GAUGE_CONTINUITY_LOST st
      else if charging st \<and> \<not> co_authoritative ob
      then degrade BATTERY_CHARGE_TERMINAL_MANUAL_DEBUG_STOP st
      else if charging st \<and> control_revoked ob
      then degrade BATTERY_CHARGE_TERMINAL_MANUAL_DEBUG_STOP st
      else (st, 0))"

definition admissible :: "charge_profile \<Rightarrow> charge_observation \<Rightarrow> charge_state \<Rightarrow> bool" where
  "admissible p ob st \<longleftrightarrow>
     cs_phase (ct_snapshot st) = BATTERY_CHARGE_PHASE_QUALIFYING \<and> co_status_valid ob \<and>
     co_charger_state ob = BATTERY_CHARGER_ACTIVE \<and> co_sample_valid ob \<and> co_current_valid ob \<and>
     co_continuity_valid ob \<and> co_authoritative ob \<and> enable_confirmed ob \<and>
     ca_source_current (co_admission ob) \<and> co_chemistry ob = cp_chemistry p \<and>
     co_hardware_profile_id ob = cp_hardware_profile_id p \<and>
     uint (cp_admission_current_min_ma p) * 1000 \<le> co_current_ua ob"

definition supervise_admit :: "charge_profile \<Rightarrow> charge_observation \<Rightarrow> charge_state \<Rightarrow> charge_step" where
  "supervise_admit p ob st =
     (if admissible p ob st then (freeze_admission p ob st, CHARGE_RESULT_ADMITTED) else (st, 0))"

definition supervise_samples ::
    "bool \<Rightarrow> bool \<Rightarrow> charge_observation \<Rightarrow> charge_state \<Rightarrow> charge_step" where
  "supervise_samples live fresh ob st =
     (let st1 = (if live then upd_snap (\<lambda>s. s\<lparr>cs_compensated_mv := compensated_voltage_mv ob s\<rparr>) st else st)
      in if fresh then observe_minute ob (integrate_distinct_sample ob st1) else (st1, 0))"

definition awaiting_completion :: "charge_state \<Rightarrow> bool" where
  "awaiting_completion st \<longleftrightarrow>
     cs_phase (ct_snapshot st) = BATTERY_CHARGE_PHASE_CHARGING \<or>
     cs_phase (ct_snapshot st) = BATTERY_CHARGE_PHASE_QUALIFYING"

definition complete_bq :: "charge_observation \<Rightarrow> charge_state \<Rightarrow> charge_step" where
  "complete_bq ob st =
     (let st1 = upd_snap (\<lambda>s. s\<lparr>cs_phase := BATTERY_CHARGE_PHASE_COMPLETE_BQ,
            cs_terminal_reason := (if ct_had_active st
              then BATTERY_CHARGE_TERMINAL_BQ_COMPLETE_AFTER_ACTIVE
              else BATTERY_CHARGE_TERMINAL_BQ_ALREADY_FULL_AT_ATTACH)\<rparr>) st;
          full = coulomb_full_evidence st1 ob
      in ((upd_snap (\<lambda>s. s\<lparr>cs_full_qualified := full\<rparr>) st1)\<lparr>ct_full_pending := False\<rparr>,
          CHARGE_RESULT_BQ_COMPLETE OR CHARGE_RESULT_TERMINAL OR when_bit full CHARGE_RESULT_FULL_QUALIFIED))"

definition supervise_completion :: "charge_profile \<Rightarrow> charge_observation \<Rightarrow> charge_state \<Rightarrow> charge_step" where
  "supervise_completion p ob st =
     (if \<not> awaiting_completion st then (st, 0)
      else if co_status_valid ob \<and> co_charger_state ob = BATTERY_CHARGER_FULL \<and> enable_confirmed ob then
        (let st1 = upd_snap (\<lambda>s. s\<lparr>cs_candidate := BATTERY_CHARGE_CANDIDATE_BQ_COMPLETE,
                                cs_full_candidate := True\<rparr>) st
         in if \<not> ct_full_pending st1
            then (st1\<lparr>ct_full_pending := True, ct_full_since_ms := co_now_ms ob\<rparr>, 0)
            else if cp_completion_confirm_ms p \<le> co_now_ms ob - ct_full_since_ms st1
            then complete_bq ob st1
            else (st1, 0))
      else
        ((upd_snap (\<lambda>s. s\<lparr>cs_full_candidate := False,
             cs_candidate := (if cs_candidate s = BATTERY_CHARGE_CANDIDATE_BQ_COMPLETE
                              then BATTERY_CHARGE_CANDIDATE_NONE else cs_candidate s)\<rparr>) st)
           \<lparr>ct_full_pending := False\<rparr>, 0))"

definition supervise_blockers :: "charge_profile \<Rightarrow> charge_observation \<Rightarrow> charge_state \<Rightarrow> charge_state" where
  "supervise_blockers p ob st =
     upd_snap (\<lambda>s. s\<lparr>cs_blockers := blockers_for_observation st p ob\<rparr>) st"

definition request_stop :: "charge_terminal \<Rightarrow> charge_state \<Rightarrow> charge_step" where
  "request_stop reason st =
     ((upd_snap (\<lambda>s. s\<lparr>cs_phase := BATTERY_CHARGE_PHASE_STOPPING, cs_stop_requested := True,
          cs_stop_reason := reason\<rparr>) st)\<lparr>ct_stop_control_seen := False\<rparr>,
      CHARGE_RESULT_STOP_REQUESTED)"

abbreviation "SAFETY_IGNORED \<equiv>
  CHARGE_BLOCK_UNKNOWN_DEFICIT OR CHARGE_BLOCK_CAPACITY_CONFIDENCE OR CHARGE_BLOCK_FACTOR_UNLEARNED OR
  CHARGE_BLOCK_CURVE_UNCALIBRATED OR CHARGE_BLOCK_SOC_CONFIDENCE"

definition safety_authorized :: "charge_snapshot \<Rightarrow> bool" where
  "safety_authorized s \<longleftrightarrow>
     cs_policy s \<noteq> BATTERY_CHARGE_POLICY_OBSERVE \<and> cs_safety_input_nah s \<noteq> 0 \<and>
     cs_safety_input_nah s \<le> of_int (cs_net_input_nah s) \<and> cs_blockers s AND NOT SAFETY_IGNORED = 0"

definition note_target :: "charge_state \<Rightarrow> charge_state" where
  "note_target st =
     (if cs_target_valid (ct_snapshot st) \<and>
         cs_target_input_nah (ct_snapshot st) \<le> of_int (cs_net_input_nah (ct_snapshot st))
      then upd_snap (\<lambda>s. s\<lparr>cs_candidate := BATTERY_CHARGE_CANDIDATE_SOFTWARE_COULOMB_FULL\<rparr>) st
      else st)"

definition decide_stop :: "charge_state \<Rightarrow> charge_step" where
  "decide_stop st =
     (if cs_candidate (ct_snapshot st) = BATTERY_CHARGE_CANDIDATE_SOFTWARE_COULOMB_FULL \<and>
         cs_blockers (ct_snapshot st) = 0
      then request_stop BATTERY_CHARGE_TERMINAL_SOFTWARE_COULOMB_FULL st
      else if safety_authorized (ct_snapshot st)
      then request_stop BATTERY_CHARGE_TERMINAL_SAFETY_CHARGE_LIMIT st
      else (st, 0))"

definition supervise_stop :: "charge_state \<Rightarrow> charge_step" where
  "supervise_stop st =
     (if cs_phase (ct_snapshot st) = BATTERY_CHARGE_PHASE_CHARGING \<and>
         \<not> cs_full_candidate (ct_snapshot st) \<and> 0 \<le> cs_net_input_nah (ct_snapshot st)
      then decide_stop (note_target st) else (st, 0))"

definition confirm_stopped :: "charge_state \<Rightarrow> charge_step" where
  "confirm_stopped st =
     (let s = ct_snapshot st;
          full = (cs_stop_reason s = BATTERY_CHARGE_TERMINAL_SOFTWARE_COULOMB_FULL)
      in (upd_snap (\<lambda>s. s\<lparr>cs_phase := (if full then BATTERY_CHARGE_PHASE_COMPLETE_SOFTWARE
                                      else BATTERY_CHARGE_PHASE_STOPPED_SAFETY),
             cs_terminal_reason := cs_stop_reason s,
             cs_full_qualified := (full \<and> cs_session_authoritative s)\<rparr>) st,
          CHARGE_RESULT_SOFTWARE_STOPPED OR CHARGE_RESULT_TERMINAL OR
          when_bit (full \<and> cs_session_authoritative s) CHARGE_RESULT_FULL_QUALIFIED))"

definition supervise_stopping :: "charge_profile \<Rightarrow> charge_observation \<Rightarrow> charge_state \<Rightarrow> charge_step" where
  "supervise_stopping p ob st =
     (if cs_phase (ct_snapshot st) = BATTERY_CHARGE_PHASE_STOPPING \<and> co_supervisor_inhibit_active ob then
        (let st1 = (if ct_stop_control_seen st then st
                    else st\<lparr>ct_stop_control_seen := True, ct_stop_requested_ms := co_now_ms ob\<rparr>)
         in if co_enable_valid ob \<and> \<not> co_enable_requested ob \<and> \<not> co_enable_readback ob
            then confirm_stopped st1
            else if cp_control_confirm_ms p \<le> co_now_ms ob - ct_stop_requested_ms st1
            then (upd_snap (\<lambda>s. s\<lparr>cs_phase := BATTERY_CHARGE_PHASE_FAULT,
                     cs_terminal_reason := BATTERY_CHARGE_TERMINAL_CONTROL_READBACK_FAILED,
                     cs_full_qualified := False\<rparr>) st1, CHARGE_RESULT_TERMINAL)
            else (st1, 0))
      else (st, 0))"

text \<open>One stage after another, the result bits collected.\<close>

definition then_step :: "charge_step \<Rightarrow> (charge_state \<Rightarrow> charge_step) \<Rightarrow> charge_step" where
  "then_step a f = (let (st, r) = a; (st1, r1) = f st in (st1, r OR r1))"

definition supervise_attached :: "charge_profile \<Rightarrow> charge_observation \<Rightarrow> charge_state \<Rightarrow> charge_step" where
  "supervise_attached p ob st =
     (let live = session_live st;
          st1 = supervise_view live ob st;
          fresh = distinct_sample live ob st1;
          a1 = supervise_fault live ob (supervise_input live ob st1);
          a2 = then_step a1 (supervise_admit p ob);
          a3 = then_step a2 (supervise_samples live fresh ob);
          a4 = then_step a3 (supervise_completion p ob);
          a5 = then_step a4 (\<lambda>st. supervise_stop (supervise_blockers p ob st))
      in then_step a5 (supervise_stopping p ob))"

definition battery_charge_supervisor_update ::
    "charge_profile option \<Rightarrow> charge_observation \<Rightarrow> charge_state \<Rightarrow> charge_step" where
  "battery_charge_supervisor_update profile ob st =
     (if \<not> co_charger_present ob then supervise_detach ob st
      else then_step (supervise_attach ob st)
             (supervise_attached (case profile of None \<Rightarrow> REVB2_PROFILE | Some p \<Rightarrow> p) ob))"

definition battery_charge_supervisor_seed_generation :: "u32 \<Rightarrow> charge_state \<Rightarrow> charge_state" where
  "battery_charge_supervisor_seed_generation g st =
     (if \<not> ct_physically_attached st \<and> cs_phase (ct_snapshot st) = BATTERY_CHARGE_PHASE_DETACHED
      then upd_snap (\<lambda>s. s\<lparr>cs_charge_generation := g\<rparr>) st else st)"

end
