(* ===== verification/Charge_Restore.thy ===== *)
theory Charge_Restore
  imports Charge_Supervisor
begin

text \<open>
  The rest of \<open>services/battery_charge_supervisor_logic.c\<close>: what a persisted session has to satisfy,
  the warm restore of an active session and its rejection, and the two-state completion debounce of
  \<open>services/battery_charge_logic.c\<close>.  NULL pointers are \<open>None\<close> where the code tests for them and
  answers something; the tests of enum ranges hold by typing.
\<close>

section \<open>Queries\<close>

definition battery_charge_supervisor_get_snapshot :: "charge_state option \<Rightarrow> charge_snapshot" where
  "battery_charge_supervisor_get_snapshot state =
     (case state of None \<Rightarrow> snapshot_zero | Some st \<Rightarrow> ct_snapshot st)"

definition battery_charge_supervisor_persisted_defaults :: charge_persisted where
  "battery_charge_supervisor_persisted_defaults = persisted_zero"

section \<open>Persisted records\<close>

definition factor_in_range :: "u16 \<Rightarrow> bool" where
  "factor_in_range f \<longleftrightarrow> CHARGE_FACTOR_MIN_PERMILLE \<le> f \<and> f \<le> CHARGE_FACTOR_MAX_PERMILLE"

definition persisted_factor_valid :: "charge_persisted \<Rightarrow> bool" where
  "persisted_factor_valid p \<longleftrightarrow>
     \<not> ((pe_configured_charge_factor_confident p \<and>
          \<not> factor_in_range (pe_configured_charge_factor_permille p)) \<or>
        (\<not> pe_configured_charge_factor_confident p \<and>
          pe_configured_charge_factor_permille p \<noteq> 0 \<and>
          \<not> factor_in_range (pe_configured_charge_factor_permille p)))"

definition persisted_latch_valid :: "charge_persisted \<Rightarrow> bool" where
  "persisted_latch_valid p \<longleftrightarrow>
     (if pe_maintenance_rearm_pending p then
        pe_inhibit_latched p \<and>
        pe_latched_stop_reason p = BATTERY_CHARGE_TERMINAL_MAINTENANCE_REARM \<and>
        \<not> pe_active_session_valid p \<and> pe_last_terminal_valid p \<and> pe_completion_rearm_used p
      else if pe_inhibit_latched p then
        (pe_latched_stop_reason p = BATTERY_CHARGE_TERMINAL_SOFTWARE_COULOMB_FULL \<or>
         pe_latched_stop_reason p = BATTERY_CHARGE_TERMINAL_SAFETY_CHARGE_LIMIT) \<and>
        pe_active_session_valid p
      else pe_latched_stop_reason p = BATTERY_CHARGE_TERMINAL_NONE)"

definition persisted_capacity_nah :: "charge_persisted \<Rightarrow> u64" where
  "persisted_capacity_nah p = ucast (pe_frozen_capacity_mah p) * NANOAMP_HOURS_PER_MILLIAMP_HOUR"

definition persisted_remaining_bad :: "charge_persisted \<Rightarrow> bool" where
  "persisted_remaining_bad p \<longleftrightarrow>
     pe_frozen_remaining_valid p \<and>
     (\<not> pe_frozen_capacity_valid p \<or> persisted_capacity_nah p < pe_frozen_remaining_nah p \<or>
      pe_frozen_soc_provenance p = BATTERY_SOC_PROVENANCE_UNKNOWN \<or>
      pe_frozen_soc_confidence p = BATTERY_SOC_CONFIDENCE_NONE \<or>
      pe_frozen_remaining_mah p \<noteq> rounded_nah_to_mah (pe_frozen_remaining_nah p))"

definition persisted_deficit_bad :: "charge_persisted \<Rightarrow> bool" where
  "persisted_deficit_bad p \<longleftrightarrow>
     (pe_deficit_valid p \<and>
       (persisted_capacity_nah p < pe_deficit_nah p \<or>
        pe_deficit_mah p \<noteq> rounded_nah_to_mah (pe_deficit_nah p))) \<or>
     (pe_frozen_remaining_valid p \<and> pe_deficit_valid p \<and>
        pe_deficit_nah p \<noteq> persisted_capacity_nah p - pe_frozen_remaining_nah p)"

definition persisted_session_valid :: "charge_persisted \<Rightarrow> bool" where
  "persisted_session_valid p \<longleftrightarrow>
     \<not> (pe_charge_generation p = 0 \<or> pe_hardware_profile_id p = 0 \<or>
        pe_chemistry p = BATTERY_CHARGE_CHEMISTRY_UNKNOWN \<or>
        (pe_target_valid p \<and> \<not> pe_deficit_valid p) \<or>
        (pe_frozen_capacity_valid p \<and> pe_frozen_capacity_mah p = 0) \<or>
        persisted_remaining_bad p \<or>
        (pe_frozen_resistance_valid p \<and> pe_frozen_resistance_mohm p = 0) \<or>
        persisted_deficit_bad p \<or>
        \<not> factor_in_range (pe_charge_factor_permille p) \<or>
        (pe_target_valid p \<and>
           pe_target_input_nah p \<noteq> scaled_nah (pe_deficit_nah p) (pe_charge_factor_permille p)) \<or>
        (pe_frozen_capacity_valid p \<and> pe_safety_input_nah p = 0))"

definition persisted_terminal_valid :: "charge_persisted \<Rightarrow> bool" where
  "persisted_terminal_valid p \<longleftrightarrow>
     \<not> (pe_last_terminal_valid p \<and>
        (pe_hardware_profile_id p = 0 \<or> pe_chemistry p = BATTERY_CHARGE_CHEMISTRY_UNKNOWN \<or>
         pe_last_terminal_reason p = BATTERY_CHARGE_TERMINAL_NONE \<or>
         pe_last_terminal_generation p = 0)) \<and>
     \<not> (\<not> pe_last_terminal_valid p \<and>
        (pe_last_terminal_net_input_valid p \<or> pe_last_terminal_voltage_valid p \<or>
         pe_last_terminal_trace_complete p \<or> pe_last_terminal_full_qualified p \<or>
         pe_completion_rearm_used p)) \<and>
     \<not> (pe_last_terminal_full_qualified p \<and> \<not> terminal_qualifies_full (pe_last_terminal_reason p))"

definition battery_charge_supervisor_persisted_valid :: "charge_persisted option \<Rightarrow> bool" where
  "battery_charge_supervisor_persisted_valid persisted =
     (case persisted of None \<Rightarrow> False
      | Some p \<Rightarrow> persisted_factor_valid p \<and> persisted_latch_valid p \<and>
          (pe_active_session_valid p \<longrightarrow> persisted_session_valid p) \<and> persisted_terminal_valid p)"

section \<open>Warm restore\<close>

definition restore_control_matches :: "charge_persisted \<Rightarrow> charge_observation \<Rightarrow> bool" where
  "restore_control_matches p ob =
     (if pe_inhibit_latched p
      then co_supervisor_inhibit_active ob \<and> \<not> co_enable_requested ob \<and> \<not> co_enable_readback ob
      else co_inhibit_owner_mask ob = 0 \<and> co_enable_requested ob \<and> co_enable_readback ob)"

definition restore_matches :: "charge_profile \<Rightarrow> charge_persisted \<Rightarrow> charge_observation \<Rightarrow> bool" where
  "restore_matches profile p ob \<longleftrightarrow>
     \<not> (\<not> co_charger_present ob \<or> \<not> co_status_valid ob \<or>
        \<not> (pe_inhibit_latched p \<or> co_charger_state ob = BATTERY_CHARGER_ACTIVE \<or>
           co_charger_state ob = BATTERY_CHARGER_FULL) \<or>
        \<not> co_sample_valid ob \<or> \<not> co_current_valid ob \<or> \<not> co_continuity_valid ob \<or>
        \<not> co_authoritative ob \<or> \<not> co_enable_valid ob \<or> \<not> restore_control_matches p ob \<or>
        co_chemistry ob \<noteq> pe_chemistry p \<or> co_chemistry ob \<noteq> cp_chemistry profile \<or>
        co_hardware_profile_id ob \<noteq> pe_hardware_profile_id p \<or>
        co_hardware_profile_id ob \<noteq> cp_hardware_profile_id profile \<or>
        co_gauge_session ob \<noteq> pe_gauge_session p \<or>
        \<not> ca_source_current (co_admission ob) \<or>
        ca_pack_generation (co_admission ob) \<noteq> pe_pack_generation p \<or>
        (pe_frozen_capacity_valid p \<and>
           pe_safety_input_nah p \<noteq>
             scaled_nah (persisted_capacity_nah p) (cp_safety_input_factor_permille profile)))"

definition terminal_stop_persisted :: "charge_persisted \<Rightarrow> bool" where
  "terminal_stop_persisted p \<longleftrightarrow>
     pe_inhibit_latched p \<and> pe_last_terminal_valid p \<and>
     pe_last_terminal_generation p = pe_charge_generation p \<and>
     pe_last_terminal_reason p = pe_latched_stop_reason p"

definition latched_full :: "charge_persisted \<Rightarrow> bool" where
  "latched_full p \<longleftrightarrow> pe_latched_stop_reason p = BATTERY_CHARGE_TERMINAL_SOFTWARE_COULOMB_FULL"

definition restored_phase :: "charge_persisted \<Rightarrow> charge_phase" where
  "restored_phase p =
     (if terminal_stop_persisted p
      then (if latched_full p then BATTERY_CHARGE_PHASE_COMPLETE_SOFTWARE
            else BATTERY_CHARGE_PHASE_STOPPED_SAFETY)
      else if pe_inhibit_latched p then BATTERY_CHARGE_PHASE_STOPPING
      else BATTERY_CHARGE_PHASE_CHARGING)"

definition restore_session ::
    "charge_persisted \<Rightarrow> charge_observation \<Rightarrow> charge_snapshot \<Rightarrow> charge_snapshot" where
  "restore_session p ob s =
     s\<lparr>cs_phase := restored_phase p,
       cs_terminal_reason := (if terminal_stop_persisted p then pe_latched_stop_reason p
                              else BATTERY_CHARGE_TERMINAL_NONE),
       cs_charge_generation := pe_charge_generation p, cs_pack_generation := pe_pack_generation p,
       cs_gauge_session := pe_gauge_session p, cs_hardware_profile_id := pe_hardware_profile_id p,
       cs_chemistry := pe_chemistry p, cs_attached := True, cs_admitted := True,
       cs_session_authoritative := True, cs_start_acr_raw := pe_start_acr_raw p,
       cs_start_session_delta_nah := pe_start_session_delta_nah p,
       cs_net_input_nah := saturating_sub_i64 (co_session_delta_nah ob) (pe_start_session_delta_nah p)\<rparr>"

definition restore_frozen :: "charge_persisted \<Rightarrow> charge_snapshot \<Rightarrow> charge_snapshot" where
  "restore_frozen p s =
     (let s1 = s\<lparr>cs_frozen_capacity_valid := pe_frozen_capacity_valid p,
            cs_frozen_capacity_mah := pe_frozen_capacity_mah p,
            cs_frozen_capacity_confidence := pe_frozen_capacity_confidence p,
            cs_frozen_remaining_valid := pe_frozen_remaining_valid p,
            cs_frozen_remaining_mah := pe_frozen_remaining_mah p,
            cs_frozen_remaining_nah := pe_frozen_remaining_nah p,
            cs_frozen_soc_provenance := pe_frozen_soc_provenance p,
            cs_frozen_soc_confidence := pe_frozen_soc_confidence p,
            cs_frozen_resistance_valid := pe_frozen_resistance_valid p,
            cs_frozen_resistance_mohm := pe_frozen_resistance_mohm p,
            cs_deficit_valid := pe_deficit_valid p, cs_deficit_mah := pe_deficit_mah p,
            cs_deficit_nah := pe_deficit_nah p,
            cs_charge_factor_permille := pe_charge_factor_permille p,
            cs_charge_factor_confident := pe_charge_factor_confident p,
            cs_target_valid := pe_target_valid p, cs_target_input_nah := pe_target_input_nah p\<rparr>
      in s1\<lparr>cs_target_full_capacity := target_uses_full_capacity s1,
            cs_safety_input_nah := pe_safety_input_nah p\<rparr>)"

definition restore_stop :: "charge_persisted \<Rightarrow> charge_observation \<Rightarrow> charge_snapshot \<Rightarrow> charge_snapshot" where
  "restore_stop p ob s =
     (let s1 = s\<lparr>cs_stop_requested := pe_inhibit_latched p,
            cs_stop_reason := (if pe_inhibit_latched p then pe_latched_stop_reason p
                               else BATTERY_CHARGE_TERMINAL_NONE),
            cs_candidate := (if latched_full p then BATTERY_CHARGE_CANDIDATE_SOFTWARE_COULOMB_FULL
                             else BATTERY_CHARGE_CANDIDATE_NONE),
            cs_full_qualified := (terminal_stop_persisted p \<and> latched_full p),
            cs_terminal_mv := co_terminal_mv ob, cs_current_ua := co_current_ua ob,
            cs_temperature_mdegc := co_temperature_mdegc ob\<rparr>
      in s1\<lparr>cs_compensated_mv := compensated_voltage_mv ob s1\<rparr>)"

definition restored_state ::
    "charge_policy \<Rightarrow> charge_profile \<Rightarrow> charge_persisted \<Rightarrow> charge_observation \<Rightarrow> charge_state" where
  "restored_state policy profile p ob =
     (let st0 = upd_snap (restore_stop p ob \<circ> restore_frozen p \<circ> restore_session p ob)
                  (battery_charge_supervisor_init policy);
          st1 = reset_minute_window (co_now_ms ob)
            (st0\<lparr>ct_physically_attached := True, ct_generation_authoritative := True,
                 ct_had_active := True,
                 ct_stop_control_seen := (pe_inhibit_latched p \<and> \<not> terminal_stop_persisted p),
                 ct_stop_requested_ms := co_now_ms ob, ct_sample_seen := True,
                 ct_last_sample_sequence := co_sample_sequence ob,
                 ct_admitted_at_ms := co_now_ms ob, ct_attached_at_ms := co_now_ms ob\<rparr>)
      in upd_snap (\<lambda>s. s\<lparr>cs_blockers := blockers_for_observation st1 profile ob\<rparr>) st1)"

text \<open>\<open>None\<close>: the answer is false and the state is left alone.\<close>

definition battery_charge_supervisor_restore_active ::
    "charge_policy \<Rightarrow> charge_profile option \<Rightarrow> charge_persisted \<Rightarrow> charge_observation \<Rightarrow>
     charge_state option" where
  "battery_charge_supervisor_restore_active policy profile p ob =
     (let prof = (case profile of None \<Rightarrow> REVB2_PROFILE | Some q \<Rightarrow> q)
      in if \<not> pe_active_session_valid p \<or> \<not> battery_charge_supervisor_persisted_valid (Some p) then None
         else if \<not> restore_matches prof p ob then None
         else Some (restored_state policy prof p ob))"

definition battery_charge_supervisor_reject_restore ::
    "charge_policy \<Rightarrow> u32 \<Rightarrow> charge_profile option \<Rightarrow> charge_observation \<Rightarrow> charge_state \<Rightarrow> charge_state" where
  "battery_charge_supervisor_reject_restore policy generation profile ob st =
     (if \<not> co_charger_present ob then st
      else
        (let st1 = (upd_snap (\<lambda>s. s\<lparr>cs_phase := BATTERY_CHARGE_PHASE_DEGRADED,
                cs_terminal_reason := BATTERY_CHARGE_TERMINAL_GAUGE_CONTINUITY_LOST,
                cs_charge_generation := generation, cs_attached := True,
                cs_session_authoritative := False, cs_terminal_mv := co_terminal_mv ob,
                cs_current_ua := co_current_ua ob, cs_temperature_mdegc := co_temperature_mdegc ob,
                cs_chemistry := co_chemistry ob, cs_hardware_profile_id := co_hardware_profile_id ob\<rparr>)
              (battery_charge_supervisor_init policy))
                \<lparr>ct_physically_attached := True, ct_generation_authoritative := False,
                 ct_attached_at_ms := co_now_ms ob\<rparr>
         in upd_snap (\<lambda>s. s\<lparr>cs_blockers := blockers_for_observation st1
              (case profile of None \<Rightarrow> REVB2_PROFILE | Some q \<Rightarrow> q) ob\<rparr>) st1))"

section \<open>The completion debounce\<close>

abbreviation "BATTERY_CHARGE_COMPLETE_CONFIRM_MS \<equiv> 2000 :: u32"

record charge_transition_state =
  tr_completion_pending :: bool
  tr_completion_since_ms :: u32

record charge_transition =
  tn_active :: bool
  tn_completed :: bool

definition battery_charge_transition_init :: "charge_transition_state option \<Rightarrow> charge_transition_state option" where
  "battery_charge_transition_init s =
     map_option (\<lambda>_. \<lparr>tr_completion_pending = False, tr_completion_since_ms = 0\<rparr>) s"

definition battery_charge_transition ::
    "charge_transition_state option \<Rightarrow> bool \<Rightarrow> battery_charger_state \<Rightarrow> bool \<Rightarrow> u32 \<Rightarrow>
     charge_transition_state option \<times> charge_transition" where
  "battery_charge_transition state status_valid observed was_active now =
     (let quiet = battery_charge_transition_init state in
      if observed = BATTERY_CHARGER_DETACHED then (quiet, \<lparr>tn_active = False, tn_completed = False\<rparr>)
      else if \<not> status_valid then (quiet, \<lparr>tn_active = was_active, tn_completed = False\<rparr>)
      else if observed = BATTERY_CHARGER_ACTIVE then (quiet, \<lparr>tn_active = True, tn_completed = False\<rparr>)
      else if observed \<noteq> BATTERY_CHARGER_FULL \<or> \<not> was_active
      then (quiet, \<lparr>tn_active = False, tn_completed = False\<rparr>)
      else (case state of
          None \<Rightarrow> (None, \<lparr>tn_active = True, tn_completed = False\<rparr>)
        | Some s \<Rightarrow>
            if \<not> tr_completion_pending s
            then (Some (s\<lparr>tr_completion_pending := True, tr_completion_since_ms := now\<rparr>),
                  \<lparr>tn_active = True, tn_completed = False\<rparr>)
            else if BATTERY_CHARGE_COMPLETE_CONFIRM_MS \<le> now - tr_completion_since_ms s
            then (quiet, \<lparr>tn_active = False, tn_completed = True\<rparr>)
            else (state, \<lparr>tn_active = True, tn_completed = False\<rparr>)))"

end
