(* ===== verification/Charge_Safety.thy ===== *)
theory Charge_Safety
  imports Charge_Restore
begin

text \<open>
  What the charge supervisor guarantees: the invariant of every reachable session, the frozen
  evidence, the finality of ended sessions and the conditions of a software stop.
\<close>

section \<open>Stage plumbing\<close>

lemma then_step_fst [simp]: "fst (then_step a f) = fst (f (fst a))"
  by (simp add: then_step_def Let_def split: prod.splits)

lemma then_step_snd: "snd (then_step a f) = snd a OR snd (f (fst a))"
  by (simp add: then_step_def Let_def split: prod.splits)

lemma upd_snap_sel [simp]:
  "ct_snapshot (upd_snap f st) = f (ct_snapshot st)"
  "ct_physically_attached (upd_snap f st) = ct_physically_attached st"
  "ct_had_active (upd_snap f st) = ct_had_active st"
  "ct_full_pending (upd_snap f st) = ct_full_pending st"
  "ct_stop_control_seen (upd_snap f st) = ct_stop_control_seen st"
  "ct_stop_requested_ms (upd_snap f st) = ct_stop_requested_ms st"
  "ct_full_since_ms (upd_snap f st) = ct_full_since_ms st"
  "ct_generation_authoritative (upd_snap f st) = ct_generation_authoritative st"
  "ct_detach_generation_reusable (upd_snap f st) = ct_detach_generation_reusable st"
  "ct_minute_terminal_mv (upd_snap f st) = ct_minute_terminal_mv st"
  "ct_minute_compensated_mv (upd_snap f st) = ct_minute_compensated_mv st"
  "ct_sample_seen (upd_snap f st) = ct_sample_seen st"
  "ct_last_sample_sequence (upd_snap f st) = ct_last_sample_sequence st"
  by (simp_all add: upd_snap_def)

lemma reset_minute_window_sel [simp]:
  "ct_snapshot (reset_minute_window now st) = ct_snapshot st"
  "ct_physically_attached (reset_minute_window now st) = ct_physically_attached st"
  "ct_had_active (reset_minute_window now st) = ct_had_active st"
  "ct_full_pending (reset_minute_window now st) = ct_full_pending st"
  "ct_stop_control_seen (reset_minute_window now st) = ct_stop_control_seen st"
  "ct_stop_requested_ms (reset_minute_window now st) = ct_stop_requested_ms st"
  "ct_full_since_ms (reset_minute_window now st) = ct_full_since_ms st"
  "ct_generation_authoritative (reset_minute_window now st) = ct_generation_authoritative st"
  "ct_detach_generation_reusable (reset_minute_window now st) = ct_detach_generation_reusable st"
  "ct_minute_terminal_mv (reset_minute_window now st) = []"
  "ct_minute_compensated_mv (reset_minute_window now st) = []"
  by (simp_all add: reset_minute_window_def)

section \<open>The invariant of a session\<close>

definition ended :: "charge_phase \<Rightarrow> bool" where
  "ended ph \<longleftrightarrow>
     ph = BATTERY_CHARGE_PHASE_COMPLETE_BQ \<or> ph = BATTERY_CHARGE_PHASE_COMPLETE_SOFTWARE \<or>
     ph = BATTERY_CHARGE_PHASE_STOPPED_SAFETY \<or> ph = BATTERY_CHARGE_PHASE_FAULT \<or>
     ph = BATTERY_CHARGE_PHASE_DEGRADED"

definition phase_ok :: "charge_state \<Rightarrow> bool" where
  "phase_ok st \<longleftrightarrow>
     (let s = ct_snapshot st; ph = cs_phase s in
      (ct_physically_attached st \<longleftrightarrow> ph \<noteq> BATTERY_CHARGE_PHASE_DETACHED) \<and>
      (cs_attached s \<longleftrightarrow> ct_physically_attached st) \<and>
      (cs_admitted s \<longrightarrow> ct_had_active st \<and> ph \<noteq> BATTERY_CHARGE_PHASE_QUALIFYING \<and>
         ph \<noteq> BATTERY_CHARGE_PHASE_DETACHED) \<and>
      (ph \<in> {BATTERY_CHARGE_PHASE_CHARGING, BATTERY_CHARGE_PHASE_STOPPING,
          BATTERY_CHARGE_PHASE_COMPLETE_SOFTWARE, BATTERY_CHARGE_PHASE_STOPPED_SAFETY} \<longrightarrow> cs_admitted s))"

definition stop_ok :: "charge_state \<Rightarrow> bool" where
  "stop_ok st \<longleftrightarrow>
     (let s = ct_snapshot st; ph = cs_phase s in
      (ph \<in> {BATTERY_CHARGE_PHASE_STOPPING, BATTERY_CHARGE_PHASE_COMPLETE_SOFTWARE,
          BATTERY_CHARGE_PHASE_STOPPED_SAFETY} \<longrightarrow> cs_stop_requested s) \<and>
      (cs_stop_requested s \<longrightarrow>
         cs_stop_reason s \<in> {BATTERY_CHARGE_TERMINAL_SOFTWARE_COULOMB_FULL,
           BATTERY_CHARGE_TERMINAL_SAFETY_CHARGE_LIMIT} \<and> cs_admitted s \<and>
         ph \<noteq> BATTERY_CHARGE_PHASE_CHARGING \<and> ph \<noteq> BATTERY_CHARGE_PHASE_DEGRADED) \<and>
      (ph = BATTERY_CHARGE_PHASE_COMPLETE_SOFTWARE \<longrightarrow>
         cs_stop_reason s = BATTERY_CHARGE_TERMINAL_SOFTWARE_COULOMB_FULL \<and>
         cs_terminal_reason s = BATTERY_CHARGE_TERMINAL_SOFTWARE_COULOMB_FULL) \<and>
      (ph = BATTERY_CHARGE_PHASE_STOPPED_SAFETY \<longrightarrow>
         cs_stop_reason s = BATTERY_CHARGE_TERMINAL_SAFETY_CHARGE_LIMIT \<and>
         cs_terminal_reason s = BATTERY_CHARGE_TERMINAL_SAFETY_CHARGE_LIMIT \<and> \<not> cs_full_qualified s))"

definition full_ok :: "charge_state \<Rightarrow> bool" where
  "full_ok st \<longleftrightarrow>
     (let s = ct_snapshot st; ph = cs_phase s in
      (cs_full_qualified s \<longrightarrow>
         (ph = BATTERY_CHARGE_PHASE_COMPLETE_BQ \<or> ph = BATTERY_CHARGE_PHASE_COMPLETE_SOFTWARE) \<and>
         terminal_qualifies_full (cs_terminal_reason s) \<and> cs_admitted s \<and>
         cs_session_authoritative s) \<and>
      (ct_full_pending st \<longrightarrow> cs_full_candidate s \<and>
         (ph = BATTERY_CHARGE_PHASE_CHARGING \<or> ph = BATTERY_CHARGE_PHASE_QUALIFYING)))"

definition evidence_ok :: "charge_state \<Rightarrow> bool" where
  "evidence_ok st \<longleftrightarrow>
     (let s = ct_snapshot st in
      (cs_target_valid s \<longrightarrow> cs_deficit_valid s \<and> cs_admitted s \<and>
         cs_target_input_nah s = scaled_nah (cs_deficit_nah s) (cs_charge_factor_permille s)) \<and>
      (cs_deficit_valid s \<longrightarrow> cs_admitted s \<and> cs_deficit_nah s \<le> capacity_nah s))"

definition minutes_ok :: "charge_state \<Rightarrow> bool" where
  "minutes_ok st \<longleftrightarrow>
     length (ct_minute_terminal_mv st) = length (ct_minute_compensated_mv st) \<and>
     length (ct_minute_terminal_mv st) \<le> CHARGE_MINUTE_SAMPLE_CAP"

definition charge_ok :: "charge_state \<Rightarrow> bool" where
  "charge_ok st \<longleftrightarrow> phase_ok st \<and> stop_ok st \<and> full_ok st \<and> evidence_ok st \<and> minutes_ok st"

lemmas charge_ok_defs = charge_ok_def phase_ok_def stop_ok_def full_ok_def evidence_ok_def minutes_ok_def

lemma init_ok: "charge_ok (battery_charge_supervisor_init policy)"
  by (simp add: charge_ok_defs battery_charge_supervisor_init_def detached_snapshot_def state_zero_def
      snapshot_zero_def Let_def)

lemmas phase_ok_defs = phase_ok_def Let_def session_live_def charging_def awaiting_completion_def

lemma detach_ok: "charge_ok st \<Longrightarrow> charge_ok (fst (supervise_detach ob st))"
  by (auto simp add: supervise_detach_def reset_session_fields_def detached_snapshot_def snapshot_zero_def
      charge_ok_defs Let_def)

lemma attach_ok: "charge_ok st \<Longrightarrow> charge_ok (fst (supervise_attach ob st))"
  by (auto simp add: supervise_attach_def charge_ok_defs Let_def capacity_nah_def)

lemma attach_attached [simp]: "ct_physically_attached (fst (supervise_attach ob st))"
  by (simp add: supervise_attach_def)

lemma snapshot_ok_cong:
  assumes "charge_ok st"
    and "ct_physically_attached st' = ct_physically_attached st" "ct_had_active st' = ct_had_active st"
    and "ct_full_pending st' = ct_full_pending st"
    and "cs_phase (ct_snapshot st') = cs_phase (ct_snapshot st)" "cs_attached (ct_snapshot st') = cs_attached (ct_snapshot st)" "cs_admitted (ct_snapshot st') = cs_admitted (ct_snapshot st)"
    and "cs_stop_requested (ct_snapshot st') = cs_stop_requested (ct_snapshot st)" "cs_stop_reason (ct_snapshot st') = cs_stop_reason (ct_snapshot st)"
    and "cs_terminal_reason (ct_snapshot st') = cs_terminal_reason (ct_snapshot st)"
    and "cs_full_qualified (ct_snapshot st') = cs_full_qualified (ct_snapshot st)" "cs_full_candidate (ct_snapshot st') = cs_full_candidate (ct_snapshot st)"
    and "cs_session_authoritative (ct_snapshot st') = cs_session_authoritative (ct_snapshot st)"
    and "cs_target_valid (ct_snapshot st') = cs_target_valid (ct_snapshot st)" "cs_deficit_valid (ct_snapshot st') = cs_deficit_valid (ct_snapshot st)"
    and "cs_target_input_nah (ct_snapshot st') = cs_target_input_nah (ct_snapshot st)" "cs_deficit_nah (ct_snapshot st') = cs_deficit_nah (ct_snapshot st)"
    and "cs_charge_factor_permille (ct_snapshot st') = cs_charge_factor_permille (ct_snapshot st)"
    and "cs_frozen_capacity_mah (ct_snapshot st') = cs_frozen_capacity_mah (ct_snapshot st)"
    and "minutes_ok st'"
  shows "charge_ok st'"
proof -
  have "phase_ok st' \<and> stop_ok st' \<and> full_ok st' \<and> evidence_ok st'"
    using assms(1) unfolding charge_ok_def phase_ok_def stop_ok_def full_ok_def evidence_ok_def
      Let_def capacity_nah_def assms(2-19) by (elim conjE, intro conjI)
  then show ?thesis
    using assms(20) by (simp add: charge_ok_def)
qed

lemma view_ok:
  assumes ok: "charge_ok st" and att: "ct_physically_attached st" and live: "live = session_live st"
  shows "charge_ok (supervise_view live ob st)"
proof (cases live)
  case False
  then show ?thesis
    using ok att by (intro snapshot_ok_cong [OF ok])
      (simp_all add: supervise_view_def charge_ok_def phase_ok_def minutes_ok_def Let_def)
next
  case True
  then have "\<not> cs_full_qualified (ct_snapshot st)"
    using ok live by (auto simp add: charge_ok_def full_ok_def session_live_def Let_def)
  then show ?thesis
    using ok att True live
    by (cases "cs_phase (ct_snapshot st)")
      (auto simp add: supervise_view_def session_live_def charge_ok_defs Let_def capacity_nah_def)
qed

lemma input_ok: "charge_ok st \<Longrightarrow> charge_ok (supervise_input live ob st)"
  by (rule snapshot_ok_cong, assumption) (simp_all add: supervise_input_def Let_def charge_ok_def minutes_ok_def)

lemma degrade_ok: "charge_ok st \<Longrightarrow> charging st \<Longrightarrow> charge_ok (fst (degrade reason st))"
  by (simp add: degrade_def mark_degraded_def charging_def charge_ok_defs Let_def capacity_nah_def)

lemma fault_ok:
  assumes ok: "charge_ok st" and live: "live = session_live st"
  shows "charge_ok (fst (supervise_fault live ob st))"
proof (cases "live \<and> co_status_valid ob \<and> co_charger_state ob = BATTERY_CHARGER_FAULT")
  case False
  then show ?thesis
    using ok by (auto simp add: supervise_fault_def intro: degrade_ok)
next
  case True
  then show ?thesis
    using ok live
    by (cases "cs_phase (ct_snapshot st)")
      (auto simp add: supervise_fault_def session_live_def charge_ok_defs coulomb_full_evidence_def
        terminal_qualifies_full_def Let_def capacity_nah_def)
qed

lemma rounding_free_target:
  "cs_deficit_valid (freeze_target p s) = cs_deficit_valid s"
  "cs_deficit_nah (freeze_target p s) = cs_deficit_nah s"
  "cs_charge_factor_permille (freeze_target p s) = cs_charge_factor_permille s"
  "cs_frozen_capacity_mah (freeze_target p s) = cs_frozen_capacity_mah s"
  "cs_target_valid (freeze_target p s) = (cs_deficit_valid s \<or> cs_target_valid s)"
  "cs_deficit_valid s \<Longrightarrow> cs_target_input_nah (freeze_target p s) =
     scaled_nah (cs_deficit_nah s) (cs_charge_factor_permille s)"
  by (auto simp add: freeze_target_def Let_def)

lemma freeze_deficit_bound:
  "\<not> cs_deficit_valid s \<Longrightarrow> cs_deficit_valid (freeze_deficit s) \<Longrightarrow>
     cs_deficit_nah (freeze_deficit s) \<le> capacity_nah (freeze_deficit s)"
  by (auto simp add: freeze_deficit_def Let_def capacity_nah_def word_le_sub1 word_sub_le split: if_splits)

lemma freeze_sel [simp]:
  "cs_phase (freeze_target p s) = cs_phase s" "cs_phase (freeze_deficit s) = cs_phase s"
  "cs_attached (freeze_target p s) = cs_attached s" "cs_attached (freeze_deficit s) = cs_attached s"
  "cs_admitted (freeze_target p s) = cs_admitted s" "cs_admitted (freeze_deficit s) = cs_admitted s"
  "cs_stop_requested (freeze_target p s) = cs_stop_requested s"
  "cs_stop_requested (freeze_deficit s) = cs_stop_requested s"
  "cs_full_qualified (freeze_target p s) = cs_full_qualified s"
  "cs_full_qualified (freeze_deficit s) = cs_full_qualified s"
  "cs_full_candidate (freeze_target p s) = cs_full_candidate s"
  "cs_full_candidate (freeze_deficit s) = cs_full_candidate s"
  "cs_target_valid (freeze_deficit s) = cs_target_valid s"
  "cs_policy (freeze_target p s) = cs_policy s" "cs_policy (freeze_deficit s) = cs_policy s"
  "cs_charge_generation (freeze_target p s) = cs_charge_generation s"
  "cs_charge_generation (freeze_deficit s) = cs_charge_generation s"
  by (simp_all add: freeze_target_def freeze_deficit_def Let_def)

lemma freeze_identity_sel [simp]:
  "cs_phase (freeze_identity st p ob s) = BATTERY_CHARGE_PHASE_CHARGING"
  "cs_attached (freeze_identity st p ob s) = cs_attached s"
  "cs_admitted (freeze_identity st p ob s)"
  "cs_stop_requested (freeze_identity st p ob s) = cs_stop_requested s"
  "cs_full_qualified (freeze_identity st p ob s) = cs_full_qualified s"
  "cs_full_candidate (freeze_identity st p ob s) = cs_full_candidate s"
  "cs_target_valid (freeze_identity st p ob s) = cs_target_valid s"
  "cs_deficit_valid (freeze_identity st p ob s) = cs_deficit_valid s"
  "cs_policy (freeze_identity st p ob s) = cs_policy s"
  "cs_charge_generation (freeze_identity st p ob s) = cs_charge_generation s"
  by (simp_all add: freeze_identity_def Let_def)

lemma freeze_snapshot_evidence:
  fixes ob :: charge_observation and st :: charge_state and p :: charge_profile
  assumes "\<not> cs_deficit_valid s"
  defines "s' \<equiv> freeze_target p (freeze_deficit (freeze_identity st p ob s))"
  shows "cs_deficit_valid s' \<Longrightarrow> cs_deficit_nah s' \<le> capacity_nah s'"
    and "cs_target_valid s' \<Longrightarrow> \<not> cs_target_valid s \<Longrightarrow> cs_deficit_valid s' \<and>
      cs_target_input_nah s' = scaled_nah (cs_deficit_nah s') (cs_charge_factor_permille s')"
  using assms freeze_deficit_bound [of "freeze_identity st p ob s"]
  by (auto simp add: rounding_free_target capacity_nah_def)

lemma admit_ok:
  assumes ok: "charge_ok st"
  shows "charge_ok (fst (supervise_admit p ob st))"
proof (cases "admissible p ob st")
  case True
  then have q: "cs_phase (ct_snapshot st) = BATTERY_CHARGE_PHASE_QUALIFYING"
    by (simp add: admissible_def)
  then have n: "\<not> cs_admitted (ct_snapshot st)" "\<not> cs_deficit_valid (ct_snapshot st)"
    "\<not> cs_target_valid (ct_snapshot st)" "\<not> cs_stop_requested (ct_snapshot st)"
    "\<not> cs_full_qualified (ct_snapshot st)" "ct_physically_attached st" "cs_attached (ct_snapshot st)"
    using ok by (auto simp add: charge_ok_defs Let_def)
  have e: "evidence_ok (freeze_admission p ob st)"
    using freeze_snapshot_evidence [OF n(2), of p st ob] n(3)
    by (simp add: evidence_ok_def freeze_admission_def Let_def capacity_nah_def rounding_free_target)
  show ?thesis
    using n e ok q True
    by (simp add: supervise_admit_def charge_ok_def phase_ok_def stop_ok_def full_ok_def minutes_ok_def
        freeze_admission_def Let_def)
qed (simp add: supervise_admit_def ok)

lemma integrate_sel [simp]:
  "cs_phase (ct_snapshot (integrate_distinct_sample ob st)) = cs_phase (ct_snapshot st)"
  "ct_physically_attached (integrate_distinct_sample ob st) = ct_physically_attached st"
  by (simp_all add: integrate_distinct_sample_def Let_def)

lemma integrate_ok: "charge_ok st \<Longrightarrow> charge_ok (integrate_distinct_sample ob st)"
  by (rule snapshot_ok_cong, assumption)
    (simp_all add: integrate_distinct_sample_def Let_def charge_ok_def minutes_ok_def)

lemma curve_sel [simp]:
  "cs_phase (curve_after_minute mi st s) = cs_phase s"
  "cs_attached (curve_after_minute mi st s) = cs_attached s"
  "cs_admitted (curve_after_minute mi st s) = cs_admitted s"
  "cs_stop_requested (curve_after_minute mi st s) = cs_stop_requested s"
  "cs_stop_reason (curve_after_minute mi st s) = cs_stop_reason s"
  "cs_terminal_reason (curve_after_minute mi st s) = cs_terminal_reason s"
  "cs_full_qualified (curve_after_minute mi st s) = cs_full_qualified s"
  "cs_full_candidate (curve_after_minute mi st s) = cs_full_candidate s"
  "cs_session_authoritative (curve_after_minute mi st s) = cs_session_authoritative s"
  "cs_target_valid (curve_after_minute mi st s) = cs_target_valid s"
  "cs_deficit_valid (curve_after_minute mi st s) = cs_deficit_valid s"
  "cs_target_input_nah (curve_after_minute mi st s) = cs_target_input_nah s"
  "cs_deficit_nah (curve_after_minute mi st s) = cs_deficit_nah s"
  "cs_charge_factor_permille (curve_after_minute mi st s) = cs_charge_factor_permille s"
  "cs_frozen_capacity_mah (curve_after_minute mi st s) = cs_frozen_capacity_mah s"
  "cs_policy (curve_after_minute mi st s) = cs_policy s"
  "cs_charge_generation (curve_after_minute mi st s) = cs_charge_generation s"
  by (simp_all add: curve_after_minute_def Let_def)

lemma minute_ok: "charge_ok st \<Longrightarrow> charge_ok (fst (observe_minute ob st))"
  by (rule snapshot_ok_cong, assumption)
    (auto simp add: observe_minute_def store_minute_sample_def close_minute_def Let_def charge_ok_def
      minutes_ok_def)

lemma samples_ok:
  assumes ok: "charge_ok st"
  shows "charge_ok (fst (supervise_samples live fresh ob st))"
proof -
  have "charge_ok (upd_snap (\<lambda>s. s\<lparr>cs_compensated_mv := compensated_voltage_mv ob s\<rparr>) st)"
    by (rule snapshot_ok_cong [OF ok]) (use ok in \<open>simp_all add: charge_ok_def minutes_ok_def\<close>)
  then show ?thesis
    using ok by (simp add: supervise_samples_def Let_def minute_ok integrate_ok)
qed

lemma completion_ok:
  assumes ok: "charge_ok st"
  shows "charge_ok (fst (supervise_completion p ob st))"
proof (cases "awaiting_completion st")
  case True
  then have "cs_phase (ct_snapshot st) = BATTERY_CHARGE_PHASE_CHARGING \<or>
      cs_phase (ct_snapshot st) = BATTERY_CHARGE_PHASE_QUALIFYING"
    by (simp add: awaiting_completion_def)
  then show ?thesis
    using ok True
    by (elim disjE)
      (auto simp add: supervise_completion_def complete_bq_def charge_ok_defs coulomb_full_evidence_def
        terminal_qualifies_full_def Let_def capacity_nah_def)
qed (simp add: supervise_completion_def ok)

lemma blockers_ok: "charge_ok st \<Longrightarrow> charge_ok (supervise_blockers p ob st)"
  by (rule snapshot_ok_cong, assumption)
    (simp_all add: supervise_blockers_def charge_ok_def minutes_ok_def)

lemma request_stop_ok:
  assumes "charge_ok st" "cs_phase (ct_snapshot st) = BATTERY_CHARGE_PHASE_CHARGING"
    and "\<not> cs_full_candidate (ct_snapshot st)"
    and "reason \<in> {BATTERY_CHARGE_TERMINAL_SOFTWARE_COULOMB_FULL, BATTERY_CHARGE_TERMINAL_SAFETY_CHARGE_LIMIT}"
  shows "charge_ok (fst (request_stop reason st))"
  using assms by (auto simp add: request_stop_def charge_ok_defs Let_def capacity_nah_def)

lemma note_target_ok: "charge_ok st \<Longrightarrow> charge_ok (note_target st)"
  by (rule snapshot_ok_cong, assumption) (simp_all add: note_target_def charge_ok_def minutes_ok_def)

lemma note_target_sel [simp]:
  "cs_phase (ct_snapshot (note_target st)) = cs_phase (ct_snapshot st)"
  "cs_full_candidate (ct_snapshot (note_target st)) = cs_full_candidate (ct_snapshot st)"
  by (simp_all add: note_target_def)

lemma stop_stage_ok: "charge_ok st \<Longrightarrow> charge_ok (fst (supervise_stop st))"
  by (simp add: supervise_stop_def decide_stop_def request_stop_ok note_target_ok)

lemma stopping_ok:
  assumes ok: "charge_ok st"
  shows "charge_ok (fst (supervise_stopping p ob st))"
proof (cases "cs_phase (ct_snapshot st) = BATTERY_CHARGE_PHASE_STOPPING \<and> co_supervisor_inhibit_active ob")
  case True
  then show ?thesis
    using ok
    by (auto simp add: supervise_stopping_def confirm_stopped_def charge_ok_defs
        terminal_qualifies_full_def Let_def capacity_nah_def)
qed (auto simp add: supervise_stopping_def ok)

lemma view_phase [simp]:
  "cs_phase (ct_snapshot (supervise_view live ob st)) = cs_phase (ct_snapshot st)"
  "cs_phase (ct_snapshot (supervise_input live ob st)) = cs_phase (ct_snapshot st)"
  by (simp_all add: supervise_view_def supervise_input_def Let_def)

lemma attached_stages_ok:
  assumes ok: "charge_ok st" and att: "ct_physically_attached st"
  shows "charge_ok (fst (supervise_attached p ob st))"
proof -
  have "charge_ok (supervise_input (session_live st) ob (supervise_view (session_live st) ob st))"
    using ok att by (simp add: input_ok view_ok)
  moreover have "session_live st = session_live
      (supervise_input (session_live st) ob (supervise_view (session_live st) ob st))"
    by (simp add: session_live_def)
  ultimately show ?thesis
    by (simp add: supervise_attached_def Let_def fault_ok admit_ok samples_ok completion_ok blockers_ok
        stop_stage_ok stopping_ok del: view_phase)
qed

lemma update_ok: "charge_ok st \<Longrightarrow> charge_ok (fst (battery_charge_supervisor_update profile ob st))"
  by (simp add: battery_charge_supervisor_update_def detach_ok attach_ok attached_stages_ok)

lemma seed_ok: "charge_ok st \<Longrightarrow> charge_ok (battery_charge_supervisor_seed_generation g st)"
  by (rule snapshot_ok_cong, assumption)
    (simp_all add: battery_charge_supervisor_seed_generation_def charge_ok_def minutes_ok_def)

lemma reject_ok: "charge_ok st \<Longrightarrow> charge_ok (battery_charge_supervisor_reject_restore policy g profile ob st)"
  by (simp add: battery_charge_supervisor_reject_restore_def battery_charge_supervisor_init_def
      detached_snapshot_def state_zero_def snapshot_zero_def charge_ok_defs Let_def)

lemma restore_ok:
  assumes "battery_charge_supervisor_restore_active policy profile p ob = Some st"
  shows "charge_ok st"
proof -
  from assms have st: "st = restored_state policy (case profile of None \<Rightarrow> REVB2_PROFILE | Some q \<Rightarrow> q) p ob"
    and act: "pe_active_session_valid p" and v: "battery_charge_supervisor_persisted_valid (Some p)"
    by (auto simp add: battery_charge_supervisor_restore_active_def Let_def split: if_splits)
  have latch: "pe_inhibit_latched p \<Longrightarrow>
      pe_latched_stop_reason p = BATTERY_CHARGE_TERMINAL_SOFTWARE_COULOMB_FULL \<or>
      pe_latched_stop_reason p = BATTERY_CHARGE_TERMINAL_SAFETY_CHARGE_LIMIT"
    using v act by (auto simp add: battery_charge_supervisor_persisted_valid_def persisted_latch_valid_def
        split: if_splits)
  have ev: "pe_deficit_valid p \<Longrightarrow> pe_deficit_nah p \<le> persisted_capacity_nah p"
    "pe_target_valid p \<Longrightarrow> pe_deficit_valid p \<and>
       pe_target_input_nah p = scaled_nah (pe_deficit_nah p) (pe_charge_factor_permille p)"
    using v act by (auto simp add: battery_charge_supervisor_persisted_valid_def
        persisted_session_valid_def persisted_deficit_bad_def)
  show ?thesis
    using latch ev unfolding st
    by (auto simp add: restored_state_def restore_stop_def restore_frozen_def restore_session_def
        restored_phase_def latched_full_def terminal_stop_persisted_def battery_charge_supervisor_init_def
        detached_snapshot_def state_zero_def snapshot_zero_def charge_ok_defs Let_def capacity_nah_def
        persisted_capacity_nah_def terminal_qualifies_full_def)
qed

section \<open>Reachable sessions\<close>

inductive charge_reachable :: "charge_state \<Rightarrow> bool" where
  boot: "charge_reachable (battery_charge_supervisor_init policy)"
| observe: "charge_reachable st \<Longrightarrow> charge_reachable (fst (battery_charge_supervisor_update profile ob st))"
| seed: "charge_reachable st \<Longrightarrow> charge_reachable (battery_charge_supervisor_seed_generation g st)"
| restore: "battery_charge_supervisor_restore_active policy profile p ob = Some st \<Longrightarrow> charge_reachable st"
| reject: "charge_reachable st \<Longrightarrow>
    charge_reachable (battery_charge_supervisor_reject_restore policy g profile ob st)"

definition plugged_in :: charge_observation where
  "plugged_in = \<lparr>co_now_ms = 1000, co_sample_sequence = 1, co_gauge_session = 1, co_acr_raw = 0,
     co_session_delta_nah = 0, co_terminal_mv = 2600, co_reference_mv = 0, co_current_ua = 270000,
     co_temperature_mdegc = 25000, co_sample_valid = True, co_reference_valid = False,
     co_current_valid = True, co_continuity_valid = True, co_authoritative = True,
     co_charger_present = True, co_charger_input_mv = 5000, co_status_valid = True,
     co_charger_state = BATTERY_CHARGER_ACTIVE, co_enable_requested = True, co_enable_readback = True,
     co_enable_valid = True, co_inhibit_owner_mask = 0, co_supervisor_inhibit_active = False,
     co_chemistry = BATTERY_CHARGE_CHEMISTRY_NIMH_2S, co_hardware_profile_id = 3,
     co_admission = \<lparr>ca_source_current = True, ca_capacity_valid = True, ca_capacity_mah = 1000,
       ca_capacity_confidence = BATTERY_CAPACITY_CONFIDENCE_LEARNED, ca_remaining_valid = True,
       ca_remaining_mah = 400, ca_remaining_nah = 400000000,
       ca_soc_provenance = BATTERY_SOC_PROVENANCE_TRACKED,
       ca_soc_confidence = BATTERY_SOC_CONFIDENCE_ANCHORED, ca_natural_empty_start = False,
       ca_resistance_valid = False, ca_resistance_mohm = 0, ca_pack_generation = 1,
       ca_charge_factor_permille = 1200, ca_charge_factor_confident = True\<rparr>\<rparr>"

definition charging_session :: charge_state where
  "charging_session = fst (battery_charge_supervisor_update None plugged_in
     (battery_charge_supervisor_init BATTERY_CHARGE_POLICY_ENFORCE_ANCHORED))"

lemma charging_session_reachable: "charge_reachable charging_session"
  unfolding charging_session_def by (intro observe boot)

lemma charging_session_phase: "cs_phase (ct_snapshot charging_session) = BATTERY_CHARGE_PHASE_CHARGING"
  by code_simp

text \<open>C10: every session the supervisor can be in, from boot, warm restore or rejected restore on through
  any observations, is well formed: the phase agrees with the attachment and the admission, a
  software stop has its cause, a session counts as fully charged only in a completed phase with a
  qualifying cause and an authoritative session, the coulomb target is the scaled deficit and the
  deficit never exceeds the frozen capacity, and the sample window is bounded.\<close>

theorem charge_session_invariant:
  assumes "charge_reachable st"
  shows "charge_ok st"
  using assms
  by induction (simp_all add: init_ok update_ok seed_ok reject_ok restore_ok)

theorem charge_session_invariant_witness:
  "charge_ok charging_session \<and> cs_admitted (ct_snapshot charging_session)"
  using charge_session_invariant [OF charging_session_reachable]
  by (simp add: charge_ok_def phase_ok_def charging_session_phase Let_def)

end
