(* ===== verification/Charge_Contracts.thy ===== *)
theory Charge_Contracts
  imports Charge_Safety
begin

text \<open>
  Step contracts of the charge supervisor: what one update, or a run of them, does to an admitted, a
  stopping and an ended session, and what a restart brings back.
\<close>

section \<open>Evidence\<close>

definition frozen_evidence where
  "frozen_evidence s =
     ((cs_pack_generation s, cs_gauge_session s, cs_hardware_profile_id s, cs_chemistry s,
       cs_start_acr_raw s, cs_start_session_delta_nah s),
      (cs_frozen_capacity_valid s, cs_frozen_capacity_mah s, cs_frozen_capacity_confidence s,
       cs_frozen_remaining_valid s, cs_frozen_remaining_mah s, cs_frozen_remaining_nah s,
       cs_frozen_soc_provenance s, cs_frozen_soc_confidence s,
       cs_frozen_resistance_valid s, cs_frozen_resistance_mohm s),
      (cs_deficit_valid s, cs_deficit_mah s, cs_deficit_nah s, cs_charge_factor_permille s,
       cs_charge_factor_confident s, cs_target_valid s, cs_target_full_capacity s,
       cs_target_input_nah s, cs_safety_input_nah s))"

definition kept :: "charge_state \<Rightarrow> charge_state \<Rightarrow> bool" where
  "kept st st' \<longleftrightarrow>
     frozen_evidence (ct_snapshot st') = frozen_evidence (ct_snapshot st) \<and>
     cs_admitted (ct_snapshot st') = cs_admitted (ct_snapshot st) \<and>
     cs_policy (ct_snapshot st') = cs_policy (ct_snapshot st) \<and>
     cs_charge_generation (ct_snapshot st') = cs_charge_generation (ct_snapshot st) \<and>
     ct_had_active st' = ct_had_active st \<and>
     ct_physically_attached st' = ct_physically_attached st"

lemma kept_refl [simp]: "kept st st"
  by (simp add: kept_def)

lemma kept_trans: "kept a b \<Longrightarrow> kept b c \<Longrightarrow> kept a c"
  by (simp add: kept_def)

lemma view_kept: "kept st (supervise_view live ob st)"
  by (simp add: supervise_view_def kept_def frozen_evidence_def Let_def)

lemma input_kept: "kept st (supervise_input live ob st)"
  by (simp add: supervise_input_def kept_def frozen_evidence_def Let_def)

lemma fault_kept: "kept st (fst (supervise_fault live ob st))"
  by (simp add: supervise_fault_def degrade_def mark_degraded_def kept_def frozen_evidence_def)

lemma integrate_kept: "kept st (integrate_distinct_sample ob st)"
  by (simp add: integrate_distinct_sample_def kept_def frozen_evidence_def Let_def)

lemma curve_kept: "frozen_evidence (curve_after_minute mi st s) = frozen_evidence s"
  by (simp add: curve_after_minute_def frozen_evidence_def Let_def)

lemma minute_kept: "kept st (fst (observe_minute ob st))"
  by (simp add: observe_minute_def store_minute_sample_def close_minute_def kept_def curve_kept Let_def)

lemma samples_kept: "kept st (fst (supervise_samples live fresh ob st))"
proof -
  have "kept st (upd_snap (\<lambda>s. s\<lparr>cs_compensated_mv := compensated_voltage_mv ob s\<rparr>) st)"
    by (simp add: kept_def frozen_evidence_def)
  then show ?thesis
    by (simp add: supervise_samples_def Let_def kept_trans [OF _ minute_kept] kept_trans [OF _ integrate_kept])
qed

lemma completion_kept: "kept st (fst (supervise_completion p ob st))"
  by (simp add: supervise_completion_def complete_bq_def kept_def frozen_evidence_def Let_def)

lemma blockers_kept: "kept st (supervise_blockers p ob st)"
  by (simp add: supervise_blockers_def kept_def frozen_evidence_def)

lemma stop_kept: "kept st (fst (supervise_stop st))"
proof -
  have "kept st (note_target st)" "kept s (fst (request_stop reason s))" for s reason
    by (simp_all add: note_target_def request_stop_def kept_def frozen_evidence_def)
  then show ?thesis
    by (simp add: supervise_stop_def decide_stop_def) (metis kept_trans)
qed

lemma stopping_kept: "kept st (fst (supervise_stopping p ob st))"
  by (simp add: supervise_stopping_def confirm_stopped_def kept_def frozen_evidence_def Let_def)

lemmas kept_after =
  kept_trans [OF _ samples_kept] kept_trans [OF _ completion_kept] kept_trans [OF _ blockers_kept]
  kept_trans [OF _ stop_kept] kept_trans [OF _ stopping_kept]

lemma fault_not_qualifying:
  "cs_phase (ct_snapshot st) \<noteq> BATTERY_CHARGE_PHASE_QUALIFYING \<Longrightarrow>
     cs_phase (ct_snapshot (fst (supervise_fault live ob st))) \<noteq> BATTERY_CHARGE_PHASE_QUALIFYING"
  by (simp add: supervise_fault_def degrade_def mark_degraded_def)

lemma admit_kept:
  "cs_phase (ct_snapshot st) \<noteq> BATTERY_CHARGE_PHASE_QUALIFYING \<Longrightarrow> fst (supervise_admit p ob st) = st"
  by (simp add: supervise_admit_def admissible_def)

lemma stages_kept:
  assumes "cs_phase (ct_snapshot st) \<noteq> BATTERY_CHARGE_PHASE_QUALIFYING"
  shows "kept st (fst (supervise_attached p ob st))"
proof -
  let ?live = "session_live st"
  let ?v = "supervise_input ?live ob (supervise_view ?live ob st)"
  let ?f = "fst (supervise_fault ?live ob ?v)"
  have "kept st ?v"
    by (rule kept_trans [OF view_kept input_kept])
  then have f: "kept st ?f"
    by (rule kept_trans [OF _ fault_kept])
  have "fst (supervise_admit p ob ?f) = ?f"
    by (rule admit_kept) (simp add: fault_not_qualifying assms)
  then show ?thesis
    using f
    by (simp add: supervise_attached_def Let_def kept_after)
qed

lemma admitted_attached:
  assumes "charge_reachable st" "cs_admitted (ct_snapshot st)"
  shows "ct_physically_attached st" "cs_phase (ct_snapshot st) \<noteq> BATTERY_CHARGE_PHASE_QUALIFYING"
proof -
  have "charge_ok st"
    using assms(1) by induction (simp_all add: init_ok update_ok seed_ok reject_ok restore_ok)
  then show "ct_physically_attached st" "cs_phase (ct_snapshot st) \<noteq> BATTERY_CHARGE_PHASE_QUALIFYING"
    using assms(2) by (auto simp add: charge_ok_def phase_ok_def Let_def)
qed

lemma attach_idle: "ct_physically_attached st \<Longrightarrow> supervise_attach ob st = (st, 0)"
  by (simp add: supervise_attach_def)

text \<open>C11: once a session is admitted, the evidence it was admitted on (identity of pack, gauge session and
  hardware, baseline, capacity, remaining charge, resistance, deficit, factor, target and safety
  limit) is never changed by any further observation while the charger stays present, whatever
  that observation reports: no later estimate can move a running session's target.\<close>

theorem admission_evidence_frozen:
  assumes "charge_reachable st" "cs_admitted (ct_snapshot st)" "co_charger_present ob"
  shows "let st' = fst (battery_charge_supervisor_update profile ob st)
         in frozen_evidence (ct_snapshot st') = frozen_evidence (ct_snapshot st) \<and>
            cs_admitted (ct_snapshot st') \<and>
            cs_charge_generation (ct_snapshot st') = cs_charge_generation (ct_snapshot st)"
  using stages_kept [OF admitted_attached(2) [OF assms(1,2)]] assms(2,3)
  by (simp add: battery_charge_supervisor_update_def attach_idle admitted_attached [OF assms(1,2)] kept_def
      Let_def)

text \<open>The witness: the charging session sees the pack estimate change.\<close>

definition later_estimate :: charge_observation where
  "later_estimate = plugged_in\<lparr>co_now_ms := 61000, co_sample_sequence := 2, co_session_delta_nah := 4500000,
     co_admission := (co_admission plugged_in)\<lparr>ca_capacity_mah := 500, ca_remaining_nah := 0\<rparr>\<rparr>"

theorem admission_evidence_frozen_witness:
  "let st' = fst (battery_charge_supervisor_update None later_estimate charging_session)
   in frozen_evidence (ct_snapshot st') = frozen_evidence (ct_snapshot charging_session) \<and>
      cs_admitted (ct_snapshot st') \<and>
      cs_charge_generation (ct_snapshot st') = cs_charge_generation (ct_snapshot charging_session)"
proof (rule admission_evidence_frozen [OF charging_session_reachable])
  show "cs_admitted (ct_snapshot charging_session)" by code_simp
  show "co_charger_present later_estimate" by (simp add: later_estimate_def plugged_in_def)
qed

section \<open>Ended sessions\<close>

definition observe_all :: "charge_profile option \<Rightarrow> charge_observation list \<Rightarrow> charge_state \<Rightarrow> charge_state" where
  "observe_all profile obs st = fold (\<lambda>ob st. fst (battery_charge_supervisor_update profile ob st)) obs st"

lemma ended_phases:
  assumes "ended (cs_phase (ct_snapshot st))"
  shows "\<not> session_live st" "\<not> charging st" "\<not> awaiting_completion st" "\<not> admissible p ob st"
    "cs_phase (ct_snapshot st) \<noteq> BATTERY_CHARGE_PHASE_CHARGING"
    "cs_phase (ct_snapshot st) \<noteq> BATTERY_CHARGE_PHASE_STOPPING"
  using assms
  by (auto simp add: ended_def session_live_def charging_def awaiting_completion_def admissible_def)

lemma ended_attached_phase: "ended (cs_phase (ct_snapshot (upd_snap f st))) = ended (cs_phase (f (ct_snapshot st)))"
  by simp

lemma ended_update:
  assumes e: "ended (cs_phase (ct_snapshot st))"
    and att: "ct_physically_attached st" and on: "co_charger_present ob"
  shows "\<exists>b. battery_charge_supervisor_update profile ob st =
    (upd_snap (\<lambda>s. s\<lparr>cs_attached := True, cs_blockers := b\<rparr>) st, 0)"
proof -
  let ?a = "upd_snap (\<lambda>s. s\<lparr>cs_attached := True\<rparr>) st"
  let ?p = "case profile of None \<Rightarrow> REVB2_PROFILE | Some p \<Rightarrow> p"
  let ?b = "blockers_for_observation ?a ?p ob"
  have ea: "ended (cs_phase (ct_snapshot ?a))" "ended (cs_phase (ct_snapshot (supervise_blockers q ob ?a)))" for q
    using e by (simp_all add: supervise_blockers_def)
  have "supervise_attached ?p ob st = (supervise_blockers ?p ob ?a, 0)"
    using ended_phases [OF e] ended_phases [OF ea(1)] ended_phases [OF ea(2)]
    by (simp add: supervise_attached_def supervise_view_def distinct_sample_def supervise_input_def
        supervise_fault_def supervise_admit_def supervise_samples_def supervise_completion_def
        supervise_stop_def supervise_stopping_def then_step_def Let_def del: upd_snap_sel)
  then show ?thesis
    using att on
    by (auto simp add: battery_charge_supervisor_update_def attach_idle then_step_def supervise_blockers_def
        upd_snap_def)
qed

text \<open>C12: an ended session (charged, stopped, faulted or degraded) stays ended with the same cause, the same
  full-charge verdict and the same net input for as long as the charger is present, whatever is
  observed, and no further observation raises any result; only unplugging starts a new session.\<close>

theorem ended_session_is_final:
  assumes "ended (cs_phase (ct_snapshot st))" "ct_physically_attached st"
    and "\<forall>ob\<in>set obs. co_charger_present ob" "co_charger_present ob"
  shows "let s = ct_snapshot st; st' = observe_all profile obs st; s' = ct_snapshot st'
         in cs_phase s' = cs_phase s \<and> cs_terminal_reason s' = cs_terminal_reason s \<and>
            cs_full_qualified s' = cs_full_qualified s \<and> cs_net_input_nah s' = cs_net_input_nah s \<and>
            cs_charge_generation s' = cs_charge_generation s \<and>
            snd (battery_charge_supervisor_update profile ob st') = 0"
proof -
  have "\<exists>a b. observe_all profile obs st = upd_snap (\<lambda>s. s\<lparr>cs_attached := a, cs_blockers := b\<rparr>) st"
    using assms(1-3)
  proof (induction obs arbitrary: st)
    case Nil
    then show ?case
      by (auto simp add: observe_all_def upd_snap_def
          intro!: exI [of _ "cs_attached (ct_snapshot st)"] exI [of _ "cs_blockers (ct_snapshot st)"])
  next
    case (Cons o1 obs)
    obtain b where u: "battery_charge_supervisor_update profile o1 st =
        (upd_snap (\<lambda>s. s\<lparr>cs_attached := True, cs_blockers := b\<rparr>) st, 0)"
      using ended_update [of st o1 profile] Cons.prems by auto
    show ?case
      using Cons.IH [of "upd_snap (\<lambda>s. s\<lparr>cs_attached := True, cs_blockers := b\<rparr>) st"] Cons.prems u
      by (auto simp add: observe_all_def upd_snap_def)
  qed
  then obtain a b where r: "observe_all profile obs st = upd_snap (\<lambda>s. s\<lparr>cs_attached := a, cs_blockers := b\<rparr>) st"
    by blast
  have "snd (battery_charge_supervisor_update profile ob (observe_all profile obs st)) = 0"
    using ended_update [of "observe_all profile obs st" ob profile] assms(1,2,4) by (auto simp add: r)
  then show ?thesis
    by (simp add: r Let_def)
qed

definition charger_fault :: charge_observation where
  "charger_fault = plugged_in\<lparr>co_now_ms := 5000, co_charger_state := BATTERY_CHARGER_FAULT\<rparr>"

definition faulted_session :: charge_state where
  "faulted_session = fst (battery_charge_supervisor_update None charger_fault charging_session)"

theorem ended_session_is_final_witness:
  "cs_phase (ct_snapshot (observe_all None [plugged_in, later_estimate] faulted_session)) =
     BATTERY_CHARGE_PHASE_FAULT"
proof -
  have f: "cs_phase (ct_snapshot faulted_session) = BATTERY_CHARGE_PHASE_FAULT"
    "ct_physically_attached faulted_session"
    by code_simp+
  have "cs_phase (ct_snapshot (observe_all None [plugged_in, later_estimate] faulted_session)) =
      cs_phase (ct_snapshot faulted_session)"
    using ended_session_is_final [of faulted_session "[plugged_in, later_estimate]" plugged_in None] f
    by (simp add: ended_def plugged_in_def later_estimate_def Let_def)
  then show ?thesis
    using f by simp
qed

end
