(* ===== verification/Charge_Stops.thy ===== *)
theory Charge_Stops
  imports Charge_Contracts
begin

text \<open>
  When the charge supervisor stops the charger, what a stop needs, how a pending stop ends, and the
  functional contracts of the generation, the minute median, the warm restore and the completion
  debounce.
\<close>

section \<open>Bits of the result and of the blockers\<close>

lemma when_bit_and [simp]: "when_bit b m AND k = when_bit b (m AND k)"
  by (simp add: when_bit_def)

lemma when_bit_zero: "when_bit b m = 0 \<longleftrightarrow> \<not> b \<or> m = 0"
  by (simp add: when_bit_def)

lemma when_bit_none [simp]: "when_bit b 0 = 0"
  by (simp add: when_bit_def)

lemmas bit_conditions = word_ao_dist or_eq_0_iff when_bit_zero

lemma no_stop_bit:
  "snd (supervise_attach ob st) AND CHARGE_RESULT_STOP_REQUESTED = 0"
  "snd (supervise_fault live ob st) AND CHARGE_RESULT_STOP_REQUESTED = 0"
  "snd (supervise_admit p ob st) AND CHARGE_RESULT_STOP_REQUESTED = 0"
  "snd (supervise_samples live fresh ob st) AND CHARGE_RESULT_STOP_REQUESTED = 0"
  "snd (supervise_completion p ob st) AND CHARGE_RESULT_STOP_REQUESTED = 0"
  "snd (supervise_stopping p ob st) AND CHARGE_RESULT_STOP_REQUESTED = 0"
  by (simp_all add: supervise_attach_def supervise_fault_def degrade_def supervise_admit_def
      supervise_samples_def observe_minute_def supervise_completion_def complete_bq_def
      supervise_stopping_def confirm_stopped_def word_ao_dist Let_def)

lemma blockers_clear:
  assumes "blockers_for_observation st p ob AND NOT SAFETY_IGNORED = 0"
  shows "cs_policy (ct_snapshot st) \<noteq> BATTERY_CHARGE_POLICY_OBSERVE" "cs_admitted (ct_snapshot st)"
    "ca_source_current (co_admission ob)" "co_sample_valid ob" "co_current_valid ob"
    "co_continuity_valid ob" "co_authoritative ob" "cs_session_authoritative (ct_snapshot st)"
    "enable_confirmed ob \<or> expected_stop_control st ob" "co_chemistry ob = cp_chemistry p"
    "co_hardware_profile_id ob = cp_hardware_profile_id p" "ct_had_active st" "co_status_valid ob"
  using assms
  by (auto simp add: blockers_for_observation_def bit_conditions Let_def)

section \<open>Authorization of a software stop\<close>

abbreviation software_candidate :: "charge_state \<Rightarrow> bool" where
  "software_candidate st \<equiv> cs_candidate (ct_snapshot st) = BATTERY_CHARGE_CANDIDATE_SOFTWARE_COULOMB_FULL"

lemma freeze_candidate [simp]:
  "cs_candidate (freeze_target p s) = cs_candidate s" "cs_candidate (freeze_deficit s) = cs_candidate s"
  "cs_candidate (freeze_identity st p ob s) = cs_candidate s"
  by (simp_all add: freeze_target_def freeze_deficit_def freeze_identity_def Let_def)

lemma candidate_unchanged [simp]:
  "cs_candidate (ct_snapshot (fst (supervise_attach ob st))) = cs_candidate (ct_snapshot st)"
  "cs_candidate (ct_snapshot (supervise_view live ob st)) = cs_candidate (ct_snapshot st)"
  "cs_candidate (ct_snapshot (supervise_input live ob st)) = cs_candidate (ct_snapshot st)"
  "cs_candidate (ct_snapshot (fst (supervise_admit p ob st))) = cs_candidate (ct_snapshot st)"
  "cs_candidate (ct_snapshot (supervise_blockers p ob st)) = cs_candidate (ct_snapshot st)"
  by (simp_all add: supervise_attach_def supervise_view_def supervise_input_def supervise_admit_def
      freeze_admission_def supervise_blockers_def Let_def)

lemma curve_candidate [simp]: "cs_candidate (curve_after_minute mi st s) = cs_candidate s"
  by (simp add: curve_after_minute_def Let_def)

lemma minute_unchanged [simp]:
  "cs_candidate (ct_snapshot (fst (observe_minute ob st))) = cs_candidate (ct_snapshot st)"
  "cs_phase (ct_snapshot (fst (observe_minute ob st))) = cs_phase (ct_snapshot st)"
  by (simp_all add: observe_minute_def store_minute_sample_def close_minute_def Let_def)

lemma integrate_unchanged [simp]:
  "cs_candidate (ct_snapshot (integrate_distinct_sample ob st)) = cs_candidate (ct_snapshot st)"
  by (simp add: integrate_distinct_sample_def Let_def)

lemma samples_unchanged [simp]:
  "cs_candidate (ct_snapshot (fst (supervise_samples live fresh ob st))) = cs_candidate (ct_snapshot st)"
  "cs_phase (ct_snapshot (fst (supervise_samples live fresh ob st))) = cs_phase (ct_snapshot st)"
  by (simp_all add: supervise_samples_def Let_def)

lemma fault_candidate:
  "software_candidate (fst (supervise_fault live ob st)) \<Longrightarrow>
     software_candidate st \<or> cs_phase (ct_snapshot (fst (supervise_fault live ob st))) = BATTERY_CHARGE_PHASE_COMPLETE_BQ"
  by (auto simp add: supervise_fault_def degrade_def mark_degraded_def split: if_splits)

lemma completion_candidate:
  "software_candidate (fst (supervise_completion p ob st)) \<Longrightarrow> software_candidate st"
  by (auto simp add: supervise_completion_def complete_bq_def Let_def split: if_splits)

lemma completion_charging:
  "cs_phase (ct_snapshot (fst (supervise_completion p ob st))) = BATTERY_CHARGE_PHASE_CHARGING \<Longrightarrow>
     cs_phase (ct_snapshot st) = BATTERY_CHARGE_PHASE_CHARGING"
  by (auto simp add: supervise_completion_def complete_bq_def Let_def split: if_splits)

lemma admit_charging:
  "cs_phase (ct_snapshot (fst (supervise_admit p ob st))) = BATTERY_CHARGE_PHASE_CHARGING \<Longrightarrow>
     cs_phase (ct_snapshot st) \<noteq> BATTERY_CHARGE_PHASE_COMPLETE_BQ"
  by (auto simp add: supervise_admit_def admissible_def split: if_splits)

text \<open>The state right before the stop decision.\<close>

definition before_stop :: "charge_profile \<Rightarrow> charge_observation \<Rightarrow> charge_state \<Rightarrow> charge_state" where
  "before_stop p ob st =
     (let live = session_live st;
          st1 = supervise_view live ob st;
          fresh = distinct_sample live ob st1
      in fst (supervise_completion p ob (fst (supervise_samples live fresh ob
           (fst (supervise_admit p ob (fst (supervise_fault live ob (supervise_input live ob st1)))))))))"

lemma attached_fst:
  "fst (supervise_attached p ob st) =
     fst (supervise_stopping p ob (fst (supervise_stop (supervise_blockers p ob (before_stop p ob st)))))"
  by (simp add: supervise_attached_def before_stop_def Let_def)

lemma attached_stop_bit:
  "snd (supervise_attached p ob st) AND CHARGE_RESULT_STOP_REQUESTED =
     snd (supervise_stop (supervise_blockers p ob (before_stop p ob st))) AND CHARGE_RESULT_STOP_REQUESTED"
  by (simp add: supervise_attached_def before_stop_def Let_def then_step_snd word_ao_dist no_stop_bit)

lemma update_stop_bit:
  "snd (battery_charge_supervisor_update profile ob st) AND CHARGE_RESULT_STOP_REQUESTED \<noteq> 0 \<Longrightarrow>
     co_charger_present ob \<and>
     snd (supervise_attached (case profile of None \<Rightarrow> REVB2_PROFILE | Some p \<Rightarrow> p) ob
       (fst (supervise_attach ob st))) AND CHARGE_RESULT_STOP_REQUESTED \<noteq> 0"
  by (simp add: battery_charge_supervisor_update_def supervise_detach_def then_step_snd word_ao_dist
      no_stop_bit split: if_splits)

lemma completion_live:
  "cs_phase (ct_snapshot (fst (supervise_completion p ob st))) \<noteq> BATTERY_CHARGE_PHASE_COMPLETE_BQ \<Longrightarrow>
     cs_phase (ct_snapshot (fst (supervise_completion p ob st))) = cs_phase (ct_snapshot st)"
  by (auto simp add: supervise_completion_def complete_bq_def Let_def split: if_splits)

lemma admit_phase:
  "cs_phase (ct_snapshot (fst (supervise_admit p ob st))) =
     (if admissible p ob st then BATTERY_CHARGE_PHASE_CHARGING else cs_phase (ct_snapshot st))"
  by (simp add: supervise_admit_def freeze_admission_def)

lemma fault_phase:
  "cs_phase (ct_snapshot (fst (supervise_fault live ob st))) \<in> {cs_phase (ct_snapshot st),
     BATTERY_CHARGE_PHASE_COMPLETE_BQ, BATTERY_CHARGE_PHASE_FAULT, BATTERY_CHARGE_PHASE_DEGRADED}"
  by (simp add: supervise_fault_def degrade_def mark_degraded_def)

text \<open>A session that is still open right before the stop decision was open before the observation, and
  has the candidate only when it had it before.\<close>

abbreviation open_phase :: "charge_phase \<Rightarrow> bool" where
  "open_phase ph \<equiv> ph = BATTERY_CHARGE_PHASE_QUALIFYING \<or> ph = BATTERY_CHARGE_PHASE_CHARGING"

lemma before_stop_open:
  assumes "open_phase (cs_phase (ct_snapshot (before_stop p ob st)))"
  shows "open_phase (cs_phase (ct_snapshot st))"
    and "cs_phase (ct_snapshot (before_stop p ob st)) = BATTERY_CHARGE_PHASE_QUALIFYING \<Longrightarrow>
      cs_phase (ct_snapshot st) = BATTERY_CHARGE_PHASE_QUALIFYING"
    and "software_candidate (before_stop p ob st) \<Longrightarrow> software_candidate st"
proof -
  let ?v = "supervise_input (session_live st) ob (supervise_view (session_live st) ob st)"
  let ?f = "fst (supervise_fault (session_live st) ob ?v)"
  let ?a = "fst (supervise_admit p ob ?f)"
  let ?s = "fst (supervise_samples (session_live st)
    (distinct_sample (session_live st) ob (supervise_view (session_live st) ob st)) ob ?a)"
  have b: "before_stop p ob st = fst (supervise_completion p ob ?s)"
    by (simp add: before_stop_def Let_def)
  then have "cs_phase (ct_snapshot (before_stop p ob st)) = cs_phase (ct_snapshot ?s)"
    using assms completion_live [of p ob ?s] by auto
  then have a: "cs_phase (ct_snapshot (before_stop p ob st)) = cs_phase (ct_snapshot ?a)"
    by simp
  then have f: "open_phase (cs_phase (ct_snapshot ?f))"
    using assms by (auto simp add: admit_phase admissible_def split: if_splits)
  then have v: "cs_phase (ct_snapshot ?f) = cs_phase (ct_snapshot st)"
    using fault_phase [of "session_live st" ob ?v] by auto
  show "open_phase (cs_phase (ct_snapshot st))"
    using f v by simp
  show "cs_phase (ct_snapshot st) = BATTERY_CHARGE_PHASE_QUALIFYING"
    if "cs_phase (ct_snapshot (before_stop p ob st)) = BATTERY_CHARGE_PHASE_QUALIFYING"
    using a that v by (simp add: admit_phase split: if_splits)
  assume "software_candidate (before_stop p ob st)"
  then have "software_candidate ?f"
    using completion_candidate by (fastforce simp add: before_stop_def Let_def)
  then show "software_candidate st"
    using fault_candidate [of "session_live st" ob ?v] f by auto
qed

lemma stop_bit_phase:
  assumes "snd (supervise_stop st) AND CHARGE_RESULT_STOP_REQUESTED \<noteq> 0"
  shows "cs_phase (ct_snapshot st) = BATTERY_CHARGE_PHASE_CHARGING" "0 \<le> cs_net_input_nah (ct_snapshot st)"
  using assms by (simp_all add: supervise_stop_def Let_def split: if_splits)

definition stop_grounds :: "charge_terminal \<Rightarrow> charge_snapshot \<Rightarrow> bool" where
  "stop_grounds reason s \<longleftrightarrow>
     reason = BATTERY_CHARGE_TERMINAL_SOFTWARE_COULOMB_FULL \<and> cs_blockers s = 0 \<and>
       (cs_candidate s = BATTERY_CHARGE_CANDIDATE_SOFTWARE_COULOMB_FULL \<or>
        cs_target_valid s \<and> cs_target_input_nah s \<le> of_int (cs_net_input_nah s)) \<or>
     reason = BATTERY_CHARGE_TERMINAL_SAFETY_CHARGE_LIMIT \<and>
       cs_policy s \<noteq> BATTERY_CHARGE_POLICY_OBSERVE \<and>
       cs_blockers s AND NOT SAFETY_IGNORED = 0 \<and> cs_safety_input_nah s \<noteq> 0 \<and>
       cs_safety_input_nah s \<le> of_int (cs_net_input_nah s)"

lemma stop_bit_cases:
  assumes bit: "snd (supervise_stop st) AND CHARGE_RESULT_STOP_REQUESTED \<noteq> 0"
  obtains c reason where "stop_grounds reason (ct_snapshot st)"
    "fst (supervise_stop st) = fst (request_stop reason (upd_snap (\<lambda>s. s\<lparr>cs_candidate := c\<rparr>) st))"
proof -
  let ?st1 = "note_target st"
  have same: "?st1 = upd_snap (\<lambda>s. s\<lparr>cs_candidate := cs_candidate (ct_snapshot ?st1)\<rparr>) st"
    by (simp add: note_target_def upd_snap_def)
  have "snd (decide_stop ?st1) AND CHARGE_RESULT_STOP_REQUESTED \<noteq> 0" "supervise_stop st = decide_stop ?st1"
    using bit by (simp_all add: supervise_stop_def split: if_splits)
  then consider (full) "supervise_stop st = request_stop BATTERY_CHARGE_TERMINAL_SOFTWARE_COULOMB_FULL ?st1"
      "software_candidate ?st1" "cs_blockers (ct_snapshot ?st1) = 0"
    | (safe) "supervise_stop st = request_stop BATTERY_CHARGE_TERMINAL_SAFETY_CHARGE_LIMIT ?st1"
      "safety_authorized (ct_snapshot ?st1)"
    by (auto simp add: decide_stop_def split: if_splits)
  then show thesis
  proof cases
    case full
    then have "stop_grounds BATTERY_CHARGE_TERMINAL_SOFTWARE_COULOMB_FULL (ct_snapshot st)"
      by (auto simp add: stop_grounds_def note_target_def split: if_splits)
    then show thesis
      using full(1) same by (metis that)
  next
    case safe
    then have "stop_grounds BATTERY_CHARGE_TERMINAL_SAFETY_CHARGE_LIMIT (ct_snapshot st)"
      by (auto simp add: stop_grounds_def safety_authorized_def note_target_def split: if_splits)
    then show thesis
      using safe(1) same by (metis that)
  qed
qed

lemma stopping_unchanged [simp]:
  "cs_policy (ct_snapshot (fst (supervise_stopping p ob st))) = cs_policy (ct_snapshot st)"
  "cs_admitted (ct_snapshot (fst (supervise_stopping p ob st))) = cs_admitted (ct_snapshot st)"
  "cs_session_authoritative (ct_snapshot (fst (supervise_stopping p ob st))) =
     cs_session_authoritative (ct_snapshot st)"
  "cs_blockers (ct_snapshot (fst (supervise_stopping p ob st))) = cs_blockers (ct_snapshot st)"
  "cs_net_input_nah (ct_snapshot (fst (supervise_stopping p ob st))) = cs_net_input_nah (ct_snapshot st)"
  "cs_stop_requested (ct_snapshot (fst (supervise_stopping p ob st))) = cs_stop_requested (ct_snapshot st)"
  "cs_stop_reason (ct_snapshot (fst (supervise_stopping p ob st))) = cs_stop_reason (ct_snapshot st)"
  "cs_target_valid (ct_snapshot (fst (supervise_stopping p ob st))) = cs_target_valid (ct_snapshot st)"
  "cs_target_input_nah (ct_snapshot (fst (supervise_stopping p ob st))) = cs_target_input_nah (ct_snapshot st)"
  "cs_safety_input_nah (ct_snapshot (fst (supervise_stopping p ob st))) = cs_safety_input_nah (ct_snapshot st)"
  by (simp_all add: supervise_stopping_def confirm_stopped_def Let_def)

lemma request_stop_sel [simp]:
  "ct_snapshot (fst (request_stop reason st)) = (ct_snapshot st)
     \<lparr>cs_phase := BATTERY_CHARGE_PHASE_STOPPING, cs_stop_requested := True, cs_stop_reason := reason\<rparr>"
  by (simp add: request_stop_def)

lemma blockers_sel [simp]:
  "ct_snapshot (supervise_blockers p ob st) = (ct_snapshot st)\<lparr>cs_blockers := blockers_for_observation st p ob\<rparr>"
  by (simp add: supervise_blockers_def)

text \<open>A session with its past: the snapshots published since the charger was attached or the session
  was restored, newest first.\<close>

inductive charge_history :: "charge_state \<Rightarrow> charge_snapshot list \<Rightarrow> bool" where
  boot: "charge_history (battery_charge_supervisor_init policy) []"
| attached: "charge_history st h \<Longrightarrow> co_charger_present ob \<Longrightarrow>
    st' = fst (battery_charge_supervisor_update profile ob st) \<Longrightarrow> charge_history st' (ct_snapshot st' # h)"
| absent: "charge_history st h \<Longrightarrow> \<not> co_charger_present ob \<Longrightarrow>
    charge_history (fst (battery_charge_supervisor_update profile ob st)) []"
| seed: "charge_history st h \<Longrightarrow> charge_history (battery_charge_supervisor_seed_generation g st) h"
| restore: "battery_charge_supervisor_restore_active policy profile p ob = Some st \<Longrightarrow> charge_history st []"
| reject: "charge_history st h \<Longrightarrow> co_charger_present ob \<Longrightarrow>
    charge_history (battery_charge_supervisor_reject_restore policy g profile ob st) []"

text \<open>The coulomb target is met by what the gauge measured.\<close>

definition target_met :: "charge_snapshot \<Rightarrow> bool" where
  "target_met s \<longleftrightarrow> cs_target_valid s \<and> 0 \<le> cs_net_input_nah s \<and>
     cs_target_input_nah s \<le> of_int (cs_net_input_nah s)"

definition candidate_earned :: "charge_state \<Rightarrow> charge_snapshot list \<Rightarrow> bool" where
  "candidate_earned st h \<longleftrightarrow>
     (software_candidate st \<longrightarrow>
        cs_phase (ct_snapshot st) \<noteq> BATTERY_CHARGE_PHASE_QUALIFYING \<and>
        cs_phase (ct_snapshot st) \<noteq> BATTERY_CHARGE_PHASE_DETACHED \<and>
        (cs_phase (ct_snapshot st) = BATTERY_CHARGE_PHASE_CHARGING \<longrightarrow>
           (\<exists>s0\<in>set h. target_met s0 \<and> frozen_evidence s0 = frozen_evidence (ct_snapshot st))))"

lemma history_reachable: "charge_history st h \<Longrightarrow> charge_reachable st"
  by (induction rule: charge_history.induct) (auto intro: charge_reachable.intros)

lemma reachable_ok: "charge_reachable st \<Longrightarrow> charge_ok st"
  by (induction rule: charge_reachable.induct) (simp_all add: init_ok update_ok seed_ok reject_ok restore_ok)

lemma stopping_phase:
  assumes "cs_phase (ct_snapshot st) = BATTERY_CHARGE_PHASE_STOPPING"
  shows "cs_phase (ct_snapshot (fst (supervise_stopping p ob st))) \<in> {BATTERY_CHARGE_PHASE_STOPPING,
    BATTERY_CHARGE_PHASE_COMPLETE_SOFTWARE, BATTERY_CHARGE_PHASE_STOPPED_SAFETY, BATTERY_CHARGE_PHASE_FAULT}"
  using assms by (simp add: supervise_stopping_def confirm_stopped_def Let_def)

lemma stopping_open:
  assumes "open_phase (cs_phase (ct_snapshot (fst (supervise_stopping p ob st))))"
  shows "fst (supervise_stopping p ob st) = st"
proof (cases "cs_phase (ct_snapshot st) = BATTERY_CHARGE_PHASE_STOPPING")
  case True
  then show ?thesis
    using stopping_phase [OF True, of p ob] assms by auto
qed (simp add: supervise_stopping_def)

lemma decide_open:
  assumes "open_phase (cs_phase (ct_snapshot (fst (decide_stop st))))"
  shows "fst (decide_stop st) = st"
proof (rule ccontr)
  assume "fst (decide_stop st) \<noteq> st"
  then obtain r where "fst (decide_stop st) = fst (request_stop r st)"
    by (simp add: decide_stop_def split: if_splits)
  then show False
    using assms by simp
qed

lemma stop_open:
  assumes "open_phase (cs_phase (ct_snapshot (fst (supervise_stop st))))"
  shows "cs_phase (ct_snapshot (fst (supervise_stop st))) = cs_phase (ct_snapshot st)"
    and "software_candidate (fst (supervise_stop st)) \<Longrightarrow> software_candidate st \<or>
      cs_phase (ct_snapshot st) = BATTERY_CHARGE_PHASE_CHARGING \<and>
      target_met (ct_snapshot (fst (supervise_stop st)))"
proof -
  let ?n = "note_target st"
  have "fst (supervise_stop st) = st \<or> cs_phase (ct_snapshot st) = BATTERY_CHARGE_PHASE_CHARGING \<and>
      0 \<le> cs_net_input_nah (ct_snapshot st) \<and> fst (supervise_stop st) = ?n"
    using assms decide_open [of ?n] by (auto simp add: supervise_stop_def split: if_splits)
  moreover have "software_candidate ?n \<Longrightarrow> 0 \<le> cs_net_input_nah (ct_snapshot st) \<Longrightarrow>
      software_candidate st \<or> target_met (ct_snapshot ?n)"
    by (simp add: note_target_def target_met_def split: if_splits)
  ultimately show "cs_phase (ct_snapshot (fst (supervise_stop st))) = cs_phase (ct_snapshot st)"
    "software_candidate (fst (supervise_stop st)) \<Longrightarrow> software_candidate st \<or>
      cs_phase (ct_snapshot st) = BATTERY_CHARGE_PHASE_CHARGING \<and>
      target_met (ct_snapshot (fst (supervise_stop st)))"
    by auto
qed

lemma attached_open:
  fixes p ob st
  defines "st' \<equiv> fst (supervise_attached p ob st)"
  assumes "open_phase (cs_phase (ct_snapshot st'))"
  shows "open_phase (cs_phase (ct_snapshot st))"
    and "cs_phase (ct_snapshot st') = BATTERY_CHARGE_PHASE_QUALIFYING \<Longrightarrow>
      cs_phase (ct_snapshot st) = BATTERY_CHARGE_PHASE_QUALIFYING"
    and "software_candidate st' \<Longrightarrow> software_candidate st \<or>
      cs_phase (ct_snapshot st') = BATTERY_CHARGE_PHASE_CHARGING \<and> target_met (ct_snapshot st')"
proof -
  let ?b = "before_stop p ob st"
  let ?k = "supervise_blockers p ob ?b"
  have "st' = fst (supervise_stopping p ob (fst (supervise_stop ?k)))"
    by (simp add: st'_def attached_fst)
  then have st': "st' = fst (supervise_stop ?k)"
    using stopping_open assms(2) by simp
  note o = stop_open [of ?k, folded st', OF assms(2)]
  have b: "open_phase (cs_phase (ct_snapshot ?b))"
    using o(1) assms(2) by simp
  show "open_phase (cs_phase (ct_snapshot st))"
    by (rule before_stop_open(1) [OF b])
  show "cs_phase (ct_snapshot st) = BATTERY_CHARGE_PHASE_QUALIFYING"
    if "cs_phase (ct_snapshot st') = BATTERY_CHARGE_PHASE_QUALIFYING"
    using o(1) that before_stop_open(2) [OF b] by simp
  show "software_candidate st \<or>
      cs_phase (ct_snapshot st') = BATTERY_CHARGE_PHASE_CHARGING \<and> target_met (ct_snapshot st')"
    if "software_candidate st'"
    using o that before_stop_open(3) [OF b] by auto
qed

lemma kept_present: "kept st st' \<Longrightarrow> ct_physically_attached st' = ct_physically_attached st"
  by (simp add: kept_def)

lemmas stage_present =
  kept_present [OF view_kept] kept_present [OF input_kept] kept_present [OF fault_kept]
  kept_present [OF samples_kept] kept_present [OF completion_kept] kept_present [OF blockers_kept]
  kept_present [OF stop_kept] kept_present [OF stopping_kept]

lemma attached_present: "ct_physically_attached (fst (supervise_attached p ob st)) = ct_physically_attached st"
  by (simp add: supervise_attached_def Let_def stage_present supervise_admit_def freeze_admission_def)

lemma attached_earned:
  assumes j: "candidate_earned st h" and ok: "charge_ok (fst (supervise_attached p ob st))"
    and att: "ct_physically_attached (fst (supervise_attached p ob st))"
  shows "candidate_earned (fst (supervise_attached p ob st)) (ct_snapshot (fst (supervise_attached p ob st)) # h)"
proof -
  let ?st' = "fst (supervise_attached p ob st)"
  have "cs_phase (ct_snapshot ?st') \<noteq> BATTERY_CHARGE_PHASE_DETACHED"
    using ok att by (simp add: charge_ok_def phase_ok_def Let_def)
  moreover {
    assume c: "software_candidate ?st'" and ph: "open_phase (cs_phase (ct_snapshot ?st'))"
    note o = attached_open [OF ph]
    have "cs_phase (ct_snapshot ?st') = BATTERY_CHARGE_PHASE_CHARGING \<and>
        (\<exists>s0\<in>set (ct_snapshot ?st' # h). target_met s0 \<and> frozen_evidence s0 = frozen_evidence (ct_snapshot ?st'))"
    proof (cases "software_candidate st")
      case True
      then have e: "cs_phase (ct_snapshot st) = BATTERY_CHARGE_PHASE_CHARGING"
        "\<exists>s0\<in>set h. target_met s0 \<and> frozen_evidence s0 = frozen_evidence (ct_snapshot st)"
        using j o(1) by (auto simp add: candidate_earned_def)
      have "kept st ?st'"
        by (rule stages_kept) (simp add: e)
      then show ?thesis
        using e ph o(2) by (auto simp add: kept_def)
    next
      case False
      then show ?thesis
        using o(3) [OF c] by simp
    qed
  }
  ultimately show ?thesis
    by (auto simp add: candidate_earned_def)
qed

lemma detached_candidate [simp]:
  "cs_candidate (detached_snapshot policy g) = BATTERY_CHARGE_CANDIDATE_NONE"
  by (simp add: detached_snapshot_def snapshot_zero_def)

lemma absent_earned:
  assumes "candidate_earned st h" "charge_ok st"
  shows "candidate_earned (fst (supervise_detach ob st)) []"
  using assms
  by (auto simp add: supervise_detach_def reset_session_fields_def candidate_earned_def charge_ok_def
      phase_ok_def Let_def)

lemma restored_earned:
  assumes "battery_charge_supervisor_restore_active policy profile p ob = Some st"
  shows "candidate_earned st []"
proof -
  from assms have st: "st = restored_state policy (case profile of None \<Rightarrow> REVB2_PROFILE | Some q \<Rightarrow> q) p ob"
    and act: "pe_active_session_valid p" and v: "battery_charge_supervisor_persisted_valid (Some p)"
    by (auto simp add: battery_charge_supervisor_restore_active_def Let_def split: if_splits)
  have "latched_full p \<Longrightarrow> pe_inhibit_latched p"
    using v act by (auto simp add: battery_charge_supervisor_persisted_valid_def persisted_latch_valid_def
        latched_full_def split: if_splits)
  then show ?thesis
    by (auto simp add: st candidate_earned_def restored_state_def restore_stop_def restore_frozen_def
        restore_session_def restored_phase_def Let_def)
qed

lemma history_earned: "charge_history st h \<Longrightarrow> candidate_earned st h"
proof (induction rule: charge_history.induct)
  case (attached st h ob st' profile)
  let ?a = "fst (supervise_attach ob st)"
  let ?p = "case profile of None \<Rightarrow> REVB2_PROFILE | Some p \<Rightarrow> p"
  have ok: "charge_ok st"
    by (rule reachable_ok [OF history_reachable [OF attached.hyps(1)]])
  have st': "st' = fst (supervise_attached ?p ob ?a)"
    using attached.hyps by (simp add: battery_charge_supervisor_update_def)
  have "candidate_earned ?a h"
  proof (cases "ct_physically_attached st")
    case True
    then show ?thesis
      using attached.IH by (simp add: attach_idle)
  next
    case False
    then have "\<not> software_candidate st"
      using attached.IH ok by (auto simp add: candidate_earned_def charge_ok_def phase_ok_def Let_def)
    then show ?thesis
      by (simp add: candidate_earned_def)
  qed
  moreover have "charge_ok ?a"
    by (rule attach_ok [OF ok])
  moreover have "ct_physically_attached ?a"
    by (simp add: supervise_attach_def)
  ultimately show ?case
    using attached_earned attached_stages_ok attached_present st' by simp
next
  case (absent st h ob profile)
  then show ?case
    by (simp add: battery_charge_supervisor_update_def absent_earned reachable_ok history_reachable)
next
  case (restore policy profile p ob st)
  then show ?case
    by (rule restored_earned)
next
  case (seed st h g)
  then show ?case
    by (auto simp add: battery_charge_supervisor_seed_generation_def candidate_earned_def)
next
  case (reject st h ob policy g profile)
  then show ?case
    by (simp add: battery_charge_supervisor_reject_restore_def battery_charge_supervisor_init_def
        candidate_earned_def Let_def)
qed (simp add: battery_charge_supervisor_init_def candidate_earned_def)

text \<open>C9: a software stop is requested only under an enforcing policy, for an admitted and authoritative
  session observed with valid sample, current, status, continuity and confirmed charger control on
  the profile's chemistry and hardware; and then either nothing blocks it and the gauge has shown,
  now or at an earlier observation since the charger was attached or the session restored, a net
  input of at least the session's own coulomb target, on the same frozen evidence; or the
  independent safety limit is reached.  The stop is of the matching kind.  Nothing of an earlier
  session can cause a stop.\<close>

theorem software_stop_authorized:
  assumes past: "charge_history st h"
    and bit: "snd (battery_charge_supervisor_update profile ob st) AND CHARGE_RESULT_STOP_REQUESTED \<noteq> 0"
  shows "let s = ct_snapshot (fst (battery_charge_supervisor_update profile ob st));
             p = (case profile of None \<Rightarrow> REVB2_PROFILE | Some p \<Rightarrow> p)
         in cs_policy s \<noteq> BATTERY_CHARGE_POLICY_OBSERVE \<and> cs_admitted s \<and> cs_session_authoritative s \<and>
            cs_stop_requested s \<and> 0 \<le> cs_net_input_nah s \<and>
            co_charger_present ob \<and> co_sample_valid ob \<and> co_current_valid ob \<and> co_status_valid ob \<and>
            co_continuity_valid ob \<and> co_authoritative ob \<and> enable_confirmed ob \<and>
            co_chemistry ob = cp_chemistry p \<and> co_hardware_profile_id ob = cp_hardware_profile_id p \<and>
            (cs_stop_reason s = BATTERY_CHARGE_TERMINAL_SOFTWARE_COULOMB_FULL \<and> cs_blockers s = 0 \<and>
               (\<exists>s0\<in>set (s # h). target_met s0 \<and> frozen_evidence s0 = frozen_evidence s) \<or>
             cs_stop_reason s = BATTERY_CHARGE_TERMINAL_SAFETY_CHARGE_LIMIT \<and>
               cs_safety_input_nah s \<noteq> 0 \<and> cs_safety_input_nah s \<le> of_int (cs_net_input_nah s))"
proof -
  let ?p = "case profile of None \<Rightarrow> REVB2_PROFILE | Some p \<Rightarrow> p"
  let ?a = "fst (supervise_attach ob st)"
  let ?b = "before_stop ?p ob ?a"
  let ?k = "supervise_blockers ?p ob ?b"
  let ?s = "ct_snapshot (fst (battery_charge_supervisor_update profile ob st))"
  from update_stop_bit [OF bit] have on: "co_charger_present ob"
    and sb: "snd (supervise_stop ?k) AND CHARGE_RESULT_STOP_REQUESTED \<noteq> 0"
    by (simp_all add: attached_stop_bit)
  from stop_bit_cases [OF sb] obtain c reason where g: "stop_grounds reason (ct_snapshot ?k)"
    and r: "fst (supervise_stop ?k) = fst (request_stop reason (upd_snap (\<lambda>s. s\<lparr>cs_candidate := c\<rparr>) ?k))" .
  have ph: "cs_phase (ct_snapshot ?b) = BATTERY_CHARGE_PHASE_CHARGING" "0 \<le> cs_net_input_nah (ct_snapshot ?b)"
    using stop_bit_phase [OF sb] by simp_all
  have "blockers_for_observation ?b ?p ob AND NOT SAFETY_IGNORED = 0"
    using g by (auto simp add: stop_grounds_def)
  note clear = blockers_clear [OF this]
  have "\<not> expected_stop_control ?b ob"
    by (simp add: expected_stop_control_def ph)
  moreover have u: "fst (battery_charge_supervisor_update profile ob st) =
      fst (supervise_stopping ?p ob (fst (supervise_stop ?k)))"
    using on by (simp add: battery_charge_supervisor_update_def attached_fst)
  moreover have "\<exists>s0\<in>set h. target_met s0 \<and> frozen_evidence s0 = frozen_evidence ?s"
    if "software_candidate ?b"
  proof -
    have "software_candidate ?a" "open_phase (cs_phase (ct_snapshot ?a))"
      using before_stop_open(1,3) [of ?p ob ?a] ph that by auto
    then have c: "software_candidate st"
      by simp
    then have "cs_phase (ct_snapshot st) \<noteq> BATTERY_CHARGE_PHASE_DETACHED"
      using history_earned [OF past] by (simp add: candidate_earned_def)
    then have "ct_physically_attached st"
      using reachable_ok [OF history_reachable [OF past]] by (auto simp add: charge_ok_def phase_ok_def Let_def)
    then have a: "?a = st"
      by (simp add: attach_idle)
    then have e: "cs_phase (ct_snapshot st) = BATTERY_CHARGE_PHASE_CHARGING"
      "\<exists>s0\<in>set h. target_met s0 \<and> frozen_evidence s0 = frozen_evidence (ct_snapshot st)"
      using history_earned [OF past] c \<open>open_phase (cs_phase (ct_snapshot ?a))\<close>
      by (auto simp add: candidate_earned_def)
    have "kept st (fst (supervise_attached ?p ob st))"
      by (rule stages_kept) (simp add: e)
    then have "frozen_evidence ?s = frozen_evidence (ct_snapshot st)"
      using on a by (simp add: battery_charge_supervisor_update_def kept_def)
    then show ?thesis
      using e(2) by simp
  qed
  moreover have "target_met ?s" if "cs_target_valid (ct_snapshot ?b)"
    "cs_target_input_nah (ct_snapshot ?b) \<le> of_int (cs_net_input_nah (ct_snapshot ?b))"
    using that ph(2) by (simp add: u r target_met_def)
  ultimately show ?thesis
    using clear on g ph(2) unfolding u r Let_def
    by (auto simp add: stop_grounds_def)
qed

definition target_reached :: charge_observation where
  "target_reached = plugged_in\<lparr>co_now_ms := 9000, co_sample_sequence := 2, co_session_delta_nah := 720000000\<rparr>"

lemma charging_session_history: "charge_history charging_session [ct_snapshot charging_session]"
  unfolding charging_session_def
  by (rule charge_history.attached [OF charge_history.boot _ refl]) (simp add: plugged_in_def)

theorem software_stop_authorized_witness:
  "let s = ct_snapshot (fst (battery_charge_supervisor_update None target_reached charging_session))
   in cs_stop_requested s \<and> cs_stop_reason s = BATTERY_CHARGE_TERMINAL_SOFTWARE_COULOMB_FULL \<and> target_met s"
proof -
  have bit: "snd (battery_charge_supervisor_update None target_reached charging_session)
      AND CHARGE_RESULT_STOP_REQUESTED \<noteq> 0"
    and no: "\<not> target_met (ct_snapshot charging_session)"
    and safe: "cs_stop_reason (ct_snapshot (fst (battery_charge_supervisor_update None target_reached charging_session)))
      \<noteq> BATTERY_CHARGE_TERMINAL_SAFETY_CHARGE_LIMIT"
    by code_simp+
  show ?thesis
    using software_stop_authorized [OF charging_session_history bit] no safe by (auto simp add: Let_def)
qed


section \<open>A pending stop\<close>

abbreviation charger_faulted :: "charge_observation \<Rightarrow> bool" where
  "charger_faulted ob \<equiv> co_status_valid ob \<and> co_charger_state ob = BATTERY_CHARGER_FAULT"

abbreviation reads_back_off :: "charge_observation \<Rightarrow> bool" where
  "reads_back_off ob \<equiv> co_enable_valid ob \<and> \<not> co_enable_requested ob \<and> \<not> co_enable_readback ob"

definition stop_fields where
  "stop_fields st =
     ((cs_phase (ct_snapshot st), cs_terminal_reason (ct_snapshot st), cs_full_qualified (ct_snapshot st),
       cs_stop_reason (ct_snapshot st), cs_session_authoritative (ct_snapshot st)),
      ct_stop_control_seen st, ct_stop_requested_ms st)"

lemma samples_stop_fields: "stop_fields (fst (supervise_samples live fresh ob st)) = stop_fields st"
proof -
  have "stop_fields (integrate_distinct_sample ob x) = stop_fields x" for x
    by (simp add: stop_fields_def integrate_distinct_sample_def Let_def)
  moreover have "stop_fields (close_minute ob x) = stop_fields x" for x
    by (simp add: stop_fields_def close_minute_def Let_def)
  moreover have "stop_fields (store_minute_sample ob x) = stop_fields x" for x
    by (simp add: stop_fields_def store_minute_sample_def)
  moreover have "stop_fields (upd_snap (\<lambda>s. s\<lparr>cs_compensated_mv := f s\<rparr>) x) = stop_fields x" for x f
    by (simp add: stop_fields_def)
  ultimately show ?thesis
    by (simp add: supervise_samples_def observe_minute_def Let_def)
qed

text \<open>What a stopping session has become right before the last stage of an update.\<close>

lemma stopping_before:
  assumes ph: "cs_phase (ct_snapshot st) = BATTERY_CHARGE_PHASE_STOPPING"
  shows "before_stop p ob st = fst (supervise_samples True (distinct_sample True ob (supervise_view True ob st)) ob
      (fst (supervise_fault True ob (supervise_input True ob (supervise_view True ob st)))))"
proof -
  let ?v = "supervise_input True ob (supervise_view True ob st)"
  let ?f = "fst (supervise_fault True ob ?v)"
  have live: "session_live st"
    by (simp add: session_live_def ph)
  have f: "cs_phase (ct_snapshot ?f) \<in>
      {BATTERY_CHARGE_PHASE_STOPPING, BATTERY_CHARGE_PHASE_COMPLETE_BQ, BATTERY_CHARGE_PHASE_FAULT}"
    using ph by (simp add: supervise_fault_def charging_def)
  then have a: "fst (supervise_admit p ob ?f) = ?f"
    by (intro admit_kept) auto
  have c: "fst (supervise_completion p ob s) = s" if "cs_phase (ct_snapshot s) = cs_phase (ct_snapshot ?f)" for s
    using f that by (auto simp add: supervise_completion_def awaiting_completion_def)
  show ?thesis
    using live a by (simp add: before_stop_def Let_def c)
qed

lemma stopping_update:
  assumes ph: "cs_phase (ct_snapshot st) = BATTERY_CHARGE_PHASE_STOPPING" and at: "ct_physically_attached st"
    and on: "co_charger_present ob"
  shows "fst (battery_charge_supervisor_update (Some p) ob st) =
    fst (supervise_stopping p ob (supervise_blockers p ob (before_stop p ob st)))"
proof -
  let ?k = "supervise_blockers p ob (before_stop p ob st)"
  have "cs_phase (ct_snapshot ?k) \<noteq> BATTERY_CHARGE_PHASE_CHARGING"
    using ph by (simp add: stopping_before supervise_fault_def charging_def)
  then have "supervise_stop ?k = (?k, 0)"
    by (simp add: supervise_stop_def)
  then show ?thesis
    using at on by (simp add: battery_charge_supervisor_update_def attach_idle attached_fst)
qed

definition stopping_since :: "charge_observation \<Rightarrow> charge_state \<Rightarrow> u32" where
  "stopping_since ob st = (if ct_stop_control_seen st then ct_stop_requested_ms st else co_now_ms ob)"

text \<open>Phase, cause and full-charge verdict a stopping session must have after an observation.\<close>

definition stop_verdict ::
    "charge_profile \<Rightarrow> charge_observation \<Rightarrow> charge_state \<Rightarrow> charge_phase \<times> charge_terminal \<times> bool" where
  "stop_verdict p ob st =
     (let s = ct_snapshot st in
      if charger_faulted ob then
        (if coulomb_full_evidence (supervise_input True ob (supervise_view True ob st)) ob
         then (BATTERY_CHARGE_PHASE_COMPLETE_BQ, BATTERY_CHARGE_TERMINAL_BQ_FAULT_AFTER_COULOMB_FULL, True)
         else (BATTERY_CHARGE_PHASE_FAULT, BATTERY_CHARGE_TERMINAL_BQ_FAULT, False))
      else if \<not> co_supervisor_inhibit_active ob
      then (BATTERY_CHARGE_PHASE_STOPPING, cs_terminal_reason s, False)
      else if reads_back_off ob then
        (if cs_stop_reason s = BATTERY_CHARGE_TERMINAL_SOFTWARE_COULOMB_FULL
         then (BATTERY_CHARGE_PHASE_COMPLETE_SOFTWARE, BATTERY_CHARGE_TERMINAL_SOFTWARE_COULOMB_FULL,
               cs_session_authoritative s \<and> co_authoritative ob)
         else (BATTERY_CHARGE_PHASE_STOPPED_SAFETY, BATTERY_CHARGE_TERMINAL_SAFETY_CHARGE_LIMIT, False))
      else if cp_control_confirm_ms p \<le> co_now_ms ob - stopping_since ob st
      then (BATTERY_CHARGE_PHASE_FAULT, BATTERY_CHARGE_TERMINAL_CONTROL_READBACK_FAILED, False)
      else (BATTERY_CHARGE_PHASE_STOPPING, cs_terminal_reason s, False))"

definition verdict_shown :: "charge_state \<Rightarrow> charge_phase \<times> charge_terminal \<times> bool" where
  "verdict_shown st = (cs_phase (ct_snapshot st), cs_terminal_reason (ct_snapshot st), cs_full_qualified (ct_snapshot st))"

lemma view_stop_fields:
  fixes ob :: charge_observation
  assumes "cs_phase (ct_snapshot st) = BATTERY_CHARGE_PHASE_STOPPING" "cs_stop_requested (ct_snapshot st)"
  defines "v \<equiv> supervise_input True ob (supervise_view True ob st)"
  shows "cs_phase (ct_snapshot v) = BATTERY_CHARGE_PHASE_STOPPING"
    and "cs_terminal_reason (ct_snapshot v) = cs_terminal_reason (ct_snapshot st)"
    and "cs_stop_reason (ct_snapshot v) = cs_stop_reason (ct_snapshot st)"
    and "cs_full_qualified (ct_snapshot v) = cs_full_qualified (ct_snapshot st)"
    and "ct_stop_control_seen v = ct_stop_control_seen st" "ct_stop_requested_ms v = ct_stop_requested_ms st"
    and "co_supervisor_inhibit_active ob \<Longrightarrow> reads_back_off ob \<Longrightarrow>
      cs_session_authoritative (ct_snapshot v) = (cs_session_authoritative (ct_snapshot st) \<and> co_authoritative ob)"
  using assms(1,2)
  by (simp_all add: v_def supervise_input_def supervise_view_def expected_stop_control_def Let_def)

lemma stopping_verdict:
  fixes p :: charge_profile
  assumes r: "charge_reachable st" and ph: "cs_phase (ct_snapshot st) = BATTERY_CHARGE_PHASE_STOPPING"
    and on: "co_charger_present ob"
  defines "st' \<equiv> fst (battery_charge_supervisor_update (Some p) ob st)"
  shows "verdict_shown st' = stop_verdict p ob st"
    and "cs_phase (ct_snapshot st') = BATTERY_CHARGE_PHASE_STOPPING \<Longrightarrow>
      cs_stop_reason (ct_snapshot st') = cs_stop_reason (ct_snapshot st) \<and>
      ct_stop_control_seen st' = (ct_stop_control_seen st \<or> co_supervisor_inhibit_active ob) \<and>
      (ct_stop_control_seen st' \<longrightarrow> ct_stop_requested_ms st' = stopping_since ob st)"
proof -
  let ?v = "supervise_input True ob (supervise_view True ob st)"
  let ?f = "fst (supervise_fault True ob ?v)"
  let ?b = "before_stop p ob st"
  have ok: "ct_physically_attached st" "cs_stop_requested (ct_snapshot st)" "\<not> cs_full_qualified (ct_snapshot st)"
    "cs_stop_reason (ct_snapshot st) \<in> {BATTERY_CHARGE_TERMINAL_SOFTWARE_COULOMB_FULL,
       BATTERY_CHARGE_TERMINAL_SAFETY_CHARGE_LIMIT}"
    using reachable_ok [OF r] ph by (auto simp add: charge_ok_def phase_ok_def stop_ok_def full_ok_def Let_def)
  note v = view_stop_fields [OF ph ok(2), of ob]
  have b: "stop_fields ?b = stop_fields ?f"
    by (simp add: stopping_before [OF ph] samples_stop_fields)
  have st': "st' = fst (supervise_stopping p ob (supervise_blockers p ob ?b))"
    using stopping_update [OF ph ok(1) on] by (simp add: st'_def)
  have f: "\<not> charger_faulted ob \<Longrightarrow> ?f = ?v"
    using v(1) by (auto simp add: supervise_fault_def charging_def)
  show shown: "verdict_shown st' = stop_verdict p ob st"
  proof (cases "charger_faulted ob")
    case True
    then show ?thesis
      using b by (simp add: st' stop_fields_def verdict_shown_def stop_verdict_def supervise_fault_def
          supervise_stopping_def Let_def)
  next
    case False
    then show ?thesis
      using b v ok(3,4) unfolding f [OF False]
      by (auto simp add: st' stop_fields_def verdict_shown_def stop_verdict_def supervise_blockers_def
          supervise_stopping_def confirm_stopped_def stopping_since_def Let_def)
  qed
  show "cs_stop_reason (ct_snapshot st') = cs_stop_reason (ct_snapshot st) \<and>
      ct_stop_control_seen st' = (ct_stop_control_seen st \<or> co_supervisor_inhibit_active ob) \<and>
      (ct_stop_control_seen st' \<longrightarrow> ct_stop_requested_ms st' = stopping_since ob st)"
    if stay: "cs_phase (ct_snapshot st') = BATTERY_CHARGE_PHASE_STOPPING"
  proof -
    have "\<not> charger_faulted ob"
      using shown stay by (auto simp add: verdict_shown_def stop_verdict_def Let_def split: if_splits)
    then have "stop_fields ?b = stop_fields ?v"
      using b f by simp
    then show ?thesis
      using v stay
      by (cases "co_supervisor_inhibit_active ob"; cases "ct_stop_control_seen st")
        (auto simp add: st' stop_fields_def supervise_blockers_def supervise_stopping_def
          confirm_stopped_def stopping_since_def Let_def split: if_splits)
  qed
qed

lemma observe_reachable: "charge_reachable st \<Longrightarrow> charge_reachable (observe_all profile obs st)"
  by (induction obs arbitrary: st) (simp_all add: observe_all_def charge_reachable.observe)

lemma observe_all_Cons [simp]:
  "observe_all profile (ob # obs) st = observe_all profile obs (fst (battery_charge_supervisor_update profile ob st))"
  "observe_all profile [] st = st"
  by (simp_all add: observe_all_def)

lemma ended_stays:
  assumes "ended (cs_phase (ct_snapshot st))" "charge_reachable st" "\<forall>ob\<in>set obs. co_charger_present ob"
  shows "ended (cs_phase (ct_snapshot (observe_all profile obs st)))"
  using assms
proof (induction obs arbitrary: st)
  case (Cons ob obs)
  have "ct_physically_attached st"
    using reachable_ok [OF Cons.prems(2)] Cons.prems(1)
    by (auto simp add: charge_ok_def phase_ok_def ended_def Let_def)
  then obtain b where "battery_charge_supervisor_update profile ob st =
      (upd_snap (\<lambda>s. s\<lparr>cs_attached := True, cs_blockers := b\<rparr>) st, 0)"
    using ended_update [OF Cons.prems(1), of ob profile] Cons.prems(3) by auto
  moreover have "charge_reachable (fst (battery_charge_supervisor_update profile ob st))"
    by (rule charge_reachable.observe [OF Cons.prems(2)])
  ultimately show ?case
    using Cons.IH [of "fst (battery_charge_supervisor_update profile ob st)"] Cons.prems by simp
qed simp

lemma stopping_or_ended:
  assumes "verdict_shown st' = stop_verdict p ob st"
  shows "cs_phase (ct_snapshot st') = BATTERY_CHARGE_PHASE_STOPPING \<or> ended (cs_phase (ct_snapshot st'))"
  using assms by (auto simp add: verdict_shown_def stop_verdict_def ended_def Let_def split: if_splits)

lemma seen_run_ends:
  assumes "charge_reachable st" "cs_phase (ct_snapshot st) = BATTERY_CHARGE_PHASE_STOPPING"
    and "ct_stop_control_seen st" "obs \<noteq> []" "\<forall>ob\<in>set obs. co_charger_present ob"
    and "co_supervisor_inhibit_active (last obs)"
    and "cp_control_confirm_ms p \<le> co_now_ms (last obs) - ct_stop_requested_ms st"
  shows "ended (cs_phase (ct_snapshot (observe_all (Some p) obs st)))"
  using assms
proof (induction obs arbitrary: st)
  case (Cons ob obs)
  let ?st' = "fst (battery_charge_supervisor_update (Some p) ob st)"
  have on: "co_charger_present ob"
    using Cons.prems by simp
  note v = stopping_verdict [OF Cons.prems(1,2) on, of p]
  have r: "charge_reachable ?st'"
    by (rule charge_reachable.observe [OF Cons.prems(1)])
  show ?case
  proof (cases "ended (cs_phase (ct_snapshot ?st'))")
    case True
    then show ?thesis
      using ended_stays [OF True r] Cons.prems by simp
  next
    case False
    then have stay: "cs_phase (ct_snapshot ?st') = BATTERY_CHARGE_PHASE_STOPPING"
      using stopping_or_ended [OF v(1)] by simp
    have "obs \<noteq> []"
    proof
      assume "obs = []"
      then have "fst (stop_verdict p ob st) \<noteq> BATTERY_CHARGE_PHASE_STOPPING"
        using Cons.prems by (simp add: stop_verdict_def stopping_since_def Let_def)
      then show False
        using stay by (simp add: v(1) [symmetric] verdict_shown_def)
    qed
    then show ?thesis
      using Cons.IH [OF r stay] v(2) [OF stay] Cons.prems by (simp add: stopping_since_def)
  qed
qed simp

text \<open>C13: what becomes of a requested stop.  Every observation with the charger present leaves exactly
  the phase, cause and full-charge verdict of the stop's table: a charger fault ends the session as
  completed when the coulomb evidence is complete and as a fault otherwise; without the
  supervisor's inhibit the stop stays pending; an enable that reads back off completes it, as a
  full charge only for a coulomb stop of an authoritative session, otherwise as a safety stop; an
  enable that does not read back off within the profile's confirmation time of the first inhibited
  observation is a control fault and never a full charge; before that time the stop stays pending.
  And it never stays pending for good: once the inhibit was seen, the first inhibited observation
  past the confirmation time finds the session ended, whatever was observed in between.\<close>

theorem pending_stop_resolves:
  assumes "charge_reachable st" "cs_phase (ct_snapshot st) = BATTERY_CHARGE_PHASE_STOPPING"
    and "\<forall>ob\<in>set (first # obs). co_charger_present ob"
  shows "verdict_shown (fst (battery_charge_supervisor_update (Some p) first st)) = stop_verdict p first st \<and>
    (co_supervisor_inhibit_active first \<and> co_supervisor_inhibit_active (last (first # obs)) \<and>
       cp_control_confirm_ms p \<le> co_now_ms (last (first # obs)) - stopping_since first st \<longrightarrow>
     ended (cs_phase (ct_snapshot (observe_all (Some p) (first # obs) st))))"
proof -
  let ?st' = "fst (battery_charge_supervisor_update (Some p) first st)"
  have on: "co_charger_present first"
    using assms(3) by simp
  note v = stopping_verdict [OF assms(1,2) on, of p]
  have r: "charge_reachable ?st'"
    by (rule charge_reachable.observe [OF assms(1)])
  have "ended (cs_phase (ct_snapshot (observe_all (Some p) (first # obs) st)))"
    if i: "co_supervisor_inhibit_active first" "co_supervisor_inhibit_active (last (first # obs))"
      "cp_control_confirm_ms p \<le> co_now_ms (last (first # obs)) - stopping_since first st"
  proof (cases "ended (cs_phase (ct_snapshot ?st'))")
    case True
    then show ?thesis
      using ended_stays [OF True r] assms(3) by simp
  next
    case False
    then have stay: "cs_phase (ct_snapshot ?st') = BATTERY_CHARGE_PHASE_STOPPING"
      using stopping_or_ended [OF v(1)] by simp
    have seen: "ct_stop_control_seen ?st'" "ct_stop_requested_ms ?st' = stopping_since first st"
      using v(2) [OF stay] i(1) by simp_all
    have "obs \<noteq> []"
    proof
      assume "obs = []"
      then have "fst (stop_verdict p first st) \<noteq> BATTERY_CHARGE_PHASE_STOPPING"
        using i by (simp add: stop_verdict_def Let_def)
      then show False
        using stay by (simp add: v(1) [symmetric] verdict_shown_def)
    qed
    then show ?thesis
      using seen_run_ends [OF r stay seen(1)] assms(3) i seen(2) by simp
  qed
  then show ?thesis
    using v(1) by simp
qed

definition stuck_control :: "u32 \<Rightarrow> charge_observation" where
  "stuck_control now = target_reached\<lparr>co_now_ms := now, co_supervisor_inhibit_active := True\<rparr>"

definition stopping_session :: charge_state where
  "stopping_session = fst (battery_charge_supervisor_update None target_reached charging_session)"

lemma stopping_session_reachable: "charge_reachable stopping_session"
  unfolding stopping_session_def by (rule charge_reachable.observe [OF charging_session_reachable])

text \<open>The witness: the enable never reads back off, seen first at 9100 and again at 14100.\<close>

theorem pending_stop_resolves_witness:
  "fst (stop_verdict REVB2_PROFILE (stuck_control 9100) stopping_session) = BATTERY_CHARGE_PHASE_STOPPING \<and>
   ended (cs_phase (ct_snapshot
     (observe_all (Some REVB2_PROFILE) [stuck_control 9100, stuck_control 14100] stopping_session)))"
proof -
  have ph: "cs_phase (ct_snapshot stopping_session) = BATTERY_CHARGE_PHASE_STOPPING"
    and w: "fst (stop_verdict REVB2_PROFILE (stuck_control 9100) stopping_session) = BATTERY_CHARGE_PHASE_STOPPING"
    and t: "cp_control_confirm_ms REVB2_PROFILE \<le> 14100 - stopping_since (stuck_control 9100) stopping_session"
    by code_simp+
  have on: "\<forall>ob\<in>set [stuck_control 9100, stuck_control 14100]. co_charger_present ob"
    by (simp add: stuck_control_def target_reached_def plugged_in_def)
  show ?thesis
    using pending_stop_resolves [OF stopping_session_reachable ph on, of REVB2_PROFILE] w t
    by (simp add: stuck_control_def)
qed

end
