(* ===== verification/Charge_Values.thy ===== *)
theory Charge_Values
  imports Charge_Contracts "HOL-Library.Multiset"
begin

text \<open>
  Functional contracts of the charge supervisor: the median of a minute, the session generation,
  the warm restore, and the completion debounce over whole histories.
\<close>

section \<open>The median\<close>

lemma insert_sorted_mset: "mset (insert_sorted v xs) = add_mset v (mset xs)"
proof -
  have "mset (dropWhile (\<lambda>x. v < x) (rev xs)) + mset (takeWhile (\<lambda>x. v < x) (rev xs)) = mset xs"
    by (metis add.commute mset_append mset_rev takeWhile_dropWhile_id)
  then show ?thesis
    by (simp add: insert_sorted_def)
qed

lemma takeWhile_greater: "x \<in> set (takeWhile (\<lambda>x. v < x) ys) \<Longrightarrow> (v :: u16) < x"
  by (rule set_takeWhileD [THEN conjunct2])

lemma dropWhile_head_le:
  "sorted (rev ys) \<Longrightarrow> x \<in> set (dropWhile (\<lambda>x. v < x) ys) \<Longrightarrow> x \<le> (v :: u16)"
proof (induction ys)
  case (Cons y ys)
  then show ?case
    by (auto simp add: sorted_append split: if_splits)
qed simp

lemma sorted_rev_parts:
  assumes "sorted xs"
  shows "sorted (rev (dropWhile (\<lambda>x. v < x) (rev xs)))" "sorted (rev (takeWhile (\<lambda>x. (v :: u16) < x) (rev xs)))"
proof -
  have "sorted (rev (takeWhile (\<lambda>x. v < x) (rev xs) @ dropWhile (\<lambda>x. v < x) (rev xs)))"
    using assms by (simp only: takeWhile_dropWhile_id rev_rev_ident)
  then show "sorted (rev (dropWhile (\<lambda>x. v < x) (rev xs)))" "sorted (rev (takeWhile (\<lambda>x. v < x) (rev xs)))"
    unfolding rev_append sorted_append by blast+
qed

lemma insert_sorted_sorted:
  assumes "sorted xs"
  shows "sorted (insert_sorted v xs)"
proof -
  have "y \<le> v" if "y \<in> set (dropWhile (\<lambda>x. v < x) (rev xs))" for y
    using dropWhile_head_le [of "rev xs"] that assms by simp
  moreover have "v < y" if "y \<in> set (takeWhile (\<lambda>x. v < x) (rev xs))" for y
    by (rule takeWhile_greater [OF that])
  ultimately show ?thesis
    using sorted_rev_parts [OF assms, of v]
    by (fastforce simp add: insert_sorted_def sorted_append)
qed

lemma fold_insert_sorted:
  "sorted acc \<Longrightarrow> sorted (fold insert_sorted xs acc) \<and> mset (fold insert_sorted xs acc) = mset xs + mset acc"
  by (induction xs arbitrary: acc) (simp_all add: insert_sorted_sorted insert_sorted_mset)

text \<open>the in-place insertion sort of a minute's samples yields the true median, the element in the
  middle position of the sorted samples, and zero for an empty or oversized window.\<close>

theorem median_is_middle:
  "median_u16 xs =
     (if xs = [] \<or> CHARGE_MINUTE_SAMPLE_CAP < length xs then 0 else sort xs ! (length xs div 2))"
proof -
  have "fold insert_sorted xs [] = sort xs"
    using fold_insert_sorted [of "[]" xs] by (intro properties_for_sort [symmetric]) simp_all
  then show ?thesis
    by (simp add: median_u16_def)
qed

section \<open>Generations\<close>

lemma stages_generation:
  "cs_charge_generation (ct_snapshot (fst (supervise_attached p ob st))) = cs_charge_generation (ct_snapshot st)"
proof -
  have admit: "cs_charge_generation (ct_snapshot (fst (supervise_admit p ob s))) =
      cs_charge_generation (ct_snapshot s)" for s
    by (simp add: supervise_admit_def freeze_admission_def)
  let ?live = "session_live st"
  let ?v = "supervise_input ?live ob (supervise_view ?live ob st)"
  let ?a = "fst (supervise_admit p ob (fst (supervise_fault ?live ob ?v)))"
  have "kept st (fst (supervise_fault ?live ob ?v))"
    by (rule kept_trans [OF kept_trans [OF view_kept input_kept] fault_kept])
  then have a: "cs_charge_generation (ct_snapshot ?a) = cs_charge_generation (ct_snapshot st)"
    by (simp add: admit kept_def)
  have "kept ?a (fst (supervise_attached p ob st))"
    by (simp add: supervise_attached_def Let_def kept_after)
  then show ?thesis
    using a by (simp add: kept_def)
qed

text \<open>the charge generation names a plug-in: an update changes it exactly when the charger appears
  after having been absent, it then moves to a different non-zero number, and only a bounce of at
  most half a second after the last unplug keeps the old one.\<close>

theorem generation_names_a_plug_in:
  "let g = cs_charge_generation (ct_snapshot st);
       g' = cs_charge_generation (ct_snapshot (fst (battery_charge_supervisor_update profile ob st)))
   in if co_charger_present ob \<and> \<not> ct_physically_attached st
      then (if ct_detach_generation_reusable st \<and> co_now_ms ob - ct_detached_at_ms st \<le> ATTACH_BOUNCE_REUSE_MS
            then g' = g else g' \<noteq> g \<and> g' \<noteq> 0)
      else g' = g"
proof -
  have n: "next_nonzero_u32 g \<noteq> g" "next_nonzero_u32 g \<noteq> 0" for g
    by (auto simp add: next_nonzero_u32_def)
  have d: "cs_charge_generation (ct_snapshot (fst (supervise_detach ob st))) = cs_charge_generation (ct_snapshot st)"
    by (simp add: supervise_detach_def reset_session_fields_def detached_snapshot_def)
  have a: "cs_charge_generation (ct_snapshot (fst (supervise_attach ob st))) =
      (if ct_physically_attached st then cs_charge_generation (ct_snapshot st) else attach_generation ob st)"
    by (simp add: supervise_attach_def)
  show ?thesis
    by (simp add: battery_charge_supervisor_update_def d a stages_generation attach_generation_def n Let_def)
qed

section \<open>Warm restore\<close>

text \<open>The frozen evidence a persisted record carries.\<close>

definition persisted_evidence where
  "persisted_evidence p =
     ((pe_pack_generation p, pe_gauge_session p, pe_hardware_profile_id p, pe_chemistry p,
       pe_start_acr_raw p, pe_start_session_delta_nah p),
      (pe_frozen_capacity_valid p, pe_frozen_capacity_mah p, pe_frozen_capacity_confidence p,
       pe_frozen_remaining_valid p, pe_frozen_remaining_mah p, pe_frozen_remaining_nah p,
       pe_frozen_soc_provenance p, pe_frozen_soc_confidence p,
       pe_frozen_resistance_valid p, pe_frozen_resistance_mohm p),
      (pe_deficit_valid p, pe_deficit_mah p, pe_deficit_nah p, pe_charge_factor_permille p,
       pe_charge_factor_confident p, pe_target_valid p,
       pe_target_valid p \<and> pe_frozen_capacity_valid p \<and> pe_deficit_valid p \<and>
         pe_deficit_nah p = persisted_capacity_nah p,
       pe_target_input_nah p, pe_safety_input_nah p))"

text \<open>A warm restore succeeds only with the same gauge session, pack, chemistry and hardware and a
  control state that agrees with the persisted latch; the restored session carries exactly the
  persisted evidence and generation, its net input counts from the persisted baseline, it is well
  formed, and a session persisted as stopped is never restored as charging.\<close>

theorem warm_restore_faithful:
  assumes "battery_charge_supervisor_restore_active policy profile p ob = Some st"
  shows "frozen_evidence (ct_snapshot st) = persisted_evidence p \<and>
     cs_charge_generation (ct_snapshot st) = pe_charge_generation p \<and>
     cs_policy (ct_snapshot st) = policy \<and> charge_ok st \<and>
     cs_net_input_nah (ct_snapshot st) =
       saturating_sub_i64 (co_session_delta_nah ob) (pe_start_session_delta_nah p) \<and>
     co_gauge_session ob = pe_gauge_session p \<and> ca_pack_generation (co_admission ob) = pe_pack_generation p \<and>
     co_chemistry ob = pe_chemistry p \<and> co_hardware_profile_id ob = pe_hardware_profile_id p \<and>
     (cs_phase (ct_snapshot st) = BATTERY_CHARGE_PHASE_CHARGING \<longleftrightarrow> \<not> pe_inhibit_latched p)"
proof -
  let ?q = "case profile of None \<Rightarrow> REVB2_PROFILE | Some q \<Rightarrow> q"
  from assms have st: "st = restored_state policy ?q p ob" and m: "restore_matches ?q p ob"
    by (auto simp add: battery_charge_supervisor_restore_active_def Let_def split: if_splits)
  have "frozen_evidence (ct_snapshot st) = persisted_evidence p"
    unfolding st
    by (simp add: restored_state_def restore_stop_def restore_frozen_def restore_session_def
        frozen_evidence_def persisted_evidence_def target_uses_full_capacity_def
        persisted_capacity_nah_def Let_def)
  moreover have "cs_charge_generation (ct_snapshot st) = pe_charge_generation p"
    "cs_policy (ct_snapshot st) = policy" "cs_phase (ct_snapshot st) = restored_phase p"
    "cs_net_input_nah (ct_snapshot st) =
       saturating_sub_i64 (co_session_delta_nah ob) (pe_start_session_delta_nah p)"
    unfolding st
    by (simp_all add: restored_state_def restore_stop_def restore_frozen_def restore_session_def
        battery_charge_supervisor_init_def detached_snapshot_def Let_def)
  moreover have "restored_phase p = BATTERY_CHARGE_PHASE_CHARGING \<longleftrightarrow> \<not> pe_inhibit_latched p"
    by (simp add: restored_phase_def terminal_stop_persisted_def)
  ultimately show ?thesis
    using m restore_ok [OF assms] by (simp add: restore_matches_def)
qed

definition saved_session :: charge_persisted where
  "saved_session = persisted_zero
     \<lparr>pe_hardware_profile_id := 3, pe_chemistry := BATTERY_CHARGE_CHEMISTRY_NIMH_2S,
      pe_charge_generation := 7, pe_active_session_valid := True, pe_pack_generation := 1,
      pe_gauge_session := 1, pe_frozen_capacity_valid := True, pe_frozen_capacity_mah := 1000,
      pe_deficit_valid := True, pe_deficit_mah := 600, pe_deficit_nah := 600000000,
      pe_charge_factor_permille := 1200, pe_target_valid := True, pe_target_input_nah := 720000000,
      pe_safety_input_nah := 1750000000\<rparr>"

theorem warm_restore_faithful_witness:
  "map_option (\<lambda>st. frozen_evidence (ct_snapshot st) = persisted_evidence saved_session)
     (battery_charge_supervisor_restore_active BATTERY_CHARGE_POLICY_ENFORCE_ANCHORED None saved_session
        plugged_in) = Some True"
proof (cases "battery_charge_supervisor_restore_active BATTERY_CHARGE_POLICY_ENFORCE_ANCHORED None
    saved_session plugged_in")
  case None
  moreover have "battery_charge_supervisor_restore_active BATTERY_CHARGE_POLICY_ENFORCE_ANCHORED None
    saved_session plugged_in \<noteq> None"
    by code_simp
  ultimately show ?thesis by simp
next
  case (Some st)
  then show ?thesis
    using warm_restore_faithful [OF Some] by simp
qed

section \<open>The completion debounce over a history\<close>

text \<open>An observation of the debounce: status valid, charger state, charging before, and the time.\<close>

type_synonym completion_obs = "bool \<times> battery_charger_state \<times> bool \<times> u32"

definition transition_step ::
    "completion_obs \<Rightarrow> charge_transition_state option \<Rightarrow> charge_transition_state option \<times> charge_transition" where
  "transition_step ob s = (let (v, c, a, now) = ob in battery_charge_transition s v c a now)"

definition transition_run :: "completion_obs list \<Rightarrow> charge_transition_state option \<Rightarrow> charge_transition_state option" where
  "transition_run obs s = fold (\<lambda>ob s. fst (transition_step ob s)) obs s"

definition full_seen :: "completion_obs \<Rightarrow> bool" where
  "full_seen ob = (let (v, c, a, now) = ob in v \<and> c = BATTERY_CHARGER_FULL \<and> a)"

definition obs_time :: "completion_obs \<Rightarrow> u32" where
  "obs_time ob = (let (v, c, a, now) = ob in now)"

text \<open>A pending completion is backed by an unbroken run of full observations from its start.\<close>

definition pending_backed :: "completion_obs list \<Rightarrow> charge_transition_state option \<Rightarrow> bool" where
  "pending_backed obs s \<longleftrightarrow>
     (\<forall>t. s = Some t \<longrightarrow> tr_completion_pending t \<longrightarrow>
        (\<exists>pre o1 run. obs = pre @ o1 # run \<and> obs_time o1 = tr_completion_since_ms t \<and>
           (\<forall>ob\<in>set (o1 # run). full_seen ob)))"

lemma transition_step_backed:
  assumes "pending_backed obs s"
  shows "pending_backed (obs @ [ob]) (fst (transition_step ob s))"
proof -
  obtain v c a now where ob: "ob = (v, c, a, now)"
    by (cases ob)
  show ?thesis
  proof (cases "full_seen ob")
    case False
    then show ?thesis
      by (auto simp add: ob full_seen_def transition_step_def battery_charge_transition_def
          battery_charge_transition_init_def pending_backed_def Let_def)
  next
    case True
    then have c: "v" "a" "c = BATTERY_CHARGER_FULL"
      by (simp_all add: ob full_seen_def)
    show ?thesis
    proof (cases s)
      case None
      then show ?thesis
        by (simp add: ob c transition_step_def battery_charge_transition_def pending_backed_def
            battery_charge_transition_init_def Let_def)
    next
      case (Some t)
      show ?thesis
      proof (cases "tr_completion_pending t")
        case False
        then have "fst (transition_step ob s) =
            Some (t\<lparr>tr_completion_pending := True, tr_completion_since_ms := now\<rparr>)"
          by (simp add: Some ob c transition_step_def battery_charge_transition_def Let_def)
        moreover have "obs_time ob = now"
          by (simp add: ob obs_time_def)
        ultimately show ?thesis
          using True unfolding pending_backed_def
          by (intro allI impI exI [of _ obs] exI [of _ ob] exI [of _ "[]"]) auto
      next
        case pend: True
        obtain pre o1 run where r: "obs = pre @ o1 # run" "obs_time o1 = tr_completion_since_ms t"
          "\<forall>ob\<in>set (o1 # run). full_seen ob"
          using assms Some pend by (auto simp add: pending_backed_def)
        have ext: "obs @ [ob] = pre @ o1 # (run @ [ob])" "\<forall>ob\<in>set (o1 # run @ [ob]). full_seen ob"
          using r True by auto
        consider "fst (transition_step ob s) = s"
          | u where "fst (transition_step ob s) = Some u" "\<not> tr_completion_pending u"
          by (cases "BATTERY_CHARGE_COMPLETE_CONFIRM_MS \<le> now - tr_completion_since_ms t")
            (auto simp add: Some ob c pend transition_step_def battery_charge_transition_def
              battery_charge_transition_init_def Let_def)
        then show ?thesis
        proof cases
          case 1
          then show ?thesis
            using ext r(2) Some unfolding pending_backed_def by (metis option.inject)
        next
          case 2
          then show ?thesis
            by (simp add: pending_backed_def)
        qed
      qed
    qed
  qed
qed

lemma transition_run_backed:
  "pending_backed seen s \<Longrightarrow> pending_backed (seen @ obs) (transition_run obs s)"
proof (induction obs arbitrary: seen s)
  case Nil
  then show ?case
    by (simp add: transition_run_def)
next
  case (Cons ob obs)
  show ?case
    using Cons.IH [OF transition_step_backed [OF Cons.prems], of ob]
    by (simp add: transition_run_def)
qed

text \<open>C19: the charging display reports a completed charge only after an unbroken run of valid full
  observations of an active charge that spans at least two seconds: any detach, invalid status or
  charging observation in between starts the wait over.\<close>

theorem completion_is_debounced:
  assumes "tn_completed (snd (transition_step ob
      (transition_run obs (battery_charge_transition_init (Some s0)))))"
  shows "\<exists>pre o1 run. obs = pre @ o1 # run \<and> (\<forall>x\<in>set (o1 # run @ [ob]). full_seen x) \<and>
     BATTERY_CHARGE_COMPLETE_CONFIRM_MS \<le> obs_time ob - obs_time o1"
proof -
  let ?s = "transition_run obs (battery_charge_transition_init (Some s0))"
  have "pending_backed [] (battery_charge_transition_init (Some s0))"
    by (simp add: pending_backed_def battery_charge_transition_init_def)
  then have b: "pending_backed obs ?s"
    using transition_run_backed [of "[]"] by simp
  obtain v c a now where ob: "ob = (v, c, a, now)"
    by (cases ob)
  have "full_seen ob"
    and p: "\<exists>t. ?s = Some t \<and> tr_completion_pending t \<and>
      BATTERY_CHARGE_COMPLETE_CONFIRM_MS \<le> now - tr_completion_since_ms t"
    using assms
    by (auto simp add: ob full_seen_def transition_step_def battery_charge_transition_def Let_def
        split: if_splits option.splits)
  from p obtain t where t: "?s = Some t" "tr_completion_pending t"
    "BATTERY_CHARGE_COMPLETE_CONFIRM_MS \<le> now - tr_completion_since_ms t"
    by blast
  then obtain pre o1 run where "obs = pre @ o1 # run" "obs_time o1 = tr_completion_since_ms t"
    "\<forall>x\<in>set (o1 # run). full_seen x"
    using b unfolding pending_backed_def by blast
  with t(3) \<open>full_seen ob\<close> show ?thesis
    by (intro exI [of _ pre] exI [of _ o1] exI [of _ run]) (simp add: ob obs_time_def)
qed

theorem completion_is_debounced_witness:
  "\<exists>pre o1 run. [(True, BATTERY_CHARGER_FULL, True, 100)] = pre @ o1 # run \<and>
     (\<forall>x\<in>set (o1 # run @ [(True, BATTERY_CHARGER_FULL, True, 2100)]). full_seen x) \<and>
     BATTERY_CHARGE_COMPLETE_CONFIRM_MS \<le> obs_time (True, BATTERY_CHARGER_FULL, True, 2100) - obs_time o1"
  by (rule completion_is_debounced [of _ _ "\<lparr>tr_completion_pending = True, tr_completion_since_ms = 0\<rparr>"])
    code_simp

end
