(* ===== verification/Store_Service.thy ===== *)
theory Store_Service
  imports Prelude
begin

text \<open>
  The commit engine of \<open>storage/store_service.c\<close>: seventeen persistent units, their dirty flags and
  failure counters, the paced round-robin commit, the power-off flush and the boot load.  The unit
  codecs are function pointers in the code and parameters here (\<open>unit_ops\<close>), over the RAM images
  \<open>'w\<close> of all units; so are the record backend of \<open>storage/storage_backend.h\<close>, over its media \<open>'b\<close>,
  and the two hooks of other stores the engine calls.  The binding table is complete and constant,
  so the code's NULL tests of it never fire.
\<close>

section \<open>Data\<close>

datatype store_status =
  STORE_STATUS_OK | STORE_STATUS_NOT_READY | STORE_STATUS_INVALID_ARGUMENT | STORE_STATUS_NOT_FOUND
| STORE_STATUS_TYPE_MISMATCH | STORE_STATUS_STORAGE_ERROR | STORE_STATUS_CONFLICT

datatype storage_record_result =
  STORAGE_RECORD_OK | STORAGE_RECORD_NOT_FOUND | STORAGE_RECORD_ERROR | STORAGE_RECORD_BUSY
| STORAGE_RECORD_FULL | STORAGE_RECORD_CORRUPT

abbreviation "STORE_UNIT_COUNT \<equiv> 17 :: nat"
abbreviation "STORE_UNIT_SERVICE_WARRANTY \<equiv> 13 :: nat"
abbreviation "STORE_COMMIT_FAIL_LIMIT \<equiv> 8 :: u8"
abbreviation "STORE_COMMIT_MIN_INTERVAL_MS \<equiv> 32 :: u32"
abbreviation "STORE_COMMIT_PARK_REARM_MS \<equiv> 300000 :: u32"
abbreviation "STORE_COMMIT_DEFER_MAX_MS \<equiv> 244 :: u32"
abbreviation "STORAGE_RECORD_MAX_PAYLOAD \<equiv> 4064 :: nat"
abbreviation "STORE_BOOT_FAULT_BACKEND \<equiv> 1 :: u8"
abbreviation "STORE_BOOT_FAULT_RECORD \<equiv> 2 :: u8"
abbreviation "STORE_DIAG_NO_UNIT \<equiv> 0xff :: u8"

record 'w unit_ops =
  uo_reset_ram :: "'w \<Rightarrow> 'w"
  uo_serialize :: "'w \<Rightarrow> nat \<Rightarrow> u8 list option"
  uo_apply :: "u8 list \<Rightarrow> 'w \<Rightarrow> 'w \<times> bool"
  uo_fallback_missing :: "('w \<Rightarrow> 'w) option"

record 'b storage_backend =
  be_read :: "'b \<Rightarrow> u16 \<Rightarrow> nat \<Rightarrow> 'b \<times> storage_record_result \<times> u8 list"
  be_write :: "'b \<Rightarrow> u16 \<Rightarrow> u8 list \<Rightarrow> 'b \<times> storage_record_result"

record store_diag =
  dg_commit_active :: bool
  dg_ready :: bool
  dg_current_unit :: u8
  dg_last_unit :: u8
  dg_last_status :: "store_status list"
  dg_commit_attempts :: u32
  dg_commit_successes :: u32
  dg_commit_failures :: u32
  dg_busy_deferrals :: u32
  dg_flush_attempts :: u32
  dg_flush_incomplete :: u32
  dg_last_commit_ms :: u32

record ('w, 'b) store_state =
  st_ready :: bool
  st_available :: u32
  st_faults :: u8
  st_dirty :: "bool list"
  st_fails :: "u8 list"
  st_scan :: u8
  st_park_base :: u32
  st_defer :: u32
  st_last_commit :: u32
  st_diag :: store_diag
  st_ram :: 'w
  st_media :: 'b

record ('w, 'b) store_env =
  se_ops :: "nat \<Rightarrow> 'w unit_ops"
  se_backend :: "'b storage_backend"
  se_warranty_post_load :: "('w, 'b) store_state \<Rightarrow> ('w, 'b) store_state"
  se_ringtone_expire :: "u32 \<Rightarrow> ('w, 'b) store_state \<Rightarrow> ('w, 'b) store_state"

section \<open>Queries\<close>

definition unit_id_for_index :: "nat \<Rightarrow> u16" where
  "unit_id_for_index u = 0x3210 + of_nat u"

definition store_service_unit_ready :: "('w, 'b) store_state \<Rightarrow> nat \<Rightarrow> bool" where
  "store_service_unit_ready st u \<longleftrightarrow> u < STORE_UNIT_COUNT \<and> st_available st AND push_bit u 1 \<noteq> 0"

definition store_service_require_service :: "u8 \<Rightarrow> ('w, 'b) store_state \<Rightarrow> ('w, 'b) store_state" where
  "store_service_require_service f st = st\<lparr>st_faults := st_faults st OR f\<rparr>"

definition store_service_contact_service_required :: "('w, 'b) store_state \<Rightarrow> bool" where
  "store_service_contact_service_required st \<longleftrightarrow> st_faults st \<noteq> 0"

text \<open>Waiting for a commit: dirty and not parked at the failure cap.\<close>

definition pending :: "('w, 'b) store_state \<Rightarrow> nat \<Rightarrow> bool" where
  "pending st i \<longleftrightarrow> st_dirty st ! i \<and> st_fails st ! i < STORE_COMMIT_FAIL_LIMIT"

definition store_service_standby_ready :: "('w, 'b) store_state \<Rightarrow> bool" where
  "store_service_standby_ready st =
     (if \<not> st_ready st then True
      else if dg_commit_active (st_diag st) then False
      else \<not> (\<exists>i\<in>set [0..<STORE_UNIT_COUNT]. pending st i))"

definition unit_mask :: "(nat \<Rightarrow> bool) \<Rightarrow> u32" where
  "unit_mask P = fold (\<lambda>i m. if P i then m OR push_bit i 1 else m) [0..<STORE_UNIT_COUNT] 0"

record store_diag_snapshot =
  sn_diag :: store_diag
  sn_boot_faults :: u8
  sn_unavailable_mask :: u32
  sn_next_scan_unit :: u8
  sn_defer_active :: bool
  sn_dirty_mask :: u32
  sn_degraded_mask :: u32
  sn_consecutive_failures :: "u8 list"

definition store_service_get_diag :: "u32 \<Rightarrow> ('w, 'b) store_state \<Rightarrow> store_diag_snapshot" where
  "store_service_get_diag t st =
     \<lparr>sn_diag = (st_diag st)\<lparr>dg_ready := st_ready st\<rparr>, sn_boot_faults = st_faults st,
      sn_unavailable_mask = drop_bit (32 - STORE_UNIT_COUNT) (- 1) AND NOT (st_available st),
      sn_next_scan_unit = st_scan st,
      sn_defer_active = (st_defer st - t \<le> STORE_COMMIT_DEFER_MAX_MS),
      sn_dirty_mask = unit_mask (\<lambda>i. st_dirty st ! i),
      sn_degraded_mask = unit_mask (\<lambda>i. STORE_COMMIT_FAIL_LIMIT \<le> st_fails st ! i),
      sn_consecutive_failures = st_fails st\<rparr>"

section \<open>Commits\<close>

type_synonym commit_result = "store_status \<times> bool"

text \<open>Serialize into the shared payload buffer and write the record.\<close>

definition store_engine_commit_binding ::
    "('w, 'b) store_env \<Rightarrow> nat \<Rightarrow> ('w, 'b) store_state \<Rightarrow> ('w, 'b) store_state \<times> commit_result" where
  "store_engine_commit_binding env u st =
     (case uo_serialize (se_ops env u) (st_ram st) STORAGE_RECORD_MAX_PAYLOAD of
        None \<Rightarrow> (st, STORE_STATUS_STORAGE_ERROR, False)
      | Some bytes \<Rightarrow>
          if STORAGE_RECORD_MAX_PAYLOAD < length bytes then (st, STORE_STATUS_STORAGE_ERROR, False)
          else
            (let (b, r) = be_write (se_backend env) (st_media st) (unit_id_for_index u) bytes
             in (st\<lparr>st_media := b\<rparr>,
                 if r = STORAGE_RECORD_OK then STORE_STATUS_OK else STORE_STATUS_STORAGE_ERROR,
                 r = STORAGE_RECORD_BUSY)))"

definition commit_unit ::
    "('w, 'b) store_env \<Rightarrow> nat \<Rightarrow> ('w, 'b) store_state \<Rightarrow> ('w, 'b) store_state \<times> commit_result" where
  "commit_unit env u st =
     (if \<not> st_ready st \<or> \<not> store_service_unit_ready st u then (st, STORE_STATUS_NOT_READY, False)
      else store_engine_commit_binding env u st)"

definition upd_diag :: "(store_diag \<Rightarrow> store_diag) \<Rightarrow> ('w, 'b) store_state \<Rightarrow> ('w, 'b) store_state" where
  "upd_diag f st = st\<lparr>st_diag := f (st_diag st)\<rparr>"

definition commit_unit_tracked ::
    "('w, 'b) store_env \<Rightarrow> u32 \<Rightarrow> nat \<Rightarrow> ('w, 'b) store_state \<Rightarrow>
     ('w, 'b) store_state \<times> commit_result" where
  "commit_unit_tracked env t u st =
     (let st1 = upd_diag (\<lambda>d. d\<lparr>dg_commit_active := True, dg_current_unit := of_nat u,
                               dg_commit_attempts := dg_commit_attempts d + 1\<rparr>) st;
          (st2, status, busy) = commit_unit env u st1;
          st3 = upd_diag (\<lambda>d. d\<lparr>dg_last_unit := of_nat u,
                               dg_last_status := (dg_last_status d)[u := status],
                               dg_last_commit_ms := t\<rparr>) st2;
          st4 = upd_diag (\<lambda>d. if status = STORE_STATUS_OK
                   then d\<lparr>dg_commit_successes := dg_commit_successes d + 1\<rparr>
                   else d\<lparr>dg_commit_failures := dg_commit_failures d + 1,
                          dg_busy_deferrals := (if busy then dg_busy_deferrals d + 1
                                                else dg_busy_deferrals d)\<rparr>) st3;
          st5 = upd_diag (\<lambda>d. d\<lparr>dg_current_unit := STORE_DIAG_NO_UNIT, dg_commit_active := False\<rparr>) st4
      in (st5, status, busy))"

text \<open>What a commit attempt of a pending unit does to its flags; the same in the tick and the flush.\<close>

definition settle_unit :: "nat \<Rightarrow> commit_result \<Rightarrow> ('w, 'b) store_state \<Rightarrow> ('w, 'b) store_state" where
  "settle_unit i r st =
     (case r of (status, busy) \<Rightarrow>
        if status = STORE_STATUS_OK
        then st\<lparr>st_dirty := (st_dirty st)[i := False], st_fails := (st_fails st)[i := 0]\<rparr>
        else if busy then st
        else st\<lparr>st_fails := (st_fails st)[i := st_fails st ! i + 1]\<rparr>)"

definition attempt_unit ::
    "('w, 'b) store_env \<Rightarrow> u32 \<Rightarrow> nat \<Rightarrow> ('w, 'b) store_state \<Rightarrow>
     ('w, 'b) store_state \<times> bool" where
  "attempt_unit env t i st =
     (let (st1, r) = commit_unit_tracked env t i st in (settle_unit i r st1, fst r = STORE_STATUS_OK))"

section \<open>Deferral, flush and tick\<close>

definition store_service_defer_commits_until ::
    "u32 \<Rightarrow> u32 \<Rightarrow> ('w, 'b) store_state \<Rightarrow> ('w, 'b) store_state" where
  "store_service_defer_commits_until now deadline st =
     (let current_valid = (st_defer st - now \<le> STORE_COMMIT_DEFER_MAX_MS)
      in if \<not> current_valid \<or> st_defer st - now < deadline - now
         then st\<lparr>st_defer := deadline\<rparr> else st)"

definition store_service_write_window_open :: "u32 \<Rightarrow> ('w, 'b) store_state \<Rightarrow> bool" where
  "store_service_write_window_open now st \<longleftrightarrow> STORE_COMMIT_DEFER_MAX_MS < st_defer st - now"

definition flush_step ::
    "('w, 'b) store_env \<Rightarrow> u32 \<Rightarrow> nat \<Rightarrow> ('w, 'b) store_state \<times> bool \<Rightarrow>
     ('w, 'b) store_state \<times> bool" where
  "flush_step env t i acc =
     (let (st, clean) = acc in
      if pending st i
      then (case attempt_unit env t i st of (st1, ok) \<Rightarrow> (st1, clean \<and> ok))
      else (st, clean))"

definition store_service_flush_all ::
    "('w, 'b) store_env \<Rightarrow> u32 \<Rightarrow> ('w, 'b) store_state \<Rightarrow> ('w, 'b) store_state \<times> bool" where
  "store_service_flush_all env t st =
     (if \<not> st_ready st then (st, True)
      else
        (let st0 = upd_diag (\<lambda>d. d\<lparr>dg_flush_attempts := dg_flush_attempts d + 1\<rparr>) st;
             (st1, clean) = fold (flush_step env t) [0..<STORE_UNIT_COUNT] (st0, True)
         in (if clean then st1
             else upd_diag (\<lambda>d. d\<lparr>dg_flush_incomplete := dg_flush_incomplete d + 1\<rparr>) st1, clean)))"

definition rearm_one :: "nat \<Rightarrow> ('w, 'b) store_state \<Rightarrow> ('w, 'b) store_state" where
  "rearm_one i st =
     (if st_dirty st ! i \<and> STORE_COMMIT_FAIL_LIMIT \<le> st_fails st ! i
      then st\<lparr>st_fails := (st_fails st)[i := STORE_COMMIT_FAIL_LIMIT - 1]\<rparr> else st)"

definition rearm_parked :: "u32 \<Rightarrow> ('w, 'b) store_state \<Rightarrow> ('w, 'b) store_state" where
  "rearm_parked now st =
     (if STORE_COMMIT_PARK_REARM_MS \<le> now - st_park_base st
      then fold rearm_one [0..<STORE_UNIT_COUNT] (st\<lparr>st_park_base := now\<rparr>) else st)"

text \<open>The round-robin scan: at most one commit.\<close>

definition scan_unit :: "u8 \<Rightarrow> nat \<Rightarrow> nat" where
  "scan_unit start n = (unat start + n) mod STORE_UNIT_COUNT"

fun tick_scan ::
    "('w, 'b) store_env \<Rightarrow> u32 \<Rightarrow> u32 \<Rightarrow> nat list \<Rightarrow> ('w, 'b) store_state \<Rightarrow> ('w, 'b) store_state" where
  "tick_scan env t now [] st = st"
| "tick_scan env t now (n # ns) st =
     (let i = scan_unit (st_scan st) n in
      if \<not> pending st i then tick_scan env t now ns st
      else (fst (attempt_unit env t i st))
             \<lparr>st_last_commit := now, st_scan := of_nat ((i + 1) mod STORE_UNIT_COUNT)\<rparr>)"

definition store_service_tick ::
    "('w, 'b) store_env \<Rightarrow> u32 \<Rightarrow> u32 \<Rightarrow> ('w, 'b) store_state \<Rightarrow> ('w, 'b) store_state" where
  "store_service_tick env t now st =
     (let st0 = se_ringtone_expire env now st in
      if \<not> st_ready st0 then st0
      else
        (let st1 = rearm_parked now st0 in
         if st_defer st1 - now \<le> STORE_COMMIT_DEFER_MAX_MS \<or>
            now - st_last_commit st1 < STORE_COMMIT_MIN_INTERVAL_MS
         then st1
         else tick_scan env t now [0..<STORE_UNIT_COUNT] st1))"

section \<open>Clients and boot\<close>

definition store_engine_mark_dirty :: "nat \<Rightarrow> ('w, 'b) store_state \<Rightarrow> ('w, 'b) store_state \<times> store_status" where
  "store_engine_mark_dirty u st =
     (if STORE_UNIT_COUNT \<le> u then (st, STORE_STATUS_INVALID_ARGUMENT)
      else if \<not> store_service_unit_ready st u then (st, STORE_STATUS_NOT_READY)
      else (st\<lparr>st_dirty := (st_dirty st)[u := True]\<rparr>,
            if st_ready st then STORE_STATUS_OK else STORE_STATUS_NOT_READY))"

definition load_unit :: "('w, 'b) store_env \<Rightarrow> nat \<Rightarrow> ('w, 'b) store_state \<Rightarrow> ('w, 'b) store_state \<times> bool" where
  "load_unit env u st =
     (let ops = se_ops env u;
          (b, r, bytes) = be_read (se_backend env) (st_media st) (unit_id_for_index u) STORAGE_RECORD_MAX_PAYLOAD;
          st0 = st\<lparr>st_media := b\<rparr>
      in if r = STORAGE_RECORD_OK then
           (case uo_apply ops bytes (st_ram st0) of
              (w, True) \<Rightarrow> (st0\<lparr>st_ram := w\<rparr>, True)
            | (w, False) \<Rightarrow> (st0\<lparr>st_ram := uo_reset_ram ops w\<rparr>, False))
         else if r \<noteq> STORAGE_RECORD_NOT_FOUND then (st0, False)
         else
           (let st1 = (case uo_fallback_missing ops of
                         None \<Rightarrow> st0 | Some f \<Rightarrow> st0\<lparr>st_ram := f (st_ram st0)\<rparr>);
                (st2, status, _) = store_engine_commit_binding env u st1
            in (st2\<lparr>st_dirty := (st_dirty st2)[u := (status \<noteq> STORE_STATUS_OK)]\<rparr>, True)))"

definition diag_zero :: store_diag where
  "diag_zero = \<lparr>dg_commit_active = False, dg_ready = False, dg_current_unit = STORE_DIAG_NO_UNIT,
     dg_last_unit = STORE_DIAG_NO_UNIT, dg_last_status = replicate STORE_UNIT_COUNT STORE_STATUS_OK,
     dg_commit_attempts = 0, dg_commit_successes = 0, dg_commit_failures = 0, dg_busy_deferrals = 0,
     dg_flush_attempts = 0, dg_flush_incomplete = 0, dg_last_commit_ms = 0\<rparr>"

definition boot_unit :: "('w, 'b) store_env \<Rightarrow> nat \<Rightarrow> ('w, 'b) store_state \<Rightarrow> ('w, 'b) store_state" where
  "boot_unit env u st =
     (case load_unit env u st of
        (st1, True) \<Rightarrow> st1\<lparr>st_available := st_available st1 OR push_bit u 1\<rparr>
      | (st1, False) \<Rightarrow> store_service_require_service STORE_BOOT_FAULT_RECORD st1)"

text \<open>\<open>opened\<close> is the answer of \<open>storage_backend_open\<close> and whether it left the callbacks set.\<close>

definition store_service_init ::
    "('w, 'b) store_env \<Rightarrow> storage_record_result \<times> bool \<Rightarrow> ('w, 'b) store_state \<Rightarrow>
     ('w, 'b) store_state \<times> store_status" where
  "store_service_init env opened st =
     (let w = fold (\<lambda>u. uo_reset_ram (se_ops env u)) [0..<STORE_UNIT_COUNT] (st_ram st);
          st0 = \<lparr>st_ready = False, st_available = 0, st_faults = 0,
                 st_dirty = replicate STORE_UNIT_COUNT False, st_fails = replicate STORE_UNIT_COUNT 0,
                 st_scan = 0, st_park_base = 0, st_defer = 0, st_last_commit = 0, st_diag = diag_zero,
                 st_ram = w, st_media = st_media st\<rparr>;
          (r, usable) = opened;
          st1 = (if r \<noteq> STORAGE_RECORD_OK
                 then store_service_require_service STORE_BOOT_FAULT_BACKEND st0 else st0)
      in if \<not> usable then (st1, STORE_STATUS_STORAGE_ERROR)
         else
           (let st2 = fold (boot_unit env) [0..<STORE_UNIT_COUNT] st1;
                st3 = (if store_service_unit_ready st2 STORE_UNIT_SERVICE_WARRANTY
                       then se_warranty_post_load env st2 else st2);
                st4 = upd_diag (\<lambda>d. d\<lparr>dg_ready := True\<rparr>) (st3\<lparr>st_ready := True\<rparr>)
            in (st4, if st_faults st4 = 0 then STORE_STATUS_OK else STORE_STATUS_STORAGE_ERROR)))"

end
