(* ===== verification/Store_Charge.thy ===== *)
theory Store_Charge
  imports Charge_Restore Storage_Bytes
begin

text \<open>
  The journal codec of the charge supervisor, \<open>storage/store_battery_charge_supervisor.c\<close>: the
  serializer, the strict decoder and the accessors.  The static state of the file is the argument
  of the definitions.  A C enum takes any byte; the decoder answers false for one outside the enum
  through the range tests of \<open>battery_charge_supervisor_persisted_valid\<close>, here \<open>None\<close> of
  \<open>enum_of_byte\<close>.
\<close>

section \<open>Enum bytes\<close>

definition byte_of_enum :: "'a list \<Rightarrow> 'a \<Rightarrow> u8" where
  "byte_of_enum cs c = of_nat (length (takeWhile (\<lambda>x. x \<noteq> c) cs))"

definition enum_of_byte :: "'a list \<Rightarrow> u8 \<Rightarrow> 'a option" where
  "enum_of_byte cs b = (if unat b < length cs then Some (cs ! unat b) else None)"

definition policies :: "charge_policy list" where
  "policies = [BATTERY_CHARGE_POLICY_OBSERVE, BATTERY_CHARGE_POLICY_ENFORCE_ANCHORED,
     BATTERY_CHARGE_POLICY_ENFORCE_BOOTSTRAP]"

definition chemistries :: "charge_chemistry list" where
  "chemistries = [BATTERY_CHARGE_CHEMISTRY_UNKNOWN, BATTERY_CHARGE_CHEMISTRY_NIMH_2S,
     BATTERY_CHARGE_CHEMISTRY_LI_ION_1S]"

definition capacity_confidences :: "battery_capacity_confidence list" where
  "capacity_confidences = [BATTERY_CAPACITY_CONFIDENCE_PRIOR, BATTERY_CAPACITY_CONFIDENCE_OBSERVED,
     BATTERY_CAPACITY_CONFIDENCE_LEARNED, BATTERY_CAPACITY_CONFIDENCE_CONFLICTED]"

definition soc_provenances :: "battery_soc_provenance list" where
  "soc_provenances = [BATTERY_SOC_PROVENANCE_UNKNOWN, BATTERY_SOC_PROVENANCE_BOOTSTRAP_VOLTAGE,
     BATTERY_SOC_PROVENANCE_TRACKED, BATTERY_SOC_PROVENANCE_ANCHORED_FULL,
     BATTERY_SOC_PROVENANCE_ANCHORED_EMPTY]"

definition soc_confidences :: "battery_soc_confidence list" where
  "soc_confidences = [BATTERY_SOC_CONFIDENCE_NONE, BATTERY_SOC_CONFIDENCE_PROVISIONAL,
     BATTERY_SOC_CONFIDENCE_ANCHORED]"

definition terminals :: "charge_terminal list" where
  "terminals = [BATTERY_CHARGE_TERMINAL_NONE, BATTERY_CHARGE_TERMINAL_BQ_COMPLETE_AFTER_ACTIVE,
     BATTERY_CHARGE_TERMINAL_BQ_ALREADY_FULL_AT_ATTACH, BATTERY_CHARGE_TERMINAL_SOFTWARE_COULOMB_FULL,
     BATTERY_CHARGE_TERMINAL_SOFTWARE_CURVE_FULL,
     BATTERY_CHARGE_TERMINAL_SOFTWARE_COULOMB_AND_CURVE_FULL,
     BATTERY_CHARGE_TERMINAL_SAFETY_CHARGE_LIMIT, BATTERY_CHARGE_TERMINAL_SAFETY_TIME_LIMIT,
     BATTERY_CHARGE_TERMINAL_BOARD_TEMPERATURE_LIMIT, BATTERY_CHARGE_TERMINAL_BQ_FAULT,
     BATTERY_CHARGE_TERMINAL_CONTROL_READBACK_FAILED, BATTERY_CHARGE_TERMINAL_GAUGE_CONTINUITY_LOST,
     BATTERY_CHARGE_TERMINAL_MANUAL_DEBUG_STOP, BATTERY_CHARGE_TERMINAL_DETACHED,
     BATTERY_CHARGE_TERMINAL_BQ_FAULT_AFTER_COULOMB_FULL, BATTERY_CHARGE_TERMINAL_MAINTENANCE_REARM]"

section \<open>The serializer\<close>

abbreviation "CHARGE_SUPERVISOR_MAGIC_V4 \<equiv> 0x34534743 :: u32"
abbreviation "CHARGE_SUPERVISOR_PAYLOAD_LEN_V4 \<equiv> 128 :: nat"
abbreviation "CHARGE_SUPERVISOR_FLAGS_VALID_V4 \<equiv> 0x7fff :: u16"
abbreviation "STORE_PAYLOAD_VERSION \<equiv> 1 :: u16"

definition flag_bit :: "bool \<Rightarrow> u16 \<Rightarrow> u16" where
  "flag_bit b m = (if b then m else 0)"

definition flags_from_state :: "charge_persisted \<Rightarrow> u16" where
  "flags_from_state p =
     flag_bit (pe_active_session_valid p) 1 OR flag_bit (pe_frozen_capacity_valid p) 2 OR
     flag_bit (pe_frozen_remaining_valid p) 4 OR flag_bit (pe_frozen_resistance_valid p) 8 OR
     flag_bit (pe_deficit_valid p) 0x10 OR flag_bit (pe_charge_factor_confident p) 0x20 OR
     flag_bit (pe_target_valid p) 0x40 OR flag_bit (pe_last_terminal_valid p) 0x80 OR
     flag_bit (pe_last_terminal_net_input_valid p) 0x100 OR
     flag_bit (pe_last_terminal_voltage_valid p) 0x200 OR
     flag_bit (pe_last_terminal_trace_complete p) 0x400 OR
     flag_bit (pe_configured_charge_factor_confident p) 0x800 OR
     flag_bit (pe_inhibit_latched p) 0x1000 OR flag_bit (pe_maintenance_rearm_pending p) 0x2000 OR
     flag_bit (pe_last_terminal_full_qualified p) 0x4000"

text \<open>The fields in the order they are written, each with the writer of \<open>storage_bytes.h\<close>.\<close>

definition charge_fields_head :: "charge_persisted \<Rightarrow> u8 list list" where
  "charge_fields_head p =
     [write_u32 CHARGE_SUPERVISOR_MAGIC_V4, write_u16 STORE_PAYLOAD_VERSION,
      write_u16 (flags_from_state p), [pe_hardware_profile_id p],
      [byte_of_enum chemistries (pe_chemistry p)],
      [byte_of_enum capacity_confidences (pe_frozen_capacity_confidence p)],
      [byte_of_enum terminals (pe_last_terminal_reason p)],
      write_u32 (pe_charge_generation p), write_u32 (pe_pack_generation p),
      write_u32 (pe_gauge_session p), write_u32 (pe_start_acr_raw p),
      write_u64 (of_int (pe_start_session_delta_nah p)), write_u16 (pe_frozen_capacity_mah p),
      write_u16 (pe_frozen_remaining_mah p), write_u16 (pe_frozen_resistance_mohm p),
      write_u16 (pe_deficit_mah p), write_u16 (pe_charge_factor_permille p),
      write_u16 (pe_configured_charge_factor_permille p)]"

definition charge_fields_tail :: "charge_persisted \<Rightarrow> u8 list list" where
  "charge_fields_tail p =
     [write_u64 (pe_target_input_nah p), write_u32 (pe_last_terminal_generation p),
      write_u32 (pe_last_terminal_elapsed_ms p), write_u64 (of_int (pe_last_terminal_net_input_nah p)),
      write_u16 (pe_last_terminal_mv p), write_u16 (pe_last_curve_peak_mv p),
      write_u16 (pe_last_curve_drop_mv p), write_u16 (of_int (pe_last_curve_slope_mv_per_min p)),
      [byte_of_enum policies (pe_configured_policy p)],
      [byte_of_enum soc_provenances (pe_frozen_soc_provenance p)],
      [byte_of_enum soc_confidences (pe_frozen_soc_confidence p)],
      [byte_of_enum terminals (pe_latched_stop_reason p)],
      write_u64 (pe_frozen_remaining_nah p), write_u64 (pe_deficit_nah p),
      write_u64 (pe_safety_input_nah p), write_u32 (if pe_completion_rearm_used p then 1 else 0),
      write_u32 0, write_u32 0, write_u32 0, write_u32 0]"

fun write_fields :: "u8 list \<Rightarrow> nat \<Rightarrow> nat \<Rightarrow> u8 list list \<Rightarrow> (u8 list \<times> nat) option" where
  "write_fields dst cap pos [] = Some (dst, pos)"
| "write_fields dst cap pos (f # fs) =
     (case write_bytes dst cap pos f of
        None \<Rightarrow> None
      | Some (dst1, pos1) \<Rightarrow> write_fields dst1 cap pos1 fs)"

definition serialize_charge_supervisor ::
    "charge_persisted \<Rightarrow> u8 list \<Rightarrow> nat \<Rightarrow> (u8 list \<times> nat) option" where
  "serialize_charge_supervisor p dst cap =
     (if \<not> battery_charge_supervisor_persisted_valid (Some p) then None
      else case write_fields dst cap 0 (charge_fields_head p @ charge_fields_tail p) of
          None \<Rightarrow> None
        | Some (dst1, pos) \<Rightarrow>
            if pos \<noteq> CHARGE_SUPERVISOR_PAYLOAD_LEN_V4 then None else Some (dst1, pos))"

section \<open>The decoder\<close>

definition apply_common_flags :: "u16 \<Rightarrow> charge_persisted \<Rightarrow> charge_persisted" where
  "apply_common_flags flags p =
     p\<lparr>pe_active_session_valid := flags AND 1 \<noteq> 0, pe_frozen_capacity_valid := flags AND 2 \<noteq> 0,
       pe_frozen_remaining_valid := flags AND 4 \<noteq> 0, pe_frozen_resistance_valid := flags AND 8 \<noteq> 0,
       pe_deficit_valid := flags AND 0x10 \<noteq> 0, pe_charge_factor_confident := flags AND 0x20 \<noteq> 0,
       pe_target_valid := flags AND 0x40 \<noteq> 0, pe_last_terminal_valid := flags AND 0x80 \<noteq> 0,
       pe_last_terminal_net_input_valid := flags AND 0x100 \<noteq> 0,
       pe_last_terminal_voltage_valid := flags AND 0x200 \<noteq> 0,
       pe_last_terminal_trace_complete := flags AND 0x400 \<noteq> 0\<rparr>"

definition decode_common_fields :: "u8 list \<Rightarrow> charge_persisted \<Rightarrow> charge_persisted option" where
  "decode_common_fields pl p =
     (case (enum_of_byte chemistries (pl ! 9), enum_of_byte capacity_confidences (pl ! 10),
            enum_of_byte terminals (pl ! 11)) of
        (Some chem, Some conf, Some reason) \<Rightarrow>
          Some (p\<lparr>pe_hardware_profile_id := pl ! 8, pe_chemistry := chem,
            pe_frozen_capacity_confidence := conf, pe_last_terminal_reason := reason,
            pe_charge_generation := read_u32 (drop 12 pl), pe_pack_generation := read_u32 (drop 16 pl),
            pe_gauge_session := read_u32 (drop 20 pl), pe_start_acr_raw := read_u32 (drop 24 pl),
            pe_start_session_delta_nah := read_i64 (drop 28 pl),
            pe_frozen_capacity_mah := read_u16 (drop 36 pl),
            pe_frozen_remaining_mah := read_u16 (drop 38 pl),
            pe_frozen_resistance_mohm := read_u16 (drop 40 pl), pe_deficit_mah := read_u16 (drop 42 pl),
            pe_charge_factor_permille := read_u16 (drop 44 pl),
            pe_target_input_nah := read_u64 (drop 48 pl),
            pe_last_terminal_generation := read_u32 (drop 56 pl),
            pe_last_terminal_elapsed_ms := read_u32 (drop 60 pl),
            pe_last_terminal_net_input_nah := read_i64 (drop 64 pl),
            pe_last_terminal_mv := read_u16 (drop 72 pl), pe_last_curve_peak_mv := read_u16 (drop 74 pl),
            pe_last_curve_drop_mv := read_u16 (drop 76 pl),
            pe_last_curve_slope_mv_per_min := sint (read_u16 (drop 78 pl))\<rparr>)
      | _ \<Rightarrow> None)"

definition decode_v4_fields :: "u8 list \<Rightarrow> charge_persisted \<Rightarrow> charge_persisted option" where
  "decode_v4_fields pl p =
     (case (enum_of_byte policies (pl ! 80), enum_of_byte soc_provenances (pl ! 81),
            enum_of_byte soc_confidences (pl ! 82), enum_of_byte terminals (pl ! 83)) of
        (Some policy, Some prov, Some conf, Some reason) \<Rightarrow>
          (let flags = read_u16 (drop 6 pl) in
           Some (p\<lparr>pe_configured_charge_factor_permille := read_u16 (drop 46 pl),
             pe_configured_policy := policy, pe_frozen_soc_provenance := prov,
             pe_frozen_soc_confidence := conf, pe_latched_stop_reason := reason,
             pe_frozen_remaining_nah := read_u64 (drop 84 pl), pe_deficit_nah := read_u64 (drop 92 pl),
             pe_safety_input_nah := read_u64 (drop 100 pl),
             pe_configured_charge_factor_confident := flags AND 0x800 \<noteq> 0,
             pe_inhibit_latched := flags AND 0x1000 \<noteq> 0,
             pe_maintenance_rearm_pending := flags AND 0x2000 \<noteq> 0,
             pe_last_terminal_full_qualified := flags AND 0x4000 \<noteq> 0,
             pe_completion_rearm_used := read_u32 (drop 108 pl) \<noteq> 0\<rparr>))
      | _ \<Rightarrow> None)"

definition v4_header_ok :: "u8 list \<Rightarrow> bool" where
  "v4_header_ok pl \<longleftrightarrow>
     length pl = CHARGE_SUPERVISOR_PAYLOAD_LEN_V4 \<and>
     read_u32 pl = CHARGE_SUPERVISOR_MAGIC_V4 \<and> read_u16 (drop 4 pl) = STORE_PAYLOAD_VERSION \<and>
     read_u16 (drop 6 pl) AND NOT CHARGE_SUPERVISOR_FLAGS_VALID_V4 = 0 \<and>
     read_u32 (drop 108 pl) \<le> 1 \<and> (\<forall>b\<in>set (drop 112 pl). b = 0)"

definition apply_charge_supervisor_v4 :: "u8 list \<Rightarrow> charge_persisted option" where
  "apply_charge_supervisor_v4 pl =
     (if \<not> v4_header_ok pl then None
      else case decode_common_fields pl battery_charge_supervisor_persisted_defaults of
          None \<Rightarrow> None
        | Some p \<Rightarrow>
            (case decode_v4_fields pl (apply_common_flags (read_u16 (drop 6 pl)) p) of
               None \<Rightarrow> None
             | Some p1 \<Rightarrow> if battery_charge_supervisor_persisted_valid (Some p1) then Some p1 else None))"

text \<open>The state after it, and the answer.\<close>

definition apply_charge_supervisor :: "u8 list \<Rightarrow> charge_persisted \<Rightarrow> charge_persisted \<times> bool" where
  "apply_charge_supervisor pl s =
     (case apply_charge_supervisor_v4 pl of None \<Rightarrow> (s, False) | Some p \<Rightarrow> (p, True))"

section \<open>Round trip\<close>

text \<open>Signed fields hold values of their C type.\<close>

definition persisted_in_range :: "charge_persisted \<Rightarrow> bool" where
  "persisted_in_range p \<longleftrightarrow>
     pe_start_session_delta_nah p \<in> {- (2 ^ 63)..<2 ^ 63} \<and>
     pe_last_terminal_net_input_nah p \<in> {- (2 ^ 63)..<2 ^ 63} \<and>
     pe_last_curve_slope_mv_per_min p \<in> {- 32768..<32768}"

lemma enum_round_trip:
  assumes "c \<in> set cs" "length cs \<le> 16"
  shows "enum_of_byte cs (byte_of_enum cs c) = Some c"
proof -
  let ?n = "length (takeWhile (\<lambda>x. x \<noteq> c) cs)"
  have n: "?n < length cs"
    using assms(1) by (induction cs) auto
  then have "unat (of_nat ?n :: u8) = ?n"
    using assms(2) by (simp add: unat_of_nat)
  moreover have "cs ! ?n = c"
    using nth_length_takeWhile [OF n] by simp
  ultimately show ?thesis
    using n by (simp add: enum_of_byte_def byte_of_enum_def)
qed

lemma enum_bytes [simp]:
  "enum_of_byte chemistries (byte_of_enum chemistries c1) = Some c1"
  "enum_of_byte policies (byte_of_enum policies c2) = Some c2"
  "enum_of_byte capacity_confidences (byte_of_enum capacity_confidences c3) = Some c3"
  "enum_of_byte soc_provenances (byte_of_enum soc_provenances c4) = Some c4"
  "enum_of_byte soc_confidences (byte_of_enum soc_confidences c5) = Some c5"
  "enum_of_byte terminals (byte_of_enum terminals c6) = Some c6"
proof -
  show "enum_of_byte chemistries (byte_of_enum chemistries c1) = Some c1"
    by (rule enum_round_trip) (cases c1; simp add: chemistries_def)+
  show "enum_of_byte policies (byte_of_enum policies c2) = Some c2"
    by (rule enum_round_trip) (cases c2; simp add: policies_def)+
  show "enum_of_byte capacity_confidences (byte_of_enum capacity_confidences c3) = Some c3"
    by (rule enum_round_trip) (cases c3; simp add: capacity_confidences_def)+
  show "enum_of_byte soc_provenances (byte_of_enum soc_provenances c4) = Some c4"
    by (rule enum_round_trip) (cases c4; simp add: soc_provenances_def)+
  show "enum_of_byte soc_confidences (byte_of_enum soc_confidences c5) = Some c5"
    by (rule enum_round_trip) (cases c5; simp add: soc_confidences_def)+
  show "enum_of_byte terminals (byte_of_enum terminals c6) = Some c6"
    by (rule enum_round_trip) (cases c6; simp add: terminals_def)+
qed

lemma write_fields_ok:
  "length dst = cap \<Longrightarrow> pos + length (concat fs) \<le> cap \<Longrightarrow>
   write_fields dst cap pos fs =
     Some (take pos dst @ concat fs @ drop (pos + length (concat fs)) dst, pos + length (concat fs))"
proof (induction fs arbitrary: dst pos)
  case (Cons f fs)
  then show ?case
    by (simp add: write_bytes_def ac_simps)
qed simp

lemma write_fields_fail:
  "length dst = cap \<Longrightarrow> cap < pos + length (concat fs) \<Longrightarrow> pos \<le> cap \<Longrightarrow> write_fields dst cap pos fs = None"
  by (induction fs arbitrary: dst pos) (auto simp add: write_bytes_def)

definition charge_payload :: "charge_persisted \<Rightarrow> u8 list" where
  "charge_payload p = concat (charge_fields_head p @ charge_fields_tail p)"

lemma charge_payload_length: "length (charge_payload p) = CHARGE_SUPERVISOR_PAYLOAD_LEN_V4"
  by (simp add: charge_payload_def charge_fields_head_def charge_fields_tail_def)

lemma drop_field: "length xs \<le> n \<Longrightarrow> drop n (xs @ ys) = drop (n - length xs) ys"
  by simp

lemma nth_field: "length xs \<le> n \<Longrightarrow> (xs @ ys) ! n = ys ! (n - length xs)"
  by (simp add: nth_append)

lemmas field_simps = charge_payload_def charge_fields_head_def charge_fields_tail_def drop_field nth_field

lemma payload_head:
  "read_u32 (charge_payload p) = CHARGE_SUPERVISOR_MAGIC_V4"
  "read_u16 (drop 4 (charge_payload p)) = STORE_PAYLOAD_VERSION"
  "read_u16 (drop 6 (charge_payload p)) = flags_from_state p"
  "charge_payload p ! 8 = pe_hardware_profile_id p"
  "charge_payload p ! 9 = byte_of_enum chemistries (pe_chemistry p)"
  "charge_payload p ! 10 = byte_of_enum capacity_confidences (pe_frozen_capacity_confidence p)"
  "charge_payload p ! 11 = byte_of_enum terminals (pe_last_terminal_reason p)"
  "read_u32 (drop 12 (charge_payload p)) = pe_charge_generation p"
  "read_u32 (drop 16 (charge_payload p)) = pe_pack_generation p"
  "read_u32 (drop 20 (charge_payload p)) = pe_gauge_session p"
  "read_u32 (drop 24 (charge_payload p)) = pe_start_acr_raw p"
  "read_u64 (drop 28 (charge_payload p)) = of_int (pe_start_session_delta_nah p)"
  by (simp_all add: field_simps)

lemma payload_middle:
  "read_u16 (drop 36 (charge_payload p)) = pe_frozen_capacity_mah p"
  "read_u16 (drop 38 (charge_payload p)) = pe_frozen_remaining_mah p"
  "read_u16 (drop 40 (charge_payload p)) = pe_frozen_resistance_mohm p"
  "read_u16 (drop 42 (charge_payload p)) = pe_deficit_mah p"
  "read_u16 (drop 44 (charge_payload p)) = pe_charge_factor_permille p"
  "read_u16 (drop 46 (charge_payload p)) = pe_configured_charge_factor_permille p"
  "read_u64 (drop 48 (charge_payload p)) = pe_target_input_nah p"
  "read_u32 (drop 56 (charge_payload p)) = pe_last_terminal_generation p"
  "read_u32 (drop 60 (charge_payload p)) = pe_last_terminal_elapsed_ms p"
  "read_u64 (drop 64 (charge_payload p)) = of_int (pe_last_terminal_net_input_nah p)"
  "read_u16 (drop 72 (charge_payload p)) = pe_last_terminal_mv p"
  "read_u16 (drop 74 (charge_payload p)) = pe_last_curve_peak_mv p"
  "read_u16 (drop 76 (charge_payload p)) = pe_last_curve_drop_mv p"
  "read_u16 (drop 78 (charge_payload p)) = of_int (pe_last_curve_slope_mv_per_min p)"
  by (simp_all add: field_simps)

lemma payload_tail:
  "charge_payload p ! 80 = byte_of_enum policies (pe_configured_policy p)"
  "charge_payload p ! 81 = byte_of_enum soc_provenances (pe_frozen_soc_provenance p)"
  "charge_payload p ! 82 = byte_of_enum soc_confidences (pe_frozen_soc_confidence p)"
  "charge_payload p ! 83 = byte_of_enum terminals (pe_latched_stop_reason p)"
  "read_u64 (drop 84 (charge_payload p)) = pe_frozen_remaining_nah p"
  "read_u64 (drop 92 (charge_payload p)) = pe_deficit_nah p"
  "read_u64 (drop 100 (charge_payload p)) = pe_safety_input_nah p"
  "read_u32 (drop 108 (charge_payload p)) = (if pe_completion_rearm_used p then 1 else 0)"
  "\<forall>b\<in>set (drop 112 (charge_payload p)). b = 0"
  by (simp_all add: field_simps) (simp add: write_u32_def)

lemma flag_bit_and [simp]: "flag_bit b m AND k = flag_bit b (m AND k)"
  by (simp add: flag_bit_def)

lemma flag_bit_zero: "flag_bit b m = 0 \<longleftrightarrow> \<not> b \<or> m = 0"
  by (simp add: flag_bit_def)

lemmas flags_simps = flags_from_state_def word_ao_dist or_eq_0_iff flag_bit_zero

lemma payload_header_ok: "v4_header_ok (charge_payload p)"
proof -
  have "flags_from_state p AND NOT CHARGE_SUPERVISOR_FLAGS_VALID_V4 = 0"
    by (simp add: flags_simps)
  then show ?thesis
    using payload_tail(9) [of p]
    by (simp add: v4_header_ok_def charge_payload_length payload_head payload_tail(8))
qed

lemma sint_of_range:
  "v \<in> {- (2 ^ 63)..<2 ^ 63} \<Longrightarrow> sint (of_int v :: u64) = v"
  "w \<in> {- 32768..<32768} \<Longrightarrow> sint (of_int w :: u16) = w"
  by (simp_all add: signed_of_int signed_take_bit_int_eq_self)

lemma apply_payload:
  assumes "battery_charge_supervisor_persisted_valid (Some p)" "persisted_in_range p"
  shows "apply_charge_supervisor_v4 (charge_payload p) = Some p"
proof -
  have r: "read_i64 (drop 28 (charge_payload p)) = pe_start_session_delta_nah p"
    "read_i64 (drop 64 (charge_payload p)) = pe_last_terminal_net_input_nah p"
    "sint (of_int (pe_last_curve_slope_mv_per_min p) :: u16) = pe_last_curve_slope_mv_per_min p"
    using assms(2) by (simp_all add: persisted_in_range_def read_i64_def payload_head payload_middle
        sint_of_range)
  have "\<exists>a. decode_common_fields (charge_payload p) persisted_zero = Some a \<and>
      decode_v4_fields (charge_payload p) (apply_common_flags (flags_from_state p) a) = Some p"
    unfolding decode_common_fields_def decode_v4_fields_def payload_head(5-7) payload_tail(1-4) enum_bytes
      prod.case option.case Let_def option.inject
    by (rule exI, rule conjI, rule refl, rule charge_persisted.equality)
      (simp_all add: apply_common_flags_def payload_head payload_middle payload_tail r flags_simps)
  then show ?thesis
    using assms(1)
    by (auto simp add: apply_charge_supervisor_v4_def payload_header_ok payload_head(3)
        battery_charge_supervisor_persisted_defaults_def)
qed

lemma serialize_payload:
  assumes "battery_charge_supervisor_persisted_valid (Some p)"
  shows "serialize_charge_supervisor p dst (length dst) =
    (if 128 \<le> length dst then Some (charge_payload p @ drop 128 dst, 128) else None)"
proof -
  have len: "length (concat (charge_fields_head p @ charge_fields_tail p)) = 128"
    using charge_payload_length by (simp add: charge_payload_def)
  show ?thesis
  proof (cases "128 \<le> length dst")
    case True
    then show ?thesis
      using write_fields_ok [of dst "length dst" 0 "charge_fields_head p @ charge_fields_tail p"] assms len
      by (simp add: serialize_charge_supervisor_def charge_payload_def)
  next
    case False
    then have "write_fields dst (length dst) 0 (charge_fields_head p @ charge_fields_tail p) = None"
      using len by (intro write_fields_fail) simp_all
    then show ?thesis
      using False by (simp add: serialize_charge_supervisor_def)
  qed
qed

lemma charge_record_roundtrip_cap:
  assumes "battery_charge_supervisor_persisted_valid (Some p)" "persisted_in_range p"
    and "map_option (\<lambda>(dst, n). take n dst) (serialize_charge_supervisor p (replicate cap 0) cap) = Some bytes"
  shows "apply_charge_supervisor bytes s = (p, True)"
proof -
  have "bytes = charge_payload p"
    using assms(3) serialize_payload [OF assms(1), of "replicate cap 0"] charge_payload_length [of p]
    by (auto split: if_splits)
  then show ?thesis
    using apply_payload [OF assms(1,2)] by (simp add: apply_charge_supervisor_def)
qed

text \<open>A valid charge record survives the journal: serializing it into any buffer of at least 128 bytes
  succeeds, the buffer beyond is untouched, and applying exactly the written bytes to any state
  restores every field; a smaller buffer is refused.\<close>

theorem charge_record_roundtrip:
  assumes "battery_charge_supervisor_persisted_valid (Some p)" "persisted_in_range p"
  shows "if 128 \<le> length dst
     then \<exists>dst1. serialize_charge_supervisor p dst (length dst) = Some (dst1, 128) \<and>
            drop 128 dst1 = drop 128 dst \<and> apply_charge_supervisor (take 128 dst1) s = (p, True)
     else serialize_charge_supervisor p dst (length dst) = None"
  using serialize_payload [OF assms(1), of dst] apply_payload [OF assms] charge_payload_length [of p]
  by (simp add: apply_charge_supervisor_def)

theorem charge_record_roundtrip_witness:
  "\<exists>dst1. serialize_charge_supervisor persisted_zero (replicate 130 7) 130 = Some (dst1, 128) \<and>
     drop 128 dst1 = [7, 7] \<and> apply_charge_supervisor (take 128 dst1) persisted_zero = (persisted_zero, True)"
proof -
  have "battery_charge_supervisor_persisted_valid (Some persisted_zero)" "persisted_in_range persisted_zero"
    by (simp_all add: battery_charge_supervisor_persisted_valid_def persisted_factor_valid_def
        persisted_latch_valid_def persisted_terminal_valid_def persisted_in_range_def persisted_zero_def)
  moreover have "drop 128 (replicate 130 7) = [7, 7 :: u8]"
    by (simp only: drop_replicate) (simp add: numeral_eq_Suc)
  ultimately show ?thesis
    using charge_record_roundtrip [of persisted_zero "replicate 130 7"] by (simp only: length_replicate)
qed

end
