(* ===== verification/Store_Durability.thy ===== *)
theory Store_Durability
  imports Store_Service Store_Charge Charge_Values
begin

text \<open>
  What the commit engine promises: a clean unit is on the medium, a clean flush survives a restart,
  and a dirty unit is attempted within one round.  The interface of a unit codec is the locale
  \<open>unit_codec\<close>, that of codecs, backend and hooks together \<open>store_laws\<close>.
\<close>

lemma units_range: "distinct [0..<n]" "\<forall>v\<in>set [0..<n]. v < n" "u < n \<Longrightarrow> u \<in> set [0..<n]"
  by simp_all

section \<open>Interfaces\<close>

text \<open>A codec, seen through the part \<open>view\<close> of the RAM it persists; \<open>typed\<close> says that the RAM holds
  values of its C types.\<close>

locale unit_codec =
  fixes ops :: "'w unit_ops" and view :: "'w \<Rightarrow> 'v" and typed :: "'w \<Rightarrow> bool"
  assumes restores: "typed w \<Longrightarrow> uo_serialize ops w cap = Some bytes \<Longrightarrow>
      snd (uo_apply ops bytes w0) \<and> view (fst (uo_apply ops bytes w0)) = view w"
    and determined: "snd (uo_apply ops bytes w0) \<Longrightarrow>
      snd (uo_apply ops bytes w1) \<and> view (fst (uo_apply ops bytes w1)) = view (fst (uo_apply ops bytes w0))"
    and typed_apply: "typed w \<Longrightarrow> typed (fst (uo_apply ops bytes w))"
    and typed_reset: "typed w \<Longrightarrow> typed (uo_reset_ram ops w)"

text \<open>A client of a unit changes its part of the RAM and marks it dirty.\<close>

definition store_client ::
    "nat \<Rightarrow> ('w \<Rightarrow> 'w) \<Rightarrow> ('w, 'b) store_state \<Rightarrow> ('w, 'b) store_state" where
  "store_client u f st =
     (if store_service_unit_ready st u
      then fst (store_engine_mark_dirty u (st\<lparr>st_ram := f (st_ram st)\<rparr>)) else st)"

definition local_change :: "(nat \<Rightarrow> 'w \<Rightarrow> 'v) \<Rightarrow> ('w \<Rightarrow> bool) \<Rightarrow> nat \<Rightarrow> ('w \<Rightarrow> 'w) \<Rightarrow> bool" where
  "local_change view typed u f \<longleftrightarrow>
     (\<forall>w. (typed w \<longrightarrow> typed (f w)) \<and> (\<forall>v. v \<noteq> u \<longrightarrow> view v (f w) = view v w))"

locale store_laws =
  fixes env :: "('w, 'b) store_env" and content :: "'b \<Rightarrow> u16 \<Rightarrow> u8 list option"
    and view :: "nat \<Rightarrow> 'w \<Rightarrow> 'v" and typed :: "'w \<Rightarrow> bool"
  assumes codec: "unit_codec (se_ops env u) (view u) typed"
    and frame: "v \<noteq> u \<Longrightarrow> view v (fst (uo_apply (se_ops env u) bytes w)) = view v w"
    and frame_reset: "v \<noteq> u \<Longrightarrow> view v (uo_reset_ram (se_ops env u) w) = view v w"
    and fallback: "uo_fallback_missing (se_ops env u) = Some f \<Longrightarrow> local_change view typed u f"
    and written: "be_write (se_backend env) b i bytes = (b', STORAGE_RECORD_OK) \<Longrightarrow>
      content b' i = Some bytes"
    and others: "i \<noteq> k \<Longrightarrow> content (fst (be_write (se_backend env) b i bytes)) k = content b k"
    and reads: "content (fst (be_read (se_backend env) b i cap)) = content b"
    and read_ok: "be_read (se_backend env) b i cap = (b', STORAGE_RECORD_OK, bytes) \<Longrightarrow>
      content b i = Some bytes"
    and post_load: "\<exists>f. local_change view typed STORE_UNIT_SERVICE_WARRANTY f \<and>
      (se_warranty_post_load env st = st \<or>
       se_warranty_post_load env st = store_client STORE_UNIT_SERVICE_WARRANTY f st)"
    and expire: "\<exists>u f. local_change view typed u f \<and>
      (se_ringtone_expire env now st = st \<or> se_ringtone_expire env now st = store_client u f st)"
begin

text \<open>The medium holds the unit: decoding its record gives the unit's part of the RAM.\<close>

definition stored :: "('w, 'b) store_state \<Rightarrow> nat \<Rightarrow> bool" where
  "stored st u \<longleftrightarrow>
     (\<exists>bytes. content (st_media st) (unit_id_for_index u) = Some bytes \<and>
        snd (uo_apply (se_ops env u) bytes (st_ram st)) \<and>
        view u (fst (uo_apply (se_ops env u) bytes (st_ram st))) = view u (st_ram st))"

definition coherent :: "('w, 'b) store_state \<Rightarrow> bool" where
  "coherent st \<longleftrightarrow>
     length (st_dirty st) = STORE_UNIT_COUNT \<and> length (st_fails st) = STORE_UNIT_COUNT \<and>
     typed (st_ram st) \<and>
     (\<forall>u<STORE_UNIT_COUNT. store_service_unit_ready st u \<longrightarrow> \<not> st_dirty st ! u \<longrightarrow> stored st u)"

lemma unit_id_unat: "u < STORE_UNIT_COUNT \<Longrightarrow> unat (unit_id_for_index u) = 0x3210 + u"
proof -
  assume "u < STORE_UNIT_COUNT"
  moreover have "unit_id_for_index u = of_nat (0x3210 + u)"
    by (simp add: unit_id_for_index_def)
  ultimately show ?thesis
    by (simp only: unat_of_nat) simp
qed

lemma unit_id_inj: "u < STORE_UNIT_COUNT \<Longrightarrow> v < STORE_UNIT_COUNT \<Longrightarrow>
    unit_id_for_index u = unit_id_for_index v \<longleftrightarrow> u = v"
  by (metis add_left_cancel unit_id_unat)

lemma stored_same_view:
  assumes "stored st v" "content (st_media st') (unit_id_for_index v) = content (st_media st) (unit_id_for_index v)"
    and "view v (st_ram st') = view v (st_ram st)"
  shows "stored st' v"
proof -
  from assms(1) obtain bytes where b: "content (st_media st) (unit_id_for_index v) = Some bytes"
    "snd (uo_apply (se_ops env v) bytes (st_ram st))"
    "view v (fst (uo_apply (se_ops env v) bytes (st_ram st))) = view v (st_ram st)"
    by (auto simp add: stored_def)
  show ?thesis
    using b(1,3) assms(2,3) unit_codec.determined [OF codec b(2), of "st_ram st'"]
    by (simp add: stored_def)
qed

lemma stored_written:
  assumes "typed (st_ram st)" "uo_serialize (se_ops env u) (st_ram st) cap = Some bytes"
    and "content (st_media st) (unit_id_for_index u) = Some bytes"
  shows "stored st u"
  using assms unit_codec.restores [OF codec, of "st_ram st" u cap bytes "st_ram st"]
  by (simp add: stored_def)

lemma coherent_client:
  assumes "coherent st" "local_change view typed u f"
  shows "coherent (store_client u f st)"
proof (cases "store_service_unit_ready st u")
  case True
  let ?st = "store_client u f st"
  have st: "?st = st\<lparr>st_ram := f (st_ram st), st_dirty := (st_dirty st)[u := True]\<rparr>"
    using True by (simp add: store_client_def store_engine_mark_dirty_def store_service_unit_ready_def)
  have "stored ?st v" if "v < STORE_UNIT_COUNT" "store_service_unit_ready ?st v" "\<not> st_dirty ?st ! v" for v
  proof -
    have "v \<noteq> u" "\<not> st_dirty st ! v"
      using that assms(1) by (cases "v = u"; simp add: st coherent_def)+
    then have "stored st v"
      using that assms(1) by (simp add: st coherent_def store_service_unit_ready_def)
    then show ?thesis
      by (rule stored_same_view) (use \<open>v \<noteq> u\<close> assms(2) in \<open>simp_all add: st local_change_def\<close>)
  qed
  then show ?thesis
    using assms by (simp add: st coherent_def local_change_def)
qed (use assms in \<open>simp add: store_client_def\<close>)

text \<open>A commit writes one record, and a successful one makes its unit stored.\<close>

lemma commit_binding_cases:
  assumes "store_engine_commit_binding env u st = (st', status, busy)"
  obtains "st' = st" "status \<noteq> STORE_STATUS_OK"
  | bytes b r where "uo_serialize (se_ops env u) (st_ram st) STORAGE_RECORD_MAX_PAYLOAD = Some bytes"
    "be_write (se_backend env) (st_media st) (unit_id_for_index u) bytes = (b, r)"
    "st' = st\<lparr>st_media := b\<rparr>" "status = STORE_STATUS_OK \<longleftrightarrow> r = STORAGE_RECORD_OK"
proof (cases "uo_serialize (se_ops env u) (st_ram st) STORAGE_RECORD_MAX_PAYLOAD")
  case None
  then show ?thesis
    using assms that(1) by (simp add: store_engine_commit_binding_def)
next
  case (Some bytes)
  obtain b r where w: "be_write (se_backend env) (st_media st) (unit_id_for_index u) bytes = (b, r)"
    by fastforce
  show ?thesis
  proof (cases "STORAGE_RECORD_MAX_PAYLOAD < length bytes")
    case True
    then have "st' = st" "status = STORE_STATUS_STORAGE_ERROR"
      using assms Some by (simp_all add: store_engine_commit_binding_def)
    then show ?thesis
      using that(1) by simp
  next
    case False
    then have "st' = st\<lparr>st_media := b\<rparr>" "status = STORE_STATUS_OK \<longleftrightarrow> r = STORAGE_RECORD_OK"
      using assms Some w by (simp_all add: store_engine_commit_binding_def) (auto split: if_splits)
    then show ?thesis
      by (rule that(2) [OF Some w])
  qed
qed

lemma commit_binding_step:
  assumes eq: "store_engine_commit_binding env u st = (st', status, busy)" and "typed (st_ram st)"
    and "u < STORE_UNIT_COUNT"
  shows "st' = st\<lparr>st_media := st_media st'\<rparr>" "status = STORE_STATUS_OK \<Longrightarrow> stored st' u"
    and "v < STORE_UNIT_COUNT \<Longrightarrow> v \<noteq> u \<Longrightarrow>
      content (st_media st') (unit_id_for_index v) = content (st_media st) (unit_id_for_index v)"
proof -
  show "st' = st\<lparr>st_media := st_media st'\<rparr>"
    using eq by (cases rule: commit_binding_cases) auto
  show "content (st_media st') (unit_id_for_index v) = content (st_media st) (unit_id_for_index v)"
    if "v < STORE_UNIT_COUNT" "v \<noteq> u"
    using eq
  proof (cases rule: commit_binding_cases)
    case (2 bytes b r)
    have "unit_id_for_index u \<noteq> unit_id_for_index v"
      using that assms(3) by (simp add: unit_id_inj)
    then show ?thesis
      using others [of "unit_id_for_index u" "unit_id_for_index v" "st_media st" bytes] 2 by simp
  qed simp
  show "stored st' u" if ok: "status = STORE_STATUS_OK"
    using eq
  proof (cases rule: commit_binding_cases)
    case (2 bytes b r)
    then show ?thesis
      using assms(2) ok written [of "st_media st" "unit_id_for_index u" bytes b]
      by (intro stored_written [of st' u STORAGE_RECORD_MAX_PAYLOAD bytes]) auto
  qed (use ok in simp)
qed

text \<open>Everything but the medium and the diagnostics is left alone by a tracked commit.\<close>

lemma tracked_step:
  assumes eq: "commit_unit_tracked env t u st = (st', status, busy)" and "typed (st_ram st)"
    and u: "u < STORE_UNIT_COUNT"
  shows "st' = st\<lparr>st_media := st_media st', st_diag := st_diag st'\<rparr>"
    and "status = STORE_STATUS_OK \<Longrightarrow> stored st' u"
    and "v < STORE_UNIT_COUNT \<Longrightarrow> v \<noteq> u \<Longrightarrow>
      content (st_media st') (unit_id_for_index v) = content (st_media st) (unit_id_for_index v)"
proof -
  define st1 where "st1 = upd_diag (\<lambda>d. d\<lparr>dg_commit_active := True, dg_current_unit := of_nat u,
    dg_commit_attempts := dg_commit_attempts d + 1\<rparr>) st"
  obtain st2 where c: "commit_unit env u st1 = (st2, status, busy)"
    and st': "st' = st2\<lparr>st_diag := st_diag st'\<rparr>"
    using eq by (auto simp add: commit_unit_tracked_def st1_def upd_diag_def Let_def split: prod.splits)
  have st1: "typed (st_ram st1)" "st_media st1 = st_media st" "st1 = st\<lparr>st_diag := st_diag st1\<rparr>"
    using assms(2) by (simp_all add: st1_def upd_diag_def)
  have s: "st2 = st1\<lparr>st_media := st_media st2\<rparr> \<and> (status = STORE_STATUS_OK \<longrightarrow> stored st2 u) \<and>
      (v < STORE_UNIT_COUNT \<longrightarrow> v \<noteq> u \<longrightarrow>
        content (st_media st2) (unit_id_for_index v) = content (st_media st1) (unit_id_for_index v))"
    using c st1(1) u commit_binding_step(1,2) [of u st1 st2 status busy]
      commit_binding_step(3) [of u st1 st2 status busy v]
    by (cases "\<not> st_ready st1 \<or> \<not> store_service_unit_ready st1 u") (simp_all add: commit_unit_def)
  have "st' = (st1\<lparr>st_media := st_media st2\<rparr>)\<lparr>st_diag := st_diag st'\<rparr>"
    using st' s by metis
  then have "st' = (st\<lparr>st_diag := st_diag st1, st_media := st_media st2\<rparr>)\<lparr>st_diag := st_diag st'\<rparr>"
    using st1(3) by metis
  then have e: "st' = st\<lparr>st_media := st_media st2, st_diag := st_diag st'\<rparr>"
    by simp
  have m: "st_media st' = st_media st2"
    using arg_cong [OF e, of st_media] by simp
  show "st' = st\<lparr>st_media := st_media st', st_diag := st_diag st'\<rparr>"
    unfolding m by (rule e)
  show "stored st' u" if "status = STORE_STATUS_OK"
  proof -
    have stored2: "stored st2 u"
      using s that by simp
    show ?thesis
      using arg_cong [OF st', of st_ram] arg_cong [OF st', of st_media]
      by (intro stored_same_view [OF stored2]) simp_all
  qed
  show "content (st_media st') (unit_id_for_index v) = content (st_media st) (unit_id_for_index v)"
    if "v < STORE_UNIT_COUNT" "v \<noteq> u"
    using s that m st1(2) by simp
qed

lemma attempt_coherent:
  assumes co: "coherent st" and p: "pending st u" and u: "u < STORE_UNIT_COUNT"
  shows "coherent (fst (attempt_unit env t u st))"
proof -
  obtain st1 status busy where c: "commit_unit_tracked env t u st = (st1, status, busy)"
    by (cases "commit_unit_tracked env t u st") auto
  have ty: "typed (st_ram st)"
    using co by (simp add: coherent_def)
  note s = tracked_step [OF c ty u]
  have eq: "st_ram st1 = st_ram st" "st_dirty st1 = st_dirty st" "st_fails st1 = st_fails st"
    "st_available st1 = st_available st"
    using arg_cong [OF s(1), of st_ram] arg_cong [OF s(1), of st_dirty] arg_cong [OF s(1), of st_fails]
      arg_cong [OF s(1), of st_available] by simp_all
  let ?st = "settle_unit u (status, busy) st1"
  have r: "st_ram ?st = st_ram st" "st_available ?st = st_available st" "st_media ?st = st_media st1"
    "length (st_dirty ?st) = length (st_dirty st)" "length (st_fails ?st) = length (st_fails st)"
    by (simp_all add: settle_unit_def eq)
  have "stored ?st v" if v: "v < STORE_UNIT_COUNT" "store_service_unit_ready ?st v" "\<not> st_dirty ?st ! v" for v
  proof (cases "v = u")
    case True
    then have "status = STORE_STATUS_OK"
      using v(3) p by (auto simp add: settle_unit_def pending_def eq split: if_splits)
    then have "stored st1 u"
      by (rule s(2))
    from stored_same_view [OF this] show ?thesis
      using True by (simp add: r eq)
  next
    case False
    then have "\<not> st_dirty st ! v"
      using v(3) by (auto simp add: settle_unit_def eq split: if_splits)
    then have "stored st v"
      using co v(1,2) by (simp add: coherent_def store_service_unit_ready_def r)
    then show ?thesis
      by (rule stored_same_view) (simp_all add: r s(3) v(1) False)
  qed
  then show ?thesis
    using co by (simp add: attempt_unit_def c coherent_def r)
qed

lemma coherent_cong:
  "coherent st \<Longrightarrow> st_dirty st' = st_dirty st \<Longrightarrow> length (st_fails st') = length (st_fails st) \<Longrightarrow>
   st_available st' = st_available st \<Longrightarrow> st_ram st' = st_ram st \<Longrightarrow> st_media st' = st_media st \<Longrightarrow>
   coherent st'"
  by (simp add: coherent_def store_service_unit_ready_def stored_def)

lemma rearm_sel:
  "st_dirty (rearm_one i st) = st_dirty st \<and> length (st_fails (rearm_one i st)) = length (st_fails st) \<and>
   st_available (rearm_one i st) = st_available st \<and> st_ram (rearm_one i st) = st_ram st \<and>
   st_media (rearm_one i st) = st_media st"
  by (simp add: rearm_one_def)

lemma rearm_coherent: "coherent st \<Longrightarrow> coherent (rearm_parked now st)"
proof -
  have "coherent st \<Longrightarrow> coherent (fold rearm_one is st)" for "is" st
  proof (induction "is" arbitrary: st)
    case (Cons i "is")
    have "coherent (rearm_one i st)"
      using rearm_sel by (intro coherent_cong [OF Cons.prems]) blast+
    then show ?case
      using Cons.IH by simp
  qed simp
  moreover have "coherent st \<Longrightarrow> coherent (st\<lparr>st_park_base := now\<rparr>)"
    by (erule coherent_cong) simp_all
  ultimately show "coherent st \<Longrightarrow> coherent (rearm_parked now st)"
    by (simp add: rearm_parked_def)
qed

lemma scan_coherent: "coherent st \<Longrightarrow> coherent (tick_scan env t now ns st)"
proof (induction ns arbitrary: st)
  case (Cons n ns)
  let ?i = "scan_unit (st_scan st) n"
  show ?case
  proof (cases "pending st ?i")
    case True
    have "coherent (fst (attempt_unit env t ?i st))"
      using Cons.prems True by (rule attempt_coherent) (simp add: scan_unit_def)
    then show ?thesis
      using True by (simp add: Let_def) (erule coherent_cong; simp)
  qed (simp add: Cons Let_def)
qed simp

lemma tick_coherent: "coherent st \<Longrightarrow> coherent (store_service_tick env t now st)"
proof -
  assume co: "coherent st"
  have "coherent (se_ringtone_expire env now st)"
    using expire [of now st] coherent_client [OF co] co by metis
  then show ?thesis
    by (simp add: store_service_tick_def Let_def rearm_coherent scan_coherent)
qed

lemma flush_coherent: "coherent st \<Longrightarrow> coherent (fst (store_service_flush_all env t st))"
proof -
  have f: "coherent (fst acc) \<Longrightarrow> \<forall>i\<in>set is. i < STORE_UNIT_COUNT \<Longrightarrow>
      coherent (fst (fold (flush_step env t) is acc))" for "is" acc
  proof (induction "is" arbitrary: acc)
    case (Cons i "is")
    have "coherent (fst (flush_step env t i acc))"
      using Cons.prems by (auto simp add: flush_step_def Let_def split: prod.splits
          dest: attempt_coherent [of _ i t])
    then show ?case
      using Cons by simp
  qed simp
  have d: "coherent st \<Longrightarrow> coherent (upd_diag g st)" for g st
    by (erule coherent_cong) (simp_all add: upd_diag_def)
  assume "coherent st"
  then have "coherent (fst (fold (flush_step env t) [0..<STORE_UNIT_COUNT]
      (upd_diag (\<lambda>d. d\<lparr>dg_flush_attempts := dg_flush_attempts d + 1\<rparr>) st, True)))"
    by (intro f) (simp_all only: d fst_conv set_upt atLeastLessThan_iff Ball_def simp_thms, blast)
  then show ?thesis
    using \<open>coherent st\<close> d
    by (simp only: store_service_flush_all_def Let_def split: prod.split) auto
qed

text \<open>The boot load of one unit that is not available yet.\<close>

lemma load_unit_cases:
  assumes "load_unit env u st = (st', ok)"
  obtains (found) b bytes w where "be_read (se_backend env) (st_media st) (unit_id_for_index u) STORAGE_RECORD_MAX_PAYLOAD =
      (b, STORAGE_RECORD_OK, bytes)" "uo_apply (se_ops env u) bytes (st_ram st) = (w, True)" "ok"
      "st' = st\<lparr>st_media := b, st_ram := w\<rparr>"
  | (corrupt) b bytes w where "be_read (se_backend env) (st_media st) (unit_id_for_index u) STORAGE_RECORD_MAX_PAYLOAD =
      (b, STORAGE_RECORD_OK, bytes)" "uo_apply (se_ops env u) bytes (st_ram st) = (w, False)" "\<not> ok"
      "st' = st\<lparr>st_media := b, st_ram := uo_reset_ram (se_ops env u) w\<rparr>"
  | (unreadable) b r bytes where "be_read (se_backend env) (st_media st) (unit_id_for_index u) STORAGE_RECORD_MAX_PAYLOAD =
      (b, r, bytes)" "r \<noteq> STORAGE_RECORD_OK" "\<not> ok" "st' = st\<lparr>st_media := b\<rparr>"
  | (missing) b bytes st1 st2 status busy where
      "be_read (se_backend env) (st_media st) (unit_id_for_index u) STORAGE_RECORD_MAX_PAYLOAD =
        (b, STORAGE_RECORD_NOT_FOUND, bytes)" "ok"
      "st1 = st\<lparr>st_media := b, st_ram := (case uo_fallback_missing (se_ops env u) of
         None \<Rightarrow> st_ram st | Some f \<Rightarrow> f (st_ram st))\<rparr>"
      "store_engine_commit_binding env u st1 = (st2, status, busy)"
      "st' = st2\<lparr>st_dirty := (st_dirty st2)[u := (status \<noteq> STORE_STATUS_OK)]\<rparr>"
proof -
  obtain b r bytes where rd: "be_read (se_backend env) (st_media st) (unit_id_for_index u) STORAGE_RECORD_MAX_PAYLOAD =
      (b, r, bytes)"
    by (cases "be_read (se_backend env) (st_media st) (unit_id_for_index u) STORAGE_RECORD_MAX_PAYLOAD") auto
  consider "r = STORAGE_RECORD_OK" | "r = STORAGE_RECORD_NOT_FOUND"
    | "r \<noteq> STORAGE_RECORD_OK" "r \<noteq> STORAGE_RECORD_NOT_FOUND"
    by blast
  then show thesis
  proof cases
    case 1
    obtain w k where "uo_apply (se_ops env u) bytes (st_ram st) = (w, k)"
      by fastforce
    with 1 rd assms found corrupt show thesis
      by (cases k) (simp_all add: load_unit_def)
  next
    case 2
    define st1 where "st1 = st\<lparr>st_media := b, st_ram := (case uo_fallback_missing (se_ops env u) of
         None \<Rightarrow> st_ram st | Some f \<Rightarrow> f (st_ram st))\<rparr>"
    have st1: "st1 = (case uo_fallback_missing (se_ops env u) of None \<Rightarrow> st\<lparr>st_media := b\<rparr>
        | Some f \<Rightarrow> (st\<lparr>st_media := b\<rparr>)\<lparr>st_ram := f (st_ram (st\<lparr>st_media := b\<rparr>))\<rparr>)"
      by (simp add: st1_def split: option.splits)
    obtain st2 status busy where c: "store_engine_commit_binding env u st1 = (st2, status, busy)"
      by (cases "store_engine_commit_binding env u st1") auto
    have "st' = st2\<lparr>st_dirty := (st_dirty st2)[u := (status \<noteq> STORE_STATUS_OK)]\<rparr>" "ok"
      using assms rd 2 c by (simp_all add: load_unit_def st1 [symmetric])
    with rd 2 c st1_def missing show thesis
      by blast
  next
    case 3
    with rd assms unreadable show thesis
      by (simp add: load_unit_def)
  qed
qed

lemma stored_frame:
  assumes "coherent st" "\<And>v. v < STORE_UNIT_COUNT \<Longrightarrow> v \<noteq> u \<Longrightarrow>
      content (st_media st') (unit_id_for_index v) = content (st_media st) (unit_id_for_index v) \<and>
      view v (st_ram st') = view v (st_ram st) \<and> st_dirty st' ! v = st_dirty st ! v \<and>
      store_service_unit_ready st' v = store_service_unit_ready st v"
    and "length (st_dirty st') = STORE_UNIT_COUNT" "length (st_fails st') = STORE_UNIT_COUNT"
    and "typed (st_ram st')"
    and "store_service_unit_ready st' u \<Longrightarrow> \<not> st_dirty st' ! u \<Longrightarrow> stored st' u"
  shows "coherent st'"
proof -
  have "stored st' v" if "v < STORE_UNIT_COUNT" "store_service_unit_ready st' v" "\<not> st_dirty st' ! v" for v
  proof (cases "v = u")
    case True
    then show ?thesis
      using assms(6) that by simp
  next
    case False
    note f = assms(2) [OF that(1) False]
    have "stored st v"
      using assms(1) that f by (simp add: coherent_def)
    then show ?thesis
      by (rule stored_same_view) (simp_all add: f)
  qed
  then show ?thesis
    using assms(3-5) by (simp add: coherent_def)
qed

lemma fallback_local:
  "\<exists>f. local_change view typed u f \<and>
     (case uo_fallback_missing (se_ops env u) of None \<Rightarrow> w | Some g \<Rightarrow> g w) = f w"
proof (cases "uo_fallback_missing (se_ops env u)")
  case None
  then show ?thesis
    by (intro exI [of _ id]) (simp add: local_change_def)
next
  case (Some g)
  then show ?thesis
    using fallback by auto
qed

lemma typed_codec: "typed w \<Longrightarrow> typed (fst (uo_apply (se_ops env u) bytes w))"
  "typed w \<Longrightarrow> typed (uo_reset_ram (se_ops env u) w)"
  by (rule unit_codec.typed_apply [OF codec], assumption, rule unit_codec.typed_reset [OF codec], assumption)

text \<open>What the boot load of unit \<open>u\<close> leaves alone, and what it makes of \<open>u\<close>.\<close>

definition boot_frame :: "nat \<Rightarrow> ('w, 'b) store_state \<Rightarrow> ('w, 'b) store_state \<Rightarrow> bool" where
  "boot_frame u st st' \<longleftrightarrow>
     typed (st_ram st') \<and> length (st_dirty st') = length (st_dirty st) \<and> st_fails st' = st_fails st \<and>
     (\<forall>v<STORE_UNIT_COUNT. v \<noteq> u \<longrightarrow>
        content (st_media st') (unit_id_for_index v) = content (st_media st) (unit_id_for_index v) \<and>
        view v (st_ram st') = view v (st_ram st) \<and> st_dirty st' ! v = st_dirty st ! v \<and>
        st_available st' = st_available st)"

lemma load_unit_frame:
  assumes l: "load_unit env u st = (st', ok)" and ty: "typed (st_ram st)" and u: "u < STORE_UNIT_COUNT"
  shows "boot_frame u st st'" and "ok \<Longrightarrow> \<not> st_dirty st' ! u \<Longrightarrow> u < length (st_dirty st) \<Longrightarrow> stored st' u"
    and "st_available st' = st_available st"
proof -
  have "boot_frame u st st' \<and> (ok \<longrightarrow> \<not> st_dirty st' ! u \<longrightarrow> u < length (st_dirty st) \<longrightarrow> stored st' u) \<and>
      st_available st' = st_available st"
    using l
  proof (cases rule: load_unit_cases)
    case (found b bytes w)
    have c: "content b = content (st_media st)" "content (st_media st) (unit_id_for_index u) = Some bytes"
      using found(1) reads [of "st_media st" "unit_id_for_index u"] read_ok by (metis fst_conv)+
    have "snd (uo_apply (se_ops env u) bytes w)"
      "view u (fst (uo_apply (se_ops env u) bytes w)) = view u w"
      using unit_codec.determined [OF codec, of u bytes "st_ram st" w] found(2) by simp_all
    moreover have "typed w" "\<And>v. v \<noteq> u \<Longrightarrow> view v w = view v (st_ram st)"
      using typed_codec(1) [OF ty, of u bytes] frame [of _ u bytes "st_ram st"] found(2) by simp_all
    ultimately show ?thesis
      using found(4) c by (simp add: boot_frame_def stored_def)
  next
    case (corrupt b bytes w)
    have "content b = content (st_media st)"
      using corrupt(1) reads [of "st_media st" "unit_id_for_index u"] by (metis fst_conv)
    moreover have "typed (uo_reset_ram (se_ops env u) w)"
      using typed_codec(1) [OF ty, of u bytes] typed_codec(2) corrupt(2) by simp
    moreover have "\<And>v. v \<noteq> u \<Longrightarrow> view v (uo_reset_ram (se_ops env u) w) = view v (st_ram st)"
      using frame [of _ u bytes "st_ram st"] frame_reset corrupt(2) by simp
    ultimately show ?thesis
      using corrupt(3,4) by (simp add: boot_frame_def)
  next
    case (unreadable b r bytes)
    have "content b = content (st_media st)"
      using unreadable(1) reads [of "st_media st" "unit_id_for_index u"] by (metis fst_conv)
    then show ?thesis
      using unreadable(3,4) ty by (simp add: boot_frame_def)
  next
    case (missing b bytes st1 st2 status busy)
    have c: "content b = content (st_media st)"
      using missing(1) reads [of "st_media st" "unit_id_for_index u"] by (metis fst_conv)
    obtain f where f: "local_change view typed u f" "st_ram st1 = f (st_ram st)"
      using fallback_local [of u "st_ram st"] missing(3) by auto
    have st1: "typed (st_ram st1)" "st_media st1 = b" "st_dirty st1 = st_dirty st"
      "st_fails st1 = st_fails st" "st_available st1 = st_available st"
      using f ty missing(3) by (simp_all add: local_change_def)
    note s = commit_binding_step(1,2) [OF missing(4) st1(1) u]
    note t = commit_binding_step(3) [OF missing(4) st1(1) u]
    have eq: "st_ram st2 = st_ram st1" "st_dirty st2 = st_dirty st" "st_fails st2 = st_fails st"
      "st_available st2 = st_available st"
      using arg_cong [OF s(1), of st_ram] arg_cong [OF s(1), of st_dirty] arg_cong [OF s(1), of st_fails]
        arg_cong [OF s(1), of st_available] st1 by simp_all
    have "stored st' u" if "\<not> st_dirty st' ! u" "u < length (st_dirty st)"
    proof -
      have "status = STORE_STATUS_OK"
        using that missing(5) eq by simp
      from stored_same_view [OF s(2) [OF this]] show ?thesis
        using missing(5) by simp
    qed
    then show ?thesis
      using missing(5) eq f st1 t c by (auto simp add: boot_frame_def local_change_def)
  qed
  then show "boot_frame u st st'" "ok \<Longrightarrow> \<not> st_dirty st' ! u \<Longrightarrow> u < length (st_dirty st) \<Longrightarrow> stored st' u"
    "st_available st' = st_available st"
    by blast+
qed

lemma ready_bit: "store_service_unit_ready st u \<longleftrightarrow> u < STORE_UNIT_COUNT \<and> bit (st_available st) u"
  by (simp add: store_service_unit_ready_def bit_iff_and_push_bit_not_eq_0)

lemma boot_unit_coherent:
  assumes co: "coherent st" and u: "u < STORE_UNIT_COUNT" and no: "\<not> store_service_unit_ready st u"
  shows "coherent (boot_unit env u st)"
    and "v \<noteq> u \<Longrightarrow> store_service_unit_ready (boot_unit env u st) v = store_service_unit_ready st v"
proof -
  obtain st1 ok where l: "load_unit env u st = (st1, ok)"
    by fastforce
  have ty: "typed (st_ram st)" and len: "length (st_dirty st) = STORE_UNIT_COUNT" "length (st_fails st) = STORE_UNIT_COUNT"
    using co by (simp_all add: coherent_def)
  note f = load_unit_frame [OF l ty u]
  let ?st = "boot_unit env u st"
  have st: "?st = (if ok then st1\<lparr>st_available := st_available st1 OR push_bit u 1\<rparr>
      else store_service_require_service STORE_BOOT_FAULT_RECORD st1)"
    by (simp add: boot_unit_def l)
  have keep: "st_ram ?st = st_ram st1" "st_media ?st = st_media st1" "st_dirty ?st = st_dirty st1"
    "st_fails ?st = st_fails st1"
    by (simp_all add: st store_service_require_service_def)
  show r: "store_service_unit_ready ?st v = store_service_unit_ready st v" if "v \<noteq> u" for v
    using that f(3) by (auto simp add: st ready_bit store_service_require_service_def bit_or_iff
        bit_push_bit_iff bit_1_iff bit_exp_iff)
  show "coherent ?st"
  proof (rule stored_frame [OF co])
    show "typed (st_ram ?st)" "length (st_dirty ?st) = STORE_UNIT_COUNT" "length (st_fails ?st) = STORE_UNIT_COUNT"
      using f(1) len by (simp_all add: keep boot_frame_def)
    show "content (st_media ?st) (unit_id_for_index v) = content (st_media st) (unit_id_for_index v) \<and>
        view v (st_ram ?st) = view v (st_ram st) \<and> st_dirty ?st ! v = st_dirty st ! v \<and>
        store_service_unit_ready ?st v = store_service_unit_ready st v"
      if "v < STORE_UNIT_COUNT" "v \<noteq> u" for v
      using f(1) that r by (simp add: keep boot_frame_def)
    assume rd: "store_service_unit_ready ?st u" and cl: "\<not> st_dirty ?st ! u"
    have "ok"
      using rd no f(3) by (auto simp add: st ready_bit store_service_require_service_def split: if_splits)
    then have "stored st1 u"
      using f(2) cl len u by (simp add: keep)
    from stored_same_view [OF this] show "stored ?st u"
      by (simp add: keep)
  qed
qed

lemma boot_all_coherent:
  "coherent st \<Longrightarrow> \<forall>u\<in>set us. u < STORE_UNIT_COUNT \<and> \<not> store_service_unit_ready st u \<Longrightarrow> distinct us \<Longrightarrow>
   coherent (fold (boot_unit env) us st)"
proof (induction us arbitrary: st)
  case (Cons u us)
  have u: "u < STORE_UNIT_COUNT" "\<not> store_service_unit_ready st u"
    using Cons.prems by simp_all
  note b = boot_unit_coherent [OF Cons.prems(1) u]
  have "\<forall>v\<in>set us. v < STORE_UNIT_COUNT \<and> \<not> store_service_unit_ready (boot_unit env u st) v"
  proof
    fix v assume v: "v \<in> set us"
    then have "v \<noteq> u"
      using Cons.prems(3) by auto
    then show "v < STORE_UNIT_COUNT \<and> \<not> store_service_unit_ready (boot_unit env u st) v"
      using Cons.prems(2) v b(2) by simp
  qed
  then show ?case
    using Cons.IH [OF b(1)] Cons.prems(3) by simp
qed simp

lemma typed_resets: "typed w \<Longrightarrow> typed (fold (\<lambda>u. uo_reset_ram (se_ops env u)) us w)"
  by (induction us arbitrary: w) (simp_all add: typed_codec)

lemma init_coherent:
  assumes ty: "typed (st_ram st)"
  shows "coherent (fst (store_service_init env opened st))"
proof -
  define st0 where "st0 = \<lparr>st_ready = False, st_available = 0, st_faults = 0,
    st_dirty = replicate STORE_UNIT_COUNT False, st_fails = replicate STORE_UNIT_COUNT 0,
    st_scan = 0, st_park_base = 0, st_defer = 0, st_last_commit = 0, st_diag = diag_zero,
    st_ram = fold (\<lambda>u. uo_reset_ram (se_ops env u)) [0..<STORE_UNIT_COUNT] (st_ram st),
    st_media = st_media st\<rparr>"
  define st1 where "st1 = (if fst opened \<noteq> STORAGE_RECORD_OK
    then store_service_require_service STORE_BOOT_FAULT_BACKEND st0 else st0)"
  have none: "\<not> store_service_unit_ready st1 u" for u
    by (simp add: st1_def st0_def store_service_require_service_def store_service_unit_ready_def)
  have "st_dirty st1 = replicate STORE_UNIT_COUNT False" "st_fails st1 = replicate STORE_UNIT_COUNT 0"
    "typed (st_ram st1)"
    using typed_resets [OF ty, of "[0..<STORE_UNIT_COUNT]"]
    by (simp_all only: st1_def st0_def store_service_require_service_def store_state.simps split: if_split) simp_all
  then have c1: "coherent st1"
    using none by (simp only: coherent_def length_replicate) simp
  define st2 where "st2 = fold (boot_unit env) [0..<STORE_UNIT_COUNT] st1"
  have c2: "coherent st2"
    unfolding st2_def using none
    by (intro boot_all_coherent c1) (simp_all only: set_upt atLeastLessThan_iff Ball_def distinct_upt simp_thms, blast)
  define st3 where "st3 = (if store_service_unit_ready st2 STORE_UNIT_SERVICE_WARRANTY
    then se_warranty_post_load env st2 else st2)"
  have c3: "coherent st3"
    unfolding st3_def using post_load [of st2] coherent_client [OF c2] c2 by metis
  have eq: "fst (store_service_init env opened st) =
      (if \<not> snd opened then st1 else upd_diag (\<lambda>d. d\<lparr>dg_ready := True\<rparr>) (st3\<lparr>st_ready := True\<rparr>))"
    by (cases opened) (simp only: store_service_init_def Let_def st3_def st2_def st1_def st0_def
        prod.case fst_conv snd_conv split: if_split, simp)
  show ?thesis
    unfolding eq using c1 coherent_cong [OF c3] by (simp add: upd_diag_def)
qed

text \<open>A clean flush leaves no waiting unit dirty and the RAM alone.\<close>

lemma attempt_effect:
  assumes "attempt_unit env t u st = (st', ok)" "typed (st_ram st)" "u < STORE_UNIT_COUNT"
  shows "st_ram st' = st_ram st" "st_available st' = st_available st"
    "ok \<Longrightarrow> u < length (st_dirty st) \<Longrightarrow> \<not> st_dirty st' ! u"
    and "v \<noteq> u \<Longrightarrow> st_dirty st' ! v = st_dirty st ! v \<and> st_fails st' ! v = st_fails st ! v"
    "length (st_dirty st') = length (st_dirty st)"
proof -
  obtain st1 status busy where c: "commit_unit_tracked env t u st = (st1, status, busy)"
    by (cases "commit_unit_tracked env t u st") auto
  note s = tracked_step(1) [OF c assms(2,3)]
  have eq: "st_ram st1 = st_ram st" "st_dirty st1 = st_dirty st" "st_fails st1 = st_fails st"
    "st_available st1 = st_available st"
    using arg_cong [OF s, of st_ram] arg_cong [OF s, of st_dirty] arg_cong [OF s, of st_fails]
      arg_cong [OF s, of st_available] by simp_all
  have "st' = settle_unit u (status, busy) st1" "ok \<longleftrightarrow> status = STORE_STATUS_OK"
    using assms(1) by (auto simp add: attempt_unit_def c)
  then show "st_ram st' = st_ram st" "st_available st' = st_available st"
    "ok \<Longrightarrow> u < length (st_dirty st) \<Longrightarrow> \<not> st_dirty st' ! u"
    "v \<noteq> u \<Longrightarrow> st_dirty st' ! v = st_dirty st ! v \<and> st_fails st' ! v = st_fails st ! v"
    "length (st_dirty st') = length (st_dirty st)"
    by (simp_all add: settle_unit_def eq)
qed

lemma flush_fold_clean:
  assumes "fold (flush_step env t) is (st, c) = (st', True)" "typed (st_ram st)"
    and "\<forall>i\<in>set is. i < STORE_UNIT_COUNT" "length (st_dirty st) = STORE_UNIT_COUNT" "distinct is"
  shows "c \<and> st_ram st' = st_ram st \<and> st_available st' = st_available st \<and>
    (\<forall>i\<in>set is. pending st i \<longrightarrow> \<not> st_dirty st' ! i) \<and>
    (\<forall>i. i \<notin> set is \<or> \<not> pending st i \<longrightarrow> st_dirty st' ! i = st_dirty st ! i)"
  using assms
proof (induction "is" arbitrary: st c)
  case (Cons u us)
  show ?case
  proof (cases "pending st u")
    case False
    then show ?thesis
      using Cons by (auto simp add: flush_step_def)
  next
    case True
    obtain st1 ok where a: "attempt_unit env t u st = (st1, ok)"
      by fastforce
    have u: "u < STORE_UNIT_COUNT" "u \<notin> set us"
      using Cons.prems by simp_all
    note e = attempt_effect(1,2,3,5) [OF a Cons.prems(2) u(1)]
    note e4 = attempt_effect(4) [OF a Cons.prems(2) u(1)]
    have "c \<and> ok \<and> st_ram st' = st_ram st1 \<and> st_available st' = st_available st1 \<and>
        (\<forall>i\<in>set us. pending st1 i \<longrightarrow> \<not> st_dirty st' ! i) \<and>
        (\<forall>i. i \<notin> set us \<or> \<not> pending st1 i \<longrightarrow> st_dirty st' ! i = st_dirty st1 ! i)"
      using Cons.IH [of st1 "c \<and> ok"] Cons.prems e True a by (simp add: flush_step_def)
    moreover have "pending st1 i = pending st i" if "i \<noteq> u" for i
      using e4 [OF that] by (simp add: pending_def)
    ultimately show ?thesis
      using e e4 u Cons.prems(4) True by (auto simp add: pending_def) metis+
  qed
qed simp

text \<open>A restart on a medium whose records can be read.\<close>

definition readable :: bool where
  "readable \<longleftrightarrow> (\<forall>b i cap bytes. content b i = Some bytes \<longrightarrow>
     fst (snd (be_read (se_backend env) b i cap)) = STORAGE_RECORD_OK)"

definition restored :: "('w, 'b) store_state \<Rightarrow> nat \<Rightarrow> u8 list \<Rightarrow> 'v \<Rightarrow> bool" where
  "restored st u bytes x \<longleftrightarrow>
     typed (st_ram st) \<and> content (st_media st) (unit_id_for_index u) = Some bytes \<and>
     (\<forall>w. snd (uo_apply (se_ops env u) bytes w) \<and> view u (fst (uo_apply (se_ops env u) bytes w)) = x)"

lemma boot_other:
  assumes "restored st u bytes x" "v < STORE_UNIT_COUNT" "u < STORE_UNIT_COUNT" "v \<noteq> u"
  shows "restored (boot_unit env v st) u bytes x" "view u (st_ram (boot_unit env v st)) = view u (st_ram st)"
    "store_service_unit_ready (boot_unit env v st) u = store_service_unit_ready st u"
    "st_dirty (boot_unit env v st) ! u = st_dirty st ! u" "st_fails (boot_unit env v st) = st_fails st"
proof -
  obtain st1 ok where l: "load_unit env v st = (st1, ok)"
    by fastforce
  have ty: "typed (st_ram st)"
    using assms(1) by (simp add: restored_def)
  note f = load_unit_frame [OF l ty assms(2)]
  let ?st = "boot_unit env v st"
  have st: "?st = (if ok then st1\<lparr>st_available := st_available st1 OR push_bit v 1\<rparr>
      else store_service_require_service STORE_BOOT_FAULT_RECORD st1)"
    by (simp add: boot_unit_def l)
  have keep: "st_ram ?st = st_ram st1" "st_media ?st = st_media st1" "st_dirty ?st = st_dirty st1"
    "st_fails ?st = st_fails st1"
    by (simp_all add: st store_service_require_service_def)
  show "restored ?st u bytes x" "view u (st_ram ?st) = view u (st_ram st)"
    "st_dirty ?st ! u = st_dirty st ! u" "st_fails ?st = st_fails st"
    using assms f(1) by (simp_all add: restored_def keep boot_frame_def)
  show "store_service_unit_ready ?st u = store_service_unit_ready st u"
    using assms(4) f(3) by (auto simp add: st ready_bit store_service_require_service_def bit_or_iff
        bit_push_bit_iff bit_1_iff bit_exp_iff)
qed

lemma boot_self:
  assumes "readable" "restored st u bytes x" "u < STORE_UNIT_COUNT"
  shows "restored (boot_unit env u st) u bytes x" "view u (st_ram (boot_unit env u st)) = x"
    "store_service_unit_ready (boot_unit env u st) u" "st_dirty (boot_unit env u st) = st_dirty st"
    "st_fails (boot_unit env u st) = st_fails st"
proof -
  obtain b r bs where rd: "be_read (se_backend env) (st_media st) (unit_id_for_index u) STORAGE_RECORD_MAX_PAYLOAD =
      (b, r, bs)"
    by (cases "be_read (se_backend env) (st_media st) (unit_id_for_index u) STORAGE_RECORD_MAX_PAYLOAD") auto
  have c: "content (st_media st) (unit_id_for_index u) = Some bytes" and ty: "typed (st_ram st)"
    using assms(2) by (simp_all add: restored_def)
  have r: "r = STORAGE_RECORD_OK"
    using assms(1) c rd unfolding readable_def by (metis fst_conv snd_conv)
  then have "content (st_media st) (unit_id_for_index u) = Some bs"
    using read_ok rd by blast
  then have bs: "bs = bytes"
    using c by simp
  have cb: "content b = content (st_media st)"
    using reads [of "st_media st" "unit_id_for_index u" STORAGE_RECORD_MAX_PAYLOAD] rd by simp
  obtain w where w: "uo_apply (se_ops env u) bytes (st_ram st) = (w, True)" "view u w = x"
    using assms(2) unfolding restored_def
    by (cases "uo_apply (se_ops env u) bytes (st_ram st)") (metis fst_conv snd_conv)
  have "boot_unit env u st = (st\<lparr>st_media := b, st_ram := w\<rparr>)
      \<lparr>st_available := st_available st OR push_bit u 1\<rparr>"
    using rd r bs w by (simp add: boot_unit_def load_unit_def)
  then show "restored (boot_unit env u st) u bytes x" "view u (st_ram (boot_unit env u st)) = x"
    "store_service_unit_ready (boot_unit env u st) u" "st_dirty (boot_unit env u st) = st_dirty st"
    "st_fails (boot_unit env u st) = st_fails st"
    using assms(2,3) cb w typed_codec(1) [OF ty, of u bytes]
    by (simp_all add: restored_def ready_bit bit_or_iff bit_exp_iff bit_push_bit_iff)
qed

lemma boot_fold_restores:
  assumes "readable" "restored st u bytes x" "u < STORE_UNIT_COUNT" "distinct us"
    and "\<forall>v\<in>set us. v < STORE_UNIT_COUNT"
    and "u \<in> set us \<or> (view u (st_ram st) = x \<and> store_service_unit_ready st u)"
  shows "view u (st_ram (fold (boot_unit env) us st)) = x \<and>
    store_service_unit_ready (fold (boot_unit env) us st) u \<and>
    st_dirty (fold (boot_unit env) us st) ! u = st_dirty st ! u \<and>
    st_fails (fold (boot_unit env) us st) = st_fails st"
  using assms
proof (induction us arbitrary: st)
  case (Cons v us)
  show ?case
  proof (cases "v = u")
    case True
    note b = boot_self [OF Cons.prems(1,2,3)]
    show ?thesis
      using Cons.IH [OF Cons.prems(1) b(1) Cons.prems(3)] Cons.prems b True by simp
  next
    case False
    have "v < STORE_UNIT_COUNT"
      using Cons.prems by simp
    note b = boot_other [OF Cons.prems(2) this Cons.prems(3) False]
    show ?thesis
      using Cons.IH [OF Cons.prems(1) b(1) Cons.prems(3)] Cons.prems b False by auto
  qed
qed simp

lemma stored_restored:
  assumes "stored st u" "typed w" "media = st_media st" "st' = st2\<lparr>st_ram := w, st_media := media\<rparr>"
  shows "\<exists>bytes. restored st' u bytes (view u (st_ram st))"
proof -
  from assms(1) obtain bytes where b: "content (st_media st) (unit_id_for_index u) = Some bytes"
    "snd (uo_apply (se_ops env u) bytes (st_ram st))"
    "view u (fst (uo_apply (se_ops env u) bytes (st_ram st))) = view u (st_ram st)"
    by (auto simp add: stored_def)
  then show ?thesis
    using unit_codec.determined [OF codec b(2)] assms(2-4) by (auto simp add: restored_def)
qed

lemma client_view: "local_change view typed v f \<Longrightarrow> u \<noteq> v \<Longrightarrow>
    view u (st_ram (store_client v f st)) = view u (st_ram st) \<and>
    store_service_unit_ready (store_client v f st) u = store_service_unit_ready st u \<and>
    st_dirty (store_client v f st) ! u = st_dirty st ! u \<and> st_fails (store_client v f st) = st_fails st"
  by (simp add: store_client_def store_engine_mark_dirty_def local_change_def store_service_unit_ready_def)

lemma restart_restores:
  assumes "readable" "stored st u" "typed w" "u < STORE_UNIT_COUNT"
    and hook: "u \<noteq> STORE_UNIT_SERVICE_WARRANTY \<or> (\<forall>st. se_warranty_post_load env st = st)"
  defines "st' \<equiv> fst (store_service_init env (STORAGE_RECORD_OK, True) (st\<lparr>st_ram := w\<rparr>))"
  shows "view u (st_ram st') = view u (st_ram st) \<and> store_service_unit_ready st' u \<and>
    \<not> st_dirty st' ! u \<and> st_fails st' ! u = 0 \<and> st_ready st'"
proof -
  let ?w = "fold (\<lambda>u. uo_reset_ram (se_ops env u)) [0..<STORE_UNIT_COUNT] w"
  define st0 where "st0 = \<lparr>st_ready = False, st_available = 0, st_faults = 0,
    st_dirty = replicate STORE_UNIT_COUNT False, st_fails = replicate STORE_UNIT_COUNT 0,
    st_scan = 0, st_park_base = 0, st_defer = 0, st_last_commit = 0, st_diag = diag_zero,
    st_ram = fold (\<lambda>u. uo_reset_ram (se_ops env u)) [0..<STORE_UNIT_COUNT] (st_ram (st\<lparr>st_ram := w\<rparr>)),
    st_media = st_media (st\<lparr>st_ram := w\<rparr>)\<rparr>"
  have "typed ?w"
    by (rule typed_resets [OF assms(3)])
  from stored_restored [OF assms(2) this refl, of st0 st0] obtain bytes where
    r: "restored st0 u bytes (view u (st_ram st))"
    by (auto simp add: st0_def)
  define st2 where "st2 = fold (boot_unit env) [0..<STORE_UNIT_COUNT] st0"
  have z: "st_dirty st0 = replicate STORE_UNIT_COUNT False" "st_fails st0 = replicate STORE_UNIT_COUNT 0"
    by (simp_all only: st0_def store_state.simps)
  have b: "view u (st_ram st2) = view u (st_ram st) \<and> store_service_unit_ready st2 u \<and>
      st_dirty st2 ! u = st_dirty st0 ! u \<and> st_fails st2 = st_fails st0"
    unfolding st2_def
    by (rule boot_fold_restores [OF assms(1) r assms(4) units_range(1,2)])
      (rule disjI1, rule units_range(3), rule assms(4))
  define st3 where "st3 = (if store_service_unit_ready st2 STORE_UNIT_SERVICE_WARRANTY
    then se_warranty_post_load env st2 else st2)"
  have "view u (st_ram st3) = view u (st_ram st2) \<and>
      store_service_unit_ready st3 u = store_service_unit_ready st2 u \<and>
      st_dirty st3 ! u = st_dirty st2 ! u \<and> st_fails st3 = st_fails st2"
  proof -
    obtain f where f: "local_change view typed STORE_UNIT_SERVICE_WARRANTY f"
      "se_warranty_post_load env st2 = st2 \<or>
       se_warranty_post_load env st2 = store_client STORE_UNIT_SERVICE_WARRANTY f st2"
      using post_load [of st2] by blast
    then show ?thesis
      unfolding st3_def using client_view [OF f(1), of u st2] hook by auto
  qed
  moreover have "st' = upd_diag (\<lambda>d. d\<lparr>dg_ready := True\<rparr>) (st3\<lparr>st_ready := True\<rparr>)"
    unfolding st'_def st3_def st2_def st0_def
    by (simp only: store_service_init_def Let_def prod.case fst_conv snd_conv simp_thms if_False
        store_state.simps)
  ultimately show ?thesis
    using b z nth_replicate [OF assms(4)] by (simp add: upd_diag_def store_service_unit_ready_def)
qed

end

section \<open>Reachable states\<close>

inductive store_reachable ::
    "('w, 'b) store_env \<Rightarrow> (nat \<Rightarrow> 'w \<Rightarrow> 'v) \<Rightarrow> ('w \<Rightarrow> bool) \<Rightarrow> ('w, 'b) store_state \<Rightarrow> bool"
  for env view typed where
  boot: "typed (st_ram st) \<Longrightarrow> store_reachable env view typed (fst (store_service_init env opened st))"
| client: "store_reachable env view typed st \<Longrightarrow> local_change view typed u f \<Longrightarrow>
    store_reachable env view typed (store_client u f st)"
| tick: "store_reachable env view typed st \<Longrightarrow> store_reachable env view typed (store_service_tick env t now st)"
| flush: "store_reachable env view typed st \<Longrightarrow>
    store_reachable env view typed (fst (store_service_flush_all env t st))"
| hold: "store_reachable env view typed st \<Longrightarrow>
    store_reachable env view typed (store_service_defer_commits_until now deadline st)"

lemma reachable_coherent:
  assumes "store_laws env content view typed" "store_reachable env view typed st"
  shows "store_laws.coherent env content view typed st"
  using assms(2)
proof induction
  case (boot st opened)
  then show ?case
    by (rule store_laws.init_coherent [OF assms(1)])
next
  case (client st u f)
  then show ?case
    by (intro store_laws.coherent_client [OF assms(1)])
next
  case (tick st t now)
  then show ?case
    by (intro store_laws.tick_coherent [OF assms(1)])
next
  case (flush st t)
  then show ?case
    by (intro store_laws.flush_coherent [OF assms(1)])
next
  case (hold st now deadline)
  then show ?case
    by (elim store_laws.coherent_cong [OF assms(1)])
      (simp_all add: store_service_defer_commits_until_def Let_def)
qed

section \<open>Durability\<close>


lemma clean_flush:
  assumes laws: "store_laws env content view typed" and co: "store_laws.coherent env content view typed st"
    and "store_service_flush_all env t st = (st1, True)" "st_ready st"
  shows "st_ram st1 = st_ram st" "st_available st1 = st_available st"
    "u < STORE_UNIT_COUNT \<Longrightarrow> st_fails st ! u < STORE_COMMIT_FAIL_LIMIT \<Longrightarrow> \<not> st_dirty st1 ! u"
proof -
  let ?st0 = "upd_diag (\<lambda>d. d\<lparr>dg_flush_attempts := dg_flush_attempts d + 1\<rparr>) st"
  have f: "fold (flush_step env t) [0..<STORE_UNIT_COUNT] (?st0, True) = (st1, True)"
    using assms(3,4) by (simp only: store_service_flush_all_def Let_def split: prod.splits if_splits) auto
  have c0: "typed (st_ram ?st0)" "length (st_dirty ?st0) = STORE_UNIT_COUNT"
    using co unfolding store_laws.coherent_def [OF laws] by (simp_all add: upd_diag_def)
  note e = store_laws.flush_fold_clean [OF laws f c0(1) units_range(2) c0(2) units_range(1)]
  show "st_ram st1 = st_ram st" "st_available st1 = st_available st"
    using e by (simp_all add: upd_diag_def)
  show "\<not> st_dirty st1 ! u" if "u < STORE_UNIT_COUNT" "st_fails st ! u < STORE_COMMIT_FAIL_LIMIT"
    using e units_range(3) [OF that(1)] that(2) by (fastforce simp add: pending_def upd_diag_def)
qed

lemma restart_after_clean_flush:
  assumes laws: "store_laws env content view typed" and rch: "store_reachable env view typed st"
    and "st_ready st" and fl: "store_service_flush_all env t st = (st1, True)"
    and readable: "\<And>b i cap bytes. content b i = Some bytes \<Longrightarrow>
      fst (snd (be_read (se_backend env) b i cap)) = STORAGE_RECORD_OK"
    and u: "store_service_unit_ready st u" "st_fails st ! u < STORE_COMMIT_FAIL_LIMIT"
      "u \<noteq> STORE_UNIT_SERVICE_WARRANTY"
    and "typed w"
  shows "let st' = fst (store_service_init env (STORAGE_RECORD_OK, True) (st1\<lparr>st_ram := w\<rparr>))
         in view u (st_ram st') = view u (st_ram st) \<and> store_service_unit_ready st' u"
proof -
  have co: "store_laws.coherent env content view typed st"
    by (rule reachable_coherent [OF laws rch])
  have u17: "u < STORE_UNIT_COUNT"
    using u(1) by (simp add: store_service_unit_ready_def)
  note e = clean_flush [OF laws co fl assms(3)]
  have "\<not> st_dirty st1 ! u"
    by (rule e(3) [OF u17 u(2)])
  moreover have "store_laws.coherent env content view typed st1"
    using store_laws.flush_coherent [OF laws co, of t] fl by simp
  moreover have "store_service_unit_ready st1 u"
    using u(1) e by (simp add: store_service_unit_ready_def)
  ultimately have "store_laws.stored env content view st1 u"
    using u17 unfolding store_laws.coherent_def [OF laws] by blast
  moreover have "store_laws.readable env content"
    using readable unfolding store_laws.readable_def [OF laws] by blast
  ultimately show ?thesis
    using store_laws.restart_restores [OF laws _ _ \<open>typed w\<close> u17 disjI1 [OF u(3)]] e(1) by (simp add: Let_def)
qed

text \<open>A power-off after a clean flush loses nothing: if the flush answers true, then restarting the
  engine on the medium it left (RAM contents arbitrary, records readable) gives every unit that was
  available and not already given up as degraded exactly the contents it had before the flush.\<close>

theorem clean_flush_survives_restart:
  assumes laws: "store_laws env content view typed" and rch: "store_reachable env view typed st"
    and "st_ready st" and fl: "store_service_flush_all env t st = (st1, True)"
    and readable: "\<And>b i cap bytes. content b i = Some bytes \<Longrightarrow>
      fst (snd (be_read (se_backend env) b i cap)) = STORAGE_RECORD_OK"
    and u: "store_service_unit_ready st u" "st_fails st ! u < STORE_COMMIT_FAIL_LIMIT"
      "u \<noteq> STORE_UNIT_SERVICE_WARRANTY"
    and "typed w"
  shows "let st' = fst (store_service_init env (STORAGE_RECORD_OK, True) (st1\<lparr>st_ram := w\<rparr>))
         in view u (st_ram st') = view u (st_ram st) \<and> store_service_unit_ready st' u"
  using assms by (rule restart_after_clean_flush)

section \<open>The charge unit behind the interfaces\<close>

text \<open>\<open>g_store_battery_charge_supervisor_unit_ops\<close>: the codec of \<open>Store_Charge\<close> in the callback shape.\<close>

definition charge_unit_ops :: "charge_persisted unit_ops" where
  "charge_unit_ops =
     \<lparr>uo_reset_ram = (\<lambda>_. battery_charge_supervisor_persisted_defaults),
      uo_serialize = (\<lambda>p cap. map_option (\<lambda>(dst, n). take n dst)
        (serialize_charge_supervisor p (replicate cap 0) cap)),
      uo_apply = apply_charge_supervisor, uo_fallback_missing = None\<rparr>"

lemma sint_bounds:
  "- 9223372036854775808 \<le> sint (w :: 64 word)" "sint w < 9223372036854775808"
  "- 32768 \<le> sint (v :: u16)" "sint v < 32768"
  using sint_ge [of w] sint_lt [of w] sint_ge [of v] sint_lt [of v] by simp_all

lemma apply_in_range: "apply_charge_supervisor_v4 bytes = Some p \<Longrightarrow> persisted_in_range p"
  by (auto simp add: apply_charge_supervisor_v4_def decode_common_fields_def decode_v4_fields_def
      apply_common_flags_def persisted_in_range_def read_i64_def sint_bounds Let_def
      split: if_splits option.splits)

interpretation charge_codec: unit_codec charge_unit_ops "\<lambda>p. p" persisted_in_range
proof unfold_locales
  fix p cap bytes w0
  assume r: "persisted_in_range p" and s: "uo_serialize charge_unit_ops p cap = Some bytes"
  have v: "battery_charge_supervisor_persisted_valid (Some p)"
    using s by (auto simp add: charge_unit_ops_def serialize_charge_supervisor_def split: if_splits)
  have "apply_charge_supervisor bytes w0 = (p, True)"
    using charge_record_roundtrip_cap [OF v r, of cap bytes w0] s by (simp add: charge_unit_ops_def)
  then show "snd (uo_apply charge_unit_ops bytes w0) \<and> fst (uo_apply charge_unit_ops bytes w0) = p"
    by (simp add: charge_unit_ops_def)
next
  fix bytes w0 w1
  assume "snd (uo_apply charge_unit_ops bytes w0)"
  then show "snd (uo_apply charge_unit_ops bytes w1) \<and>
      fst (uo_apply charge_unit_ops bytes w1) = fst (uo_apply charge_unit_ops bytes w0)"
    by (auto simp add: charge_unit_ops_def apply_charge_supervisor_def split: option.splits)
next
  fix p bytes assume "persisted_in_range p"
  then show "persisted_in_range (fst (uo_apply charge_unit_ops bytes p))"
    using apply_in_range by (auto simp add: charge_unit_ops_def apply_charge_supervisor_def split: option.splits)
  show "persisted_in_range (uo_reset_ram charge_unit_ops p)"
    by (simp add: charge_unit_ops_def battery_charge_supervisor_persisted_defaults_def persisted_in_range_def
        persisted_zero_def)
qed

text \<open>An engine over seventeen such units, one per index, and a medium that keeps every record.\<close>

definition lift_ops :: "nat \<Rightarrow> 'r unit_ops \<Rightarrow> (nat \<Rightarrow> 'r) unit_ops" where
  "lift_ops u ops =
     \<lparr>uo_reset_ram = (\<lambda>w. w(u := uo_reset_ram ops (w u))),
      uo_serialize = (\<lambda>w cap. uo_serialize ops (w u) cap),
      uo_apply = (\<lambda>bytes w. (w(u := fst (uo_apply ops bytes (w u))), snd (uo_apply ops bytes (w u)))),
      uo_fallback_missing = None\<rparr>"

definition map_backend :: "(u16 \<Rightarrow> u8 list option) storage_backend" where
  "map_backend =
     \<lparr>be_read = (\<lambda>m i cap. case m i of None \<Rightarrow> (m, STORAGE_RECORD_NOT_FOUND, [])
                                     | Some bytes \<Rightarrow> (m, STORAGE_RECORD_OK, bytes)),
      be_write = (\<lambda>m i bytes. (m(i := Some bytes), STORAGE_RECORD_OK))\<rparr>"

definition charge_store_env :: "(nat \<Rightarrow> charge_persisted, u16 \<Rightarrow> u8 list option) store_env" where
  "charge_store_env = \<lparr>se_ops = (\<lambda>u. lift_ops u charge_unit_ops), se_backend = map_backend,
     se_warranty_post_load = (\<lambda>st. st), se_ringtone_expire = (\<lambda>_ st. st)\<rparr>"

interpretation charge_store: store_laws charge_store_env "\<lambda>m. m" "\<lambda>u w. w u"
  "\<lambda>w. \<forall>u. persisted_in_range (w u)"
proof unfold_locales
  fix u w cap bytes w0 w1
  show "uo_serialize (se_ops charge_store_env u) w cap = Some bytes \<Longrightarrow> \<forall>u. persisted_in_range (w u) \<Longrightarrow>
      snd (uo_apply (se_ops charge_store_env u) bytes w0) \<and>
      fst (uo_apply (se_ops charge_store_env u) bytes w0) u = w u"
    using charge_codec.restores [of "w u" cap bytes "w0 u"] by (simp add: charge_store_env_def lift_ops_def)
  show "snd (uo_apply (se_ops charge_store_env u) bytes w0) \<Longrightarrow>
      snd (uo_apply (se_ops charge_store_env u) bytes w1) \<and>
      fst (uo_apply (se_ops charge_store_env u) bytes w1) u = fst (uo_apply (se_ops charge_store_env u) bytes w0) u"
    using charge_codec.determined [of bytes "w0 u" "w1 u"] by (simp add: charge_store_env_def lift_ops_def)
next
  fix now and st :: "(nat \<Rightarrow> charge_persisted, u16 \<Rightarrow> u8 list option) store_state"
  have "local_change (\<lambda>u w. w u) (\<lambda>w. \<forall>u. persisted_in_range (w u)) u id" for u
    by (simp add: local_change_def)
  then show "\<exists>u f. local_change (\<lambda>u w. w u) (\<lambda>w. \<forall>u. persisted_in_range (w u)) u f \<and>
      (se_ringtone_expire charge_store_env now st = st \<or>
       se_ringtone_expire charge_store_env now st = store_client u f st)"
    by (auto simp add: charge_store_env_def)
qed (auto simp add: charge_store_env_def lift_ops_def map_backend_def local_change_def
    charge_codec.typed_apply charge_codec.typed_reset split: option.splits intro: exI [of _ id])

section \<open>The charge record through a power cycle\<close>

abbreviation "STORE_UNIT_BATTERY_CHARGE_SUPERVISOR \<equiv> 15 :: nat"





section \<open>Witnesses\<close>

text \<open>A medium with a default charge record for every unit, booted.\<close>

definition stored_world :: "(nat \<Rightarrow> charge_persisted, u16 \<Rightarrow> u8 list option) store_state" where
  "stored_world = \<lparr>st_ready = False, st_available = 0, st_faults = 0, st_dirty = [], st_fails = [],
     st_scan = 0, st_park_base = 0, st_defer = 0, st_last_commit = 0, st_diag = diag_zero,
     st_ram = (\<lambda>_. persisted_zero), st_media = (\<lambda>_. Some (charge_payload persisted_zero))\<rparr>"

definition booted :: "(nat \<Rightarrow> charge_persisted, u16 \<Rightarrow> u8 list option) store_state" where
  "booted = fst (store_service_init charge_store_env (STORAGE_RECORD_OK, True) stored_world)"

lemma zero_record:
  "battery_charge_supervisor_persisted_valid (Some persisted_zero)" "persisted_in_range persisted_zero"
  by (simp_all add: battery_charge_supervisor_persisted_valid_def persisted_factor_valid_def
      persisted_latch_valid_def persisted_terminal_valid_def persisted_in_range_def persisted_zero_def)

lemma readable_map: "(m :: u16 \<Rightarrow> u8 list option) i = Some bytes \<Longrightarrow>
    fst (snd (be_read (se_backend charge_store_env) m i cap)) = STORAGE_RECORD_OK"
  by (simp add: charge_store_env_def map_backend_def)

lemma booted_unit:
  assumes "u < STORE_UNIT_COUNT"
  shows "store_service_unit_ready booted u \<and> \<not> st_dirty booted ! u \<and> st_fails booted ! u = 0 \<and> st_ready booted"
proof -
  have "charge_store.readable"
    using readable_map unfolding charge_store.readable_def by blast
  moreover have "charge_store.stored stored_world u"
    unfolding charge_store.stored_def using apply_payload [OF zero_record]
    by (simp add: stored_world_def charge_store_env_def lift_ops_def
        charge_unit_ops_def apply_charge_supervisor_def)
  ultimately show ?thesis
    using charge_store.restart_restores [of stored_world u "\<lambda>_. persisted_zero"] assms zero_record(2)
    by (simp add: booted_def charge_store_env_def stored_world_def)
qed

lemma booted_reachable:
  "store_reachable charge_store_env (\<lambda>u w. w u) (\<lambda>w. \<forall>u. persisted_in_range (w u)) booted"
  unfolding booted_def by (rule boot) (simp add: stored_world_def zero_record)


text \<open>Only unit 15 waits: the flush commits it and is clean.\<close>

lemma flush_skips: "\<forall>i\<in>set is. \<not> pending st i \<Longrightarrow> fold (flush_step env t) is (st, c) = (st, c)"
  by (induction "is") (simp_all add: flush_step_def)

definition changed_store :: "(nat \<Rightarrow> charge_persisted, u16 \<Rightarrow> u8 list option) store_state" where
  "changed_store = store_client 15 (\<lambda>w. w(15 := saved_session)) booted"

lemma saved_session_valid:
  "battery_charge_supervisor_persisted_valid (Some saved_session)" "persisted_in_range saved_session"
  by (code_simp, simp add: persisted_in_range_def saved_session_def persisted_zero_def)

lemma attempt_succeeds:
  assumes "st_ready st" "store_service_unit_ready st u"
    and "battery_charge_supervisor_persisted_valid (Some (st_ram st u))"
  shows "snd (attempt_unit charge_store_env t u st)"
proof -
  have "uo_serialize (se_ops charge_store_env u) (st_ram st) 4064 = Some (charge_payload (st_ram st u))"
    using serialize_payload [OF assms(3), of "replicate 4064 0"] charge_payload_length [of "st_ram st u"]
    by (simp add: charge_store_env_def lift_ops_def charge_unit_ops_def)
  then show ?thesis
    using assms(1,2) charge_payload_length [of "st_ram st u"]
    by (simp add: attempt_unit_def commit_unit_tracked_def commit_unit_def upd_diag_def
        store_engine_commit_binding_def store_service_unit_ready_def charge_store_env_def map_backend_def Let_def)
qed

lemma changed_store_state:
  "st_ready changed_store" "u < STORE_UNIT_COUNT \<Longrightarrow> store_service_unit_ready changed_store u"
  "st_ram changed_store 15 = saved_session" "st_fails changed_store = st_fails booted"
  "u < STORE_UNIT_COUNT \<Longrightarrow> u \<noteq> 15 \<Longrightarrow> \<not> pending changed_store u"
proof -
  have eq: "changed_store = booted\<lparr>st_ram := (st_ram booted)(15 := saved_session),
      st_dirty := (st_dirty booted)[15 := True]\<rparr>"
    using booted_unit [of 15]
    by (simp add: changed_store_def store_client_def store_engine_mark_dirty_def store_service_unit_ready_def)
  show "st_ready changed_store" "st_ram changed_store 15 = saved_session"
    "st_fails changed_store = st_fails booted"
    using booted_unit [of 15] by (simp_all add: eq)
  show "u < STORE_UNIT_COUNT \<Longrightarrow> store_service_unit_ready changed_store u"
    "u < STORE_UNIT_COUNT \<Longrightarrow> u \<noteq> 15 \<Longrightarrow> \<not> pending changed_store u"
    using booted_unit [of u] by (simp_all add: eq store_service_unit_ready_def pending_def)
qed

lemma changed_store_pending: "pending changed_store 15"
proof -
  have co: "charge_store.coherent booted"
    by (rule reachable_coherent [OF charge_store.store_laws_axioms booted_reachable])
  then have "length (st_dirty booted) = STORE_UNIT_COUNT"
    by (simp add: charge_store.coherent_def)
  then show ?thesis
    using booted_unit [of 15]
    by (simp add: changed_store_def store_client_def store_engine_mark_dirty_def store_service_unit_ready_def
        pending_def)
qed

lemma changed_store_reachable:
  "store_reachable charge_store_env (\<lambda>u w. w u) (\<lambda>w. \<forall>u. persisted_in_range (w u)) changed_store"
  unfolding changed_store_def
  by (rule client [OF booted_reachable]) (simp add: local_change_def saved_session_valid)

lemma changed_store_flush: "snd (store_service_flush_all charge_store_env t changed_store)"
proof -
  let ?st0 = "upd_diag (\<lambda>d. d\<lparr>dg_flush_attempts := dg_flush_attempts d + 1\<rparr>) changed_store"
  have p0: "pending ?st0 = pending changed_store"
    by (rule ext) (simp add: pending_def upd_diag_def)
  have a: "\<forall>i\<in>set [0..<15]. \<not> pending ?st0 i"
    using changed_store_state(5) by (simp only: p0 set_upt atLeastLessThan_iff Ball_def) auto
  obtain st1 ok where at: "attempt_unit charge_store_env t 15 ?st0 = (st1, ok)"
    by fastforce
  have "ok"
    using attempt_succeeds [of ?st0 15 t] changed_store_state(1,3) changed_store_state(2) [of 15]
      saved_session_valid at
    by (simp add: upd_diag_def store_service_unit_ready_def)
  have co: "charge_store.coherent changed_store"
    by (rule reachable_coherent [OF charge_store.store_laws_axioms changed_store_reachable])
  have "\<not> pending st1 16"
    using charge_store.attempt_effect(4) [OF at _ _, of 16] co changed_store_state(5) [of 16]
    by (simp add: charge_store.coherent_def upd_diag_def pending_def)
  moreover have "\<not> pending ?st0 16"
    using changed_store_state(5) [of 16] by (simp add: p0)
  ultimately have "snd (fold (flush_step charge_store_env t) [15, 16] (?st0, True))"
    using at \<open>ok\<close> by (cases "pending ?st0 15") (simp_all add: flush_step_def)
  moreover have "[0..<STORE_UNIT_COUNT] = [0..<15] @ [15, 16]"
    by (simp add: upt_rec)
  ultimately have "snd (fold (flush_step charge_store_env t) [0..<STORE_UNIT_COUNT] (?st0, True))"
    using flush_skips [OF a, of charge_store_env t True] by (simp only: fold_append o_apply)
  then show ?thesis
    using changed_store_state(1)
    by (simp only: store_service_flush_all_def Let_def split: prod.split) auto
qed

theorem clean_flush_survives_restart_witness:
  "let st1 = fst (store_service_flush_all charge_store_env 0 changed_store);
       st' = fst (store_service_init charge_store_env (STORAGE_RECORD_OK, True)
               (st1\<lparr>st_ram := (\<lambda>_. persisted_zero)\<rparr>))
   in st_ram st' 15 = saved_session"
proof -
  have fl: "store_service_flush_all charge_store_env 0 changed_store =
      (fst (store_service_flush_all charge_store_env 0 changed_store), True)"
    using changed_store_flush [of 0] by (metis prod.collapse)
  show ?thesis
    using clean_flush_survives_restart [where u = 15 and w = "\<lambda>_. persisted_zero",
        OF charge_store.store_laws_axioms changed_store_reachable changed_store_state(1) fl readable_map
        changed_store_state(2)]
      changed_store_state(3,4) booted_unit [of 15] zero_record(2)
    by (simp add: Let_def)
qed



end
