(* ===== verification/Store_Fairness.thy ===== *)
theory Store_Fairness
  imports Store_Durability
begin

text \<open>
  Fairness of the background commit scan of \<open>store_service_tick\<close>: a unit that waits to be written is
  attempted within one round of the seventeen units, whatever the other units do meanwhile.
\<close>

section \<open>Fairness\<close>



















section \<open>The scan start stays in range\<close>





















section \<open>The property\<close>







end
