(* ===== verification/Sms_Pack.thy ===== *)
theory Sms_Pack
  imports Prelude
begin

text \<open>
  The septet and hex layer shared by \<open>services/sms_submit_codec.c\<close>, \<open>services/sms_deliver_codec.c\<close> and
  \<open>services/sms_picture_codec.c\<close>: packing GSM 7-bit codes into octets, reading a septet at a bit
  offset, and octets as hex digits.  A C string is the list of its bytes before the terminating NUL;
  a \<open>size_t\<close> or a loop index is a natural number.  The packing loops of the two encoders are the same
  code; \<open>pack_septets\<close> is that loop on the values they feed it.
\<close>

section \<open>Packing\<close>

definition pack_septet :: "nat \<Rightarrow> nat \<Rightarrow> u8 \<Rightarrow> u8 list \<Rightarrow> u8 list" where
  "pack_septet bytes i v dst =
     (let bit_pos = i * 7; byte = bit_pos div 8; shift = bit_pos mod 8;
          dst1 = dst[byte := dst ! byte OR push_bit shift v]
      in if 1 < shift \<and> byte + 1 < bytes
         then dst1[byte + 1 := dst1 ! (byte + 1) OR drop_bit (8 - shift) v] else dst1)"

definition septet_bytes :: "nat \<Rightarrow> nat" where
  "septet_bytes septets = (septets * 7 + 7) div 8"

definition pack_septets :: "u8 list \<Rightarrow> u8 list" where
  "pack_septets vs =
     (let bytes = septet_bytes (length vs)
      in fold (\<lambda>i. pack_septet bytes i (vs ! i)) [0..<length vs] (replicate bytes 0))"

text \<open>\<open>gsm7_septet_at\<close>: None where the C function answers false.\<close>

definition gsm7_septet_at :: "u8 list \<Rightarrow> nat \<Rightarrow> nat \<Rightarrow> nat \<Rightarrow> u8 option" where
  "gsm7_septet_at data data_len bit_offset index =
     (let bit_pos = bit_offset + index * 7; byte = bit_pos div 8; shift = bit_pos mod 8
      in if data_len \<le> byte then None
         else
           (let v = ucast (drop_bit shift (data ! byte)) :: u16;
                v = (if shift \<noteq> 0 \<and> byte + 1 < data_len
                     then v OR push_bit (8 - shift) (ucast (data ! (byte + 1))) else v)
            in Some (ucast (v AND 0x7f))))"

section \<open>Hex\<close>

definition hex_digit :: "u8 \<Rightarrow> u8" where
  "hex_digit n = (if n < 10 then 48 + n else 55 + n)"

definition sms_submit_append_hex_byte :: "nat \<Rightarrow> u8 \<Rightarrow> u8 list \<Rightarrow> u8 list option" where
  "sms_submit_append_hex_byte cap v dst =
     (if cap \<le> length dst + 2 then None
      else Some (dst @ [hex_digit (drop_bit 4 v AND 0x0f), hex_digit (v AND 0x0f)]))"

fun append_hex :: "nat \<Rightarrow> u8 list \<Rightarrow> u8 list \<Rightarrow> u8 list option" where
  "append_hex cap [] dst = Some dst"
| "append_hex cap (v # vs) dst =
     (case sms_submit_append_hex_byte cap v dst of None \<Rightarrow> None | Some d \<Rightarrow> append_hex cap vs d)"

definition hex_nibble :: "u8 \<Rightarrow> u8 option" where
  "hex_nibble ch =
     (if 48 \<le> ch \<and> ch \<le> 57 then Some (ch - 48)
      else if 65 \<le> ch \<and> ch \<le> 70 then Some (ch - 65 + 10)
      else if 97 \<le> ch \<and> ch \<le> 102 then Some (ch - 97 + 10)
      else None)"

fun skip_blanks :: "u8 list \<Rightarrow> u8 list" where
  "skip_blanks [] = []"
| "skip_blanks (c # cs) = (if c = 32 \<or> c = 13 \<or> c = 10 then skip_blanks cs else c # cs)"

text \<open>\<open>read_hex_byte\<close> on the rest of the string: the value and what is left.\<close>

definition read_nibble :: "u8 list \<Rightarrow> (u8 \<times> u8 list) option" where
  "read_nibble cs =
     (case skip_blanks cs of
        [] \<Rightarrow> None
      | c # rest \<Rightarrow> (case hex_nibble c of None \<Rightarrow> None | Some n \<Rightarrow> Some (n, rest)))"

definition read_hex_byte :: "u8 list \<Rightarrow> (u8 \<times> u8 list) option" where
  "read_hex_byte cs =
     (case read_nibble cs of
        None \<Rightarrow> None
      | Some (hi, rest) \<Rightarrow>
          (case read_nibble rest of
             None \<Rightarrow> None
           | Some (lo, rest') \<Rightarrow> Some (push_bit 4 hi OR lo, rest')))"

lemma skip_blanks_length: "length (skip_blanks cs) \<le> length cs"
  by (induction cs) auto

lemma read_nibble_shorter: "read_nibble cs = Some (n, rest) \<Longrightarrow> length rest < length cs"
  using skip_blanks_length [of cs] by (auto simp add: read_nibble_def split: list.splits option.splits)

lemma read_hex_byte_shorter: "read_hex_byte cs = Some (b, rest) \<Longrightarrow> length rest < length cs"
  by (auto simp add: read_hex_byte_def split: option.splits dest!: read_nibble_shorter)

text \<open>The loop of \<open>sms_pdu_decode\<close>: at most \<open>cap\<close> bytes.\<close>

function read_hex :: "nat \<Rightarrow> u8 list \<Rightarrow> u8 list \<Rightarrow> u8 list option" where
  "read_hex cap cs acc =
     (if cs = [] then Some acc
      else if cap \<le> length acc then None
      else (case read_hex_byte cs of
              None \<Rightarrow> None
            | Some (b, rest) \<Rightarrow> read_hex cap rest (acc @ [b])))"
  by pat_completeness auto
termination
  by (relation "measure (\<lambda>(cap, cs, acc). length cs)") (auto dest: read_hex_byte_shorter)

declare read_hex.simps [simp del]

text \<open>A fact about a byte below a bound, by evaluation at each value.\<close>

lemma byte_cases:
  assumes "\<forall>k \<in> set [0..<m]. P (word_of_nat k)" "unat (n :: u8) < m"
  shows "P n"
  using assms(1) [rule_format, of "unat n"] assms(2) by simp

lemma nibble_digit:
  assumes "n < 16"
  shows "hex_nibble (hex_digit n) = Some n \<and> hex_digit n \<notin> {32, 13, 10}"
proof (rule byte_cases [where n = n and m = 16])
  show "\<forall>k \<in> set [0..<16]. hex_nibble (hex_digit (word_of_nat k)) = Some (word_of_nat k) \<and>
      hex_digit (word_of_nat k) \<notin> {32, 13, 10}"
    by code_simp
qed (use assms in \<open>simp add: word_less_nat_alt\<close>)

text \<open>Writing bytes as hex and reading them back.\<close>

definition hex_of :: "u8 list \<Rightarrow> u8 list" where
  "hex_of bs = concat (map (\<lambda>v. [hex_digit (drop_bit 4 v AND 0x0f), hex_digit (v AND 0x0f)]) bs)"

lemma hex_of_simps [simp]:
  "hex_of [] = []"
  "hex_of (v # vs) = hex_digit (drop_bit 4 v AND 0x0f) # hex_digit (v AND 0x0f) # hex_of vs"
  by (simp_all add: hex_of_def)

lemma length_hex_of [simp]: "length (hex_of bs) = 2 * length bs"
  by (induction bs) auto

lemma append_hex_eq:
  "append_hex cap vs dst = (if vs \<noteq> [] \<and> cap \<le> length dst + 2 * length vs then None else Some (dst @ hex_of vs))"
  by (induction vs arbitrary: dst) (auto simp add: sms_submit_append_hex_byte_def Suc_le_eq)

lemma and_15_less: "(v :: u8) AND 0x0f < 16"
proof -
  have "v AND 0x0f \<le> 0x0f"
    by (rule word_and_le1)
  then show ?thesis
    by (rule order_le_less_trans) simp
qed

lemma nibbles_join: "push_bit 4 (drop_bit 4 v AND 0x0f) OR (v AND 0x0f) = (v :: u8)"
proof (rule bit_word_eqI)
  fix n assume "n < LENGTH(8)"
  then have "n \<in> {0, 1, 2, 3, 4, 5, 6, 7}"
    by (auto simp add: less_Suc_eq numeral_eq_Suc)
  then show "bit (push_bit 4 (drop_bit 4 v AND 0x0f) OR (v AND 0x0f)) n \<longleftrightarrow> bit v n"
    by (elim insertE emptyE) (simp_all add: bit_simps)
qed

lemma read_nibble_digit: "n < 16 \<Longrightarrow> read_nibble (hex_digit n # rest) = Some (n, rest)"
  using nibble_digit [of n] by (simp add: read_nibble_def)

lemma read_hex_byte_hex:
  "read_hex_byte (hex_digit (drop_bit 4 v AND 0x0f) # hex_digit (v AND 0x0f) # rest) = Some (v, rest)"
  by (simp only: read_hex_byte_def read_nibble_digit [OF and_15_less] option.case prod.case nibbles_join)

lemma read_hex_hex_of:
  "length acc + length bs \<le> cap \<Longrightarrow> read_hex cap (hex_of bs) acc = Some (acc @ bs)"
proof (induction bs arbitrary: acc)
  case Nil
  then show ?case
    by (simp add: read_hex.simps)
next
  case (Cons b bs)
  then show ?case
    by (subst read_hex.simps) (simp add: read_hex_byte_hex)
qed

section \<open>Reading back what was packed\<close>

lemma septet_take_bit: "(v :: u8) < 128 \<Longrightarrow> take_bit 7 v = v"
proof -
  assume "v < 128"
  then have "take_bit 7 (unat v) = unat v"
    by (simp add: word_less_nat_alt take_bit_nat_eq_self)
  then show ?thesis
    using unsigned_word_eqI [where 'a = nat, of "take_bit 7 v" v] by (simp add: unsigned_take_bit_eq)
qed

lemma septet_bit: "(v :: u8) < 128 \<Longrightarrow> bit v n \<Longrightarrow> n < 7"
  using septet_take_bit [of v] bit_take_bit_iff [of 7 v n] by simp

lemma pack_septet_length [simp]: "length (pack_septet bytes i v dst) = length dst"
  by (simp add: pack_septet_def Let_def)

text \<open>Bit \<open>k\<close> of octet \<open>j\<close> is bit \<open>8 j + k\<close> of the stream.\<close>

lemma pack_septet_bit:
  assumes "length dst = bytes" "7 * i + 7 \<le> 8 * bytes" "v < 128" "j < bytes" "k < 8"
  shows "bit (pack_septet bytes i v dst ! j) k \<longleftrightarrow>
    bit (dst ! j) k \<or> (7 * i \<le> 8 * j + k \<and> bit v (8 * j + k - 7 * i))"
proof -
  define b where "b = i * 7 div 8"
  define s where "s = i * 7 mod 8"
  have bs: "7 * i = 8 * b + s" "s < 8"
    by (simp_all add: b_def s_def)
  note v = septet_bit [OF assms(3)]
  have p: "pack_septet bytes i v dst =
      (let dst1 = dst[b := dst ! b OR push_bit s v]
       in if 1 < s \<and> b + 1 < bytes then dst1[b + 1 := dst1 ! (b + 1) OR drop_bit (8 - s) v] else dst1)"
    by (simp add: pack_septet_def b_def s_def Let_def)
  consider "j = b" | "j = b + 1" | "j < b" | "b + 1 < j"
    by linarith
  then show ?thesis
  proof cases
    case 1
    then show ?thesis
      using assms(1,4,5) bs by (auto simp add: p Let_def bit_simps)
  next
    case 2
    have "bit (drop_bit (8 - s) v) k \<longleftrightarrow> bit v (8 * j + k - 7 * i)"
      using 2 bs by (simp add: bit_simps)
    moreover have "\<not> 1 < s \<Longrightarrow> \<not> bit v (8 * j + k - 7 * i)"
      using 2 bs v [of "8 * j + k - 7 * i"] by auto
    ultimately show ?thesis
      using 2 assms(1,4) bs by (auto simp add: p Let_def bit_or_iff)
  next
    case 3
    then show ?thesis
      using assms(1,4,5) bs by (auto simp add: p Let_def)
  next
    case 4
    then have "7 \<le> 8 * j + k - 7 * i"
      using bs by linarith
    then have "\<not> bit v (8 * j + k - 7 * i)"
      using v [of "8 * j + k - 7 * i"] by linarith
    then show ?thesis
      using 4 assms(1,4) bs by (auto simp add: p Let_def)
  qed
qed

lemma septet_bytes_bound: "7 * n \<le> 8 * septet_bytes n" "septet_bytes n \<le> n"
  unfolding septet_bytes_def by linarith+

lemma div_mod_7: "7 * n \<le> p \<Longrightarrow> p < 7 * n + 7 \<Longrightarrow> p div 7 = n \<and> p mod 7 = p - 7 * (n :: nat)"
proof -
  assume "7 * n \<le> p" "p < 7 * n + 7"
  then have "p div 7 = n"
    by linarith
  then show ?thesis
    by (simp add: modulo_nat_def)
qed

lemma div_mod_8: "s < 8 \<Longrightarrow> (8 * b + s) div 8 = b \<and> (8 * b + s) mod 8 = (s :: nat)"
  by simp

lemma pack_fold_bit:
  assumes "n \<le> length vs" "\<forall>v \<in> set vs. v < 128" "j < septet_bytes (length vs)" "k < 8"
  shows "bit (fold (\<lambda>i. pack_septet (septet_bytes (length vs)) i (vs ! i)) [0..<n]
      (replicate (septet_bytes (length vs)) 0) ! j) k \<longleftrightarrow>
    8 * j + k < 7 * n \<and> bit (vs ! ((8 * j + k) div 7)) ((8 * j + k) mod 7)"
  using assms(1)
proof (induction n)
  case 0
  then show ?case
    using assms(3) by simp
next
  case (Suc n)
  let ?B = "septet_bytes (length vs)" and ?p = "8 * j + k"
  let ?d = "fold (\<lambda>i. pack_septet ?B i (vs ! i)) [0..<n] (replicate ?B 0)"
  have len: "length (fold (\<lambda>i. pack_septet ?B i (vs ! i)) is d) = length d" for "is" d
    by (induction "is" arbitrary: d) auto
  have v: "vs ! n < 128"
    using Suc.prems assms(2) by auto
  have "7 * n + 7 \<le> 8 * ?B"
    using Suc.prems septet_bytes_bound(1) [of "length vs"] by linarith
  then have "bit (pack_septet ?B n (vs ! n) ?d ! j) k \<longleftrightarrow>
      bit (?d ! j) k \<or> (7 * n \<le> ?p \<and> bit (vs ! n) (?p - 7 * n))"
    using v assms(3,4) by (intro pack_septet_bit) (simp_all add: len)
  then have step: "bit (pack_septet ?B n (vs ! n) ?d ! j) k \<longleftrightarrow>
      (?p < 7 * n \<and> bit (vs ! (?p div 7)) (?p mod 7)) \<or> (7 * n \<le> ?p \<and> bit (vs ! n) (?p - 7 * n))"
    using Suc by simp
  have in_range: "bit (vs ! n) (?p - 7 * n) \<longleftrightarrow> ?p < 7 * n + 7 \<and> bit (vs ! (?p div 7)) (?p mod 7)"
    if "7 * n \<le> ?p"
    using septet_bit [OF v, of "?p - 7 * n"] div_mod_7 [OF that] that by (cases "?p < 7 * n + 7") auto
  show ?case
  proof (cases "?p < 7 * n")
    case True
    then show ?thesis
      using step by simp
  next
    case False
    then show ?thesis
      using step in_range by (simp add: not_less add.commute)
  qed
qed

lemma pack_septets_bit:
  assumes "\<forall>v \<in> set vs. v < 128" "j < septet_bytes (length vs)" "k < 8"
  shows "bit (pack_septets vs ! j) k \<longleftrightarrow>
    8 * j + k < 7 * length vs \<and> bit (vs ! ((8 * j + k) div 7)) ((8 * j + k) mod 7)"
  using pack_fold_bit [OF order_refl assms] by (simp add: pack_septets_def Let_def)

lemma pack_septets_length [simp]: "length (pack_septets vs) = septet_bytes (length vs)"
proof -
  have "length (fold (\<lambda>i. pack_septet B i (vs ! i)) is d) = length d" for B "is" d
    by (induction "is" arbitrary: d) auto
  then show ?thesis
    by (simp add: pack_septets_def Let_def)
qed

lemma septet_at_bit:
  assumes "gsm7_septet_at data len off i = Some v" "k < 7"
  shows "bit v k \<longleftrightarrow> (off + 7 * i + k) div 8 < len \<and> bit (data ! ((off + 7 * i + k) div 8)) ((off + 7 * i + k) mod 8)"
proof -
  define b where "b = (off + i * 7) div 8"
  define s where "s = (off + i * 7) mod 8"
  have bs: "off + 7 * i = 8 * b + s" "s < 8"
    by (simp_all add: b_def s_def)
  have lt: "b < len"
    using assms(1) by (simp add: gsm7_septet_at_def Let_def b_def split: if_splits)
  have v: "v = ucast ((if s \<noteq> 0 \<and> b + 1 < len
      then ucast (drop_bit s (data ! b)) OR push_bit (8 - s) (ucast (data ! (b + 1)))
      else (ucast (drop_bit s (data ! b)) :: u16)) AND 0x7f)"
    using assms(1) by (simp only: gsm7_septet_at_def Let_def b_def s_def option.inject split: if_splits) auto
  have m: "(0x7f :: u16) = mask 7"
    by (simp add: mask_eq_exp_minus_1)
  show ?thesis
  proof (cases "s + k < 8")
    case True
    then have "(off + 7 * i + k) div 8 = b" "(off + 7 * i + k) mod 8 = s + k"
      using div_mod_8 [of "s + k" b] unfolding bs(1) by (simp_all add: add.assoc)
    then show ?thesis
      using lt True assms(2) bs(2) unfolding v m by (auto simp add: bit_simps)
  next
    case False
    then have e: "8 * b + s + k = 8 * (b + 1) + (s + k - 8)" "s + k - 8 < 8"
      using bs(2) assms(2) by simp_all
    have d: "(off + 7 * i + k) div 8 = b + 1" "(off + 7 * i + k) mod 8 = s + k - 8"
      using div_mod_8 [OF e(2), of "b + 1"] unfolding bs(1) e(1) by simp_all
    have "\<not> bit (data ! b) (s + k)"
      using False by (auto dest: bit_imp_le_length)
    then show ?thesis
      unfolding d using lt False assms(2) bs(2) unfolding v m
      by (auto simp add: bit_simps add.commute)
  qed
qed

lemma septet_at_small: "gsm7_septet_at data len off i = Some v \<Longrightarrow> v < 128"
proof -
  assume "gsm7_septet_at data len off i = Some v"
  then obtain x :: u16 where "v = ucast (x AND 0x7f)"
    by (auto simp add: gsm7_septet_at_def Let_def split: if_splits)
  moreover have "x AND 0x7f \<le> 0x7f"
    by (rule word_and_le1)
  ultimately show ?thesis
    by (simp add: word_less_nat_alt word_le_nat_alt unsigned_ucast_eq take_bit_eq_mod)
qed

theorem septet_of_packed:
  assumes "\<forall>v \<in> set vs. v < 128" "i < length vs"
  shows "gsm7_septet_at (pack_septets vs) (septet_bytes (length vs)) 0 i = Some (vs ! i)"
proof -
  let ?B = "septet_bytes (length vs)"
  have "7 * i div 8 < ?B"
    using assms(2) unfolding septet_bytes_def by linarith
  then obtain w where w: "gsm7_septet_at (pack_septets vs) ?B 0 i = Some w"
    by (auto simp add: gsm7_septet_at_def Let_def mult.commute)
  have "bit w k \<longleftrightarrow> bit (vs ! i) k" if "k < 7" for k
  proof -
    let ?p = "7 * i + k"
    have "?p < 8 * ?B" "?p < 7 * length vs" "?p div 7 = i" "?p mod 7 = k"
      using assms(2) that septet_bytes_bound(1) [of "length vs"] div_mod_7 [of i "7 * i + k"] by auto
    moreover have "8 * (?p div 8) + ?p mod 8 = ?p" "?p div 8 < ?B"
      using calculation(1) by simp_all
    ultimately show ?thesis
      using septet_at_bit [OF w that] pack_septets_bit [OF assms(1), of "?p div 8" "?p mod 8"] by simp
  qed
  moreover have "w < 128" "vs ! i < 128"
    using septet_at_small [OF w] assms by auto
  ultimately have "w = vs ! i"
    using septet_bit by (intro bit_word_eqI) blast
  then show ?thesis
    using w by simp
qed

end
