(* ===== verification/Sms_Decode.thy ===== *)
theory Sms_Decode
  imports Sms_Pack
begin

text \<open>
  The PDU decoder of \<open>services/sms_picture_codec.c\<close>: \<open>sms_pdu_decode\<close> and everything under it.  A
  function that answers false returns None; on success the caller's message is overwritten as a
  whole, so a failed decode has no other effect.  The union of text and binary data is two fields,
  of which the unused one stays empty.  A remaining buffer is a list, its length what is available.
\<close>

section \<open>Data\<close>

abbreviation "MODEM_SMS_TEXT_MAX \<equiv> 160 :: nat"
abbreviation "SMS_CODEC_ADDRESS_CAP \<equiv> 33 :: nat"
abbreviation "SMS_CODEC_TEXT_CAP \<equiv> 321 :: nat"
abbreviation "SMS_CODEC_BINARY_MAX \<equiv> 384 :: nat"
abbreviation "SMS_TP_UD_MAX_OCTETS \<equiv> 140 :: nat"
abbreviation "SMS_PDU_MAX \<equiv> 192 :: nat"

datatype sms_dcs_kind = SMS_DCS_GSM7 | SMS_DCS_UCS2 | SMS_DCS_BINARY

record sms_message =
  sm_submit :: bool
  sm_binary :: bool
  sm_has_ports :: bool
  sm_has_concat :: bool
  sm_concat_ref_16bit :: bool
  sm_udh_unhandled :: bool
  sm_trailing_data :: bool
  sm_pid :: u8
  sm_dcs :: u8
  sm_dest_port :: u16
  sm_source_port :: u16
  sm_concat_ref :: u16
  sm_concat_total :: u8
  sm_concat_seq :: u8
  sm_address :: "u8 list"
  sm_timestamp :: "u8 list"
  sm_text :: "u8 list"
  sm_binary_data :: "u8 list"
  sm_binary_len :: u16

definition sms_message_zero :: sms_message where
  "sms_message_zero = \<lparr>sm_submit = False, sm_binary = False, sm_has_ports = False, sm_has_concat = False,
     sm_concat_ref_16bit = False, sm_udh_unhandled = False, sm_trailing_data = False, sm_pid = 0, sm_dcs = 0,
     sm_dest_port = 0, sm_source_port = 0, sm_concat_ref = 0, sm_concat_total = 0, sm_concat_seq = 0,
     sm_address = [], sm_timestamp = [], sm_text = [], sm_binary_data = [], sm_binary_len = 0\<rparr>"

section \<open>Text\<close>

definition gsm7_default_table :: "u32 list" where
  "gsm7_default_table =
     [0x40, 0xa3, 0x24, 0xa5, 0xe8, 0xe9, 0xf9, 0xec,
      0xf2, 0xc7, 0x0a, 0xd8, 0xf8, 0x0d, 0xc5, 0xe5,
      0x394, 0x5f, 0x3a6, 0x393, 0x39b, 0x3a9, 0x3a0, 0x3a8,
      0x3a3, 0x398, 0x39e, 0, 0xc6, 0xe6, 0xdf, 0xc9,
      0x20, 0x21, 0x22, 0x23, 0xa4, 0x25, 0x26, 0x27, 0x28, 0x29, 0x2a, 0x2b, 0x2c, 0x2d, 0x2e, 0x2f,
      0x30, 0x31, 0x32, 0x33, 0x34, 0x35, 0x36, 0x37, 0x38, 0x39, 0x3a, 0x3b, 0x3c, 0x3d, 0x3e, 0x3f,
      0xa1, 0x41, 0x42, 0x43, 0x44, 0x45, 0x46, 0x47, 0x48, 0x49, 0x4a, 0x4b, 0x4c, 0x4d, 0x4e, 0x4f,
      0x50, 0x51, 0x52, 0x53, 0x54, 0x55, 0x56, 0x57, 0x58, 0x59, 0x5a, 0xc4, 0xd6, 0xd1,
      0xdc, 0xa7, 0xbf, 0x61, 0x62, 0x63, 0x64, 0x65, 0x66, 0x67, 0x68, 0x69, 0x6a, 0x6b,
      0x6c, 0x6d, 0x6e, 0x6f, 0x70, 0x71, 0x72, 0x73, 0x74, 0x75, 0x76, 0x77, 0x78, 0x79, 0x7a, 0xe4,
      0xf6, 0xf1, 0xfc, 0xe0]"

definition gsm7_default_codepoint :: "u8 \<Rightarrow> u32" where
  "gsm7_default_codepoint v = gsm7_default_table ! unat (v AND 0x7f)"

definition gsm7_extension_codepoint :: "u8 \<Rightarrow> u32" where
  "gsm7_extension_codepoint v =
     (if v = 0x0a then 0x0c else if v = 0x14 then 0x5e else if v = 0x28 then 0x7b
      else if v = 0x29 then 0x7d else if v = 0x2f then 0x5c else if v = 0x3c then 0x5b
      else if v = 0x3d then 0x7e else if v = 0x3e then 0x5d else if v = 0x40 then 0x7c
      else if v = 0x65 then 0x20ac else 0x3f)"

definition utf8_bytes :: "u32 \<Rightarrow> u8 list" where
  "utf8_bytes cp =
     (if cp \<le> 0x7f then [ucast cp]
      else if cp \<le> 0x7ff then [ucast (0xc0 OR drop_bit 6 cp), ucast (0x80 OR (cp AND 0x3f))]
      else [ucast (0xe0 OR drop_bit 12 cp), ucast (0x80 OR (drop_bit 6 cp AND 0x3f)),
            ucast (0x80 OR (cp AND 0x3f))])"

definition append_utf8 :: "nat \<Rightarrow> u8 list \<Rightarrow> u32 \<Rightarrow> u8 list option" where
  "append_utf8 cap dst cp =
     (if cap \<le> length dst then None
      else if cap \<le> length dst + length (utf8_bytes cp) then None
      else Some (dst @ utf8_bytes cp))"

text \<open>The septet loop of \<open>decode_gsm7_utf8\<close> over the indices still to read.\<close>

fun decode_septets ::
    "u8 list \<Rightarrow> nat \<Rightarrow> nat \<Rightarrow> nat \<Rightarrow> nat list \<Rightarrow> u8 list \<Rightarrow> bool \<Rightarrow> u8 list option" where
  "decode_septets data data_len off cap [] dst escaped =
     (if escaped then append_utf8 cap dst 0x3f else Some dst)"
| "decode_septets data data_len off cap (i # is) dst escaped =
     (case gsm7_septet_at data data_len off i of
        None \<Rightarrow> None
      | Some v \<Rightarrow>
          if \<not> escaped \<and> v = 0x1b then decode_septets data data_len off cap is dst True
          else (case append_utf8 cap dst (if escaped then gsm7_extension_codepoint v
                                          else gsm7_default_codepoint v) of
                  None \<Rightarrow> None
                | Some d \<Rightarrow> decode_septets data data_len off cap is d False))"

definition decode_gsm7_utf8 :: "u8 list \<Rightarrow> nat \<Rightarrow> nat \<Rightarrow> nat \<Rightarrow> nat \<Rightarrow> u8 list option" where
  "decode_gsm7_utf8 data data_len septets off cap =
     (if cap = 0 then None else decode_septets data data_len off cap [0..<septets] [] False)"

definition ucs2_codepoint :: "u16 \<Rightarrow> u16" where
  "ucs2_codepoint cp =
     (if cp = 0 \<or> (0xd800 \<le> cp \<and> cp \<le> 0xdfff) \<or> cp = 0xfffe \<or> cp = 0xffff then 0x3f else cp)"

fun decode_ucs2_units :: "nat \<Rightarrow> bool \<Rightarrow> u8 list \<Rightarrow> u8 list \<Rightarrow> u8 list option" where
  "decode_ucs2_units cap first (hi # lo # rest) dst =
     (let cp = push_bit 8 (ucast hi) OR ucast lo :: u16
      in if first \<and> cp = 0xfeff then decode_ucs2_units cap False rest dst
         else (case append_utf8 cap dst (ucast (ucs2_codepoint cp)) of
                 None \<Rightarrow> None
               | Some d \<Rightarrow> decode_ucs2_units cap False rest d))"
| "decode_ucs2_units cap first _ dst = Some dst"

definition decode_ucs2 :: "u8 list \<Rightarrow> nat \<Rightarrow> u8 list option" where
  "decode_ucs2 data cap =
     (if cap = 0 \<or> odd (length data) then None else decode_ucs2_units cap True data [])"

section \<open>The address and the timestamp\<close>

definition bcd_char :: "u8 \<Rightarrow> u8 option" where
  "bcd_char n =
     (if n \<le> 9 then Some (48 + n)
      else if n = 0x0a then Some 42
      else if n = 0x0b then Some 35
      else if 0x0c \<le> n \<and> n \<le> 0x0e then Some (97 + (n - 0x0c))
      else None)"

definition address_nibble :: "u8 list \<Rightarrow> nat \<Rightarrow> u8" where
  "address_nibble src i =
     (if even i then src ! (i div 2) AND 0x0f else drop_bit 4 (src ! (i div 2)) AND 0x0f)"

fun decode_digits :: "u8 list \<Rightarrow> nat \<Rightarrow> nat list \<Rightarrow> u8 list \<Rightarrow> u8 list option" where
  "decode_digits src cap [] dst = Some dst"
| "decode_digits src cap (i # is) dst =
     (case bcd_char (address_nibble src i) of
        None \<Rightarrow> decode_digits src cap is dst
      | Some c \<Rightarrow> if cap \<le> length dst + 1 then None else decode_digits src cap is (dst @ [c]))"

definition toa_ton :: "u8 \<Rightarrow> u8" where
  "toa_ton toa = drop_bit 4 toa AND 0x07"

definition decode_address :: "u8 list \<Rightarrow> u8 \<Rightarrow> u8 \<Rightarrow> nat \<Rightarrow> (u8 list \<times> nat) option" where
  "decode_address src address_length toa cap =
     (let value_bytes = (unat address_length + 1) div 2
      in if cap = 0 \<or> 10 < value_bytes \<or> length src < value_bytes then None
         else if toa_ton toa = 5 then
           (let septets = (unat address_length * 4) div 7
            in if (septets * 7 + 3) div 4 \<noteq> unat address_length then None
               else map_option (\<lambda>t. (t, value_bytes)) (decode_gsm7_utf8 src value_bytes septets 0 cap))
         else if toa_ton toa = 1 \<and> cap \<le> 1 then None
         else (case decode_digits src cap [0..<unat address_length] (if toa_ton toa = 1 then [43] else []) of
                 None \<Rightarrow> None
               | Some dst \<Rightarrow> if address_length \<noteq> 0 \<and> dst = [] then None else Some (dst, value_bytes)))"

definition semi_decimal :: "u8 \<Rightarrow> u8" where
  "semi_decimal v = (v AND 0x0f) * 10 + (drop_bit 4 v AND 0x0f)"

definition two_digits :: "u8 \<Rightarrow> u8 list" where
  "two_digits v = [48 + v div 10, 48 + v mod 10]"

definition decode_timestamp :: "u8 list \<Rightarrow> u8 list" where
  "decode_timestamp src =
     two_digits (semi_decimal (src ! 0)) @ [47] @ two_digits (semi_decimal (src ! 1)) @ [47] @
     two_digits (semi_decimal (src ! 2)) @ [44] @ two_digits (semi_decimal (src ! 3)) @ [58] @
     two_digits (semi_decimal (src ! 4)) @ [58] @ two_digits (semi_decimal (src ! 5))"

section \<open>User data\<close>

definition be16 :: "u8 \<Rightarrow> u8 \<Rightarrow> u16" where
  "be16 hi lo = push_bit 8 (ucast hi) OR ucast lo"

text \<open>One information element at \<open>pos\<close>, of which identifier and length are read.\<close>

definition udh_element :: "u8 list \<Rightarrow> u8 \<Rightarrow> nat \<Rightarrow> nat \<Rightarrow> sms_message \<Rightarrow> sms_message" where
  "udh_element data iei len pos m =
     (if iei = 0x05 \<and> len = 4 then
        m\<lparr>sm_udh_unhandled := sm_udh_unhandled m \<or> sm_has_ports m, sm_has_ports := True,
          sm_dest_port := be16 (data ! pos) (data ! (pos + 1)),
          sm_source_port := be16 (data ! (pos + 2)) (data ! (pos + 3))\<rparr>
      else if iei = 0x00 \<and> len = 3 then
        m\<lparr>sm_udh_unhandled := sm_udh_unhandled m \<or> sm_has_concat m, sm_has_concat := True,
          sm_concat_ref_16bit := False, sm_concat_ref := ucast (data ! pos),
          sm_concat_total := data ! (pos + 1), sm_concat_seq := data ! (pos + 2)\<rparr>
      else if iei = 0x08 \<and> len = 4 then
        m\<lparr>sm_udh_unhandled := sm_udh_unhandled m \<or> sm_has_concat m, sm_has_concat := True,
          sm_concat_ref_16bit := True, sm_concat_ref := be16 (data ! pos) (data ! (pos + 1)),
          sm_concat_total := data ! (pos + 2), sm_concat_seq := data ! (pos + 3)\<rparr>
      else m\<lparr>sm_udh_unhandled := True\<rparr>)"

function udh_elements :: "u8 list \<Rightarrow> nat \<Rightarrow> nat \<Rightarrow> sms_message \<Rightarrow> sms_message \<times> nat" where
  "udh_elements data udhl pos m =
     (if pos + 2 \<le> udhl + 1 then
        (let iei = data ! pos; len = unat (data ! (pos + 1))
         in if udhl + 1 < pos + 2 + len then (m\<lparr>sm_udh_unhandled := True\<rparr>, pos + 2)
            else udh_elements data udhl (pos + 2 + len) (udh_element data iei len (pos + 2) m))
      else (m, pos))"
  by pat_completeness auto
termination
  by (relation "measure (\<lambda>(data, udhl, pos, m). udhl + 1 - pos)") auto

declare udh_elements.simps [simp del]

text \<open>\<open>parse_udh\<close>: the message and \<open>payload_offset\<close>, 0 when the header does not fit.\<close>

definition parse_udh :: "u8 list \<Rightarrow> nat \<Rightarrow> sms_message \<Rightarrow> sms_message \<times> nat" where
  "parse_udh data data_len m =
     (if data_len = 0 \<or> data_len < unat (data ! 0) + 1 then (m\<lparr>sm_udh_unhandled := True\<rparr>, 0)
      else
        (let udhl = unat (data ! 0);
             (m', pos) = udh_elements data udhl 1 (m\<lparr>sm_udh_unhandled := False\<rparr>)
         in (m'\<lparr>sm_udh_unhandled := sm_udh_unhandled m' \<or> pos \<noteq> udhl + 1\<rparr>, (udhl + 1) mod 256)))"

definition dcs_kind :: "u8 \<Rightarrow> sms_dcs_kind" where
  "dcs_kind dcs =
     (let group = drop_bit 4 dcs
      in if group \<le> 7 then
           (if dcs AND 0x20 \<noteq> 0 then SMS_DCS_BINARY
            else if dcs AND 0x0c = 0 then SMS_DCS_GSM7
            else if dcs AND 0x0c = 0x08 then SMS_DCS_UCS2 else SMS_DCS_BINARY)
         else if group = 0x0c \<or> group = 0x0d then SMS_DCS_GSM7
         else if group = 0x0e then SMS_DCS_UCS2
         else if group = 0x0f then
           (if dcs AND 0x08 \<noteq> 0 then SMS_DCS_BINARY
            else if dcs AND 0x04 \<noteq> 0 then SMS_DCS_BINARY else SMS_DCS_GSM7)
         else SMS_DCS_BINARY)"

definition decode_gsm7_user_data :: "u8 list \<Rightarrow> nat \<Rightarrow> nat \<Rightarrow> bool \<Rightarrow> sms_message \<Rightarrow> sms_message option" where
  "decode_gsm7_user_data data data_len udl udhi m =
     (if \<not> udhi then
        map_option (\<lambda>t. m\<lparr>sm_text := t\<rparr>) (decode_gsm7_utf8 data data_len udl 0 SMS_CODEC_TEXT_CAP)
      else
        (let (m', payload_offset) = parse_udh data data_len m;
             header_septets = ((payload_offset * 8 + 6) div 7) mod 256
         in if payload_offset = 0 \<or> udl < header_septets then None
            else map_option (\<lambda>t. m'\<lparr>sm_text := t\<rparr>)
                   (decode_gsm7_utf8 data data_len (udl - header_septets) (header_septets * 7)
                      SMS_CODEC_TEXT_CAP)))"

text \<open>The payload of the octet alphabets, after an optional header.\<close>

definition decode_octets :: "sms_dcs_kind \<Rightarrow> u8 list \<Rightarrow> sms_message \<Rightarrow> sms_message option" where
  "decode_octets kind payload m =
     (if kind = SMS_DCS_UCS2 then map_option (\<lambda>t. m\<lparr>sm_text := t\<rparr>) (decode_ucs2 payload SMS_CODEC_TEXT_CAP)
      else if SMS_CODEC_BINARY_MAX < length payload then None
      else Some (m\<lparr>sm_binary := True, sm_binary_len := of_nat (length payload), sm_binary_data := payload\<rparr>))"

definition decode_user_data :: "u8 list \<Rightarrow> u8 \<Rightarrow> bool \<Rightarrow> u8 \<Rightarrow> sms_message \<Rightarrow> sms_message option" where
  "decode_user_data data udl udhi dcs m =
     (let kind = dcs_kind dcs; udl = unat udl; available = length data
      in if kind = SMS_DCS_GSM7 then
           (if MODEM_SMS_TEXT_MAX < udl \<or> available < septet_bytes udl then None
            else decode_gsm7_user_data data (septet_bytes udl) udl udhi
                   (m\<lparr>sm_trailing_data := septet_bytes udl < available\<rparr>))
         else if SMS_TP_UD_MAX_OCTETS < udl \<or> available < udl then None
         else
           (let m = m\<lparr>sm_trailing_data := udl < available\<rparr>
            in if \<not> udhi then decode_octets kind (take udl data) m
               else (case parse_udh data udl m of (m', payload_offset) \<Rightarrow>
                       if payload_offset = 0 then None
                       else decode_octets kind (drop payload_offset (take udl data)) m')))"

section \<open>The PDU\<close>

definition decode_deliver :: "u8 list \<Rightarrow> nat \<Rightarrow> bool \<Rightarrow> sms_message \<Rightarrow> sms_message option" where
  "decode_deliver pdu pos udhi m =
     (if length pdu < pos + 2 then None
      else
        (case decode_address (drop (pos + 2) pdu) (pdu ! pos) (pdu ! (pos + 1)) SMS_CODEC_ADDRESS_CAP of
           None \<Rightarrow> None
         | Some (address, n) \<Rightarrow>
             (let p = pos + 2 + n
              in if length pdu < p + 10 then None
                 else decode_user_data (drop (p + 10) pdu) (pdu ! (p + 9)) udhi (pdu ! (p + 1))
                        (m\<lparr>sm_address := address, sm_pid := pdu ! p, sm_dcs := pdu ! (p + 1),
                           sm_timestamp := decode_timestamp (drop (p + 2) pdu)\<rparr>))))"

definition vp_bytes :: "u8 \<Rightarrow> nat" where
  "vp_bytes first =
     (let vpf = drop_bit 3 first AND 0x03
      in if vpf = 2 then 1 else if vpf = 1 \<or> vpf = 3 then 7 else 0)"

definition decode_submit :: "u8 list \<Rightarrow> nat \<Rightarrow> u8 \<Rightarrow> bool \<Rightarrow> sms_message \<Rightarrow> sms_message option" where
  "decode_submit pdu pos first udhi m =
     (if length pdu < pos + 3 then None
      else
        (case decode_address (drop (pos + 3) pdu) (pdu ! (pos + 1)) (pdu ! (pos + 2)) SMS_CODEC_ADDRESS_CAP of
           None \<Rightarrow> None
         | Some (address, n) \<Rightarrow>
             (let p = pos + 3 + n; q = p + 2 + vp_bytes first
              in if length pdu < p + 3 then None
                 else if length pdu < q \<or> length pdu \<le> q then None
                 else decode_user_data (drop (q + 1) pdu) (pdu ! q) udhi (pdu ! (p + 1))
                        (m\<lparr>sm_submit := True, sm_address := address, sm_pid := pdu ! p,
                           sm_dcs := pdu ! (p + 1)\<rparr>))))"

definition sms_tpdu_decode :: "u8 list \<Rightarrow> sms_message option" where
  "sms_tpdu_decode pdu =
     (if length pdu < 2 \<or> length pdu \<le> 1 + unat (pdu ! 0) then None
      else
        (let pos = 1 + unat (pdu ! 0); first = pdu ! pos; mti = first AND 0x03;
             udhi = (first AND 0x40 \<noteq> 0)
         in if mti = 0 then decode_deliver pdu (pos + 1) udhi sms_message_zero
            else if mti = 1 then decode_submit pdu (pos + 1) first udhi sms_message_zero
            else None))"

definition sms_pdu_decode :: "u8 list \<Rightarrow> sms_message option" where
  "sms_pdu_decode hex =
     (if 2 * SMS_PDU_MAX < length hex then None
      else (case read_hex SMS_PDU_MAX hex [] of None \<Rightarrow> None | Some pdu \<Rightarrow> sms_tpdu_decode pdu))"

end
