(* ===== verification/Sms_Submit.thy ===== *)
theory Sms_Submit
  imports Sms_Decode
begin

text \<open>
  The SMS-SUBMIT encoder of \<open>services/sms_submit_codec.c\<close>.  The 180-byte PDU buffer is the list of the
  bytes written so far, checked against the capacity where the source checks it; the pointers of the
  transaction are never NULL, as in every caller.
\<close>

section \<open>Data\<close>

abbreviation "MODEM_SMS_BINARY_CHUNK_MAX \<equiv> 128 :: nat"
abbreviation "MODEM_PHONE_MAX \<equiv> 32 :: nat"
abbreviation "SUBMIT_PDU_CAP \<equiv> 180 :: nat"

datatype modem_binary_sms_mode =
    MODEM_BINARY_SMS_MODE_DCS04_PORT_FIRST
  | MODEM_BINARY_SMS_MODE_DCS04_CONCAT_FIRST
  | MODEM_BINARY_SMS_MODE_F5_PORT_FIRST
  | MODEM_BINARY_SMS_MODE_F5_CONCAT_FIRST_VP
  | MODEM_BINARY_SMS_MODE_GSM7_TEXT

record sms_submit_pdu =
  sp_number :: "u8 list"
  sp_payload :: "u8 list"
  sp_payload_len :: u16
  sp_position :: u16
  sp_dest_port :: u16
  sp_source_port :: u16
  sp_mode :: modem_binary_sms_mode
  sp_segment :: u8
  sp_segment_total :: u8
  sp_reference :: u8

section \<open>Text and address\<close>

definition sms_submit_gsm7_code :: "u8 \<Rightarrow> u8" where
  "sms_submit_gsm7_code ch =
     (if (65 \<le> ch \<and> ch \<le> 90) \<or> (97 \<le> ch \<and> ch \<le> 122) \<or> (48 \<le> ch \<and> ch \<le> 57) then ch
      else if ch = 32 then 0x20
      else if ch = 43 then 0x2b
      else if ch = 45 then 0x2d
      else if ch = 46 then 0x2e
      else 0x20)"

definition sms_submit_pack_gsm7 :: "u8 list \<Rightarrow> nat \<Rightarrow> u8 list option" where
  "sms_submit_pack_gsm7 src septets =
     (if septets = 0 \<or> MODEM_SMS_TEXT_MAX < septets then None
      else Some (pack_septets (map sms_submit_gsm7_code (take septets src))))"

text \<open>The digits of a number and whether a plus came before the first of them.\<close>

fun scan_number :: "u8 list \<Rightarrow> u8 list \<Rightarrow> bool \<Rightarrow> (u8 list \<times> bool) option" where
  "scan_number [] digits intl = Some (digits, intl)"
| "scan_number (ch # rest) digits intl =
     (if ch = 43 \<and> digits = [] then scan_number rest digits True
      else if 48 \<le> ch \<and> ch \<le> 57 then
        (if MODEM_PHONE_MAX \<le> length digits then None else scan_number rest (digits @ [ch - 48]) intl)
      else scan_number rest digits intl)"

fun pack_digits :: "u8 list \<Rightarrow> u8 list" where
  "pack_digits [] = []"
| "pack_digits [low] = [low OR push_bit 4 0x0f]"
| "pack_digits (low # high # rest) = (low OR push_bit 4 high) # pack_digits rest"

definition sms_submit_append_address :: "nat \<Rightarrow> u8 list \<Rightarrow> u8 list \<Rightarrow> u8 list option" where
  "sms_submit_append_address cap number dst =
     (if cap < length dst + 2 then None
      else (case scan_number number [] False of
              None \<Rightarrow> None
            | Some (digits, intl) \<Rightarrow>
                if digits = [] \<or> cap < length dst + 2 + (length digits + 1) div 2 then None
                else Some (dst @ [of_nat (length digits), if intl then 0x91 else 0x81] @ pack_digits digits)))"

section \<open>One segment\<close>

definition mode_port_first :: "modem_binary_sms_mode \<Rightarrow> bool" where
  "mode_port_first mode \<longleftrightarrow>
     mode = MODEM_BINARY_SMS_MODE_DCS04_PORT_FIRST \<or> mode = MODEM_BINARY_SMS_MODE_F5_PORT_FIRST"

definition mode_uses_f5 :: "modem_binary_sms_mode \<Rightarrow> bool" where
  "mode_uses_f5 mode \<longleftrightarrow>
     mode = MODEM_BINARY_SMS_MODE_F5_PORT_FIRST \<or> mode = MODEM_BINARY_SMS_MODE_F5_CONCAT_FIRST_VP"

definition mode_uses_vp :: "modem_binary_sms_mode \<Rightarrow> bool" where
  "mode_uses_vp mode \<longleftrightarrow> mode = MODEM_BINARY_SMS_MODE_F5_CONCAT_FIRST_VP"

definition mode_gsm7_text :: "modem_binary_sms_mode \<Rightarrow> bool" where
  "mode_gsm7_text mode \<longleftrightarrow> mode = MODEM_BINARY_SMS_MODE_GSM7_TEXT"

definition chunk_length :: "sms_submit_pdu \<Rightarrow> nat" where
  "chunk_length s =
     (let remain = unat (sp_payload_len s - sp_position s)
      in if MODEM_SMS_BINARY_CHUNK_MAX < remain then MODEM_SMS_BINARY_CHUNK_MAX else remain)"

definition segment_chunk :: "sms_submit_pdu \<Rightarrow> u8 list" where
  "segment_chunk s = take (chunk_length s) (drop (unat (sp_position s)) (sp_payload s))"

definition segment_use_port :: "sms_submit_pdu \<Rightarrow> bool" where
  "segment_use_port s \<longleftrightarrow> \<not> mode_gsm7_text (sp_mode s) \<and> (sp_dest_port s \<noteq> 0 \<or> sp_source_port s \<noteq> 0)"

definition segment_multipart :: "sms_submit_pdu \<Rightarrow> bool" where
  "segment_multipart s \<longleftrightarrow> \<not> mode_gsm7_text (sp_mode s) \<and> 1 < sp_segment_total s"

definition segment_udh_len :: "sms_submit_pdu \<Rightarrow> u8" where
  "segment_udh_len s =
     (if segment_multipart s \<and> segment_use_port s then 0x0b
      else if segment_multipart s then 0x05
      else if segment_use_port s then 0x06 else 0)"

definition segment_use_udh :: "sms_submit_pdu \<Rightarrow> bool" where
  "segment_use_udh s \<longleftrightarrow> segment_use_port s \<or> segment_multipart s"

definition udh_total :: "sms_submit_pdu \<Rightarrow> nat" where
  "udh_total s = (if segment_use_udh s then unat (segment_udh_len s) + 1 else 0)"

definition port_element :: "sms_submit_pdu \<Rightarrow> u8 list" where
  "port_element s =
     [0x05, 0x04, ucast (drop_bit 8 (sp_dest_port s)), ucast (sp_dest_port s AND 0xff),
      ucast (drop_bit 8 (sp_source_port s)), ucast (sp_source_port s AND 0xff)]"

definition concat_element :: "sms_submit_pdu \<Rightarrow> u8 list" where
  "concat_element s = [0x00, 0x03, sp_reference s, sp_segment_total s, sp_segment s]"

text \<open>The user data header, in the order of the mode.\<close>

definition segment_udh :: "sms_submit_pdu \<Rightarrow> u8 list" where
  "segment_udh s =
     (if segment_use_udh s then [segment_udh_len s] else []) @
     (if segment_use_port s \<and> mode_port_first (sp_mode s) then port_element s else []) @
     (if segment_multipart s then concat_element s else []) @
     (if segment_use_port s \<and> \<not> mode_port_first (sp_mode s) then port_element s else [])"

definition segment_first :: "sms_submit_pdu \<Rightarrow> u8" where
  "segment_first s =
     (if segment_use_udh s then (if mode_uses_vp (sp_mode s) then 0x51 else 0x41)
      else (if mode_uses_vp (sp_mode s) then 0x11 else 0x01))"

definition segment_dcs :: "sms_submit_pdu \<Rightarrow> u8" where
  "segment_dcs s =
     (if mode_gsm7_text (sp_mode s) then 0x00 else if mode_uses_f5 (sp_mode s) then 0xf5 else 0x04)"

definition advance_segment :: "sms_submit_pdu \<Rightarrow> sms_submit_pdu" where
  "advance_segment s = s\<lparr>sp_position := sp_position s + of_nat (chunk_length s), sp_segment := sp_segment s + 1\<rparr>"

text \<open>The user data: packed text in the text mode, the octets of the chunk otherwise.\<close>

definition segment_user_data :: "sms_submit_pdu \<Rightarrow> u8 list option" where
  "segment_user_data s =
     (if mode_gsm7_text (sp_mode s)
      then sms_submit_pack_gsm7 (drop (unat (sp_position s)) (sp_payload s)) (chunk_length s)
      else Some (segment_chunk s))"

text \<open>\<open>build_segment\<close> returns the advanced transaction, the text written and, except where only
  characters are written, the TPDU length.\<close>

definition build_segment :: "sms_submit_pdu \<Rightarrow> nat \<Rightarrow> bool \<Rightarrow> (sms_submit_pdu \<times> u8 list \<times> u8 option) option" where
  "build_segment s hex_cap user_data_only =
     (if hex_cap = 0 \<or> sp_payload_len s = 0 \<or> sp_payload_len s \<le> sp_position s then None
      else if user_data_only \<and> mode_gsm7_text (sp_mode s) then
        (if hex_cap < chunk_length s + 1 then None
         else Some (advance_segment s, map sms_submit_gsm7_code (segment_chunk s), None))
      else
        (case sms_submit_append_address SUBMIT_PDU_CAP (sp_number s) [0x00, segment_first s, 0x00] of
           None \<Rightarrow> None
         | Some head \<Rightarrow>
             (case segment_user_data s of
                None \<Rightarrow> None
              | Some user_data \<Rightarrow>
                  let vp = (if mode_uses_vp (sp_mode s) then [0xa7] else []);
                      udl = (if mode_gsm7_text (sp_mode s) then of_nat (chunk_length s)
                             else of_nat (udh_total s + chunk_length s));
                      front = head @ [0x00, segment_dcs s] @ vp @ [udl];
                      pdu = front @ segment_udh s @ user_data
                  in if SUBMIT_PDU_CAP < length head + 3 + length vp + udh_total s + length user_data \<or>
                        SUBMIT_PDU_CAP < length front + udh_total s + length user_data
                     then None
                     else (case append_hex hex_cap (if user_data_only then drop (length front) pdu else pdu) [] of
                             None \<Rightarrow> None
                           | Some hex \<Rightarrow> Some (advance_segment s, hex, Some (of_nat (length pdu - 1)))))))"

definition sms_submit_pdu_build :: "sms_submit_pdu \<Rightarrow> nat \<Rightarrow> (sms_submit_pdu \<times> u8 list \<times> u8 option) option" where
  "sms_submit_pdu_build s hex_cap = build_segment s hex_cap False"

definition sms_submit_text_build :: "sms_submit_pdu \<Rightarrow> nat \<Rightarrow> (sms_submit_pdu \<times> u8 list) option" where
  "sms_submit_text_build s body_cap =
     map_option (\<lambda>(s', body, _). (s', body)) (build_segment s body_cap True)"

section \<open>Commands\<close>

text \<open>Text of the sources, and \<open>%u\<close> or \<open>%d\<close> of a number that is not negative.\<close>

definition ascii :: "string \<Rightarrow> u8 list" where
  "ascii s = map of_char s"

fun decimal :: "nat \<Rightarrow> u8 list" where
  "decimal n = (if n < 10 then [of_nat (48 + n)] else decimal (n div 10) @ [of_nat (48 + n mod 10)])"

declare decimal.simps [simp del]

text \<open>\<open>snprintf\<close> into a buffer keeps the text up to the room before the NUL.\<close>

definition sms_submit_format_text_command :: "nat \<Rightarrow> u8 list \<Rightarrow> u8 list \<Rightarrow> bool \<Rightarrow> u8 list" where
  "sms_submit_format_text_command dst_len command address sent_status =
     (if dst_len = 0 then []
      else if address = [] then take (dst_len - 1) command
      else
        (let toa = (if take 1 address = [43] then 145 else 129);
             quoted = command @ [61, 34] @ address @ [34]
         in take (dst_len - 1)
              (if sent_status then quoted @ [44] @ decimal toa @ [44, 34] @ ascii ''STO SENT'' @ [34]
               else if toa = 145 then quoted @ [44] @ decimal 145 else quoted)))"

end
