(* ===== verification/Sms_Deliver.thy ===== *)
theory Sms_Deliver
  imports Sms_Decode
begin

text \<open>
  The SMS-DELIVER builder of \<open>services/sms_deliver_codec.c\<close>: a message the modem handed over is written
  as an ordinary PDU.  The PDU buffer is the list of the bytes written so far; signed and unsigned
  small integers that are range-checked first are integers and naturals.
\<close>

abbreviation "SMS_DELIVER_UD_MAX \<equiv> 140 :: nat"
abbreviation "ADDRESS_VALUE_OCTETS_MAX \<equiv> 10 :: nat"
abbreviation "ADDRESS_ALPHA_SEPTETS_MAX \<equiv> 11 :: nat"
abbreviation "DELIVER_PDU_CAP \<equiv> 177 :: nat"

record sms_deliver =
  sd_address :: "u8 list"
  sd_toa :: u8
  sd_scts :: "u8 list"
  sd_pid :: u8
  sd_dcs :: u8
  sd_udhi :: bool
  sd_wdp :: bool
  sd_udl :: u8
  sd_ud :: "u8 list"
  sd_ud_len :: u8

section \<open>Timestamp and text\<close>

definition semi_octet :: "u8 \<Rightarrow> u8" where
  "semi_octet v = push_bit 4 (v mod 10) OR v div 10"

definition sms_deliver_scts_encode ::
    "u16 \<Rightarrow> u8 \<Rightarrow> u8 \<Rightarrow> u8 \<Rightarrow> u8 \<Rightarrow> u8 \<Rightarrow> int \<Rightarrow> u8 list option" where
  "sms_deliver_scts_encode year month day hour minute second tz_quarters =
     (if month < 1 \<or> 12 < month \<or> day < 1 \<or> 31 < day \<or> 23 < hour \<or> 59 < minute \<or> 59 < second \<or>
         tz_quarters < - 79 \<or> 79 < tz_quarters
      then None
      else
        (let magnitude = of_int (if tz_quarters < 0 then - tz_quarters else tz_quarters) :: u8;
             tens = magnitude div 10;
             tens = (if tz_quarters < 0 then tens OR 0x08 else tens)
         in Some [semi_octet (ucast (year mod 100)), semi_octet month, semi_octet day, semi_octet hour,
                  semi_octet minute, semi_octet second, push_bit 4 (magnitude mod 10) OR tens]))"

definition sms_deliver_pack_gsm7 :: "u8 list \<Rightarrow> nat \<Rightarrow> nat \<Rightarrow> u8 list option" where
  "sms_deliver_pack_gsm7 codes septets cap =
     (if septets = 0 \<or> cap < septet_bytes septets then None
      else Some (pack_septets (map (\<lambda>c. c AND 0x7f) (take septets codes))))"

definition GSM7_BASIC :: "(u8 \<times> u8) list" where
  "GSM7_BASIC =
     [(0x40, 0x00), (0xA3, 0x01), (0x24, 0x02), (0xA5, 0x03),
      (0xE8, 0x04), (0xE9, 0x05), (0xF9, 0x06), (0xEC, 0x07),
      (0xF2, 0x08), (0xC7, 0x09), (0xD8, 0x0B), (0xF8, 0x0C),
      (0xC5, 0x0E), (0xE5, 0x0F), (0x5F, 0x11), (0xC6, 0x1C),
      (0xE6, 0x1D), (0xDF, 0x1E), (0xC9, 0x1F), (0xA4, 0x24),
      (0xA1, 0x40), (0xC4, 0x5B), (0xD6, 0x5C), (0xD1, 0x5D),
      (0xDC, 0x5E), (0xA7, 0x5F), (0xBF, 0x60), (0xE4, 0x7B),
      (0xF6, 0x7C), (0xF1, 0x7D), (0xFC, 0x7E), (0xE0, 0x7F)]"

definition GSM7_EXT :: "(u8 \<times> u8) list" where
  "GSM7_EXT =
     [(0x5E, 0x14), (0x7B, 0x28), (0x7D, 0x29), (0x5C, 0x2F),
      (0x5B, 0x3C), (0x7E, 0x3D), (0x5D, 0x3E), (0x7C, 0x40)]"

text \<open>The codes of a Latin-1 byte; no code where the C function answers 0.\<close>

definition sms_deliver_gsm7_from_latin1 :: "u8 \<Rightarrow> u8 list" where
  "sms_deliver_gsm7_from_latin1 ch =
     (case map_of GSM7_EXT ch of
        Some g \<Rightarrow> [0x1B, g]
      | None \<Rightarrow>
          (case map_of GSM7_BASIC ch of
             Some g \<Rightarrow> [g]
           | None \<Rightarrow> if ch = 0x0A \<or> ch = 0x0D \<or> (0x20 \<le> ch \<and> ch < 0x7F) then [ch] else []))"

section \<open>Address\<close>

definition bcd_digit :: "u8 \<Rightarrow> u8 option" where
  "bcd_digit c =
     (if 48 \<le> c \<and> c \<le> 57 then Some (c - 48)
      else if c = 42 then Some 0x0A
      else if c = 35 then Some 0x0B
      else None)"

definition strip_plus :: "u8 list \<Rightarrow> u8 list" where
  "strip_plus address = (case address of [] \<Rightarrow> [] | c # rest \<Rightarrow> if c = 43 then rest else address)"

definition address_is_numeric :: "u8 list \<Rightarrow> bool" where
  "address_is_numeric address \<longleftrightarrow>
     strip_plus address \<noteq> [] \<and> (\<forall>c\<in>set (strip_plus address). bcd_digit c \<noteq> None)"

fun pack_bcd :: "u8 list \<Rightarrow> u8 list option" where
  "pack_bcd [] = Some []"
| "pack_bcd [c] = (case bcd_digit c of None \<Rightarrow> None | Some low \<Rightarrow> Some [push_bit 4 0x0F OR low])"
| "pack_bcd (c # d # rest) =
     (case (bcd_digit c, bcd_digit d) of
        (Some low, Some high) \<Rightarrow> map_option (\<lambda>bs. (push_bit 4 high OR low) # bs) (pack_bcd rest)
      | _ \<Rightarrow> None)"

definition deliver_append_address :: "nat \<Rightarrow> u8 list \<Rightarrow> u8 \<Rightarrow> u8 list \<Rightarrow> u8 list option" where
  "deliver_append_address cap address toa pdu =
     (if toa_ton toa = 5 then
        (let septets = length address
         in if septets = 0 \<or> ADDRESS_ALPHA_SEPTETS_MAX < septets then None
            else if \<exists>c\<in>set address. 0x80 \<le> c then None
            else (case sms_deliver_pack_gsm7 address septets ADDRESS_VALUE_OCTETS_MAX of
                    None \<Rightarrow> None
                  | Some packed \<Rightarrow>
                      if cap < length pdu + 2 + length packed then None
                      else Some (pdu @ [of_nat ((septets * 7 + 3) div 4), toa] @ packed)))
      else
        (let digits = strip_plus address; count = length digits
         in if count = 0 \<or> 2 * ADDRESS_VALUE_OCTETS_MAX < count then None
            else if cap < length pdu + 2 + (count + 1) div 2 then None
            else map_option (\<lambda>bs. pdu @ [of_nat count, toa] @ bs) (pack_bcd digits)))"

section \<open>The PDU\<close>

definition deliver_toa :: "sms_deliver \<Rightarrow> u8" where
  "deliver_toa d =
     (if sd_toa d \<noteq> 0 then sd_toa d
      else if \<not> address_is_numeric (sd_address d) then 0xD0
      else if take 1 (sd_address d) = [43] then 0x91 else 0x81)"

definition deliver_pdu :: "sms_deliver \<Rightarrow> u8 list option" where
  "deliver_pdu d =
     (case deliver_append_address DELIVER_PDU_CAP (sd_address d) (deliver_toa d)
             [0x00, 0x04 OR (if sd_udhi d then 0x40 else 0x00)] of
        None \<Rightarrow> None
      | Some head \<Rightarrow>
          if DELIVER_PDU_CAP < length head + 2 + 7 + 1 + unat (sd_ud_len d) then None
          else Some (head @ [sd_pid d, sd_dcs d] @ take 7 (sd_scts d) @ [sd_udl d] @
                     take (unat (sd_ud_len d)) (sd_ud d)))"

definition sms_deliver_build :: "sms_deliver \<Rightarrow> nat \<Rightarrow> (u8 list \<times> u8) option" where
  "sms_deliver_build d hex_cap =
     (if SMS_DELIVER_UD_MAX < unat (sd_ud_len d) then None
      else
        (case deliver_pdu d of
           None \<Rightarrow> None
         | Some pdu \<Rightarrow>
             if hex_cap < length pdu * 2 + 1 then None
             else Some (hex_of pdu, of_nat (length pdu - 1))))"

end
