(* ===== verification/Sms_Roundtrip.thy ===== *)
theory Sms_Roundtrip
  imports Sms_Submit Sms_Deliver
begin

text \<open>
  The encoders against the decoder: what \<open>sms_submit_pdu_build\<close> and \<open>sms_deliver_build\<close> write,
  \<open>sms_pdu_decode\<close> reads back.
\<close>

section \<open>Addresses\<close>

text \<open>A list of nibbles as semi-octets, low half first, the odd one filled with 15.\<close>

lemma nibble_shifts:
  assumes "(a :: u8) < 16"
  shows "take_bit 4 a = a \<and> drop_bit 4 a = 0 \<and> drop_bit 4 (push_bit 4 a) AND 0x0f = a"
proof (rule byte_cases [where n = a and m = 16])
  show "\<forall>k \<in> set [0..<16]. take_bit 4 (word_of_nat k :: u8) = word_of_nat k \<and>
      drop_bit 4 (word_of_nat k :: u8) = 0 \<and>
      drop_bit 4 (push_bit 4 (word_of_nat k :: u8)) AND 0x0f = word_of_nat k"
    by code_simp
qed (use assms in \<open>simp add: word_less_nat_alt\<close>)

lemma low_nibble: "(a :: u8) < 16 \<Longrightarrow> (a OR push_bit 4 b) AND 0x0f = a"
proof -
  assume "a < 16"
  have m: "(0x0f :: u8) = mask 4"
    by (simp add: mask_eq_exp_minus_1)
  show ?thesis
    unfolding m take_bit_eq_mask [symmetric] take_bit_or
    by (simp add: take_bit_push_bit nibble_shifts \<open>a < 16\<close>)
qed

lemma high_nibble: "(a :: u8) < 16 \<Longrightarrow> b < 16 \<Longrightarrow> drop_bit 4 (a OR push_bit 4 b) AND 0x0f = b"
  using nibble_shifts [of a] nibble_shifts [of b] by (simp only: drop_bit_or or.left_neutral)

lemma pack_digits_length [simp]: "length (pack_digits ns) = (length ns + 1) div 2"
  by (induction ns rule: pack_digits.induct) auto

lemma address_nibble_packed:
  "i < length ns \<Longrightarrow> \<forall>n\<in>set ns. n < 16 \<Longrightarrow> address_nibble (pack_digits ns @ rest) i = ns ! i"
proof (induction ns arbitrary: i rule: pack_digits.induct)
  case (2 low)
  then show ?case
    using low_nibble [of low "0x0f"] by (simp add: address_nibble_def)
next
  case (3 low high ns)
  consider "i = 0" | "i = 1" | k where "i = k + 2"
    by (metis One_nat_def add_2_eq_Suc' not0_implies_Suc)
  then show ?case
  proof cases
    case 1
    then show ?thesis
      using 3 low_nibble [of low high] by (simp add: address_nibble_def)
  next
    case 2
    then show ?thesis
      using 3 high_nibble [of low high] by (simp add: address_nibble_def)
  next
    case (3 k)
    then show ?thesis
      using 3 "3.IH" [of k] "3.prems" by (simp add: address_nibble_def split: if_splits)
  qed
qed simp

lemma decode_digits_all:
  assumes "\<forall>i \<in> set is. bcd_char (address_nibble src i) = Some (f i)" "length dst + length is < cap"
  shows "decode_digits src cap is dst = Some (dst @ map f is)"
  using assms by (induction "is" arbitrary: dst) auto

lemma decode_packed_address:
  assumes "\<forall>n\<in>set ns. bcd_char n = Some (g n) \<and> n < 16" "ns \<noteq> []" "length ns \<le> 20"
    and "toa_ton toa \<noteq> 5"
  shows "decode_address (pack_digits ns @ rest) (of_nat (length ns)) toa SMS_CODEC_ADDRESS_CAP =
    Some ((if toa_ton toa = 1 then [43] else []) @ map g ns, (length ns + 1) div 2)"
proof -
  have n: "unat (of_nat (length ns) :: u8) = length ns"
    using assms(3) by (simp add: unat_of_nat)
  have nz: "(of_nat (length ns) :: u8) \<noteq> 0"
    using assms(2) n by (metis length_0_conv unsigned_0)
  have "\<forall>i \<in> set [0..<length ns]. bcd_char (address_nibble (pack_digits ns @ rest) i) = Some (g (ns ! i))"
    using assms(1) by (simp add: address_nibble_packed)
  then have d: "decode_digits (pack_digits ns @ rest) SMS_CODEC_ADDRESS_CAP [0..<length ns] dst =
      Some (dst @ map (\<lambda>i. g (ns ! i)) [0..<length ns])" if "length dst \<le> 1" for dst
    using assms(3) that by (intro decode_digits_all) auto
  have m: "map (\<lambda>i. g (ns ! i)) [0..<length ns] = map g ns"
    by (intro nth_equalityI) simp_all
  show ?thesis
    using assms(2-4) by (simp add: decode_address_def Let_def n nz d m)
qed

lemma drop_at: "length xs = k \<Longrightarrow> drop k (xs @ ys) = ys"
  by simp

lemma decode_submit_layout:
  assumes "decode_address (addr @ [pid, dcs] @ vp @ [udl] @ ud) n toa SMS_CODEC_ADDRESS_CAP = Some (t, length addr)"
    and "length vp = vp_bytes first"
  shows "decode_submit (pre @ [mr, n, toa] @ addr @ [pid, dcs] @ vp @ [udl] @ ud) (length pre) first udhi m =
    decode_user_data ud udl udhi dcs (m\<lparr>sm_submit := True, sm_address := t, sm_pid := pid, sm_dcs := dcs\<rparr>)"
proof -
  let ?pdu = "pre @ [mr, n, toa] @ addr @ [pid, dcs] @ vp @ [udl] @ ud"
  let ?p = "length pre + 3 + length addr"
  have at: "?pdu ! (length pre + 1) = n" "?pdu ! (length pre + 2) = toa" "?pdu ! ?p = pid" "?pdu ! (?p + 1) = dcs"
    "?pdu ! (?p + 2 + length vp) = udl"
    by (simp_all add: nth_append)
  have dr: "drop (length pre + 3) ?pdu = addr @ [pid, dcs] @ vp @ [udl] @ ud"
    "drop (?p + 2 + length vp + 1) ?pdu = ud"
    using drop_at [of "pre @ [mr, n, toa] @ addr @ [pid, dcs] @ vp @ [udl]" "?p + 2 + length vp + 1" ud] by simp_all
  have len: "length ?pdu = ?p + 3 + length vp + length ud"
    by simp
  show ?thesis
    unfolding decode_submit_def Let_def assms(2) [symmetric]
    using len by (simp only: at dr assms(1) option.case prod.case) simp
qed

lemma decode_deliver_layout:
  assumes "decode_address (addr @ [pid, dcs] @ scts @ [udl] @ ud) n toa SMS_CODEC_ADDRESS_CAP = Some (t, length addr)"
    and "length scts = 7"
  shows "decode_deliver (pre @ [n, toa] @ addr @ [pid, dcs] @ scts @ [udl] @ ud) (length pre) udhi m =
    decode_user_data ud udl udhi dcs
      (m\<lparr>sm_address := t, sm_pid := pid, sm_dcs := dcs, sm_timestamp := decode_timestamp scts\<rparr>)"
proof -
  let ?pdu = "pre @ [n, toa] @ addr @ [pid, dcs] @ scts @ [udl] @ ud"
  let ?p = "length pre + 2 + length addr"
  have at: "?pdu ! length pre = n" "?pdu ! (length pre + 1) = toa" "?pdu ! ?p = pid" "?pdu ! (?p + 1) = dcs"
    "?pdu ! (?p + 9) = udl"
    using assms(2) by (simp_all add: nth_append)
  have dr: "drop (length pre + 2) ?pdu = addr @ [pid, dcs] @ scts @ [udl] @ ud"
    "drop (?p + 10) ?pdu = ud" "drop (?p + 2) ?pdu = scts @ [udl] @ ud"
    using assms(2) drop_at [of "pre @ [n, toa] @ addr @ [pid, dcs] @ scts @ [udl]" "?p + 10" ud]
      drop_at [of "pre @ [n, toa] @ addr @ [pid, dcs]" "?p + 2" "scts @ [udl] @ ud"] by simp_all
  have ts: "decode_timestamp (scts @ [udl] @ ud) = decode_timestamp scts"
    using assms(2) by (simp add: decode_timestamp_def nth_append)
  have len: "length ?pdu = ?p + 10 + length ud"
    using assms(2) by simp
  show ?thesis
    unfolding decode_deliver_def Let_def
    using len by (simp only: at dr ts assms(1) option.case prod.case) simp
qed

section \<open>The user data header\<close>

lemma be16_split: "be16 (ucast (drop_bit 8 p)) (ucast (p AND 0xff)) = p"
proof -
  have m: "(0xff :: u16) = mask 8"
    by (simp add: mask_eq_exp_minus_1)
  show ?thesis
    unfolding be16_def m by (rule bit_word_eqI) (auto simp add: bit_simps not_less)
qed

text \<open>What the header of a segment says, added to a message.\<close>

definition udh_message :: "sms_submit_pdu \<Rightarrow> sms_message \<Rightarrow> sms_message" where
  "udh_message s m =
     (let m1 = (if segment_use_port s
                then m\<lparr>sm_has_ports := True, sm_dest_port := sp_dest_port s, sm_source_port := sp_source_port s\<rparr>
                else m)
      in if segment_multipart s
         then m1\<lparr>sm_has_concat := True, sm_concat_ref_16bit := False, sm_concat_ref := ucast (sp_reference s),
                 sm_concat_total := sp_segment_total s, sm_concat_seq := sp_segment s\<rparr>
         else m1)"

lemma parse_segment_udh:
  assumes "segment_use_udh s" "\<not> sm_has_ports m" "\<not> sm_has_concat m" "\<not> sm_udh_unhandled m"
  shows "parse_udh (segment_udh s @ chunk) (udh_total s + n) m = (udh_message s m, udh_total s)"
  using assms
  by (cases "segment_use_port s"; cases "segment_multipart s"; cases "mode_port_first (sp_mode s)")
    (simp_all add: parse_udh_def segment_udh_def segment_use_udh_def segment_udh_len_def udh_total_def
      port_element_def concat_element_def udh_elements.simps udh_element_def be16_split udh_message_def
      split: prod.split)

lemma segment_udh_length: "length (segment_udh s) = udh_total s" "udh_total s \<le> 12"
  by (simp_all add: segment_udh_def segment_use_udh_def segment_udh_len_def udh_total_def port_element_def
      concat_element_def)

lemma chunk_facts:
  assumes "sp_position s < sp_payload_len s" "unat (sp_payload_len s) \<le> length (sp_payload s)"
  shows "length (segment_chunk s) = chunk_length s" "chunk_length s \<le> 128" "0 < chunk_length s"
    "unat (sp_position s) + chunk_length s \<le> unat (sp_payload_len s)"
proof -
  have r: "unat (sp_payload_len s - sp_position s) = unat (sp_payload_len s) - unat (sp_position s)"
    using assms(1) by (simp add: unat_sub order_less_imp_le)
  have "unat (sp_position s) < unat (sp_payload_len s)"
    using assms(1) by (simp add: word_less_nat_alt)
  then show "length (segment_chunk s) = chunk_length s" "chunk_length s \<le> 128" "0 < chunk_length s"
    "unat (sp_position s) + chunk_length s \<le> unat (sp_payload_len s)"
    using assms(2) r by (auto simp add: segment_chunk_def chunk_length_def Let_def)
qed

section \<open>Submits\<close>

lemma dcs_of_segment: "\<not> mode_gsm7_text (sp_mode s) \<Longrightarrow> dcs_kind (segment_dcs s) = SMS_DCS_BINARY"
proof -
  have "dcs_kind 0xf5 = SMS_DCS_BINARY" "dcs_kind 0x04 = SMS_DCS_BINARY"
    by code_simp+
  then show "\<not> mode_gsm7_text (sp_mode s) \<Longrightarrow> dcs_kind (segment_dcs s) = SMS_DCS_BINARY"
    by (simp add: segment_dcs_def)
qed

text \<open>The message a binary segment stands for.\<close>

definition octets_message :: "sms_submit_pdu \<Rightarrow> sms_message \<Rightarrow> sms_message" where
  "octets_message s m =
     (udh_message s m)\<lparr>sm_binary := True, sm_binary_len := of_nat (chunk_length s),
        sm_binary_data := segment_chunk s\<rparr>"

lemma udh_total_pos: "segment_use_udh s \<Longrightarrow> 0 < udh_total s"
  by (simp add: udh_total_def)

lemma decode_segment_octets:
  assumes "\<not> mode_gsm7_text (sp_mode s)" "sp_position s < sp_payload_len s"
    and "unat (sp_payload_len s) \<le> length (sp_payload s)"
    and "\<not> sm_has_ports m" "\<not> sm_has_concat m" "\<not> sm_udh_unhandled m" "\<not> sm_trailing_data m"
  shows "decode_user_data (segment_udh s @ segment_chunk s) (of_nat (udh_total s + chunk_length s))
      (segment_use_udh s) (segment_dcs s) m = Some (octets_message s m)"
proof -
  note c = chunk_facts [OF assms(2,3)]
  have u: "unat (of_nat (udh_total s + chunk_length s) :: u8) = udh_total s + chunk_length s"
    using c(2) segment_udh_length(2) [of s] by (simp only: unat_of_nat) simp
  have len: "length (segment_udh s @ segment_chunk s) = udh_total s + chunk_length s"
    by (simp add: segment_udh_length(1) c(1))
  have m: "m\<lparr>sm_trailing_data := False\<rparr> = m"
    using assms(7) by simp
  have p: "parse_udh (segment_udh s @ segment_chunk s) (udh_total s + chunk_length s) m =
      (udh_message s m, udh_total s)" if "segment_use_udh s"
    by (rule parse_segment_udh [OF that assms(4-6)])
  have d: "drop (udh_total s) (segment_udh s @ segment_chunk s) = segment_chunk s"
    by (rule drop_at [OF segment_udh_length(1)])
  have n: "\<not> segment_use_udh s \<Longrightarrow> udh_message s m = m \<and> segment_udh s = []"
    by (auto simp add: segment_use_udh_def udh_message_def segment_udh_def)
  have bounds: "\<not> SMS_TP_UD_MAX_OCTETS < udh_total s + chunk_length s" "\<not> SMS_CODEC_BINARY_MAX < length (segment_chunk s)"
    using c(1,2) segment_udh_length(2) [of s] by simp_all
  show ?thesis
  proof (cases "segment_use_udh s")
    case True
    then show ?thesis
      using udh_total_pos [OF True] bounds
      unfolding decode_user_data_def Let_def u len dcs_of_segment [OF assms(1)]
      by (simp add: len m p d c(1) segment_udh_length(1) decode_octets_def octets_message_def)
  next
    case False
    then show ?thesis
      using bounds n unfolding decode_user_data_def Let_def u len dcs_of_segment [OF assms(1)]
      by (simp add: m c(1) udh_total_def decode_octets_def octets_message_def)
  qed
qed

text \<open>A phone number: an optional plus and one to twenty digits.\<close>

definition phone_number :: "u8 list \<Rightarrow> bool" where
  "phone_number number \<longleftrightarrow>
     strip_plus number \<noteq> [] \<and> length (strip_plus number) \<le> 20 \<and>
     (\<forall>c\<in>set (strip_plus number). 48 \<le> c \<and> c \<le> 57)"

lemma strip_plus_cases:
  "number = (if take 1 number = [43] then [43] else []) @ strip_plus number"
  by (simp add: strip_plus_def split: list.split)

lemma scan_digits:
  assumes "\<forall>c\<in>set cs. 48 \<le> c \<and> c \<le> (57 :: u8)" "length ds + length cs \<le> MODEM_PHONE_MAX"
  shows "scan_number cs ds b = Some (ds @ map (\<lambda>c. c - 48) cs, b)"
  using assms
proof (induction cs arbitrary: ds)
  case (Cons c cs)
  have "c \<noteq> 43"
    using Cons.prems(1) by auto
  then show ?case
    using Cons by simp
qed simp

lemma scan_phone_number:
  assumes "phone_number number"
  shows "scan_number number [] False = Some (map (\<lambda>c. c - 48) (strip_plus number), take 1 number = [43])"
proof (cases number)
  case (Cons c rest)
  have d: "\<forall>c\<in>set (strip_plus number). 48 \<le> c \<and> c \<le> 57" "length (strip_plus number) \<le> 20"
    using assms by (simp_all add: phone_number_def)
  show ?thesis
  proof (cases "c = 43")
    case True
    then show ?thesis
      using scan_digits [of rest "[]" True] d Cons by (simp add: strip_plus_def)
  next
    case False
    then show ?thesis
      using scan_digits [of number "[]" False] d Cons by (simp add: strip_plus_def)
  qed
qed (use assms in \<open>simp add: phone_number_def strip_plus_def\<close>)

lemma digit_nibble:
  assumes "48 \<le> c" "c \<le> (57 :: u8)"
  shows "bcd_char (c - 48) = Some c \<and> c - 48 < 16"
proof -
  have "\<forall>k \<in> set [0..<58]. 48 \<le> k \<longrightarrow> bcd_char (word_of_nat k - 48) = Some (word_of_nat k) \<and>
      (word_of_nat k - 48 :: u8) < 16"
    by code_simp
  note this [rule_format, of "unat c"]
  moreover have "unat c \<in> set [0..<58]" "48 \<le> unat c"
    using assms by (simp_all add: word_le_nat_alt)
  ultimately show ?thesis
    by simp
qed

lemma toa_ton_values: "toa_ton 0x91 = 1" "toa_ton 0x81 = 0" "toa_ton 0xD0 = 5"
  by code_simp+

lemma decode_phone_address:
  assumes "phone_number number"
  shows "decode_address (pack_digits (map (\<lambda>c. c - 48) (strip_plus number)) @ rest)
      (of_nat (length (strip_plus number))) (if take 1 number = [43] then 0x91 else 0x81) SMS_CODEC_ADDRESS_CAP =
    Some (number, (length (strip_plus number) + 1) div 2)"
proof -
  let ?ns = "map (\<lambda>c. c - 48) (strip_plus number)"
  let ?toa = "if take 1 number = [43] then 0x91 else 0x81 :: u8"
  have "\<forall>n\<in>set ?ns. bcd_char n = Some (n + 48) \<and> n < 16"
    using assms digit_nibble by (auto simp add: phone_number_def)
  moreover have "?ns \<noteq> []" "length ?ns \<le> 20" "toa_ton ?toa \<noteq> 5"
    using assms by (simp_all add: phone_number_def toa_ton_values)
  ultimately have "decode_address (pack_digits ?ns @ rest) (of_nat (length ?ns)) ?toa SMS_CODEC_ADDRESS_CAP =
      Some ((if toa_ton ?toa = 1 then [43] else []) @ map (\<lambda>n. n + 48) ?ns, (length ?ns + 1) div 2)"
    by (intro decode_packed_address)
  moreover have "map (\<lambda>n. n + 48) ?ns = strip_plus number"
    by (simp add: comp_def)
  moreover have "(if toa_ton ?toa = 1 then [43] else []) @ strip_plus number = number"
    using strip_plus_cases [of number] by (simp add: toa_ton_values split: if_splits)
  ultimately show ?thesis
    by simp
qed

lemma first_octet:
  "segment_first s AND 0x03 = 1" "segment_first s AND 0x40 \<noteq> 0 \<longleftrightarrow> segment_use_udh s"
  "vp_bytes (segment_first s) = (if mode_uses_vp (sp_mode s) then 1 else 0)"
proof -
  have "(0x51 :: u8) AND 0x03 = 1" "(0x41 :: u8) AND 0x03 = 1" "(0x11 :: u8) AND 0x03 = 1" "(0x01 :: u8) AND 0x03 = 1"
    "(0x51 :: u8) AND 0x40 \<noteq> 0" "(0x41 :: u8) AND 0x40 \<noteq> 0" "(0x11 :: u8) AND 0x40 = 0" "(0x01 :: u8) AND 0x40 = 0"
    "vp_bytes 0x51 = 1" "vp_bytes 0x41 = 0" "vp_bytes 0x11 = 1" "vp_bytes 0x01 = 0"
    by code_simp+
  then show "segment_first s AND 0x03 = 1" "segment_first s AND 0x40 \<noteq> 0 \<longleftrightarrow> segment_use_udh s"
    "vp_bytes (segment_first s) = (if mode_uses_vp (sp_mode s) then 1 else 0)"
    unfolding segment_first_def by (simp_all only: split: if_splits) simp_all
qed

section \<open>Packed text\<close>

text \<open>The UTF-8 text of GSM codes; an escape selects the extension table.\<close>

fun gsm7_text :: "bool \<Rightarrow> u8 list \<Rightarrow> u8 list" where
  "gsm7_text esc [] = (if esc then [0x3f] else [])"
| "gsm7_text esc (v # vs) =
     (if \<not> esc \<and> v = 0x1b then gsm7_text True vs
      else utf8_bytes (if esc then gsm7_extension_codepoint v else gsm7_default_codepoint v) @ gsm7_text False vs)"

lemma append_utf8_fits: "length dst + length (utf8_bytes cp) < cap \<Longrightarrow> append_utf8 cap dst cp = Some (dst @ utf8_bytes cp)"
  by (simp add: append_utf8_def)

lemma decode_septets_text:
  assumes "\<forall>i\<in>set is. gsm7_septet_at data len off i = Some (f i)"
    and "length dst + length (gsm7_text esc (map f is)) < cap"
  shows "decode_septets data len off cap is dst esc = Some (dst @ gsm7_text esc (map f is))"
  using assms
proof (induction "is" arbitrary: dst esc)
  case Nil
  have "utf8_bytes 0x3f = [0x3f]"
    by code_simp
  then show ?case
    using Nil append_utf8_fits [of dst "0x3f" cap] by (cases esc) simp_all
next
  case (Cons i "is")
  then show ?case
    by (cases esc; cases "f i = 0x1b") (simp_all add: append_utf8_fits)
qed

lemma utf8_gsm7_short: "length (utf8_bytes (gsm7_default_codepoint v)) \<le> 2" "length (utf8_bytes cp) \<le> 3"
proof -
  have "\<forall>k \<in> set [0..<256]. length (utf8_bytes (gsm7_default_codepoint (word_of_nat k))) \<le> 2"
    by code_simp
  then show "length (utf8_bytes (gsm7_default_codepoint v)) \<le> 2"
    by (rule byte_cases) (use unsigned_less [of v] in simp)
  show "length (utf8_bytes cp) \<le> 3"
    by (simp add: utf8_bytes_def)
qed

lemma gsm7_text_length: "length (gsm7_text esc vs) \<le> 2 * length vs + (if esc then 1 else 0)"
proof (induction vs arbitrary: esc)
  case (Cons v vs)
  show ?case
    using Cons.IH [of True] Cons.IH [of False] utf8_gsm7_short(1) [of v]
      utf8_gsm7_short(2) [of "gsm7_extension_codepoint v"]
    by (cases esc) (auto split: if_splits)
qed simp

lemma decode_packed_text:
  assumes "\<forall>v\<in>set vs. v < 128" "length vs \<le> MODEM_SMS_TEXT_MAX" "\<not> sm_trailing_data m" "dcs_kind dcs = SMS_DCS_GSM7"
  shows "decode_user_data (pack_septets vs) (of_nat (length vs)) False dcs m =
    Some (m\<lparr>sm_text := gsm7_text False vs\<rparr>)"
proof -
  have u: "unat (of_nat (length vs) :: u8) = length vs"
    using assms(2) by (simp only: unat_of_nat) simp
  have "\<forall>i\<in>set [0..<length vs]. gsm7_septet_at (pack_septets vs) (septet_bytes (length vs)) 0 i = Some (vs ! i)"
    using septet_of_packed [OF assms(1)] by simp
  then have "decode_septets (pack_septets vs) (septet_bytes (length vs)) 0 SMS_CODEC_TEXT_CAP [0..<length vs] [] False =
      Some (gsm7_text False (map ((!) vs) [0..<length vs]))"
    using gsm7_text_length [of False vs] assms(2) decode_septets_text [of "[0..<length vs]" _ _ _ "(!) vs" "[]"]
    by (simp add: map_nth)
  then have d: "decode_gsm7_utf8 (pack_septets vs) (septet_bytes (length vs)) (length vs) 0 SMS_CODEC_TEXT_CAP =
      Some (gsm7_text False vs)"
    by (simp add: decode_gsm7_utf8_def map_nth)
  have "m\<lparr>sm_trailing_data := False\<rparr> = m"
    using assms(3) by simp
  then show ?thesis
    using assms(2) unfolding decode_user_data_def Let_def assms(4) u
    by (simp add: decode_gsm7_user_data_def d)
qed

text \<open>The part of the default table that is ASCII.\<close>

definition ascii_code :: "nat \<Rightarrow> bool" where
  "ascii_code k \<longleftrightarrow> k = 10 \<or> k = 13 \<or>
     (32 \<le> k \<and> k < 127 \<and> k \<notin> {0x24, 0x40, 0x5b, 0x5c, 0x5d, 0x5e, 0x5f, 0x60, 0x7b, 0x7c, 0x7d, 0x7e})"

lemma default_table_ascii:
  "\<forall>(k, cp) \<in> set (zip [0..<128] gsm7_default_table). ascii_code k \<longrightarrow> cp = word_of_nat k"
  by code_simp

lemma codepoint_entry:
  assumes "v < 128"
  shows "(unat v, gsm7_default_codepoint v) \<in> set (zip [0..<128] gsm7_default_table)"
proof -
  have m: "(0x7f :: u8) = mask 7"
    by (simp add: mask_eq_exp_minus_1)
  have "v AND 0x7f = v"
    unfolding m take_bit_eq_mask [symmetric] by (rule septet_take_bit [OF assms])
  moreover have "length gsm7_default_table = 128" "unat v < 128"
    using assms by (simp_all add: gsm7_default_table_def word_less_nat_alt)
  ultimately show ?thesis
    by (auto simp add: gsm7_default_codepoint_def in_set_zip intro!: exI [of _ "unat v"])
qed

lemma ascii_text:
  assumes "ascii_code (unat v)"
  shows "v < 128 \<and> v \<noteq> 0x1b \<and> gsm7_default_codepoint v = ucast v \<and> utf8_bytes (ucast v) = [v]"
proof -
  have v: "v < 128" "v \<noteq> 0x1b"
    using assms by (auto simp add: ascii_code_def word_less_nat_alt)
  moreover have "gsm7_default_codepoint v = ucast v"
    using default_table_ascii codepoint_entry [OF v(1)] assms by (fastforce simp add: unsigned_ucast_eq)
  moreover have "utf8_bytes (ucast v) = [v]"
  proof -
    have "(ucast v :: u32) \<le> 0x7f"
      using v(1) by (simp add: word_le_nat_alt word_less_nat_alt unsigned_ucast_eq take_bit_nat_eq_self)
    moreover have "ucast (ucast v :: u32) = v"
      by (rule bit_word_eqI) (simp add: bit_simps)
    ultimately show ?thesis
      by (simp add: utf8_bytes_def)
  qed
  ultimately show ?thesis
    by blast
qed

lemma gsm7_code_ascii: "ascii_code (unat (sms_submit_gsm7_code ch))"
  by (auto simp add: sms_submit_gsm7_code_def ascii_code_def word_le_nat_alt)

lemma gsm7_code_text:
  "sms_submit_gsm7_code ch < 128 \<and> sms_submit_gsm7_code ch \<noteq> 0x1b \<and>
   utf8_bytes (gsm7_default_codepoint (sms_submit_gsm7_code ch)) = [sms_submit_gsm7_code ch]"
  using ascii_text [OF gsm7_code_ascii [of ch]] by simp

lemma gsm7_text_codes: "gsm7_text False (map sms_submit_gsm7_code cs) = map sms_submit_gsm7_code cs"
  using gsm7_code_text by (induction cs) auto

section \<open>The submit PDU\<close>

text \<open>The decoded form of a segment: packed text in the text mode, octets with their header otherwise.\<close>

definition submit_message :: "sms_submit_pdu \<Rightarrow> sms_message" where
  "submit_message s =
     (let m = sms_message_zero\<lparr>sm_submit := True, sm_address := sp_number s, sm_pid := 0, sm_dcs := segment_dcs s\<rparr>
      in if mode_gsm7_text (sp_mode s) then m\<lparr>sm_text := map sms_submit_gsm7_code (segment_chunk s)\<rparr>
         else octets_message s m)"

lemma append_phone_address:
  assumes "phone_number number" "length dst + 12 \<le> cap"
  shows "sms_submit_append_address cap number dst =
    Some (dst @ [of_nat (length (strip_plus number)), if take 1 number = [43] then 0x91 else 0x81] @
      pack_digits (map (\<lambda>c. c - 48) (strip_plus number)))"
proof -
  have "strip_plus number \<noteq> []" "length (strip_plus number) \<le> 20"
    using assms(1) by (simp_all add: phone_number_def)
  then show ?thesis
    using assms(2) by (simp add: sms_submit_append_address_def scan_phone_number [OF assms(1)])
qed

text \<open>The user data of a segment and its decoding.\<close>

lemma segment_data:
  assumes "sp_position s < sp_payload_len s" "unat (sp_payload_len s) \<le> length (sp_payload s)"
  obtains ud where "segment_user_data s = Some ud" "length ud \<le> chunk_length s"
    "mode_gsm7_text (sp_mode s) \<Longrightarrow> ud = pack_septets (map sms_submit_gsm7_code (segment_chunk s))"
    "\<not> mode_gsm7_text (sp_mode s) \<Longrightarrow> ud = segment_chunk s"
proof (cases "mode_gsm7_text (sp_mode s)")
  case True
  note c = chunk_facts [OF assms]
  have "segment_user_data s = Some (pack_septets (map sms_submit_gsm7_code (segment_chunk s)))"
    using True c(2,3) by (simp add: segment_user_data_def sms_submit_pack_gsm7_def segment_chunk_def)
  then show ?thesis
    using True c(1) septet_bytes_bound(2) [of "chunk_length s"] by (intro that) simp_all
next
  case False
  then show ?thesis
    using chunk_facts(1) [OF assms] by (intro that) (simp_all add: segment_user_data_def)
qed

lemma decode_segment:
  assumes "sp_position s < sp_payload_len s" "unat (sp_payload_len s) \<le> length (sp_payload s)"
    and "segment_user_data s = Some ud"
    and "m = sms_message_zero\<lparr>sm_submit := True, sm_address := sp_number s, sm_pid := 0, sm_dcs := segment_dcs s\<rparr>"
  shows "decode_user_data (segment_udh s @ ud)
      (if mode_gsm7_text (sp_mode s) then of_nat (chunk_length s) else of_nat (udh_total s + chunk_length s))
      (segment_use_udh s) (segment_dcs s) m = Some (submit_message s)"
proof (cases "mode_gsm7_text (sp_mode s)")
  case True
  note c = chunk_facts [OF assms(1,2)]
  let ?vs = "map sms_submit_gsm7_code (segment_chunk s)"
  have "ud = pack_septets ?vs"
    using assms(3) True c(2,3) by (simp add: segment_user_data_def sms_submit_pack_gsm7_def segment_chunk_def)
  moreover have "segment_udh s = []" "\<not> segment_use_udh s" "segment_dcs s = 0"
    using True by (simp_all add: segment_udh_def segment_use_udh_def segment_use_port_def segment_multipart_def
        segment_dcs_def)
  moreover have "dcs_kind 0 = SMS_DCS_GSM7"
    by code_simp
  moreover have "\<forall>v\<in>set ?vs. v < 128" "length ?vs \<le> MODEM_SMS_TEXT_MAX" "length ?vs = chunk_length s"
    using gsm7_code_text c(1,2) by auto
  moreover have "\<not> sm_trailing_data m"
    by (simp add: assms(4) sms_message_zero_def)
  ultimately show ?thesis
    using decode_packed_text [of ?vs m 0] True
    by (simp add: submit_message_def gsm7_text_codes assms(4))
next
  case False
  then have "ud = segment_chunk s"
    using assms(3) by (simp add: segment_user_data_def)
  then show ?thesis
    using decode_segment_octets [OF False assms(1,2), of m] False
    by (simp add: submit_message_def assms(4) sms_message_zero_def)
qed

lemma tpdu_is_submit:
  "first AND 0x03 = 1 \<Longrightarrow> sms_tpdu_decode ([0, first] @ rest) =
     decode_submit ([0, first] @ rest) (length [0, first]) first (first AND 0x40 \<noteq> 0) sms_message_zero"
  by (simp add: sms_tpdu_decode_def numeral_2_eq_2)

lemma tpdu_is_deliver:
  "first AND 0x03 = 0 \<Longrightarrow> sms_tpdu_decode ([0, first] @ rest) =
     decode_deliver ([0, first] @ rest) (length [0, first]) (first AND 0x40 \<noteq> 0) sms_message_zero"
  by (simp add: sms_tpdu_decode_def numeral_2_eq_2)

text \<open>C26: the submit encoder and the PDU decoder agree: for a dialable number and a segment of the
  payload, the encoder succeeds within its 384-character buffer, and decoding what it wrote gives
  the number, the ports, the concatenation header and exactly the octets (or the GSM text) of that
  segment; the reported TPDU length is that of the PDU without its SMSC octet.\<close>

theorem submit_pdu_decodes:
  assumes "phone_number (sp_number s)" "sp_position s < sp_payload_len s"
    and "unat (sp_payload_len s) \<le> length (sp_payload s)" "384 \<le> cap"
  shows "\<exists>hex. sms_submit_pdu_build s cap = Some (advance_segment s, hex, Some (of_nat (length hex div 2 - 1))) \<and>
    sms_pdu_decode hex = Some (submit_message s)"
proof -
  let ?ds = "strip_plus (sp_number s)"
  let ?addr = "pack_digits (map (\<lambda>c. c - 48) ?ds)"
  let ?toa = "if take 1 (sp_number s) = [43] then 0x91 else 0x81 :: u8"
  let ?udl = "if mode_gsm7_text (sp_mode s) then of_nat (chunk_length s)
    else of_nat (udh_total s + chunk_length s) :: u8"
  let ?vp = "if mode_uses_vp (sp_mode s) then [0xa7] else [] :: u8 list"
  obtain ud where ud: "segment_user_data s = Some ud" "length ud \<le> chunk_length s"
    using segment_data [OF assms(2,3)] .
  let ?rest = "[0x00, segment_dcs s] @ ?vp @ [?udl] @ segment_udh s @ ud"
  let ?pdu = "[0x00, segment_first s] @ [0x00, of_nat (length ?ds), ?toa] @ ?addr @ ?rest"
  have d: "length ?ds \<le> 20"
    using assms(1) by (simp add: phone_number_def)
  have len: "length ?pdu \<le> 165" "length ?pdu = 8 + (length ?ds + 1) div 2 + length ?vp + udh_total s + length ud"
    using d ud(2) segment_udh_length [of s] chunk_facts(2) [OF assms(2,3)] by auto
  have "sp_payload_len s \<noteq> 0" "\<not> sp_payload_len s \<le> sp_position s"
    using assms(2) by auto
  then have b: "sms_submit_pdu_build s cap = Some (advance_segment s, hex_of ?pdu, Some (of_nat (length ?pdu - 1)))"
    using append_phone_address [OF assms(1), of "[0, segment_first s, 0]" SUBMIT_PDU_CAP] assms(4) len
    by (simp add: sms_submit_pdu_build_def build_segment_def ud append_hex_eq Let_def)
  have a: "decode_address (?addr @ ?rest) (of_nat (length ?ds)) ?toa SMS_CODEC_ADDRESS_CAP =
      Some (sp_number s, length ?addr)"
    using decode_phone_address [OF assms(1), of ?rest] by simp
  have "sms_tpdu_decode ?pdu =
      decode_submit ?pdu (length [0, segment_first s]) (segment_first s) (segment_use_udh s) sms_message_zero"
    unfolding tpdu_is_submit [OF first_octet(1)] first_octet(2) ..
  also have "\<dots> = decode_user_data (segment_udh s @ ud) ?udl (segment_use_udh s) (segment_dcs s)
      (sms_message_zero\<lparr>sm_submit := True, sm_address := sp_number s, sm_pid := 0, sm_dcs := segment_dcs s\<rparr>)"
    by (rule decode_submit_layout [OF a]) (simp add: first_octet(3))
  also have "\<dots> = Some (submit_message s)"
    by (rule decode_segment [OF assms(2,3) ud(1) refl])
  finally have "sms_pdu_decode (hex_of ?pdu) = Some (submit_message s)"
    using read_hex_hex_of [of "[]" ?pdu SMS_PDU_MAX] len(1) by (simp add: sms_pdu_decode_def)
  moreover have "length (hex_of ?pdu) div 2 = length ?pdu"
    by simp
  ultimately show ?thesis
    using b by metis
qed

section \<open>The deliver PDU\<close>

lemma bcd_digit_char:
  assumes "bcd_digit c = Some n"
  shows "bcd_char n = Some c \<and> n < 16"
proof -
  consider "48 \<le> c \<and> c \<le> 57" "n = c - 48" | "c = 42" "n = 0x0A" | "c = 35" "n = 0x0B"
    using assms by (auto simp add: bcd_digit_def split: if_splits)
  then show ?thesis
  proof cases
    case 1
    then show ?thesis
      using digit_nibble by blast
  qed (simp_all add: bcd_char_def)
qed

lemma pack_bcd_digits:
  "\<forall>c\<in>set cs. bcd_digit c \<noteq> None \<Longrightarrow> pack_bcd cs = Some (pack_digits (map (the \<circ> bcd_digit) cs))"
  by (induction cs rule: pack_bcd.induct) (auto simp add: or.commute)

lemma numeric_address_decodes:
  assumes "address_is_numeric address" "length (strip_plus address) \<le> 20"
  shows "decode_address (pack_digits (map (the \<circ> bcd_digit) (strip_plus address)) @ rest)
      (of_nat (length (strip_plus address))) (if take 1 address = [43] then 0x91 else 0x81) SMS_CODEC_ADDRESS_CAP =
    Some (address, (length (strip_plus address) + 1) div 2)"
proof -
  let ?cs = "strip_plus address"
  let ?ns = "map (the \<circ> bcd_digit) ?cs"
  let ?toa = "if take 1 address = [43] then 0x91 else 0x81 :: u8"
  have c: "bcd_char (the (bcd_digit c)) = Some c \<and> the (bcd_digit c) < 16" if "c \<in> set ?cs" for c
    using that assms(1) bcd_digit_char by (auto simp add: address_is_numeric_def)
  then have "\<forall>n\<in>set ?ns. bcd_char n = Some (the (bcd_char n)) \<and> n < 16"
    by auto
  moreover have "?ns \<noteq> []" "length ?ns \<le> 20" "toa_ton ?toa \<noteq> 5"
    using assms by (simp_all add: address_is_numeric_def toa_ton_values)
  ultimately have "decode_address (pack_digits ?ns @ rest) (of_nat (length ?ns)) ?toa SMS_CODEC_ADDRESS_CAP =
      Some ((if toa_ton ?toa = 1 then [43] else []) @ map (\<lambda>n. the (bcd_char n)) ?ns, (length ?ns + 1) div 2)"
    by (intro decode_packed_address)
  moreover have "map (\<lambda>n. the (bcd_char n)) ?ns = ?cs"
    using c by (simp add: comp_def map_idI)
  moreover have "(if toa_ton ?toa = 1 then [43] else []) @ ?cs = address"
    using strip_plus_cases [of address] by (simp add: toa_ton_values split: if_splits)
  ultimately show ?thesis
    by simp
qed

lemma deliver_first_octet:
  "(0x04 OR (if udhi then 0x40 else 0x00)) AND 0x03 = (0 :: u8)"
  "(0x04 OR (if udhi then 0x40 else 0x00)) AND 0x40 \<noteq> (0 :: u8) \<longleftrightarrow> udhi"
proof -
  have "(0x04 OR 0x40) AND 0x03 = (0 :: u8)" "(0x04 OR 0x00) AND 0x03 = (0 :: u8)"
    "(0x04 OR 0x40) AND 0x40 \<noteq> (0 :: u8)" "(0x04 OR 0x00) AND 0x40 = (0 :: u8)"
    by code_simp+
  then show "(0x04 OR (if udhi then 0x40 else 0x00)) AND 0x03 = (0 :: u8)"
    "(0x04 OR (if udhi then 0x40 else 0x00)) AND 0x40 \<noteq> (0 :: u8) \<longleftrightarrow> udhi"
    by (simp_all only: split: if_splits) simp_all
qed

text \<open>A received message that is rebuilt for storage reads back: for a numeric sender and no vendor
  type of address, the builder succeeds within its 384-character buffer, and decoding the PDU gives
  the sender, protocol, coding, timestamp, and what the user data of the message decodes to.\<close>

lemma deliver_pdu_decodes:
  assumes "address_is_numeric (sd_address d)" "length (strip_plus (sd_address d)) \<le> 20" "sd_toa d = 0"
    and "length (sd_scts d) = 7" "unat (sd_ud_len d) \<le> SMS_DELIVER_UD_MAX"
    and "unat (sd_ud_len d) \<le> length (sd_ud d)" "384 \<le> cap"
  shows "\<exists>hex. sms_deliver_build d cap = Some (hex, of_nat (length hex div 2 - 1)) \<and>
    sms_pdu_decode hex = decode_user_data (take (unat (sd_ud_len d)) (sd_ud d)) (sd_udl d) (sd_udhi d) (sd_dcs d)
      (sms_message_zero\<lparr>sm_address := sd_address d, sm_pid := sd_pid d, sm_dcs := sd_dcs d,
         sm_timestamp := decode_timestamp (sd_scts d)\<rparr>)"
proof -
  let ?cs = "strip_plus (sd_address d)"
  let ?addr = "pack_digits (map (the \<circ> bcd_digit) ?cs)"
  let ?ud = "take (unat (sd_ud_len d)) (sd_ud d)"
  define toa :: u8 where "toa = (if take 1 (sd_address d) = [43] then 0x91 else 0x81)"
  define first :: u8 where "first = 0x04 OR (if sd_udhi d then 0x40 else 0x00)"
  let ?rest = "[sd_pid d, sd_dcs d] @ sd_scts d @ [sd_udl d] @ ?ud"
  let ?pdu = "[0x00, first] @ [of_nat (length ?cs), toa] @ ?addr @ ?rest"
  have cs: "?cs \<noteq> []" "\<forall>c\<in>set ?cs. bcd_digit c \<noteq> None"
    using assms(1) by (simp_all add: address_is_numeric_def)
  have t: "deliver_toa d = toa" "toa_ton toa \<noteq> 5"
    using assms(1,3) by (simp_all add: deliver_toa_def toa_def toa_ton_values)
  have len: "length ?pdu \<le> 164" "length ?pdu = 14 + (length ?cs + 1) div 2 + unat (sd_ud_len d)"
    using assms(2,4-6) by auto
  have "deliver_append_address DELIVER_PDU_CAP (sd_address d) toa [0x00, first] =
      Some ([0x00, first] @ [of_nat (length ?cs), toa] @ ?addr)"
    using cs t(2) assms(2) by (simp add: deliver_append_address_def Let_def pack_bcd_digits)
  then have "deliver_pdu d = Some ?pdu"
    using assms(2,4-6) unfolding deliver_pdu_def t(1) first_def [symmetric] by simp
  then have b: "sms_deliver_build d cap = Some (hex_of ?pdu, of_nat (length ?pdu - 1))"
    using len assms(5,7) by (simp add: sms_deliver_build_def)
  have a: "decode_address (?addr @ ?rest) (of_nat (length ?cs)) toa SMS_CODEC_ADDRESS_CAP =
      Some (sd_address d, length ?addr)"
    using numeric_address_decodes [OF assms(1,2), of ?rest] by (simp add: toa_def)
  have f: "first AND 0x03 = 0" "first AND 0x40 \<noteq> 0 \<longleftrightarrow> sd_udhi d"
    unfolding first_def by (rule deliver_first_octet)+
  have "sms_tpdu_decode ?pdu = decode_deliver ?pdu (length [0, first]) (sd_udhi d) sms_message_zero"
    unfolding tpdu_is_deliver [OF f(1)] f(2) ..
  also have "\<dots> = decode_user_data ?ud (sd_udl d) (sd_udhi d) (sd_dcs d)
      (sms_message_zero\<lparr>sm_address := sd_address d, sm_pid := sd_pid d, sm_dcs := sd_dcs d,
         sm_timestamp := decode_timestamp (sd_scts d)\<rparr>)"
    by (rule decode_deliver_layout [OF a assms(4)])
  finally have "sms_pdu_decode (hex_of ?pdu) = decode_user_data ?ud (sd_udl d) (sd_udhi d) (sd_dcs d)
      (sms_message_zero\<lparr>sm_address := sd_address d, sm_pid := sd_pid d, sm_dcs := sd_dcs d,
         sm_timestamp := decode_timestamp (sd_scts d)\<rparr>)"
    using read_hex_hex_of [of "[]" ?pdu SMS_PDU_MAX] len(1) by (simp add: sms_pdu_decode_def)
  moreover have "length (hex_of ?pdu) div 2 = length ?pdu"
    by simp
  ultimately show ?thesis
    using b by metis
qed

section \<open>Timestamps and Latin-1 text\<close>

lemma semi_octet_decimal:
  assumes "v < (100 :: u8)"
  shows "semi_decimal (semi_octet v) = v"
proof (rule byte_cases [where n = v and m = 100])
  show "\<forall>k \<in> set [0..<100]. semi_decimal (semi_octet (word_of_nat k)) = word_of_nat k"
    by code_simp
qed (use assms in \<open>simp add: word_less_nat_alt\<close>)

lemma scts_decodes:
  assumes "sms_deliver_scts_encode year month day hour minute second tz = Some scts"
  shows "length scts = 7 \<and> decode_timestamp scts =
    two_digits (ucast (year mod 100)) @ [47] @ two_digits month @ [47] @ two_digits day @ [44] @
    two_digits hour @ [58] @ two_digits minute @ [58] @ two_digits second"
proof -
  have "unat (year mod 100) < 100"
    by (simp add: unat_mod)
  then have y: "ucast (year mod 100) < (100 :: u8)"
    by (simp add: word_less_nat_alt unsigned_ucast_eq take_bit_nat_eq_self)
  have r: "month < 100" "day < 100" "hour < 100" "minute < 100" "second < 100"
    using assms by (auto simp add: sms_deliver_scts_encode_def word_less_nat_alt split: if_splits)
  show ?thesis
    using assms by (auto simp add: sms_deliver_scts_encode_def Let_def decode_timestamp_def
        semi_octet_decimal [OF y] semi_octet_decimal r split: if_splits)
qed

lemma basic_table_codes:
  "\<forall>(l, g) \<in> set GSM7_BASIC. g < 128 \<and> g \<noteq> 0x1b \<and> utf8_bytes (gsm7_default_codepoint g) = utf8_bytes (ucast l)"
  by code_simp

lemma ext_table_codes:
  "\<forall>(l, g) \<in> set GSM7_EXT. g < 128 \<and> utf8_bytes (gsm7_extension_codepoint g) = utf8_bytes (ucast l)"
  by code_simp

text \<open>One Latin-1 byte through the packing alphabet; the grave accent comes back as 0xBF.\<close>

lemma latin1_text:
  assumes "sms_deliver_gsm7_from_latin1 ch \<noteq> []"
  shows "(\<forall>v\<in>set (sms_deliver_gsm7_from_latin1 ch). v < 128) \<and>
    gsm7_text False (sms_deliver_gsm7_from_latin1 ch @ vs) =
      utf8_bytes (if ch = 0x60 then 0xBF else ucast ch) @ gsm7_text False vs"
proof -
  have grave: "map_of GSM7_EXT 0x60 = None" "map_of GSM7_BASIC 0x60 = None" "gsm7_default_codepoint 0x60 = 0xBF"
    by code_simp+
  consider g where "map_of GSM7_EXT ch = Some g"
    | g where "map_of GSM7_EXT ch = None" "map_of GSM7_BASIC ch = Some g"
    | "map_of GSM7_EXT ch = None" "map_of GSM7_BASIC ch = None"
    by fastforce
  then show ?thesis
  proof cases
    case (1 g)
    then have "g < 128 \<and> utf8_bytes (gsm7_extension_codepoint g) = utf8_bytes (ucast ch)"
      using ext_table_codes map_of_SomeD [OF 1] by fastforce
    then show ?thesis
      using 1 grave by (auto simp add: sms_deliver_gsm7_from_latin1_def)
  next
    case (2 g)
    then have "g < 128 \<and> g \<noteq> 0x1b \<and> utf8_bytes (gsm7_default_codepoint g) = utf8_bytes (ucast ch)"
      using basic_table_codes map_of_SomeD [OF 2(2)] by fastforce
    then show ?thesis
      using 2 grave by (auto simp add: sms_deliver_gsm7_from_latin1_def)
  next
    case 3
    then have f: "sms_deliver_gsm7_from_latin1 ch = [ch]" "ch = 0x0A \<or> ch = 0x0D \<or> (0x20 \<le> ch \<and> ch < 0x7F)"
      using assms by (simp_all add: sms_deliver_gsm7_from_latin1_def split: if_splits)
    show ?thesis
    proof (cases "ch = 0x60")
      case True
      then show ?thesis
        using f(1) grave by simp
    next
      case False
      have "ch \<notin> fst ` set GSM7_EXT" "ch \<notin> fst ` set GSM7_BASIC"
        using 3 by (simp_all add: map_of_eq_None_iff)
      then have ne: "ch \<notin> word_of_nat ` {0x24, 0x40, 0x5b, 0x5c, 0x5d, 0x5e, 0x5f, 0x60, 0x7b, 0x7c, 0x7d, 0x7e}"
        using False by (simp add: GSM7_EXT_def GSM7_BASIC_def)
      have "unat ch \<notin> {0x24, 0x40, 0x5b, 0x5c, 0x5d, 0x5e, 0x5f, 0x60, 0x7b, 0x7c, 0x7d, 0x7e}"
        proof
        assume "unat ch \<in> {0x24, 0x40, 0x5b, 0x5c, 0x5d, 0x5e, 0x5f, 0x60, 0x7b, 0x7c, 0x7d, 0x7e}"
        then have "word_of_nat (unat ch) \<in> word_of_nat ` {0x24, 0x40, 0x5b, 0x5c, 0x5d, 0x5e, 0x5f, 0x60, 0x7b, 0x7c, 0x7d, 0x7e}"
          by (rule imageI)
        moreover have "word_of_nat (unat ch) = ch"
          by simp
        ultimately show False
          using ne by metis
      qed
      moreover have "unat ch = 10 \<or> unat ch = 13 \<or> (32 \<le> unat ch \<and> unat ch < 127)"
        using f(2) by (auto simp add: word_le_nat_alt word_less_nat_alt)
      ultimately have "ascii_code (unat ch)"
        unfolding ascii_code_def by blast
      then show ?thesis
        using ascii_text False f(1) by simp
    qed
  qed
qed

lemma latin1_texts:
  assumes "\<forall>ch\<in>set cs. sms_deliver_gsm7_from_latin1 ch \<noteq> []"
  shows "(\<forall>v\<in>set (concat (map sms_deliver_gsm7_from_latin1 cs)). v < 128) \<and>
    gsm7_text False (concat (map sms_deliver_gsm7_from_latin1 cs)) =
      concat (map (\<lambda>ch. utf8_bytes (if ch = 0x60 then 0xBF else ucast ch)) cs)"
  using assms
proof (induction cs)
  case (Cons ch cs)
  then show ?case
    using latin1_text [of ch "concat (map sms_deliver_gsm7_from_latin1 cs)"] by auto
qed simp

text \<open>C27: a text message that is stored reads back as it was received: Latin-1 text without a grave
  accent (0x60), every character of which has a GSM code, packed into a deliver PDU with its sender
  and its time, decodes to the same text in UTF-8, the same sender and the same time.  The grave
  accent has no GSM code; the encoder passes 0x60 through as if it had, and it reads back as another
  character, the inverted question mark.\<close>

theorem stored_text_reads_back:
  assumes "address_is_numeric (sd_address d)" "length (strip_plus (sd_address d)) \<le> 20" "sd_toa d = 0"
    and "sms_deliver_scts_encode year month day hour minute second tz = Some (sd_scts d)"
    and "\<forall>ch\<in>set cs. sms_deliver_gsm7_from_latin1 ch \<noteq> []" and "0x60 \<notin> set cs"
    and "sms_deliver_pack_gsm7 (concat (map sms_deliver_gsm7_from_latin1 cs))
      (length (concat (map sms_deliver_gsm7_from_latin1 cs))) 140 = Some (sd_ud d)"
    and "sd_ud_len d = of_nat (length (sd_ud d))"
    and "sd_udl d = of_nat (length (concat (map sms_deliver_gsm7_from_latin1 cs)))"
    and "\<not> sd_udhi d" "dcs_kind (sd_dcs d) = SMS_DCS_GSM7" "384 \<le> cap"
  shows "\<exists>hex. sms_deliver_build d cap = Some (hex, of_nat (length hex div 2 - 1)) \<and>
    sms_pdu_decode hex = Some (sms_message_zero\<lparr>sm_address := sd_address d, sm_pid := sd_pid d,
      sm_dcs := sd_dcs d,
      sm_timestamp := two_digits (ucast (year mod 100)) @ [47] @ two_digits month @ [47] @ two_digits day @ [44] @
        two_digits hour @ [58] @ two_digits minute @ [58] @ two_digits second,
      sm_text := concat (map (\<lambda>ch. utf8_bytes (ucast ch)) cs)\<rparr>) \<and>
    sms_deliver_gsm7_from_latin1 0x60 = [0x60] \<and> gsm7_text False [0x60] = utf8_bytes 0xBF"
proof -
  let ?codes = "concat (map sms_deliver_gsm7_from_latin1 cs)"
  note l0 = latin1_texts [OF assms(5)]
  have "map (\<lambda>ch. utf8_bytes (if ch = 0x60 then 0xBF else ucast ch)) cs = map (\<lambda>ch. utf8_bytes (ucast ch)) cs"
    using assms(6) by (intro map_cong) auto
  note l = l0 [unfolded this]
  have accent: "sms_deliver_gsm7_from_latin1 0x60 = [0x60]" "gsm7_text False [0x60] = utf8_bytes 0xBF"
    by code_simp+
  have "map (\<lambda>c. c AND 0x7f) ?codes = ?codes"
  proof (rule map_idI)
    fix c assume "c \<in> set ?codes"
    then have c: "take_bit 7 c = c"
      using l by (intro septet_take_bit) blast
    have m: "(0x7f :: u8) = mask 7"
      by (simp add: mask_eq_exp_minus_1)
    show "c AND 0x7f = c"
      unfolding m take_bit_eq_mask [symmetric] by (rule c)
  qed
  then have ud: "sd_ud d = pack_septets ?codes" "septet_bytes (length ?codes) \<le> 140"
    using assms(7) by (simp_all add: sms_deliver_pack_gsm7_def split: if_splits)
  have n: "length ?codes \<le> MODEM_SMS_TEXT_MAX"
    using ud(2) unfolding septet_bytes_def by linarith
  have len: "unat (sd_ud_len d) = length (sd_ud d)" "length (sd_ud d) \<le> 140"
    using ud by (simp_all add: assms(8) unat_of_nat)
  have "decode_user_data (sd_ud d) (sd_udl d) (sd_udhi d) (sd_dcs d) m =
      Some (m\<lparr>sm_text := gsm7_text False ?codes\<rparr>)" if "\<not> sm_trailing_data m" for m
    using decode_packed_text [OF conjunct1 [OF l] n that assms(11)] assms(10) by (simp add: ud(1) assms(9))
  then show ?thesis
    using deliver_pdu_decodes [of d cap] assms(1-3,12) scts_decodes [OF assms(4)] len l accent
    by (simp add: sms_message_zero_def)
qed

section \<open>Samples\<close>

text \<open>The second segment of a 200-byte smart message to \<open>+4512\<close>, and a stored text \<open>Hi[\<close>.\<close>

definition sample_submit :: sms_submit_pdu where
  "sample_submit = \<lparr>sp_number = [43, 52, 53, 49, 50], sp_payload = replicate 200 7, sp_payload_len = 200,
     sp_position = 128, sp_dest_port = 0x158a, sp_source_port = 0, sp_mode = MODEM_BINARY_SMS_MODE_F5_PORT_FIRST,
     sp_segment = 2, sp_segment_total = 2, sp_reference = 9\<rparr>"

theorem submit_pdu_decodes_witness:
  "\<exists>hex. sms_submit_pdu_build sample_submit 384 =
       Some (advance_segment sample_submit, hex, Some (of_nat (length hex div 2 - 1))) \<and>
     sms_pdu_decode hex = Some (submit_message sample_submit)"
  using submit_pdu_decodes [of sample_submit 384]
  by (simp add: sample_submit_def phone_number_def strip_plus_def)

definition sample_deliver :: sms_deliver where
  "sample_deliver = \<lparr>sd_address = [43, 52, 53], sd_toa = 0,
     sd_scts = the (sms_deliver_scts_encode 2026 11 19 4 11 0 (- 20)), sd_pid = 0, sd_dcs = 0, sd_udhi = False,
     sd_wdp = False, sd_udl = 4, sd_ud = pack_septets [72, 105, 0x1b, 0x3c], sd_ud_len = 4\<rparr>"

theorem stored_text_reads_back_witness:
  "\<exists>hex. sms_deliver_build sample_deliver 384 = Some (hex, of_nat (length hex div 2 - 1)) \<and>
     sms_pdu_decode hex = Some (sms_message_zero\<lparr>sm_address := [43, 52, 53], sm_pid := 0, sm_dcs := 0,
       sm_timestamp := two_digits (ucast (2026 mod 100 :: u16)) @ [47] @ two_digits 11 @ [47] @ two_digits 19 @ [44] @
         two_digits 4 @ [58] @ two_digits 11 @ [58] @ two_digits 0,
       sm_text := concat (map (\<lambda>ch. utf8_bytes (ucast ch)) [72, 105, 91 :: u8])\<rparr>)"
proof -
  have codes: "concat (map sms_deliver_gsm7_from_latin1 [72, 105, 91]) = [72, 105, 0x1b, 0x3c]"
    "\<forall>ch\<in>set [72, 105, 91]. sms_deliver_gsm7_from_latin1 ch \<noteq> []"
    "sms_deliver_pack_gsm7 [72, 105, 0x1b, 0x3c] (Suc (Suc (Suc (Suc 0)))) 140 =
      Some (pack_septets [72, 105, 0x1b, 0x3c])"
    "septet_bytes (Suc (Suc (Suc (Suc 0)))) = 4" "dcs_kind 0 = SMS_DCS_GSM7"
    by code_simp+
  have scts: "sms_deliver_scts_encode 2026 11 19 4 11 0 (- 20) = Some (sd_scts sample_deliver)"
    by (simp add: sample_deliver_def sms_deliver_scts_encode_def Let_def)
  have "\<exists>hex. sms_deliver_build sample_deliver 384 = Some (hex, of_nat (length hex div 2 - 1)) \<and>
     sms_pdu_decode hex = Some (sms_message_zero\<lparr>sm_address := sd_address sample_deliver,
       sm_pid := sd_pid sample_deliver, sm_dcs := sd_dcs sample_deliver,
       sm_timestamp := two_digits (ucast (2026 mod 100 :: u16)) @ [47] @ two_digits 11 @ [47] @ two_digits 19 @ [44] @
         two_digits 4 @ [58] @ two_digits 11 @ [58] @ two_digits 0,
       sm_text := concat (map (\<lambda>ch. utf8_bytes (ucast ch)) [72, 105, 91 :: u8])\<rparr>) \<and>
     sms_deliver_gsm7_from_latin1 0x60 = [0x60] \<and> gsm7_text False [0x60] = utf8_bytes 0xBF"
    by (rule stored_text_reads_back [OF _ _ _ scts codes(2)], unfold codes(1))
      (simp_all add: codes(3-5) sample_deliver_def address_is_numeric_def strip_plus_def bcd_digit_def)
  then show ?thesis
    by (auto simp only: sample_deliver_def sms_deliver.simps)
qed

end
