(* ===== verification/Sms_State.thy ===== *)
theory Sms_State
  imports Sms_Submit
begin

text \<open>
  The send-transport state of \<open>services/modem_sms_state.c\<close>: the reserved request identity, the
  one-slot result, and the progress of a binary send.  The static variables are the fields of one
  record; \<open>out\<close> pointers of the callers are never NULL, and a function that answers false with its
  output untouched returns None.
\<close>

datatype modem_sms_request_kind =
  MODEM_SMS_REQUEST_NONE | MODEM_SMS_REQUEST_SEND_TEXT | MODEM_SMS_REQUEST_SEND_BINARY

datatype modem_sms_outcome =
    MODEM_SMS_OUTCOME_NONE | MODEM_SMS_OUTCOME_OK | MODEM_SMS_OUTCOME_ERROR | MODEM_SMS_OUTCOME_TIMEOUT
  | MODEM_SMS_OUTCOME_CANCELLED | MODEM_SMS_OUTCOME_EVICTED | MODEM_SMS_OUTCOME_UNCERTAIN

record modem_sms_send_result =
  sr_request_id :: u32
  sr_kind :: modem_sms_request_kind
  sr_outcome :: modem_sms_outcome

record sms_state =
  ss_binary_body :: "u8 list"
  ss_binary_position :: u16
  ss_binary_segment :: u8
  ss_binary_segment_total :: u8
  ss_binary_reference :: u8
  ss_binary_send_ok :: bool
  ss_send_result :: modem_sms_send_result
  ss_send_result_pending :: bool
  ss_next_request_id :: u32
  ss_reserved_request_id :: u32
  ss_reserved_kind :: modem_sms_request_kind

abbreviation "SMS_SUBMIT_PDU_HEX_MAX \<equiv> 384 :: nat"

definition no_send_result :: modem_sms_send_result where
  "no_send_result = \<lparr>sr_request_id = 0, sr_kind = MODEM_SMS_REQUEST_NONE, sr_outcome = MODEM_SMS_OUTCOME_NONE\<rparr>"

section \<open>Requests and results\<close>

definition send_kind :: "modem_sms_request_kind \<Rightarrow> bool" where
  "send_kind kind \<longleftrightarrow> kind = MODEM_SMS_REQUEST_SEND_TEXT \<or> kind = MODEM_SMS_REQUEST_SEND_BINARY"

definition claim_terminal :: "u32 \<Rightarrow> modem_sms_request_kind \<Rightarrow> sms_state \<Rightarrow> sms_state \<times> bool" where
  "claim_terminal rid kind st =
     (if rid = 0 \<or> \<not> send_kind kind \<or> ss_reserved_request_id st \<noteq> rid \<or> ss_reserved_kind st \<noteq> kind
      then (st, False)
      else (st\<lparr>ss_reserved_request_id := 0, ss_reserved_kind := MODEM_SMS_REQUEST_NONE\<rparr>, True))"

definition modem_sms_state_init :: "sms_state \<Rightarrow> sms_state" where
  "modem_sms_state_init st =
     st\<lparr>ss_send_result := no_send_result, ss_send_result_pending := False, ss_reserved_request_id := 0,
        ss_reserved_kind := MODEM_SMS_REQUEST_NONE\<rparr>"

text \<open>\<open>do id++ while id == 0\<close>\<close>

definition next_request_id :: "u32 \<Rightarrow> u32" where
  "next_request_id rid = (let n = rid + 1 in if n = 0 then n + 1 else n)"

definition modem_sms_state_reserve_request ::
    "modem_sms_request_kind \<Rightarrow> sms_state \<Rightarrow> sms_state \<times> u32 option" where
  "modem_sms_state_reserve_request kind st =
     (if \<not> send_kind kind \<or> ss_reserved_request_id st \<noteq> 0 \<or> ss_send_result_pending st then (st, None)
      else
        (let n = next_request_id (ss_next_request_id st)
         in (st\<lparr>ss_next_request_id := n, ss_reserved_request_id := n, ss_reserved_kind := kind\<rparr>, Some n)))"

definition modem_sms_state_release_request ::
    "u32 \<Rightarrow> modem_sms_request_kind \<Rightarrow> sms_state \<Rightarrow> sms_state \<times> bool" where
  "modem_sms_state_release_request rid kind st = claim_terminal rid kind st"

definition modem_sms_state_publish_send_result ::
    "u32 \<Rightarrow> modem_sms_request_kind \<Rightarrow> modem_sms_outcome \<Rightarrow> sms_state \<Rightarrow> sms_state \<times> bool" where
  "modem_sms_state_publish_send_result rid kind outcome st =
     (if \<not> send_kind kind \<or> outcome = MODEM_SMS_OUTCOME_NONE then (st, False)
      else (case claim_terminal rid kind st of
              (st1, False) \<Rightarrow> (st1, False)
            | (st1, True) \<Rightarrow>
                (st1\<lparr>ss_send_result := \<lparr>sr_request_id = rid, sr_kind = kind, sr_outcome = outcome\<rparr>,
                     ss_send_result_pending := True\<rparr>, True)))"

definition modem_sms_state_pop_send_result :: "u32 \<Rightarrow> sms_state \<Rightarrow> sms_state \<times> modem_sms_send_result option" where
  "modem_sms_state_pop_send_result rid st =
     (if rid = 0 \<or> \<not> ss_send_result_pending st \<or> sr_request_id (ss_send_result st) \<noteq> rid then (st, None)
      else (st\<lparr>ss_send_result := no_send_result, ss_send_result_pending := False\<rparr>, Some (ss_send_result st)))"

section \<open>Binary sends\<close>

definition modem_sms_state_binary_begin :: "u16 \<Rightarrow> sms_state \<Rightarrow> sms_state" where
  "modem_sms_state_binary_begin payload_len st =
     (let total = of_nat ((unat payload_len + (MODEM_SMS_BINARY_CHUNK_MAX - 1)) div MODEM_SMS_BINARY_CHUNK_MAX) :: u8;
          reference = ss_binary_reference st + 1
      in st\<lparr>ss_binary_position := 0, ss_binary_segment := 1,
            ss_binary_segment_total := (if total = 0 then 1 else total),
            ss_binary_reference := (if reference = 0 then 1 else reference),
            ss_binary_send_ok := False\<rparr>)"

definition binary_submit ::
    "u8 list \<Rightarrow> u8 list \<Rightarrow> u16 \<Rightarrow> u16 \<Rightarrow> u16 \<Rightarrow> modem_binary_sms_mode \<Rightarrow> sms_state \<Rightarrow> sms_submit_pdu" where
  "binary_submit number payload payload_len dest_port source_port mode st =
     \<lparr>sp_number = number, sp_payload = payload, sp_payload_len = payload_len,
      sp_position = ss_binary_position st, sp_dest_port = dest_port, sp_source_port = source_port,
      sp_mode = mode, sp_segment = ss_binary_segment st, sp_segment_total = ss_binary_segment_total st,
      sp_reference = ss_binary_reference st\<rparr>"

definition modem_sms_state_binary_build_segment ::
    "u8 list \<Rightarrow> u8 list \<Rightarrow> u16 \<Rightarrow> u16 \<Rightarrow> u16 \<Rightarrow> modem_binary_sms_mode \<Rightarrow> sms_state \<Rightarrow> sms_state \<times> bool" where
  "modem_sms_state_binary_build_segment number payload payload_len dest_port source_port mode st =
     (case sms_submit_text_build (binary_submit number payload payload_len dest_port source_port mode st)
             (SMS_SUBMIT_PDU_HEX_MAX + 1) of
        None \<Rightarrow> (st, False)
      | Some (submit, body) \<Rightarrow>
          (st\<lparr>ss_binary_body := body, ss_binary_position := sp_position submit,
              ss_binary_segment := sp_segment submit\<rparr>, True))"

definition modem_sms_state_binary_segment_view :: "sms_state \<Rightarrow> u8 list \<times> u8 \<times> u8" where
  "modem_sms_state_binary_segment_view st =
     (ss_binary_body st, if 0 < ss_binary_segment st then ss_binary_segment st - 1 else 0,
      ss_binary_segment_total st)"

definition modem_sms_state_binary_has_more :: "u16 \<Rightarrow> sms_state \<Rightarrow> bool" where
  "modem_sms_state_binary_has_more payload_len st \<longleftrightarrow> ss_binary_position st < payload_len"

definition modem_sms_state_binary_set_send_ok :: "bool \<Rightarrow> sms_state \<Rightarrow> sms_state" where
  "modem_sms_state_binary_set_send_ok sent_ok st = st\<lparr>ss_binary_send_ok := sent_ok\<rparr>"

definition modem_sms_state_binary_send_ok :: "sms_state \<Rightarrow> bool" where
  "modem_sms_state_binary_send_ok st = ss_binary_send_ok st"

end
