(* ===== verification/Sms_Protocol.thy ===== *)
theory Sms_Protocol
  imports Sms_State
begin

text \<open>
  The send protocol of \<open>services/modem_sms_protocol.c\<close>: from a request to its AT commands, bodies and
  one terminal result.  A handler returns the new state and the actions it emitted through the hook,
  in order; what the hook answers matters for the body alone and is an argument there.  The request
  view may be NULL (None); the hooks never are.  \<open>encode_text\<close> is the vendor's encoder.
\<close>

section \<open>Data\<close>

datatype modem_sms_protocol_operation =
  MODEM_SMS_PROTOCOL_NONE | MODEM_SMS_PROTOCOL_SEND_TEXT | MODEM_SMS_PROTOCOL_SEND_BINARY

datatype modem_sms_command_kind =
    MODEM_SMS_COMMAND_BINARY_TEXT_SETUP | MODEM_SMS_COMMAND_CMGF_TEXT | MODEM_SMS_COMMAND_CMGS_PROMPT
  | MODEM_SMS_COMMAND_CMGS_FINAL | MODEM_SMS_COMMAND_TEXT_SETUP

record sms_request =
  rq_request_id :: u32
  rq_operation :: modem_sms_protocol_operation
  rq_number :: "u8 list"
  rq_text :: "u8 list option"
  rq_binary :: "u8 list option"
  rq_binary_len :: u16
  rq_dest_port :: u16
  rq_source_port :: u16
  rq_binary_mode :: modem_binary_sms_mode

record modem_sms_text =
  tx_body :: "u8 list"
  tx_length :: nat
  tx_dcs :: u8
  tx_multipart :: bool

text \<open>Actions: the fields of each union member in the order of the struct.\<close>

datatype sms_action =
    ACTION_COMMAND (act_kind: modem_sms_command_kind) "u8 list" u32 u32 bool bool
  | ACTION_BODY "u8 list" nat modem_sms_command_kind u32 u32 bool u8 u8
  | ACTION_ABORT_PROMPT u32 bool
  | ACTION_PUBLISH_SEND u32 modem_sms_request_kind modem_sms_outcome
  | ACTION_INCREMENT_SENT
  | ACTION_COMPLETE u32 modem_sms_request_kind modem_sms_outcome bool

record sms_protocol_state =
  pr_payload_submitted :: bool
  pr_send_confirmed :: bool
  pr_binary_segments_accepted :: u8
  pr_send_outcome :: modem_sms_outcome
  pr_text_parameters_dirty :: bool

record sms_link =
  lk_protocol :: sms_protocol_state
  lk_text :: modem_sms_text
  lk_state :: sms_state

type_synonym sms_effect = "sms_link \<times> sms_action list"

abbreviation "MODEM_SMS_BINARY_RESULT_TIMEOUT_MS \<equiv> 120000 :: u32"

definition protocol_zero :: sms_protocol_state where
  "protocol_zero = \<lparr>pr_payload_submitted = False, pr_send_confirmed = False, pr_binary_segments_accepted = 0,
     pr_send_outcome = MODEM_SMS_OUTCOME_NONE, pr_text_parameters_dirty = False\<rparr>"

definition text_zero :: modem_sms_text where
  "text_zero = \<lparr>tx_body = [], tx_length = 0, tx_dcs = 0, tx_multipart = False\<rparr>"

definition upd_pr :: "(sms_protocol_state \<Rightarrow> sms_protocol_state) \<Rightarrow> sms_link \<Rightarrow> sms_link" where
  "upd_pr f lk = lk\<lparr>lk_protocol := f (lk_protocol lk)\<rparr>"

definition upd_ss :: "(sms_state \<Rightarrow> sms_state) \<Rightarrow> sms_link \<Rightarrow> sms_link" where
  "upd_ss f lk = lk\<lparr>lk_state := f (lk_state lk)\<rparr>"

definition request_kind :: "sms_request option \<Rightarrow> modem_sms_request_kind" where
  "request_kind r =
     (case r of
        None \<Rightarrow> MODEM_SMS_REQUEST_NONE
      | Some q \<Rightarrow> (case rq_operation q of
                     MODEM_SMS_PROTOCOL_SEND_TEXT \<Rightarrow> MODEM_SMS_REQUEST_SEND_TEXT
                   | MODEM_SMS_PROTOCOL_SEND_BINARY \<Rightarrow> MODEM_SMS_REQUEST_SEND_BINARY
                   | MODEM_SMS_PROTOCOL_NONE \<Rightarrow> MODEM_SMS_REQUEST_NONE))"

definition request_valid :: "sms_request option \<Rightarrow> bool" where
  "request_valid r \<longleftrightarrow>
     (case r of
        None \<Rightarrow> False
      | Some q \<Rightarrow> rq_request_id q \<noteq> 0 \<and> rq_number q \<noteq> [] \<and>
          (rq_operation q = MODEM_SMS_PROTOCOL_SEND_TEXT \<and> rq_text q \<noteq> None \<or>
           rq_operation q = MODEM_SMS_PROTOCOL_SEND_BINARY \<and> rq_binary q \<noteq> None \<and> rq_binary_len q \<noteq> 0))"

section \<open>Emission\<close>

definition request_id_of :: "sms_request option \<Rightarrow> u32" where
  "request_id_of r = (case r of None \<Rightarrow> 0 | Some q \<Rightarrow> rq_request_id q)"

definition emit_complete :: "sms_request option \<Rightarrow> modem_sms_outcome \<Rightarrow> bool \<Rightarrow> sms_action" where
  "emit_complete r outcome command_ok = ACTION_COMPLETE (request_id_of r) (request_kind r) outcome command_ok"

definition emit_send_result :: "sms_request option \<Rightarrow> modem_sms_outcome \<Rightarrow> sms_action" where
  "emit_send_result r outcome = ACTION_PUBLISH_SEND (request_id_of r) (request_kind r) outcome"

definition restore_text_parameters :: "u32 \<Rightarrow> modem_sms_outcome \<Rightarrow> sms_link \<Rightarrow> sms_effect" where
  "restore_text_parameters now_ms outcome lk =
     (upd_ss (modem_sms_state_binary_set_send_ok (outcome = MODEM_SMS_OUTCOME_OK))
        (upd_pr (\<lambda>p. p\<lparr>pr_send_outcome := outcome\<rparr>) lk),
      [ACTION_COMMAND MODEM_SMS_COMMAND_CMGF_TEXT (ascii ''AT+CMGF=1;+CSMP=17,167,0,0'') 5000 now_ms False False])"

definition binary_setup_command :: "sms_request \<Rightarrow> u8 \<Rightarrow> u8 list" where
  "binary_setup_command q segment_total =
     (let gsm7 = (rq_binary_mode q = MODEM_BINARY_SMS_MODE_GSM7_TEXT);
          udh = (\<not> gsm7 \<and> (rq_dest_port q \<noteq> 0 \<or> rq_source_port q \<noteq> 0 \<or> 1 < segment_total));
          dcs = (if gsm7 then 0
                 else if rq_binary_mode q = MODEM_BINARY_SMS_MODE_F5_PORT_FIRST \<or>
                         rq_binary_mode q = MODEM_BINARY_SMS_MODE_F5_CONCAT_FIRST_VP then 245 else 4)
      in take 47 (ascii ''AT+CMGF=1;+CSMP='' @ decimal (if udh then 81 else 17) @ ascii '',167,0,'' @ decimal dcs))"

definition binary_start :: "sms_request \<Rightarrow> u32 \<Rightarrow> sms_link \<Rightarrow> sms_effect" where
  "binary_start q now_ms lk =
     (let lk1 = upd_ss (modem_sms_state_binary_begin (rq_binary_len q)) lk;
          lk2 = upd_pr (\<lambda>p. p\<lparr>pr_payload_submitted := False, pr_send_confirmed := False,
                             pr_binary_segments_accepted := 0, pr_send_outcome := MODEM_SMS_OUTCOME_NONE\<rparr>) lk1
      in (lk2, [ACTION_COMMAND MODEM_SMS_COMMAND_BINARY_TEXT_SETUP
                  (binary_setup_command q (ss_binary_segment_total (lk_state lk1))) 5000 now_ms False False]))"

definition lost_or :: "modem_sms_outcome \<Rightarrow> sms_link \<Rightarrow> modem_sms_outcome" where
  "lost_or outcome lk =
     (if pr_binary_segments_accepted (lk_protocol lk) \<noteq> 0 then MODEM_SMS_OUTCOME_UNCERTAIN else outcome)"

definition prompt_command :: "sms_request \<Rightarrow> nat \<Rightarrow> u32 \<Rightarrow> sms_action" where
  "prompt_command q cap now_ms =
     ACTION_COMMAND MODEM_SMS_COMMAND_CMGS_PROMPT
       (sms_submit_format_text_command cap (ascii ''AT+CMGS'') (rq_number q) False) 5000 now_ms False False"

definition binary_start_segment :: "sms_request \<Rightarrow> u32 \<Rightarrow> sms_link \<Rightarrow> sms_effect" where
  "binary_start_segment q now_ms lk =
     (case modem_sms_state_binary_build_segment (rq_number q) (the (rq_binary q)) (rq_binary_len q)
             (rq_dest_port q) (rq_source_port q) (rq_binary_mode q) (lk_state lk) of
        (ss, built) \<Rightarrow>
          if \<not> built
          then restore_text_parameters now_ms (lost_or MODEM_SMS_OUTCOME_ERROR lk) (upd_ss (\<lambda>_. ss) lk)
          else (upd_ss (\<lambda>_. ss) lk, [prompt_command q 80 now_ms]))"

section \<open>Operations\<close>

definition modem_sms_protocol_init :: "sms_link \<Rightarrow> sms_link" where
  "modem_sms_protocol_init lk = lk\<lparr>lk_protocol := protocol_zero, lk_text := text_zero\<rparr>"

definition modem_sms_protocol_resume_after_wake :: "sms_request option \<Rightarrow> u32 \<Rightarrow> sms_link \<Rightarrow> sms_effect" where
  "modem_sms_protocol_resume_after_wake r now_ms lk =
     (if \<not> request_valid r \<or> rq_operation (the r) \<noteq> MODEM_SMS_PROTOCOL_SEND_TEXT
      then (lk, [emit_complete r MODEM_SMS_OUTCOME_ERROR False])
      else (lk, [prompt_command (the r) 72 now_ms]))"

definition modem_sms_protocol_begin ::
    "(u8 list \<Rightarrow> modem_sms_text option) \<Rightarrow> sms_request option \<Rightarrow> u32 \<Rightarrow> sms_link \<Rightarrow>
     sms_link \<times> sms_action list \<times> bool" where
  "modem_sms_protocol_begin encode_text r now_ms lk =
     (if \<not> request_valid r then (lk, [], False)
      else
        (let lk1 = lk\<lparr>lk_protocol := protocol_zero, lk_text := text_zero\<rparr>; q = the r
         in if rq_operation q = MODEM_SMS_PROTOCOL_SEND_TEXT \<and> encode_text (the (rq_text q)) = None
            then (lk1, [], False)
            else if rq_operation q = MODEM_SMS_PROTOCOL_SEND_BINARY
            then (case binary_start q now_ms lk1 of (lk2, acts) \<Rightarrow> (lk2, acts, True))
            else
              (let tx = the (encode_text (the (rq_text q))); lk2 = lk1\<lparr>lk_text := tx\<rparr>
               in if tx_dcs tx \<noteq> 0
                  then (lk2, [ACTION_COMMAND MODEM_SMS_COMMAND_TEXT_SETUP
                                (take 47 (ascii ''AT+CMGF=1;+CSMP=17,167,0,'' @ decimal (unat (tx_dcs tx))))
                                5000 now_ms False False], True)
                  else (case modem_sms_protocol_resume_after_wake r now_ms lk2 of
                          (lk3, acts) \<Rightarrow> (lk3, acts, True)))))"

definition modem_sms_protocol_resume_after_prompt_abort ::
    "sms_request option \<Rightarrow> u32 \<Rightarrow> sms_link \<Rightarrow> sms_effect" where
  "modem_sms_protocol_resume_after_prompt_abort r now_ms lk =
     (if r \<noteq> None \<and> (rq_operation (the r) = MODEM_SMS_PROTOCOL_SEND_BINARY \<or>
                      pr_text_parameters_dirty (lk_protocol lk))
      then restore_text_parameters now_ms
             (if pr_send_outcome (lk_protocol lk) = MODEM_SMS_OUTCOME_NONE then MODEM_SMS_OUTCOME_TIMEOUT
              else pr_send_outcome (lk_protocol lk)) lk
      else (lk, [emit_complete r MODEM_SMS_OUTCOME_ERROR False]))"

text \<open>\<open>emitted\<close> is what the hook answers to the body.\<close>

definition modem_sms_protocol_on_prompt ::
    "modem_sms_command_kind \<Rightarrow> sms_request option \<Rightarrow> u32 \<Rightarrow> bool \<Rightarrow> sms_link \<Rightarrow>
     sms_link \<times> sms_action list \<times> bool" where
  "modem_sms_protocol_on_prompt kind r now_ms emitted lk =
     (if \<not> request_valid r \<or> kind \<noteq> MODEM_SMS_COMMAND_CMGS_PROMPT then (lk, [], False)
      else
        (let binary = (rq_operation (the r) = MODEM_SMS_PROTOCOL_SEND_BINARY);
             timeout = (if binary \<or> tx_multipart (lk_text lk) then MODEM_SMS_BINARY_RESULT_TIMEOUT_MS else 30000);
             (body, segment, total) = modem_sms_state_binary_segment_view (lk_state lk);
             action = (if binary
                       then ACTION_BODY body (length body) MODEM_SMS_COMMAND_CMGS_FINAL timeout now_ms True segment total
                       else ACTION_BODY (tx_body (lk_text lk)) (tx_length (lk_text lk))
                              MODEM_SMS_COMMAND_CMGS_FINAL timeout now_ms False 0 0)
         in (if emitted then upd_pr (\<lambda>p. p\<lparr>pr_payload_submitted := True\<rparr>) lk else lk, [action], emitted)))"

definition modem_sms_protocol_command_dispatched :: "modem_sms_command_kind \<Rightarrow> sms_link \<Rightarrow> sms_link" where
  "modem_sms_protocol_command_dispatched kind lk =
     (if kind = MODEM_SMS_COMMAND_BINARY_TEXT_SETUP \<or> kind = MODEM_SMS_COMMAND_TEXT_SETUP
      then upd_pr (\<lambda>p. p\<lparr>pr_text_parameters_dirty := True\<rparr>) lk else lk)"

definition modem_sms_protocol_text_parameters_dirty :: "sms_link \<Rightarrow> bool" where
  "modem_sms_protocol_text_parameters_dirty lk = pr_text_parameters_dirty (lk_protocol lk)"

definition finish_after_restore :: "sms_request option \<Rightarrow> bool \<Rightarrow> sms_link \<Rightarrow> sms_action list" where
  "finish_after_restore r restored lk =
     (let outcome = (if pr_send_outcome (lk_protocol lk) = MODEM_SMS_OUTCOME_NONE then MODEM_SMS_OUTCOME_ERROR
                     else pr_send_outcome (lk_protocol lk))
      in (if outcome = MODEM_SMS_OUTCOME_OK then [ACTION_INCREMENT_SENT] else []) @
         [emit_send_result r outcome, emit_complete r outcome (outcome = MODEM_SMS_OUTCOME_OK \<and> restored)])"

text \<open>\<open>CMGS_FINAL\<close> of a binary segment, and of a text.\<close>

definition on_segment_final :: "bool \<Rightarrow> sms_request \<Rightarrow> u32 \<Rightarrow> sms_link \<Rightarrow> sms_effect" where
  "on_segment_final ok q now_ms lk =
     (if \<not> ok then restore_text_parameters now_ms (lost_or MODEM_SMS_OUTCOME_ERROR lk) lk
      else
        (let lk1 = upd_pr (\<lambda>p. p\<lparr>pr_binary_segments_accepted := pr_binary_segments_accepted p + 1\<rparr>) lk
         in if modem_sms_state_binary_has_more (rq_binary_len q) (lk_state lk1)
            then binary_start_segment q now_ms lk1
            else restore_text_parameters now_ms MODEM_SMS_OUTCOME_OK (upd_pr (\<lambda>p. p\<lparr>pr_send_confirmed := True\<rparr>) lk1)))"

definition on_text_final :: "bool \<Rightarrow> sms_request option \<Rightarrow> u32 \<Rightarrow> sms_link \<Rightarrow> sms_effect" where
  "on_text_final ok r now_ms lk =
     (let lk1 = upd_pr (\<lambda>p. p\<lparr>pr_send_confirmed := ok\<rparr>) lk
      in if pr_text_parameters_dirty (lk_protocol lk1)
         then restore_text_parameters now_ms
                (if ok then MODEM_SMS_OUTCOME_OK
                 else if tx_multipart (lk_text lk1) then MODEM_SMS_OUTCOME_UNCERTAIN
                 else MODEM_SMS_OUTCOME_ERROR) lk1
         else (lk1, (if ok then [ACTION_INCREMENT_SENT] else []) @
                [emit_send_result r (if ok then MODEM_SMS_OUTCOME_OK else MODEM_SMS_OUTCOME_ERROR),
                 emit_complete r (if ok then MODEM_SMS_OUTCOME_OK else MODEM_SMS_OUTCOME_ERROR) ok]))"

definition modem_sms_protocol_on_final ::
    "modem_sms_command_kind \<Rightarrow> bool \<Rightarrow> sms_request option \<Rightarrow> u32 \<Rightarrow> sms_link \<Rightarrow> sms_effect" where
  "modem_sms_protocol_on_final kind ok r now_ms lk =
     (if \<not> request_valid r then (lk, [emit_complete r MODEM_SMS_OUTCOME_ERROR False])
      else
        (let lk1 = (if kind = MODEM_SMS_COMMAND_CMGF_TEXT \<and> ok
                    then upd_pr (\<lambda>p. p\<lparr>pr_text_parameters_dirty := False\<rparr>) lk else lk);
             q = the r; binary = (rq_operation q = MODEM_SMS_PROTOCOL_SEND_BINARY)
         in case kind of
              MODEM_SMS_COMMAND_TEXT_SETUP \<Rightarrow>
                if ok then modem_sms_protocol_resume_after_wake r now_ms lk1
                else restore_text_parameters now_ms MODEM_SMS_OUTCOME_ERROR lk1
            | MODEM_SMS_COMMAND_BINARY_TEXT_SETUP \<Rightarrow>
                if ok then binary_start_segment q now_ms lk1
                else restore_text_parameters now_ms MODEM_SMS_OUTCOME_ERROR lk1
            | MODEM_SMS_COMMAND_CMGF_TEXT \<Rightarrow> (lk1, finish_after_restore r ok lk1)
            | MODEM_SMS_COMMAND_CMGS_PROMPT \<Rightarrow>
                if binary \<or> pr_text_parameters_dirty (lk_protocol lk1)
                then restore_text_parameters now_ms (lost_or MODEM_SMS_OUTCOME_ERROR lk1) lk1
                else (lk1, [emit_send_result r MODEM_SMS_OUTCOME_ERROR, emit_complete r MODEM_SMS_OUTCOME_ERROR False])
            | MODEM_SMS_COMMAND_CMGS_FINAL \<Rightarrow>
                (let lk2 = upd_pr (\<lambda>p. p\<lparr>pr_payload_submitted := False\<rparr>) lk1
                 in if binary then on_segment_final ok q now_ms lk2 else on_text_final ok r now_ms lk2)))"

definition modem_sms_protocol_on_timeout ::
    "modem_sms_command_kind \<Rightarrow> sms_request option \<Rightarrow> u32 \<Rightarrow> sms_link \<Rightarrow> sms_effect" where
  "modem_sms_protocol_on_timeout kind r now_ms lk =
     (if \<not> request_valid r then (lk, [emit_complete r MODEM_SMS_OUTCOME_ERROR False])
      else
        (let restore = (rq_operation (the r) = MODEM_SMS_PROTOCOL_SEND_BINARY \<or>
                        pr_text_parameters_dirty (lk_protocol lk));
             prompt = (kind = MODEM_SMS_COMMAND_CMGS_PROMPT);
             outcome = (if kind = MODEM_SMS_COMMAND_CMGS_FINAL then MODEM_SMS_OUTCOME_UNCERTAIN
                        else MODEM_SMS_OUTCOME_TIMEOUT);
             abort = (if prompt then [ACTION_ABORT_PROMPT now_ms restore] else [])
         in if prompt \<and> restore
            then (upd_pr (\<lambda>p. p\<lparr>pr_send_outcome := lost_or MODEM_SMS_OUTCOME_TIMEOUT lk\<rparr>) lk, abort)
            else if restore \<and> kind = MODEM_SMS_COMMAND_CMGF_TEXT then (lk, finish_after_restore r False lk)
            else if restore then restore_text_parameters now_ms outcome lk
            else (lk, abort @ [emit_send_result r outcome, emit_complete r outcome False])))"

definition modem_sms_protocol_cancel_outcome :: "sms_request option \<Rightarrow> sms_link \<Rightarrow> modem_sms_outcome" where
  "modem_sms_protocol_cancel_outcome r lk =
     (let p = lk_protocol lk
      in if \<not> request_valid r then MODEM_SMS_OUTCOME_CANCELLED
         else if pr_send_confirmed p \<or> pr_send_outcome p = MODEM_SMS_OUTCOME_OK then MODEM_SMS_OUTCOME_OK
         else if pr_payload_submitted p \<or> pr_binary_segments_accepted p \<noteq> 0 then MODEM_SMS_OUTCOME_UNCERTAIN
         else MODEM_SMS_OUTCOME_CANCELLED)"

definition modem_sms_protocol_cancel :: "sms_link \<Rightarrow> sms_link" where
  "modem_sms_protocol_cancel lk =
     (upd_ss (modem_sms_state_binary_set_send_ok False) lk)\<lparr>lk_protocol := protocol_zero\<rparr>"

end
