(* ===== verification/Sms_Session.thy ===== *)
theory Sms_Session
  imports Sms_Roundtrip Sms_Protocol
begin

text \<open>
  Whole sends: the protocol of \<open>Sms_Protocol\<close> driven as \<open>services/modem_service.c\<close> drives it, with one
  command outstanding, whose prompt, final result or timeout is the next event, in any order the modem
  chooses.  A session ends, it reports one result, and the result is honest about what crossed the wire.
\<close>

section \<open>Sessions\<close>

datatype sms_wait = Waiting modem_sms_command_kind | Settling | Finished

fun wait_after :: "sms_action list \<Rightarrow> sms_wait \<Rightarrow> sms_wait" where
  "wait_after [] w = w"
| "wait_after (ACTION_COMMAND k _ _ _ _ _ # acts) w = wait_after acts (Waiting k)"
| "wait_after (ACTION_BODY _ _ k _ _ _ _ _ # acts) w = wait_after acts (Waiting k)"
| "wait_after (ACTION_ABORT_PROMPT _ restore # acts) w = wait_after acts (if restore then Settling else w)"
| "wait_after (ACTION_COMPLETE _ _ _ _ # acts) w = wait_after acts Finished"
| "wait_after (_ # acts) w = wait_after acts w"

record sms_session =
  sn_link :: sms_link
  sn_wait :: sms_wait
  sn_log :: "sms_action list"
  sn_accepted :: nat

definition advance :: "sms_session \<Rightarrow> sms_link \<Rightarrow> sms_action list \<Rightarrow> sms_session" where
  "advance s lk acts = s\<lparr>sn_link := lk, sn_wait := wait_after acts (sn_wait s), sn_log := sn_log s @ acts\<rparr>"

text \<open>\<open>sms_run enc r n s\<close>: the session \<open>s\<close> of request \<open>r\<close> after \<open>n\<close> events of the modem.\<close>

inductive sms_run ::
    "(u8 list \<Rightarrow> modem_sms_text option) \<Rightarrow> sms_request \<Rightarrow> nat \<Rightarrow> sms_session \<Rightarrow> bool"
  for enc r where
  start: "modem_sms_protocol_begin enc (Some r) now lk = (lk', acts, True) \<Longrightarrow>
    sms_run enc r 0 \<lparr>sn_link = lk', sn_wait = wait_after acts Finished, sn_log = acts, sn_accepted = 0\<rparr>"
| dispatched: "sms_run enc r n s \<Longrightarrow> sn_wait s = Waiting k \<Longrightarrow>
    sms_run enc r n (s\<lparr>sn_link := modem_sms_protocol_command_dispatched k (sn_link s)\<rparr>)"
| prompt: "sms_run enc r n s \<Longrightarrow> sn_wait s = Waiting k \<Longrightarrow>
    modem_sms_protocol_on_prompt k (Some r) now True (sn_link s) = (lk', acts, True) \<Longrightarrow>
    sms_run enc r (n + 1) (advance s lk' acts)"
| final: "sms_run enc r n s \<Longrightarrow> sn_wait s = Waiting k \<Longrightarrow>
    modem_sms_protocol_on_final k ok (Some r) now (sn_link s) = (lk', acts) \<Longrightarrow>
    sms_run enc r (n + 1) (advance (s\<lparr>sn_accepted :=
      (if k = MODEM_SMS_COMMAND_CMGS_FINAL \<and> ok then sn_accepted s + 1 else sn_accepted s)\<rparr>) lk' acts)"
| timeout: "sms_run enc r n s \<Longrightarrow> sn_wait s = Waiting k \<Longrightarrow>
    modem_sms_protocol_on_timeout k (Some r) now (sn_link s) = (lk', acts) \<Longrightarrow>
    sms_run enc r (n + 1) (advance s lk' acts)"
| settled: "sms_run enc r n s \<Longrightarrow> sn_wait s = Settling \<Longrightarrow>
    modem_sms_protocol_resume_after_prompt_abort (Some r) now (sn_link s) = (lk', acts) \<Longrightarrow>
    sms_run enc r (n + 1) (advance s lk' acts)"

lemma begin_valid: "modem_sms_protocol_begin enc (Some r) now lk = (lk', acts, True) \<Longrightarrow> request_valid (Some r)"
  by (simp add: modem_sms_protocol_begin_def split: if_splits)

lemma sms_run_valid: "sms_run enc r n s \<Longrightarrow> request_valid (Some r)"
  by (induction rule: sms_run.induct) (auto dest: begin_valid)

lemma valid_operation:
  "request_valid (Some r) \<Longrightarrow>
   rq_operation r = MODEM_SMS_PROTOCOL_SEND_TEXT \<or> rq_operation r = MODEM_SMS_PROTOCOL_SEND_BINARY"
  by (auto simp add: request_valid_def)

section \<open>Building a segment advances the send\<close>

lemma text_build_advances:
  assumes "sms_submit_text_build s cap = Some (s', body)"
  shows "s' = advance_segment s \<and> sp_position s < sp_payload_len s"
  using assms
  by (auto simp add: sms_submit_text_build_def build_segment_def Let_def not_le split: if_splits option.splits)

lemma advance_position:
  assumes "sp_position s < sp_payload_len s"
  shows "unat (sp_position (advance_segment s)) = unat (sp_position s) + chunk_length s"
    "chunk_length s = min MODEM_SMS_BINARY_CHUNK_MAX (unat (sp_payload_len s) - unat (sp_position s))"
    "0 < chunk_length s"
proof -
  have lt: "unat (sp_position s) < unat (sp_payload_len s)"
    using assms by (simp add: word_less_nat_alt)
  have r: "unat (sp_payload_len s - sp_position s) = unat (sp_payload_len s) - unat (sp_position s)"
    using assms by (simp add: unat_sub order_less_imp_le)
  show c: "chunk_length s = min MODEM_SMS_BINARY_CHUNK_MAX (unat (sp_payload_len s) - unat (sp_position s))"
    by (simp add: chunk_length_def Let_def r min_def)
  then show "0 < chunk_length s"
    using lt by simp
  have "unat (sp_payload_len s) < 2 ^ LENGTH(16)"
    by (rule unsigned_less)
  then have "unat (sp_position s) + chunk_length s < 2 ^ 16"
    using c lt by simp
  then show "unat (sp_position (advance_segment s)) = unat (sp_position s) + chunk_length s"
    by (simp add: advance_segment_def unat_word_ariths unat_of_nat)
qed

section \<open>Termination\<close>

definition send_weight :: "sms_request \<Rightarrow> sms_link \<Rightarrow> sms_wait \<Rightarrow> nat" where
  "send_weight r lk w =
     (let left = unat (rq_binary_len r) - unat (ss_binary_position (lk_state lk))
      in case w of
           Finished \<Rightarrow> 0
         | Settling \<Rightarrow> 2
         | Waiting MODEM_SMS_COMMAND_CMGF_TEXT \<Rightarrow> 1
         | Waiting MODEM_SMS_COMMAND_CMGS_PROMPT \<Rightarrow> 2 * left + 4
         | Waiting MODEM_SMS_COMMAND_CMGS_FINAL \<Rightarrow> 2 * left + 3
         | Waiting _ \<Rightarrow> 2 * unat (rq_binary_len r) + 5)"

lemma restore_waits:
  "restore_text_parameters now outcome lk = (lk', acts) \<Longrightarrow> wait_after acts w = Waiting MODEM_SMS_COMMAND_CMGF_TEXT"
  by (auto simp add: restore_text_parameters_def)

lemma restore_weight:
  "restore_text_parameters now outcome lk = (lk', acts) \<Longrightarrow> send_weight r lk' (wait_after acts w) = 1"
  by (simp add: restore_waits send_weight_def Let_def)

lemma build_segment_state:
  assumes "modem_sms_state_binary_build_segment num pl len dp sp mode ss = (ss', True)"
  shows "unat (ss_binary_position ss) < unat len"
    "unat (ss_binary_position ss') = unat (ss_binary_position ss) +
       min MODEM_SMS_BINARY_CHUNK_MAX (unat len - unat (ss_binary_position ss))"
proof -
  let ?s = "binary_submit num pl len dp sp mode ss"
  obtain s' body where b: "sms_submit_text_build ?s (SMS_SUBMIT_PDU_HEX_MAX + 1) = Some (s', body)"
    and ss': "ss' = ss\<lparr>ss_binary_body := body, ss_binary_position := sp_position s', ss_binary_segment := sp_segment s'\<rparr>"
    using assms by (auto simp add: modem_sms_state_binary_build_segment_def split: option.splits)
  note a = text_build_advances [OF b]
  have lt: "sp_position ?s < sp_payload_len ?s"
    using a by simp
  then show "unat (ss_binary_position ss) < unat len"
    by (simp add: binary_submit_def word_less_nat_alt)
  show "unat (ss_binary_position ss') = unat (ss_binary_position ss) +
       min MODEM_SMS_BINARY_CHUNK_MAX (unat len - unat (ss_binary_position ss))"
    using advance_position [OF lt] a by (simp add: ss' binary_submit_def)
qed

lemma start_segment_weight:
  assumes "binary_start_segment r now lk = (lk', acts)"
  shows "send_weight r lk' (wait_after acts w) = 1 \<or>
    send_weight r lk' (wait_after acts w) \<le>
      2 * (unat (rq_binary_len r) - unat (ss_binary_position (lk_state lk)) - 1) + 4 \<and>
    unat (ss_binary_position (lk_state lk)) < unat (rq_binary_len r)"
proof -
  obtain ss built where b: "modem_sms_state_binary_build_segment (rq_number r) (the (rq_binary r)) (rq_binary_len r)
      (rq_dest_port r) (rq_source_port r) (rq_binary_mode r) (lk_state lk) = (ss, built)"
    by fastforce
  show ?thesis
  proof (cases built)
    case True
    then have "lk' = upd_ss (\<lambda>_. ss) lk" "wait_after acts w = Waiting MODEM_SMS_COMMAND_CMGS_PROMPT"
      using assms b by (auto simp add: binary_start_segment_def prompt_command_def)
    moreover have "modem_sms_state_binary_build_segment (rq_number r) (the (rq_binary r)) (rq_binary_len r)
        (rq_dest_port r) (rq_source_port r) (rq_binary_mode r) (lk_state lk) = (ss, True)"
      using b True by simp
    note build_segment_state [OF this]
    ultimately show ?thesis
      by (simp add: send_weight_def Let_def upd_ss_def)
  next
    case False
    then show ?thesis
      using assms b restore_weight by (auto simp add: binary_start_segment_def)
  qed
qed

lemma prompt_weight:
  assumes "modem_sms_protocol_on_prompt k (Some r) now True lk = (lk', acts, True)"
  shows "send_weight r lk' (wait_after acts w) < send_weight r lk (Waiting k)"
  using assms
  by (auto simp add: modem_sms_protocol_on_prompt_def send_weight_def Let_def upd_pr_def split: prod.splits if_splits)

lemma segment_final_weight:
  assumes "on_segment_final ok r now lk = (lk', acts)"
  shows "send_weight r lk' (wait_after acts w) < send_weight r lk (Waiting MODEM_SMS_COMMAND_CMGS_FINAL)"
proof -
  let ?lk1 = "upd_pr (\<lambda>p. p\<lparr>pr_binary_segments_accepted := pr_binary_segments_accepted p + 1\<rparr>) lk"
  have eq: "lk_state ?lk1 = lk_state lk"
    by (simp add: upd_pr_def)
  have final_is: "send_weight r lk (Waiting MODEM_SMS_COMMAND_CMGS_FINAL) =
      2 * (unat (rq_binary_len r) - unat (ss_binary_position (lk_state lk))) + 3"
    by (simp add: send_weight_def Let_def)
  consider oc lk2 where "restore_text_parameters now oc lk2 = (lk', acts)"
    | "binary_start_segment r now ?lk1 = (lk', acts)"
    using assms by (auto simp add: on_segment_final_def Let_def split: if_splits)
  then show ?thesis
  proof cases
    case 1
    then show ?thesis
      by (simp add: restore_weight final_is)
  next
    case 2
    then show ?thesis
      using start_segment_weight [OF 2, of w] final_is unfolding eq by auto
  qed
qed

lemma wait_after_result [simp]:
  "wait_after (emit_send_result r outcome # acts) w = wait_after acts w"
  "wait_after (emit_complete r outcome ok # acts) w = wait_after acts Finished"
  by (simp_all add: emit_send_result_def emit_complete_def)

lemma finish_waits [simp]: "wait_after (finish_after_restore r ok lk) w = Finished"
  by (simp add: finish_after_restore_def Let_def)

lemma text_final_weight:
  assumes "on_text_final ok q now lk = (lk', acts)"
  shows "send_weight r lk' (wait_after acts w) < send_weight r lk (Waiting MODEM_SMS_COMMAND_CMGS_FINAL)"
proof -
  have "2 < send_weight r lk (Waiting MODEM_SMS_COMMAND_CMGS_FINAL)"
    by (simp add: send_weight_def Let_def)
  moreover have "send_weight r lk' (wait_after acts w) \<le> 1"
    using assms restore_weight [of now _ _ lk' acts r w]
    by (auto simp add: on_text_final_def Let_def send_weight_def [of r _ Finished] split: if_splits)
  ultimately show ?thesis
    by linarith
qed

lemma wake_weight:
  "modem_sms_protocol_resume_after_wake q now lk = (lk', acts) \<Longrightarrow>
   send_weight r lk' (wait_after acts w) < 2 * unat (rq_binary_len r) + 5"
  by (auto simp add: modem_sms_protocol_resume_after_wake_def prompt_command_def send_weight_def Let_def
      split: if_splits)

lemma final_weight:
  assumes v: "request_valid (Some r)" and f: "modem_sms_protocol_on_final k ok (Some r) now lk = (lk', acts)"
  shows "send_weight r lk' (wait_after acts w) < send_weight r lk (Waiting k)"
proof (cases k)
  case MODEM_SMS_COMMAND_BINARY_TEXT_SETUP
  have "send_weight r lk (Waiting k) = 2 * unat (rq_binary_len r) + 5"
    by (simp add: MODEM_SMS_COMMAND_BINARY_TEXT_SETUP send_weight_def Let_def)
  moreover have "send_weight r lk' (wait_after acts w) < 2 * unat (rq_binary_len r) + 5"
  proof (cases ok)
    case True
    then show ?thesis
      using f v start_segment_weight [of r now lk lk' acts w]
      by (auto simp add: MODEM_SMS_COMMAND_BINARY_TEXT_SETUP modem_sms_protocol_on_final_def Let_def)
  next
    case False
    then show ?thesis
      using f v restore_weight [of now _ _ lk' acts r w]
      by (auto simp add: MODEM_SMS_COMMAND_BINARY_TEXT_SETUP modem_sms_protocol_on_final_def Let_def)
  qed
  ultimately show ?thesis
    by simp
next
  case MODEM_SMS_COMMAND_CMGF_TEXT
  then show ?thesis
    using f v by (auto simp add: modem_sms_protocol_on_final_def Let_def send_weight_def)
next
  case MODEM_SMS_COMMAND_CMGS_PROMPT
  then show ?thesis
    using f v restore_weight [of now _ _ lk' acts r w]
    by (auto simp add: modem_sms_protocol_on_final_def Let_def send_weight_def split: if_splits)
next
  case MODEM_SMS_COMMAND_CMGS_FINAL
  let ?lk = "upd_pr (\<lambda>p. p\<lparr>pr_payload_submitted := False\<rparr>) lk"
  have "on_segment_final ok r now ?lk = (lk', acts) \<or> on_text_final ok (Some r) now ?lk = (lk', acts)"
    using f v by (auto simp add: MODEM_SMS_COMMAND_CMGS_FINAL modem_sms_protocol_on_final_def Let_def split: if_splits)
  moreover have "send_weight r ?lk (Waiting k) = send_weight r lk (Waiting k)"
    by (simp add: send_weight_def Let_def upd_pr_def)
  ultimately show ?thesis
    using segment_final_weight [of ok r now ?lk lk' acts w] text_final_weight [of ok "Some r" now ?lk lk' acts r w]
    unfolding MODEM_SMS_COMMAND_CMGS_FINAL by auto
next
  case MODEM_SMS_COMMAND_TEXT_SETUP
  then show ?thesis
    using f v wake_weight [of "Some r" now lk lk' acts r w] restore_weight [of now _ _ lk' acts r w]
    by (auto simp add: modem_sms_protocol_on_final_def Let_def send_weight_def [of r lk] split: if_splits)
qed

lemma timeout_weight:
  assumes v: "request_valid (Some r)" and t: "modem_sms_protocol_on_timeout k (Some r) now lk = (lk', acts)"
  shows "send_weight r lk' (wait_after acts w) < send_weight r lk (Waiting k)"
proof -
  have "0 < send_weight r lk (Waiting k)" "k \<noteq> MODEM_SMS_COMMAND_CMGF_TEXT \<Longrightarrow> 2 < send_weight r lk (Waiting k)"
    by (cases k; simp add: send_weight_def Let_def)+
  then show ?thesis
    using t v restore_weight [of now _ _ lk' acts r w]
    by (auto simp add: modem_sms_protocol_on_timeout_def Let_def send_weight_def [of r _ Finished]
        send_weight_def [of r _ Settling] split: if_splits)
qed

lemma settled_weight:
  "modem_sms_protocol_resume_after_prompt_abort (Some r) now lk = (lk', acts) \<Longrightarrow>
   send_weight r lk' (wait_after acts w) < send_weight r lk Settling"
  using restore_weight [of now _ _ lk' acts r w]
  by (auto simp add: modem_sms_protocol_resume_after_prompt_abort_def send_weight_def Let_def split: if_splits)

lemma begin_weight:
  assumes "modem_sms_protocol_begin enc (Some r) now lk = (lk', acts, True)"
  shows "send_weight r lk' (wait_after acts w) \<le> 2 * unat (rq_binary_len r) + 5"
  using assms
  by (auto simp add: modem_sms_protocol_begin_def binary_start_def Let_def send_weight_def
      modem_sms_protocol_resume_after_wake_def prompt_command_def split: if_splits prod.splits)

lemma sms_run_weight:
  "sms_run enc r n s \<Longrightarrow> n + send_weight r (sn_link s) (sn_wait s) \<le> 2 * unat (rq_binary_len r) + 5"
proof (induction rule: sms_run.induct)
  case (start now lk lk' acts)
  then show ?case
    using begin_weight by simp
next
  case (dispatched n s k)
  have "lk_state (modem_sms_protocol_command_dispatched k (sn_link s)) = lk_state (sn_link s)"
    by (simp add: modem_sms_protocol_command_dispatched_def upd_pr_def)
  then show ?case
    using dispatched by (simp add: send_weight_def)
next
  case (prompt n s k now lk' acts)
  then show ?case
    using prompt_weight [OF prompt(3), of "sn_wait s"] by (simp add: advance_def)
next
  case (final n s k ok now lk' acts)
  then show ?case
    using final_weight [OF sms_run_valid [OF final(1)] final(3), of "sn_wait s"] by (simp add: advance_def)
next
  case (timeout n s k now lk' acts)
  then show ?case
    using timeout_weight [OF sms_run_valid [OF timeout(1)] timeout(3), of "sn_wait s"] by (simp add: advance_def)
next
  case (settled n s now lk' acts)
  then show ?case
    using settled_weight [OF settled(3), of "sn_wait s"] by (simp add: advance_def)
qed

text \<open>C24: every send ends: whatever the modem answers or leaves unanswered, a session of a request with
  \<open>L\<close> payload bytes takes at most \<open>2 L + 5\<close> prompts, finals and timeouts, and as long as it has not
  finished there is a next one.\<close>

theorem sms_send_terminates:
  assumes "sms_run enc r n s"
  shows "n \<le> 2 * unat (rq_binary_len r) + 5 \<and> (sn_wait s \<noteq> Finished \<longrightarrow> (\<exists>s'. sms_run enc r (n + 1) s'))"
proof -
  have "\<exists>s'. sms_run enc r (n + 1) s'" if "sn_wait s \<noteq> Finished"
  proof (cases "sn_wait s")
    case (Waiting k)
    obtain lk acts where "modem_sms_protocol_on_timeout k (Some r) 0 (sn_link s) = (lk, acts)"
      by fastforce
    then show ?thesis
      using sms_run.timeout [OF assms Waiting] by blast
  next
    case Settling
    obtain lk acts where "modem_sms_protocol_resume_after_prompt_abort (Some r) 0 (sn_link s) = (lk, acts)"
      by fastforce
    then show ?thesis
      using sms_run.settled [OF assms Settling] by blast
  qed (use that in simp)
  then show ?thesis
    using sms_run_weight [OF assms] by auto
qed

section \<open>What has crossed the wire\<close>

fun bodies :: "sms_action list \<Rightarrow> u8 list list" where
  "bodies [] = []"
| "bodies (ACTION_BODY body _ _ _ _ _ _ _ # acts) = body # bodies acts"
| "bodies (_ # acts) = bodies acts"

lemma bodies_append [simp]: "bodies (xs @ ys) = bodies xs @ bodies ys"
  by (induction xs rule: bodies.induct) simp_all

fun results :: "sms_action list \<Rightarrow> (u32 \<times> modem_sms_request_kind \<times> modem_sms_outcome) list" where
  "results [] = []"
| "results (ACTION_PUBLISH_SEND rid kind outcome # acts) = (rid, kind, outcome) # results acts"
| "results (_ # acts) = results acts"

lemma results_append [simp]: "results (xs @ ys) = results xs @ results ys"
  by (induction xs rule: results.induct) simp_all

definition is_binary :: "sms_request \<Rightarrow> bool" where
  "is_binary r \<longleftrightarrow> rq_operation r = MODEM_SMS_PROTOCOL_SEND_BINARY"

text \<open>The parts a request is sent in: the segments of a binary one; a text is one body.\<close>

definition send_parts :: "sms_request \<Rightarrow> nat" where
  "send_parts r =
     (if is_binary r then (unat (rq_binary_len r) + 127) div MODEM_SMS_BINARY_CHUNK_MAX else 1)"

definition segment_at :: "sms_request \<Rightarrow> u8 \<Rightarrow> nat \<Rightarrow> sms_submit_pdu" where
  "segment_at r reference i =
     \<lparr>sp_number = rq_number r, sp_payload = the (rq_binary r), sp_payload_len = rq_binary_len r,
      sp_position = of_nat (MODEM_SMS_BINARY_CHUNK_MAX * i), sp_dest_port = rq_dest_port r,
      sp_source_port = rq_source_port r, sp_mode = rq_binary_mode r, sp_segment = of_nat (i + 1),
      sp_segment_total = of_nat (send_parts r), sp_reference = reference\<rparr>"

definition body_of :: "sms_request \<Rightarrow> u8 \<Rightarrow> nat \<Rightarrow> u8 list \<Rightarrow> bool" where
  "body_of r reference i body \<longleftrightarrow>
     (\<exists>s'. sms_submit_text_build (segment_at r reference i) (SMS_SUBMIT_PDU_HEX_MAX + 1) = Some (s', body))"

text \<open>The progress of a binary send after \<open>k\<close> segments were built.\<close>

definition built :: "sms_request \<Rightarrow> u8 \<Rightarrow> nat \<Rightarrow> sms_state \<Rightarrow> bool" where
  "built r reference k ss \<longleftrightarrow>
     unat (ss_binary_position ss) = min (unat (rq_binary_len r)) (MODEM_SMS_BINARY_CHUNK_MAX * k) \<and>
     ss_binary_segment ss = of_nat (k + 1) \<and> ss_binary_segment_total ss = of_nat (send_parts r) \<and>
     ss_binary_reference ss = reference \<and>
     (0 < k \<longrightarrow> body_of r reference (k - 1) (ss_binary_body ss))"

text \<open>An outcome that does not overstate: sent means all parts accepted, a definite failure means none.\<close>

definition honest :: "sms_request \<Rightarrow> sms_session \<Rightarrow> modem_sms_outcome \<Rightarrow> bool" where
  "honest r s outcome \<longleftrightarrow>
     outcome \<in> {MODEM_SMS_OUTCOME_OK, MODEM_SMS_OUTCOME_ERROR, MODEM_SMS_OUTCOME_TIMEOUT, MODEM_SMS_OUTCOME_UNCERTAIN} \<and>
     (outcome = MODEM_SMS_OUTCOME_OK \<longrightarrow> sn_accepted s = send_parts r \<and> length (bodies (sn_log s)) = send_parts r) \<and>
     (outcome \<in> {MODEM_SMS_OUTCOME_ERROR, MODEM_SMS_OUTCOME_TIMEOUT} \<longrightarrow> sn_accepted s = 0)"

definition send_phase :: "sms_request \<Rightarrow> u8 \<Rightarrow> sms_session \<Rightarrow> bool" where
  "send_phase r reference s \<longleftrightarrow>
     (let a = sn_accepted s; b = length (bodies (sn_log s)); p = lk_protocol (sn_link s); ss = lk_state (sn_link s)
      in case sn_wait s of
           Waiting MODEM_SMS_COMMAND_BINARY_TEXT_SETUP \<Rightarrow>
             is_binary r \<and> a = 0 \<and> b = 0 \<and> built r reference 0 ss
         | Waiting MODEM_SMS_COMMAND_TEXT_SETUP \<Rightarrow> \<not> is_binary r \<and> a = 0 \<and> b = 0
         | Waiting MODEM_SMS_COMMAND_CMGS_PROMPT \<Rightarrow>
             a < send_parts r \<and> b = a \<and> (is_binary r \<longrightarrow> built r reference (a + 1) ss)
         | Waiting MODEM_SMS_COMMAND_CMGS_FINAL \<Rightarrow>
             a < send_parts r \<and> b = a + 1 \<and> (is_binary r \<longrightarrow> built r reference (a + 1) ss)
         | Settling \<Rightarrow> (is_binary r \<or> pr_text_parameters_dirty p) \<and> a < send_parts r \<and>
             honest r s (pr_send_outcome p)
         | Waiting MODEM_SMS_COMMAND_CMGF_TEXT \<Rightarrow>
             (is_binary r \<or> pr_text_parameters_dirty p \<or> a = 0) \<and> honest r s (pr_send_outcome p)
         | Finished \<Rightarrow> True)"

definition send_log :: "sms_request \<Rightarrow> u8 \<Rightarrow> sms_session \<Rightarrow> bool" where
  "send_log r reference s \<longleftrightarrow>
     (if sn_wait s = Finished
      then \<exists>outcome. results (sn_log s) = [(rq_request_id r, request_kind (Some r), outcome)] \<and> honest r s outcome
      else results (sn_log s) = []) \<and>
     (is_binary r \<longrightarrow> (\<forall>i<length (bodies (sn_log s)). body_of r reference i (bodies (sn_log s) ! i))) \<and>
     pr_binary_segments_accepted (lk_protocol (sn_link s)) = (if is_binary r then of_nat (sn_accepted s) else 0) \<and>
     sn_accepted s \<le> send_parts r"

definition send_inv :: "sms_request \<Rightarrow> u8 \<Rightarrow> sms_session \<Rightarrow> bool" where
  "send_inv r reference s \<longleftrightarrow> send_phase r reference s \<and> send_log r reference s"

text \<open>What an unfinished session carries from one wait to the next.\<close>

definition open_log :: "sms_request \<Rightarrow> u8 \<Rightarrow> sms_session \<Rightarrow> sms_link \<Rightarrow> bool" where
  "open_log r reference s lk \<longleftrightarrow>
     results (sn_log s) = [] \<and>
     (is_binary r \<longrightarrow> (\<forall>i<length (bodies (sn_log s)). body_of r reference i (bodies (sn_log s) ! i))) \<and>
     pr_binary_segments_accepted (lk_protocol lk) = (if is_binary r then of_nat (sn_accepted s) else 0) \<and>
     sn_accepted s \<le> send_parts r"

lemma send_log_open: "send_log r reference s \<Longrightarrow> sn_wait s \<noteq> Finished \<Longrightarrow> open_log r reference s (sn_link s)"
  by (simp add: send_log_def open_log_def)

lemma honest_advance: "bodies acts = [] \<Longrightarrow> honest r (advance s lk acts) outcome = honest r s outcome"
  by (simp add: honest_def advance_def)

lemma to_restore:
  assumes "restore_text_parameters now oc lk = (lk', acts)" "open_log r reference s lk" "honest r s oc"
    and "is_binary r \<or> pr_text_parameters_dirty (lk_protocol lk) \<or> sn_accepted s = 0"
  shows "send_inv r reference (advance s lk' acts)"
proof -
  have acts: "bodies acts = []" "results acts = []" "wait_after acts w = Waiting MODEM_SMS_COMMAND_CMGF_TEXT" for w
    using assms(1) by (auto simp add: restore_text_parameters_def)
  have lk': "pr_send_outcome (lk_protocol lk') = oc"
    "pr_binary_segments_accepted (lk_protocol lk') = pr_binary_segments_accepted (lk_protocol lk)"
    "pr_text_parameters_dirty (lk_protocol lk') = pr_text_parameters_dirty (lk_protocol lk)"
    using assms(1) by (auto simp add: restore_text_parameters_def upd_ss_def upd_pr_def)
  show ?thesis
    using assms(2-4) honest_advance [OF acts(1), of r s lk' oc]
    by (simp add: send_inv_def send_phase_def send_log_def open_log_def advance_def acts lk' Let_def)
qed

lemma to_prompt:
  assumes "acts = [prompt_command r cap now]" "open_log r reference s lk'"
    and "sn_accepted s < send_parts r" "length (bodies (sn_log s)) = sn_accepted s"
    and "is_binary r \<Longrightarrow> built r reference (sn_accepted s + 1) (lk_state lk')"
  shows "send_inv r reference (advance s lk' acts)"
  using assms by (auto simp add: send_inv_def send_phase_def send_log_def open_log_def advance_def
      prompt_command_def Let_def)

lemma to_finish:
  assumes "bodies acts = []" "wait_after acts (sn_wait s) = Finished" "open_log r reference s lk'"
    and "results acts = [(rq_request_id r, request_kind (Some r), oc)]" "honest r s oc"
  shows "send_inv r reference (advance s lk' acts)"
  using assms honest_advance [OF assms(1), of r s lk' oc]
  by (auto simp add: send_inv_def send_phase_def send_log_def open_log_def advance_def)

lemma send_parts_bounds:
  assumes "request_valid (Some r)" "unat (rq_binary_len r) \<le> 384"
  shows "0 < send_parts r" "send_parts r \<le> 3"
    "is_binary r \<Longrightarrow> k < send_parts r \<longleftrightarrow> MODEM_SMS_BINARY_CHUNK_MAX * k < unat (rq_binary_len r)"
proof -
  have "is_binary r \<Longrightarrow> 0 < unat (rq_binary_len r)"
    using assms(1) by (auto simp add: request_valid_def is_binary_def unat_gt_0)
  then show "0 < send_parts r" "send_parts r \<le> 3"
    "is_binary r \<Longrightarrow> k < send_parts r \<longleftrightarrow> MODEM_SMS_BINARY_CHUNK_MAX * k < unat (rq_binary_len r)"
    using assms(2) by (auto simp add: send_parts_def)
qed

lemma accepted_zero_iff:
  assumes "request_valid (Some r)" "unat (rq_binary_len r) \<le> 384" "n \<le> send_parts r"
  shows "(of_nat n :: u8) = 0 \<longleftrightarrow> n = 0"
proof -
  have "unat (of_nat n :: u8) = n"
    using send_parts_bounds(2) [OF assms(1,2)] assms(3) by (simp add: unat_of_nat)
  then show ?thesis
    by (auto dest!: arg_cong [where f = unat])
qed

text \<open>A failed command is a definite failure only while no part was accepted.\<close>

lemma lost_honest:
  assumes "request_valid (Some r)" "unat (rq_binary_len r) \<le> 384" "open_log r reference s lk"
    and "is_binary r \<or> sn_accepted s = 0" "oc \<in> {MODEM_SMS_OUTCOME_ERROR, MODEM_SMS_OUTCOME_TIMEOUT}"
  shows "honest r s (lost_or oc lk)"
  using assms(3-5) accepted_zero_iff [OF assms(1,2), of "sn_accepted s"]
  by (auto simp add: lost_or_def open_log_def honest_def)

lemma start_segment_inv:
  assumes v: "request_valid (Some r)" "unat (rq_binary_len r) \<le> 384"
    and f: "binary_start_segment r now lk = (lk', acts)" and o: "open_log r reference s lk"
    and b: "is_binary r" "built r reference (sn_accepted s) (lk_state lk)" "sn_accepted s < send_parts r"
      "length (bodies (sn_log s)) = sn_accepted s"
  shows "send_inv r reference (advance s lk' acts)"
proof -
  let ?k = "sn_accepted s" and ?L = "unat (rq_binary_len r)"
  let ?s = "binary_submit (rq_number r) (the (rq_binary r)) (rq_binary_len r) (rq_dest_port r) (rq_source_port r)
    (rq_binary_mode r) (lk_state lk)"
  have k: "MODEM_SMS_BINARY_CHUNK_MAX * ?k < ?L"
    using send_parts_bounds(3) [OF v b(1)] b(3) by simp
  have "unat (of_nat (MODEM_SMS_BINARY_CHUNK_MAX * ?k) :: u16) = MODEM_SMS_BINARY_CHUNK_MAX * ?k"
    using k v(2) by (simp only: unat_of_nat) simp
  then have pos: "ss_binary_position (lk_state lk) = of_nat (MODEM_SMS_BINARY_CHUNK_MAX * ?k)"
    using b(2) k unfolding built_def by (intro unsigned_word_eqI [where 'a = nat]) simp
  have eq: "?s = segment_at r reference ?k"
    using b(2) by (simp add: binary_submit_def segment_at_def built_def pos)
  obtain ss ok where bs: "modem_sms_state_binary_build_segment (rq_number r) (the (rq_binary r)) (rq_binary_len r)
      (rq_dest_port r) (rq_source_port r) (rq_binary_mode r) (lk_state lk) = (ss, ok)"
    by fastforce
  show ?thesis
  proof (cases ok)
    case True
    have bs': "modem_sms_state_binary_build_segment (rq_number r) (the (rq_binary r)) (rq_binary_len r)
        (rq_dest_port r) (rq_source_port r) (rq_binary_mode r) (lk_state lk) = (ss, True)"
      using bs True by simp
    obtain s' body where t: "sms_submit_text_build (segment_at r reference ?k) (SMS_SUBMIT_PDU_HEX_MAX + 1) = Some (s', body)"
      and ss: "ss = (lk_state lk)\<lparr>ss_binary_body := body, ss_binary_position := sp_position s',
        ss_binary_segment := sp_segment s'\<rparr>"
      using bs True unfolding modem_sms_state_binary_build_segment_def eq by (auto split: option.splits)
    have seg: "sp_segment s' = of_nat (?k + 1 + 1)"
      using text_build_advances [OF t] by (simp add: advance_segment_def segment_at_def)
    have "unat (ss_binary_position ss) = min ?L (MODEM_SMS_BINARY_CHUNK_MAX * (?k + 1))"
      using build_segment_state(2) [OF bs'] b(2) k by (simp add: built_def)
    then have "built r reference (?k + 1) ss"
      using b(2) seg t by (auto simp add: built_def ss body_of_def)
    moreover have "lk' = upd_ss (\<lambda>_. ss) lk" "acts = [prompt_command r 80 now]"
      using f bs True by (simp_all add: binary_start_segment_def)
    ultimately show ?thesis
      using o b by (intro to_prompt [where cap = 80 and now = now]) (simp_all add: open_log_def upd_ss_def)
  next
    case False
    then have rs: "restore_text_parameters now (lost_or MODEM_SMS_OUTCOME_ERROR lk) (upd_ss (\<lambda>_. ss) lk) = (lk', acts)"
      using f bs by (simp add: binary_start_segment_def)
    have "open_log r reference s (upd_ss (\<lambda>_. ss) lk)"
      using o by (simp add: open_log_def upd_ss_def)
    then show ?thesis
      using lost_honest [OF v o] b(1) by (intro to_restore [OF rs]) auto
  qed
qed

lemma parts_text: "\<not> is_binary r \<Longrightarrow> send_parts r = 1"
  by (simp add: send_parts_def)

lemma upd_pr_simps [simp]:
  "lk_protocol (upd_pr f lk) = f (lk_protocol lk)" "lk_state (upd_pr f lk) = lk_state lk"
  "lk_text (upd_pr f lk) = lk_text lk"
  by (simp_all add: upd_pr_def)

lemma final_setup_inv:
  assumes v: "request_valid (Some r)" "unat (rq_binary_len r) \<le> 384"
    and f: "modem_sms_protocol_on_final k ok (Some r) now (sn_link s) = (lk', acts)"
    and inv: "send_inv r reference s" "sn_wait s = Waiting k"
    and k: "k = MODEM_SMS_COMMAND_BINARY_TEXT_SETUP \<or> k = MODEM_SMS_COMMAND_TEXT_SETUP"
  shows "send_inv r reference (advance s lk' acts)"
proof -
  let ?lk = "sn_link s"
  have o: "open_log r reference s ?lk"
    using inv by (intro send_log_open) (simp_all add: send_inv_def)
  have a: "sn_accepted s = 0" "length (bodies (sn_log s)) = 0"
    "k = MODEM_SMS_COMMAND_BINARY_TEXT_SETUP \<Longrightarrow> is_binary r \<and> built r reference 0 (lk_state ?lk)"
    "k = MODEM_SMS_COMMAND_TEXT_SETUP \<Longrightarrow> \<not> is_binary r"
    using inv k by (auto simp add: send_inv_def send_phase_def Let_def)
  show ?thesis
  proof (cases ok)
    case False
    then have rs: "restore_text_parameters now MODEM_SMS_OUTCOME_ERROR ?lk = (lk', acts)"
      using f v(1) k by (auto simp add: modem_sms_protocol_on_final_def Let_def)
    show ?thesis
      by (rule to_restore [OF rs o]) (use a(1) in \<open>simp_all add: honest_def\<close>)
  next
    case True
    show ?thesis
    proof (cases "k = MODEM_SMS_COMMAND_BINARY_TEXT_SETUP")
      case True
      then have "binary_start_segment r now ?lk = (lk', acts)"
        using f v(1) \<open>ok\<close> by (auto simp add: modem_sms_protocol_on_final_def Let_def)
      then show ?thesis
        using a True send_parts_bounds(1) [OF v] by (intro start_segment_inv [OF v _ o]) simp_all
    next
      case False
      then have t: "\<not> is_binary r" "modem_sms_protocol_resume_after_wake (Some r) now ?lk = (lk', acts)"
        using a(4) f v(1) k \<open>ok\<close> by (auto simp add: modem_sms_protocol_on_final_def Let_def)
      then have "lk' = ?lk" "acts = [prompt_command r 72 now]"
        using v(1) valid_operation [OF v(1)] by (auto simp add: modem_sms_protocol_resume_after_wake_def is_binary_def)
      then show ?thesis
        using o a(1,2) t(1) by (intro to_prompt [where cap = 72 and now = now]) (simp_all add: parts_text)
    qed
  qed
qed

lemma bodies_results [simp]:
  "bodies (emit_send_result q oc # acts) = bodies acts" "bodies (emit_complete q oc ok # acts) = bodies acts"
  "results (emit_send_result (Some r) oc # acts) = (rq_request_id r, request_kind (Some r), oc) # results acts"
  "results (emit_complete q oc ok # acts) = results acts"
  by (simp_all add: emit_send_result_def emit_complete_def request_id_of_def)

lemma finish_inv:
  assumes "acts = finish_after_restore (Some r) ok lk" "open_log r reference s lk'"
    and "honest r s (pr_send_outcome (lk_protocol lk))"
  shows "send_inv r reference (advance s lk' acts)"
  using assms by (intro to_finish [where oc = "pr_send_outcome (lk_protocol lk)"])
    (auto simp add: finish_after_restore_def Let_def honest_def)

lemma final_cmgf_inv:
  assumes v: "request_valid (Some r)"
    and f: "modem_sms_protocol_on_final MODEM_SMS_COMMAND_CMGF_TEXT ok (Some r) now (sn_link s) = (lk', acts)"
    and inv: "send_inv r reference s" "sn_wait s = Waiting MODEM_SMS_COMMAND_CMGF_TEXT"
  shows "send_inv r reference (advance s lk' acts)"
proof -
  have o: "open_log r reference s (sn_link s)"
    using inv by (intro send_log_open) (simp_all add: send_inv_def)
  have h: "honest r s (pr_send_outcome (lk_protocol (sn_link s)))"
    using inv by (simp add: send_inv_def send_phase_def Let_def)
  let ?lk = "if ok then upd_pr (\<lambda>p. p\<lparr>pr_text_parameters_dirty := False\<rparr>) (sn_link s) else sn_link s"
  have "lk' = ?lk" "acts = finish_after_restore (Some r) ok ?lk"
    using f v by (auto simp add: modem_sms_protocol_on_final_def Let_def)
  then show ?thesis
    using o h by (intro finish_inv [where lk = ?lk]) (simp_all add: open_log_def)
qed

lemma final_prompt_inv:
  assumes v: "request_valid (Some r)" "unat (rq_binary_len r) \<le> 384"
    and f: "modem_sms_protocol_on_final MODEM_SMS_COMMAND_CMGS_PROMPT ok (Some r) now (sn_link s) = (lk', acts)"
    and inv: "send_inv r reference s" "sn_wait s = Waiting MODEM_SMS_COMMAND_CMGS_PROMPT"
  shows "send_inv r reference (advance s lk' acts)"
proof -
  have o: "open_log r reference s (sn_link s)"
    using inv by (intro send_log_open) (simp_all add: send_inv_def)
  have "sn_accepted s < send_parts r"
    using inv by (simp add: send_inv_def send_phase_def Let_def)
  then have a: "is_binary r \<or> sn_accepted s = 0"
    by (cases "is_binary r") (simp_all add: parts_text)
  have h: "honest r s (lost_or MODEM_SMS_OUTCOME_ERROR (sn_link s))"
    by (intro lost_honest [OF v o a]) simp
  show ?thesis
  proof (cases "is_binary r \<or> pr_text_parameters_dirty (lk_protocol (sn_link s))")
    case True
    then have "restore_text_parameters now (lost_or MODEM_SMS_OUTCOME_ERROR (sn_link s)) (sn_link s) = (lk', acts)"
      using f v(1) by (auto simp add: modem_sms_protocol_on_final_def is_binary_def Let_def)
    then show ?thesis
      using True by (intro to_restore [OF _ o h]) auto
  next
    case False
    then have "lk' = sn_link s"
      "acts = [emit_send_result (Some r) MODEM_SMS_OUTCOME_ERROR, emit_complete (Some r) MODEM_SMS_OUTCOME_ERROR False]"
      using f v(1) by (auto simp add: modem_sms_protocol_on_final_def is_binary_def Let_def)
    then show ?thesis
      using o a False by (intro to_finish [where oc = MODEM_SMS_OUTCOME_ERROR]) (simp_all add: honest_def)
  qed
qed

lemma segment_final_inv:
  assumes v: "request_valid (Some r)" "unat (rq_binary_len r) \<le> 384" and b: "is_binary r"
    and f: "on_segment_final ok r now lk = (lk', acts)" and o: "open_log r reference s lk"
    and a: "sn_accepted s < send_parts r" "length (bodies (sn_log s)) = sn_accepted s + 1"
      "built r reference (sn_accepted s + 1) (lk_state lk)"
  shows "send_inv r reference
    (advance (s\<lparr>sn_accepted := (if ok then sn_accepted s + 1 else sn_accepted s)\<rparr>) lk' acts)"
proof (cases ok)
  case False
  then have rs: "restore_text_parameters now (lost_or MODEM_SMS_OUTCOME_ERROR lk) lk = (lk', acts)"
    using f by (simp add: on_segment_final_def)
  have "send_inv r reference (advance s lk' acts)"
    by (rule to_restore [OF rs o]) (use lost_honest [OF v o] b in auto)
  then show ?thesis
    using False by simp
next
  case True
  let ?lk1 = "upd_pr (\<lambda>p. p\<lparr>pr_binary_segments_accepted := pr_binary_segments_accepted p + 1\<rparr>) lk"
  let ?s1 = "s\<lparr>sn_accepted := sn_accepted s + 1\<rparr>"
  have o1: "open_log r reference ?s1 ?lk1"
    using o a(1) b by (simp add: open_log_def)
  have more: "modem_sms_state_binary_has_more (rq_binary_len r) (lk_state lk) \<longleftrightarrow> sn_accepted s + 1 < send_parts r"
    using send_parts_bounds(3) [OF v b, of "sn_accepted s + 1"] a(3)
    by (auto simp add: modem_sms_state_binary_has_more_def built_def word_less_nat_alt)
  have "send_inv r reference (advance ?s1 lk' acts)"
  proof (cases "sn_accepted s + 1 < send_parts r")
    case True
    then have "binary_start_segment r now ?lk1 = (lk', acts)"
      using f \<open>ok\<close> more by (simp add: on_segment_final_def)
    then show ?thesis
      using True a by (intro start_segment_inv [OF v _ o1 b]) simp_all
  next
    case False
    then have rs: "restore_text_parameters now MODEM_SMS_OUTCOME_OK (upd_pr (\<lambda>p. p\<lparr>pr_send_confirmed := True\<rparr>) ?lk1) = (lk', acts)"
      using f \<open>ok\<close> more by (simp add: on_segment_final_def)
    have "open_log r reference ?s1 (upd_pr (\<lambda>p. p\<lparr>pr_send_confirmed := True\<rparr>) ?lk1)"
      using o1 by (simp add: open_log_def)
    then show ?thesis
      by (rule to_restore [OF rs]) (use False a b in \<open>auto simp add: honest_def\<close>)
  qed
  then show ?thesis
    using True by simp
qed

lemma text_final_inv:
  assumes v: "request_valid (Some r)" and b: "\<not> is_binary r"
    and f: "on_text_final ok (Some r) now lk = (lk', acts)" and o: "open_log r reference s lk"
    and a: "sn_accepted s = 0" "length (bodies (sn_log s)) = 1"
  shows "send_inv r reference
    (advance (s\<lparr>sn_accepted := (if ok then sn_accepted s + 1 else sn_accepted s)\<rparr>) lk' acts)"
proof -
  let ?lk1 = "upd_pr (\<lambda>p. p\<lparr>pr_send_confirmed := ok\<rparr>) lk"
  let ?s1 = "s\<lparr>sn_accepted := (if ok then sn_accepted s + 1 else sn_accepted s)\<rparr>"
  have o1: "open_log r reference ?s1 ?lk1"
    using o a(1) b by (simp add: open_log_def parts_text)
  show ?thesis
  proof (cases "pr_text_parameters_dirty (lk_protocol lk)")
    case True
    let ?oc = "if ok then MODEM_SMS_OUTCOME_OK
      else if tx_multipart (lk_text lk) then MODEM_SMS_OUTCOME_UNCERTAIN else MODEM_SMS_OUTCOME_ERROR"
    have rs: "restore_text_parameters now ?oc ?lk1 = (lk', acts)"
      using f True by (simp only: on_text_final_def Let_def upd_pr_simps if_True) simp
    show ?thesis
      by (rule to_restore [OF rs o1]) (use a b True in \<open>auto simp add: honest_def parts_text\<close>)
  next
    case False
    then have "lk' = ?lk1" "acts = (if ok then [ACTION_INCREMENT_SENT] else []) @
      [emit_send_result (Some r) (if ok then MODEM_SMS_OUTCOME_OK else MODEM_SMS_OUTCOME_ERROR),
       emit_complete (Some r) (if ok then MODEM_SMS_OUTCOME_OK else MODEM_SMS_OUTCOME_ERROR) ok]"
      using f by (auto simp add: on_text_final_def Let_def)
    then show ?thesis
      using o1 a b by (intro to_finish [where oc = "if ok then MODEM_SMS_OUTCOME_OK else MODEM_SMS_OUTCOME_ERROR"])
        (auto simp add: honest_def parts_text)
  qed
qed

lemma final_final_inv:
  assumes v: "request_valid (Some r)" "unat (rq_binary_len r) \<le> 384"
    and f: "modem_sms_protocol_on_final MODEM_SMS_COMMAND_CMGS_FINAL ok (Some r) now (sn_link s) = (lk', acts)"
    and inv: "send_inv r reference s" "sn_wait s = Waiting MODEM_SMS_COMMAND_CMGS_FINAL"
  shows "send_inv r reference
    (advance (s\<lparr>sn_accepted := (if ok then sn_accepted s + 1 else sn_accepted s)\<rparr>) lk' acts)"
proof -
  let ?lk = "upd_pr (\<lambda>p. p\<lparr>pr_payload_submitted := False\<rparr>) (sn_link s)"
  have "open_log r reference s (sn_link s)"
    using inv by (intro send_log_open) (simp_all add: send_inv_def)
  then have o: "open_log r reference s ?lk"
    by (simp add: open_log_def)
  have a: "sn_accepted s < send_parts r" "length (bodies (sn_log s)) = sn_accepted s + 1"
    "is_binary r \<Longrightarrow> built r reference (sn_accepted s + 1) (lk_state ?lk)"
    using inv by (simp_all add: send_inv_def send_phase_def Let_def)
  show ?thesis
  proof (cases "is_binary r")
    case True
    then have "on_segment_final ok r now ?lk = (lk', acts)"
      using f v(1) by (simp add: modem_sms_protocol_on_final_def is_binary_def Let_def)
    then show ?thesis
      by (rule segment_final_inv [OF v True _ o a(1,2) a(3) [OF True]])
  next
    case False
    then have "on_text_final ok (Some r) now ?lk = (lk', acts)"
      using f v(1) by (simp add: modem_sms_protocol_on_final_def is_binary_def Let_def)
    then show ?thesis
      using a(1,2) False by (intro text_final_inv [OF v(1) False _ o]) (simp_all add: parts_text)
  qed
qed

lemma timeout_inv:
  assumes v: "request_valid (Some r)" "unat (rq_binary_len r) \<le> 384"
    and t: "modem_sms_protocol_on_timeout k (Some r) now (sn_link s) = (lk', acts)"
    and inv: "send_inv r reference s" "sn_wait s = Waiting k"
  shows "send_inv r reference (advance s lk' acts)"
proof -
  let ?lk = "sn_link s"
  let ?restore = "is_binary r \<or> pr_text_parameters_dirty (lk_protocol ?lk)"
  let ?oc = "if k = MODEM_SMS_COMMAND_CMGS_FINAL then MODEM_SMS_OUTCOME_UNCERTAIN else MODEM_SMS_OUTCOME_TIMEOUT"
  have o: "open_log r reference s ?lk"
    using inv by (intro send_log_open) (simp_all add: send_inv_def)
  have ph: "send_phase r reference s"
    using inv by (simp add: send_inv_def)
  have early: "sn_accepted s = 0 \<or> k \<in> {MODEM_SMS_COMMAND_CMGS_PROMPT, MODEM_SMS_COMMAND_CMGS_FINAL, MODEM_SMS_COMMAND_CMGF_TEXT}"
    using ph inv(2) by (cases k) (auto simp add: send_phase_def Let_def)
  have small: "sn_accepted s < send_parts r" if "k \<in> {MODEM_SMS_COMMAND_CMGS_PROMPT, MODEM_SMS_COMMAND_CMGS_FINAL}"
    using ph inv(2) that by (auto simp add: send_phase_def Let_def)
  show ?thesis
  proof (cases "k = MODEM_SMS_COMMAND_CMGS_PROMPT \<and> ?restore")
    case True
    have a: "is_binary r \<or> sn_accepted s = 0"
      using small True by (cases "is_binary r") (simp_all add: parts_text)
    have h: "honest r s (lost_or MODEM_SMS_OUTCOME_TIMEOUT ?lk)"
      by (intro lost_honest [OF v o a]) simp
    have "lk' = upd_pr (\<lambda>p. p\<lparr>pr_send_outcome := lost_or MODEM_SMS_OUTCOME_TIMEOUT ?lk\<rparr>) ?lk"
      "acts = [ACTION_ABORT_PROMPT now True]"
      using t v(1) True by (auto simp add: modem_sms_protocol_on_timeout_def is_binary_def Let_def)
    then show ?thesis
      using o h small True honest_advance [of acts r s lk']
      by (auto simp add: send_inv_def send_phase_def send_log_def open_log_def advance_def Let_def)
  next
    case no_abort: False
    show ?thesis
    proof (cases "?restore \<and> k = MODEM_SMS_COMMAND_CMGF_TEXT")
      case True
      then have "lk' = ?lk" "acts = finish_after_restore (Some r) False ?lk"
        using t v(1) by (auto simp add: modem_sms_protocol_on_timeout_def is_binary_def Let_def)
      moreover have "honest r s (pr_send_outcome (lk_protocol ?lk))"
        using ph inv(2) True by (simp add: send_phase_def Let_def)
      ultimately show ?thesis
        using o by (intro finish_inv [where lk = ?lk and ok = False]) auto
    next
      case no_finish: False
      have h: "honest r s ?oc"
        using early no_abort no_finish ph inv(2) small parts_text
        by (auto simp add: honest_def send_phase_def Let_def)
      show ?thesis
      proof (cases ?restore)
        case True
        then have rs: "restore_text_parameters now ?oc ?lk = (lk', acts)"
          using t v(1) no_abort no_finish by (auto simp add: modem_sms_protocol_on_timeout_def is_binary_def Let_def)
        show ?thesis
          by (rule to_restore [OF rs o h]) (use True in auto)
      next
        case False
        then have "lk' = ?lk" "acts = (if k = MODEM_SMS_COMMAND_CMGS_PROMPT then [ACTION_ABORT_PROMPT now False] else []) @
            [emit_send_result (Some r) ?oc, emit_complete (Some r) ?oc False]"
          using t v(1) by (auto simp add: modem_sms_protocol_on_timeout_def is_binary_def Let_def)
        then show ?thesis
          using o h by (intro to_finish [where oc = ?oc]) auto
      qed
    qed
  qed
qed

lemma prompt_inv:
  assumes v: "request_valid (Some r)"
    and f: "modem_sms_protocol_on_prompt k (Some r) now True (sn_link s) = (lk', acts, True)"
    and inv: "send_inv r reference s" "sn_wait s = Waiting k"
  shows "send_inv r reference (advance s lk' acts)"
proof -
  have k: "k = MODEM_SMS_COMMAND_CMGS_PROMPT"
    using f by (simp add: modem_sms_protocol_on_prompt_def split: if_splits)
  have ph: "sn_accepted s < send_parts r" "length (bodies (sn_log s)) = sn_accepted s"
    "is_binary r \<Longrightarrow> built r reference (sn_accepted s + 1) (lk_state (sn_link s))"
    using inv by (simp_all add: send_inv_def send_phase_def Let_def k)
  have o: "open_log r reference s (sn_link s)"
    using inv by (intro send_log_open) (simp_all add: send_inv_def)
  have lk': "lk' = upd_pr (\<lambda>p. p\<lparr>pr_payload_submitted := True\<rparr>) (sn_link s)"
    using f v k by (auto simp add: modem_sms_protocol_on_prompt_def Let_def split: prod.splits)
  obtain body where acts: "bodies acts = [body]" "results acts = []"
      "wait_after acts w = Waiting MODEM_SMS_COMMAND_CMGS_FINAL"
      "is_binary r \<longrightarrow> body = ss_binary_body (lk_state (sn_link s))" for w
    using f v k by (auto simp add: modem_sms_protocol_on_prompt_def modem_sms_state_binary_segment_view_def
        is_binary_def Let_def split: if_splits)
  have "is_binary r \<Longrightarrow> body_of r reference (sn_accepted s) body"
    using ph(3) acts(4) by (simp add: built_def)
  then have all: "is_binary r \<Longrightarrow>
      \<forall>i<length (bodies (sn_log s)) + 1. body_of r reference i ((bodies (sn_log s) @ [body]) ! i)"
    using o ph(2) by (auto simp add: open_log_def nth_append less_Suc_eq)
  have "send_phase r reference (advance s lk' acts)"
    using ph by (simp add: send_phase_def advance_def acts lk' Let_def)
  moreover have "send_log r reference (advance s lk' acts)"
    using o all by (simp add: send_log_def open_log_def advance_def acts lk')
  ultimately show ?thesis
    by (simp add: send_inv_def)
qed

lemma settled_inv:
  assumes f: "modem_sms_protocol_resume_after_prompt_abort (Some r) now (sn_link s) = (lk', acts)"
    and inv: "send_inv r reference s" "sn_wait s = Settling"
  shows "send_inv r reference (advance s lk' acts)"
proof -
  let ?oc = "pr_send_outcome (lk_protocol (sn_link s))"
  have o: "open_log r reference s (sn_link s)"
    using inv by (intro send_log_open) (simp_all add: send_inv_def)
  have h: "honest r s ?oc" and d: "is_binary r \<or> pr_text_parameters_dirty (lk_protocol (sn_link s))"
    using inv by (simp_all add: send_inv_def send_phase_def Let_def)
  have "?oc \<noteq> MODEM_SMS_OUTCOME_NONE"
    using h by (auto simp add: honest_def)
  then have rs: "restore_text_parameters now ?oc (sn_link s) = (lk', acts)"
    using f d by (auto simp add: modem_sms_protocol_resume_after_prompt_abort_def is_binary_def)
  show ?thesis
    by (rule to_restore [OF rs o h]) (use d in auto)
qed

lemma dispatched_inv:
  assumes inv: "send_inv r reference s" "sn_wait s = Waiting k"
  shows "send_inv r reference (s\<lparr>sn_link := modem_sms_protocol_command_dispatched k (sn_link s)\<rparr>)"
  using assms by (cases k) (auto simp add: send_inv_def send_phase_def send_log_def honest_def Let_def
      modem_sms_protocol_command_dispatched_def)

lemma begin_inv:
  assumes "modem_sms_protocol_begin enc (Some r) now lk = (lk', acts, True)" "unat (rq_binary_len r) \<le> 384"
  shows "\<exists>reference.
    send_inv r reference \<lparr>sn_link = lk', sn_wait = wait_after acts Finished, sn_log = acts, sn_accepted = 0\<rparr>"
proof (cases "is_binary r")
  case True
  let ?ss = "modem_sms_state_binary_begin (rq_binary_len r) (lk_state lk)"
  have v: "request_valid (Some r)"
    using assms(1) by (rule begin_valid)
  have parts: "0 < send_parts r" "send_parts r \<le> 3"
    using send_parts_bounds [OF v assms(2)] by simp_all
  have total: "ss_binary_segment_total ?ss = of_nat (send_parts r)"
    using parts True accepted_zero_iff [OF v assms(2), of "send_parts r"]
    by (simp add: modem_sms_state_binary_begin_def Let_def send_parts_def)
  have st: "lk_state lk' = ?ss" "pr_binary_segments_accepted (lk_protocol lk') = 0"
    "bodies acts = []" "results acts = []" "wait_after acts Finished = Waiting MODEM_SMS_COMMAND_BINARY_TEXT_SETUP"
    using assms(1) True v
    by (auto simp add: modem_sms_protocol_begin_def binary_start_def is_binary_def upd_ss_def Let_def)
  have "built r (ss_binary_reference ?ss) 0 ?ss"
    using total by (simp add: built_def) (simp add: modem_sms_state_binary_begin_def Let_def)
  then show ?thesis
    using True st
    by (intro exI [of _ "ss_binary_reference ?ss"]) (simp add: send_inv_def send_phase_def send_log_def Let_def)
next
  case False
  have v: "request_valid (Some r)"
    using assms(1) by (rule begin_valid)
  have st: "pr_binary_segments_accepted (lk_protocol lk') = 0" "bodies acts = []" "results acts = []"
    "wait_after acts Finished = Waiting MODEM_SMS_COMMAND_TEXT_SETUP \<or>
     wait_after acts Finished = Waiting MODEM_SMS_COMMAND_CMGS_PROMPT"
    using assms(1) False v valid_operation [OF v]
    by (auto simp add: modem_sms_protocol_begin_def is_binary_def Let_def protocol_zero_def prompt_command_def
        modem_sms_protocol_resume_after_wake_def split: if_splits)
  then show ?thesis
    using False by (intro exI [of _ 0]) (auto simp add: send_inv_def send_phase_def send_log_def Let_def parts_text)
qed

theorem sms_run_inv:
  assumes "sms_run enc r n s" "unat (rq_binary_len r) \<le> 384"
  shows "\<exists>reference. send_inv r reference s"
  using assms(1)
proof (induction rule: sms_run.induct)
  case (start now lk lk' acts)
  then show ?case
    using begin_inv [OF _ assms(2)] by simp
next
  case (dispatched n s k)
  then show ?case
    using dispatched_inv by blast
next
  case (prompt n s k now lk' acts)
  then show ?case
    using prompt_inv [OF sms_run_valid [OF prompt(1)]] by blast
next
  case (final n s k ok now lk' acts)
  then obtain reference where i: "send_inv r reference s"
    by blast
  note v = sms_run_valid [OF final(1)] assms(2)
  have "send_inv r reference (advance (s\<lparr>sn_accepted :=
      (if k = MODEM_SMS_COMMAND_CMGS_FINAL \<and> ok then sn_accepted s + 1 else sn_accepted s)\<rparr>) lk' acts)"
    using final_setup_inv [OF v final(3) i final(2)] final_cmgf_inv [OF v(1) _ i, of ok now lk' acts]
      final_prompt_inv [OF v _ i, of ok now lk' acts] final_final_inv [OF v _ i, of ok now lk' acts] final(2,3)
    by (cases k) simp_all
  then show ?case
    by blast
next
  case (timeout n s k now lk' acts)
  then show ?case
    using timeout_inv [OF sms_run_valid [OF timeout(1)] assms(2)] by blast
next
  case (settled n s now lk' acts)
  then show ?case
    using settled_inv by blast
qed

section \<open>What the receiver gets\<close>

lemma segment_at_simps [simp]:
  "sp_mode (segment_at r reference i) = rq_binary_mode r" "sp_payload_len (segment_at r reference i) = rq_binary_len r"
  "sp_payload (segment_at r reference i) = the (rq_binary r)" "sp_dest_port (segment_at r reference i) = rq_dest_port r"
  "sp_source_port (segment_at r reference i) = rq_source_port r" "sp_segment (segment_at r reference i) = of_nat (i + 1)"
  "sp_segment_total (segment_at r reference i) = of_nat (send_parts r)"
  by (simp_all add: segment_at_def)

lemma body_octets:
  assumes "sms_submit_text_build s cap = Some (s', body)" "\<not> mode_gsm7_text (sp_mode s)"
  shows "body = hex_of (segment_udh s @ segment_chunk s)"
proof -
  let ?c = "if mode_uses_vp (sp_mode s) then [0xa7] else [] :: u8 list"
  obtain head where "append_hex cap (drop (length (head @ [0x00, segment_dcs s] @ ?c @
      [of_nat (udh_total s + chunk_length s)])) ((head @ [0x00, segment_dcs s] @ ?c @
      [of_nat (udh_total s + chunk_length s)]) @ segment_udh s @ segment_chunk s)) [] = Some body"
    using assms by (auto simp add: sms_submit_text_build_def build_segment_def segment_user_data_def Let_def
        simp del: append_assoc length_append split: if_splits option.splits)
  then show ?thesis
    by (simp only: append_eq_conv_conj append_hex_eq) (simp split: if_splits)
qed

lemma segment_at_position:
  assumes "unat (rq_binary_len r) \<le> 384" "MODEM_SMS_BINARY_CHUNK_MAX * i < unat (rq_binary_len r)"
  shows "unat (sp_position (segment_at r reference i)) = MODEM_SMS_BINARY_CHUNK_MAX * i"
    "sp_position (segment_at r reference i) < sp_payload_len (segment_at r reference i)"
proof -
  have "MODEM_SMS_BINARY_CHUNK_MAX * i < 2 ^ 16"
    using assms by simp
  then have "unat (of_nat (MODEM_SMS_BINARY_CHUNK_MAX * i) :: u16) = MODEM_SMS_BINARY_CHUNK_MAX * i"
    by (simp only: unat_of_nat) simp
  then show "unat (sp_position (segment_at r reference i)) = MODEM_SMS_BINARY_CHUNK_MAX * i"
    unfolding segment_at_def by simp
  then show "sp_position (segment_at r reference i) < sp_payload_len (segment_at r reference i)"
    using assms(2) by (simp add: word_less_nat_alt)
qed

lemma segment_at_chunk:
  assumes "unat (rq_binary_len r) \<le> 384" "MODEM_SMS_BINARY_CHUNK_MAX * i < unat (rq_binary_len r)"
  shows "segment_chunk (segment_at r reference i) = take MODEM_SMS_BINARY_CHUNK_MAX
    (drop (MODEM_SMS_BINARY_CHUNK_MAX * i) (take (unat (rq_binary_len r)) (the (rq_binary r))))"
  using advance_position(2) [OF segment_at_position(2) [OF assms, of reference]]
  by (simp add: segment_chunk_def segment_at_position [OF assms] drop_take take_take min.commute)

lemma concat_chunks: "concat (map (\<lambda>i. take k (drop (k * i) xs)) [0..<n]) = take (k * n) xs"
proof (induction n)
  case (Suc n)
  then show ?case
    using take_add [of "k * n" k xs] by (simp add: add.commute)
qed simp

lemma segment_body_decodes:
  assumes v: "request_valid (Some r)" "unat (rq_binary_len r) \<le> 384" "is_binary r"
    and p: "\<not> mode_gsm7_text (rq_binary_mode r)" "unat (rq_binary_len r) \<le> length (the (rq_binary r))"
    and i: "i < send_parts r" and b: "body_of r reference i body"
  shows "\<exists>data. read_hex 140 body [] = Some data \<and>
    decode_user_data data (of_nat (length data)) (segment_use_udh (segment_at r reference i))
      (segment_dcs (segment_at r reference i)) sms_message_zero =
      Some (octets_message (segment_at r reference i) sms_message_zero)"
proof -
  let ?s = "segment_at r reference i"
  have lt: "MODEM_SMS_BINARY_CHUNK_MAX * i < unat (rq_binary_len r)"
    using send_parts_bounds(3) [OF v] i by simp
  have f: "\<not> mode_gsm7_text (sp_mode ?s)" "sp_position ?s < sp_payload_len ?s"
    "unat (sp_payload_len ?s) \<le> length (sp_payload ?s)"
    using p segment_at_position [OF v(2) lt] by simp_all
  note c = chunk_facts [OF f(2,3)] segment_udh_length [of ?s]
  have body: "body = hex_of (segment_udh ?s @ segment_chunk ?s)"
    using b body_octets [OF _ f(1)] by (auto simp add: body_of_def)
  have "read_hex 140 body [] = Some (segment_udh ?s @ segment_chunk ?s)"
    using read_hex_hex_of [of "[]" "segment_udh ?s @ segment_chunk ?s" 140] c by (simp add: body)
  moreover have "decode_user_data (segment_udh ?s @ segment_chunk ?s) (of_nat (udh_total ?s + chunk_length ?s))
      (segment_use_udh ?s) (segment_dcs ?s) sms_message_zero = Some (octets_message ?s sms_message_zero)"
    by (rule decode_segment_octets [OF f]) (simp_all add: sms_message_zero_def)
  ultimately show ?thesis
    using c by simp
qed

lemma segments_use_udh:
  assumes "request_valid (Some r)" "unat (rq_binary_len r) \<le> 384" "\<not> mode_gsm7_text (rq_binary_mode r)"
  shows "segment_multipart (segment_at r reference i) \<longleftrightarrow> 1 < send_parts r"
    "segment_use_port (segment_at r reference i) \<longleftrightarrow> rq_dest_port r \<noteq> 0 \<or> rq_source_port r \<noteq> 0"
proof -
  have "unat (of_nat (send_parts r) :: u8) = send_parts r"
    using send_parts_bounds(2) [OF assms(1,2)] by (simp add: unat_of_nat)
  then show "segment_multipart (segment_at r reference i) \<longleftrightarrow> 1 < send_parts r"
    using assms(3) by (simp add: segment_multipart_def word_less_nat_alt)
  show "segment_use_port (segment_at r reference i) \<longleftrightarrow> rq_dest_port r \<noteq> 0 \<or> rq_source_port r \<noteq> 0"
    using assms(3) by (simp add: segment_use_port_def)
qed

text \<open>C23: the result of a send is honest, in every order of prompts, finals and timeouts: no result is
  published before the session finishes, exactly one when it does, under the identity of the request;
  it says sent only when every part was accepted by the modem and as many bodies went out, and it
  says failed or timed out only when the modem accepted no part.  A payload has at most 384 octets.\<close>

theorem sms_result_is_honest:
  assumes "sms_run enc r n s" "unat (rq_binary_len r) \<le> 384"
  shows "if sn_wait s = Finished
    then \<exists>outcome. results (sn_log s) = [(rq_request_id r, request_kind (Some r), outcome)] \<and>
      (outcome = MODEM_SMS_OUTCOME_OK \<longrightarrow> sn_accepted s = send_parts r \<and> length (bodies (sn_log s)) = send_parts r) \<and>
      (outcome \<in> {MODEM_SMS_OUTCOME_ERROR, MODEM_SMS_OUTCOME_TIMEOUT} \<longrightarrow> sn_accepted s = 0)
    else results (sn_log s) = []"
  using sms_run_inv [OF assms] by (auto simp add: send_inv_def send_log_def honest_def)

text \<open>C25: what is reported as sent is what the receiver reassembles: when a binary send ends with OK, the
  bodies that went out decode, in order, to messages with the ports of the request and the sequence
  numbers 1 to the total, whose octets concatenate to the payload.\<close>

theorem sent_segments_carry_payload:
  assumes "sms_run enc r n s" "unat (rq_binary_len r) \<le> 384" "is_binary r"
    and "\<not> mode_gsm7_text (rq_binary_mode r)" "unat (rq_binary_len r) \<le> length (the (rq_binary r))"
    and "results (sn_log s) = [(rid, kind, MODEM_SMS_OUTCOME_OK)]"
  shows "\<exists>msgs. length msgs = send_parts r \<and>
    concat (map sm_binary_data msgs) = take (unat (rq_binary_len r)) (the (rq_binary r)) \<and>
    (\<forall>i < send_parts r. \<exists>data. read_hex 140 (bodies (sn_log s) ! i) [] = Some data \<and>
       decode_user_data data (of_nat (length data)) (rq_dest_port r \<noteq> 0 \<or> rq_source_port r \<noteq> 0 \<or> 1 < send_parts r)
         (if mode_uses_f5 (rq_binary_mode r) then 0xf5 else 0x04) sms_message_zero = Some (msgs ! i) \<and>
       sm_dest_port (msgs ! i) = rq_dest_port r \<and> sm_source_port (msgs ! i) = rq_source_port r \<and>
       (1 < send_parts r \<longrightarrow> sm_concat_seq (msgs ! i) = of_nat (i + 1) \<and> sm_concat_total (msgs ! i) = of_nat (send_parts r)))"
proof -
  let ?payload = "take (unat (rq_binary_len r)) (the (rq_binary r))"
  note v = sms_run_valid [OF assms(1)] assms(2,3)
  obtain reference where i: "send_inv r reference s"
    using sms_run_inv [OF assms(1,2)] by blast
  have sent: "length (bodies (sn_log s)) = send_parts r"
    "\<forall>i < send_parts r. body_of r reference i (bodies (sn_log s) ! i)"
    using i assms(3,6) by (auto simp add: send_inv_def send_log_def honest_def split: if_splits)
  have lt: "i < send_parts r \<Longrightarrow> MODEM_SMS_BINARY_CHUNK_MAX * i < unat (rq_binary_len r)" for i
    using send_parts_bounds(3) [OF v] by simp
  note udh = segments_use_udh [OF v(1,2) assms(4), of reference]
  define msg where "msg i = octets_message (segment_at r reference i) sms_message_zero" for i
  have "concat (map sm_binary_data (map msg [0..<send_parts r])) =
      concat (map (\<lambda>i. take MODEM_SMS_BINARY_CHUNK_MAX (drop (MODEM_SMS_BINARY_CHUNK_MAX * i) ?payload)) [0..<send_parts r])"
    using segment_at_chunk [OF assms(2) lt] by (auto intro!: arg_cong [where f = concat] simp add: msg_def octets_message_def)
  also have "\<dots> = ?payload"
    using lt send_parts_bounds(3) [OF v, of "send_parts r"] by (simp only: concat_chunks) (simp add: not_less)
  finally have "concat (map sm_binary_data (map msg [0..<send_parts r])) = ?payload" .
  moreover have "\<exists>data. read_hex 140 (bodies (sn_log s) ! i) [] = Some data \<and>
       decode_user_data data (of_nat (length data)) (rq_dest_port r \<noteq> 0 \<or> rq_source_port r \<noteq> 0 \<or> 1 < send_parts r)
         (if mode_uses_f5 (rq_binary_mode r) then 0xf5 else 0x04) sms_message_zero = Some (msg i)"
    if "i < send_parts r" for i
  proof -
    have "segment_use_udh (segment_at r reference i) = (rq_dest_port r \<noteq> 0 \<or> rq_source_port r \<noteq> 0 \<or> 1 < send_parts r)"
      "segment_dcs (segment_at r reference i) = (if mode_uses_f5 (rq_binary_mode r) then 0xf5 else 0x04)"
      using assms(4) by (simp_all only: segment_use_udh_def udh segment_dcs_def segment_at_simps disj_assoc if_False)
    then show ?thesis
      using segment_body_decodes [OF v assms(4,5) that, of reference] sent(2) that unfolding msg_def by simp
  qed
  moreover have "sm_dest_port (msg i) = rq_dest_port r \<and> sm_source_port (msg i) = rq_source_port r \<and>
      (1 < send_parts r \<longrightarrow> sm_concat_seq (msg i) = of_nat (i + 1) \<and> sm_concat_total (msg i) = of_nat (send_parts r))" for i
    by (auto simp add: msg_def octets_message_def udh_message_def udh Let_def sms_message_zero_def simp del: of_nat_add)
  ultimately show ?thesis
    by (intro exI [of _ "map msg [0..<send_parts r]"]) simp
qed

section \<open>Samples\<close>

text \<open>A 130-byte ringing tone to \<open>+45\<close>: set up, two segments, the text parameters restored.\<close>

definition sample_request :: sms_request where
  "sample_request = \<lparr>rq_request_id = 7, rq_operation = MODEM_SMS_PROTOCOL_SEND_BINARY, rq_number = [43, 52, 53],
     rq_text = None, rq_binary = Some (replicate 130 9), rq_binary_len = 130, rq_dest_port = 0x1581,
     rq_source_port = 0, rq_binary_mode = MODEM_BINARY_SMS_MODE_F5_PORT_FIRST\<rparr>"

definition sample_link :: sms_link where
  "sample_link = \<lparr>lk_protocol = protocol_zero, lk_text = text_zero,
     lk_state = \<lparr>ss_binary_body = [], ss_binary_position = 0, ss_binary_segment = 0, ss_binary_segment_total = 0,
       ss_binary_reference = 0, ss_binary_send_ok = False, ss_send_result = no_send_result,
       ss_send_result_pending = False, ss_next_request_id = 6, ss_reserved_request_id = 7,
       ss_reserved_kind = MODEM_SMS_REQUEST_SEND_BINARY\<rparr>\<rparr>"

definition after_begin :: sms_session where
  "after_begin = (case modem_sms_protocol_begin (\<lambda>_. None) (Some sample_request) 0 sample_link of
     (lk, acts, _) \<Rightarrow> \<lparr>sn_link = lk, sn_wait = wait_after acts Finished, sn_log = acts, sn_accepted = 0\<rparr>)"

definition after_prompt :: "sms_session \<Rightarrow> sms_session" where
  "after_prompt s = (case modem_sms_protocol_on_prompt MODEM_SMS_COMMAND_CMGS_PROMPT (Some sample_request) 0 True (sn_link s) of
     (lk, acts, _) \<Rightarrow> advance s lk acts)"

definition after_final :: "modem_sms_command_kind \<Rightarrow> sms_session \<Rightarrow> sms_session" where
  "after_final k s = (case modem_sms_protocol_on_final k True (Some sample_request) 0 (sn_link s) of
     (lk, acts) \<Rightarrow> advance (s\<lparr>sn_accepted :=
       (if k = MODEM_SMS_COMMAND_CMGS_FINAL \<and> True then sn_accepted s + 1 else sn_accepted s)\<rparr>) lk acts)"

definition sample_segments :: sms_session where
  "sample_segments = after_final MODEM_SMS_COMMAND_CMGS_FINAL (after_prompt (after_final MODEM_SMS_COMMAND_CMGS_FINAL
     (after_prompt (after_final MODEM_SMS_COMMAND_BINARY_TEXT_SETUP after_begin))))"

definition sample_session :: sms_session where
  "sample_session = after_final MODEM_SMS_COMMAND_CMGF_TEXT sample_segments"

lemma after_prompt_run:
  assumes "sms_run enc sample_request n s" "sn_wait s = Waiting MODEM_SMS_COMMAND_CMGS_PROMPT"
  shows "sms_run enc sample_request (n + 1) (after_prompt s)"
proof -
  obtain lk acts where "modem_sms_protocol_on_prompt MODEM_SMS_COMMAND_CMGS_PROMPT (Some sample_request) 0 True
      (sn_link s) = (lk, acts, True)"
    using sms_run_valid [OF assms(1)]
    by (auto simp add: modem_sms_protocol_on_prompt_def modem_sms_state_binary_segment_view_def Let_def)
  then show ?thesis
    using sms_run.prompt [OF assms] by (simp add: after_prompt_def)
qed

lemma after_final_run:
  assumes "sms_run enc sample_request n s" "sn_wait s = Waiting k"
  shows "sms_run enc sample_request (n + 1) (after_final k s)"
proof -
  obtain lk acts where f: "modem_sms_protocol_on_final k True (Some sample_request) 0 (sn_link s) = (lk, acts)"
    by fastforce
  show ?thesis
    unfolding after_final_def f prod.case by (rule sms_run.final [OF assms f])
qed

lemma sample_waits:
  "sn_wait (after_final MODEM_SMS_COMMAND_BINARY_TEXT_SETUP after_begin) = Waiting MODEM_SMS_COMMAND_CMGS_PROMPT"
  "sn_wait (after_prompt (after_final MODEM_SMS_COMMAND_BINARY_TEXT_SETUP after_begin)) =
     Waiting MODEM_SMS_COMMAND_CMGS_FINAL"
  "sn_wait (after_final MODEM_SMS_COMMAND_CMGS_FINAL (after_prompt
     (after_final MODEM_SMS_COMMAND_BINARY_TEXT_SETUP after_begin))) = Waiting MODEM_SMS_COMMAND_CMGS_PROMPT"
  "sn_wait (after_prompt (after_final MODEM_SMS_COMMAND_CMGS_FINAL (after_prompt
     (after_final MODEM_SMS_COMMAND_BINARY_TEXT_SETUP after_begin)))) = Waiting MODEM_SMS_COMMAND_CMGS_FINAL"
  "sn_wait sample_segments = Waiting MODEM_SMS_COMMAND_CMGF_TEXT" "sn_wait sample_session = Finished"
  "results (sn_log sample_session) = [(7, MODEM_SMS_REQUEST_SEND_BINARY, MODEM_SMS_OUTCOME_OK)]"
  by code_simp+

lemma sample_run:
  "sms_run (\<lambda>_. None) sample_request 5 sample_segments" "sms_run (\<lambda>_. None) sample_request 6 sample_session"
proof -
  have v: "request_valid (Some sample_request)"
    by (simp add: request_valid_def sample_request_def)
  obtain lk acts where b: "modem_sms_protocol_begin (\<lambda>_. None) (Some sample_request) 0 sample_link = (lk, acts, True)"
    using v by (auto simp add: modem_sms_protocol_begin_def binary_start_def sample_request_def Let_def)
  have "sms_run (\<lambda>_. None) sample_request 0 after_begin"
    unfolding after_begin_def b prod.case by (rule sms_run.start [OF b])
  moreover have "sn_wait after_begin = Waiting MODEM_SMS_COMMAND_BINARY_TEXT_SETUP"
    by code_simp
  ultimately have "sms_run (\<lambda>_. None) sample_request (0 + 1 + 1 + 1 + 1 + 1) sample_segments"
    unfolding sample_segments_def by (intro after_final_run after_prompt_run sample_waits)
  then show s: "sms_run (\<lambda>_. None) sample_request 5 sample_segments"
    by (simp add: numeral_eq_Suc)
  show "sms_run (\<lambda>_. None) sample_request 6 sample_session"
    using after_final_run [OF s sample_waits(5)] by (simp add: sample_session_def)
qed

theorem sms_send_terminates_witness:
  "5 \<le> 2 * unat (rq_binary_len sample_request) + 5 \<and> (\<exists>s'. sms_run (\<lambda>_. None) sample_request (5 + 1) s')"
  using sms_send_terminates [OF sample_run(1)] sample_waits(5) by simp

theorem sms_result_is_honest_witness:
  "\<exists>outcome. results (sn_log sample_session) = [(7, MODEM_SMS_REQUEST_SEND_BINARY, outcome)] \<and>
     (outcome = MODEM_SMS_OUTCOME_OK \<longrightarrow> sn_accepted sample_session = 2 \<and> length (bodies (sn_log sample_session)) = 2)"
proof -
  have "rq_request_id sample_request = 7" "request_kind (Some sample_request) = MODEM_SMS_REQUEST_SEND_BINARY"
    "send_parts sample_request = 2" "unat (rq_binary_len sample_request) \<le> 384"
    by (simp_all add: sample_request_def request_kind_def send_parts_def is_binary_def)
  then show ?thesis
    using sms_result_is_honest [OF sample_run(2)] sample_waits(6) by auto
qed

theorem sent_segments_carry_payload_witness:
  "\<exists>msgs :: sms_message list. length msgs = 2 \<and> concat (map sm_binary_data msgs) = replicate 130 9 \<and>
     (\<forall>i < 2. sm_dest_port (msgs ! i) = 0x1581 \<and> sm_concat_seq (msgs ! i) = of_nat (i + 1))"
proof -
  have r: "is_binary sample_request" "\<not> mode_gsm7_text (rq_binary_mode sample_request)"
    "unat (rq_binary_len sample_request) \<le> 384"
    "unat (rq_binary_len sample_request) \<le> length (the (rq_binary sample_request))"
    "send_parts sample_request = 2" "rq_dest_port sample_request = 0x1581"
    "take (unat (rq_binary_len sample_request)) (the (rq_binary sample_request)) = replicate 130 9"
    by (simp_all add: sample_request_def is_binary_def mode_gsm7_text_def send_parts_def)
  show ?thesis
    using sent_segments_carry_payload [OF sample_run(2) r(3,1,2,4) sample_waits(7)]
    unfolding r(5-7) by (rule ex_forward) auto
qed

end
