(* ===== verification/Sms_Control.thy ===== *)
theory Sms_Control
  imports Sms_Submit
begin

text \<open>
  The control filters of \<open>services/sms_control_filter.c\<close> and \<open>services/sms_vvm_filter.c\<close>: which received
  messages are management traffic that the mailbox does not show.  A \<open>byte_view_t\<close> is the list of its
  bytes, \<open>SIZE_MAX\<close> of a search is None, and NULL views are not passed by any caller.
\<close>

section \<open>Views\<close>

abbreviation "SMS_VVM_LEGACY_STATUS_PORT \<equiv> 0x1578 :: u16"
abbreviation "SMS_VVM_LEGACY_SYNC_PORT \<equiv> 0x157b :: u16"
abbreviation "WAP_PUSH_PORT \<equiv> 2948 :: u16"

definition view_starts_with :: "u8 list \<Rightarrow> u8 list \<Rightarrow> bool" where
  "view_starts_with view literal \<longleftrightarrow>
     length literal \<le> length view \<and> take (length literal) view = literal"

definition view_equals :: "u8 list \<Rightarrow> u8 list \<Rightarrow> bool" where
  "view_equals view literal \<longleftrightarrow> view = literal"

definition view_find :: "u8 list \<Rightarrow> u8 \<Rightarrow> nat \<Rightarrow> nat option" where
  "view_find view needle start = find (\<lambda>i. view ! i = needle) [start..<length view]"

definition view_slice :: "u8 list \<Rightarrow> nat \<Rightarrow> nat \<Rightarrow> u8 list" where
  "view_slice view start stop =
     (if start \<le> stop \<and> stop \<le> length view then take (stop - start) (drop start view) else [])"

definition byte_is_field_text :: "u8 \<Rightarrow> bool" where
  "byte_is_field_text v \<longleftrightarrow> 0x20 \<le> v \<and> v \<le> 0x7e"

lemma view_find_range: "view_find view needle start = Some i \<Longrightarrow> start \<le> i \<and> i < length view"
  by (auto simp add: view_find_def find_Some_iff)

section \<open>Fields\<close>

definition field_end :: "u8 list \<Rightarrow> u8 \<Rightarrow> nat \<Rightarrow> nat" where
  "field_end flds separator pos =
     (case view_find flds separator pos of None \<Rightarrow> length flds | Some stop \<Rightarrow> stop)"

definition after_field :: "u8 list \<Rightarrow> nat \<Rightarrow> nat" where
  "after_field flds stop = stop + (if stop < length flds then 1 else 0)"

lemma after_field_shorter:
  "pos < length flds \<Longrightarrow> length flds - after_field flds (field_end flds separator pos) < length flds - pos"
  using view_find_range [of flds separator pos]
  by (auto simp add: after_field_def field_end_def split: option.splits)

function key_policy_loop :: "u8 list \<Rightarrow> u8 \<Rightarrow> u8 list \<Rightarrow> bool \<Rightarrow> nat \<Rightarrow> bool \<Rightarrow> bool \<Rightarrow> bool" where
  "key_policy_loop flds separator key require_value pos have_field have_required =
     (if length flds \<le> pos then have_field \<and> have_required
      else
        (if field_end flds separator pos \<noteq> pos
         then
           (let field = view_slice flds pos (field_end flds separator pos)
            in case view_find field 61 0 of
                 None \<Rightarrow> False
               | Some eq \<Rightarrow>
                   if eq = 0 \<or> list_ex (\<lambda>c. \<not> byte_is_field_text c) field then False
                   else key_policy_loop flds separator key require_value
                          (after_field flds (field_end flds separator pos)) True
                          (have_required \<or> view_equals (view_slice field 0 eq) key \<and>
                           (\<not> require_value \<or> eq + 1 < length field)))
         else key_policy_loop flds separator key require_value
                (after_field flds (field_end flds separator pos)) have_field have_required))"
  by pat_completeness auto
termination
  by (relation "measure (\<lambda>(flds, separator, key, rv, pos, f, q). length flds - pos)")
    (auto simp only: in_measure prod.case not_le, (metis after_field_shorter)+)

declare key_policy_loop.simps [simp del]

definition fields_have_key_policy :: "u8 list \<Rightarrow> u8 \<Rightarrow> u8 list \<Rightarrow> bool \<Rightarrow> bool" where
  "fields_have_key_policy flds separator key require_value =
     key_policy_loop flds separator key require_value 0 False False"

definition fields_have_key :: "u8 list \<Rightarrow> u8 \<Rightarrow> u8 list \<Rightarrow> bool" where
  "fields_have_key flds separator key = fields_have_key_policy flds separator key True"

definition fields_have_key_allow_empty :: "u8 list \<Rightarrow> u8 \<Rightarrow> u8 list \<Rightarrow> bool" where
  "fields_have_key_allow_empty flds separator key = fields_have_key_policy flds separator key False"

section \<open>Voice mail\<close>

definition omtp_client_prefix_is_vvm :: "u8 list \<Rightarrow> bool" where
  "omtp_client_prefix_is_vvm prefix \<longleftrightarrow>
     5 \<le> length prefix \<and> length prefix \<le> 32 \<and> prefix ! 0 = 47 \<and> prefix ! 1 = 47 \<and>
     drop (length prefix - 3) prefix = ascii ''VVM'' \<and>
     list_all (\<lambda>ch. 65 \<le> ch \<and> ch \<le> 90 \<or> 48 \<le> ch \<and> ch \<le> 57 \<or> ch = 95 \<or> ch = 45) (drop 2 prefix)"

definition omtp_payload_is_recognized :: "u8 list \<Rightarrow> bool" where
  "omtp_payload_is_recognized payload =
     (if \<not> view_starts_with payload (ascii ''//'') then False
      else
        (case view_find payload 58 2 of
           None \<Rightarrow> False
         | Some prefix_end \<Rightarrow>
             if \<not> omtp_client_prefix_is_vvm (view_slice payload 0 prefix_end) then False
             else
               (case view_find payload 58 (prefix_end + 1) of
                  None \<Rightarrow> False
                | Some event_end \<Rightarrow>
                    if length payload < event_end + 1 then False
                    else
                      (let event = view_slice payload (prefix_end + 1) event_end;
                           flds = view_slice payload (event_end + 1) (length payload)
                       in if view_equals event (ascii ''STATUS'')
                          then fields_have_key flds 59 (ascii ''st'') \<or> fields_have_key flds 59 (ascii ''rc'')
                          else if view_equals event (ascii ''SYNC'') then fields_have_key flds 59 (ascii ''ev'')
                          else False))))"

definition legacy_port :: "u16 \<Rightarrow> bool" where
  "legacy_port port \<longleftrightarrow> port = SMS_VVM_LEGACY_STATUS_PORT \<or> port = SMS_VVM_LEGACY_SYNC_PORT"

definition legacy_prefixed :: "u8 list \<Rightarrow> string \<Rightarrow> string \<Rightarrow> bool" where
  "legacy_prefixed payload prefix key =
     fields_have_key (view_slice payload (length (ascii prefix)) (length payload)) 59 (ascii key)"

definition legacy_payload_is_recognized :: "u16 \<Rightarrow> u8 list \<Rightarrow> bool" where
  "legacy_payload_is_recognized port payload =
     (if \<not> legacy_port port then False
      else if view_starts_with payload (ascii ''STATE?'') then legacy_prefixed payload ''STATE?'' ''state''
      else if view_starts_with payload (ascii ''MBOXUPDATE?'') then legacy_prefixed payload ''MBOXUPDATE?'' ''m''
      else if view_starts_with payload (ascii ''UNRECOGNIZED?'') then legacy_prefixed payload ''UNRECOGNIZED?'' ''cmd''
      else if view_starts_with payload (ascii ''UNRECOGNISED?'') then legacy_prefixed payload ''UNRECOGNISED?'' ''cmd''
      else False)"

fun host_is_valid :: "u8 list \<Rightarrow> bool \<Rightarrow> bool \<Rightarrow> bool" where
  "host_is_valid [] has_alnum last_hyphen \<longleftrightarrow> has_alnum \<and> \<not> last_hyphen"
| "host_is_valid (ch # rest) has_alnum last_hyphen \<longleftrightarrow>
     (if 97 \<le> ch \<and> ch \<le> 122 \<or> 65 \<le> ch \<and> ch \<le> 90 \<or> 48 \<le> ch \<and> ch \<le> 57 then host_is_valid rest True False
      else if ch = 45 then has_alnum \<and> host_is_valid rest has_alnum True
      else if ch = 46 then has_alnum \<and> \<not> last_hyphen \<and> host_is_valid rest False False
      else False)"

fun port_value :: "u8 list \<Rightarrow> nat \<Rightarrow> nat option" where
  "port_value [] v = Some v"
| "port_value (ch # rest) v =
     (if ch < 48 \<or> 57 < ch then None
      else
        (let digit = unat (ch - 48)
         in if (65535 - digit) div 10 < v then None else port_value rest (v * 10 + digit)))"

definition legacy_url_authority_is_valid :: "u8 list \<Rightarrow> bool" where
  "legacy_url_authority_is_valid authority =
     (case view_find authority 58 0 of
        None \<Rightarrow> False
      | Some colon \<Rightarrow>
          if colon = 0 \<or> length authority \<le> colon + 1 \<or> view_find authority 58 (colon + 1) \<noteq> None then False
          else if \<not> host_is_valid (view_slice authority 0 colon) False False then False
          else (case port_value (view_slice authority (colon + 1) (length authority)) 0 of
                  None \<Rightarrow> False
                | Some v \<Rightarrow> v \<noteq> 0))"

definition legacy_url_payload_is_recognized :: "u16 \<Rightarrow> u8 list \<Rightarrow> bool" where
  "legacy_url_payload_is_recognized port payload =
     (if port \<noteq> SMS_VVM_LEGACY_SYNC_PORT then False
      else
        (case view_find payload 63 0 of
           None \<Rightarrow> False
         | Some query \<Rightarrow>
             if query = 0 \<or> length payload \<le> query + 1 \<or> view_find payload 63 (query + 1) \<noteq> None \<or>
                \<not> legacy_url_authority_is_valid (view_slice payload 0 query)
             then False
             else
               (let flds = view_slice payload (query + 1) (length payload)
                in fields_have_key flds 38 (ascii ''f'') \<and> fields_have_key flds 38 (ascii ''v'') \<and>
                   fields_have_key flds 38 (ascii ''m'') \<and> fields_have_key_allow_empty flds 38 (ascii ''p'') \<and>
                   fields_have_key flds 38 (ascii ''s'') \<and> fields_have_key flds 38 (ascii ''t''))))"

definition sms_vvm_control_payload_is_recognized :: "bool \<Rightarrow> u16 \<Rightarrow> u8 list \<Rightarrow> bool" where
  "sms_vvm_control_payload_is_recognized has_ports port payload =
     (let view = rev (dropWhile (\<lambda>c. c = 0 \<or> c = 13 \<or> c = 10) (rev payload))
      in has_ports \<and> view \<noteq> [] \<and>
         (omtp_payload_is_recognized view \<or> legacy_payload_is_recognized port view \<or>
          legacy_url_payload_is_recognized port view))"

section \<open>Classification\<close>

datatype sms_control_filter = SMS_CONTROL_KEEP | SMS_CONTROL_TYPE0 | SMS_CONTROL_VVM | SMS_CONTROL_OMA_DM

definition oma_dm_notification :: "u8 list \<Rightarrow> bool" where
  "oma_dm_notification data =
     (if length data < 6 + 24 + 1 \<or> take 5 (drop 1 data) \<noteq> [0x06, 0x03, 0xc4, 0xaf, 0x87] then False
      else
        (let header = drop (6 + 16) data;
             version = 4 * unat (header ! 0) + unat (header ! 1) div 64;
             server_length = unat (header ! 7)
         in if version \<noteq> 11 \<or> header ! 1 AND 0x0f \<noteq> 0x08 \<or> header ! 2 \<noteq> 0 \<or> header ! 3 \<noteq> 0 \<or>
               header ! 4 \<noteq> 0 \<or> server_length = 0 \<or> length data \<noteq> 6 + 24 + server_length
            then False
            else list_all (\<lambda>c. 0x21 \<le> c \<and> c \<le> 0x7e) (take server_length (drop 8 header))))"

definition sms_control_classify_payload :: "sms_message \<Rightarrow> bool \<Rightarrow> u8 list \<Rightarrow> sms_control_filter" where
  "sms_control_classify_payload m wdp payload =
     (if sm_submit m then SMS_CONTROL_KEEP
      else if sm_pid m = 0x40 then SMS_CONTROL_TYPE0
      else
        (let ordinary_dcs = (sm_dcs m = 0x00 \<or> sm_dcs m = 0x04 \<or> sm_dcs m = 0x08);
             dm_octets = (sm_dcs m = 0x04 \<or> sm_dcs m = 0x15 \<or> sm_dcs m = 0xf5)
         in if sm_pid m \<noteq> 0 \<or> sm_has_concat m \<or> sm_udh_unhandled m \<or> sm_trailing_data m \<or>
               (\<not> ordinary_dcs \<and> \<not> dm_octets)
            then SMS_CONTROL_KEEP
            else if ordinary_dcs \<and> sms_vvm_control_payload_is_recognized (sm_has_ports m) (sm_dest_port m) payload
            then SMS_CONTROL_VVM
            else if \<not> sm_binary m \<or> \<not> dm_octets then SMS_CONTROL_KEEP
            else if wdp then
              (if sm_has_ports m \<or> length payload < 7 \<or> payload ! 0 \<noteq> 0 \<or> payload ! 1 \<noteq> 1 \<or> payload ! 2 \<noteq> 0 \<or>
                  be16 (payload ! 5) (payload ! 6) \<noteq> WAP_PUSH_PORT
               then SMS_CONTROL_KEEP
               else if oma_dm_notification (drop 7 payload) then SMS_CONTROL_OMA_DM else SMS_CONTROL_KEEP)
            else if \<not> sm_has_ports m \<or> sm_dest_port m \<noteq> WAP_PUSH_PORT then SMS_CONTROL_KEEP
            else if oma_dm_notification payload then SMS_CONTROL_OMA_DM else SMS_CONTROL_KEEP))"

definition sms_control_classify :: "sms_message \<Rightarrow> bool \<Rightarrow> sms_control_filter" where
  "sms_control_classify m wdp =
     (if SMS_CODEC_BINARY_MAX < unat (sm_binary_len m) then SMS_CONTROL_KEEP
      else sms_control_classify_payload m wdp
             (if sm_binary m then take (unat (sm_binary_len m)) (sm_binary_data m) else sm_text m))"

section \<open>What a field list is\<close>

text \<open>The reference: the non-empty pieces between separators, each printable text with a key before
  the first equals sign.\<close>

fun pieces :: "u8 \<Rightarrow> u8 list \<Rightarrow> u8 list list" where
  "pieces sep [] = [[]]"
| "pieces sep (c # cs) =
     (if c = sep then [] # pieces sep cs else (c # hd (pieces sep cs)) # tl (pieces sep cs))"

definition field_key :: "u8 list \<Rightarrow> u8 list" where
  "field_key f = takeWhile (\<lambda>c. c \<noteq> 61) f"

definition well_formed_field :: "u8 list \<Rightarrow> bool" where
  "well_formed_field f \<longleftrightarrow> 61 \<in> set f \<and> field_key f \<noteq> [] \<and> list_all byte_is_field_text f"

definition names_key :: "u8 list \<Rightarrow> bool \<Rightarrow> u8 list \<Rightarrow> bool" where
  "names_key key require_value f \<longleftrightarrow>
     field_key f = key \<and> (require_value \<longrightarrow> length key + 1 < length f)"

lemma pieces_nonempty [simp]: "pieces sep cs \<noteq> []"
  by (cases cs) auto

lemma pieces_cut: "pieces sep cs =
    takeWhile (\<lambda>c. c \<noteq> sep) cs # (case dropWhile (\<lambda>c. c \<noteq> sep) cs of [] \<Rightarrow> [] | _ # rest \<Rightarrow> pieces sep rest)"
  by (induction cs) (auto split: list.splits)

lemma view_find_takeWhile:
  "view_find view c start =
     (let n = length (takeWhile (\<lambda>x. x \<noteq> c) (drop start view))
      in if start + n < length view then Some (start + n) else None)"
proof (cases "view_find view c start")
  case None
  then have "\<forall>i. start \<le> i \<and> i < length view \<longrightarrow> view ! i \<noteq> c"
    by (auto simp add: view_find_def find_None_iff)
  then have "takeWhile (\<lambda>x. x \<noteq> c) (drop start view) = drop start view"
    by (auto simp add: takeWhile_eq_all_conv in_set_conv_nth) (metis le_add1 less_diff_conv add.commute)
  then have "length (takeWhile (\<lambda>x. x \<noteq> c) (drop start view)) = length view - start"
    by (simp only: length_drop)
  then have "\<not> start + length (takeWhile (\<lambda>x. x \<noteq> c) (drop start view)) < length view"
    by linarith
  then show ?thesis
    unfolding None Let_def by (simp only: if_False)
next
  case (Some i)
  then obtain k where k: "i = start + k" "start + k < length view" "view ! (start + k) = c"
      "\<forall>j<k. view ! (start + j) \<noteq> c"
    by (auto simp add: view_find_def find_Some_iff)
  have "takeWhile (\<lambda>x. x \<noteq> c) (drop start view) = take k (drop start view)"
    by (rule takeWhile_eq_take_P_nth) (use k in auto)
  then have "length (takeWhile (\<lambda>x. x \<noteq> c) (drop start view)) = k"
    using k by simp
  then show ?thesis
    unfolding Some Let_def using k by simp
qed

lemma field_end_takeWhile:
  "pos \<le> length flds \<Longrightarrow>
   field_end flds sep pos = pos + length (takeWhile (\<lambda>c. c \<noteq> sep) (drop pos flds))"
  using length_takeWhile_le [of "\<lambda>c. c \<noteq> sep" "drop pos flds"]
  by (auto simp add: field_end_def view_find_takeWhile Let_def split: option.splits)

lemma field_slice:
  "pos \<le> length flds \<Longrightarrow>
   view_slice flds pos (field_end flds sep pos) = takeWhile (\<lambda>c. c \<noteq> sep) (drop pos flds)"
  using length_takeWhile_le [of "\<lambda>c. c \<noteq> sep" "drop pos flds"]
  by (simp add: view_slice_def field_end_takeWhile) (metis takeWhile_eq_take)

lemma after_field_drop:
  "pos \<le> length flds \<Longrightarrow> drop (after_field flds (field_end flds sep pos)) flds =
     (case dropWhile (\<lambda>c. c \<noteq> sep) (drop pos flds) of [] \<Rightarrow> [] | _ # rest \<Rightarrow> rest)"
proof -
  assume p: "pos \<le> length flds"
  let ?n = "length (takeWhile (\<lambda>c. c \<noteq> sep) (drop pos flds))"
  have d: "dropWhile (\<lambda>c. c \<noteq> sep) (drop pos flds) = drop (pos + ?n) flds"
    by (simp add: dropWhile_eq_drop add.commute)
  show ?thesis
    unfolding d field_end_takeWhile [OF p] after_field_def
    by (cases "pos + ?n < length flds") (auto simp add: Cons_nth_drop_Suc [symmetric])
qed

lemma field_eq_sign:
  "view_find field 61 0 = (if 61 \<in> set field then Some (length (field_key field)) else None)"
proof (cases "61 \<in> set field")
  case True
  then have "takeWhile (\<lambda>c. c \<noteq> 61) field \<noteq> field"
    by (auto simp add: takeWhile_eq_all_conv)
  then have "length (takeWhile (\<lambda>c. c \<noteq> 61) field) < length field"
    by (metis length_takeWhile_le le_neq_implies_less takeWhile_eq_take take_all_iff order_refl)
  then show ?thesis
    using True by (simp add: view_find_takeWhile field_key_def)
next
  case False
  then have tw: "takeWhile (\<lambda>c. c \<noteq> 61) field = field"
    by (auto simp add: takeWhile_eq_all_conv)
  show ?thesis
    unfolding view_find_takeWhile drop_0 tw Let_def using False by simp
qed

lemma field_key_slice: "view_slice field 0 (length (field_key field)) = field_key field"
  using length_takeWhile_le [of "\<lambda>c. c \<noteq> 61" field]
  by (simp add: view_slice_def field_key_def) (metis takeWhile_eq_take)

text \<open>One round of the loop on the field at its front.\<close>

lemma key_policy_round:
  assumes "pos < length flds"
    and f_def: "f = takeWhile (\<lambda>c. c \<noteq> sep) (drop pos flds)"
    and next_def: "next = after_field flds (field_end flds sep pos)"
  shows "key_policy_loop flds sep key rv pos hf hr =
    (if f = [] then key_policy_loop flds sep key rv next hf hr
     else well_formed_field f \<and> key_policy_loop flds sep key rv next True (hr \<or> names_key key rv f))"
proof -
  have p: "pos \<le> length flds"
    using assms(1) by simp
  have e: "field_end flds sep pos = pos \<longleftrightarrow> f = []"
    by (simp add: field_end_takeWhile [OF p] f_def)
  have wf: "well_formed_field f \<longleftrightarrow> 61 \<in> set f \<and> length (field_key f) \<noteq> 0 \<and>
      \<not> list_ex (\<lambda>c. \<not> byte_is_field_text c) f"
    by (auto simp add: well_formed_field_def list_all_iff list_ex_iff)
  have nk: "names_key key rv f \<longleftrightarrow> field_key f = key \<and> (\<not> rv \<or> length (field_key f) + 1 < length f)"
    by (auto simp add: names_key_def)
  have s: "view_slice flds pos (field_end flds sep pos) = f"
    by (simp add: field_slice [OF p] f_def)
  show ?thesis
    by (subst key_policy_loop.simps)
      (use assms(1) in \<open>simp add: Let_def e s field_eq_sign field_key_slice view_equals_def wf nk next_def\<close>)
qed

lemma key_policy_loop_pieces:
  "pos \<le> length flds \<Longrightarrow> key_policy_loop flds sep key rv pos hf hr =
     (let fs = filter (\<lambda>f. f \<noteq> []) (pieces sep (drop pos flds))
      in list_all well_formed_field fs \<and> (hf \<or> fs \<noteq> []) \<and> (hr \<or> list_ex (names_key key rv) fs))"
proof (induction "length flds - pos" arbitrary: pos hf hr rule: less_induct)
  case less
  show ?case
  proof (cases "pos = length flds")
    case True
    then show ?thesis
      by (simp add: key_policy_loop.simps [of flds])
  next
    case False
    then have lt: "pos < length flds"
      using less(2) by simp
    let ?next = "after_field flds (field_end flds sep pos)"
    let ?f = "takeWhile (\<lambda>c. c \<noteq> sep) (drop pos flds)"
    have next_le: "?next \<le> length flds"
      using field_end_takeWhile [OF less(2), of sep] length_takeWhile_le [of "\<lambda>c. c \<noteq> sep" "drop pos flds"] lt
      by (simp add: after_field_def) linarith
    note ih = less(1) [OF after_field_shorter [OF lt] next_le]
    define rest where "rest = filter (\<lambda>f. f \<noteq> []) (pieces sep (drop ?next flds))"
    have "filter (\<lambda>f. f \<noteq> []) (pieces sep (drop pos flds)) = (if ?f = [] then rest else ?f # rest)"
      unfolding rest_def after_field_drop [OF less(2)] pieces_cut [of sep "drop pos flds"]
      by (cases "dropWhile (\<lambda>c. c \<noteq> sep) (drop pos flds)")
        (simp_all only: list.case filter.simps pieces.simps simp_thms if_True if_False split: if_splits, blast+)
    then show ?thesis
      using ih unfolding key_policy_round [OF lt refl refl] Let_def rest_def [symmetric] by auto
  qed
qed

text \<open>the scan of a notification's fields accepts exactly what the format says: every non-empty piece
  between separators is printable text with a non-empty key before its first equals sign, and one of
  the pieces has the key that is asked for (and a value, where one is required).\<close>

theorem fields_have_key_spec:
  "fields_have_key_policy flds sep key require_value \<longleftrightarrow>
     (\<forall>f\<in>set (pieces sep flds). f = [] \<or> well_formed_field f) \<and>
     (\<exists>f\<in>set (pieces sep flds). f \<noteq> [] \<and> names_key key require_value f)"
  unfolding fields_have_key_policy_def
  by (subst key_policy_loop_pieces) (auto simp add: Let_def list_all_iff list_ex_iff filter_empty_conv)

end
