(* ===== verification/Message_File.thy ===== *)
theory Message_File
  imports Sms_Control Sms_Roundtrip
begin

text \<open>
  The stored form of a message, \<open>services/message_file_codec.c\<close>: drafts, and received messages as the
  PDUs they came in, merged part by part.  A part is the list of its bytes; the union of parts and
  draft is their fields, of which the unused ones stay empty.  A draft string is the bytes before the
  NUL, or the whole array where there is none.  The static scratch of the file carries nothing from
  one call to the next.  A function that answers false returns None: no caller reads the output then.
\<close>

section \<open>Data\<close>

abbreviation "MESSAGE_FILE_PART_LIMIT \<equiv> 16 :: nat"
abbreviation "MESSAGE_FILE_PDU_MAX \<equiv> 191 :: nat"
abbreviation "MESSAGE_FILE_DRAFT \<equiv> 1 :: u8"
abbreviation "MESSAGE_FILE_QUARANTINED \<equiv> 2 :: u8"
abbreviation "MESSAGE_FILE_SENT \<equiv> 4 :: u8"
abbreviation "KNOWN_FLAGS \<equiv> 7 :: u8"
abbreviation "CONCAT_WINDOW_SECONDS \<equiv> 86400 :: u32"
abbreviation "MODEM_SMS_SENDER_MAX \<equiv> 32 :: nat"
abbreviation "MODEM_SMS_SEGMENT_MAX \<equiv> 8 :: u8"
abbreviation "MESSAGE_TEXT_MAX \<equiv> 2560 :: nat"

record message_file =
  mf_flags :: u8
  mf_parts :: "u8 list list"
  mf_address :: "u8 list"
  mf_text :: "u8 list"

datatype message_merge =
  MESSAGE_MERGE_UNRELATED | MESSAGE_MERGE_ADDED | MESSAGE_MERGE_DUPLICATE | MESSAGE_MERGE_FULL

record rtc_datetime =
  dt_year :: u16
  dt_month :: u8
  dt_day :: u8
  dt_hour :: u8
  dt_minute :: u8
  dt_second :: u8

record message_metadata =
  mm_id :: u32
  mm_read :: bool
  mm_sent :: bool
  mm_binary :: bool
  mm_quarantined :: bool
  mm_address :: "u8 list"
  mm_timestamp :: "u8 list"

record message_content =
  mc_metadata :: message_metadata
  mc_text :: "u8 list"

definition message_file_zero :: message_file where
  "message_file_zero = \<lparr>mf_flags = 0, mf_parts = [], mf_address = [], mf_text = []\<rparr>"

definition has_flag :: "message_file \<Rightarrow> u8 \<Rightarrow> bool" where
  "has_flag file flag \<longleftrightarrow> mf_flags file AND flag \<noteq> 0"

section \<open>Parts\<close>

definition nibble :: "u8 \<Rightarrow> u8 option" where
  "nibble c =
     (if 48 \<le> c \<and> c \<le> 57 then Some (c - 48)
      else if 97 \<le> c \<and> c \<le> 102 then Some (c - 97 + 10)
      else if 65 \<le> c \<and> c \<le> 70 then Some (c - 65 + 10)
      else None)"

fun hex_pairs :: "u8 list \<Rightarrow> u8 list option" where
  "hex_pairs (h # l # rest) =
     (case (nibble h, nibble l) of
        (Some hi, Some lo) \<Rightarrow> map_option (\<lambda>bs. (push_bit 4 hi OR lo) # bs) (hex_pairs rest)
      | _ \<Rightarrow> None)"
| "hex_pairs _ = Some []"

definition part_parse :: "u8 list \<Rightarrow> (u8 list \<times> sms_message) option" where
  "part_parse hex =
     (if hex = [] \<or> odd (length hex) \<or> 2 * MESSAGE_FILE_PDU_MAX < length hex then None
      else
        (case sms_pdu_decode hex of
           None \<Rightarrow> None
         | Some decoded \<Rightarrow> map_option (\<lambda>bytes. (bytes, decoded)) (hex_pairs hex)))"

definition part_decode :: "u8 list \<Rightarrow> sms_message option" where
  "part_decode part =
     (if part = [] \<or> MESSAGE_FILE_PDU_MAX < length part then None else sms_pdu_decode (hex_of part))"

definition quarantined :: "sms_message \<Rightarrow> bool" where
  "quarantined m \<longleftrightarrow>
     sm_submit m \<or> sm_udh_unhandled m \<or> sm_trailing_data m \<or>
     (sm_has_concat m \<and>
      (sm_concat_total m = 0 \<or> MODEM_SMS_SEGMENT_MAX < sm_concat_total m \<or> sm_concat_seq m = 0 \<or>
       sm_concat_total m < sm_concat_seq m))"

section \<open>Time\<close>

definition pair :: "u8 list \<Rightarrow> nat" where
  "pair p = unat (p ! 0 - 48) * 10 + unat (p ! 1 - 48)"

definition month_days :: "nat list" where
  "month_days = [31, 28, 31, 30, 31, 30, 31, 31, 30, 31, 30, 31]"

definition days_of_month :: "nat \<Rightarrow> nat \<Rightarrow> nat" where
  "days_of_month year month =
     month_days ! (month - 1) + (if month = 2 \<and> year mod 4 = 0 then 1 else 0)"

definition message_datetime_seconds :: "rtc_datetime \<Rightarrow> u32" where
  "message_datetime_seconds date =
     (if dt_year date < 2000 \<or> 2099 < dt_year date then 0
      else
        (let year = unat (dt_year date - 2000); month = unat (dt_month date); day = unat (dt_day date);
             hour = unat (dt_hour date); minute = unat (dt_minute date); second = unat (dt_second date)
         in if month = 0 \<or> 12 < month \<or> day = 0 \<or> 23 < hour \<or> 59 < minute \<or> 59 < second then 0
            else if days_of_month year month < day then 0
            else
              (let n_total = of_nat year * 365 + of_nat ((year + 3) div 4) + of_nat day - 1 +
                             of_nat (sum_list (map (days_of_month year) [1..<month])) :: u32
               in n_total * 86400 + of_nat hour * 3600 + of_nat minute * 60 + of_nat second)))"

definition message_timestamp_seconds :: "u8 list \<Rightarrow> u32" where
  "message_timestamp_seconds ts =
     (if length ts < 17 \<or> ts ! 2 \<noteq> 47 \<or> ts ! 5 \<noteq> 47 \<or> ts ! 8 \<noteq> 44 \<or> ts ! 11 \<noteq> 58 \<or> ts ! 14 \<noteq> 58 then 0
      else if list_ex (\<lambda>i. ts ! i < 48 \<or> 57 < ts ! i \<or> ts ! (i + 1) < 48 \<or> 57 < ts ! (i + 1))
                [0, 3, 6, 9, 12, 15] then 0
      else
        message_datetime_seconds
          \<lparr>dt_year = 2000 + of_nat (pair ts), dt_month = of_nat (pair (drop 3 ts)),
           dt_day = of_nat (pair (drop 6 ts)), dt_hour = of_nat (pair (drop 9 ts)),
           dt_minute = of_nat (pair (drop 12 ts)), dt_second = of_nat (pair (drop 15 ts))\<rparr>)"

section \<open>Groups and valid files\<close>

definition same_group :: "sms_message \<Rightarrow> sms_message \<Rightarrow> bool" where
  "same_group a b \<longleftrightarrow>
     (let ta = message_timestamp_seconds (sm_timestamp a); tb = message_timestamp_seconds (sm_timestamp b);
          distance = (if tb < ta then ta - tb else tb - ta)
      in sm_has_concat a \<and> sm_has_concat b \<and> sm_concat_ref a = sm_concat_ref b \<and>
         sm_concat_ref_16bit a = sm_concat_ref_16bit b \<and> sm_concat_total a = sm_concat_total b \<and>
         sm_pid a = sm_pid b \<and> sm_dcs a = sm_dcs b \<and> sm_has_ports a = sm_has_ports b \<and>
         (\<not> sm_has_ports a \<or> (sm_dest_port a = sm_dest_port b \<and> sm_source_port a = sm_source_port b)) \<and>
         sm_address a = sm_address b \<and> ta \<noteq> 0 \<and> tb \<noteq> 0 \<and> distance \<le> CONCAT_WINDOW_SECONDS)"

text \<open>The loop of \<open>valid_file\<close> from part \<open>i\<close> on.\<close>

fun valid_parts :: "bool \<Rightarrow> sms_message \<Rightarrow> nat \<Rightarrow> nat \<Rightarrow> u8 \<Rightarrow> u8 list list \<Rightarrow> bool" where
  "valid_parts quarantine first count i seen [] = True"
| "valid_parts quarantine first count i seen (p # ps) =
     (case part_decode p of
        None \<Rightarrow> False
      | Some part \<Rightarrow>
          if i \<noteq> 0 \<and> \<not> same_group first part then False
          else if quarantine then valid_parts quarantine first count (i + 1) seen ps
          else if quarantined part then False
          else if \<not> sm_has_concat part then count = 1
          else
            (let b = push_bit (unat (sm_concat_seq part - 1)) 1
             in if seen AND b \<noteq> 0 then False
                else valid_parts quarantine first count (i + 1) (seen OR b) ps))"

definition valid_file :: "message_file \<Rightarrow> bool" where
  "valid_file file =
     (if mf_flags file AND NOT KNOWN_FLAGS \<noteq> 0 then False
      else if has_flag file MESSAGE_FILE_DRAFT then
        \<not> has_flag file MESSAGE_FILE_QUARANTINED \<and> mf_parts file = [] \<and>
        length (mf_address file) \<le> MODEM_SMS_SENDER_MAX \<and> length (mf_text file) \<le> MODEM_SMS_TEXT_MAX
      else if mf_parts file = [] \<or> MESSAGE_FILE_PART_LIMIT < length (mf_parts file) then False
      else
        (case part_decode (hd (mf_parts file)) of
           None \<Rightarrow> False
         | Some first \<Rightarrow>
             (let quarantine = has_flag file MESSAGE_FILE_QUARANTINED
              in if quarantined first \<and> \<not> quarantine then False
                 else valid_parts quarantine first (length (mf_parts file)) 0 0 (mf_parts file))))"

section \<open>Making files\<close>

definition message_file_draft :: "u8 list \<Rightarrow> u8 list \<Rightarrow> message_file option" where
  "message_file_draft address txt =
     (if MODEM_SMS_SENDER_MAX < length address \<or> MODEM_SMS_TEXT_MAX < length txt then None
      else Some (message_file_zero\<lparr>mf_flags := MESSAGE_FILE_DRAFT, mf_address := address, mf_text := txt\<rparr>))"

definition message_file_receive :: "u8 list \<Rightarrow> message_file option" where
  "message_file_receive pdu =
     (case part_parse pdu of
        None \<Rightarrow> None
      | Some (part, decoded) \<Rightarrow>
          Some (message_file_zero\<lparr>mf_parts := [part],
            mf_flags := (if quarantined decoded then MESSAGE_FILE_QUARANTINED else 0)\<rparr>))"

text \<open>Whether a part with the number of \<open>b\<close> is there already; None when a part does not decode.\<close>

fun merge_conflict :: "u8 list list \<Rightarrow> sms_message \<Rightarrow> bool \<Rightarrow> bool option" where
  "merge_conflict [] b conflict = Some conflict"
| "merge_conflict (p # ps) b conflict =
     (case part_decode p of
        None \<Rightarrow> None
      | Some a \<Rightarrow> merge_conflict ps b (conflict \<or> sm_concat_seq a = sm_concat_seq b))"

definition message_file_merge :: "u8 list \<Rightarrow> message_file \<Rightarrow> message_file \<times> message_merge" where
  "message_file_merge pdu file =
     (if has_flag file MESSAGE_FILE_DRAFT \<or> mf_parts file = [] \<or>
         MESSAGE_FILE_PART_LIMIT < length (mf_parts file)
      then (file, MESSAGE_MERGE_UNRELATED)
      else
        (case (part_parse pdu, part_decode (hd (mf_parts file))) of
           (Some (incoming, b), Some a) \<Rightarrow>
             if incoming \<in> set (mf_parts file) then (file, MESSAGE_MERGE_DUPLICATE)
             else if \<not> same_group a b then (file, MESSAGE_MERGE_UNRELATED)
             else if length (mf_parts file) = MESSAGE_FILE_PART_LIMIT then (file, MESSAGE_MERGE_FULL)
             else
               (case merge_conflict (mf_parts file) b (quarantined b) of
                  None \<Rightarrow> (file, MESSAGE_MERGE_UNRELATED)
                | Some conflict \<Rightarrow>
                    (file\<lparr>mf_parts := mf_parts file @ [incoming],
                       mf_flags := (if conflict then mf_flags file OR MESSAGE_FILE_QUARANTINED
                                    else mf_flags file)\<rparr>, MESSAGE_MERGE_ADDED))
         | _ \<Rightarrow> (file, MESSAGE_MERGE_UNRELATED)))"

section \<open>Completeness\<close>

fun complete_mask :: "u8 \<Rightarrow> u8 \<Rightarrow> u8 list list \<Rightarrow> u8 option" where
  "complete_mask n_total seen [] = Some seen"
| "complete_mask n_total seen (p # ps) =
     (case part_decode p of
        None \<Rightarrow> None
      | Some part \<Rightarrow>
          if sm_concat_seq part = 0 \<or> n_total < sm_concat_seq part then None
          else complete_mask n_total (seen OR push_bit (unat (sm_concat_seq part - 1)) 1) ps)"

definition message_file_complete :: "message_file \<Rightarrow> bool" where
  "message_file_complete file =
     (if \<not> valid_file file then False
      else if has_flag file MESSAGE_FILE_DRAFT then True
      else if mf_parts file = [] \<or> MESSAGE_FILE_PART_LIMIT < length (mf_parts file) then False
      else if has_flag file MESSAGE_FILE_QUARANTINED then True
      else
        (case part_decode (hd (mf_parts file)) of
           None \<Rightarrow> False
         | Some part \<Rightarrow>
             if \<not> sm_has_concat part then length (mf_parts file) = 1
             else
               (let n_total = sm_concat_total part
                in if n_total = 0 \<or> MODEM_SMS_SEGMENT_MAX < n_total \<or> unat n_total \<noteq> length (mf_parts file) then False
                   else complete_mask n_total 0 (mf_parts file) = Some (push_bit (unat n_total) 1 - 1))))"

section \<open>The wire format\<close>

fun encode_parts :: "nat \<Rightarrow> u8 list list \<Rightarrow> u8 list \<Rightarrow> u8 list option" where
  "encode_parts cap [] dst = Some dst"
| "encode_parts cap (p # ps) dst =
     (let n = length p
      in if n = 0 \<or> MESSAGE_FILE_PDU_MAX < n \<or> cap - length dst < n + 1 then None
         else encode_parts cap ps (dst @ [of_nat n] @ p))"

definition message_file_encode :: "message_file \<Rightarrow> nat \<Rightarrow> u8 list option" where
  "message_file_encode file cap =
     (if \<not> valid_file file \<or> cap < 8 then None
      else if has_flag file MESSAGE_FILE_DRAFT then
        (let address = length (mf_address file); txt = length (mf_text file)
         in if MODEM_SMS_SENDER_MAX < address \<or> MODEM_SMS_TEXT_MAX < txt \<or> cap - 8 < address + txt then None
            else Some ([83, 77, 1, mf_flags file, of_nat address, 0, of_nat txt, 0] @
                       mf_address file @ mf_text file))
      else if mf_parts file = [] \<or> MESSAGE_FILE_PART_LIMIT < length (mf_parts file) then None
      else encode_parts cap (mf_parts file)
             [83, 77, 1, mf_flags file, of_nat (length (mf_parts file)), 0, 0, 0])"

text \<open>\<open>n\<close> parts from the front of the bytes; all bytes must be used.\<close>

fun decode_parts :: "nat \<Rightarrow> u8 list \<Rightarrow> u8 list list option" where
  "decode_parts 0 src = (if src = [] then Some [] else None)"
| "decode_parts (Suc count) [] = None"
| "decode_parts (Suc count) (b # src) =
     (let n = unat b
      in if n = 0 \<or> MESSAGE_FILE_PDU_MAX < n \<or> length src < n then None
         else map_option ((#) (take n src)) (decode_parts count (drop n src)))"

definition message_file_decode :: "u8 list \<Rightarrow> message_file option" where
  "message_file_decode src =
     (if length src < 8 \<or> src ! 0 \<noteq> 83 \<or> src ! 1 \<noteq> 77 \<or> src ! 2 \<noteq> 1 \<or>
         src ! 3 AND NOT KNOWN_FLAGS \<noteq> 0 \<or> src ! 5 \<noteq> 0 \<or> src ! 7 \<noteq> 0 then None
      else
        (let file = message_file_zero\<lparr>mf_flags := src ! 3\<rparr>; a = unat (src ! 4); t = unat (src ! 6);
             body = drop 8 src
         in if has_flag file MESSAGE_FILE_DRAFT then
              (if MODEM_SMS_SENDER_MAX < a \<or> MODEM_SMS_TEXT_MAX < t \<or> length src \<noteq> 8 + a + t \<or>
                  0 \<in> set body then None
               else
                 (let file' = file\<lparr>mf_address := take a body, mf_text := take t (drop a body)\<rparr>
                  in if valid_file file' then Some file' else None))
            else if a = 0 \<or> MESSAGE_FILE_PART_LIMIT < a \<or> src ! 6 \<noteq> 0 then None
            else
              (case decode_parts a body of
                 None \<Rightarrow> None
               | Some ps \<Rightarrow>
                   (let file' = file\<lparr>mf_parts := ps\<rparr> in if valid_file file' then Some file' else None))))"

section \<open>What the mailbox shows\<close>

definition message_file_metadata :: "message_file \<Rightarrow> message_metadata option" where
  "message_file_metadata file =
     (if \<not> valid_file file then None
      else
        (let out = \<lparr>mm_id = 0, mm_read = False, mm_sent = has_flag file MESSAGE_FILE_SENT, mm_binary = False,
                    mm_quarantined = has_flag file MESSAGE_FILE_QUARANTINED, mm_address = [], mm_timestamp = []\<rparr>
         in if has_flag file MESSAGE_FILE_DRAFT then Some (out\<lparr>mm_address := mf_address file\<rparr>)
            else if mf_parts file = [] then None
            else
              (case part_decode (hd (mf_parts file)) of
                 None \<Rightarrow> None
               | Some part \<Rightarrow>
                   Some (out\<lparr>mm_address := sm_address part, mm_timestamp := sm_timestamp part,
                           mm_binary := sm_binary part \<or> sm_has_ports part \<or> mm_quarantined out\<rparr>))))"

fun find_part :: "u8 \<Rightarrow> u8 list list \<Rightarrow> sms_message option" where
  "find_part seq [] = None"
| "find_part seq (p # ps) =
     (case part_decode p of
        None \<Rightarrow> None
      | Some part \<Rightarrow> if \<not> sm_has_concat part \<or> sm_concat_seq part = seq then Some part else find_part seq ps)"

fun content_text :: "nat list \<Rightarrow> u8 list list \<Rightarrow> u8 list \<Rightarrow> u8 list option" where
  "content_text [] parts dst = Some dst"
| "content_text (seq # seqs) parts dst =
     (case find_part (of_nat seq) parts of
        None \<Rightarrow> None
      | Some part \<Rightarrow>
          if MESSAGE_TEXT_MAX - length dst < length (sm_text part) then None
          else content_text seqs parts (dst @ sm_text part))"

definition message_file_content :: "message_file \<Rightarrow> message_content option" where
  "message_file_content file =
     (if \<not> message_file_complete file then None
      else
        (case message_file_metadata file of
           None \<Rightarrow> None
         | Some md \<Rightarrow>
             if has_flag file MESSAGE_FILE_DRAFT then Some \<lparr>mc_metadata = md, mc_text = mf_text file\<rparr>
             else if mm_binary md then Some \<lparr>mc_metadata = md, mc_text = []\<rparr>
             else map_option (\<lambda>t. \<lparr>mc_metadata = md, mc_text = t\<rparr>)
                    (content_text [1..<length (mf_parts file) + 1] (mf_parts file) [])))"

text \<open>The payload of a control message, of one kind throughout.\<close>

definition part_payload :: "sms_message \<Rightarrow> u8 list" where
  "part_payload part = (if sm_binary part then take (unat (sm_binary_len part)) (sm_binary_data part) else sm_text part)"

fun control_payload :: "bool \<Rightarrow> nat list \<Rightarrow> u8 list list \<Rightarrow> u8 list \<Rightarrow> u8 list option" where
  "control_payload binary [] parts dst = Some dst"
| "control_payload binary (seq # seqs) parts dst =
     (case find_part (of_nat seq) parts of
        None \<Rightarrow> None
      | Some part \<Rightarrow>
          if sm_binary part \<noteq> binary \<or> MESSAGE_TEXT_MAX - length dst < length (part_payload part) then None
          else control_payload binary seqs parts (dst @ part_payload part))"

definition message_file_control :: "message_file \<Rightarrow> sms_control_filter" where
  "message_file_control file =
     (if \<not> has_flag file MESSAGE_FILE_DRAFT \<and> length (mf_parts file) = 1 \<and>
         (case part_decode (hd (mf_parts file)) of
            None \<Rightarrow> False | Some first \<Rightarrow> sm_pid first = 0x40 \<and> \<not> sm_submit first)
      then SMS_CONTROL_TYPE0
      else if \<not> message_file_complete file \<or> has_flag file MESSAGE_FILE_DRAFT \<or>
              has_flag file MESSAGE_FILE_QUARANTINED
      then SMS_CONTROL_KEEP
      else
        (case part_decode (hd (mf_parts file)) of
           None \<Rightarrow> SMS_CONTROL_KEEP
         | Some first \<Rightarrow>
             (case control_payload (sm_binary first) [1..<length (mf_parts file) + 1] (mf_parts file) [] of
                None \<Rightarrow> SMS_CONTROL_KEEP
              | Some payload \<Rightarrow>
                  sms_control_classify_payload (first\<lparr>sm_has_concat := False\<rparr>) False payload)))"

end
