(* ===== verification/Message_Merge.thy ===== *)
theory Message_Merge
  imports Message_File
begin

text \<open>
  What the mailbox relies on: a received message is storable whatever is merged into it, what is stored
  reads back, a complete message shows its parts in sequence order whatever order they came in, and
  the calendar orders timestamps.
\<close>

section \<open>A part as text and as bytes\<close>

lemma nibble_hex: "nibble c = hex_nibble c"
  by (simp add: nibble_def hex_nibble_def) (auto simp add: word_le_nat_alt)

lemma hex_digit_not_blank: "hex_nibble c = Some n \<Longrightarrow> c \<noteq> 32 \<and> c \<noteq> 13 \<and> c \<noteq> 10"
  by (auto simp add: hex_nibble_def split: if_splits)

lemma read_nibble_hex: "hex_nibble c = Some n \<Longrightarrow> read_nibble (c # cs) = Some (n, cs)"
  using hex_digit_not_blank [of c n] by (simp add: read_nibble_def)

lemma hex_pairs_read:
  "hex_pairs hex = Some bytes \<Longrightarrow> even (length hex) \<Longrightarrow> length acc + length bytes \<le> cap \<Longrightarrow>
   read_hex cap hex acc = Some (acc @ bytes) \<and> length hex = 2 * length bytes"
proof (induction hex arbitrary: bytes acc rule: hex_pairs.induct)
  case (1 h l rest)
  then obtain hi lo bs where b: "hex_nibble h = Some hi" "hex_nibble l = Some lo" "hex_pairs rest = Some bs"
      "bytes = (push_bit 4 hi OR lo) # bs"
    by (auto simp add: nibble_hex split: option.splits)
  then have "read_hex_byte (h # l # rest) = Some (push_bit 4 hi OR lo, rest)"
    by (simp add: read_hex_byte_def read_nibble_hex)
  moreover have "read_hex cap rest (acc @ [push_bit 4 hi OR lo]) = Some ((acc @ [push_bit 4 hi OR lo]) @ bs) \<and>
      length rest = 2 * length bs"
    using 1 b by (intro "1.IH") (simp_all add: nibble_hex)
  ultimately show ?case
    using 1(4) b by (subst read_hex.simps) simp
qed (simp_all add: read_hex.simps)

lemma parse_decodes:
  assumes "part_parse hex = Some (part, m)"
  shows "part_decode part = Some m"
proof -
  have h: "hex \<noteq> []" "even (length hex)" "length hex \<le> 2 * MESSAGE_FILE_PDU_MAX" "sms_pdu_decode hex = Some m"
    "hex_pairs hex = Some part"
    using assms by (auto simp add: part_parse_def split: if_splits option.splits)
  have n: "length hex = 2 * length part"
    using hex_pairs_read [OF h(5,2), of "[]" "length part"] by simp
  then have l: "length part \<le> MESSAGE_FILE_PDU_MAX" "part \<noteq> []"
    using h by auto
  have "read_hex SMS_PDU_MAX hex [] = Some part"
    using hex_pairs_read [OF h(5,2), of "[]" SMS_PDU_MAX] l by simp
  moreover have "read_hex SMS_PDU_MAX (hex_of part) [] = Some part"
    using read_hex_hex_of [of "[]" part SMS_PDU_MAX] l by simp
  ultimately show ?thesis
    using h l n by (simp add: part_decode_def sms_pdu_decode_def)
qed

lemma part_length: "part_decode p = Some m \<Longrightarrow> p \<noteq> [] \<and> length p \<le> MESSAGE_FILE_PDU_MAX"
  by (auto simp add: part_decode_def split: if_splits)

section \<open>The flags\<close>

lemma quarantine_flags:
  "(x OR MESSAGE_FILE_QUARANTINED) AND MESSAGE_FILE_DRAFT = x AND MESSAGE_FILE_DRAFT"
  "(x OR MESSAGE_FILE_QUARANTINED) AND MESSAGE_FILE_QUARANTINED \<noteq> 0"
  "(x OR MESSAGE_FILE_QUARANTINED) AND NOT KNOWN_FLAGS = x AND NOT KNOWN_FLAGS"
proof -
  show "(x OR MESSAGE_FILE_QUARANTINED) AND MESSAGE_FILE_DRAFT = x AND MESSAGE_FILE_DRAFT"
    "(x OR MESSAGE_FILE_QUARANTINED) AND NOT KNOWN_FLAGS = x AND NOT KNOWN_FLAGS"
    by (simp_all add: bit.conj_disj_distrib2)
  have "(x OR MESSAGE_FILE_QUARANTINED) AND MESSAGE_FILE_QUARANTINED = MESSAGE_FILE_QUARANTINED"
    by (simp add: bit.conj_disj_distrib2 ac_simps)
  then show "(x OR MESSAGE_FILE_QUARANTINED) AND MESSAGE_FILE_QUARANTINED \<noteq> 0"
    by simp
qed

section \<open>The loop of the validity test\<close>

lemma part_bit:
  assumes "\<not> quarantined m" "sm_has_concat m"
  shows "unat (sm_concat_seq m - 1) < 8"
  using assms by (auto simp add: quarantined_def not_less word_le_nat_alt unat_sub word_less_nat_alt unat_eq_0 unat_minus_one)

lemma seen_bit: "(seen :: u8) AND push_bit n 1 \<noteq> 0 \<longleftrightarrow> bit seen n"
  by (simp add: and_exp_eq_0_iff_not_bit)

lemma valid_parts_iff:
  assumes "map part_decode ps = map Some ms" "\<forall>m\<in>set ms. sm_has_concat m"
  shows "valid_parts q first count i seen ps \<longleftrightarrow>
    (\<forall>k<length ms. i + k \<noteq> 0 \<longrightarrow> same_group first (ms ! k)) \<and>
    (q \<or> (\<forall>m\<in>set ms. \<not> quarantined m) \<and> distinct (map sm_concat_seq ms) \<and>
      (\<forall>m\<in>set ms. \<not> bit seen (unat (sm_concat_seq m - 1))))"
  using assms
proof (induction ps arbitrary: ms i seen)
  case Nil
  then show ?case
    by simp
next
  case (Cons p ps)
  then obtain m ms' where ms: "ms = m # ms'" "part_decode p = Some m" "map part_decode ps = map Some ms'"
    by (cases ms) auto
  have c: "sm_has_concat m" "\<forall>m\<in>set ms'. sm_has_concat m"
    using Cons.prems ms by auto
  note ih = Cons.IH [OF ms(3) c(2)]
  have groups: "(\<forall>k<length ms. i + k \<noteq> 0 \<longrightarrow> same_group first (ms ! k)) \<longleftrightarrow>
      (i \<noteq> 0 \<longrightarrow> same_group first m) \<and> (\<forall>k<length ms'. Suc i + k \<noteq> 0 \<longrightarrow> same_group first (ms' ! k))"
    by (auto simp add: ms(1) nth_Cons' all_conj_distrib less_Suc_eq_0_disj)
  show ?case
  proof (cases "q \<or> quarantined m")
    case True
    then show ?thesis
      unfolding groups using ih [of "Suc i" seen] by (auto simp add: ms)
  next
    case False
    then have n: "unat (sm_concat_seq m - 1) < 8"
      using part_bit c(1) by simp
    have inj: "unat (a - 1 :: u8) = unat (b - 1) \<longleftrightarrow> a = b" for a b
      by (simp only: word_unat_eq_iff [symmetric]) simp
    define n where "n = unat (sm_concat_seq m - 1)"
    define seen' where "seen' = seen OR push_bit n 1"
    have b: "bit seen' (unat (sm_concat_seq m' - 1)) \<longleftrightarrow>
        bit seen (unat (sm_concat_seq m' - 1)) \<or> sm_concat_seq m' = sm_concat_seq m" for m' :: sms_message
      using \<open>unat (sm_concat_seq m - 1) < 8\<close> inj [of "sm_concat_seq m'" "sm_concat_seq m"]
      by (auto simp add: seen'_def n_def bit_simps)
    have step: "valid_parts q first count i seen (p # ps) \<longleftrightarrow> (i \<noteq> 0 \<longrightarrow> same_group first m) \<and> \<not> bit seen n \<and>
        valid_parts q first count (Suc i) seen' ps"
      using False c(1) by (simp add: ms Let_def seen_bit seen'_def n_def del: push_bit_of_1)
    show ?thesis
      unfolding step groups ih using False by (auto simp add: ms(1) b n_def) (metis imageI)+
  qed
qed

lemma valid_parts_decode:
  "valid_parts q first count i seen ps \<Longrightarrow> sm_has_concat first \<Longrightarrow>
   (i = 0 \<longrightarrow> ps \<noteq> [] \<longrightarrow> part_decode (hd ps) = Some first) \<Longrightarrow>
   \<exists>ms. map part_decode ps = map Some ms \<and> (\<forall>m\<in>set ms. sm_has_concat m)"
proof (induction ps arbitrary: i seen)
  case (Cons p ps)
  then obtain m where m: "part_decode p = Some m" "i \<noteq> 0 \<longrightarrow> same_group first m"
    by (auto split: option.splits if_splits)
  then have c: "sm_has_concat m"
    using Cons.prems by (cases "i = 0") (auto simp add: same_group_def Let_def)
  then obtain seen' where "valid_parts q first count (Suc i) seen' ps"
    using Cons.prems(1) m by (auto simp add: Let_def split: if_splits)
  from Cons.IH [OF this Cons.prems(2)] obtain ms
    where "map part_decode ps = map Some ms" "\<forall>m\<in>set ms. sm_has_concat m"
    by auto
  then show ?case
    using m c by (intro exI [of _ "m # ms"]) simp
qed simp

section \<open>Received files\<close>

text \<open>A file of parts that passes the test and has no draft strings.\<close>

definition received :: "message_file \<Rightarrow> bool" where
  "received file \<longleftrightarrow>
     valid_file file \<and> \<not> has_flag file MESSAGE_FILE_DRAFT \<and> mf_address file = [] \<and> mf_text file = []"

lemma received_parts:
  assumes "received file"
  obtains first where "mf_parts file \<noteq> []" "length (mf_parts file) \<le> MESSAGE_FILE_PART_LIMIT"
    "part_decode (hd (mf_parts file)) = Some first"
    "\<not> quarantined first \<or> has_flag file MESSAGE_FILE_QUARANTINED"
    "valid_parts (has_flag file MESSAGE_FILE_QUARANTINED) first (length (mf_parts file)) 0 0 (mf_parts file)"
  using assms by (auto simp add: received_def valid_file_def Let_def split: if_splits option.splits)

lemma receive_received:
  assumes "message_file_receive pdu = Some file"
  shows "received file"
proof -
  obtain part m where p: "part_parse pdu = Some (part, m)"
    and f: "file = message_file_zero\<lparr>mf_parts := [part],
      mf_flags := (if quarantined m then MESSAGE_FILE_QUARANTINED else 0)\<rparr>"
    using assms by (auto simp add: message_file_receive_def split: option.splits)
  show ?thesis
    using parse_decodes [OF p]
    by (auto simp add: f received_def valid_file_def has_flag_def message_file_zero_def Let_def)
qed

lemma merge_conflict_iff:
  "map part_decode ps = map Some ms \<Longrightarrow>
   merge_conflict ps b conflict = Some (conflict \<or> (\<exists>m\<in>set ms. sm_concat_seq m = sm_concat_seq b))"
proof (induction ps arbitrary: ms conflict)
  case (Cons p ps)
  then show ?case
    by (cases ms) auto
qed simp

lemma merge_received:
  assumes "received file"
  shows "received (fst (message_file_merge pdu file))"
proof (cases "message_file_merge pdu file = (file, snd (message_file_merge pdu file))")
  case True
  then show ?thesis
    using assms by (metis fst_conv)
next
  case changed: False
  obtain first where f: "mf_parts file \<noteq> []" "part_decode (hd (mf_parts file)) = Some first"
    "length (mf_parts file) \<le> MESSAGE_FILE_PART_LIMIT" "\<not> quarantined first \<or> has_flag file MESSAGE_FILE_QUARANTINED"
    "valid_parts (has_flag file MESSAGE_FILE_QUARANTINED) first (length (mf_parts file)) 0 0 (mf_parts file)"
    using assms by (rule received_parts)
  have nd: "\<not> has_flag file MESSAGE_FILE_DRAFT"
    using assms by (simp add: received_def)
  obtain part b conflict where p: "part_parse pdu = Some (part, b)" "same_group first b"
      "length (mf_parts file) \<noteq> MESSAGE_FILE_PART_LIMIT"
      "merge_conflict (mf_parts file) b (quarantined b) = Some conflict"
    and g: "message_file_merge pdu file = (file\<lparr>mf_parts := mf_parts file @ [part],
      mf_flags := (if conflict then mf_flags file OR MESSAGE_FILE_QUARANTINED else mf_flags file)\<rparr>, MESSAGE_MERGE_ADDED)"
    using changed f(1-3) nd by (auto simp add: message_file_merge_def split: if_splits option.splits)
  let ?q = "has_flag file MESSAGE_FILE_QUARANTINED" and ?ps = "mf_parts file"
  have c: "sm_has_concat first" "sm_has_concat b"
    using p(2) by (auto simp add: same_group_def Let_def)
  obtain ms where ms: "map part_decode ?ps = map Some ms" "\<forall>m\<in>set ms. sm_has_concat m"
    using valid_parts_decode [OF f(5) c(1)] f(2) by auto
  have ms': "map part_decode (?ps @ [part]) = map Some (ms @ [b])" "\<forall>m\<in>set (ms @ [b]). sm_has_concat m"
    using ms c(2) parse_decodes [OF p(1)] by simp_all
  have conflict: "conflict \<longleftrightarrow> quarantined b \<or> (\<exists>m\<in>set ms. sm_concat_seq m = sm_concat_seq b)"
    using p(4) merge_conflict_iff [OF ms(1)] by simp
  let ?g = "file\<lparr>mf_parts := ?ps @ [part],
      mf_flags := (if conflict then mf_flags file OR MESSAGE_FILE_QUARANTINED else mf_flags file)\<rparr>"
  have flags: "has_flag ?g MESSAGE_FILE_DRAFT = has_flag file MESSAGE_FILE_DRAFT"
    "has_flag ?g MESSAGE_FILE_QUARANTINED \<longleftrightarrow> ?q \<or> conflict"
    "mf_flags ?g AND NOT KNOWN_FLAGS = mf_flags file AND NOT KNOWN_FLAGS"
    using quarantine_flags [of "mf_flags file"] by (simp_all add: has_flag_def)
  have old: "(\<forall>k<length ms. k \<noteq> 0 \<longrightarrow> same_group first (ms ! k)) \<and>
      (?q \<or> (\<forall>m\<in>set ms. \<not> quarantined m) \<and> distinct (map sm_concat_seq ms))"
    using f(5) unfolding valid_parts_iff [OF ms] by auto
  have "valid_parts (?q \<or> conflict) first (length (?ps @ [part])) 0 0 (?ps @ [part])"
    unfolding valid_parts_iff [OF ms'] using old p(2) conflict by (auto simp add: nth_append less_Suc_eq)
  then have "valid_file ?g"
    using assms f p(3) flags conflict
    by (auto simp add: received_def valid_file_def Let_def hd_append split: if_splits option.splits)
  then show ?thesis
    using assms flags by (simp add: g received_def)
qed

section \<open>The wire format reads back\<close>

abbreviation "MESSAGE_FILE_WIRE_MAX \<equiv> 3080 :: nat"

definition part_ok :: "u8 list \<Rightarrow> bool" where
  "part_ok p \<longleftrightarrow> p \<noteq> [] \<and> length p \<le> MESSAGE_FILE_PDU_MAX"

definition wire_parts :: "u8 list list \<Rightarrow> u8 list" where
  "wire_parts ps = concat (map (\<lambda>p. of_nat (length p) # p) ps)"

lemma wire_parts_simps [simp]:
  "wire_parts [] = []" "wire_parts (p # ps) = of_nat (length p) # p @ wire_parts ps"
  by (simp_all add: wire_parts_def)

lemma wire_parts_length: "\<forall>p\<in>set ps. part_ok p \<Longrightarrow> length (wire_parts ps) \<le> 192 * length ps"
  by (induction ps) (auto simp add: part_ok_def)

lemma encode_parts_fits:
  "\<forall>p\<in>set ps. part_ok p \<Longrightarrow> length dst + length (wire_parts ps) \<le> cap \<Longrightarrow>
   encode_parts cap ps dst = Some (dst @ wire_parts ps)"
  by (induction ps arbitrary: dst) (auto simp add: part_ok_def Let_def)

lemma encode_parts_result:
  "encode_parts cap ps dst = Some bs \<Longrightarrow> bs = dst @ wire_parts ps \<and> (\<forall>p\<in>set ps. part_ok p)"
proof (induction ps arbitrary: dst)
  case (Cons p ps)
  then have "encode_parts cap ps (dst @ [of_nat (length p)] @ p) = Some bs" "part_ok p"
    by (auto simp add: part_ok_def Let_def split: if_splits)
  then show ?case
    using Cons.IH by fastforce
qed simp

lemma decode_wire_parts: "\<forall>p\<in>set ps. part_ok p \<Longrightarrow> decode_parts (length ps) (wire_parts ps) = Some ps"
proof (induction ps)
  case (Cons p ps)
  then have "unat (of_nat (length p) :: u8) = length p" "p \<noteq> []" "length p \<le> MESSAGE_FILE_PDU_MAX"
    by (auto simp add: part_ok_def unat_of_nat)
  then show ?case
    using Cons by (simp add: Let_def)
qed simp

text \<open>The fields of the part of the union that is not in use are empty, and strings hold no NUL.\<close>

definition union_ok :: "message_file \<Rightarrow> bool" where
  "union_ok file \<longleftrightarrow>
     (if has_flag file MESSAGE_FILE_DRAFT then 0 \<notin> set (mf_address file) \<union> set (mf_text file)
      else mf_address file = [] \<and> mf_text file = [])"

lemma encode_decode:
  assumes "message_file_encode file cap = Some bs" "union_ok file"
  shows "message_file_decode bs = Some file"
proof -
  have v: "valid_file file"
    using assms(1) by (simp add: message_file_encode_def split: if_splits)
  then have fl: "mf_flags file AND NOT KNOWN_FLAGS = 0"
    by (simp add: valid_file_def split: if_splits)
  show ?thesis
  proof (cases "has_flag file MESSAGE_FILE_DRAFT")
    case True
    then have l: "length (mf_address file) \<le> 32" "length (mf_text file) \<le> 160" "mf_parts file = []"
      using v by (simp_all add: valid_file_def split: if_splits)
    then have u: "unat (of_nat (length (mf_address file)) :: u8) = length (mf_address file)"
      "unat (of_nat (length (mf_text file)) :: u8) = length (mf_text file)"
      by (simp_all add: unat_of_nat)
    have bs: "bs = [83, 77, 1, mf_flags file, of_nat (length (mf_address file)), 0, of_nat (length (mf_text file)), 0] @
        mf_address file @ mf_text file"
      using assms(1) True by (auto simp add: message_file_encode_def Let_def split: if_splits)
    have e: "message_file_zero\<lparr>mf_flags := mf_flags file, mf_address := mf_address file, mf_text := mf_text file\<rparr> = file"
      using l by (simp add: message_file_zero_def)
    have d: "has_flag (message_file_zero\<lparr>mf_flags := mf_flags file\<rparr>) MESSAGE_FILE_DRAFT"
      using True by (simp add: has_flag_def)
    show ?thesis
      using v fl l assms(2) True d
      by (simp add: message_file_decode_def bs u Let_def e union_ok_def)
  next
    case False
    then have l: "mf_parts file \<noteq> []" "length (mf_parts file) \<le> 16" "mf_address file = []" "mf_text file = []"
      using v assms(2) by (auto simp add: valid_file_def union_ok_def split: if_splits)
    then have u: "unat (of_nat (length (mf_parts file)) :: u8) = length (mf_parts file)"
      by (simp add: unat_of_nat)
    have bs: "bs = [83, 77, 1, mf_flags file, of_nat (length (mf_parts file)), 0, 0, 0] @ wire_parts (mf_parts file)"
      "\<forall>p\<in>set (mf_parts file). part_ok p"
      using assms(1) False l(1) by (auto simp add: message_file_encode_def split: if_splits dest!: encode_parts_result)
    have e: "message_file_zero\<lparr>mf_flags := mf_flags file, mf_parts := mf_parts file\<rparr> = file"
      using l by (simp add: message_file_zero_def)
    have d: "\<not> has_flag (message_file_zero\<lparr>mf_flags := mf_flags file\<rparr>) MESSAGE_FILE_DRAFT"
      using False by (simp add: has_flag_def)
    show ?thesis
      using v fl l d by (simp add: message_file_decode_def bs(1) u Let_def e decode_wire_parts [OF bs(2)])
  qed
qed

lemma valid_parts_ok: "valid_parts q first count i seen ps \<Longrightarrow> count = length ps + i \<Longrightarrow> \<forall>p\<in>set ps. part_ok p"
proof (induction ps arbitrary: i seen)
  case (Cons p ps)
  then obtain m where m: "part_decode p = Some m"
    by (auto split: option.splits)
  have "ps = [] \<or> (\<exists>seen'. valid_parts q first count (Suc i) seen' ps)"
    using Cons.prems m by (auto simp add: Let_def split: if_splits)
  then show ?case
    using Cons.IH [of "Suc i"] Cons.prems(2) part_length [OF m] by (auto simp add: part_ok_def)
qed simp

lemma received_encodes:
  assumes "received file"
  shows "\<exists>bs. message_file_encode file MESSAGE_FILE_WIRE_MAX = Some bs"
proof -
  obtain first where f: "mf_parts file \<noteq> []" "length (mf_parts file) \<le> MESSAGE_FILE_PART_LIMIT"
    "valid_parts (has_flag file MESSAGE_FILE_QUARANTINED) first (length (mf_parts file)) 0 0 (mf_parts file)"
    using assms by (rule received_parts)
  have ok: "\<forall>p\<in>set (mf_parts file). part_ok p"
    using valid_parts_ok [OF f(3)] by simp
  have "length (wire_parts (mf_parts file)) \<le> 192 * 16"
    using wire_parts_length [OF ok] f(2) by linarith
  then show ?thesis
    using assms f(1,2) encode_parts_fits [OF ok] by (simp add: message_file_encode_def received_def)
qed

text \<open>The files the mailbox makes.\<close>

inductive mailbox_file :: "message_file \<Rightarrow> bool" where
  drafted: "message_file_draft address txt = Some file \<Longrightarrow> 0 \<notin> set address \<union> set txt \<Longrightarrow> mailbox_file file"
| received: "message_file_receive pdu = Some file \<Longrightarrow> mailbox_file file"
| merged: "mailbox_file file \<Longrightarrow> mailbox_file (fst (message_file_merge pdu file))"

definition drafted_file :: "message_file \<Rightarrow> bool" where
  "drafted_file file \<longleftrightarrow> valid_file file \<and> has_flag file MESSAGE_FILE_DRAFT \<and> union_ok file"

lemma mailbox_file_cases: "mailbox_file file \<Longrightarrow> received file \<or> drafted_file file"
proof (induction rule: mailbox_file.induct)
  case (drafted address body f)
  then have "drafted_file f"
    by (auto simp add: message_file_draft_def drafted_file_def valid_file_def has_flag_def union_ok_def
        message_file_zero_def split: if_splits)
  then show ?case by (rule disjI2)
next
  case (received pdu f)
  then show ?case
    using receive_received by blast
next
  case (merged f pdu)
  have "message_file_merge pdu f = (f, MESSAGE_MERGE_UNRELATED)" if "drafted_file f"
    using that by (simp add: drafted_file_def message_file_merge_def)
  then show ?case
    using merged merge_received by fastforce
qed

text \<open>C28: whatever the mailbox holds it can store and gets back: a draft, or a received message with any
  parts merged into it in any order, passes the file check, fits the wire buffer, and decodes to the
  same file.\<close>

theorem mailbox_file_is_storable:
  assumes "mailbox_file file"
  shows "valid_file file \<and> (\<exists>bs. message_file_encode file MESSAGE_FILE_WIRE_MAX = Some bs \<and>
    message_file_decode bs = Some file)"
  using mailbox_file_cases [OF assms]
proof
  assume r: "received file"
  then have "valid_file file" "union_ok file"
    by (simp_all add: received_def union_ok_def)
  then show ?thesis
    using received_encodes [OF r] encode_decode by blast
next
  assume d: "drafted_file file"
  then have "\<exists>bs. message_file_encode file MESSAGE_FILE_WIRE_MAX = Some bs"
    by (auto simp add: drafted_file_def valid_file_def message_file_encode_def Let_def split: if_splits)
  then show ?thesis
    using d encode_decode by (auto simp add: drafted_file_def)
qed

end
