(* ===== verification/Message_View.thy ===== *)
theory Message_View
  imports Message_Merge "HOL-Library.List_Lexorder"
begin

text \<open>
  What the mailbox shows of a stored message: the parts in sequence order, and a calendar in which
  later means more seconds.
\<close>

section \<open>The text of a complete message\<close>

definition seq_number :: "sms_message \<Rightarrow> nat" where
  "seq_number m = unat (sm_concat_seq m)"

lemma find_part_first:
  "map part_decode ps = map Some ms \<Longrightarrow> \<forall>m\<in>set ms. sm_has_concat m \<Longrightarrow>
   find_part s ps = find (\<lambda>m. sm_concat_seq m = s) ms"
proof (induction ps arbitrary: ms)
  case (Cons p ps)
  then show ?case
    by (cases ms) auto
qed simp

lemma complete_mask_range:
  "complete_mask n seen ps = Some r \<Longrightarrow> map part_decode ps = map Some ms \<Longrightarrow>
   \<forall>m\<in>set ms. 0 < seq_number m \<and> seq_number m \<le> unat n"
proof (induction ps arbitrary: ms seen)
  case (Cons p ps)
  then obtain m ms' where ms: "ms = m # ms'" "part_decode p = Some m" "map part_decode ps = map Some ms'"
    by (cases ms) auto
  then show ?case
    using Cons by (auto simp add: seq_number_def not_less word_le_nat_alt unat_gt_0 split: if_splits)
qed simp

lemma content_text_result:
  "content_text seqs ps dst = Some t \<Longrightarrow>
   t = dst @ concat (map (\<lambda>s. sm_text (the (find_part (of_nat s) ps))) seqs)"
proof (induction seqs arbitrary: dst)
  case (Cons s seqs)
  then obtain m where "find_part (of_nat s) ps = Some m" "content_text seqs ps (dst @ sm_text m) = Some t"
    by (auto split: option.splits if_splits)
  then show ?case
    using Cons.IH by fastforce
qed simp

lemma ordered_numbers:
  assumes "distinct (map seq_number ms)" "\<forall>m\<in>set ms. 0 < seq_number m \<and> seq_number m \<le> length ms"
  shows "map seq_number (sort_key seq_number ms) = [1..<length ms + 1]"
proof -
  have "seq_number ` set ms \<subseteq> {1..<length ms + 1}"
    using assms(2) by auto
  moreover have "card (seq_number ` set ms) = length ms"
    using assms(1) by (metis distinct_card length_map list.set_map)
  ultimately have "seq_number ` set ms = {1..<length ms + 1}"
    by (intro card_subset_eq) auto
  moreover have "distinct (map seq_number (sort_key seq_number ms))"
    using assms(1) by (simp add: distinct_map)
  ultimately show ?thesis
    by (intro sorted_distinct_set_unique) (simp_all del: upt_Suc)
qed

lemma find_ordered:
  assumes "map seq_number xs = [1..<length xs + 1]" "set ms = set xs" "length xs < 256" "i < length xs"
  shows "find (\<lambda>m. sm_concat_seq m = of_nat (i + 1)) ms = Some (xs ! i)"
proof -
  have key: "seq_number (xs ! k) = k + 1" if "k < length xs" for k
  proof -
    have "map seq_number xs ! k = [1..<length xs + 1] ! k"
      using assms(1) by simp
    then show ?thesis
      using that by (simp del: upt_Suc)
  qed
  have num: "sm_concat_seq m = of_nat (i + 1) \<longleftrightarrow> seq_number m = i + 1" for m :: sms_message
  proof -
    have "unat (of_nat (i + 1) :: u8) = i + 1"
      using assms(3,4) by (simp only: unat_of_nat) simp
    then show ?thesis
      unfolding seq_number_def by (metis word_unat_eq_iff)
  qed
  have uniq: "m = xs ! i" if "m \<in> set ms" "seq_number m = i + 1" for m
    using that key assms(2,4) by (auto simp add: in_set_conv_nth)
  have "xs ! i \<in> set ms" "seq_number (xs ! i) = i + 1"
    using assms(2,4) key by simp_all
  then show ?thesis
  proof (cases "find (\<lambda>m. seq_number m = i + 1) ms")
    case None
    then show ?thesis
      using \<open>xs ! i \<in> set ms\<close> \<open>seq_number (xs ! i) = i + 1\<close> by (simp add: find_None_iff)
  next
    case (Some m)
    then have "m \<in> set ms" "seq_number m = i + 1"
      by (auto simp only: find_Some_iff nth_mem)
    then show ?thesis
      unfolding num Some using uniq by simp
  qed
qed

lemma concat_parts:
  assumes "content_text [1..<length ps + 1] ps [] = Some t" "map part_decode ps = map Some ms"
    and "\<forall>m\<in>set ms. sm_has_concat m" "map seq_number (sort_key seq_number ms) = [1..<length ms + 1]"
    and "length ps < 256"
  shows "t = concat (map sm_text (sort_key seq_number ms))"
proof -
  let ?xs = "sort_key seq_number ms"
  have l: "length ps = length ms"
    using assms(2) by (metis length_map)
  have "map (\<lambda>s. sm_text (the (find_part (of_nat s) ps))) [1..<length ps + 1] = map sm_text ?xs"
  proof (rule nth_equalityI)
    fix i assume "i < length (map (\<lambda>s. sm_text (the (find_part (of_nat s) ps))) [1..<length ps + 1])"
    then have i: "i < length ?xs"
      using l by (simp del: upt_Suc)
    have "find_part (of_nat (i + 1)) ps = Some (?xs ! i)"
      unfolding find_part_first [OF assms(2,3)] by (rule find_ordered) (use assms(4,5) l i in simp_all)
    then show "map (\<lambda>s. sm_text (the (find_part (of_nat s) ps))) [1..<length ps + 1] ! i = map sm_text ?xs ! i"
      using i l by (simp del: upt_Suc)
  qed (simp add: l del: upt_Suc)
  then show ?thesis
    using content_text_result [OF assms(1)] by simp
qed

text \<open>A complete text message is shown in sequence order whatever order its parts came in: every
  stored part decodes, sorted by sequence number they are numbered 1 to the last with none missing
  or twice, and the text that is shown is the concatenation of theirs.\<close>

theorem complete_text_in_sequence:
  assumes "message_file_content f = Some c" "\<not> has_flag f MESSAGE_FILE_DRAFT" "\<not> mm_binary (mc_metadata c)"
  shows "\<exists>ms. map part_decode (mf_parts f) = map Some ms \<and>
    mc_text c = concat (map sm_text (sort_key seq_number ms)) \<and>
    (length ms = 1 \<or> map seq_number (sort_key seq_number ms) = [1..<length ms + 1])"
proof -
  have "message_file_complete f"
    using assms(1) by (auto simp add: message_file_content_def split: if_splits)
  then have v: "valid_file f"
    by (simp add: message_file_complete_def split: if_splits)
  obtain md where md: "message_file_metadata f = Some md" "mc_metadata c = md"
    using assms(1,2) by (auto simp add: message_file_content_def split: if_splits option.splits)
  then have q: "\<not> has_flag f MESSAGE_FILE_QUARANTINED"
    using assms(2,3) by (auto simp add: message_file_metadata_def Let_def dest: sym split: if_splits option.splits)
  obtain z where z: "content_text [1..<length (mf_parts f) + 1] (mf_parts f) [] = Some z"
      "c = \<lparr>mc_metadata = md, mc_text = z\<rparr>"
    using assms md by (auto simp add: message_file_content_def simp del: upt_Suc split: if_splits)
  then have t: "content_text [1..<length (mf_parts f) + 1] (mf_parts f) [] = Some (mc_text c)"
    by simp
  obtain first where f: "mf_parts f \<noteq> []" "length (mf_parts f) \<le> 16" "part_decode (hd (mf_parts f)) = Some first"
    "valid_parts False first (length (mf_parts f)) 0 0 (mf_parts f)"
    using v assms(2) q by (auto simp add: valid_file_def Let_def split: if_splits option.splits)
  show ?thesis
  proof (cases "sm_has_concat first")
    case False
    then have "length (mf_parts f) = 1"
      using \<open>message_file_complete f\<close> assms(2) q f
      by (auto simp add: message_file_complete_def split: if_splits)
    then have p: "mf_parts f = [hd (mf_parts f)]"
      using f(1) by (cases "mf_parts f") simp_all
    have "find_part (of_nat 1) (mf_parts f) = Some first"
      by (subst p) (use f(3) False in simp)
    then have "mc_text c = sm_text first"
      using content_text_result [OF t] \<open>length (mf_parts f) = 1\<close> by simp
    moreover have "map part_decode (mf_parts f) = map Some [first]"
      by (subst p) (use f(3) in simp)
    ultimately show ?thesis
      by (intro exI [of _ "[first]"]) simp
  next
    case True
    obtain ms where ms: "map part_decode (mf_parts f) = map Some ms" "\<forall>m\<in>set ms. sm_has_concat m"
      using valid_parts_decode [OF f(4) True] f(3) by auto
    have l: "length (mf_parts f) = length ms"
      using ms(1) by (metis length_map)
    obtain r where n: "unat (sm_concat_total first) = length ms"
        "complete_mask (sm_concat_total first) 0 (mf_parts f) = Some r"
      using \<open>message_file_complete f\<close> assms(2) q f True l
      by (auto simp add: message_file_complete_def Let_def split: if_splits)
    have "distinct (map sm_concat_seq ms)"
      using f(4) unfolding valid_parts_iff [OF ms] by simp
    then have d: "distinct (map seq_number ms)"
      by (simp add: distinct_map inj_on_def seq_number_def word_unat_eq_iff)
    have o: "map seq_number (sort_key seq_number ms) = [1..<length ms + 1]"
      using complete_mask_range [OF n(2) ms(1)] n(1) by (intro ordered_numbers [OF d]) simp
    have "mc_text c = concat (map sm_text (sort_key seq_number ms))"
      using f(2) by (intro concat_parts [OF t ms o]) simp
    then show ?thesis
      using ms(1) o by blast
  qed
qed

section \<open>The calendar\<close>

definition valid_datetime :: "rtc_datetime \<Rightarrow> bool" where
  "valid_datetime d \<longleftrightarrow>
     2000 \<le> dt_year d \<and> dt_year d \<le> 2099 \<and> 1 \<le> dt_month d \<and> dt_month d \<le> 12 \<and> 1 \<le> dt_day d \<and>
     unat (dt_day d) \<le> days_of_month (unat (dt_year d - 2000)) (unat (dt_month d)) \<and>
     dt_hour d \<le> 23 \<and> dt_minute d \<le> 59 \<and> dt_second d \<le> 59"

text \<open>The fields from year to second, compared as a list: the usual order of dates.\<close>

definition datetime_fields :: "rtc_datetime \<Rightarrow> nat list" where
  "datetime_fields d = [unat (dt_year d), unat (dt_month d), unat (dt_day d), unat (dt_hour d),
     unat (dt_minute d), unat (dt_second d)]"

definition year_start :: "nat \<Rightarrow> nat" where
  "year_start y = y * 365 + (y + 3) div 4"

definition month_start :: "nat \<Rightarrow> nat \<Rightarrow> nat" where
  "month_start y m = sum_list (map (days_of_month y) [1..<m])"

definition seconds_of :: "nat \<Rightarrow> nat \<Rightarrow> nat \<Rightarrow> nat \<Rightarrow> nat \<Rightarrow> nat \<Rightarrow> nat" where
  "seconds_of y m d h mi s = (year_start y + d - 1 + month_start y m) * 86400 + h * 3600 + mi * 60 + s"

lemma month_start_Suc: "1 \<le> m \<Longrightarrow> month_start y (Suc m) = month_start y m + days_of_month y m"
  by (simp add: month_start_def)

lemma month_start_mono:
  assumes "1 \<le> m" "m \<le> m'"
  shows "month_start y m \<le> month_start y m'"
proof -
  have "[1..<m'] = [1..<m] @ [m..<m']"
    using upt_add_eq_append [of 1 m "m' - m"] assms by simp
  then show ?thesis
    unfolding month_start_def by (simp only: map_append sum_list_append)
qed

lemma month_start_year: "month_start y 13 = 365 + (if y mod 4 = 0 then 1 else 0)"
proof -
  have "[1..<13] = [1, 2, 3, 4, 5, 6, 7, 8, 9, 10, 11, 12 :: nat]"
    by code_simp
  then show ?thesis
    by (simp add: month_start_def days_of_month_def month_days_def)
qed

lemma year_start_Suc: "year_start (Suc y) = year_start y + 365 + (if y mod 4 = 0 then 1 else 0)"
  unfolding year_start_def by presburger

lemma year_start_mono: "y \<le> y' \<Longrightarrow> year_start y \<le> year_start y'"
  unfolding year_start_def by (intro add_mono mult_le_mono div_le_mono) simp_all

lemma day_before:
  assumes "1 \<le> m" "m \<le> 12" "1 \<le> d" "d \<le> days_of_month y m" "1 \<le> m'" "1 \<le> d'"
    and "y < y' \<or> y = y' \<and> (m < m' \<or> m = m' \<and> d < d')"
  shows "year_start y + month_start y m + d - 1 < year_start y' + month_start y' m' + d' - 1"
proof -
  have end_of_month: "month_start y m + d \<le> month_start y (Suc m)"
    using month_start_Suc [OF assms(1)] assms(4) by simp
  consider "y < y'" | "y = y'" "m < m'" | "y = y'" "m = m'" "d < d'"
    using assms(7) by blast
  then show ?thesis
  proof cases
    case 1
    have "month_start y (Suc m) \<le> month_start y 13"
      using assms(2) by (intro month_start_mono) simp_all
    then have "year_start y + month_start y m + d \<le> year_start (Suc y)"
      using end_of_month month_start_year [of y] year_start_Suc [of y] by simp
    also have "\<dots> \<le> year_start y'"
      using 1 by (intro year_start_mono) simp
    finally show ?thesis
      using assms(3,6) by simp
  next
    case 2
    then have "month_start y (Suc m) \<le> month_start y m'"
      by (intro month_start_mono) simp_all
    then show ?thesis
      using 2 end_of_month assms(3,6) by simp
  next
    case 3
    then show ?thesis
      using assms(3) by simp
  qed
qed

lemma seconds_before:
  assumes "1 \<le> m" "m \<le> 12" "1 \<le> d" "d \<le> days_of_month y m" "1 \<le> m'" "1 \<le> d'"
    and "h \<le> 23" "mi \<le> 59" "s \<le> 59"
    and "[y, m, d, h, mi, s] < [y', m', d', h', mi', s']"
  shows "seconds_of y m d h mi s < seconds_of y' m' d' h' mi' s'"
proof (cases "y = y' \<and> m = m' \<and> d = d'")
  case True
  then have "h < h' \<or> h = h' \<and> (mi < mi' \<or> mi = mi' \<and> s < s')"
    using assms(10) by simp
  then show ?thesis
    using True assms(8,9) by (auto simp add: seconds_of_def)
next
  case False
  then have "year_start y + month_start y m + d - 1 < year_start y' + month_start y' m' + d' - 1"
    using assms(1-6,10) by (intro day_before) auto
  then have "year_start y + d - 1 + month_start y m < year_start y' + d' - 1 + month_start y' m'"
    using assms(3,6) by simp
  then show ?thesis
    using assms(7-9) by (simp add: seconds_of_def)
qed

lemma datetime_bounds:
  assumes "valid_datetime d"
  shows "unat (dt_year d) = 2000 + unat (dt_year d - 2000)" "unat (dt_year d - 2000) \<le> 99"
    "1 \<le> unat (dt_month d)" "unat (dt_month d) \<le> 12"
    "1 \<le> unat (dt_day d)" "unat (dt_day d) \<le> days_of_month (unat (dt_year d - 2000)) (unat (dt_month d))"
    "unat (dt_hour d) \<le> 23" "unat (dt_minute d) \<le> 59" "unat (dt_second d) \<le> 59"
proof -
  have y: "unat (dt_year d - 2000) = unat (dt_year d) - 2000"
    using assms by (simp add: valid_datetime_def unat_sub)
  show "unat (dt_year d) = 2000 + unat (dt_year d - 2000)" "unat (dt_year d - 2000) \<le> 99"
    "1 \<le> unat (dt_month d)" "unat (dt_month d) \<le> 12"
    "1 \<le> unat (dt_day d)" "unat (dt_day d) \<le> days_of_month (unat (dt_year d - 2000)) (unat (dt_month d))"
    "unat (dt_hour d) \<le> 23" "unat (dt_minute d) \<le> 59" "unat (dt_second d) \<le> 59"
    using assms unfolding valid_datetime_def word_le_nat_alt y by (simp_all, linarith?)
qed

lemma datetime_seconds:
  assumes "valid_datetime d"
  shows "unat (message_datetime_seconds d) = seconds_of (unat (dt_year d - 2000)) (unat (dt_month d))
      (unat (dt_day d)) (unat (dt_hour d)) (unat (dt_minute d)) (unat (dt_second d))"
proof -
  let ?y = "unat (dt_year d - 2000)" and ?m = "unat (dt_month d)" and ?d = "unat (dt_day d)"
  note b = datetime_bounds [OF assms]
  have "month_start ?y ?m + ?d \<le> month_start ?y (Suc ?m)"
    using month_start_Suc [OF b(3)] b(6) by simp
  also have "\<dots> \<le> month_start ?y 13"
    using b(4) by (intro month_start_mono) simp_all
  finally have "month_start ?y ?m + ?d \<le> 366"
    using month_start_year [of ?y] by (simp split: if_splits)
  moreover have "year_start ?y \<le> year_start 99"
    using b(2) by (intro year_start_mono) simp
  ultimately have "year_start ?y + ?d - 1 + month_start ?y ?m \<le> 36525"
    using b(5) by (simp add: year_start_def)
  then have "seconds_of ?y ?m ?d (unat (dt_hour d)) (unat (dt_minute d)) (unat (dt_second d)) < 2 ^ 32"
    using b(7-9) by (simp add: seconds_of_def)
  then have n: "unat (of_nat (seconds_of ?y ?m ?d (unat (dt_hour d)) (unat (dt_minute d)) (unat (dt_second d))) :: u32) =
      seconds_of ?y ?m ?d (unat (dt_hour d)) (unat (dt_minute d)) (unat (dt_second d))"
    by (simp only: unat_of_nat) simp
  have c: "\<not> (dt_year d < 2000 \<or> 2099 < dt_year d)" "\<not> days_of_month ?y ?m < ?d"
    "\<not> (?m = 0 \<or> 12 < ?m \<or> ?d = 0 \<or> 23 < unat (dt_hour d) \<or> 59 < unat (dt_minute d) \<or> 59 < unat (dt_second d))"
    using assms b by (auto simp add: valid_datetime_def not_less)
  have "message_datetime_seconds d =
      of_nat (seconds_of ?y ?m ?d (unat (dt_hour d)) (unat (dt_minute d)) (unat (dt_second d)))"
    unfolding message_datetime_seconds_def Let_def
    using b(5) by (simp only: c if_False seconds_of_def year_start_def month_start_def)
      (simp add: of_nat_diff)
  from arg_cong [OF this, of unat] n show ?thesis
    by (rule trans)
qed

text \<open>The seconds by which messages are ordered and grouped follow the calendar: of two valid dates
  the earlier has fewer seconds, so no two valid dates share them.\<close>

theorem datetime_seconds_ordered:
  assumes "valid_datetime a" "valid_datetime b"
  shows "message_datetime_seconds a < message_datetime_seconds b \<longleftrightarrow> datetime_fields a < datetime_fields b"
proof -
  have less: "unat (message_datetime_seconds a) < unat (message_datetime_seconds b)"
    if "valid_datetime a" "valid_datetime b" "datetime_fields a < datetime_fields b" for a b
  proof -
    note x = datetime_bounds [OF that(1)] and y = datetime_bounds [OF that(2)]
    have "[unat (dt_year a - 2000), unat (dt_month a), unat (dt_day a), unat (dt_hour a), unat (dt_minute a), unat (dt_second a)] <
        [unat (dt_year b - 2000), unat (dt_month b), unat (dt_day b), unat (dt_hour b), unat (dt_minute b), unat (dt_second b)]"
      using that(3) x(1) y(1) by (auto simp add: datetime_fields_def)
    then show ?thesis
      unfolding datetime_seconds [OF that(1)] datetime_seconds [OF that(2)]
      using x y by (intro seconds_before) simp_all
  qed
  have same: "message_datetime_seconds a = message_datetime_seconds b" if "datetime_fields a = datetime_fields b"
  proof -
    have "a = b"
      using that by (cases a, cases b) (simp add: datetime_fields_def word_unat_eq_iff)
    then show ?thesis
      by simp
  qed
  consider "datetime_fields a < datetime_fields b" | "datetime_fields a = datetime_fields b"
    | "datetime_fields b < datetime_fields a"
    by (rule linorder_cases)
  then show ?thesis
    using less [OF assms] less [OF assms(2,1)] same by cases (auto simp add: word_less_nat_alt)
qed

section \<open>Samples\<close>

text \<open>A two-part message \<open>AB\<close> in UCS2 from \<open>+45\<close>; its second part arrives first.\<close>

definition sample_part :: "u8 \<Rightarrow> u8 \<Rightarrow> u8 list" where
  "sample_part seq ch = fst (the (sms_deliver_build
     \<lparr>sd_address = [43, 52, 53], sd_toa = 0, sd_scts = the (sms_deliver_scts_encode 2026 11 19 4 11 0 0),
      sd_pid = 0, sd_dcs = 8, sd_udhi = True, sd_wdp = False, sd_udl = 8,
      sd_ud = [5, 0, 3, 9, 2, seq, 0, ch], sd_ud_len = 8\<rparr> 384))"

definition sample_file :: message_file where
  "sample_file = fst (message_file_merge (sample_part 1 65) (the (message_file_receive (sample_part 2 66))))"

lemma sample_file_made: "mailbox_file sample_file"
proof -
  have "message_file_receive (sample_part 2 66) \<noteq> None"
    by code_simp
  then show ?thesis
    unfolding sample_file_def by (intro mailbox_file.merged mailbox_file.received [of "sample_part 2 66"]) simp
qed

theorem mailbox_file_is_storable_witness:
  "valid_file sample_file \<and>
     (\<exists>bs. message_file_encode sample_file MESSAGE_FILE_WIRE_MAX = Some bs \<and> message_file_decode bs = Some sample_file)"
  by (rule mailbox_file_is_storable [OF sample_file_made])

theorem complete_text_in_sequence_witness:
  "\<exists>ms. map part_decode (mf_parts sample_file) = map Some ms \<and> [65, 66] = concat (map sm_text (sort_key seq_number ms))"
proof -
  have c: "message_file_content sample_file = Some \<lparr>mc_metadata = \<lparr>mm_id = 0, mm_read = False, mm_sent = False,
      mm_binary = False, mm_quarantined = False, mm_address = [43, 52, 53],
      mm_timestamp = [50, 54, 47, 49, 49, 47, 49, 57, 44, 48, 52, 58, 49, 49, 58, 48, 48]\<rparr>, mc_text = [65, 66]\<rparr>"
    by code_simp
  have "\<not> has_flag sample_file MESSAGE_FILE_DRAFT"
    by code_simp
  from complete_text_in_sequence [OF c this] show ?thesis
    by auto
qed

theorem datetime_seconds_ordered_witness:
  "message_datetime_seconds \<lparr>dt_year = 2024, dt_month = 2, dt_day = 29, dt_hour = 23, dt_minute = 59, dt_second = 59\<rparr> <
   message_datetime_seconds \<lparr>dt_year = 2024, dt_month = 3, dt_day = 1, dt_hour = 0, dt_minute = 0, dt_second = 0\<rparr>"
proof -
  let ?a = "\<lparr>dt_year = 2024, dt_month = 2, dt_day = 29, dt_hour = 23, dt_minute = 59, dt_second = 59\<rparr>"
  let ?b = "\<lparr>dt_year = 2024, dt_month = 3, dt_day = 1, dt_hour = 0, dt_minute = 0, dt_second = 0\<rparr>"
  have "valid_datetime ?a" "valid_datetime ?b"
    by (simp_all add: valid_datetime_def days_of_month_def month_days_def)
  moreover have "datetime_fields ?a < datetime_fields ?b"
    by (simp add: datetime_fields_def)
  ultimately show ?thesis
    by (simp only: datetime_seconds_ordered)
qed

end
