(* ===== verification/Nvm_Flash.thy ===== *)
theory Nvm_Flash
  imports Storage_Journal
begin

text \<open>
  The internal flash as a block device, \<open>storage/nvm_flash_hal.c\<close>.  The flash routines of the SDK and
  the handshake that parks the other core are function parameters (\<open>flash_port\<close>) over the world they
  act on; \<open>flash_laws\<close> is what their manuals say: parking changes no byte; an erase of whole sectors
  inside the flash leaves 0xff, a program of whole pages inside the flash clears bits and sets none,
  and neither touches another byte.  Nothing is said of a call with another offset or length.  The watchdog leases and the
  interrupt mask around an operation have no effect on the bytes and are not modelled.
\<close>

section \<open>Data\<close>

abbreviation "PICO_FLASH_SIZE_BYTES \<equiv> 0x200000 :: u32"
abbreviation "FLASH_SECTOR_SIZE \<equiv> 4096 :: nat"
abbreviation "FLASH_PAGE_SIZE \<equiv> 256 :: nat"
abbreviation "NVM_FLASH_PARK_FAIL_REBOOT \<equiv> 20 :: u32"
abbreviation "STORAGE_LEGACY_BYTES \<equiv> 131072 :: u32"
abbreviation "STORAGE_RECORD_BYTES \<equiv> 131072 :: u32"
abbreviation "STORAGE_SYSTEM_BYTES \<equiv> 65536 :: u32"
abbreviation "STORAGE_USER_BYTES \<equiv> 393216 :: u32"
abbreviation "STORAGE_RESERVED_BYTES \<equiv> STORAGE_SYSTEM_BYTES + STORAGE_USER_BYTES"

record 'w flash_port =
  core1_flash_pause_begin :: "'w \<Rightarrow> 'w \<times> bool"
  flash_range_erase :: "u32 \<Rightarrow> nat \<Rightarrow> 'w \<Rightarrow> 'w"
  flash_range_program :: "u32 \<Rightarrow> u8 list \<Rightarrow> 'w \<Rightarrow> 'w"
  flash_byte :: "'w \<Rightarrow> nat \<Rightarrow> u8"

datatype flash_op = FLASH_OP_ERASE u32 nat | FLASH_OP_PROGRAM u32 "u8 list"

record 'w flash_state =
  fs_world :: 'w
  fs_park_fail_streak :: u32
  fs_reboot :: bool

section \<open>Operations\<close>

fun flash_op_execute :: "'w flash_port \<Rightarrow> flash_op \<Rightarrow> 'w \<Rightarrow> 'w" where
  "flash_op_execute port (FLASH_OP_ERASE off len) w = flash_range_erase port off len w"
| "flash_op_execute port (FLASH_OP_PROGRAM off data) w = flash_range_program port off data w"

text \<open>The answer is whether the result is \<open>PICO_OK\<close>; the other one is always a timeout.\<close>

definition nvm_safe_exec :: "'w flash_port \<Rightarrow> flash_op \<Rightarrow> 'w flash_state \<Rightarrow> 'w flash_state \<times> bool" where
  "nvm_safe_exec port op st =
     (case core1_flash_pause_begin port (fs_world st) of
        (w, True) \<Rightarrow> (st\<lparr>fs_world := flash_op_execute port op w, fs_park_fail_streak := 0\<rparr>, True)
      | (w, False) \<Rightarrow>
          (let n = fs_park_fail_streak st + 1
           in (st\<lparr>fs_world := w, fs_park_fail_streak := n,
                  fs_reboot := (fs_reboot st \<or> NVM_FLASH_PARK_FAIL_REBOOT \<le> n)\<rparr>, False)))"

definition valid_range :: "u32 \<Rightarrow> u32 \<Rightarrow> nat \<Rightarrow> bool" where
  "valid_range capacity offset len \<longleftrightarrow> offset \<le> capacity \<and> len \<le> unat capacity - unat offset"

definition flash_read ::
    "'w flash_port \<Rightarrow> u32 \<Rightarrow> u32 \<Rightarrow> 'w flash_state \<Rightarrow> u32 \<Rightarrow> nat \<Rightarrow> nvm_status \<times> u8 list" where
  "flash_read port base capacity st offset len =
     (if \<not> valid_range capacity offset len then (NVM_STATUS_OUT_OF_RANGE, [])
      else
        (let src = unat (base + offset)
         in (NVM_STATUS_OK, map (flash_byte port (fs_world st)) [src..<src + len])))"

text \<open>The loops of erase and write over their blocks: \<open>done\<close> runs through the multiples of the block.\<close>

definition block_starts :: "nat \<Rightarrow> nat \<Rightarrow> nat list" where
  "block_starts block len = map ((*) block) [0..<len div block]"

fun run_ops :: "'w flash_port \<Rightarrow> flash_op list \<Rightarrow> 'w flash_state \<Rightarrow> 'w flash_state \<times> nvm_status" where
  "run_ops port [] st = (st, NVM_STATUS_OK)"
| "run_ops port (op # ops) st =
     (case nvm_safe_exec port op st of
        (st', ok) \<Rightarrow> if ok then run_ops port ops st' else (st', NVM_STATUS_BUSY))"

definition flash_erase ::
    "'w flash_port \<Rightarrow> u32 \<Rightarrow> u32 \<Rightarrow> 'w flash_state \<Rightarrow> u32 \<Rightarrow> nat \<Rightarrow> 'w flash_state \<times> nvm_status" where
  "flash_erase port base capacity st offset len =
     (if \<not> valid_range capacity offset len then (st, NVM_STATUS_OUT_OF_RANGE)
      else if unat offset mod FLASH_SECTOR_SIZE \<noteq> 0 \<or> len mod FLASH_SECTOR_SIZE \<noteq> 0
      then (st, NVM_STATUS_ALIGNMENT)
      else run_ops port
             (map (\<lambda>k. FLASH_OP_ERASE (base + offset + of_nat k) FLASH_SECTOR_SIZE)
                (block_starts FLASH_SECTOR_SIZE len)) st)"

definition flash_write ::
    "'w flash_port \<Rightarrow> u32 \<Rightarrow> u32 \<Rightarrow> 'w flash_state \<Rightarrow> u32 \<Rightarrow> u8 list \<Rightarrow> 'w flash_state \<times> nvm_status" where
  "flash_write port base capacity st offset src =
     (if \<not> valid_range capacity offset (length src) then (st, NVM_STATUS_OUT_OF_RANGE)
      else if unat offset mod FLASH_PAGE_SIZE \<noteq> 0 \<or> length src mod FLASH_PAGE_SIZE \<noteq> 0
      then (st, NVM_STATUS_ALIGNMENT)
      else run_ops port
             (map (\<lambda>k. FLASH_OP_PROGRAM (base + offset + of_nat k) (take FLASH_PAGE_SIZE (drop k src)))
                (block_starts FLASH_PAGE_SIZE (length src))) st)"

definition init_region :: "'w flash_port \<Rightarrow> u32 \<Rightarrow> u32 \<Rightarrow> 'w flash_state nvm_hal option" where
  "init_region port offset capacity =
     (if PICO_FLASH_SIZE_BYTES < offset \<or> PICO_FLASH_SIZE_BYTES - offset < capacity then None
      else Some \<lparr>nvm_capacity = capacity, nvm_erase_block = of_nat FLASH_SECTOR_SIZE,
                 nvm_write_block = of_nat FLASH_PAGE_SIZE, nvm_erase_required = True,
                 nvm_read = flash_read port offset capacity,
                 nvm_erase = flash_erase port offset capacity,
                 nvm_write = flash_write port offset capacity\<rparr>)"

definition nvm_flash_hal_init :: "'w flash_port \<Rightarrow> 'w flash_state nvm_hal option" where
  "nvm_flash_hal_init port = init_region port (PICO_FLASH_SIZE_BYTES - STORAGE_LEGACY_BYTES) STORAGE_LEGACY_BYTES"

definition nvm_record_flash_hal_init :: "'w flash_port \<Rightarrow> 'w flash_state nvm_hal option" where
  "nvm_record_flash_hal_init port =
     init_region port (PICO_FLASH_SIZE_BYTES - STORAGE_LEGACY_BYTES - STORAGE_RECORD_BYTES) STORAGE_RECORD_BYTES"

definition nvm_system_flash_hal_init :: "'w flash_port \<Rightarrow> 'w flash_state nvm_hal option" where
  "nvm_system_flash_hal_init port =
     init_region port (PICO_FLASH_SIZE_BYTES - STORAGE_RESERVED_BYTES) STORAGE_SYSTEM_BYTES"

definition nvm_user_flash_hal_init :: "'w flash_port \<Rightarrow> 'w flash_state nvm_hal option" where
  "nvm_user_flash_hal_init port =
     init_region port (PICO_FLASH_SIZE_BYTES - STORAGE_USER_BYTES) STORAGE_USER_BYTES"

section \<open>The contract\<close>

text \<open>Whole units, counted from the start of the flash, and inside it.\<close>

definition in_units :: "nat \<Rightarrow> u32 \<Rightarrow> nat \<Rightarrow> bool" where
  "in_units unit off len \<longleftrightarrow>
     unat off mod unit = 0 \<and> len mod unit = 0 \<and> unat off + len \<le> unat PICO_FLASH_SIZE_BYTES"

definition flash_laws :: "'w flash_port \<Rightarrow> bool" where
  "flash_laws port \<longleftrightarrow>
     (\<forall>w i. flash_byte port (fst (core1_flash_pause_begin port w)) i = flash_byte port w i) \<and>
     (\<forall>w off len i. in_units FLASH_SECTOR_SIZE off len \<longrightarrow>
        flash_byte port (flash_range_erase port off len w) i =
          (if unat off \<le> i \<and> i < unat off + len then 0xff else flash_byte port w i)) \<and>
     (\<forall>w off data i. in_units FLASH_PAGE_SIZE off (length data) \<longrightarrow>
        flash_byte port (flash_range_program port off data w) i =
          (if unat off \<le> i \<and> i < unat off + length data
           then flash_byte port w i AND data ! (i - unat off) else flash_byte port w i))"

text \<open>The byte an operation leaves at a place.\<close>

fun op_byte :: "flash_op \<Rightarrow> nat \<Rightarrow> u8 \<Rightarrow> u8" where
  "op_byte (FLASH_OP_ERASE off len) i b = (if unat off \<le> i \<and> i < unat off + len then 0xff else b)"
| "op_byte (FLASH_OP_PROGRAM off data) i b =
     (if unat off \<le> i \<and> i < unat off + length data then b AND data ! (i - unat off) else b)"

fun op_covers :: "flash_op \<Rightarrow> nat \<Rightarrow> bool" where
  "op_covers (FLASH_OP_ERASE off len) i \<longleftrightarrow> unat off \<le> i \<and> i < unat off + len"
| "op_covers (FLASH_OP_PROGRAM off data) i \<longleftrightarrow> unat off \<le> i \<and> i < unat off + length data"

fun op_legal :: "flash_op \<Rightarrow> bool" where
  "op_legal (FLASH_OP_ERASE off len) \<longleftrightarrow> in_units FLASH_SECTOR_SIZE off len"
| "op_legal (FLASH_OP_PROGRAM off data) \<longleftrightarrow> in_units FLASH_PAGE_SIZE off (length data)"

lemma op_byte_outside: "\<not> op_covers op i \<Longrightarrow> op_byte op i b = b"
  by (cases op) auto

lemma safe_exec_byte:
  assumes "flash_laws port" "op_legal op" "nvm_safe_exec port op st = (st', ok)"
  shows "flash_byte port (fs_world st') i =
    (if ok then op_byte op i (flash_byte port (fs_world st) i) else flash_byte port (fs_world st) i)"
proof -
  obtain w parked where p: "core1_flash_pause_begin port (fs_world st) = (w, parked)"
    by fastforce
  then have "flash_byte port w i = flash_byte port (fs_world st) i"
    using assms(1) unfolding flash_laws_def by (metis fst_conv)
  then show ?thesis
    using assms p by (cases parked; cases op) (auto simp add: nvm_safe_exec_def flash_laws_def Let_def)
qed

lemma run_ops_byte:
  assumes "flash_laws port"
  shows "\<forall>op\<in>set ops. op_legal op \<Longrightarrow> run_ops port ops st = (st', status) \<Longrightarrow>
    (status = NVM_STATUS_OK \<longrightarrow> flash_byte port (fs_world st') i =
       fold (\<lambda>op. op_byte op i) ops (flash_byte port (fs_world st) i)) \<and>
    ((\<forall>op\<in>set ops. \<not> op_covers op i) \<longrightarrow> flash_byte port (fs_world st') i = flash_byte port (fs_world st) i)"
proof (induction ops arbitrary: st)
  case (Cons op ops)
  obtain st1 ok where e: "nvm_safe_exec port op st = (st1, ok)"
    by fastforce
  show ?case
    using Cons safe_exec_byte [OF assms _ e, of i] e op_byte_outside [of op i]
    by (cases ok) auto
qed simp

lemma fold_erases:
  "fold (\<lambda>op. op_byte op i) (map (\<lambda>k. FLASH_OP_ERASE (a k) n) ks) b =
     (if \<exists>k\<in>set ks. unat (a k) \<le> i \<and> i < unat (a k) + n then 0xff else b)"
  by (induction ks arbitrary: b) auto

lemma fold_programs:
  "(\<forall>k\<in>set ks. unat (a k) \<le> i \<longrightarrow> i < unat (a k) + length (d k) \<longrightarrow> d k ! (i - unat (a k)) = v) \<Longrightarrow>
   fold (\<lambda>op. op_byte op i) (map (\<lambda>k. FLASH_OP_PROGRAM (a k) (d k)) ks) b =
     (if \<exists>k\<in>set ks. unat (a k) \<le> i \<and> i < unat (a k) + length (d k) then b AND v else b)"
  by (induction ks arbitrary: b) auto

lemma block_start_mult:
  assumes "len mod block = 0" "j < len div (block :: nat)"
  shows "block * j + block \<le> len"
proof -
  have "block * (j + 1) \<le> block * (len div block)"
    using assms(2) by (intro mult_le_mono2) simp
  then show ?thesis
    using assms(1) by auto
qed

lemma block_starts_bound: "k \<in> set (block_starts block len) \<Longrightarrow> len mod block = 0 \<Longrightarrow> k + block \<le> len"
  using block_start_mult [of len block] by (auto simp only: block_starts_def set_map set_upt imageE atLeastLessThan_iff)

lemma block_starts_cover:
  assumes "len mod block = 0" "0 < block"
  shows "(\<exists>k\<in>set (block_starts block len). a + k \<le> i \<and> i < a + k + block) \<longleftrightarrow> a \<le> i \<and> i < a + len"
proof
  assume "\<exists>k\<in>set (block_starts block len). a + k \<le> i \<and> i < a + k + block"
  then obtain k where "k \<in> set (block_starts block len)" "a + k \<le> i" "i < a + k + block"
    by blast
  then show "a \<le> i \<and> i < a + len"
    using block_starts_bound [OF _ assms(1), of k] by linarith
next
  assume i: "a \<le> i \<and> i < a + len"
  define j where "j = (i - a) div block"
  have "block * j + (i - a) mod block = i - a" "(i - a) mod block < block"
    using assms(2) by (simp_all add: j_def)
  moreover have "j < len div block"
    unfolding j_def using i assms(1) by (intro less_mult_imp_div_less) auto
  ultimately show "\<exists>k\<in>set (block_starts block len). a + k \<le> i \<and> i < a + k + block"
    using i by (intro bexI [of _ "block * j"]) (auto simp add: block_starts_def)
qed

section \<open>The contract is kept\<close>

text \<open>The bytes of a region, counted from its start.\<close>

definition region_byte :: "'w flash_port \<Rightarrow> u32 \<Rightarrow> 'w flash_state \<Rightarrow> nat \<Rightarrow> u8" where
  "region_byte port base st i = flash_byte port (fs_world st) (unat base + i)"

lemma region_offset:
  assumes "unat base + unat capacity \<le> unat PICO_FLASH_SIZE_BYTES" "unat offset + k \<le> unat (capacity :: u32)"
  shows "unat (base + offset + of_nat k :: u32) = unat base + unat offset + k"
proof -
  have "unat (base + offset) = unat base + unat offset"
    using assms by (simp add: unat_word_ariths)
  then show ?thesis
    using assms by (simp add: unat_word_ariths unat_of_nat)
qed

lemma block_in_units:
  assumes "unat base + unat capacity \<le> unat PICO_FLASH_SIZE_BYTES" "unat base mod unit = 0"
    and "unat offset + len \<le> unat (capacity :: u32)" "unat offset mod unit = 0" "len mod unit = 0"
    and "k \<in> set (block_starts unit len)"
  shows "in_units unit (base + offset + of_nat k) unit"
proof -
  have k: "k + unit \<le> len" "k mod unit = 0"
    using block_starts_bound [OF assms(6,5)] assms(6) by (auto simp add: block_starts_def)
  then have "unat (base + offset + of_nat k :: u32) = unat base + unat offset + k"
    using assms(1,3) by (intro region_offset [of base capacity]) simp_all
  then show ?thesis
    using assms k by (simp add: in_units_def mod_add_eq [symmetric])
qed

lemma valid_range_iff: "valid_range capacity offset len \<longleftrightarrow> unat offset + len \<le> unat capacity"
  by (auto simp add: valid_range_def word_le_nat_alt)

lemma erase_bytes:
  assumes l: "flash_laws port" and r: "unat base + unat capacity \<le> unat PICO_FLASH_SIZE_BYTES"
    and s: "unat base mod FLASH_SECTOR_SIZE = 0"
    and e: "flash_erase port base capacity st offset len = (st', status)"
  shows "i < unat offset \<or> unat offset + len \<le> i \<Longrightarrow> region_byte port base st' i = region_byte port base st i"
    "status = NVM_STATUS_OK \<Longrightarrow> unat offset \<le> i \<Longrightarrow> i < unat offset + len \<Longrightarrow> region_byte port base st' i = 0xff"
proof -
  let ?a = "\<lambda>k. base + offset + of_nat k" and ?ks = "block_starts FLASH_SECTOR_SIZE len" and ?j = "unat base + i"
  show "i < unat offset \<or> unat offset + len \<le> i \<Longrightarrow> region_byte port base st' i = region_byte port base st i"
    "status = NVM_STATUS_OK \<Longrightarrow> unat offset \<le> i \<Longrightarrow> i < unat offset + len \<Longrightarrow> region_byte port base st' i = 0xff"
  proof (atomize (full), cases "valid_range capacity offset len \<and> len mod FLASH_SECTOR_SIZE = 0")
    case False
    then show "(i < unat offset \<or> unat offset + len \<le> i \<longrightarrow> region_byte port base st' i = region_byte port base st i) \<and>
      (status = NVM_STATUS_OK \<longrightarrow> unat offset \<le> i \<longrightarrow> i < unat offset + len \<longrightarrow> region_byte port base st' i = 0xff)"
      using e by (auto simp add: flash_erase_def split: if_splits)
  next
    case True
    then have addr: "unat (?a k) = unat base + unat offset + k" if "k \<in> set ?ks" for k
      using region_offset [OF r, of offset k] block_starts_bound [OF that] by (simp add: valid_range_iff)
    have cover: "(\<exists>k\<in>set ?ks. unat (?a k) \<le> ?j \<and> ?j < unat (?a k) + FLASH_SECTOR_SIZE) \<longleftrightarrow>
        unat offset \<le> i \<and> i < unat offset + len"
      using block_starts_cover [of len FLASH_SECTOR_SIZE "unat base + unat offset" ?j] True addr by auto
    show "(i < unat offset \<or> unat offset + len \<le> i \<longrightarrow> region_byte port base st' i = region_byte port base st i) \<and>
      (status = NVM_STATUS_OK \<longrightarrow> unat offset \<le> i \<longrightarrow> i < unat offset + len \<longrightarrow> region_byte port base st' i = 0xff)"
    proof (cases "unat offset mod FLASH_SECTOR_SIZE = 0")
      case aligned: True
      then have run: "run_ops port (map (\<lambda>k. FLASH_OP_ERASE (?a k) FLASH_SECTOR_SIZE) ?ks) st = (st', status)"
        using e True by (simp add: flash_erase_def)
      have "\<forall>op\<in>set (map (\<lambda>k. FLASH_OP_ERASE (?a k) FLASH_SECTOR_SIZE) ?ks). op_legal op"
        using block_in_units [OF r s _ aligned] True by (auto simp add: valid_range_iff)
      then show ?thesis
        using run_ops_byte [OF l _ run, of ?j] cover unfolding fold_erases region_byte_def by auto
    next
      case False
      then show ?thesis
        using e True by (auto simp add: flash_erase_def)
    qed
  qed
qed

lemma write_bytes:
  assumes l: "flash_laws port" and r: "unat base + unat capacity \<le> unat PICO_FLASH_SIZE_BYTES"
    and s: "unat base mod FLASH_PAGE_SIZE = 0"
    and e: "flash_write port base capacity st offset src = (st', status)"
  shows "(i < unat offset \<or> unat offset + length src \<le> i \<longrightarrow> region_byte port base st' i = region_byte port base st i) \<and>
    (status = NVM_STATUS_OK \<longrightarrow> unat offset \<le> i \<longrightarrow> i < unat offset + length src \<longrightarrow>
       region_byte port base st' i = region_byte port base st i AND src ! (i - unat offset))"
proof (cases "valid_range capacity offset (length src) \<and> length src mod FLASH_PAGE_SIZE = 0 \<and>
    unat offset mod FLASH_PAGE_SIZE = 0")
  case False
  then show ?thesis
    using e by (auto simp add: flash_write_def split: if_splits)
next
  case True
  let ?a = "\<lambda>k. base + offset + of_nat k" and ?ks = "block_starts FLASH_PAGE_SIZE (length src)" and ?j = "unat base + i"
  let ?d = "\<lambda>k. take FLASH_PAGE_SIZE (drop k src)"
  have addr: "unat (?a k) = unat base + unat offset + k" "length (?d k) = FLASH_PAGE_SIZE" if "k \<in> set ?ks" for k
    using region_offset [OF r, of offset k] block_starts_bound [OF that] True by (simp_all add: valid_range_iff)
  have cover: "(\<exists>k\<in>set ?ks. unat (?a k) \<le> ?j \<and> ?j < unat (?a k) + length (?d k)) \<longleftrightarrow>
      unat offset \<le> i \<and> i < unat offset + length src"
    using block_starts_cover [of "length src" FLASH_PAGE_SIZE "unat base + unat offset" ?j] True addr by auto
  have data: "\<forall>k\<in>set ?ks. unat (?a k) \<le> ?j \<longrightarrow> ?j < unat (?a k) + length (?d k) \<longrightarrow>
      ?d k ! (?j - unat (?a k)) = src ! (i - unat offset)"
  proof (intro ballI impI)
    fix k assume k: "k \<in> set ?ks" "unat (?a k) \<le> ?j" "?j < unat (?a k) + length (?d k)"
    then have "?j - unat (?a k) < FLASH_PAGE_SIZE" "k + (?j - unat (?a k)) = i - unat offset"
      using addr by auto
    moreover have "k \<le> length src"
      using block_starts_bound [OF k(1)] True by simp
    ultimately show "?d k ! (?j - unat (?a k)) = src ! (i - unat offset)"
      by simp
  qed
  have run: "run_ops port (map (\<lambda>k. FLASH_OP_PROGRAM (?a k) (?d k)) ?ks) st = (st', status)"
    using e True by (simp add: flash_write_def)
  have "\<forall>op\<in>set (map (\<lambda>k. FLASH_OP_PROGRAM (?a k) (?d k)) ?ks). op_legal op"
    using block_in_units [OF r s, of offset "length src"] addr(2) True by (auto simp add: valid_range_iff)
  then show ?thesis
    using run_ops_byte [OF l _ run, of ?j] cover unfolding fold_programs [OF data] region_byte_def by auto
qed

lemma page_divides_sector: "FLASH_PAGE_SIZE dvd FLASH_SECTOR_SIZE"
  by simp

lemma init_region_contract:
  assumes l: "flash_laws port" and i: "init_region port base capacity = Some hal"
    and s: "unat base mod FLASH_SECTOR_SIZE = 0"
  shows "nvm_contract hal (region_byte port base)" "nvm_capacity hal = capacity"
proof -
  have "base \<le> PICO_FLASH_SIZE_BYTES" "capacity \<le> PICO_FLASH_SIZE_BYTES - base"
    using i by (auto simp add: init_region_def not_less split: if_splits)
  then have r: "unat base + unat capacity \<le> unat PICO_FLASH_SIZE_BYTES"
    by (simp add: word_le_nat_alt unat_sub)
  have hal: "nvm_capacity hal = capacity" "nvm_erase_required hal" "nvm_read hal = flash_read port base capacity"
    "nvm_erase hal = flash_erase port base capacity" "nvm_write hal = flash_write port base capacity"
    using i by (auto simp add: init_region_def split: if_splits)
  then show "nvm_capacity hal = capacity"
    by simp
  have read: "flash_read port base capacity st off n =
      (NVM_STATUS_OK, map (region_byte port base st) [unat off..<unat off + n])"
    if "unat off + n \<le> unat capacity" for st off n
  proof -
    have "unat (base + off) = unat base + unat off"
      using region_offset [OF r, of off 0] that by simp
    then show ?thesis
      using that by (auto simp add: flash_read_def valid_range_iff region_byte_def Let_def list_eq_iff_nth_eq add.assoc)
  qed
  have e: "flash_erase port base capacity st off n = (fst (flash_erase port base capacity st off n),
      snd (flash_erase port base capacity st off n))" for st off n
    by simp
  have w: "flash_write port base capacity st off bs = (fst (flash_write port base capacity st off bs),
      snd (flash_write port base capacity st off bs))" for st off bs
    by simp
  have "unat base mod FLASH_PAGE_SIZE = 0"
    using s by (metis mod_0_imp_dvd dvd_imp_mod_0 dvd_trans page_divides_sector)
  then show "nvm_contract hal (region_byte port base)"
    unfolding nvm_contract_def hal(1,3-5)
    using hal(2) read erase_bytes [OF l r s e] write_bytes [OF l r _ w] by (auto simp add: erased_and)
qed

lemma region_opens:
  assumes "flash_laws port" "base \<le> PICO_FLASH_SIZE_BYTES \<and> capacity \<le> PICO_FLASH_SIZE_BYTES - base"
    and s: "unat base mod FLASH_SECTOR_SIZE = 0"
  shows "\<exists>h base'. init_region port base capacity = Some h \<and> nvm_contract h (region_byte port base') \<and>
    unat base' + unat (nvm_capacity h) \<le> unat PICO_FLASH_SIZE_BYTES"
proof -
  obtain h where h: "init_region port base capacity = Some h"
    using assms(2) unfolding init_region_def by (simp add: not_less [symmetric])
  moreover have "unat base + unat capacity \<le> unat PICO_FLASH_SIZE_BYTES"
  proof -
    have "unat (PICO_FLASH_SIZE_BYTES - base) = unat PICO_FLASH_SIZE_BYTES - unat base"
      using assms(2) by (intro unat_sub) blast
    then show ?thesis
      using assms(2) by (auto simp add: word_le_nat_alt)
  qed
  ultimately show ?thesis
    using init_region_contract [OF assms(1) h s] by auto
qed

text \<open>C29: the internal flash keeps the contract the journal relies on: for each of the four regions the
  firmware opens, whatever the parking of the other core answers, reads return the bytes, an erase or
  a program of any offset and length touches no byte outside its range even when it is refused or
  cut short, and one that reports success leaves the erased value or the data - although the SDK's
  routines promise this only for whole sectors and whole pages.\<close>

theorem flash_keeps_contract:
  assumes "flash_laws port"
    and "hal \<in> {nvm_flash_hal_init port, nvm_record_flash_hal_init port, nvm_system_flash_hal_init port,
      nvm_user_flash_hal_init port}"
  shows "\<exists>h base. hal = Some h \<and> nvm_contract h (region_byte port base) \<and>
    unat base + unat (nvm_capacity h) \<le> unat PICO_FLASH_SIZE_BYTES"
  using assms(2) region_opens [OF assms(1)]
  by (auto simp only: insert_iff empty_iff nvm_flash_hal_init_def nvm_record_flash_hal_init_def
      nvm_system_flash_hal_init_def nvm_user_flash_hal_init_def intro!: region_opens [OF assms(1)]) simp_all

text \<open>Parking that fails twenty times in a row asks for a reboot; a parked operation starts over.\<close>

lemma park_failures_reboot:
  assumes "\<And>w. \<not> snd (core1_flash_pause_begin port w)" "unat (fs_park_fail_streak st) + n < 2 ^ 32" "0 < n"
    "20 \<le> unat (fs_park_fail_streak st) + n"
  shows "fs_reboot (((\<lambda>s. fst (nvm_safe_exec port op s)) ^^ n) st)"
proof -
  have step: "fs_park_fail_streak (fst (nvm_safe_exec port op s)) = fs_park_fail_streak s + 1 \<and>
      fs_reboot (fst (nvm_safe_exec port op s)) = (fs_reboot s \<or> 20 \<le> fs_park_fail_streak s + 1)" for s
    using assms(1) [of "fs_world s"] by (auto simp add: nvm_safe_exec_def Let_def split: prod.splits bool.splits)
  have streak: "fs_park_fail_streak (((\<lambda>s. fst (nvm_safe_exec port op s)) ^^ k) st) = fs_park_fail_streak st + of_nat k" for k
    using step by (induction k) simp_all
  obtain m where m: "n = Suc m"
    using assms(3) by (cases n) simp_all
  have "unat (fs_park_fail_streak st + of_nat n) = unat (fs_park_fail_streak st) + n"
    using assms(2) by (simp add: unat_word_ariths unat_of_nat)
  then have "20 \<le> fs_park_fail_streak st + of_nat m + 1"
    using assms(4) m by (simp add: word_le_nat_alt add.assoc add.commute [of 1])
  then show ?thesis
    using step streak [of m] by (simp add: m)
qed

section \<open>A flash in memory\<close>

definition ram_port :: "(nat \<Rightarrow> u8) flash_port" where
  "ram_port = \<lparr>core1_flash_pause_begin = (\<lambda>w. (w, True)),
     flash_range_erase = (\<lambda>off len w i. if unat off \<le> i \<and> i < unat off + len then 0xff else w i),
     flash_range_program = (\<lambda>off data w i. if unat off \<le> i \<and> i < unat off + length data
        then w i AND data ! (i - unat off) else w i),
     flash_byte = (\<lambda>w. w)\<rparr>"

lemma ram_port_laws: "flash_laws ram_port"
  by (simp add: flash_laws_def ram_port_def)

theorem flash_keeps_contract_witness:
  "\<exists>h base. nvm_user_flash_hal_init ram_port = Some h \<and> nvm_contract h (region_byte ram_port base) \<and>
     unat base + unat (nvm_capacity h) \<le> unat PICO_FLASH_SIZE_BYTES"
proof -
  show ?thesis
    using ram_port_laws flash_keeps_contract [of ram_port "nvm_user_flash_hal_init ram_port"] by simp
qed

text \<open>The journal of \<open>storage_journal.c\<close> on that flash: its write is aligned, so it is taken.\<close>

lemma run_ops_parked: "snd (run_ops ram_port ops st) = NVM_STATUS_OK"
  by (induction ops arbitrary: st) (simp_all add: nvm_safe_exec_def ram_port_def)

definition flash_device :: "(nat \<Rightarrow> u8) flash_state nvm_hal" where
  "flash_device = the (nvm_flash_hal_init ram_port)"

definition flash_journal :: "(nat \<Rightarrow> u8) flash_state storage_journal" where
  "flash_journal = \<lparr>sj_hal = flash_device, sj_base_offset = 8192, sj_slot_size = 4096, sj_unit_id = 7\<rparr>"

lemma flash_journal_init:
  "nvm_flash_hal_init ram_port = Some flash_device"
  "storage_journal_init flash_device 7 8192 4096 = Some flash_journal"
  by (simp_all add: flash_device_def flash_journal_def nvm_flash_hal_init_def init_region_def
      storage_journal_init_def)

lemma flash_journal_fits: "journal_fits flash_journal"
  by (simp add: flash_journal_def flash_device_def nvm_flash_hal_init_def init_region_def journal_fits_def)

lemma flash_journal_accepts:
  assumes "t \<le> 1" "length p \<le> 4064"
  shows "device_accepts flash_journal d t q p"
proof -
  have off: "unat (slot_offset flash_journal t) \<in> {8192, 12288}"
    using assms(1) by (auto simp add: slot_offset_def flash_journal_def le_Suc_eq)
  have "length (journal_image flash_journal q p) = 4096"
    using assms(2) journal_image_fields(1) [OF flash_journal_fits, of p q] by (simp add: flash_journal_def)
  moreover have "valid_range 131072 (slot_offset flash_journal t) 4096"
    using off by (auto simp add: valid_range_iff)
  ultimately show ?thesis
    using off by (auto simp add: device_accepts_def flash_journal_def flash_device_def nvm_flash_hal_init_def
        init_region_def flash_erase_def flash_write_def run_ops_parked Let_def)
qed

theorem journal_write_read_witness:
  "\<exists>q. storage_journal_read_latest flash_journal
     (fst (storage_journal_write flash_journal \<lparr>fs_world = \<lambda>_. 0, fs_park_fail_streak = 0, fs_reboot = False\<rparr> [1, 2, 3]))
     4064 = Some ([1, 2, 3], q)"
proof -
  let ?d = "\<lparr>fs_world = \<lambda>_. 0, fs_park_fail_streak = 0, fs_reboot = False\<rparr> :: (nat \<Rightarrow> u8) flash_state"
  have "init_region ram_port (PICO_FLASH_SIZE_BYTES - STORAGE_LEGACY_BYTES) STORAGE_LEGACY_BYTES = Some flash_device"
    using flash_journal_init(1) by (simp add: nvm_flash_hal_init_def)
  then have c: "nvm_contract (sj_hal flash_journal)
      (region_byte ram_port (PICO_FLASH_SIZE_BYTES - STORAGE_LEGACY_BYTES))"
    using init_region_contract(1) [OF ram_port_laws] by (simp add: flash_journal_def)
  have size: "unat (sj_slot_size flash_journal - 32) = 4064" "unat (sj_slot_size flash_journal) = 4096"
    by (simp_all add: flash_journal_def)
  obtain t q where tq: "t \<le> 1" "snd (storage_journal_write flash_journal ?d [1, 2, 3]) \<longleftrightarrow>
      device_accepts flash_journal ?d t q [1, 2, 3]"
    "snd (storage_journal_write flash_journal ?d [1, 2, 3]) \<longrightarrow>
       storage_journal_read_latest flash_journal (fst (storage_journal_write flash_journal ?d [1, 2, 3]))
         (unat (sj_slot_size flash_journal - 32)) = Some ([1, 2, 3], q)"
    using journal_write_read [OF c flash_journal_fits, of "[1, 2, 3]" ?d] by (auto simp add: size)
  then show ?thesis
    using flash_journal_accepts [of t "[1, 2, 3]" ?d q] unfolding size by auto
qed

end
