(* ===== verification/Battery_Learning.thy ===== *)
theory Battery_Learning
  imports Charge_Supervisor
begin

text \<open>
  The battery health and state-of-charge learner, \<open>services/battery_learning_logic.c\<close>: the data of
  its header and every function, from the capacity history and the coulomb ledger to one update per
  observation and the recovery commands.  A profile pointer that may be NULL is an option and stands
  for the NiMH profile; the state and observation pointers are not NULL.  Signed integers are
  \<open>int\<close> with the saturation the code writes out, unsigned ones words.  The arrays keep their C
  length.
\<close>

section \<open>Data\<close>

abbreviation "LEARNING_CAPACITY_HISTORY_COUNT \<equiv> 3 :: u8"
abbreviation "LEARNING_RESISTANCE_BIN_COUNT \<equiv> 3 :: nat"
abbreviation "LEARNING_RESISTANCE_WINDOW_COUNT \<equiv> 9 :: u8"
abbreviation "LEARNING_SOC_BOOTSTRAP_SAMPLE_COUNT \<equiv> 5 :: u8"

abbreviation "LEARNING_EVENT_FULL \<equiv> 1 :: u32"
abbreviation "LEARNING_EVENT_EMPTY \<equiv> 2 :: u32"

abbreviation "LEARNING_RESULT_PERSIST \<equiv> 1 :: u32"
abbreviation "LEARNING_RESULT_FULL_ANCHORED \<equiv> 2 :: u32"
abbreviation "LEARNING_RESULT_CAPACITY_ACCEPTED \<equiv> 4 :: u32"
abbreviation "LEARNING_RESULT_CAPACITY_REJECTED \<equiv> 8 :: u32"
abbreviation "LEARNING_RESULT_RESISTANCE_UPDATED \<equiv> 0x10 :: u32"
abbreviation "LEARNING_RESULT_PACK_RESET \<equiv> 0x20 :: u32"
abbreviation "LEARNING_RESULT_SOC_BOOTSTRAPPED \<equiv> 0x40 :: u32"
abbreviation "LEARNING_RESULT_SOC_REANCHORED \<equiv> 0x80 :: u32"
abbreviation "LEARNING_RESULT_SOC_INVALIDATED \<equiv> 0x100 :: u32"

abbreviation "BATTERY_LEARNING_PROFILE_NIMH_2S \<equiv> 2 :: u8"
abbreviation "NAH_PER_MAH \<equiv> 1000000 :: int"
abbreviation "INT32_MAX \<equiv> 2 ^ 31 - 1 :: int"
abbreviation "INT32_MIN \<equiv> - (2 ^ 31) :: int"

datatype resistance_bin =
  BATTERY_RESISTANCE_BIN_HIGH | BATTERY_RESISTANCE_BIN_MID | BATTERY_RESISTANCE_BIN_LOW

record learning_profile =
  lp_profile_id :: u8
  lp_nominal_capacity_mah :: u16
  lp_capacity_min_mah :: u16
  lp_capacity_max_mah :: u16
  lp_learning_temperature_min_mdegc :: int
  lp_learning_temperature_max_mdegc :: int
  lp_resistance_temperature_min_mdegc :: int
  lp_resistance_temperature_max_mdegc :: int
  lp_resistance_step_min_ma :: u16
  lp_resistance_min_mohm :: u16
  lp_resistance_max_mohm :: u16
  lp_resistance_persist_delta_mohm :: u16
  lp_capacity_consistency_percent :: u16
  lp_recharge_invalidate_nah :: int
  lp_acr_lsb_nah :: u16
  lp_charge_factor_permille :: u16

record learning_observation =
  lo_now_ms :: u32
  lo_sample_sequence :: u32
  lo_gauge_session :: u32
  lo_acr_raw :: u32
  lo_session_delta_nah :: int
  lo_terminal_mv :: u16
  lo_current_ua :: int
  lo_temperature_mdegc :: int
  lo_reference_mv :: u16
  lo_sample_valid :: bool
  lo_current_valid :: bool
  lo_continuity_valid :: bool
  lo_reference_valid :: bool
  lo_charger_connected :: bool
  lo_charge_active :: bool
  lo_authoritative :: bool

record learning_provision =
  lv_capacity_mah :: u16
  lv_resistance_mohm :: "u16 list"
  lv_natural_empty_valid :: bool

record learning_persisted =
  lr_profile_id :: u8
  lr_nominal_capacity_mah :: u16
  lr_capacity_history_mah :: "u16 list"
  lr_capacity_history_count :: u8
  lr_capacity_history_next :: u8
  lr_accepted_capacity_cycles :: u16
  lr_rejected_capacity_cycles :: u16
  lr_last_capacity_mah :: u16
  lr_resistance_mohm :: "u16 list"
  lr_resistance_sample_count :: "u16 list"
  lr_pack_generation :: u32
  lr_full_anchor_acr_raw :: u32
  lr_full_anchor_nah :: int
  lr_cycle_min_temperature_mdegc :: int
  lr_cycle_max_temperature_mdegc :: int
  lr_full_anchor_valid :: bool
  lr_capacity_cycle_qualified :: bool
  lr_natural_empty_valid :: bool
  lr_soc_valid :: bool
  lr_soc_charge_segment :: bool
  lr_soc_capacity_mah :: u16
  lr_soc_charge_factor_permille :: u16
  lr_soc_bootstrap_reference_mv :: u16
  lr_soc_anchor_provenance :: battery_soc_provenance
  lr_soc_confidence :: battery_soc_confidence
  lr_soc_anchor_session_delta_nah :: int
  lr_soc_anchor_remaining_nah :: int

record learning_snapshot =
  sn_nominal_capacity_mah :: u16
  sn_learned_capacity_mah :: u16
  sn_last_capacity_mah :: u16
  sn_capacity_spread_mah :: u16
  sn_capacity_history_mah :: "u16 list"
  sn_capacity_history_count :: u8
  sn_capacity_history_next :: u8
  sn_remaining_capacity_mah :: u16
  sn_state_of_health_percent :: u16
  sn_cycle_discharged_mah :: u16
  sn_cycle_discharged_nah :: u64
  sn_capacity_overrun_nah :: u64
  sn_remaining_capacity_nah :: u64
  sn_soc_capacity_mah :: u16
  sn_state_of_charge_percent :: u8
  sn_capacity_confidence :: battery_capacity_confidence
  sn_learned_capacity_valid :: bool
  sn_remaining_capacity_valid :: bool
  sn_capacity_prediction_exhausted :: bool
  sn_soc_bars_valid :: bool
  sn_soc_bars :: u8
  sn_soc_provenance :: battery_soc_provenance
  sn_soc_confidence :: battery_soc_confidence
  sn_soc_charge_segment :: bool
  sn_soc_bootstrap_reference_mv :: u16
  sn_full_anchor_valid :: bool
  sn_capacity_cycle_qualified :: bool
  sn_natural_empty_valid :: bool
  sn_accepted_capacity_cycles :: u16
  sn_rejected_capacity_cycles :: u16
  sn_pack_generation :: u32
  sn_gauge_session_bound :: bool
  sn_gauge_session :: u32
  sn_resistance_mohm :: "u16 list"
  sn_resistance_sample_count :: "u16 list"
  sn_current_resistance_bin :: resistance_bin
  sn_current_resistance_bin_valid :: bool

record learning_state =
  lt_persisted :: learning_persisted
  lt_snapshot :: learning_snapshot
  lt_resistance_window :: "u16 list list"
  lt_resistance_persisted_mohm :: "u16 list"
  lt_resistance_persisted_count :: "u16 list"
  lt_resistance_window_count :: "u8 list"
  lt_last_sample_sequence :: u32
  lt_last_gauge_session :: u32
  lt_previous_ms :: u32
  lt_latest_session_delta_nah :: int
  lt_previous_terminal_mv :: u16
  lt_latest_terminal_mv :: u16
  lt_previous_current_ua :: int
  lt_session_seen :: bool
  lt_sample_seen :: bool
  lt_latest_observation_valid :: bool
  lt_previous_resistance_sample_valid :: bool
  lt_soc_bootstrap_reference_sum_mv :: u32
  lt_soc_bootstrap_sample_count :: u8

definition NIMH_PROFILE :: learning_profile where
  "NIMH_PROFILE =
     \<lparr>lp_profile_id = BATTERY_LEARNING_PROFILE_NIMH_2S, lp_nominal_capacity_mah = 1225,
      lp_capacity_min_mah = 300, lp_capacity_max_mah = 2000,
      lp_learning_temperature_min_mdegc = 10000, lp_learning_temperature_max_mdegc = 40000,
      lp_resistance_temperature_min_mdegc = 10000, lp_resistance_temperature_max_mdegc = 35000,
      lp_resistance_step_min_ma = 200, lp_resistance_min_mohm = 50, lp_resistance_max_mohm = 1000,
      lp_resistance_persist_delta_mohm = 25, lp_capacity_consistency_percent = 20,
      lp_recharge_invalidate_nah = 5000000, lp_acr_lsb_nah = 3825,
      lp_charge_factor_permille = 1224\<rparr>"

definition learning_profile_or :: "learning_profile option \<Rightarrow> learning_profile" where
  "learning_profile_or p = (case p of None \<Rightarrow> NIMH_PROFILE | Some q \<Rightarrow> q)"

definition battery_learning_nimh_profile :: learning_profile where
  "battery_learning_nimh_profile = NIMH_PROFILE"

text \<open>The values after \<open>memset\<close> to zero.\<close>

definition learning_persisted_zero :: learning_persisted where
  "learning_persisted_zero =
     \<lparr>lr_profile_id = 0, lr_nominal_capacity_mah = 0, lr_capacity_history_mah = [0, 0, 0],
      lr_capacity_history_count = 0, lr_capacity_history_next = 0, lr_accepted_capacity_cycles = 0,
      lr_rejected_capacity_cycles = 0, lr_last_capacity_mah = 0, lr_resistance_mohm = [0, 0, 0],
      lr_resistance_sample_count = [0, 0, 0], lr_pack_generation = 0, lr_full_anchor_acr_raw = 0,
      lr_full_anchor_nah = 0, lr_cycle_min_temperature_mdegc = 0, lr_cycle_max_temperature_mdegc = 0,
      lr_full_anchor_valid = False, lr_capacity_cycle_qualified = False,
      lr_natural_empty_valid = False, lr_soc_valid = False, lr_soc_charge_segment = False,
      lr_soc_capacity_mah = 0, lr_soc_charge_factor_permille = 0, lr_soc_bootstrap_reference_mv = 0,
      lr_soc_anchor_provenance = BATTERY_SOC_PROVENANCE_UNKNOWN,
      lr_soc_confidence = BATTERY_SOC_CONFIDENCE_NONE,
      lr_soc_anchor_session_delta_nah = 0, lr_soc_anchor_remaining_nah = 0\<rparr>"

definition learning_snapshot_zero :: learning_snapshot where
  "learning_snapshot_zero =
     \<lparr>sn_nominal_capacity_mah = 0, sn_learned_capacity_mah = 0, sn_last_capacity_mah = 0,
      sn_capacity_spread_mah = 0, sn_capacity_history_mah = [0, 0, 0], sn_capacity_history_count = 0,
      sn_capacity_history_next = 0, sn_remaining_capacity_mah = 0, sn_state_of_health_percent = 0,
      sn_cycle_discharged_mah = 0, sn_cycle_discharged_nah = 0, sn_capacity_overrun_nah = 0,
      sn_remaining_capacity_nah = 0, sn_soc_capacity_mah = 0, sn_state_of_charge_percent = 0,
      sn_capacity_confidence = BATTERY_CAPACITY_CONFIDENCE_PRIOR, sn_learned_capacity_valid = False,
      sn_remaining_capacity_valid = False, sn_capacity_prediction_exhausted = False,
      sn_soc_bars_valid = False, sn_soc_bars = 0, sn_soc_provenance = BATTERY_SOC_PROVENANCE_UNKNOWN,
      sn_soc_confidence = BATTERY_SOC_CONFIDENCE_NONE, sn_soc_charge_segment = False,
      sn_soc_bootstrap_reference_mv = 0, sn_full_anchor_valid = False,
      sn_capacity_cycle_qualified = False, sn_natural_empty_valid = False,
      sn_accepted_capacity_cycles = 0, sn_rejected_capacity_cycles = 0, sn_pack_generation = 0,
      sn_gauge_session_bound = False, sn_gauge_session = 0, sn_resistance_mohm = [0, 0, 0],
      sn_resistance_sample_count = [0, 0, 0],
      sn_current_resistance_bin = BATTERY_RESISTANCE_BIN_HIGH,
      sn_current_resistance_bin_valid = False\<rparr>"

definition learning_state_zero :: learning_state where
  "learning_state_zero =
     \<lparr>lt_persisted = learning_persisted_zero, lt_snapshot = learning_snapshot_zero,
      lt_resistance_window = replicate 3 (replicate 9 0), lt_resistance_persisted_mohm = [0, 0, 0],
      lt_resistance_persisted_count = [0, 0, 0], lt_resistance_window_count = [0, 0, 0],
      lt_last_sample_sequence = 0, lt_last_gauge_session = 0, lt_previous_ms = 0,
      lt_latest_session_delta_nah = 0, lt_previous_terminal_mv = 0, lt_latest_terminal_mv = 0,
      lt_previous_current_ua = 0, lt_session_seen = False, lt_sample_seen = False,
      lt_latest_observation_valid = False, lt_previous_resistance_sample_valid = False,
      lt_soc_bootstrap_reference_sum_mv = 0, lt_soc_bootstrap_sample_count = 0\<rparr>"

section \<open>Arithmetic\<close>

definition saturating_increment_u16 :: "u16 \<Rightarrow> u16" where
  "saturating_increment_u16 v = (if v = 0xffff then v else v + 1)"

definition absolute_difference_u16 :: "u16 \<Rightarrow> u16 \<Rightarrow> u16" where
  "absolute_difference_u16 a b = (if b \<le> a then a - b else b - a)"

definition positive_difference_i64 :: "int \<Rightarrow> int \<Rightarrow> u64" where
  "positive_difference_i64 high low = (if high \<le> low then 0 else of_int high - of_int low)"

definition increase_exceeds_i64 :: "int \<Rightarrow> int \<Rightarrow> int \<Rightarrow> bool" where
  "increase_exceeds_i64 v baseline threshold \<longleftrightarrow>
     0 \<le> threshold \<and> of_int threshold < positive_difference_i64 v baseline"

definition saturating_add_i64 :: "int \<Rightarrow> int \<Rightarrow> int" where
  "saturating_add_i64 a b =
     (if 0 < b \<and> INT64_MAX - b < a then INT64_MAX
      else if b < 0 \<and> a < INT64_MIN - b then INT64_MIN else a + b)"

definition modular_u32_delta :: "u32 \<Rightarrow> u32 \<Rightarrow> int" where
  "modular_u32_delta newer older =
     (let modular = newer - older in
      if modular \<le> 0x7fffffff then uint modular
      else
        (let magnitude = 0xffffffff - modular + 1
         in if magnitude = 0x80000000 then INT32_MIN else - uint magnitude))"

definition rated_nah :: "u16 \<Rightarrow> int" where
  "rated_nah mah = uint mah * NAH_PER_MAH"

definition learning_rounded_mah :: "u64 \<Rightarrow> u64" where
  "learning_rounded_mah nah =
     nah div 1000000 + (if 1000000 div 2 \<le> nah mod 1000000 then 1 else 0)"

definition temperature_in_range :: "int \<Rightarrow> int \<Rightarrow> int \<Rightarrow> bool" where
  "temperature_in_range v low high \<longleftrightarrow> low \<le> v \<and> v \<le> high"

definition resistance_bin_for_mv :: "u16 \<Rightarrow> resistance_bin" where
  "resistance_bin_for_mv mv =
     (if 2530 \<le> mv then BATTERY_RESISTANCE_BIN_HIGH
      else if 2320 \<le> mv then BATTERY_RESISTANCE_BIN_MID else BATTERY_RESISTANCE_BIN_LOW)"

fun bin_index :: "resistance_bin \<Rightarrow> nat" where
  "bin_index BATTERY_RESISTANCE_BIN_HIGH = 0"
| "bin_index BATTERY_RESISTANCE_BIN_MID = 1"
| "bin_index BATTERY_RESISTANCE_BIN_LOW = 2"

text \<open>The insertion sort is the one of the charge supervisor, over the first \<open>count\<close> values.\<close>

definition learning_median_u16 :: "u16 list \<Rightarrow> u8 \<Rightarrow> u16" where
  "learning_median_u16 vs count =
     (if count = 0 \<or> LEARNING_RESISTANCE_WINDOW_COUNT < count then 0
      else fold insert_sorted (take (unat count) vs) [] ! (unat count div 2))"

section \<open>Capacity\<close>

definition learned_capacity_mah :: "learning_persisted \<Rightarrow> u16" where
  "learned_capacity_mah r =
     (let count = lr_capacity_history_count r; h = lr_capacity_history_mah r in
      if count = 0 then 0
      else if count = 1 then h ! 0
      else if count = 2 then ucast ((ucast (h ! 0) + ucast (h ! 1) + 1 :: u32) div 2)
      else learning_median_u16 h LEARNING_CAPACITY_HISTORY_COUNT)"

definition capacity_spread_mah :: "learning_persisted \<Rightarrow> u16" where
  "capacity_spread_mah r =
     (let count = lr_capacity_history_count r; h = take (unat count) (lr_capacity_history_mah r) in
      if count < 2 then 0
      else fold (\<lambda>c high. if high < c then c else high) (tl h) (hd h) -
           fold (\<lambda>c low. if c < low then c else low) (tl h) (hd h))"

definition capacity_confidence :: "learning_persisted \<Rightarrow> learning_profile \<Rightarrow> battery_capacity_confidence" where
  "capacity_confidence r p =
     (if lr_capacity_history_count r = 0 then BATTERY_CAPACITY_CONFIDENCE_PRIOR
      else if lr_capacity_history_count r < LEARNING_CAPACITY_HISTORY_COUNT
      then BATTERY_CAPACITY_CONFIDENCE_OBSERVED
      else
        (let allowed = (ucast (lr_nominal_capacity_mah r) :: u32) *
           ucast (lp_capacity_consistency_percent p) div 100
         in if ucast (capacity_spread_mah r) \<le> allowed then BATTERY_CAPACITY_CONFIDENCE_LEARNED
            else BATTERY_CAPACITY_CONFIDENCE_CONFLICTED))"

definition capacity_estimate_mah :: "learning_persisted \<Rightarrow> learning_profile \<Rightarrow> u16" where
  "capacity_estimate_mah r p =
     (let confidence = capacity_confidence r p in
      if confidence = BATTERY_CAPACITY_CONFIDENCE_OBSERVED \<or>
         confidence = BATTERY_CAPACITY_CONFIDENCE_LEARNED
      then learned_capacity_mah r else lr_nominal_capacity_mah r)"

definition add_capacity_sample :: "u16 \<Rightarrow> learning_persisted \<Rightarrow> learning_persisted" where
  "add_capacity_sample mah r =
     (let r1 =
        (if lr_capacity_history_count r < LEARNING_CAPACITY_HISTORY_COUNT
         then r\<lparr>lr_capacity_history_mah :=
                  (lr_capacity_history_mah r)[unat (lr_capacity_history_count r) := mah],
                lr_capacity_history_count := lr_capacity_history_count r + 1,
                lr_capacity_history_next :=
                  (lr_capacity_history_count r + 1) mod LEARNING_CAPACITY_HISTORY_COUNT\<rparr>
         else r\<lparr>lr_capacity_history_mah :=
                  (lr_capacity_history_mah r)[unat (lr_capacity_history_next r) := mah],
                lr_capacity_history_next :=
                  of_nat ((unat (lr_capacity_history_next r) + 1) mod 3)\<rparr>)
      in r1\<lparr>lr_last_capacity_mah := mah,
            lr_accepted_capacity_cycles := saturating_increment_u16 (lr_accepted_capacity_cycles r)\<rparr>)"

section \<open>The coulomb ledger\<close>

definition soc_project_remaining_nah :: "learning_persisted \<Rightarrow> int \<Rightarrow> int" where
  "soc_project_remaining_nah r session_delta_nah =
     (if \<not> lr_soc_valid r then 0
      else
        (let delta = saturating_sub_i64 session_delta_nah (lr_soc_anchor_session_delta_nah r);
             factor = (ucast (lr_soc_charge_factor_permille r) :: u64);
             positive = (of_int delta :: u64);
             scaled = positive div factor * 1000 + (positive mod factor) * 1000 div factor
         in
         if lr_soc_charge_segment r \<and> 0 < delta \<and> factor = 0 then lr_soc_anchor_remaining_nah r
         else
           (let delta1 =
              (if lr_soc_charge_segment r \<and> 0 < delta
               then if of_int INT64_MAX < scaled then INT64_MAX else uint scaled
               else delta);
                remaining = saturating_add_i64 (lr_soc_anchor_remaining_nah r) delta1;
                maximum = rated_nah (lr_soc_capacity_mah r)
            in if remaining < 0 then 0 else if maximum < remaining then maximum else remaining)))"

definition soc_set_anchor ::
    "u16 \<Rightarrow> int \<Rightarrow> int \<Rightarrow> bool \<Rightarrow> u16 \<Rightarrow> u16 \<Rightarrow> battery_soc_provenance \<Rightarrow> battery_soc_confidence \<Rightarrow>
     learning_persisted \<Rightarrow> learning_persisted" where
  "soc_set_anchor capacity session_delta remaining segment factor bootstrap_mv provenance confidence r =
     (let maximum = rated_nah capacity;
          remaining1 = (if remaining < 0 then 0 else if maximum < remaining then maximum else remaining)
      in r\<lparr>lr_soc_valid := True, lr_soc_charge_segment := segment, lr_soc_capacity_mah := capacity,
           lr_soc_charge_factor_permille := factor, lr_soc_bootstrap_reference_mv := bootstrap_mv,
           lr_soc_anchor_provenance := provenance, lr_soc_confidence := confidence,
           lr_soc_anchor_session_delta_nah := session_delta,
           lr_soc_anchor_remaining_nah := remaining1\<rparr>)"

definition soc_clear :: "learning_persisted \<Rightarrow> learning_persisted" where
  "soc_clear r =
     r\<lparr>lr_soc_valid := False, lr_soc_charge_segment := False, lr_soc_capacity_mah := 0,
       lr_soc_charge_factor_permille := 0, lr_soc_bootstrap_reference_mv := 0,
       lr_soc_anchor_provenance := BATTERY_SOC_PROVENANCE_UNKNOWN,
       lr_soc_confidence := BATTERY_SOC_CONFIDENCE_NONE,
       lr_soc_anchor_session_delta_nah := 0, lr_soc_anchor_remaining_nah := 0\<rparr>"

definition battery_learning_bootstrap_soc_percent :: "u16 \<Rightarrow> u8" where
  "battery_learning_bootstrap_soc_percent mv =
     (if mv < 1900 then 0 else if mv < 2425 then 25 else if mv < 2530 then 50
      else if mv < 2575 then 75 else 100)"

section \<open>The published snapshot\<close>

text \<open>\<open>refresh_snapshot\<close> in its parts: what is copied, the discharge since the full anchor, and the
  state of charge.\<close>

definition state_of_health :: "u16 \<Rightarrow> u16 \<Rightarrow> u16" where
  "state_of_health learned nominal =
     (let soh = ((ucast learned :: u32) * 100 + ucast (nominal div 2)) div ucast nominal
      in if 0xffff < soh then 0xffff else ucast soh)"

definition snapshot_copied :: "learning_state \<Rightarrow> learning_profile \<Rightarrow> learning_snapshot" where
  "snapshot_copied st p =
     (let r = lt_persisted st; valid = lr_capacity_history_count r \<noteq> 0 in
      learning_snapshot_zero\<lparr>sn_nominal_capacity_mah := lr_nominal_capacity_mah r,
        sn_learned_capacity_mah := learned_capacity_mah r, sn_learned_capacity_valid := valid,
        sn_last_capacity_mah := lr_last_capacity_mah r, sn_capacity_spread_mah := capacity_spread_mah r,
        sn_capacity_history_mah := lr_capacity_history_mah r,
        sn_capacity_history_count := lr_capacity_history_count r,
        sn_capacity_history_next := lr_capacity_history_next r,
        sn_capacity_confidence := capacity_confidence r p,
        sn_full_anchor_valid := lr_full_anchor_valid r,
        sn_capacity_cycle_qualified := lr_capacity_cycle_qualified r,
        sn_natural_empty_valid := lr_natural_empty_valid r, sn_soc_confidence := lr_soc_confidence r,
        sn_soc_charge_segment := lr_soc_charge_segment r, sn_soc_capacity_mah := lr_soc_capacity_mah r,
        sn_soc_bootstrap_reference_mv := lr_soc_bootstrap_reference_mv r,
        sn_accepted_capacity_cycles := lr_accepted_capacity_cycles r,
        sn_rejected_capacity_cycles := lr_rejected_capacity_cycles r,
        sn_pack_generation := lr_pack_generation r, sn_gauge_session_bound := lt_session_seen st,
        sn_gauge_session := lt_last_gauge_session st, sn_resistance_mohm := lr_resistance_mohm r,
        sn_resistance_sample_count := lr_resistance_sample_count r,
        sn_current_resistance_bin := resistance_bin_for_mv (lt_latest_terminal_mv st),
        sn_current_resistance_bin_valid := lt_latest_observation_valid st,
        sn_state_of_health_percent :=
          (if valid \<and> lr_nominal_capacity_mah r \<noteq> 0
           then state_of_health (learned_capacity_mah r) (lr_nominal_capacity_mah r) else 0)\<rparr>)"

definition snapshot_discharge :: "learning_state \<Rightarrow> learning_profile \<Rightarrow> learning_snapshot \<Rightarrow> learning_snapshot" where
  "snapshot_discharge st p sn =
     (let r = lt_persisted st in
      if \<not> (lr_full_anchor_valid r \<and> lt_latest_observation_valid st) then sn
      else
        (let discharged = positive_difference_i64 (lr_full_anchor_nah r) (lt_latest_session_delta_nah st);
             mah = discharged div 1000000;
             expected = (ucast (capacity_estimate_mah r p) :: u64) * 1000000
         in sn\<lparr>sn_cycle_discharged_nah := discharged,
               sn_cycle_discharged_mah := (if 0xffff < mah then 0xffff else ucast mah),
               sn_capacity_overrun_nah := (if expected < discharged then discharged - expected else 0)\<rparr>))"

definition soc_bars :: "int \<Rightarrow> int \<Rightarrow> u8" where
  "soc_bars remaining maximum =
     (if remaining = 0 then 0
      else
        (let bars = ((of_int remaining :: u64) * 4 + of_int maximum - 1) div of_int maximum
         in if 4 < bars then 4 else ucast bars))"

definition snapshot_soc :: "learning_state \<Rightarrow> learning_snapshot \<Rightarrow> learning_snapshot" where
  "snapshot_soc st sn =
     (let r = lt_persisted st in
      if \<not> lr_soc_valid r \<or> \<not> lt_latest_observation_valid st then sn
      else
        (let remaining = soc_project_remaining_nah r (lt_latest_session_delta_nah st);
             maximum = rated_nah (lr_soc_capacity_mah r);
             sn1 = sn\<lparr>sn_remaining_capacity_nah := of_int remaining,
               sn_remaining_capacity_mah := ucast (((of_int remaining :: u64) + 1000000 div 2) div 1000000),
               sn_remaining_capacity_valid := True,
               sn_soc_provenance :=
                 (if lt_latest_session_delta_nah st = lr_soc_anchor_session_delta_nah r
                  then lr_soc_anchor_provenance r else BATTERY_SOC_PROVENANCE_TRACKED),
               sn_state_of_charge_percent :=
                 (if maximum = 0 then 0
                  else ucast (((of_int remaining :: u64) * 100 + of_int maximum div 2) div of_int maximum))\<rparr>
         in if sn_learned_capacity_valid sn1 \<and> 0 < maximum \<and>
               sn_capacity_confidence sn1 \<noteq> BATTERY_CAPACITY_CONFIDENCE_CONFLICTED
            then sn1\<lparr>sn_soc_bars_valid := True, sn_soc_bars := soc_bars remaining maximum,
              sn_capacity_prediction_exhausted :=
                (\<not> lr_soc_charge_segment r \<and> lr_soc_confidence r = BATTERY_SOC_CONFIDENCE_ANCHORED \<and>
                 remaining = 0 \<and> lr_full_anchor_valid r \<and> lr_capacity_cycle_qualified r)\<rparr>
            else sn1))"

definition refresh_snapshot :: "learning_profile \<Rightarrow> learning_state \<Rightarrow> learning_state" where
  "refresh_snapshot p st =
     st\<lparr>lt_snapshot := snapshot_soc st (snapshot_discharge st p (snapshot_copied st p))\<rparr>"

section \<open>Pack changes and resistance\<close>

definition clear_pack_learning :: "learning_state \<Rightarrow> learning_state" where
  "clear_pack_learning st =
     (let r = lt_persisted st in
      st\<lparr>lt_persisted := learning_persisted_zero\<lparr>lr_profile_id := lr_profile_id r,
           lr_nominal_capacity_mah := lr_nominal_capacity_mah r,
           lr_pack_generation := lr_pack_generation r + 1\<rparr>,
         lt_resistance_window := replicate 3 (replicate 9 0), lt_resistance_window_count := [0, 0, 0],
         lt_resistance_persisted_mohm := [0, 0, 0], lt_resistance_persisted_count := [0, 0, 0],
         lt_previous_resistance_sample_valid := False, lt_latest_observation_valid := False,
         lt_soc_bootstrap_reference_sum_mv := 0, lt_soc_bootstrap_sample_count := 0\<rparr>)"

definition discharge_load_ma :: "int \<Rightarrow> int" where
  "discharge_load_ma current_ua =
     (if 0 \<le> current_ua then 0
      else
        (let magnitude = (- current_ua + 500) div 1000
         in if INT32_MAX < magnitude then INT32_MAX else magnitude))"

definition resistance_eligible :: "learning_profile \<Rightarrow> learning_observation \<Rightarrow> bool" where
  "resistance_eligible p ob \<longleftrightarrow>
     lo_sample_valid ob \<and> lo_current_valid ob \<and> lo_continuity_valid ob \<and> lo_authoritative ob \<and>
     \<not> lo_charger_connected ob \<and> \<not> lo_charge_active ob \<and>
     temperature_in_range (lo_temperature_mdegc ob)
       (lp_resistance_temperature_min_mdegc p) (lp_resistance_temperature_max_mdegc p)"

text \<open>The resistance a load step shows, when the step qualifies and the value is plausible.\<close>

definition step_resistance :: "learning_state \<Rightarrow> learning_profile \<Rightarrow> learning_observation \<Rightarrow> u16 option" where
  "step_resistance st p ob =
     (let elapsed_ms = lo_now_ms ob - lt_previous_ms st;
          load_step = discharge_load_ma (lo_current_ua ob) - discharge_load_ma (lt_previous_current_ua st);
          voltage_drop = uint (lt_previous_terminal_mv st) - uint (lo_terminal_mv ob)
      in
      if 100 \<le> elapsed_ms \<and> elapsed_ms \<le> 1500 \<and> uint (lp_resistance_step_min_ma p) \<le> load_step \<and>
         5 \<le> voltage_drop \<and> voltage_drop \<le> 300
      then
        (let resistance = (of_int ((voltage_drop * 1000 + load_step div 2) div load_step) :: u32)
         in if ucast (lp_resistance_min_mohm p) \<le> resistance \<and> resistance \<le> ucast (lp_resistance_max_mohm p)
            then Some (ucast resistance) else None)
      else None)"

text \<open>A resistance entering the window of its voltage bin; a full window yields its median.\<close>

definition window_add :: "learning_profile \<Rightarrow> nat \<Rightarrow> u16 \<Rightarrow> learning_state \<Rightarrow> learning_state \<times> u32" where
  "window_add p b mohm st =
     (let r = lt_persisted st;
          count = lt_resistance_window_count st ! b;
          window = (lt_resistance_window st ! b)[unat count := mohm];
          count1 = count + 1;
          samples = saturating_increment_u16 (lr_resistance_sample_count r ! b);
          r1 = r\<lparr>lr_resistance_sample_count := (lr_resistance_sample_count r)[b := samples]\<rparr>;
          st1 = st\<lparr>lt_resistance_window := (lt_resistance_window st)[b := window],
                   lt_resistance_window_count := (lt_resistance_window_count st)[b := count1],
                   lt_persisted := r1\<rparr>
      in
      if count1 = LEARNING_RESISTANCE_WINDOW_COUNT
      then
        (let estimate = learning_median_u16 window count1;
             old = lr_resistance_mohm r ! b;
             since = samples - lt_resistance_persisted_count st ! b
         in (st1\<lparr>lt_persisted := r1\<lparr>lr_resistance_mohm := (lr_resistance_mohm r)[b := estimate]\<rparr>,
                 lt_resistance_window_count := (lt_resistance_window_count st)[b := 0]\<rparr>,
             LEARNING_RESULT_RESISTANCE_UPDATED OR
             when_bit (old = 0 \<or>
               lp_resistance_persist_delta_mohm p
                 \<le> absolute_difference_u16 estimate (lt_resistance_persisted_mohm st ! b) \<or>
               128 \<le> since) LEARNING_RESULT_PERSIST))
      else (st1, 0))"

definition midpoint_mv :: "u16 \<Rightarrow> u16 \<Rightarrow> u16" where
  "midpoint_mv a b = ucast ((ucast a + ucast b :: u32) div 2)"

definition observe_resistance_step ::
    "learning_profile \<Rightarrow> learning_observation \<Rightarrow> learning_state \<Rightarrow> learning_state \<times> u32" where
  "observe_resistance_step p ob st =
     (let eligible = resistance_eligible p ob;
          (st1, result) =
            (if eligible \<and> lt_previous_resistance_sample_valid st
             then (case step_resistance st p ob of
                 None \<Rightarrow> (st, 0)
               | Some mohm \<Rightarrow>
                   window_add p (bin_index (resistance_bin_for_mv
                     (midpoint_mv (lt_previous_terminal_mv st) (lo_terminal_mv ob)))) mohm st)
             else (st, 0));
          st2 = st1\<lparr>lt_previous_resistance_sample_valid := eligible\<rparr>
      in (if eligible
          then st2\<lparr>lt_previous_ms := lo_now_ms ob, lt_previous_terminal_mv := lo_terminal_mv ob,
                   lt_previous_current_ua := lo_current_ua ob\<rparr>
          else st2, result))"

section \<open>Persisted records\<close>

definition battery_learning_persisted_defaults :: "learning_profile option \<Rightarrow> learning_persisted" where
  "battery_learning_persisted_defaults po =
     (let p = learning_profile_or po in
      learning_persisted_zero\<lparr>lr_profile_id := lp_profile_id p,
        lr_nominal_capacity_mah := lp_nominal_capacity_mah p\<rparr>)"

definition history_valid :: "learning_persisted \<Rightarrow> learning_profile \<Rightarrow> bool" where
  "history_valid r p \<longleftrightarrow>
     lr_profile_id r = lp_profile_id p \<and> lr_nominal_capacity_mah r = lp_nominal_capacity_mah p \<and>
     lr_capacity_history_count r \<le> LEARNING_CAPACITY_HISTORY_COUNT \<and>
     lr_capacity_history_next r < LEARNING_CAPACITY_HISTORY_COUNT \<and>
     (lr_capacity_history_count r < LEARNING_CAPACITY_HISTORY_COUNT \<longrightarrow>
        lr_capacity_history_next r = lr_capacity_history_count r) \<and>
     ucast (lr_capacity_history_count r) \<le> lr_accepted_capacity_cycles r \<and>
     (lr_capacity_cycle_qualified r \<longrightarrow> lr_full_anchor_valid r) \<and>
     \<not> (lr_natural_empty_valid r \<and> lr_full_anchor_valid r) \<and>
     (lr_capacity_history_count r = 0) = (lr_last_capacity_mah r = 0) \<and>
     list_all (\<lambda>c. lp_capacity_min_mah p \<le> c \<and> c \<le> lp_capacity_max_mah p)
       (take (unat (lr_capacity_history_count r)) (lr_capacity_history_mah r)) \<and>
     (lr_last_capacity_mah r \<noteq> 0 \<longrightarrow>
        lp_capacity_min_mah p \<le> lr_last_capacity_mah r \<and> lr_last_capacity_mah r \<le> lp_capacity_max_mah p)"

definition resistance_ok :: "learning_profile \<Rightarrow> u16 \<Rightarrow> bool" where
  "resistance_ok p mohm \<longleftrightarrow>
     mohm = 0 \<or> lp_resistance_min_mohm p \<le> mohm \<and> mohm \<le> lp_resistance_max_mohm p"

definition ledger_valid :: "learning_persisted \<Rightarrow> learning_profile \<Rightarrow> bool" where
  "ledger_valid r p \<longleftrightarrow>
     (if \<not> lr_soc_valid r
      then \<not> lr_soc_charge_segment r \<and> lr_soc_capacity_mah r = 0 \<and> lr_soc_charge_factor_permille r = 0 \<and>
        lr_soc_bootstrap_reference_mv r = 0 \<and>
        lr_soc_anchor_provenance r = BATTERY_SOC_PROVENANCE_UNKNOWN \<and>
        lr_soc_confidence r = BATTERY_SOC_CONFIDENCE_NONE \<and>
        lr_soc_anchor_session_delta_nah r = 0 \<and> lr_soc_anchor_remaining_nah r = 0
      else
        lp_capacity_min_mah p \<le> lr_soc_capacity_mah r \<and> lr_soc_capacity_mah r \<le> lp_capacity_max_mah p \<and>
        1000 \<le> lr_soc_charge_factor_permille r \<and> lr_soc_charge_factor_permille r \<le> 2000 \<and>
        lr_soc_anchor_provenance r \<noteq> BATTERY_SOC_PROVENANCE_UNKNOWN \<and>
        lr_soc_confidence r \<noteq> BATTERY_SOC_CONFIDENCE_NONE \<and>
        0 \<le> lr_soc_anchor_remaining_nah r \<and>
        lr_soc_anchor_remaining_nah r \<le> rated_nah (lr_soc_capacity_mah r) \<and>
        (if lr_soc_confidence r = BATTERY_SOC_CONFIDENCE_PROVISIONAL
         then lr_soc_bootstrap_reference_mv r \<noteq> 0 \<and>
           (lr_soc_anchor_provenance r = BATTERY_SOC_PROVENANCE_BOOTSTRAP_VOLTAGE \<or>
            lr_soc_anchor_provenance r = BATTERY_SOC_PROVENANCE_TRACKED)
         else lr_soc_bootstrap_reference_mv r = 0 \<and>
           (lr_soc_anchor_provenance r = BATTERY_SOC_PROVENANCE_ANCHORED_FULL \<or>
            lr_soc_anchor_provenance r = BATTERY_SOC_PROVENANCE_ANCHORED_EMPTY \<or>
            lr_soc_anchor_provenance r = BATTERY_SOC_PROVENANCE_TRACKED)) \<and>
        (lr_soc_anchor_provenance r = BATTERY_SOC_PROVENANCE_ANCHORED_FULL \<longrightarrow>
           lr_soc_anchor_remaining_nah r = rated_nah (lr_soc_capacity_mah r)) \<and>
        (lr_soc_anchor_provenance r = BATTERY_SOC_PROVENANCE_ANCHORED_EMPTY \<longrightarrow>
           lr_soc_anchor_remaining_nah r = 0))"

definition battery_learning_persisted_valid :: "learning_persisted \<Rightarrow> learning_profile option \<Rightarrow> bool" where
  "battery_learning_persisted_valid r po \<longleftrightarrow>
     (let p = learning_profile_or po in
      history_valid r p \<and> list_all (resistance_ok p) (lr_resistance_mohm r) \<and>
      (lr_full_anchor_valid r \<longrightarrow> lr_cycle_min_temperature_mdegc r \<le> lr_cycle_max_temperature_mdegc r) \<and>
      ledger_valid r p)"

text \<open>The FULL and EMPTY anchors that several operations set.\<close>

definition anchor_full :: "u16 \<Rightarrow> int \<Rightarrow> u16 \<Rightarrow> learning_persisted \<Rightarrow> learning_persisted" where
  "anchor_full capacity session_delta factor =
     soc_set_anchor capacity session_delta (rated_nah capacity) False factor 0
       BATTERY_SOC_PROVENANCE_ANCHORED_FULL BATTERY_SOC_CONFIDENCE_ANCHORED"

definition anchor_empty :: "u16 \<Rightarrow> int \<Rightarrow> bool \<Rightarrow> u16 \<Rightarrow> learning_persisted \<Rightarrow> learning_persisted" where
  "anchor_empty capacity session_delta segment factor =
     soc_set_anchor capacity session_delta 0 segment factor 0
       BATTERY_SOC_PROVENANCE_ANCHORED_EMPTY BATTERY_SOC_CONFIDENCE_ANCHORED"

definition remember_persisted :: "learning_state \<Rightarrow> learning_state" where
  "remember_persisted st =
     st\<lparr>lt_resistance_persisted_mohm := lr_resistance_mohm (lt_persisted st),
       lt_resistance_persisted_count := lr_resistance_sample_count (lt_persisted st)\<rparr>"

definition migrate_full_anchor :: "learning_profile \<Rightarrow> learning_persisted \<Rightarrow> learning_persisted" where
  "migrate_full_anchor p r =
     (if \<not> lr_soc_valid r \<and> lr_full_anchor_valid r
      then anchor_full (capacity_estimate_mah r p) (lr_full_anchor_nah r) (lp_charge_factor_permille p) r
      else r)"

definition battery_learning_init ::
    "learning_profile option \<Rightarrow> learning_persisted option \<Rightarrow> learning_state" where
  "battery_learning_init po ro =
     (let p = learning_profile_or po;
          r = (case ro of None \<Rightarrow> battery_learning_persisted_defaults (Some p) | Some r \<Rightarrow> r);
          r1 = (if battery_learning_persisted_valid r (Some p) then r
                else battery_learning_persisted_defaults (Some p));
          r2 = migrate_full_anchor p r1
      in refresh_snapshot p (remember_persisted (learning_state_zero\<lparr>lt_persisted := r2\<rparr>)))"

section \<open>Provisioning and recovery\<close>

definition battery_learning_provision ::
    "learning_profile option \<Rightarrow> learning_provision \<Rightarrow> learning_state \<Rightarrow> learning_state \<times> bool" where
  "battery_learning_provision po v st =
     (let p = learning_profile_or po in
      if lv_capacity_mah v < lp_capacity_min_mah p \<or> lp_capacity_max_mah p < lv_capacity_mah v then (st, False)
      else if \<not> list_all (resistance_ok p) (lv_resistance_mohm v) then (st, False)
      else
        (let st1 = clear_pack_learning st;
             r = (add_capacity_sample (lv_capacity_mah v) (lt_persisted st1))
               \<lparr>lr_resistance_mohm := lv_resistance_mohm v,
                lr_natural_empty_valid := lv_natural_empty_valid v\<rparr>
         in (refresh_snapshot p (st1\<lparr>lt_persisted := r,
               lt_resistance_persisted_mohm := lv_resistance_mohm v\<rparr>), True)))"

text \<open>The ledger after one more capacity measurement: rebased to the new estimate.\<close>

definition rebase_ledger ::
    "learning_profile \<Rightarrow> learning_persisted \<Rightarrow> int \<Rightarrow> int \<Rightarrow> learning_persisted \<Rightarrow> learning_persisted" where
  "rebase_ledger p before old_remaining reanchor_delta r =
     (let updated = capacity_estimate_mah r p; factor = lr_soc_charge_factor_permille before in
      if \<not> lr_soc_valid before then r
      else if lr_full_anchor_valid r then anchor_full updated (lr_full_anchor_nah r) factor r
      else if lr_soc_anchor_provenance before = BATTERY_SOC_PROVENANCE_ANCHORED_EMPTY \<and> old_remaining = 0
      then anchor_empty updated reanchor_delta (lr_soc_charge_segment before) factor r
      else
        (let cap = (ucast (lr_soc_capacity_mah before) :: u64);
             scaled = (if cap = 0 then 0 else (of_int old_remaining * ucast updated + cap div 2) div cap)
         in soc_set_anchor updated reanchor_delta (sint scaled) (lr_soc_charge_segment before) factor
              (lr_soc_bootstrap_reference_mv before) BATTERY_SOC_PROVENANCE_TRACKED
              (lr_soc_confidence before) r))"

definition battery_learning_recover_capacity_cycle ::
    "learning_profile option \<Rightarrow> u16 \<Rightarrow> u16 \<Rightarrow> learning_state \<Rightarrow> learning_state \<times> bool" where
  "battery_learning_recover_capacity_cycle po capacity_mah expected st =
     (let p = learning_profile_or po; before = lt_persisted st in
      if capacity_mah < lp_capacity_min_mah p \<or> lp_capacity_max_mah p < capacity_mah \<or>
         lr_accepted_capacity_cycles before \<noteq> expected \<or> expected = 0xffff \<or>
         \<not> battery_learning_persisted_valid before (Some p)
      then (st, False)
      else
        (let live = lr_soc_valid before \<and> lt_latest_observation_valid st;
             old_remaining = (if live then soc_project_remaining_nah before (lt_latest_session_delta_nah st)
               else lr_soc_anchor_remaining_nah before);
             reanchor_delta = (if live then lt_latest_session_delta_nah st
               else lr_soc_anchor_session_delta_nah before);
             r = rebase_ledger p before old_remaining reanchor_delta (add_capacity_sample capacity_mah before)
         in if battery_learning_persisted_valid r (Some p)
            then (refresh_snapshot p (st\<lparr>lt_persisted := r\<rparr>), True) else (st, False)))"

definition full_endpoint_evidence ::
    "learning_profile \<Rightarrow> learning_observation \<Rightarrow> u32 \<Rightarrow> int \<Rightarrow> u16 \<Rightarrow> learning_state \<Rightarrow> bool" where
  "full_endpoint_evidence p ob full_acr_raw full_delta expected st \<longleftrightarrow>
     (let r = lt_persisted st;
          raw_delta = modular_u32_delta full_acr_raw (lo_acr_raw ob) * uint (lp_acr_lsb_nah p);
          reported = saturating_sub_i64 full_delta (lo_session_delta_nah ob)
      in
      lo_authoritative ob \<and> lo_sample_valid ob \<and> lo_current_valid ob \<and> lo_continuity_valid ob \<and>
      \<not> lo_charger_connected ob \<and> \<not> lo_charge_active ob \<and> lo_current_ua ob \<le> 0 \<and>
      lt_session_seen st \<and> lt_last_gauge_session st = lo_gauge_session ob \<and>
      lr_accepted_capacity_cycles r = expected \<and> lr_capacity_history_count r \<noteq> 0 \<and>
      capacity_confidence r p \<noteq> BATTERY_CAPACITY_CONFIDENCE_CONFLICTED \<and> lp_acr_lsb_nah p \<noteq> 0 \<and>
      0 \<le> raw_delta \<and> raw_delta = reported \<and> lo_session_delta_nah ob \<le> full_delta \<and>
      positive_difference_i64 full_delta (lo_session_delta_nah ob)
        \<le> (ucast (lp_capacity_max_mah p) :: u64) * 1000000 \<and>
      temperature_in_range (lo_temperature_mdegc ob)
        (lp_learning_temperature_min_mdegc p) (lp_learning_temperature_max_mdegc p))"

text \<open>The full anchor of an observation, as the recovery and the FULL event set it.\<close>

definition set_full_anchor ::
    "bool \<Rightarrow> u32 \<Rightarrow> int \<Rightarrow> learning_observation \<Rightarrow> learning_persisted \<Rightarrow> learning_persisted" where
  "set_full_anchor qualified acr_raw session_delta ob r =
     r\<lparr>lr_natural_empty_valid := False, lr_full_anchor_valid := True,
       lr_capacity_cycle_qualified := qualified, lr_full_anchor_acr_raw := acr_raw,
       lr_full_anchor_nah := session_delta, lr_cycle_min_temperature_mdegc := lo_temperature_mdegc ob,
       lr_cycle_max_temperature_mdegc := lo_temperature_mdegc ob\<rparr>"

definition latest_observation :: "learning_observation \<Rightarrow> learning_state \<Rightarrow> learning_state" where
  "latest_observation ob st =
     st\<lparr>lt_latest_session_delta_nah := lo_session_delta_nah ob,
       lt_latest_terminal_mv := lo_terminal_mv ob, lt_latest_observation_valid := True\<rparr>"

definition battery_learning_recover_full_endpoint ::
    "learning_profile option \<Rightarrow> learning_observation \<Rightarrow> u32 \<Rightarrow> int \<Rightarrow> u16 \<Rightarrow> learning_state \<Rightarrow>
     learning_state \<times> bool" where
  "battery_learning_recover_full_endpoint po ob full_acr_raw full_delta expected st =
     (let p = learning_profile_or po; r = lt_persisted st in
      if \<not> full_endpoint_evidence p ob full_acr_raw full_delta expected st then (st, False)
      else if lr_full_anchor_valid r
      then (st, lr_full_anchor_acr_raw r = full_acr_raw \<and> lr_full_anchor_nah r = full_delta \<and>
              lr_capacity_cycle_qualified r)
      else
        (let r1 = set_full_anchor True full_acr_raw full_delta ob r;
             r2 = anchor_full (capacity_estimate_mah r1 p) full_delta (lp_charge_factor_permille p) r1;
             st1 = (latest_observation ob st)
               \<lparr>lt_persisted := r2, lt_previous_resistance_sample_valid := False\<rparr>
         in if battery_learning_persisted_valid r2 (Some p) then (refresh_snapshot p st1, True)
            else (st, False)))"

section \<open>One update\<close>

definition coulomb_evidence :: "learning_observation \<Rightarrow> bool" where
  "coulomb_evidence ob \<longleftrightarrow> lo_sample_valid ob \<and> lo_current_valid ob \<and> lo_continuity_valid ob"

definition clear_bootstrap :: "learning_state \<Rightarrow> learning_state" where
  "clear_bootstrap st = st\<lparr>lt_soc_bootstrap_reference_sum_mv := 0, lt_soc_bootstrap_sample_count := 0\<rparr>"

text \<open>A ledger that is not valid takes over a full anchor, or the natural empty the update found.\<close>

definition ledger_adopt ::
    "learning_profile \<Rightarrow> learning_observation \<Rightarrow> bool \<Rightarrow> learning_persisted \<Rightarrow> learning_persisted \<times> u32" where
  "ledger_adopt p ob natural_empty_at_entry r =
     (let capacity = capacity_estimate_mah r p in
      if \<not> lr_soc_valid r \<and> lr_full_anchor_valid r
      then (anchor_full capacity (lr_full_anchor_nah r) (lp_charge_factor_permille p) r,
            LEARNING_RESULT_SOC_REANCHORED OR LEARNING_RESULT_PERSIST)
      else if \<not> lr_soc_valid r \<and> natural_empty_at_entry
      then (anchor_empty capacity (lo_session_delta_nah ob) False (lp_charge_factor_permille p) r,
            LEARNING_RESULT_SOC_REANCHORED OR LEARNING_RESULT_PERSIST)
      else (r, 0))"

text \<open>Charging and discharging project with different factors, so a change between them re-anchors.\<close>

definition ledger_segment ::
    "learning_profile \<Rightarrow> learning_observation \<Rightarrow> learning_persisted \<Rightarrow> learning_persisted \<times> u32" where
  "ledger_segment p ob r =
     (let segment = (lo_charger_connected ob \<and> lo_charge_active ob) in
      if lr_soc_valid r \<and> lr_soc_charge_segment r \<noteq> segment
      then (soc_set_anchor (lr_soc_capacity_mah r) (lo_session_delta_nah ob)
              (soc_project_remaining_nah r (lo_session_delta_nah ob)) segment
              (lp_charge_factor_permille p) (lr_soc_bootstrap_reference_mv r)
              BATTERY_SOC_PROVENANCE_TRACKED (lr_soc_confidence r) r,
            LEARNING_RESULT_SOC_REANCHORED OR LEARNING_RESULT_PERSIST)
      else (r, 0))"

text \<open>Five reference voltages in a row start a ledger where there is none.\<close>

definition ledger_bootstrap ::
    "learning_profile \<Rightarrow> learning_observation \<Rightarrow> bool \<Rightarrow> u16 \<Rightarrow> learning_state \<Rightarrow> learning_state \<times> u32" where
  "ledger_bootstrap p ob is_distinct capacity st =
     (if \<not> (is_distinct \<and> lo_reference_valid ob \<and> \<not> lo_charger_connected ob \<and> \<not> lo_charge_active ob)
      then (if is_distinct then clear_bootstrap st else st, 0)
      else
        (let sum = lt_soc_bootstrap_reference_sum_mv st + ucast (lo_reference_mv ob);
             count = lt_soc_bootstrap_sample_count st + 1
         in
         if count < LEARNING_SOC_BOOTSTRAP_SAMPLE_COUNT
         then (st\<lparr>lt_soc_bootstrap_reference_sum_mv := sum, lt_soc_bootstrap_sample_count := count\<rparr>, 0)
         else
           (let reference_mv = (ucast (sum div 5) :: u16);
                percent = battery_learning_bootstrap_soc_percent reference_mv;
                remaining = (rated_nah capacity * uint percent + 50) div 100;
                r = soc_set_anchor capacity (lo_session_delta_nah ob) remaining False
                  (lp_charge_factor_permille p) reference_mv BATTERY_SOC_PROVENANCE_BOOTSTRAP_VOLTAGE
                  BATTERY_SOC_CONFIDENCE_PROVISIONAL (lt_persisted st)
            in ((clear_bootstrap st)\<lparr>lt_persisted := r\<rparr>,
                LEARNING_RESULT_SOC_BOOTSTRAPPED OR LEARNING_RESULT_PERSIST))))"

definition update_soc_ledger ::
    "learning_profile \<Rightarrow> learning_observation \<Rightarrow> bool \<Rightarrow> bool \<Rightarrow> bool \<Rightarrow> bool \<Rightarrow> learning_state \<Rightarrow>
     learning_state \<times> u32" where
  "update_soc_ledger p ob is_distinct natural_empty_at_entry full_endpoint empty_endpoint st =
     (let r = lt_persisted st; capacity = capacity_estimate_mah r p in
      if is_distinct \<and> lo_sample_valid ob \<and> (\<not> lo_current_valid ob \<or> \<not> lo_continuity_valid ob)
      then if lr_soc_valid r
           then (clear_bootstrap (st\<lparr>lt_persisted := soc_clear r\<rparr>),
                 LEARNING_RESULT_SOC_INVALIDATED OR LEARNING_RESULT_PERSIST)
           else (st, 0)
      else if \<not> coulomb_evidence ob then (st, 0)
      else if full_endpoint
      then (clear_bootstrap (st\<lparr>lt_persisted :=
              anchor_full capacity (lo_session_delta_nah ob) (lp_charge_factor_permille p) r\<rparr>),
            LEARNING_RESULT_SOC_REANCHORED OR LEARNING_RESULT_PERSIST)
      else if empty_endpoint
      then (clear_bootstrap (st\<lparr>lt_persisted :=
              anchor_empty capacity (lo_session_delta_nah ob) False (lp_charge_factor_permille p) r\<rparr>),
            LEARNING_RESULT_SOC_REANCHORED OR LEARNING_RESULT_PERSIST)
      else
        (let (r1, res1) = ledger_adopt p ob natural_empty_at_entry r;
             (r2, res2) = ledger_segment p ob r1;
             st2 = st\<lparr>lt_persisted := r2\<rparr>
         in if lr_soc_valid r2 then (clear_bootstrap st2, res1 OR res2)
            else
              (let (st3, res3) = ledger_bootstrap p ob is_distinct capacity st2
               in (st3, res1 OR res2 OR res3))))"

definition update_session :: "learning_observation \<Rightarrow> learning_state \<Rightarrow> learning_state \<times> u32" where
  "update_session ob st =
     (let st1 = st\<lparr>lt_session_seen := True, lt_last_gauge_session := lo_gauge_session ob\<rparr>;
          reset = (clear_pack_learning st1, LEARNING_RESULT_PACK_RESET OR LEARNING_RESULT_PERSIST)
      in
      if \<not> lt_session_seen st then if lo_gauge_session ob \<noteq> 0 then reset else (st1, 0)
      else if lt_last_gauge_session st \<noteq> lo_gauge_session ob then reset else (st, 0))"

definition update_evidence_gap :: "learning_observation \<Rightarrow> learning_state \<Rightarrow> learning_state \<times> u32" where
  "update_evidence_gap ob st =
     (if coulomb_evidence ob then (st, 0)
      else
        (let r = lt_persisted st;
             st1 = st\<lparr>lt_latest_observation_valid := False, lt_previous_resistance_sample_valid := False\<rparr>
         in if lo_sample_valid ob \<and> lo_continuity_valid ob \<and> \<not> lo_current_valid ob \<and>
               lr_full_anchor_valid r \<and> lr_capacity_cycle_qualified r
            then (st1\<lparr>lt_persisted := r\<lparr>lr_capacity_cycle_qualified := False\<rparr>\<rparr>, LEARNING_RESULT_PERSIST)
            else (st1, 0)))"

definition drop_natural_empty :: "learning_observation \<Rightarrow> learning_persisted \<Rightarrow> learning_persisted \<times> u32" where
  "drop_natural_empty ob r =
     (if lr_natural_empty_valid r \<and> 0 < lo_current_ua ob
      then (r\<lparr>lr_natural_empty_valid := False\<rparr>, LEARNING_RESULT_PERSIST) else (r, 0))"

definition track_full_anchor ::
    "learning_profile \<Rightarrow> learning_observation \<Rightarrow> learning_persisted \<Rightarrow> learning_persisted \<times> u32" where
  "track_full_anchor p ob r =
     (if \<not> lr_full_anchor_valid r then (r, 0)
      else
        (let t = lo_temperature_mdegc ob;
             outside = (\<not> temperature_in_range t (lp_learning_temperature_min_mdegc p)
               (lp_learning_temperature_max_mdegc p) \<and> lr_capacity_cycle_qualified r);
             r1 = r\<lparr>lr_capacity_cycle_qualified := (lr_capacity_cycle_qualified r \<and> \<not> outside),
               lr_cycle_min_temperature_mdegc :=
                 (if t < lr_cycle_min_temperature_mdegc r then t else lr_cycle_min_temperature_mdegc r),
               lr_cycle_max_temperature_mdegc :=
                 (if lr_cycle_max_temperature_mdegc r < t then t else lr_cycle_max_temperature_mdegc r)\<rparr>;
             recharged = (lo_charge_active ob \<and> 0 < lo_current_ua ob \<or>
               increase_exceeds_i64 (lo_session_delta_nah ob) (lr_full_anchor_nah r)
                 (lp_recharge_invalidate_nah p))
         in (if recharged then r1\<lparr>lr_full_anchor_valid := False, lr_capacity_cycle_qualified := False\<rparr>
             else r1, when_bit (outside \<or> recharged) LEARNING_RESULT_PERSIST)))"

definition update_sample ::
    "learning_profile \<Rightarrow> learning_observation \<Rightarrow> learning_state \<Rightarrow> learning_state \<times> u32" where
  "update_sample p ob st =
     (let st1 = st\<lparr>lt_sample_seen := True, lt_last_sample_sequence := lo_sample_sequence ob\<rparr>;
          (st2, res) =
            (if coulomb_evidence ob
             then (let (r1, res1) = drop_natural_empty ob (lt_persisted st);
                       (r2, res2) = track_full_anchor p ob r1
                   in ((latest_observation ob st1)\<lparr>lt_persisted := r2\<rparr>, res1 OR res2))
             else (st1, 0));
          (st3, res3) = observe_resistance_step p ob st2
      in (st3, res OR res3))"

definition update_full_event ::
    "learning_profile \<Rightarrow> learning_observation \<Rightarrow> learning_state \<Rightarrow> learning_state \<times> u32" where
  "update_full_event p ob st =
     ((latest_observation ob st)\<lparr>lt_persisted :=
         set_full_anchor (temperature_in_range (lo_temperature_mdegc ob)
           (lp_learning_temperature_min_mdegc p) (lp_learning_temperature_max_mdegc p))
           (lo_acr_raw ob) (lo_session_delta_nah ob) ob (lt_persisted st)\<rparr>,
      LEARNING_RESULT_FULL_ANCHORED OR LEARNING_RESULT_PERSIST)"

definition measured_cycle_mah ::
    "learning_profile \<Rightarrow> learning_observation \<Rightarrow> learning_persisted \<Rightarrow> u16 option" where
  "measured_cycle_mah p ob r =
     (let discharged = positive_difference_i64 (lr_full_anchor_nah r) (lo_session_delta_nah ob);
          mah = learning_rounded_mah discharged
      in if lr_full_anchor_valid r \<and> lr_capacity_cycle_qualified r \<and> 0 < discharged \<and>
            ucast (lp_capacity_min_mah p) \<le> mah \<and> mah \<le> ucast (lp_capacity_max_mah p)
         then Some (ucast mah) else None)"

definition update_empty_event ::
    "learning_profile \<Rightarrow> learning_observation \<Rightarrow> learning_state \<Rightarrow> learning_state \<times> u32" where
  "update_empty_event p ob st =
     (let r = lt_persisted st;
          (r1, res) =
            (case measured_cycle_mah p ob r of
               Some mah \<Rightarrow> (add_capacity_sample mah r, LEARNING_RESULT_CAPACITY_ACCEPTED)
             | None \<Rightarrow>
                 (r\<lparr>lr_rejected_capacity_cycles := saturating_increment_u16 (lr_rejected_capacity_cycles r)\<rparr>,
                  LEARNING_RESULT_CAPACITY_REJECTED));
          r2 = r1\<lparr>lr_full_anchor_valid := False, lr_capacity_cycle_qualified := False,
                 lr_natural_empty_valid := (lo_current_ua ob \<le> 0)\<rparr>
      in (st\<lparr>lt_persisted := r2\<rparr>, res OR LEARNING_RESULT_PERSIST))"

definition battery_learning_update ::
    "learning_profile option \<Rightarrow> learning_observation \<Rightarrow> u32 \<Rightarrow> learning_state \<Rightarrow> learning_state \<times> u32" where
  "battery_learning_update po ob events st =
     (let p = learning_profile_or po in
      if \<not> lo_authoritative ob then (st, 0)
      else
        (let (st1, res1) = update_session ob st;
             natural_empty_at_entry = lr_natural_empty_valid (lt_persisted st1);
             is_distinct = (\<not> lt_sample_seen st1 \<or> lt_last_sample_sequence st1 \<noteq> lo_sample_sequence ob);
             (st2, res2) = update_evidence_gap ob st1;
             (st3, res3) = (if is_distinct then update_sample p ob st2 else (st2, 0));
             both = LEARNING_EVENT_FULL OR LEARNING_EVENT_EMPTY;
             event_conflict = (events AND both = both);
             full_endpoint = (\<not> event_conflict \<and> events AND LEARNING_EVENT_FULL \<noteq> 0 \<and>
               coulomb_evidence ob \<and> lo_charger_connected ob);
             (st4, res4) = (if full_endpoint then update_full_event p ob st3 else (st3, 0));
             empty_endpoint = (\<not> event_conflict \<and> events AND LEARNING_EVENT_EMPTY \<noteq> 0 \<and>
               coulomb_evidence ob);
             (st5, res5) = (if empty_endpoint then update_empty_event p ob st4 else (st4, 0));
             (st6, res6) = update_soc_ledger p ob is_distinct natural_empty_at_entry
               full_endpoint empty_endpoint st5;
             result = res1 OR res2 OR res3 OR res4 OR res5 OR res6;
             st7 = (if result AND LEARNING_RESULT_PERSIST \<noteq> 0 then remember_persisted st6 else st6)
         in (refresh_snapshot p st7, result)))"

definition battery_learning_get_snapshot :: "learning_state option \<Rightarrow> learning_snapshot" where
  "battery_learning_get_snapshot so = (case so of None \<Rightarrow> learning_snapshot_zero | Some st \<Rightarrow> lt_snapshot st)"

definition battery_learning_export_persisted :: "learning_state option \<Rightarrow> learning_persisted" where
  "battery_learning_export_persisted so = (case so of None \<Rightarrow> learning_persisted_zero | Some st \<Rightarrow> lt_persisted st)"

end
