(* ===== verification/Store_Learning.thy ===== *)
theory Store_Learning
  imports Store_Charge Store_Service Battery_Learning
begin

text \<open>
  The journal codec of the battery learner, \<open>storage/store_battery_learning.c\<close>: the serializer of
  version 2, its strict decoder, the accessors and the unit operations.  The static record of the
  file is the argument of the definitions; as in the charge store, a byte outside an enum, which the
  validity test refuses, is refused by the decoder.
\<close>

abbreviation "BATTERY_LEARNING_MAGIC_V2 \<equiv> 0x324c5442 :: u32"
abbreviation "BATTERY_LEARNING_PAYLOAD_VERSION_V2 \<equiv> 2 :: u16"
abbreviation "BATTERY_LEARNING_PAYLOAD_LEN_V2 \<equiv> 96 :: nat"
abbreviation "BATTERY_LEARNING_FLAGS_VALID \<equiv> 0x1f :: u16"

section \<open>Accessors\<close>

definition battery_learning_equal :: "learning_persisted \<Rightarrow> learning_persisted \<Rightarrow> bool" where
  "battery_learning_equal a b \<longleftrightarrow>
     lr_profile_id a = lr_profile_id b \<and> lr_nominal_capacity_mah a = lr_nominal_capacity_mah b \<and>
     lr_capacity_history_mah a = lr_capacity_history_mah b \<and>
     lr_capacity_history_count a = lr_capacity_history_count b \<and>
     lr_capacity_history_next a = lr_capacity_history_next b \<and>
     lr_accepted_capacity_cycles a = lr_accepted_capacity_cycles b \<and>
     lr_rejected_capacity_cycles a = lr_rejected_capacity_cycles b \<and>
     lr_last_capacity_mah a = lr_last_capacity_mah b \<and> lr_resistance_mohm a = lr_resistance_mohm b \<and>
     lr_resistance_sample_count a = lr_resistance_sample_count b \<and>
     lr_pack_generation a = lr_pack_generation b \<and> lr_full_anchor_acr_raw a = lr_full_anchor_acr_raw b \<and>
     lr_full_anchor_nah a = lr_full_anchor_nah b \<and>
     lr_cycle_min_temperature_mdegc a = lr_cycle_min_temperature_mdegc b \<and>
     lr_cycle_max_temperature_mdegc a = lr_cycle_max_temperature_mdegc b \<and>
     lr_full_anchor_valid a = lr_full_anchor_valid b \<and>
     lr_capacity_cycle_qualified a = lr_capacity_cycle_qualified b \<and>
     lr_natural_empty_valid a = lr_natural_empty_valid b \<and> lr_soc_valid a = lr_soc_valid b \<and>
     lr_soc_charge_segment a = lr_soc_charge_segment b \<and> lr_soc_capacity_mah a = lr_soc_capacity_mah b \<and>
     lr_soc_charge_factor_permille a = lr_soc_charge_factor_permille b \<and>
     lr_soc_bootstrap_reference_mv a = lr_soc_bootstrap_reference_mv b \<and>
     lr_soc_anchor_provenance a = lr_soc_anchor_provenance b \<and> lr_soc_confidence a = lr_soc_confidence b \<and>
     lr_soc_anchor_session_delta_nah a = lr_soc_anchor_session_delta_nah b \<and>
     lr_soc_anchor_remaining_nah a = lr_soc_anchor_remaining_nah b"

text \<open>\<open>get\<close> and \<open>put\<close> select the static record of the file from the RAM of all units; a NULL record is
  \<open>None\<close>, and \<open>out_given\<close> says that the pointer for the answer is not NULL.\<close>

abbreviation "STORE_UNIT_BATTERY_LEARNING \<equiv> 14 :: nat"

definition store_battery_learning_get ::
    "('w \<Rightarrow> learning_persisted) \<Rightarrow> bool \<Rightarrow> ('w, 'b) store_state \<Rightarrow> store_status + learning_persisted" where
  "store_battery_learning_get get out_given st =
     (if \<not> out_given then Inl STORE_STATUS_INVALID_ARGUMENT
      else if \<not> store_service_unit_ready st STORE_UNIT_BATTERY_LEARNING then Inl STORE_STATUS_NOT_READY
      else Inr (get (st_ram st)))"

definition store_battery_learning_set ::
    "('w \<Rightarrow> learning_persisted) \<Rightarrow> (learning_persisted \<Rightarrow> 'w \<Rightarrow> 'w) \<Rightarrow> learning_persisted option \<Rightarrow>
     ('w, 'b) store_state \<Rightarrow> ('w, 'b) store_state \<times> store_status" where
  "store_battery_learning_set get put state st =
     (if \<not> store_service_unit_ready st STORE_UNIT_BATTERY_LEARNING then (st, STORE_STATUS_NOT_READY)
      else
        (case state of
           None \<Rightarrow> (st, STORE_STATUS_INVALID_ARGUMENT)
         | Some r \<Rightarrow>
             if \<not> battery_learning_persisted_valid r None then (st, STORE_STATUS_INVALID_ARGUMENT)
             else if battery_learning_equal (get (st_ram st)) r then (st, STORE_STATUS_OK)
             else store_engine_mark_dirty STORE_UNIT_BATTERY_LEARNING (st\<lparr>st_ram := put r (st_ram st)\<rparr>)))"

section \<open>The serializer\<close>

definition learning_flags :: "learning_persisted \<Rightarrow> u16" where
  "learning_flags r =
     flag_bit (lr_full_anchor_valid r) 1 OR flag_bit (lr_capacity_cycle_qualified r) 2 OR
     flag_bit (lr_natural_empty_valid r) 4 OR flag_bit (lr_soc_valid r) 8 OR
     flag_bit (lr_soc_charge_segment r) 0x10"

definition learning_fields_head :: "learning_persisted \<Rightarrow> u8 list list" where
  "learning_fields_head r =
     [write_u32 BATTERY_LEARNING_MAGIC_V2, write_u16 BATTERY_LEARNING_PAYLOAD_VERSION_V2,
      write_u16 (learning_flags r), [lr_profile_id r],
      [byte_of_enum soc_provenances (lr_soc_anchor_provenance r)],
      [byte_of_enum soc_confidences (lr_soc_confidence r)], [0], write_u16 (lr_nominal_capacity_mah r)] @
     map write_u16 (take 3 (lr_capacity_history_mah r)) @
     [[lr_capacity_history_count r], [lr_capacity_history_next r],
      write_u16 (lr_accepted_capacity_cycles r), write_u16 (lr_rejected_capacity_cycles r),
      write_u16 (lr_last_capacity_mah r)]"

definition learning_fields_tail :: "learning_persisted \<Rightarrow> u8 list list" where
  "learning_fields_tail r =
     map write_u16 (take 3 (lr_resistance_mohm r)) @ map write_u16 (take 3 (lr_resistance_sample_count r)) @
     [write_u32 (lr_pack_generation r), write_u32 (lr_full_anchor_acr_raw r),
      write_u64 (of_int (lr_full_anchor_nah r)), write_u32 (of_int (lr_cycle_min_temperature_mdegc r)),
      write_u32 (of_int (lr_cycle_max_temperature_mdegc r)), write_u16 (lr_soc_capacity_mah r),
      write_u16 (lr_soc_charge_factor_permille r), write_u16 (lr_soc_bootstrap_reference_mv r), write_u16 0,
      write_u64 (of_int (lr_soc_anchor_session_delta_nah r)),
      write_u64 (of_int (lr_soc_anchor_remaining_nah r)), write_u32 0, write_u32 0]"

definition serialize_battery_learning ::
    "learning_persisted \<Rightarrow> u8 list \<Rightarrow> nat \<Rightarrow> (u8 list \<times> nat) option" where
  "serialize_battery_learning r dst cap =
     (if \<not> battery_learning_persisted_valid r None then None
      else case write_fields dst cap 0 (learning_fields_head r @ learning_fields_tail r) of
          None \<Rightarrow> None
        | Some (dst1, pos) \<Rightarrow>
            if pos \<noteq> BATTERY_LEARNING_PAYLOAD_LEN_V2 then None else Some (dst1, pos))"

section \<open>The decoder\<close>

definition learning_header_ok :: "u8 list \<Rightarrow> bool" where
  "learning_header_ok pl \<longleftrightarrow>
     length pl = BATTERY_LEARNING_PAYLOAD_LEN_V2 \<and>
     read_u32 pl = BATTERY_LEARNING_MAGIC_V2 \<and> read_u16 (drop 4 pl) = BATTERY_LEARNING_PAYLOAD_VERSION_V2 \<and>
     read_u16 (drop 6 pl) AND NOT BATTERY_LEARNING_FLAGS_VALID = 0 \<and>
     pl ! 11 = 0 \<and> read_u16 (drop 70 pl) = 0 \<and> read_u32 (drop 88 pl) = 0 \<and> read_u32 (drop 92 pl) = 0"

definition decode_battery_learning_v2 :: "u8 list \<Rightarrow> learning_persisted option" where
  "decode_battery_learning_v2 pl =
     (if \<not> learning_header_ok pl then None
      else
        (case (enum_of_byte soc_provenances (pl ! 9), enum_of_byte soc_confidences (pl ! 10)) of
           (Some prov, Some conf) \<Rightarrow>
             (let flags = read_u16 (drop 6 pl); r = battery_learning_persisted_defaults None in
              Some (r\<lparr>lr_full_anchor_valid := flags AND 1 \<noteq> 0,
                  lr_capacity_cycle_qualified := flags AND 2 \<noteq> 0, lr_natural_empty_valid := flags AND 4 \<noteq> 0,
                  lr_soc_valid := flags AND 8 \<noteq> 0, lr_soc_charge_segment := flags AND 0x10 \<noteq> 0,
                  lr_profile_id := pl ! 8, lr_soc_anchor_provenance := prov, lr_soc_confidence := conf,
                  lr_nominal_capacity_mah := read_u16 (drop 12 pl),
                  lr_capacity_history_mah := map (\<lambda>i. read_u16 (drop (14 + i * 2) pl)) [0..<3],
                  lr_capacity_history_count := pl ! 20, lr_capacity_history_next := pl ! 21,
                  lr_accepted_capacity_cycles := read_u16 (drop 22 pl),
                  lr_rejected_capacity_cycles := read_u16 (drop 24 pl),
                  lr_last_capacity_mah := read_u16 (drop 26 pl),
                  lr_resistance_mohm := map (\<lambda>i. read_u16 (drop (28 + i * 2) pl)) [0..<3],
                  lr_resistance_sample_count := map (\<lambda>i. read_u16 (drop (34 + i * 2) pl)) [0..<3],
                  lr_pack_generation := read_u32 (drop 40 pl), lr_full_anchor_acr_raw := read_u32 (drop 44 pl),
                  lr_full_anchor_nah := read_i64 (drop 48 pl),
                  lr_cycle_min_temperature_mdegc := read_i32 (drop 56 pl),
                  lr_cycle_max_temperature_mdegc := read_i32 (drop 60 pl),
                  lr_soc_capacity_mah := read_u16 (drop 64 pl),
                  lr_soc_charge_factor_permille := read_u16 (drop 66 pl),
                  lr_soc_bootstrap_reference_mv := read_u16 (drop 68 pl),
                  lr_soc_anchor_session_delta_nah := read_i64 (drop 72 pl),
                  lr_soc_anchor_remaining_nah := read_i64 (drop 80 pl)\<rparr>))
         | _ \<Rightarrow> None))"

text \<open>The state after it, and the answer.\<close>

definition apply_battery_learning :: "u8 list \<Rightarrow> learning_persisted \<Rightarrow> learning_persisted \<times> bool" where
  "apply_battery_learning pl s =
     (case decode_battery_learning_v2 pl of
        None \<Rightarrow> (s, False)
      | Some loaded \<Rightarrow> if battery_learning_persisted_valid loaded None then (loaded, True) else (s, False))"

text \<open>\<open>g_store_battery_learning_unit_ops\<close>: the codec in the callback shape.\<close>

definition learning_unit_ops :: "learning_persisted unit_ops" where
  "learning_unit_ops =
     \<lparr>uo_reset_ram = (\<lambda>_. battery_learning_persisted_defaults None),
      uo_serialize = (\<lambda>r cap. map_option (\<lambda>(dst, n). take n dst)
        (serialize_battery_learning r (replicate cap 0) cap)),
      uo_apply = apply_battery_learning, uo_fallback_missing = None\<rparr>"

section \<open>Round trip\<close>

text \<open>Arrays have their C length and signed fields hold values of their C type.\<close>

definition typed_record :: "learning_persisted \<Rightarrow> bool" where
  "typed_record r \<longleftrightarrow>
     length (lr_capacity_history_mah r) = 3 \<and> length (lr_resistance_mohm r) = 3 \<and>
     length (lr_resistance_sample_count r) = 3 \<and>
     lr_full_anchor_nah r \<in> {INT64_MIN..INT64_MAX} \<and>
     lr_cycle_min_temperature_mdegc r \<in> {INT32_MIN..INT32_MAX} \<and>
     lr_cycle_max_temperature_mdegc r \<in> {INT32_MIN..INT32_MAX} \<and>
     lr_soc_anchor_session_delta_nah r \<in> {INT64_MIN..INT64_MAX} \<and>
     lr_soc_anchor_remaining_nah r \<in> {INT64_MIN..INT64_MAX}"

definition learning_payload :: "learning_persisted \<Rightarrow> u8 list" where
  "learning_payload r = concat (learning_fields_head r @ learning_fields_tail r)"

lemma three_elements: "length xs = 3 \<Longrightarrow> \<exists>a b c. xs = [a, b, c]"
  by (auto simp add: numeral_3_eq_3 length_Suc_conv)

lemma battery_learning_equal_iff: "battery_learning_equal a b \<longleftrightarrow> a = b"
  by (auto simp add: battery_learning_equal_def intro: learning_persisted.equality)

lemma sint_of_ints:
  "v \<in> {INT64_MIN..INT64_MAX} \<Longrightarrow> sint (of_int v :: u64) = v"
  "w \<in> {INT32_MIN..INT32_MAX} \<Longrightarrow> sint (of_int w :: u32) = w"
  by (simp_all add: signed_of_int signed_take_bit_int_eq_self)

lemmas learning_field_simps = learning_payload_def learning_fields_head_def learning_fields_tail_def
  drop_field nth_field

lemma learning_payload_length:
  assumes "typed_record r"
  shows "length (learning_payload r) = BATTERY_LEARNING_PAYLOAD_LEN_V2"
  using assms by (auto simp add: learning_field_simps typed_record_def dest!: three_elements)

lemma decode_payload:
  assumes "typed_record r"
  shows "decode_battery_learning_v2 (learning_payload r) = Some r"
proof -
  obtain h0 h1 h2 where h: "lr_capacity_history_mah r = [h0, h1, h2]"
    using assms three_elements by (force simp add: typed_record_def)
  obtain m0 m1 m2 where m: "lr_resistance_mohm r = [m0, m1, m2]"
    using assms three_elements by (force simp add: typed_record_def)
  obtain n0 n1 n2 where n: "lr_resistance_sample_count r = [n0, n1, n2]"
    using assms three_elements by (force simp add: typed_record_def)
  let ?pl = "learning_payload r"
  have head: "read_u32 ?pl = BATTERY_LEARNING_MAGIC_V2" "read_u16 (drop 4 ?pl) = 2"
    "read_u16 (drop 6 ?pl) = learning_flags r" "?pl ! 8 = lr_profile_id r"
    "?pl ! 9 = byte_of_enum soc_provenances (lr_soc_anchor_provenance r)"
    "?pl ! 10 = byte_of_enum soc_confidences (lr_soc_confidence r)" "?pl ! 11 = 0"
    "read_u16 (drop 12 ?pl) = lr_nominal_capacity_mah r"
    "read_u16 (drop 14 ?pl) = h0" "read_u16 (drop 16 ?pl) = h1" "read_u16 (drop 18 ?pl) = h2"
    "?pl ! 20 = lr_capacity_history_count r" "?pl ! 21 = lr_capacity_history_next r"
    "read_u16 (drop 22 ?pl) = lr_accepted_capacity_cycles r"
    "read_u16 (drop 24 ?pl) = lr_rejected_capacity_cycles r" "read_u16 (drop 26 ?pl) = lr_last_capacity_mah r"
    by (simp_all add: learning_field_simps h)
  have tail: "read_u16 (drop 28 ?pl) = m0" "read_u16 (drop 30 ?pl) = m1" "read_u16 (drop 32 ?pl) = m2"
    "read_u16 (drop 34 ?pl) = n0" "read_u16 (drop 36 ?pl) = n1" "read_u16 (drop 38 ?pl) = n2"
    "read_u32 (drop 40 ?pl) = lr_pack_generation r" "read_u32 (drop 44 ?pl) = lr_full_anchor_acr_raw r"
    "read_u64 (drop 48 ?pl) = of_int (lr_full_anchor_nah r)"
    "read_u32 (drop 56 ?pl) = of_int (lr_cycle_min_temperature_mdegc r)"
    "read_u32 (drop 60 ?pl) = of_int (lr_cycle_max_temperature_mdegc r)"
    "read_u16 (drop 64 ?pl) = lr_soc_capacity_mah r" "read_u16 (drop 66 ?pl) = lr_soc_charge_factor_permille r"
    "read_u16 (drop 68 ?pl) = lr_soc_bootstrap_reference_mv r" "read_u16 (drop 70 ?pl) = 0"
    "read_u64 (drop 72 ?pl) = of_int (lr_soc_anchor_session_delta_nah r)"
    "read_u64 (drop 80 ?pl) = of_int (lr_soc_anchor_remaining_nah r)"
    "read_u32 (drop 88 ?pl) = 0" "read_u32 (drop 92 ?pl) = 0"
    using read_write_u32 [of 0 "[]"] by (simp_all add: learning_field_simps h m n)
  have ints: "read_i64 (drop 48 ?pl) = lr_full_anchor_nah r"
    "read_i32 (drop 56 ?pl) = lr_cycle_min_temperature_mdegc r"
    "read_i32 (drop 60 ?pl) = lr_cycle_max_temperature_mdegc r"
    "read_i64 (drop 72 ?pl) = lr_soc_anchor_session_delta_nah r"
    "read_i64 (drop 80 ?pl) = lr_soc_anchor_remaining_nah r"
    using assms by (simp_all only: read_i64_def read_i32_def tail typed_record_def sint_of_ints)
  have flags: "learning_flags r AND NOT BATTERY_LEARNING_FLAGS_VALID = 0"
    "learning_flags r AND 1 \<noteq> 0 \<longleftrightarrow> lr_full_anchor_valid r"
    "learning_flags r AND 2 \<noteq> 0 \<longleftrightarrow> lr_capacity_cycle_qualified r"
    "learning_flags r AND 4 \<noteq> 0 \<longleftrightarrow> lr_natural_empty_valid r"
    "learning_flags r AND 8 \<noteq> 0 \<longleftrightarrow> lr_soc_valid r"
    "learning_flags r AND 0x10 \<noteq> 0 \<longleftrightarrow> lr_soc_charge_segment r"
    unfolding learning_flags_def word_ao_dist by (simp_all add: or_eq_0_iff flag_bit_zero)
  have "learning_header_ok ?pl"
    using flags(1) by (simp add: learning_header_ok_def learning_payload_length [OF assms] head tail)
  then show ?thesis
    unfolding decode_battery_learning_v2_def head(3,5,6) enum_bytes prod.case option.case Let_def flags(2-)
    by (simp add: upt_rec head tail ints) (rule learning_persisted.equality; simp add: h m n)
qed

lemma serialize_learning_payload:
  assumes "typed_record r" "battery_learning_persisted_valid r None"
  shows "serialize_battery_learning r dst (length dst) =
    (if 96 \<le> length dst then Some (learning_payload r @ drop 96 dst, 96) else None)"
proof -
  have len: "length (concat (learning_fields_head r @ learning_fields_tail r)) = 96"
    using learning_payload_length [OF assms(1)] by (simp only: learning_payload_def)
  show ?thesis
  proof (cases "96 \<le> length dst")
    case True
    then show ?thesis
      using write_fields_ok [of dst "length dst" 0 "learning_fields_head r @ learning_fields_tail r"] assms len
      by (simp add: serialize_battery_learning_def learning_payload_def)
  next
    case False
    then have "write_fields dst (length dst) 0 (learning_fields_head r @ learning_fields_tail r) = None"
      using len by (intro write_fields_fail) simp_all
    then show ?thesis
      using False by (simp add: serialize_battery_learning_def)
  qed
qed

end
