(* ===== verification/Learning_Invariant.thy ===== *)
theory Learning_Invariant
  imports Charge_Values Store_Learning
begin

text \<open>
  The invariant of the battery learner.  The locale \<open>learning_laws\<close> states what a profile promises;
  inside it every stage of an update, the provisioning and the recovery commands are shown to keep a
  record that the storage layer accepts.  The NiMH profile of the code is its interpretation.
\<close>

section \<open>Arrays, windows and the bootstrap\<close>

definition well_shaped :: "learning_persisted \<Rightarrow> bool" where
  "well_shaped r \<longleftrightarrow>
     length (lr_capacity_history_mah r) = 3 \<and> length (lr_resistance_mohm r) = 3 \<and>
     length (lr_resistance_sample_count r) = 3"

definition record_ok :: "learning_profile \<Rightarrow> learning_persisted \<Rightarrow> bool" where
  "record_ok p r \<longleftrightarrow> well_shaped r \<and> battery_learning_persisted_valid r (Some p)"

definition plausible_mohm :: "learning_profile \<Rightarrow> u16 \<Rightarrow> bool" where
  "plausible_mohm p mohm \<longleftrightarrow> lp_resistance_min_mohm p \<le> mohm \<and> mohm \<le> lp_resistance_max_mohm p"

definition windows_ok :: "learning_profile \<Rightarrow> learning_state \<Rightarrow> bool" where
  "windows_ok p st \<longleftrightarrow>
     length (lt_resistance_window st) = 3 \<and> length (lt_resistance_window_count st) = 3 \<and>
     (\<forall>b<3. length (lt_resistance_window st ! b) = 9 \<and> lt_resistance_window_count st ! b < 9 \<and>
        list_all (plausible_mohm p)
          (take (unat (lt_resistance_window_count st ! b)) (lt_resistance_window st ! b)))"

definition bootstrap_ok :: "learning_state \<Rightarrow> bool" where
  "bootstrap_ok st \<longleftrightarrow>
     (let n = unat (lt_soc_bootstrap_sample_count st); s = unat (lt_soc_bootstrap_reference_sum_mv st)
      in n < 5 \<and> n \<le> s \<and> s \<le> n * 65535)"

definition learning_ok :: "learning_profile \<Rightarrow> learning_state \<Rightarrow> bool" where
  "learning_ok p st \<longleftrightarrow> record_ok p (lt_persisted st) \<and> windows_ok p st \<and> bootstrap_ok st"

text \<open>Signed measurements are values of their C types, and a reference voltage that is reported valid is
  not zero.\<close>

definition sane_observation :: "learning_observation \<Rightarrow> bool" where
  "sane_observation ob \<longleftrightarrow> (lo_reference_valid ob \<longrightarrow> lo_reference_mv ob \<noteq> 0) \<and>
     lo_session_delta_nah ob \<in> {INT64_MIN..INT64_MAX} \<and> lo_temperature_mdegc ob \<in> {INT32_MIN..INT32_MAX} \<and>
     lo_current_ua ob \<in> {INT32_MIN..INT32_MAX}"

lemma typed_shape: "typed_record r \<Longrightarrow> well_shaped r"
  by (simp add: typed_record_def well_shaped_def)

lemma learning_profile_or_simps [simp]:
  "learning_profile_or None = NIMH_PROFILE" "learning_profile_or (Some p) = p"
  by (simp_all add: learning_profile_or_def)

lemma record_parts:
  "record_ok p r \<longleftrightarrow>
     well_shaped r \<and> history_valid r p \<and> list_all (resistance_ok p) (lr_resistance_mohm r) \<and>
     (lr_full_anchor_valid r \<longrightarrow> lr_cycle_min_temperature_mdegc r \<le> lr_cycle_max_temperature_mdegc r) \<and>
     ledger_valid r p"
  by (simp add: record_ok_def battery_learning_persisted_valid_def)

section \<open>Values\<close>

lemma rated_nah_bounds: "0 \<le> rated_nah m"
  by (simp add: rated_nah_def)

lemma median_in_set:
  assumes "0 < n" "n \<le> 9" "unat n \<le> length vs"
  shows "learning_median_u16 vs n \<in> set (take (unat n) vs)"
proof -
  let ?xs = "take (unat n) vs"
  have m: "mset (fold insert_sorted ?xs []) = mset ?xs"
    using fold_insert_sorted [of "[]" ?xs] by simp
  then have "length (fold insert_sorted ?xs []) = unat n"
    using assms(3) mset_eq_length [OF m] by simp
  moreover have "0 < unat n"
    using assms(1) by (simp add: unat_gt_0 word_neq_0_conv)
  ultimately have "fold insert_sorted ?xs [] ! (unat n div 2) \<in> set (fold insert_sorted ?xs [])"
    by (intro nth_mem) simp
  also have "\<dots> = set ?xs"
    using m by (metis set_mset_mset)
  finally show ?thesis
    using assms(1,2) by (simp add: learning_median_u16_def word_neq_0_conv linorder_not_less [symmetric])
qed

lemma unat_lt: "unat (w :: u16) < 65536"
  using unsigned_less [of w] by simp

lemma narrow_bounds:
  fixes x :: u32 and lo hi :: u16
  assumes "ucast lo \<le> x" "x \<le> ucast hi"
  shows "lo \<le> ucast x" "ucast x \<le> hi"
  using assms unat_lt [of lo] unat_lt [of hi]
  by (simp_all add: word_le_nat_alt unsigned_ucast_eq take_bit_eq_mod)

lemma mean_of_two:
  fixes a b lo hi :: u16
  assumes "lo \<le> a" "a \<le> hi" "lo \<le> b" "b \<le> hi"
  shows "lo \<le> ucast ((ucast a + ucast b + 1 :: u32) div 2)"
    and "ucast ((ucast a + ucast b + 1 :: u32) div 2) \<le> hi"
proof -
  have b: "unat a < 65536" "unat b < 65536" "unat hi < 65536"
    using unat_lt [of a] unat_lt [of b] unat_lt [of hi] by simp_all
  have s: "unat (ucast a + ucast b + 1 :: u32) = unat a + unat b + 1"
    using b by (simp add: unat_word_ariths unsigned_ucast_eq take_bit_eq_mod)
  have "unat (ucast ((ucast a + ucast b + 1 :: u32) div 2) :: u16) = (unat a + unat b + 1) div 2"
    using b by (simp add: unsigned_ucast_eq take_bit_eq_mod unat_div s)
  then show "lo \<le> ucast ((ucast a + ucast b + 1 :: u32) div 2)"
    and "ucast ((ucast a + ucast b + 1 :: u32) div 2) \<le> hi"
    using assms by (simp_all add: word_le_nat_alt)
qed

lemma project_bounds:
  "0 \<le> lr_soc_anchor_remaining_nah r \<Longrightarrow> 0 \<le> soc_project_remaining_nah r d"
  "0 \<le> lr_soc_anchor_remaining_nah r \<Longrightarrow>
   lr_soc_anchor_remaining_nah r \<le> rated_nah (lr_soc_capacity_mah r) \<Longrightarrow>
   soc_project_remaining_nah r d \<le> rated_nah (lr_soc_capacity_mah r)"
  using rated_nah_bounds [of "lr_soc_capacity_mah r"]
  by (simp_all add: soc_project_remaining_nah_def Let_def split: if_splits)

section \<open>The stages of one update\<close>

text \<open>What every stage keeps, an update keeps.\<close>

lemma update_by_stages:
  assumes "P st" "\<And>st. P st \<Longrightarrow> P (fst (update_session ob st))"
    and "\<And>st. P st \<Longrightarrow> P (fst (update_evidence_gap ob st))"
    and "\<And>st. P st \<Longrightarrow> P (fst (update_sample (learning_profile_or po) ob st))"
    and "\<And>st. P st \<Longrightarrow> P (fst (update_full_event (learning_profile_or po) ob st))"
    and "\<And>st. P st \<Longrightarrow> P (fst (update_empty_event (learning_profile_or po) ob st))"
    and "\<And>st d e f g. P st \<Longrightarrow> P (fst (update_soc_ledger (learning_profile_or po) ob d e f g st))"
    and "\<And>st. P st \<Longrightarrow> P (remember_persisted st)"
    and "\<And>st. P st \<Longrightarrow> P (refresh_snapshot (learning_profile_or po) st)"
  shows "P (fst (battery_learning_update po ob events st))"
  using assms by (auto simp add: battery_learning_update_def Let_def case_prod_beta)

section \<open>The laws of a profile\<close>

locale learning_laws =
  fixes p :: learning_profile
  assumes min_pos: "0 < lp_capacity_min_mah p"
    and nominal: "lp_capacity_min_mah p \<le> lp_nominal_capacity_mah p"
      "lp_nominal_capacity_mah p \<le> lp_capacity_max_mah p"
    and factor: "1000 \<le> lp_charge_factor_permille p" "lp_charge_factor_permille p \<le> 2000"
begin

lemma estimate_in_range:
  assumes "history_valid r p" "well_shaped r"
  shows "lp_capacity_min_mah p \<le> capacity_estimate_mah r p"
    and "capacity_estimate_mah r p \<le> lp_capacity_max_mah p"
proof -
  define n where "n = lr_capacity_history_count r"
  define h where "h = lr_capacity_history_mah r"
  have ok: "\<forall>c\<in>set (take (unat n) h). lp_capacity_min_mah p \<le> c \<and> c \<le> lp_capacity_max_mah p"
    and nom: "lr_nominal_capacity_mah r = lp_nominal_capacity_mah p" and le: "n \<le> 3" and len: "length h = 3"
    using assms by (simp_all add: history_valid_def well_shaped_def n_def h_def list_all_iff)
  have "unat n = 0 \<or> unat n = 1 \<or> unat n = 2 \<or> unat n = 3"
    using le by (auto simp add: word_le_nat_alt)
  then consider "n = 0" | "n = 1" | "n = 2" | "n = 3"
    using word_unat_eq_iff [of n 0] word_unat_eq_iff [of n 1] word_unat_eq_iff [of n 2]
      word_unat_eq_iff [of n 3] by auto
  then have "lp_capacity_min_mah p \<le> learned_capacity_mah r \<and> learned_capacity_mah r \<le> lp_capacity_max_mah p \<or> n = 0"
  proof cases
    case 2
    then have "h ! 0 \<in> set (take (unat n) h)"
      using len by (cases h) simp_all
    then show ?thesis
      using ok 2 by (simp add: learned_capacity_mah_def n_def [symmetric] h_def [symmetric])
  next
    case 3
    then have "h ! 0 \<in> set (take (unat n) h)" "h ! 1 \<in> set (take (unat n) h)"
      using len by (cases h; cases "tl h"; simp)+
    then show ?thesis
      using ok 3 mean_of_two [of "lp_capacity_min_mah p" "h ! 0" "lp_capacity_max_mah p" "h ! 1"]
      by (simp add: learned_capacity_mah_def n_def [symmetric] h_def [symmetric])
  next
    case 4
    then show ?thesis
      using ok len median_in_set [of 3 h]
      by (simp add: learned_capacity_mah_def n_def [symmetric] h_def [symmetric] word_less_nat_alt word_le_nat_alt)
  qed simp
  moreover have "n = 0 \<Longrightarrow> capacity_estimate_mah r p = lp_nominal_capacity_mah p"
    by (simp add: capacity_estimate_mah_def capacity_confidence_def n_def nom)
  ultimately show "lp_capacity_min_mah p \<le> capacity_estimate_mah r p"
    and "capacity_estimate_mah r p \<le> lp_capacity_max_mah p"
    using nominal by (auto simp add: capacity_estimate_mah_def Let_def nom)
qed

text \<open>The two absolute anchors, the tracked ones and the bootstrap give a valid ledger.\<close>

lemma anchor_full_ok:
  assumes "record_ok p r" "lp_capacity_min_mah p \<le> c" "c \<le> lp_capacity_max_mah p" "1000 \<le> f" "f \<le> 2000"
  shows "record_ok p (anchor_full c d f r)"
  using assms rated_nah_bounds [of c]
  by (simp add: record_parts anchor_full_def soc_set_anchor_def history_valid_def ledger_valid_def well_shaped_def)

lemma anchor_empty_ok:
  assumes "record_ok p r" "lp_capacity_min_mah p \<le> c" "c \<le> lp_capacity_max_mah p" "1000 \<le> f" "f \<le> 2000"
  shows "record_ok p (anchor_empty c d s f r)"
  using assms rated_nah_bounds [of c]
  by (simp add: record_parts anchor_empty_def soc_set_anchor_def history_valid_def ledger_valid_def well_shaped_def)

lemma set_anchor_ok:
  assumes "record_ok p r" "lp_capacity_min_mah p \<le> c" "c \<le> lp_capacity_max_mah p" "1000 \<le> f" "f \<le> 2000"
    and "prov = BATTERY_SOC_PROVENANCE_TRACKED \<or>
      prov = BATTERY_SOC_PROVENANCE_BOOTSTRAP_VOLTAGE \<and> conf = BATTERY_SOC_CONFIDENCE_PROVISIONAL"
    and "conf = BATTERY_SOC_CONFIDENCE_PROVISIONAL \<and> m \<noteq> 0 \<or> conf = BATTERY_SOC_CONFIDENCE_ANCHORED \<and> m = 0"
  shows "record_ok p (soc_set_anchor c d rem s f m prov conf r)"
  using assms rated_nah_bounds [of c]
  by (auto simp add: record_parts soc_set_anchor_def history_valid_def ledger_valid_def well_shaped_def Let_def)

lemma clear_soc_ok: "record_ok p r \<Longrightarrow> record_ok p (soc_clear r)"
  by (simp add: record_parts soc_clear_def history_valid_def ledger_valid_def well_shaped_def)

text \<open>A measurement in range extends the history, or replaces its oldest entry.\<close>

lemma add_sample_ok:
  assumes ok: "record_ok p r" and c: "lp_capacity_min_mah p \<le> c" "c \<le> lp_capacity_max_mah p"
  shows "record_ok p (add_capacity_sample c r)"
proof -
  define n where "n = lr_capacity_history_count r"
  define h where "h = lr_capacity_history_mah r"
  define k where "k = lr_capacity_history_next r"
  note d = ok [unfolded record_parts history_valid_def well_shaped_def, folded n_def h_def k_def]
  have "0 < unat c" "unat (lr_accepted_capacity_cycles r) < 65536"
    using c min_pos unat_lt by (simp_all add: word_le_nat_alt word_less_nat_alt)
  then have pos: "c \<noteq> 0" "lr_accepted_capacity_cycles r \<le> saturating_increment_u16 (lr_accepted_capacity_cycles r)"
    by (auto simp add: saturating_increment_u16_def word_le_nat_alt unat_word_ariths word_unat_eq_iff)
  have inc: "ucast (n + 1) \<le> saturating_increment_u16 (lr_accepted_capacity_cycles r)" if "n < 3"
  proof -
    have "unat (n + 1) = unat n + 1" "unat n < 3"
      using that by (simp_all add: word_less_nat_alt unat_plus_if')
    moreover have "ucast n \<le> lr_accepted_capacity_cycles r"
      using d by blast
    then have "unat n \<le> unat (lr_accepted_capacity_cycles r)"
      using \<open>unat n < 3\<close> by (simp add: word_le_nat_alt unsigned_ucast_eq take_bit_eq_mod)
    ultimately show ?thesis
      using unat_lt [of "lr_accepted_capacity_cycles r"]
      by (simp add: saturating_increment_u16_def word_le_nat_alt unsigned_ucast_eq take_bit_eq_mod
          unat_word_ariths word_unat_eq_iff)
  qed
  show ?thesis
  proof (cases "n < 3")
    case True
    have u: "unat (n + 1) = unat n + 1" "unat n < 3"
      using True by (simp_all add: word_less_nat_alt unat_plus_if')
    have "list_all (\<lambda>x. lp_capacity_min_mah p \<le> x \<and> x \<le> lp_capacity_max_mah p)
        (take (unat n + 1) (h[unat n := c]))"
      using d c u(2) by (simp add: take_Suc_conv_app_nth take_update_cancel)
    moreover have "(n + 1) mod 3 < 3" "n + 1 \<le> 3" "n + 1 < 3 \<Longrightarrow> (n + 1) mod 3 = n + 1" "n + 1 \<noteq> 0"
      using u by (simp_all add: word_less_nat_alt word_le_nat_alt unat_mod word_unat_eq_iff)
    ultimately show ?thesis
      using d pos c True inc u(1)
      by (simp add: record_parts history_valid_def well_shaped_def add_capacity_sample_def Let_def
          ledger_valid_def n_def [symmetric] h_def [symmetric] k_def [symmetric])
  next
    case False
    then have n3: "n = 3"
      using d by simp
    have k: "(unat k + 1) mod 3 < 3"
      by simp
    then have u: "unat (of_nat ((unat k + 1) mod 3) :: u8) < 3"
      by (simp add: unat_of_nat)
    have "list_all (\<lambda>x. lp_capacity_min_mah p \<le> x \<and> x \<le> lp_capacity_max_mah p) (h[unat k := c])"
      using d c n3 by (auto simp add: list_all_iff dest!: set_update_subset_insert [THEN subsetD])
    then show ?thesis
      using d pos c n3 u
      by (auto simp add: record_parts history_valid_def well_shaped_def add_capacity_sample_def Let_def
          ledger_valid_def n_def [symmetric] h_def [symmetric] k_def [symmetric] word_less_nat_alt
          intro: order_trans)
  qed
qed

text \<open>Clearing the pack, and the changes of single marks.\<close>

lemma defaults_ok: "record_ok p (battery_learning_persisted_defaults (Some p))"
  by (simp add: record_parts battery_learning_persisted_defaults_def learning_persisted_zero_def
      well_shaped_def history_valid_def ledger_valid_def resistance_ok_def)

lemma cleared_windows: "windows_ok p (clear_pack_learning st)"
  by (simp add: windows_ok_def clear_pack_learning_def Let_def All_less_Suc numeral_3_eq_3)

lemma clear_pack_ok:
  assumes "learning_ok p st"
  shows "learning_ok p (clear_pack_learning st)"
proof -
  have "lr_profile_id (lt_persisted st) = lp_profile_id p"
    "lr_nominal_capacity_mah (lt_persisted st) = lp_nominal_capacity_mah p"
    using assms by (simp_all add: learning_ok_def record_parts history_valid_def)
  then have "record_ok p (lt_persisted (clear_pack_learning st))"
    by (simp add: record_parts clear_pack_learning_def learning_persisted_zero_def
        well_shaped_def history_valid_def ledger_valid_def resistance_ok_def Let_def)
  moreover have "bootstrap_ok (clear_pack_learning st)"
    by (simp add: bootstrap_ok_def clear_pack_learning_def Let_def)
  ultimately show ?thesis
    by (simp add: learning_ok_def cleared_windows)
qed

lemma record_frames:
  "ledger_valid (r\<lparr>lr_natural_empty_valid := b\<rparr>) p = ledger_valid r p"
  "ledger_valid (r\<lparr>lr_full_anchor_valid := b\<rparr>) p = ledger_valid r p"
  "ledger_valid (r\<lparr>lr_capacity_cycle_qualified := b\<rparr>) p = ledger_valid r p"
  "ledger_valid (r\<lparr>lr_cycle_min_temperature_mdegc := t\<rparr>) p = ledger_valid r p"
  "ledger_valid (r\<lparr>lr_cycle_max_temperature_mdegc := t\<rparr>) p = ledger_valid r p"
  "ledger_valid (r\<lparr>lr_rejected_capacity_cycles := k\<rparr>) p = ledger_valid r p"
  "ledger_valid (r\<lparr>lr_full_anchor_acr_raw := a\<rparr>) p = ledger_valid r p"
  "ledger_valid (r\<lparr>lr_full_anchor_nah := d\<rparr>) p = ledger_valid r p"
  "ledger_valid (r\<lparr>lr_resistance_mohm := ms\<rparr>) p = ledger_valid r p"
  "ledger_valid (r\<lparr>lr_resistance_sample_count := ns\<rparr>) p = ledger_valid r p"
  "history_valid (r\<lparr>lr_cycle_min_temperature_mdegc := t\<rparr>) p = history_valid r p"
  "history_valid (r\<lparr>lr_cycle_max_temperature_mdegc := t\<rparr>) p = history_valid r p"
  "history_valid (r\<lparr>lr_rejected_capacity_cycles := k\<rparr>) p = history_valid r p"
  "history_valid (r\<lparr>lr_full_anchor_acr_raw := a\<rparr>) p = history_valid r p"
  "history_valid (r\<lparr>lr_full_anchor_nah := d\<rparr>) p = history_valid r p"
  "history_valid (r\<lparr>lr_resistance_mohm := ms\<rparr>) p = history_valid r p"
  "history_valid (r\<lparr>lr_resistance_sample_count := ns\<rparr>) p = history_valid r p"
  by (simp_all add: ledger_valid_def history_valid_def)

text \<open>The marks of the two endpoints never hold together.\<close>

lemma history_marks:
  "history_valid r p \<Longrightarrow> history_valid (r\<lparr>lr_natural_empty_valid := False\<rparr>) p"
  "history_valid r p \<Longrightarrow> history_valid (r\<lparr>lr_capacity_cycle_qualified := False\<rparr>) p"
  "history_valid r p \<Longrightarrow> history_valid (r\<lparr>lr_capacity_cycle_qualified := False, lr_full_anchor_valid := False\<rparr>) p"
  "history_valid r p \<Longrightarrow> history_valid (r\<lparr>lr_capacity_cycle_qualified := False, lr_full_anchor_valid := False,
     lr_natural_empty_valid := b\<rparr>) p"
  "history_valid r p \<Longrightarrow> history_valid (r\<lparr>lr_natural_empty_valid := False, lr_full_anchor_valid := True,
     lr_capacity_cycle_qualified := b\<rparr>) p"
  by (simp_all add: history_valid_def)

lemma marks_ok:
  assumes "record_ok p r"
  shows "record_ok p (r\<lparr>lr_natural_empty_valid := False\<rparr>)"
    and "record_ok p (r\<lparr>lr_capacity_cycle_qualified := False\<rparr>)"
    and "record_ok p (r\<lparr>lr_rejected_capacity_cycles := k\<rparr>)"
    and "record_ok p (r\<lparr>lr_full_anchor_valid := False, lr_capacity_cycle_qualified := False,
      lr_natural_empty_valid := b\<rparr>)"
    and "record_ok p (set_full_anchor q a d ob r)"
  using assms
  by (simp_all add: record_parts history_valid_def record_frames well_shaped_def set_full_anchor_def)

lemma drop_ok: "record_ok p r \<Longrightarrow> record_ok p (fst (drop_natural_empty ob r))"
  by (simp add: drop_natural_empty_def marks_ok)

text \<open>The temperature range of a cycle only widens.\<close>

lemma track_ok:
  assumes "record_ok p r"
  shows "record_ok p (fst (track_full_anchor p ob r))"
proof (cases "lr_full_anchor_valid r")
  case True
  define r1 where "r1 q lo hi = r\<lparr>lr_capacity_cycle_qualified := q,
    lr_cycle_min_temperature_mdegc := lo, lr_cycle_max_temperature_mdegc := hi\<rparr>" for q lo hi
  have r1: "record_ok p (r1 q lo hi)" "record_ok p ((r1 q lo hi)\<lparr>lr_full_anchor_valid := False,
      lr_capacity_cycle_qualified := False\<rparr>)" if "q \<longrightarrow> lr_capacity_cycle_qualified r" "lo \<le> hi" for q lo hi
    using assms that by (simp_all add: r1_def record_parts history_valid_def record_frames well_shaped_def)
  have t: "lr_cycle_min_temperature_mdegc r \<le> lr_cycle_max_temperature_mdegc r"
    using assms True by (simp add: record_parts)
  show ?thesis
    unfolding track_full_anchor_def Let_def fst_conv r1_def [symmetric] fst_def
    using True t by (auto intro!: r1 simp add: r1_def [symmetric])
qed (simp add: track_full_anchor_def assms)

text \<open>A plausible resistance enters its window; the median of a full window is plausible again.\<close>

lemma window_add_ok:
  assumes ok: "learning_ok p st" and b: "b < 3" and m: "plausible_mohm p m"
  shows "learning_ok p (fst (window_add p b m st))"
proof -
  define n where "n = lt_resistance_window_count st ! b"
  define w where "w = (lt_resistance_window st ! b)[unat n := m]"
  note wo = ok [unfolded learning_ok_def windows_ok_def, THEN conjunct2, THEN conjunct1]
  have n: "n < 9" "length (lt_resistance_window st ! b) = 9"
    "list_all (plausible_mohm p) (take (unat n) (lt_resistance_window st ! b))"
    using wo b by (simp_all add: n_def)
  have u: "unat (n + 1) = unat n + 1" "unat n < 9"
    using n(1) by (simp_all add: word_less_nat_alt unat_plus_if')
  have w: "length w = 9" "list_all (plausible_mohm p) (take (unat (n + 1)) w)"
    using n u m by (simp_all add: w_def take_Suc_conv_app_nth take_update_cancel)
  have est: "resistance_ok p (learning_median_u16 w (n + 1))" if "n + 1 = 9"
  proof -
    have "learning_median_u16 w 9 \<in> set (take 9 w)"
      using median_in_set [of 9 w] w(1) by simp
    moreover have "take 9 w = take (unat (n + 1)) w"
      using that by simp
    ultimately have "plausible_mohm p (learning_median_u16 w 9)"
      using w(2) by (simp add: list_all_iff)
    then show ?thesis
      using that by (simp add: resistance_ok_def plausible_mohm_def)
  qed
  have r: "record_ok p ((lt_persisted st)\<lparr>lr_resistance_sample_count := (lr_resistance_sample_count (lt_persisted st))[b := k]\<rparr>)"
    "n + 1 = 9 \<Longrightarrow> record_ok p ((lt_persisted st)\<lparr>lr_resistance_sample_count := (lr_resistance_sample_count (lt_persisted st))[b := k],
       lr_resistance_mohm := (lr_resistance_mohm (lt_persisted st))[b := learning_median_u16 w (n + 1)]\<rparr>)" for k
  proof -
    have "list_all (resistance_ok p) (xs[b := learning_median_u16 w (n + 1)])"
      if "n + 1 = 9" "list_all (resistance_ok p) xs" for xs
      using that est by (auto simp add: list_all_iff dest!: set_update_subset_insert [THEN subsetD])
    then show "record_ok p ((lt_persisted st)\<lparr>lr_resistance_sample_count := (lr_resistance_sample_count (lt_persisted st))[b := k]\<rparr>)"
      "n + 1 = 9 \<Longrightarrow> record_ok p ((lt_persisted st)\<lparr>lr_resistance_sample_count := (lr_resistance_sample_count (lt_persisted st))[b := k],
         lr_resistance_mohm := (lr_resistance_mohm (lt_persisted st))[b := learning_median_u16 w (n + 1)]\<rparr>)"
      using ok by (simp_all add: learning_ok_def record_parts record_frames well_shaped_def)
  qed
  have ws: "windows_ok p (st\<lparr>lt_resistance_window := (lt_resistance_window st)[b := w],
      lt_resistance_window_count := (lt_resistance_window_count st)[b := c]\<rparr>)"
    if "c < 9" "list_all (plausible_mohm p) (take (unat c) w)" for c
    using wo b w(1) that by (auto simp add: windows_ok_def nth_list_update)
  have c: "n + 1 \<noteq> 9 \<Longrightarrow> n + 1 < 9"
    using u by (simp add: word_less_nat_alt word_unat_eq_iff)
  have "record_ok p (lt_persisted (fst (window_add p b m st)))"
    unfolding window_add_def Let_def n_def [symmetric] w_def [symmetric] using r by simp
  moreover have "windows_ok p (fst (window_add p b m st))"
    unfolding window_add_def Let_def n_def [symmetric] w_def [symmetric]
    using ws [of 0] ws [of "n + 1"] w(2) c by (simp add: windows_ok_def)
  moreover have "bootstrap_ok (fst (window_add p b m st))"
    using ok by (simp add: window_add_def Let_def learning_ok_def bootstrap_ok_def)
  ultimately show ?thesis
    by (simp add: learning_ok_def)
qed

lemma step_plausible: "step_resistance st p ob = Some m \<Longrightarrow> plausible_mohm p m"
  by (auto simp add: step_resistance_def plausible_mohm_def Let_def dest: narrow_bounds split: if_splits)

lemma learning_ok_same:
  "learning_ok p st \<Longrightarrow> record_ok p (lt_persisted st') \<Longrightarrow>
   lt_resistance_window st' = lt_resistance_window st \<Longrightarrow>
   lt_resistance_window_count st' = lt_resistance_window_count st \<Longrightarrow>
   lt_soc_bootstrap_reference_sum_mv st' = lt_soc_bootstrap_reference_sum_mv st \<Longrightarrow>
   lt_soc_bootstrap_sample_count st' = lt_soc_bootstrap_sample_count st \<Longrightarrow> learning_ok p st'"
  by (simp add: learning_ok_def windows_ok_def bootstrap_ok_def)

lemma learning_ok_record: "learning_ok p st \<Longrightarrow> record_ok p (lt_persisted st)"
  by (simp add: learning_ok_def)

lemma refresh_ok: "learning_ok p st \<Longrightarrow> learning_ok p (refresh_snapshot p st)"
  by (rule learning_ok_same) (simp_all add: refresh_snapshot_def learning_ok_record)

lemma remember_ok: "learning_ok p st \<Longrightarrow> learning_ok p (remember_persisted st)"
  by (rule learning_ok_same) (simp_all add: remember_persisted_def learning_ok_record)

lemma latest_ok:
  "learning_ok p st \<Longrightarrow> record_ok p r \<Longrightarrow> learning_ok p ((latest_observation ob st)\<lparr>lt_persisted := r\<rparr>)"
  by (rule learning_ok_same) (simp_all add: latest_observation_def)

lemma bootstrap_cleared_ok:
  "learning_ok p st \<Longrightarrow> record_ok p r \<Longrightarrow> learning_ok p (clear_bootstrap (st\<lparr>lt_persisted := r\<rparr>))"
  "learning_ok p st \<Longrightarrow> learning_ok p (clear_bootstrap st)"
  by (simp_all add: learning_ok_def windows_ok_def bootstrap_ok_def clear_bootstrap_def)

section \<open>The stages of an update\<close>

lemma resistance_step_ok:
  assumes "learning_ok p st"
  shows "learning_ok p (fst (observe_resistance_step p ob st))"
proof -
  have w: "learning_ok p (fst (window_add p (bin_index b) m st))" if "plausible_mohm p m" for b m
    by (rule window_add_ok [OF assms _ that]) (cases b; simp)
  define step where "step = (if resistance_eligible p ob \<and> lt_previous_resistance_sample_valid st
    then (case step_resistance st p ob of None \<Rightarrow> (st, 0)
      | Some mohm \<Rightarrow> window_add p (bin_index (resistance_bin_for_mv
          (midpoint_mv (lt_previous_terminal_mv st) (lo_terminal_mv ob)))) mohm st) else (st, 0))"
  have s: "learning_ok p (fst step)"
    using assms by (auto simp add: step_def w step_plausible split: option.splits)
  have "learning_ok p st'" if "lt_persisted st' = lt_persisted (fst step)"
    "lt_resistance_window st' = lt_resistance_window (fst step)"
    "lt_resistance_window_count st' = lt_resistance_window_count (fst step)"
    "lt_soc_bootstrap_reference_sum_mv st' = lt_soc_bootstrap_reference_sum_mv (fst step)"
    "lt_soc_bootstrap_sample_count st' = lt_soc_bootstrap_sample_count (fst step)" for st'
    using s that by (intro learning_ok_same [OF s]) (simp_all add: learning_ok_record)
  then show ?thesis
    unfolding observe_resistance_step_def Let_def step_def [symmetric] by (simp split: prod.split)
qed

lemma session_ok: "learning_ok p st \<Longrightarrow> learning_ok p (fst (update_session ob st))"
proof -
  assume ok: "learning_ok p st"
  have "learning_ok p (st\<lparr>lt_session_seen := True, lt_last_gauge_session := g\<rparr>)" for g
    by (rule learning_ok_same [OF ok]) (simp_all add: learning_ok_record [OF ok])
  then show ?thesis
    using ok by (simp add: update_session_def Let_def clear_pack_ok)
qed

lemma gap_ok: "learning_ok p st \<Longrightarrow> learning_ok p (fst (update_evidence_gap ob st))"
proof -
  assume ok: "learning_ok p st"
  show ?thesis
    by (rule learning_ok_same [OF ok])
      (use learning_ok_record [OF ok] in \<open>simp_all add: update_evidence_gap_def Let_def marks_ok(2)\<close>)
qed

lemma sample_ok:
  assumes ok: "learning_ok p st"
  shows "learning_ok p (fst (update_sample p ob st))"
proof -
  define st1 where "st1 = st\<lparr>lt_sample_seen := True, lt_last_sample_sequence := lo_sample_sequence ob\<rparr>"
  have st1: "learning_ok p st1"
    by (rule learning_ok_same [OF ok]) (simp_all add: st1_def learning_ok_record [OF ok])
  have r: "record_ok p (fst (track_full_anchor p ob (fst (drop_natural_empty ob (lt_persisted st)))))"
    by (intro track_ok drop_ok learning_ok_record ok)
  let ?st2 = "if coulomb_evidence ob
    then (latest_observation ob st1)\<lparr>lt_persisted :=
      fst (track_full_anchor p ob (fst (drop_natural_empty ob (lt_persisted st))))\<rparr> else st1"
  have "learning_ok p (fst (observe_resistance_step p ob ?st2))"
    using latest_ok [OF st1 r] st1 by (intro resistance_step_ok) simp
  then show ?thesis
    unfolding update_sample_def Let_def st1_def [symmetric]
    by (cases "coulomb_evidence ob") (simp_all add: case_prod_beta)
qed

text \<open>The two endpoints.\<close>

lemma full_event_ok: "learning_ok p st \<Longrightarrow> learning_ok p (fst (update_full_event p ob st))"
  by (simp add: update_full_event_def latest_ok marks_ok(5) learning_ok_record)

lemma measured_range:
  "measured_cycle_mah p ob r = Some mah \<Longrightarrow> lp_capacity_min_mah p \<le> mah \<and> mah \<le> lp_capacity_max_mah p"
proof -
  have n: "ucast lo \<le> x \<Longrightarrow> x \<le> ucast hi \<Longrightarrow> lo \<le> ucast x \<and> ucast x \<le> hi" for x :: u64 and lo hi :: u16
    using unat_lt [of lo] unat_lt [of hi]
    by (simp add: word_le_nat_alt unsigned_ucast_eq take_bit_eq_mod)
  show "measured_cycle_mah p ob r = Some mah \<Longrightarrow> ?thesis"
    using n by (auto simp add: measured_cycle_mah_def Let_def split: if_splits)
qed

lemma empty_event_ok:
  assumes ok: "learning_ok p st"
  shows "learning_ok p (fst (update_empty_event p ob st))"
proof -
  note r = learning_ok_record [OF ok]
  have "record_ok p (lt_persisted (fst (update_empty_event p ob st)))"
    using r by (auto simp add: update_empty_event_def Let_def intro!: marks_ok(3,4) add_sample_ok
        dest: measured_range split: option.splits)
  then show ?thesis
    by (rule learning_ok_same [OF ok]) (simp_all add: update_empty_event_def Let_def case_prod_beta)
qed

text \<open>The ledger.\<close>

lemma adopt_ok:
  assumes "record_ok p r"
  shows "record_ok p (fst (ledger_adopt p ob e r))"
proof -
  have h: "history_valid r p" "well_shaped r"
    using assms by (simp_all add: record_parts)
  show ?thesis
    using assms estimate_in_range [OF h] factor
    by (simp add: ledger_adopt_def Let_def anchor_full_ok anchor_empty_ok)
qed

lemma segment_ok:
  assumes "record_ok p r"
  shows "record_ok p (fst (ledger_segment p ob r))"
proof -
  have "lr_soc_valid r \<Longrightarrow> lp_capacity_min_mah p \<le> lr_soc_capacity_mah r \<and>
      lr_soc_capacity_mah r \<le> lp_capacity_max_mah p \<and>
      (lr_soc_confidence r = BATTERY_SOC_CONFIDENCE_PROVISIONAL \<and> lr_soc_bootstrap_reference_mv r \<noteq> 0 \<or>
       lr_soc_confidence r = BATTERY_SOC_CONFIDENCE_ANCHORED \<and> lr_soc_bootstrap_reference_mv r = 0)"
    using assms by (cases "lr_soc_confidence r") (simp_all add: record_parts ledger_valid_def)
  then show ?thesis
    using assms factor by (simp add: ledger_segment_def Let_def set_anchor_ok)
qed

lemma bootstrap_step_ok:
  assumes ok: "learning_ok p st" and sane: "sane_observation ob"
    and c: "lp_capacity_min_mah p \<le> c" "c \<le> lp_capacity_max_mah p"
  shows "learning_ok p (fst (ledger_bootstrap p ob d c st))"
proof (cases "d \<and> lo_reference_valid ob \<and> \<not> lo_charger_connected ob \<and> \<not> lo_charge_active ob")
  case False
  then show ?thesis
    using ok by (auto simp add: ledger_bootstrap_def bootstrap_cleared_ok)
next
  case True
  define s where "s = lt_soc_bootstrap_reference_sum_mv st + ucast (lo_reference_mv ob)"
  define n where "n = lt_soc_bootstrap_sample_count st + 1"
  have b: "unat (lt_soc_bootstrap_sample_count st) < 5"
    "unat (lt_soc_bootstrap_sample_count st) \<le> unat (lt_soc_bootstrap_reference_sum_mv st)"
    "unat (lt_soc_bootstrap_reference_sum_mv st) \<le> unat (lt_soc_bootstrap_sample_count st) * 65535"
    using ok by (simp_all add: learning_ok_def bootstrap_ok_def Let_def)
  have m: "0 < unat (lo_reference_mv ob)"
    using True sane by (simp add: sane_observation_def unat_gt_0)
  have u: "unat n = unat (lt_soc_bootstrap_sample_count st) + 1"
    "unat s = unat (lt_soc_bootstrap_reference_sum_mv st) + unat (lo_reference_mv ob)"
    using b unat_lt [of "lo_reference_mv ob"]
    by (simp_all add: n_def s_def unat_word_ariths unsigned_ucast_eq take_bit_eq_mod)
  have next_ok: "unat n \<le> unat s" "unat s \<le> unat n * 65535"
    using b u m unat_lt [of "lo_reference_mv ob"] by simp_all
  show ?thesis
  proof (cases "n < 5")
    case True': True
    have "bootstrap_ok (st\<lparr>lt_soc_bootstrap_reference_sum_mv := s, lt_soc_bootstrap_sample_count := n\<rparr>)"
      using True' next_ok by (simp add: bootstrap_ok_def word_less_nat_alt)
    then show ?thesis
      using ok True True' by (simp add: ledger_bootstrap_def Let_def s_def [symmetric] n_def [symmetric]
          learning_ok_def windows_ok_def)
  next
    case False
    then have "unat n = 5"
      using b u by (simp add: word_less_nat_alt)
    then have "5 \<le> unat s" "unat s \<le> 5 * 65535"
      using next_ok by simp_all
    then have "unat (ucast (s div 5) :: u16) = unat s div 5" "0 < unat s div 5"
      by (simp_all add: unsigned_ucast_eq take_bit_eq_mod unat_div)
    then have "(ucast (s div 5) :: u16) \<noteq> 0"
      by (metis unat_eq_zero less_irrefl)
    then have "record_ok p (soc_set_anchor c (lo_session_delta_nah ob) rem False (lp_charge_factor_permille p)
        (ucast (s div 5)) BATTERY_SOC_PROVENANCE_BOOTSTRAP_VOLTAGE BATTERY_SOC_CONFIDENCE_PROVISIONAL
        (lt_persisted st))" for rem
      using c factor ok by (intro set_anchor_ok) (simp_all add: learning_ok_record)
    then show ?thesis
      using True False ok
      by (simp add: ledger_bootstrap_def Let_def s_def [symmetric] n_def [symmetric] clear_bootstrap_def
          learning_ok_def windows_ok_def bootstrap_ok_def)
  qed
qed

lemma ledger_ok:
  assumes ok: "learning_ok p st" and sane: "sane_observation ob"
  shows "learning_ok p (fst (update_soc_ledger p ob d e full_endpoint empty_endpoint st))"
proof -
  note r = learning_ok_record [OF ok]
  have h: "history_valid (lt_persisted st) p" "well_shaped (lt_persisted st)"
    using r by (simp_all add: record_parts)
  note c = estimate_in_range [OF h]
  define r2 where "r2 = fst (ledger_segment p ob (fst (ledger_adopt p ob e (lt_persisted st))))"
  have r2: "record_ok p r2"
    unfolding r2_def by (intro segment_ok adopt_ok r)
  have st2: "learning_ok p (st\<lparr>lt_persisted := r2\<rparr>)"
    by (rule learning_ok_same [OF ok]) (simp_all add: r2)
  show ?thesis
    unfolding update_soc_ledger_def Let_def case_prod_beta r2_def [symmetric]
    using ok r r2 c factor bootstrap_step_ok [OF st2 sane c]
    by (simp add: bootstrap_cleared_ok clear_soc_ok anchor_full_ok anchor_empty_ok)
qed

lemma learner_update_ok:
  assumes "learning_ok p st" "sane_observation ob"
  shows "learning_ok p (fst (battery_learning_update (Some p) ob events st))"
  by (rule update_by_stages)
    (simp_all add: assms session_ok gap_ok sample_ok full_event_ok empty_event_ok ledger_ok refresh_ok remember_ok)

section \<open>Starting, provisioning and recovery\<close>

lemma fresh_windows:
  "windows_ok p (learning_state_zero\<lparr>lt_persisted := r\<rparr>)" "bootstrap_ok (learning_state_zero\<lparr>lt_persisted := r\<rparr>)"
  by (simp_all add: windows_ok_def bootstrap_ok_def learning_state_zero_def All_less_Suc numeral_3_eq_3)

lemma learner_init_ok:
  assumes "\<And>r. ro = Some r \<Longrightarrow> well_shaped r"
  shows "learning_ok p (battery_learning_init (Some p) ro)"
proof -
  define r1 where "r1 = (case ro of None \<Rightarrow> battery_learning_persisted_defaults (Some p)
    | Some r \<Rightarrow> if battery_learning_persisted_valid r (Some p) then r
        else battery_learning_persisted_defaults (Some p))"
  have r1: "record_ok p r1"
    using assms defaults_ok by (auto simp add: r1_def record_ok_def split: option.splits)
  then have h: "history_valid r1 p" "well_shaped r1"
    by (simp_all add: record_parts)
  have "record_ok p (migrate_full_anchor p r1)"
    using r1 estimate_in_range [OF h] factor by (simp add: migrate_full_anchor_def anchor_full_ok)
  then have "learning_ok p (learning_state_zero\<lparr>lt_persisted := migrate_full_anchor p r1\<rparr>)"
    by (simp add: learning_ok_def fresh_windows)
  moreover have "battery_learning_init (Some p) ro =
      refresh_snapshot p (remember_persisted (learning_state_zero\<lparr>lt_persisted := migrate_full_anchor p r1\<rparr>))"
    using defaults_ok by (simp add: battery_learning_init_def Let_def r1_def record_ok_def split: option.splits)
  ultimately show ?thesis
    by (simp add: refresh_ok remember_ok)
qed

lemma provision_ok:
  assumes ok: "learning_ok p st" and "length (lv_resistance_mohm v) = 3"
  shows "learning_ok p (fst (battery_learning_provision (Some p) v st))"
proof (cases "lv_capacity_mah v < lp_capacity_min_mah p \<or> lp_capacity_max_mah p < lv_capacity_mah v \<or>
    \<not> list_all (resistance_ok p) (lv_resistance_mohm v)")
  case True
  then show ?thesis
    using ok by (auto simp add: battery_learning_provision_def Let_def)
next
  case False
  let ?st1 = "clear_pack_learning st"
  let ?r = "add_capacity_sample (lv_capacity_mah v) (lt_persisted ?st1)"
  note st1 = clear_pack_ok [OF ok]
  have "record_ok p ?r"
    using False st1 by (intro add_sample_ok) (simp_all add: learning_ok_record not_less)
  moreover have "\<not> lr_full_anchor_valid ?r"
    by (simp add: add_capacity_sample_def clear_pack_learning_def learning_persisted_zero_def Let_def)
  ultimately have r: "record_ok p (?r\<lparr>lr_resistance_mohm := lv_resistance_mohm v,
      lr_natural_empty_valid := lv_natural_empty_valid v\<rparr>)"
    using False assms(2) by (simp add: record_parts history_valid_def record_frames well_shaped_def)
  have "learning_ok p (?st1\<lparr>lt_persisted := ?r\<lparr>lr_resistance_mohm := lv_resistance_mohm v,
      lr_natural_empty_valid := lv_natural_empty_valid v\<rparr>, lt_resistance_persisted_mohm := lv_resistance_mohm v\<rparr>)"
    by (rule learning_ok_same [OF st1]) (simp_all add: r)
  then show ?thesis
    using False by (simp add: battery_learning_provision_def Let_def refresh_ok)
qed

lemma anchored_shape: "well_shaped (soc_set_anchor c d rem s f m prov conf r) = well_shaped r"
  by (simp add: well_shaped_def soc_set_anchor_def Let_def)

lemma sampled_shape: "well_shaped (add_capacity_sample c r) = well_shaped r"
  by (simp add: well_shaped_def add_capacity_sample_def Let_def)

lemma recover_cycle_ok:
  assumes ok: "learning_ok p st"
  shows "learning_ok p (fst (battery_learning_recover_capacity_cycle (Some p) c k st))"
proof -
  have "learning_ok p (st\<lparr>lt_persisted := r\<rparr>)" if "battery_learning_persisted_valid r (Some p)" "well_shaped r" for r
    by (rule learning_ok_same [OF ok]) (simp_all add: that record_ok_def)
  moreover have "well_shaped (rebase_ledger p b o' d (add_capacity_sample c (lt_persisted st)))" for b o' d
    using ok by (simp add: learning_ok_def record_parts rebase_ledger_def Let_def anchor_full_def
        anchor_empty_def anchored_shape sampled_shape)
  ultimately show ?thesis
    using ok by (simp add: battery_learning_recover_capacity_cycle_def Let_def refresh_ok)
qed

lemma recover_full_ok:
  assumes ok: "learning_ok p st"
  shows "learning_ok p (fst (battery_learning_recover_full_endpoint (Some p) ob a d k st))"
proof -
  let ?r1 = "set_full_anchor True a d ob (lt_persisted st)"
  let ?r2 = "anchor_full (capacity_estimate_mah ?r1 p) d (lp_charge_factor_permille p) ?r1"
  have r1: "record_ok p ?r1"
    by (intro marks_ok(5) learning_ok_record ok)
  then have h: "history_valid ?r1 p" "well_shaped ?r1"
    by (simp_all add: record_parts)
  have r2: "record_ok p ?r2"
    using r1 estimate_in_range [OF h] factor by (intro anchor_full_ok)
  have "learning_ok p ((latest_observation ob st)\<lparr>lt_persisted := ?r2, lt_previous_resistance_sample_valid := False\<rparr>)"
    by (rule learning_ok_same [OF ok]) (simp_all add: latest_observation_def r2)
  then show ?thesis
    using ok by (simp add: battery_learning_recover_full_endpoint_def Let_def refresh_ok)
qed

end

section \<open>The learner with the NiMH profile\<close>

interpretation nimh: learning_laws NIMH_PROFILE
  by unfold_locales (simp_all add: NIMH_PROFILE_def)

text \<open>Every state the learner can be in: it is started with or without a stored record, fed with
  observations, provisioned and repaired.  Records, provisions and measurements are values of their C types.\<close>

inductive learner :: "learning_state \<Rightarrow> bool" where
  started: "(\<And>r. stored = Some r \<Longrightarrow> typed_record r) \<Longrightarrow> learner (battery_learning_init None stored)"
| observed: "learner st \<Longrightarrow> sane_observation ob \<Longrightarrow> learner (fst (battery_learning_update None ob events st))"
| provisioned: "learner st \<Longrightarrow> length (lv_resistance_mohm v) = 3 \<Longrightarrow>
    learner (fst (battery_learning_provision None v st))"
| cycle_recovered: "learner st \<Longrightarrow> learner (fst (battery_learning_recover_capacity_cycle None mah expected st))"
| endpoint_recovered: "learner st \<Longrightarrow> sane_observation ob \<Longrightarrow> session_delta \<in> {INT64_MIN..INT64_MAX} \<Longrightarrow>
    learner (fst (battery_learning_recover_full_endpoint None ob acr_raw session_delta expected st))"

lemma default_profile:
  "battery_learning_init None = battery_learning_init (Some NIMH_PROFILE)"
  "battery_learning_update None = battery_learning_update (Some NIMH_PROFILE)"
  "battery_learning_provision None = battery_learning_provision (Some NIMH_PROFILE)"
  "battery_learning_recover_capacity_cycle None = battery_learning_recover_capacity_cycle (Some NIMH_PROFILE)"
  "battery_learning_recover_full_endpoint None = battery_learning_recover_full_endpoint (Some NIMH_PROFILE)"
  "battery_learning_persisted_valid r None = battery_learning_persisted_valid r (Some NIMH_PROFILE)"
  "battery_learning_persisted_defaults None = battery_learning_persisted_defaults (Some NIMH_PROFILE)"
  by (simp_all add: battery_learning_init_def battery_learning_update_def battery_learning_provision_def
      battery_learning_recover_capacity_cycle_def battery_learning_recover_full_endpoint_def
      battery_learning_persisted_valid_def battery_learning_persisted_defaults_def fun_eq_iff)

lemma learner_ok: "learner st \<Longrightarrow> learning_ok NIMH_PROFILE st"
  by (induction rule: learner.induct)
    (simp_all add: default_profile nimh.learner_init_ok nimh.learner_update_ok nimh.provision_ok nimh.recover_cycle_ok
      nimh.recover_full_ok typed_shape)

end
