(* ===== verification/Learning_Ledger.thy ===== *)
theory Learning_Ledger
  imports Learning_Invariant
begin

text \<open>
  What the learner publishes and accepts: the coulomb ledger equals the exact charge balance clamped
  to the capacity, the published state of charge stays in its range, and a capacity cycle is accepted
  only on complete evidence.
\<close>

section \<open>The projection\<close>

text \<open>The balance without machine arithmetic: charge counts by the reciprocal of the charge factor,
  discharge in full, and the result is clamped to the capacity.\<close>

definition clamp :: "int \<Rightarrow> int \<Rightarrow> int" where
  "clamp cap v = max 0 (min cap v)"

definition exact_remaining :: "learning_persisted \<Rightarrow> int \<Rightarrow> int" where
  "exact_remaining r session_delta =
     (let delta = session_delta - lr_soc_anchor_session_delta_nah r;
          counted = (if lr_soc_charge_segment r \<and> 0 < delta
            then delta * 1000 div uint (lr_soc_charge_factor_permille r) else delta)
      in clamp (rated_nah (lr_soc_capacity_mah r)) (lr_soc_anchor_remaining_nah r + counted))"

lemma scaled_exact:
  fixes x f :: u64
  assumes "uint x < 2 ^ 63" "1000 \<le> uint f" "uint f \<le> 2000"
  shows "uint (x div f * 1000 + x mod f * 1000 div f) = uint x * 1000 div uint f"
    and "uint x * 1000 div uint f \<le> uint x"
proof -
  let ?x = "uint x" and ?f = "uint f"
  have f: "0 < ?f" and x: "0 \<le> ?x"
    using assms by simp_all
  have split: "?x * 1000 div ?f = ?x div ?f * 1000 + ?x mod ?f * 1000 div ?f"
  proof -
    have "?x = ?x div ?f * ?f + ?x mod ?f"
      by simp
    then have "?x * 1000 = ?x mod ?f * 1000 + (?x div ?f * 1000) * ?f"
      by algebra
    then show ?thesis
      using f by simp
  qed
  have le: "?x * 1000 div ?f \<le> ?x * 1000 div 1000"
    using f x assms(2) by (intro zdiv_mono2) simp_all
  then show "?x * 1000 div ?f \<le> ?x"
    by simp
  have q: "uint (x div f) = ?x div ?f" "uint (x mod f) = ?x mod ?f"
    by (simp_all add: uint_div uint_mod)
  have m: "0 \<le> ?x mod ?f" "?x mod ?f < 2000" "0 \<le> ?x div ?f"
    using f x order_less_le_trans [OF pos_mod_bound [OF f, of ?x] assms(3)]
    by (simp_all add: pos_imp_zdiv_nonneg_iff)
  have b: "?x div ?f * 1000 \<le> ?x"
  proof -
    have "?x div ?f * 1000 \<le> ?x div ?f * ?f"
      using m(3) assms(2) by (intro mult_left_mono)
    also have "\<dots> \<le> ?x"
      using m(1) by (simp add: minus_mod_eq_div_mult [symmetric])
    finally show ?thesis .
  qed
  have d: "0 \<le> ?x mod ?f * 1000 div ?f" "?x mod ?f * 1000 div ?f \<le> 2000000"
  proof -
    show "0 \<le> ?x mod ?f * 1000 div ?f"
      using m f by (simp add: pos_imp_zdiv_nonneg_iff)
    have "?x mod ?f * 1000 div ?f \<le> ?x mod ?f * 1000 div 1"
      using m assms(2) by (intro zdiv_mono2) simp_all
    then show "?x mod ?f * 1000 div ?f \<le> 2000000"
      using m by simp
  qed
  have "uint (x div f * 1000) = ?x div ?f * 1000"
    using b assms(1) m(3) by (simp add: uint_word_ariths q)
  moreover have "uint (x mod f * 1000 div f) = ?x mod ?f * 1000 div ?f"
    using m by (simp add: uint_div uint_word_ariths q)
  ultimately show "uint (x div f * 1000 + x mod f * 1000 div f) = ?x * 1000 div ?f"
    using b d assms(1) m(3) by (simp add: uint_word_ariths split)
qed

lemma clamp_same: "a \<le> 0 \<and> b \<le> 0 \<or> cap \<le> a \<and> cap \<le> b \<or> a = b \<Longrightarrow> clamp cap a = clamp cap b"
  by (auto simp add: clamp_def)

lemma rated_nah_small: "rated_nah m \<le> 65535000000"
  using uint_lt2p [of m] by (simp add: rated_nah_def)

text \<open>C31: the projection of the ledger is exact: although every sum saturates and the charge factor is
  applied by a quotient and a remainder, the remaining charge is the clamped balance for all 64-bit
  positions of the counter.\<close>

theorem projection_is_exact:
  assumes valid: "battery_learning_persisted_valid r None" "lr_soc_valid r"
    and range: "session_delta \<in> {INT64_MIN..INT64_MAX}" "lr_soc_anchor_session_delta_nah r \<in> {INT64_MIN..INT64_MAX}"
  shows "soc_project_remaining_nah r session_delta = exact_remaining r session_delta"
proof -
  define a where "a = lr_soc_anchor_remaining_nah r"
  define cap where "cap = rated_nah (lr_soc_capacity_mah r)"
  define f where "f = (ucast (lr_soc_charge_factor_permille r) :: u64)"
  define delta where "delta = session_delta - lr_soc_anchor_session_delta_nah r"
  define sat where "sat = saturating_sub_i64 session_delta (lr_soc_anchor_session_delta_nah r)"
  have a: "0 \<le> a" "a \<le> cap" "cap \<le> 65535000000" "0 \<le> cap"
    using valid rated_nah_small
    by (simp_all add: battery_learning_persisted_valid_def ledger_valid_def a_def cap_def rated_nah_bounds)
  have f: "uint f = uint (lr_soc_charge_factor_permille r)" "1000 \<le> uint f" "uint f \<le> 2000"
    using valid by (simp_all add: battery_learning_persisted_valid_def ledger_valid_def f_def word_le_def
        unsigned_ucast_eq take_bit_eq_mod)
  have sat: "sat = max INT64_MIN (min INT64_MAX delta)"
    using range by (auto simp add: sat_def saturating_sub_i64_def delta_def max_def min_def)
  have add: "clamp cap (saturating_add_i64 a d) = clamp cap (a + d)" if "INT64_MIN \<le> d" "d \<le> INT64_MAX" for d
    using that a by (intro clamp_same) (simp add: saturating_add_i64_def)
  show ?thesis
  proof (cases "lr_soc_charge_segment r \<and> 0 < delta")
    case False
    then consider "\<not> lr_soc_charge_segment r" | "\<not> 0 < sat"
      by (auto simp add: sat max_def min_def split: if_splits)
    then have "soc_project_remaining_nah r session_delta = clamp cap (saturating_add_i64 a sat)"
      using valid a by cases (simp_all add: soc_project_remaining_nah_def Let_def sat_def [symmetric]
          a_def [symmetric] cap_def [symmetric] clamp_def)
    also have "\<dots> = clamp cap (a + delta)"
      using a by (subst add) (auto simp add: sat intro!: clamp_same)
    finally show ?thesis
      using False by (auto simp add: exact_remaining_def Let_def delta_def [symmetric] a_def cap_def)
  next
    case True
    define x where "x = (of_int sat :: u64)"
    have s: "0 < sat" "sat \<le> INT64_MAX"
      using True by (simp_all add: sat)
    then have x: "uint x = sat"
      by (simp add: x_def uint_word_of_int)
    note e = scaled_exact [of x f, unfolded x, OF _ f(2,3)]
    have counted: "uint (x div f * 1000 + x mod f * 1000 div f) = sat * 1000 div uint f"
      "sat * 1000 div uint f \<le> sat" "0 \<le> sat * 1000 div uint f"
      using e s f by (simp_all add: pos_imp_zdiv_nonneg_iff)
    have nz: "f \<noteq> 0"
      using f by auto
    have small: "\<not> of_int INT64_MAX < x div f * 1000 + x mod f * 1000 div f"
      using counted s by (simp add: word_less_def)
    have "soc_project_remaining_nah r session_delta = clamp cap (saturating_add_i64 a (sat * 1000 div uint f))"
      using valid a True s nz small counted(1)
      by (simp add: soc_project_remaining_nah_def Let_def sat_def [symmetric] a_def [symmetric]
          cap_def [symmetric] f_def [symmetric] x_def [symmetric] clamp_def)
    also have "\<dots> = clamp cap (a + sat * 1000 div uint f)"
      using counted s by (intro add) simp_all
    also have "\<dots> = clamp cap (a + delta * 1000 div uint f)"
    proof (cases "delta \<le> INT64_MAX")
      case False
      then have "sat = INT64_MAX" "sat \<le> delta"
        by (simp_all add: sat)
      moreover have "INT64_MAX * 1000 div 2000 \<le> INT64_MAX * 1000 div uint f"
        using f by (intro zdiv_mono2) simp_all
      moreover have "sat * 1000 div uint f \<le> delta * 1000 div uint f"
        using calculation(2) f by (intro zdiv_mono1) simp_all
      ultimately show ?thesis
        using a by (intro clamp_same) simp
    qed (use True in \<open>simp add: sat\<close>)
    finally show ?thesis
      using True f by (simp add: exact_remaining_def Let_def delta_def [symmetric] a_def cap_def)
  qed
qed

section \<open>The published state of charge\<close>

lemma snapshot_frames:
  "snapshot_soc (st\<lparr>lt_snapshot := x\<rparr>) sn = snapshot_soc st sn"
  "snapshot_discharge (st\<lparr>lt_snapshot := x\<rparr>) p sn = snapshot_discharge st p sn"
  "snapshot_copied (st\<lparr>lt_snapshot := x\<rparr>) p = snapshot_copied st p"
  by (cases st; simp only: snapshot_soc_def snapshot_discharge_def snapshot_copied_def learning_state.simps)+

lemma refresh_again: "lt_snapshot (refresh_snapshot p (refresh_snapshot p st)) = lt_snapshot (refresh_snapshot p st)"
  by (simp add: refresh_snapshot_def snapshot_frames)

lemma learner_snapshot:
  "learner st \<Longrightarrow> lt_snapshot st = lt_snapshot (refresh_snapshot NIMH_PROFILE st)"
  by (induction rule: learner.induct)
    (simp_all add: refresh_again battery_learning_init_def battery_learning_update_def
      battery_learning_provision_def battery_learning_recover_capacity_cycle_def
      battery_learning_recover_full_endpoint_def Let_def case_prod_beta)

lemma u64_of_int: "0 \<le> x \<Longrightarrow> x < 2 ^ 64 \<Longrightarrow> uint (of_int x :: u64) = x"
  by (simp add: uint_word_of_int)

lemma percent_exact:
  assumes "0 \<le> rem" "rem \<le> cap" "0 < cap" "cap \<le> 65535000000"
  shows "uint (ucast (((of_int rem :: u64) * 100 + of_int cap div 2) div of_int cap) :: u8) = (rem * 100 + cap div 2) div cap"
    and "(rem * 100 + cap div 2) div cap \<le> 100"
proof -
  have "(rem * 100 + cap div 2) div cap \<le> (100 * cap + cap div 2) div cap"
    using assms by (intro zdiv_mono1) simp_all
  also have "\<dots> = 100"
    using assms by simp
  finally show le: "(rem * 100 + cap div 2) div cap \<le> 100" .
  have "uint ((of_int rem :: u64) * 100 + of_int cap div 2) = rem * 100 + cap div 2"
    using assms by (simp add: uint_word_ariths uint_div u64_of_int)
  then have "uint (((of_int rem :: u64) * 100 + of_int cap div 2) div of_int cap) = (rem * 100 + cap div 2) div cap"
    using assms by (simp add: uint_div u64_of_int)
  moreover have "0 \<le> (rem * 100 + cap div 2) div cap"
    using assms by (simp add: pos_imp_zdiv_nonneg_iff)
  ultimately show "uint (ucast (((of_int rem :: u64) * 100 + of_int cap div 2) div of_int cap) :: u8) = (rem * 100 + cap div 2) div cap"
    using le by (simp add: unsigned_ucast_eq take_bit_eq_mod)
qed

lemma bars_exact:
  assumes "0 \<le> rem" "rem \<le> cap" "0 < cap" "cap \<le> 65535000000"
  shows "uint (soc_bars rem cap) = (rem * 4 + cap - 1) div cap"
    and "(rem * 4 + cap - 1) div cap \<le> 4" and "(rem * 4 + cap - 1) div cap = 0 \<longleftrightarrow> rem = 0"
proof -
  let ?b = "(rem * 4 + cap - 1) div cap"
  have "?b \<le> (cap - 1 + 4 * cap) div cap"
    using assms by (intro zdiv_mono1) simp_all
  also have "\<dots> = 4 + (cap - 1) div cap"
    using assms by (intro div_mult_self1) simp
  also have "\<dots> = 4"
    using assms by (simp add: div_pos_pos_trivial)
  finally show le: "?b \<le> 4" .
  show zero: "?b = 0 \<longleftrightarrow> rem = 0"
    using assms by (auto simp add: div_pos_pos_trivial zdiv_eq_0_iff)
  have "uint ((of_int rem :: u64) * 4 + of_int cap - 1) = rem * 4 + cap - 1"
    using assms by (simp add: uint_word_ariths u64_of_int)
  then have w: "uint (((of_int rem :: u64) * 4 + of_int cap - 1) div of_int cap) = ?b"
    using assms by (simp add: uint_div u64_of_int)
  have "0 \<le> ?b"
    using assms by (simp add: pos_imp_zdiv_nonneg_iff)
  then show "uint (soc_bars rem cap) = ?b"
    using le zero w assms(3)
    by (simp add: soc_bars_def Let_def word_less_def unsigned_ucast_eq take_bit_eq_mod div_pos_pos_trivial)
qed

text \<open>C34: what the handset shows of the charge is the ledger: whenever the remaining capacity is
  published it is the projection, at most the capacity, the percentage is its rounded share and at
  most 100, and the bars are its quarters rounded up, zero exactly when nothing is left.\<close>

theorem published_charge_exact:
  assumes "learner st" "sn_remaining_capacity_valid (lt_snapshot st)"
  shows "let sn = lt_snapshot st; r = lt_persisted st; cap = rated_nah (lr_soc_capacity_mah r);
      left = soc_project_remaining_nah r (lt_latest_session_delta_nah st)
    in uint (sn_remaining_capacity_nah sn) = left \<and> 0 \<le> left \<and> left \<le> cap \<and>
       uint (sn_state_of_charge_percent sn) = (left * 100 + cap div 2) div cap \<and>
       sn_state_of_charge_percent sn \<le> 100 \<and>
       (sn_soc_bars_valid sn \<longrightarrow>
          uint (sn_soc_bars sn) = (left * 4 + cap - 1) div cap \<and> sn_soc_bars sn \<le> 4 \<and>
          (sn_soc_bars sn = 0 \<longleftrightarrow> left = 0))"
proof -
  define r where "r = lt_persisted st"
  define cap where "cap = rated_nah (lr_soc_capacity_mah r)"
  define left where "left = soc_project_remaining_nah r (lt_latest_session_delta_nah st)"
  define sn0 where "sn0 = snapshot_discharge st NIMH_PROFILE (snapshot_copied st NIMH_PROFILE)"
  have sn: "lt_snapshot st = snapshot_soc st sn0"
    using learner_snapshot [OF assms(1)] by (simp add: refresh_snapshot_def sn0_def)
  have sn0: "\<not> sn_remaining_capacity_valid sn0" "\<not> sn_soc_bars_valid sn0"
    by (simp_all add: sn0_def snapshot_discharge_def snapshot_copied_def learning_snapshot_zero_def Let_def)
  then have valid: "lr_soc_valid r" "lt_latest_observation_valid st"
    using assms(2) by (auto simp add: sn snapshot_soc_def Let_def r_def split: if_splits)
  have "ledger_valid r NIMH_PROFILE"
    using learner_ok [OF assms(1)] by (simp add: learning_ok_def record_parts r_def)
  then have l: "0 \<le> lr_soc_anchor_remaining_nah r" "lr_soc_anchor_remaining_nah r \<le> cap"
    "300 \<le> uint (lr_soc_capacity_mah r)"
    using valid by (simp_all add: ledger_valid_def cap_def NIMH_PROFILE_def word_le_def)
  then have b: "0 \<le> left" "left \<le> cap" "0 < cap" "cap \<le> 65535000000"
    using project_bounds [of r] rated_nah_small by (simp_all add: left_def cap_def rated_nah_def)
  note pe = percent_exact [OF b] and be = bars_exact [OF b]
  have f: "sn_remaining_capacity_nah (lt_snapshot st) = of_int left"
    "sn_state_of_charge_percent (lt_snapshot st) = ucast (((of_int left :: u64) * 100 + of_int cap div 2) div of_int cap)"
    "sn_soc_bars_valid (lt_snapshot st) \<Longrightarrow> sn_soc_bars (lt_snapshot st) = soc_bars left cap"
    unfolding sn snapshot_soc_def Let_def r_def [symmetric] left_def [symmetric] cap_def [symmetric]
    using valid b(3) sn0(2) by (simp_all split: if_splits)
  show ?thesis
    using b pe be unfolding Let_def r_def [symmetric] cap_def [symmetric] left_def [symmetric]
    by (simp add: f u64_of_int word_le_def word_uint_eq_iff)
qed

section \<open>Capacity cycles\<close>

text \<open>What an update leaves of the anchor's evidence: nothing but the event handlers can make it better.\<close>

definition anchor_kept :: "learning_persisted \<Rightarrow> learning_persisted \<Rightarrow> bool" where
  "anchor_kept r r' \<longleftrightarrow>
     (lr_full_anchor_valid r' \<longrightarrow> lr_full_anchor_valid r) \<and>
     (lr_capacity_cycle_qualified r' \<longrightarrow> lr_capacity_cycle_qualified r) \<and>
     lr_full_anchor_nah r' = lr_full_anchor_nah r \<and>
     lr_accepted_capacity_cycles r' = lr_accepted_capacity_cycles r"

lemma anchor_kept_refl: "anchor_kept r r"
  by (simp add: anchor_kept_def)

lemma anchor_kept_trans: "anchor_kept r r' \<Longrightarrow> anchor_kept r' r'' \<Longrightarrow> anchor_kept r r''"
  by (simp add: anchor_kept_def)

lemma step_anchor: "anchor_kept (lt_persisted st) (lt_persisted (fst (observe_resistance_step p ob st)))"
proof -
  have w: "anchor_kept (lt_persisted st) (lt_persisted (fst (window_add p b m st)))" for b m
    by (simp add: window_add_def Let_def anchor_kept_def)
  define step where "step = (if resistance_eligible p ob \<and> lt_previous_resistance_sample_valid st
    then (case step_resistance st p ob of None \<Rightarrow> (st, 0)
      | Some mohm \<Rightarrow> window_add p (bin_index (resistance_bin_for_mv
          (midpoint_mv (lt_previous_terminal_mv st) (lo_terminal_mv ob)))) mohm st) else (st, 0))"
  have "anchor_kept (lt_persisted st) (lt_persisted (fst step))"
    by (auto simp add: step_def w anchor_kept_refl split: option.splits)
  then show ?thesis
    unfolding observe_resistance_step_def Let_def step_def [symmetric] by (cases step) simp
qed

lemma sample_anchor: "anchor_kept (lt_persisted st) (lt_persisted (fst (update_sample p ob st)))"
proof -
  define r where "r = fst (track_full_anchor p ob (fst (drop_natural_empty ob (lt_persisted st))))"
  define st1 where "st1 = st\<lparr>lt_sample_seen := True, lt_last_sample_sequence := lo_sample_sequence ob\<rparr>"
  have "anchor_kept (lt_persisted st) (fst (drop_natural_empty ob (lt_persisted st)))"
    by (simp add: drop_natural_empty_def anchor_kept_def)
  moreover have "anchor_kept q (fst (track_full_anchor p ob q))" for q
    by (simp add: track_full_anchor_def Let_def anchor_kept_def)
  ultimately have "anchor_kept (lt_persisted st) r"
    unfolding r_def by (rule anchor_kept_trans)
  then have k: "anchor_kept (lt_persisted st) (lt_persisted (if coulomb_evidence ob
      then (latest_observation ob st1)\<lparr>lt_persisted := r\<rparr> else st1))"
    by (simp add: st1_def anchor_kept_refl)
  show ?thesis
    using anchor_kept_trans [OF k step_anchor [of _ p ob]]
    unfolding update_sample_def Let_def st1_def [symmetric] r_def
    by (cases "coulomb_evidence ob") (simp_all add: case_prod_beta)
qed

lemma gap_anchor: "anchor_kept (lt_persisted st) (lt_persisted (fst (update_evidence_gap ob st)))"
  by (simp add: update_evidence_gap_def Let_def anchor_kept_def)

lemma session_anchor:
  "lr_full_anchor_valid (lt_persisted (fst (update_session ob st))) \<Longrightarrow>
   fst (update_session ob st) = st\<lparr>lt_session_seen := True, lt_last_gauge_session := lo_gauge_session ob\<rparr> \<and>
   (lt_session_seen st \<longrightarrow> lt_last_gauge_session st = lo_gauge_session ob) \<and>
   (\<not> lt_session_seen st \<longrightarrow> lo_gauge_session ob = 0)"
  by (cases st) (auto simp add: update_session_def Let_def clear_pack_learning_def learning_persisted_zero_def
      split: if_splits)

text \<open>Only the EMPTY handler reports an accepted cycle.\<close>

lemma or_and_dist: "((a :: u32) OR b) AND c = (a AND c) OR (b AND c)"
  by (simp add: bit.conj_disj_distrib2)

lemma no_accept_bit:
  "snd (update_session ob st) AND LEARNING_RESULT_CAPACITY_ACCEPTED = 0"
  "snd (update_evidence_gap ob st) AND LEARNING_RESULT_CAPACITY_ACCEPTED = 0"
  "snd (update_full_event p ob st) AND LEARNING_RESULT_CAPACITY_ACCEPTED = 0"
  by (simp_all add: update_session_def update_evidence_gap_def update_full_event_def Let_def)

lemma no_accept_sample: "snd (update_sample p ob st) AND LEARNING_RESULT_CAPACITY_ACCEPTED = 0"
proof -
  have w: "snd (window_add p b m st') AND LEARNING_RESULT_CAPACITY_ACCEPTED = 0" for b m st'
    by (simp add: window_add_def Let_def when_bit_def)
  have s: "snd (observe_resistance_step p ob st') AND LEARNING_RESULT_CAPACITY_ACCEPTED = 0" for st'
    using w by (auto simp add: observe_resistance_step_def Let_def case_prod_beta split: option.splits)
  have "snd (track_full_anchor p ob r) AND LEARNING_RESULT_CAPACITY_ACCEPTED = 0" for r
    by (simp add: track_full_anchor_def Let_def when_bit_def)
  moreover have "snd (drop_natural_empty ob r) AND LEARNING_RESULT_CAPACITY_ACCEPTED = 0" for r
    by (simp add: drop_natural_empty_def)
  ultimately show ?thesis
    using s by (simp add: update_sample_def Let_def case_prod_beta or_and_dist)
qed

lemma no_accept_ledger:
  "snd (update_soc_ledger p ob d e f g st) AND LEARNING_RESULT_CAPACITY_ACCEPTED = 0"
proof -
  have "snd (ledger_adopt p ob e r) AND LEARNING_RESULT_CAPACITY_ACCEPTED = 0"
    "snd (ledger_segment p ob r) AND LEARNING_RESULT_CAPACITY_ACCEPTED = 0"
    "snd (ledger_bootstrap p ob d c st') AND LEARNING_RESULT_CAPACITY_ACCEPTED = 0" for r c st'
    by (simp_all add: ledger_adopt_def ledger_segment_def ledger_bootstrap_def Let_def)
  then show ?thesis
    by (simp add: update_soc_ledger_def Let_def case_prod_beta or_and_dist)
qed

lemma ledger_history:
  "lr_last_capacity_mah (lt_persisted (fst (update_soc_ledger p ob d e f g st))) = lr_last_capacity_mah (lt_persisted st) \<and>
   lr_accepted_capacity_cycles (lt_persisted (fst (update_soc_ledger p ob d e f g st))) =
     lr_accepted_capacity_cycles (lt_persisted st) \<and>
   lr_full_anchor_valid (lt_persisted (fst (update_soc_ledger p ob d e f g st))) = lr_full_anchor_valid (lt_persisted st)"
  by (simp add: update_soc_ledger_def Let_def case_prod_beta clear_bootstrap_def soc_clear_def anchor_full_def
      anchor_empty_def soc_set_anchor_def ledger_adopt_def ledger_segment_def ledger_bootstrap_def)

lemma sample_fields:
  "lr_last_capacity_mah (add_capacity_sample c r) = c"
  "lr_accepted_capacity_cycles (add_capacity_sample c r) =
     saturating_increment_u16 (lr_accepted_capacity_cycles r)"
  by (simp_all add: add_capacity_sample_def)

lemma rounded_exact:
  assumes "0 < d" "d < 2 ^ 64"
  shows "uint (learning_rounded_mah (of_int d)) = (d + 500000) div 1000000"
proof -
  have u: "uint (of_int d :: u64) = d"
    using assms by (simp add: u64_of_int)
  have "(d + 500000) div 1000000 = d div 1000000 + (if 500000 \<le> d mod 1000000 then 1 else 0)"
  proof -
    define q r where "q = d div 1000000" and "r = d mod 1000000"
    have r: "0 \<le> r" "r < 1000000" and d: "d = r + q * 1000000"
      by (simp_all add: q_def r_def)
    have "(d + 500000) div 1000000 = (r + 500000 + q * 1000000) div 1000000"
      by (simp add: d)
    also have "\<dots> = q + (r + 500000) div 1000000"
      by (rule div_mult_self1) simp
    also have "(r + 500000) div 1000000 = (if 500000 \<le> r then 1 else 0)"
    proof (cases "500000 \<le> r")
      case True
      have "(r - 500000 + 1 * 1000000) div 1000000 = 1 + (r - 500000) div 1000000"
        by (rule div_mult_self1) simp
      then show ?thesis
        using True r by (simp add: div_pos_pos_trivial)
    qed (use r in \<open>simp add: div_pos_pos_trivial\<close>)
    finally show ?thesis
      by (simp add: q_def r_def)
  qed
  moreover have "d div 1000000 < 2 ^ 64 - 1" "0 \<le> d div 1000000"
    using assms by (simp_all add: pos_imp_zdiv_nonneg_iff)
  ultimately show ?thesis
    using u by (simp add: learning_rounded_mah_def uint_word_ariths uint_div uint_mod word_le_def)
qed

lemma update_stages:
  assumes "lo_authoritative ob"
  obtains st1 res1 st2 res2 st3 res3 st4 res4 st5 res5 st6 res6 d e f g where
    "update_session ob st = (st1, res1)" "update_evidence_gap ob st1 = (st2, res2)"
    "(if d then update_sample NIMH_PROFILE ob st2 else (st2, 0)) = (st3, res3)"
    "f = (events AND 3 \<noteq> 3 \<and> events AND 1 \<noteq> 0 \<and> coulomb_evidence ob \<and> lo_charger_connected ob)"
    "(if f then update_full_event NIMH_PROFILE ob st3 else (st3, 0)) = (st4, res4)"
    "g = (events AND 3 \<noteq> 3 \<and> events AND 2 \<noteq> 0 \<and> coulomb_evidence ob)"
    "(if g then update_empty_event NIMH_PROFILE ob st4 else (st4, 0)) = (st5, res5)"
    "update_soc_ledger NIMH_PROFILE ob d e f g st5 = (st6, res6)"
    "lt_persisted (fst (battery_learning_update None ob events st)) = lt_persisted st6"
    "snd (battery_learning_update None ob events st) = res1 OR res2 OR res3 OR res4 OR res5 OR res6"
proof -
  define both where "both = LEARNING_EVENT_FULL OR LEARNING_EVENT_EMPTY"
  have b: "both = 3"
    by (simp add: both_def)
  obtain st1 res1 where u1: "update_session ob st = (st1, res1)"
    by fastforce
  define e where "e = lr_natural_empty_valid (lt_persisted st1)"
  define d where "d = (\<not> lt_sample_seen st1 \<or> lt_last_sample_sequence st1 \<noteq> lo_sample_sequence ob)"
  obtain st2 res2 where u2: "update_evidence_gap ob st1 = (st2, res2)"
    by fastforce
  obtain st3 res3 where u3: "(if d then update_sample NIMH_PROFILE ob st2 else (st2, 0)) = (st3, res3)"
    by fastforce
  define f where "f = (\<not> events AND both = both \<and> events AND LEARNING_EVENT_FULL \<noteq> 0 \<and> coulomb_evidence ob \<and>
    lo_charger_connected ob)"
  obtain st4 res4 where u4: "(if f then update_full_event NIMH_PROFILE ob st3 else (st3, 0)) = (st4, res4)"
    by fastforce
  define g where "g = (\<not> events AND both = both \<and> events AND LEARNING_EVENT_EMPTY \<noteq> 0 \<and> coulomb_evidence ob)"
  obtain st5 res5 where u5: "(if g then update_empty_event NIMH_PROFILE ob st4 else (st4, 0)) = (st5, res5)"
    by fastforce
  obtain st6 res6 where u6: "update_soc_ledger NIMH_PROFILE ob d e f g st5 = (st6, res6)"
    by fastforce
  define result where "result = res1 OR res2 OR res3 OR res4 OR res5 OR res6"
  have up: "battery_learning_update None ob events st = (refresh_snapshot NIMH_PROFILE
      (if result AND LEARNING_RESULT_PERSIST \<noteq> 0 then remember_persisted st6 else st6), result)"
    unfolding battery_learning_update_def Let_def learning_profile_or_simps u1 prod.case result_def
      d_def [symmetric] e_def [symmetric] u2 u3 both_def [symmetric] f_def [symmetric] u4 g_def [symmetric] u5 u6
    by (simp only: assms not_True_eq_False if_False)
  show ?thesis
    by (rule that [OF u1 u2 u3 _ u4 _ u5 u6])
      (simp_all add: up f_def g_def b result_def refresh_snapshot_def remember_persisted_def)
qed

lemma empty_alone:
  fixes events :: u32
  assumes "events AND 3 \<noteq> 3" "events AND 2 \<noteq> 0"
  shows "events AND 1 = 0" "events AND 3 = 2"
proof -
  define w where "w = events AND 3"
  have sub: "events AND 1 = w AND 1" "events AND 2 = w AND 2"
    by (simp_all add: w_def and.assoc)
  have "unat w \<le> 3"
    using word_and_le1 [of events 3] by (simp add: w_def word_le_nat_alt)
  then have "unat w = 0 \<or> unat w = 1 \<or> unat w = 2 \<or> unat w = 3"
    by auto
  then have "w = 0 \<or> w = 1 \<or> w = 2 \<or> w = 3"
    using word_unat_eq_iff [of w 0] word_unat_eq_iff [of w 1] word_unat_eq_iff [of w 2]
      word_unat_eq_iff [of w 3] by auto
  moreover have "w \<noteq> 3" "w AND 2 \<noteq> 0"
    using assms sub by (simp_all add: w_def)
  ultimately have "w = 2"
    by auto
  then show "events AND 1 = 0" "events AND 3 = 2"
    using sub by (simp_all add: w_def)
qed

text \<open>The measured discharge is rounded to the nearest milliampere-hour and lies in the limits.\<close>

lemma measured_exact:
  assumes mah: "measured_cycle_mah NIMH_PROFILE ob r = Some mah"
    and typed: "lr_full_anchor_nah r \<in> {INT64_MIN..INT64_MAX}" "lo_session_delta_nah ob \<in> {INT64_MIN..INT64_MAX}"
  shows "lr_full_anchor_valid r \<and> lr_capacity_cycle_qualified r \<and> lo_session_delta_nah ob < lr_full_anchor_nah r \<and>
    uint mah = (lr_full_anchor_nah r - lo_session_delta_nah ob + 500000) div 1000000 \<and>
    300 \<le> uint mah \<and> uint mah \<le> 2000"
proof -
  define discharged where "discharged = lr_full_anchor_nah r - lo_session_delta_nah ob"
  have m: "0 < discharged" "mah = ucast (learning_rounded_mah (of_int discharged))"
    "(300 :: u64) \<le> learning_rounded_mah (of_int discharged)" "learning_rounded_mah (of_int discharged) \<le> (2000 :: u64)"
    using mah by (auto simp add: measured_cycle_mah_def positive_difference_i64_def discharged_def Let_def
        NIMH_PROFILE_def split: if_splits)
  have "discharged < 2 ^ 64"
    using typed by (simp add: discharged_def)
  then have u: "uint (learning_rounded_mah (of_int discharged)) = (discharged + 500000) div 1000000"
    by (rule rounded_exact [OF m(1)])
  then have "300 \<le> (discharged + 500000) div 1000000" "(discharged + 500000) div 1000000 \<le> 2000"
    using m(3,4) by (simp_all add: word_le_def)
  then have "uint mah = (discharged + 500000) div 1000000 \<and> 300 \<le> uint mah \<and> uint mah \<le> 2000"
    by (simp add: m(2) unsigned_ucast_eq take_bit_eq_mod u)
  then show ?thesis
    using mah m(1) by (auto simp add: measured_cycle_mah_def discharged_def Let_def split: if_splits)
qed

text \<open>The anchor an accepted cycle was measured from is the one the update found.\<close>

lemma anchor_found:
  assumes "update_session ob st = (st1, res1)" "update_evidence_gap ob st1 = (st2, res2)"
    and "(if d then update_sample p ob st2 else (st2, 0)) = (st3, res3)" "lr_full_anchor_valid (lt_persisted st3)"
    and "lr_capacity_cycle_qualified (lt_persisted st3)"
  shows "(if lt_session_seen st then lt_last_gauge_session st = lo_gauge_session ob else lo_gauge_session ob = 0) \<and>
    lr_full_anchor_valid (lt_persisted st) \<and> lr_capacity_cycle_qualified (lt_persisted st) \<and>
    lr_full_anchor_nah (lt_persisted st3) = lr_full_anchor_nah (lt_persisted st) \<and>
    lr_accepted_capacity_cycles (lt_persisted st3) = lr_accepted_capacity_cycles (lt_persisted st)"
proof -
  have "anchor_kept (lt_persisted st1) (lt_persisted st2)" "anchor_kept (lt_persisted st2) (lt_persisted st3)"
    using gap_anchor [of st1 ob] sample_anchor [of st2 p ob] assms(2,3)
    by (auto simp add: anchor_kept_refl split: if_splits)
  then have kept: "anchor_kept (lt_persisted st1) (lt_persisted st3)"
    by (rule anchor_kept_trans)
  then have v1: "lr_full_anchor_valid (lt_persisted st1)"
    using assms(4) by (simp add: anchor_kept_def)
  have "st1 = st\<lparr>lt_session_seen := True, lt_last_gauge_session := lo_gauge_session ob\<rparr>"
    "if lt_session_seen st then lt_last_gauge_session st = lo_gauge_session ob else lo_gauge_session ob = 0"
    using session_anchor [of ob st] v1 by (auto simp add: assms(1))
  then show ?thesis
    using kept assms(4,5) by (simp add: anchor_kept_def)
qed

text \<open>C30: a capacity cycle counts only on complete evidence: an update that reports one was given the
  EMPTY endpoint alone with valid, authoritative measurements of the same gauge session, found a
  valid FULL anchor that was never disqualified, and recorded the discharge since that anchor,
  rounded to a milliampere-hour within the profile's limits.\<close>

theorem accepted_cycle_measured:
  assumes acc: "snd (battery_learning_update None ob events st) AND LEARNING_RESULT_CAPACITY_ACCEPTED \<noteq> 0"
    and typed: "lr_full_anchor_nah (lt_persisted st) \<in> {INT64_MIN..INT64_MAX}"
      "lo_session_delta_nah ob \<in> {INT64_MIN..INT64_MAX}"
  shows "let r = lt_persisted st; r' = lt_persisted (fst (battery_learning_update None ob events st));
      discharged = lr_full_anchor_nah r - lo_session_delta_nah ob
    in lo_authoritative ob \<and> coulomb_evidence ob \<and> events AND (LEARNING_EVENT_FULL OR LEARNING_EVENT_EMPTY) = LEARNING_EVENT_EMPTY \<and>
       (if lt_session_seen st then lt_last_gauge_session st = lo_gauge_session ob else lo_gauge_session ob = 0) \<and>
       lr_full_anchor_valid r \<and> lr_capacity_cycle_qualified r \<and> 0 < discharged \<and>
       uint (lr_last_capacity_mah r') = (discharged + 500000) div 1000000 \<and>
       300 \<le> lr_last_capacity_mah r' \<and> lr_last_capacity_mah r' \<le> 2000 \<and>
       lr_accepted_capacity_cycles r' = saturating_increment_u16 (lr_accepted_capacity_cycles r) \<and>
       \<not> lr_full_anchor_valid r'"
proof -
  have auth: "lo_authoritative ob"
    using acc by (auto simp add: battery_learning_update_def Let_def split: if_splits)
  obtain st1 res1 st2 res2 st3 res3 st4 res4 st5 res5 st6 res6 d e f g where
    u: "update_session ob st = (st1, res1)" "update_evidence_gap ob st1 = (st2, res2)"
    "(if d then update_sample NIMH_PROFILE ob st2 else (st2, 0)) = (st3, res3)"
    "f = (events AND 3 \<noteq> 3 \<and> events AND 1 \<noteq> 0 \<and> coulomb_evidence ob \<and> lo_charger_connected ob)"
    "(if f then update_full_event NIMH_PROFILE ob st3 else (st3, 0)) = (st4, res4)"
    "g = (events AND 3 \<noteq> 3 \<and> events AND 2 \<noteq> 0 \<and> coulomb_evidence ob)"
    "(if g then update_empty_event NIMH_PROFILE ob st4 else (st4, 0)) = (st5, res5)"
    "update_soc_ledger NIMH_PROFILE ob d e f g st5 = (st6, res6)"
    "lt_persisted (fst (battery_learning_update None ob events st)) = lt_persisted st6"
    "snd (battery_learning_update None ob events st) = res1 OR res2 OR res3 OR res4 OR res5 OR res6"
    by (rule update_stages [OF auth])
  have "res1 AND 4 = 0" "res2 AND 4 = 0" "res3 AND 4 = 0" "res4 AND 4 = 0" "res6 AND 4 = 0"
    using no_accept_bit(1) [of ob st] no_accept_bit(2) [of ob st1] no_accept_sample [of NIMH_PROFILE ob st2] u(3)
      no_accept_bit(3) [of NIMH_PROFILE ob st3] u(5) no_accept_ledger [of NIMH_PROFILE ob d e f g st5]
    by (auto simp add: u(1,2,8) split: if_splits)
  then have r5: "res5 AND 4 \<noteq> 0"
    using acc by (simp add: u(10) or_and_dist)
  then have g: g "update_empty_event NIMH_PROFILE ob st4 = (st5, res5)"
    using u(7) by (auto split: if_splits)
  have f: "\<not> f" "events AND 3 = 2"
    using empty_alone [of events] g(1) u(4,6) by simp_all
  then have st4: "st4 = st3"
    using u(5) by simp
  obtain mah where mah: "measured_cycle_mah NIMH_PROFILE ob (lt_persisted st3) = Some mah"
    using g(2) r5 by (auto simp add: update_empty_event_def st4 Let_def split: option.splits)
  then have "lr_full_anchor_valid (lt_persisted st3)" "lr_capacity_cycle_qualified (lt_persisted st3)"
    by (auto simp add: measured_cycle_mah_def Let_def split: if_splits)
  note anchor = anchor_found [OF u(1-3) this]
  note m = measured_exact [OF mah _ typed(2)]
  have "lr_last_capacity_mah (lt_persisted st6) = mah \<and> \<not> lr_full_anchor_valid (lt_persisted st6) \<and>
      lr_accepted_capacity_cycles (lt_persisted st6) =
        saturating_increment_u16 (lr_accepted_capacity_cycles (lt_persisted st3))"
    using ledger_history [of NIMH_PROFILE ob d e f g st5, unfolded u(8) fst_conv] g(2) mah
    by (auto simp add: update_empty_event_def st4 sample_fields)
  then show ?thesis
    using auth f(2) anchor m typed(1) g(1) unfolding Let_def u(9)
    by (simp add: u(6) word_le_def)
qed

end
