(* ===== verification/Learning_Storage.thy ===== *)
theory Learning_Storage
  imports Store_Durability Learning_Ledger
begin

text \<open>
  The battery learner through the storage layer: every record a learner exports is accepted by the
  setter, serialized, and read back as it was, after which the learner starts from it.  The codec of
  the learner is a second interpretation of the interface \<open>unit_codec\<close> of the commit engine.
\<close>

section \<open>The codec behind the engine's interface\<close>

lemma signed_ranges:
  "INT64_MIN \<le> sint (w :: u64)" "sint w \<le> INT64_MAX"
  "INT32_MIN \<le> sint (v :: u32)" "sint v \<le> INT32_MAX"
  using sint_greater_eq [of w] sint_less [of w] sint_greater_eq [of v] sint_less [of v] by simp_all

lemma learning_apply_typed:
  "decode_battery_learning_v2 pl = Some r \<Longrightarrow> typed_record r"
  by (auto simp add: decode_battery_learning_v2_def typed_record_def read_i64_def read_i32_def Let_def
      signed_ranges [simplified] split: if_splits option.splits)

interpretation learning_codec: unit_codec learning_unit_ops "\<lambda>r. r" typed_record
proof unfold_locales
  fix r cap bytes w0
  assume r: "typed_record r" and s: "uo_serialize learning_unit_ops r cap = Some bytes"
  have v: "battery_learning_persisted_valid r None"
    using s by (auto simp add: learning_unit_ops_def serialize_battery_learning_def split: if_splits)
  have "bytes = learning_payload r"
    using s serialize_learning_payload [OF r v, of "replicate cap 0"] learning_payload_length [OF r]
    by (auto simp add: learning_unit_ops_def split: if_splits)
  then show "snd (uo_apply learning_unit_ops bytes w0) \<and> fst (uo_apply learning_unit_ops bytes w0) = r"
    using v by (simp add: learning_unit_ops_def apply_battery_learning_def decode_payload [OF r])
next
  fix bytes w0 w1
  assume "snd (uo_apply learning_unit_ops bytes w0)"
  then show "snd (uo_apply learning_unit_ops bytes w1) \<and>
      fst (uo_apply learning_unit_ops bytes w1) = fst (uo_apply learning_unit_ops bytes w0)"
    by (auto simp add: learning_unit_ops_def apply_battery_learning_def split: option.splits if_splits)
next
  fix r bytes assume "typed_record r"
  then show "typed_record (fst (uo_apply learning_unit_ops bytes r))"
    using learning_apply_typed
    by (auto simp add: learning_unit_ops_def apply_battery_learning_def split: option.splits)
  show "typed_record (uo_reset_ram learning_unit_ops r)"
    by (simp add: learning_unit_ops_def battery_learning_persisted_defaults_def learning_persisted_zero_def
        typed_record_def)
qed

section \<open>Learners hold values of their C types\<close>

abbreviation "I64 \<equiv> {INT64_MIN..INT64_MAX}"

definition typed_state :: "learning_state \<Rightarrow> bool" where
  "typed_state st \<longleftrightarrow> typed_record (lt_persisted st) \<and> lt_latest_session_delta_nah st \<in> I64 \<and>
     lt_previous_current_ua st \<in> {INT32_MIN..INT32_MAX} \<and>
     length (lt_resistance_persisted_mohm st) = 3 \<and> length (lt_resistance_persisted_count st) = 3"

lemma typed_anchor:
  assumes "typed_record r" "d \<in> I64"
  shows "typed_record (soc_set_anchor c d rem s f m prov conf r)"
  using assms rated_nah_small [of c] rated_nah_bounds [of c]
  by (simp add: typed_record_def soc_set_anchor_def Let_def)

lemma typed_anchors:
  "typed_record r \<Longrightarrow> d \<in> I64 \<Longrightarrow> typed_record (anchor_full c d f r)"
  "typed_record r \<Longrightarrow> d \<in> I64 \<Longrightarrow> typed_record (anchor_empty c d s f r)"
  unfolding anchor_full_def anchor_empty_def by (rule typed_anchor; assumption)+

lemma typed_parts:
  "typed_record r \<Longrightarrow> lr_full_anchor_nah r \<in> I64"
  "typed_record r \<Longrightarrow> lr_soc_anchor_session_delta_nah r \<in> I64"
  by (simp_all add: typed_record_def)

lemma typed_changes:
  "typed_record r \<Longrightarrow> typed_record (soc_clear r)"
  "typed_record r \<Longrightarrow> typed_record (add_capacity_sample c r)"
  "typed_record r \<Longrightarrow> typed_record (fst (drop_natural_empty ob r))"
  "typed_record r \<Longrightarrow> sane_observation ob \<Longrightarrow> d \<in> I64 \<Longrightarrow> typed_record (set_full_anchor q a d ob r)"
  by (simp_all add: typed_record_def soc_clear_def add_capacity_sample_def drop_natural_empty_def
      set_full_anchor_def sane_observation_def Let_def)

lemma typed_track: "typed_record r \<Longrightarrow> sane_observation ob \<Longrightarrow> typed_record (fst (track_full_anchor p ob r))"
  by (simp add: typed_record_def track_full_anchor_def sane_observation_def Let_def)

lemma typed_defaults: "typed_record (battery_learning_persisted_defaults po)"
  by (simp add: battery_learning_persisted_defaults_def learning_persisted_zero_def typed_record_def Let_def)

lemma typed_refresh: "typed_state (refresh_snapshot p st) = typed_state st"
  "typed_state st \<Longrightarrow> typed_state (remember_persisted st)"
  by (simp_all add: typed_state_def refresh_snapshot_def remember_persisted_def typed_record_def)

lemma typed_cleared: "typed_state st \<Longrightarrow> typed_state (clear_pack_learning st)"
  by (simp add: typed_state_def clear_pack_learning_def learning_persisted_zero_def typed_record_def Let_def)

lemma typed_step:
  assumes st: "typed_state st" and sane: "sane_observation ob"
  shows "typed_state (fst (observe_resistance_step p ob st))"
proof -
  have w: "typed_state (fst (window_add p b m st))" for b m
    using st by (simp add: window_add_def Let_def typed_state_def typed_record_def)
  define step where "step = (if resistance_eligible p ob \<and> lt_previous_resistance_sample_valid st
    then (case step_resistance st p ob of None \<Rightarrow> (st, 0)
      | Some mohm \<Rightarrow> window_add p (bin_index (resistance_bin_for_mv
          (midpoint_mv (lt_previous_terminal_mv st) (lo_terminal_mv ob)))) mohm st) else (st, 0))"
  have "typed_state (fst step)"
    by (auto simp add: step_def w st split: option.splits)
  then show ?thesis
    unfolding observe_resistance_step_def Let_def step_def [symmetric] using sane
    by (cases step) (simp add: typed_state_def sane_observation_def)
qed

lemma typed_stages:
  assumes "typed_state st" "sane_observation ob"
  shows "typed_state (fst (update_session ob st))" "typed_state (fst (update_evidence_gap ob st))"
    and "typed_state (fst (update_full_event p ob st))" "typed_state (fst (update_empty_event p ob st))"
proof -
  have "typed_state (st\<lparr>lt_session_seen := True, lt_last_gauge_session := g\<rparr>)" for g
    using assms by (simp add: typed_state_def)
  then show "typed_state (fst (update_session ob st))"
    using assms by (simp add: update_session_def typed_cleared Let_def)
  show "typed_state (fst (update_evidence_gap ob st))"
    using assms by (simp add: update_evidence_gap_def typed_state_def typed_record_def Let_def)
  show "typed_state (fst (update_full_event p ob st))"
    using assms by (simp add: update_full_event_def typed_state_def latest_observation_def typed_changes
        sane_observation_def)
  show "typed_state (fst (update_empty_event p ob st))"
    using assms by (simp add: update_empty_event_def typed_state_def typed_record_def add_capacity_sample_def
        Let_def split: option.splits)
qed

lemma typed_sample:
  assumes "typed_state st" "sane_observation ob"
  shows "typed_state (fst (update_sample p ob st))"
proof -
  define st1 where "st1 = st\<lparr>lt_sample_seen := True, lt_last_sample_sequence := lo_sample_sequence ob\<rparr>"
  have st1: "typed_state st1"
    using assms by (simp add: st1_def typed_state_def)
  have r: "typed_record (fst (track_full_anchor p ob (fst (drop_natural_empty ob (lt_persisted st)))))"
    using assms by (intro typed_track typed_changes) (simp_all add: typed_state_def)
  let ?st2 = "if coulomb_evidence ob
    then (latest_observation ob st1)\<lparr>lt_persisted :=
      fst (track_full_anchor p ob (fst (drop_natural_empty ob (lt_persisted st))))\<rparr> else st1"
  have "typed_state (fst (observe_resistance_step p ob ?st2))"
    using st1 r assms(2)
    by (intro typed_step [OF _ assms(2)]) (simp add: typed_state_def latest_observation_def sane_observation_def)
  then show ?thesis
    unfolding update_sample_def Let_def st1_def [symmetric]
    by (cases "coulomb_evidence ob") (simp_all add: case_prod_beta)
qed

lemma typed_ledger:
  assumes st: "typed_state st" and sane: "sane_observation ob"
  shows "typed_state (fst (update_soc_ledger p ob d e f g st))"
proof -
  have d: "lo_session_delta_nah ob \<in> I64" and r: "typed_record (lt_persisted st)"
    using st sane by (simp_all add: sane_observation_def typed_state_def)
  define r2 where "r2 = fst (ledger_segment p ob (fst (ledger_adopt p ob e (lt_persisted st))))"
  have "typed_record (fst (ledger_adopt p ob e (lt_persisted st)))"
    using r d typed_parts [OF r] by (simp add: ledger_adopt_def Let_def typed_anchors)
  then have r2: "typed_record r2"
    using d by (simp add: r2_def ledger_segment_def Let_def typed_anchor)
  have boot: "typed_state (fst (ledger_bootstrap p ob d' c st'))" if "typed_state st'" for st' c d'
    using that d by (simp add: ledger_bootstrap_def Let_def typed_state_def clear_bootstrap_def typed_anchor)
  show ?thesis
    unfolding update_soc_ledger_def Let_def case_prod_beta r2_def [symmetric]
    using st r r2 d boot [of "st\<lparr>lt_persisted := r2\<rparr>"]
    by (simp add: typed_state_def clear_bootstrap_def typed_changes typed_anchors)
qed

lemma typed_update:
  assumes st: "typed_state st" and sane: "sane_observation ob"
  shows "typed_state (fst (battery_learning_update po ob events st))"
  by (rule update_by_stages) (use typed_stages typed_sample typed_ledger typed_refresh st sane in auto)

lemma typed_commands:
  assumes "typed_state st"
  shows "length (lv_resistance_mohm v) = 3 \<Longrightarrow> typed_state (fst (battery_learning_provision po v st))"
    and "typed_state (fst (battery_learning_recover_capacity_cycle po c k st))"
    and "sane_observation ob \<Longrightarrow> d \<in> I64 \<Longrightarrow>
      typed_state (fst (battery_learning_recover_full_endpoint po ob a d k st))"
proof -
  note r = assms [unfolded typed_state_def, THEN conjunct1]
  have c: "typed_record (lt_persisted (clear_pack_learning st))" "lt_latest_session_delta_nah (clear_pack_learning st) \<in> I64"
    "lt_previous_current_ua (clear_pack_learning st) \<in> {INT32_MIN..INT32_MAX}"
    "length (lt_resistance_persisted_mohm (clear_pack_learning st)) = 3"
    "length (lt_resistance_persisted_count (clear_pack_learning st)) = 3"
    using typed_cleared [OF assms] by (simp_all add: typed_state_def)
  show "length (lv_resistance_mohm v) = 3 \<Longrightarrow> typed_state (fst (battery_learning_provision po v st))"
    using assms typed_changes(2) [OF c(1)] c(2-)
    by (simp add: battery_learning_provision_def Let_def typed_refresh) (simp add: typed_state_def typed_record_def)
  have "typed_record (rebase_ledger p b o' d (add_capacity_sample c (lt_persisted st)))" if "d \<in> I64" for p b o' d
    using typed_changes(2) [OF r] that typed_parts [OF typed_changes(2) [OF r]]
    by (simp add: rebase_ledger_def Let_def typed_anchors typed_anchor)
  then show "typed_state (fst (battery_learning_recover_capacity_cycle po c k st))"
    using assms typed_parts [OF r]
    by (simp add: battery_learning_recover_capacity_cycle_def Let_def typed_refresh) (simp add: typed_state_def)
  show "sane_observation ob \<Longrightarrow> d \<in> I64 \<Longrightarrow>
      typed_state (fst (battery_learning_recover_full_endpoint po ob a d k st))"
    using assms typed_anchors(1) [OF typed_changes(4) [OF r]]
    by (simp add: battery_learning_recover_full_endpoint_def Let_def typed_refresh)
      (simp add: typed_state_def latest_observation_def sane_observation_def)
qed

lemma typed_init:
  assumes "\<And>r. ro = Some r \<Longrightarrow> typed_record r"
  shows "typed_state (battery_learning_init po ro)"
proof -
  have "typed_record (migrate_full_anchor p r)" if "typed_record r" for p r
    using that typed_parts [OF that] by (simp add: migrate_full_anchor_def typed_anchors)
  moreover have "typed_state (learning_state_zero\<lparr>lt_persisted := r\<rparr>)" if "typed_record r" for r
    using that by (simp add: typed_state_def learning_state_zero_def)
  ultimately show ?thesis
    using assms typed_defaults
    by (simp add: battery_learning_init_def Let_def typed_refresh split: option.splits)
qed

lemma learner_typed: "learner st \<Longrightarrow> typed_state st"
  by (induction rule: learner.induct) (simp_all add: typed_init typed_update typed_commands)

section \<open>The record survives\<close>

text \<open>C33: the learner never leaves its C types: in every reachable state the arrays of the record, the
  sample windows and the last stored resistances have their declared lengths, no window index runs past its nine slots, and every signed quantity, kept as an unbounded
  integer in the model, is a value of the 64-bit or 32-bit type the code stores it in.\<close>

theorem learner_values_typed:
  assumes "learner st"
  shows "typed_record (battery_learning_export_persisted (Some st)) \<and>
    lt_latest_session_delta_nah st \<in> {INT64_MIN..INT64_MAX} \<and>
    lt_previous_current_ua st \<in> {INT32_MIN..INT32_MAX} \<and>
    length (lt_resistance_persisted_mohm st) = 3 \<and> length (lt_resistance_persisted_count st) = 3 \<and>
    length (lt_resistance_window st) = 3 \<and> length (lt_resistance_window_count st) = 3 \<and>
    (\<forall>b<3. length (lt_resistance_window st ! b) = 9 \<and> unat (lt_resistance_window_count st ! b) < 9) \<and>
    unat (lr_capacity_history_next (lt_persisted st)) < 3"
  using learner_typed [OF assms] learner_ok [OF assms]
  by (simp add: typed_state_def learning_ok_def windows_ok_def record_parts history_valid_def
      battery_learning_export_persisted_def word_less_nat_alt)

text \<open>C32: whatever a learner has seen, its record is storable: the setter accepts it, the serializer
  writes its 96 bytes and leaves the rest of the buffer alone, the decoder gives back exactly the
  record from whatever state, and a learner started from it continues with it, up to the one
  migration that anchors an empty ledger at a known full charge.\<close>

theorem learner_record_survives:
  assumes "learner st" "96 \<le> length dst" "store_service_unit_ready ss STORE_UNIT_BATTERY_LEARNING" "st_ready ss"
  shows "let r = battery_learning_export_persisted (Some st) in
    snd (store_battery_learning_set get put (Some r) ss) = STORE_STATUS_OK \<and>
    (\<exists>bytes. length bytes = 96 \<and>
       serialize_battery_learning r dst (length dst) = Some (bytes @ drop 96 dst, 96) \<and>
       apply_battery_learning bytes old = (r, True)) \<and>
    lt_persisted (battery_learning_init None (Some r)) = migrate_full_anchor NIMH_PROFILE r"
proof -
  define r where "r = battery_learning_export_persisted (Some st)"
  have p: "r = lt_persisted st"
    by (simp add: r_def battery_learning_export_persisted_def)
  have t: "typed_record r"
    using learner_typed [OF assms(1)] by (simp add: p typed_state_def)
  have v: "battery_learning_persisted_valid r (Some NIMH_PROFILE)"
    using learner_ok [OF assms(1)] by (simp add: p learning_ok_def record_ok_def)
  then have v': "battery_learning_persisted_valid r None"
    by (simp add: default_profile)
  have "snd (store_battery_learning_set get put (Some r) ss) = STORE_STATUS_OK"
    using assms(3,4) v' by (simp add: store_battery_learning_set_def store_engine_mark_dirty_def
        store_service_unit_ready_def)
  moreover have "apply_battery_learning (learning_payload r) old = (r, True)"
    by (simp add: apply_battery_learning_def decode_payload [OF t] v')
  moreover have "lt_persisted (battery_learning_init None (Some r)) = migrate_full_anchor NIMH_PROFILE r"
    by (simp add: battery_learning_init_def Let_def refresh_snapshot_def remember_persisted_def v)
  moreover have "serialize_battery_learning r dst (length dst) = Some (learning_payload r @ drop 96 dst, 96)"
    using serialize_learning_payload [OF t v', of dst] assms(2) by simp
  moreover note learning_payload_length [OF t]
  ultimately show ?thesis
    unfolding Let_def r_def [symmetric] by blast
qed

end
