(* ===== verification/Learning_Samples.thy ===== *)
theory Learning_Samples
  imports Learning_Storage
begin

text \<open>
  The theorems on the battery learner applied to one concrete cycle: a learner without a stored
  record sees a full charge, then a discharge, then the empty endpoint.
\<close>

definition sample_observation :: learning_observation where
  "sample_observation =
     \<lparr>lo_now_ms = 1000, lo_sample_sequence = 1, lo_gauge_session = 0, lo_acr_raw = 0x1000,
      lo_session_delta_nah = 0, lo_terminal_mv = 2600, lo_current_ua = 0, lo_temperature_mdegc = 25000,
      lo_reference_mv = 2550, lo_sample_valid = True, lo_current_valid = True, lo_continuity_valid = True,
      lo_reference_valid = True, lo_charger_connected = True, lo_charge_active = False, lo_authoritative = True\<rparr>"

definition empty_observation :: learning_observation where
  "empty_observation = sample_observation\<lparr>lo_now_ms := 9000, lo_sample_sequence := 2,
     lo_session_delta_nah := - 1100400000, lo_terminal_mv := 2000, lo_current_ua := - 100000,
     lo_charger_connected := False\<rparr>"

definition full_learner :: learning_state where
  "full_learner = fst (battery_learning_update None sample_observation LEARNING_EVENT_FULL
     (battery_learning_init None None))"

lemma samples_sane: "sane_observation sample_observation" "sane_observation empty_observation"
  by (simp_all add: sane_observation_def sample_observation_def empty_observation_def)

lemma full_learner_reached: "learner full_learner"
  unfolding full_learner_def by (rule learner.observed [OF learner.started samples_sane(1)]) simp

lemma full_learner_facts:
  "lr_soc_valid (lt_persisted full_learner) \<and> lr_full_anchor_valid (lt_persisted full_learner) \<and>
   lr_full_anchor_nah (lt_persisted full_learner) = 0 \<and> sn_remaining_capacity_valid (lt_snapshot full_learner) \<and>
   lr_soc_anchor_session_delta_nah (lt_persisted full_learner) = 0"
  by code_simp

lemma empty_accepted:
  "snd (battery_learning_update None empty_observation LEARNING_EVENT_EMPTY full_learner) AND
     LEARNING_RESULT_CAPACITY_ACCEPTED \<noteq> 0"
  by code_simp

lemma full_record_valid:
  "battery_learning_persisted_valid (lt_persisted full_learner) None"
  using learner_ok [OF full_learner_reached] by (simp add: default_profile learning_ok_def record_ok_def)

theorem projection_is_exact_witness:
  "soc_project_remaining_nah (lt_persisted full_learner) (- 100000000) = exact_remaining (lt_persisted full_learner) (- 100000000) \<and>
   exact_remaining (lt_persisted full_learner) (- 100000000) = 1125000000"
proof -
  have "exact_remaining (lt_persisted full_learner) (- 100000000) = 1125000000"
    by code_simp
  then show ?thesis
    using projection_is_exact [OF full_record_valid, of "- 100000000"] full_learner_facts by simp
qed

theorem published_charge_exact_witness:
  "uint (sn_remaining_capacity_nah (lt_snapshot full_learner)) =
     soc_project_remaining_nah (lt_persisted full_learner) (lt_latest_session_delta_nah full_learner)"
  using published_charge_exact [OF full_learner_reached] full_learner_facts by (simp add: Let_def)

theorem accepted_cycle_measured_witness:
  "uint (lr_last_capacity_mah (lt_persisted
     (fst (battery_learning_update None empty_observation LEARNING_EVENT_EMPTY full_learner)))) = 1100"
  using accepted_cycle_measured [OF empty_accepted] full_learner_facts
  by (simp add: Let_def sample_observation_def empty_observation_def)

text \<open>An engine that has booted with every unit available.\<close>

definition booted_engine :: "(learning_persisted, unit) store_state" where
  "booted_engine = \<lparr>st_ready = True, st_available = 0x1ffff, st_faults = 0, st_dirty = replicate 17 False,
     st_fails = replicate 17 0, st_scan = 0, st_park_base = 0, st_defer = 0, st_last_commit = 0,
     st_diag = diag_zero, st_ram = learning_persisted_zero, st_media = ()\<rparr>"

theorem learner_record_survives_witness:
  "snd (store_battery_learning_set (\<lambda>r. r) (\<lambda>r _. r)
     (Some (battery_learning_export_persisted (Some full_learner))) booted_engine) = STORE_STATUS_OK"
proof -
  have e: "store_service_unit_ready booted_engine STORE_UNIT_BATTERY_LEARNING" "st_ready booted_engine"
    by (simp_all add: store_service_unit_ready_def booted_engine_def bit_numeral_rec)
  have "96 \<le> length (replicate 96 0 :: u8 list)"
    by simp
  from learner_record_survives [OF full_learner_reached this e] show ?thesis
    unfolding Let_def by blast
qed

theorem learner_values_typed_witness:
  "typed_record (battery_learning_export_persisted (Some full_learner))"
  using learner_values_typed [OF full_learner_reached] by simp

end
