(* ===== verification/Battery_Gauge.thy ===== *)
theory Battery_Gauge
  imports Charge_Supervisor "HOL-Library.Signed_Division"
begin

text \<open>
  The voltage gauge of the battery, \<open>hal/battery_gauge_logic.c\<close>: the filters, the load correction,
  the bar ladder with its rise gate, the warning debounce, one update, and the qualifier that decides
  at power-on.  Signed quantities are integers, divided towards zero with \<open>sdiv\<close>; a counted array is
  the list of its used entries, oldest first; a NULL pointer is \<open>None\<close>.
\<close>

section \<open>Data\<close>

abbreviation "VBAT_BAR4_MV \<equiv> 2575 :: u16"
abbreviation "VBAT_BAR3_MV \<equiv> 2530 :: u16"
abbreviation "VBAT_BAR2_MV \<equiv> 2425 :: u16"
abbreviation "VBAT_BAR1_MV \<equiv> 1900 :: u16"
abbreviation "VBAT_LOW_MV \<equiv> 2320 :: u16"
abbreviation "VBAT_LOW_TERMINAL_QUALIFY_MV \<equiv> 2230 :: u16"
abbreviation "VBAT_EMPTY_MV \<equiv> VBAT_BAR1_MV"
abbreviation "BATTERY_GAUGE_MODEL_PERIOD_MS \<equiv> 1000 :: u32"
abbreviation "BATTERY_GAUGE_MEDIAN_WINDOW_MS \<equiv> 15000 :: u32"
abbreviation "BATTERY_GAUGE_WARNING_ENTRY_MS \<equiv> 20000 :: u32"
abbreviation "BATTERY_GAUGE_STARTUP_BIAS_MV \<equiv> 23 :: int"
abbreviation "BATTERY_GAUGE_MEDIAN_CAPACITY \<equiv> 15 :: nat"
abbreviation "BATTERY_GAUGE_CURRENT_HISTORY_CAPACITY \<equiv> 8 :: nat"
abbreviation "BATTERY_POWER_ON_REQUIRED_VALID \<equiv> 5 :: u8"
abbreviation "BATTERY_POWER_ON_MAX_ATTEMPTS \<equiv> 10 :: u8"
abbreviation "BATTERY_GAUGE_CURRENT_WINDOW_TARGET_MS \<equiv> 5000 :: u32"
abbreviation "BATTERY_GAUGE_CURRENT_WINDOW_MIN_MS \<equiv> 4000 :: u32"
abbreviation "BATTERY_GAUGE_CURRENT_WINDOW_MAX_MS \<equiv> 7000 :: u32"
abbreviation "BATTERY_GAUGE_MAX_CATCHUP_STEPS \<equiv> 60 :: u32"
abbreviation "I32_MAX \<equiv> 2147483647 :: int"
abbreviation "I32_MIN \<equiv> - 2147483648 :: int"

datatype battery_gauge_warning =
    BATTERY_GAUGE_WARNING_HEALTHY | BATTERY_GAUGE_WARNING_LOW | BATTERY_GAUGE_WARNING_EMPTY

record gauge_profile =
  gp_reference_current_ma :: u16
  gp_effective_resistance_mohm :: u16
  gp_max_compensation_mv :: u16
  gp_charge_compensation_percent :: u8
  gp_rise_rearm_nah :: int

record gauge_observation =
  go_now_ms :: u32
  go_sample_sequence :: u32
  go_gauge_session :: u32
  go_terminal_mv :: u16
  go_current_ua :: int
  go_session_delta_nah :: int
  go_sample_valid :: bool
  go_current_valid :: bool
  go_continuity_valid :: bool
  go_charge_active :: bool

record gauge_snapshot =
  gs_valid :: bool
  gs_terminal_mv :: u16
  gs_fast_terminal_mv :: u16
  gs_symmetric_terminal_mv :: u16
  gs_reference_mv :: u16
  gs_correction_mv :: int
  gs_window_current_ua :: int
  gs_window_current_valid :: bool
  gs_bars :: u8
  gs_warning :: battery_gauge_warning
  gs_model_sequence :: u32

record bar_state =
  bs_committed :: u8
  bs_rearm_anchor_nah :: int
  bs_seeded :: bool
  bs_rearm_anchor_valid :: bool

record warning_state =
  ws_committed :: battery_gauge_warning
  ws_pending_since_ms :: u32
  ws_seeded :: bool
  ws_pending :: bool

record median_point =
  mp_value_mv :: u16
  mp_observed_ms :: u32

record current_point =
  cp_charge_nah :: int
  cp_observed_ms :: u32

record gauge_state =
  gt_snapshot :: gauge_snapshot
  gt_bar :: bar_state
  gt_warning :: warning_state
  gt_median :: "median_point list"
  gt_current_history :: "current_point list"
  gt_fast_peak_x10 :: int
  gt_fast_symmetric_x10 :: int
  gt_slow_reference_x10 :: int
  gt_gauge_session :: u32
  gt_last_sample_sequence :: u32
  gt_last_model_ms :: u32
  gt_session_seen :: bool
  gt_sample_seen :: bool
  gt_model_seeded :: bool

record power_on_qualifier =
  pq_samples_mv :: "u16 list"
  pq_gauge_session :: u32
  pq_last_attempt_sequence :: u32
  pq_sum_mv :: u32
  pq_sample_count :: u8
  pq_next_sample :: u8
  pq_attempts :: u8
  pq_session_seen :: bool
  pq_sample_seen :: bool

definition GAUGE_NIMH_PROFILE :: gauge_profile where
  "GAUGE_NIMH_PROFILE =
     \<lparr>gp_reference_current_ma = 65, gp_effective_resistance_mohm = 190, gp_max_compensation_mv = 150,
      gp_charge_compensation_percent = 85, gp_rise_rearm_nah = 150000000\<rparr>"

definition battery_gauge_nimh_profile :: gauge_profile where
  "battery_gauge_nimh_profile = GAUGE_NIMH_PROFILE"

definition gauge_profile_or :: "gauge_profile option \<Rightarrow> gauge_profile" where
  "gauge_profile_or po = (case po of None \<Rightarrow> GAUGE_NIMH_PROFILE | Some p \<Rightarrow> p)"

definition bar_floors :: "u16 list" where
  "bar_floors = [0, VBAT_BAR1_MV, VBAT_BAR2_MV, VBAT_BAR3_MV, VBAT_BAR4_MV]"

section \<open>Arithmetic\<close>

definition clamp_i32 :: "int \<Rightarrow> int \<Rightarrow> int \<Rightarrow> int" where
  "clamp_i32 v low high = (if v < low then low else if high < v then high else v)"

definition clamp_mv_i32 :: "int \<Rightarrow> u16" where
  "clamp_mv_i32 v = of_int (clamp_i32 v 0 65535)"

definition iir_one_tenth_step :: "int \<Rightarrow> int \<Rightarrow> int" where
  "iir_one_tenth_step current target =
     (let error = target - current; step = error sdiv 10 in
      if error = 0 then current
      else current + (if step = 0 then if 0 < error then 1 else - 1 else step))"

fun iir_one_tenth_steps :: "int \<Rightarrow> int \<Rightarrow> nat \<Rightarrow> int" where
  "iir_one_tenth_steps current target 0 = current"
| "iir_one_tenth_steps current target (Suc n) =
     (if current = target then current
      else iir_one_tenth_steps (iir_one_tenth_step current target) target n)"

definition x10_to_mv :: "int \<Rightarrow> u16" where
  "x10_to_mv v = (if v \<le> 0 then 0 else clamp_mv_i32 ((v + 5) sdiv 10))"

definition model_catchup_steps :: "u32 \<Rightarrow> u32" where
  "model_catchup_steps elapsed =
     (let steps = elapsed div BATTERY_GAUGE_MODEL_PERIOD_MS;
          steps1 = (if steps = 0 then 1 else steps)
      in if BATTERY_GAUGE_MAX_CATCHUP_STEPS < steps1 then BATTERY_GAUGE_MAX_CATCHUP_STEPS else steps1)"

definition signed_round_divide :: "int \<Rightarrow> int \<Rightarrow> int" where
  "signed_round_divide numerator denominator =
     (let n = (if 0 \<le> numerator then numerator + denominator sdiv 2 else numerator - denominator sdiv 2);
          result = n sdiv denominator
      in if I32_MAX < result then I32_MAX else if result < I32_MIN then I32_MIN else result)"

definition current_magnitude_ua :: "int \<Rightarrow> bool \<Rightarrow> int" where
  "current_magnitude_ua current chg =
     (let magnitude = (if chg then current else - current) in
      if magnitude \<le> 0 then 0 else if I32_MAX < magnitude then I32_MAX else magnitude)"

section \<open>The median and the current window\<close>

definition median_seed :: "u16 \<Rightarrow> u32 \<Rightarrow> gauge_state \<Rightarrow> gauge_state" where
  "median_seed value_mv now st =
     st\<lparr>gt_median := replicate BATTERY_GAUGE_MEDIAN_CAPACITY
          \<lparr>mp_value_mv = value_mv, mp_observed_ms = now\<rparr>\<rparr>"

definition median_prune :: "u32 \<Rightarrow> gauge_state \<Rightarrow> gauge_state" where
  "median_prune now st =
     st\<lparr>gt_median := filter (\<lambda>m. now - mp_observed_ms m \<le> BATTERY_GAUGE_MEDIAN_WINDOW_MS) (gt_median st)\<rparr>"

definition median_append :: "u16 \<Rightarrow> u32 \<Rightarrow> gauge_state \<Rightarrow> gauge_state" where
  "median_append value_mv now st =
     (let kept = gt_median (median_prune now st);
          kept1 = (if length kept = BATTERY_GAUGE_MEDIAN_CAPACITY then tl kept else kept)
      in st\<lparr>gt_median := kept1 @ [\<lparr>mp_value_mv = value_mv, mp_observed_ms = now\<rparr>]\<rparr>)"

definition median_value :: "gauge_state \<Rightarrow> u16" where
  "median_value st =
     (let vs = map mp_value_mv (gt_median st) in
      if vs = [] then 0 else fold insert_sorted vs [] ! (length vs div 2))"

definition current_history_clear :: "gauge_state \<Rightarrow> gauge_state" where
  "current_history_clear st =
     st\<lparr>gt_current_history := [],
       gt_snapshot := (gt_snapshot st)\<lparr>gs_window_current_valid := False, gs_window_current_ua := 0\<rparr>\<rparr>"

definition current_history_prune :: "u32 \<Rightarrow> gauge_state \<Rightarrow> gauge_state" where
  "current_history_prune now st =
     st\<lparr>gt_current_history :=
          filter (\<lambda>c. now - cp_observed_ms c \<le> BATTERY_GAUGE_CURRENT_WINDOW_MAX_MS) (gt_current_history st)\<rparr>"

text \<open>The search for the point closest to five seconds ago: the best so far, its error and age.\<close>

definition window_search_step ::
    "u32 \<Rightarrow> current_point \<Rightarrow> current_point option \<times> u32 \<times> u32 \<Rightarrow> current_point option \<times> u32 \<times> u32" where
  "window_search_step now c =
     (\<lambda>(best, best_error, best_elapsed).
        let elapsed = now - cp_observed_ms c;
            error = (if BATTERY_GAUGE_CURRENT_WINDOW_TARGET_MS < elapsed
              then elapsed - BATTERY_GAUGE_CURRENT_WINDOW_TARGET_MS
              else BATTERY_GAUGE_CURRENT_WINDOW_TARGET_MS - elapsed)
        in if elapsed < BATTERY_GAUGE_CURRENT_WINDOW_MIN_MS \<or> BATTERY_GAUGE_CURRENT_WINDOW_MAX_MS < elapsed
           then (best, best_error, best_elapsed)
           else if error < best_error then (Some c, error, elapsed)
           else (best, best_error, best_elapsed))"

definition window_average_ua :: "int \<Rightarrow> u32 \<Rightarrow> int" where
  "window_average_ua delta_nah elapsed =
     (let e = uint elapsed in
      if (I32_MAX * e) sdiv 3600 < delta_nah then I32_MAX
      else if delta_nah < (I32_MIN * e) sdiv 3600 then I32_MIN
      else (delta_nah * 3600) sdiv e)"

definition update_window_current :: "gauge_observation \<Rightarrow> gauge_state \<Rightarrow> gauge_state" where
  "update_window_current ob st =
     (if \<not> go_continuity_valid ob \<or> \<not> go_current_valid ob then current_history_clear st
      else
        (let history = gt_current_history (current_history_prune (go_now_ms ob) st);
             (best, _, elapsed) = fold (window_search_step (go_now_ms ob)) history (None, 0xffffffff, 0);
             sn = (gt_snapshot st)\<lparr>gs_window_current_valid := False\<rparr>;
             sn1 = (case best of
                 Some c \<Rightarrow>
                   if elapsed \<noteq> 0
                   then sn\<lparr>gs_window_current_ua := window_average_ua (go_session_delta_nah ob - cp_charge_nah c) elapsed,
                          gs_window_current_valid := True\<rparr>
                   else sn
               | None \<Rightarrow> sn);
             history1 = (if length history = BATTERY_GAUGE_CURRENT_HISTORY_CAPACITY then tl history else history)
         in st\<lparr>gt_snapshot := sn1,
               gt_current_history := history1 @
                 [\<lparr>cp_charge_nah = go_session_delta_nah ob, cp_observed_ms = go_now_ms ob\<rparr>]\<rparr>))"

section \<open>Bars\<close>

definition battery_gauge_bar_floor_mv :: "u8 \<Rightarrow> u16" where
  "battery_gauge_bar_floor_mv bar = (if bar \<le> 4 then bar_floors ! unat bar else bar_floors ! 4)"

fun bars_scan :: "nat \<Rightarrow> u16 \<Rightarrow> u8" where
  "bars_scan 0 mv = 0"
| "bars_scan (Suc bar) mv = (if bar_floors ! Suc bar \<le> mv then of_nat (Suc bar) else bars_scan bar mv)"

definition battery_gauge_bars_from_mv :: "u16 \<Rightarrow> u8" where
  "battery_gauge_bars_from_mv mv = bars_scan 4 mv"

definition bar_rise_threshold :: "u8 \<Rightarrow> u16" where
  "bar_rise_threshold target =
     (if target \<le> 1 then VBAT_BAR1_MV
      else if 4 \<le> target then VBAT_BAR4_MV + (VBAT_BAR4_MV - VBAT_BAR3_MV) div 2
      else
        (let lower = battery_gauge_bar_floor_mv target; upper = battery_gauge_bar_floor_mv (target + 1)
         in lower + (upper - lower) div 2))"

definition bar_note_commit :: "u8 \<Rightarrow> bool \<Rightarrow> int \<Rightarrow> bar_state \<Rightarrow> bar_state" where
  "bar_note_commit bars continuity_valid session_delta b =
     b\<lparr>bs_committed := bars, bs_seeded := True, bs_rearm_anchor_valid := continuity_valid,
       bs_rearm_anchor_nah := session_delta\<rparr>"

definition bar_force_warning :: "u8 \<Rightarrow> bool \<Rightarrow> int \<Rightarrow> bar_state \<Rightarrow> bar_state" where
  "bar_force_warning bars continuity_valid session_delta b =
     (if \<not> bs_seeded b \<or> bs_committed b \<noteq> bars then bar_note_commit bars continuity_valid session_delta b else b)"

definition bar_state_zero :: bar_state where
  "bar_state_zero = \<lparr>bs_committed = 0, bs_rearm_anchor_nah = 0, bs_seeded = False, bs_rearm_anchor_valid = False\<rparr>"

definition battery_gauge_bar_state_init :: "bar_state option \<Rightarrow> bar_state option" where
  "battery_gauge_bar_state_init so = map_option (\<lambda>_. bar_state_zero) so"

definition bar_step :: "gauge_profile \<Rightarrow> u16 \<Rightarrow> bool \<Rightarrow> bool \<Rightarrow> int \<Rightarrow> bar_state \<Rightarrow> bar_state \<times> u8" where
  "bar_step p reference_mv charge_active continuity_valid session_delta b =
     (let target = battery_gauge_bars_from_mv reference_mv;
          commit = bar_note_commit target continuity_valid session_delta
      in
      if \<not> bs_seeded b then (commit b, target)
      else
        (let b1 = (if \<not> bs_rearm_anchor_valid b \<and> continuity_valid
               then b\<lparr>bs_rearm_anchor_valid := True, bs_rearm_anchor_nah := session_delta\<rparr> else b)
         in
         if target \<le> bs_committed b1
         then (let b2 = (if target \<noteq> bs_committed b1 then commit b1 else b1) in (b2, bs_committed b2))
         else if target = bs_committed b1 + 1 \<and> reference_mv < bar_rise_threshold target
         then (b1, bs_committed b1)
         else
           (let rise_allowed = (charge_active \<or>
                  continuity_valid \<and> bs_rearm_anchor_valid b1 \<and>
                  gp_rise_rearm_nah p \<le> bs_rearm_anchor_nah b1 - session_delta);
                b2 = (if rise_allowed then commit b1 else b1)
            in (b2, bs_committed b2))))"

definition battery_gauge_bar_step ::
    "gauge_profile option \<Rightarrow> u16 \<Rightarrow> bool \<Rightarrow> bool \<Rightarrow> int \<Rightarrow> bar_state option \<Rightarrow> bar_state option \<times> u8" where
  "battery_gauge_bar_step po reference_mv charge_active continuity_valid session_delta so =
     (case so of
        None \<Rightarrow> (None, battery_gauge_bars_from_mv reference_mv)
      | Some b \<Rightarrow> apfst Some (bar_step (gauge_profile_or po) reference_mv charge_active continuity_valid session_delta b))"

section \<open>Load correction\<close>

definition battery_gauge_load_correction_mv ::
    "gauge_profile option \<Rightarrow> int \<Rightarrow> int \<Rightarrow> bool \<Rightarrow> bool \<Rightarrow> int" where
  "battery_gauge_load_correction_mv po current_ua window_current_ua window_current_valid charge_active =
     (let p = gauge_profile_or po;
          limit = (\<lambda>chg. let v = current_magnitude_ua current_ua chg;
              w = current_magnitude_ua window_current_ua chg
            in if window_current_valid \<and> w < v then w else v);
          discharge_ma = (limit False + 500) sdiv 1000;
          charge_ma = (limit True + 500) sdiv 1000;
          effective_ma = (if charge_active
            then discharge_ma - (charge_ma * uint (gp_charge_compensation_percent p) + 50) sdiv 100
            else discharge_ma);
          delta_ma = effective_ma - uint (gp_reference_current_ma p);
          correction = signed_round_divide (delta_ma * uint (gp_effective_resistance_mohm p)) 1000;
          bound = (if 32767 < uint (gp_max_compensation_mv p) then 32767 else uint (gp_max_compensation_mv p))
      in clamp_i32 correction (- bound) bound)"

section \<open>Warnings\<close>

definition warning_state_zero :: warning_state where
  "warning_state_zero = \<lparr>ws_committed = BATTERY_GAUGE_WARNING_HEALTHY, ws_pending_since_ms = 0,
     ws_seeded = False, ws_pending = False\<rparr>"

definition battery_gauge_warning_state_init :: "warning_state option \<Rightarrow> warning_state option" where
  "battery_gauge_warning_state_init so = map_option (\<lambda>_. warning_state_zero) so"

definition instant_warning :: "u16 \<Rightarrow> u16 \<Rightarrow> u16 \<Rightarrow> u16 \<Rightarrow> battery_gauge_warning" where
  "instant_warning terminal_mv fast_mv symmetric_mv reference_mv =
     (let terminal_qualified = (VBAT_LOW_TERMINAL_QUALIFY_MV \<le> terminal_mv \<or>
            VBAT_LOW_TERMINAL_QUALIFY_MV \<le> symmetric_mv);
          low_qualified = (VBAT_LOW_MV \<le> reference_mv \<or> VBAT_LOW_MV \<le> fast_mv)
      in if terminal_qualified \<and> low_qualified then BATTERY_GAUGE_WARNING_HEALTHY
         else if VBAT_EMPTY_MV \<le> fast_mv then BATTERY_GAUGE_WARNING_LOW
         else BATTERY_GAUGE_WARNING_EMPTY)"

definition warning_step :: "u32 \<Rightarrow> battery_gauge_warning \<Rightarrow> warning_state \<Rightarrow> warning_state \<times> battery_gauge_warning" where
  "warning_step now instant w =
     (if \<not> ws_seeded w then (w\<lparr>ws_committed := instant, ws_seeded := True\<rparr>, instant)
      else if instant = BATTERY_GAUGE_WARNING_HEALTHY
      then (w\<lparr>ws_committed := instant, ws_pending := False\<rparr>, instant)
      else if ws_committed w \<noteq> BATTERY_GAUGE_WARNING_HEALTHY
      then (w\<lparr>ws_committed := instant, ws_pending := False\<rparr>, instant)
      else if \<not> ws_pending w
      then (w\<lparr>ws_pending := True, ws_pending_since_ms := now\<rparr>, ws_committed w)
      else if BATTERY_GAUGE_WARNING_ENTRY_MS \<le> now - ws_pending_since_ms w
      then (w\<lparr>ws_committed := instant, ws_pending := False\<rparr>, instant)
      else (w, ws_committed w))"

definition battery_gauge_warning_step ::
    "u32 \<Rightarrow> u16 \<Rightarrow> u16 \<Rightarrow> u16 \<Rightarrow> u16 \<Rightarrow> warning_state option \<Rightarrow> warning_state option \<times> battery_gauge_warning" where
  "battery_gauge_warning_step now terminal_mv fast_mv symmetric_mv reference_mv so =
     (let instant = instant_warning terminal_mv fast_mv symmetric_mv reference_mv in
      case so of None \<Rightarrow> (None, instant) | Some w \<Rightarrow> apfst Some (warning_step now instant w))"

section \<open>One update\<close>

definition gauge_snapshot_zero :: gauge_snapshot where
  "gauge_snapshot_zero =
     \<lparr>gs_valid = False, gs_terminal_mv = 0, gs_fast_terminal_mv = 0, gs_symmetric_terminal_mv = 0,
      gs_reference_mv = 0, gs_correction_mv = 0, gs_window_current_ua = 0, gs_window_current_valid = False,
      gs_bars = 0, gs_warning = BATTERY_GAUGE_WARNING_HEALTHY, gs_model_sequence = 0\<rparr>"

definition gauge_state_zero :: gauge_state where
  "gauge_state_zero =
     \<lparr>gt_snapshot = gauge_snapshot_zero, gt_bar = bar_state_zero, gt_warning = warning_state_zero,
      gt_median = [], gt_current_history = [], gt_fast_peak_x10 = 0, gt_fast_symmetric_x10 = 0,
      gt_slow_reference_x10 = 0, gt_gauge_session = 0, gt_last_sample_sequence = 0, gt_last_model_ms = 0,
      gt_session_seen = False, gt_sample_seen = False, gt_model_seeded = False\<rparr>"

definition battery_gauge_init :: "gauge_state option \<Rightarrow> gauge_state option" where
  "battery_gauge_init so = map_option (\<lambda>_. gauge_state_zero) so"

text \<open>The two filters of the terminal voltage.\<close>

definition gauge_fast_filters :: "nat \<Rightarrow> int \<Rightarrow> gauge_state \<Rightarrow> gauge_state" where
  "gauge_fast_filters steps target st =
     (if \<not> gt_model_seeded st
      then st\<lparr>gt_fast_peak_x10 := target, gt_fast_symmetric_x10 := target\<rparr>
      else st\<lparr>gt_fast_peak_x10 := (if gt_fast_peak_x10 st \<le> target then target
               else iir_one_tenth_steps (gt_fast_peak_x10 st) target steps),
             gt_fast_symmetric_x10 := iir_one_tenth_steps (gt_fast_symmetric_x10 st) target steps\<rparr>)"

text \<open>The reference voltage follows the median of the corrected ones.\<close>

definition gauge_slow_reference :: "nat \<Rightarrow> u16 \<Rightarrow> u32 \<Rightarrow> gauge_state \<Rightarrow> gauge_state" where
  "gauge_slow_reference steps corrected_mv now st =
     (if \<not> gt_model_seeded st
      then (let seed_mv = clamp_mv_i32 (uint corrected_mv + BATTERY_GAUGE_STARTUP_BIAS_MV)
            in (median_seed seed_mv now st)\<lparr>gt_slow_reference_x10 := uint seed_mv * 10\<rparr>)
      else (let st1 = median_append corrected_mv now st
            in st1\<lparr>gt_slow_reference_x10 :=
                 iir_one_tenth_steps (gt_slow_reference_x10 st1) (uint (median_value st1) * 10) steps\<rparr>))"

text \<open>Bars and warning: a warning overrides the ladder.\<close>

definition gauge_display ::
    "gauge_profile \<Rightarrow> gauge_observation \<Rightarrow> u16 \<Rightarrow> u16 \<Rightarrow> u16 \<Rightarrow> gauge_state \<Rightarrow> gauge_state \<times> u8 \<times> battery_gauge_warning" where
  "gauge_display p ob fast_mv symmetric_mv reference_mv st =
     (let (b1, bars) = bar_step p reference_mv (go_charge_active ob) (go_continuity_valid ob)
            (go_session_delta_nah ob) (gt_bar st);
          (w1, warning) = warning_step (go_now_ms ob)
            (instant_warning (go_terminal_mv ob) fast_mv symmetric_mv reference_mv) (gt_warning st);
          force = (\<lambda>n. bar_force_warning n (go_continuity_valid ob) (go_session_delta_nah ob) b1);
          (b2, bars1) = (case warning of
              BATTERY_GAUGE_WARNING_HEALTHY \<Rightarrow> (b1, bars)
            | BATTERY_GAUGE_WARNING_LOW \<Rightarrow> (force 1, 1)
            | BATTERY_GAUGE_WARNING_EMPTY \<Rightarrow> (force 0, 0))
      in (st\<lparr>gt_bar := b2, gt_warning := w1\<rparr>, bars1, warning))"

text \<open>A new session starts over; then the same sample is never used twice.\<close>

definition gauge_session_step :: "gauge_observation \<Rightarrow> gauge_state \<Rightarrow> gauge_state" where
  "gauge_session_step ob st =
     (if \<not> gt_session_seen st \<or> gt_gauge_session st \<noteq> go_gauge_session ob
      then gauge_state_zero\<lparr>gt_session_seen := True, gt_gauge_session := go_gauge_session ob\<rparr>
      else st)"

text \<open>The estimator itself, for a valid sample that is due.\<close>

definition gauge_model :: "gauge_profile \<Rightarrow> gauge_observation \<Rightarrow> gauge_state \<Rightarrow> gauge_state" where
  "gauge_model p ob st =
     (let st1 = update_window_current ob st;
          steps = (if gt_model_seeded st then unat (model_catchup_steps (go_now_ms ob - gt_last_model_ms st)) else 1);
          st2 = gauge_fast_filters steps (uint (go_terminal_mv ob) * 10) st1;
          fast_mv = x10_to_mv (gt_fast_peak_x10 st2);
          symmetric_mv = x10_to_mv (gt_fast_symmetric_x10 st2);
          current_ua = (if go_current_valid ob then go_current_ua ob
            else - uint (gp_reference_current_ma p) * 1000);
          correction_mv = battery_gauge_load_correction_mv (Some p) current_ua
            (gs_window_current_ua (gt_snapshot st2)) (gs_window_current_valid (gt_snapshot st2))
            (go_charge_active ob);
          corrected_mv = clamp_mv_i32 (uint fast_mv + correction_mv);
          st3 = gauge_slow_reference steps corrected_mv (go_now_ms ob) st2;
          reference_mv = x10_to_mv (gt_slow_reference_x10 st3);
          (st4, bars, warning) = gauge_display p ob fast_mv symmetric_mv reference_mv st3;
          sn = gt_snapshot st4
      in st4\<lparr>gt_last_model_ms := go_now_ms ob, gt_model_seeded := True,
             gt_snapshot := sn\<lparr>gs_valid := True, gs_fast_terminal_mv := fast_mv,
               gs_symmetric_terminal_mv := symmetric_mv, gs_reference_mv := reference_mv,
               gs_correction_mv := correction_mv, gs_bars := bars, gs_warning := warning,
               gs_model_sequence := gs_model_sequence sn + 1\<rparr>\<rparr>)"

definition gauge_update :: "gauge_profile \<Rightarrow> gauge_observation \<Rightarrow> gauge_state \<Rightarrow> gauge_state \<times> bool" where
  "gauge_update p ob st =
     (let st1 = gauge_session_step ob st in
      if gt_sample_seen st1 \<and> gt_last_sample_sequence st1 = go_sample_sequence ob then (st1, False)
      else
        (let st2 = st1\<lparr>gt_sample_seen := True, gt_last_sample_sequence := go_sample_sequence ob,
               gt_snapshot := (gt_snapshot st1)\<lparr>gs_terminal_mv := go_terminal_mv ob\<rparr>\<rparr>
         in
         if \<not> go_sample_valid ob then (st2\<lparr>gt_snapshot := (gt_snapshot st2)\<lparr>gs_valid := False\<rparr>\<rparr>, False)
         else if gt_model_seeded st2 \<and> go_now_ms ob - gt_last_model_ms st2 < BATTERY_GAUGE_MODEL_PERIOD_MS
         then (st2\<lparr>gt_snapshot := (gt_snapshot st2)\<lparr>gs_valid := True\<rparr>\<rparr>, False)
         else (gauge_model p ob (st2\<lparr>gt_snapshot := (gt_snapshot st2)\<lparr>gs_valid := gt_model_seeded st2\<rparr>\<rparr>), True)))"

definition battery_gauge_update ::
    "gauge_profile option \<Rightarrow> gauge_observation option \<Rightarrow> gauge_state option \<Rightarrow> gauge_state option \<times> bool" where
  "battery_gauge_update po oo so =
     (case (so, oo) of
        (Some st, Some ob) \<Rightarrow> apfst Some (gauge_update (gauge_profile_or po) ob st)
      | _ \<Rightarrow> (so, False))"

definition battery_gauge_get_snapshot :: "gauge_state option \<Rightarrow> gauge_snapshot" where
  "battery_gauge_get_snapshot so = (case so of None \<Rightarrow> gauge_snapshot_zero | Some st \<Rightarrow> gt_snapshot st)"

section \<open>The power-on qualifier\<close>

definition power_on_qualifier_zero :: power_on_qualifier where
  "power_on_qualifier_zero =
     \<lparr>pq_samples_mv = [0, 0, 0, 0, 0], pq_gauge_session = 0, pq_last_attempt_sequence = 0, pq_sum_mv = 0,
      pq_sample_count = 0, pq_next_sample = 0, pq_attempts = 0, pq_session_seen = False, pq_sample_seen = False\<rparr>"

definition battery_power_on_qualifier_init :: "power_on_qualifier option \<Rightarrow> power_on_qualifier option" where
  "battery_power_on_qualifier_init so = map_option (\<lambda>_. power_on_qualifier_zero) so"

definition qualifier_take :: "u16 \<Rightarrow> power_on_qualifier \<Rightarrow> power_on_qualifier" where
  "qualifier_take terminal_mv q =
     (if pq_sample_count q < BATTERY_POWER_ON_REQUIRED_VALID
      then (let n = pq_sample_count q + 1 in
            q\<lparr>pq_samples_mv := (pq_samples_mv q)[unat (pq_sample_count q) := terminal_mv], pq_sample_count := n,
              pq_sum_mv := pq_sum_mv q + ucast terminal_mv,
              pq_next_sample := (if n = BATTERY_POWER_ON_REQUIRED_VALID then 0 else pq_next_sample q)\<rparr>)
      else (let i = pq_next_sample q in
            q\<lparr>pq_sum_mv := pq_sum_mv q - ucast (pq_samples_mv q ! unat i) + ucast terminal_mv,
              pq_samples_mv := (pq_samples_mv q)[unat i := terminal_mv],
              pq_next_sample := of_nat ((unat i + 1) mod unat BATTERY_POWER_ON_REQUIRED_VALID)\<rparr>))"

definition qualifier_observe :: "u32 \<Rightarrow> u32 \<Rightarrow> bool \<Rightarrow> u16 \<Rightarrow> power_on_qualifier \<Rightarrow> power_on_qualifier" where
  "qualifier_observe gauge_session attempt_sequence sample_valid terminal_mv q =
     (let q1 = (if \<not> pq_session_seen q \<or> pq_gauge_session q \<noteq> gauge_session
            then power_on_qualifier_zero\<lparr>pq_session_seen := True, pq_gauge_session := gauge_session\<rparr> else q)
      in
      if pq_sample_seen q1 \<and> pq_last_attempt_sequence q1 = attempt_sequence then q1
      else
        (let q2 = q1\<lparr>pq_sample_seen := True, pq_last_attempt_sequence := attempt_sequence,
               pq_attempts := (if pq_attempts q1 < BATTERY_POWER_ON_MAX_ATTEMPTS
                 then pq_attempts q1 + 1 else pq_attempts q1)\<rparr>
         in if sample_valid then qualifier_take terminal_mv q2 else q2))"

definition battery_power_on_qualifier_observe ::
    "u32 \<Rightarrow> u32 \<Rightarrow> bool \<Rightarrow> u16 \<Rightarrow> power_on_qualifier option \<Rightarrow> power_on_qualifier option" where
  "battery_power_on_qualifier_observe gauge_session attempt_sequence sample_valid terminal_mv so =
     map_option (qualifier_observe gauge_session attempt_sequence sample_valid terminal_mv) so"

definition battery_power_on_qualifier_ready :: "power_on_qualifier option \<Rightarrow> bool" where
  "battery_power_on_qualifier_ready so =
     (case so of
        None \<Rightarrow> False
      | Some q \<Rightarrow> pq_sample_count q \<noteq> 0 \<and>
          (BATTERY_POWER_ON_REQUIRED_VALID \<le> pq_sample_count q \<or> BATTERY_POWER_ON_MAX_ATTEMPTS \<le> pq_attempts q))"

definition battery_power_on_qualifier_sample_count :: "power_on_qualifier option \<Rightarrow> u8" where
  "battery_power_on_qualifier_sample_count so = (case so of None \<Rightarrow> 0 | Some q \<Rightarrow> pq_sample_count q)"

definition battery_power_on_qualifier_attempt_count :: "power_on_qualifier option \<Rightarrow> u8" where
  "battery_power_on_qualifier_attempt_count so = (case so of None \<Rightarrow> 0 | Some q \<Rightarrow> pq_attempts q)"

definition battery_power_on_qualifier_average_mv :: "power_on_qualifier option \<Rightarrow> u16" where
  "battery_power_on_qualifier_average_mv so =
     (case so of
        None \<Rightarrow> 0
      | Some q \<Rightarrow> if pq_sample_count q = 0 then 0 else ucast (pq_sum_mv q div ucast (pq_sample_count q)))"

end
