(* ===== verification/Gauge_Safety.thy ===== *)
theory Gauge_Safety
  imports Charge_Values Battery_Gauge
begin

text \<open>
  What the voltage gauge promises: its filters never overshoot and its values stay in their C types,
  bars rise only on evidence, and a warning is entered only after twenty seconds.
\<close>

section \<open>Arithmetic\<close>

lemma sdiv_pos: "0 \<le> a \<Longrightarrow> 0 < b \<Longrightarrow> a sdiv b = a div b" for a b :: int
  by (cases "a = 0") (simp_all add: signed_divide_int_def sgn_if)

lemma sdiv_neg: "a < 0 \<Longrightarrow> 0 < b \<Longrightarrow> a sdiv b = - ((- a) div b)" for a b :: int
  by (simp add: signed_divide_int_def sgn_if)

text \<open>One filter step moves towards the target and never past it.\<close>

lemma iir_step_cases:
  "current < target \<Longrightarrow> current < iir_one_tenth_step current target \<and> iir_one_tenth_step current target \<le> target"
  "target < current \<Longrightarrow> target \<le> iir_one_tenth_step current target \<and> iir_one_tenth_step current target < current"
  "iir_one_tenth_step current current = current"
proof -
  assume "current < target"
  moreover have "(target - current) sdiv 10 = (target - current) div 10" if "current < target"
    using that by (intro sdiv_pos) simp_all
  ultimately show "current < iir_one_tenth_step current target \<and> iir_one_tenth_step current target \<le> target"
    by (simp add: iir_one_tenth_step_def Let_def) linarith
next
  assume t: "target < current"
  then have "(target - current) sdiv 10 = - ((current - target) div 10)"
    using sdiv_neg [of "target - current" 10] by simp
  then show "target \<le> iir_one_tenth_step current target \<and> iir_one_tenth_step current target < current"
    using t by (simp add: iir_one_tenth_step_def Let_def) linarith
qed (simp add: iir_one_tenth_step_def)

lemma iir_between:
  "min current target \<le> iir_one_tenth_steps current target n \<and>
   iir_one_tenth_steps current target n \<le> max current target"
proof (induction n arbitrary: current)
  case (Suc n)
  consider "current = target" | "current < target" | "target < current"
    by linarith
  then show ?case
    by cases (use Suc [of "iir_one_tenth_step current target"] iir_step_cases(1,2) [of current target]
        iir_step_cases(2) [of target current] in \<open>auto simp add: min_def max_def split: if_splits\<close>)
qed simp

lemma window_average_range:
  assumes "0 < uint elapsed"
  shows "I32_MIN \<le> window_average_ua d elapsed \<and> window_average_ua d elapsed \<le> I32_MAX"
proof -
  define e where "e = uint elapsed"
  have e: "0 < e"
    using assms by (simp add: e_def)
  have "I32_MIN \<le> (d * 3600) sdiv e \<and> (d * 3600) sdiv e \<le> I32_MAX"
    if "\<not> (I32_MAX * e) sdiv 3600 < d" "\<not> d < (I32_MIN * e) sdiv 3600"
  proof (cases "0 \<le> d")
    case True
    have "d \<le> (I32_MAX * e) div 3600"
      using that(1) e by (simp add: sdiv_pos)
    then have "d * 3600 \<le> I32_MAX * e"
      using e by linarith
    then have "(d * 3600) div e \<le> I32_MAX"
      using e by (metis div_le_mono nonzero_mult_div_cancel_right less_irrefl zdiv_mono1)
    moreover have "0 \<le> (d * 3600) div e"
      using True e by (simp add: pos_imp_zdiv_nonneg_iff)
    ultimately show ?thesis
      using True e by (simp add: sdiv_pos)
  next
    case False
    have "- (d * 3600) \<le> 2147483648 * e"
      using that(2) sdiv_neg [of "I32_MIN * e" 3600] e False by simp
    then have "(- (d * 3600)) div e \<le> 2147483648"
      using e by (metis nonzero_mult_div_cancel_right less_irrefl zdiv_mono1)
    moreover have "0 \<le> (- (d * 3600)) div e"
      using False e by (simp add: pos_imp_zdiv_nonneg_iff)
    ultimately show ?thesis
      using False e sdiv_neg [of "d * 3600" e] by simp
  qed
  then show ?thesis
    by (simp add: window_average_ua_def Let_def e_def [symmetric])
qed

lemma correction_bound:
  "\<bar>battery_gauge_load_correction_mv po i w v c\<bar> \<le> uint (gp_max_compensation_mv (gauge_profile_or po))"
  "\<bar>battery_gauge_load_correction_mv po i w v c\<bar> \<le> 32767"
  by (auto simp add: battery_gauge_load_correction_mv_def Let_def clamp_i32_def)

lemma uint_u16: "0 \<le> uint (v :: u16)" "uint (v :: u16) \<le> 65535"
  using uint_lt2p [of v] by simp_all

lemma unat_u16: "unat (v :: u16) < 65536"
  using unsigned_less [of v] by simp

lemma bars_from_mv_cases:
  "battery_gauge_bars_from_mv mv =
     (if VBAT_BAR4_MV \<le> mv then 4 else if VBAT_BAR3_MV \<le> mv then 3
      else if VBAT_BAR2_MV \<le> mv then 2 else if VBAT_BAR1_MV \<le> mv then 1 else 0)"
proof -
  have "(4 :: nat) = Suc (Suc (Suc (Suc 0)))"
    by simp
  then show ?thesis
    unfolding battery_gauge_bars_from_mv_def by (simp only: bars_scan.simps) (simp add: bar_floors_def)
qed

lemma bars_small: "battery_gauge_bars_from_mv mv \<le> 4"
  by (simp add: bars_from_mv_cases)

lemma search_elapsed:
  "fst r = None \<or> BATTERY_GAUGE_CURRENT_WINDOW_MIN_MS \<le> snd (snd r) \<Longrightarrow>
   fst (fold (window_search_step now) cs r) = None \<or>
   BATTERY_GAUGE_CURRENT_WINDOW_MIN_MS \<le> snd (snd (fold (window_search_step now) cs r))"
proof (induction cs arbitrary: r)
  case (Cons c cs)
  have "fst (window_search_step now c r) = None \<or>
      BATTERY_GAUGE_CURRENT_WINDOW_MIN_MS \<le> snd (snd (window_search_step now c r))"
    using Cons.prems by (auto simp add: window_search_step_def Let_def case_prod_beta not_less)
  then show ?case
    using Cons.IH by simp
qed simp

section \<open>Well-formed gauges\<close>

definition gauge_ok :: "gauge_state \<Rightarrow> bool" where
  "gauge_ok st \<longleftrightarrow>
     length (gt_median st) \<le> BATTERY_GAUGE_MEDIAN_CAPACITY \<and>
     length (gt_current_history st) \<le> BATTERY_GAUGE_CURRENT_HISTORY_CAPACITY \<and>
     gt_fast_peak_x10 st \<in> {0..655350} \<and> gt_fast_symmetric_x10 st \<in> {0..655350} \<and>
     gt_slow_reference_x10 st \<in> {0..655350} \<and> bs_committed (gt_bar st) \<le> 4 \<and>
     gs_bars (gt_snapshot st) \<le> 4 \<and> gs_window_current_ua (gt_snapshot st) \<in> {I32_MIN..I32_MAX} \<and>
     gs_correction_mv (gt_snapshot st) \<in> {- 32767..32767} \<and>
     (gt_model_seeded st \<longrightarrow> gt_median st \<noteq> [] \<and> bs_seeded (gt_bar st) \<and> ws_seeded (gt_warning st) \<and>
        gs_bars (gt_snapshot st) = bs_committed (gt_bar st) \<and>
        gs_warning (gt_snapshot st) = ws_committed (gt_warning st) \<and>
        (gs_warning (gt_snapshot st) = BATTERY_GAUGE_WARNING_LOW \<longrightarrow> gs_bars (gt_snapshot st) = 1) \<and>
        (gs_warning (gt_snapshot st) = BATTERY_GAUGE_WARNING_EMPTY \<longrightarrow> gs_bars (gt_snapshot st) = 0)) \<and>
     (\<not> gt_model_seeded st \<longrightarrow> gt_bar st = bar_state_zero \<and> gt_warning st = warning_state_zero \<and>
        gs_warning (gt_snapshot st) = BATTERY_GAUGE_WARNING_HEALTHY)"

lemma zero_gauge: "gauge_ok gauge_state_zero"
  by (simp add: gauge_ok_def gauge_state_zero_def gauge_snapshot_zero_def bar_state_zero_def)

text \<open>The stages in turn: what they leave alone and what they keep in range.\<close>

lemma window_frames:
  "gt_bar (update_window_current ob st) = gt_bar st" "gt_warning (update_window_current ob st) = gt_warning st"
  "gt_median (update_window_current ob st) = gt_median st"
  "gt_fast_peak_x10 (update_window_current ob st) = gt_fast_peak_x10 st"
  "gt_fast_symmetric_x10 (update_window_current ob st) = gt_fast_symmetric_x10 st"
  "gt_slow_reference_x10 (update_window_current ob st) = gt_slow_reference_x10 st"
  "gt_model_seeded (update_window_current ob st) = gt_model_seeded st"
  by (simp_all add: update_window_current_def current_history_clear_def Let_def case_prod_beta)

lemma window_range:
  assumes "gs_window_current_ua (gt_snapshot st) \<in> {I32_MIN..I32_MAX}"
  shows "gs_window_current_ua (gt_snapshot (update_window_current ob st)) \<in> {I32_MIN..I32_MAX}"
proof -
  define r where "r = fold (window_search_step (go_now_ms ob))
    (gt_current_history (current_history_prune (go_now_ms ob) st)) (None, 0xffffffff, 0)"
  have "fst r = None \<or> BATTERY_GAUGE_CURRENT_WINDOW_MIN_MS \<le> snd (snd r)"
    unfolding r_def by (rule search_elapsed) simp
  then have "fst r \<noteq> None \<Longrightarrow> 0 < uint (snd (snd r))"
    by (auto simp add: word_le_def)
  then show ?thesis
    using assms window_average_range [of "snd (snd r)"]
    unfolding update_window_current_def Let_def case_prod_beta r_def [symmetric]
    by (auto simp add: current_history_clear_def split: option.splits)
qed

lemma filter_capped: "length xs \<le> n \<Longrightarrow> length (filter P xs) \<le> n"
  using length_filter_le order_trans by blast

lemma window_history:
  assumes "length (gt_current_history st) \<le> BATTERY_GAUGE_CURRENT_HISTORY_CAPACITY"
  shows "length (gt_current_history (update_window_current ob st)) \<le> BATTERY_GAUGE_CURRENT_HISTORY_CAPACITY"
proof -
  define kept where "kept = gt_current_history (current_history_prune (go_now_ms ob) st)"
  have "length kept \<le> 8"
    by (simp add: kept_def current_history_prune_def filter_capped assms)
  then show ?thesis
    unfolding update_window_current_def Let_def case_prod_beta kept_def [symmetric]
    by (auto simp add: current_history_clear_def)
qed

lemma fast_frames:
  "gt_bar (gauge_fast_filters n t st) = gt_bar st" "gt_warning (gauge_fast_filters n t st) = gt_warning st"
  "gt_median (gauge_fast_filters n t st) = gt_median st"
  "gt_slow_reference_x10 (gauge_fast_filters n t st) = gt_slow_reference_x10 st"
  "gt_model_seeded (gauge_fast_filters n t st) = gt_model_seeded st"
  "gt_snapshot (gauge_fast_filters n t st) = gt_snapshot st"
  "gt_current_history (gauge_fast_filters n t st) = gt_current_history st"
  by (simp_all add: gauge_fast_filters_def)

lemma iir_range: "c \<in> {0..655350} \<Longrightarrow> t \<in> {0..655350} \<Longrightarrow> iir_one_tenth_steps c t n \<in> {0..655350}"
  using iir_between [of c t n] by auto

lemma fast_range:
  assumes "gt_fast_peak_x10 st \<in> {0..655350}" "gt_fast_symmetric_x10 st \<in> {0..655350}" "t \<in> {0..655350}"
  shows "gt_fast_peak_x10 (gauge_fast_filters n t st) \<in> {0..655350}"
    "gt_fast_symmetric_x10 (gauge_fast_filters n t st) \<in> {0..655350}"
  using assms iir_range [of _ t n] by (simp_all add: gauge_fast_filters_def)

lemma slow_frames:
  "gt_bar (gauge_slow_reference n c now st) = gt_bar st" "gt_warning (gauge_slow_reference n c now st) = gt_warning st"
  "gt_fast_peak_x10 (gauge_slow_reference n c now st) = gt_fast_peak_x10 st"
  "gt_fast_symmetric_x10 (gauge_slow_reference n c now st) = gt_fast_symmetric_x10 st"
  "gt_model_seeded (gauge_slow_reference n c now st) = gt_model_seeded st"
  "gt_snapshot (gauge_slow_reference n c now st) = gt_snapshot st"
  "gt_current_history (gauge_slow_reference n c now st) = gt_current_history st"
  by (simp_all add: gauge_slow_reference_def median_seed_def median_append_def Let_def)

lemma x10_range: "uint (v :: u16) * 10 \<in> {0..655350}"
  using uint_u16 [of v] by simp

lemma slow_range:
  assumes "gt_slow_reference_x10 st \<in> {0..655350}"
  shows "gt_slow_reference_x10 (gauge_slow_reference n c now st) \<in> {0..655350}"
proof -
  have "gt_slow_reference_x10 (gauge_slow_reference n c now st) \<in> {0..655350}" if "gt_model_seeded st"
    using that assms iir_range [OF _ x10_range]
    by (simp add: gauge_slow_reference_def median_append_def Let_def)
  moreover have "gt_slow_reference_x10 (gauge_slow_reference n c now st) \<in> {0..655350}" if "\<not> gt_model_seeded st"
    using that x10_range by (simp add: gauge_slow_reference_def Let_def)
  ultimately show ?thesis
    by blast
qed

lemma slow_median:
  assumes "length (gt_median st) \<le> BATTERY_GAUGE_MEDIAN_CAPACITY"
  shows "length (gt_median (gauge_slow_reference n c now st)) \<le> BATTERY_GAUGE_MEDIAN_CAPACITY \<and>
    gt_median (gauge_slow_reference n c now st) \<noteq> []"
proof -
  define kept where "kept = gt_median (median_prune now st)"
  have "length kept \<le> 15"
    by (simp add: kept_def median_prune_def filter_capped assms)
  then show ?thesis
    unfolding gauge_slow_reference_def median_append_def Let_def kept_def [symmetric]
    by (auto simp add: median_seed_def)
qed

lemma bar_step_ok:
  "bs_committed b \<le> 4 \<Longrightarrow> snd (bar_step p mv a c d b) \<le> 4 \<and> bs_seeded (fst (bar_step p mv a c d b)) \<and>
    bs_committed (fst (bar_step p mv a c d b)) = snd (bar_step p mv a c d b)"
  using bars_small [of mv] by (auto simp add: bar_step_def bar_note_commit_def Let_def)

lemma warning_step_ok:
  "ws_seeded (fst (warning_step now i w)) \<and> ws_committed (fst (warning_step now i w)) = snd (warning_step now i w)"
  by (simp add: warning_step_def)

lemma force_ok:
  "bs_committed (bar_force_warning n c d b) = n \<and> bs_seeded (bar_force_warning n c d b)"
  by (auto simp add: bar_force_warning_def bar_note_commit_def)

lemma display_ok:
  assumes "bs_committed (gt_bar st) \<le> 4" "gauge_display p ob f s r st = (st', bars, warning)"
  shows "bars \<le> 4 \<and> bs_seeded (gt_bar st') \<and> ws_seeded (gt_warning st') \<and> bs_committed (gt_bar st') = bars \<and>
    ws_committed (gt_warning st') = warning \<and> (warning = BATTERY_GAUGE_WARNING_LOW \<longrightarrow> bars = 1) \<and>
    (warning = BATTERY_GAUGE_WARNING_EMPTY \<longrightarrow> bars = 0)"
  using assms bar_step_ok [OF assms(1)] warning_step_ok force_ok
  by (auto simp add: gauge_display_def case_prod_beta Let_def split: battery_gauge_warning.splits)

lemma display_frames:
  assumes "gauge_display p ob f s r st = (st', bars, warning)"
  shows "\<exists>b w. st' = st\<lparr>gt_bar := b, gt_warning := w\<rparr>"
  using assms by (auto simp add: gauge_display_def case_prod_beta Let_def)

text \<open>The estimator in its stages.\<close>

lemma model_stages:
  obtains st3 st4 fast symmetric bars warning correction n where
    "st3 = gauge_slow_reference n (clamp_mv_i32 (uint fast + correction)) (go_now_ms ob)
       (gauge_fast_filters n (uint (go_terminal_mv ob) * 10) (update_window_current ob st))"
    "\<bar>correction\<bar> \<le> 32767" "fast = x10_to_mv (gt_fast_peak_x10 st3)"
    "gauge_display p ob fast symmetric (x10_to_mv (gt_slow_reference_x10 st3)) st3 = (st4, bars, warning)"
    "gauge_model p ob st = st4\<lparr>gt_last_model_ms := go_now_ms ob, gt_model_seeded := True,
       gt_snapshot := (gt_snapshot st4)\<lparr>gs_valid := True, gs_fast_terminal_mv := fast,
         gs_symmetric_terminal_mv := symmetric, gs_reference_mv := x10_to_mv (gt_slow_reference_x10 st3),
         gs_correction_mv := correction, gs_bars := bars, gs_warning := warning,
         gs_model_sequence := gs_model_sequence (gt_snapshot st4) + 1\<rparr>\<rparr>"
proof -
  define n where "n = (if gt_model_seeded (update_window_current ob st)
    then unat (model_catchup_steps (go_now_ms ob - gt_last_model_ms (update_window_current ob st))) else 1)"
  define st2 where "st2 = gauge_fast_filters n (uint (go_terminal_mv ob) * 10) (update_window_current ob st)"
  define fast where "fast = x10_to_mv (gt_fast_peak_x10 st2)"
  define symmetric where "symmetric = x10_to_mv (gt_fast_symmetric_x10 st2)"
  define correction where "correction = battery_gauge_load_correction_mv (Some p)
    (if go_current_valid ob then go_current_ua ob else - uint (gp_reference_current_ma p) * 1000)
    (gs_window_current_ua (gt_snapshot st2)) (gs_window_current_valid (gt_snapshot st2)) (go_charge_active ob)"
  define st3 where "st3 = gauge_slow_reference n (clamp_mv_i32 (uint fast + correction)) (go_now_ms ob) st2"
  obtain st4 bars warning where d:
    "gauge_display p ob fast symmetric (x10_to_mv (gt_slow_reference_x10 st3)) st3 = (st4, bars, warning)"
    by (rule prod_cases3)
  have fast: "fast = x10_to_mv (gt_fast_peak_x10 st3)"
    by (simp add: fast_def st3_def slow_frames)
  have w: "gt_model_seeded (update_window_current ob st) = gt_model_seeded st"
    "gt_last_model_ms (update_window_current ob st) = gt_last_model_ms st"
    by (simp_all add: update_window_current_def current_history_clear_def Let_def case_prod_beta)
  have c: "\<bar>correction\<bar> \<le> 32767"
    unfolding correction_def by (rule correction_bound(2))
  show ?thesis
    by (rule that [OF _ c fast d])
      (simp_all only: gauge_model_def Let_def n_def [symmetric, unfolded w] st2_def [symmetric] fast_def [symmetric]
        symmetric_def [symmetric] correction_def [symmetric] st3_def [symmetric] d prod.case, simp only: st3_def st2_def)
qed

lemma model_ok:
  assumes ok: "gauge_ok st"
  shows "gauge_ok (gauge_model p ob st)"
proof -
  obtain st3 st4 fast symmetric bars warning correction n where
    st3: "st3 = gauge_slow_reference n (clamp_mv_i32 (uint fast + correction)) (go_now_ms ob)
       (gauge_fast_filters n (uint (go_terminal_mv ob) * 10) (update_window_current ob st))"
    and c: "\<bar>correction\<bar> \<le> 32767"
    and d: "gauge_display p ob fast symmetric (x10_to_mv (gt_slow_reference_x10 st3)) st3 = (st4, bars, warning)"
    and m: "gauge_model p ob st = st4\<lparr>gt_last_model_ms := go_now_ms ob, gt_model_seeded := True,
       gt_snapshot := (gt_snapshot st4)\<lparr>gs_valid := True, gs_fast_terminal_mv := fast,
         gs_symmetric_terminal_mv := symmetric, gs_reference_mv := x10_to_mv (gt_slow_reference_x10 st3),
         gs_correction_mv := correction, gs_bars := bars, gs_warning := warning,
         gs_model_sequence := gs_model_sequence (gt_snapshot st4) + 1\<rparr>\<rparr>"
    by (rule model_stages)
  have "gs_window_current_ua (gt_snapshot st3) \<in> {I32_MIN..I32_MAX}"
    "length (gt_current_history st3) \<le> 8" "length (gt_median st3) \<le> 15 \<and> gt_median st3 \<noteq> []"
    "gt_fast_peak_x10 st3 \<in> {0..655350}" "gt_fast_symmetric_x10 st3 \<in> {0..655350}"
    "gt_slow_reference_x10 st3 \<in> {0..655350}" "bs_committed (gt_bar st3) \<le> 4"
    using ok window_range [of st ob] window_history [of st ob] slow_median fast_range slow_range x10_range
    unfolding st3 gauge_ok_def slow_frames fast_frames window_frames by (auto simp add: fast_frames window_frames)
  then show ?thesis
    using display_ok [OF _ d] display_frames [OF d] c by (auto simp add: m gauge_ok_def)
qed

section \<open>Runs of the gauge\<close>

text \<open>The readings of a session on which the model ran: when, and what they said at once.\<close>

type_synonym warning_log = "(u32 \<times> battery_gauge_warning) list"

definition gauge_log :: "gauge_observation \<Rightarrow> gauge_state \<Rightarrow> gauge_state \<times> bool \<Rightarrow> warning_log \<Rightarrow> warning_log" where
  "gauge_log ob st r h =
     (let kept = (if \<not> gt_session_seen st \<or> gt_gauge_session st \<noteq> go_gauge_session ob then [] else h);
          sn = gt_snapshot (fst r)
      in if snd r
         then kept @ [(go_now_ms ob, instant_warning (go_terminal_mv ob) (gs_fast_terminal_mv sn)
                (gs_symmetric_terminal_mv sn) (gs_reference_mv sn))]
         else kept)"

inductive gauge_trace :: "gauge_state \<Rightarrow> warning_log \<Rightarrow> bool" where
  started: "gauge_trace gauge_state_zero []"
| updated: "gauge_trace st h \<Longrightarrow> gauge_trace (fst (gauge_update p ob st)) (gauge_log ob st (gauge_update p ob st) h)"

lemma session_step_ok: "gauge_ok st \<Longrightarrow> gauge_ok (gauge_session_step ob st)"
proof -
  have "gauge_ok (gauge_state_zero\<lparr>gt_session_seen := True, gt_gauge_session := g\<rparr>)" for g
    by (simp add: gauge_ok_def gauge_state_zero_def gauge_snapshot_zero_def bar_state_zero_def)
  then show "gauge_ok st \<Longrightarrow> gauge_ok (gauge_session_step ob st)"
    by (simp add: gauge_session_step_def)
qed

lemma sampled_ok:
  "gauge_ok st \<Longrightarrow> gauge_ok (st\<lparr>gt_sample_seen := True, gt_last_sample_sequence := q,
     gt_snapshot := (gt_snapshot st)\<lparr>gs_terminal_mv := mv, gs_valid := v\<rparr>\<rparr>)"
  by (auto simp add: gauge_ok_def)

text \<open>An update either runs the model on the session's state or touches no estimate.\<close>

lemma update_cases:
  obtains (model) st1 where "gauge_update p ob st = (gauge_model p ob st1, True)"
    "\<exists>q mv v. st1 = (gauge_session_step ob st)\<lparr>gt_sample_seen := True, gt_last_sample_sequence := q,
       gt_snapshot := (gt_snapshot (gauge_session_step ob st))\<lparr>gs_terminal_mv := mv, gs_valid := v\<rparr>\<rparr>"
  | (idle) st1 where "gauge_update p ob st = (st1, False)" "st1 = gauge_session_step ob st \<or>
      (\<exists>q mv v. st1 = (gauge_session_step ob st)\<lparr>gt_sample_seen := True, gt_last_sample_sequence := q,
         gt_snapshot := (gt_snapshot (gauge_session_step ob st))\<lparr>gs_terminal_mv := mv, gs_valid := v\<rparr>\<rparr>)"
proof -
  define s where "s = gauge_session_step ob st"
  define t where "t v = s\<lparr>gt_sample_seen := True, gt_last_sample_sequence := go_sample_sequence ob,
    gt_snapshot := (gt_snapshot s)\<lparr>gs_terminal_mv := go_terminal_mv ob, gs_valid := v\<rparr>\<rparr>" for v
  have "gauge_update p ob st =
    (if gt_sample_seen s \<and> gt_last_sample_sequence s = go_sample_sequence ob then (s, False)
     else if \<not> go_sample_valid ob then (t False, False)
     else if gt_model_seeded s \<and> go_now_ms ob - gt_last_model_ms s < BATTERY_GAUGE_MODEL_PERIOD_MS then (t True, False)
     else (gauge_model p ob (t (gt_model_seeded s)), True))"
    by (simp add: gauge_update_def Let_def s_def [symmetric] t_def)
  moreover have "\<exists>q mv v'. t v = s\<lparr>gt_sample_seen := True, gt_last_sample_sequence := q,
      gt_snapshot := (gt_snapshot s)\<lparr>gs_terminal_mv := mv, gs_valid := v'\<rparr>\<rparr>" for v
    unfolding t_def by blast
  ultimately show ?thesis
    using model [of "t (gt_model_seeded s)"] idle [of s] idle [of "t False"] idle [of "t True"]
    unfolding s_def by metis
qed

lemma gauge_update_ok: "gauge_ok st \<Longrightarrow> gauge_ok (fst (gauge_update p ob st))"
  by (rule update_cases [of p ob st]) (auto simp add: model_ok session_step_ok sampled_ok)

lemma trace_ok: "gauge_trace st h \<Longrightarrow> gauge_ok st"
  by (induction rule: gauge_trace.induct) (simp_all add: zero_gauge gauge_update_ok)

text \<open>What the model does to the bar and to the warning.\<close>

lemma model_display:
  obtains bars warning b1 where
    "(b1, bars) = bar_step p (gs_reference_mv (gt_snapshot (gauge_model p ob st))) (go_charge_active ob)
       (go_continuity_valid ob) (go_session_delta_nah ob) (gt_bar st)"
    "(gt_warning (gauge_model p ob st), warning) = warning_step (go_now_ms ob)
       (let sn = gt_snapshot (gauge_model p ob st) in instant_warning (go_terminal_mv ob) (gs_fast_terminal_mv sn)
          (gs_symmetric_terminal_mv sn) (gs_reference_mv sn)) (gt_warning st)"
    "gs_warning (gt_snapshot (gauge_model p ob st)) = warning"
    "gs_bars (gt_snapshot (gauge_model p ob st)) = (case warning of BATTERY_GAUGE_WARNING_HEALTHY \<Rightarrow> bars
       | BATTERY_GAUGE_WARNING_LOW \<Rightarrow> 1 | BATTERY_GAUGE_WARNING_EMPTY \<Rightarrow> 0)"
    "gt_bar (gauge_model p ob st) = (case warning of BATTERY_GAUGE_WARNING_HEALTHY \<Rightarrow> b1
       | BATTERY_GAUGE_WARNING_LOW \<Rightarrow> bar_force_warning 1 (go_continuity_valid ob) (go_session_delta_nah ob) b1
       | BATTERY_GAUGE_WARNING_EMPTY \<Rightarrow> bar_force_warning 0 (go_continuity_valid ob) (go_session_delta_nah ob) b1)"
proof -
  obtain st3 st4 fast symmetric bars warning correction n where
    st3: "st3 = gauge_slow_reference n (clamp_mv_i32 (uint fast + correction)) (go_now_ms ob)
       (gauge_fast_filters n (uint (go_terminal_mv ob) * 10) (update_window_current ob st))"
    and d: "gauge_display p ob fast symmetric (x10_to_mv (gt_slow_reference_x10 st3)) st3 = (st4, bars, warning)"
    and m: "gauge_model p ob st = st4\<lparr>gt_last_model_ms := go_now_ms ob, gt_model_seeded := True,
       gt_snapshot := (gt_snapshot st4)\<lparr>gs_valid := True, gs_fast_terminal_mv := fast,
         gs_symmetric_terminal_mv := symmetric, gs_reference_mv := x10_to_mv (gt_slow_reference_x10 st3),
         gs_correction_mv := correction, gs_bars := bars, gs_warning := warning,
         gs_model_sequence := gs_model_sequence (gt_snapshot st4) + 1\<rparr>\<rparr>"
    by (rule model_stages)
  have f: "gt_bar st3 = gt_bar st" "gt_warning st3 = gt_warning st"
    by (simp_all add: st3 slow_frames fast_frames window_frames)
  obtain b1 n1 where b: "bar_step p (x10_to_mv (gt_slow_reference_x10 st3)) (go_charge_active ob)
      (go_continuity_valid ob) (go_session_delta_nah ob) (gt_bar st) = (b1, n1)"
    by fastforce
  obtain w1 v where w: "warning_step (go_now_ms ob) (instant_warning (go_terminal_mv ob) fast symmetric
      (x10_to_mv (gt_slow_reference_x10 st3))) (gt_warning st) = (w1, v)"
    by fastforce
  have e: "warning = v" "gt_warning st4 = w1"
    "bars = (case v of BATTERY_GAUGE_WARNING_HEALTHY \<Rightarrow> n1 | BATTERY_GAUGE_WARNING_LOW \<Rightarrow> 1
       | BATTERY_GAUGE_WARNING_EMPTY \<Rightarrow> 0)"
    "gt_bar st4 = (case v of BATTERY_GAUGE_WARNING_HEALTHY \<Rightarrow> b1
       | BATTERY_GAUGE_WARNING_LOW \<Rightarrow> bar_force_warning 1 (go_continuity_valid ob) (go_session_delta_nah ob) b1
       | BATTERY_GAUGE_WARNING_EMPTY \<Rightarrow> bar_force_warning 0 (go_continuity_valid ob) (go_session_delta_nah ob) b1)"
    using d by (auto simp add: gauge_display_def Let_def f b w split: battery_gauge_warning.splits)
  show ?thesis
    by (rule that [of b1 n1 v]) (simp_all add: m b w e Let_def)
qed

section \<open>Warnings are debounced\<close>

abbreviation "healthy \<equiv> BATTERY_GAUGE_WARNING_HEALTHY"

definition entered :: "warning_log \<Rightarrow> bool" where
  "entered h \<longleftrightarrow> (\<exists>pre run post. h = pre @ run @ post \<and> run \<noteq> [] \<and> (\<forall>x\<in>set (run @ post). snd x \<noteq> healthy) \<and>
     (pre = [] \<or> BATTERY_GAUGE_WARNING_ENTRY_MS \<le> fst (last run) - fst (hd run)))"

definition debounce_ok :: "warning_state \<Rightarrow> warning_log \<Rightarrow> bool" where
  "debounce_ok w h \<longleftrightarrow>
     (\<not> ws_seeded w \<longrightarrow> h = [] \<and> ws_committed w = healthy) \<and>
     (ws_pending w \<longrightarrow> (\<exists>pre e suf. h = pre @ e # suf \<and> fst e = ws_pending_since_ms w \<and>
        (\<forall>x\<in>set (e # suf). snd x \<noteq> healthy))) \<and>
     (ws_committed w \<noteq> healthy \<longrightarrow> entered h)"

lemma entered_more: "entered h \<Longrightarrow> i \<noteq> healthy \<Longrightarrow> entered (h @ [(now, i)])"
  unfolding entered_def
proof (elim exE conjE)
  fix pre run post
  assume "i \<noteq> healthy" "h = pre @ run @ post" "run \<noteq> []" "\<forall>x\<in>set (run @ post). snd x \<noteq> healthy"
    "pre = [] \<or> BATTERY_GAUGE_WARNING_ENTRY_MS \<le> fst (last run) - fst (hd run)"
  then show "\<exists>pre run post. h @ [(now, i)] = pre @ run @ post \<and> run \<noteq> [] \<and>
      (\<forall>x\<in>set (run @ post). snd x \<noteq> healthy) \<and>
      (pre = [] \<or> BATTERY_GAUGE_WARNING_ENTRY_MS \<le> fst (last run) - fst (hd run))"
    by (intro exI [of _ pre] exI [of _ run] exI [of _ "post @ [(now, i)]"]) auto
qed

lemma warning_step_debounced:
  assumes ok: "debounce_ok w h"
  shows "debounce_ok (fst (warning_step now i w)) (h @ [(now, i)])"
proof -
  have first: "entered (h @ [(now, i)])" if "\<not> ws_seeded w" "i \<noteq> healthy"
    using ok that unfolding debounce_ok_def entered_def
    by (intro exI [of _ "[]"] exI [of _ "[(now, i)]"]) auto
  have more: "entered (h @ [(now, i)])" if "ws_committed w \<noteq> healthy" "i \<noteq> healthy"
    using ok that by (intro entered_more) (simp_all add: debounce_ok_def)
  show ?thesis
  proof (cases "ws_pending w")
    case False
    have "\<exists>pre e suf. h @ [(now, i)] = pre @ e # suf \<and> fst e = now \<and> (\<forall>x\<in>set (e # suf). snd x \<noteq> healthy)"
      if "i \<noteq> healthy"
      using that by (intro exI [of _ h] exI [of _ "(now, i)"] exI [of _ "[]"]) simp
    then show ?thesis
      using False first more unfolding debounce_ok_def warning_step_def by simp
  next
    case True
    then obtain pre e suf where p: "h = pre @ e # suf" "fst e = ws_pending_since_ms w"
      "\<forall>x\<in>set (e # suf). snd x \<noteq> healthy"
      using ok unfolding debounce_ok_def by blast
    have "entered (h @ [(now, i)])" if "i \<noteq> healthy" "BATTERY_GAUGE_WARNING_ENTRY_MS \<le> now - ws_pending_since_ms w"
      using p that unfolding entered_def
      by (intro exI [of _ pre] exI [of _ "e # suf @ [(now, i)]"] exI [of _ "[]"]) auto
    moreover have "\<exists>pre e' suf'. h @ [(now, i)] = pre @ e' # suf' \<and> fst e' = ws_pending_since_ms w \<and>
        (\<forall>x\<in>set (e' # suf'). snd x \<noteq> healthy)" if "i \<noteq> healthy"
      using p that by (intro exI [of _ pre] exI [of _ e] exI [of _ "suf @ [(now, i)]"]) auto
    ultimately show ?thesis
      using True first more ok by (auto simp add: warning_step_def debounce_ok_def)
  qed
qed

lemma trace_debounced: "gauge_trace st h \<Longrightarrow> debounce_ok (gt_warning st) h"
proof (induction rule: gauge_trace.induct)
  case started
  then show ?case
    by (simp add: debounce_ok_def gauge_state_zero_def warning_state_zero_def)
next
  case (updated st h p ob)
  define s where "s = gauge_session_step ob st"
  define k where "k = (if \<not> gt_session_seen st \<or> gt_gauge_session st \<noteq> go_gauge_session ob then [] else h)"
  have k: "debounce_ok (gt_warning s) k"
    using updated.IH by (auto simp add: s_def k_def gauge_session_step_def gauge_state_zero_def debounce_ok_def
        warning_state_zero_def)
  show ?case
  proof (rule update_cases [of p ob st])
    fix st1 assume u: "gauge_update p ob st = (gauge_model p ob st1, True)"
      and "\<exists>q mv v. st1 = (gauge_session_step ob st)\<lparr>gt_sample_seen := True, gt_last_sample_sequence := q,
       gt_snapshot := (gt_snapshot (gauge_session_step ob st))\<lparr>gs_terminal_mv := mv, gs_valid := v\<rparr>\<rparr>"
    then have w: "gt_warning st1 = gt_warning s"
      by (auto simp add: s_def)
    obtain v where "(gt_warning (gauge_model p ob st1), v) = warning_step (go_now_ms ob)
       (let sn = gt_snapshot (gauge_model p ob st1) in instant_warning (go_terminal_mv ob) (gs_fast_terminal_mv sn)
          (gs_symmetric_terminal_mv sn) (gs_reference_mv sn)) (gt_warning st1)"
      by (rule model_display [of p ob st1])
    then have "gt_warning (gauge_model p ob st1) = fst (warning_step (go_now_ms ob)
       (instant_warning (go_terminal_mv ob) (gs_fast_terminal_mv (gt_snapshot (gauge_model p ob st1)))
          (gs_symmetric_terminal_mv (gt_snapshot (gauge_model p ob st1)))
          (gs_reference_mv (gt_snapshot (gauge_model p ob st1)))) (gt_warning s))"
      by (metis (no_types, lifting) fst_conv w)
    then show ?thesis
      using warning_step_debounced [OF k]
      unfolding u gauge_log_def Let_def k_def [symmetric] by simp
  next
    fix st1 assume "gauge_update p ob st = (st1, False)" "st1 = gauge_session_step ob st \<or>
      (\<exists>q mv v. st1 = (gauge_session_step ob st)\<lparr>gt_sample_seen := True, gt_last_sample_sequence := q,
         gt_snapshot := (gt_snapshot (gauge_session_step ob st))\<lparr>gs_terminal_mv := mv, gs_valid := v\<rparr>\<rparr>)"
    moreover have "gauge_log ob st (st1, False) h = k"
      by (simp only: gauge_log_def Let_def snd_conv if_False k_def)
    ultimately show ?thesis
      using k by (auto simp add: s_def)
  qed
qed

text \<open>C35: a low or empty battery is reported only after twenty seconds: whenever the gauge shows a warning,
  the readings of the session on which the model ran contain an unbroken run of readings that were
  not healthy, continued to the present, and that run began the session or spans twenty seconds.\<close>

theorem warning_is_debounced:
  assumes "gauge_trace st h" "gs_warning (gt_snapshot st) \<noteq> BATTERY_GAUGE_WARNING_HEALTHY"
  shows "\<exists>pre run post. h = pre @ run @ post \<and> run \<noteq> [] \<and>
     (\<forall>x\<in>set (run @ post). snd x \<noteq> BATTERY_GAUGE_WARNING_HEALTHY) \<and>
     (pre = [] \<or> BATTERY_GAUGE_WARNING_ENTRY_MS \<le> fst (last run) - fst (hd run))"
  using trace_ok [OF assms(1)] trace_debounced [OF assms(1)] assms(2)
  unfolding gauge_ok_def debounce_ok_def entered_def by metis

section \<open>Bars rise only on evidence\<close>

lemma bar_step_rise:
  assumes "bar_step p mv a c d b = (b', n)" "bs_seeded b" "bs_committed b < n" "bs_committed b \<le> 4"
  shows "n = battery_gauge_bars_from_mv mv" "n = bs_committed b + 1 \<Longrightarrow> bar_rise_threshold n \<le> mv"
    "a \<or> c \<and> gp_rise_rearm_nah p \<le> (if bs_rearm_anchor_valid b then bs_rearm_anchor_nah b - d else 0)"
  using assms by (auto simp add: bar_step_def bar_note_commit_def Let_def not_le split: if_splits)

text \<open>The readings of a session on which the model ran: the charge counted, whether the count was continuous, and
  the bars shown after it.\<close>

type_synonym level_log = "(int \<times> bool \<times> u8) list"

definition level_note :: "gauge_observation \<Rightarrow> gauge_state \<Rightarrow> gauge_state \<times> bool \<Rightarrow> level_log \<Rightarrow> level_log" where
  "level_note ob st r h =
     (let kept = (if \<not> gt_session_seen st \<or> gt_gauge_session st \<noteq> go_gauge_session ob then [] else h)
      in if snd r then kept @ [(go_session_delta_nah ob, go_continuity_valid ob, gs_bars (gt_snapshot (fst r)))]
         else kept)"

inductive level_trace :: "gauge_state \<Rightarrow> level_log \<Rightarrow> bool" where
  started: "level_trace gauge_state_zero []"
| updated: "level_trace st h \<Longrightarrow> level_trace (fst (gauge_update p ob st)) (level_note ob st (gauge_update p ob st) h)"

lemma level_trace_ok: "level_trace st h \<Longrightarrow> gauge_ok st"
  by (induction rule: level_trace.induct) (simp_all add: zero_gauge gauge_update_ok)

text \<open>The display has stood at a level since a continuous reading with that charge.\<close>

definition shown_since :: "u8 \<Rightarrow> int \<Rightarrow> level_log \<Rightarrow> bool" where
  "shown_since n charge h \<longleftrightarrow>
     (\<exists>pre since post. h = pre @ since # post \<and> fst since = charge \<and> fst (snd since) \<and>
        (\<forall>x\<in>set (since # post). snd (snd x) = n))"

definition anchor_seen :: "bar_state \<Rightarrow> level_log \<Rightarrow> bool" where
  "anchor_seen b h \<longleftrightarrow>
     (bs_rearm_anchor_valid b \<longrightarrow> shown_since (bs_committed b) (bs_rearm_anchor_nah b) h)"

lemma shown_more: "shown_since n k h \<Longrightarrow> snd (snd x) = n \<Longrightarrow> shown_since n k (h @ [x])"
  unfolding shown_since_def by (elim exE conjE, rule exI, rule exI, rule exI) auto

lemma shown_now: "fst x = k \<Longrightarrow> fst (snd x) \<Longrightarrow> snd (snd x) = n \<Longrightarrow> shown_since n k (h @ [x])"
  unfolding shown_since_def by (intro exI [of _ h] exI [of _ x] exI [of _ "[]"]) simp

lemma bar_anchor:
  "fst (bar_step p mv a c d b) = b \<or> (bs_rearm_anchor_valid (fst (bar_step p mv a c d b)) \<longrightarrow>
     c \<and> bs_rearm_anchor_nah (fst (bar_step p mv a c d b)) = d)"
  "bar_force_warning n c d b = b \<or> (bs_rearm_anchor_valid (bar_force_warning n c d b) \<longrightarrow>
     c \<and> bs_rearm_anchor_nah (bar_force_warning n c d b) = d)"
  by (auto simp add: bar_step_def bar_force_warning_def bar_note_commit_def Let_def)

lemma model_anchor:
  "gt_bar (gauge_model p ob st) = gt_bar st \<or> (bs_rearm_anchor_valid (gt_bar (gauge_model p ob st)) \<longrightarrow>
     go_continuity_valid ob \<and> bs_rearm_anchor_nah (gt_bar (gauge_model p ob st)) = go_session_delta_nah ob)"
proof -
  obtain bars warning b1 where d:
    "(b1, bars) = bar_step p (gs_reference_mv (gt_snapshot (gauge_model p ob st))) (go_charge_active ob)
       (go_continuity_valid ob) (go_session_delta_nah ob) (gt_bar st)"
    "gt_bar (gauge_model p ob st) = (case warning of BATTERY_GAUGE_WARNING_HEALTHY \<Rightarrow> b1
       | BATTERY_GAUGE_WARNING_LOW \<Rightarrow> bar_force_warning 1 (go_continuity_valid ob) (go_session_delta_nah ob) b1
       | BATTERY_GAUGE_WARNING_EMPTY \<Rightarrow> bar_force_warning 0 (go_continuity_valid ob) (go_session_delta_nah ob) b1)"
    by (rule model_display [of p ob st])
  have "b1 = gt_bar st \<or> (bs_rearm_anchor_valid b1 \<longrightarrow>
      go_continuity_valid ob \<and> bs_rearm_anchor_nah b1 = go_session_delta_nah ob)"
    using bar_anchor(1) [of p "gs_reference_mv (gt_snapshot (gauge_model p ob st))" "go_charge_active ob"
        "go_continuity_valid ob" "go_session_delta_nah ob" "gt_bar st"] unfolding d(1) [symmetric] by simp
  then show ?thesis
    using bar_anchor(2) [of _ "go_continuity_valid ob" "go_session_delta_nah ob" b1] unfolding d(2)
    by (cases warning) fastforce+
qed

lemma anchor_step:
  assumes "anchor_seen (gt_bar st) h" "gauge_ok (gauge_model p ob st)"
  shows "anchor_seen (gt_bar (gauge_model p ob st))
    (h @ [(go_session_delta_nah ob, go_continuity_valid ob, gs_bars (gt_snapshot (gauge_model p ob st)))])"
proof -
  have "gt_model_seeded (gauge_model p ob st)"
    by (simp add: gauge_model_def Let_def case_prod_beta)
  then have "bs_committed (gt_bar (gauge_model p ob st)) = gs_bars (gt_snapshot (gauge_model p ob st))"
    using assms(2) by (simp add: gauge_ok_def)
  then show ?thesis
    using assms(1) model_anchor [of p ob st] by (auto simp add: anchor_seen_def intro: shown_more shown_now)
qed

lemma trace_anchor: "level_trace st h \<Longrightarrow> anchor_seen (gt_bar st) h"
proof (induction rule: level_trace.induct)
  case started
  then show ?case
    by (simp add: anchor_seen_def gauge_state_zero_def bar_state_zero_def)
next
  case (updated st h p ob)
  define s where "s = gauge_session_step ob st"
  define k where "k = (if \<not> gt_session_seen st \<or> gt_gauge_session st \<noteq> go_gauge_session ob then [] else h)"
  have k: "anchor_seen (gt_bar s) k"
    using updated.IH by (auto simp add: s_def k_def gauge_session_step_def gauge_state_zero_def anchor_seen_def
        bar_state_zero_def)
  have ok: "gauge_ok (fst (gauge_update p ob st))"
    by (rule gauge_update_ok [OF level_trace_ok [OF updated.hyps]])
  show ?case
  proof (rule update_cases [of p ob st])
    fix st1 assume u: "gauge_update p ob st = (gauge_model p ob st1, True)"
      and "\<exists>q mv v. st1 = (gauge_session_step ob st)\<lparr>gt_sample_seen := True, gt_last_sample_sequence := q,
       gt_snapshot := (gt_snapshot (gauge_session_step ob st))\<lparr>gs_terminal_mv := mv, gs_valid := v\<rparr>\<rparr>"
    then have "gt_bar st1 = gt_bar s"
      by (auto simp add: s_def)
    then show ?thesis
      using anchor_step [of st1 k p ob] k ok unfolding u level_note_def Let_def k_def [symmetric] by simp
  next
    fix st1 assume "gauge_update p ob st = (st1, False)" "st1 = gauge_session_step ob st \<or>
      (\<exists>q mv v. st1 = (gauge_session_step ob st)\<lparr>gt_sample_seen := True, gt_last_sample_sequence := q,
         gt_snapshot := (gt_snapshot (gauge_session_step ob st))\<lparr>gs_terminal_mv := mv, gs_valid := v\<rparr>\<rparr>)"
    moreover have "level_note ob st (st1, False) h = k"
      by (simp only: level_note_def Let_def snd_conv if_False k_def)
    ultimately show ?thesis
      using k by (auto simp add: s_def)
  qed
qed

text \<open>C36: when the bars may rise.  Within a session there are exactly two ways.  A display of no bars goes
  to the one bar of the LOW warning as soon as that warning is shown: this way needs neither
  charging nor a discharge.  Every other rise happens with no warning shown, goes to exactly the level the reference
  voltage reaches, clears the midpoint threshold when it is by one bar (a rise by several bars needs
  no midpoint), and the battery is charging, or it has delivered 150 mAh since a reading from which
  on the display has stood at the old level without interruption.\<close>

theorem bars_rise_on_evidence:
  assumes tr: "level_trace st h" and up: "battery_gauge_update None (Some ob) (Some st) = (Some st', True)"
    and same: "gt_session_seen st" "gt_gauge_session st = go_gauge_session ob" "gt_model_seeded st"
    and rise: "gs_bars (gt_snapshot st) < gs_bars (gt_snapshot st')"
  shows "(gs_warning (gt_snapshot st') = BATTERY_GAUGE_WARNING_LOW \<and> gs_bars (gt_snapshot st) = 0 \<and>
      gs_bars (gt_snapshot st') = 1) \<or>
    (gs_warning (gt_snapshot st') = BATTERY_GAUGE_WARNING_HEALTHY \<and>
      gs_bars (gt_snapshot st') = battery_gauge_bars_from_mv (gs_reference_mv (gt_snapshot st')) \<and>
      (gs_bars (gt_snapshot st') = gs_bars (gt_snapshot st) + 1 \<longrightarrow>
         bar_rise_threshold (gs_bars (gt_snapshot st')) \<le> gs_reference_mv (gt_snapshot st')) \<and>
      (go_charge_active ob \<or> go_continuity_valid ob \<and>
         (\<exists>charge. shown_since (gs_bars (gt_snapshot st)) charge h \<and>
            150000000 \<le> charge - go_session_delta_nah ob)))"
proof -
  define p where "p = GAUGE_NIMH_PROFILE"
  have u: "gauge_update p ob st = (st', True)"
    using up by (simp add: battery_gauge_update_def gauge_profile_or_def p_def [symmetric] apfst_def map_prod_def
        split: prod.splits)
  have s: "gauge_session_step ob st = st"
    using same by (simp add: gauge_session_step_def)
  have "\<exists>st1. st' = gauge_model p ob st1 \<and> gt_bar st1 = gt_bar st"
    by (rule update_cases [of p ob st]) (use u s in auto)
  then obtain st1 where st1: "st' = gauge_model p ob st1" "gt_bar st1 = gt_bar st"
    by blast
  obtain bars warning b1 where d:
    "(b1, bars) = bar_step p (gs_reference_mv (gt_snapshot st')) (go_charge_active ob) (go_continuity_valid ob)
       (go_session_delta_nah ob) (gt_bar st)"
    "gs_warning (gt_snapshot st') = warning"
    "gs_bars (gt_snapshot st') = (case warning of BATTERY_GAUGE_WARNING_HEALTHY \<Rightarrow> bars
       | BATTERY_GAUGE_WARNING_LOW \<Rightarrow> 1 | BATTERY_GAUGE_WARNING_EMPTY \<Rightarrow> 0)"
    using model_display [of p ob st1] unfolding st1 by metis
  have ok: "bs_seeded (gt_bar st)" "bs_committed (gt_bar st) = gs_bars (gt_snapshot st)" "gs_bars (gt_snapshot st) \<le> 4"
    using level_trace_ok [OF tr] same(3) by (simp_all add: gauge_ok_def)
  have seen: "bs_rearm_anchor_valid (gt_bar st) \<Longrightarrow>
      shown_since (gs_bars (gt_snapshot st)) (bs_rearm_anchor_nah (gt_bar st)) h"
    using trace_anchor [OF tr] ok(2) by (simp add: anchor_seen_def)
  show ?thesis
  proof (cases warning)
    case BATTERY_GAUGE_WARNING_HEALTHY
    then have n: "gs_bars (gt_snapshot st') = bars"
      using d(3) by simp
    have "bs_committed (gt_bar st) < bars" "bs_committed (gt_bar st) \<le> 4"
      using rise ok by (simp_all add: n)
    from bar_step_rise [OF d(1) [symmetric] ok(1) this] show ?thesis
      using seen BATTERY_GAUGE_WARNING_HEALTHY d(2)
      unfolding n ok(2) p_def by (auto simp add: GAUGE_NIMH_PROFILE_def split: if_splits)
  qed (use d rise in \<open>auto simp add: word_less_nat_alt unat_eq_zero\<close>)
qed

text \<open>The gauge never leaves its tables and types: in every reachable state the median holds at most
  fifteen readings and the current history eight, the filtered voltages are tenths of a millivolt of
  a 16-bit reading, the published current and correction fit their types, the bars are at most four,
  and once the model has run the shown level and warning are the committed ones, one bar for LOW
  and none for EMPTY.\<close>

theorem gauge_values_in_range:
  assumes "gauge_trace st h"
  shows "length (gt_median st) \<le> 15 \<and> length (gt_current_history st) \<le> 8 \<and>
     gt_fast_peak_x10 st \<in> {0..655350} \<and> gt_fast_symmetric_x10 st \<in> {0..655350} \<and>
     gt_slow_reference_x10 st \<in> {0..655350} \<and> gs_bars (gt_snapshot st) \<le> 4 \<and>
     gs_window_current_ua (gt_snapshot st) \<in> {I32_MIN..I32_MAX} \<and>
     gs_correction_mv (gt_snapshot st) \<in> {- 32767..32767} \<and>
     (gt_model_seeded st \<longrightarrow> gt_median st \<noteq> [] \<and> gs_bars (gt_snapshot st) = bs_committed (gt_bar st) \<and>
        gs_warning (gt_snapshot st) = ws_committed (gt_warning st) \<and>
        (gs_warning (gt_snapshot st) = BATTERY_GAUGE_WARNING_LOW \<longrightarrow> gs_bars (gt_snapshot st) = 1) \<and>
        (gs_warning (gt_snapshot st) = BATTERY_GAUGE_WARNING_EMPTY \<longrightarrow> gs_bars (gt_snapshot st) = 0))"
  using trace_ok [OF assms] unfolding gauge_ok_def by auto

end
