(* ===== verification/Power_On_Qualifier.thy ===== *)
theory Power_On_Qualifier
  imports Gauge_Safety
begin

text \<open>
  The qualifier that decides whether the phone may power on is a mean over the last five readings: its
  ring of samples and its running sum are refined from the list of the session's valid readings.  The
  theory also applies the theorems on the gauge to concrete runs.
\<close>

section \<open>The abstract qualifier\<close>

text \<open>An attempt is a gauge session, an attempt number, whether its sample is valid, and its voltage.  The
  abstract state is the session, the last attempt, all valid samples of the session and the number of
  attempts.\<close>

type_synonym attempt = "u32 \<times> u32 \<times> bool \<times> u16"

fun abstract_observe :: "attempt \<Rightarrow> (u32 \<times> u32 \<times> u16 list \<times> nat) option \<Rightarrow> (u32 \<times> u32 \<times> u16 list \<times> nat) option" where
  "abstract_observe (g, a, v, mv) None = Some (g, a, if v then [mv] else [], 1)"
| "abstract_observe (g, a, v, mv) (Some (g', a', vs, n)) =
     (if g \<noteq> g' then Some (g, a, if v then [mv] else [], 1)
      else if a = a' then Some (g', a', vs, n)
      else Some (g, a, if v then vs @ [mv] else vs, n + 1))"

definition recent :: "u16 list \<Rightarrow> u16 list" where
  "recent vs = drop (length vs - 5) vs"

definition observe_attempt :: "attempt \<Rightarrow> power_on_qualifier option \<Rightarrow> power_on_qualifier option" where
  "observe_attempt = (\<lambda>(g, a, v, mv). battery_power_on_qualifier_observe g a v mv)"

section \<open>The refinement\<close>

definition samples_hold :: "power_on_qualifier \<Rightarrow> u16 list \<Rightarrow> bool" where
  "samples_hold q vs \<longleftrightarrow>
     length (pq_samples_mv q) = 5 \<and> unat (pq_sample_count q) = min 5 (length vs) \<and>
     unat (pq_sum_mv q) = sum_list (map unat (recent vs)) \<and>
     (length vs < 5 \<longrightarrow> take (length vs) (pq_samples_mv q) = vs) \<and>
     (5 \<le> length vs \<longrightarrow> unat (pq_next_sample q) < 5 \<and> rotate (unat (pq_next_sample q)) (pq_samples_mv q) = recent vs)"

definition qualifier_refines :: "power_on_qualifier \<Rightarrow> (u32 \<times> u32 \<times> u16 list \<times> nat) option \<Rightarrow> bool" where
  "qualifier_refines q so \<longleftrightarrow>
     (case so of
        None \<Rightarrow> q = power_on_qualifier_zero
      | Some (g, a, vs, n) \<Rightarrow> pq_session_seen q \<and> pq_gauge_session q = g \<and> pq_sample_seen q \<and>
          pq_last_attempt_sequence q = a \<and> unat (pq_attempts q) = min 10 n \<and> samples_hold q vs)"

lemma recent_short: "length vs \<le> 5 \<Longrightarrow> recent vs = vs"
  by (simp add: recent_def)

lemma recent_length: "length (recent vs) = min 5 (length vs)"
  by (simp add: recent_def)

lemma recent_snoc: "5 \<le> length vs \<Longrightarrow> recent (vs @ [v]) = tl (recent vs) @ [v]"
proof -
  assume "5 \<le> length vs"
  then have "length vs - 4 = Suc (length vs - 5)"
    by arith
  then show ?thesis
    using \<open>5 \<le> length vs\<close> by (simp add: recent_def drop_Suc tl_drop)
qed

lemma sum_bound: "sum_list (map unat (xs :: u16 list)) \<le> length xs * 65535"
proof (induction xs)
  case (Cons x xs)
  then show ?case
    using unat_u16 [of x] by simp
qed simp

lemma rotate_replace:
  assumes "length xs = 5" "i < 5"
  shows "rotate ((i + 1) mod 5) (xs[i := v]) = tl (rotate i xs) @ [v]"
    and "hd (rotate i xs) = xs ! i"
proof -
  obtain a b c d e where xs: "xs = [a, b, c, d, e]"
    using assms(1) by (auto simp add: numeral_eq_Suc length_Suc_conv)
  have "i = 0 \<or> i = 1 \<or> i = 2 \<or> i = 3 \<or> i = 4"
    using assms(2) by auto
  then show "rotate ((i + 1) mod 5) (xs[i := v]) = tl (rotate i xs) @ [v]" and "hd (rotate i xs) = xs ! i"
    by (auto simp add: xs rotate_drop_take)
qed

lemma take_holds:
  assumes h: "samples_hold q vs"
  shows "samples_hold (qualifier_take mv q) (vs @ [mv])"
proof (cases "length vs < 5")
  case True
  have c: "unat (pq_sample_count q) = length vs" "pq_sample_count q < 5"
    using h True by (simp_all add: samples_hold_def word_less_nat_alt)
  have n: "unat (pq_sample_count q + 1) = length vs + 1"
    using c True by (simp add: unat_word_ariths)
  have s: "unat (pq_sum_mv q) = sum_list (map unat vs)" "sum_list (map unat vs) \<le> 5 * 65535"
    using h True sum_bound [of vs] by (simp_all add: samples_hold_def recent_short)
  have sum: "unat (pq_sum_mv q + ucast mv) = sum_list (map unat (vs @ [mv]))"
    using s unat_u16 [of mv] by (simp add: unat_word_ariths unsigned_ucast_eq take_bit_eq_mod)
  have t: "take (length vs + 1) ((pq_samples_mv q)[length vs := mv]) = vs @ [mv]"
    using h True by (simp add: samples_hold_def take_Suc_conv_app_nth take_update_cancel)
  have full: "pq_sample_count q + 1 = 5 \<longleftrightarrow> length vs + 1 = 5"
    using n word_unat_eq_iff [of "pq_sample_count q + 1" 5] by simp
  show ?thesis
    using h True c n sum t full
    by (auto simp add: samples_hold_def qualifier_take_def Let_def recent_short)
next
  case False
  define i where "i = unat (pq_next_sample q)"
  have c: "\<not> pq_sample_count q < 5"
    using h False by (simp add: samples_hold_def word_less_nat_alt)
  have r: "i < 5" "rotate i (pq_samples_mv q) = recent vs" "length (pq_samples_mv q) = 5"
    using h False by (simp_all add: samples_hold_def i_def)
  note rep = rotate_replace [OF r(3,1)]
  have l: "recent vs = pq_samples_mv q ! i # tl (recent vs)"
    using rep(2) r recent_length [of vs] False by (cases "recent vs") auto
  then have sum_vs: "unat (pq_sum_mv q) = unat (pq_samples_mv q ! i) + sum_list (map unat (tl (recent vs)))"
    using h by (simp add: samples_hold_def) (metis list.simps(9) sum_list.Cons)
  have b: "sum_list (map unat (tl (recent vs))) \<le> 4 * 65535"
    using sum_bound [of "tl (recent vs)"] recent_length [of vs] False by simp
  have "unat (pq_sum_mv q - ucast (pq_samples_mv q ! i)) = sum_list (map unat (tl (recent vs)))"
    using sum_vs unat_u16 [of "pq_samples_mv q ! i"]
    by (subst unat_sub) (simp_all add: word_le_nat_alt unsigned_ucast_eq take_bit_eq_mod)
  then have sum: "unat (pq_sum_mv q - ucast (pq_samples_mv q ! i) + ucast mv) =
      sum_list (map unat (tl (recent vs) @ [mv]))"
    using b unat_u16 [of mv] by (simp add: unat_word_ariths unsigned_ucast_eq take_bit_eq_mod)
  have "unat (of_nat ((i + 1) mod 5) :: u8) = (i + 1) mod 5"
    by (simp add: unat_of_nat)
  then show ?thesis
    using h False c r(3) rep(1) sum r(2) recent_snoc [of vs mv]
    by (simp add: samples_hold_def qualifier_take_def Let_def i_def [symmetric])
qed


lemma observe_refines:
  assumes "qualifier_refines q so"
  shows "qualifier_refines (qualifier_observe g a v mv q) (abstract_observe (g, a, v, mv) so)"
proof -
  have empty: "samples_hold (power_on_qualifier_zero\<lparr>pq_session_seen := True, pq_gauge_session := g,
      pq_sample_seen := True, pq_last_attempt_sequence := a, pq_attempts := 1\<rparr>) []"
    by (simp add: samples_hold_def power_on_qualifier_zero_def recent_def)
  have first: "qualifier_refines (let q2 = power_on_qualifier_zero\<lparr>pq_session_seen := True, pq_gauge_session := g,
      pq_sample_seen := True, pq_last_attempt_sequence := a, pq_attempts := 1\<rparr>
    in if v then qualifier_take mv q2 else q2) (Some (g, a, if v then [mv] else [], 1))"
    using empty take_holds [OF empty, of mv]
    by (simp add: qualifier_refines_def qualifier_take_def Let_def power_on_qualifier_zero_def)
  show ?thesis
  proof (cases so)
    case None
    then show ?thesis
      using assms first by (simp add: qualifier_refines_def qualifier_observe_def Let_def power_on_qualifier_zero_def)
  next
    case (Some w)
    obtain g' a' vs n where w: "w = (g', a', vs, n)"
      by (cases w)
    have r: "pq_session_seen q" "pq_gauge_session q = g'" "pq_sample_seen q" "pq_last_attempt_sequence q = a'"
      "unat (pq_attempts q) = min 10 n" "samples_hold q vs"
      using assms by (simp_all add: Some w qualifier_refines_def)
    define q2 where "q2 = q\<lparr>pq_sample_seen := True, pq_last_attempt_sequence := a,
      pq_attempts := (if pq_attempts q < 10 then pq_attempts q + 1 else pq_attempts q)\<rparr>"
    have n: "unat (pq_attempts q2) = min 10 (n + 1)"
      using r(5) by (auto simp add: q2_def word_less_nat_alt unat_word_ariths)
    have h: "samples_hold q2 vs"
      using r(6) by (simp add: q2_def samples_hold_def)
    have "qualifier_refines (if v then qualifier_take mv q2 else q2) (Some (g', a, if v then vs @ [mv] else vs, n + 1))"
      using r n h take_holds [OF h, of mv]
      by (auto simp add: qualifier_refines_def qualifier_take_def Let_def q2_def)
    moreover have "qualifier_observe g a v mv q = (if v then qualifier_take mv q2 else q2)" if "g = g'" "a \<noteq> a'"
    proof -
      have c: "\<not> (\<not> pq_session_seen q \<or> pq_gauge_session q \<noteq> g)" "\<not> (pq_sample_seen q \<and> pq_last_attempt_sequence q = a)"
        using that r by simp_all
      show ?thesis
        unfolding qualifier_observe_def Let_def if_not_P [OF c(1)] if_not_P [OF c(2)] q2_def by (rule refl)
    qed
    ultimately have later: "qualifier_refines (qualifier_observe g a v mv q) (Some (g, a, if v then vs @ [mv] else vs, n + 1))"
      if "g = g'" "a \<noteq> a'"
      using that by simp
    have other: "qualifier_refines (qualifier_observe g a v mv q) (Some (g, a, if v then [mv] else [], 1))" if "g \<noteq> g'"
    proof -
      have "\<not> pq_sample_seen power_on_qualifier_zero" "pq_attempts power_on_qualifier_zero = 0"
        by (simp_all add: power_on_qualifier_zero_def)
      then show ?thesis
        using that r(2) first by (simp add: qualifier_observe_def Let_def)
    qed
    have same: "qualifier_observe g a v mv q = q" if "g = g'" "a = a'"
      using that r(1-4) unfolding qualifier_observe_def Let_def by simp
    show ?thesis
    proof (cases "g = g'")
      case True
      then show ?thesis
        using later same assms by (cases "a = a'") (simp_all add: Some w)
    qed (use other in \<open>cases v; simp add: Some w\<close>)
  qed
qed

lemma run_refines:
  "\<exists>q. fold observe_attempt obs (battery_power_on_qualifier_init (Some q0)) = Some q \<and>
     qualifier_refines q (fold abstract_observe obs None)"
proof (induction obs rule: rev_induct)
  case Nil
  then show ?case
    by (simp add: battery_power_on_qualifier_init_def qualifier_refines_def)
next
  case (snoc ob obs)
  then show ?case
    using observe_refines by (cases ob) (auto simp add: observe_attempt_def battery_power_on_qualifier_observe_def)
qed

text \<open>C37: the voltage the power-on decision reads is the mean of the last five valid readings of the current
  session, whatever was observed: the sample and attempt counts saturate, a repeated attempt and an
  earlier session do not count, and the qualifier is ready exactly with five valid readings, or with
  at least one after ten attempts.\<close>

theorem qualifier_averages_recent:
  "let q = fold observe_attempt obs (battery_power_on_qualifier_init (Some q0));
       (vs, n) = (case fold abstract_observe obs None of None \<Rightarrow> ([], 0) | Some (_, _, vs, n) \<Rightarrow> (vs, n))
   in unat (battery_power_on_qualifier_sample_count q) = min 5 (length vs) \<and>
      unat (battery_power_on_qualifier_attempt_count q) = min 10 n \<and>
      battery_power_on_qualifier_ready q = (vs \<noteq> [] \<and> (5 \<le> length vs \<or> 10 \<le> n)) \<and>
      unat (battery_power_on_qualifier_average_mv q) =
        (if vs = [] then 0 else sum_list (map unat (recent vs)) div length (recent vs))"
proof -
  obtain q where q: "fold observe_attempt obs (battery_power_on_qualifier_init (Some q0)) = Some q"
    "qualifier_refines q (fold abstract_observe obs None)"
    using run_refines by blast
  show ?thesis
  proof (cases "fold abstract_observe obs None")
    case None
    then show ?thesis
      using q by (simp add: qualifier_refines_def power_on_qualifier_zero_def battery_power_on_qualifier_sample_count_def
          battery_power_on_qualifier_attempt_count_def battery_power_on_qualifier_ready_def
          battery_power_on_qualifier_average_mv_def)
  next
    case (Some w)
    obtain g a vs n where w: "w = (g, a, vs, n)"
      by (cases w)
    have r: "unat (pq_attempts q) = min 10 n" "unat (pq_sample_count q) = min 5 (length vs)"
      "unat (pq_sum_mv q) = sum_list (map unat (recent vs))"
      using q(2) by (simp_all add: Some w qualifier_refines_def samples_hold_def)
    have z: "pq_sample_count q = 0 \<longleftrightarrow> vs = []"
      using r(2) word_unat_eq_iff [of "pq_sample_count q" 0] by (auto simp add: min_def split: if_splits)
    have ready: "(5 \<le> pq_sample_count q \<longleftrightarrow> 5 \<le> length vs)" "(10 \<le> pq_attempts q \<longleftrightarrow> 10 \<le> n)"
      using r by (auto simp add: word_le_nat_alt)
    have "sum_list (map unat (recent vs)) div length (recent vs) \<le> (length (recent vs) * 65535) div length (recent vs)"
      by (rule div_le_mono [OF sum_bound])
    also have "\<dots> \<le> 65535"
      by (cases "length (recent vs) = 0") simp_all
    finally have "sum_list (map unat (recent vs)) div length (recent vs) \<le> 65535" .
    then have "unat (ucast (pq_sum_mv q div ucast (pq_sample_count q)) :: u16) =
        sum_list (map unat (recent vs)) div length (recent vs)"
      by (simp add: unsigned_ucast_eq take_bit_eq_mod unat_div r recent_length)
    then show ?thesis
      using q(1) r z ready by (simp add: Some w Let_def battery_power_on_qualifier_sample_count_def
          battery_power_on_qualifier_attempt_count_def battery_power_on_qualifier_ready_def
          battery_power_on_qualifier_average_mv_def)
  qed
qed

section \<open>Concrete runs of the gauge\<close>

text \<open>A weak battery seen at the start of a session, and a good one.\<close>

definition gauge_reading :: "u32 \<Rightarrow> u16 \<Rightarrow> bool \<Rightarrow> gauge_observation" where
  "gauge_reading now mv chg =
     \<lparr>go_now_ms = now, go_sample_sequence = now, go_gauge_session = 7, go_terminal_mv = mv, go_current_ua = 0,
      go_session_delta_nah = 0, go_sample_valid = True, go_current_valid = True, go_continuity_valid = True,
      go_charge_active = chg\<rparr>"

definition weak_gauge :: gauge_state where
  "weak_gauge = fst (gauge_update GAUGE_NIMH_PROFILE (gauge_reading 1000 2200 False) gauge_state_zero)"

definition weak_log :: warning_log where
  "weak_log = gauge_log (gauge_reading 1000 2200 False) gauge_state_zero
     (gauge_update GAUGE_NIMH_PROFILE (gauge_reading 1000 2200 False) gauge_state_zero) []"

definition full_gauge :: gauge_state where
  "full_gauge = fst (gauge_update GAUGE_NIMH_PROFILE (gauge_reading 1000 2450 False) gauge_state_zero)"

lemma weak_trace: "gauge_trace weak_gauge weak_log"
  unfolding weak_gauge_def weak_log_def by (rule gauge_trace.updated [OF gauge_trace.started])

theorem warning_is_debounced_witness:
  "\<exists>pre run post. weak_log = pre @ run @ post \<and> run \<noteq> [] \<and>
     (\<forall>x\<in>set (run @ post). snd x \<noteq> BATTERY_GAUGE_WARNING_HEALTHY) \<and>
     (pre = [] \<or> BATTERY_GAUGE_WARNING_ENTRY_MS \<le> fst (last run) - fst (hd run))"
proof -
  have "gs_warning (gt_snapshot weak_gauge) \<noteq> BATTERY_GAUGE_WARNING_HEALTHY"
    by code_simp
  then show ?thesis
    by (rule warning_is_debounced [OF weak_trace])
qed

theorem gauge_values_in_range_witness:
  "gs_bars (gt_snapshot weak_gauge) \<le> 4 \<and> gt_median weak_gauge \<noteq> []"
proof -
  have "gt_model_seeded weak_gauge"
    by code_simp
  then show ?thesis
    using gauge_values_in_range [OF weak_trace] by blast
qed

text \<open>Two bars, then a recovered battery after 150 mAh of discharge.\<close>

definition drained_reading :: gauge_observation where
  "drained_reading = (gauge_reading 61000 2700 False)\<lparr>go_session_delta_nah := - 150000000\<rparr>"

definition drained_gauge :: gauge_state where
  "drained_gauge = fst (gauge_update GAUGE_NIMH_PROFILE drained_reading full_gauge)"

theorem bars_rise_on_evidence_witness:
  "gs_bars (gt_snapshot drained_gauge) =
     battery_gauge_bars_from_mv (gs_reference_mv (gt_snapshot drained_gauge)) \<and>
   (\<exists>h charge. level_trace full_gauge h \<and> shown_since (gs_bars (gt_snapshot full_gauge)) charge h \<and>
      150000000 \<le> charge - go_session_delta_nah drained_reading)"
proof -
  obtain h where tr: "level_trace full_gauge h"
    unfolding full_gauge_def using level_trace.updated [OF level_trace.started] by blast
  have up: "battery_gauge_update None (Some drained_reading) (Some full_gauge) = (Some drained_gauge, True)"
    unfolding drained_gauge_def battery_gauge_update_def gauge_profile_or_def
    by (simp add: apfst_def map_prod_def case_prod_beta) code_simp
  have f: "gt_session_seen full_gauge" "gt_gauge_session full_gauge = go_gauge_session drained_reading"
    "gt_model_seeded full_gauge"
    by code_simp+
  have "gs_bars (gt_snapshot full_gauge) < gs_bars (gt_snapshot drained_gauge)"
    "gs_warning (gt_snapshot drained_gauge) \<noteq> BATTERY_GAUGE_WARNING_LOW" "\<not> go_charge_active drained_reading"
    by code_simp+
  then show ?thesis
    using bars_rise_on_evidence [OF tr up f] tr by blast
qed

end
