(* ===== verification/Store_Texts.thy ===== *)
theory Store_Texts
  imports Store_Durability
begin

text \<open>
  Small persistence units: the call diverts (\<open>storage/store_divert.c\<close>), the T9 user words
  (\<open>storage/store_t9.c\<close>) and the health counters (\<open>storage/store_health.c\<close>).  A C text is the whole
  character array, of one byte more than its bound; what a unit persists of it is the text up to its
  NUL, so the view of a unit fills the rest of every array with zeros.
\<close>

section \<open>Texts in fixed arrays\<close>

definition store_strnlen :: "nat \<Rightarrow> u8 list \<Rightarrow> nat" where
  "store_strnlen n xs = length (takeWhile (\<lambda>c. c \<noteq> 0) (take n xs))"

definition store_copy_text :: "u8 list \<Rightarrow> u8 list \<Rightarrow> u8 list" where
  "store_copy_text dst src =
     (if dst = [] then dst
      else (let i = store_strnlen (length dst - 1) src in take i src @ [0] @ drop (i + 1) dst))"

text \<open>The length byte and the zero-filled field a serializer writes for a text of at most \<open>n\<close> characters.\<close>

definition fixed_text :: "nat \<Rightarrow> u8 list \<Rightarrow> u8 list" where
  "fixed_text n xs = (let k = store_strnlen n xs in take k xs @ replicate (n + 1 - k) 0)"

definition text_fields :: "nat \<Rightarrow> u8 list \<Rightarrow> u8 list list" where
  "text_fields n xs = [[of_nat (store_strnlen n xs)], fixed_text n xs]"

text \<open>What a decoder makes of \<open>len\<close> bytes copied into a cleared array.\<close>

definition loaded_text :: "nat \<Rightarrow> u8 list \<Rightarrow> nat \<Rightarrow> nat \<Rightarrow> u8 list" where
  "loaded_text n pl pos len = take len (drop pos pl) @ replicate (n + 1 - len) 0"

fun load_texts :: "nat \<Rightarrow> u8 list \<Rightarrow> nat \<Rightarrow> nat \<Rightarrow> u8 list list option" where
  "load_texts n pl pos 0 = Some []"
| "load_texts n pl pos (Suc k) =
     (if length pl < pos + 1 + n + 1 then None
      else
        (let len = unat (pl ! pos) in
         if n < len then None
         else map_option ((#) (loaded_text n pl (pos + 1) len)) (load_texts n pl (pos + 1 + n + 1) k)))"

text \<open>A serializer run on a cleared buffer.\<close>

definition written :: "u8 list list \<Rightarrow> nat \<Rightarrow> u8 list option" where
  "written fs cap = map_option (\<lambda>(dst, n). take n dst) (write_fields (replicate cap 0) cap 0 fs)"

lemma written_iff: "written fs cap = Some bytes \<longleftrightarrow> bytes = concat fs \<and> length (concat fs) \<le> cap"
proof (cases "length (concat fs) \<le> cap")
  case True
  then show ?thesis
    using write_fields_ok [of "replicate cap 0" cap 0 fs] by (auto simp add: written_def)
next
  case False
  then show ?thesis
    using write_fields_fail [of "replicate cap 0" cap 0 fs] by (simp add: written_def)
qed

lemma strnlen_bound: "store_strnlen n xs \<le> n" "store_strnlen n xs \<le> length xs"
  using length_takeWhile_le [of "\<lambda>c. c \<noteq> 0" "take n xs"] by (simp_all add: store_strnlen_def)

lemma fixed_text_length [simp]: "length (fixed_text n xs) = n + 1"
  using strnlen_bound [of n xs] by (simp add: fixed_text_def Let_def)

lemma strnlen_text: "take (store_strnlen n xs) xs = takeWhile (\<lambda>c. c \<noteq> 0) (take n xs)"
proof -
  let ?t = "takeWhile (\<lambda>c. c \<noteq> 0) (take n xs)"
  have "?t = take (length ?t) (take n xs)"
    by (rule takeWhile_eq_take)
  also have "\<dots> = take (store_strnlen n xs) xs"
    using strnlen_bound(1) [of n xs] by (simp add: store_strnlen_def min_absorb1)
  finally show ?thesis ..
qed

lemma fixed_text_zeros: "fixed_text n xs = takeWhile (\<lambda>c. c \<noteq> 0) (take n xs) @ replicate (n + 1 - store_strnlen n xs) 0"
  by (simp add: fixed_text_def Let_def strnlen_text)

lemma strnlen_fixed [simp]: "store_strnlen n (fixed_text n xs) = store_strnlen n xs"
proof -
  let ?t = "takeWhile (\<lambda>c. c \<noteq> 0) (take n xs)"
  have l: "length ?t = store_strnlen n xs" "store_strnlen n xs \<le> n"
    using strnlen_bound by (simp_all add: store_strnlen_def)
  have "takeWhile (\<lambda>c. c \<noteq> 0) (?t @ replicate k 0) = ?t" for k
    by (induction k) (auto simp add: takeWhile_append dest: set_takeWhileD)
  then show ?thesis
    using l by (simp add: store_strnlen_def fixed_text_zeros)
qed

lemma fixed_fixed [simp]: "fixed_text n (fixed_text n xs) = fixed_text n xs"
proof -
  have "take (store_strnlen n xs) (fixed_text n xs) = take (store_strnlen n xs) xs"
    using strnlen_bound [of n xs] by (simp add: fixed_text_def Let_def)
  then show ?thesis
    by (simp add: fixed_text_def [of n "fixed_text n xs"] Let_def) (simp add: fixed_text_def Let_def)
qed

text \<open>The copy keeps the array's size and stores the text, cut to the array.\<close>

lemma copy_text_facts:
  assumes "length dst = n + 1"
  shows "length (store_copy_text dst src) = n + 1" "fixed_text n (store_copy_text dst src) = fixed_text n src"
proof -
  let ?i = "store_strnlen n src"
  have c: "store_copy_text dst src = take ?i src @ [0] @ drop (?i + 1) dst"
    using assms by (auto simp add: store_copy_text_def Let_def)
  have l: "length (take ?i src) = ?i" "?i \<le> n"
    using strnlen_bound [of n src] by simp_all
  show "length (store_copy_text dst src) = n + 1"
    using assms l by (simp add: c)
  have "takeWhile (\<lambda>x. x \<noteq> 0) (take n (take ?i src @ [0] @ r)) = take ?i src" for r
  proof -
    have "\<forall>x\<in>set (take ?i src). x \<noteq> 0"
      unfolding strnlen_text by (auto dest: set_takeWhileD)
    then show ?thesis
      using l by (cases "?i = n") (simp_all add: takeWhile_append2 take_Cons')
  qed
  then have "takeWhile (\<lambda>x. x \<noteq> 0) (take n (store_copy_text dst src)) = takeWhile (\<lambda>c. c \<noteq> 0) (take n src)"
    unfolding c by (simp only: strnlen_text)
  then show "fixed_text n (store_copy_text dst src) = fixed_text n src"
    by (simp only: fixed_text_zeros store_strnlen_def)
qed

text \<open>One text and a run of texts read back as they were written.\<close>

lemma text_entry_loads:
  assumes "n < 256"
  shows "pl = pre @ concat (text_fields n xs) @ post \<Longrightarrow> unat (pl ! length pre) = store_strnlen n xs"
    and "pl = pre @ concat (text_fields n xs) @ post \<Longrightarrow>
      loaded_text n pl (length pre + 1) (store_strnlen n xs) = fixed_text n xs"
proof -
  have k: "store_strnlen n xs < 256"
    using strnlen_bound(1) [of n xs] assms by simp
  show "pl = pre @ concat (text_fields n xs) @ post \<Longrightarrow> unat (pl ! length pre) = store_strnlen n xs"
    using k by (simp add: text_fields_def unat_of_nat)
  have "take (store_strnlen n xs) (fixed_text n xs @ post) = take (store_strnlen n xs) xs"
    using strnlen_bound [of n xs] by (simp add: fixed_text_def Let_def)
  then show "pl = pre @ concat (text_fields n xs) @ post \<Longrightarrow>
      loaded_text n pl (length pre + 1) (store_strnlen n xs) = fixed_text n xs"
    by (simp add: loaded_text_def text_fields_def fixed_text_def Let_def)
qed

lemma text_fields_length [simp]: "length (concat (text_fields n xs)) = n + 2"
  by (simp add: text_fields_def)

lemma texts_load:
  assumes "n < 256"
  shows "pl = pre @ concat (concat (map (text_fields n) xs)) @ post \<Longrightarrow>
    load_texts n pl (length pre) (length xs) = Some (map (fixed_text n) xs)"
proof (induction xs arbitrary: pre)
  case (Cons x xs)
  have pl: "pl = pre @ concat (text_fields n x) @ concat (concat (map (text_fields n) xs)) @ post"
    using Cons.prems by simp
  have "load_texts n pl (length (pre @ concat (text_fields n x))) (length xs) = Some (map (fixed_text n) xs)"
    using pl by (intro Cons.IH) simp
  then show ?case
    using text_entry_loads [OF assms pl] strnlen_bound(1) [of n x] pl by (simp add: ac_simps)
qed simp

lemma load_texts_fixed:
  "load_texts n pl pos k = Some ts \<Longrightarrow> length ts = k \<and> (\<forall>t\<in>set ts. length t = n + 1)"
proof (induction k arbitrary: pos ts)
  case (Suc k)
  then show ?case
    by (force simp add: Let_def loaded_text_def split: if_splits)
qed simp

text \<open>A store that is up, whose RAM is one unit's alone.\<close>

definition plain_store :: "'w \<Rightarrow> ('w, unit) store_state" where
  "plain_store w =
     \<lparr>st_ready = True, st_available = 0x1ffff, st_faults = 0, st_dirty = replicate STORE_UNIT_COUNT False,
      st_fails = replicate STORE_UNIT_COUNT 0, st_scan = 0, st_park_base = 0, st_defer = 0, st_last_commit = 0,
      st_diag = diag_zero, st_ram = w, st_media = ()\<rparr>"

section \<open>Call diverts\<close>

abbreviation "CALL_DIVERT_MAGIC \<equiv> 0x44495631 :: u32"
abbreviation "STORE_CALL_DIVERT_DEFAULT_DELAY_SECONDS \<equiv> 20 :: u8"
abbreviation "STORE_CALL_DIVERT_CONDITION_COUNT \<equiv> 5 :: nat"
abbreviation "STORE_CALL_DIVERT_NUMBER_MAX \<equiv> 32 :: nat"
abbreviation "STORE_UNIT_CALL_DIVERT \<equiv> 12 :: nat"

record divert_state =
  dv_active_mask :: u8
  dv_delay_seconds :: u8
  dv_numbers :: "u8 list list"

definition reset_divert_unit :: "divert_state \<Rightarrow> divert_state" where
  "reset_divert_unit st =
     \<lparr>dv_active_mask = 0, dv_delay_seconds = STORE_CALL_DIVERT_DEFAULT_DELAY_SECONDS,
      dv_numbers = replicate STORE_CALL_DIVERT_CONDITION_COUNT
        (replicate (STORE_CALL_DIVERT_NUMBER_MAX + 1) 0)\<rparr>"

definition divert_fields :: "divert_state \<Rightarrow> u8 list list" where
  "divert_fields st =
     [write_u32 CALL_DIVERT_MAGIC, write_u16 STORE_PAYLOAD_VERSION, [dv_active_mask st AND 0x1f],
      [dv_delay_seconds st]] @
     concat (map (text_fields STORE_CALL_DIVERT_NUMBER_MAX) (take STORE_CALL_DIVERT_CONDITION_COUNT (dv_numbers st)))"

definition serialize_divert_unit :: "divert_state \<Rightarrow> u8 list \<Rightarrow> nat \<Rightarrow> (u8 list \<times> nat) option" where
  "serialize_divert_unit st dst cap = write_fields dst cap 0 (divert_fields st)"

definition divert_delay :: "u8 \<Rightarrow> u8" where
  "divert_delay d = (if d = 0 then STORE_CALL_DIVERT_DEFAULT_DELAY_SECONDS else d)"

definition apply_divert_unit :: "u8 list \<Rightarrow> divert_state \<Rightarrow> divert_state \<times> bool" where
  "apply_divert_unit pl st =
     (if length pl < 8 \<or> read_u32 pl \<noteq> CALL_DIVERT_MAGIC \<or> read_u16 (drop 4 pl) \<noteq> STORE_PAYLOAD_VERSION
      then (st, False)
      else
        (case load_texts STORE_CALL_DIVERT_NUMBER_MAX pl 8 STORE_CALL_DIVERT_CONDITION_COUNT of
           None \<Rightarrow> (st, False)
         | Some numbers \<Rightarrow>
             (\<lparr>dv_active_mask = pl ! 6 AND 0x1f, dv_delay_seconds = divert_delay (pl ! 7),
               dv_numbers = numbers\<rparr>, True)))"

definition divert_unit_ops :: "divert_state unit_ops" where
  "divert_unit_ops =
     \<lparr>uo_reset_ram = reset_divert_unit,
      uo_serialize = (\<lambda>st cap. map_option (\<lambda>(dst, n). take n dst) (serialize_divert_unit st (replicate cap 0) cap)),
      uo_apply = apply_divert_unit, uo_fallback_missing = None\<rparr>"

definition store_call_divert_get :: "('w \<Rightarrow> divert_state) \<Rightarrow> bool \<Rightarrow> 'w \<Rightarrow> store_status + divert_state" where
  "store_call_divert_get get out_given w =
     (if \<not> out_given then Inl STORE_STATUS_INVALID_ARGUMENT
      else Inr ((get w)\<lparr>dv_delay_seconds := divert_delay (dv_delay_seconds (get w))\<rparr>))"

definition store_call_divert_set ::
    "('w \<Rightarrow> divert_state) \<Rightarrow> (divert_state \<Rightarrow> 'w \<Rightarrow> 'w) \<Rightarrow> divert_state option \<Rightarrow>
     ('w, 'b) store_state \<Rightarrow> ('w, 'b) store_state \<times> store_status" where
  "store_call_divert_set get put so st =
     (case so of
        None \<Rightarrow> (st, STORE_STATUS_INVALID_ARGUMENT)
      | Some s \<Rightarrow>
          store_engine_mark_dirty STORE_UNIT_CALL_DIVERT (st\<lparr>st_ram := put
            \<lparr>dv_active_mask = dv_active_mask s AND 0x1f, dv_delay_seconds = divert_delay (dv_delay_seconds s),
             dv_numbers = map2 store_copy_text (dv_numbers (get (st_ram st))) (dv_numbers s)\<rparr> (st_ram st)\<rparr>))"

text \<open>The codec behind the engine's interface.\<close>

definition divert_typed :: "divert_state \<Rightarrow> bool" where
  "divert_typed st \<longleftrightarrow> dv_active_mask st AND 0x1f = dv_active_mask st \<and> dv_delay_seconds st \<noteq> 0 \<and>
     length (dv_numbers st) = STORE_CALL_DIVERT_CONDITION_COUNT \<and>
     (\<forall>t\<in>set (dv_numbers st). length t = STORE_CALL_DIVERT_NUMBER_MAX + 1)"

definition divert_view :: "divert_state \<Rightarrow> divert_state" where
  "divert_view st = st\<lparr>dv_numbers := map (fixed_text STORE_CALL_DIVERT_NUMBER_MAX) (dv_numbers st)\<rparr>"

lemma divert_payload_loads:
  assumes "divert_typed st"
  shows "apply_divert_unit (concat (divert_fields st)) st0 = (divert_view st, True)"
proof -
  define pre where "pre = write_u32 CALL_DIVERT_MAGIC @ write_u16 STORE_PAYLOAD_VERSION @
    [dv_active_mask st AND 0x1f, dv_delay_seconds st]"
  have pl: "concat (divert_fields st) = pre @ concat (concat (map (text_fields 32) (dv_numbers st))) @ []"
    using assms by (simp add: divert_fields_def pre_def divert_typed_def)
  have "load_texts 32 (concat (divert_fields st)) (length pre) (length (dv_numbers st)) =
      Some (map (fixed_text 32) (dv_numbers st))"
    by (rule texts_load [OF _ pl]) simp
  then have l: "load_texts 32 (concat (divert_fields st)) 8 5 = Some (map (fixed_text 32) (dv_numbers st))"
    using assms by (simp add: pre_def divert_typed_def)
  have h: "8 \<le> length (concat (divert_fields st))" "read_u32 (concat (divert_fields st)) = CALL_DIVERT_MAGIC"
    "read_u16 (drop 4 (concat (divert_fields st))) = STORE_PAYLOAD_VERSION"
    "concat (divert_fields st) ! 6 = dv_active_mask st AND 0x1f" "concat (divert_fields st) ! 7 = dv_delay_seconds st"
    by (simp_all add: pl pre_def drop_field nth_field)
  show ?thesis
    using assms by (simp add: apply_divert_unit_def h l divert_view_def divert_typed_def divert_delay_def not_less and.assoc)
qed

lemma divert_apply_facts:
  assumes "snd (apply_divert_unit pl st0)"
  shows "apply_divert_unit pl st1 = apply_divert_unit pl st0" "divert_typed (fst (apply_divert_unit pl st0))"
  using assms load_texts_fixed [of 32 pl 8 5]
  by (auto simp add: apply_divert_unit_def divert_typed_def divert_delay_def and.assoc split: if_splits option.splits)

interpretation divert_codec: unit_codec divert_unit_ops divert_view divert_typed
proof unfold_locales
  fix w cap bytes w0
  assume "divert_typed w" and s: "uo_serialize divert_unit_ops w cap = Some bytes"
  then have "bytes = concat (divert_fields w)"
    using written_iff [of "divert_fields w" cap bytes]
    by (simp add: divert_unit_ops_def serialize_divert_unit_def written_def)
  then show "snd (uo_apply divert_unit_ops bytes w0) \<and>
      divert_view (fst (uo_apply divert_unit_ops bytes w0)) = divert_view w"
    using divert_payload_loads [OF \<open>divert_typed w\<close>] by (simp add: divert_unit_ops_def divert_view_def)
next
  fix bytes w0 w1
  assume "snd (uo_apply divert_unit_ops bytes w0)"
  then show "snd (uo_apply divert_unit_ops bytes w1) \<and>
      divert_view (fst (uo_apply divert_unit_ops bytes w1)) = divert_view (fst (uo_apply divert_unit_ops bytes w0))"
    using divert_apply_facts(1) [of bytes w0 w1] by (simp add: divert_unit_ops_def)
next
  fix w bytes assume "divert_typed w"
  then show "divert_typed (fst (uo_apply divert_unit_ops bytes w))"
    using divert_apply_facts(2) [of bytes w]
    by (auto simp add: divert_unit_ops_def apply_divert_unit_def split: if_splits option.splits)
  show "divert_typed (uo_reset_ram divert_unit_ops w)"
    by (simp add: divert_unit_ops_def reset_divert_unit_def divert_typed_def)
qed

end
