(* ===== verification/Store_Calls.thy ===== *)
theory Store_Calls
  imports Store_Texts Message_File
begin

text \<open>
  The recent-call lists, \<open>storage/store_calls.c\<close>: three lists of at most twenty records, newest first,
  their operations, and the record each list is persisted in.  The life timer is a setting and is
  left to the settings unit.  A record's reason is kept as its byte, since the decoder casts it
  without a test.
\<close>

section \<open>Data\<close>

abbreviation "CALLS_MAGIC \<equiv> 0x43414c31 :: u32"
abbreviation "CALLS_PAYLOAD_VERSION \<equiv> 2 :: u16"
abbreviation "CALLS_FIRST_YEAR \<equiv> 1999 :: u16"
abbreviation "CALLS_LAST_YEAR \<equiv> 2090 :: u16"
abbreviation "CALLS_YEAR_CODE_MAX \<equiv> 91 :: u8"
abbreviation "STORE_CALL_LIST_LIMIT \<equiv> 20 :: nat"
abbreviation "STORE_CALL_NUMBER_MAX \<equiv> 32 :: nat"
abbreviation "STORE_CALL_NAME_MAX \<equiv> 24 :: nat"
abbreviation "STORE_CALL_LIST_COUNT \<equiv> 3 :: nat"
abbreviation "STORE_UNIT_CALLS_MISSED \<equiv> 6 :: nat"

record call_record =
  cr_id :: u32
  cr_number :: "u8 list"
  cr_name :: "u8 list"
  cr_duration_seconds :: u32
  cr_datetime :: rtc_datetime
  cr_reason :: u8

record call_list =
  cl_records :: "call_record list"
  cl_count :: u8
  cl_next_id :: u32

definition datetime_zero :: rtc_datetime where
  "datetime_zero = \<lparr>dt_year = 0, dt_month = 0, dt_day = 0, dt_hour = 0, dt_minute = 0, dt_second = 0\<rparr>"

definition call_record_zero :: call_record where
  "call_record_zero =
     \<lparr>cr_id = 0, cr_number = replicate (STORE_CALL_NUMBER_MAX + 1) 0,
      cr_name = replicate (STORE_CALL_NAME_MAX + 1) 0, cr_duration_seconds = 0, cr_datetime = datetime_zero,
      cr_reason = 0\<rparr>"

definition call_list_zero :: call_list where
  "call_list_zero =
     \<lparr>cl_records = replicate STORE_CALL_LIST_LIMIT call_record_zero, cl_count = 0, cl_next_id = 0\<rparr>"

section \<open>Operations on one list\<close>

text \<open>The steps inside the accessors, on the list they address.\<close>

definition call_list_add :: "call_record \<Rightarrow> call_list \<Rightarrow> call_list \<times> u32" where
  "call_list_add r l =
     (let n = (if unat (cl_count l) < STORE_CALL_LIST_LIMIT then unat (cl_count l) else STORE_CALL_LIST_LIMIT - 1);
          next_id = cl_next_id l + 1;
          stored = r\<lparr>cr_id := cl_next_id l, cr_number := (cr_number r)[STORE_CALL_NUMBER_MAX := 0],
            cr_name := (cr_name r)[STORE_CALL_NAME_MAX := 0]\<rparr>
      in (\<lparr>cl_records = stored # take n (cl_records l) @ drop (n + 1) (cl_records l),
           cl_count = (if unat (cl_count l) < STORE_CALL_LIST_LIMIT then cl_count l + 1 else cl_count l),
           cl_next_id = (if next_id = 0 then 1 else next_id)\<rparr>, cl_next_id l))"

definition call_list_delete :: "nat \<Rightarrow> call_list \<Rightarrow> call_list" where
  "call_list_delete index l =
     (let n = unat (cl_count l); rs = cl_records l in
      l\<lparr>cl_records := take index rs @ take (n - 1 - index) (drop (index + 1) rs) @ [call_record_zero] @ drop n rs,
        cl_count := cl_count l - 1\<rparr>)"

definition call_list_clear :: call_list where
  "call_list_clear = call_list_zero\<lparr>cl_next_id := 1\<rparr>"

section \<open>Accessors\<close>

text \<open>\<open>get\<close> and \<open>put\<close> select the array of lists from the RAM of all units.\<close>

definition unit_for_call_list :: "nat \<Rightarrow> nat" where
  "unit_for_call_list i = STORE_UNIT_CALLS_MISSED + i"

definition mark_call_list_dirty :: "nat \<Rightarrow> ('w, 'b) store_state \<Rightarrow> ('w, 'b) store_state \<times> store_status" where
  "mark_call_list_dirty i st =
     (if STORE_CALL_LIST_COUNT \<le> i then (st, STORE_STATUS_INVALID_ARGUMENT)
      else store_engine_mark_dirty (unit_for_call_list i) st)"

definition update_call_list ::
    "('w \<Rightarrow> call_list list) \<Rightarrow> (call_list list \<Rightarrow> 'w \<Rightarrow> 'w) \<Rightarrow> nat \<Rightarrow> call_list \<Rightarrow>
     ('w, 'b) store_state \<Rightarrow> ('w, 'b) store_state \<times> store_status" where
  "update_call_list get put i l st =
     mark_call_list_dirty i (st\<lparr>st_ram := put ((get (st_ram st))[i := l]) (st_ram st)\<rparr>)"

definition store_call_count :: "nat \<Rightarrow> call_list list \<Rightarrow> u8" where
  "store_call_count i ls = (if STORE_CALL_LIST_COUNT \<le> i then 0 else cl_count (ls ! i))"

definition store_call_get :: "nat \<Rightarrow> nat \<Rightarrow> bool \<Rightarrow> call_list list \<Rightarrow> store_status + call_record" where
  "store_call_get i index out_given ls =
     (if STORE_CALL_LIST_COUNT \<le> i \<or> \<not> out_given then Inl STORE_STATUS_INVALID_ARGUMENT
      else if unat (cl_count (ls ! i)) \<le> index then Inl STORE_STATUS_NOT_FOUND
      else Inr (cl_records (ls ! i) ! index))"

text \<open>The new state, the answer and the identifier the record got.\<close>

definition store_call_add ::
    "('w \<Rightarrow> call_list list) \<Rightarrow> (call_list list \<Rightarrow> 'w \<Rightarrow> 'w) \<Rightarrow> nat \<Rightarrow> call_record option \<Rightarrow>
     ('w, 'b) store_state \<Rightarrow> (('w, 'b) store_state \<times> store_status) \<times> u32 option" where
  "store_call_add get put i ro st =
     (case ro of
        None \<Rightarrow> ((st, STORE_STATUS_INVALID_ARGUMENT), None)
      | Some r \<Rightarrow>
          if STORE_CALL_LIST_COUNT \<le> i then ((st, STORE_STATUS_INVALID_ARGUMENT), None)
          else
            (let (l, i') = call_list_add r (get (st_ram st) ! i)
             in (update_call_list get put i l st, Some i')))"

text \<open>\<open>now\<close> is what the real-time clock answers.\<close>

definition store_call_add_now ::
    "('w \<Rightarrow> call_list list) \<Rightarrow> (call_list list \<Rightarrow> 'w \<Rightarrow> 'w) \<Rightarrow> rtc_datetime \<Rightarrow> nat \<Rightarrow> u8 list option \<Rightarrow>
     u8 list option \<Rightarrow> u32 \<Rightarrow> u8 \<Rightarrow> ('w, 'b) store_state \<Rightarrow>
     (('w, 'b) store_state \<times> store_status) \<times> u32 option" where
  "store_call_add_now get put now i number name duration reason st =
     (let text = (\<lambda>t. case t of None \<Rightarrow> [] | Some s \<Rightarrow> s) in
      store_call_add get put i (Some (call_record_zero
        \<lparr>cr_number := store_copy_text (cr_number call_record_zero) (text number),
         cr_name := store_copy_text (cr_name call_record_zero) (text name),
         cr_duration_seconds := duration, cr_reason := reason, cr_datetime := now\<rparr>)) st)"

definition store_call_update_number ::
    "('w \<Rightarrow> call_list list) \<Rightarrow> (call_list list \<Rightarrow> 'w \<Rightarrow> 'w) \<Rightarrow> nat \<Rightarrow> nat \<Rightarrow> u8 list option \<Rightarrow>
     ('w, 'b) store_state \<Rightarrow> ('w, 'b) store_state \<times> store_status" where
  "store_call_update_number get put i index number st =
     (case number of
        None \<Rightarrow> (st, STORE_STATUS_INVALID_ARGUMENT)
      | Some s \<Rightarrow>
          if STORE_CALL_LIST_COUNT \<le> i then (st, STORE_STATUS_INVALID_ARGUMENT)
          else
            (let l = get (st_ram st) ! i; r = cl_records l ! index in
             if unat (cl_count l) \<le> index then (st, STORE_STATUS_NOT_FOUND)
             else update_call_list get put i (l\<lparr>cl_records := (cl_records l)
                    [index := r\<lparr>cr_number := (store_copy_text (cr_number r) s)[STORE_CALL_NUMBER_MAX := 0]\<rparr>]\<rparr>) st))"

definition store_call_update_result ::
    "('w \<Rightarrow> call_list list) \<Rightarrow> (call_list list \<Rightarrow> 'w \<Rightarrow> 'w) \<Rightarrow> nat \<Rightarrow> u32 \<Rightarrow> u32 \<Rightarrow> u8 \<Rightarrow>
     ('w, 'b) store_state \<Rightarrow> ('w, 'b) store_state \<times> store_status" where
  "store_call_update_result get put i call_id duration reason st =
     (if STORE_CALL_LIST_COUNT \<le> i \<or> call_id = 0 then (st, STORE_STATUS_INVALID_ARGUMENT)
      else
        (let l = get (st_ram st) ! i in
         case find_idx (\<lambda>r. cr_id r = call_id) (take (unat (cl_count l)) (cl_records l)) of
           None \<Rightarrow> (st, STORE_STATUS_NOT_FOUND)
         | Some k \<Rightarrow>
             update_call_list get put i (l\<lparr>cl_records := (cl_records l)
               [k := (cl_records l ! k)\<lparr>cr_duration_seconds := duration, cr_reason := reason\<rparr>]\<rparr>) st))"

definition store_call_delete ::
    "('w \<Rightarrow> call_list list) \<Rightarrow> (call_list list \<Rightarrow> 'w \<Rightarrow> 'w) \<Rightarrow> nat \<Rightarrow> nat \<Rightarrow>
     ('w, 'b) store_state \<Rightarrow> ('w, 'b) store_state \<times> store_status" where
  "store_call_delete get put i index st =
     (if STORE_CALL_LIST_COUNT \<le> i then (st, STORE_STATUS_INVALID_ARGUMENT)
      else
        (let l = get (st_ram st) ! i in
         if unat (cl_count l) \<le> index then (st, STORE_STATUS_NOT_FOUND)
         else update_call_list get put i (call_list_delete index l) st))"

definition store_call_clear ::
    "('w \<Rightarrow> call_list list) \<Rightarrow> (call_list list \<Rightarrow> 'w \<Rightarrow> 'w) \<Rightarrow> nat \<Rightarrow>
     ('w, 'b) store_state \<Rightarrow> ('w, 'b) store_state \<times> store_status" where
  "store_call_clear get put i st =
     (if STORE_CALL_LIST_COUNT \<le> i then (st, STORE_STATUS_INVALID_ARGUMENT)
      else update_call_list get put i call_list_clear st)"

section \<open>The record on the medium\<close>

definition pack_datetime :: "rtc_datetime \<Rightarrow> u32" where
  "pack_datetime d =
     (let year = (if dt_year d < 2000 then 2000 else dt_year d);
          offset = (ucast (year - 2000) :: u32);
          offset1 = (if 63 < offset then 63 else offset)
      in push_bit 26 offset1 OR push_bit 22 (ucast (dt_month d AND 0x0f)) OR push_bit 17 (ucast (dt_day d AND 0x1f)) OR
         push_bit 12 (ucast (dt_hour d AND 0x1f)) OR push_bit 6 (ucast (dt_minute d AND 0x3f)) OR
         ucast (dt_second d AND 0x3f))"

definition unpack_datetime :: "u32 \<Rightarrow> rtc_datetime" where
  "unpack_datetime p =
     \<lparr>dt_year = ucast (2000 + (drop_bit 26 p AND 0x3f)), dt_month = ucast (drop_bit 22 p AND 0x0f),
      dt_day = ucast (drop_bit 17 p AND 0x1f), dt_hour = ucast (drop_bit 12 p AND 0x1f),
      dt_minute = ucast (drop_bit 6 p AND 0x3f), dt_second = ucast (p AND 0x3f)\<rparr>"

definition datetime_year_code :: "rtc_datetime \<Rightarrow> u8" where
  "datetime_year_code d =
     (let year = (if dt_year d < CALLS_FIRST_YEAR then CALLS_FIRST_YEAR
            else if CALLS_LAST_YEAR < dt_year d then CALLS_LAST_YEAR else dt_year d)
      in ucast (year - CALLS_FIRST_YEAR))"

definition call_record_fields :: "call_record \<Rightarrow> u8 list list" where
  "call_record_fields r =
     [write_u32 (cr_id r), write_u32 (cr_duration_seconds r), write_u32 (pack_datetime (cr_datetime r)),
      [cr_reason r], [of_nat (store_strnlen STORE_CALL_NUMBER_MAX (cr_number r))],
      [of_nat (store_strnlen STORE_CALL_NAME_MAX (cr_name r))], [datetime_year_code (cr_datetime r)],
      fixed_text STORE_CALL_NUMBER_MAX (cr_number r), fixed_text STORE_CALL_NAME_MAX (cr_name r)]"

definition serialize_call_list :: "u8 \<Rightarrow> call_list \<Rightarrow> u8 list \<Rightarrow> nat \<Rightarrow> (u8 list \<times> nat) option" where
  "serialize_call_list i l dst cap =
     write_fields dst cap 0
       ([write_u32 CALLS_MAGIC, write_u16 CALLS_PAYLOAD_VERSION, [i], [cl_count l], write_u32 (cl_next_id l)] @
        concat (map call_record_fields (take (unat (cl_count l)) (cl_records l))))"

text \<open>One record of 74 bytes.\<close>

definition load_call_record :: "u8 list \<Rightarrow> nat \<Rightarrow> call_record option" where
  "load_call_record pl pos =
     (let number_len = unat (pl ! (pos + 13)); name_len = unat (pl ! (pos + 14)); year_code = pl ! (pos + 15) in
      if length pl < pos + 16 + STORE_CALL_NUMBER_MAX + 1 + STORE_CALL_NAME_MAX + 1 then None
      else if STORE_CALL_NUMBER_MAX < number_len \<or> STORE_CALL_NAME_MAX < name_len then None
      else if CALLS_YEAR_CODE_MAX < year_code then None
      else Some \<lparr>cr_id = read_u32 (drop pos pl),
             cr_number = loaded_text STORE_CALL_NUMBER_MAX pl (pos + 16) number_len,
             cr_name = loaded_text STORE_CALL_NAME_MAX pl (pos + 16 + STORE_CALL_NUMBER_MAX + 1) name_len,
             cr_duration_seconds = read_u32 (drop (pos + 4) pl),
             cr_datetime = (unpack_datetime (read_u32 (drop (pos + 8) pl)))
               \<lparr>dt_year := CALLS_FIRST_YEAR + ucast year_code\<rparr>,
             cr_reason = pl ! (pos + 12)\<rparr>)"

fun load_call_records :: "u8 list \<Rightarrow> nat \<Rightarrow> nat \<Rightarrow> call_record list option" where
  "load_call_records pl pos 0 = Some []"
| "load_call_records pl pos (Suc k) =
     (case load_call_record pl pos of
        None \<Rightarrow> None
      | Some r \<Rightarrow> map_option ((#) r) (load_call_records pl (pos + 74) k))"

definition apply_call_payload :: "u8 \<Rightarrow> u8 list \<Rightarrow> call_list \<Rightarrow> call_list \<times> bool" where
  "apply_call_payload i pl l =
     (if length pl < 12 \<or> read_u32 pl \<noteq> CALLS_MAGIC \<or> pl ! 6 \<noteq> i then (l, False)
      else if read_u16 (drop 4 pl) \<noteq> CALLS_PAYLOAD_VERSION then (l, False)
      else if STORE_CALL_LIST_LIMIT < unat (pl ! 7) then (l, False)
      else
        (case load_call_records pl 12 (unat (pl ! 7)) of
           None \<Rightarrow> (l, False)
         | Some rs \<Rightarrow>
             (\<lparr>cl_records = rs @ drop (length rs) (cl_records call_list_zero), cl_count = pl ! 7,
               cl_next_id = (if read_u32 (drop 8 pl) = 0 then 1 else read_u32 (drop 8 pl))\<rparr>, True)))"

definition calls_unit_ops :: "u8 \<Rightarrow> call_list unit_ops" where
  "calls_unit_ops i =
     \<lparr>uo_reset_ram = (\<lambda>l. if STORE_CALL_LIST_COUNT \<le> unat i then l else call_list_clear),
      uo_serialize = (\<lambda>l cap. map_option (\<lambda>(dst, n). take n dst) (serialize_call_list i l (replicate cap 0) cap)),
      uo_apply = apply_call_payload i, uo_fallback_missing = None\<rparr>"

section \<open>The codec behind the engine's interface\<close>

text \<open>A date is stored with the years clamped to the range of its code and the other fields cut to
  their bits.\<close>

definition stored_datetime :: "rtc_datetime \<Rightarrow> rtc_datetime" where
  "stored_datetime d =
     \<lparr>dt_year = (if dt_year d < CALLS_FIRST_YEAR then CALLS_FIRST_YEAR
        else if CALLS_LAST_YEAR < dt_year d then CALLS_LAST_YEAR else dt_year d),
      dt_month = dt_month d AND 0x0f, dt_day = dt_day d AND 0x1f, dt_hour = dt_hour d AND 0x1f,
      dt_minute = dt_minute d AND 0x3f, dt_second = dt_second d AND 0x3f\<rparr>"

definition stored_record :: "call_record \<Rightarrow> call_record" where
  "stored_record r =
     r\<lparr>cr_number := fixed_text STORE_CALL_NUMBER_MAX (cr_number r),
       cr_name := fixed_text STORE_CALL_NAME_MAX (cr_name r), cr_datetime := stored_datetime (cr_datetime r)\<rparr>"

definition calls_view :: "call_list \<Rightarrow> call_record list \<times> u32" where
  "calls_view l = (map stored_record (take (unat (cl_count l)) (cl_records l)), cl_next_id l)"

definition calls_typed :: "call_list \<Rightarrow> bool" where
  "calls_typed l \<longleftrightarrow> length (cl_records l) = STORE_CALL_LIST_LIMIT \<and>
     unat (cl_count l) \<le> STORE_CALL_LIST_LIMIT \<and> cl_next_id l \<noteq> 0 \<and>
     (\<forall>r\<in>set (cl_records l). length (cr_number r) = STORE_CALL_NUMBER_MAX + 1 \<and>
        length (cr_name r) = STORE_CALL_NAME_MAX + 1)"

lemma unpack_pack_datetime:
  "(unpack_datetime (pack_datetime d))\<lparr>dt_year := CALLS_FIRST_YEAR + ucast (datetime_year_code d)\<rparr> = stored_datetime d"
proof -
  let ?p = "pack_datetime d"
  have m: "(0x0f :: u8) = mask 4" "(0x1f :: u8) = mask 5" "(0x3f :: u8) = mask 6"
    "(0x0f :: u32) = mask 4" "(0x1f :: u32) = mask 5" "(0x3f :: u32) = mask 6"
    by (simp_all add: mask_eq_exp_minus_1)
  have bits: "ucast (drop_bit 22 ?p AND 0x0f) = dt_month d AND 0x0f" "ucast (drop_bit 17 ?p AND 0x1f) = dt_day d AND 0x1f"
    "ucast (drop_bit 12 ?p AND 0x1f) = dt_hour d AND 0x1f" "ucast (drop_bit 6 ?p AND 0x3f) = dt_minute d AND 0x3f"
    "ucast (?p AND 0x3f) = dt_second d AND 0x3f"
    by (rule bit_eqI, simp add: pack_datetime_def Let_def bit_simps m, auto)+
  define y where "y = (if dt_year d < CALLS_FIRST_YEAR then CALLS_FIRST_YEAR
            else if CALLS_LAST_YEAR < dt_year d then CALLS_LAST_YEAR else dt_year d)"
  have "CALLS_FIRST_YEAR \<le> y" "y \<le> CALLS_LAST_YEAR"
    by (auto simp add: y_def)
  then have "unat (y - CALLS_FIRST_YEAR) \<le> 91"
    by (simp add: unat_sub word_le_nat_alt)
  then have "ucast (ucast (y - CALLS_FIRST_YEAR) :: u8) = y - CALLS_FIRST_YEAR"
    by (simp add: word_unat_eq_iff unsigned_ucast_eq unsigned_take_bit_eq take_bit_nat_eq_self)
  then have "CALLS_FIRST_YEAR + ucast (datetime_year_code d) = y"
    by (simp add: datetime_year_code_def y_def [symmetric])
  then show ?thesis
    by (simp add: unpack_datetime_def stored_datetime_def bits y_def [symmetric])
qed

lemma year_code_bound: "\<not> CALLS_YEAR_CODE_MAX < datetime_year_code d"
proof -
  define y where "y = (if dt_year d < CALLS_FIRST_YEAR then CALLS_FIRST_YEAR
            else if CALLS_LAST_YEAR < dt_year d then CALLS_LAST_YEAR else dt_year d)"
  have "CALLS_FIRST_YEAR \<le> y" "y \<le> CALLS_LAST_YEAR"
    by (auto simp add: y_def)
  then have "unat (y - CALLS_FIRST_YEAR) \<le> 91"
    by (simp add: unat_sub word_le_nat_alt)
  then show ?thesis
    by (simp add: datetime_year_code_def y_def [symmetric] not_less word_le_nat_alt unsigned_ucast_eq unsigned_take_bit_eq take_bit_nat_eq_self)
qed

lemma fixed_text_loads:
  assumes "pl = pre @ fixed_text n xs @ post"
  shows "loaded_text n pl (length pre) (store_strnlen n xs) = fixed_text n xs"
proof -
  have "take (store_strnlen n xs) (fixed_text n xs @ post) = take (store_strnlen n xs) xs"
    using strnlen_bound [of n xs] by (simp add: fixed_text_def Let_def)
  then show ?thesis
    by (simp add: loaded_text_def assms fixed_text_def Let_def)
qed

text \<open>One record of 74 bytes and a run of them.\<close>

lemma call_record_bytes [simp]: "length (concat (call_record_fields r)) = 74"
  by (simp add: call_record_fields_def)

lemma call_record_loads:
  assumes pl: "pl = pre @ concat (call_record_fields r) @ post"
  shows "load_call_record pl (length pre) = Some (stored_record r)"
proof -
  let ?n = "store_strnlen 32 (cr_number r)" and ?m = "store_strnlen 24 (cr_name r)"
  have b: "?n \<le> 32" "?m \<le> 24"
    using strnlen_bound(1) by blast+
  have w: "unat (of_nat ?n :: u8) = ?n" "unat (of_nat ?m :: u8) = ?m"
    using b by (simp_all add: unat_of_nat)
  let ?head = "write_u32 (cr_id r) @ write_u32 (cr_duration_seconds r) @ write_u32 (pack_datetime (cr_datetime r)) @
      [cr_reason r, of_nat ?n, of_nat ?m, datetime_year_code (cr_datetime r)]"
  have "pl = (pre @ ?head) @ fixed_text 32 (cr_number r) @ (fixed_text 24 (cr_name r) @ post)"
    by (simp add: pl call_record_fields_def)
  from fixed_text_loads [OF this] have num: "loaded_text 32 pl (length pre + 16) ?n = fixed_text 32 (cr_number r)"
    by simp
  have "pl = (pre @ ?head @ fixed_text 32 (cr_number r)) @ fixed_text 24 (cr_name r) @ post"
    by (simp add: pl call_record_fields_def)
  from fixed_text_loads [OF this] have name: "loaded_text 24 pl (length pre + 49) ?m = fixed_text 24 (cr_name r)"
    by simp
  have heads: "read_u32 (drop (length pre) pl) = cr_id r" "read_u32 (drop (length pre + 4) pl) = cr_duration_seconds r"
    "read_u32 (drop (length pre + 8) pl) = pack_datetime (cr_datetime r)"
    "pl ! (length pre + 12) = cr_reason r" "pl ! (length pre + 13) = of_nat ?n" "pl ! (length pre + 14) = of_nat ?m"
    "pl ! (length pre + 15) = datetime_year_code (cr_datetime r)"
    by (simp_all add: pl call_record_fields_def drop_field nth_field nth_append)
  have "length pre + 74 \<le> length pl"
    by (simp add: pl)
  then show ?thesis
    using b by (simp add: load_call_record_def Let_def heads w num name year_code_bound unpack_pack_datetime
        stored_record_def not_less) (rule call_record.equality; simp add: name add.commute [of 49])
qed

lemma call_records_load:
  "pl = pre @ concat (concat (map call_record_fields rs)) @ post \<Longrightarrow>
    load_call_records pl (length pre) (length rs) = Some (map stored_record rs)"
proof (induction rs arbitrary: pre)
  case (Cons r rs)
  have pl: "pl = pre @ concat (call_record_fields r) @ concat (concat (map call_record_fields rs)) @ post"
    using Cons.prems by simp
  have "load_call_records pl (length (pre @ concat (call_record_fields r))) (length rs) = Some (map stored_record rs)"
    using pl by (intro Cons.IH) simp
  then show ?case
    using call_record_loads [OF pl] by simp
qed simp

lemma stored_datetime_idem [simp]: "stored_datetime (stored_datetime d) = stored_datetime d"
  by (auto simp add: stored_datetime_def and.assoc)

lemma stored_record_idem [simp]: "stored_record (stored_record r) = stored_record r"
  by (simp add: stored_record_def)

lemma load_call_records_shape:
  "load_call_records pl pos k = Some rs \<Longrightarrow> length rs = k \<and>
     (\<forall>r\<in>set rs. length (cr_number r) = STORE_CALL_NUMBER_MAX + 1 \<and> length (cr_name r) = STORE_CALL_NAME_MAX + 1)"
proof (induction k arbitrary: pos rs)
  case (Suc k)
  then show ?case
    by (force simp add: load_call_record_def Let_def loaded_text_def split: if_splits option.splits)
qed simp

lemma call_payload_loads:
  assumes t: "calls_typed l" and w: "written
     ([write_u32 CALLS_MAGIC, write_u16 CALLS_PAYLOAD_VERSION, [i], [cl_count l], write_u32 (cl_next_id l)] @
        concat (map call_record_fields (take (unat (cl_count l)) (cl_records l)))) cap = Some pl"
  shows "snd (apply_call_payload i pl l0) \<and> calls_view (fst (apply_call_payload i pl l0)) = calls_view l \<and>
    take (unat (cl_count (fst (apply_call_payload i pl l0)))) (cl_records (fst (apply_call_payload i pl l0))) =
      map stored_record (take (unat (cl_count l)) (cl_records l))"
proof -
  define rs where "rs = take (unat (cl_count l)) (cl_records l)"
  define pre where "pre = write_u32 CALLS_MAGIC @ write_u16 CALLS_PAYLOAD_VERSION @ [i, cl_count l] @ write_u32 (cl_next_id l)"
  have n: "length rs = unat (cl_count l)" "unat (cl_count l) \<le> 20" "cl_next_id l \<noteq> 0"
    using t by (simp_all add: calls_typed_def rs_def)
  have pl: "pl = pre @ concat (concat (map call_record_fields rs)) @ []"
    using w by (simp add: written_iff pre_def rs_def)
  have "load_call_records pl (length pre) (length rs) = Some (map stored_record rs)"
    by (rule call_records_load [OF pl])
  then have l: "load_call_records pl 12 (unat (cl_count l)) = Some (map stored_record rs)"
    by (simp add: pre_def n)
  have h: "12 \<le> length pl" "read_u32 pl = CALLS_MAGIC" "read_u16 (drop 4 pl) = CALLS_PAYLOAD_VERSION"
    "pl ! 6 = i" "pl ! 7 = cl_count l" "read_u32 (drop 8 pl) = cl_next_id l"
    by (simp_all add: pl pre_def drop_field nth_field)
  show ?thesis
    using n by (simp add: apply_call_payload_def h [simplified] l [simplified] calls_view_def not_less comp_def rs_def [symmetric])
qed

lemma call_apply_facts:
  assumes "snd (apply_call_payload i pl l0)"
  shows "apply_call_payload i pl l1 = apply_call_payload i pl l0" "calls_typed (fst (apply_call_payload i pl l0))"
  using assms load_call_records_shape [of pl 12 "unat (pl ! 7)"]
  by (auto simp add: apply_call_payload_def calls_typed_def call_list_zero_def call_record_zero_def
      dest: in_set_dropD split: if_splits option.splits)

interpretation calls_codec: unit_codec "calls_unit_ops i" calls_view calls_typed for i
proof unfold_locales
  fix w cap bytes w0
  assume t: "calls_typed w" and "uo_serialize (calls_unit_ops i) w cap = Some bytes"
  then have "written ([write_u32 CALLS_MAGIC, write_u16 CALLS_PAYLOAD_VERSION, [i], [cl_count w], write_u32 (cl_next_id w)] @
        concat (map call_record_fields (take (unat (cl_count w)) (cl_records w)))) cap = Some bytes"
    by (simp add: calls_unit_ops_def serialize_call_list_def written_def)
  from call_payload_loads [OF t this] show "snd (uo_apply (calls_unit_ops i) bytes w0) \<and>
      calls_view (fst (uo_apply (calls_unit_ops i) bytes w0)) = calls_view w"
    by (simp add: calls_unit_ops_def)
next
  fix bytes w0 w1
  assume "snd (uo_apply (calls_unit_ops i) bytes w0)"
  then show "snd (uo_apply (calls_unit_ops i) bytes w1) \<and>
      calls_view (fst (uo_apply (calls_unit_ops i) bytes w1)) = calls_view (fst (uo_apply (calls_unit_ops i) bytes w0))"
    using call_apply_facts(1) [of i bytes w0 w1] by (simp add: calls_unit_ops_def)
next
  fix w bytes assume t: "calls_typed w"
  then show "calls_typed (fst (uo_apply (calls_unit_ops i) bytes w))"
    using call_apply_facts(2) [of i bytes w]
    by (auto simp add: calls_unit_ops_def apply_call_payload_def split: if_splits option.splits)
  show "calls_typed (uo_reset_ram (calls_unit_ops i) w)"
    using t by (simp add: calls_unit_ops_def call_list_clear_def call_list_zero_def call_record_zero_def calls_typed_def)
qed

end
