(* ===== verification/Call_Log.thy ===== *)
theory Call_Log
  imports Store_Calls
begin

text \<open>
  The lists of recent calls as the phone shows them: the abstract log is the list of its records,
  newest first, with the next identifier, and every accessor of \<open>storage/store_calls.c\<close> refines an
  operation on it; a log persisted and read back is the same log.
\<close>

section \<open>The abstract log\<close>

datatype call_op =
    Log_Add call_record
  | Log_Number nat "u8 list"
  | Log_Result u32 u32 u8
  | Log_Delete nat
  | Log_Clear

type_synonym call_log = "call_record list \<times> u32"

definition call_log :: "call_list \<Rightarrow> call_log" where
  "call_log l = (take (unat (cl_count l)) (cl_records l), cl_next_id l)"

definition terminated :: "call_record \<Rightarrow> call_record" where
  "terminated r = r\<lparr>cr_number := (cr_number r)[STORE_CALL_NUMBER_MAX := 0],
     cr_name := (cr_name r)[STORE_CALL_NAME_MAX := 0]\<rparr>"

definition set_number :: "u8 list \<Rightarrow> call_record \<Rightarrow> call_record" where
  "set_number s r = r\<lparr>cr_number := (store_copy_text (cr_number r) s)[STORE_CALL_NUMBER_MAX := 0]\<rparr>"

fun log_step :: "call_op \<Rightarrow> call_log \<Rightarrow> call_log" where
  "log_step (Log_Add r) (rs, nx) =
     (take STORE_CALL_LIST_LIMIT ((terminated r)\<lparr>cr_id := nx\<rparr> # rs), if nx + 1 = 0 then 1 else nx + 1)"
| "log_step (Log_Number k s) (rs, nx) = (if k < length rs then rs[k := set_number s (rs ! k)] else rs, nx)"
| "log_step (Log_Result c d reason) (rs, nx) =
     (case find_idx (\<lambda>r. cr_id r = c) rs of
        Some k \<Rightarrow> if c = 0 then rs else rs[k := (rs ! k)\<lparr>cr_duration_seconds := d, cr_reason := reason\<rparr>]
      | None \<Rightarrow> rs, nx)"
| "log_step (Log_Delete k) (rs, nx) = (take k rs @ drop (Suc k) rs, nx)"
| "log_step Log_Clear (rs, nx) = ([], 1)"

text \<open>The accessor each operation stands for, and a run of them over the three lists.\<close>

fun store_call_do ::
    "('w \<Rightarrow> call_list list) \<Rightarrow> (call_list list \<Rightarrow> 'w \<Rightarrow> 'w) \<Rightarrow> nat \<Rightarrow> call_op \<Rightarrow>
     ('w, 'b) store_state \<Rightarrow> ('w, 'b) store_state" where
  "store_call_do get put i (Log_Add r) st = fst (fst (store_call_add get put i (Some r) st))"
| "store_call_do get put i (Log_Number k s) st = fst (store_call_update_number get put i k (Some s) st)"
| "store_call_do get put i (Log_Result c d reason) st = fst (store_call_update_result get put i c d reason st)"
| "store_call_do get put i (Log_Delete k) st = fst (store_call_delete get put i k st)"
| "store_call_do get put i Log_Clear st = fst (store_call_clear get put i st)"

fun store_call_run ::
    "('w \<Rightarrow> call_list list) \<Rightarrow> (call_list list \<Rightarrow> 'w \<Rightarrow> 'w) \<Rightarrow> (nat \<times> call_op) list \<Rightarrow>
     ('w, 'b) store_state \<Rightarrow> ('w, 'b) store_state" where
  "store_call_run get put [] st = st"
| "store_call_run get put ((i, c) # cs) st = store_call_run get put cs (store_call_do get put i c st)"

definition log_run :: "nat \<Rightarrow> (nat \<times> call_op) list \<Rightarrow> call_log \<Rightarrow> call_log" where
  "log_run j cs log = fold log_step (map snd (filter (\<lambda>c. fst c = j) cs)) log"

section \<open>One list\<close>

definition call_list_shape :: "call_list \<Rightarrow> bool" where
  "call_list_shape l \<longleftrightarrow> length (cl_records l) = STORE_CALL_LIST_LIMIT \<and> unat (cl_count l) \<le> STORE_CALL_LIST_LIMIT"

lemma count_up: "unat (c :: u8) < 20 \<Longrightarrow> unat (c + 1) = unat c + 1"
  by (simp add: unat_word_ariths)

lemma count_down: "0 < unat (c :: u8) \<Longrightarrow> unat (c - 1) = unat c - 1"
  by (metis One_nat_def Suc_leI unat_1 unat_sub word_le_nat_alt)

lemma add_refines:
  assumes "call_list_shape l"
  shows "call_list_shape (fst (call_list_add r l)) \<and>
    call_log (fst (call_list_add r l)) = log_step (Log_Add r) (call_log l)"
proof -
  define n where "n = (if unat (cl_count l) < 20 then unat (cl_count l) else 19)"
  have s: "length (cl_records l) = 20" "unat (cl_count l) \<le> 20"
    using assms by (simp_all add: call_list_shape_def)
  then have "n < 20" "unat (if unat (cl_count l) < 20 then cl_count l + 1 else cl_count l) = n + 1"
    "take n (take (unat (cl_count l)) (cl_records l)) = take n (cl_records l)"
    by (auto simp add: n_def count_up min_def)
  moreover have "min (unat (cl_count l)) 19 = n"
    using s by (auto simp add: n_def)
  ultimately show ?thesis
    using s by (simp add: call_list_shape_def call_log_def call_list_add_def Let_def n_def [symmetric] terminated_def
        take_Cons') (auto simp add: n_def)
qed

lemma delete_refines:
  assumes "call_list_shape l" "k < unat (cl_count l)"
  shows "call_list_shape (call_list_delete k l) \<and>
    call_log (call_list_delete k l) = log_step (Log_Delete k) (call_log l)"
proof -
  have s: "length (cl_records l) = 20" "unat (cl_count l) \<le> 20"
    using assms by (simp_all add: call_list_shape_def)
  have c: "unat (cl_count l - 1) = unat (cl_count l) - 1"
    using assms(2) by (intro count_down) simp
  let ?n = "unat (cl_count l)" let ?a = "take k (cl_records l)" let ?b = "take (?n - 1 - k) (drop (k + 1) (cl_records l))"
  have ab: "length ?a = k" "length ?b = ?n - 1 - k"
    using s assms(2) by simp_all
  then have "length (?a @ ?b @ [call_record_zero] @ drop ?n (cl_records l)) = 20"
    using s assms(2) by simp
  moreover have "take (?n - 1) (?a @ ?b @ r) = ?a @ ?b" for r
    using ab assms(2) by simp
  moreover have "take k (take ?n (cl_records l)) @ drop (Suc k) (take ?n (cl_records l)) = ?a @ ?b"
    using assms(2) by (simp add: min_absorb1 drop_take)
  ultimately show ?thesis
    using s by (simp add: call_list_shape_def call_log_def call_list_delete_def Let_def c)
qed

lemma change_refines:
  assumes "call_list_shape l"
  shows "call_list_shape (l\<lparr>cl_records := (cl_records l)[k := r]\<rparr>)"
    and "call_log (l\<lparr>cl_records := (cl_records l)[k := r]\<rparr>) =
      ((take (unat (cl_count l)) (cl_records l))[k := r], cl_next_id l)"
  using assms by (simp_all add: call_list_shape_def call_log_def take_update_swap)

lemma clear_refines: "call_list_shape call_list_clear" "call_log call_list_clear = ([], 1)"
  by (simp_all add: call_list_shape_def call_log_def call_list_clear_def call_list_zero_def)

section \<open>Three lists\<close>

definition call_lists_shape :: "call_list list \<Rightarrow> bool" where
  "call_lists_shape ls \<longleftrightarrow> length ls = STORE_CALL_LIST_COUNT \<and> (\<forall>l\<in>set ls. call_list_shape l)"

lemma call_do_refines:
  assumes lens: "\<And>x w. get (put x w) = x" and s: "call_lists_shape (get (st_ram st))"
  shows "call_lists_shape (get (st_ram (store_call_do get put i c st))) \<and>
    (\<forall>j<STORE_CALL_LIST_COUNT. call_log (get (st_ram (store_call_do get put i c st)) ! j) =
       (if j = i then log_step c (call_log (get (st_ram st) ! j)) else call_log (get (st_ram st) ! j)))"
proof (cases "i < 3")
  case False
  then show ?thesis
    using s by (cases c) (auto simp add: store_call_add_def store_call_update_number_def store_call_update_result_def
        store_call_delete_def store_call_clear_def)
next
  case True
  let ?ls = "get (st_ram st)" let ?l = "?ls ! i"
  have l: "length ?ls = 3" "call_list_shape ?l"
    using s True by (auto simp add: call_lists_shape_def)
  have upd: "get (st_ram (fst (update_call_list get put i l' st))) = ?ls[i := l']" for l'
    using True by (simp add: update_call_list_def mark_call_list_dirty_def store_engine_mark_dirty_def lens)
  have shape: "call_list_shape l' \<Longrightarrow> call_lists_shape (?ls[i := l'])" for l'
    using s by (auto simp add: call_lists_shape_def dest!: set_update_subset_insert [THEN subsetD])
  have goal: ?thesis if "get (st_ram (store_call_do get put i c st)) = ?ls[i := l']" "call_list_shape l'"
    "call_log l' = log_step c (call_log ?l)" for l'
    using that shape [of l'] l(1) by (auto simp add: nth_list_update)
  have len: "length (take (unat (cl_count ?l)) (cl_records ?l)) = unat (cl_count ?l)"
    using l(2) by (simp add: call_list_shape_def)
  have lg: "call_log ?l = (take (unat (cl_count ?l)) (cl_records ?l), cl_next_id ?l)"
    by (simp add: call_log_def)
  have same: ?thesis if "store_call_do get put i c st = st" "log_step c (call_log ?l) = call_log ?l"
    using that s by simp
  show ?thesis
  proof (cases c)
    case (Log_Add r)
    then show ?thesis
      using add_refines [OF l(2), of r] True
      by (intro goal [of "fst (call_list_add r ?l)"]) (auto simp add: store_call_add_def upd split: prod.split)
  next
    case (Log_Number k t)
    then show ?thesis
    proof (cases "k < unat (cl_count ?l)")
      case True
      with \<open>i < 3\<close> Log_Number show ?thesis
        using change_refines [OF l(2)] len
        by (intro goal) (simp_all add: store_call_update_number_def Let_def upd set_number_def lg)
    next
      case False
      with Log_Number \<open>i < 3\<close> len show ?thesis
        by (intro same) (simp_all add: store_call_update_number_def Let_def call_log_def)
    qed
  next
    case (Log_Result cid d reason)
    show ?thesis
    proof (cases "cid = 0 \<or> find_idx (\<lambda>r. cr_id r = cid) (fst (call_log ?l)) = None")
      case True
      with Log_Result \<open>i < 3\<close> show ?thesis
        by (intro same) (auto simp add: store_call_update_result_def Let_def call_log_def split: option.splits)
    next
      case False
      then obtain k where k: "find_idx (\<lambda>r. cr_id r = cid) (take (unat (cl_count ?l)) (cl_records ?l)) = Some k" "cid \<noteq> 0"
        by (auto simp add: call_log_def)
      then have "k < unat (cl_count ?l)"
        using find_idx_SomeD [OF k(1)] len by simp
      with Log_Result \<open>i < 3\<close> k show ?thesis
        using change_refines [OF l(2)]
        by (intro goal) (simp_all add: store_call_update_result_def Let_def upd lg)
    qed
  next
    case (Log_Delete k)
    show ?thesis
    proof (cases "k < unat (cl_count ?l)")
      case True
      with Log_Delete \<open>i < 3\<close> show ?thesis
        using delete_refines [OF l(2) True]
        by (intro goal [of "call_list_delete k ?l"]) (auto simp add: store_call_delete_def Let_def upd)
    next
      case False
      with Log_Delete \<open>i < 3\<close> len show ?thesis
        by (intro same) (simp_all add: store_call_delete_def Let_def call_log_def)
    qed
  next
    case Log_Clear
    then show ?thesis
      using clear_refines \<open>i < 3\<close>
      by (intro goal) (simp_all add: store_call_clear_def upd call_log_def)
  qed
qed

text \<open>C38: the three call lists are what the operations on them make of an abstract log: under any
  sequence of calls to the accessors, in any order and on any list, with arguments in range or not, each
  list holds exactly the records its own operations left, newest first and never more than twenty, with
  the identifiers handed out in order.\<close>

theorem call_lists_refine_logs:
  assumes "\<And>x w. get (put x w) = x" "call_lists_shape (get (st_ram st))" "j < STORE_CALL_LIST_COUNT"
  shows "call_log (get (st_ram (store_call_run get put cs st)) ! j) = log_run j cs (call_log (get (st_ram st) ! j))"
  using assms(2)
proof (induction cs arbitrary: st)
  case (Cons c cs)
  obtain i op where c: "c = (i, op)" by (cases c)
  show ?case
    using call_do_refines [of get put, OF assms(1) Cons.prems, of i op] assms(3)
      Cons.IH [of "store_call_do get put i op st"]
    by (simp add: c log_run_def split: if_splits)
qed (simp add: log_run_def)

theorem call_lists_refine_logs_witness:
  "let r = call_record_zero\<lparr>cr_duration_seconds := 42\<rparr>;
       st = store_call_run (\<lambda>w. w) (\<lambda>x _. x) [(0, Log_Add r), (1, Log_Clear), (0, Log_Add r), (0, Log_Delete 1)]
              (plain_store (replicate 3 call_list_clear))
   in call_log (st_ram st ! 0) = ([r\<lparr>cr_id := 2\<rparr>], 3)"
proof -
  define r where "r = call_record_zero\<lparr>cr_duration_seconds := 42\<rparr>"
  let ?cs = "[(0, Log_Add r), (1, Log_Clear), (0, Log_Add r), (0, Log_Delete 1)]"
  let ?st = "plain_store (replicate 3 call_list_clear)"
  have s: "call_lists_shape (st_ram ?st)"
    using clear_refines(1) by (simp add: plain_store_def call_lists_shape_def)
  have "call_log (st_ram (store_call_run (\<lambda>w. w) (\<lambda>x _. x) ?cs ?st) ! 0) = log_run 0 ?cs (call_log (st_ram ?st ! 0))"
    using call_lists_refine_logs [of "\<lambda>w. w" "\<lambda>x _. x" ?st 0 ?cs, OF _ s] by simp
  also have "\<dots> = ([r\<lparr>cr_id := 2\<rparr>], 3)"
    unfolding r_def by code_simp
  finally show ?thesis
    by (simp add: r_def)
qed

text \<open>A call list persisted and read back is the same log: whatever the decoder finds in RAM, it
  accepts the record the serializer wrote and rebuilds the records in use, each with its number and name
  up to their NUL and its date in the range of the year code, and the next identifier.\<close>

theorem call_log_survives:
  assumes "calls_typed l" "uo_serialize (calls_unit_ops i) l cap = Some bytes"
  shows "snd (uo_apply (calls_unit_ops i) bytes l0) \<and>
    call_log (fst (uo_apply (calls_unit_ops i) bytes l0)) = (map stored_record (fst (call_log l)), snd (call_log l))"
proof -
  have "written ([write_u32 CALLS_MAGIC, write_u16 CALLS_PAYLOAD_VERSION, [i], [cl_count l], write_u32 (cl_next_id l)] @
        concat (map call_record_fields (take (unat (cl_count l)) (cl_records l)))) cap = Some bytes"
    using assms(2) by (simp add: calls_unit_ops_def serialize_call_list_def written_def)
  from call_payload_loads [OF assms(1) this, of l0] show ?thesis
    by (simp add: call_log_def calls_unit_ops_def calls_view_def)
qed

definition sample_call_list :: call_list where
  "sample_call_list = fst (call_list_add
     (call_record_zero\<lparr>cr_datetime := datetime_zero\<lparr>dt_year := 2026, dt_month := 2, dt_day := 30\<rparr>\<rparr>) call_list_clear)"

theorem call_log_survives_witness:
  "\<exists>bytes. uo_serialize (calls_unit_ops 0) sample_call_list 100 = Some bytes \<and> length bytes = 86 \<and>
    call_log (fst (uo_apply (calls_unit_ops 0) bytes call_list_zero)) =
      (map stored_record (fst (call_log sample_call_list)), 2)"
proof -
  have t: "calls_typed sample_call_list"
    by code_simp
  have c: "cl_count sample_call_list = 1" "length (take 1 (cl_records sample_call_list)) = 1"
    "snd (call_log sample_call_list) = 2"
    by code_simp+
  then obtain r where r: "take 1 (cl_records sample_call_list) = [r]"
    by (metis One_nat_def length_0_conv length_Suc_conv)
  let ?fs = "[write_u32 CALLS_MAGIC, write_u16 CALLS_PAYLOAD_VERSION, [0], [1], write_u32 (cl_next_id sample_call_list)] @
      concat (map call_record_fields [r])"
  have "uo_serialize (calls_unit_ops 0) sample_call_list 100 = written ([write_u32 CALLS_MAGIC,
      write_u16 CALLS_PAYLOAD_VERSION, [0], [cl_count sample_call_list], write_u32 (cl_next_id sample_call_list)] @
      concat (map call_record_fields (take (unat (cl_count sample_call_list)) (cl_records sample_call_list)))) 100"
    by (simp add: calls_unit_ops_def serialize_call_list_def written_def)
  also have "\<dots> = written ?fs 100"
    by (simp only: c(1) unat_1 r)
  also have "\<dots> = Some (concat ?fs)"
    by (subst written_iff) simp
  finally have "uo_serialize (calls_unit_ops 0) sample_call_list 100 = Some (concat ?fs)" .
  then show ?thesis
    using call_log_survives [OF t, of 0 100 "concat ?fs" call_list_zero] c(3) by (intro exI [of _ "concat ?fs"]) simp
qed

end
