(* ===== verification/Store_Words.thy ===== *)
theory Store_Words
  imports Store_Texts
begin

text \<open>
  Two more persistence units: the T9 user words (\<open>storage/store_t9.c\<close>) and the health counters of the
  object collections (\<open>storage/store_health.c\<close>).
\<close>

section \<open>T9 user words\<close>

abbreviation "T9_USER_MAGIC \<equiv> 0x54395531 :: u32"
abbreviation "STORE_T9_USER_WORD_LIMIT \<equiv> 16 :: nat"
abbreviation "STORE_T9_WORD_MAX \<equiv> 32 :: nat"
abbreviation "STORE_UNIT_T9_USER_DICT \<equiv> 9 :: nat"

record t9_user_state =
  t9_words :: "u8 list list"
  t9_count :: u8

definition t9_zero :: t9_user_state where
  "t9_zero = \<lparr>t9_words = replicate STORE_T9_USER_WORD_LIMIT (replicate (STORE_T9_WORD_MAX + 1) 0), t9_count = 0\<rparr>"

definition reset_t9_unit :: "t9_user_state \<Rightarrow> t9_user_state" where
  "reset_t9_unit st = t9_zero"

definition t9_bounded_count :: "t9_user_state \<Rightarrow> nat" where
  "t9_bounded_count st = (if STORE_T9_USER_WORD_LIMIT < unat (t9_count st) then STORE_T9_USER_WORD_LIMIT
     else unat (t9_count st))"

definition t9_fields :: "t9_user_state \<Rightarrow> u8 list list" where
  "t9_fields st =
     [write_u32 T9_USER_MAGIC, write_u16 STORE_PAYLOAD_VERSION, [of_nat (t9_bounded_count st)], [0]] @
     concat (map (text_fields STORE_T9_WORD_MAX) (take (t9_bounded_count st) (t9_words st)))"

definition serialize_t9_unit :: "t9_user_state \<Rightarrow> u8 list \<Rightarrow> nat \<Rightarrow> (u8 list \<times> nat) option" where
  "serialize_t9_unit st dst cap = write_fields dst cap 0 (t9_fields st)"

definition apply_t9_unit :: "u8 list \<Rightarrow> t9_user_state \<Rightarrow> t9_user_state \<times> bool" where
  "apply_t9_unit pl st =
     (if length pl < 8 \<or> read_u32 pl \<noteq> T9_USER_MAGIC \<or> read_u16 (drop 4 pl) \<noteq> STORE_PAYLOAD_VERSION \<or>
        STORE_T9_USER_WORD_LIMIT < unat (pl ! 6)
      then (st, False)
      else
        (case load_texts STORE_T9_WORD_MAX pl 8 (unat (pl ! 6)) of
           None \<Rightarrow> (st, False)
         | Some ws \<Rightarrow>
             (\<lparr>t9_words = ws @ drop (length ws) (t9_words t9_zero), t9_count = pl ! 6\<rparr>, True)))"

definition t9_unit_ops :: "t9_user_state unit_ops" where
  "t9_unit_ops =
     \<lparr>uo_reset_ram = reset_t9_unit,
      uo_serialize = (\<lambda>st cap. map_option (\<lambda>(dst, n). take n dst) (serialize_t9_unit st (replicate cap 0) cap)),
      uo_apply = apply_t9_unit, uo_fallback_missing = None\<rparr>"

text \<open>The caller's array and its room; an absent array is \<open>None\<close>.\<close>

definition store_t9_user_words_load ::
    "u8 list list option \<Rightarrow> u8 \<Rightarrow> bool \<Rightarrow> t9_user_state \<Rightarrow> store_status + u8 list list option \<times> u8" where
  "store_t9_user_words_load words word_cap count_given st =
     (if \<not> count_given \<or> 0 < word_cap \<and> words = None then Inl STORE_STATUS_INVALID_ARGUMENT
      else
        (let n = (if t9_bounded_count st < unat word_cap then t9_bounded_count st else unat word_cap)
         in Inr (map_option (\<lambda>ws. map2 store_copy_text (take n ws) (take n (t9_words st)) @ drop n ws) words,
                 of_nat n)))"

definition store_t9_user_words_save ::
    "(t9_user_state \<Rightarrow> 'w \<Rightarrow> 'w) \<Rightarrow> u8 list list option \<Rightarrow> u8 \<Rightarrow> ('w, 'b) store_state \<Rightarrow>
     ('w, 'b) store_state \<times> store_status" where
  "store_t9_user_words_save put words word_count st =
     (if STORE_T9_USER_WORD_LIMIT < unat word_count \<or> 0 < word_count \<and> words = None
      then (st, STORE_STATUS_INVALID_ARGUMENT)
      else
        (let n = unat word_count;
             ws = take n (case words of None \<Rightarrow> [] | Some v \<Rightarrow> v);
             stored = map2 store_copy_text (take n (t9_words t9_zero)) ws @ drop n (t9_words t9_zero)
         in store_engine_mark_dirty STORE_UNIT_T9_USER_DICT
              (st\<lparr>st_ram := put \<lparr>t9_words = stored, t9_count = word_count\<rparr> (st_ram st)\<rparr>)))"

text \<open>The codec: what is persisted are the words in use.\<close>

definition t9_typed :: "t9_user_state \<Rightarrow> bool" where
  "t9_typed st \<longleftrightarrow> length (t9_words st) = STORE_T9_USER_WORD_LIMIT \<and>
     unat (t9_count st) \<le> STORE_T9_USER_WORD_LIMIT \<and> (\<forall>w\<in>set (t9_words st). length w = STORE_T9_WORD_MAX + 1)"

definition t9_view :: "t9_user_state \<Rightarrow> u8 list list" where
  "t9_view st = map (fixed_text STORE_T9_WORD_MAX) (take (unat (t9_count st)) (t9_words st))"

lemma t9_payload_loads:
  assumes "t9_typed st"
  shows "snd (apply_t9_unit (concat (t9_fields st)) st0) \<and>
    t9_view (fst (apply_t9_unit (concat (t9_fields st)) st0)) = t9_view st"
proof -
  define n where "n = unat (t9_count st)"
  define ws where "ws = take n (t9_words st)"
  have n: "n \<le> 16" "length ws = n" "t9_bounded_count st = n"
    using assms by (simp_all add: n_def ws_def t9_typed_def t9_bounded_count_def)
  define pre where "pre = write_u32 T9_USER_MAGIC @ write_u16 STORE_PAYLOAD_VERSION @ [of_nat n, 0]"
  have pl: "concat (t9_fields st) = pre @ concat (concat (map (text_fields 32) ws)) @ []"
    by (simp add: t9_fields_def pre_def n ws_def)
  have "load_texts 32 (concat (t9_fields st)) (length pre) (length ws) = Some (map (fixed_text 32) ws)"
    by (rule texts_load [OF _ pl]) simp
  then have l: "load_texts 32 (concat (t9_fields st)) 8 n = Some (map (fixed_text 32) ws)"
    by (simp add: pre_def n)
  have h: "8 \<le> length (concat (t9_fields st))" "read_u32 (concat (t9_fields st)) = T9_USER_MAGIC"
    "read_u16 (drop 4 (concat (t9_fields st))) = STORE_PAYLOAD_VERSION" "concat (t9_fields st) ! 6 = of_nat n"
    by (simp_all add: pl pre_def drop_field nth_field)
  have "unat (of_nat n :: u8) = n"
    using n(1) by (simp add: unat_of_nat)
  then show ?thesis
    using n(1,2) by (simp add: apply_t9_unit_def h l t9_view_def not_less n_def [symmetric] ws_def [symmetric] comp_def)
qed

lemma t9_apply_facts:
  assumes "snd (apply_t9_unit pl st0)"
  shows "apply_t9_unit pl st1 = apply_t9_unit pl st0" "t9_typed (fst (apply_t9_unit pl st0))"
  using assms load_texts_fixed [of 32 pl 8 "unat (pl ! 6)"]
  by (auto simp add: apply_t9_unit_def t9_typed_def t9_zero_def dest: in_set_dropD split: if_splits option.splits)

interpretation t9_codec: unit_codec t9_unit_ops t9_view t9_typed
proof unfold_locales
  fix w cap bytes w0
  assume "t9_typed w" and s: "uo_serialize t9_unit_ops w cap = Some bytes"
  then have "bytes = concat (t9_fields w)"
    using written_iff [of "t9_fields w" cap bytes] by (simp add: t9_unit_ops_def serialize_t9_unit_def written_def)
  then show "snd (uo_apply t9_unit_ops bytes w0) \<and> t9_view (fst (uo_apply t9_unit_ops bytes w0)) = t9_view w"
    using t9_payload_loads [OF \<open>t9_typed w\<close>] by (simp add: t9_unit_ops_def)
next
  fix bytes w0 w1
  assume "snd (uo_apply t9_unit_ops bytes w0)"
  then show "snd (uo_apply t9_unit_ops bytes w1) \<and>
      t9_view (fst (uo_apply t9_unit_ops bytes w1)) = t9_view (fst (uo_apply t9_unit_ops bytes w0))"
    using t9_apply_facts(1) [of bytes w0 w1] by (simp add: t9_unit_ops_def)
next
  fix w bytes assume "t9_typed w"
  then show "t9_typed (fst (uo_apply t9_unit_ops bytes w))"
    using t9_apply_facts(2) [of bytes w]
    by (auto simp add: t9_unit_ops_def apply_t9_unit_def split: if_splits option.splits)
  show "t9_typed (uo_reset_ram t9_unit_ops w)"
    by (simp add: t9_unit_ops_def reset_t9_unit_def t9_zero_def t9_typed_def)
qed

section \<open>Health counters\<close>

abbreviation "HEALTH_MAGIC \<equiv> 0x31484c53 :: u32"
abbreviation "STORAGE_OBJECT_COLLECTION_COUNT \<equiv> 4 :: nat"
abbreviation "HEALTH_WIRE_SIZE \<equiv> 24 :: nat"
abbreviation "HEALTH_SEEN_LIMIT \<equiv> 2048 :: nat"
abbreviation "STORE_UNIT_STORAGE_HEALTH \<equiv> 16 :: nat"

text \<open>The identifiers seen in this boot, with their collections, in the order they were noted.\<close>

record health_state =
  hs_counts :: "u32 list"
  hs_seen :: "(u32 \<times> nat) list"

definition health_reset :: "health_state \<Rightarrow> health_state" where
  "health_reset st = \<lparr>hs_counts = replicate STORAGE_OBJECT_COLLECTION_COUNT 0, hs_seen = []\<rparr>"

definition health_serialize :: "health_state \<Rightarrow> u8 list \<Rightarrow> nat \<Rightarrow> (u8 list \<times> nat) option" where
  "health_serialize st dst cap =
     (if cap < HEALTH_WIRE_SIZE then None
      else Some (write_u32 HEALTH_MAGIC @ write_u32 1 @
             concat (map write_u32 (take STORAGE_OBJECT_COLLECTION_COUNT (hs_counts st))) @
             drop HEALTH_WIRE_SIZE dst, HEALTH_WIRE_SIZE))"

definition health_apply :: "u8 list \<Rightarrow> health_state \<Rightarrow> health_state \<times> bool" where
  "health_apply src st =
     (if length src \<noteq> HEALTH_WIRE_SIZE \<or> read_u32 src \<noteq> HEALTH_MAGIC \<or> read_u32 (drop 4 src) \<noteq> 1 then (st, False)
      else (st\<lparr>hs_counts := map (\<lambda>i. read_u32 (drop (8 + i * 4) src)) [0..<STORAGE_OBJECT_COLLECTION_COUNT]\<rparr>, True))"

definition health_unit_ops :: "health_state unit_ops" where
  "health_unit_ops =
     \<lparr>uo_reset_ram = health_reset,
      uo_serialize = (\<lambda>st cap. map_option (\<lambda>(dst, n). take n dst) (health_serialize st (replicate cap 0) cap)),
      uo_apply = health_apply, uo_fallback_missing = None\<rparr>"

abbreviation "STORE_BOOT_FAULT_TRACKING \<equiv> 8 :: u8"

definition store_health_note_corrupt ::
    "('w \<Rightarrow> health_state) \<Rightarrow> (health_state \<Rightarrow> 'w \<Rightarrow> 'w) \<Rightarrow>
     nat \<Rightarrow> u32 \<Rightarrow> ('w, 'b) store_state \<Rightarrow> ('w, 'b) store_state" where
  "store_health_note_corrupt get put collection i st =
     (let h = get (st_ram st) in
      if STORAGE_OBJECT_COLLECTION_COUNT \<le> collection \<or> i = 0 then st
      else if (i, collection) \<in> set (hs_seen h) then st
      else if length (hs_seen h) = HEALTH_SEEN_LIMIT then store_service_require_service STORE_BOOT_FAULT_TRACKING st
      else
        (let h1 = h\<lparr>hs_seen := hs_seen h @ [(i, collection)]\<rparr> in
         if hs_counts h ! collection \<noteq> 0xffffffff
         then fst (store_engine_mark_dirty STORE_UNIT_STORAGE_HEALTH (st\<lparr>st_ram :=
                put (h1\<lparr>hs_counts := (hs_counts h)[collection := hs_counts h ! collection + 1]\<rparr>) (st_ram st)\<rparr>))
         else st\<lparr>st_ram := put h1 (st_ram st)\<rparr>))"

definition store_health_get_counts ::
    "('w \<Rightarrow> health_state) \<Rightarrow> bool \<Rightarrow> ('w, 'b) store_state \<Rightarrow> u32 list option" where
  "store_health_get_counts get counts_given st =
     (if \<not> counts_given \<or> \<not> store_service_unit_ready st STORE_UNIT_STORAGE_HEALTH then None
      else Some (hs_counts (get (st_ram st))))"

definition health_typed :: "health_state \<Rightarrow> bool" where
  "health_typed st \<longleftrightarrow> length (hs_counts st) = STORAGE_OBJECT_COLLECTION_COUNT"

lemma health_payload_loads:
  assumes "health_typed st" "health_serialize st dst cap = Some (dst', n)"
  shows "health_apply (take n dst') st0 = (st0\<lparr>hs_counts := hs_counts st\<rparr>, True)"
proof -
  obtain a b c d where c: "hs_counts st = [a, b, c, d]"
    using assms(1) by (auto simp add: health_typed_def numeral_eq_Suc length_Suc_conv)
  have "take n dst' = write_u32 HEALTH_MAGIC @ write_u32 1 @ write_u32 a @ write_u32 b @ write_u32 c @ write_u32 d @ []"
    using assms(2) by (auto simp add: health_serialize_def c split: if_splits)
  then show ?thesis
    by (simp add: health_apply_def drop_field c upt_rec del: append_Nil2)
qed

interpretation health_codec: unit_codec health_unit_ops hs_counts health_typed
proof unfold_locales
  fix w cap bytes w0
  assume t: "health_typed w" and "uo_serialize health_unit_ops w cap = Some bytes"
  then obtain dst n where "health_serialize w (replicate cap 0) cap = Some (dst, n)" "bytes = take n dst"
    by (auto simp add: health_unit_ops_def)
  then show "snd (uo_apply health_unit_ops bytes w0) \<and> hs_counts (fst (uo_apply health_unit_ops bytes w0)) = hs_counts w"
    using health_payload_loads [OF t] by (simp add: health_unit_ops_def)
qed (auto simp add: health_unit_ops_def health_apply_def health_reset_def health_typed_def split: if_splits)

section \<open>Each damaged object is counted once\<close>

fun health_note_all ::
    "('w \<Rightarrow> health_state) \<Rightarrow> (health_state \<Rightarrow> 'w \<Rightarrow> 'w) \<Rightarrow> (nat \<times> u32) list \<Rightarrow>
     ('w, 'b) store_state \<Rightarrow> ('w, 'b) store_state" where
  "health_note_all get put [] st = st"
| "health_note_all get put ((c, i) # ns) st = health_note_all get put ns (store_health_note_corrupt get put c i st)"

definition health_counted :: "u32 list \<Rightarrow> health_state \<Rightarrow> bool" where
  "health_counted base h \<longleftrightarrow> length (hs_counts h) = STORAGE_OBJECT_COLLECTION_COUNT \<and> distinct (hs_seen h) \<and>
     length (hs_seen h) \<le> HEALTH_SEEN_LIMIT \<and>
     (\<forall>k<STORAGE_OBJECT_COLLECTION_COUNT. unat (hs_counts h ! k) =
        min 0xffffffff (unat (base ! k) + length (filter (\<lambda>s. snd s = k) (hs_seen h))))"

lemma count_saturates:
  assumes "unat (c :: u32) = min 0xffffffff n"
  shows "unat (if c \<noteq> 0xffffffff then c + 1 else c) = min 0xffffffff (n + 1)"
proof (cases "c = 0xffffffff")
  case False
  then have "unat c \<noteq> 0xffffffff"
    by (simp add: word_unat_eq_iff)
  then have "n < 0xffffffff" "unat c = n"
    using assms by (auto simp add: min_def split: if_splits)
  then show ?thesis
    using False by (simp add: unat_word_ariths)
qed (use assms in simp)

definition health_handled :: "(nat \<times> u32) list \<Rightarrow> health_state \<Rightarrow> u8 \<Rightarrow> bool" where
  "health_handled ns h faults \<longleftrightarrow> (\<forall>(c, i)\<in>set ns. c < STORAGE_OBJECT_COLLECTION_COUNT \<longrightarrow> i \<noteq> 0 \<longrightarrow>
     (i, c) \<in> set (hs_seen h) \<or> length (hs_seen h) = HEALTH_SEEN_LIMIT \<and> faults AND STORE_BOOT_FAULT_TRACKING \<noteq> 0)"

lemma note_corrupt_step:
  assumes lens: "\<And>x w. get (put x w) = x"
    and "health_counted base (get (st_ram st))" "health_handled ns (get (st_ram st)) (st_faults st)"
  shows "health_counted base (get (st_ram (store_health_note_corrupt get put c i st))) \<and>
    health_handled ((c, i) # ns) (get (st_ram (store_health_note_corrupt get put c i st)))
      (st_faults (store_health_note_corrupt get put c i st))"
proof -
  define h where "h = get (st_ram st)"
  define st' where "st' = store_health_note_corrupt get put c i st"
  note inv = assms(2,3) [folded h_def]
  let ?c = "if hs_counts h ! c \<noteq> 0xffffffff then hs_counts h ! c + 1 else hs_counts h ! c"
  consider (skip) "4 \<le> c \<or> i = 0 \<or> (i, c) \<in> set (hs_seen h)"
    | (full) "c < 4" "i \<noteq> 0" "(i, c) \<notin> set (hs_seen h)" "length (hs_seen h) = 2048"
    | (new) "c < 4" "i \<noteq> 0" "(i, c) \<notin> set (hs_seen h)" "length (hs_seen h) < 2048"
    using inv(1) unfolding health_counted_def by linarith
  then have "health_counted base (get (st_ram st')) \<and> health_handled ((c, i) # ns) (get (st_ram st')) (st_faults st')"
    (is ?goal)
  proof cases
    case skip
    then have "st' = st"
      by (auto simp add: st'_def store_health_note_corrupt_def Let_def h_def)
    with skip show ?goal
      using inv by (auto simp add: h_def health_handled_def)
  next
    case full
    then have st': "st' = store_service_require_service STORE_BOOT_FAULT_TRACKING st"
      by (simp add: st'_def store_health_note_corrupt_def Let_def h_def)
    have "(x OR 8) AND 8 = (8 :: u8)" for x
      by (simp add: bit.conj_disj_distrib2)
    with full show ?goal
      using inv by (auto simp add: st' h_def [symmetric] health_handled_def store_service_require_service_def)
  next
    case new
    then have "st_faults st' = st_faults st" and
      "get (st_ram st') = h\<lparr>hs_seen := hs_seen h @ [(i, c)], hs_counts := (hs_counts h)[c := ?c]\<rparr>"
      by (auto simp add: st'_def store_health_note_corrupt_def Let_def h_def [symmetric] lens
          store_engine_mark_dirty_def intro!: health_state.equality) (metis list_update_id)
    note new = new this
    have "unat (hs_counts h ! k) = min 0xffffffff (unat (base ! k) + length (filter (\<lambda>s. snd s = k) (hs_seen h)))"
      if "k < 4" for k
      using inv(1) that by (simp add: health_counted_def)
    from count_saturates [OF this [OF new(1)]] new inv show ?goal
      by (auto simp add: health_counted_def nth_list_update health_handled_def)
  qed
  then show ?thesis
    by (simp add: st'_def)
qed

text \<open>C40: each damaged object is counted once in a boot: after any sequence of notes every collection's
  counter is its value at boot plus the number of distinct objects seen in it, saturating, and every
  object that was noted is either among those seen or the list of them is full and the boot fault for
  lost tracking is raised.\<close>

theorem health_counts_each_once:
  fixes get :: "'w \<Rightarrow> health_state"
  assumes "\<And>x w. get (put x w) = x" "hs_seen (get (st_ram st)) = []" "health_typed (get (st_ram st))"
  shows "let st' = health_note_all get put ns st
         in health_counted (hs_counts (get (st_ram st))) (get (st_ram st')) \<and>
            health_handled ns (get (st_ram st')) (st_faults st')"
proof -
  have "health_counted base (get (st_ram st)) \<Longrightarrow> health_handled ms (get (st_ram st)) (st_faults st) \<Longrightarrow>
      health_counted base (get (st_ram (health_note_all get put ns st))) \<and>
      health_handled (rev ns @ ms) (get (st_ram (health_note_all get put ns st)))
        (st_faults (health_note_all get put ns st))" for base ms
  proof (induction ns arbitrary: st ms)
    case (Cons n ns)
    obtain c i where n: "n = (c, i)" by (cases n)
    from note_corrupt_step [of get put, OF assms(1) Cons.prems, of c i]
    show ?case
      using Cons.IH [of "store_health_note_corrupt get put c i st" "(c, i) # ms"] by (simp add: n)
  qed simp
  note run = this [of "hs_counts (get (st_ram st))" "[]"]
  have "unat (w :: u32) \<le> 0xffffffff" for w
    using unsigned_less [of w, where ?'a = nat] by simp
  then have "health_counted (hs_counts (get (st_ram st))) (get (st_ram st))"
    using assms(2,3) by (simp add: health_counted_def health_typed_def)
  moreover have "health_handled [] (get (st_ram st)) (st_faults st)"
    by (simp add: health_handled_def)
  ultimately show ?thesis
    using run by (simp add: Let_def health_handled_def)
qed

theorem health_counts_each_once_witness:
  "let h = st_ram (health_note_all (\<lambda>w. w) (\<lambda>x _. x) [(2, 7), (2, 7), (9, 1), (1, 0), (2, 8)]
             (plain_store (health_reset \<lparr>hs_counts = [], hs_seen = []\<rparr>)))
   in health_counted [0, 0, 0, 0] h \<and> hs_counts h = [0, 0, 2, 0]"
proof -
  have c: "hs_counts (st_ram (health_note_all (\<lambda>w. w) (\<lambda>x _. x) [(2, 7), (2, 7), (9, 1), (1, 0), (2, 8)]
             (plain_store (health_reset \<lparr>hs_counts = [], hs_seen = []\<rparr>)))) = [0, 0, 2, 0]"
    by code_simp
  have s: "st_ram (plain_store (health_reset \<lparr>hs_counts = [], hs_seen = []\<rparr>)) = \<lparr>hs_counts = [0, 0, 0, 0], hs_seen = []\<rparr>"
    by code_simp
  show ?thesis
    using health_counts_each_once [of "\<lambda>w. w" "\<lambda>x _. x" "plain_store (health_reset \<lparr>hs_counts = [], hs_seen = []\<rparr>)"
        "[(2, 7), (2, 7), (9, 1), (1, 0), (2, 8)]"]
    by (simp only: Let_def c s) (simp add: health_typed_def)
qed

end
