(* ===== verification/Store_Warranty.thy ===== *)
theory Store_Warranty
  imports Store_Texts
begin

text \<open>
  The service warranty record, \<open>storage/store_warranty.c\<close>: the board's IMEI with its check digit,
  provisioned once and never edited, the three dates and the flags, their defaults, and the record they
  are persisted in.
\<close>

section \<open>Data\<close>

abbreviation "WARRANTY_MAGIC \<equiv> 0x57525431 :: u32"
abbreviation "STORE_WARRANTY_SERIAL_MAX \<equiv> 15 :: nat"
abbreviation "STORE_WARRANTY_MMYY_MAX \<equiv> 4 :: nat"
abbreviation "STORE_WARRANTY_DEFAULT_MADE \<equiv> [0x30, 0x38, 0x39, 0x39] :: u8 list"
abbreviation "STORE_WARRANTY_DEFAULT_REPAIRED \<equiv> [0x30, 0x30, 0x30, 0x30] :: u8 list"

record warranty_state =
  ws_serial :: "u8 list"
  ws_made :: "u8 list"
  ws_repaired :: "u8 list"
  ws_purchase_date :: "u8 list"
  ws_flags :: u8

definition warranty_zero :: warranty_state where
  "warranty_zero =
     \<lparr>ws_serial = replicate (STORE_WARRANTY_SERIAL_MAX + 1) 0, ws_made = replicate (STORE_WARRANTY_MMYY_MAX + 1) 0,
      ws_repaired = replicate (STORE_WARRANTY_MMYY_MAX + 1) 0,
      ws_purchase_date = replicate (STORE_WARRANTY_MMYY_MAX + 1) 0, ws_flags = 0\<rparr>"

section \<open>The board's IMEI\<close>

definition c_strlen :: "u8 list \<Rightarrow> nat" where
  "c_strlen s = length (takeWhile (\<lambda>c. c \<noteq> 0) s)"

definition imei_weight :: "nat \<Rightarrow> u8 \<Rightarrow> nat" where
  "imei_weight i c =
     (let digit = unat (c - 0x30); digit2 = (if odd i then digit * 2 else digit)
      in if odd i \<and> 9 < digit2 then digit2 - 9 else digit2)"

fun imei_sum :: "u8 list \<Rightarrow> nat \<Rightarrow> nat \<Rightarrow> nat option" where
  "imei_sum [] i acc = Some acc"
| "imei_sum (c # cs) i acc =
     (if c < 0x30 \<or> 0x39 < c then None else imei_sum cs (i + 1) (acc + imei_weight i c))"

definition store_board_imei_valid :: "u8 list option \<Rightarrow> bool" where
  "store_board_imei_valid imei =
     (case imei of
        None \<Rightarrow> False
      | Some s \<Rightarrow>
          c_strlen s = STORE_WARRANTY_SERIAL_MAX \<and>
          (case imei_sum (take STORE_WARRANTY_SERIAL_MAX s) 0 0 of None \<Rightarrow> False | Some acc \<Rightarrow> acc mod 10 = 0))"

text \<open>\<open>out\<close> is the caller's buffer, of its capacity's length; the answer holds what the call leaves in it.\<close>

definition store_board_imei_get :: "u8 list option \<Rightarrow> warranty_state \<Rightarrow> store_status \<times> u8 list option" where
  "store_board_imei_get out w =
     (case out of
        None \<Rightarrow> (STORE_STATUS_INVALID_ARGUMENT, None)
      | Some buf \<Rightarrow>
          if length buf < STORE_WARRANTY_SERIAL_MAX + 1 then (STORE_STATUS_INVALID_ARGUMENT, Some buf)
          else if \<not> store_board_imei_valid (Some (ws_serial w)) then (STORE_STATUS_NOT_FOUND, Some (buf[0 := 0]))
          else (STORE_STATUS_OK,
                Some (take (STORE_WARRANTY_SERIAL_MAX + 1) (ws_serial w) @ drop (STORE_WARRANTY_SERIAL_MAX + 1) buf)))"

definition store_board_imei_provision ::
    "('w \<Rightarrow> warranty_state) \<Rightarrow> (warranty_state \<Rightarrow> 'w \<Rightarrow> 'w) \<Rightarrow> u8 list option \<Rightarrow>
     ('w, 'b) store_state \<Rightarrow> ('w, 'b) store_state \<times> store_status" where
  "store_board_imei_provision get put imei st =
     (let w = get (st_ram st); s = (case imei of None \<Rightarrow> [] | Some s \<Rightarrow> s) in
      if \<not> store_board_imei_valid imei then (st, STORE_STATUS_INVALID_ARGUMENT)
      else if store_board_imei_valid (Some (ws_serial w))
        then (st, if takeWhile (\<lambda>c. c \<noteq> 0) (ws_serial w) = takeWhile (\<lambda>c. c \<noteq> 0) s
                  then STORE_STATUS_OK else STORE_STATUS_CONFLICT)
      else store_engine_mark_dirty STORE_UNIT_SERVICE_WARRANTY
             (st\<lparr>st_ram := put (w\<lparr>ws_serial := take STORE_WARRANTY_SERIAL_MAX s @ [0]\<rparr>) (st_ram st)\<rparr>))"

section \<open>The warranty's fields\<close>

definition store_warranty_get :: "bool \<Rightarrow> warranty_state \<Rightarrow> store_status + warranty_state" where
  "store_warranty_get out_given w = (if out_given then Inr w else Inl STORE_STATUS_INVALID_ARGUMENT)"

text \<open>The record \<open>store_warranty_set\<close> builds from what is stored and what it is given.\<close>

definition warranty_normalized :: "warranty_state \<Rightarrow> warranty_state \<Rightarrow> warranty_state" where
  "warranty_normalized old new =
     (let n1 = warranty_zero
            \<lparr>ws_serial := store_copy_text (ws_serial warranty_zero) (ws_serial old),
             ws_made := store_copy_text (ws_made warranty_zero) (ws_made new),
             ws_repaired := store_copy_text (ws_repaired warranty_zero) (ws_repaired new),
             ws_purchase_date := store_copy_text (ws_purchase_date warranty_zero) (ws_purchase_date new),
             ws_flags := ws_flags new\<rparr>;
          n2 = (if ws_made n1 ! 0 = 0
                then n1\<lparr>ws_made := store_copy_text (ws_made n1) STORE_WARRANTY_DEFAULT_MADE\<rparr> else n1)
      in if ws_repaired n2 ! 0 = 0
         then n2\<lparr>ws_repaired := store_copy_text (ws_repaired n2) STORE_WARRANTY_DEFAULT_REPAIRED\<rparr> else n2)"

definition store_warranty_set ::
    "('w \<Rightarrow> warranty_state) \<Rightarrow> (warranty_state \<Rightarrow> 'w \<Rightarrow> 'w) \<Rightarrow> warranty_state option \<Rightarrow>
     ('w, 'b) store_state \<Rightarrow> ('w, 'b) store_state \<times> store_status" where
  "store_warranty_set get put state st =
     (case state of
        None \<Rightarrow> (st, STORE_STATUS_INVALID_ARGUMENT)
      | Some new \<Rightarrow>
          (let normalized = warranty_normalized (get (st_ram st)) new in
           if get (st_ram st) = normalized then (st, STORE_STATUS_OK)
           else store_engine_mark_dirty STORE_UNIT_SERVICE_WARRANTY
                  (st\<lparr>st_ram := put normalized (st_ram st)\<rparr>)))"

definition store_warranty_set_purchase_date ::
    "('w \<Rightarrow> warranty_state) \<Rightarrow> (warranty_state \<Rightarrow> 'w \<Rightarrow> 'w) \<Rightarrow> u8 list option \<Rightarrow>
     ('w, 'b) store_state \<Rightarrow> ('w, 'b) store_state \<times> store_status" where
  "store_warranty_set_purchase_date get put mmyy st =
     (case mmyy of
        None \<Rightarrow> (st, STORE_STATUS_INVALID_ARGUMENT)
      | Some s \<Rightarrow>
          (let w = get (st_ram st);
               date = store_copy_text (ws_purchase_date w) s
           in store_warranty_set get put (Some (w\<lparr>ws_purchase_date := date,
                ws_flags := (if date ! 0 \<noteq> 0 then ws_flags w OR 0x80 else ws_flags w AND NOT 0x80)\<rparr>)) st))"

definition load_warranty_defaults :: warranty_state where
  "load_warranty_defaults = warranty_zero
     \<lparr>ws_made := store_copy_text (ws_made warranty_zero) STORE_WARRANTY_DEFAULT_MADE,
      ws_repaired := store_copy_text (ws_repaired warranty_zero) STORE_WARRANTY_DEFAULT_REPAIRED\<rparr>"

definition store_warranty_post_load ::
    "('w \<Rightarrow> warranty_state) \<Rightarrow> (warranty_state \<Rightarrow> 'w \<Rightarrow> 'w) \<Rightarrow>
     ('w, 'b) store_state \<Rightarrow> ('w, 'b) store_state" where
  "store_warranty_post_load get put st =
     (let w = get (st_ram st) in
      if ws_serial w ! 0 \<noteq> 0 \<and> \<not> store_board_imei_valid (Some (ws_serial w))
      then fst (store_engine_mark_dirty STORE_UNIT_SERVICE_WARRANTY
                  (st\<lparr>st_ram := put (w\<lparr>ws_serial := (ws_serial w)[0 := 0]\<rparr>) (st_ram st)\<rparr>))
      else st)"

section \<open>The record on the medium\<close>

definition warranty_fields :: "warranty_state \<Rightarrow> u8 list list" where
  "warranty_fields w =
     [write_u32 WARRANTY_MAGIC, write_u16 STORE_PAYLOAD_VERSION, [ws_flags w], [0], write_u32 0] @
     text_fields STORE_WARRANTY_SERIAL_MAX (ws_serial w) @ text_fields STORE_WARRANTY_MMYY_MAX (ws_made w) @
     text_fields STORE_WARRANTY_MMYY_MAX (ws_repaired w) @ text_fields STORE_WARRANTY_MMYY_MAX (ws_purchase_date w)"

definition serialize_service_warranty :: "warranty_state \<Rightarrow> u8 list \<Rightarrow> nat \<Rightarrow> (u8 list \<times> nat) option" where
  "serialize_service_warranty w dst cap = write_fields dst cap 0 (warranty_fields w)"

text \<open>The four texts, each with the room and length tests of its paragraph.\<close>

definition warranty_text :: "nat \<Rightarrow> u8 list \<Rightarrow> nat \<Rightarrow> u8 list option" where
  "warranty_text n pl pos =
     (if length pl < pos + 1 + n + 1 then None
      else (let len = unat (pl ! pos) in if n < len then None else Some (loaded_text n pl (pos + 1) len)))"

definition apply_service_warranty_payload :: "u8 list \<Rightarrow> warranty_state \<Rightarrow> warranty_state \<times> bool" where
  "apply_service_warranty_payload pl w =
     (if length pl < 12 \<or> read_u32 pl \<noteq> WARRANTY_MAGIC \<or> read_u16 (drop 4 pl) \<noteq> STORE_PAYLOAD_VERSION \<or>
        pl ! 7 \<noteq> 0 \<or> read_u32 (drop 8 pl) \<noteq> 0
      then (w, False)
      else
        (case warranty_text STORE_WARRANTY_SERIAL_MAX pl 12 of None \<Rightarrow> (w, False) | Some serial \<Rightarrow>
         case warranty_text STORE_WARRANTY_MMYY_MAX pl 29 of None \<Rightarrow> (w, False) | Some made \<Rightarrow>
         case warranty_text STORE_WARRANTY_MMYY_MAX pl 35 of None \<Rightarrow> (w, False) | Some repaired \<Rightarrow>
         case warranty_text STORE_WARRANTY_MMYY_MAX pl 41 of None \<Rightarrow> (w, False) | Some purchase \<Rightarrow>
           (\<lparr>ws_serial = serial,
             ws_made = (if made ! 0 = 0 then store_copy_text made STORE_WARRANTY_DEFAULT_MADE else made),
             ws_repaired = (if repaired ! 0 = 0 then store_copy_text repaired STORE_WARRANTY_DEFAULT_REPAIRED
                            else repaired),
             ws_purchase_date = purchase, ws_flags = pl ! 6\<rparr>, True)))"

definition warranty_unit_ops :: "warranty_state unit_ops" where
  "warranty_unit_ops =
     \<lparr>uo_reset_ram = (\<lambda>_. load_warranty_defaults),
      uo_serialize = (\<lambda>w cap. map_option (\<lambda>(dst, n). take n dst) (serialize_service_warranty w (replicate cap 0) cap)),
      uo_apply = apply_service_warranty_payload, uo_fallback_missing = Some (\<lambda>_. load_warranty_defaults)\<rparr>"

section \<open>The codec behind the engine's interface\<close>

definition warranty_typed :: "warranty_state \<Rightarrow> bool" where
  "warranty_typed w \<longleftrightarrow> length (ws_serial w) = STORE_WARRANTY_SERIAL_MAX + 1 \<and>
     length (ws_made w) = STORE_WARRANTY_MMYY_MAX + 1 \<and> length (ws_repaired w) = STORE_WARRANTY_MMYY_MAX + 1 \<and>
     length (ws_purchase_date w) = STORE_WARRANTY_MMYY_MAX + 1 \<and> ws_made w ! 0 \<noteq> 0 \<and> ws_repaired w ! 0 \<noteq> 0"

text \<open>Both dates always hold something, which their defaults see to.\<close>

definition warranty_view :: "warranty_state \<Rightarrow> u8 list list \<times> u8" where
  "warranty_view w =
     ([fixed_text STORE_WARRANTY_SERIAL_MAX (ws_serial w), fixed_text STORE_WARRANTY_MMYY_MAX (ws_made w),
       fixed_text STORE_WARRANTY_MMYY_MAX (ws_repaired w), fixed_text STORE_WARRANTY_MMYY_MAX (ws_purchase_date w)],
      ws_flags w)"

lemma warranty_text_loads:
  assumes "n < 256" "pl = pre @ concat (text_fields n xs) @ post"
  shows "warranty_text n pl (length pre) = Some (fixed_text n xs)"
  using text_entry_loads [OF assms] strnlen_bound(1) [of n xs] by (simp add: warranty_text_def) (simp add: assms(2))

lemma fixed_text_first: "0 < n \<Longrightarrow> length xs = n + 1 \<Longrightarrow> (fixed_text n xs ! 0 = 0) = (xs ! 0 = 0)"
  by (cases xs) (auto simp add: fixed_text_def store_strnlen_def take_Cons' nth_append)

lemma warranty_payload_loads:
  assumes "warranty_typed w"
  shows "snd (apply_service_warranty_payload (concat (warranty_fields w)) w0) \<and>
    warranty_view (fst (apply_service_warranty_payload (concat (warranty_fields w)) w0)) = warranty_view w \<and>
    ws_serial (fst (apply_service_warranty_payload (concat (warranty_fields w)) w0)) = fixed_text 15 (ws_serial w)"
proof -
  define pl where "pl = concat (warranty_fields w)"
  define head where "head = write_u32 WARRANTY_MAGIC @ write_u16 STORE_PAYLOAD_VERSION @ [ws_flags w, 0] @ write_u32 0"
  let ?s = "concat (text_fields 15 (ws_serial w))" and ?m = "concat (text_fields 4 (ws_made w))"
    and ?r = "concat (text_fields 4 (ws_repaired w))" and ?p = "concat (text_fields 4 (ws_purchase_date w))"
  have pl: "pl = head @ ?s @ ?m @ ?r @ ?p"
    by (simp add: pl_def warranty_fields_def head_def)
  have "warranty_text 15 pl (length head) = Some (fixed_text 15 (ws_serial w))"
    "warranty_text 4 pl (length (head @ ?s)) = Some (fixed_text 4 (ws_made w))"
    "warranty_text 4 pl (length (head @ ?s @ ?m)) = Some (fixed_text 4 (ws_repaired w))"
    "warranty_text 4 pl (length (head @ ?s @ ?m @ ?r)) = Some (fixed_text 4 (ws_purchase_date w))"
    by (rule warranty_text_loads, simp, simp add: pl)+
  then have t: "warranty_text 15 pl 12 = Some (fixed_text 15 (ws_serial w))"
    "warranty_text 4 pl 29 = Some (fixed_text 4 (ws_made w))" "warranty_text 4 pl 35 = Some (fixed_text 4 (ws_repaired w))"
    "warranty_text 4 pl 41 = Some (fixed_text 4 (ws_purchase_date w))"
    by (simp_all add: head_def)
  have h: "12 \<le> length pl" "read_u32 pl = WARRANTY_MAGIC" "read_u16 (drop 4 pl) = STORE_PAYLOAD_VERSION"
    "pl ! 7 = 0" "read_u32 (drop 8 pl) = 0" "pl ! 6 = ws_flags w"
    by (simp_all add: pl head_def drop_field nth_field)
  show ?thesis
    unfolding pl_def [symmetric]
    using assms fixed_text_first [of 4 "ws_made w"] fixed_text_first [of 4 "ws_repaired w"]
    by (simp add: apply_service_warranty_payload_def h t not_less warranty_typed_def warranty_view_def)
qed

lemma warranty_text_length: "warranty_text n pl pos = Some t \<Longrightarrow> length t = n + 1"
  by (auto simp add: warranty_text_def loaded_text_def Let_def split: if_splits)

lemma default_text: "length t = 5 \<Longrightarrow> length (store_copy_text t [a, b, c, d]) = 5"
  using copy_text_facts(1) [of t 4] by simp

lemma default_text_first: "length t = 5 \<Longrightarrow> a \<noteq> 0 \<Longrightarrow> store_copy_text t [a, b, c, d] ! 0 = a"
  by (auto simp add: store_copy_text_def store_strnlen_def Let_def)

lemma warranty_apply_facts:
  assumes "snd (apply_service_warranty_payload pl w0)"
  shows "apply_service_warranty_payload pl w1 = apply_service_warranty_payload pl w0"
    "warranty_typed (fst (apply_service_warranty_payload pl w0))"
  using assms
  by (auto simp add: apply_service_warranty_payload_def warranty_typed_def default_text default_text_first
      dest!: warranty_text_length split: if_splits option.splits)

interpretation warranty_codec: unit_codec warranty_unit_ops warranty_view warranty_typed
proof unfold_locales
  fix w cap bytes w0
  assume t: "warranty_typed w" and "uo_serialize warranty_unit_ops w cap = Some bytes"
  then have "bytes = concat (warranty_fields w)"
    using written_iff [of "warranty_fields w" cap bytes]
    by (simp add: warranty_unit_ops_def serialize_service_warranty_def written_def)
  then show "snd (uo_apply warranty_unit_ops bytes w0) \<and>
      warranty_view (fst (uo_apply warranty_unit_ops bytes w0)) = warranty_view w"
    using warranty_payload_loads [OF t] by (simp add: warranty_unit_ops_def)
next
  fix bytes w0 w1
  assume "snd (uo_apply warranty_unit_ops bytes w0)"
  then show "snd (uo_apply warranty_unit_ops bytes w1) \<and>
      warranty_view (fst (uo_apply warranty_unit_ops bytes w1)) = warranty_view (fst (uo_apply warranty_unit_ops bytes w0))"
    using warranty_apply_facts(1) [of bytes w0 w1] by (simp add: warranty_unit_ops_def)
next
  fix w bytes assume "warranty_typed w"
  then show "warranty_typed (fst (uo_apply warranty_unit_ops bytes w))"
    using warranty_apply_facts(2) [of bytes w]
    by (auto simp add: warranty_unit_ops_def apply_service_warranty_payload_def split: if_splits option.splits)
  show "warranty_typed (uo_reset_ram warranty_unit_ops w)"
    by (simp add: warranty_unit_ops_def load_warranty_defaults_def warranty_zero_def warranty_typed_def default_text
        default_text_first)
qed

section \<open>The identity is written once\<close>

datatype warranty_op =
    Op_Provision "u8 list option"
  | Op_Set "warranty_state option"
  | Op_Purchase_Date "u8 list option"
  | Op_Post_Load

fun warranty_do ::
    "('w \<Rightarrow> warranty_state) \<Rightarrow> (warranty_state \<Rightarrow> 'w \<Rightarrow> 'w) \<Rightarrow> warranty_op \<Rightarrow>
     ('w, 'b) store_state \<Rightarrow> ('w, 'b) store_state" where
  "warranty_do get put (Op_Provision imei) st = fst (store_board_imei_provision get put imei st)"
| "warranty_do get put (Op_Set w) st = fst (store_warranty_set get put w st)"
| "warranty_do get put (Op_Purchase_Date s) st = fst (store_warranty_set_purchase_date get put s st)"
| "warranty_do get put Op_Post_Load st = store_warranty_post_load get put st"

lemma mark_dirty_ram [simp]: "st_ram (fst (store_engine_mark_dirty u st)) = st_ram st"
  by (simp add: store_engine_mark_dirty_def)

lemma normalized_typed: "warranty_typed (warranty_normalized old new)"
proof -
  have z: "length (store_copy_text [0, 0, 0, 0, 0] s) = 5" for s
    using copy_text_facts(1) [of "[0, 0, 0, 0, 0]" 4] by simp
  have z16: "length (store_copy_text (replicate 16 0) s) = 16" for s
    using copy_text_facts(1) [of "replicate 16 0" 15] by simp
  have "replicate 5 (0 :: u8) = [0, 0, 0, 0, 0]"
    by (simp add: numeral_eq_Suc)
  then show ?thesis
    by (simp add: warranty_normalized_def Let_def warranty_typed_def warranty_zero_def z z16 default_text default_text_first)
qed

lemma valid_serial:
  assumes "store_board_imei_valid (Some s)"
  shows "15 \<le> length s" "takeWhile (\<lambda>c. c \<noteq> 0) s = take 15 s" "length s = 16 \<Longrightarrow> s = take 15 s @ [0]"
proof -
  have l: "length (takeWhile (\<lambda>c. c \<noteq> 0) s) = 15"
    using assms by (simp add: store_board_imei_valid_def c_strlen_def)
  then show "15 \<le> length s"
    using length_takeWhile_le [of "\<lambda>c. c \<noteq> 0" s] by simp
  show t: "takeWhile (\<lambda>c. c \<noteq> 0) s = take 15 s"
    using takeWhile_eq_take [of "\<lambda>c. c \<noteq> 0" s] by (simp add: l)
  assume n: "length s = 16"
  then have "s ! 15 = 0"
    using nth_length_takeWhile [of "\<lambda>c. c \<noteq> 0" s] l by simp
  then show "s = take 15 s @ [0]"
    using n take_Suc_conv_app_nth [of 15 s] by simp
qed

lemma valid_serial_nonzero:
  assumes "store_board_imei_valid (Some s)"
  shows "\<forall>c\<in>set (take 15 s). c \<noteq> 0"
  unfolding valid_serial(2) [OF assms, symmetric] by (auto dest: set_takeWhileD)

lemma copied_serial:
  assumes "store_board_imei_valid (Some s)" "length s = 16"
  shows "store_copy_text (replicate 16 0) s = s" "fixed_text 15 s = s"
proof -
  have "takeWhile (\<lambda>c. c \<noteq> 0) (take 15 s) = take 15 s"
    using valid_serial_nonzero [OF assms(1)] by (simp only: takeWhile_eq_all_conv)
  then have "store_strnlen 15 s = length (take 15 s)"
    by (simp only: store_strnlen_def)
  then have "store_strnlen 15 s = 15"
    using assms(2) by simp
  then show "store_copy_text (replicate 16 0) s = s" "fixed_text 15 s = s"
    using valid_serial(3) [OF assms] by (simp_all add: store_copy_text_def fixed_text_def Let_def)
qed

lemma warranty_do_keeps:
  assumes "\<And>x w. get (put x w) = x" "warranty_typed (get (st_ram st))"
    and "store_board_imei_valid (Some (ws_serial (get (st_ram st))))"
  shows "warranty_typed (get (st_ram (warranty_do get put c st))) \<and>
    ws_serial (get (st_ram (warranty_do get put c st))) = ws_serial (get (st_ram st))"
proof -
  have s: "length (ws_serial (get (st_ram st))) = 16"
    using assms(2) by (simp add: warranty_typed_def)
  have n: "ws_serial (warranty_normalized old new) = ws_serial old" if "ws_serial old = ws_serial (get (st_ram st))" for old new
    using copied_serial [OF assms(3) s] that by (simp add: warranty_normalized_def Let_def warranty_zero_def)
  show ?thesis
    using assms normalized_typed n
    by (cases c) (auto simp add: store_board_imei_provision_def store_warranty_set_def store_warranty_set_purchase_date_def
        store_warranty_post_load_def Let_def split: option.splits)
qed

lemma warranty_run_keeps:
  assumes "\<And>x w. get (put x w) = x"
  shows "warranty_typed (get (st_ram st)) \<Longrightarrow> store_board_imei_valid (Some (ws_serial (get (st_ram st)))) \<Longrightarrow>
    warranty_typed (get (st_ram (fold (warranty_do get put) cs st))) \<and>
    ws_serial (get (st_ram (fold (warranty_do get put) cs st))) = ws_serial (get (st_ram st))"
proof (induction cs arbitrary: st)
  case (Cons c cs)
  from warranty_do_keeps [of get put, OF assms Cons.prems, of c] show ?case
    using Cons.IH [of "warranty_do get put c st"] Cons.prems by simp
qed simp

lemma provisioned_serial:
  assumes lens: "\<And>x w. get (put x w) = x" and t: "warranty_typed (get (st_ram st))"
    and ok: "store_board_imei_provision get put (Some imei) st = (st1, STORE_STATUS_OK)"
  shows "warranty_typed (get (st_ram st1)) \<and> ws_serial (get (st_ram st1)) = take 15 imei @ [0] \<and>
    store_board_imei_valid (Some (take 15 imei @ [0]))"
proof -
  have v: "store_board_imei_valid (Some imei)"
    using ok by (auto simp add: store_board_imei_provision_def Let_def split: if_splits)
  note vs = valid_serial [OF v]
  note nz = valid_serial_nonzero [OF v]
  have v': "store_board_imei_valid (Some (take 15 imei @ [0]))"
    using v vs(1) nz by (simp add: store_board_imei_valid_def c_strlen_def takeWhile_append2 vs(2))
  show ?thesis
  proof (cases "store_board_imei_valid (Some (ws_serial (get (st_ram st))))")
    case True
    then have "st1 = st" "take 15 (ws_serial (get (st_ram st))) = take 15 imei"
      using ok v valid_serial(2) [OF True] vs(2)
      by (auto simp add: store_board_imei_provision_def Let_def split: if_splits)
    then show ?thesis
      using valid_serial(3) [OF True] t v' by (simp add: warranty_typed_def)
  next
    case False
    have "st1 = fst (store_board_imei_provision get put (Some imei) st)"
      using ok by simp
    then have "st_ram st1 = put ((get (st_ram st))\<lparr>ws_serial := take 15 imei @ [0]\<rparr>) (st_ram st)"
      using v False by (simp add: store_board_imei_provision_def Let_def)
    then show ?thesis
      using t v' vs(1) by (simp add: lens warranty_typed_def)
  qed
qed

text \<open>C39: the board's identity is written once: after an IMEI was provisioned, no sequence of
  provisioning attempts, full or partial warranty updates and reload checks changes it; reading it
  returns it, a different valid IMEI is refused as a conflict and the same one is accepted again, and
  what is persisted of the record reads back with it.\<close>

theorem imei_is_write_once:
  fixes get :: "'w \<Rightarrow> warranty_state"
  assumes "\<And>x w. get (put x w) = x" "warranty_typed (get (st_ram st))"
    and "store_board_imei_provision get put (Some imei) st = (st1, STORE_STATUS_OK)"
    and "st2 = fold (warranty_do get put) cs st1"
  shows "store_board_imei_get (Some (replicate 16 0)) (get (st_ram st2)) =
      (STORE_STATUS_OK, Some (take 15 imei @ [0])) \<and>
    (\<forall>other. store_board_imei_valid (Some other) \<longrightarrow>
      store_board_imei_provision get put (Some other) st2 =
        (st2, if take 15 other = take 15 imei then STORE_STATUS_OK else STORE_STATUS_CONFLICT)) \<and>
    (\<forall>cap bytes w. uo_serialize warranty_unit_ops (get (st_ram st2)) cap = Some bytes \<longrightarrow>
      ws_serial (fst (uo_apply warranty_unit_ops bytes w)) = take 15 imei @ [0])"
proof -
  note p = provisioned_serial [of get put, OF assms(1-3)]
  then have k: "warranty_typed (get (st_ram st2))" "ws_serial (get (st_ram st2)) = take 15 imei @ [0]"
    "store_board_imei_valid (Some (take 15 imei @ [0]))"
    using warranty_run_keeps [of get put st1 cs] assms(1,4) by simp_all
  have l: "15 \<le> length imei"
    using k(1,2) by (simp add: warranty_typed_def) linarith
  have get: "store_board_imei_get (Some (replicate 16 0)) (get (st_ram st2)) =
      (STORE_STATUS_OK, Some (take 15 imei @ [0]))"
    using k l by (simp add: store_board_imei_get_def)
  have other: "store_board_imei_provision get put (Some other) st2 =
      (st2, if take 15 other = take 15 imei then STORE_STATUS_OK else STORE_STATUS_CONFLICT)"
    if "store_board_imei_valid (Some other)" for other
    using that k valid_serial(2) [OF that] valid_serial(2) [OF k(3)] l
    by (auto simp add: store_board_imei_provision_def Let_def)
  have again: "ws_serial (fst (uo_apply warranty_unit_ops bytes w)) = take 15 imei @ [0]"
    if "uo_serialize warranty_unit_ops (get (st_ram st2)) cap = Some bytes" for cap bytes w
  proof -
    have "bytes = concat (warranty_fields (get (st_ram st2)))"
      using that written_iff [of "warranty_fields (get (st_ram st2))" cap bytes]
      by (simp add: warranty_unit_ops_def serialize_service_warranty_def written_def)
    then show ?thesis
      using warranty_payload_loads [OF k(1), of w] copied_serial(2) [OF k(3)] l k(2)
      by (simp add: warranty_unit_ops_def)
  qed
  show ?thesis
    using get other again by blast
qed

definition sample_imei :: "u8 list" where
  "sample_imei = map ((+) 0x30) [4, 9, 0, 1, 5, 4, 2, 0, 3, 2, 3, 7, 5, 1, 8] @ [0]"

theorem imei_is_write_once_witness:
  "let st = plain_store load_warranty_defaults;
       st2 = fst (store_warranty_set_purchase_date (\<lambda>w. w) (\<lambda>x _. x) (Some [0x30, 0x31, 0x32, 0x36, 0])
         (fst (store_board_imei_provision (\<lambda>w. w) (\<lambda>x _. x) (Some sample_imei) st)))
   in store_board_imei_get (Some (replicate 16 0)) (st_ram st2) = (STORE_STATUS_OK, Some sample_imei)"
proof -
  define st1 where "st1 = fst (store_board_imei_provision (\<lambda>w. w) (\<lambda>x _. x) (Some sample_imei)
    (plain_store load_warranty_defaults))"
  have "snd (store_board_imei_provision (\<lambda>w. w) (\<lambda>x _. x) (Some sample_imei)
    (plain_store load_warranty_defaults)) = STORE_STATUS_OK"
    by code_simp
  then have ok: "store_board_imei_provision (\<lambda>w. w) (\<lambda>x _. x) (Some sample_imei)
      (plain_store load_warranty_defaults) = (st1, STORE_STATUS_OK)"
    by (simp add: st1_def prod_eq_iff)
  have t: "warranty_typed (st_ram (plain_store load_warranty_defaults))"
    by code_simp
  have s: "take 15 sample_imei @ [0] = sample_imei"
    by code_simp
  from imei_is_write_once [OF _ t ok refl, of "[Op_Purchase_Date (Some [0x30, 0x31, 0x32, 0x36, 0])]"]
  show ?thesis
    by (simp add: s st1_def)
qed

end
