(* ===== verification/Spec2Isabelle.thy ===== *)
theory Spec2Isabelle
  imports Call_Safety Call_Ownership Call_Publish Call_Contracts Event_Queue Line_Framer Storage_Journal
    Charge_Stops Charge_Values Store_Fairness Sms_Session Message_View Nvm_Flash Learning_Samples Power_On_Qualifier Call_Log Store_Words Store_Warranty
begin

text \<open>
  Verification library of the Sisu DCP-3 firmware, a telephone handset on a microcontroller.  The
  sources are C; paths are relative to \<open>src/src\<close> and \<open>src/include\<close> of the repository.

  \<^bold>\<open>The parts and how they interact.\<close>  The modem answers AT commands over a UART.
  \<open>services/modem_line_framer.c\<close> cuts the byte stream into lines, \<open>services/modem_service.c\<close> parses
  them and drives two pure components: \<open>services/modem_call_model.c\<close>, which keeps the set of calls
  that \<open>AT+CLCC\<close> snapshots and indications give evidence of and settles the user's requests against
  it, and \<open>services/modem_sms_protocol.c\<close>, which runs one SMS send over the codecs
  \<open>services/sms_submit_codec.c\<close>, \<open>services/sms_deliver_codec.c\<close> and \<open>services/sms_picture_codec.c\<close>.
  Keys and services reach the applications through \<open>services/event_queue.c\<close>.  The charger is
  supervised by \<open>services/battery_charge_supervisor_logic.c\<close>; its session survives a restart through
  the record codec \<open>storage/store_battery_charge_supervisor.c\<close>, the commit engine
  \<open>storage/store_service.c\<close> and, on raw devices, the journal \<open>storage/storage_journal.c\<close>.

  \<^bold>\<open>Theories.\<close>
  \<^item> \<open>Prelude\<close>: words and their names, list updates, serial-number comparison, loops, and the
    collections \<open>frame_simps\<close> and \<open>inv_intros\<close>.
  \<^item> The call model.  \<open>Call_Types\<close> has the structs field by field.  \<open>Call_Register\<close>,
    \<open>Call_Leg_Table\<close>, \<open>Call_Txn\<close>, \<open>Call_Request\<close>, \<open>Call_Clcc\<close>, \<open>Call_Events\<close>, \<open>Call_Projector\<close> and
    \<open>Call_Schedule\<close> follow \<open>modem_call_model.c\<close> from top to bottom, one definition per function, the
    state passed explicitly and the pointers into its tables as indices.
  \<^item> Its interfaces.  \<open>Call_Frame\<close> says what each primitive leaves alone, \<open>Call_Engine\<close>,
    \<open>Call_Client\<close> and \<open>Call_Inputs\<close> state the few effects the operations are made of as locales
    (\<open>call_engine\<close>, \<open>call_retirement\<close>, \<open>call_admission\<close>, \<open>call_observe\<close> and so on, up to \<open>call_api\<close>)
    and prove once that whatever the effects keep the operations keep.
  \<^item> Its properties.  \<open>Call_Invariant\<close> has the structural invariant, \<open>Call_System\<close> the inputs, steps
    and reachable states, \<open>Call_Eval\<close> the evaluation of concrete models; \<open>Call_Safety\<close>,
    \<open>Call_Ownership\<close>, \<open>Call_Timers\<close>, \<open>Call_Publish\<close> and \<open>Call_Contracts\<close> interpret the interfaces on
    relations to the model before an input and derive the properties.
  \<^item> \<open>Event_Queue\<close>: the ring, refined to a bounded queue through the locale \<open>bounded_fifo\<close>.
    \<open>Line_Framer\<close>: the framer, equal to a reference framer on whole lines.
  \<^item> Storage.  \<open>Storage_Bytes\<close> has the little-endian codecs, \<open>Storage_Journal\<close> the two-slot journal
    over a device that keeps the documented contract \<open>nvm_contract\<close>, \<open>Store_Service\<close> the commit
    engine over codecs and a backend that are function pointers in the code, \<open>Store_Charge\<close> the charge
    record.  \<open>Store_Durability\<close> states the interfaces \<open>unit_codec\<close> and \<open>store_laws\<close>, proves the
    engine over them, and interprets both with the charge record; \<open>Store_Fairness\<close> has the scan.
  \<^item> Charging.  \<open>Charge_Types\<close>, \<open>Charge_Supervisor\<close> (every stage of one update) and \<open>Charge_Restore\<close>
    (persisted sessions, warm restore, completion debounce) model the logic; \<open>Charge_Safety\<close>,
    \<open>Charge_Contracts\<close>, \<open>Charge_Stops\<close> and \<open>Charge_Values\<close> prove it.
  \<^item> SMS.  \<open>Sms_Pack\<close> (septets and hex), \<open>Sms_Decode\<close> (the PDU decoder), \<open>Sms_Submit\<close> and \<open>Sms_Deliver\<close>
    (the encoders) and \<open>Sms_Roundtrip\<close>; \<open>Sms_State\<close> and \<open>Sms_Protocol\<close> (the send transport) and
    \<open>Sms_Session\<close>, the protocol driven by the modem's prompts, finals and timeouts in any order.

  \<^bold>\<open>Conventions.\<close>  A struct is a record, an enum a datatype, \<open>uintN_t\<close> an N-bit word whose arithmetic
  wraps; loop indices and sizes that the code bounds are naturals.  A buffer with its length is the
  list of its live prefix and a C string the list of its bytes before the NUL.  A function that
  answers false without touching its outputs returns \<open>None\<close>; one that also changes state returns the
  state and the answer.  Static variables of a file are the fields of one record.  Pointers that no
  caller passes as NULL are values.

  \<^bold>\<open>What is shown.\<close>  For the calls: well-formedness of every reachable model, exclusive ownership of
  legs, that only evidence changes the set of calls and that a call being torn down never comes back,
  the bounds of the timers, what a request, its dispatch and the guard do, and that the published
  status is one row of the status table.  For the charger: the session invariant, that admission
  evidence is frozen, what a software stop needs, that a stop ends, and that a restart restores
  exactly what was persisted.  For storage: round trips, survival of a torn write, that a unit not
  marked dirty is on the medium, that a clean flush survives a restart, and fairness of the scan.  For
  SMS: the encoders against the decoder, termination of every send, honesty of the reported result,
  and that what is reported as sent is what the receiver reassembles.

  \<^bold>\<open>Bounds and fuel.\<close>  Token allocation tries 13 candidates: twelve slots hold at most twelve live
  tokens, so one is free.  The reconcile passes are loops over the seven legs and twelve transactions.
  Reading hex and a user data header are recursive functions with termination proofs; a session of a
  payload of L bytes takes at most 2 L + 5 events.  A unit waits at most seventeen open ticks.  A
  binary payload has at most 384 octets, as \<open>MODEM_SMS_BINARY_MAX\<close> says.

  \<^bold>\<open>Hypotheses about code that is not here.\<close>  Block devices (\<open>nvm_contract\<close>), record backends and the
  other unit codecs (\<open>store_laws\<close>) keep the contracts their headers document; the vendor's text
  encoder is an argument.

  \<^bold>\<open>Not modelled.\<close>  The orchestration in \<open>services/modem_service.c\<close> and the vendor dialects, the
  user interface, audio, the drivers under \<open>hal\<close>, the vendored littlefs, and tools and tests are
  outside the library.
\<close>

end
